(* ===== verification/Go_Strings.thy ===== *)
theory Go_Strings
  imports Prelude
begin

text \<open>
  The part of Go's \<open>strings\<close>, \<open>strconv\<close> and \<open>fmt\<close> packages the modelled sources call.
  A Go string is a byte sequence, which is what HOL's \<open>string\<close> (a list of 8-bit characters) is,
  so \<open>length\<close> counts bytes as \<open>len\<close> does.

  \<open>to_lower\<close> takes the Unicode case tables as a parameter \<open>uni\<close>: for a string of ASCII bytes
  \<open>strings.ToLower\<close> maps the letters A to Z, for any other string it maps rune by rune through
  the tables of the Go release, which the model leaves open.
\<close>

section \<open>Prefixes, splitting, cutting, counting\<close>

definition has_prefix :: "string \<Rightarrow> string \<Rightarrow> bool" where
  "has_prefix s p \<longleftrightarrow> take (length p) s = p"

definition has_suffix :: "string \<Rightarrow> string \<Rightarrow> bool" where
  "has_suffix s p \<longleftrightarrow> length p \<le> length s \<and> drop (length s - length p) s = p"

lemma has_prefix_append [simp]: "has_prefix (p @ s) p"
  by (simp add: has_prefix_def)

lemma has_prefixD: "has_prefix s p \<Longrightarrow> s = p @ drop (length p) s"
  by (metis append_take_drop_id has_prefix_def)

lemma has_prefix_Nil [simp]: "has_prefix s []"
  by (simp add: has_prefix_def)

lemma has_prefix_length: "has_prefix s p \<Longrightarrow> length p \<le> length s"
  by (metis has_prefixD length_append le_add1)

text \<open>\<open>strings.Split\<close> with a one-byte separator.\<close>

fun split_char :: "char \<Rightarrow> string \<Rightarrow> string list" where
  "split_char c [] = [[]]"
| "split_char c (x # xs) =
     (if x = c then [] # split_char c xs
      else (case split_char c xs of
              [] \<Rightarrow> [[x]]
            | y # ys \<Rightarrow> (x # y) # ys))"

fun join_char :: "char \<Rightarrow> string list \<Rightarrow> string" where
  "join_char c [] = []"
| "join_char c [x] = x"
| "join_char c (x # y # ys) = x @ c # join_char c (y # ys)"

lemma split_char_not_Nil [simp]: "split_char c s \<noteq> []"
  by (induction s) (auto split: list.splits)

lemma split_char_none: "c \<notin> set s \<Longrightarrow> split_char c s = [s]"
  by (induction s) auto

lemma split_char_append [go_simps]:
  "c \<notin> set a \<Longrightarrow> split_char c (a @ c # b) = a # split_char c b"
  by (induction a) auto

lemma join_char_head: "ys \<noteq> [] \<Longrightarrow> join_char c ((x # y) # ys) = x # join_char c (y # ys)"
  by (cases ys) auto

lemma join_split_char: "join_char c (split_char c s) = s"
proof (induction s)
  case (Cons x xs)
  then show ?case
    by (cases "split_char c xs"; cases "tl (split_char c xs)") auto
qed simp

lemma split_char_parts: "p \<in> set (split_char c s) \<Longrightarrow> c \<notin> set p"
proof (induction s arbitrary: p)
  case (Cons x xs)
  then show ?case
    by (cases "split_char c xs") (auto split: if_splits)
qed simp

text \<open>\<open>strings.Count\<close> counts non-overlapping occurrences; \<open>strings.Cut\<close> splits at the first one.\<close>

function str_count :: "string \<Rightarrow> string \<Rightarrow> nat" where
  "str_count s sub =
     (if sub = [] then Suc (length s)
      else if s = [] then 0
      else if has_prefix s sub then Suc (str_count (drop (length sub) s) sub)
      else str_count (tl s) sub)"
  by pat_completeness auto
termination
  by (relation "measure (\<lambda>(s, sub). length s)") (auto simp: neq_Nil_conv)

declare str_count.simps [simp del]

fun str_cut :: "string \<Rightarrow> string \<Rightarrow> (string \<times> string) option" where
  "str_cut [] sep = (if sep = [] then Some ([], []) else None)"
| "str_cut (x # xs) sep =
     (if has_prefix (x # xs) sep then Some ([], drop (length sep) (x # xs))
      else map_option (\<lambda>(a, b). (x # a, b)) (str_cut xs sep))"

definition contains :: "string \<Rightarrow> string \<Rightarrow> bool" where
  "contains s sub \<longleftrightarrow> str_cut s sub \<noteq> None"

lemma str_cut_Some: "str_cut s sep = Some (a, b) \<Longrightarrow> s = a @ sep @ b"
proof (induction s arbitrary: a)
  case (Cons x xs)
  then show ?case
    by (cases "has_prefix (x # xs) sep") (auto dest: has_prefixD)
qed (auto split: if_splits)

lemma str_count_pos_cut: "sep \<noteq> [] \<Longrightarrow> 0 < str_count s sep \<longleftrightarrow> str_cut s sep \<noteq> None"
proof (induction s)
  case Nil
  then show ?case by (simp add: str_count.simps)
next
  case (Cons x xs)
  then show ?case
    by (cases "has_prefix (x # xs) sep") (simp_all add: str_count.simps [of "x # xs"])
qed

lemma str_count_zero_iff: "sep \<noteq> [] \<Longrightarrow> str_count s sep = 0 \<longleftrightarrow> \<not> contains s sep"
  using str_count_pos_cut [of sep s] by (auto simp: contains_def)

text \<open>A separator whose first byte does not occur is not found, and is found right after such a text.\<close>

lemma has_prefix_hd: "has_prefix (x # xs) (c # sep) \<Longrightarrow> x = c"
  by (simp add: has_prefix_def)

lemma str_cut_absent: "c \<notin> set s \<Longrightarrow> str_cut s (c # sep) = None"
  by (induction s) (auto dest: has_prefix_hd)

lemma str_cut_first: "c \<notin> set a \<Longrightarrow> str_cut (a @ (c # sep) @ b) (c # sep) = Some (a, b)"
proof (induction a)
  case Nil
  then show ?case by (simp add: has_prefix_def)
next
  case (Cons x a)
  then show ?case by (auto dest: has_prefix_hd)
qed

lemma str_count_absent: "c \<notin> set s \<Longrightarrow> str_count s (c # sep) = 0"
  by (simp add: str_count_zero_iff contains_def str_cut_absent)

lemma str_count_first:
  "c \<notin> set a \<Longrightarrow> str_count (a @ (c # sep) @ b) (c # sep) = Suc (str_count b (c # sep))"
proof (induction a)
  case Nil
  then show ?case
    by (subst str_count.simps) (simp add: has_prefix_def)
next
  case (Cons x a)
  then show ?case
    by (subst str_count.simps) (auto dest: has_prefix_hd)
qed

section \<open>White space and case\<close>

text \<open>
  \<open>strings.TrimSpace\<close> removes leading and trailing runes with the Unicode property White_Space.
  These are the UTF-8 encodings of those runes; no encoding is a prefix or a suffix of another.
\<close>

definition space_runes :: "string list" where
  "space_runes =
     map (map char_of)
       ([[9], [10], [11], [12], [13], [32], [194, 133], [194, 160], [225, 154, 128],
         [226, 128, 168], [226, 128, 169], [226, 128, 175], [226, 129, 159], [227, 128, 128],
         [226, 128, 128], [226, 128, 129], [226, 128, 130], [226, 128, 131], [226, 128, 132],
         [226, 128, 133], [226, 128, 134], [226, 128, 135], [226, 128, 136], [226, 128, 137],
         [226, 128, 138]] :: nat list list)"

lemma space_runes_not_Nil: "w \<in> set space_runes \<Longrightarrow> w \<noteq> []"
  by (auto simp: space_runes_def)

function trim_left :: "string \<Rightarrow> string" where
  "trim_left s =
     (case find (\<lambda>w. has_prefix s w) space_runes of
        None \<Rightarrow> s
      | Some w \<Rightarrow> trim_left (drop (length w) s))"
  by pat_completeness auto
termination
proof (relation "measure length")
  fix s w
  assume "find (\<lambda>w. has_prefix s w) space_runes = Some w"
  then have w: "w \<in> set space_runes" "has_prefix s w"
    by (auto simp: find_Some_iff)
  then have "w \<noteq> []" by (rule_tac space_runes_not_Nil)
  then have "0 < length w" by simp
  moreover have "length w \<le> length s" using w by (auto dest: has_prefix_length)
  ultimately have "length s - length w < length s" by linarith
  then show "(drop (length w) s, s) \<in> measure length" by simp
qed simp

function trim_right :: "string \<Rightarrow> string" where
  "trim_right s =
     (case find (\<lambda>w. has_suffix s w) space_runes of
        None \<Rightarrow> s
      | Some w \<Rightarrow> trim_right (take (length s - length w) s))"
  by pat_completeness auto
termination
proof (relation "measure length")
  fix s w
  assume "find (\<lambda>w. has_suffix s w) space_runes = Some w"
  then have w: "w \<in> set space_runes" "has_suffix s w"
    by (auto simp: find_Some_iff)
  then have "w \<noteq> []" by (rule_tac space_runes_not_Nil)
  then have "0 < length w" by simp
  moreover have "length w \<le> length s" using w by (auto simp: has_suffix_def)
  ultimately have "length s - length w < length s" by linarith
  then show "(take (length s - length w) s, s) \<in> measure length" by simp
qed simp

declare trim_left.simps [simp del] trim_right.simps [simp del]

definition trim_space :: "string \<Rightarrow> string" where
  "trim_space s = trim_right (trim_left s)"

definition no_outer_space :: "string \<Rightarrow> bool" where
  "no_outer_space s \<longleftrightarrow> (\<forall>w\<in>set space_runes. \<not> has_prefix s w \<and> \<not> has_suffix s w)"

lemma trim_space_id: "no_outer_space s \<Longrightarrow> trim_space s = s"
proof -
  assume n: "no_outer_space s"
  then have "find (\<lambda>w. has_prefix s w) space_runes = None"
    and "find (\<lambda>w. has_suffix s w) space_runes = None"
    by (auto simp: find_None_iff no_outer_space_def)
  then show ?thesis
    by (simp add: trim_space_def trim_left.simps trim_right.simps)
qed

lemma trim_space_plain:
  assumes "s \<noteq> []" "\<forall>c\<in>set s. 33 \<le> byte c \<and> byte c < 128"
  shows "trim_space s = s"
proof (rule trim_space_id)
  have bad: "\<exists>c\<in>set w. byte c < 33 \<or> 128 \<le> byte c" if "w \<in> set space_runes" for w
    using that by (auto simp: space_runes_def byte_def)
  show "no_outer_space s"
    unfolding no_outer_space_def
  proof (intro ballI conjI notI)
    fix w assume w: "w \<in> set space_runes" and "has_prefix s w"
    then have "set w \<subseteq> set s" by (metis has_prefix_def set_take_subset)
    with bad [OF w] assms show False by fastforce
  next
    fix w assume w: "w \<in> set space_runes" and "has_suffix s w"
    then have "set w \<subseteq> set s" by (metis has_suffix_def set_drop_subset)
    with bad [OF w] assms show False by fastforce
  qed
qed

definition is_ascii :: "string \<Rightarrow> bool" where
  "is_ascii s \<longleftrightarrow> (\<forall>c\<in>set s. byte c < 128)"

definition ascii_lower :: "char \<Rightarrow> char" where
  "ascii_lower c = (if 65 \<le> byte c \<and> byte c \<le> 90 then char_of (byte c + 32) else c)"

definition to_lower :: "(string \<Rightarrow> string) \<Rightarrow> string \<Rightarrow> string" where
  "to_lower uni s = (if is_ascii s then map ascii_lower s else uni s)"

definition is_lower_ascii :: "string \<Rightarrow> bool" where
  "is_lower_ascii s \<longleftrightarrow> (\<forall>c\<in>set s. byte c < 128 \<and> \<not> (65 \<le> byte c \<and> byte c \<le> 90))"

lemma to_lower_id: "is_lower_ascii s \<Longrightarrow> to_lower uni s = s"
  by (auto simp: to_lower_def is_lower_ascii_def is_ascii_def ascii_lower_def intro!: map_idI)

section \<open>Integers as text\<close>

definition show_int :: "int \<Rightarrow> string" where
  "show_int i = (if i < 0 then CHR ''-'' # show_nat (nat (- i)) else show_nat (nat i))"

text \<open>
  \<open>strconv.ParseInt(s, 10, bits)\<close>: an optional sign, at least one digit, nothing else, and a
  value that fits a two's complement integer of the given width. \<open>strconv.Atoi\<close> is the 64-bit case.
\<close>

definition parse_unsigned :: "nat \<Rightarrow> bool \<Rightarrow> string \<Rightarrow> int option" where
  "parse_unsigned bits neg ds =
     (if ds = [] \<or> \<not> list_all is_digit ds then None
      else let n = read_nat ds in
        if neg then (if n \<le> 2 ^ (bits - 1) then Some (- int n) else None)
        else (if n < 2 ^ (bits - 1) then Some (int n) else None))"

definition parse_int :: "nat \<Rightarrow> string \<Rightarrow> int option" where
  "parse_int bits s =
     (case s of
        [] \<Rightarrow> None
      | c # r \<Rightarrow>
          if c = CHR ''+'' then parse_unsigned bits False r
          else if c = CHR ''-'' then parse_unsigned bits True r
          else parse_unsigned bits False s)"

definition atoi :: "string \<Rightarrow> int option" where
  "atoi s = parse_int 64 s"

lemma digit_not_sign: "is_digit c \<Longrightarrow> c \<noteq> CHR ''+'' \<and> c \<noteq> CHR ''-''"
  by (auto simp: is_digit_def byte_def)

lemma parse_int_digits:
  assumes "s \<noteq> []" "list_all is_digit s"
  shows "parse_int bits s = (if read_nat s < 2 ^ (bits - 1) then Some (int (read_nat s)) else None)"
proof -
  obtain c r where "s = c # r" using assms(1) by (cases s) auto
  moreover have "c \<noteq> CHR ''+'' \<and> c \<noteq> CHR ''-''"
    using assms(2) calculation by (intro digit_not_sign) simp
  ultimately show ?thesis using assms(2) by (simp add: parse_int_def parse_unsigned_def Let_def)
qed

lemma show_nat_list_all [simp]: "list_all is_digit (show_nat n)"
  by (auto simp: list_all_iff dest: show_nat_digits)

lemma parse_int_show_int [codec_intros]:
  assumes "- (2 ^ (bits - 1)) \<le> i" "i < 2 ^ (bits - 1)"
  shows "parse_int bits (show_int i) = Some i"
proof (cases "i < 0")
  case True
  then have "nat (- i) \<le> 2 ^ (bits - 1)" using assms(1) by (simp add: nat_le_iff)
  with True show ?thesis
    by (simp add: show_int_def parse_int_def parse_unsigned_def Let_def)
next
  case False
  then have "nat i < 2 ^ (bits - 1)" using assms(2) by (simp add: nat_less_iff)
  with False show ?thesis by (simp add: show_int_def parse_int_digits)
qed

lemma parse_unsigned_range:
  assumes "parse_unsigned bits neg ds = Some i"
  shows "- (2 ^ (bits - 1)) \<le> i \<and> i < 2 ^ (bits - 1)"
proof -
  let ?n = "int (read_nat ds)"
  have "i = - ?n \<and> ?n \<le> 2 ^ (bits - 1) \<or> i = ?n \<and> ?n < 2 ^ (bits - 1)"
    using assms by (auto simp: parse_unsigned_def Let_def split: if_splits)
  moreover have "(0::int) < 2 ^ (bits - 1)" "0 \<le> ?n" by simp_all
  ultimately show ?thesis by linarith
qed

lemma parse_int_range:
  "parse_int bits s = Some i \<Longrightarrow> - (2 ^ (bits - 1)) \<le> i \<and> i < 2 ^ (bits - 1)"
  by (auto simp: parse_int_def split: list.splits if_splits dest: parse_unsigned_range)

end
