(* ===== verification/Codec.thy ===== *)
theory Codec
  imports Go_Strings
begin

text \<open>
  The contracts of a text format. A \<open>text_format\<close> reads back what it prints; a
  \<open>canonical_format\<close> accepts nothing but printed values, so every value has exactly one
  accepted spelling. Both are interpreted where a formatter and its parser are modelled
  (anchors, anchor points, legacy keys, ayah keys).
\<close>

locale text_format =
  fixes print :: "'a \<Rightarrow> string"
    and parse :: "string \<Rightarrow> 'e + 'a"
    and ok :: "'a \<Rightarrow> bool"
  assumes parse_print: "ok x \<Longrightarrow> parse (print x) = Inr x"
begin

lemma print_inject: "ok x \<Longrightarrow> ok y \<Longrightarrow> print x = print y \<Longrightarrow> x = y"
  by (metis parse_print sum.inject(2))

lemma inj_on_print: "inj_on print (Collect ok)"
  by (auto intro!: inj_onI print_inject)

end

locale canonical_format =
  fixes print :: "'a \<Rightarrow> string"
    and parse :: "string \<Rightarrow> 'e + 'a"
    and ok :: "'a \<Rightarrow> bool"
  assumes parse_iff: "parse s = Inr x \<longleftrightarrow> ok x \<and> s = print x"

sublocale canonical_format \<subseteq> fmt: text_format print parse ok
  by unfold_locales (simp add: parse_iff)

context canonical_format
begin

lemma parse_ok: "parse s = Inr x \<Longrightarrow> ok x"
  by (simp add: parse_iff)

lemma print_parse: "parse s = Inr x \<Longrightarrow> print x = s"
  by (simp add: parse_iff)

lemma unique_spelling: "parse s = Inr x \<Longrightarrow> parse t = Inr x \<Longrightarrow> s = t"
  by (simp add: parse_iff)

lemma accepted_iff: "is_ok (parse s) \<longleftrightarrow> (\<exists>x. ok x \<and> s = print x)"
  by (auto simp: is_ok_iff parse_iff)

end

end
