(* ===== verification/Anchor.thy ===== *)
theory Anchor
  imports Codec
begin

text \<open>
  Package \<open>internal/anchor\<close>: the canonical cross-corpus Anchor grammar. The first part follows
  \<open>anchor.go\<close> (points, constructors, validity, ranges), the second \<open>parse.go\<close>. The exact
  characterisations \<open>parsePoint_iff\<close>, \<open>ParsePoint_iff\<close> and \<open>Parse_iff\<close> say that the parser accepts
  the formatted values and nothing else; the interpretations of \<open>canonical_format\<close> turn them
  into the round trips.
\<close>

section \<open>Points (anchor.go)\<close>

definition MaxLength :: nat where
  "MaxLength = 512"

definition maxPostgresInteger :: int where
  "maxPostgresInteger = 2 ^ 31 - 1"

datatype anchor_error = ErrInvalid string

text \<open>The empty corpus and the empty kind are the fields of the zero \<open>Point\<close>.\<close>

datatype Corpus = NoCorpus | CorpusQuran | CorpusKitab | CorpusHadith | CorpusWiki | CorpusEntity

fun corpus_name :: "Corpus \<Rightarrow> string" where
  "corpus_name NoCorpus = ''''"
| "corpus_name CorpusQuran = ''quran''"
| "corpus_name CorpusKitab = ''kitab''"
| "corpus_name CorpusHadith = ''hadith''"
| "corpus_name CorpusWiki = ''wiki''"
| "corpus_name CorpusEntity = ''entity''"

datatype PointKind =
  NoKind | QuranSurah | QuranAyah | QuranUnit | KitabWork | KitabHeading | KitabUnit

record Point =
  pt_corpus :: Corpus
  pt_kind :: PointKind
  pt_bookID :: int
  pt_headingID :: int
  pt_ordinal :: int
  pt_surah :: int
  pt_ayah :: int

definition zero_point :: Point where
  "zero_point = \<lparr>pt_corpus = NoCorpus, pt_kind = NoKind, pt_bookID = 0, pt_headingID = 0,
     pt_ordinal = 0, pt_surah = 0, pt_ayah = 0\<rparr>"

definition positiveInteger :: "int \<Rightarrow> bool" where
  "positiveInteger v \<longleftrightarrow> v > 0 \<and> v \<le> maxPostgresInteger"

definition nonNegativeInteger :: "int \<Rightarrow> bool" where
  "nonNegativeInteger v \<longleftrightarrow> v \<ge> 0 \<and> v \<le> maxPostgresInteger"

definition NewQuranSurah :: "int \<Rightarrow> anchor_error + Point" where
  "NewQuranSurah s =
     (if \<not> positiveInteger s
      then Inl (ErrInvalid ''Quran surah must be a positive PostgreSQL integer'')
      else Inr (zero_point\<lparr>pt_corpus := CorpusQuran, pt_kind := QuranSurah, pt_surah := s\<rparr>))"

definition NewQuranAyah :: "int \<Rightarrow> int \<Rightarrow> anchor_error + Point" where
  "NewQuranAyah s a =
     (if \<not> positiveInteger s \<or> \<not> positiveInteger a
      then Inl (ErrInvalid ''Quran surah and ayah must be positive PostgreSQL integers'')
      else Inr (zero_point\<lparr>pt_corpus := CorpusQuran, pt_kind := QuranAyah,
                           pt_surah := s, pt_ayah := a\<rparr>))"

definition NewQuranUnit :: "int \<Rightarrow> int \<Rightarrow> int \<Rightarrow> anchor_error + Point" where
  "NewQuranUnit s a n =
     (if \<not> positiveInteger s \<or> \<not> positiveInteger a \<or> \<not> positiveInteger n
      then Inl (ErrInvalid
        ''Quran surah, ayah, and unit ordinal must be positive PostgreSQL integers'')
      else Inr (zero_point\<lparr>pt_corpus := CorpusQuran, pt_kind := QuranUnit,
                           pt_surah := s, pt_ayah := a, pt_ordinal := n\<rparr>))"

definition NewKitabWork :: "int \<Rightarrow> anchor_error + Point" where
  "NewKitabWork b =
     (if \<not> positiveInteger b
      then Inl (ErrInvalid ''kitab book id must be a positive PostgreSQL integer'')
      else Inr (zero_point\<lparr>pt_corpus := CorpusKitab, pt_kind := KitabWork, pt_bookID := b\<rparr>))"

definition NewKitabHeading :: "int \<Rightarrow> int \<Rightarrow> anchor_error + Point" where
  "NewKitabHeading b h =
     (if \<not> positiveInteger b \<or> \<not> positiveInteger h
      then Inl (ErrInvalid ''kitab book and heading ids must be positive PostgreSQL integers'')
      else Inr (zero_point\<lparr>pt_corpus := CorpusKitab, pt_kind := KitabHeading,
                           pt_bookID := b, pt_headingID := h\<rparr>))"

definition NewKitabUnit :: "int \<Rightarrow> int \<Rightarrow> int \<Rightarrow> anchor_error + Point" where
  "NewKitabUnit b h n =
     (if \<not> positiveInteger b \<or> \<not> nonNegativeInteger h \<or> \<not> positiveInteger n
      then Inl (ErrInvalid (''kitab book id and ordinal must be positive PostgreSQL integers '' @
             ''and heading id may additionally be zero''))
      else Inr (zero_point\<lparr>pt_corpus := CorpusKitab, pt_kind := KitabUnit,
                           pt_bookID := b, pt_headingID := h, pt_ordinal := n\<rparr>))"

definition point_string :: "Point \<Rightarrow> string" where
  "point_string p =
     (case pt_kind p of
        QuranSurah \<Rightarrow> ''quran/'' @ show_int (pt_surah p)
      | QuranAyah \<Rightarrow> ''quran/'' @ show_int (pt_surah p) @ '':'' @ show_int (pt_ayah p)
      | QuranUnit \<Rightarrow> ''quran/'' @ show_int (pt_surah p) @ '':'' @ show_int (pt_ayah p) @ ''/u/'' @
                     show_int (pt_ordinal p)
      | KitabWork \<Rightarrow> ''kitab/'' @ show_int (pt_bookID p)
      | KitabHeading \<Rightarrow> ''kitab/'' @ show_int (pt_bookID p) @ ''/h/'' @ show_int (pt_headingID p)
      | KitabUnit \<Rightarrow> ''kitab/'' @ show_int (pt_bookID p) @ ''/h/'' @ show_int (pt_headingID p) @
                     ''/u/'' @ show_int (pt_ordinal p)
      | NoKind \<Rightarrow> '''')"

definition validQuranSurah :: "Point \<Rightarrow> bool" where
  "validQuranSurah p \<longleftrightarrow>
     pt_corpus p = CorpusQuran \<and> positiveInteger (pt_surah p) \<and> pt_ayah p = 0"

definition validQuranAyah :: "Point \<Rightarrow> bool" where
  "validQuranAyah p \<longleftrightarrow>
     pt_corpus p = CorpusQuran \<and> positiveInteger (pt_surah p) \<and> positiveInteger (pt_ayah p)"

definition validQuranUnit :: "Point \<Rightarrow> bool" where
  "validQuranUnit p \<longleftrightarrow> validQuranAyah p \<and> positiveInteger (pt_ordinal p)"

definition validKitabWork :: "Point \<Rightarrow> bool" where
  "validKitabWork p \<longleftrightarrow> pt_corpus p = CorpusKitab \<and> positiveInteger (pt_bookID p)"

definition validKitabHeading :: "Point \<Rightarrow> bool" where
  "validKitabHeading p \<longleftrightarrow> validKitabWork p \<and> positiveInteger (pt_headingID p)"

definition validKitabUnit :: "Point \<Rightarrow> bool" where
  "validKitabUnit p \<longleftrightarrow>
     validKitabWork p \<and> nonNegativeInteger (pt_headingID p) \<and> positiveInteger (pt_ordinal p)"

definition point_valid :: "Point \<Rightarrow> bool" where
  "point_valid p =
     (case pt_kind p of
        QuranSurah \<Rightarrow> validQuranSurah p
      | QuranAyah \<Rightarrow> validQuranAyah p
      | QuranUnit \<Rightarrow> validQuranUnit p
      | KitabWork \<Rightarrow> validKitabWork p
      | KitabHeading \<Rightarrow> validKitabHeading p
      | KitabUnit \<Rightarrow> validKitabUnit p
      | NoKind \<Rightarrow> False)"

section \<open>Values: a point or a range (anchor.go)\<close>

record Value =
  val_start :: Point
  val_end :: "Point option"

definition value_string :: "Value \<Rightarrow> string" where
  "value_string v =
     (case val_end v of
        Some e \<Rightarrow> point_string (val_start v) @ ''..'' @ point_string e
      | None \<Rightarrow> point_string (val_start v))"

definition FromPoint :: "Point \<Rightarrow> anchor_error + Value" where
  "FromPoint p =
     (if \<not> point_valid p then Inl (ErrInvalid ''invalid point value'')
      else Inr \<lparr>val_start = p, val_end = None\<rparr>)"

definition validateQuranRangeScope :: "Point \<Rightarrow> Point \<Rightarrow> anchor_error + unit" where
  "validateQuranRangeScope s e =
     (if pt_kind s \<noteq> QuranAyah \<or> pt_kind e \<noteq> QuranAyah
      then Inl (ErrInvalid ''Quran ranges require two ayah boundaries'')
      else if pt_surah s \<noteq> pt_surah e
      then Inl (ErrInvalid ''Quran range boundaries must use one surah'')
      else if pt_ayah e < pt_ayah s
      then Inl (ErrInvalid ''Quran range end must not precede its start'')
      else Inr ())"

definition validateRangeScope :: "Point \<Rightarrow> Point \<Rightarrow> anchor_error + unit" where
  "validateRangeScope s e =
     (if pt_corpus s \<noteq> pt_corpus e
      then Inl (ErrInvalid ''range boundaries must use one corpus'')
      else case pt_corpus s of
        CorpusQuran \<Rightarrow> validateQuranRangeScope s e
      | CorpusKitab \<Rightarrow>
          if pt_bookID s \<noteq> pt_bookID e
          then Inl (ErrInvalid ''kitab range boundaries must use one Work'')
          else Inr ()
      | _ \<Rightarrow> Inl (ErrInvalid ''corpus has no active range profile''))"

definition NewRange :: "Point \<Rightarrow> Point \<Rightarrow> anchor_error + Value" where
  "NewRange s e =
     (if \<not> point_valid s \<or> \<not> point_valid e then Inl (ErrInvalid ''invalid range boundary'')
      else res_bind (validateRangeScope s e) (\<lambda>_.
        let v = \<lparr>val_start = s, val_end = Some e\<rparr> in
        if MaxLength < length (value_string v)
        then Inl (ErrInvalid ''range exceeds 512 bytes'')
        else Inr v))"

section \<open>The parser (parse.go)\<close>

definition validateLexicalForm :: "string \<Rightarrow> anchor_error + unit" where
  "validateLexicalForm raw =
     (if raw = [] then Inl (ErrInvalid ''value is empty'')
      else if MaxLength < length raw then Inl (ErrInvalid ''value exceeds 512 bytes'')
      else case find (\<lambda>c. byte c < 33 \<or> 126 < byte c \<or> 65 \<le> byte c \<and> byte c \<le> 90) raw of
        None \<Rightarrow> Inr ()
      | Some c \<Rightarrow>
          if byte c < 33 \<or> 126 < byte c
          then Inl (ErrInvalid ''value must contain visible ASCII only'')
          else Inl (ErrInvalid ''ASCII letters must be lowercase''))"

definition parseDecimal :: "string \<Rightarrow> bool \<Rightarrow> anchor_error + int" where
  "parseDecimal raw allowZero =
     (if raw = [] then Inl (ErrInvalid ''decimal component is empty'')
      else if 1 < length raw \<and> hd raw = CHR ''0''
      then Inl (ErrInvalid ''decimal component has a leading zero'')
      else if \<not> list_all is_digit raw
      then Inl (ErrInvalid ''decimal component contains a non-ASCII digit'')
      else case parse_int 32 raw of
        None \<Rightarrow> Inl (ErrInvalid ''decimal component exceeds a PostgreSQL integer'')
      | Some v \<Rightarrow>
          if v = 0 \<and> \<not> allowZero
          then Inl (ErrInvalid ''decimal component must be positive'')
          else Inr v)"

definition parseAyahLocator :: "string \<Rightarrow> anchor_error + int \<times> int" where
  "parseAyahLocator raw =
     (if str_count raw '':'' \<noteq> 1
      then Inl (ErrInvalid ''ayah locator must use {surah}:{ayah}'')
      else case str_cut raw '':'' of
        None \<Rightarrow> Inl (ErrInvalid ''ayah locator must use {surah}:{ayah}'')
      | Some (surahRaw, ayahRaw) \<Rightarrow>
          res_bind (parseDecimal surahRaw False) (\<lambda>s.
          res_bind (parseDecimal ayahRaw False) (\<lambda>a.
          Inr (s, a))))"

definition parseQuranPoint :: "string list \<Rightarrow> anchor_error + Point" where
  "parseQuranPoint parts =
     (case parts of
        [_, loc, u, ord] \<Rightarrow>
          if u \<noteq> ''u'' then Inl (ErrInvalid ''Quran unit hierarchy must use u'')
          else res_bind (parseAyahLocator loc) (\<lambda>(s, a).
               res_bind (parseDecimal ord False) (\<lambda>n.
               NewQuranUnit s a n))
      | [_, loc] \<Rightarrow>
          if \<not> contains loc '':'' then
            res_bind (parseDecimal loc False) NewQuranSurah
          else res_bind (parseAyahLocator loc) (\<lambda>(s, a). NewQuranAyah s a)
      | _ \<Rightarrow> Inl (ErrInvalid
               ''Quran point must use quran/{surah} or quran/{surah}:{ayah}''))"

definition parseKitabWork :: "string \<Rightarrow> anchor_error + Point" where
  "parseKitabWork book = res_bind (parseDecimal book False) NewKitabWork"

definition parseKitabHeading :: "string \<Rightarrow> string \<Rightarrow> string \<Rightarrow> anchor_error + Point" where
  "parseKitabHeading book h heading =
     (if h \<noteq> ''h'' then Inl (ErrInvalid ''kitab hierarchy must use h'')
      else res_bind (parseDecimal book False) (\<lambda>b.
           res_bind (parseDecimal heading False) (\<lambda>hid.
           NewKitabHeading b hid)))"

definition parseKitabUnit ::
  "string \<Rightarrow> string \<Rightarrow> string \<Rightarrow> string \<Rightarrow> string \<Rightarrow> anchor_error + Point" where
  "parseKitabUnit book h heading u ord =
     (if h \<noteq> ''h'' then Inl (ErrInvalid ''kitab hierarchy must use h'')
      else if u \<noteq> ''u'' then Inl (ErrInvalid ''kitab unit hierarchy must use u'')
      else res_bind (parseDecimal book False) (\<lambda>b.
           res_bind (parseDecimal heading True) (\<lambda>hid.
           res_bind (parseDecimal ord False) (\<lambda>n.
           NewKitabUnit b hid n))))"

definition parseKitabPoint :: "string list \<Rightarrow> anchor_error + Point" where
  "parseKitabPoint parts =
     (case parts of
        [_, book] \<Rightarrow> parseKitabWork book
      | [_, book, h, heading] \<Rightarrow> parseKitabHeading book h heading
      | [_, book, h, heading, u, ord] \<Rightarrow> parseKitabUnit book h heading u ord
      | _ \<Rightarrow> Inl (ErrInvalid ''unsupported kitab point profile''))"

definition parsePoint :: "string \<Rightarrow> anchor_error + Point" where
  "parsePoint raw =
     (let parts = split_char (CHR ''/'') raw in
      case parts of
        [] \<Rightarrow> Inl (ErrInvalid ''point is empty'')
      | c # _ \<Rightarrow>
          if c = corpus_name CorpusQuran then parseQuranPoint parts
          else if c = corpus_name CorpusKitab then parseKitabPoint parts
          else if c = corpus_name CorpusHadith \<or> c = corpus_name CorpusWiki \<or>
                  c = corpus_name CorpusEntity
          then Inl (ErrInvalid (''corpus '' @ [CHR 0x22] @ c @ [CHR 0x22] @
                 '' is reserved and not resolvable''))
          else Inl (ErrInvalid ''unsupported corpus''))"

definition Parse :: "string \<Rightarrow> anchor_error + Value" where
  "Parse raw =
     res_bind (validateLexicalForm raw) (\<lambda>_.
       let separatorCount = str_count raw ''..'' in
       if separatorCount = 0 then res_bind (parsePoint raw) FromPoint
       else if separatorCount \<noteq> 1
       then Inl (ErrInvalid ''range must contain exactly two full points'')
       else case str_cut raw ''..'' of
         None \<Rightarrow> Inl (ErrInvalid ''range must contain exactly two full points'')
       | Some (startRaw, endRaw) \<Rightarrow>
           res_bind (parsePoint startRaw) (\<lambda>s.
           res_bind (parsePoint endRaw) (\<lambda>e.
           NewRange s e)))"

definition ParsePoint :: "string \<Rightarrow> anchor_error + Point" where
  "ParsePoint raw =
     res_bind (validateLexicalForm raw) (\<lambda>_.
       if contains raw ''..'' then Inl (ErrInvalid ''ParsePoint does not accept ranges'')
       else parsePoint raw)"

definition ParseLegacyAyahKey :: "string \<Rightarrow> anchor_error + Point" where
  "ParseLegacyAyahKey raw =
     res_bind (validateLexicalForm raw) (\<lambda>_.
     res_bind (parseAyahLocator raw) (\<lambda>(s, a). NewQuranAyah s a))"

definition ParseLegacyTOC :: "string \<Rightarrow> anchor_error + int" where
  "ParseLegacyTOC raw =
     res_bind (validateLexicalForm raw) (\<lambda>_.
       if \<not> has_prefix raw ''toc-''
       then Inl (ErrInvalid ''legacy heading must use toc-{heading_id}'')
       else parseDecimal (drop (length ''toc-'') raw) False)"

section \<open>Built values\<close>

text \<open>
  The fields of \<open>Point\<close> and \<open>Value\<close> are private, so a program holds only what the constructors
  return. These predicates are that set.
\<close>

inductive point_built :: "Point \<Rightarrow> bool" where
  surah: "NewQuranSurah s = Inr p \<Longrightarrow> point_built p"
| ayah: "NewQuranAyah s a = Inr p \<Longrightarrow> point_built p"
| quran_unit: "NewQuranUnit s a n = Inr p \<Longrightarrow> point_built p"
| work: "NewKitabWork b = Inr p \<Longrightarrow> point_built p"
| heading: "NewKitabHeading b h = Inr p \<Longrightarrow> point_built p"
| kitab_unit: "NewKitabUnit b h n = Inr p \<Longrightarrow> point_built p"

inductive value_built :: "Value \<Rightarrow> bool" where
  point: "point_built p \<Longrightarrow> FromPoint p = Inr v \<Longrightarrow> value_built v"
| range: "point_built s \<Longrightarrow> point_built e \<Longrightarrow> NewRange s e = Inr v \<Longrightarrow> value_built v"

lemmas new_point_defs = NewQuranSurah_def NewQuranAyah_def NewQuranUnit_def
  NewKitabWork_def NewKitabHeading_def NewKitabUnit_def

lemmas valid_point_defs = validQuranSurah_def validQuranAyah_def validQuranUnit_def
  validKitabWork_def validKitabHeading_def validKitabUnit_def

lemma point_built_valid: "point_built p \<Longrightarrow> point_valid p"
  by (induction rule: point_built.induct)
     (auto simp: new_point_defs valid_point_defs point_valid_def zero_point_def split: if_splits)

section \<open>Decimal components\<close>

lemma show_int_nonneg: "0 \<le> v \<Longrightarrow> show_int v = show_nat (nat v)"
  by (simp add: show_int_def)

lemma parseDecimal_iff:
  "parseDecimal raw z = Inr v \<longleftrightarrow> nonNegativeInteger v \<and> (v = 0 \<longrightarrow> z) \<and> raw = show_int v"
    (is "?l \<longleftrightarrow> ?r")
proof
  assume l: ?l
  then have raw: "raw \<noteq> []" "list_all is_digit raw" "length raw = 1 \<or> hd raw \<noteq> CHR ''0''"
    by (auto simp: parseDecimal_def length_Suc_conv neq_Nil_conv split: if_splits)
  with l have "read_nat raw < 2 ^ 31" "v = int (read_nat raw)" "v = 0 \<longrightarrow> z"
    by (auto simp: parseDecimal_def parse_int_digits split: if_splits)
  moreover have "show_nat (read_nat raw) = raw"
    using raw by (intro show_read_nat) (auto simp: list_all_iff)
  ultimately show ?r
    by (auto simp: nonNegativeInteger_def maxPostgresInteger_def show_int_def)
next
  assume r: ?r
  then obtain n where v: "v = int n" and n: "n < 2 ^ 31"
    by (cases v) (auto simp: nonNegativeInteger_def maxPostgresInteger_def)
  have "\<not> (1 < length (show_nat n) \<and> hd (show_nat n) = CHR ''0'')"
    by (cases "n = 0") (auto dest: show_nat_hd)
  with r v n show ?l
    by (auto simp: parseDecimal_def show_int_def parse_int_digits)
qed

lemma positive_nonNegative: "positiveInteger v \<longleftrightarrow> nonNegativeInteger v \<and> v \<noteq> 0"
  by (auto simp: positiveInteger_def nonNegativeInteger_def)

lemma parseDecimal_pos [go_simps]:
  "parseDecimal raw False = Inr v \<longleftrightarrow> positiveInteger v \<and> raw = show_int v"
  by (auto simp: parseDecimal_iff positive_nonNegative)

lemma parseDecimal_nonneg [go_simps]:
  "parseDecimal raw True = Inr v \<longleftrightarrow> nonNegativeInteger v \<and> raw = show_int v"
  by (auto simp: parseDecimal_iff)

lemma nonNegative_text:
  assumes "nonNegativeInteger v"
  shows "list_all is_digit (show_int v)" "show_int v \<noteq> []" "length (show_int v) \<le> 10"
proof -
  have v: "0 \<le> v" "nat v < 10 ^ 10"
    using assms by (auto simp: nonNegativeInteger_def maxPostgresInteger_def)
  then show "list_all is_digit (show_int v)" "show_int v \<noteq> []"
    by (simp_all add: show_int_nonneg)
  from v show "length (show_int v) \<le> 10"
    unfolding show_int_nonneg [OF v(1)] by (intro length_show_nat) simp_all
qed

lemma nonNegative_absent:
  "nonNegativeInteger v \<Longrightarrow> \<not> is_digit c \<Longrightarrow> c \<notin> set (show_int v)"
  using nonNegative_text(1) [of v] by (auto simp: list_all_iff)

lemma separators_not_digits:
  "\<not> is_digit (CHR ''/'')" "\<not> is_digit (CHR '':'')" "\<not> is_digit (CHR ''.'')"
  by (simp_all add: is_digit_def byte_def)

lemma nonNegative_text_absent [simp]:
  assumes "nonNegativeInteger v"
  shows "CHR ''/'' \<notin> set (show_int v)" "CHR '':'' \<notin> set (show_int v)" "CHR ''.'' \<notin> set (show_int v)"
  by (intro nonNegative_absent assms separators_not_digits)+

lemma positive_text_absent [simp]:
  assumes "positiveInteger v"
  shows "CHR ''/'' \<notin> set (show_int v)" "CHR '':'' \<notin> set (show_int v)" "CHR ''.'' \<notin> set (show_int v)"
  using assms by (simp_all add: positive_nonNegative)

lemma parseAyahLocator_iff [go_simps]:
  "parseAyahLocator raw = Inr (s, a) \<longleftrightarrow>
     positiveInteger s \<and> positiveInteger a \<and> raw = show_int s @ '':'' @ show_int a" (is "?l \<longleftrightarrow> ?r")
proof
  assume ?l
  then show ?r
    by (auto simp: parseAyahLocator_def go_simps dest!: str_cut_Some split: if_splits option.splits)
next
  assume ?r
  then have "str_cut raw '':'' = Some (show_int s, show_int a)" "str_count raw '':'' = 1"
    using str_cut_first [of "CHR '':''" "show_int s" "[]" "show_int a"]
      str_count_first [of "CHR '':''" "show_int s" "[]" "show_int a"]
      str_count_absent [of "CHR '':''" "show_int a" "[]"]
    by simp_all
  with \<open>?r\<close> show ?l by (simp add: parseAyahLocator_def go_simps)
qed

section \<open>The point parser accepts the formatted points and nothing else\<close>

lemma parseQuranPoint_iff:
  "parseQuranPoint (''quran'' # ps) = Inr p \<longleftrightarrow>
     (\<exists>s. ps = [show_int s] \<and> NewQuranSurah s = Inr p) \<or>
     (\<exists>s a. ps = [show_int s @ '':'' @ show_int a] \<and> NewQuranAyah s a = Inr p) \<or>
     (\<exists>s a n. ps = [show_int s @ '':'' @ show_int a, ''u'', show_int n] \<and> NewQuranUnit s a n = Inr p)"
    (is "?l \<longleftrightarrow> ?r")
proof
  assume ?l
  then show ?r
    by (auto simp: parseQuranPoint_def go_simps split: list.splits if_splits)
next
  assume ?r
  moreover have "\<not> contains (show_int s) '':''" if "positiveInteger s" for s
    using that by (simp add: contains_def str_cut_absent)
  moreover have "contains (show_int s @ '':'' @ show_int a) '':''" if "positiveInteger s" for s a
    using that str_cut_first [of "CHR '':''" "show_int s" "[]"] by (simp add: contains_def)
  ultimately show ?l
    by (fastforce simp: parseQuranPoint_def new_point_defs go_simps split: if_splits)
qed

lemma parseKitabPoint_iff:
  "parseKitabPoint (''kitab'' # ps) = Inr p \<longleftrightarrow>
     (\<exists>b. ps = [show_int b] \<and> NewKitabWork b = Inr p) \<or>
     (\<exists>b h. ps = [show_int b, ''h'', show_int h] \<and> NewKitabHeading b h = Inr p) \<or>
     (\<exists>b h n. ps = [show_int b, ''h'', show_int h, ''u'', show_int n] \<and> NewKitabUnit b h n = Inr p)"
    (is "?l \<longleftrightarrow> ?r")
proof
  assume ?l
  then show ?r
    by (auto simp: parseKitabPoint_def parseKitabWork_def parseKitabHeading_def parseKitabUnit_def
          go_simps split: list.splits if_splits)
next
  assume ?r
  then show ?l
    by (fastforce simp: parseKitabPoint_def parseKitabWork_def parseKitabHeading_def
          parseKitabUnit_def new_point_defs go_simps split: if_splits)
qed

lemma parsePoint_cases:
  "parsePoint raw = Inr p \<longleftrightarrow>
     (\<exists>ps. split_char (CHR ''/'') raw = ''quran'' # ps \<and> parseQuranPoint (''quran'' # ps) = Inr p) \<or>
     (\<exists>ps. split_char (CHR ''/'') raw = ''kitab'' # ps \<and> parseKitabPoint (''kitab'' # ps) = Inr p)"
  by (cases "split_char (CHR ''/'') raw") (auto simp: parsePoint_def Let_def)

lemma split_slash_numbers [simp]:
  "nonNegativeInteger v \<Longrightarrow> split_char (CHR ''/'') (show_int v) = [show_int v]"
  "positiveInteger v \<Longrightarrow> split_char (CHR ''/'') (show_int v) = [show_int v]"
  "nonNegativeInteger v \<Longrightarrow>
     split_char (CHR ''/'') (show_int v @ CHR ''/'' # t) = show_int v # split_char (CHR ''/'') t"
  "positiveInteger v \<Longrightarrow>
     split_char (CHR ''/'') (show_int v @ CHR ''/'' # t) = show_int v # split_char (CHR ''/'') t"
  by (simp_all add: split_char_none split_char_append)

lemma split_slash_ayah [simp]:
  assumes "positiveInteger s" "positiveInteger a"
  shows "split_char (CHR ''/'') (show_int s @ CHR '':'' # show_int a) =
           [show_int s @ CHR '':'' # show_int a]"
    and "split_char (CHR ''/'') (show_int s @ CHR '':'' # show_int a @ CHR ''/'' # t) =
           (show_int s @ CHR '':'' # show_int a) # split_char (CHR ''/'') t"
  using assms split_char_append [of "CHR ''/''" "show_int s @ CHR '':'' # show_int a" t]
  by (simp_all add: split_char_none)

lemma join_slash: "split_char (CHR ''/'') raw = ps \<Longrightarrow> raw = join_char (CHR ''/'') ps"
  using join_split_char [of "CHR ''/''" raw] by simp

lemma split_point_string:
  "NewQuranSurah s = Inr p \<Longrightarrow> split_char (CHR ''/'') (point_string p) = [''quran'', show_int s]"
  "NewQuranAyah s a = Inr p \<Longrightarrow>
     split_char (CHR ''/'') (point_string p) = [''quran'', show_int s @ '':'' @ show_int a]"
  "NewQuranUnit s a n = Inr p \<Longrightarrow>
     split_char (CHR ''/'') (point_string p) =
       [''quran'', show_int s @ '':'' @ show_int a, ''u'', show_int n]"
  "NewKitabWork b = Inr p \<Longrightarrow> split_char (CHR ''/'') (point_string p) = [''kitab'', show_int b]"
  "NewKitabHeading b h = Inr p \<Longrightarrow>
     split_char (CHR ''/'') (point_string p) = [''kitab'', show_int b, ''h'', show_int h]"
  "NewKitabUnit b h n = Inr p \<Longrightarrow>
     split_char (CHR ''/'') (point_string p) =
       [''kitab'', show_int b, ''h'', show_int h, ''u'', show_int n]"
  by (auto simp: new_point_defs point_string_def zero_point_def split: if_splits)

lemma parsePoint_built: "point_built p \<Longrightarrow> parsePoint (point_string p) = Inr p"
  unfolding parsePoint_cases parseQuranPoint_iff parseKitabPoint_iff
  by (induction rule: point_built.induct) (simp_all add: split_point_string, blast+)

lemma parsePoint_string: "parsePoint raw = Inr p \<Longrightarrow> point_built p \<and> raw = point_string p"
  unfolding parsePoint_cases parseQuranPoint_iff parseKitabPoint_iff
  by (auto dest!: join_slash intro: point_built.intros
        simp: new_point_defs point_string_def zero_point_def split: if_splits)

lemma parsePoint_iff: "parsePoint raw = Inr p \<longleftrightarrow> point_built p \<and> raw = point_string p"
  using parsePoint_built parsePoint_string by blast

section \<open>The lexical form\<close>

definition anchor_char :: "char \<Rightarrow> bool" where
  "anchor_char c \<longleftrightarrow> 33 \<le> byte c \<and> byte c \<le> 126 \<and> \<not> (65 \<le> byte c \<and> byte c \<le> 90)"

lemma validateLexicalForm_iff [go_simps]:
  "validateLexicalForm raw = Inr u \<longleftrightarrow>
     raw \<noteq> [] \<and> length raw \<le> MaxLength \<and> list_all anchor_char raw"
proof -
  let ?bad = "\<lambda>c. byte c < 33 \<or> 126 < byte c \<or> 65 \<le> byte c \<and> byte c \<le> 90"
  have "find ?bad raw = None \<longleftrightarrow> list_all anchor_char raw"
    by (auto simp: find_None_iff list_all_iff anchor_char_def not_less)
  then show ?thesis
    by (cases "find ?bad raw") (auto simp: validateLexicalForm_def)
qed

lemma anchor_char_letters [simp]:
  "anchor_char (CHR ''q'')" "anchor_char (CHR ''u'')" "anchor_char (CHR ''r'')"
  "anchor_char (CHR ''a'')" "anchor_char (CHR ''n'')" "anchor_char (CHR ''k'')"
  "anchor_char (CHR ''i'')" "anchor_char (CHR ''t'')" "anchor_char (CHR ''b'')"
  "anchor_char (CHR ''h'')" "anchor_char (CHR ''/'')" "anchor_char (CHR '':'')"
  "anchor_char (CHR ''.'')"
  by (simp_all add: anchor_char_def byte_def)

lemma digit_anchor_char: "is_digit c \<Longrightarrow> anchor_char c"
  by (auto simp: is_digit_def anchor_char_def)

lemma number_anchor_chars [simp]:
  "nonNegativeInteger v \<Longrightarrow> list_all anchor_char (show_int v)"
  "positiveInteger v \<Longrightarrow> list_all anchor_char (show_int v)"
  using nonNegative_text(1) [of v]
  by (auto simp: list_all_iff positive_nonNegative intro: digit_anchor_char)

lemma number_length:
  "nonNegativeInteger v \<Longrightarrow> length (show_int v) \<le> 10"
  "positiveInteger v \<Longrightarrow> length (show_int v) \<le> 10"
  by (simp_all add: nonNegative_text positive_nonNegative)

lemma point_string_lexical:
  assumes "point_built p"
  shows "point_string p \<noteq> []" "length (point_string p) \<le> 42"
    "list_all anchor_char (point_string p)" "CHR ''.'' \<notin> set (point_string p)"
proof -
  have "point_string p \<noteq> [] \<and> list_all anchor_char (point_string p) \<and>
        CHR ''.'' \<notin> set (point_string p)"
    using assms
    by (induction rule: point_built.induct)
       (auto simp: new_point_defs point_string_def zero_point_def split: if_splits)
  then show "point_string p \<noteq> []" "list_all anchor_char (point_string p)"
    "CHR ''.'' \<notin> set (point_string p)" by simp_all
  have num: "nonNegativeInteger x \<or> positiveInteger x \<Longrightarrow> length (show_int x) \<le> 10" for x
    by (auto intro: number_length)
  show "length (point_string p) \<le> 42"
    using assms
  proof (induction rule: point_built.induct)
    case (quran_unit s a n p)
    then show ?case using num [of s] num [of a] num [of n]
      by (auto simp: new_point_defs point_string_def zero_point_def split: if_splits)
  next
    case (kitab_unit b h n p)
    then show ?case using num [of b] num [of h] num [of n]
      by (auto simp: new_point_defs point_string_def zero_point_def split: if_splits)
  next
    case (ayah s a p)
    then show ?case using num [of s] num [of a]
      by (auto simp: new_point_defs point_string_def zero_point_def split: if_splits)
  next
    case (heading b h p)
    then show ?case using num [of b] num [of h]
      by (auto simp: new_point_defs point_string_def zero_point_def split: if_splits)
  qed (auto simp: new_point_defs point_string_def zero_point_def dest!: num [OF disjI2]
         split: if_splits)
qed

lemma point_string_no_range [simp]:
  assumes "point_built p"
  shows "str_count (point_string p) ''..'' = 0" "\<not> contains (point_string p) ''..''"
  using point_string_lexical(4) [OF assms]
  by (simp_all add: str_count_absent contains_def str_cut_absent)

lemma point_string_valid_form [simp]:
  "point_built p \<Longrightarrow> validateLexicalForm (point_string p) = Inr ()"
  using point_string_lexical [of p] by (simp add: go_simps MaxLength_def)

lemma ParsePoint_iff: "ParsePoint raw = Inr p \<longleftrightarrow> point_built p \<and> raw = point_string p"
  by (auto simp: ParsePoint_def res_bind_eq_Inr parsePoint_iff)

section \<open>Ranges\<close>

lemma Parse_point:
  "point_built p \<Longrightarrow> Parse (point_string p) = FromPoint p"
  by (simp add: Parse_def parsePoint_built)

lemma range_string_scan:
  assumes "point_built s" "point_built e"
  shows "str_cut (point_string s @ ''..'' @ point_string e) ''..'' =
           Some (point_string s, point_string e)"
    and "str_count (point_string s @ ''..'' @ point_string e) ''..'' = 1"
  using assms point_string_lexical(4) [of s]
    str_cut_first [of "CHR ''.''" "point_string s" "''.''" "point_string e"]
    str_count_first [of "CHR ''.''" "point_string s" "''.''" "point_string e"]
  by simp_all

lemma NewRange_string:
  "NewRange s e = Inr v \<Longrightarrow> value_string v = point_string s @ ''..'' @ point_string e"
  by (auto simp: NewRange_def Let_def go_simps value_string_def split: if_splits)

lemma FromPoint_string: "FromPoint p = Inr v \<Longrightarrow> value_string v = point_string p"
  by (auto simp: FromPoint_def value_string_def split: if_splits)

lemma NewRange_length: "NewRange s e = Inr v \<Longrightarrow> length (value_string v) \<le> MaxLength"
  by (auto simp: NewRange_def Let_def go_simps split: if_splits)

lemma Parse_range:
  assumes "point_built s" "point_built e" "NewRange s e = Inr v"
  shows "Parse (value_string v) = Inr v"
proof -
  have "validateLexicalForm (value_string v) = Inr ()"
    using NewRange_length [OF assms(3)] point_string_lexical [OF assms(1)]
      point_string_lexical [OF assms(2)]
    by (simp add: go_simps NewRange_string [OF assms(3)])
  then show ?thesis
    unfolding NewRange_string [OF assms(3)] Parse_def
    using range_string_scan [OF assms(1,2)] assms
    by (simp add: parsePoint_built)
qed

lemma Parse_string: "Parse raw = Inr v \<Longrightarrow> value_built v \<and> raw = value_string v"
  by (auto simp: Parse_def Let_def go_simps parsePoint_iff FromPoint_string NewRange_string
           intro: value_built.intros dest!: str_cut_Some split: if_splits option.splits)

lemma Parse_iff: "Parse raw = Inr v \<longleftrightarrow> value_built v \<and> raw = value_string v"
proof (intro iffI)
  assume "value_built v \<and> raw = value_string v"
  then have "value_built v" "raw = value_string v" by auto
  then show "Parse raw = Inr v"
    by (induction rule: value_built.induct)
       (auto simp: Parse_point FromPoint_string Parse_range)
qed (rule Parse_string)

section \<open>Legacy forms\<close>

definition legacy_ayah_key :: "Point \<Rightarrow> string" where
  "legacy_ayah_key p = show_int (pt_surah p) @ '':'' @ show_int (pt_ayah p)"

definition ayah_built :: "Point \<Rightarrow> bool" where
  "ayah_built p \<longleftrightarrow> point_built p \<and> pt_kind p = QuranAyah"

lemma ayah_built_iff: "ayah_built p \<longleftrightarrow> (\<exists>s a. NewQuranAyah s a = Inr p)"
proof
  assume "ayah_built p"
  then have "point_built p" "pt_kind p = QuranAyah" by (auto simp: ayah_built_def)
  then show "\<exists>s a. NewQuranAyah s a = Inr p"
    by (induction rule: point_built.induct)
       (auto simp: new_point_defs zero_point_def split: if_splits)
next
  assume "\<exists>s a. NewQuranAyah s a = Inr p"
  then show "ayah_built p"
    by (auto simp: ayah_built_def NewQuranAyah_def split: if_splits intro: point_built.ayah)
qed

lemma ParseLegacyAyahKey_iff:
  "ParseLegacyAyahKey raw = Inr p \<longleftrightarrow> ayah_built p \<and> raw = legacy_ayah_key p" (is "?l \<longleftrightarrow> ?r")
proof
  assume ?l
  then show ?r
    by (auto simp: ParseLegacyAyahKey_def go_simps ayah_built_iff legacy_ayah_key_def
          NewQuranAyah_def zero_point_def split: if_splits)
next
  assume ?r
  then obtain s a where p: "NewQuranAyah s a = Inr p" and raw: "raw = legacy_ayah_key p"
    by (auto simp: ayah_built_iff)
  then have pos: "positiveInteger s" "positiveInteger a" and key: "raw = show_int s @ '':'' @ show_int a"
    by (auto simp: NewQuranAyah_def legacy_ayah_key_def zero_point_def split: if_splits)
  then have "validateLexicalForm raw = Inr ()"
    using number_length(2) [of s] number_length(2) [of a] by (simp add: go_simps MaxLength_def)
  with p pos key show ?l by (auto simp: ParseLegacyAyahKey_def go_simps)
qed

lemma ParseLegacyTOC_iff:
  "ParseLegacyTOC raw = Inr h \<longleftrightarrow> positiveInteger h \<and> raw = ''toc-'' @ show_int h"
proof
  assume "ParseLegacyTOC raw = Inr h"
  then show "positiveInteger h \<and> raw = ''toc-'' @ show_int h"
    by (auto simp: ParseLegacyTOC_def go_simps dest!: has_prefixD split: if_splits)
next
  assume r: "positiveInteger h \<and> raw = ''toc-'' @ show_int h"
  then have "validateLexicalForm raw = Inr ()"
    using number_length(2) [of h]
    by (simp add: go_simps MaxLength_def) (simp add: anchor_char_def byte_def)
  with r show "ParseLegacyTOC raw = Inr h"
    by (simp add: ParseLegacyTOC_def go_simps has_prefix_def)
qed

section \<open>The formats\<close>

interpretation point_format: canonical_format point_string ParsePoint point_built
  by unfold_locales (rule ParsePoint_iff)

interpretation anchor_format: canonical_format value_string Parse value_built
  by unfold_locales (rule Parse_iff)

interpretation ayah_key_format: canonical_format legacy_ayah_key ParseLegacyAyahKey ayah_built
  by unfold_locales (rule ParseLegacyAyahKey_iff)

interpretation toc_format: canonical_format "\<lambda>h. ''toc-'' @ show_int h" ParseLegacyTOC positiveInteger
  by unfold_locales (rule ParseLegacyTOC_iff)

lemma value_string_head: "value_built v \<Longrightarrow> \<exists>p u. point_built p \<and> value_string v = point_string p @ u"
  by (induction rule: value_built.induct) (metis FromPoint_string append_Nil2, metis NewRange_string)

section \<open>Properties\<close>

text \<open>
  C21. The Anchor parser accepts exactly the canonical texts: \<open>Parse\<close> succeeds with a value on
  precisely the text that \<open>String\<close> formats that value to, for the values the constructors build.
  So formatting and parsing are inverse and no Anchor has two spellings.
\<close>

theorem anchor_parse_exact:
  "Parse raw = Inr v \<longleftrightarrow> value_built v \<and> value_string v = raw"
  using anchor_format.parse_iff by auto

text \<open>
  Every accepted Anchor is well formed: at most 512 bytes, both boundaries valid points, and a
  range keeps one scope (one Work in the kitab corpus; two ordered ayahs of one surah in the Quran
  corpus).
\<close>

theorem anchor_accepted_wellformed:
  assumes "Parse raw = Inr v"
  shows "length raw \<le> MaxLength \<and> point_valid (val_start v) \<and>
    (case val_end v of
       None \<Rightarrow> True
     | Some e \<Rightarrow> point_valid e \<and> pt_corpus e = pt_corpus (val_start v) \<and>
         (if pt_corpus e = CorpusQuran
          then pt_kind (val_start v) = QuranAyah \<and> pt_kind e = QuranAyah \<and>
               pt_surah (val_start v) = pt_surah e \<and> pt_ayah (val_start v) \<le> pt_ayah e
          else pt_corpus e = CorpusKitab \<and> pt_bookID (val_start v) = pt_bookID e))"
proof -
  have "length raw \<le> MaxLength"
    using assms by (auto simp: Parse_def go_simps)
  moreover have "value_built v" using assms by (rule anchor_format.parse_ok)
  ultimately show ?thesis
    by (auto elim!: value_built.cases
        simp: FromPoint_def NewRange_def validateRangeScope_def validateQuranRangeScope_def Let_def
          go_simps split: if_splits Corpus.splits)
qed

theorem anchor_accepted_wellformed_witness:
  "\<exists>v. Parse ''quran/2:255..quran/2:257'' = Inr v \<and> point_valid (val_start v)"
proof -
  let ?s = "zero_point\<lparr>pt_corpus := CorpusQuran, pt_kind := QuranAyah, pt_surah := 2, pt_ayah := 255\<rparr>"
  let ?e = "zero_point\<lparr>pt_corpus := CorpusQuran, pt_kind := QuranAyah, pt_surah := 2, pt_ayah := 257\<rparr>"
  let ?v = "\<lparr>val_start = ?s, val_end = Some ?e\<rparr>"
  have pos: "positiveInteger 2" "positiveInteger 255" "positiveInteger 257"
    by (simp_all add: positiveInteger_def maxPostgresInteger_def)
  have built: "point_built ?s" "point_built ?e"
    using point_built.ayah [of 2 255] point_built.ayah [of 2 257]
    by (simp_all add: NewQuranAyah_def pos)
  have str: "value_string ?v = ''quran/2:255..quran/2:257''"
    by (simp add: value_string_def point_string_def zero_point_def show_int_def show_nat.simps
        digit_char_def)
  have "NewRange ?s ?e = Inr ?v"
    using built point_built_valid str
    by (simp add: NewRange_def validateRangeScope_def validateQuranRangeScope_def zero_point_def
        MaxLength_def)
  then have p: "Parse ''quran/2:255..quran/2:257'' = Inr ?v"
    using built str by (auto simp: Parse_iff intro: value_built.range)
  then show ?thesis using anchor_accepted_wellformed [OF p] by blast
qed

text \<open>
  The reserved corpora hadith, wiki and entity never resolve: whatever follows the corpus
  name, the parser returns an error.
\<close>

theorem reserved_corpora_rejected:
  assumes "c \<in> {CorpusHadith, CorpusWiki, CorpusEntity}"
  shows "\<not> is_ok (Parse (corpus_name c @ ''/'' @ rest)) \<and>
         \<not> is_ok (ParsePoint (corpus_name c @ ''/'' @ rest))"
proof -
  have "hd (point_string p) = CHR ''q'' \<or> hd (point_string p) = CHR ''k'' \<or> point_string p = []" for p
    by (cases "pt_kind p") (simp_all add: point_string_def)
  then have q: "point_string p \<noteq> [] \<longrightarrow>
      hd (point_string p) = CHR ''q'' \<or> hd (point_string p) = CHR ''k''" for p
    by blast
  have "hd (corpus_name c @ t) \<notin> {CHR ''q'', CHR ''k''}" for t
    using assms by auto
  then have pt: "\<not> (point_built p \<and> corpus_name c @ t = point_string p @ u)" for p t u
    using q [of p] point_string_lexical(1) [of p] by (metis hd_append2 insertCI)
  have "\<not> (value_built v \<and> corpus_name c @ t = value_string v)" for v t
    using pt value_string_head [of v] by metis
  with pt [of _ _ "[]"] show ?thesis
    by (simp add: anchor_format.accepted_iff point_format.accepted_iff)
qed

theorem reserved_corpora_rejected_witness:
  "\<not> is_ok (Parse ''hadith/1'')"
  using reserved_corpora_rejected [of CorpusHadith "''1''"] by simp

text \<open>
  A legacy ayah key \<open>{surah}:{ayah}\<close> is accepted exactly when its canonical spelling
  \<open>quran/{surah}:{ayah}\<close> is, and both name the same point.
\<close>

theorem legacy_ayah_key_equiv:
  "ParseLegacyAyahKey raw = Inr p \<longleftrightarrow>
     ParsePoint (''quran/'' @ raw) = Inr p \<and> pt_kind p = QuranAyah"
proof -
  have "point_string p = ''quran/'' @ legacy_ayah_key p" if "pt_kind p = QuranAyah"
    using that by (simp add: point_string_def legacy_ayah_key_def)
  then show ?thesis
    by (auto simp: ayah_key_format.parse_iff point_format.parse_iff ayah_built_def)
qed

end
