(* ===== verification/Policy.thy ===== *)
theory Policy
  imports Go_Strings
begin

text \<open>
  Package \<open>internal/policy\<close> and the role helpers of \<open>internal/entity/user.go\<close>: the single
  authorization point that maps account roles to capabilities. Roles are strings, trimmed and
  lower-cased before every decision; \<open>uni\<close> is the Unicode case mapping of \<open>strings.ToLower\<close>
  outside ASCII (see \<open>Go_Strings\<close>), and every statement holds whatever that mapping is.
\<close>

section \<open>Roles (entity/user.go)\<close>

definition UserRoleUser :: string where "UserRoleUser = ''user''"
definition UserRoleEditor :: string where "UserRoleEditor = ''editor''"
definition UserRoleCurator :: string where "UserRoleCurator = ''curator''"
definition UserRoleScholarReviewer :: string where "UserRoleScholarReviewer = ''scholar_reviewer''"
definition UserRoleAdmin :: string where "UserRoleAdmin = ''admin''"

lemmas role_defs = UserRoleUser_def UserRoleEditor_def UserRoleCurator_def
  UserRoleScholarReviewer_def UserRoleAdmin_def

datatype role_error = ErrInvalidRole

definition IsValidUserRole :: "(string \<Rightarrow> string) \<Rightarrow> string \<Rightarrow> bool" where
  "IsValidUserRole uni role =
     (to_lower uni (trim_space role) \<in>
        {UserRoleUser, UserRoleEditor, UserRoleCurator, UserRoleScholarReviewer, UserRoleAdmin})"

definition NormalizeUserRole :: "(string \<Rightarrow> string) \<Rightarrow> string \<Rightarrow> role_error + string" where
  "NormalizeUserRole uni role =
     (let r = to_lower uni (trim_space role) in
      if \<not> IsValidUserRole uni r then Inl ErrInvalidRole else Inr r)"

section \<open>Capabilities (policy.go)\<close>

datatype Capability =
  CapReviewEditorial | CapPublishProduction | CapManageUsers | CapCurateEntities
| CapApproveNeutralClaim | CapApproveSensitiveClaim | CapManageServiceTokens

fun capability_name :: "Capability \<Rightarrow> string" where
  "capability_name CapReviewEditorial = ''review-editorial''"
| "capability_name CapPublishProduction = ''publish-production''"
| "capability_name CapManageUsers = ''manage-users''"
| "capability_name CapCurateEntities = ''curate-entities''"
| "capability_name CapApproveNeutralClaim = ''approve-neutral-claim''"
| "capability_name CapApproveSensitiveClaim = ''approve-sensitive-claim''"
| "capability_name CapManageServiceTokens = ''manage-service-tokens''"

text \<open>A missing key of the Go map yields the nil slice; \<open>admin\<close> is a key with a nil slice.\<close>

definition roleCapabilities :: "string \<Rightarrow> Capability list" where
  "roleCapabilities role =
     (if role = UserRoleEditor then [CapReviewEditorial]
      else if role = UserRoleCurator then [CapCurateEntities, CapApproveNeutralClaim]
      else if role = UserRoleScholarReviewer
      then [CapCurateEntities, CapApproveNeutralClaim, CapApproveSensitiveClaim]
      else [])"

definition mfaMandatedRoles :: "string \<Rightarrow> bool" where
  "mfaMandatedRoles role \<longleftrightarrow> role = UserRoleAdmin \<or> role = UserRoleScholarReviewer"

definition policy_normalize :: "(string \<Rightarrow> string) \<Rightarrow> string \<Rightarrow> string" where
  "policy_normalize uni role = to_lower uni (trim_space role)"

definition allCapabilities :: "Capability list" where
  "allCapabilities =
     [CapReviewEditorial, CapPublishProduction, CapManageUsers, CapCurateEntities,
      CapApproveNeutralClaim, CapApproveSensitiveClaim, CapManageServiceTokens]"

definition Can :: "(string \<Rightarrow> string) \<Rightarrow> string \<Rightarrow> Capability \<Rightarrow> bool" where
  "Can uni role cap =
     (let r = policy_normalize uni role in
      if r = UserRoleAdmin then True else cap \<in> set (roleCapabilities r))"

definition Capabilities :: "(string \<Rightarrow> string) \<Rightarrow> string \<Rightarrow> Capability list" where
  "Capabilities uni role =
     (let r = policy_normalize uni role in
      if r = UserRoleAdmin then allCapabilities else roleCapabilities r)"

definition RoleRequiresMFA :: "(string \<Rightarrow> string) \<Rightarrow> string \<Rightarrow> bool" where
  "RoleRequiresMFA uni role = mfaMandatedRoles (policy_normalize uni role)"

section \<open>Lemmas\<close>

lemma set_allCapabilities: "set allCapabilities = UNIV"
proof -
  have "c \<in> set allCapabilities" for c by (cases c) (simp_all add: allCapabilities_def)
  then show ?thesis by blast
qed

lemma Can_iff_Capabilities: "Can uni role cap \<longleftrightarrow> cap \<in> set (Capabilities uni role)"
  by (simp add: Can_def Capabilities_def Let_def set_allCapabilities)

lemma Can_admin_only:
  "cap \<in> {CapPublishProduction, CapManageUsers, CapManageServiceTokens} \<Longrightarrow>
     Can uni role cap \<longleftrightarrow> policy_normalize uni role = UserRoleAdmin"
  by (auto simp: Can_def Let_def roleCapabilities_def)

lemma role_names_normal:
  "r \<in> {UserRoleUser, UserRoleEditor, UserRoleCurator, UserRoleScholarReviewer, UserRoleAdmin} \<Longrightarrow>
     trim_space r = r \<and> to_lower uni r = r"
proof -
  assume r: "r \<in> {UserRoleUser, UserRoleEditor, UserRoleCurator, UserRoleScholarReviewer, UserRoleAdmin}"
  have "trim_space r = r"
    using r by (intro trim_space_plain) (auto simp: role_defs byte_def)
  moreover have "is_lower_ascii r" using r by (auto simp: role_defs is_lower_ascii_def byte_def)
  ultimately show ?thesis by (simp add: to_lower_id)
qed

lemma policy_normalize_role:
  "r \<in> {UserRoleUser, UserRoleEditor, UserRoleCurator, UserRoleScholarReviewer, UserRoleAdmin} \<Longrightarrow>
     policy_normalize uni r = r"
  by (simp only: policy_normalize_def role_names_normal)

lemma NormalizeUserRole_role:
  "policy_normalize uni role \<in>
     {UserRoleUser, UserRoleEditor, UserRoleCurator, UserRoleScholarReviewer, UserRoleAdmin} \<Longrightarrow>
   NormalizeUserRole uni role = Inr (policy_normalize uni role)"
  using role_names_normal [of "policy_normalize uni role" uni]
  by (auto simp: NormalizeUserRole_def IsValidUserRole_def policy_normalize_def Let_def)

lemma mandated_caps:
  assumes "Can uni role cap"
    and "cap \<in> {CapPublishProduction, CapManageUsers, CapApproveSensitiveClaim, CapManageServiceTokens}"
  shows "RoleRequiresMFA uni role"
  using assms
  by (auto simp: Can_def Let_def roleCapabilities_def RoleRequiresMFA_def mfaMandatedRoles_def
      split: if_splits)

section \<open>Properties\<close>

text \<open>
  The roles under the MFA mandate are exactly the roles that pass the sensitive-claim gate,
  and the decision function \<open>Can\<close> agrees with the introspection function \<open>Capabilities\<close>, whose
  result never lists a capability twice. Both hold for every spelling of the role, whatever the
  Unicode case tables do.
\<close>

theorem policy_consistent:
  "(Can uni role CapApproveSensitiveClaim \<longleftrightarrow> RoleRequiresMFA uni role) \<and>
   (Can uni role cap \<longleftrightarrow> cap \<in> set (Capabilities uni role)) \<and>
   distinct (Capabilities uni role)"
proof (intro conjI)
  show "Can uni role CapApproveSensitiveClaim \<longleftrightarrow> RoleRequiresMFA uni role"
    by (auto simp: Can_def Let_def roleCapabilities_def RoleRequiresMFA_def mfaMandatedRoles_def
        role_defs)
  show "distinct (Capabilities uni role)"
    by (simp add: Capabilities_def Let_def allCapabilities_def roleCapabilities_def)
qed (rule Can_iff_Capabilities)

end
