(* ===== verification/Content_Lang.thy ===== *)
theory Content_Lang
  imports Codec
begin

text \<open>
  Packages \<open>internal/contentlang\<close> and \<open>internal/readerlang\<close> (the public content language codes)
  and \<open>internal/quranutil/ayah_key.go\<close> (the \<open>surah:ayah\<close> keys of the Quran corpus).
\<close>

section \<open>Content languages (contentlang.go, readerlang.go)\<close>

datatype lang_error = ErrUnsupportedLanguage

definition lang_Default :: string where "lang_Default = ''id''"
definition lang_Arabic :: string where "lang_Arabic = ''ar''"
definition lang_English :: string where "lang_English = ''en''"

lemmas lang_defs = lang_Default_def lang_Arabic_def lang_English_def

definition contentlang_Normalize :: "(string \<Rightarrow> string) \<Rightarrow> string \<Rightarrow> lang_error + string" where
  "contentlang_Normalize uni lang0 =
     (let l1 = to_lower uni (trim_space lang0) in
      if l1 = [] then Inr lang_Default
      else
        let l2 = map (\<lambda>c. if c = CHR ''_'' then CHR ''-'' else c) l1;
            l3 = (case str_cut l2 ''-'' of Some (before, _) \<Rightarrow> before | None \<Rightarrow> l2)
        in if l3 = lang_Arabic \<or> l3 = lang_Default \<or> l3 = lang_English then Inr l3
           else Inl ErrUnsupportedLanguage)"

definition contentlang_MustNormalize :: "(string \<Rightarrow> string) \<Rightarrow> string \<Rightarrow> string" where
  "contentlang_MustNormalize uni lang =
     (case contentlang_Normalize uni lang of Inl _ \<Rightarrow> lang_Default | Inr l \<Rightarrow> l)"

definition contentlang_IsArabic :: "string \<Rightarrow> bool" where
  "contentlang_IsArabic lang \<longleftrightarrow> lang = lang_Arabic"

definition readerlang_Normalize :: "(string \<Rightarrow> string) \<Rightarrow> string \<Rightarrow> lang_error + string" where
  "readerlang_Normalize = contentlang_Normalize"

definition readerlang_MustNormalize :: "(string \<Rightarrow> string) \<Rightarrow> string \<Rightarrow> string" where
  "readerlang_MustNormalize = contentlang_MustNormalize"

definition readerlang_IsArabic :: "string \<Rightarrow> bool" where
  "readerlang_IsArabic = contentlang_IsArabic"

lemma supported_lang_normal:
  assumes "l \<in> {lang_Arabic, lang_Default, lang_English}"
  shows "contentlang_Normalize uni l = Inr l"
proof -
  have "trim_space l = l"
    using assms by (intro trim_space_plain) (auto simp: lang_defs byte_def)
  moreover have "to_lower uni l = l"
    using assms by (intro to_lower_id) (auto simp: lang_defs is_lower_ascii_def byte_def)
  ultimately show ?thesis
    using assms by (auto simp: contentlang_Normalize_def Let_def lang_defs has_prefix_def)
qed

lemma Normalize_supported:
  "contentlang_Normalize uni lang = Inr l \<Longrightarrow> l \<in> {lang_Arabic, lang_Default, lang_English}"
  by (auto simp: contentlang_Normalize_def Let_def split: if_splits)

section \<open>Ayah keys (quranutil/ayah\_key.go)\<close>

datatype ayah_key_error = InvalidAyahKey string | InvalidSurah string | InvalidAyah string

definition AyahKey :: "int \<Rightarrow> int \<Rightarrow> string" where
  "AyahKey surahID ayahNumber = show_int surahID @ '':'' @ show_int ayahNumber"

definition ParseAyahKey :: "string \<Rightarrow> ayah_key_error + int \<times> int" where
  "ParseAyahKey key =
     (case split_char (CHR '':'') (trim_space key) of
        [p0, p1] \<Rightarrow>
          (case atoi p0 of
             None \<Rightarrow> Inl (InvalidSurah key)
           | Some surahID \<Rightarrow>
               (case atoi p1 of
                  None \<Rightarrow> Inl (InvalidAyah key)
                | Some ayahNumber \<Rightarrow>
                    if surahID \<le> 0 \<or> ayahNumber \<le> 0 then Inl (InvalidAyahKey key)
                    else Inr (surahID, ayahNumber)))
      | _ \<Rightarrow> Inl (InvalidAyahKey key))"

definition ayah_numbers_ok :: "int \<times> int \<Rightarrow> bool" where
  "ayah_numbers_ok p \<longleftrightarrow> 0 < fst p \<and> fst p < 2 ^ 63 \<and> 0 < snd p \<and> snd p < 2 ^ 63"

lemma show_int_pos_digits: "0 \<le> i \<Longrightarrow> c \<in> set (show_int i) \<Longrightarrow> is_digit c"
  by (auto simp: show_int_def dest: show_nat_digits)

lemma ParseAyahKey_AyahKey:
  assumes "ayah_numbers_ok (s, a)"
  shows "ParseAyahKey (AyahKey s a) = Inr (s, a)"
proof -
  have pos: "0 < s" "0 < a" using assms by (simp_all add: ayah_numbers_ok_def)
  have digits: "\<forall>c\<in>set (AyahKey s a). is_digit c \<or> c = CHR '':''"
    using pos by (auto simp: AyahKey_def dest: show_int_pos_digits [rotated])
  have "\<forall>c\<in>set (AyahKey s a). 33 \<le> byte c \<and> byte c < 128"
    using digits by (auto simp: is_digit_def byte_def)
  then have "trim_space (AyahKey s a) = AyahKey s a"
    by (intro trim_space_plain) (simp_all add: AyahKey_def)
  moreover have "CHR '':'' \<notin> set (show_int s)" "CHR '':'' \<notin> set (show_int a)"
    using pos show_int_pos_digits [of s "CHR '':''"] show_int_pos_digits [of a "CHR '':''"]
    by (auto simp: is_digit_def byte_def)
  moreover have "atoi (show_int s) = Some s" "atoi (show_int a) = Some a"
    using assms by (auto simp: atoi_def ayah_numbers_ok_def intro!: parse_int_show_int)
  ultimately show ?thesis
    using pos by (simp add: ParseAyahKey_def AyahKey_def split_char_append split_char_none)
qed

lemma ParseAyahKey_ok: "ParseAyahKey key = Inr p \<Longrightarrow> ayah_numbers_ok p"
  by (auto simp: ParseAyahKey_def ayah_numbers_ok_def atoi_def split: list.splits option.splits if_splits
      dest!: parse_int_range)

interpretation ayah_key: text_format "\<lambda>(s, a). AyahKey s a" ParseAyahKey ayah_numbers_ok
  by unfold_locales (auto intro: ParseAyahKey_AyahKey)

section \<open>Properties\<close>

text \<open>
  Language normalisation is idempotent and closed: an accepted language is one of \<open>ar\<close>,
  \<open>id\<close>, \<open>en\<close>, normalising it again changes nothing, and the kitab wrapper and the lenient
  variant return the same code.
\<close>

theorem content_language_normal:
  assumes "contentlang_Normalize uni lang = Inr l"
  shows "l \<in> {lang_Arabic, lang_Default, lang_English} \<and>
         contentlang_Normalize uni l = Inr l \<and> readerlang_Normalize uni lang = Inr l \<and>
         contentlang_MustNormalize uni lang = l"
  using assms Normalize_supported [OF assms] supported_lang_normal [of l uni]
  by (simp add: readerlang_Normalize_def contentlang_MustNormalize_def)

text \<open>
  Ayah keys read back: for positive 64-bit numbers \<open>ParseAyahKey\<close> inverts \<open>AyahKey\<close>, distinct
  numbers have distinct keys, and every key the parser accepts denotes positive numbers whose
  canonical key parses to the same pair.
\<close>

theorem ayah_key_round_trip:
  assumes "ayah_numbers_ok (s, a)"
  shows "ParseAyahKey (AyahKey s a) = Inr (s, a) \<and>
    (\<forall>t b. ayah_numbers_ok (t, b) \<and> AyahKey t b = AyahKey s a \<longrightarrow> (t, b) = (s, a)) \<and>
    (\<forall>key. ParseAyahKey key = Inr (s, a) \<longrightarrow> ParseAyahKey (AyahKey s a) = ParseAyahKey key)"
  using assms ayah_key.print_inject [of "(s, a)"] ParseAyahKey_AyahKey by force

theorem ayah_key_round_trip_witness: "ParseAyahKey (AyahKey 2 255) = Inr (2, 255)"
proof -
  have "ayah_numbers_ok (2, 255)" by (simp add: ayah_numbers_ok_def)
  then show ?thesis using ayah_key_round_trip by blast
qed

end
