(* ===== verification/Unit_Types.thy ===== *)
theory Unit_Types
  imports Codec
begin

text \<open>
  The data of the Citable Unit registry: the registry rows and plans of
  \<open>internal/entity/citable_unit.go\<close>, the derived units of \<open>unitregistry/deriver.go\<close>, and the
  identity functions of \<open>unitregistry/identity.go\<close>.

  SHA-256 and UUIDv5 are parameters (\<open>env_sha256\<close>, \<open>env_uuid5\<close>, the latter with the registry
  namespace already applied), as is the search normalisation (\<open>env_normalize\<close>). Go pointers to
  scalars are options, \<open>[]byte\<close> values are strings, and a provenance detail is an association
  list, absent (\<open>None\<close>) for a nil map.
\<close>

record unit_env =
  env_sha256 :: "string \<Rightarrow> string"
  env_uuid5 :: "string \<Rightarrow> string"
  env_normalize :: "string \<Rightarrow> string"

section \<open>Vocabulary (entity/citable\_unit.go)\<close>

definition UnitCorpusKitab :: string where "UnitCorpusKitab = ''kitab''"
definition UnitKindQuranQuote :: string where "UnitKindQuranQuote = ''quran_quote''"
definition UnitKindFootnote :: string where "UnitKindFootnote = ''footnote''"
definition UnitKindHTML :: string where "UnitKindHTML = ''html''"
definition UnitContentRoleBookPage :: string where "UnitContentRoleBookPage = ''book_page''"
definition UnitLifecycleActive :: string where "UnitLifecycleActive = ''active''"
definition UnitLifecycleSuperseded :: string where "UnitLifecycleSuperseded = ''superseded''"
definition UnitLifecycleTombstoned :: string where "UnitLifecycleTombstoned = ''tombstoned''"
definition ProvenanceClassSource :: string where "ProvenanceClassSource = ''source''"
definition ProvenanceClassEditorial :: string where "ProvenanceClassEditorial = ''editorial''"
definition UnitLineageReasonEdit :: string where "UnitLineageReasonEdit = ''edit''"
definition UnitLineageReasonContentMove :: string where "UnitLineageReasonContentMove = ''content_move''"
definition FootnoteLinkMarker :: string where "FootnoteLinkMarker = ''marker''"
definition FootnoteLinkFallback :: string where "FootnoteLinkFallback = ''fallback''"
definition FootnoteLinkUnlinked :: string where "FootnoteLinkUnlinked = ''unlinked''"

definition ProfileVersion :: int where "ProfileVersion = 1"

lemmas lifecycle_defs = UnitLifecycleActive_def UnitLifecycleSuperseded_def
  UnitLifecycleTombstoned_def

lemmas reason_defs = UnitLineageReasonEdit_def UnitLineageReasonContentMove_def

section \<open>Rows, derived units and plans\<close>

datatype detail_value = DStr string | DBool bool

type_synonym detail = "(string \<times> detail_value) list"

text \<open>\<open>reflect.DeepEqual\<close> on two maps: both nil, or both non-nil with the same entries.\<close>

definition detail_same :: "detail \<Rightarrow> detail \<Rightarrow> bool" where
  "detail_same a b \<longleftrightarrow> list_all (\<lambda>k. map_of a k = map_of b k) (map fst a @ map fst b)"

definition detail_eq :: "detail option \<Rightarrow> detail option \<Rightarrow> bool" where
  "detail_eq x y =
     (case (x, y) of
        (None, None) \<Rightarrow> True
      | (Some a, Some b) \<Rightarrow> detail_same a b
      | _ \<Rightarrow> False)"

record GenerationIdentity =
  gen_RunID :: string
  gen_ModelID :: string
  gen_PromptVersion :: string

record CitableUnit =
  u_ID :: string
  u_Corpus :: string
  u_BookID :: "int option"
  u_HeadingID :: "int option"
  u_PageID :: "int option"
  u_Kind :: string
  u_Ordinal :: int
  u_Position :: int
  u_ParentUnitID :: "string option"
  u_Anchor :: string
  u_Marker :: "string option"
  u_Text :: string
  u_HTML :: "string option"
  u_TextNormalized :: string
  u_NormalizationVersion :: int
  u_ContentHash :: string
  u_Occurrence :: int
  u_Language :: string
  u_ContentRole :: string
  u_ReviewStatus :: string
  u_SourceDocumentHash :: string
  u_SourceCharStart :: "int option"
  u_SourceCharEnd :: "int option"
  u_ProvenanceClass :: string
  u_ProvenanceDetail :: "detail option"
  u_GenerationRunID :: "string option"
  u_Generation :: "GenerationIdentity option"
  u_LicenseStatus :: "string option"
  u_EffectiveLicenseStatus :: "string option"
  u_LicenseSource :: "string option"
  u_Lifecycle :: string
  u_RetiredAt :: "int option"
  u_CreatedAt :: int
  u_UpdatedAt :: int

record DerivedUnit =
  d_HeadingID :: "int option"
  d_PageID :: int
  d_Kind :: string
  d_Text :: string
  d_HTML :: string
  d_Marker :: string
  d_ParentIdx :: int
  d_FootnoteLink :: string
  d_ContentRole :: string
  d_Language :: string
  d_ReviewStatus :: string
  d_SourceDocumentHash :: string
  d_SourceCharStart :: int
  d_SourceCharEnd :: int
  d_ProvenanceClass :: string
  d_GenerationRunID :: "string option"
  d_EditActorID :: string
  d_FormattingEditActorID :: string
  d_ReleaseKey :: string
  d_ContentHash :: string
  d_DocOrder :: int
  d_ScopePosition :: int

record CitableUnitLineage =
  e_PredecessorID :: string
  e_SuccessorID :: string
  e_Reason :: string

record UnitRegistryFingerprint =
  f_ActiveCount :: int
  f_MaxOrdinal :: int
  f_MaxUpdatedAt :: int

record UnitRegistrySnapshot =
  s_Active :: "CitableUnit list"
  s_MaxOrdinalByScope :: "int \<Rightarrow> int"
  s_ExistingIDs :: "string list"
  s_Fingerprint :: UnitRegistryFingerprint

record UnitPlanUpdate =
  up_ID :: string
  up_Position :: int
  up_PageID :: "int option"
  up_ParentUnitID :: "string option"
  up_FootnoteLink :: "string option"
  up_HTML :: "string option"
  up_ReviewStatus :: string
  up_ProvenanceDetail :: "detail option"
  up_SourceDocumentHash :: string
  up_SourceCharStart :: "int option"
  up_SourceCharEnd :: "int option"

record UnitPlanRetire =
  rt_ID :: string
  rt_Lifecycle :: string

record UnitReconcileReport =
  rep_BookID :: int
  rep_Scopes :: int
  rep_Derived :: int
  rep_Matched :: int
  rep_Minted :: int
  rep_Updated :: int
  rep_Superseded :: int
  rep_Tombstoned :: int
  rep_EditEdges :: int
  rep_MoveEdges :: int
  rep_HTMLUnits :: int
  rep_CappedGaps :: int
  rep_Attempts :: int

record UnitReconcilePlan =
  pl_BookID :: int
  pl_LoadedAt :: int
  pl_BasedOn :: UnitRegistryFingerprint
  pl_Mints :: "CitableUnit list"
  pl_HistoricalMints :: "CitableUnit list"
  pl_Intermediate :: bool
  pl_Updates :: "UnitPlanUpdate list"
  pl_Retires :: "UnitPlanRetire list"
  pl_Edges :: "CitableUnitLineage list"
  pl_ExpectedActive :: int
  pl_Report :: UnitReconcileReport

section \<open>Identity (unitregistry/identity.go)\<close>

definition frontMatterHeadingID :: int where
  "frontMatterHeadingID = 0"

definition scopeKeyOf :: "int option \<Rightarrow> int" where
  "scopeKeyOf h = (case h of None \<Rightarrow> frontMatterHeadingID | Some i \<Rightarrow> i)"

definition ContentHash :: "unit_env \<Rightarrow> string \<Rightarrow> string \<Rightarrow> string \<Rightarrow> string" where
  "ContentHash E kind marker txt =
     env_sha256 E (kind @ [CHR 0x00] @ marker @ [CHR 0x00] @ txt)"

definition hex_digit :: "nat \<Rightarrow> char" where
  "hex_digit n = ''0123456789abcdef'' ! n"

definition hashKey :: "string \<Rightarrow> string" where
  "hashKey h = concat (map (\<lambda>c. [hex_digit (byte c div 16), hex_digit (byte c mod 16)]) h)"

definition unit_name :: "string \<Rightarrow> int \<Rightarrow> int \<Rightarrow> string \<Rightarrow> string \<Rightarrow> int \<Rightarrow> string" where
  "unit_name corpus bookID scopeKey kind hash occurrence =
     join_char (CHR ''|'')
       [corpus, show_int bookID, show_int scopeKey, kind, hashKey hash, show_int occurrence]"

definition UnitID ::
  "unit_env \<Rightarrow> string \<Rightarrow> int \<Rightarrow> int \<Rightarrow> string \<Rightarrow> string \<Rightarrow> int \<Rightarrow> string" where
  "UnitID E corpus bookID scopeKey kind hash occurrence =
     env_uuid5 E (unit_name corpus bookID scopeKey kind hash occurrence)"

definition unit_name_v2 ::
  "string \<Rightarrow> int \<Rightarrow> int \<Rightarrow> string \<Rightarrow> string \<Rightarrow> string \<Rightarrow> string \<Rightarrow> int \<Rightarrow> string" where
  "unit_name_v2 corpus bookID scopeKey contentRole language kind hash occurrence =
     join_char (CHR ''|'')
       [''v2'', corpus, show_int bookID, show_int scopeKey, contentRole, language, kind,
        hashKey hash, show_int occurrence]"

definition UnitIDV2 ::
  "unit_env \<Rightarrow> string \<Rightarrow> int \<Rightarrow> int \<Rightarrow> string \<Rightarrow> string \<Rightarrow> string \<Rightarrow> string \<Rightarrow> int \<Rightarrow> string" where
  "UnitIDV2 E corpus bookID scopeKey contentRole language kind hash occurrence =
     env_uuid5 E
       (unit_name_v2 corpus bookID scopeKey contentRole language kind hash occurrence)"

definition AnchorFor :: "int \<Rightarrow> int \<Rightarrow> int \<Rightarrow> string" where
  "AnchorFor bookID scopeKey ordinal =
     ''kitab/'' @ show_int bookID @ ''/h/'' @ show_int scopeKey @ ''/u/'' @ show_int ordinal"

definition QuranUnitID ::
  "unit_env \<Rightarrow> int \<Rightarrow> int \<Rightarrow> string \<Rightarrow> string \<Rightarrow> string \<Rightarrow> string \<Rightarrow> int \<Rightarrow> string" where
  "QuranUnitID E surahID ayahNumber role sourceID footnoteKey hash occurrence =
     env_uuid5 E (join_char (CHR ''|'')
       [''quran'', show_int surahID, show_int ayahNumber, role, sourceID, footnoteKey,
        hashKey hash, show_int occurrence])"

definition QuranAnchorFor :: "int \<Rightarrow> int \<Rightarrow> int \<Rightarrow> string" where
  "QuranAnchorFor surahID ayahNumber ordinal =
     ''quran/'' @ show_int surahID @ '':'' @ show_int ayahNumber @ ''/u/'' @ show_int ordinal"

definition kindClass :: "string \<Rightarrow> bool \<Rightarrow> string" where
  "kindClass kind markerPresent =
     (if markerPresent \<and> (kind = ''footnote'' \<or> kind = ''quran_quote'') then ''footnote''
      else if kind = ''footnote'' then ''footnote''
      else if kind = ''html'' then ''html''
      else ''body'')"

definition matchKey ::
  "string \<Rightarrow> string \<Rightarrow> string \<Rightarrow> string \<Rightarrow> string \<Rightarrow> string option \<Rightarrow> string" where
  "matchKey contentRole language kind hash provenanceClass generationRunID =
     (let generation = (case generationRunID of None \<Rightarrow> '''' | Some g \<Rightarrow> g) in
      join_char (CHR 0x00)
        [contentRole, language, kind, hashKey hash, provenanceClass, generation])"

definition rescueKey :: "string \<Rightarrow> string \<Rightarrow> string \<Rightarrow> bool \<Rightarrow> string \<Rightarrow> string" where
  "rescueKey contentRole language kind markerPresent hash =
     join_char (CHR 0x00) [contentRole, language, kindClass kind markerPresent, hashKey hash]"

definition normalizedContentRole :: "string \<Rightarrow> string" where
  "normalizedContentRole role = (if role = '''' then ''book_page'' else role)"

definition normalizedLanguage :: "string \<Rightarrow> string" where
  "normalizedLanguage language = (if language = '''' then ''ar'' else language)"

definition trimNonEmpty :: "string \<Rightarrow> bool" where
  "trimNonEmpty s \<longleftrightarrow> trim_space s \<noteq> ''''"

section \<open>Natural keys are injective\<close>

lemma split_join_char:
  assumes "ps \<noteq> []" "\<forall>p\<in>set ps. c \<notin> set p"
  shows "split_char c (join_char c ps) = ps"
  using assms
proof (induction c ps rule: join_char.induct)
  case (3 c x y ys)
  then show ?case by (simp add: split_char_append)
qed (simp_all add: split_char_none)

lemma hex_digit_byte: "n < 16 \<Longrightarrow> byte (hex_digit n) = (if n < 10 then 48 + n else 87 + n)"
proof -
  assume n: "n < 16"
  have "\<forall>k\<in>{..<16}. byte (hex_digit k) = (if k < 10 then 48 + k else 87 + k)"
    by (simp add: lessThan_nat_numeral lessThan_Suc hex_digit_def byte_def)
  with n show ?thesis by simp
qed

lemma hex_digit_inject: "m < 16 \<Longrightarrow> n < 16 \<Longrightarrow> hex_digit m = hex_digit n \<longleftrightarrow> m = n"
  by (auto simp: hex_digit_byte byte_inject [symmetric] split: if_splits)

lemma byte_less: "byte c < 256"
  unfolding byte_def by (metis of_char_mod_256 mod_less_divisor zero_less_numeral)

lemma hashKey_inject: "hashKey a = hashKey b \<longleftrightarrow> a = b"
proof
  assume "hashKey a = hashKey b"
  then show "a = b"
  proof (induction a arbitrary: b)
    case Nil
    then show ?case by (cases b) (auto simp: hashKey_def)
  next
    case (Cons c a)
    then obtain d b' where b: "b = d # b'" by (cases b) (auto simp: hashKey_def)
    have lt: "byte c div 16 < 16" "byte d div 16 < 16" "byte c mod 16 < 16" "byte d mod 16 < 16"
      using byte_less [of c] byte_less [of d] by auto
    with Cons.prems b have "byte c div 16 = byte d div 16" "byte c mod 16 = byte d mod 16"
      "hashKey a = hashKey b'"
      by (auto simp: hashKey_def hex_digit_inject)
    then have "byte c = byte d" by (metis div_mult_mod_eq)
    then show ?case using Cons.IH [of b'] \<open>hashKey a = hashKey b'\<close> b by (simp add: byte_inject)
  qed
qed simp

lemma hashKey_chars: "c \<in> set (hashKey h) \<Longrightarrow> 48 \<le> byte c \<and> byte c \<le> 102"
proof -
  assume "c \<in> set (hashKey h)"
  then obtain d where "c = hex_digit (byte d div 16) \<or> c = hex_digit (byte d mod 16)"
    by (auto simp: hashKey_def)
  moreover have "byte d div 16 < 16" "byte d mod 16 < 16" using byte_less [of d] by auto
  ultimately obtain n where "c = hex_digit n" "n < 16" by blast
  then show ?thesis by (simp add: hex_digit_byte)
qed

lemma show_int_chars: "c \<in> set (show_int i) \<Longrightarrow> 45 \<le> byte c \<and> byte c \<le> 57"
  by (auto simp: show_int_def is_digit_def byte_def split: if_splits dest!: show_nat_digits)

lemma show_int_inject: "show_int i = show_int j \<longleftrightarrow> i = j"
proof
  have r: "read_nat (show_nat n) = n" for n by simp
  have m: "hd (show_nat n) \<noteq> CHR ''-''" for n
    using show_nat_digits [of "hd (show_nat n)" n] by (auto simp: is_digit_def byte_def)
  assume eq: "show_int i = show_int j"
  then have "i < 0 \<longleftrightarrow> j < 0" using m by (auto simp: show_int_def split: if_splits) (metis list.sel(1))+
  with eq show "i = j"
    by (auto simp: show_int_def split: if_splits)
qed simp

lemma bar_absent [simp]: "CHR ''|'' \<notin> set (show_int i)" "CHR ''|'' \<notin> set (hashKey h)"
  using show_int_chars [of "CHR ''|''" i] hashKey_chars [of "CHR ''|''" h]
  by (auto simp: byte_def)

definition no_bar :: "string \<Rightarrow> bool" where
  "no_bar s \<longleftrightarrow> CHR ''|'' \<notin> set s"

definition no_nul :: "string \<Rightarrow> bool" where
  "no_nul s \<longleftrightarrow> CHR 0x00 \<notin> set s"

lemma nul_prefix:
  assumes "no_nul p" "no_nul p'" "p @ CHR 0x00 # s = p' @ CHR 0x00 # s'"
  shows "p = p'"
  using assms
proof (induction p arbitrary: p')
  case Nil
  then show ?case by (cases p') (auto simp: no_nul_def)
next
  case (Cons c p)
  then show ?case by (cases p') (auto simp: no_nul_def)
qed

lemma unit_name_inject:
  assumes "no_bar c" "no_bar c'" "no_bar k" "no_bar k'"
  shows "unit_name c b s k h n = unit_name c' b' s' k' h' n' \<longleftrightarrow>
         (c, b, s, k, h, n) = (c', b', s', k', h', n')"
proof
  let ?ps = "[c, show_int b, show_int s, k, hashKey h, show_int n]"
  let ?qs = "[c', show_int b', show_int s', k', hashKey h', show_int n']"
  assume "unit_name c b s k h n = unit_name c' b' s' k' h' n'"
  then have "split_char (CHR ''|'') (join_char (CHR ''|'') ?ps) =
      split_char (CHR ''|'') (join_char (CHR ''|'') ?qs)"
    by (simp add: unit_name_def)
  moreover have "\<forall>p\<in>set ?ps. CHR ''|'' \<notin> set p" "\<forall>p\<in>set ?qs. CHR ''|'' \<notin> set p"
    using assms by (simp_all add: no_bar_def)
  ultimately have "?ps = ?qs"
    using split_join_char [of ?ps "CHR ''|''"] split_join_char [of ?qs "CHR ''|''"] by simp
  then show "(c, b, s, k, h, n) = (c', b', s', k', h', n')"
    by (simp add: show_int_inject hashKey_inject)
qed simp

lemma unit_name_v2_inject:
  assumes "no_bar c" "no_bar c'" "no_bar r" "no_bar r'" "no_bar l" "no_bar l'" "no_bar k" "no_bar k'"
  shows "unit_name_v2 c b s r l k h n = unit_name_v2 c' b' s' r' l' k' h' n' \<longleftrightarrow>
         (c, b, s, r, l, k, h, n) = (c', b', s', r', l', k', h', n')"
proof
  let ?ps = "[''v2'', c, show_int b, show_int s, r, l, k, hashKey h, show_int n]"
  let ?qs = "[''v2'', c', show_int b', show_int s', r', l', k', hashKey h', show_int n']"
  assume "unit_name_v2 c b s r l k h n = unit_name_v2 c' b' s' r' l' k' h' n'"
  then have "split_char (CHR ''|'') (join_char (CHR ''|'') ?ps) =
      split_char (CHR ''|'') (join_char (CHR ''|'') ?qs)"
    by (simp add: unit_name_v2_def)
  moreover have "\<forall>p\<in>set ?ps. CHR ''|'' \<notin> set p" "\<forall>p\<in>set ?qs. CHR ''|'' \<notin> set p"
    using assms by (simp_all add: no_bar_def)
  ultimately have "?ps = ?qs"
    using split_join_char [of ?ps "CHR ''|''"] split_join_char [of ?qs "CHR ''|''"] by simp
  then show "(c, b, s, r, l, k, h, n) = (c', b', s', r', l', k', h', n')"
    by (simp add: show_int_inject hashKey_inject)
qed simp

lemma unit_names_disjoint:
  assumes "no_bar c" "no_bar c'" "no_bar r'" "no_bar l'" "no_bar k" "no_bar k'"
  shows "unit_name c b s k h n \<noteq> unit_name_v2 c' b' s' r' l' k' h' n'"
proof
  let ?ps = "[c, show_int b, show_int s, k, hashKey h, show_int n]"
  let ?qs = "[''v2'', c', show_int b', show_int s', r', l', k', hashKey h', show_int n']"
  assume "unit_name c b s k h n = unit_name_v2 c' b' s' r' l' k' h' n'"
  then have eq: "split_char (CHR ''|'') (join_char (CHR ''|'') ?ps) =
      split_char (CHR ''|'') (join_char (CHR ''|'') ?qs)"
    by (simp only: unit_name_def unit_name_v2_def)
  have p: "split_char (CHR ''|'') (join_char (CHR ''|'') ?ps) = ?ps"
    using assms by (intro split_join_char) (simp_all add: no_bar_def)
  have q: "split_char (CHR ''|'') (join_char (CHR ''|'') ?qs) = ?qs"
    using assms by (intro split_join_char) (simp_all add: no_bar_def)
  have "length ?ps = length ?qs"
    by (rule arg_cong [OF eq [unfolded p q]])
  then show False by simp
qed

text \<open>Unit identifiers are natural keys: as long as UUIDv5 separates the names at hand, two
  version-1 identifiers agree only for the same corpus, book, scope, kind, content hash and
  occurrence, two version-2 identifiers only for the same slot as well, and a version-1
  identifier is never a version-2 one.\<close>

theorem natural_keys_unique:
  assumes "list_all no_bar [c, c', r, r', l, l', k, k']"
    and "inj_on (env_uuid5 E) {unit_name c b s k h n, unit_name c' b' s' k' h' n',
      unit_name_v2 c b s r l k h n, unit_name_v2 c' b' s' r' l' k' h' n'}"
  shows "(UnitID E c b s k h n = UnitID E c' b' s' k' h' n' \<longleftrightarrow>
       (c, b, s, k, h, n) = (c', b', s', k', h', n')) \<and>
    (UnitIDV2 E c b s r l k h n = UnitIDV2 E c' b' s' r' l' k' h' n' \<longleftrightarrow>
       (c, b, s, r, l, k, h, n) = (c', b', s', r', l', k', h', n')) \<and>
    UnitID E c b s k h n \<noteq> UnitIDV2 E c' b' s' r' l' k' h' n'"
proof -
  have e: "env_uuid5 E x = env_uuid5 E y \<longleftrightarrow> x = y"
    if "x \<in> {unit_name c b s k h n, unit_name c' b' s' k' h' n', unit_name_v2 c b s r l k h n,
        unit_name_v2 c' b' s' r' l' k' h' n'}"
      "y \<in> {unit_name c b s k h n, unit_name c' b' s' k' h' n', unit_name_v2 c b s r l k h n,
        unit_name_v2 c' b' s' r' l' k' h' n'}" for x y
    using assms(2) that by (simp only: inj_on_eq_iff)
  have nb: "no_bar c" "no_bar c'" "no_bar r" "no_bar r'" "no_bar l" "no_bar l'" "no_bar k" "no_bar k'"
    using assms(1) by simp_all
  show ?thesis
    unfolding UnitID_def UnitIDV2_def
    by (simp only: e insert_iff simp_thms unit_name_inject [OF nb(1,2,7,8)] unit_name_v2_inject [OF nb]
        unit_names_disjoint [OF nb(1,2,4,6,7,8)])
qed

theorem natural_keys_unique_witness:
  "UnitID \<lparr>env_sha256 = id, env_uuid5 = id, env_normalize = id\<rparr> ''kitab'' 7 3 ''footnote'' ''h'' 1 \<noteq>
   UnitID \<lparr>env_sha256 = id, env_uuid5 = id, env_normalize = id\<rparr> ''kitab'' 7 3 ''footnote'' ''h'' 2"
  using natural_keys_unique
    [of "''kitab''" "''kitab''" "''a''" "''a''" "''ar''" "''ar''" "''footnote''" "''footnote''"
      "\<lparr>env_sha256 = id, env_uuid5 = id, env_normalize = id\<rparr>" 7 3 "''h''" 1 7 3 "''h''" 2]
  by (simp add: no_bar_def)

end
