(* ===== verification/Unit_LIS.thy ===== *)
theory Unit_LIS
  imports Prelude "HOL-Library.Sublist"
begin

text \<open>
  \<open>longestIncreasingByActivePos\<close> of \<open>internal/usecase/unitregistry/plan.go\<close>: the patience
  algorithm with a binary search over the tails and parent links. The model works on the list
  of active positions and returns the chosen indices; \<open>Unit_Plan\<close> maps them back to pairs.
  \<open>parents\<close> holds \<open>-1\<close> for an index without a parent, as in the code. The walk along the
  parents may not end for arbitrary parent links, so it is a partial function; it is shown to
  return on every input the algorithm builds, and its result is shown to be a longest strictly
  increasing subsequence.
\<close>

section \<open>The algorithm\<close>

function lis_search :: "int list \<Rightarrow> nat list \<Rightarrow> int \<Rightarrow> nat \<Rightarrow> nat \<Rightarrow> nat" where
  "lis_search ps tails pos lo hi =
     (if lo < hi then
        let mid = lo + (hi - lo) div 2 in
        if ps ! (tails ! mid) < pos then lis_search ps tails pos (mid + 1) hi
        else lis_search ps tails pos lo mid
      else lo)"
  by pat_completeness auto
termination
  by (relation "measure (\<lambda>(ps, tails, pos, lo, hi). hi - lo)") auto

declare lis_search.simps [simp del]

definition lis_step :: "int list \<Rightarrow> nat list \<times> int list \<Rightarrow> nat \<Rightarrow> nat list \<times> int list" where
  "lis_step ps st i =
     (case st of (tails, parents) \<Rightarrow>
        let lo = lis_search ps tails (ps ! i) 0 (length tails);
            parent = (if 0 < lo then int (tails ! (lo - 1)) else - 1);
            tails' = (if lo = length tails then tails @ [i] else tails[lo := i])
        in (tails', parents[i := parent]))"

partial_function (option) lis_walk :: "int list \<Rightarrow> int \<Rightarrow> nat list option" where
  "lis_walk parents idx =
     (if idx < 0 then Some []
      else Option.bind (lis_walk parents (parents ! nat idx)) (\<lambda>rest. Some (nat idx # rest)))"

definition lis_indices :: "int list \<Rightarrow> nat list option" where
  "lis_indices ps =
     (if ps = [] then Some []
      else case fold (\<lambda>i st. lis_step ps st i) [0..<length ps] ([], replicate (length ps) 0) of
        (tails, parents) \<Rightarrow> map_option rev (lis_walk parents (int (last tails))))"

section \<open>Binary search\<close>

text \<open>On increasing tails the search returns the number of tails below the position.\<close>

definition tails_sorted :: "int list \<Rightarrow> nat list \<Rightarrow> bool" where
  "tails_sorted ps tails \<longleftrightarrow>
     (\<forall>i j. i < j \<longrightarrow> j < length tails \<longrightarrow> ps ! (tails ! i) < ps ! (tails ! j))"

lemma lis_search_inv:
  assumes "tails_sorted ps tails" "lo \<le> hi" "hi \<le> length tails"
    and "\<forall>j<lo. ps ! (tails ! j) < pos" "\<forall>j. hi \<le> j \<longrightarrow> j < length tails \<longrightarrow> pos \<le> ps ! (tails ! j)"
  shows "lis_search ps tails pos lo hi \<le> length tails \<and>
    (\<forall>j<lis_search ps tails pos lo hi. ps ! (tails ! j) < pos) \<and>
    (\<forall>j. lis_search ps tails pos lo hi \<le> j \<longrightarrow> j < length tails \<longrightarrow> pos \<le> ps ! (tails ! j))"
  using assms
proof (induction ps tails pos lo hi rule: lis_search.induct)
  case (1 ps tails pos lo hi)
  let ?mid = "lo + (hi - lo) div 2"
  show ?case
  proof (cases "lo < hi")
    case False
    then have "lis_search ps tails pos lo hi = lo"
      by (simp add: lis_search.simps [of ps tails pos lo hi])
    moreover have "hi = lo" using False "1.prems"(2) by simp
    ultimately show ?thesis using "1.prems" by simp
  next
    case True
    then have mid: "lo \<le> ?mid" "?mid < hi" by auto
    show ?thesis
    proof (cases "ps ! (tails ! ?mid) < pos")
      case below: True
      have low: "\<forall>j<?mid + 1. ps ! (tails ! j) < pos"
      proof (intro allI impI)
        fix j assume "j < ?mid + 1"
        then have "j = ?mid \<or> j < ?mid" by linarith
        moreover have "?mid < length tails" using "1.prems"(3) mid by linarith
        ultimately have "j = ?mid \<or> ps ! (tails ! j) < ps ! (tails ! ?mid)"
          using "1.prems"(1) unfolding tails_sorted_def by blast
        with below show "ps ! (tails ! j) < pos" by auto
      qed
      have eq: "lis_search ps tails pos lo hi = lis_search ps tails pos (?mid + 1) hi"
        using True below by (simp add: lis_search.simps [of ps tails pos lo hi] Let_def)
      have "?mid + 1 \<le> hi" using mid by simp
      then show ?thesis
        using "1.IH"(1) [OF True refl below "1.prems"(1) _ "1.prems"(3) low "1.prems"(5)]
        unfolding eq by blast
    next
      case above: False
      have high: "\<forall>j. ?mid \<le> j \<longrightarrow> j < length tails \<longrightarrow> pos \<le> ps ! (tails ! j)"
      proof (intro allI impI)
        fix j assume "?mid \<le> j" "j < length tails"
        then have "(j = ?mid \<or> ?mid < j) \<and> j < length tails" by linarith
        then have "j = ?mid \<or> ps ! (tails ! ?mid) < ps ! (tails ! j)"
          using "1.prems"(1) unfolding tails_sorted_def by blast
        with above show "pos \<le> ps ! (tails ! j)" by auto
      qed
      have eq: "lis_search ps tails pos lo hi = lis_search ps tails pos lo ?mid"
        using True above by (simp add: lis_search.simps [of ps tails pos lo hi] Let_def)
      have "?mid \<le> length tails" using mid "1.prems"(3) by simp
      then show ?thesis
        using "1.IH"(2) [OF True refl above "1.prems"(1) mid(1) _ "1.prems"(4) high]
        unfolding eq by blast
    qed
  qed
qed

lemma lis_search_spec:
  fixes pos :: int
  assumes "tails_sorted ps tails"
  defines "lo \<equiv> lis_search ps tails pos 0 (length tails)"
  shows "lo \<le> length tails" "\<And>j. j < lo \<Longrightarrow> ps ! (tails ! j) < pos"
    "\<And>j. lo \<le> j \<Longrightarrow> j < length tails \<Longrightarrow> pos \<le> ps ! (tails ! j)"
  using lis_search_inv [OF assms(1), of 0 "length tails" pos] unfolding lo_def by auto

section \<open>The invariant of the main loop\<close>

text \<open>An increasing index sequence into \<open>ps\<close>, all indices below \<open>n\<close>.\<close>

definition inc_seq :: "int list \<Rightarrow> nat \<Rightarrow> nat list \<Rightarrow> bool" where
  "inc_seq ps n s \<longleftrightarrow> sorted_wrt (<) s \<and> sorted_wrt (\<lambda>i j. ps ! i < ps ! j) s \<and> (\<forall>i\<in>set s. i < n)"

text \<open>\<open>chain parents i s\<close>: following the parents from \<open>i\<close> visits \<open>s\<close> backwards.\<close>

inductive chain :: "int list \<Rightarrow> int \<Rightarrow> nat list \<Rightarrow> bool" for parents where
  stop: "i < 0 \<Longrightarrow> chain parents i []"
| link: "0 \<le> i \<Longrightarrow> chain parents (parents ! nat i) s \<Longrightarrow> chain parents i (s @ [nat i])"

definition lis_inv :: "int list \<Rightarrow> nat \<Rightarrow> nat list \<times> int list \<Rightarrow> bool" where
  "lis_inv ps n st \<longleftrightarrow> (case st of (tails, parents) \<Rightarrow>
     length parents = length ps \<and> tails_sorted ps tails \<and>
     (\<forall>j<length tails. \<exists>s. chain parents (int (tails ! j)) s \<and> inc_seq ps n s \<and>
        s \<noteq> [] \<and> last s = tails ! j \<and> length s = Suc j) \<and>
     (\<forall>s. inc_seq ps n s \<longrightarrow> s \<noteq> [] \<longrightarrow>
        length s \<le> length tails \<and> ps ! (tails ! (length s - 1)) \<le> ps ! (last s)))"

lemma lis_walk_chain: "chain parents i s \<Longrightarrow> lis_walk parents i = Some (rev s)"
  by (induction rule: chain.induct) (simp_all add: lis_walk.simps)

lemma chain_update:
  assumes "chain parents i s" "\<forall>k\<in>set s. k < n"
  shows "chain (parents[n := v]) i s"
  using assms by (induction rule: chain.induct) (auto intro: chain.intros)

lemma inc_seq_mono: "inc_seq ps n s \<Longrightarrow> n \<le> m \<Longrightarrow> inc_seq ps m s"
  by (auto simp: inc_seq_def)

lemma inc_seq_snoc:
  "inc_seq ps (Suc n) (s @ [n]) \<longleftrightarrow> inc_seq ps n s \<and> (s = [] \<or> ps ! last s < ps ! n)"
proof
  assume "inc_seq ps (Suc n) (s @ [n])"
  then show "inc_seq ps n s \<and> (s = [] \<or> ps ! last s < ps ! n)"
    by (cases "s = []") (auto simp: inc_seq_def sorted_wrt_append)
next
  assume r: "inc_seq ps n s \<and> (s = [] \<or> ps ! last s < ps ! n)"
  have "\<forall>i\<in>set s. ps ! i < ps ! n"
  proof (cases "s = []")
    case False
    then obtain t where t: "s = t @ [last s]" by (metis append_butlast_last_id)
    have "sorted_wrt (\<lambda>i j. ps ! i < ps ! j) (t @ [last s])"
      using r t by (auto simp: inc_seq_def)
    then have "\<forall>i\<in>set t. ps ! i < ps ! last s" by (auto simp: sorted_wrt_append)
    with r False t show ?thesis by (metis (no_types) Un_iff empty_iff empty_set less_trans
        list.set(2) set_append singletonD)
  qed simp
  with r show "inc_seq ps (Suc n) (s @ [n])"
    by (auto simp: inc_seq_def sorted_wrt_append)
qed

lemma inc_seq_Suc_cases:
  assumes "inc_seq ps (Suc n) s" "s \<noteq> []"
  shows "inc_seq ps n s \<or> (\<exists>t. s = t @ [n] \<and> inc_seq ps n t \<and> (t = [] \<or> ps ! last t < ps ! n))"
proof (cases "last s = n")
  case True
  then have "s = butlast s @ [n]" using assms(2) by (metis append_butlast_last_id)
  then show ?thesis using assms(1) inc_seq_snoc by metis
next
  case False
  obtain t where t: "s = t @ [last s]" using assms(2) by (metis append_butlast_last_id)
  have "sorted_wrt (<) (t @ [last s])" "\<forall>i\<in>set (t @ [last s]). i < Suc n"
    using assms(1) t by (auto simp: inc_seq_def)
  with False have "\<forall>i\<in>set (t @ [last s]). i < n"
    by (fastforce simp: sorted_wrt_append)
  with t assms(1) show ?thesis by (auto simp: inc_seq_def)
qed

lemma tails_sorted_place:
  assumes "tails_sorted ps tails" "lo \<le> length tails"
    and below: "\<And>j. j < lo \<Longrightarrow> ps ! (tails ! j) < ps ! i"
    and above: "\<And>j. lo \<le> j \<Longrightarrow> j < length tails \<Longrightarrow> ps ! i \<le> ps ! (tails ! j)"
  shows "tails_sorted ps (if lo = length tails then tails @ [i] else tails[lo := i])"
proof (cases "lo = length tails")
  case True
  then show ?thesis
    using assms unfolding tails_sorted_def by (auto simp: nth_append less_Suc_eq)
next
  case False
  have "ps ! (tails[lo := i] ! j) < ps ! (tails[lo := i] ! k)"
    if "j < k" "k < length tails" for j k
  proof -
    have old: "ps ! (tails ! j) < ps ! (tails ! k)"
      using that assms(1) by (auto simp: tails_sorted_def)
    show ?thesis
    proof (cases "j = lo")
      case True
      then show ?thesis using above [of j] old that False assms(2) by simp
    next
      case False
      then show ?thesis
        using below [of j] old that by (cases "k = lo") simp_all
    qed
  qed
  with False show ?thesis by (simp add: tails_sorted_def)
qed

text \<open>One iteration keeps the invariant.\<close>

lemma lis_step_inv:
  assumes inv: "lis_inv ps n st" and n: "n < length ps"
  shows "lis_inv ps (Suc n) (lis_step ps st n)"
proof -
  obtain tails parents where st: "st = (tails, parents)" by (cases st)
  have len: "length parents = length ps" and srt: "tails_sorted ps tails"
    and chains: "\<And>j. j < length tails \<Longrightarrow> \<exists>s. chain parents (int (tails ! j)) s \<and> inc_seq ps n s \<and>
        s \<noteq> [] \<and> last s = tails ! j \<and> length s = Suc j"
    and best: "\<And>s. inc_seq ps n s \<Longrightarrow> s \<noteq> [] \<Longrightarrow>
        length s \<le> length tails \<and> ps ! (tails ! (length s - 1)) \<le> ps ! (last s)"
    using inv by (auto simp: lis_inv_def st)
  define lo where "lo = lis_search ps tails (ps ! n) 0 (length tails)"
  note lo = lis_search_spec [OF srt, where pos = "ps ! n", folded lo_def]
  define parent where "parent = (if 0 < lo then int (tails ! (lo - 1)) else - 1)"
  define tails' where "tails' = (if lo = length tails then tails @ [n] else tails[lo := n])"
  have step: "lis_step ps st n = (tails', parents[n := parent])"
    by (simp add: lis_step_def st lo_def parent_def tails'_def Let_def)
  have len': "length tails' = (if lo = length tails then Suc (length tails) else length tails)"
    by (simp add: tails'_def)
  have at_lo: "tails' ! lo = n" using lo(1) by (auto simp: tails'_def)
  have other: "tails' ! j = tails ! j" if "j < length tails" "j \<noteq> lo" for j
    using that by (simp add: tails'_def nth_append)
  have keep: "chain (parents[n := parent]) i s" if "chain parents i s" "inc_seq ps n s" for i s
    using that by (auto intro!: chain_update simp: inc_seq_def)
  obtain t where t: "chain parents parent t" "inc_seq ps n t" "t = [] \<or> ps ! last t < ps ! n"
    "length t = lo"
  proof (cases "lo = 0")
    case True
    then have "chain parents parent []" by (auto simp: parent_def intro: chain.stop)
    then show ?thesis using True that [of "[]"] by (simp add: inc_seq_def)
  next
    case False
    then have "lo - 1 < length tails" "ps ! (tails ! (lo - 1)) < ps ! n" using lo(1,2) by auto
    then show ?thesis using chains [of "lo - 1"] False that by (auto simp: parent_def)
  qed
  have "tails_sorted ps tails'"
    unfolding tails'_def using srt lo by (rule tails_sorted_place)
  moreover have "\<exists>s. chain (parents[n := parent]) (int (tails' ! j)) s \<and> inc_seq ps (Suc n) s \<and>
      s \<noteq> [] \<and> last s = tails' ! j \<and> length s = Suc j" if j: "j < length tails'" for j
  proof (cases "j = lo")
    case True
    have "chain (parents[n := parent]) (int n) (t @ [n])"
      using keep [OF t(1,2)] n len chain.link [of "int n" "parents[n := parent]" t] by simp
    then show ?thesis
      using True at_lo t(2-4) by (intro exI [of _ "t @ [n]"]) (simp add: inc_seq_snoc)
  next
    case False
    then have "j < length tails" using j lo(1) by (auto simp: len' split: if_splits)
    with chains [of j] False keep show ?thesis
      using inc_seq_mono [of ps n _ "Suc n"] other [of j] by (metis le_SucI order_refl)
  qed
  moreover have "length s \<le> length tails' \<and> ps ! (tails' ! (length s - 1)) \<le> ps ! (last s)"
    if s: "inc_seq ps (Suc n) s" "s \<noteq> []" for s
    using inc_seq_Suc_cases [OF s]
  proof
    assume "inc_seq ps n s"
    note old = best [OF this s(2)]
    then have lt: "length s - 1 < length tails" using s(2) by (cases s) auto
    show ?thesis
    proof (cases "length s - 1 = lo")
      case True
      then show ?thesis using old lt lo(3) [of lo] at_lo by (auto simp: len')
    next
      case False
      then show ?thesis using old lt other by (auto simp: len')
    qed
  next
    assume "\<exists>u. s = u @ [n] \<and> inc_seq ps n u \<and> (u = [] \<or> ps ! last u < ps ! n)"
    then obtain u where u: "s = u @ [n]" "inc_seq ps n u" "u = [] \<or> ps ! last u < ps ! n" by blast
    have m: "length u \<le> lo"
    proof (cases "u = []")
      case False
      then have "ps ! (tails ! (length u - 1)) < ps ! n" "length u - 1 < length tails"
        using best [OF u(2)] u(3) by (cases u; fastforce)+
      then show ?thesis using lo(3) [of "length u - 1"] by linarith
    qed simp
    have "length u < length tails'" using m lo(1) by (auto simp: len')
    moreover have "ps ! (tails' ! length u) \<le> ps ! n"
    proof (cases "length u = lo")
      case False
      then have "length u < lo" using m by simp
      then show ?thesis using lo(1,2) other [of "length u"] by fastforce
    qed (simp add: at_lo)
    ultimately show ?thesis using u by simp
  qed
  ultimately show ?thesis
    by (simp add: lis_inv_def step len)
qed

lemma lis_inv_init: "lis_inv ps 0 ([], replicate (length ps) 0)"
  by (auto simp: lis_inv_def tails_sorted_def inc_seq_def)

lemma lis_loop_inv:
  "n \<le> length ps \<Longrightarrow>
   lis_inv ps n (fold (\<lambda>i st. lis_step ps st i) [0..<n] ([], replicate (length ps) 0))"
proof (induction n)
  case (Suc n)
  then show ?case by (simp add: lis_step_inv)
qed (simp add: lis_inv_init)

section \<open>The result\<close>

lemma lis_indices_spec:
  "\<exists>s. lis_indices ps = Some s \<and> inc_seq ps (length ps) s \<and>
     (\<forall>t. inc_seq ps (length ps) t \<longrightarrow> length t \<le> length s)"
proof (cases "ps = []")
  case True
  then show ?thesis by (auto simp: lis_indices_def inc_seq_def)
next
  case False
  obtain tails parents where
    st: "fold (\<lambda>i st. lis_step ps st i) [0..<length ps] ([], replicate (length ps) 0) = (tails, parents)"
    by force
  then have inv: "lis_inv ps (length ps) (tails, parents)"
    using lis_loop_inv [of "length ps" ps] by simp
  have "inc_seq ps (length ps) [0]" using False by (simp add: inc_seq_def)
  then have ne: "tails \<noteq> []" using inv by (fastforce simp: lis_inv_def)
  then have "length tails - 1 < length tails" by simp
  then obtain s where s: "chain parents (int (last tails)) s" "inc_seq ps (length ps) s"
      "length s = length tails"
    using inv ne last_conv_nth [OF ne] unfolding lis_inv_def by fastforce
  then have "lis_indices ps = Some s"
    using False st by (simp add: lis_indices_def lis_walk_chain)
  moreover have "length t \<le> length s" if "inc_seq ps (length ps) t" for t
    using that inv s(3) by (cases "t = []") (auto simp: lis_inv_def)
  ultimately show ?thesis using s(2) by blast
qed

section \<open>Subsequences\<close>

lemma nths_filter: "nths xs N = map ((!) xs) (filter (\<lambda>i. i \<in> N) [0..<length xs])"
proof (induction xs rule: rev_induct)
  case (snoc x xs)
  have "map ((!) (xs @ [x])) (filter (\<lambda>i. i \<in> N) [0..<length xs]) =
      map ((!) xs) (filter (\<lambda>i. i \<in> N) [0..<length xs])"
    by (rule map_cong) (auto simp: nth_append)
  with snoc show ?case by (simp add: nths_append)
qed simp

lemma subseq_indices:
  assumes "subseq ys xs"
  shows "\<exists>s. sorted_wrt (<) s \<and> (\<forall>i\<in>set s. i < length xs) \<and> ys = map ((!) xs) s"
proof -
  from assms obtain N where "ys = nths xs N" using subseq_conv_nths by blast
  then have "ys = map ((!) xs) (filter (\<lambda>i. i \<in> N) [0..<length xs])" by (simp add: nths_filter)
  moreover have "sorted_wrt (<) (filter (\<lambda>i. i \<in> N) [0..<length xs])" by (simp add: sorted_wrt_filter)
  ultimately show ?thesis by (intro exI [of _ "filter (\<lambda>i. i \<in> N) [0..<length xs]"]) auto
qed

lemma indices_subseq:
  assumes "sorted_wrt (<) s" "\<forall>i\<in>set s. i < length xs"
  shows "subseq (map ((!) xs) s) xs"
proof -
  have "sorted_wrt (<) (filter (\<lambda>i. i \<in> set s) [0..<length xs])" by (simp add: sorted_wrt_filter)
  moreover have "set (filter (\<lambda>i. i \<in> set s) [0..<length xs]) = set s" using assms(2) by auto
  ultimately have "filter (\<lambda>i. i \<in> set s) [0..<length xs] = s"
    using assms(1) strict_sorted_equal by blast
  then have "map ((!) xs) s = nths xs (set s)" by (simp add: nths_filter)
  then show ?thesis using subseq_conv_nths by blast
qed

end
