(* ===== verification/Unit_Plan.thy ===== *)
theory Unit_Plan
  imports Unit_Types Unit_LIS "HOL-Library.Product_Lexorder" "HOL-Library.Multiset"
begin

text \<open>
  The reconcile planner of \<open>internal/usecase/unitregistry/plan.go\<close>: \<open>PlanBook\<close> compares the
  derived units of a book with the registry snapshot and returns the write set.

  The builder \<open>planBuilder\<close> is a record threaded through the phases in the code's order:
  \<open>groupScopes\<close>, per scope \<open>reconcileScope\<close> (\<open>matchScope\<close>, the increasing anchors,
  \<open>assignGaps\<close>, \<open>mintScope\<close>, \<open>lineageGaps\<close>), then \<open>resolveFootnoteParents\<close>, \<open>stageUpdates\<close>,
  \<open>rescuePass\<close>, \<open>finalizeRetires\<close> and \<open>fillReport\<close>. A pointer to a retire reference is its index
  in the reference list. The occurrence probe of \<open>mintScope\<close> has no bound in the code, so it is
  a partial function and every caller returns an option; \<open>None\<close> is a plan that never comes back.
  Machine integers are unbounded here: positions, ordinals and counts are far below the word size.
\<close>

section \<open>Builder state\<close>

definition gapEdgeCap :: nat where
  "gapEdgeCap = 32"

record matchPair =
  mp_derivedIdx :: nat
  mp_active :: CitableUnit

record retireRef =
  rr_unit :: CitableUnit
  rr_hasEdge :: bool
  rr_scopeKey :: int

record mintRef =
  mr_planIdx :: nat
  mr_derivedIdx :: nat

record planBuilder =
  pb_bookID :: int
  pb_derived :: "DerivedUnit list"
  pb_snap :: UnitRegistrySnapshot
  pb_plan :: UnitReconcilePlan
  pb_unitIDs :: "string list"
  pb_plannedIDs :: "string list"
  pb_mintRefs :: "mintRef list"
  pb_retireRefs :: "retireRef list"
  pb_retireByID :: "string \<rightharpoonup> nat"
  pb_matchedPairs :: "matchPair list"
  pb_activeTwins :: "int \<Rightarrow> string \<Rightarrow> CitableUnit list"

section \<open>Footnote parents of the derived units\<close>

definition derivedRequiresParent :: "DerivedUnit \<Rightarrow> bool" where
  "derivedRequiresParent d \<longleftrightarrow>
     d_Kind d = UnitKindFootnote \<or> (d_Kind d = UnitKindQuranQuote \<and> d_Marker d \<noteq> '''')"

definition derivedParentValid :: "DerivedUnit list \<Rightarrow> nat \<Rightarrow> bool" where
  "derivedParentValid derived childIdx =
     (let child = derived ! childIdx; p = d_ParentIdx child in
      if p < 0 \<or> int (length derived) \<le> p \<or> p = int childIdx then False
      else let parent = derived ! nat p in
        \<not> derivedRequiresParent parent \<and> d_PageID parent = d_PageID child \<and>
        d_ContentRole parent = d_ContentRole child \<and> d_Language parent = d_Language child)"

definition normalize_parent :: "DerivedUnit list \<Rightarrow> nat \<Rightarrow> DerivedUnit" where
  "normalize_parent ds i =
     (let d = ds ! i in
      if \<not> derivedRequiresParent d then d\<lparr>d_ParentIdx := - 1, d_FootnoteLink := ''''\<rparr>
      else if \<not> derivedParentValid ds i then
        d\<lparr>d_ParentIdx := - 1, d_FootnoteLink := FootnoteLinkUnlinked\<rparr>
      else if d_FootnoteLink d \<noteq> FootnoteLinkMarker \<and> d_FootnoteLink d \<noteq> FootnoteLinkFallback then
        d\<lparr>d_FootnoteLink := FootnoteLinkFallback\<rparr>
      else d)"

definition normalizeDerivedParentShapes :: "DerivedUnit list \<Rightarrow> DerivedUnit list" where
  "normalizeDerivedParentShapes derived =
     fold (\<lambda>i ds. ds[i := normalize_parent ds i]) [0..<length derived] derived"

section \<open>Scopes, matching and gaps\<close>

definition derived_scope :: "DerivedUnit \<Rightarrow> int" where
  "derived_scope d = scopeKeyOf (d_HeadingID d)"

definition unit_scope :: "CitableUnit \<Rightarrow> int" where
  "unit_scope u = scopeKeyOf (u_HeadingID u)"

definition derived_key :: "DerivedUnit \<Rightarrow> string" where
  "derived_key d = matchKey (d_ContentRole d) (d_Language d) (d_Kind d) (d_ContentHash d)
     (d_ProvenanceClass d) (d_GenerationRunID d)"

definition unit_key :: "CitableUnit \<Rightarrow> string" where
  "unit_key u = matchKey (normalizedContentRole (u_ContentRole u))
     (normalizedLanguage (u_Language u)) (u_Kind u) (u_ContentHash u)
     (u_ProvenanceClass u) (u_GenerationRunID u)"

definition derived_rescue_key :: "DerivedUnit \<Rightarrow> string" where
  "derived_rescue_key d = rescueKey (d_ContentRole d) (d_Language d) (d_Kind d)
     (d_Marker d \<noteq> '''') (d_ContentHash d)"

definition unit_rescue_key :: "CitableUnit \<Rightarrow> string" where
  "unit_rescue_key u = rescueKey (normalizedContentRole (u_ContentRole u))
     (normalizedLanguage (u_Language u)) (u_Kind u) (u_Marker u \<noteq> None) (u_ContentHash u)"

definition derived_of_scope :: "DerivedUnit list \<Rightarrow> int \<Rightarrow> nat list" where
  "derived_of_scope ds k = filter (\<lambda>i. derived_scope (ds ! i) = k) [0..<length ds]"

definition active_of_scope :: "CitableUnit list \<Rightarrow> int \<Rightarrow> CitableUnit list" where
  "active_of_scope us k = filter (\<lambda>u. unit_scope u = k) us"

definition groupScopes ::
  "planBuilder \<Rightarrow> (int \<Rightarrow> nat list) \<times> (int \<Rightarrow> CitableUnit list) \<times> int list" where
  "groupScopes b =
     (let derivedByScope = derived_of_scope (pb_derived b);
          activeByScope = active_of_scope (s_Active (pb_snap b));
          seen = nub (map derived_scope (pb_derived b));
          activeOnly = filter (\<lambda>k. k \<notin> set seen) (nub (map unit_scope (s_Active (pb_snap b))))
      in (derivedByScope, activeByScope, seen @ sort activeOnly))"

definition queues_of :: "CitableUnit list \<Rightarrow> string \<Rightarrow> CitableUnit list" where
  "queues_of actives k = filter (\<lambda>u. unit_key u = k) actives"

definition record_match :: "int \<Rightarrow> nat \<Rightarrow> CitableUnit \<Rightarrow> planBuilder \<Rightarrow> planBuilder" where
  "record_match scopeKey di u b =
     b\<lparr>pb_unitIDs := (pb_unitIDs b)[di := u_ID u],
       pb_activeTwins := (pb_activeTwins b)(scopeKey := (pb_activeTwins b scopeKey)
         (unit_rescue_key u := pb_activeTwins b scopeKey (unit_rescue_key u) @ [u]))\<rparr>"

fun match_loop ::
  "int \<Rightarrow> (string \<Rightarrow> CitableUnit list) \<Rightarrow> nat list \<Rightarrow> planBuilder \<Rightarrow>
   matchPair list \<times> nat list \<times> planBuilder" where
  "match_loop scopeKey queues [] b = ([], [], b)"
| "match_loop scopeKey queues (di # dis) b =
     (let key = derived_key (pb_derived b ! di) in
      case queues key of
        [] \<Rightarrow>
          let (pairs, unmatched, b') = match_loop scopeKey queues dis b
          in (pairs, di # unmatched, b')
      | u # rest \<Rightarrow>
          let (pairs, unmatched, b') =
            match_loop scopeKey (queues(key := rest)) dis (record_match scopeKey di u b)
          in (\<lparr>mp_derivedIdx = di, mp_active = u\<rparr> # pairs, unmatched, b'))"

definition matchScope ::
  "int \<Rightarrow> nat list \<Rightarrow> CitableUnit list \<Rightarrow> planBuilder \<Rightarrow> matchPair list \<times> nat list \<times> planBuilder" where
  "matchScope scopeKey dIdxs actives b = match_loop scopeKey (queues_of actives) dIdxs b"

definition unitMatched :: "matchPair list \<Rightarrow> string \<Rightarrow> bool" where
  "unitMatched pairs i = list_ex (\<lambda>p. u_ID (mp_active p) = i) pairs"

definition longestIncreasingByActivePos :: "matchPair list \<Rightarrow> matchPair list option" where
  "longestIncreasingByActivePos pairs =
     map_option (map ((!) pairs)) (lis_indices (map (\<lambda>p. u_Position (mp_active p)) pairs))"

type_synonym gapKey = "nat \<times> string"

definition gapOfPos :: "matchPair list \<Rightarrow> int \<Rightarrow> nat" where
  "gapOfPos anchors pos = length (filter (\<lambda>a. u_Position (mp_active a) < pos) anchors)"

definition gapOfDerived :: "DerivedUnit list \<Rightarrow> matchPair list \<Rightarrow> nat \<Rightarrow> nat" where
  "gapOfDerived ds anchors di =
     length (filter (\<lambda>a. d_ScopePosition (ds ! mp_derivedIdx a) < d_ScopePosition (ds ! di)) anchors)"

definition gap_class :: "string \<Rightarrow> string \<Rightarrow> string \<Rightarrow> bool \<Rightarrow> string" where
  "gap_class role language kind markerPresent =
     role @ [CHR 0x00] @ language @ [CHR 0x00] @ kindClass kind markerPresent"

definition unit_gap :: "matchPair list \<Rightarrow> CitableUnit \<Rightarrow> gapKey" where
  "unit_gap anchors u =
     (gapOfPos anchors (u_Position u),
      gap_class (normalizedContentRole (u_ContentRole u)) (normalizedLanguage (u_Language u))
        (u_Kind u) (u_Marker u \<noteq> None))"

definition derived_gap :: "DerivedUnit list \<Rightarrow> matchPair list \<Rightarrow> nat \<Rightarrow> gapKey" where
  "derived_gap ds anchors di =
     (gapOfDerived ds anchors di,
      gap_class (d_ContentRole (ds ! di)) (d_Language (ds ! di)) (d_Kind (ds ! di))
        (d_Marker (ds ! di) \<noteq> ''''))"

definition assignGaps ::
  "DerivedUnit list \<Rightarrow> matchPair list \<Rightarrow> CitableUnit list \<Rightarrow> nat list \<Rightarrow>
   (gapKey \<Rightarrow> CitableUnit list) \<times> (gapKey \<Rightarrow> nat list) \<times> gapKey list" where
  "assignGaps ds anchors unmatchedActive unmatchedDerived =
     ((\<lambda>k. filter (\<lambda>u. unit_gap anchors u = k) unmatchedActive),
      (\<lambda>k. filter (\<lambda>di. derived_gap ds anchors di = k) unmatchedDerived),
      nub (map (unit_gap anchors) unmatchedActive @
           map (derived_gap ds anchors) unmatchedDerived))"

section \<open>Minting\<close>

definition isDerivedFootnote :: "DerivedUnit \<Rightarrow> bool" where
  "isDerivedFootnote d = derivedRequiresParent d"

definition derivedProvenanceDetail :: "DerivedUnit \<Rightarrow> detail option" where
  "derivedProvenanceDetail d =
     Some ((if d_ProvenanceClass d = ProvenanceClassEditorial \<and> d_EditActorID d \<noteq> ''''
            then [(''edit_actor_id'', DStr (d_EditActorID d))] else []) @
           (if d_ProvenanceClass d = ProvenanceClassSource \<and> d_ReleaseKey d \<noteq> ''''
            then [(''release'', DStr (d_ReleaseKey d))] else []) @
           (if d_FormattingEditActorID d \<noteq> ''''
            then [(''format_edit_actor_id'', DStr (d_FormattingEditActorID d))] else []) @
           (if isDerivedFootnote d then [(''footnote_link'', DStr (d_FootnoteLink d))] else []))"

definition derivedUnitID :: "unit_env \<Rightarrow> int \<Rightarrow> int \<Rightarrow> DerivedUnit \<Rightarrow> int \<Rightarrow> string" where
  "derivedUnitID E bookID scopeKey d occurrence =
     (if d_ContentRole d = UnitContentRoleBookPage \<and> d_Language d = ''ar''
      then UnitID E UnitCorpusKitab bookID scopeKey (d_Kind d) (d_ContentHash d) occurrence
      else UnitIDV2 E UnitCorpusKitab bookID scopeKey (d_ContentRole d) (d_Language d)
             (d_Kind d) (d_ContentHash d) occurrence)"

definition optionalString :: "string \<Rightarrow> string option" where
  "optionalString v = (if v = '''' then None else Some v)"

definition mintUnit ::
  "unit_env \<Rightarrow> int \<Rightarrow> int \<Rightarrow> string \<Rightarrow> int \<Rightarrow> int \<Rightarrow> DerivedUnit \<Rightarrow> CitableUnit" where
  "mintUnit E bookID scopeKey i ordinal occurrence d =
     \<lparr>u_ID = i, u_Corpus = UnitCorpusKitab, u_BookID = Some bookID,
      u_HeadingID = (if scopeKey \<noteq> frontMatterHeadingID then Some scopeKey else None),
      u_PageID = Some (d_PageID d), u_Kind = d_Kind d, u_Ordinal = ordinal,
      u_Position = d_ScopePosition d, u_ParentUnitID = None,
      u_Anchor = AnchorFor bookID scopeKey ordinal,
      u_Marker = (if d_Marker d \<noteq> '''' then Some (d_Marker d) else None),
      u_Text = d_Text d, u_HTML = (if d_HTML d \<noteq> '''' then Some (d_HTML d) else None),
      u_TextNormalized = env_normalize E (d_Text d), u_NormalizationVersion = ProfileVersion,
      u_ContentHash = d_ContentHash d, u_Occurrence = occurrence, u_Language = d_Language d,
      u_ContentRole = d_ContentRole d, u_ReviewStatus = d_ReviewStatus d,
      u_SourceDocumentHash = d_SourceDocumentHash d,
      u_SourceCharStart = Some (d_SourceCharStart d), u_SourceCharEnd = Some (d_SourceCharEnd d),
      u_ProvenanceClass = d_ProvenanceClass d, u_ProvenanceDetail = derivedProvenanceDetail d,
      u_GenerationRunID = d_GenerationRunID d, u_Generation = None,
      u_LicenseStatus = None, u_EffectiveLicenseStatus = None, u_LicenseSource = None,
      u_Lifecycle = UnitLifecycleActive, u_RetiredAt = None, u_CreatedAt = 0, u_UpdatedAt = 0\<rparr>"

partial_function (option) probe ::
  "(int \<Rightarrow> string) \<Rightarrow> string list \<Rightarrow> string list \<Rightarrow> int \<Rightarrow> int option" where
  "probe ident existing planned occurrence =
     (if ident occurrence \<notin> set existing \<and> ident occurrence \<notin> set planned then Some occurrence
      else probe ident existing planned (occurrence + 1))"

declare probe.simps [code]

definition add_mint :: "nat \<Rightarrow> CitableUnit \<Rightarrow> planBuilder \<Rightarrow> planBuilder" where
  "add_mint di u b =
     b\<lparr>pb_plannedIDs := u_ID u # pb_plannedIDs b,
       pb_unitIDs := (pb_unitIDs b)[di := u_ID u],
       pb_mintRefs := pb_mintRefs b @
         [\<lparr>mr_planIdx = length (pl_Mints (pb_plan b)), mr_derivedIdx = di\<rparr>],
       pb_plan := (pb_plan b)\<lparr>pl_Mints := pl_Mints (pb_plan b) @ [u]\<rparr>\<rparr>"

fun mint_loop ::
  "unit_env \<Rightarrow> int \<Rightarrow> int \<Rightarrow> (string \<Rightarrow> int) \<Rightarrow> nat list \<Rightarrow> planBuilder \<Rightarrow> planBuilder option" where
  "mint_loop E scopeKey nextOrdinal dupSoFar [] b = Some b"
| "mint_loop E scopeKey nextOrdinal dupSoFar (di # dis) b =
     (let d = pb_derived b ! di;
          dup = dupSoFar(derived_key d := dupSoFar (derived_key d) + 1);
          ident = derivedUnitID E (pb_bookID b) scopeKey d
      in if pb_unitIDs b ! di \<noteq> '''' then mint_loop E scopeKey nextOrdinal dup dis b
         else case probe ident (s_ExistingIDs (pb_snap b)) (pb_plannedIDs b) (dup (derived_key d)) of
           None \<Rightarrow> None
         | Some occurrence \<Rightarrow>
             mint_loop E scopeKey (nextOrdinal + 1) dup dis
               (add_mint di (mintUnit E (pb_bookID b) scopeKey (ident occurrence)
                  (nextOrdinal + 1) occurrence d) b))"

definition mintScope :: "unit_env \<Rightarrow> int \<Rightarrow> nat list \<Rightarrow> planBuilder \<Rightarrow> planBuilder option" where
  "mintScope E scopeKey dIdxs b =
     mint_loop E scopeKey (s_MaxOrdinalByScope (pb_snap b) scopeKey) (\<lambda>_. 0) dIdxs b"

section \<open>Lineage inside the gaps\<close>

definition addEdge :: "string \<Rightarrow> string \<Rightarrow> string \<Rightarrow> planBuilder \<Rightarrow> planBuilder" where
  "addEdge pred succID reason b =
     b\<lparr>pb_plan := (pb_plan b)\<lparr>pl_Edges := pl_Edges (pb_plan b) @
        [\<lparr>e_PredecessorID = pred, e_SuccessorID = succID, e_Reason = reason\<rparr>]\<rparr>\<rparr>"

definition add_retire :: "int \<Rightarrow> CitableUnit \<Rightarrow> planBuilder \<Rightarrow> planBuilder" where
  "add_retire scopeKey u b =
     b\<lparr>pb_retireRefs := pb_retireRefs b @
         [\<lparr>rr_unit = u, rr_hasEdge = False, rr_scopeKey = scopeKey\<rparr>],
       pb_retireByID := (pb_retireByID b)(u_ID u \<mapsto> length (pb_retireRefs b))\<rparr>"

definition mark_edge :: "string \<Rightarrow> planBuilder \<Rightarrow> planBuilder" where
  "mark_edge i b =
     (case pb_retireByID b i of
        None \<Rightarrow> b
      | Some n \<Rightarrow>
          b\<lparr>pb_retireRefs := (pb_retireRefs b)[n := (pb_retireRefs b ! n)\<lparr>rr_hasEdge := True\<rparr>]\<rparr>)"

definition edit_edge :: "CitableUnit \<Rightarrow> nat \<Rightarrow> planBuilder \<Rightarrow> planBuilder" where
  "edit_edge u di b =
     mark_edge (u_ID u) (addEdge (u_ID u) (pb_unitIDs b ! di) UnitLineageReasonEdit b)"

definition count_capped :: "planBuilder \<Rightarrow> planBuilder" where
  "count_capped b =
     b\<lparr>pb_plan := (pb_plan b)\<lparr>pl_Report := (pl_Report (pb_plan b))
        \<lparr>rep_CappedGaps := rep_CappedGaps (pl_Report (pb_plan b)) + 1\<rparr>\<rparr>\<rparr>"

definition gap_edges :: "CitableUnit list \<Rightarrow> nat list \<Rightarrow> (CitableUnit \<times> nat) list" where
  "gap_edges removed added =
     (if added = [] then []
      else if length removed * length added \<le> gapEdgeCap then
        concat (map (\<lambda>u. map (\<lambda>di. (u, di)) added) removed)
      else map (\<lambda>(i, u). (u, if i < length added then added ! i else last added))
             (enumerate 0 removed))"

definition lineage_gap ::
  "int \<Rightarrow> CitableUnit list \<Rightarrow> nat list \<Rightarrow> planBuilder \<Rightarrow> planBuilder" where
  "lineage_gap scopeKey removed added b =
     (if removed = [] then b
      else
        let b1 = fold (add_retire scopeKey) removed b in
        if added = [] then b1
        else
          let b2 = (if length removed * length added \<le> gapEdgeCap then b1 else count_capped b1)
          in fold (\<lambda>(u, di). edit_edge u di) (gap_edges removed added) b2)"

definition lineageGaps ::
  "int \<Rightarrow> gapKey list \<Rightarrow> (gapKey \<Rightarrow> CitableUnit list) \<Rightarrow> (gapKey \<Rightarrow> nat list) \<Rightarrow>
   planBuilder \<Rightarrow> planBuilder" where
  "lineageGaps scopeKey gapKeys removedByGap addedByGap b =
     fold (\<lambda>k. lineage_gap scopeKey (removedByGap k) (addedByGap k)) gapKeys b"

definition reconcileScope ::
  "unit_env \<Rightarrow> int \<Rightarrow> nat list \<Rightarrow> CitableUnit list \<Rightarrow> planBuilder \<Rightarrow> planBuilder option" where
  "reconcileScope E scopeKey dIdxs actives0 b =
     (let actives = sort_key u_Position actives0;
          (pairs, unmatchedDerived, b1) = matchScope scopeKey dIdxs actives b;
          b2 = b1\<lparr>pb_matchedPairs := pb_matchedPairs b1 @ pairs\<rparr>;
          unmatchedActive = filter (\<lambda>u. \<not> unitMatched pairs (u_ID u)) actives
      in case longestIncreasingByActivePos pairs of
           None \<Rightarrow> None
         | Some anchors \<Rightarrow>
             let (removedByGap, addedByGap, gapKeys) =
                   assignGaps (pb_derived b) anchors unmatchedActive unmatchedDerived
             in case mintScope E scopeKey dIdxs b2 of
                  None \<Rightarrow> None
                | Some b3 \<Rightarrow> Some (lineageGaps scopeKey gapKeys removedByGap addedByGap b3))"

fun reconcile_scopes ::
  "unit_env \<Rightarrow> (int \<Rightarrow> nat list) \<Rightarrow> (int \<Rightarrow> CitableUnit list) \<Rightarrow> int list \<Rightarrow> planBuilder \<Rightarrow>
   planBuilder option" where
  "reconcile_scopes E derivedByScope activeByScope [] b = Some b"
| "reconcile_scopes E derivedByScope activeByScope (k # ks) b =
     (case reconcileScope E k (derivedByScope k) (activeByScope k) b of
        None \<Rightarrow> None
      | Some b' \<Rightarrow> reconcile_scopes E derivedByScope activeByScope ks b')"

section \<open>Book-level phases\<close>

definition want_parent :: "DerivedUnit \<Rightarrow> string list \<Rightarrow> string option" where
  "want_parent d ids = (if 0 \<le> d_ParentIdx d then Some (ids ! nat (d_ParentIdx d)) else None)"

definition resolve_parent :: "mintRef \<Rightarrow> planBuilder \<Rightarrow> planBuilder" where
  "resolve_parent r b =
     (let d = pb_derived b ! mr_derivedIdx r; mints = pl_Mints (pb_plan b) in
      if 0 \<le> d_ParentIdx d then
        b\<lparr>pb_plan := (pb_plan b)\<lparr>pl_Mints := mints[mr_planIdx r := (mints ! mr_planIdx r)
          \<lparr>u_ParentUnitID := Some (pb_unitIDs b ! nat (d_ParentIdx d))\<rparr>]\<rparr>\<rparr>
      else b)"

definition resolveFootnoteParents :: "planBuilder \<Rightarrow> planBuilder" where
  "resolveFootnoteParents b = fold resolve_parent (pb_mintRefs b) b"

definition samePage :: "int option \<Rightarrow> int \<Rightarrow> bool" where
  "samePage a v = (a = Some v)"

definition sameParent :: "string option \<Rightarrow> string option \<Rightarrow> bool" where
  "sameParent a v = (case (a, v) of (None, None) \<Rightarrow> True | (Some x, Some y) \<Rightarrow> x = y | _ \<Rightarrow> False)"

definition sameOptionalString :: "string option \<Rightarrow> string option \<Rightarrow> bool" where
  "sameOptionalString a v =
     (case (a, v) of (None, None) \<Rightarrow> True | (Some x, Some y) \<Rightarrow> x = y | _ \<Rightarrow> False)"

definition sameRuneOffset :: "int option \<Rightarrow> int \<Rightarrow> bool" where
  "sameRuneOffset v want = (v = Some want)"

definition up_to_date :: "CitableUnit \<Rightarrow> DerivedUnit \<Rightarrow> string option \<Rightarrow> bool" where
  "up_to_date u d wantParent \<longleftrightarrow>
     u_Position u = d_ScopePosition d \<and>
     samePage (u_PageID u) (d_PageID d) \<and>
     sameParent (u_ParentUnitID u) wantParent \<and>
     sameOptionalString (u_HTML u) (optionalString (d_HTML d)) \<and>
     u_ReviewStatus u = d_ReviewStatus d \<and>
     detail_eq (u_ProvenanceDetail u) (derivedProvenanceDetail d) \<and>
     u_SourceDocumentHash u = d_SourceDocumentHash d \<and>
     sameRuneOffset (u_SourceCharStart u) (d_SourceCharStart d) \<and>
     sameRuneOffset (u_SourceCharEnd u) (d_SourceCharEnd d)"

definition stage_update :: "CitableUnit \<Rightarrow> DerivedUnit \<Rightarrow> string option \<Rightarrow> UnitPlanUpdate" where
  "stage_update u d wantParent =
     \<lparr>up_ID = u_ID u, up_Position = d_ScopePosition d, up_PageID = Some (d_PageID d),
      up_ParentUnitID = wantParent,
      up_FootnoteLink = (if isDerivedFootnote d then Some (d_FootnoteLink d) else None),
      up_HTML = optionalString (d_HTML d), up_ReviewStatus = d_ReviewStatus d,
      up_ProvenanceDetail = derivedProvenanceDetail d,
      up_SourceDocumentHash = d_SourceDocumentHash d,
      up_SourceCharStart = Some (d_SourceCharStart d), up_SourceCharEnd = Some (d_SourceCharEnd d)\<rparr>"

fun staged :: "DerivedUnit list \<Rightarrow> string list \<Rightarrow> matchPair list \<Rightarrow> UnitPlanUpdate list" where
  "staged ds ids [] = []"
| "staged ds ids (p # ps) =
     (let d = ds ! mp_derivedIdx p; want = want_parent d ids in
      if up_to_date (mp_active p) d want then staged ds ids ps
      else stage_update (mp_active p) d want # staged ds ids ps)"

definition stageUpdates :: "planBuilder \<Rightarrow> planBuilder" where
  "stageUpdates b =
     b\<lparr>pb_plan := (pb_plan b)\<lparr>pl_Updates := pl_Updates (pb_plan b) @
        staged (pb_derived b) (pb_unitIDs b) (pb_matchedPairs b)\<rparr>\<rparr>"

definition rescue_targets :: "planBuilder \<Rightarrow> string \<Rightarrow> string list" where
  "rescue_targets b k =
     map (\<lambda>r. u_ID (pl_Mints (pb_plan b) ! mr_planIdx r))
       (filter (\<lambda>r. derived_rescue_key (pb_derived b ! mr_derivedIdx r) = k) (pb_mintRefs b))"

definition best_twin :: "CitableUnit list \<Rightarrow> CitableUnit" where
  "best_twin twins =
     fold (\<lambda>t best. if u_Ordinal t < u_Ordinal best then t else best) (tl twins) (hd twins)"

definition move_edge :: "CitableUnit \<Rightarrow> string \<Rightarrow> CitableUnitLineage" where
  "move_edge u succID =
     \<lparr>e_PredecessorID = u_ID u, e_SuccessorID = succID, e_Reason = UnitLineageReasonContentMove\<rparr>"

fun rescue_loop ::
  "(int \<Rightarrow> string \<Rightarrow> CitableUnit list) \<Rightarrow> (string \<Rightarrow> string list) \<Rightarrow> retireRef list \<Rightarrow>
   retireRef list \<times> CitableUnitLineage list" where
  "rescue_loop activeTwins targets [] = ([], [])"
| "rescue_loop activeTwins targets (r # rs) =
     (if rr_hasEdge r then
        let (rs', es) = rescue_loop activeTwins targets rs in (r # rs', es)
      else
        let k = unit_rescue_key (rr_unit r) in
        case targets k of
          t # ts \<Rightarrow>
            let (rs', es) = rescue_loop activeTwins (targets(k := ts)) rs
            in (r\<lparr>rr_hasEdge := True\<rparr> # rs', move_edge (rr_unit r) t # es)
        | [] \<Rightarrow>
            let twins = activeTwins (rr_scopeKey r) k in
            if twins \<noteq> [] then
              let (rs', es) = rescue_loop activeTwins targets rs
              in (r\<lparr>rr_hasEdge := True\<rparr> # rs', move_edge (rr_unit r) (u_ID (best_twin twins)) # es)
            else let (rs', es) = rescue_loop activeTwins targets rs in (r # rs', es))"

definition retire_order :: "retireRef \<Rightarrow> int \<times> int" where
  "retire_order r = (rr_scopeKey r, u_Ordinal (rr_unit r))"

definition rescuePass :: "planBuilder \<Rightarrow> planBuilder" where
  "rescuePass b =
     (let (refs, edges) = rescue_loop (pb_activeTwins b) (rescue_targets b)
            (sort_key retire_order (pb_retireRefs b))
      in b\<lparr>pb_retireRefs := refs,
           pb_plan := (pb_plan b)\<lparr>pl_Edges := pl_Edges (pb_plan b) @ edges\<rparr>\<rparr>)"

definition retire_of :: "retireRef \<Rightarrow> UnitPlanRetire" where
  "retire_of r =
     \<lparr>rt_ID = u_ID (rr_unit r),
      rt_Lifecycle = (if rr_hasEdge r then UnitLifecycleSuperseded else UnitLifecycleTombstoned)\<rparr>"

definition finalizeRetires :: "planBuilder \<Rightarrow> planBuilder" where
  "finalizeRetires b =
     (let rep = pl_Report (pb_plan b);
          edged = length (filter rr_hasEdge (pb_retireRefs b));
          bare = length (filter (\<lambda>r. \<not> rr_hasEdge r) (pb_retireRefs b))
      in b\<lparr>pb_plan := (pb_plan b)
            \<lparr>pl_Retires := pl_Retires (pb_plan b) @ map retire_of (pb_retireRefs b),
             pl_Report := rep\<lparr>rep_Superseded := rep_Superseded rep + int edged,
                              rep_Tombstoned := rep_Tombstoned rep + int bare\<rparr>\<rparr>\<rparr>)"

definition fillReport :: "planBuilder \<Rightarrow> planBuilder" where
  "fillReport b =
     (let plan = pb_plan b; rep = pl_Report plan;
          edits = length (filter (\<lambda>e. e_Reason e = UnitLineageReasonEdit) (pl_Edges plan));
          moves = length (filter (\<lambda>e. e_Reason e \<noteq> UnitLineageReasonEdit) (pl_Edges plan));
          htmls = length (filter (\<lambda>d. d_Kind d = UnitKindHTML) (pb_derived b))
      in b\<lparr>pb_plan := plan\<lparr>
            pl_Report := rep\<lparr>
              rep_Matched := int (length (pb_matchedPairs b)),
              rep_Minted := int (length (pl_Mints plan)),
              rep_Updated := int (length (pl_Updates plan)),
              rep_EditEdges := rep_EditEdges rep + int edits,
              rep_MoveEdges := rep_MoveEdges rep + int moves,
              rep_HTMLUnits := rep_HTMLUnits rep + int htmls\<rparr>,
            pl_ExpectedActive := int (length (pb_matchedPairs b) + length (pl_Mints plan))\<rparr>\<rparr>)"

definition empty_report :: "int \<Rightarrow> int \<Rightarrow> UnitReconcileReport" where
  "empty_report bookID n =
     \<lparr>rep_BookID = bookID, rep_Scopes = 0, rep_Derived = n, rep_Matched = 0, rep_Minted = 0,
      rep_Updated = 0, rep_Superseded = 0, rep_Tombstoned = 0, rep_EditEdges = 0,
      rep_MoveEdges = 0, rep_HTMLUnits = 0, rep_CappedGaps = 0, rep_Attempts = 0\<rparr>"

definition init_builder ::
  "int \<Rightarrow> int \<Rightarrow> DerivedUnit list \<Rightarrow> UnitRegistrySnapshot \<Rightarrow> planBuilder" where
  "init_builder bookID loadedAt ds snap =
     \<lparr>pb_bookID = bookID, pb_derived = ds, pb_snap = snap,
      pb_plan =
        \<lparr>pl_BookID = bookID, pl_LoadedAt = loadedAt, pl_BasedOn = s_Fingerprint snap,
         pl_Mints = [], pl_HistoricalMints = [], pl_Intermediate = False, pl_Updates = [],
         pl_Retires = [], pl_Edges = [], pl_ExpectedActive = 0,
         pl_Report = empty_report bookID (int (length ds))\<rparr>,
      pb_unitIDs = replicate (length ds) '''', pb_plannedIDs = [], pb_mintRefs = [],
      pb_retireRefs = [], pb_retireByID = Map.empty, pb_matchedPairs = [],
      pb_activeTwins = (\<lambda>_ _. [])\<rparr>"

definition set_scopes :: "int \<Rightarrow> planBuilder \<Rightarrow> planBuilder" where
  "set_scopes n b =
     b\<lparr>pb_plan := (pb_plan b)\<lparr>pl_Report := (pl_Report (pb_plan b))\<lparr>rep_Scopes := n\<rparr>\<rparr>\<rparr>"

definition PlanBook ::
  "unit_env \<Rightarrow> int \<Rightarrow> int \<Rightarrow> DerivedUnit list \<Rightarrow> UnitRegistrySnapshot \<Rightarrow> UnitReconcilePlan option" where
  "PlanBook E bookID loadedAt derived0 snap =
     (let b0 = init_builder bookID loadedAt (normalizeDerivedParentShapes derived0) snap;
          (derivedByScope, activeByScope, scopeOrder) = groupScopes b0;
          b1 = set_scopes (int (length scopeOrder)) b0
      in case reconcile_scopes E derivedByScope activeByScope scopeOrder b1 of
           None \<Rightarrow> None
         | Some b2 \<Rightarrow>
             Some (pb_plan (fillReport (finalizeRetires (rescuePass
               (stageUpdates (resolveFootnoteParents b2)))))))"

end
