(* ===== verification/Unit_Match.thy ===== *)
theory Unit_Match
  imports Unit_Plan
begin

text \<open>
  The per-scope matching and minting loops of the planner: \<open>matchScope\<close> pairs the k-th derived
  instance of a match key with the k-th active instance of that key, and \<open>mintScope\<close> mints the
  rest in document order under fresh identifiers and ordinals above the high-water mark.
\<close>

section \<open>Normalised parent shapes\<close>

lemma normalize_parent_keeps [simp]:
  "d_Kind (normalize_parent ds i) = d_Kind (ds ! i)"
  "d_Marker (normalize_parent ds i) = d_Marker (ds ! i)"
  "d_PageID (normalize_parent ds i) = d_PageID (ds ! i)"
  "d_ContentRole (normalize_parent ds i) = d_ContentRole (ds ! i)"
  "d_Language (normalize_parent ds i) = d_Language (ds ! i)"
  "d_HeadingID (normalize_parent ds i) = d_HeadingID (ds ! i)"
  "d_ScopePosition (normalize_parent ds i) = d_ScopePosition (ds ! i)"
  "d_ContentHash (normalize_parent ds i) = d_ContentHash (ds ! i)"
  by (simp_all add: normalize_parent_def Let_def)

lemma derivedRequiresParent_keeps [simp]:
  "derivedRequiresParent (normalize_parent ds i) = derivedRequiresParent (ds ! i)"
  by (simp add: derivedRequiresParent_def)

text \<open>A row the loop has already rewritten looks the same to the parent test.\<close>

definition same_shape :: "DerivedUnit list \<Rightarrow> DerivedUnit list \<Rightarrow> bool" where
  "same_shape ds es \<longleftrightarrow> length ds = length es \<and>
     (\<forall>i<length ds. derivedRequiresParent (ds ! i) = derivedRequiresParent (es ! i) \<and>
        d_PageID (ds ! i) = d_PageID (es ! i) \<and> d_ContentRole (ds ! i) = d_ContentRole (es ! i) \<and>
        d_Language (ds ! i) = d_Language (es ! i))"

lemma normalize_parent_same_shape:
  assumes "same_shape ds es" "i < length ds" "ds ! i = es ! i"
  shows "normalize_parent ds i = normalize_parent es i"
proof -
  have "derivedParentValid ds i = derivedParentValid es i"
    using assms unfolding derivedParentValid_def same_shape_def Let_def
    by (auto simp: nat_less_iff)
  with assms(3) show ?thesis by (simp add: normalize_parent_def Let_def)
qed

lemma normalize_loop:
  "m \<le> length ds \<Longrightarrow> fold (\<lambda>i xs. xs[i := normalize_parent xs i]) [0..<m] ds =
     map (normalize_parent ds) [0..<m] @ drop m ds"
proof (induction m)
  case (Suc m)
  let ?es = "map (normalize_parent ds) [0..<m] @ drop m ds"
  have nth: "?es ! i = (if i < m then normalize_parent ds i else ds ! i)" if "i < length ds" for i
    using that Suc.prems by (auto simp: nth_append)
  have len: "length ?es = length ds" using Suc.prems by simp
  have "same_shape ?es ds" unfolding same_shape_def using nth len by auto
  then have "normalize_parent ?es m = normalize_parent ds m"
    using Suc.prems nth len by (intro normalize_parent_same_shape) auto
  moreover have "fold (\<lambda>i xs. xs[i := normalize_parent xs i]) [0..<Suc m] ds =
      ?es[m := normalize_parent ?es m]"
    using Suc by simp
  moreover have "?es[m := y] = map (normalize_parent ds) [0..<m] @ y # drop (Suc m) ds" for y
    using Suc.prems by (simp add: list_update_append Cons_nth_drop_Suc [symmetric])
  ultimately show ?case by simp
qed simp

lemma normalizeDerivedParentShapes_map:
  "normalizeDerivedParentShapes ds = map (normalize_parent ds) [0..<length ds]"
  using normalize_loop [of "length ds" ds] by (simp add: normalizeDerivedParentShapes_def)

lemma length_normalize [simp]: "length (normalizeDerivedParentShapes ds) = length ds"
  by (simp add: normalizeDerivedParentShapes_map)

lemma nth_normalize:
  "i < length ds \<Longrightarrow> normalizeDerivedParentShapes ds ! i = normalize_parent ds i"
  by (simp add: normalizeDerivedParentShapes_map)

lemma normalize_same_shape: "same_shape (normalizeDerivedParentShapes ds) ds"
  by (simp add: same_shape_def nth_normalize)

text \<open>The shape the database constraint asks of a unit's parent link.\<close>

definition parent_shape_ok :: "DerivedUnit list \<Rightarrow> nat \<Rightarrow> bool" where
  "parent_shape_ok ds i \<longleftrightarrow>
     (let d = ds ! i in
      if \<not> derivedRequiresParent d then d_ParentIdx d = - 1 \<and> d_FootnoteLink d = ''''
      else (d_ParentIdx d = - 1 \<and> d_FootnoteLink d = FootnoteLinkUnlinked) \<or>
           (derivedParentValid ds i \<and>
            d_FootnoteLink d \<in> {FootnoteLinkMarker, FootnoteLinkFallback}))"

lemma normalize_parent_valid:
  assumes "i < length ds" "d_ParentIdx (normalize_parent ds i) = d_ParentIdx (ds ! i)"
  shows "derivedParentValid (normalizeDerivedParentShapes ds) i = derivedParentValid ds i"
proof -
  have "d_ParentIdx (normalizeDerivedParentShapes ds ! i) = d_ParentIdx (ds ! i)"
    using assms by (simp add: nth_normalize)
  then show ?thesis
    using normalize_same_shape [of ds] assms(1)
    unfolding derivedParentValid_def same_shape_def Let_def by (auto simp: nat_less_iff)
qed

lemma normalize_shape_ok:
  assumes "i < length ds"
  shows "parent_shape_ok (normalizeDerivedParentShapes ds) i"
proof (cases "derivedRequiresParent (ds ! i) \<and> derivedParentValid ds i")
  case True
  then have "d_ParentIdx (normalize_parent ds i) = d_ParentIdx (ds ! i)"
    by (simp add: normalize_parent_def Let_def)
  with True normalize_parent_valid [OF assms this] assms show ?thesis
    by (auto simp: parent_shape_ok_def nth_normalize normalize_parent_def Let_def
        derivedRequiresParent_def)
next
  case False
  with assms show ?thesis
    by (auto simp: parent_shape_ok_def nth_normalize normalize_parent_def Let_def
        derivedRequiresParent_def)
qed

lemma normalize_idem:
  "normalizeDerivedParentShapes (normalizeDerivedParentShapes ds) = normalizeDerivedParentShapes ds"
proof (rule nth_equalityI)
  fix i assume "i < length (normalizeDerivedParentShapes (normalizeDerivedParentShapes ds))"
  then have i: "i < length ds" by simp
  let ?es = "normalizeDerivedParentShapes ds"
  have "parent_shape_ok ?es i" using normalize_shape_ok i .
  moreover have "\<not> derivedParentValid ?es i" if "d_ParentIdx (?es ! i) = - 1"
    using that by (simp add: derivedParentValid_def Let_def)
  ultimately have "normalize_parent ?es i = ?es ! i"
    by (auto simp: parent_shape_ok_def normalize_parent_def Let_def split: if_splits)
  then show "normalizeDerivedParentShapes ?es ! i = ?es ! i"
    using i by (simp add: nth_normalize)
qed simp

section \<open>Matching\<close>

definition pair_of :: "nat \<times> CitableUnit \<Rightarrow> matchPair" where
  "pair_of z = \<lparr>mp_derivedIdx = fst z, mp_active = snd z\<rparr>"

lemma pair_of_sel [simp]:
  "mp_derivedIdx (pair_of z) = fst z" "mp_active (pair_of z) = snd z"
  by (simp_all add: pair_of_def)

lemma record_match_frame [simp]:
  "pb_derived (record_match k di u b) = pb_derived b"
  "pb_snap (record_match k di u b) = pb_snap b"
  "pb_bookID (record_match k di u b) = pb_bookID b"
  "pb_plan (record_match k di u b) = pb_plan b"
  "pb_plannedIDs (record_match k di u b) = pb_plannedIDs b"
  "pb_mintRefs (record_match k di u b) = pb_mintRefs b"
  "pb_retireRefs (record_match k di u b) = pb_retireRefs b"
  "pb_retireByID (record_match k di u b) = pb_retireByID b"
  "pb_matchedPairs (record_match k di u b) = pb_matchedPairs b"
  "pb_unitIDs (record_match k di u b) = (pb_unitIDs b)[di := u_ID u]"
  by (simp_all add: record_match_def)

lemma match_loop_ConsE:
  assumes "match_loop k q (di # dis) b = (ps, un, b')"
  obtains (none) un' where "q (derived_key (pb_derived b ! di)) = []" "un = di # un'"
      "match_loop k q dis b = (ps, un', b')"
  | (some) u rest ps' where "q (derived_key (pb_derived b ! di)) = u # rest"
      "ps = \<lparr>mp_derivedIdx = di, mp_active = u\<rparr> # ps'"
      "match_loop k (q(derived_key (pb_derived b ! di) := rest)) dis (record_match k di u b) =
        (ps', un, b')"
  using assms by (auto simp: Let_def split: list.splits prod.splits)

text \<open>The builder after the loop is the builder with the matches recorded in order.\<close>

definition record_matches :: "int \<Rightarrow> matchPair list \<Rightarrow> planBuilder \<Rightarrow> planBuilder" where
  "record_matches k ps b = fold (\<lambda>p. record_match k (mp_derivedIdx p) (mp_active p)) ps b"

lemma match_loop_effect:
  "match_loop k q dis b = (ps, un, b') \<Longrightarrow> b' = record_matches k ps b"
proof (induction dis arbitrary: q b ps un)
  case (Cons di dis)
  from Cons.prems show ?case
    by (cases rule: match_loop_ConsE) (auto simp: record_matches_def dest: Cons.IH)
qed (simp add: record_matches_def)

lemma record_matches_frame [simp]:
  "pb_derived (record_matches k ps b) = pb_derived b"
  "pb_snap (record_matches k ps b) = pb_snap b"
  "pb_bookID (record_matches k ps b) = pb_bookID b"
  "pb_plan (record_matches k ps b) = pb_plan b"
  "pb_plannedIDs (record_matches k ps b) = pb_plannedIDs b"
  "pb_mintRefs (record_matches k ps b) = pb_mintRefs b"
  "pb_retireRefs (record_matches k ps b) = pb_retireRefs b"
  "pb_retireByID (record_matches k ps b) = pb_retireByID b"
  "pb_matchedPairs (record_matches k ps b) = pb_matchedPairs b"
  by (simp_all add: record_matches_def fold_frame)

lemma record_matches_length [simp]:
  "length (pb_unitIDs (record_matches k ps b)) = length (pb_unitIDs b)"
  unfolding record_matches_def by (rule fold_frame [where f = "\<lambda>b. length (pb_unitIDs b)"]) simp

lemma record_matches_other:
  "i \<notin> mp_derivedIdx ` set ps \<Longrightarrow> pb_unitIDs (record_matches k ps b) ! i = pb_unitIDs b ! i"
  by (induction ps arbitrary: b) (auto simp: record_matches_def)

lemma record_matches_id:
  assumes "p \<in> set ps" "distinct (map mp_derivedIdx ps)" "mp_derivedIdx p < length (pb_unitIDs b)"
  shows "pb_unitIDs (record_matches k ps b) ! mp_derivedIdx p = u_ID (mp_active p)"
  using assms
proof (induction ps arbitrary: b)
  case (Cons a ps)
  let ?b = "record_match k (mp_derivedIdx a) (mp_active a) b"
  have step: "record_matches k (a # ps) b = record_matches k ps ?b"
    by (simp add: record_matches_def)
  show ?case
  proof (cases "p \<in> set ps")
    case True
    with Cons step show ?thesis by simp
  next
    case False
    with Cons.prems have "p = a" "mp_derivedIdx a \<notin> mp_derivedIdx ` set ps" by auto
    with step Cons.prems(3) show ?thesis by (simp add: record_matches_other)
  qed
qed simp

text \<open>Twins are matched units, filed under the scope and rescue key they were matched in.\<close>

lemma record_matches_twins:
  "pb_activeTwins (record_matches k ps b) s key = pb_activeTwins b s key @
     (if s = k then filter (\<lambda>u. unit_rescue_key u = key) (map mp_active ps) else [])"
proof (induction ps arbitrary: b)
  case (Cons a ps)
  have step: "record_matches k (a # ps) b =
      record_matches k ps (record_match k (mp_derivedIdx a) (mp_active a) b)"
    by (simp add: record_matches_def)
  show ?case unfolding step Cons.IH by (simp add: record_match_def)
qed (simp add: record_matches_def)

lemma match_loop_rank:
  "match_loop k q dis b = (ps, un, b') \<Longrightarrow>
   filter (\<lambda>p. derived_key (pb_derived b ! mp_derivedIdx p) = key) ps =
     map pair_of (zip (filter (\<lambda>i. derived_key (pb_derived b ! i) = key) dis) (q key))"
proof (induction dis arbitrary: q b ps un)
  case (Cons di dis)
  from Cons.prems show ?case
    by (cases rule: match_loop_ConsE) (auto simp: pair_of_def dest: Cons.IH)
qed simp

lemma match_loop_indices:
  "match_loop k q dis b = (ps, un, b') \<Longrightarrow> distinct dis \<Longrightarrow>
   un = filter (\<lambda>i. i \<notin> mp_derivedIdx ` set ps) dis \<and>
   map mp_derivedIdx ps = filter (\<lambda>i. i \<in> mp_derivedIdx ` set ps) dis"
proof (induction dis arbitrary: q b ps un)
  case (Cons di dis)
  from Cons.prems(1) show ?case
  proof (cases rule: match_loop_ConsE)
    case (none un')
    note ih = Cons.IH [OF none(3)]
    from ih have "mp_derivedIdx ` set ps \<subseteq> set dis"
      using Cons.prems(2) by (metis distinct.simps(2) filter_is_subset set_map)
    with Cons.prems(2) have "di \<notin> mp_derivedIdx ` set ps" by auto
    with none ih Cons.prems(2) show ?thesis by simp
  next
    case (some u rest ps')
    note ih = Cons.IH [OF some(3)]
    have "\<forall>i\<in>set dis. i \<noteq> di" using Cons.prems(2) by auto
    with some ih Cons.prems(2) show ?thesis by (auto intro!: filter_cong)
  qed
qed simp

lemma match_loop_pairs:
  assumes "match_loop k q dis b = (ps, un, b')" "p \<in> set ps"
  shows "mp_derivedIdx p \<in> set dis"
    "mp_active p \<in> set (q (derived_key (pb_derived b ! mp_derivedIdx p)))"
proof -
  let ?key = "derived_key (pb_derived b ! mp_derivedIdx p)"
  have "p \<in> set (filter (\<lambda>p. derived_key (pb_derived b ! mp_derivedIdx p) = ?key) ps)"
    using assms(2) by simp
  then obtain z where z: "z \<in> set (zip (filter (\<lambda>i. derived_key (pb_derived b ! i) = ?key) dis) (q ?key))"
      "p = pair_of z"
    unfolding match_loop_rank [OF assms(1)] by auto
  then have m: "(mp_derivedIdx p, mp_active p) \<in>
      set (zip (filter (\<lambda>i. derived_key (pb_derived b ! i) = ?key) dis) (q ?key))"
    by simp
  show "mp_derivedIdx p \<in> set dis" using set_zip_leftD [OF m] by simp
  show "mp_active p \<in> set (q ?key)" using set_zip_rightD [OF m] .
qed

lemma queues_of_key: "u \<in> set (queues_of us key) \<longleftrightarrow> u \<in> set us \<and> unit_key u = key"
  by (auto simp: queues_of_def)

lemma match_loop_key:
  assumes "match_loop k (queues_of us) dis b = (ps, un, b')" "p \<in> set ps"
  shows "mp_active p \<in> set us"
    "unit_key (mp_active p) = derived_key (pb_derived b ! mp_derivedIdx p)"
  using match_loop_pairs(2) [OF assms] by (simp_all add: queues_of_key)

text \<open>No active unit is matched twice.\<close>

lemma match_loop_actives:
  assumes "match_loop k (queues_of us) dis b = (ps, un, b')"
  shows "mset (map mp_active ps) \<subseteq># mset us"
proof (rule mset_subset_eqI)
  fix u
  let ?key = "unit_key u"
  have "filter (\<lambda>v. unit_key v = ?key) (map mp_active ps) =
      map mp_active (filter (\<lambda>p. derived_key (pb_derived b ! mp_derivedIdx p) = ?key) ps)"
    using match_loop_key(2) [OF assms] by (simp add: filter_map o_def cong: filter_cong)
  also have "\<dots> = take (length (filter (\<lambda>i. derived_key (pb_derived b ! i) = ?key) dis))
      (queues_of us ?key)"
    unfolding match_loop_rank [OF assms]
    by (simp add: o_def map_snd_zip_take min_def)
  finally have f: "filter (\<lambda>v. unit_key v = ?key) (map mp_active ps) =
      take (length (filter (\<lambda>i. derived_key (pb_derived b ! i) = ?key) dis)) (queues_of us ?key)" .
  have c: "count (mset xs) u = count (mset (filter (\<lambda>v. unit_key v = ?key) xs)) u" for xs
    by (induction xs) auto
  have "count (mset (take n xs)) u \<le> count (mset xs) u" for n and xs :: "CitableUnit list"
    by (metis append_take_drop_id count_union le_add1 mset_append)
  then show "count (mset (map mp_active ps)) u \<le> count (mset us) u"
    unfolding c [of "map mp_active ps"] c [of us] f queues_of_def .
qed

section \<open>Minting\<close>

lemma probe_start: "ident n \<notin> set ex \<Longrightarrow> ident n \<notin> set pl \<Longrightarrow> probe ident ex pl n = Some n"
  by (subst probe.simps) simp

lemma probe_next:
  "ident n \<in> set ex \<or> ident n \<in> set pl \<Longrightarrow> probe ident ex pl n = probe ident ex pl (n + 1)"
  by (subst probe.simps) auto

lemma probe_result:
  assumes "probe ident ex pl n = Some m"
  shows "n \<le> m \<and> ident m \<notin> set ex \<and> ident m \<notin> set pl"
proof (rule probe.raw_induct [of "\<lambda>i e p n m. n \<le> m \<and> i m \<notin> set e \<and> i m \<notin> set p", OF _ assms])
  fix pr i e p and n y :: int
  assume IH: "\<And>i e p n y. pr i e p n = Some y \<Longrightarrow> n \<le> y \<and> i y \<notin> set e \<and> i y \<notin> set p"
    and step: "(if i n \<notin> set e \<and> i n \<notin> set p then Some n else pr i e p (n + 1)) = Some y"
  show "n \<le> y \<and> i y \<notin> set e \<and> i y \<notin> set p"
  proof (cases "i n \<notin> set e \<and> i n \<notin> set p")
    case False
    with step have "pr i e p (n + 1) = Some y" by simp
    from IH [OF this] show ?thesis by linarith
  qed (use step in simp)
qed

text \<open>If the identifiers of enough consecutive occurrences are distinct, the probe returns.\<close>

lemma probe_finds:
  assumes "ident (n + int j) \<notin> set ex \<union> set pl"
  shows "\<exists>m. probe ident ex pl n = Some m"
  using assms
proof (induction j arbitrary: n)
  case 0
  then show ?case using probe_start [of ident n ex pl] by auto
next
  case (Suc j)
  show ?case
  proof (cases "ident n \<in> set ex \<or> ident n \<in> set pl")
    case True
    have "ident (n + 1 + int j) \<notin> set ex \<union> set pl" using Suc.prems by (simp add: algebra_simps)
    from Suc.IH [OF this] show ?thesis using True probe_next by metis
  next
    case False
    then show ?thesis using probe_start [of ident n ex pl] by auto
  qed
qed

lemma probe_total:
  assumes "inj_on ident {n..n + int (length ex + length pl)}"
  shows "\<exists>m. probe ident ex pl n = Some m"
proof -
  let ?I = "{n..n + int (length ex + length pl)}"
  have "card (set ex \<union> set pl) \<le> length ex + length pl"
    by (metis List.card_set card_length length_append set_append)
  also have "\<dots> < card ?I" by simp
  also have "\<dots> = card (ident ` ?I)" using assms by (simp add: card_image)
  finally have "\<not> ident ` ?I \<subseteq> set ex \<union> set pl"
    by (metis List.finite_set card_mono finite_UnI not_le)
  then obtain m where m: "m \<in> ?I" "ident m \<notin> set ex \<union> set pl" by blast
  then have "ident (n + int (nat (m - n))) \<notin> set ex \<union> set pl" by simp
  then show ?thesis by (rule probe_finds)
qed

text \<open>
  A mint run: the units a scope mints, each with the identifier of some occurrence that neither
  the registry nor this plan has used, and the ordinals counted on from the high-water mark.
\<close>

fun mint_run ::
  "unit_env \<Rightarrow> int \<Rightarrow> int \<Rightarrow> DerivedUnit list \<Rightarrow> string list \<Rightarrow> string list \<Rightarrow> int \<Rightarrow>
   (nat \<times> CitableUnit) list \<Rightarrow> bool" where
  "mint_run E book k ds ex pl no [] = True"
| "mint_run E book k ds ex pl no ((di, u) # new) =
     ((\<exists>occ\<ge>1. u = mintUnit E book k (derivedUnitID E book k (ds ! di) occ) (no + 1) occ (ds ! di)) \<and>
      u_ID u \<notin> set ex \<and> u_ID u \<notin> set pl \<and> mint_run E book k ds ex (u_ID u # pl) (no + 1) new)"

definition add_mints :: "(nat \<times> CitableUnit) list \<Rightarrow> planBuilder \<Rightarrow> planBuilder" where
  "add_mints new b = fold (\<lambda>(di, u). add_mint di u) new b"

lemma mintUnit_sel [simp]:
  "u_ID (mintUnit E book k i no occ d) = i"
  "u_Ordinal (mintUnit E book k i no occ d) = no"
  "u_Position (mintUnit E book k i no occ d) = d_ScopePosition d"
  "u_ParentUnitID (mintUnit E book k i no occ d) = None"
  "u_Anchor (mintUnit E book k i no occ d) = AnchorFor book k no"
  "u_Lifecycle (mintUnit E book k i no occ d) = UnitLifecycleActive"
  "u_HeadingID (mintUnit E book k i no occ d) = (if k \<noteq> frontMatterHeadingID then Some k else None)"
  by (simp_all add: mintUnit_def)

lemma unit_scope_mintUnit [simp]: "unit_scope (mintUnit E book k i no occ d) = k"
  by (simp add: unit_scope_def scopeKeyOf_def)

lemma add_mint_frame [simp]:
  "pb_derived (add_mint di u b) = pb_derived b" "pb_snap (add_mint di u b) = pb_snap b"
  "pb_bookID (add_mint di u b) = pb_bookID b"
  "pb_retireRefs (add_mint di u b) = pb_retireRefs b"
  "pb_retireByID (add_mint di u b) = pb_retireByID b"
  "pb_matchedPairs (add_mint di u b) = pb_matchedPairs b"
  "pb_activeTwins (add_mint di u b) = pb_activeTwins b"
  "pb_plannedIDs (add_mint di u b) = u_ID u # pb_plannedIDs b"
  "pb_unitIDs (add_mint di u b) = (pb_unitIDs b)[di := u_ID u]"
  "pl_Mints (pb_plan (add_mint di u b)) = pl_Mints (pb_plan b) @ [u]"
  "pb_mintRefs (add_mint di u b) =
     pb_mintRefs b @ [\<lparr>mr_planIdx = length (pl_Mints (pb_plan b)), mr_derivedIdx = di\<rparr>]"
  "pl_Edges (pb_plan (add_mint di u b)) = pl_Edges (pb_plan b)"
  "pl_Report (pb_plan (add_mint di u b)) = pl_Report (pb_plan b)"
  "pl_Updates (pb_plan (add_mint di u b)) = pl_Updates (pb_plan b)"
  "pl_HistoricalMints (pb_plan (add_mint di u b)) = pl_HistoricalMints (pb_plan b)"
  "pl_Retires (pb_plan (add_mint di u b)) = pl_Retires (pb_plan b)"
  by (simp_all add: add_mint_def)

lemma add_mints_simps [simp]:
  "add_mints [] b = b" "add_mints ((di, u) # new) b = add_mints new (add_mint di u b)"
  by (simp_all add: add_mints_def)

lemma add_mints_frame [simp]:
  "pb_derived (add_mints new b) = pb_derived b" "pb_snap (add_mints new b) = pb_snap b"
  "pb_bookID (add_mints new b) = pb_bookID b"
  "pb_retireRefs (add_mints new b) = pb_retireRefs b"
  "pb_retireByID (add_mints new b) = pb_retireByID b"
  "pb_matchedPairs (add_mints new b) = pb_matchedPairs b"
  "pb_activeTwins (add_mints new b) = pb_activeTwins b"
  "pl_Edges (pb_plan (add_mints new b)) = pl_Edges (pb_plan b)"
  "pl_Report (pb_plan (add_mints new b)) = pl_Report (pb_plan b)"
  "pl_Updates (pb_plan (add_mints new b)) = pl_Updates (pb_plan b)"
  "pl_HistoricalMints (pb_plan (add_mints new b)) = pl_HistoricalMints (pb_plan b)"
  "pl_Retires (pb_plan (add_mints new b)) = pl_Retires (pb_plan b)"
  "length (pb_unitIDs (add_mints new b)) = length (pb_unitIDs b)"
  "pb_plannedIDs (add_mints new b) = rev (map (u_ID \<circ> snd) new) @ pb_plannedIDs b"
  "pl_Mints (pb_plan (add_mints new b)) = pl_Mints (pb_plan b) @ map snd new"
  "map mr_derivedIdx (pb_mintRefs (add_mints new b)) =
     map mr_derivedIdx (pb_mintRefs b) @ map fst new"
  by (induction new arbitrary: b) auto

lemma add_mints_planIdx:
  "map mr_planIdx (pb_mintRefs b) = [0..<length (pl_Mints (pb_plan b))] \<Longrightarrow>
   map mr_planIdx (pb_mintRefs (add_mints new b)) = [0..<length (pl_Mints (pb_plan (add_mints new b)))]"
  by (induction new arbitrary: b) auto

lemma add_mints_other:
  "i \<notin> fst ` set new \<Longrightarrow> pb_unitIDs (add_mints new b) ! i = pb_unitIDs b ! i"
  by (induction new arbitrary: b) auto

lemma add_mints_id:
  assumes "(i, u) \<in> set new" "distinct (map fst new)" "i < length (pb_unitIDs b)"
  shows "pb_unitIDs (add_mints new b) ! i = u_ID u"
  using assms
proof (induction new arbitrary: b)
  case (Cons a new)
  obtain j v where a: "a = (j, v)" by force
  show ?case
  proof (cases "(i, u) \<in> set new")
    case True
    with Cons a show ?thesis by simp
  next
    case False
    with Cons.prems a have "j = i" "v = u" "i \<notin> fst ` set new" by auto
    with a Cons.prems(3) show ?thesis by (simp add: add_mints_other)
  qed
qed simp

lemma mint_loop_effect:
  assumes "mint_loop E k no dup dis b = Some b'" "distinct dis" "\<forall>key. 0 \<le> dup key"
  shows "\<exists>new. b' = add_mints new b \<and> map fst new = filter (\<lambda>i. pb_unitIDs b ! i = '''') dis \<and>
    mint_run E (pb_bookID b) k (pb_derived b) (s_ExistingIDs (pb_snap b)) (pb_plannedIDs b) no new"
  using assms
proof (induction dis arbitrary: no dup b)
  case Nil
  then show ?case by (intro exI [of _ "[]"]) simp
next
  case (Cons di dis)
  let ?d = "pb_derived b ! di"
  let ?dup = "dup(derived_key ?d := dup (derived_key ?d) + 1)"
  let ?ident = "derivedUnitID E (pb_bookID b) k ?d"
  have dup: "\<forall>key. 0 \<le> ?dup key" using Cons.prems(3) by (simp add: add_nonneg_nonneg)
  show ?case
  proof (cases "pb_unitIDs b ! di = ''''")
    case False
    with Cons.prems(1) have "mint_loop E k no ?dup dis b = Some b'" by (simp add: Let_def)
    from Cons.IH [OF this _ dup] Cons.prems(2) False show ?thesis by auto
  next
    case True
    with Cons.prems(1) obtain occ where
      occ: "probe ?ident (s_ExistingIDs (pb_snap b)) (pb_plannedIDs b) (?dup (derived_key ?d)) = Some occ"
      and loop: "mint_loop E k (no + 1) ?dup dis
        (add_mint di (mintUnit E (pb_bookID b) k (?ident occ) (no + 1) occ ?d) b) = Some b'"
      by (auto simp: Let_def split: option.splits)
    let ?u = "mintUnit E (pb_bookID b) k (?ident occ) (no + 1) occ ?d"
    have "0 \<le> dup (derived_key ?d)" using Cons.prems(3) by simp
    then have fresh: "1 \<le> occ" "?ident occ \<notin> set (s_ExistingIDs (pb_snap b))"
      "?ident occ \<notin> set (pb_plannedIDs b)"
      using probe_result [OF occ] by auto
    from Cons.IH [OF loop _ dup] Cons.prems(2) obtain new where
      new: "b' = add_mints new (add_mint di ?u b)"
        "map fst new = filter (\<lambda>i. pb_unitIDs (add_mint di ?u b) ! i = '''') dis"
        "mint_run E (pb_bookID b) k (pb_derived b) (s_ExistingIDs (pb_snap b))
           (u_ID ?u # pb_plannedIDs b) (no + 1) new"
      by auto
    have "filter (\<lambda>i. pb_unitIDs (add_mint di ?u b) ! i = '''') dis =
        filter (\<lambda>i. pb_unitIDs b ! i = '''') dis"
      using Cons.prems(2) by (intro filter_cong refl) (metis add_mint_frame(9) distinct.simps(2) nth_list_update_neq)
    with new fresh True show ?thesis
      by (intro exI [of _ "(di, ?u) # new"]) auto
  qed
qed

text \<open>
  The mint loop ends when no derived unit repeats an identifier over the occurrences it can
  reach: the ones already counted plus one per identifier the registry or the plan holds.
\<close>

lemma mint_loop_total:
  assumes "\<forall>di\<in>set dis. inj_on (derivedUnitID E (pb_bookID b) k (pb_derived b ! di)) {1..int K}"
    and "\<forall>key. 0 \<le> dup key \<and> dup key + int (length dis) \<le> int D"
    and "length (pb_plannedIDs b) + length dis \<le> P"
    and "D + length (s_ExistingIDs (pb_snap b)) + P \<le> K"
  shows "\<exists>b'. mint_loop E k no dup dis b = Some b'"
  using assms
proof (induction dis arbitrary: no dup b)
  case (Cons di dis)
  let ?d = "pb_derived b ! di"
  let ?dup = "dup(derived_key ?d := dup (derived_key ?d) + 1)"
  let ?ident = "derivedUnitID E (pb_bookID b) k ?d"
  have dup: "0 \<le> dup key" "dup key + 1 + int (length dis) \<le> int D" for key
    using Cons.prems(2) by (auto simp: algebra_simps)
  then have dup': "\<forall>key. 0 \<le> ?dup key \<and> ?dup key + int (length dis) \<le> int D"
  proof (intro allI)
    fix key
    show "0 \<le> ?dup key \<and> ?dup key + int (length dis) \<le> int D"
      using dup [of key] by auto
  qed
  show ?case
  proof (cases "pb_unitIDs b ! di = ''''")
    case False
    have "\<exists>b'. mint_loop E k no ?dup dis b = Some b'"
      using Cons.prems dup' by (intro Cons.IH) auto
    with False show ?thesis by (simp add: Let_def)
  next
    case True
    have "inj_on ?ident {1..int K}" using Cons.prems(1) by simp
    moreover have "{?dup (derived_key ?d)..?dup (derived_key ?d) +
        int (length (s_ExistingIDs (pb_snap b)) + length (pb_plannedIDs b))} \<subseteq> {1..int K}"
      using dup [of "derived_key ?d"] Cons.prems(3,4) by auto
    ultimately have "inj_on ?ident {?dup (derived_key ?d)..?dup (derived_key ?d) +
        int (length (s_ExistingIDs (pb_snap b)) + length (pb_plannedIDs b))}"
      by (rule inj_on_subset)
    from probe_total [OF this] obtain occ where
      occ: "probe ?ident (s_ExistingIDs (pb_snap b)) (pb_plannedIDs b) (?dup (derived_key ?d)) = Some occ"
      by blast
    have "\<exists>b'. mint_loop E k (no + 1) ?dup dis
        (add_mint di (mintUnit E (pb_bookID b) k (?ident occ) (no + 1) occ ?d) b) = Some b'"
      using Cons.prems dup' by (intro Cons.IH) auto
    with True occ show ?thesis by (simp add: Let_def)
  qed
qed simp

lemma mint_run_ids:
  assumes "mint_run E book k ds ex pl no new"
  shows "distinct (map (u_ID \<circ> snd) new)" "(u_ID \<circ> snd) ` set new \<inter> (set ex \<union> set pl) = {}"
  using assms by (induction E book k ds ex pl no new rule: mint_run.induct) auto

lemma mint_run_ordinals:
  "mint_run E book k ds ex pl no new \<Longrightarrow>
   map (u_Ordinal \<circ> snd) new = map (\<lambda>j. no + 1 + int j) [0..<length new]"
proof (induction E book k ds ex pl no new rule: mint_run.induct)
  case (2 E book k ds ex pl no di u new)
  have "map (\<lambda>j. no + 1 + int j) [0..<Suc (length new)] =
      (no + 1) # map (\<lambda>j. no + 1 + 1 + int j) [0..<length new]"
    by (simp add: upt_conv_Cons map_Suc_upt [symmetric] del: upt_Suc map_Suc_upt)
  with 2 show ?case by auto
qed simp

lemma mint_run_units:
  assumes "mint_run E book k ds ex pl no new" "(di, u) \<in> set new"
  shows "\<exists>occ\<ge>1. \<exists>ord>no. u = mintUnit E book k (derivedUnitID E book k (ds ! di) occ) ord occ (ds ! di)"
  using assms
proof (induction E book k ds ex pl no new rule: mint_run.induct)
  case (2 E book k ds ex pl no dj v new)
  show ?case
  proof (cases "(di, u) \<in> set new")
    case True
    with 2 obtain occ ord where "occ \<ge> 1" "ord > no + 1"
      "u = mintUnit E book k (derivedUnitID E book k (ds ! di) occ) ord occ (ds ! di)" by auto
    then show ?thesis by (intro exI [of _ occ] conjI exI [of _ ord]) auto
  next
    case False
    with 2 obtain occ where "occ \<ge> 1"
      "u = mintUnit E book k (derivedUnitID E book k (ds ! di) occ) (no + 1) occ (ds ! di)" by auto
    then show ?thesis by (intro exI [of _ occ] conjI exI [of _ "no + 1"]) auto
  qed
qed simp

end
