(* ===== verification/Unit_Lineage.thy ===== *)
theory Unit_Lineage
  imports Unit_Match
begin

text \<open>
  Lineage of the planner: \<open>lineageGaps\<close> retires the removed units of every gap and draws the
  supersede edges. A builder invariant ties the three views of a retired unit together: its
  reference, its entry in \<open>retireByID\<close> and the edges that leave it.
\<close>

section \<open>Frames\<close>

lemma add_retire_frame [simp]:
  "pb_derived (add_retire k u b) = pb_derived b" "pb_snap (add_retire k u b) = pb_snap b"
  "pb_bookID (add_retire k u b) = pb_bookID b" "pb_plan (add_retire k u b) = pb_plan b"
  "pb_unitIDs (add_retire k u b) = pb_unitIDs b"
  "pb_plannedIDs (add_retire k u b) = pb_plannedIDs b"
  "pb_mintRefs (add_retire k u b) = pb_mintRefs b"
  "pb_matchedPairs (add_retire k u b) = pb_matchedPairs b"
  "pb_activeTwins (add_retire k u b) = pb_activeTwins b"
  by (simp_all add: add_retire_def)

lemma mark_edge_frame [simp]:
  "pb_derived (mark_edge i b) = pb_derived b" "pb_snap (mark_edge i b) = pb_snap b"
  "pb_bookID (mark_edge i b) = pb_bookID b" "pb_plan (mark_edge i b) = pb_plan b"
  "pb_unitIDs (mark_edge i b) = pb_unitIDs b" "pb_plannedIDs (mark_edge i b) = pb_plannedIDs b"
  "pb_mintRefs (mark_edge i b) = pb_mintRefs b"
  "pb_matchedPairs (mark_edge i b) = pb_matchedPairs b"
  "pb_activeTwins (mark_edge i b) = pb_activeTwins b"
  "pb_retireByID (mark_edge i b) = pb_retireByID b"
  by (simp_all add: mark_edge_def split: option.splits)

lemma addEdge_frame [simp]:
  "pb_derived (addEdge p s r b) = pb_derived b" "pb_snap (addEdge p s r b) = pb_snap b"
  "pb_bookID (addEdge p s r b) = pb_bookID b"
  "pb_unitIDs (addEdge p s r b) = pb_unitIDs b"
  "pb_plannedIDs (addEdge p s r b) = pb_plannedIDs b"
  "pb_mintRefs (addEdge p s r b) = pb_mintRefs b"
  "pb_matchedPairs (addEdge p s r b) = pb_matchedPairs b"
  "pb_activeTwins (addEdge p s r b) = pb_activeTwins b"
  "pb_retireByID (addEdge p s r b) = pb_retireByID b"
  "pb_retireRefs (addEdge p s r b) = pb_retireRefs b"
  "pl_Mints (pb_plan (addEdge p s r b)) = pl_Mints (pb_plan b)"
  "pl_Updates (pb_plan (addEdge p s r b)) = pl_Updates (pb_plan b)"
  "pl_HistoricalMints (pb_plan (addEdge p s r b)) = pl_HistoricalMints (pb_plan b)"
  "pl_Retires (pb_plan (addEdge p s r b)) = pl_Retires (pb_plan b)"
  "pl_Report (pb_plan (addEdge p s r b)) = pl_Report (pb_plan b)"
  "pl_Edges (pb_plan (addEdge p s r b)) = pl_Edges (pb_plan b) @
     [\<lparr>e_PredecessorID = p, e_SuccessorID = s, e_Reason = r\<rparr>]"
  by (simp_all add: addEdge_def)

lemma count_capped_frame [simp]:
  "pb_derived (count_capped b) = pb_derived b" "pb_snap (count_capped b) = pb_snap b"
  "pb_bookID (count_capped b) = pb_bookID b" "pb_unitIDs (count_capped b) = pb_unitIDs b"
  "pb_plannedIDs (count_capped b) = pb_plannedIDs b"
  "pb_mintRefs (count_capped b) = pb_mintRefs b"
  "pb_matchedPairs (count_capped b) = pb_matchedPairs b"
  "pb_activeTwins (count_capped b) = pb_activeTwins b"
  "pb_retireByID (count_capped b) = pb_retireByID b"
  "pb_retireRefs (count_capped b) = pb_retireRefs b"
  "pl_Mints (pb_plan (count_capped b)) = pl_Mints (pb_plan b)"
  "pl_Updates (pb_plan (count_capped b)) = pl_Updates (pb_plan b)"
  "pl_HistoricalMints (pb_plan (count_capped b)) = pl_HistoricalMints (pb_plan b)"
  "pl_Retires (pb_plan (count_capped b)) = pl_Retires (pb_plan b)"
  "pl_Edges (pb_plan (count_capped b)) = pl_Edges (pb_plan b)"
  by (simp_all add: count_capped_def)

lemma edit_edge_frame [simp]:
  "pb_derived (edit_edge u di b) = pb_derived b" "pb_snap (edit_edge u di b) = pb_snap b"
  "pb_bookID (edit_edge u di b) = pb_bookID b" "pb_unitIDs (edit_edge u di b) = pb_unitIDs b"
  "pb_plannedIDs (edit_edge u di b) = pb_plannedIDs b"
  "pb_mintRefs (edit_edge u di b) = pb_mintRefs b"
  "pb_matchedPairs (edit_edge u di b) = pb_matchedPairs b"
  "pb_activeTwins (edit_edge u di b) = pb_activeTwins b"
  "pl_Mints (pb_plan (edit_edge u di b)) = pl_Mints (pb_plan b)"
  "pl_Updates (pb_plan (edit_edge u di b)) = pl_Updates (pb_plan b)"
  "pl_HistoricalMints (pb_plan (edit_edge u di b)) = pl_HistoricalMints (pb_plan b)"
  "pl_Retires (pb_plan (edit_edge u di b)) = pl_Retires (pb_plan b)"
  by (simp_all add: edit_edge_def)

text \<open>The counters the last two phases fill in are zero before them.\<close>

definition report_blank :: "UnitReconcileReport \<Rightarrow> bool" where
  "report_blank r \<longleftrightarrow> rep_Superseded r = 0 \<and> rep_Tombstoned r = 0 \<and> rep_EditEdges r = 0 \<and>
     rep_MoveEdges r = 0 \<and> rep_HTMLUnits r = 0"

lemma report_blank_steps [simp]:
  "report_blank (pl_Report (pb_plan (count_capped b))) = report_blank (pl_Report (pb_plan b))"
  "report_blank (pl_Report (pb_plan (edit_edge u di b))) = report_blank (pl_Report (pb_plan b))"
  by (simp_all add: count_capped_def edit_edge_def report_blank_def)

text \<open>What a lineage step never touches.\<close>

definition keeps :: "planBuilder \<Rightarrow> planBuilder \<Rightarrow> bool" where
  "keeps b b' \<longleftrightarrow> pb_derived b' = pb_derived b \<and> pb_snap b' = pb_snap b \<and>
     pb_bookID b' = pb_bookID b \<and> pb_unitIDs b' = pb_unitIDs b \<and>
     pb_plannedIDs b' = pb_plannedIDs b \<and> pb_mintRefs b' = pb_mintRefs b \<and>
     pb_matchedPairs b' = pb_matchedPairs b \<and> pb_activeTwins b' = pb_activeTwins b \<and>
     pl_Mints (pb_plan b') = pl_Mints (pb_plan b) \<and>
     pl_Updates (pb_plan b') = pl_Updates (pb_plan b) \<and>
     pl_HistoricalMints (pb_plan b') = pl_HistoricalMints (pb_plan b) \<and>
     pl_Retires (pb_plan b') = pl_Retires (pb_plan b) \<and>
     report_blank (pl_Report (pb_plan b')) = report_blank (pl_Report (pb_plan b))"

lemma keeps_refl: "keeps b b"
  by (simp add: keeps_def)

lemma keeps_trans: "keeps a b \<Longrightarrow> keeps b c \<Longrightarrow> keeps a c"
  by (simp add: keeps_def)

lemma keeps_fold:
  assumes "\<And>x b. keeps b (f x b)"
  shows "keeps b (fold f xs b)"
proof (induction xs arbitrary: b)
  case (Cons x xs)
  show ?case using keeps_trans [OF assms Cons.IH] by simp
qed (simp add: keeps_refl)

lemma keeps_steps:
  "keeps b (add_retire k u b)" "keeps b (edit_edge u di b)" "keeps b (count_capped b)"
  by (simp_all add: keeps_def)

lemma keeps_lineage_gap: "keeps b (lineage_gap k removed added b)"
proof -
  have r: "keeps b (fold (add_retire k) removed b)"
    by (rule keeps_fold) (rule keeps_steps)
  have e: "keeps b (fold (\<lambda>(u, di). edit_edge u di) xs b)" for xs b
    by (rule keeps_fold) (auto simp: keeps_steps split: prod.splits)
  show ?thesis
    using keeps_trans [OF r e] keeps_trans [OF r keeps_trans [OF keeps_steps(3) e]]
    by (simp add: lineage_gap_def Let_def r keeps_refl)
qed

lemma keeps_lineageGaps: "keeps b (lineageGaps k gks rm ad b)"
  unfolding lineageGaps_def by (rule keeps_fold) (rule keeps_lineage_gap)

section \<open>The lineage invariant\<close>

definition retired_ids :: "planBuilder \<Rightarrow> string list" where
  "retired_ids b = map (\<lambda>r. u_ID (rr_unit r)) (pb_retireRefs b)"

definition lineage_inv :: "planBuilder \<Rightarrow> bool" where
  "lineage_inv b \<longleftrightarrow>
     distinct (retired_ids b) \<and>
     (\<forall>i n. pb_retireByID b i = Some n \<longleftrightarrow> n < length (pb_retireRefs b) \<and> retired_ids b ! n = i) \<and>
     (\<forall>r\<in>set (pb_retireRefs b).
        rr_hasEdge r = (\<exists>e\<in>set (pl_Edges (pb_plan b)). e_PredecessorID e = u_ID (rr_unit r))) \<and>
     (\<forall>e\<in>set (pl_Edges (pb_plan b)). e_PredecessorID e \<in> set (retired_ids b))"

lemma retired_ids_add_retire [simp]:
  "retired_ids (add_retire k u b) = retired_ids b @ [u_ID u]"
  "map rr_unit (pb_retireRefs (add_retire k u b)) = map rr_unit (pb_retireRefs b) @ [u]"
  by (simp_all add: retired_ids_def add_retire_def)

lemma length_retired_ids [simp]: "length (retired_ids b) = length (pb_retireRefs b)"
  by (simp add: retired_ids_def)

lemma lineage_inv_add_retire:
  assumes inv: "lineage_inv b" and u: "u_ID u \<notin> set (retired_ids b)"
  shows "lineage_inv (add_retire k u b)"
proof -
  have refs: "pb_retireRefs (add_retire k u b) =
      pb_retireRefs b @ [\<lparr>rr_unit = u, rr_hasEdge = False, rr_scopeKey = k\<rparr>]"
    and by_id: "pb_retireByID (add_retire k u b) = (pb_retireByID b)(u_ID u \<mapsto> length (pb_retireRefs b))"
    by (simp_all add: add_retire_def)
  have no_edge: "\<forall>e\<in>set (pl_Edges (pb_plan b)). e_PredecessorID e \<noteq> u_ID u"
    using inv u by (auto simp: lineage_inv_def)
  have "retired_ids b ! n \<noteq> u_ID u" if "n < length (pb_retireRefs b)" for n
    using u nth_mem [of n "retired_ids b"] that by fastforce
  then have "\<forall>i n. pb_retireByID (add_retire k u b) i = Some n \<longleftrightarrow>
      n < length (pb_retireRefs (add_retire k u b)) \<and> retired_ids (add_retire k u b) ! n = i"
    using inv by (auto simp: lineage_inv_def by_id refs nth_append less_Suc_eq)
  with inv u no_edge show ?thesis by (auto simp: lineage_inv_def refs)
qed

lemma lineage_inv_count_capped: "lineage_inv (count_capped b) = lineage_inv b"
  by (simp add: lineage_inv_def retired_ids_def)

lemma lineage_inv_add_retires:
  assumes "lineage_inv b" "distinct (retired_ids b @ map u_ID us)"
  shows "lineage_inv (fold (add_retire k) us b) \<and>
    retired_ids (fold (add_retire k) us b) = retired_ids b @ map u_ID us \<and>
    map rr_unit (pb_retireRefs (fold (add_retire k) us b)) = map rr_unit (pb_retireRefs b) @ us"
  using assms
proof (induction us arbitrary: b)
  case (Cons u us)
  have "lineage_inv (add_retire k u b)"
    using Cons.prems by (intro lineage_inv_add_retire) auto
  from Cons.IH [OF this] Cons.prems(2) show ?case by simp
qed simp

lemma edit_edge_refs [simp]:
  "map rr_unit (pb_retireRefs (edit_edge u di b)) = map rr_unit (pb_retireRefs b)"
  by (auto simp: edit_edge_def mark_edge_def map_update split: option.splits)
    (metis list_update_id map_update nth_map not_le nth_list_update_eq list_update_beyond length_map)

lemma retired_ids_map: "retired_ids b = map u_ID (map rr_unit (pb_retireRefs b))"
  by (simp add: retired_ids_def)

lemma retired_ids_edit_edge [simp]: "retired_ids (edit_edge u di b) = retired_ids b"
  by (simp only: retired_ids_map edit_edge_refs)

lemma lineage_inv_edit_edge:
  assumes inv: "lineage_inv b" and u: "u_ID u \<in> set (retired_ids b)"
  shows "lineage_inv (edit_edge u di b)"
proof -
  obtain n where n: "n < length (pb_retireRefs b)" "retired_ids b ! n = u_ID u"
    using u by (auto simp: retired_ids_def in_set_conv_nth)
  then have by_id: "pb_retireByID b (u_ID u) = Some n" using inv by (auto simp: lineage_inv_def)
  let ?b = "edit_edge u di b"
  have refs: "pb_retireRefs ?b = (pb_retireRefs b)[n := (pb_retireRefs b ! n)\<lparr>rr_hasEdge := True\<rparr>]"
    and same: "pb_retireByID ?b = pb_retireByID b"
    and edges: "pl_Edges (pb_plan ?b) = pl_Edges (pb_plan b) @
      [\<lparr>e_PredecessorID = u_ID u, e_SuccessorID = pb_unitIDs b ! di, e_Reason = UnitLineageReasonEdit\<rparr>]"
    by (simp_all add: edit_edge_def mark_edge_def by_id)
  have has: "rr_hasEdge (pb_retireRefs ?b ! m) =
      (\<exists>e\<in>set (pl_Edges (pb_plan ?b)). e_PredecessorID e = u_ID (rr_unit (pb_retireRefs ?b ! m)))"
    if m: "m < length (pb_retireRefs b)" for m
  proof (cases "m = n")
    case True
    have "u_ID (rr_unit (pb_retireRefs b ! n)) = u_ID u" using n by (simp add: retired_ids_def)
    then show ?thesis using True n(1) by (simp add: refs edges)
  next
    case False
    have "retired_ids b ! m \<noteq> retired_ids b ! n"
      using inv m n(1) False by (simp add: lineage_inv_def distinct_conv_nth retired_ids_def)
    then have ne: "u_ID (rr_unit (pb_retireRefs b ! m)) \<noteq> u_ID u"
      using m n by (simp add: retired_ids_def)
    have "pb_retireRefs b ! m \<in> set (pb_retireRefs b)" using m by simp
    then have "rr_hasEdge (pb_retireRefs b ! m) =
        (\<exists>e\<in>set (pl_Edges (pb_plan b)). e_PredecessorID e = u_ID (rr_unit (pb_retireRefs b ! m)))"
      using inv by (simp add: lineage_inv_def)
    then show ?thesis using False ne by (auto simp: refs edges)
  qed
  have len: "length (pb_retireRefs ?b) = length (pb_retireRefs b)" by (simp add: refs)
  show ?thesis
    using inv u has by (auto simp: lineage_inv_def same edges len in_set_conv_nth [where xs = "pb_retireRefs ?b"])
qed

lemma gap_edges_removed: "(u, di) \<in> set (gap_edges removed added) \<Longrightarrow> u \<in> set removed \<and> di \<in> set added"
  by (auto simp: gap_edges_def in_set_enumerate_eq split: if_splits)

lemma lineage_inv_gap:
  assumes "lineage_inv b" "distinct (retired_ids b @ map u_ID removed)"
  shows "lineage_inv (lineage_gap k removed added b) \<and>
    map rr_unit (pb_retireRefs (lineage_gap k removed added b)) = map rr_unit (pb_retireRefs b) @ removed"
proof (cases "removed = []")
  case False
  let ?b1 = "fold (add_retire k) removed b"
  let ?b2 = "if length removed * length added \<le> gapEdgeCap then ?b1 else count_capped ?b1"
  let ?us = "map rr_unit (pb_retireRefs b) @ removed"
  note b1 = lineage_inv_add_retires [OF assms, of k]
  have b2: "lineage_inv ?b2 \<and> map rr_unit (pb_retireRefs ?b2) = ?us"
    using b1 by (simp add: lineage_inv_count_capped)
  have "lineage_inv (fold (\<lambda>(u, di). edit_edge u di) (gap_edges removed added) ?b2) \<and>
      map rr_unit (pb_retireRefs (fold (\<lambda>(u, di). edit_edge u di) (gap_edges removed added) ?b2)) = ?us"
  proof (rule fold_inv [where P = "\<lambda>b. lineage_inv b \<and> map rr_unit (pb_retireRefs b) = ?us"])
    fix x c
    assume x: "x \<in> set (gap_edges removed added)"
      and c: "lineage_inv c \<and> map rr_unit (pb_retireRefs c) = ?us"
    obtain u di where "x = (u, di)" by force
    moreover from this x have "u_ID u \<in> set (retired_ids c)"
      using c by (auto simp: retired_ids_map dest: gap_edges_removed)
    ultimately show "lineage_inv ((case x of (u, di) \<Rightarrow> edit_edge u di) c) \<and>
        map rr_unit (pb_retireRefs ((case x of (u, di) \<Rightarrow> edit_edge u di) c)) = ?us"
      using c lineage_inv_edit_edge by simp
  qed (rule b2)
  with False b1 show ?thesis by (auto simp: lineage_gap_def Let_def)
qed (simp add: lineage_gap_def assms)

lemma lineage_inv_gaps:
  assumes "lineage_inv b" "distinct (retired_ids b @ map u_ID (concat (map rm gks)))"
  shows "lineage_inv (lineageGaps k gks rm ad b) \<and>
    map rr_unit (pb_retireRefs (lineageGaps k gks rm ad b)) =
      map rr_unit (pb_retireRefs b) @ concat (map rm gks)"
  using assms
proof (induction gks arbitrary: b)
  case (Cons g gks)
  have dist: "distinct (retired_ids b @ map u_ID (rm g))"
    using Cons.prems(2) by (simp add: Int_Un_distrib)
  have g: "lineage_inv (lineage_gap k (rm g) (ad g) b)"
    "map rr_unit (pb_retireRefs (lineage_gap k (rm g) (ad g) b)) =
       map rr_unit (pb_retireRefs b) @ rm g"
    using lineage_inv_gap [OF Cons.prems(1) dist] by auto
  have "distinct (retired_ids (lineage_gap k (rm g) (ad g) b) @ map u_ID (concat (map rm gks)))"
    using Cons.prems(2) g(2) by (simp add: retired_ids_map)
  from Cons.IH [OF g(1) this] g(2) show ?case by (simp add: lineageGaps_def)
qed (simp add: lineageGaps_def)

section \<open>The edges a gap draws\<close>

definition edit_lineage :: "string list \<Rightarrow> CitableUnit \<times> nat \<Rightarrow> CitableUnitLineage" where
  "edit_lineage ids x =
     \<lparr>e_PredecessorID = u_ID (fst x), e_SuccessorID = ids ! snd x, e_Reason = UnitLineageReasonEdit\<rparr>"

lemma edit_edges:
  "pl_Edges (pb_plan (fold (\<lambda>(u, di). edit_edge u di) xs b)) =
     pl_Edges (pb_plan b) @ map (edit_lineage (pb_unitIDs b)) xs"
  by (induction xs arbitrary: b) (auto simp: edit_lineage_def edit_edge_def)

lemma lineage_gap_edges:
  "pl_Edges (pb_plan (lineage_gap k removed added b)) =
     pl_Edges (pb_plan b) @ map (edit_lineage (pb_unitIDs b)) (gap_edges removed added)"
proof (cases "removed = [] \<or> added = []")
  case True
  then show ?thesis
    by (auto simp: lineage_gap_def gap_edges_def Let_def fold_frame [where f = pb_plan])
next
  case False
  then show ?thesis
    by (simp add: lineage_gap_def Let_def edit_edges fold_frame [where f = pb_plan]
        fold_frame [where f = pb_unitIDs])
qed

lemma lineageGaps_edges:
  "pl_Edges (pb_plan (lineageGaps k gks rm ad b)) =
     pl_Edges (pb_plan b) @
     map (edit_lineage (pb_unitIDs b)) (concat (map (\<lambda>g. gap_edges (rm g) (ad g)) gks))"
proof (induction gks arbitrary: b)
  case (Cons g gks)
  have "pb_unitIDs (lineage_gap k (rm g) (ad g) b) = pb_unitIDs b"
    using keeps_lineage_gap [of b k "rm g" "ad g"] by (simp add: keeps_def)
  with Cons.IH [of "lineage_gap k (rm g) (ad g) b"] show ?case
    by (simp add: lineageGaps_def lineage_gap_edges)
qed (simp add: lineageGaps_def)

text \<open>Every removed unit of a gap with additions gets an edge; a gap never draws more than the cap
  or one edge per removed unit.\<close>

lemma gap_edges_bound: "length (gap_edges removed added) \<le> max gapEdgeCap (length removed)"
proof -
  have "length (concat (map (\<lambda>u. map (\<lambda>di. (u, di)) added) removed)) =
      length removed * length added"
    by (induction removed) auto
  then show ?thesis by (auto simp: gap_edges_def)
qed

lemma gap_edges_cover:
  assumes "added \<noteq> []"
  shows "fst ` set (gap_edges removed added) = set removed"
proof -
  have m: "map fst (map (\<lambda>(i, u). (u, f i)) (enumerate n xs)) = xs"
    for f :: "nat \<Rightarrow> nat" and n and xs :: "CitableUnit list"
    by (induction xs arbitrary: n) auto
  have "fst ` set (map (\<lambda>(i, u). (u, f i)) (enumerate 0 removed)) = set removed" for f :: "nat \<Rightarrow> nat"
    by (metis m set_map)
  moreover have "fst ` set (concat (map (\<lambda>u. map (\<lambda>di. (u, di)) added) removed)) = set removed"
    using assms by (induction removed) (simp_all add: image_Un image_image image_constant_conv)
  ultimately show ?thesis using assms by (simp only: gap_edges_def if_False split: if_splits) simp
qed

section \<open>Buckets\<close>

lemma mset_buckets:
  assumes "distinct ks" "f ` set xs \<subseteq> set ks"
  shows "mset (concat (map (\<lambda>k. filter (\<lambda>x. f x = k) xs) ks)) = mset xs"
  using assms
proof (induction ks arbitrary: xs)
  case (Cons k ks)
  let ?rest = "filter (\<lambda>x. f x \<noteq> k) xs"
  have "filter (\<lambda>x. f x = j) ?rest = filter (\<lambda>x. f x = j) xs" if "j \<in> set ks" for j
    using that Cons.prems(1) by (auto intro!: filter_cong)
  then have "map (\<lambda>j. filter (\<lambda>x. f x = j) xs) ks = map (\<lambda>j. filter (\<lambda>x. f x = j) ?rest) ks"
    by simp
  moreover have "mset (concat (map (\<lambda>j. filter (\<lambda>x. f x = j) ?rest) ks)) = mset ?rest"
    using Cons.prems by (intro Cons.IH) auto
  ultimately have "mset (concat (map (\<lambda>j. filter (\<lambda>x. f x = j) xs) ks)) = mset ?rest"
    by (simp only:)
  moreover have "mset (filter (\<lambda>x. f x = k) xs) + mset ?rest = mset xs"
    by (simp add: multiset_partition [symmetric])
  ultimately show ?case by (simp del: mset_filter)
qed simp

end
