(* ===== verification/Unit_Plan_Inv.thy ===== *)
theory Unit_Plan_Inv
  imports Unit_Lineage
begin

text \<open>
  The invariant of the planner's scope loop: after the scopes \<open>S\<close> have been reconciled, every
  derived unit of \<open>S\<close> is matched or minted exactly once, every active unit of \<open>S\<close> is matched or
  retired exactly once, and identifiers, ordinals, lineage and twins agree with that split.
\<close>

section \<open>One scope\<close>

lemma filter_sort_key_mset: "mset (filter P (sort_key f us)) = mset (filter P us)"
  by simp

lemma reconcileScope_effect:
  assumes run: "reconcileScope E k dis us b = Some b'" and dist: "distinct dis"
  obtains ps un new b1 gks rm ad where
    "match_loop k (queues_of (sort_key u_Position us)) dis b = (ps, un, record_matches k ps b)"
    "b1 = (record_matches k ps b)\<lparr>pb_matchedPairs := pb_matchedPairs b @ ps\<rparr>"
    "map fst new = filter (\<lambda>i. pb_unitIDs b1 ! i = '''') dis"
    "mint_run E (pb_bookID b) k (pb_derived b) (s_ExistingIDs (pb_snap b)) (pb_plannedIDs b)
       (s_MaxOrdinalByScope (pb_snap b) k) new"
    "b' = lineageGaps k gks rm ad (add_mints new b1)"
    "mset (concat (map rm gks)) = mset (filter (\<lambda>u. \<not> unitMatched ps (u_ID u)) us)"
    "\<forall>g. set (ad g) \<subseteq> set un"
proof -
  let ?us = "sort_key u_Position us"
  obtain ps un b0 where m: "match_loop k (queues_of ?us) dis b = (ps, un, b0)"
    by (metis prod_cases3)
  have b0: "b0 = record_matches k ps b" using match_loop_effect [OF m] .
  define b1 where "b1 = (record_matches k ps b)\<lparr>pb_matchedPairs := pb_matchedPairs b @ ps\<rparr>"
  let ?ua = "filter (\<lambda>u. \<not> unitMatched ps (u_ID u)) ?us"
  from run m obtain anchors b3 where
    b3: "mintScope E k dis b1 = Some b3" and
    b': "b' = lineageGaps k
      (nub (map (unit_gap anchors) ?ua @ map (derived_gap (pb_derived b) anchors) un))
      (\<lambda>g. filter (\<lambda>u. unit_gap anchors u = g) ?ua)
      (\<lambda>g. filter (\<lambda>di. derived_gap (pb_derived b) anchors di = g) un) b3"
    by (auto simp: reconcileScope_def matchScope_def assignGaps_def b1_def b0 Let_def
        split: option.splits)
  from mint_loop_effect [OF b3 [unfolded mintScope_def] dist] obtain new where
    new: "b3 = add_mints new b1" "map fst new = filter (\<lambda>i. pb_unitIDs b1 ! i = '''') dis"
    "mint_run E (pb_bookID b) k (pb_derived b) (s_ExistingIDs (pb_snap b)) (pb_plannedIDs b)
       (s_MaxOrdinalByScope (pb_snap b) k) new"
    by (auto simp: b1_def)
  show thesis
  proof (rule that [OF _ b1_def new(2,3)])
    show "match_loop k (queues_of ?us) dis b = (ps, un, record_matches k ps b)" using m b0 by simp
    show "b' = lineageGaps k
      (nub (map (unit_gap anchors) ?ua @ map (derived_gap (pb_derived b) anchors) un))
      (\<lambda>g. filter (\<lambda>u. unit_gap anchors u = g) ?ua)
      (\<lambda>g. filter (\<lambda>di. derived_gap (pb_derived b) anchors di = g) un) (add_mints new b1)"
      using b' new(1) by simp
    have "mset (concat (map (\<lambda>g. filter (\<lambda>u. unit_gap anchors u = g) ?ua)
        (nub (map (unit_gap anchors) ?ua @ map (derived_gap (pb_derived b) anchors) un)))) = mset ?ua"
      by (rule mset_buckets) auto
    then show "mset (concat (map (\<lambda>g. filter (\<lambda>u. unit_gap anchors u = g) ?ua)
        (nub (map (unit_gap anchors) ?ua @ map (derived_gap (pb_derived b) anchors) un)))) =
        mset (filter (\<lambda>u. \<not> unitMatched ps (u_ID u)) us)"
      by simp
  qed auto
qed

lemma unitMatched_iff: "unitMatched ps i \<longleftrightarrow> i \<in> u_ID ` mp_active ` set ps"
  by (auto simp: unitMatched_def list_ex_iff)

text \<open>With distinct identifiers the matched units and the unmatched ones split the actives.\<close>

lemma matched_split:
  assumes "mset (map mp_active ps) \<subseteq># mset us" "distinct (map u_ID us)"
  shows "mset (map mp_active ps) + mset (filter (\<lambda>u. \<not> unitMatched ps (u_ID u)) us) = mset us"
proof -
  let ?ms = "map mp_active ps"
  have sub: "set ?ms \<subseteq> set us" using assms(1) by (metis set_mset_mono set_mset_mset)
  have dus: "distinct us" using assms(2) by (simp add: distinct_map)
  then have dms: "distinct ?ms"
    using assms(1) by (metis distinct_append mset_subset_eq_exists_conv ex_mset mset_append mset_eq_imp_distinct_iff)
  have "set (filter (\<lambda>u. unitMatched ps (u_ID u)) us) = set ?ms"
    using sub assms(2) by (auto simp: unitMatched_iff distinct_map inj_on_def)
  then have "mset (filter (\<lambda>u. unitMatched ps (u_ID u)) us) = mset ?ms"
    using dus dms by (metis distinct_filter set_eq_iff_mset_eq_distinct)
  then show ?thesis by (metis mset_filter multiset_partition add.commute mset_map)
qed

section \<open>The invariant\<close>

text \<open>What the planner relies on: the registry snapshot lists every identifier it holds, primary
  keys are distinct and not empty, and a UUID rendering is never empty.\<close>

definition snapshot_ok :: "unit_env \<Rightarrow> UnitRegistrySnapshot \<Rightarrow> bool" where
  "snapshot_ok E snap \<longleftrightarrow>
     distinct (map u_ID (s_Active snap)) \<and>
     (\<forall>u\<in>set (s_Active snap). u_ID u \<in> set (s_ExistingIDs snap) \<and> u_ID u \<noteq> '''')"

definition uuid_nonempty :: "unit_env \<Rightarrow> bool" where
  "uuid_nonempty E \<longleftrightarrow> (\<forall>x. env_uuid5 E x \<noteq> '''')"

lemma derivedUnitID_nonempty: "uuid_nonempty E \<Longrightarrow> derivedUnitID E book k d occ \<noteq> ''''"
  by (simp add: derivedUnitID_def UnitID_def UnitIDV2_def uuid_nonempty_def)

definition scope_part :: "DerivedUnit list \<Rightarrow> int set \<Rightarrow> nat list" where
  "scope_part ds S = filter (\<lambda>i. derived_scope (ds ! i) \<in> S) [0..<length ds]"

definition inv_base :: "int \<Rightarrow> DerivedUnit list \<Rightarrow> UnitRegistrySnapshot \<Rightarrow> planBuilder \<Rightarrow> bool" where
  "inv_base book ds snap b \<longleftrightarrow> pb_bookID b = book \<and> pb_derived b = ds \<and> pb_snap b = snap \<and>
     length (pb_unitIDs b) = length ds \<and>
     pl_Updates (pb_plan b) = [] \<and> pl_Retires (pb_plan b) = [] \<and>
     pl_HistoricalMints (pb_plan b) = [] \<and>
     report_blank (pl_Report (pb_plan b))"

definition inv_index :: "int set \<Rightarrow> planBuilder \<Rightarrow> bool" where
  "inv_index S b \<longleftrightarrow>
     mset (map mp_derivedIdx (pb_matchedPairs b)) + mset (map mr_derivedIdx (pb_mintRefs b)) =
       mset (scope_part (pb_derived b) S) \<and>
     (\<forall>i<length (pb_derived b). derived_scope (pb_derived b ! i) \<notin> S \<longrightarrow> pb_unitIDs b ! i = '''')"

definition inv_matched :: "planBuilder \<Rightarrow> bool" where
  "inv_matched b \<longleftrightarrow>
     (\<forall>p\<in>set (pb_matchedPairs b).
        pb_unitIDs b ! mp_derivedIdx p = u_ID (mp_active p) \<and>
        unit_key (mp_active p) = derived_key (pb_derived b ! mp_derivedIdx p) \<and>
        unit_scope (mp_active p) = derived_scope (pb_derived b ! mp_derivedIdx p)) \<and>
     (\<forall>s key. \<forall>u\<in>set (pb_activeTwins b s key). u \<in> mp_active ` set (pb_matchedPairs b))"

definition minted_from :: "unit_env \<Rightarrow> planBuilder \<Rightarrow> mintRef \<Rightarrow> CitableUnit \<Rightarrow> bool" where
  "minted_from E b r u \<longleftrightarrow>
     (let d = pb_derived b ! mr_derivedIdx r; k = derived_scope d in
      \<exists>occ\<ge>1. \<exists>ord>s_MaxOrdinalByScope (pb_snap b) k.
        u = mintUnit E (pb_bookID b) k (derivedUnitID E (pb_bookID b) k d occ) ord occ d)"

definition inv_minted :: "unit_env \<Rightarrow> planBuilder \<Rightarrow> bool" where
  "inv_minted E b \<longleftrightarrow>
     map mr_planIdx (pb_mintRefs b) = [0..<length (pl_Mints (pb_plan b))] \<and>
     list_all2 (\<lambda>r u. minted_from E b r u \<and> pb_unitIDs b ! mr_derivedIdx r = u_ID u)
       (pb_mintRefs b) (pl_Mints (pb_plan b)) \<and>
     set (pb_plannedIDs b) = u_ID ` set (pl_Mints (pb_plan b)) \<and>
     distinct (map u_ID (pl_Mints (pb_plan b))) \<and>
     distinct (map (\<lambda>u. (unit_scope u, u_Ordinal u)) (pl_Mints (pb_plan b))) \<and>
     u_ID ` set (pl_Mints (pb_plan b)) \<inter> set (s_ExistingIDs (pb_snap b)) = {}"

definition inv_retired :: "int set \<Rightarrow> planBuilder \<Rightarrow> bool" where
  "inv_retired S b \<longleftrightarrow>
     mset (map mp_active (pb_matchedPairs b)) + mset (map rr_unit (pb_retireRefs b)) =
       mset (filter (\<lambda>u. unit_scope u \<in> S) (s_Active (pb_snap b))) \<and>
     lineage_inv b \<and>
     (\<forall>e\<in>set (pl_Edges (pb_plan b)). e_SuccessorID e \<in> u_ID ` set (pl_Mints (pb_plan b)) \<and>
        e_Reason e = UnitLineageReasonEdit)"

definition plan_inv ::
  "unit_env \<Rightarrow> int \<Rightarrow> DerivedUnit list \<Rightarrow> UnitRegistrySnapshot \<Rightarrow> int set \<Rightarrow> planBuilder \<Rightarrow> bool" where
  "plan_inv E book ds snap S b \<longleftrightarrow>
     inv_base book ds snap b \<and> inv_index S b \<and> inv_matched b \<and> inv_minted E b \<and> inv_retired S b"

lemma mset_scope_part_insert:
  "k \<notin> S \<Longrightarrow> mset (scope_part ds (insert k S)) = mset (scope_part ds S) + mset (derived_of_scope ds k)"
proof -
  assume "k \<notin> S"
  then have "mset (filter (\<lambda>i. derived_scope (ds ! i) \<in> insert k S) xs) =
      mset (filter (\<lambda>i. derived_scope (ds ! i) \<in> S) xs) +
      mset (filter (\<lambda>i. derived_scope (ds ! i) = k) xs)" for xs
    by (induction xs) auto
  then show ?thesis by (simp only: scope_part_def derived_of_scope_def)
qed

lemma mset_actives_insert:
  "k \<notin> S \<Longrightarrow> mset (filter (\<lambda>u. unit_scope u \<in> insert k S) us) =
     mset (filter (\<lambda>u. unit_scope u \<in> S) us) + mset (active_of_scope us k)"
  unfolding active_of_scope_def by (induction us) auto

lemma derived_of_scope_set:
  "i \<in> set (derived_of_scope ds k) \<longleftrightarrow> i < length ds \<and> derived_scope (ds ! i) = k"
  by (auto simp: derived_of_scope_def)

lemma distinct_derived_of_scope [simp]: "distinct (derived_of_scope ds k)"
  by (simp add: derived_of_scope_def)

lemma keeps_inv:
  assumes "keeps b b'"
  shows "inv_base book ds snap b' = inv_base book ds snap b" "inv_index S b' = inv_index S b"
    "inv_matched b' = inv_matched b" "inv_minted E b' = inv_minted E b"
  using assms
  by (simp_all add: keeps_def inv_base_def inv_index_def inv_matched_def inv_minted_def minted_from_def)

section \<open>One scope keeps the invariant\<close>

text \<open>The setting of one iteration, shared by the lemmas below.\<close>

definition scope_step ::
  "unit_env \<Rightarrow> int \<Rightarrow> DerivedUnit list \<Rightarrow> UnitRegistrySnapshot \<Rightarrow> int set \<Rightarrow> int \<Rightarrow> planBuilder \<Rightarrow>
   matchPair list \<Rightarrow> nat list \<Rightarrow> (nat \<times> CitableUnit) list \<Rightarrow> planBuilder \<Rightarrow> bool" where
  "scope_step E book ds snap S k b ps un new b1 \<longleftrightarrow>
     snapshot_ok E snap \<and> uuid_nonempty E \<and> plan_inv E book ds snap S b \<and> k \<notin> S \<and>
     match_loop k (queues_of (sort_key u_Position (active_of_scope (s_Active snap) k)))
       (derived_of_scope ds k) b = (ps, un, record_matches k ps b) \<and>
     b1 = (record_matches k ps b)\<lparr>pb_matchedPairs := pb_matchedPairs b @ ps\<rparr> \<and>
     map fst new = filter (\<lambda>i. pb_unitIDs b1 ! i = '''') (derived_of_scope ds k) \<and>
     mint_run E book k ds (s_ExistingIDs snap) (pb_plannedIDs b) (s_MaxOrdinalByScope snap k) new"

lemma scope_stepD:
  assumes "scope_step E book ds snap S k b ps un new b1"
  shows step_ok: "snapshot_ok E snap" and step_uuid: "uuid_nonempty E"
    and step_inv: "plan_inv E book ds snap S b" and step_fresh: "k \<notin> S"
    and step_match: "match_loop k (queues_of (sort_key u_Position (active_of_scope (s_Active snap) k)))
      (derived_of_scope ds k) b = (ps, un, record_matches k ps b)"
    and step_b1: "b1 = (record_matches k ps b)\<lparr>pb_matchedPairs := pb_matchedPairs b @ ps\<rparr>"
    and step_new: "map fst new = filter (\<lambda>i. pb_unitIDs b1 ! i = '''') (derived_of_scope ds k)"
    and step_run: "mint_run E book k ds (s_ExistingIDs snap) (pb_plannedIDs b)
      (s_MaxOrdinalByScope snap k) new"
  using assms unfolding scope_step_def by blast+

lemma step_base:
  assumes "scope_step E book ds snap S k b ps un new b1"
  shows "pb_bookID b = book" "pb_derived b = ds" "pb_snap b = snap"
    "length (pb_unitIDs b) = length ds"
  using step_inv [OF assms] by (simp_all add: plan_inv_def inv_base_def)

lemma step_b1_sel:
  assumes "scope_step E book ds snap S k b ps un new b1"
  shows "pb_derived b1 = ds" "pb_snap b1 = snap" "pb_bookID b1 = book"
    "pb_plan b1 = pb_plan b" "pb_plannedIDs b1 = pb_plannedIDs b" "pb_mintRefs b1 = pb_mintRefs b"
    "pb_retireRefs b1 = pb_retireRefs b" "pb_retireByID b1 = pb_retireByID b"
    "pb_matchedPairs b1 = pb_matchedPairs b @ ps" "length (pb_unitIDs b1) = length ds"
    "pb_unitIDs b1 = pb_unitIDs (record_matches k ps b)"
    "pb_activeTwins b1 = pb_activeTwins (record_matches k ps b)"
  by (simp_all add: step_b1 [OF assms] step_base [OF assms])

lemma step_pair:
  assumes st: "scope_step E book ds snap S k b ps un new b1" and p: "p \<in> set ps"
  shows "mp_derivedIdx p < length ds" "derived_scope (ds ! mp_derivedIdx p) = k"
    "mp_active p \<in> set (s_Active snap)" "unit_scope (mp_active p) = k"
    "unit_key (mp_active p) = derived_key (ds ! mp_derivedIdx p)" "u_ID (mp_active p) \<noteq> ''''"
  using match_loop_pairs(1) [OF step_match [OF st] p] match_loop_key [OF step_match [OF st] p]
    step_ok [OF st]
  by (auto simp: derived_of_scope_set active_of_scope_def step_base [OF st] snapshot_ok_def)

lemma step_idx:
  assumes "scope_step E book ds snap S k b ps un new b1"
  shows "un = filter (\<lambda>i. i \<notin> mp_derivedIdx ` set ps) (derived_of_scope ds k)"
    "map mp_derivedIdx ps = filter (\<lambda>i. i \<in> mp_derivedIdx ` set ps) (derived_of_scope ds k)"
  using match_loop_indices [OF step_match [OF assms]] by simp_all

lemma step_distinct_idx:
  assumes "scope_step E book ds snap S k b ps un new b1"
  shows "distinct (map mp_derivedIdx ps)"
  by (subst step_idx(2) [OF assms]) simp

lemma step_matched_id:
  assumes st: "scope_step E book ds snap S k b ps un new b1" and p: "p \<in> set ps"
  shows "pb_unitIDs b1 ! mp_derivedIdx p = u_ID (mp_active p)"
  using record_matches_id [OF p step_distinct_idx [OF st]] step_pair(1) [OF st p] step_base(4) [OF st]
  by (simp add: step_b1_sel(11) [OF st])

lemma step_unset_id:
  assumes st: "scope_step E book ds snap S k b ps un new b1"
    and "i < length ds" "derived_scope (ds ! i) \<notin> S" "i \<notin> mp_derivedIdx ` set ps"
  shows "pb_unitIDs b1 ! i = ''''"
  using assms(2-) step_inv [OF st]
  by (simp add: step_b1_sel(11) [OF st] record_matches_other plan_inv_def inv_index_def
      step_base [OF st])

lemma step_new_idx:
  assumes st: "scope_step E book ds snap S k b ps un new b1"
  shows "map fst new = un"
  unfolding step_new [OF st] step_idx(1) [OF st]
proof (rule filter_cong [OF refl])
  fix i assume i: "i \<in> set (derived_of_scope ds k)"
  show "(pb_unitIDs b1 ! i = '''') = (i \<notin> mp_derivedIdx ` set ps)"
  proof (cases "i \<in> mp_derivedIdx ` set ps")
    case True
    then show ?thesis using step_matched_id [OF st] step_pair(6) [OF st] by auto
  next
    case False
    then show ?thesis
      using step_unset_id [OF st] i step_fresh [OF st] by (simp add: derived_of_scope_set)
  qed
qed

lemma step_new_facts:
  assumes st: "scope_step E book ds snap S k b ps un new b1" and "(i, u) \<in> set new"
  shows "i < length ds" "derived_scope (ds ! i) = k" "i \<notin> mp_derivedIdx ` set ps"
proof -
  have "i \<in> set un" using assms(2) step_new_idx [OF st] by force
  then show "i < length ds" "derived_scope (ds ! i) = k" "i \<notin> mp_derivedIdx ` set ps"
    by (auto simp: step_idx(1) [OF st] derived_of_scope_set)
qed

lemma inv_index_bounds:
  assumes "inv_index S b"
    and "i \<in> set (map mp_derivedIdx (pb_matchedPairs b) @ map mr_derivedIdx (pb_mintRefs b))"
  shows "i < length (pb_derived b)" "derived_scope (pb_derived b ! i) \<in> S"
proof -
  have "mset (map mp_derivedIdx (pb_matchedPairs b) @ map mr_derivedIdx (pb_mintRefs b)) =
      mset (scope_part (pb_derived b) S)"
    using assms(1) by (simp add: inv_index_def)
  then have "set (map mp_derivedIdx (pb_matchedPairs b) @ map mr_derivedIdx (pb_mintRefs b)) =
      set (scope_part (pb_derived b) S)"
    by (metis set_mset_mset)
  with assms(2) have "i \<in> set (scope_part (pb_derived b) S)" by (simp only:)
  then show "i < length (pb_derived b)" "derived_scope (pb_derived b ! i) \<in> S"
    by (simp_all add: scope_part_def)
qed

lemmas step_old_idx = inv_index_bounds

text \<open>The identifiers of the earlier scopes stay.\<close>

lemma step_keep_id:
  assumes st: "scope_step E book ds snap S k b ps un new b1"
    and "i < length ds" "derived_scope (ds ! i) \<noteq> k"
  shows "pb_unitIDs (add_mints new b1) ! i = pb_unitIDs b ! i"
proof -
  have "i \<notin> fst ` set new" "i \<notin> mp_derivedIdx ` set ps"
    using assms(2-) step_new_facts [OF st] step_pair(2) [OF st] by auto
  then show ?thesis by (simp add: add_mints_other step_b1_sel(11) [OF st] record_matches_other)
qed

lemma step_keep_matched:
  assumes st: "scope_step E book ds snap S k b ps un new b1" and p: "p \<in> set ps"
  shows "pb_unitIDs (add_mints new b1) ! mp_derivedIdx p = u_ID (mp_active p)"
proof -
  have "mp_derivedIdx p \<notin> fst ` set new" using step_new_facts(3) [OF st] p by fastforce
  then show ?thesis using step_matched_id [OF st p] by (simp add: add_mints_other)
qed

lemma step_index:
  assumes st: "scope_step E book ds snap S k b ps un new b1"
  shows "inv_index (insert k S) (add_mints new b1)"
proof -
  have ix: "inv_index S b" using step_inv [OF st] by (simp add: plan_inv_def)
  have "mset (filter P xs) + mset (filter (\<lambda>x. \<not> P x) xs) = mset xs" for P and xs :: "nat list"
    by (induction xs) auto
  then have new: "mset (map mp_derivedIdx ps) + mset un = mset (derived_of_scope ds k)"
    by (subst step_idx(2) [OF st], subst step_idx(1) [OF st]) (simp only:)
  have old: "mset (map mp_derivedIdx (pb_matchedPairs b)) + mset (map mr_derivedIdx (pb_mintRefs b)) =
      mset (scope_part ds S)"
    using ix by (simp add: inv_index_def step_base [OF st])
  have "mset (map mp_derivedIdx (pb_matchedPairs b @ ps)) + mset (map mr_derivedIdx (pb_mintRefs b) @ un) =
      (mset (map mp_derivedIdx (pb_matchedPairs b)) + mset (map mr_derivedIdx (pb_mintRefs b))) +
      (mset (map mp_derivedIdx ps) + mset un)"
    by (simp only: map_append mset_append ac_simps)
  also have "\<dots> = mset (scope_part ds (insert k S))"
    by (simp only: new old mset_scope_part_insert [OF step_fresh [OF st]])
  finally have "mset (map mp_derivedIdx (pb_matchedPairs b @ ps)) +
      mset (map mr_derivedIdx (pb_mintRefs b) @ un) = mset (scope_part ds (insert k S))" .
  then show ?thesis
    using step_keep_id [OF st] ix
    by (simp add: inv_index_def step_b1_sel [OF st] step_base [OF st] step_new_idx [OF st] del: mset_map)
qed

lemma step_matched:
  assumes st: "scope_step E book ds snap S k b ps un new b1"
  shows "inv_matched (add_mints new b1)"
proof -
  have old: "pb_unitIDs (add_mints new b1) ! mp_derivedIdx p = pb_unitIDs b ! mp_derivedIdx p"
    if "p \<in> set (pb_matchedPairs b)" for p
    using step_old_idx [of S b "mp_derivedIdx p"] that step_fresh [OF st] step_inv [OF st]
    by (intro step_keep_id [OF st]) (auto simp: plan_inv_def step_base [OF st])
  have m: "inv_matched b" using step_inv [OF st] by (simp add: plan_inv_def)
  have "\<forall>p\<in>set (pb_matchedPairs b @ ps).
      pb_unitIDs (add_mints new b1) ! mp_derivedIdx p = u_ID (mp_active p) \<and>
      unit_key (mp_active p) = derived_key (ds ! mp_derivedIdx p) \<and>
      unit_scope (mp_active p) = derived_scope (ds ! mp_derivedIdx p)"
    using m old step_keep_matched [OF st] step_pair [OF st]
    by (auto simp: inv_matched_def step_base [OF st])
  moreover have "\<forall>s key. \<forall>u\<in>set (pb_activeTwins b1 s key). u \<in> mp_active ` set (pb_matchedPairs b @ ps)"
    using m by (fastforce simp: inv_matched_def step_b1_sel(12) [OF st] record_matches_twins
        split: if_splits)
  ultimately show ?thesis by (simp add: inv_matched_def step_b1_sel [OF st])
qed

lemma add_mints_refs:
  "\<exists>refs. pb_mintRefs (add_mints new b) = pb_mintRefs b @ refs \<and> map mr_derivedIdx refs = map fst new"
proof (induction new arbitrary: b)
  case (Cons x new)
  obtain di u where x: "x = (di, u)" by force
  from Cons.IH [of "add_mint di u b"] show ?case by (auto simp: x)
qed simp

lemma minted_from_cong:
  "pb_derived b' = pb_derived b \<Longrightarrow> pb_snap b' = pb_snap b \<Longrightarrow> pb_bookID b' = pb_bookID b \<Longrightarrow>
   minted_from E b' r u = minted_from E b r u"
  by (simp add: minted_from_def)

lemma minted_from_scope: "minted_from E b r u \<Longrightarrow> unit_scope u = derived_scope (pb_derived b ! mr_derivedIdx r)"
  by (auto simp: minted_from_def Let_def)

lemma step_old_scopes:
  assumes st: "scope_step E book ds snap S k b ps un new b1" and u: "u \<in> set (pl_Mints (pb_plan b))"
  shows "unit_scope u \<noteq> k"
proof -
  have inv: "inv_minted E b" "inv_index S b" using step_inv [OF st] by (simp_all add: plan_inv_def)
  then have "list_all2 (\<lambda>r u. minted_from E b r u \<and> pb_unitIDs b ! mr_derivedIdx r = u_ID u)
      (pb_mintRefs b) (pl_Mints (pb_plan b))"
    by (simp add: inv_minted_def)
  from list_all2_right [OF this u] obtain r where "r \<in> set (pb_mintRefs b)" "minted_from E b r u"
    by blast
  then show ?thesis
    using step_old_idx(2) [OF inv(2), of "mr_derivedIdx r"] step_fresh [OF st] minted_from_scope by auto
qed

lemma step_ordinals:
  assumes st: "scope_step E book ds snap S k b ps un new b1"
  shows "distinct (map (\<lambda>u. (unit_scope u, u_Ordinal u)) (pl_Mints (pb_plan b) @ map snd new))"
proof -
  have old: "distinct (map (\<lambda>u. (unit_scope u, u_Ordinal u)) (pl_Mints (pb_plan b)))"
    using step_inv [OF st] by (simp add: plan_inv_def inv_minted_def)
  have k: "unit_scope u = k" if "(i, u) \<in> set new" for i u
    using mint_run_units [OF step_run [OF st] that] by auto
  have "distinct (map (u_Ordinal \<circ> snd) new)"
    unfolding mint_run_ordinals [OF step_run [OF st]] by (simp add: distinct_map inj_on_def)
  then have "distinct (map (\<lambda>u. (unit_scope u, u_Ordinal u)) (map snd new))"
    by (auto simp: distinct_map inj_on_def comp_def)
  with old show ?thesis using step_old_scopes [OF st] k by auto
qed

lemma step_new_minted:
  assumes st: "scope_step E book ds snap S k b ps un new b1" and iu: "(i, u) \<in> set new"
    and r: "mr_derivedIdx r = i"
  shows "minted_from E (add_mints new b1) r u"
  using mint_run_units [OF step_run [OF st] iu] step_new_facts(2) [OF st iu]
  by (simp add: minted_from_def r step_b1_sel [OF st])

lemma step_new_id:
  assumes st: "scope_step E book ds snap S k b ps un new b1" and iu: "(i, u) \<in> set new"
  shows "pb_unitIDs (add_mints new b1) ! i = u_ID u"
proof (rule add_mints_id [OF iu])
  show "distinct (map fst new)" by (simp add: step_new [OF st])
  show "i < length (pb_unitIDs b1)"
    using step_new_facts(1) [OF st iu] by (simp only: step_b1_sel(10) [OF st])
qed

lemma step_minted:
  assumes st: "scope_step E book ds snap S k b ps un new b1"
  shows "inv_minted E (add_mints new b1)"
proof -
  let ?b = "add_mints new b1"
  have inv: "inv_minted E b" "inv_index S b" using step_inv [OF st] by (simp_all add: plan_inv_def)
  obtain refs where refs: "pb_mintRefs ?b = pb_mintRefs b @ refs" "map mr_derivedIdx refs = map fst new"
    using add_mints_refs [of new b1] by (auto simp: step_b1_sel [OF st])
  have "pb_unitIDs ?b ! mr_derivedIdx r = pb_unitIDs b ! mr_derivedIdx r" if "r \<in> set (pb_mintRefs b)" for r
    using step_old_idx [OF inv(2), of "mr_derivedIdx r"] that step_fresh [OF st]
    by (intro step_keep_id [OF st]) (auto simp: step_base [OF st])
  moreover have "minted_from E ?b r u = minted_from E b r u" for r u
    by (rule minted_from_cong) (simp_all add: step_b1_sel [OF st] step_base [OF st])
  ultimately have old: "list_all2 (\<lambda>r u. minted_from E ?b r u \<and> pb_unitIDs ?b ! mr_derivedIdx r = u_ID u)
      (pb_mintRefs b) (pl_Mints (pb_plan b))"
    using inv(1) by (auto simp: inv_minted_def elim!: list.rel_mono_strong)
  have len: "length refs = length new" using refs(2) by (metis length_map)
  have "list_all2 (\<lambda>r u. minted_from E ?b r u \<and> pb_unitIDs ?b ! mr_derivedIdx r = u_ID u) refs (map snd new)"
  proof (rule list_all2_all_nthI)
    fix n assume n: "n < length refs"
    then have iu: "(fst (new ! n), snd (new ! n)) \<in> set new" using len by simp
    have r: "mr_derivedIdx (refs ! n) = fst (new ! n)"
      using refs(2) n len by (metis nth_map)
    show "minted_from E ?b (refs ! n) (map snd new ! n) \<and>
        pb_unitIDs ?b ! mr_derivedIdx (refs ! n) = u_ID (map snd new ! n)"
      using step_new_minted [OF st iu r] step_new_id [OF st iu] r n len by simp
  qed (simp add: len)
  with old have "list_all2 (\<lambda>r u. minted_from E ?b r u \<and> pb_unitIDs ?b ! mr_derivedIdx r = u_ID u)
      (pb_mintRefs ?b) (pl_Mints (pb_plan ?b))"
    by (simp add: refs(1) step_b1_sel [OF st] list_all2_appendI)
  moreover have "map mr_planIdx (pb_mintRefs ?b) = [0..<length (pl_Mints (pb_plan ?b))]"
    using inv(1) by (intro add_mints_planIdx) (simp add: inv_minted_def step_b1_sel [OF st])
  moreover have "distinct (map u_ID (pl_Mints (pb_plan ?b)))"
    "set (pb_plannedIDs ?b) = u_ID ` set (pl_Mints (pb_plan ?b))"
    "u_ID ` set (pl_Mints (pb_plan ?b)) \<inter> set (s_ExistingIDs snap) = {}"
    using inv(1) mint_run_ids [OF step_run [OF st]]
    by (auto simp: inv_minted_def step_b1_sel [OF st] step_base [OF st] image_image comp_def)
  ultimately show ?thesis
    using step_ordinals [OF st] by (simp add: inv_minted_def step_b1_sel [OF st])
qed

lemma distinct_map_subset_mset:
  assumes "mset xs \<subseteq># mset ys" "distinct (map f ys)"
  shows "distinct (map f xs)"
proof -
  obtain zs where "mset ys = mset (xs @ zs)"
    using assms(1) by (metis ex_mset mset_append mset_subset_eq_exists_conv)
  then have "mset (map f ys) = mset (map f (xs @ zs))" by simp
  then have "distinct (map f (xs @ zs))" using assms(2) by (metis mset_eq_imp_distinct_iff)
  then show ?thesis by simp
qed

lemma step_retired:
  assumes st: "scope_step E book ds snap S k b ps un new b1"
    and rm: "mset (concat (map rm gks)) =
      mset (filter (\<lambda>u. \<not> unitMatched ps (u_ID u)) (active_of_scope (s_Active snap) k))"
    and ad: "\<forall>g. set (ad g) \<subseteq> set un"
  shows "inv_retired (insert k S) (lineageGaps k gks rm ad (add_mints new b1))"
proof -
  let ?m = "add_mints new b1" and ?b = "lineageGaps k gks rm ad (add_mints new b1)"
  let ?us = "active_of_scope (s_Active snap) k"
  have inv: "inv_retired S b" using step_inv [OF st] by (simp add: plan_inv_def)
  have lin: "lineage_inv ?m"
    using inv by (simp add: inv_retired_def lineage_inv_def retired_ids_def step_b1_sel [OF st])
  have dist: "distinct (map u_ID (s_Active snap))" using step_ok [OF st] by (simp add: snapshot_ok_def)
  have sub: "mset (map mp_active ps) \<subseteq># mset ?us"
    using match_loop_actives [OF step_match [OF st]] by simp
  have "distinct (map u_ID ?us)"
    using dist by (intro distinct_map_subset_mset [of ?us "s_Active snap"])
      (simp_all add: active_of_scope_def)
  note split = matched_split [OF sub this]
  have old: "mset (map mp_active (pb_matchedPairs b)) + mset (map rr_unit (pb_retireRefs b)) =
      mset (filter (\<lambda>u. unit_scope u \<in> S) (s_Active snap))"
    using inv by (simp add: inv_retired_def step_base [OF st])
  have eq: "mset (map mp_active (pb_matchedPairs b @ ps)) +
      mset (map rr_unit (pb_retireRefs b) @ concat (map rm gks)) =
      mset (filter (\<lambda>u. unit_scope u \<in> insert k S) (s_Active snap))"
  proof -
    have "mset (map mp_active (pb_matchedPairs b @ ps)) +
        mset (map rr_unit (pb_retireRefs b) @ concat (map rm gks)) =
        (mset (map mp_active (pb_matchedPairs b)) + mset (map rr_unit (pb_retireRefs b))) +
        (mset (map mp_active ps) + mset (concat (map rm gks)))"
      by (simp only: map_append mset_append ac_simps)
    then show ?thesis
      by (simp only: old rm split mset_actives_insert [OF step_fresh [OF st]])
  qed
  have "mset (map rr_unit (pb_retireRefs b) @ concat (map rm gks)) \<subseteq># mset (s_Active snap)"
    by (rule subset_mset.order_trans [OF mset_subset_eq_add_right [of _ "mset (map mp_active (pb_matchedPairs b @ ps))"]])
      (simp only: eq, simp)
  then have "distinct (map u_ID (map rr_unit (pb_retireRefs b) @ concat (map rm gks)))"
    using dist by (rule distinct_map_subset_mset)
  then have "distinct (retired_ids ?m @ map u_ID (concat (map rm gks)))"
    by (simp add: retired_ids_map step_b1_sel [OF st] o_def)
  note gaps = lineage_inv_gaps [OF lin this, of k ad]
  have kp: "keeps ?m ?b" by (rule keeps_lineageGaps)
  have "\<forall>e\<in>set (pl_Edges (pb_plan ?b)). e_SuccessorID e \<in> u_ID ` set (pl_Mints (pb_plan ?m)) \<and>
      e_Reason e = UnitLineageReasonEdit"
  proof
    fix e assume "e \<in> set (pl_Edges (pb_plan ?b))"
    then consider "e \<in> set (pl_Edges (pb_plan b))"
      | g u di where "g \<in> set gks" "(u, di) \<in> set (gap_edges (rm g) (ad g))"
          "e = edit_lineage (pb_unitIDs ?m) (u, di)"
      by (auto simp: lineageGaps_edges step_b1_sel [OF st])
    then show "e_SuccessorID e \<in> u_ID ` set (pl_Mints (pb_plan ?m)) \<and> e_Reason e = UnitLineageReasonEdit"
    proof cases
      case 1
      then show ?thesis using inv by (auto simp: inv_retired_def step_b1_sel [OF st])
    next
      case (2 g u di)
      then have "di \<in> set un" using ad gap_edges_removed by fastforce
      then obtain v where v: "(di, v) \<in> set new" using step_new_idx [OF st] by force
      have "pb_unitIDs ?m ! di = u_ID v" using step_new_id [OF st v] .
      moreover have "v \<in> set (pl_Mints (pb_plan ?m))" using v by force
      ultimately show ?thesis using 2(3) by (simp add: edit_lineage_def)
    qed
  qed
  then show ?thesis
    using gaps kp eq
    by (simp add: inv_retired_def keeps_def step_b1_sel [OF st] del: mset_map mset_append map_append)
qed

lemma step_base_kept:
  assumes st: "scope_step E book ds snap S k b ps un new b1"
  shows "inv_base book ds snap (add_mints new b1)"
  using step_inv [OF st] by (simp add: plan_inv_def inv_base_def step_b1_sel [OF st])

lemma reconcileScope_inv:
  assumes run: "reconcileScope E k (derived_of_scope ds k) (active_of_scope (s_Active snap) k) b = Some b'"
    and ok: "snapshot_ok E snap" "uuid_nonempty E" and inv: "plan_inv E book ds snap S b" and k: "k \<notin> S"
  shows "plan_inv E book ds snap (insert k S) b'"
proof -
  have base: "pb_bookID b = book" "pb_derived b = ds" "pb_snap b = snap"
    using inv by (simp_all add: plan_inv_def inv_base_def)
  show ?thesis
  proof (rule reconcileScope_effect [OF run distinct_derived_of_scope])
    fix ps un new b1 gks rm ad
    assume "match_loop k (queues_of (sort_key u_Position (active_of_scope (s_Active snap) k)))
       (derived_of_scope ds k) b = (ps, un, record_matches k ps b)"
      "b1 = (record_matches k ps b)\<lparr>pb_matchedPairs := pb_matchedPairs b @ ps\<rparr>"
      "map fst new = filter (\<lambda>i. pb_unitIDs b1 ! i = '''') (derived_of_scope ds k)"
      "mint_run E (pb_bookID b) k (pb_derived b) (s_ExistingIDs (pb_snap b)) (pb_plannedIDs b)
         (s_MaxOrdinalByScope (pb_snap b) k) new"
      and b': "b' = lineageGaps k gks rm ad (add_mints new b1)"
      and rm: "mset (concat (map rm gks)) =
        mset (filter (\<lambda>u. \<not> unitMatched ps (u_ID u)) (active_of_scope (s_Active snap) k))"
      and ad: "\<forall>g. set (ad g) \<subseteq> set un"
    then have st: "scope_step E book ds snap S k b ps un new b1"
      using ok inv k unfolding scope_step_def base by blast
    have kp: "keeps (add_mints new b1) b'" unfolding b' by (rule keeps_lineageGaps)
    show ?thesis
      unfolding plan_inv_def keeps_inv [OF kp]
      using step_base_kept [OF st] step_index [OF st] step_matched [OF st] step_minted [OF st]
        step_retired [OF st rm ad] by (simp add: b')
  qed
qed

lemma reconcile_scopes_inv:
  assumes "reconcile_scopes E (derived_of_scope ds) (active_of_scope (s_Active snap)) ks b = Some b'"
    and ok: "snapshot_ok E snap" "uuid_nonempty E" and "plan_inv E book ds snap S b"
    and "distinct ks" "set ks \<inter> S = {}"
  shows "plan_inv E book ds snap (set ks \<union> S) b'"
  using assms(1,4-)
proof (induction ks arbitrary: b S)
  case (Cons k ks)
  from Cons.prems(1) obtain b1 where
    b1: "reconcileScope E k (derived_of_scope ds k) (active_of_scope (s_Active snap) k) b = Some b1"
    and rest: "reconcile_scopes E (derived_of_scope ds) (active_of_scope (s_Active snap)) ks b1 = Some b'"
    by (auto split: option.splits)
  have "plan_inv E book ds snap (insert k S) b1"
    using reconcileScope_inv [OF b1 ok Cons.prems(2)] Cons.prems(4) by simp
  from Cons.IH [OF rest this] Cons.prems(3,4) show ?case by simp
qed simp

text \<open>When the scopes cover every unit, the invariant speaks of the whole book.\<close>

lemma plan_inv_cover:
  assumes "plan_inv E book ds snap S b"
    and "derived_scope ` set ds \<subseteq> S" "unit_scope ` set (s_Active snap) \<subseteq> S"
  shows "plan_inv E book ds snap UNIV b"
proof -
  have "\<forall>i\<in>set [0..<length ds]. derived_scope (ds ! i) \<in> S" using assms(2) by auto
  then have "scope_part ds S = scope_part ds UNIV"
    unfolding scope_part_def by (intro filter_cong) auto
  moreover have "filter_mset (\<lambda>u. unit_scope u \<in> S) (mset (s_Active snap)) = mset (s_Active snap)"
    using assms(3) by (subst filter_mset_eq_conv) auto
  ultimately show ?thesis
    using assms(1) by (auto simp: plan_inv_def inv_base_def inv_index_def inv_retired_def)
qed

lemma plan_inv_init:
  "plan_inv E book ds snap {} (set_scopes n (init_builder book at ds snap))"
  by (simp add: plan_inv_def inv_base_def inv_index_def inv_matched_def inv_minted_def
      inv_retired_def lineage_inv_def retired_ids_def set_scopes_def init_builder_def
      scope_part_def report_blank_def empty_report_def)

definition scope_order :: "DerivedUnit list \<Rightarrow> UnitRegistrySnapshot \<Rightarrow> int list" where
  "scope_order ds snap = nub (map derived_scope ds) @
     sort (filter (\<lambda>k. k \<notin> set (nub (map derived_scope ds))) (nub (map unit_scope (s_Active snap))))"

lemma scope_order_set:
  "distinct (scope_order ds snap)"
  "set (scope_order ds snap) = derived_scope ` set ds \<union> unit_scope ` set (s_Active snap)"
  by (auto simp: scope_order_def)

lemma PlanBook_unfold:
  "PlanBook E book at derived snap =
     (let ds = normalizeDerivedParentShapes derived in
      map_option (\<lambda>b. pb_plan (fillReport (finalizeRetires (rescuePass
          (stageUpdates (resolveFootnoteParents b))))))
        (reconcile_scopes E (derived_of_scope ds) (active_of_scope (s_Active snap)) (scope_order ds snap)
           (set_scopes (int (length (scope_order ds snap))) (init_builder book at ds snap))))"
proof -
  have "groupScopes (init_builder book at ds snap) =
      (derived_of_scope ds, active_of_scope (s_Active snap), scope_order ds snap)" for ds
    by (simp add: groupScopes_def scope_order_def init_builder_def Let_def)
  then show ?thesis by (simp add: PlanBook_def Let_def split: option.splits)
qed

lemma PlanBook_inv:
  assumes "PlanBook E book at derived snap = Some plan" "snapshot_ok E snap" "uuid_nonempty E"
  obtains b where "plan_inv E book (normalizeDerivedParentShapes derived) snap UNIV b"
    "plan = pb_plan (fillReport (finalizeRetires (rescuePass (stageUpdates (resolveFootnoteParents b)))))"
proof -
  let ?ds = "normalizeDerivedParentShapes derived"
  from assms(1) obtain b where
    b: "reconcile_scopes E (derived_of_scope ?ds) (active_of_scope (s_Active snap)) (scope_order ?ds snap)
       (set_scopes (int (length (scope_order ?ds snap))) (init_builder book at ?ds snap)) = Some b"
    and plan: "plan = pb_plan (fillReport (finalizeRetires (rescuePass
      (stageUpdates (resolveFootnoteParents b)))))"
    by (auto simp: PlanBook_unfold Let_def)
  have "plan_inv E book ?ds snap (set (scope_order ?ds snap) \<union> {}) b"
    by (rule reconcile_scopes_inv [OF b assms(2,3) plan_inv_init]) (simp_all add: scope_order_set)
  then have "plan_inv E book ?ds snap UNIV b"
    by (rule plan_inv_cover) (simp_all add: scope_order_set)
  then show thesis using plan by (rule that)
qed

end
