(* ===== verification/Unit_Plan_Final.thy ===== *)
theory Unit_Plan_Final
  imports Unit_Plan_Inv
begin

text \<open>
  The book-level phases after the scope loop: footnote parents, locator updates, the rescue
  pass, the retire list and the report. Together with the invariant they give the shape of the
  finished plan, from which the properties of \<open>Unit_Plan_Props\<close> follow.
\<close>

section \<open>Footnote parents\<close>

definition with_parent :: "DerivedUnit list \<Rightarrow> string list \<Rightarrow> mintRef \<Rightarrow> CitableUnit \<Rightarrow> CitableUnit" where
  "with_parent ds ids r u =
     (case want_parent (ds ! mr_derivedIdx r) ids of
        None \<Rightarrow> u | Some i \<Rightarrow> u\<lparr>u_ParentUnitID := Some i\<rparr>)"

lemma with_parent_sel [simp]:
  "u_ID (with_parent ds ids r u) = u_ID u" "u_Ordinal (with_parent ds ids r u) = u_Ordinal u"
  "u_HeadingID (with_parent ds ids r u) = u_HeadingID u" "u_Anchor (with_parent ds ids r u) = u_Anchor u"
  "u_Position (with_parent ds ids r u) = u_Position u" "u_Kind (with_parent ds ids r u) = u_Kind u"
  "u_PageID (with_parent ds ids r u) = u_PageID u" "u_Lifecycle (with_parent ds ids r u) = u_Lifecycle u"
  by (simp_all add: with_parent_def split: option.splits)

lemma unit_scope_with_parent [simp]: "unit_scope (with_parent ds ids r u) = unit_scope u"
  by (simp add: unit_scope_def)

lemma resolve_parent_frame [simp]:
  "pb_derived (resolve_parent r b) = pb_derived b" "pb_snap (resolve_parent r b) = pb_snap b"
  "pb_unitIDs (resolve_parent r b) = pb_unitIDs b" "pb_mintRefs (resolve_parent r b) = pb_mintRefs b"
  "pb_retireRefs (resolve_parent r b) = pb_retireRefs b"
  "pb_matchedPairs (resolve_parent r b) = pb_matchedPairs b"
  "pb_activeTwins (resolve_parent r b) = pb_activeTwins b"
  "pl_Edges (pb_plan (resolve_parent r b)) = pl_Edges (pb_plan b)"
  "pl_Updates (pb_plan (resolve_parent r b)) = pl_Updates (pb_plan b)"
  "pl_HistoricalMints (pb_plan (resolve_parent r b)) = pl_HistoricalMints (pb_plan b)"
  "pl_Retires (pb_plan (resolve_parent r b)) = pl_Retires (pb_plan b)"
  "pl_Report (pb_plan (resolve_parent r b)) = pl_Report (pb_plan b)"
  by (simp_all add: resolve_parent_def Let_def)

lemma resolve_parent_mints:
  assumes "mr_planIdx r < length (pl_Mints (pb_plan b))"
  shows "pl_Mints (pb_plan (resolve_parent r b)) =
    (pl_Mints (pb_plan b))[mr_planIdx r :=
       with_parent (pb_derived b) (pb_unitIDs b) r (pl_Mints (pb_plan b) ! mr_planIdx r)]"
  by (simp add: resolve_parent_def with_parent_def want_parent_def Let_def)

lemma resolve_loop:
  assumes "map mr_planIdx rs = [n..<n + length rs]" "n + length rs = length (pl_Mints (pb_plan b))"
  shows "pl_Mints (pb_plan (fold resolve_parent rs b)) = take n (pl_Mints (pb_plan b)) @
    map2 (with_parent (pb_derived b) (pb_unitIDs b)) rs (drop n (pl_Mints (pb_plan b)))"
  using assms
proof (induction rs arbitrary: n b)
  case (Cons r rs)
  let ?ms = "pl_Mints (pb_plan b)" and ?w = "with_parent (pb_derived b) (pb_unitIDs b) r"
  have n: "mr_planIdx r = n" "n < length ?ms" "map mr_planIdx rs = [Suc n..<Suc n + length rs]"
    using Cons.prems by (auto simp: upt_conv_Cons simp del: upt_Suc)
  have step: "pl_Mints (pb_plan (resolve_parent r b)) = ?ms[n := ?w (?ms ! n)]"
    using resolve_parent_mints [of r b] n by simp
  have "pl_Mints (pb_plan (fold resolve_parent rs (resolve_parent r b))) =
      take (Suc n) (?ms[n := ?w (?ms ! n)]) @
      map2 (with_parent (pb_derived b) (pb_unitIDs b)) rs (drop (Suc n) (?ms[n := ?w (?ms ! n)]))"
    using Cons.IH [of "Suc n" "resolve_parent r b"] n Cons.prems(2) by (simp add: step)
  also have "\<dots> = take n ?ms @ map2 (with_parent (pb_derived b) (pb_unitIDs b)) (r # rs) (drop n ?ms)"
    using n(2) by (simp add: take_Suc_conv_app_nth Cons_nth_drop_Suc [symmetric])
  finally show ?case by simp
qed simp

lemma resolve_frame [simp]:
  "pb_derived (resolveFootnoteParents b) = pb_derived b"
  "pb_snap (resolveFootnoteParents b) = pb_snap b"
  "pb_unitIDs (resolveFootnoteParents b) = pb_unitIDs b"
  "pb_mintRefs (resolveFootnoteParents b) = pb_mintRefs b"
  "pb_retireRefs (resolveFootnoteParents b) = pb_retireRefs b"
  "pb_matchedPairs (resolveFootnoteParents b) = pb_matchedPairs b"
  "pb_activeTwins (resolveFootnoteParents b) = pb_activeTwins b"
  "pl_Edges (pb_plan (resolveFootnoteParents b)) = pl_Edges (pb_plan b)"
  "pl_Updates (pb_plan (resolveFootnoteParents b)) = pl_Updates (pb_plan b)"
  "pl_HistoricalMints (pb_plan (resolveFootnoteParents b)) = pl_HistoricalMints (pb_plan b)"
  "pl_Retires (pb_plan (resolveFootnoteParents b)) = pl_Retires (pb_plan b)"
  "pl_Report (pb_plan (resolveFootnoteParents b)) = pl_Report (pb_plan b)"
  unfolding resolveFootnoteParents_def
  by (rule fold_frame, simp; fail | rule fold_frame [where f = "\<lambda>b. pl_Edges (pb_plan b)"], simp; fail
    | rule fold_frame [where f = "\<lambda>b. pl_Updates (pb_plan b)"], simp; fail
    | rule fold_frame [where f = "\<lambda>b. pl_HistoricalMints (pb_plan b)"], simp; fail
    | rule fold_frame [where f = "\<lambda>b. pl_Retires (pb_plan b)"], simp; fail
    | rule fold_frame [where f = "\<lambda>b. pl_Report (pb_plan b)"], simp; fail)+

lemma resolve_mints:
  assumes "inv_minted E b"
  shows "pl_Mints (pb_plan (resolveFootnoteParents b)) =
    map2 (with_parent (pb_derived b) (pb_unitIDs b)) (pb_mintRefs b) (pl_Mints (pb_plan b))"
proof -
  have planIdx: "map mr_planIdx (pb_mintRefs b) = [0..<length (pl_Mints (pb_plan b))]"
    using assms by (simp add: inv_minted_def)
  then have "length (pb_mintRefs b) = length (pl_Mints (pb_plan b))"
    by (metis length_map length_upt diff_zero)
  with planIdx show ?thesis
    using resolve_loop [of "pb_mintRefs b" 0 b] by (simp add: resolveFootnoteParents_def)
qed

section \<open>The rescue pass\<close>

lemma best_twin_in: "ts \<noteq> [] \<Longrightarrow> best_twin ts \<in> set ts"
proof -
  assume "ts \<noteq> []"
  moreover have "fold (\<lambda>t best. if u_Ordinal t < u_Ordinal best then t else best) us v \<in> insert v (set us)"
    for us and v :: CitableUnit
    by (induction us arbitrary: v) auto
  ultimately show ?thesis by (cases ts) (auto simp: best_twin_def)
qed

lemma best_twin_least: "t \<in> set ts \<Longrightarrow> u_Ordinal (best_twin ts) \<le> u_Ordinal t"
proof -
  assume t: "t \<in> set ts"
  have "\<forall>w\<in>insert v (set us).
      u_Ordinal (fold (\<lambda>t best. if u_Ordinal t < u_Ordinal best then t else best) us v) \<le> u_Ordinal w"
    for us and v :: CitableUnit
  proof (induction us arbitrary: v)
    case (Cons x us)
    from Cons.IH [of "if u_Ordinal x < u_Ordinal v then x else v"] show ?case
      by (auto split: if_splits)
  qed simp
  with t show ?thesis by (cases ts) (auto simp: best_twin_def)
qed

text \<open>
  What the pass leaves: the same units, an edge flag set exactly for the units that had one or
  got one, and content-move edges from units without an edge to a minted or a twin unit.
\<close>

definition flagged :: "CitableUnitLineage list \<Rightarrow> retireRef \<Rightarrow> retireRef \<Rightarrow> bool" where
  "flagged es r r' \<longleftrightarrow> rr_unit r' = rr_unit r \<and>
     rr_hasEdge r' = (rr_hasEdge r \<or> (\<exists>e\<in>set es. e_PredecessorID e = u_ID (rr_unit r)))"

definition rescue_edge ::
  "(int \<Rightarrow> string \<Rightarrow> CitableUnit list) \<Rightarrow> (string \<Rightarrow> string list) \<Rightarrow> retireRef list \<Rightarrow>
   CitableUnitLineage \<Rightarrow> bool" where
  "rescue_edge tw tg rs e \<longleftrightarrow> e_Reason e = UnitLineageReasonContentMove \<and>
     (\<exists>r\<in>set rs. \<not> rr_hasEdge r \<and> e_PredecessorID e = u_ID (rr_unit r) \<and>
        (e_SuccessorID e \<in> set (tg (unit_rescue_key (rr_unit r))) \<or>
         (\<exists>t\<in>set (tw (rr_scopeKey r) (unit_rescue_key (rr_unit r))). e_SuccessorID e = u_ID t)))"

definition ref_ids :: "retireRef list \<Rightarrow> string list" where
  "ref_ids rs = map (\<lambda>r. u_ID (rr_unit r)) rs"

lemma rescue_edge_pred: "rescue_edge tw tg rs e \<Longrightarrow> e_PredecessorID e \<in> set (ref_ids rs)"
  by (auto simp: rescue_edge_def ref_ids_def)

lemma rescue_edge_mono:
  assumes "rescue_edge tw tg rs e" "\<And>k. set (tg k) \<subseteq> set (tg' k)" "set rs \<subseteq> set rs'"
  shows "rescue_edge tw tg' rs' e"
  using assms unfolding rescue_edge_def by blast

lemma rescue_keep:
  assumes "list_all2 (flagged es) rs rs'" "\<forall>e\<in>set es. rescue_edge tw tg rs e" "distinct (ref_ids (r # rs))"
  shows "list_all2 (flagged es) (r # rs) (r # rs')" "\<forall>e\<in>set es. rescue_edge tw tg (r # rs) e"
proof -
  have "e_PredecessorID e \<noteq> u_ID (rr_unit r)" if "e \<in> set es" for e
    using assms(2,3) that rescue_edge_pred by (fastforce simp: ref_ids_def)
  then show "list_all2 (flagged es) (r # rs) (r # rs')" using assms(1) by (auto simp: flagged_def)
  show "\<forall>e\<in>set es. rescue_edge tw tg (r # rs) e"
    using assms(2) rescue_edge_mono [of tw tg rs _ tg "r # rs"] by auto
qed

lemma rescue_move:
  assumes "list_all2 (flagged es) rs rs'" "\<forall>e\<in>set es. rescue_edge tw tg' rs e"
    and "distinct (ref_ids (r # rs))" "\<And>k. set (tg' k) \<subseteq> set (tg k)" "\<not> rr_hasEdge r"
    and s: "s \<in> set (tg (unit_rescue_key (rr_unit r))) \<or>
      (\<exists>t\<in>set (tw (rr_scopeKey r) (unit_rescue_key (rr_unit r))). s = u_ID t)"
  shows "list_all2 (flagged (move_edge (rr_unit r) s # es)) (r # rs) (r\<lparr>rr_hasEdge := True\<rparr> # rs')"
    "\<forall>e\<in>set (move_edge (rr_unit r) s # es). rescue_edge tw tg (r # rs) e"
proof -
  have "flagged (move_edge (rr_unit r) s # es) q q'" if "flagged es q q'" "q \<in> set rs" for q q'
  proof -
    have "u_ID (rr_unit q) \<noteq> u_ID (rr_unit r)"
      using that(2) assms(3) unfolding ref_ids_def
      by (metis (mono_tags, lifting) distinct.simps(2) image_eqI list.set_map list.simps(9))
    then show ?thesis using that(1) by (auto simp: flagged_def move_edge_def)
  qed
  then have "list_all2 (flagged (move_edge (rr_unit r) s # es)) rs rs'"
    using assms(1) by (auto elim!: list.rel_mono_strong)
  then show "list_all2 (flagged (move_edge (rr_unit r) s # es)) (r # rs) (r\<lparr>rr_hasEdge := True\<rparr> # rs')"
    by (simp add: flagged_def move_edge_def)
  have "rescue_edge tw tg (r # rs) (move_edge (rr_unit r) s)"
    using assms(5) s by (auto simp: rescue_edge_def move_edge_def)
  then show "\<forall>e\<in>set (move_edge (rr_unit r) s # es). rescue_edge tw tg (r # rs) e"
    using assms(2,4) rescue_edge_mono [of tw tg' rs _ tg "r # rs"] by auto
qed

lemma rescue_loop_spec:
  assumes "rescue_loop tw tg rs = (rs', es)" "distinct (ref_ids rs)"
  shows "list_all2 (flagged es) rs rs' \<and> (\<forall>e\<in>set es. rescue_edge tw tg rs e)"
  using assms
proof (induction rs arbitrary: tg rs' es)
  case (Cons r rs)
  let ?k = "unit_rescue_key (rr_unit r)"
  have dist: "distinct (ref_ids rs)" using Cons.prems(2) by (simp add: ref_ids_def)
  consider (keep) rs0 es0 where "rescue_loop tw tg rs = (rs0, es0)" "rs' = r # rs0" "es = es0"
    | (move) tg' rs0 es0 s where "rescue_loop tw tg' rs = (rs0, es0)" "\<And>k. set (tg' k) \<subseteq> set (tg k)"
        "rs' = r\<lparr>rr_hasEdge := True\<rparr> # rs0" "es = move_edge (rr_unit r) s # es0" "\<not> rr_hasEdge r"
        "s \<in> set (tg ?k) \<or> (\<exists>t\<in>set (tw (rr_scopeKey r) ?k). s = u_ID t)"
  proof (cases "rr_hasEdge r")
    case True
    obtain rs0 es0 where r0: "rescue_loop tw tg rs = (rs0, es0)" by force
    with True Cons.prems(1) show thesis by (intro keep [OF r0]) auto
  next
    case False
    show thesis
    proof (cases "tg ?k")
      case (Cons t ts)
      obtain rs0 es0 where r0: "rescue_loop tw (tg(?k := ts)) rs = (rs0, es0)" by force
      show thesis
        by (rule move [OF r0, of t])
          (use False Cons r0 Cons.prems(1) in \<open>auto simp: Let_def split: if_splits\<close>)
    next
      case Nil
      obtain rs0 es0 where r0: "rescue_loop tw tg rs = (rs0, es0)" by force
      show thesis
      proof (cases "tw (rr_scopeKey r) ?k = []")
        case True
        with False Nil r0 Cons.prems(1) show thesis by (intro keep [OF r0]) (auto simp: Let_def)
      next
        case tw: False
        show thesis
          by (rule move [OF r0, of "u_ID (best_twin (tw (rr_scopeKey r) ?k))"])
            (use False Nil tw r0 Cons.prems(1) best_twin_in [OF tw] in \<open>auto simp: Let_def\<close>)
      qed
    qed
  qed
  then show ?case
  proof cases
    case keep
    note ih = Cons.IH [OF keep(1) dist]
    from rescue_keep [OF conjunct1 [OF ih] conjunct2 [OF ih] Cons.prems(2)] keep(2,3)
    show ?thesis by simp
  next
    case move
    note ih = Cons.IH [OF move(1) dist]
    from rescue_move [OF conjunct1 [OF ih] conjunct2 [OF ih] Cons.prems(2) move(2,5,6)] move(3,4)
    show ?thesis by simp
  qed
qed simp

section \<open>The finished plan\<close>

text \<open>The shape of a finished plan over the builder the scope loop left.\<close>

definition finished :: "planBuilder \<Rightarrow> UnitReconcilePlan" where
  "finished b =
     pb_plan (fillReport (finalizeRetires (rescuePass (stageUpdates (resolveFootnoteParents b)))))"

definition final_refs :: "planBuilder \<Rightarrow> retireRef list" where
  "final_refs b = pb_retireRefs (rescuePass (stageUpdates (resolveFootnoteParents b)))"

definition final_moves :: "planBuilder \<Rightarrow> CitableUnitLineage list" where
  "final_moves b = snd (rescue_loop (pb_activeTwins b)
     (rescue_targets (stageUpdates (resolveFootnoteParents b)))
     (sort_key retire_order (pb_retireRefs b)))"

lemma stage_frame [simp]:
  "pb_derived (stageUpdates b) = pb_derived b" "pb_unitIDs (stageUpdates b) = pb_unitIDs b"
  "pb_mintRefs (stageUpdates b) = pb_mintRefs b" "pb_retireRefs (stageUpdates b) = pb_retireRefs b"
  "pb_matchedPairs (stageUpdates b) = pb_matchedPairs b"
  "pb_activeTwins (stageUpdates b) = pb_activeTwins b"
  "pl_Edges (pb_plan (stageUpdates b)) = pl_Edges (pb_plan b)"
  "pl_Mints (pb_plan (stageUpdates b)) = pl_Mints (pb_plan b)"
  "pl_HistoricalMints (pb_plan (stageUpdates b)) = pl_HistoricalMints (pb_plan b)"
  "pl_Retires (pb_plan (stageUpdates b)) = pl_Retires (pb_plan b)"
  "pl_Report (pb_plan (stageUpdates b)) = pl_Report (pb_plan b)"
  by (simp_all add: stageUpdates_def)

lemma rescue_frame [simp]:
  "pb_derived (rescuePass b) = pb_derived b" "pb_unitIDs (rescuePass b) = pb_unitIDs b"
  "pb_mintRefs (rescuePass b) = pb_mintRefs b" "pb_matchedPairs (rescuePass b) = pb_matchedPairs b"
  "pl_Mints (pb_plan (rescuePass b)) = pl_Mints (pb_plan b)"
  "pl_Retires (pb_plan (rescuePass b)) = pl_Retires (pb_plan b)"
  "pl_Updates (pb_plan (rescuePass b)) = pl_Updates (pb_plan b)"
  "pl_HistoricalMints (pb_plan (rescuePass b)) = pl_HistoricalMints (pb_plan b)"
  "pl_Report (pb_plan (rescuePass b)) = pl_Report (pb_plan b)"
  by (simp_all add: rescuePass_def split: prod.splits)

lemma finished_sel:
  assumes "plan_inv E book ds snap S b"
  shows "pl_Mints (finished b) = map2 (with_parent ds (pb_unitIDs b)) (pb_mintRefs b) (pl_Mints (pb_plan b))"
    "pl_Updates (finished b) = staged ds (pb_unitIDs b) (pb_matchedPairs b)"
    "pl_Retires (finished b) = map retire_of (final_refs b)"
    "pl_Edges (finished b) = pl_Edges (pb_plan b) @ final_moves b"
    "pl_ExpectedActive (finished b) = int (length (pb_matchedPairs b) + length (pb_mintRefs b))"
proof -
  have inv: "inv_minted E b" "pb_derived b = ds" "pl_Updates (pb_plan b) = []" "pl_Retires (pb_plan b) = []"
    using assms by (simp_all add: plan_inv_def inv_base_def)
  have len: "length (pb_mintRefs b) = length (pl_Mints (pb_plan b))"
    using inv(1) by (auto simp: inv_minted_def dest: list_all2_lengthD)
  show "pl_Mints (finished b) = map2 (with_parent ds (pb_unitIDs b)) (pb_mintRefs b) (pl_Mints (pb_plan b))"
    using resolve_mints [OF inv(1)]
    by (simp add: finished_def fillReport_def finalizeRetires_def Let_def inv)
  show "pl_Updates (finished b) = staged ds (pb_unitIDs b) (pb_matchedPairs b)"
    by (simp add: finished_def fillReport_def finalizeRetires_def Let_def inv)
      (simp add: stageUpdates_def inv)
  show "pl_Retires (finished b) = map retire_of (final_refs b)"
    by (simp add: finished_def fillReport_def finalizeRetires_def Let_def inv final_refs_def)
  show "pl_Edges (finished b) = pl_Edges (pb_plan b) @ final_moves b"
    by (simp add: finished_def fillReport_def finalizeRetires_def Let_def final_moves_def
        rescuePass_def split: prod.splits)
  show "pl_ExpectedActive (finished b) = int (length (pb_matchedPairs b) + length (pb_mintRefs b))"
    using resolve_mints [OF inv(1)] len
    by (simp add: finished_def fillReport_def finalizeRetires_def Let_def)
qed

lemma finished_no_history:
  assumes "plan_inv E book ds snap S b"
  shows "pl_HistoricalMints (finished b) = []"
  using assms
  by (simp add: finished_def fillReport_def finalizeRetires_def Let_def plan_inv_def inv_base_def)

lemma finished_report:
  assumes "plan_inv E book ds snap S b"
  shows "rep_Matched (pl_Report (finished b)) = int (length (pb_matchedPairs b))"
    "rep_Minted (pl_Report (finished b)) = int (length (pl_Mints (finished b)))"
    "rep_Updated (pl_Report (finished b)) = int (length (pl_Updates (finished b)))"
    "rep_Superseded (pl_Report (finished b)) = int (length (filter rr_hasEdge (final_refs b)))"
    "rep_Tombstoned (pl_Report (finished b)) =
       int (length (filter (\<lambda>r. \<not> rr_hasEdge r) (final_refs b)))"
    "rep_EditEdges (pl_Report (finished b)) =
       int (length (filter (\<lambda>e. e_Reason e = UnitLineageReasonEdit) (pl_Edges (finished b))))"
    "rep_MoveEdges (pl_Report (finished b)) =
       int (length (filter (\<lambda>e. e_Reason e \<noteq> UnitLineageReasonEdit) (pl_Edges (finished b))))"
proof -
  have "report_blank (pl_Report (pb_plan b))" using assms by (simp add: plan_inv_def inv_base_def)
  then show "rep_Matched (pl_Report (finished b)) = int (length (pb_matchedPairs b))"
    "rep_Minted (pl_Report (finished b)) = int (length (pl_Mints (finished b)))"
    "rep_Updated (pl_Report (finished b)) = int (length (pl_Updates (finished b)))"
    "rep_Superseded (pl_Report (finished b)) = int (length (filter rr_hasEdge (final_refs b)))"
    "rep_Tombstoned (pl_Report (finished b)) =
       int (length (filter (\<lambda>r. \<not> rr_hasEdge r) (final_refs b)))"
    "rep_EditEdges (pl_Report (finished b)) =
       int (length (filter (\<lambda>e. e_Reason e = UnitLineageReasonEdit) (pl_Edges (finished b))))"
    "rep_MoveEdges (pl_Report (finished b)) =
       int (length (filter (\<lambda>e. e_Reason e \<noteq> UnitLineageReasonEdit) (pl_Edges (finished b))))"
    by (simp_all add: finished_def fillReport_def finalizeRetires_def final_refs_def
        report_blank_def Let_def)
qed

end
