(* ===== verification/Unit_Plan_Props.thy ===== *)
theory Unit_Plan_Props
  imports Unit_Plan_Final Anchor
begin

text \<open>
  The properties of \<open>PlanBook\<close>: it returns, it accounts for every derived and every active unit,
  minted identifiers and anchors are fresh, lineage and lifecycles agree, and footnote parents
  point at units that are active after the plan.
\<close>

section \<open>The planner returns\<close>

text \<open>The identifiers one derived unit can probe are distinct over the occurrences it can reach.\<close>

definition collision_free :: "unit_env \<Rightarrow> int \<Rightarrow> DerivedUnit list \<Rightarrow> UnitRegistrySnapshot \<Rightarrow> bool" where
  "collision_free E book ds snap \<longleftrightarrow>
     (\<forall>d\<in>set ds. inj_on (derivedUnitID E book (derived_scope d) d)
        {1..int (2 * length ds + length (s_ExistingIDs snap))})"

lemma longestIncreasing_total: "\<exists>as. longestIncreasingByActivePos ps = Some as"
  using lis_indices_spec [of "map (\<lambda>p. u_Position (mp_active p)) ps"]
  by (auto simp: longestIncreasingByActivePos_def)

lemma reconcileScope_total:
  assumes "collision_free E book ds snap" "pb_bookID b = book" "pb_derived b = ds" "pb_snap b = snap"
    and "length (pb_plannedIDs b) + length (derived_of_scope ds k) \<le> length ds"
  shows "\<exists>b'. reconcileScope E k (derived_of_scope ds k) us b = Some b' \<and> pb_bookID b' = book \<and>
    pb_derived b' = ds \<and> pb_snap b' = snap \<and>
    length (pb_plannedIDs b') \<le> length (pb_plannedIDs b) + length (derived_of_scope ds k)"
proof -
  let ?dis = "derived_of_scope ds k"
  obtain ps un b0 where m: "match_loop k (queues_of (sort_key u_Position us)) ?dis b = (ps, un, b0)"
    by (metis prod_cases3)
  define b1 where "b1 = (record_matches k ps b)\<lparr>pb_matchedPairs := pb_matchedPairs b @ ps\<rparr>"
  have b0: "b0 = record_matches k ps b" using match_loop_effect [OF m] .
  have b1: "pb_bookID b1 = book" "pb_derived b1 = ds" "pb_snap b1 = snap"
    "pb_plannedIDs b1 = pb_plannedIDs b"
    by (simp_all add: b1_def assms)
  have "\<exists>b3. mint_loop E k (s_MaxOrdinalByScope snap k) (\<lambda>_. 0) ?dis b1 = Some b3"
  proof (rule mint_loop_total [where D = "length ds" and P = "length ds"])
    show "\<forall>di\<in>set ?dis. inj_on (derivedUnitID E (pb_bookID b1) k (pb_derived b1 ! di))
        {1..int (2 * length ds + length (s_ExistingIDs snap))}"
      using assms(1) by (auto simp: collision_free_def derived_of_scope_set b1)
  qed (use assms(5) in \<open>auto simp: b1\<close>)
  then obtain b3 where b3: "mint_loop E k (s_MaxOrdinalByScope snap k) (\<lambda>_. 0) ?dis b1 = Some b3" ..
  obtain anchors where "longestIncreasingByActivePos ps = Some anchors"
    using longestIncreasing_total by blast
  with m b3 obtain gks rm ad where
    run: "reconcileScope E k ?dis us b = Some (lineageGaps k gks rm ad b3)"
    by (simp add: reconcileScope_def matchScope_def mintScope_def assignGaps_def b0 b1_def [symmetric]
        b1 assms(4) Let_def)
  from mint_loop_effect [OF b3] obtain new where new: "b3 = add_mints new b1"
    "map fst new = filter (\<lambda>i. pb_unitIDs b1 ! i = '''') ?dis" by auto
  have "length new \<le> length ?dis" by (metis new(2) length_map length_filter_le)
  moreover have "keeps b3 (lineageGaps k gks rm ad b3)" by (rule keeps_lineageGaps)
  ultimately show ?thesis using run by (simp add: keeps_def new(1) b1)
qed

lemma reconcile_scopes_total:
  assumes "collision_free E book ds snap" "pb_bookID b = book" "pb_derived b = ds" "pb_snap b = snap"
    and "length (pb_plannedIDs b) + sum_list (map (\<lambda>k. length (derived_of_scope ds k)) ks) \<le> length ds"
  shows "\<exists>b'. reconcile_scopes E (derived_of_scope ds) act ks b = Some b'"
  using assms(2-)
proof (induction ks arbitrary: b)
  case (Cons k ks)
  have "length (pb_plannedIDs b) + length (derived_of_scope ds k) \<le> length ds"
    using Cons.prems(4) by simp
  from reconcileScope_total [OF assms(1) Cons.prems(1-3) this, of "act k"] obtain b1 where
    b1: "reconcileScope E k (derived_of_scope ds k) (act k) b = Some b1"
    "pb_bookID b1 = book" "pb_derived b1 = ds" "pb_snap b1 = snap"
    "length (pb_plannedIDs b1) \<le> length (pb_plannedIDs b) + length (derived_of_scope ds k)"
    by blast
  have "length (pb_plannedIDs b1) + sum_list (map (\<lambda>k. length (derived_of_scope ds k)) ks) \<le> length ds"
    using b1(5) Cons.prems(4) by simp
  from Cons.IH [OF b1(2-4) this] b1(1) show ?case by simp
qed simp

lemma scope_sizes:
  assumes "distinct ks" "derived_scope ` set ds \<subseteq> set ks"
  shows "sum_list (map (\<lambda>k. length (derived_of_scope ds k)) ks) = length ds"
proof -
  have "mset (concat (map (\<lambda>k. filter (\<lambda>i. derived_scope (ds ! i) = k) [0..<length ds]) ks)) =
      mset [0..<length ds]"
    using assms by (intro mset_buckets) auto
  then have "length (concat (map (derived_of_scope ds) ks)) = length ds"
    unfolding derived_of_scope_def by (metis diff_zero length_upt size_mset)
  then show ?thesis by (simp add: length_concat comp_def)
qed

lemma PlanBook_total:
  assumes "collision_free E book (normalizeDerivedParentShapes derived) snap"
  shows "\<exists>plan. PlanBook E book at derived snap = Some plan"
proof -
  let ?ds = "normalizeDerivedParentShapes derived"
  have "\<exists>b. reconcile_scopes E (derived_of_scope ?ds) (active_of_scope (s_Active snap)) (scope_order ?ds snap)
      (set_scopes (int (length (scope_order ?ds snap))) (init_builder book at ?ds snap)) = Some b"
    by (rule reconcile_scopes_total [OF assms])
      (simp_all add: set_scopes_def init_builder_def scope_sizes scope_order_set)
  then show ?thesis by (auto simp: PlanBook_unfold Let_def)
qed

section \<open>Facts about a finished plan\<close>

lemma PlanBook_finished:
  assumes "PlanBook E book at derived snap = Some plan" "snapshot_ok E snap" "uuid_nonempty E"
  obtains b where "plan_inv E book (normalizeDerivedParentShapes derived) snap UNIV b" "plan = finished b"
  using PlanBook_inv [OF assms] by (metis finished_def)

lemma inv_counts:
  assumes "plan_inv E book ds snap UNIV b"
  shows "length (pb_matchedPairs b) + length (pb_mintRefs b) = length ds"
    "length (pb_matchedPairs b) + length (pb_retireRefs b) = length (s_Active snap)"
proof -
  have "mset (map mp_derivedIdx (pb_matchedPairs b) @ map mr_derivedIdx (pb_mintRefs b)) =
      mset [0..<length ds]"
    using assms by (simp add: plan_inv_def inv_index_def inv_base_def scope_part_def)
  then have "length (map mp_derivedIdx (pb_matchedPairs b) @ map mr_derivedIdx (pb_mintRefs b)) =
      length [0..<length ds]"
    by (metis size_mset)
  then show "length (pb_matchedPairs b) + length (pb_mintRefs b) = length ds" by simp
  have "mset (map mp_active (pb_matchedPairs b) @ map rr_unit (pb_retireRefs b)) = mset (s_Active snap)"
    using assms by (simp add: plan_inv_def inv_retired_def inv_base_def)
  then have "length (map mp_active (pb_matchedPairs b) @ map rr_unit (pb_retireRefs b)) =
      length (s_Active snap)"
    by (metis size_mset)
  then show "length (pb_matchedPairs b) + length (pb_retireRefs b) = length (s_Active snap)" by simp
qed

lemma final_refs_spec:
  assumes "plan_inv E book ds snap UNIV b"
  shows "list_all2 (flagged (final_moves b)) (sort_key retire_order (pb_retireRefs b)) (final_refs b)"
    "\<forall>e\<in>set (final_moves b). rescue_edge (pb_activeTwins b)
       (rescue_targets (stageUpdates (resolveFootnoteParents b))) (pb_retireRefs b) e"
proof -
  let ?tg = "rescue_targets (stageUpdates (resolveFootnoteParents b))"
  let ?rs = "sort_key retire_order (pb_retireRefs b)"
  have "distinct (ref_ids (pb_retireRefs b))"
    using assms by (simp add: plan_inv_def inv_retired_def lineage_inv_def retired_ids_def ref_ids_def)
  then have dist: "distinct (ref_ids ?rs)"
    unfolding ref_ids_def by (metis mset_eq_imp_distinct_iff mset_map mset_sort)
  obtain rs' es where run: "rescue_loop (pb_activeTwins b) ?tg ?rs = (rs', es)" by force
  have eqs: "final_refs b = rs'" "final_moves b = es"
    by (simp_all add: final_refs_def final_moves_def rescuePass_def run)
  show "list_all2 (flagged (final_moves b)) ?rs (final_refs b)"
    using rescue_loop_spec [OF run dist] by (simp add: eqs)
  show "\<forall>e\<in>set (final_moves b). rescue_edge (pb_activeTwins b) ?tg (pb_retireRefs b) e"
    using rescue_loop_spec [OF run dist] by (auto simp: eqs rescue_edge_def)
qed

lemma final_refs_units:
  assumes "plan_inv E book ds snap UNIV b"
  shows "mset (map rr_unit (final_refs b)) = mset (map rr_unit (pb_retireRefs b))"
proof -
  have "map rr_unit (final_refs b) = map rr_unit (sort_key retire_order (pb_retireRefs b))"
    using final_refs_spec(1) [OF assms] by (induction rule: list_all2_induct) (auto simp: flagged_def)
  then show ?thesis by simp
qed

text \<open>The identifiers that are active once the plan is applied.\<close>

definition active_after :: "UnitRegistrySnapshot \<Rightarrow> UnitReconcilePlan \<Rightarrow> string set" where
  "active_after snap plan =
     (u_ID ` set (s_Active snap) - rt_ID ` set (pl_Retires plan)) \<union> u_ID ` set (pl_Mints plan)"

lemma finished_mint_ids:
  assumes "plan_inv E book ds snap UNIV b"
  shows "map u_ID (pl_Mints (finished b)) = map u_ID (pl_Mints (pb_plan b))"
proof -
  have "length (pb_mintRefs b) = length (pl_Mints (pb_plan b))"
    using assms by (auto simp: plan_inv_def inv_minted_def dest: list_all2_lengthD)
  then show ?thesis unfolding finished_sel(1) [OF assms] by (induction rule: list_induct2) auto
qed

lemma finished_retire_ids:
  assumes "plan_inv E book ds snap UNIV b"
  shows "mset (map rt_ID (pl_Retires (finished b))) = mset (retired_ids b)"
proof -
  have "map rt_ID (pl_Retires (finished b)) = map u_ID (map rr_unit (final_refs b))"
    by (simp add: finished_sel [OF assms] retire_of_def)
  then show ?thesis
    using final_refs_units [OF assms] unfolding retired_ids_map by (simp only: mset_map)
qed

lemma inv_active_ids:
  assumes inv: "plan_inv E book ds snap UNIV b"
  shows "mset (map u_ID (map mp_active (pb_matchedPairs b)) @ retired_ids b) = mset (map u_ID (s_Active snap))"
proof -
  have "mset (map mp_active (pb_matchedPairs b) @ map rr_unit (pb_retireRefs b)) = mset (s_Active snap)"
    using inv by (simp add: plan_inv_def inv_retired_def inv_base_def)
  then show ?thesis unfolding retired_ids_map by (metis map_append mset_map)
qed

lemma retires_set: "plan_inv E book ds snap UNIV b \<Longrightarrow> rt_ID ` set (pl_Retires (finished b)) = set (retired_ids b)"
  using finished_retire_ids [of E book ds snap b] by (metis list.set_map set_mset_mset)

lemma plan_retired_active:
  assumes "plan_inv E book ds snap UNIV b"
  shows "rt_ID ` set (pl_Retires (finished b)) \<subseteq> u_ID ` set (s_Active snap)"
proof -
  have "set (map u_ID (map mp_active (pb_matchedPairs b)) @ retired_ids b) = set (map u_ID (s_Active snap))"
    using inv_active_ids [OF assms] by (metis set_mset_mset)
  then show ?thesis unfolding retires_set [OF assms] by (metis Un_upper2 list.set_map set_append)
qed

lemma active_after_eq:
  assumes inv: "plan_inv E book ds snap UNIV b" and ok: "snapshot_ok E snap"
  shows "active_after snap (finished b) =
      set (map u_ID (map mp_active (pb_matchedPairs b)) @ map u_ID (pl_Mints (pb_plan b)))"
    "distinct (map u_ID (map mp_active (pb_matchedPairs b)) @ map u_ID (pl_Mints (pb_plan b)))"
proof -
  let ?m = "map u_ID (map mp_active (pb_matchedPairs b))" and ?n = "map u_ID (pl_Mints (pb_plan b))"
  note ids = inv_active_ids [OF inv]
  have set_ids: "set ?m \<union> set (retired_ids b) = u_ID ` set (s_Active snap)"
    using ids by (metis list.set_map set_append set_mset_mset)
  have dist: "distinct (?m @ retired_ids b)"
    using ok ids unfolding snapshot_ok_def by (metis mset_eq_imp_distinct_iff)
  then have "u_ID ` set (s_Active snap) - set (retired_ids b) = set ?m"
    unfolding set_ids [symmetric] by auto
  then show "active_after snap (finished b) = set (?m @ ?n)"
    using finished_mint_ids [OF inv] unfolding active_after_def retires_set [OF inv]
    by (metis list.set_map set_append)
  have "set ?n \<inter> set (s_ExistingIDs snap) = {}" "distinct ?n"
    using inv by (auto simp: plan_inv_def inv_minted_def inv_base_def)
  moreover have "set ?m \<subseteq> set (s_ExistingIDs snap)"
  proof -
    have "u_ID ` set (s_Active snap) \<subseteq> set (s_ExistingIDs snap)" using ok by (auto simp: snapshot_ok_def)
    then show ?thesis unfolding set_ids [symmetric] by (rule subset_trans [OF Un_upper1])
  qed
  ultimately show "distinct (?m @ ?n)" using dist by auto
qed

lemma plan_active_card:
  assumes "plan_inv E book ds snap UNIV b" "snapshot_ok E snap"
  shows "card (active_after snap (finished b)) = length (pb_matchedPairs b) + length (pl_Mints (pb_plan b))"
  unfolding active_after_eq(1) [OF assms] distinct_card [OF active_after_eq(2) [OF assms]] by simp

section \<open>Collisions\<close>

definition derived_name :: "int \<Rightarrow> DerivedUnit \<Rightarrow> int \<Rightarrow> string" where
  "derived_name book d occ =
     (if d_ContentRole d = UnitContentRoleBookPage \<and> d_Language d = ''ar''
      then unit_name UnitCorpusKitab book (derived_scope d) (d_Kind d) (d_ContentHash d) occ
      else unit_name_v2 UnitCorpusKitab book (derived_scope d) (d_ContentRole d) (d_Language d)
             (d_Kind d) (d_ContentHash d) occ)"

lemma derivedUnitID_name: "derivedUnitID E book (derived_scope d) d occ = env_uuid5 E (derived_name book d occ)"
  by (simp add: derivedUnitID_def derived_name_def UnitID_def UnitIDV2_def)

definition probed_names :: "int \<Rightarrow> DerivedUnit list \<Rightarrow> UnitRegistrySnapshot \<Rightarrow> string set" where
  "probed_names book ds snap =
     (\<Union>d\<in>set ds. derived_name book d ` {1..int (2 * length ds + length (s_ExistingIDs snap))})"

definition plain_slot :: "DerivedUnit \<Rightarrow> bool" where
  "plain_slot d \<longleftrightarrow> no_bar (d_Kind d) \<and> no_bar (d_ContentRole d) \<and> no_bar (d_Language d)"

lemma derived_name_inject:
  assumes "plain_slot d"
  shows "derived_name book d m = derived_name book d n \<longleftrightarrow> m = n"
proof -
  have "no_bar UnitCorpusKitab" by (simp add: no_bar_def UnitCorpusKitab_def)
  with assms show ?thesis
    by (auto simp: derived_name_def plain_slot_def unit_name_inject unit_name_v2_inject)
qed

lemma collision_freeI:
  assumes "\<forall>d\<in>set ds. plain_slot d" "inj_on (env_uuid5 E) (probed_names book ds snap)"
  shows "collision_free E book ds snap"
  unfolding collision_free_def
proof (intro ballI inj_onI)
  fix d m n
  let ?I = "{1..int (2 * length ds + length (s_ExistingIDs snap))}"
  assume d: "d \<in> set ds" and mn: "m \<in> ?I" "n \<in> ?I"
    and "derivedUnitID E book (derived_scope d) d m = derivedUnitID E book (derived_scope d) d n"
  moreover have "derived_name book d m \<in> probed_names book ds snap"
    "derived_name book d n \<in> probed_names book ds snap"
    using d mn unfolding probed_names_def by blast+
  ultimately have "derived_name book d m = derived_name book d n"
    using assms(2) by (simp add: derivedUnitID_name inj_on_def)
  then show "m = n" using derived_name_inject assms(1) d by blast
qed

lemma normalize_parent_slot [simp]:
  "plain_slot (normalize_parent ds i) = plain_slot (ds ! i)"
  "derived_name book (normalize_parent ds i) occ = derived_name book (ds ! i) occ"
  by (simp_all add: plain_slot_def derived_name_def derived_scope_def)

lemma normalize_image:
  assumes "\<And>i. f (normalize_parent ds i) = f (ds ! i)"
  shows "f ` set (normalizeDerivedParentShapes ds) = f ` set ds"
proof -
  have "map f (normalizeDerivedParentShapes ds) = map f ds"
    by (rule nth_equalityI) (simp_all add: nth_normalize assms)
  then show ?thesis by (metis set_map)
qed

lemma normalize_slots:
  "(\<forall>d\<in>set (normalizeDerivedParentShapes ds). plain_slot d) = (\<forall>d\<in>set ds. plain_slot d)"
  "probed_names book (normalizeDerivedParentShapes ds) snap = probed_names book ds snap"
proof -
  show "(\<forall>d\<in>set (normalizeDerivedParentShapes ds). plain_slot d) = (\<forall>d\<in>set ds. plain_slot d)"
    using normalize_image [of plain_slot ds] by (metis (no_types, lifting) imageE imageI normalize_parent_slot(1))
  show "probed_names book (normalizeDerivedParentShapes ds) snap = probed_names book ds snap"
    unfolding probed_names_def
    using normalize_image [of "\<lambda>d. derived_name book d ` {1..int (2 * length ds + length (s_ExistingIDs snap))}" ds]
    by simp
qed

section \<open>A sample book\<close>

text \<open>A paragraph kept, a paragraph edited and a footnote under the new paragraph.\<close>

definition sample_env :: unit_env where
  "sample_env = \<lparr>env_sha256 = id, env_uuid5 = (\<lambda>x. ''u'' @ hashKey x), env_normalize = id\<rparr>"

definition sample_derived :: "string \<Rightarrow> string \<Rightarrow> string \<Rightarrow> int \<Rightarrow> int \<Rightarrow> DerivedUnit" where
  "sample_derived kind txt marker parent pos =
     \<lparr>d_HeadingID = Some 3, d_PageID = 1, d_Kind = kind, d_Text = txt, d_HTML = '''', d_Marker = marker,
      d_ParentIdx = parent, d_FootnoteLink = '''', d_ContentRole = ''book_page'', d_Language = ''ar'',
      d_ReviewStatus = ''approved'', d_SourceDocumentHash = ''h'', d_SourceCharStart = 0,
      d_SourceCharEnd = 1, d_ProvenanceClass = ''source'', d_GenerationRunID = None,
      d_EditActorID = '''', d_FormattingEditActorID = '''', d_ReleaseKey = '''',
      d_ContentHash = ContentHash sample_env kind marker txt, d_DocOrder = pos, d_ScopePosition = pos\<rparr>"

definition sample_book :: "DerivedUnit list" where
  "sample_book =
     [sample_derived ''paragraph'' ''a'' '''' (- 1) 0, sample_derived ''paragraph'' ''b'' '''' (- 1) 1,
      sample_derived ''footnote'' ''n'' ''1'' 1 2]"

definition sample_active :: "string \<Rightarrow> string \<Rightarrow> int \<Rightarrow> CitableUnit" where
  "sample_active i txt pos =
     (mintUnit sample_env 7 3 i (pos + 1) 1 (sample_derived ''paragraph'' txt '''' (- 1) pos))"

definition sample_snapshot :: UnitRegistrySnapshot where
  "sample_snapshot =
     \<lparr>s_Active = [sample_active ''x'' ''a'' 0, sample_active ''y'' ''c'' 1],
      s_MaxOrdinalByScope = (\<lambda>k. if k = 3 then 2 else 0), s_ExistingIDs = [''x'', ''y''],
      s_Fingerprint = \<lparr>f_ActiveCount = 2, f_MaxOrdinal = 2, f_MaxUpdatedAt = 0\<rparr>\<rparr>"

lemma sample_ok:
  "snapshot_ok sample_env sample_snapshot" "uuid_nonempty sample_env"
  "\<forall>d\<in>set sample_book. plain_slot d" "inj_on (env_uuid5 sample_env) A"
  by (simp_all add: snapshot_ok_def sample_snapshot_def sample_active_def uuid_nonempty_def
      sample_env_def sample_book_def sample_derived_def plain_slot_def no_bar_def inj_on_def hashKey_inject)

lemma sample_plan: "\<exists>plan. PlanBook sample_env 7 0 sample_book sample_snapshot = Some plan"
  by (rule PlanBook_total, rule collision_freeI)
    (simp_all add: normalize_slots sample_ok)

section \<open>Properties\<close>

text \<open>C34. The planner returns a plan for every book whose kinds, roles and languages hold no
  vertical bar, as long as UUIDv5 does not collide on the finitely many natural keys the
  occurrence probe of this run can reach.\<close>

theorem plan_returns:
  assumes "\<forall>d\<in>set derived. plain_slot d" "inj_on (env_uuid5 E) (probed_names book derived snap)"
  shows "\<exists>plan. PlanBook E book at derived snap = Some plan"
  using assms by (intro PlanBook_total collision_freeI) (simp_all add: normalize_slots)

theorem plan_returns_witness:
  "\<exists>plan. PlanBook sample_env 7 0 sample_book sample_snapshot = Some plan"
  using plan_returns [OF sample_ok(3,4)] by blast

text \<open>C10. The plan accounts for every unit: matched plus minted units are the derived units,
  matched plus retired units are the active ones, a unit is retired at most once and only if it
  was active, and the expected active count is the number of derived units. Each counter of the
  report is the length of its list: minted, updated, superseded and tombstoned retirements by their
  lifecycle, edit edges and the other edges by their reason.\<close>

theorem plan_accounting:
  assumes "PlanBook E book at derived snap = Some plan" "snapshot_ok E snap" "uuid_nonempty E"
  shows "rep_Matched (pl_Report plan) + int (length (pl_Mints plan)) = int (length derived) \<and>
    rep_Matched (pl_Report plan) + int (length (pl_Retires plan)) = int (length (s_Active snap)) \<and>
    distinct (map rt_ID (pl_Retires plan)) \<and>
    rt_ID ` set (pl_Retires plan) \<subseteq> u_ID ` set (s_Active snap) \<and>
    pl_ExpectedActive plan = int (length derived) \<and>
    pl_ExpectedActive plan = int (card (active_after snap plan)) \<and>
    rep_Minted (pl_Report plan) = int (length (pl_Mints plan)) \<and>
    rep_Updated (pl_Report plan) = int (length (pl_Updates plan)) \<and>
    rep_Superseded (pl_Report plan) =
      int (length (filter (\<lambda>r. rt_Lifecycle r = UnitLifecycleSuperseded) (pl_Retires plan))) \<and>
    rep_Tombstoned (pl_Report plan) =
      int (length (filter (\<lambda>r. rt_Lifecycle r = UnitLifecycleTombstoned) (pl_Retires plan))) \<and>
    rep_Superseded (pl_Report plan) + rep_Tombstoned (pl_Report plan) = int (length (pl_Retires plan)) \<and>
    rep_EditEdges (pl_Report plan) =
      int (length (filter (\<lambda>e. e_Reason e = UnitLineageReasonEdit) (pl_Edges plan))) \<and>
    rep_MoveEdges (pl_Report plan) =
      int (length (filter (\<lambda>e. e_Reason e \<noteq> UnitLineageReasonEdit) (pl_Edges plan))) \<and>
    rep_EditEdges (pl_Report plan) + rep_MoveEdges (pl_Report plan) = int (length (pl_Edges plan))"
proof -
  obtain b where inv: "plan_inv E book (normalizeDerivedParentShapes derived) snap UNIV b"
    and plan: "plan = finished b"
    by (rule PlanBook_finished [OF assms])
  note counts = inv_counts [OF inv] and sel = finished_sel [OF inv] and rep = finished_report [OF inv]
  have mints: "length (pl_Mints plan) = length (pb_mintRefs b)"
    using inv by (auto simp: plan sel plan_inv_def inv_minted_def dest: list_all2_lengthD)
  have ret: "mset (map rt_ID (pl_Retires plan)) = mset (retired_ids b)"
    using finished_retire_ids [OF inv] by (simp add: plan)
  have ret_len: "length (pl_Retires plan) = length (pb_retireRefs b)"
    using arg_cong [OF ret, of size] by simp
  have ret_dist: "distinct (map rt_ID (pl_Retires plan))"
    using inv by (simp add: plan_inv_def inv_retired_def lineage_inv_def mset_eq_imp_distinct_iff [OF ret])
  have ret_set: "rt_ID ` set (pl_Retires plan) \<subseteq> u_ID ` set (s_Active snap)"
    using plan_retired_active [OF inv] by (simp add: plan)
  have card: "card (active_after snap plan) = length (pb_matchedPairs b) + length (pb_mintRefs b)"
    using plan_active_card [OF inv assms(2)] inv
    by (auto simp: plan plan_inv_def inv_minted_def dest: list_all2_lengthD)
  have lifecycles: "rep_Superseded (pl_Report plan) + rep_Tombstoned (pl_Report plan) =
      int (length (pl_Retires plan))"
    using sum_length_filter_compl [of rr_hasEdge "final_refs b"] by (simp add: plan rep sel)
  have edges: "rep_EditEdges (pl_Report plan) + rep_MoveEdges (pl_Report plan) = int (length (pl_Edges plan))"
    using sum_length_filter_compl [of "\<lambda>e. e_Reason e = UnitLineageReasonEdit" "pl_Edges plan"]
    by (simp add: plan rep)
  have "(\<lambda>r. rt_Lifecycle (retire_of r) = UnitLifecycleSuperseded) = rr_hasEdge"
    "(\<lambda>r. rt_Lifecycle (retire_of r) = UnitLifecycleTombstoned) = (\<lambda>r. \<not> rr_hasEdge r)"
    by (rule ext, simp add: retire_of_def UnitLifecycleSuperseded_def UnitLifecycleTombstoned_def)+
  then have fates: "rep_Superseded (pl_Report plan) =
      int (length (filter (\<lambda>r. rt_Lifecycle r = UnitLifecycleSuperseded) (pl_Retires plan)))"
    "rep_Tombstoned (pl_Report plan) =
      int (length (filter (\<lambda>r. rt_Lifecycle r = UnitLifecycleTombstoned) (pl_Retires plan)))"
    by (simp_all add: plan rep(4,5) sel(3) filter_map comp_def)
  have exp: "pl_ExpectedActive plan = int (length derived)" using counts(1) by (simp add: plan sel)
  have "rep_Matched (pl_Report plan) = int (length (pb_matchedPairs b))" by (simp add: plan rep)
  then show ?thesis
    using counts mints ret_len ret_dist ret_set card lifecycles edges exp fates
      rep(2,3,6,7) [folded plan] by (intro conjI) simp_all
qed

theorem plan_accounting_witness:
  "\<exists>plan. PlanBook sample_env 7 0 sample_book sample_snapshot = Some plan \<and>
     pl_ExpectedActive plan = 3 \<and> rep_Matched (pl_Report plan) + int (length (pl_Retires plan)) = 2 \<and>
     card (active_after sample_snapshot plan) = 3"
proof -
  obtain plan where p: "PlanBook sample_env 7 0 sample_book sample_snapshot = Some plan"
    using sample_plan by blast
  show ?thesis
    using plan_accounting [OF p sample_ok(1,2)] p
    by (auto simp: sample_book_def sample_snapshot_def)
qed

lemma AnchorFor_join:
  "AnchorFor book k n = join_char (CHR ''/'') [''kitab'', show_int book, ''h'', show_int k, ''u'', show_int n]"
  by (simp add: AnchorFor_def)

lemma slash_absent: "CHR ''/'' \<notin> set (show_int i)"
  by (auto simp: show_int_def is_digit_def byte_def split: if_splits dest!: show_nat_digits)

lemma AnchorFor_inject: "AnchorFor book k n = AnchorFor book k' n' \<longleftrightarrow> k = k' \<and> n = n'"
proof
  assume eq: "AnchorFor book k n = AnchorFor book k' n'"
  have split: "split_char (CHR ''/'') (AnchorFor book i j) =
      [''kitab'', show_int book, ''h'', show_int i, ''u'', show_int j]" for i j
    unfolding AnchorFor_join by (rule split_join_char) (simp_all add: slash_absent)
  have "split_char (CHR ''/'') (AnchorFor book k n) = split_char (CHR ''/'') (AnchorFor book k' n')"
    by (rule arg_cong [OF eq])
  then show "k = k' \<and> n = n'" unfolding split by (simp add: show_int_inject)
qed simp

lemma finished_mint:
  assumes "plan_inv E book ds snap UNIV b" "u \<in> set (pl_Mints (finished b))"
  obtains r v where "r \<in> set (pb_mintRefs b)" "v \<in> set (pl_Mints (pb_plan b))" "minted_from E b r v"
    "u = with_parent ds (pb_unitIDs b) r v"
proof -
  have all: "list_all2 (\<lambda>r v. minted_from E b r v \<and> pb_unitIDs b ! mr_derivedIdx r = u_ID v)
      (pb_mintRefs b) (pl_Mints (pb_plan b))"
    using assms(1) by (simp add: plan_inv_def inv_minted_def)
  from assms(2) obtain r v where rv: "(r, v) \<in> set (zip (pb_mintRefs b) (pl_Mints (pb_plan b)))"
      "u = with_parent ds (pb_unitIDs b) r v"
    by (auto simp: finished_sel [OF assms(1)])
  show thesis
  proof (rule that [of r v])
    show "r \<in> set (pb_mintRefs b)" "v \<in> set (pl_Mints (pb_plan b))"
      using rv(1) by (auto dest: set_zip_leftD set_zip_rightD)
    show "minted_from E b r v" using all rv(1) by (auto simp: list_all2_iff)
  qed (rule rv(2))
qed

text \<open>C16. Minted units are new: their identifiers are pairwise distinct and no registry row,
  active or retired, ever had one; their ordinals lie above the scope's high-water mark, so
  their anchors, which are the scope's canonical unit anchors, are pairwise distinct too.\<close>

theorem plan_mints_fresh:
  assumes "PlanBook E book at derived snap = Some plan" "snapshot_ok E snap" "uuid_nonempty E"
  shows "distinct (map u_ID (pl_Mints plan)) \<and> distinct (map u_Anchor (pl_Mints plan)) \<and>
    (\<forall>u\<in>set (pl_Mints plan). u_ID u \<notin> set (s_ExistingIDs snap) \<and>
       s_MaxOrdinalByScope snap (unit_scope u) < u_Ordinal u \<and>
       u_Anchor u = AnchorFor book (unit_scope u) (u_Ordinal u) \<and>
       u_Lifecycle u = UnitLifecycleActive)"
proof -
  obtain b where inv: "plan_inv E book (normalizeDerivedParentShapes derived) snap UNIV b"
    and plan: "plan = finished b"
    by (rule PlanBook_finished [OF assms])
  have base: "pb_bookID b = book" "pb_snap b = snap" and m: "inv_minted E b"
    using inv by (simp_all add: plan_inv_def inv_base_def)
  have len: "length (pb_mintRefs b) = length (pl_Mints (pb_plan b))"
    using m by (auto simp: inv_minted_def dest: list_all2_lengthD)
  have fields: "s_MaxOrdinalByScope snap (unit_scope u) < u_Ordinal u \<and>
      u_Anchor u = AnchorFor book (unit_scope u) (u_Ordinal u) \<and> u_Lifecycle u = UnitLifecycleActive"
    if u: "u \<in> set (pl_Mints plan)" for u
    by (rule finished_mint [OF inv u [unfolded plan]]) (auto simp: minted_from_def base Let_def)
  have ids: "map u_ID (pl_Mints plan) = map u_ID (pl_Mints (pb_plan b))"
    using finished_mint_ids [OF inv] by (simp add: plan)
  have "map (\<lambda>u. (unit_scope u, u_Ordinal u)) (pl_Mints plan) =
      map (\<lambda>u. (unit_scope u, u_Ordinal u)) (pl_Mints (pb_plan b))"
    unfolding plan finished_sel(1) [OF inv] using len by (induction rule: list_induct2) auto
  then have "distinct (map (\<lambda>u. (unit_scope u, u_Ordinal u)) (pl_Mints plan))"
    using m by (simp add: inv_minted_def)
  then have "distinct (map u_Anchor (pl_Mints plan))"
    using fields by (auto simp: distinct_map inj_on_def AnchorFor_inject)
  moreover have "u_ID ` set (pl_Mints plan) = u_ID ` set (pl_Mints (pb_plan b))"
    using ids by (metis list.set_map)
  moreover have "u_ID ` set (pl_Mints (pb_plan b)) \<inter> set (s_ExistingIDs snap) = {}"
    "distinct (map u_ID (pl_Mints plan))"
    using m by (simp_all add: inv_minted_def base ids)
  ultimately show ?thesis using fields by blast
qed

theorem plan_mints_fresh_witness:
  "\<exists>plan. PlanBook sample_env 7 0 sample_book sample_snapshot = Some plan \<and>
     distinct (map u_Anchor (pl_Mints plan)) \<and>
     (\<forall>u\<in>set (pl_Mints plan). u_ID u \<noteq> ''x'' \<and> u_ID u \<noteq> ''y'')"
proof -
  obtain plan where p: "PlanBook sample_env 7 0 sample_book sample_snapshot = Some plan"
    using sample_plan by blast
  show ?thesis
    using plan_mints_fresh [OF p sample_ok(1,2)] p by (auto simp: sample_snapshot_def)
qed

lemma rescue_targets_minted:
  assumes "plan_inv E book ds snap UNIV b"
    and "s \<in> set (rescue_targets (stageUpdates (resolveFootnoteParents b)) k)"
  shows "s \<in> u_ID ` set (pl_Mints (finished b))"
proof -
  have ms: "pl_Mints (pb_plan (resolveFootnoteParents b)) = pl_Mints (finished b)"
    using assms(1) resolve_mints [of E b] by (simp add: finished_sel [OF assms(1)] plan_inv_def inv_base_def)
  from assms(2) obtain r where r: "r \<in> set (pb_mintRefs b)" "s = u_ID (pl_Mints (finished b) ! mr_planIdx r)"
    by (auto simp: rescue_targets_def ms)
  have idx: "map mr_planIdx (pb_mintRefs b) = [0..<length (pl_Mints (pb_plan b))]"
    using assms(1) by (simp add: plan_inv_def inv_minted_def)
  have "mr_planIdx r \<in> set (map mr_planIdx (pb_mintRefs b))" using r(1) by simp
  then have "mr_planIdx r < length (pl_Mints (finished b))"
    using finished_mint_ids [OF assms(1)] unfolding idx by (metis atLeastLessThan_iff length_map set_upt)
  then show ?thesis using r(2) by simp
qed

lemma finished_edges:
  assumes inv: "plan_inv E book ds snap UNIV b" and ok: "snapshot_ok E snap"
    and e: "e \<in> set (pl_Edges (finished b))"
  shows "e_PredecessorID e \<in> rt_ID ` set (pl_Retires (finished b)) \<and>
    e_SuccessorID e \<in> active_after snap (finished b)"
proof -
  have m: "u_ID ` set (pl_Mints (finished b)) = u_ID ` set (pl_Mints (pb_plan b))"
    using finished_mint_ids [OF inv] by (metis list.set_map)
  note after = active_after_eq(1) [OF inv ok]
  from e consider (edit) "e \<in> set (pl_Edges (pb_plan b))" | (move) "e \<in> set (final_moves b)"
    by (auto simp: finished_sel [OF inv])
  then show ?thesis
  proof cases
    case edit
    then have "e_PredecessorID e \<in> set (retired_ids b)" "e_SuccessorID e \<in> u_ID ` set (pl_Mints (pb_plan b))"
      using inv by (simp_all add: plan_inv_def inv_retired_def lineage_inv_def)
    then show ?thesis unfolding after retires_set [OF inv] by simp
  next
    case move
    then have "rescue_edge (pb_activeTwins b) (rescue_targets (stageUpdates (resolveFootnoteParents b)))
        (pb_retireRefs b) e"
      using final_refs_spec(2) [OF inv] by blast
    from rescue_edge_pred [OF this] have pred: "e_PredecessorID e \<in> rt_ID ` set (pl_Retires (finished b))"
      by (simp add: retires_set [OF inv] retired_ids_def ref_ids_def)
    from move obtain k where "e_SuccessorID e \<in> set (rescue_targets (stageUpdates (resolveFootnoteParents b)) k) \<or>
        (\<exists>s. \<exists>t\<in>set (pb_activeTwins b s k). e_SuccessorID e = u_ID t)"
      using final_refs_spec(2) [OF inv] unfolding rescue_edge_def by blast
    then have "e_SuccessorID e \<in> active_after snap (finished b)"
    proof (elim disjE exE bexE)
      assume "e_SuccessorID e \<in> set (rescue_targets (stageUpdates (resolveFootnoteParents b)) k)"
      then show ?thesis using rescue_targets_minted [OF inv] by (simp add: active_after_def)
    next
      fix s t assume "t \<in> set (pb_activeTwins b s k)" "e_SuccessorID e = u_ID t"
      moreover from this have "t \<in> mp_active ` set (pb_matchedPairs b)"
        using inv unfolding plan_inv_def inv_matched_def by blast
      ultimately show ?thesis unfolding after by auto
    qed
    with pred show ?thesis by blast
  qed
qed

lemma finished_lifecycle:
  assumes inv: "plan_inv E book ds snap UNIV b" and r: "r \<in> set (pl_Retires (finished b))"
  shows "rt_Lifecycle r = (if \<exists>e\<in>set (pl_Edges (finished b)). e_PredecessorID e = rt_ID r
    then UnitLifecycleSuperseded else UnitLifecycleTombstoned)"
proof -
  from r obtain q' where q': "q' \<in> set (final_refs b)" "r = retire_of q'"
    by (auto simp: finished_sel [OF inv])
  from list_all2_right [OF final_refs_spec(1) [OF inv] q'(1)] obtain q where
    q: "q \<in> set (pb_retireRefs b)" "flagged (final_moves b) q q'" by auto
  have "rr_hasEdge q = (\<exists>e\<in>set (pl_Edges (pb_plan b)). e_PredecessorID e = u_ID (rr_unit q))"
    using inv q(1) by (simp add: plan_inv_def inv_retired_def lineage_inv_def)
  then have "rr_hasEdge q' = (\<exists>e\<in>set (pl_Edges (finished b)). e_PredecessorID e = u_ID (rr_unit q'))"
    using q(2) by (auto simp: flagged_def finished_sel [OF inv])
  then show ?thesis by (simp add: q'(2) retire_of_def)
qed

text \<open>C1. Lineage and lifecycle agree: a retired unit is superseded exactly when the plan draws
  an edge from it and tombstoned otherwise; every edge leads from a unit this plan retires to a
  unit that is active after it, so following an edge never ends at a unit the plan retires.\<close>

theorem plan_lineage_sound:
  assumes "PlanBook E book at derived snap = Some plan" "snapshot_ok E snap" "uuid_nonempty E"
  shows "(\<forall>r\<in>set (pl_Retires plan). rt_Lifecycle r =
       (if \<exists>e\<in>set (pl_Edges plan). e_PredecessorID e = rt_ID r
        then UnitLifecycleSuperseded else UnitLifecycleTombstoned)) \<and>
    (\<forall>e\<in>set (pl_Edges plan). e_PredecessorID e \<in> rt_ID ` set (pl_Retires plan) \<and>
       e_SuccessorID e \<in> active_after snap plan) \<and>
    rt_ID ` set (pl_Retires plan) \<inter> active_after snap plan = {}"
proof -
  obtain b where inv: "plan_inv E book (normalizeDerivedParentShapes derived) snap UNIV b"
    and plan: "plan = finished b"
    by (rule PlanBook_finished [OF assms])
  have "u_ID ` set (pl_Mints plan) \<inter> set (s_ExistingIDs snap) = {}"
  proof -
    have "u_ID ` set (pl_Mints plan) = u_ID ` set (pl_Mints (pb_plan b))"
      using finished_mint_ids [OF inv] unfolding plan by (metis list.set_map)
    then show ?thesis using inv by (auto simp: plan_inv_def inv_base_def inv_minted_def)
  qed
  moreover have "rt_ID ` set (pl_Retires plan) \<subseteq> set (s_ExistingIDs snap)"
    using plan_retired_active [OF inv] assms(2) by (auto simp: plan snapshot_ok_def)
  ultimately have "rt_ID ` set (pl_Retires plan) \<inter> active_after snap plan = {}"
    by (auto simp: active_after_def)
  then show ?thesis
    using finished_lifecycle [OF inv] finished_edges [OF inv assms(2)] by (simp add: plan)
qed

theorem plan_lineage_sound_witness:
  "\<exists>plan. PlanBook sample_env 7 0 sample_book sample_snapshot = Some plan \<and>
     (\<forall>e\<in>set (pl_Edges plan). e_SuccessorID e \<in> active_after sample_snapshot plan)"
proof -
  obtain plan where p: "PlanBook sample_env 7 0 sample_book sample_snapshot = Some plan"
    using sample_plan by blast
  show ?thesis using plan_lineage_sound [OF p sample_ok(1,2)] p by blast
qed

lemma inv_id_active:
  assumes inv: "plan_inv E book ds snap UNIV b" and ok: "snapshot_ok E snap" and i: "i < length ds"
  shows "pb_unitIDs b ! i \<in> active_after snap (finished b)"
proof -
  have "mset (map mp_derivedIdx (pb_matchedPairs b) @ map mr_derivedIdx (pb_mintRefs b)) = mset [0..<length ds]"
    using inv by (simp add: plan_inv_def inv_index_def inv_base_def scope_part_def)
  then have "set (map mp_derivedIdx (pb_matchedPairs b) @ map mr_derivedIdx (pb_mintRefs b)) = set [0..<length ds]"
    by (metis set_mset_mset)
  then have "i \<in> set (map mp_derivedIdx (pb_matchedPairs b) @ map mr_derivedIdx (pb_mintRefs b))"
    using i by (simp only: set_upt atLeastLessThan_iff le0 simp_thms)
  then consider (m) p where "p \<in> set (pb_matchedPairs b)" "i = mp_derivedIdx p"
    | (n) r where "r \<in> set (pb_mintRefs b)" "i = mr_derivedIdx r" by auto
  then show ?thesis
  proof cases
    case m
    then have "pb_unitIDs b ! i = u_ID (mp_active p)" using inv by (simp add: plan_inv_def inv_matched_def)
    with m(1) show ?thesis unfolding active_after_eq(1) [OF inv ok] by auto
  next
    case n
    have "list_all2 (\<lambda>r v. minted_from E b r v \<and> pb_unitIDs b ! mr_derivedIdx r = u_ID v)
        (pb_mintRefs b) (pl_Mints (pb_plan b))"
      using inv by (simp add: plan_inv_def inv_minted_def)
    from list_all2_left [OF this n(1)] n(2) show ?thesis
      unfolding active_after_eq(1) [OF inv ok] by auto
  qed
qed

lemma want_parent_active:
  assumes inv: "plan_inv E book (normalizeDerivedParentShapes derived) snap UNIV b" and ok: "snapshot_ok E snap"
    and i: "i < length derived"
    and w: "want_parent (normalizeDerivedParentShapes derived ! i) (pb_unitIDs b) = Some p"
  shows "p \<in> active_after snap (finished b)"
proof -
  let ?ds = "normalizeDerivedParentShapes derived"
  have p: "0 \<le> d_ParentIdx (?ds ! i)" "p = pb_unitIDs b ! nat (d_ParentIdx (?ds ! i))"
    using w by (auto simp: want_parent_def split: if_splits)
  then have "derivedParentValid ?ds i"
    using normalize_shape_ok [OF i] by (auto simp: parent_shape_ok_def Let_def split: if_splits)
  then have "d_ParentIdx (?ds ! i) < int (length ?ds)"
    by (simp add: derivedParentValid_def Let_def split: if_splits)
  then show ?thesis
    using p inv_id_active [OF inv ok, of "nat (d_ParentIdx (?ds ! i))"] by (simp add: nat_less_iff)
qed

lemma staged_parents:
  assumes "up \<in> set (staged ds ids ps)"
  shows "\<exists>p\<in>set ps. up = stage_update (mp_active p) (ds ! mp_derivedIdx p) (want_parent (ds ! mp_derivedIdx p) ids)"
  using assms by (induction ps) (auto simp: Let_def split: if_splits)

text \<open>C38. Every parent link the plan writes, on a minted unit or by an update of a matched one,
  names a unit that is active after the plan, and only footnotes get one: a minted unit with a
  parent is a footnote or a marked quotation of the Quran, and an update with a parent places a
  derived unit of that shape. Body units never get a parent.\<close>

theorem plan_parents_active:
  assumes "PlanBook E book at derived snap = Some plan" "snapshot_ok E snap" "uuid_nonempty E"
  shows "(\<forall>u\<in>set (pl_Mints plan). \<forall>p. u_ParentUnitID u = Some p \<longrightarrow> p \<in> active_after snap plan \<and>
      (u_Kind u = UnitKindFootnote \<or> u_Kind u = UnitKindQuranQuote \<and> u_Marker u \<noteq> None)) \<and>
    (\<forall>up\<in>set (pl_Updates plan). \<forall>p. up_ParentUnitID up = Some p \<longrightarrow> p \<in> active_after snap plan \<and>
      (\<exists>d\<in>set derived. derivedRequiresParent d \<and> up_Position up = d_ScopePosition d \<and>
        up_PageID up = Some (d_PageID d))) \<and>
    (\<forall>up\<in>set (pl_Updates plan). up_FootnoteLink up = None \<longrightarrow> up_ParentUnitID up = None)"
proof -
  let ?ds = "normalizeDerivedParentShapes derived"
  obtain b where inv: "plan_inv E book ?ds snap UNIV b" and plan: "plan = finished b"
    by (rule PlanBook_finished [OF assms])
  have base: "pb_derived b = ?ds" and idx: "inv_index UNIV b"
    using inv by (simp_all add: plan_inv_def inv_base_def)
  have shape: "derivedRequiresParent (?ds ! i)" if "i < length derived" "want_parent (?ds ! i) ids = Some p" for i ids p
    using normalize_shape_ok [OF that(1)] that(2)
    by (auto simp: parent_shape_ok_def want_parent_def Let_def split: if_splits)
  have mint: "p \<in> active_after snap plan \<and>
      (u_Kind u = UnitKindFootnote \<or> u_Kind u = UnitKindQuranQuote \<and> u_Marker u \<noteq> None)"
    if u: "u \<in> set (pl_Mints plan)" "u_ParentUnitID u = Some p" for u p
  proof (rule finished_mint [OF inv u(1) [unfolded plan]])
    fix r v assume r: "r \<in> set (pb_mintRefs b)" "minted_from E b r v" "u = with_parent ?ds (pb_unitIDs b) r v"
    let ?d = "?ds ! mr_derivedIdx r"
    have v: "u_ParentUnitID v = None" "u_Kind v = d_Kind ?d" "u_Marker v = (if d_Marker ?d \<noteq> '''' then Some (d_Marker ?d) else None)"
      using r(2) by (auto simp: minted_from_def mintUnit_def Let_def base)
    then have w: "want_parent ?d (pb_unitIDs b) = Some p"
      using r(3) u(2) by (auto simp: with_parent_def split: option.splits)
    moreover have i: "mr_derivedIdx r < length derived"
      using inv_index_bounds(1) [OF idx, of "mr_derivedIdx r"] r(1) by (simp add: base)
    ultimately have "p \<in> active_after snap plan" using want_parent_active [OF inv assms(2)] by (simp add: plan)
    moreover have "u_Kind u = UnitKindFootnote \<or> u_Kind u = UnitKindQuranQuote \<and> u_Marker u \<noteq> None"
      using shape [OF i w] v w by (auto simp: r(3) with_parent_def derivedRequiresParent_def)
    ultimately show ?thesis by blast
  qed
  have upd: "\<forall>p. up_ParentUnitID up = Some p \<longrightarrow> p \<in> active_after snap plan \<and>
      (\<exists>d\<in>set derived. derivedRequiresParent d \<and> up_Position up = d_ScopePosition d \<and>
        up_PageID up = Some (d_PageID d))"
    "up_FootnoteLink up = None \<longrightarrow> up_ParentUnitID up = None"
    if up: "up \<in> set (pl_Updates plan)" for up
  proof -
    from up staged_parents obtain q where q: "q \<in> set (pb_matchedPairs b)"
      "up = stage_update (mp_active q) (?ds ! mp_derivedIdx q) (want_parent (?ds ! mp_derivedIdx q) (pb_unitIDs b))"
      unfolding plan finished_sel [OF inv] by blast
    have i: "mp_derivedIdx q < length derived"
      using inv_index_bounds(1) [OF idx, of "mp_derivedIdx q"] q(1) by (simp add: base)
    have orig: "derivedRequiresParent (derived ! mp_derivedIdx q) = derivedRequiresParent (?ds ! mp_derivedIdx q)"
      "d_ScopePosition (derived ! mp_derivedIdx q) = d_ScopePosition (?ds ! mp_derivedIdx q)"
      "d_PageID (derived ! mp_derivedIdx q) = d_PageID (?ds ! mp_derivedIdx q)"
      using i by (simp_all add: nth_normalize normalize_parent_def derivedRequiresParent_def Let_def)
    show "\<forall>p. up_ParentUnitID up = Some p \<longrightarrow> p \<in> active_after snap plan \<and>
      (\<exists>d\<in>set derived. derivedRequiresParent d \<and> up_Position up = d_ScopePosition d \<and>
        up_PageID up = Some (d_PageID d))"
      using want_parent_active [OF inv assms(2) i] shape [OF i] nth_mem [OF i] orig
      by (fastforce simp: q(2) stage_update_def plan)
    show "up_FootnoteLink up = None \<longrightarrow> up_ParentUnitID up = None"
      using normalize_shape_ok [OF i]
      by (auto simp: q(2) stage_update_def isDerivedFootnote_def parent_shape_ok_def want_parent_def
          Let_def split: if_splits)
  qed
  show ?thesis using mint upd by blast
qed

theorem plan_parents_active_witness:
  "\<exists>plan. PlanBook sample_env 7 0 sample_book sample_snapshot = Some plan \<and>
     (\<forall>u\<in>set (pl_Mints plan). \<forall>p. u_ParentUnitID u = Some p \<longrightarrow> p \<in> active_after sample_snapshot plan)"
proof -
  obtain plan where p: "PlanBook sample_env 7 0 sample_book sample_snapshot = Some plan"
    using sample_plan by blast
  show ?thesis using plan_parents_active [OF p sample_ok(1,2)] p by blast
qed

section \<open>Matching, anchors and gaps\<close>

text \<open>Rank matching: for every match key the k-th derived unit of the scope with that key is
  paired with the k-th active unit with it, and the derived units left over are exactly those
  without a pair, in document order.\<close>

theorem match_by_rank:
  "case matchScope k (derived_of_scope (pb_derived b) k) actives b of (pairs, unmatched, b') \<Rightarrow>
     map (\<lambda>p. (mp_derivedIdx p, mp_active p))
         (filter (\<lambda>p. derived_key (pb_derived b ! mp_derivedIdx p) = key) pairs) =
       zip (filter (\<lambda>i. derived_key (pb_derived b ! i) = key) (derived_of_scope (pb_derived b) k))
           (filter (\<lambda>u. unit_key u = key) actives) \<and>
     unmatched = filter (\<lambda>i. i \<notin> mp_derivedIdx ` set pairs) (derived_of_scope (pb_derived b) k)"
proof -
  obtain ps un b' where m: "matchScope k (derived_of_scope (pb_derived b) k) actives b = (ps, un, b')"
    by (metis prod_cases3)
  note run = m [unfolded matchScope_def]
  show ?thesis
    using match_loop_indices [OF run] unfolding m prod.case match_loop_rank [OF run]
    by (simp add: o_def queues_of_def)
qed

text \<open>The anchors that bound the lineage gaps are a longest subsequence of the matched pairs
  with strictly increasing registry positions, and the routine always returns one.\<close>

theorem anchors_longest_increasing:
  "\<exists>anchors. longestIncreasingByActivePos pairs = Some anchors \<and> subseq anchors pairs \<and>
     sorted_wrt (\<lambda>p q. u_Position (mp_active p) < u_Position (mp_active q)) anchors \<and>
     (\<forall>other. subseq other pairs \<and>
        sorted_wrt (\<lambda>p q. u_Position (mp_active p) < u_Position (mp_active q)) other \<longrightarrow>
        length other \<le> length anchors)"
proof -
  let ?pos = "map (\<lambda>p. u_Position (mp_active p)) pairs"
  obtain s where s: "lis_indices ?pos = Some s" "inc_seq ?pos (length pairs) s"
    "\<And>t. inc_seq ?pos (length pairs) t \<Longrightarrow> length t \<le> length s"
    using lis_indices_spec [of ?pos] by auto
  have wrt: "sorted_wrt (\<lambda>p q. u_Position (mp_active p) < u_Position (mp_active q)) (map ((!) pairs) t) =
      sorted_wrt (\<lambda>i j. ?pos ! i < ?pos ! j) t" if "\<forall>i\<in>set t. i < length pairs" for t
    using that by (auto simp: sorted_wrt_map intro!: sorted_wrt_mono_rel [where xs = t] elim!: sorted_wrt_mono_rel [rotated])
  have bound: "length other \<le> length s" if o: "subseq other pairs"
    "sorted_wrt (\<lambda>p q. u_Position (mp_active p) < u_Position (mp_active q)) other" for other
  proof -
    from subseq_indices [OF o(1)] obtain t where t: "sorted_wrt (<) t" "\<forall>i\<in>set t. i < length pairs"
      "other = map ((!) pairs) t" by blast
    then have "inc_seq ?pos (length pairs) t" using o(2) wrt [of t] by (simp add: inc_seq_def)
    then show ?thesis using s(3) t(3) by simp
  qed
  have "\<forall>i\<in>set s. i < length pairs" "sorted_wrt (<) s" using s(2) by (simp_all add: inc_seq_def)
  then show ?thesis
    using s bound wrt [of s] indices_subseq [of s pairs]
    by (intro exI [of _ "map ((!) pairs) s"]) (simp add: longestIncreasingByActivePos_def inc_seq_def)
qed

theorem anchors_longest_increasing_witness:
  "\<exists>anchors. longestIncreasingByActivePos
     [\<lparr>mp_derivedIdx = 0, mp_active = sample_active ''x'' ''a'' 5\<rparr>,
      \<lparr>mp_derivedIdx = 1, mp_active = sample_active ''y'' ''c'' 2\<rparr>] = Some anchors \<and> length anchors \<le> 2"
  using anchors_longest_increasing
    [of "[\<lparr>mp_derivedIdx = 0, mp_active = sample_active ''x'' ''a'' 5\<rparr>,
      \<lparr>mp_derivedIdx = 1, mp_active = sample_active ''y'' ''c'' 2\<rparr>]"]
  by (force dest: list_emb_length)

text \<open>One gap draws at most 32 edit edges or one per removed unit, whichever is more, and no
  fewer than one for each removed unit once the gap has an addition; without additions it draws
  none. Every edge leads from a removed unit to the identifier of an added one.\<close>

theorem gap_edges_capped:
  "\<exists>es. pl_Edges (pb_plan (lineage_gap k removed added b)) = pl_Edges (pb_plan b) @ es \<and>
     length es \<le> max gapEdgeCap (length removed) \<and>
     e_PredecessorID ` set es = (if added = [] then {} else u_ID ` set removed) \<and>
     e_SuccessorID ` set es \<subseteq> (\<lambda>di. pb_unitIDs b ! di) ` set added"
proof -
  let ?es = "map (edit_lineage (pb_unitIDs b)) (gap_edges removed added)"
  have "e_PredecessorID ` set ?es = u_ID ` fst ` set (gap_edges removed added)"
    by (simp add: edit_lineage_def image_image)
  moreover have "e_SuccessorID ` set ?es \<subseteq> (\<lambda>di. pb_unitIDs b ! di) ` set added"
    using gap_edges_removed by (fastforce simp: edit_lineage_def)
  moreover have "fst ` set (gap_edges removed added) = (if added = [] then {} else set removed)"
    using gap_edges_cover [of added removed] by (simp add: gap_edges_def)
  ultimately show ?thesis
    using gap_edges_bound [of removed added] lineage_gap_edges [of k removed added b]
    by (intro exI [of _ ?es]) auto
qed

end
