(* ===== verification/Unit_History.thy ===== *)
theory Unit_History
  imports Unit_Plan
begin

text \<open>
  \<open>internal/usecase/unitregistry/historical.go\<close>: the registry snapshot after a plan
  (\<open>snapshotAfterPlan\<close>) and the raw historical units attached to an effective plan
  (\<open>attachRawHistoricalUnits\<close>).

  The Go map from identifiers to units is a list of units in insertion order: a write to a known
  identifier replaces that unit, a write to a new one appends. The code sorts the values of the
  map by scope, position and ordinal, which leaves the order of units that agree on all three
  open; the model keeps their insertion order.
\<close>

section \<open>The snapshot after a plan\<close>

definition put_unit :: "CitableUnit \<Rightarrow> CitableUnit list \<Rightarrow> CitableUnit list" where
  "put_unit u us =
     (if list_ex (\<lambda>v. u_ID v = u_ID u) us then map (\<lambda>v. if u_ID v = u_ID u then u else v) us
      else us @ [u])"

definition apply_update :: "UnitPlanUpdate \<Rightarrow> CitableUnit \<Rightarrow> CitableUnit" where
  "apply_update up u =
     u\<lparr>u_Position := up_Position up, u_PageID := up_PageID up,
       u_ParentUnitID := up_ParentUnitID up, u_HTML := up_HTML up,
       u_ReviewStatus := up_ReviewStatus up, u_ProvenanceDetail := up_ProvenanceDetail up,
       u_SourceDocumentHash := up_SourceDocumentHash up,
       u_SourceCharStart := up_SourceCharStart up, u_SourceCharEnd := up_SourceCharEnd up\<rparr>"

definition update_active :: "UnitPlanUpdate \<Rightarrow> CitableUnit list \<Rightarrow> CitableUnit list" where
  "update_active up us = map (\<lambda>v. if u_ID v = up_ID up then apply_update up v else v) us"

definition retire_active :: "UnitPlanRetire \<Rightarrow> CitableUnit list \<Rightarrow> CitableUnit list" where
  "retire_active r us = filter (\<lambda>v. u_ID v \<noteq> rt_ID r) us"

definition raise_ordinal :: "CitableUnit \<Rightarrow> (int \<Rightarrow> int) \<Rightarrow> int \<Rightarrow> int" where
  "raise_ordinal u m =
     (if m (unit_scope u) < u_Ordinal u then m(unit_scope u := u_Ordinal u) else m)"

definition active_order :: "CitableUnit \<Rightarrow> int \<times> int \<times> int" where
  "active_order u = (unit_scope u, u_Position u, u_Ordinal u)"

definition snapshotAfterPlan :: "UnitRegistrySnapshot \<Rightarrow> UnitReconcilePlan \<Rightarrow> UnitRegistrySnapshot" where
  "snapshotAfterPlan snap plan =
     (let a0 = fold put_unit (s_Active snap) [];
          a1 = fold update_active (pl_Updates plan) a0;
          a2 = fold retire_active (pl_Retires plan) a1;
          a3 = fold put_unit (pl_Mints plan) a2
      in \<lparr>s_Active = sort_key active_order a3,
          s_MaxOrdinalByScope = fold raise_ordinal (pl_Mints plan) (s_MaxOrdinalByScope snap),
          s_ExistingIDs = s_ExistingIDs snap @ map u_ID (pl_Mints plan),
          s_Fingerprint = \<lparr>f_ActiveCount = 0, f_MaxOrdinal = 0, f_MaxUpdatedAt = 0\<rparr>\<rparr>)"

section \<open>Raw historical units\<close>

definition raw_unit :: "CitableUnit \<Rightarrow> CitableUnit" where
  "raw_unit u =
     u\<lparr>u_Lifecycle := UnitLifecycleTombstoned,
       u_ProvenanceDetail := Some ((''raw_snapshot'', DBool True) #
         (case u_ProvenanceDetail u of None \<Rightarrow> [] | Some d \<Rightarrow> d))\<rparr>"

definition sameOptionalInt :: "int option \<Rightarrow> int option \<Rightarrow> bool" where
  "sameOptionalInt a v = (case (a, v) of (None, None) \<Rightarrow> True | (Some x, Some y) \<Rightarrow> x = y | _ \<Rightarrow> False)"

definition historicalEdgeSameSlot :: "CitableUnit option \<Rightarrow> CitableUnit option \<Rightarrow> bool" where
  "historicalEdgeSameSlot historical active =
     (case (historical, active) of
        (Some h, Some a) \<Rightarrow>
          scopeKeyOf (u_HeadingID h) = scopeKeyOf (u_HeadingID a) \<and>
          sameOptionalInt (u_PageID h) (u_PageID a) \<and>
          normalizedContentRole (u_ContentRole h) = normalizedContentRole (u_ContentRole a) \<and>
          normalizedLanguage (u_Language h) = normalizedLanguage (u_Language a)
      | _ \<Rightarrow> False)"

definition historicalContentEqual :: "CitableUnit \<Rightarrow> CitableUnit \<Rightarrow> bool" where
  "historicalContentEqual h a \<longleftrightarrow> u_Kind h = u_Kind a \<and> u_ContentHash h = u_ContentHash a"

definition by_id :: "CitableUnit list \<Rightarrow> string \<Rightarrow> CitableUnit option" where
  "by_id us i = find (\<lambda>u. u_ID u = i) (rev us)"

text \<open>The edges one active unit passes on, and the plan after them: \<open>seen\<close> drops repeats.\<close>

definition chosen_edges ::
  "CitableUnit list \<Rightarrow> CitableUnit \<Rightarrow> CitableUnitLineage list \<Rightarrow> CitableUnitLineage list" where
  "chosen_edges historicals active candidates =
     (let hasExact = list_ex (\<lambda>e. case by_id historicals (e_SuccessorID e) of
            None \<Rightarrow> False
          | Some h \<Rightarrow> historicalEdgeSameSlot (Some h) (Some active) \<and> historicalContentEqual h active)
            candidates
      in filter (\<lambda>e. case by_id historicals (e_SuccessorID e) of
            None \<Rightarrow> False
          | Some h \<Rightarrow> historicalEdgeSameSlot (Some h) (Some active) \<and>
              (\<not> hasExact \<or> historicalContentEqual h active)) candidates)"

definition addHistoricalEdge ::
  "string \<Rightarrow> string \<Rightarrow> CitableUnitLineage list \<times> string list \<Rightarrow>
   CitableUnitLineage list \<times> string list" where
  "addHistoricalEdge predecessor successor st =
     (case st of (edges, seen) \<Rightarrow>
        let key = predecessor @ [CHR 0x00] @ successor in
        if key \<in> set seen then st
        else (edges @ [\<lparr>e_PredecessorID = predecessor, e_SuccessorID = successor,
                e_Reason = UnitLineageReasonEdit\<rparr>], key # seen))"

definition recountPlanEdges ::
  "UnitReconcileReport \<Rightarrow> CitableUnitLineage list \<Rightarrow> UnitReconcileReport" where
  "recountPlanEdges report edges =
     report\<lparr>rep_EditEdges :=
              int (length (filter (\<lambda>e. e_Reason e = UnitLineageReasonEdit) edges)),
            rep_MoveEdges :=
              int (length (filter (\<lambda>e. e_Reason e \<noteq> UnitLineageReasonEdit) edges))\<rparr>"

fun historical_edges ::
  "CitableUnit list \<Rightarrow> CitableUnit list \<Rightarrow> CitableUnitLineage list \<Rightarrow> string list \<Rightarrow>
   (CitableUnitLineage list \<times> string list) \<times> string list \<Rightarrow>
   (CitableUnitLineage list \<times> string list) \<times> string list" where
  "historical_edges historicals actives rawEdges [] st = st"
| "historical_edges historicals actives rawEdges (activeID # rest) st =
     (case by_id actives activeID of
        None \<Rightarrow> historical_edges historicals actives rawEdges rest st
      | Some active \<Rightarrow>
          let chosen = chosen_edges historicals active
                (filter (\<lambda>e. e_PredecessorID e = activeID) rawEdges)
          in historical_edges historicals actives rawEdges rest
               (fold (\<lambda>e (es, edged). (addHistoricalEdge (e_SuccessorID e) activeID es,
                  e_SuccessorID e # edged)) chosen st))"

definition attachRawHistoricalUnits ::
  "unit_env \<Rightarrow> int \<Rightarrow> int \<Rightarrow> DerivedUnit list \<Rightarrow> UnitRegistrySnapshot \<Rightarrow> UnitReconcilePlan \<Rightarrow>
   UnitReconcilePlan option" where
  "attachRawHistoricalUnits E bookID loadedAt rawDerived snap effective =
     (let final = snapshotAfterPlan snap effective in
      case PlanBook E bookID loadedAt rawDerived final of
        None \<Rightarrow> None
      | Some rawPlan \<Rightarrow>
          if pl_Mints rawPlan = [] then Some effective
          else
            let historicals = pl_HistoricalMints effective @ map raw_unit (pl_Mints rawPlan);
                rawIDs = map u_ID (pl_Mints rawPlan);
                rawEdges = filter (\<lambda>e. e_SuccessorID e \<in> set rawIDs) (pl_Edges rawPlan);
                activeOrder = nub (map e_PredecessorID rawEdges);
                ((edges, seen), edged) =
                  historical_edges historicals (s_Active final) rawEdges activeOrder
                    ((pl_Edges effective, []), []);
                marked = map (\<lambda>h. if u_ID h \<in> set edged
                  then h\<lparr>u_Lifecycle := UnitLifecycleSuperseded\<rparr> else h) historicals;
                rep = pl_Report effective;
                superseded = length (filter (\<lambda>h. u_Lifecycle h = UnitLifecycleSuperseded) marked);
                rep' = rep\<lparr>rep_Minted := rep_Minted rep + int (length marked),
                  rep_Superseded := rep_Superseded rep + int superseded,
                  rep_Tombstoned := rep_Tombstoned rep + int (length marked - superseded)\<rparr>
            in Some (effective\<lparr>pl_HistoricalMints := marked, pl_Edges := edges,
                 pl_Report := recountPlanEdges rep' edges\<rparr>))"

end
