(* ===== verification/Unit_Idempotent.thy ===== *)
theory Unit_Idempotent
  imports Unit_History Unit_Plan_Props
begin

text \<open>
  Reconciling twice: a plan computed for the snapshot a plan leaves behind, from the same
  derived units, is empty (AC-1 of the registry). The first half describes the snapshot after a
  plan unit by unit, the second half replays the planner on it.
\<close>

section \<open>The units after a plan\<close>

definition updated :: "DerivedUnit list \<Rightarrow> string list \<Rightarrow> matchPair \<Rightarrow> CitableUnit" where
  "updated ds ids p =
     (let d = ds ! mp_derivedIdx p; w = want_parent d ids in
      if up_to_date (mp_active p) d w then mp_active p
      else apply_update (stage_update (mp_active p) d w) (mp_active p))"

lemma apply_update_sel [simp]:
  "u_ID (apply_update up u) = u_ID u" "u_HeadingID (apply_update up u) = u_HeadingID u"
  "u_Kind (apply_update up u) = u_Kind u" "u_ContentHash (apply_update up u) = u_ContentHash u"
  "u_Language (apply_update up u) = u_Language u" "u_ContentRole (apply_update up u) = u_ContentRole u"
  "u_ProvenanceClass (apply_update up u) = u_ProvenanceClass u"
  "u_GenerationRunID (apply_update up u) = u_GenerationRunID u"
  by (simp_all add: apply_update_def)

lemma unit_scope_apply_update [simp]: "unit_scope (apply_update up u) = unit_scope u"
  by (simp add: unit_scope_def)

lemma unit_key_apply_update [simp]: "unit_key (apply_update up u) = unit_key u"
  by (simp add: unit_key_def)

lemma updated_sel [simp]:
  "u_ID (updated ds ids p) = u_ID (mp_active p)"
  "unit_scope (updated ds ids p) = unit_scope (mp_active p)"
  "unit_key (updated ds ids p) = unit_key (mp_active p)"
  by (simp_all add: updated_def Let_def)

lemma detail_eq_refl [simp]: "detail_eq x x"
  by (auto simp: detail_eq_def detail_same_def list_all_iff split: option.splits)

lemma same_refl [simp]: "sameParent x x" "sameOptionalString y y"
  by (auto simp: sameParent_def sameOptionalString_def split: option.splits)

lemma up_to_date_apply [simp]: "up_to_date (apply_update (stage_update u d w) u) d w"
  by (simp add: up_to_date_def apply_update_def stage_update_def samePage_def sameRuneOffset_def)

lemma up_to_date_updated:
  "up_to_date (updated ds ids p) (ds ! mp_derivedIdx p) (want_parent (ds ! mp_derivedIdx p) ids)"
  by (simp add: updated_def Let_def)

text \<open>Replaying the staged updates on the matched units.\<close>

lemma put_all:
  assumes "distinct (map u_ID (us @ vs))"
  shows "fold put_unit vs us = us @ vs"
  using assms
proof (induction vs arbitrary: us)
  case (Cons v vs)
  have "u_ID v \<notin> u_ID ` set us" using Cons.prems by simp
  then have "\<not> list_ex (\<lambda>x. u_ID x = u_ID v) us"    using image_neq [of "u_ID v" u_ID "set us"] by (auto simp: list_ex_iff)
  then have "put_unit v us = us @ [v]" by (simp add: put_unit_def)
  with Cons.IH [of "us @ [v]"] Cons.prems show ?case by simp
qed simp

lemma update_active_map:
  "fold update_active ups us = map (\<lambda>v. fold (\<lambda>up v. if u_ID v = up_ID up then apply_update up v else v) ups v) us"
  by (induction ups arbitrary: us) (simp_all add: update_active_def o_def)

lemma retire_active_filter:
  "fold retire_active rs us = filter (\<lambda>v. u_ID v \<notin> rt_ID ` set rs) us"
  by (induction rs arbitrary: us) (auto simp: retire_active_def intro!: filter_cong)

lemma staged_ids: "set (map up_ID (staged ds ids ps)) \<subseteq> u_ID ` mp_active ` set ps"
  by (induction ps) (auto simp: Let_def stage_update_def)

lemma fold_updates_other:
  "u_ID v \<notin> set (map up_ID ups) \<Longrightarrow>
   fold (\<lambda>up v. if u_ID v = up_ID up then apply_update up v else v) ups v = v"
  by (induction ups) auto

lemma fold_updates_matched:
  assumes "p \<in> set ps" "distinct (map (u_ID \<circ> mp_active) ps)"
  shows "fold (\<lambda>up v. if u_ID v = up_ID up then apply_update up v else v) (staged ds ids ps) (mp_active p) =
    updated ds ids p"
  using assms
proof (induction ps)
  case (Cons q ps)
  have ids: "set (map up_ID (staged ds ids ps)) \<subseteq> u_ID ` mp_active ` set ps" by (rule staged_ids)
  show ?case
  proof (cases "p = q")
    case True
    then have "u_ID (mp_active p) \<notin> set (map up_ID (staged ds ids ps))"
      using Cons.prems(2) ids by auto
    then have "fold (\<lambda>up v. if u_ID v = up_ID up then apply_update up v else v) (staged ds ids ps) v = v"
      if "u_ID v = u_ID (mp_active p)" for v
      using fold_updates_other that by simp
    then show ?thesis by (simp add: True updated_def Let_def stage_update_def)
  next
    case False
    with Cons.prems(1) have p: "p \<in> set ps" by simp
    have "u_ID (mp_active q) \<notin> (u_ID \<circ> mp_active) ` set ps" using Cons.prems(2) by simp
    from image_neq [OF this p] have "u_ID (mp_active p) \<noteq> u_ID (mp_active q)" by simp
    note ne = this
    show ?thesis using Cons.IH [OF p] Cons.prems(2) ne by (simp add: Let_def stage_update_def)
  qed
qed simp

section \<open>The snapshot after a plan\<close>

lemma snapshot_active:
  assumes inv: "plan_inv E book ds snap UNIV b" and ok: "snapshot_ok E snap"
  shows "mset (s_Active (snapshotAfterPlan snap (finished b))) =
    mset (map (updated ds (pb_unitIDs b)) (pb_matchedPairs b)) + mset (pl_Mints (finished b))"
proof -
  let ?ms = "map mp_active (pb_matchedPairs b)" and ?rs = "map rr_unit (pb_retireRefs b)"
  let ?ups = "staged ds (pb_unitIDs b) (pb_matchedPairs b)"
  let ?f = "\<lambda>v. fold (\<lambda>up v. if u_ID v = up_ID up then apply_update up v else v) ?ups v"
  have act: "mset (?ms @ ?rs) = mset (s_Active snap)"
    using inv by (simp add: plan_inv_def inv_retired_def inv_base_def)
  have dact: "distinct (map u_ID (s_Active snap))" using ok by (simp add: snapshot_ok_def)
  have ids: "mset (map u_ID (s_Active snap)) = mset (map u_ID ?ms @ map u_ID ?rs)"
    by (metis act map_append mset_map)
  then have dist: "distinct (map u_ID ?ms @ map u_ID ?rs)" using dact by (metis mset_eq_imp_distinct_iff)
  have a0: "fold put_unit (s_Active snap) [] = s_Active snap" using dact by (subst put_all) simp_all
  have ret: "rt_ID ` set (pl_Retires (finished b)) = u_ID ` set ?rs"
    unfolding retires_set [OF inv] by (simp add: retired_ids_def image_image)
  have uid: "u_ID (?f v) = u_ID v" for v
    by (induction ?ups arbitrary: v) (auto simp: fold_frame)
  define a2 where "a2 = filter (\<lambda>v. u_ID v \<notin> u_ID ` set ?rs) (map ?f (s_Active snap))"
  have "mset a2 = mset (map ?f (filter (\<lambda>v. u_ID v \<notin> u_ID ` set ?rs) (s_Active snap)))"
    by (simp add: a2_def filter_map o_def uid)
  also have "\<dots> = image_mset ?f (filter_mset (\<lambda>v. u_ID v \<notin> u_ID ` set ?rs) (mset (?ms @ ?rs)))"
    unfolding act by simp
  also have "filter_mset (\<lambda>v. u_ID v \<notin> u_ID ` set ?rs) (mset (?ms @ ?rs)) = mset ?ms"
  proof -
    have "filter (\<lambda>v. u_ID v \<notin> u_ID ` set ?rs) ?ms = ?ms"
      using dist by (intro filter_True) auto
    moreover have "filter (\<lambda>v. u_ID v \<notin> u_ID ` set ?rs) ?rs = []" by (simp add: filter_empty_conv)
    ultimately show ?thesis by (metis append_Nil2 filter_append mset_filter)
  qed
  also have "image_mset ?f (mset ?ms) = mset (map (updated ds (pb_unitIDs b)) (pb_matchedPairs b))"
  proof -
    have "distinct (map (u_ID \<circ> mp_active) (pb_matchedPairs b))" using dist by simp
    then have "map ?f ?ms = map (updated ds (pb_unitIDs b)) (pb_matchedPairs b)"
      using fold_updates_matched by simp
    then show ?thesis by (metis mset_map)
  qed
  finally have a2: "mset a2 = mset (map (updated ds (pb_unitIDs b)) (pb_matchedPairs b))" .
  have "distinct (map u_ID (a2 @ pl_Mints (finished b)))"
  proof -
    have "mset (map u_ID a2) = mset (map u_ID ?ms)" unfolding mset_map a2 by (simp add: image_mset.compositionality o_def)
    then have "mset (map u_ID (a2 @ pl_Mints (finished b))) =
        mset (map u_ID ?ms @ map u_ID (pl_Mints (pb_plan b)))"
      using finished_mint_ids [OF inv] by simp
    then show ?thesis using active_after_eq(2) [OF inv ok] by (metis mset_eq_imp_distinct_iff)
  qed
  then have "fold put_unit (pl_Mints (finished b)) a2 = a2 @ pl_Mints (finished b)" by (rule put_all)
  then have "mset (s_Active (snapshotAfterPlan snap (finished b))) = mset (a2 @ pl_Mints (finished b))"
    by (simp add: snapshotAfterPlan_def Let_def a0 update_active_map retire_active_filter ret
        finished_sel(2) [OF inv] a2_def)
  then show ?thesis using a2 by simp
qed

text \<open>What a derived unit asks of the registry unit that stands for it.\<close>

definition settled :: "DerivedUnit list \<Rightarrow> string list \<Rightarrow> nat \<Rightarrow> CitableUnit \<Rightarrow> bool" where
  "settled ds ids i u \<longleftrightarrow>
     unit_scope u = derived_scope (ds ! i) \<and> unit_key u = derived_key (ds ! i) \<and>
     u_ID u = ids ! i \<and> up_to_date u (ds ! i) (want_parent (ds ! i) ids)"

definition slot_named :: "DerivedUnit \<Rightarrow> bool" where
  "slot_named d \<longleftrightarrow> d_ContentRole d \<noteq> '''' \<and> d_Language d \<noteq> ''''"

lemma settled_minted:
  assumes "minted_from E b r v" "pb_derived b = ds" "pb_unitIDs b ! mr_derivedIdx r = u_ID v"
    and "slot_named (ds ! mr_derivedIdx r)"
  shows "settled ds (pb_unitIDs b) (mr_derivedIdx r) (with_parent ds (pb_unitIDs b) r v)"
proof -
  let ?d = "ds ! mr_derivedIdx r"
  obtain occ ord i where v: "v = mintUnit E (pb_bookID b) (derived_scope ?d) i ord occ ?d"
    using assms(1,2) by (auto simp: minted_from_def Let_def)
  have key: "unit_key (with_parent ds ids r v) = unit_key v" for ids
    by (simp add: with_parent_def unit_key_def split: option.splits)
  have "unit_key v = derived_key ?d"
    using assms(4) by (simp add: v unit_key_def derived_key_def mintUnit_def normalizedContentRole_def
        normalizedLanguage_def slot_named_def)
  moreover have "up_to_date (with_parent ds ids r v) ?d (want_parent ?d ids)" for ids
    by (auto simp: with_parent_def v mintUnit_def up_to_date_def samePage_def sameRuneOffset_def
        sameParent_def optionalString_def split: option.splits)
  ultimately show ?thesis using assms(3) by (simp add: settled_def key) (simp add: v)
qed

lemma settled_updated:
  assumes "inv_matched b" "pb_derived b = ds" "p \<in> set (pb_matchedPairs b)"
  shows "settled ds (pb_unitIDs b) (mp_derivedIdx p) (updated ds (pb_unitIDs b) p)"
  using assms by (simp add: settled_def up_to_date_updated inv_matched_def)

lemma mset_as_map:
  assumes "mset (map fst M) = mset [0..<n]"
  shows "\<exists>f. mset (map f [0..<n]) = mset (map snd M) \<and> (\<forall>i<n. (i, f i) \<in> set M)"
proof -
  have dist: "distinct (map fst M)" using assms by (metis distinct_upt mset_eq_imp_distinct_iff)
  have dom: "fst ` set M = {0..<n}" using assms by (metis set_mset_mset list.set_map atLeastLessThan_upt)
  let ?f = "\<lambda>i. the (map_of M i)"
  have mem: "(i, ?f i) \<in> set M" if "i < n" for i
  proof -
    have "i \<in> fst ` set M" using that dom by simp
    then obtain y where "(i, y) \<in> set M" by force
    then show ?thesis using dist by simp
  qed
  have "map (?f \<circ> fst) M = map snd M" using dist by (auto simp: map_of_eq_Some_iff)
  moreover have "mset (map ?f [0..<n]) = mset (map (?f \<circ> fst) M)"
    by (metis assms map_map mset_map)
  ultimately have "mset (map ?f [0..<n]) = mset (map snd M)" by (simp only:)
  with mem show ?thesis by blast
qed

lemma settled_snapshot:
  assumes inv: "plan_inv E book ds snap UNIV b" and ok: "snapshot_ok E snap"
    and named: "\<forall>i<length ds. slot_named (ds ! i)"
  shows "\<exists>f. mset (s_Active (snapshotAfterPlan snap (finished b))) = mset (map f [0..<length ds]) \<and>
    (\<forall>i<length ds. settled ds (pb_unitIDs b) i (f i))"
proof -
  let ?ids = "pb_unitIDs b"
  let ?ups = "map (\<lambda>p. (mp_derivedIdx p, updated ds ?ids p)) (pb_matchedPairs b)"
  let ?new = "map2 (\<lambda>r v. (mr_derivedIdx r, with_parent ds ?ids r v)) (pb_mintRefs b) (pl_Mints (pb_plan b))"
  have base: "pb_derived b = ds" "inv_matched b" and idx: "inv_index UNIV b"
    and m: "list_all2 (\<lambda>r v. minted_from E b r v \<and> ?ids ! mr_derivedIdx r = u_ID v)
      (pb_mintRefs b) (pl_Mints (pb_plan b))"
    using inv by (simp_all add: plan_inv_def inv_base_def inv_minted_def)
  have len: "length (pb_mintRefs b) = length (pl_Mints (pb_plan b))" using m by (rule list_all2_lengthD)
  have fst_new: "map fst ?new = map mr_derivedIdx (pb_mintRefs b)"
    and snd_new: "map snd ?new = pl_Mints (finished b)"
    unfolding finished_sel(1) [OF inv] using len by (induction rule: list_induct2) auto
  have "mset (map fst (?ups @ ?new)) = mset [0..<length ds]"
    unfolding map_append fst_new using idx by (simp add: inv_index_def scope_part_def base o_def)
  from mset_as_map [OF this] obtain f where
    f: "mset (map f [0..<length ds]) = mset (map snd (?ups @ ?new))"
      "\<And>i. i < length ds \<Longrightarrow> (i, f i) \<in> set (?ups @ ?new)" by blast
  have "mset (s_Active (snapshotAfterPlan snap (finished b))) = mset (map f [0..<length ds])"
    unfolding f(1) map_append snd_new by (simp add: snapshot_active [OF inv ok] o_def)
  moreover have "settled ds ?ids i (f i)" if i: "i < length ds" for i
  proof -
    from f(2) [OF i] consider (u) p where "p \<in> set (pb_matchedPairs b)" "i = mp_derivedIdx p" "f i = updated ds ?ids p"
      | (n) r v where "(r, v) \<in> set (zip (pb_mintRefs b) (pl_Mints (pb_plan b)))" "i = mr_derivedIdx r"
          "f i = with_parent ds ?ids r v"
      by auto
    then show ?thesis
    proof cases
      case u
      then show ?thesis using settled_updated [OF base(2,1)] by simp
    next
      case n
      then have "minted_from E b r v" "?ids ! mr_derivedIdx r = u_ID v"
        using m by (auto simp: list_all2_iff)
      then show ?thesis using settled_minted [OF _ base(1)] named i n by simp
    qed
  qed
  ultimately show ?thesis by blast
qed

section \<open>Replaying the planner\<close>

text \<open>The units of a scope, sorted by position, are the ones of its derived units in order.\<close>

definition positions_increase :: "DerivedUnit list \<Rightarrow> bool" where
  "positions_increase ds \<longleftrightarrow>
     (\<forall>i<length ds. \<forall>j<length ds. i < j \<and> derived_scope (ds ! i) = derived_scope (ds ! j) \<longrightarrow>
        d_ScopePosition (ds ! i) < d_ScopePosition (ds ! j))"

lemma sort_key_unique:
  assumes "mset xs = mset ys" "sorted_wrt (\<lambda>x y. f x < (f y :: int)) ys"
  shows "sort_key f xs = ys"
proof (rule properties_for_sort_key)
  show "mset ys = mset xs" using assms(1) by simp
  show "sorted (map f ys)"
    using assms(2) by (simp add: sorted_map sorted_wrt_mono_rel [of _ "\<lambda>x y. f x < f y" "\<lambda>x y. f x \<le> f y"])
  fix y assume y: "y \<in> set ys"
  have "filter (\<lambda>x. f y = f x) ys = [y]"
    using assms(2) y by (induction ys) (auto simp: filter_empty_conv)
  moreover have "mset (filter (\<lambda>x. f y = f x) xs) = mset (filter (\<lambda>x. f y = f x) ys)"
    using assms(1) by (simp add: mset_filter)
  ultimately show "filter (\<lambda>x. f y = f x) ys = filter (\<lambda>x. f y = f x) xs"
    by (metis mset_single_iff_right)
qed

lemma scope_actives:
  assumes m: "mset us = mset (map f [0..<length ds])" and s: "\<forall>i<length ds. settled ds ids i (f i)"
    and inc: "positions_increase ds"
  shows "sort_key u_Position (active_of_scope us k) = map f (derived_of_scope ds k)"
proof (rule sort_key_unique)
  have "filter (\<lambda>u. unit_scope u = k) (map f [0..<length ds]) = map f (derived_of_scope ds k)"
    using s by (auto simp: filter_map derived_of_scope_def settled_def intro!: arg_cong [where f = "map f"] filter_cong)
  then show "mset (active_of_scope us k) = mset (map f (derived_of_scope ds k))"
    using m by (metis active_of_scope_def mset_filter)
  have "sorted_wrt (\<lambda>i j. i < j) (derived_of_scope ds k)"
    unfolding derived_of_scope_def by (simp add: sorted_wrt_filter)
  then have "sorted_wrt (\<lambda>i j. u_Position (f i) < u_Position (f j)) (derived_of_scope ds k)"
  proof (rule sorted_wrt_mono_rel [rotated])
    fix i j assume "i \<in> set (derived_of_scope ds k)" "j \<in> set (derived_of_scope ds k)" "i < j"
    then show "u_Position (f i) < u_Position (f j)"
      using s inc by (auto simp: derived_of_scope_set settled_def up_to_date_def positions_increase_def)
  qed
  then show "sorted_wrt (\<lambda>x y. u_Position x < u_Position y) (map f (derived_of_scope ds k))"
    by (simp add: sorted_wrt_map)
qed

lemma match_all:
  assumes "\<forall>i\<in>set dis. unit_key (f i) = derived_key (pb_derived b ! i)"
  shows "match_loop k (queues_of (map f dis)) dis b =
    (map (\<lambda>i. pair_of (i, f i)) dis, [], record_matches k (map (\<lambda>i. pair_of (i, f i)) dis) b)"
  using assms
proof (induction dis arbitrary: b)
  case (Cons i dis)
  have "(queues_of (map f (i # dis)))(derived_key (pb_derived b ! i) :=
      queues_of (map f dis) (derived_key (pb_derived b ! i))) = queues_of (map f dis)"
    using Cons.prems by (auto simp: queues_of_def fun_eq_iff)
  moreover have "queues_of (map f (i # dis)) (derived_key (pb_derived b ! i)) =
      f i # queues_of (map f dis) (derived_key (pb_derived b ! i))"
    using Cons.prems by (simp add: queues_of_def)
  moreover have "match_loop k (queues_of (map f dis)) dis (record_match k i (f i) b) =
    (map (\<lambda>i. pair_of (i, f i)) dis, [], record_matches k (map (\<lambda>i. pair_of (i, f i)) dis) (record_match k i (f i) b))"
    using Cons by simp
  ultimately show ?case
    by (simp add: Let_def pair_of_def record_matches_def del: queues_of_def)
qed (simp add: record_matches_def)

definition replayed ::
  "DerivedUnit list \<Rightarrow> string list \<Rightarrow> (nat \<Rightarrow> CitableUnit) \<Rightarrow> int set \<Rightarrow> planBuilder \<Rightarrow> bool" where
  "replayed ds ids f S b \<longleftrightarrow>
     pb_derived b = ds \<and> length (pb_unitIDs b) = length ds \<and>
     (\<forall>i<length ds. pb_unitIDs b ! i = (if derived_scope (ds ! i) \<in> S then ids ! i else '''')) \<and>
     (\<forall>p\<in>set (pb_matchedPairs b). mp_derivedIdx p < length ds \<and> mp_active p = f (mp_derivedIdx p)) \<and>
     pl_Mints (pb_plan b) = [] \<and> pb_mintRefs b = [] \<and> pb_retireRefs b = [] \<and>
     pl_Edges (pb_plan b) = [] \<and> pl_Updates (pb_plan b) = [] \<and> pl_Retires (pb_plan b) = []"

lemma mint_loop_skip:
  "\<forall>i\<in>set dis. pb_unitIDs b ! i \<noteq> '''' \<Longrightarrow> mint_loop E k no dup dis b = Some b"
  by (induction dis arbitrary: no dup) (simp_all add: Let_def)

lemma reconcileScope_replay:
  assumes b: "replayed ds ids f S b" and k: "k \<notin> S"
    and s: "\<forall>i<length ds. settled ds ids i (f i)" and ne: "\<forall>i<length ds. ids ! i \<noteq> ''''"
    and us: "sort_key u_Position us = map f (derived_of_scope ds k)"
  shows "\<exists>b'. reconcileScope E k (derived_of_scope ds k) us b = Some b' \<and> replayed ds ids f (insert k S) b'"
proof -
  let ?dis = "derived_of_scope ds k"
  let ?ps = "map (\<lambda>i. pair_of (i, f i)) ?dis"
  let ?b1 = "record_matches k ?ps b"
  let ?b2 = "?b1\<lparr>pb_matchedPairs := pb_matchedPairs b @ ?ps\<rparr>"
  have base: "pb_derived b = ds" "length (pb_unitIDs b) = length ds"
    using b by (simp_all add: replayed_def)
  have key: "\<forall>i\<in>set ?dis. unit_key (f i) = derived_key (pb_derived b ! i)"
    using s by (simp add: base derived_of_scope_set settled_def)
  have uid: "u_ID (f i) = ids ! i" if "i < length ds" for i using s that by (simp add: settled_def)
  have match: "match_loop k (queues_of (map f ?dis)) ?dis b = (?ps, [], ?b1)"
    using match_all [OF key] .
  have idx: "map mp_derivedIdx ?ps = ?dis" by (simp add: o_def)
  have set_id: "pb_unitIDs ?b1 ! i = ids ! i" if i: "i \<in> set ?dis" for i
  proof -
    have "pair_of (i, f i) \<in> set ?ps" using i by simp
    from record_matches_id [OF this, of b k] i show ?thesis
      by (simp add: idx base derived_of_scope_set uid del: map_map)
  qed
  have other: "pb_unitIDs ?b1 ! i = pb_unitIDs b ! i" if "i \<notin> set ?dis" for i
    using that by (subst record_matches_other) (simp_all add: image_image)
  have unm: "filter (\<lambda>u. \<not> unitMatched ?ps (u_ID u)) (map f ?dis) = []"
    by (auto simp: filter_empty_conv unitMatched_def list_ex_iff)
  have "\<forall>i\<in>set ?dis. pb_unitIDs ?b2 ! i \<noteq> ''''"
    using set_id ne by (simp add: derived_of_scope_set)
  then have mint: "mintScope E k ?dis ?b2 = Some ?b2"
    unfolding mintScope_def by (rule mint_loop_skip)
  obtain anchors where "longestIncreasingByActivePos ?ps = Some anchors"
    using longestIncreasing_total by blast
  then have run: "reconcileScope E k ?dis us b = Some ?b2"
    using match mint unm
    by (simp add: reconcileScope_def us matchScope_def assignGaps_def lineageGaps_def Let_def)
  have "pb_unitIDs ?b2 ! i = (if derived_scope (ds ! i) \<in> insert k S then ids ! i else '''')"
    if i: "i < length ds" for i
  proof (cases "derived_scope (ds ! i) = k")
    case True
    then show ?thesis using set_id [of i] i by (simp add: derived_of_scope_set)
  next
    case False
    then show ?thesis using other [of i] i b by (simp add: derived_of_scope_set replayed_def)
  qed
  then have "replayed ds ids f (insert k S) ?b2"
    using b by (auto simp: replayed_def derived_of_scope_set)
  with run show ?thesis by blast
qed

lemma reconcile_scopes_replay:
  assumes "replayed ds ids f S b" "distinct ks" "set ks \<inter> S = {}"
    and s: "\<forall>i<length ds. settled ds ids i (f i)" and ne: "\<forall>i<length ds. ids ! i \<noteq> ''''"
    and us: "\<forall>k. sort_key u_Position (act k) = map f (derived_of_scope ds k)"
  shows "\<exists>b'. reconcile_scopes E (derived_of_scope ds) act ks b = Some b' \<and> replayed ds ids f (set ks \<union> S) b'"
  using assms(1-3)
proof (induction ks arbitrary: S b)
  case (Cons k ks)
  have "k \<notin> S" using Cons.prems(3) by simp
  from reconcileScope_replay [OF Cons.prems(1) this s ne spec [OF us, of k], of E] obtain b1 where
    b1: "reconcileScope E k (derived_of_scope ds k) (act k) b = Some b1" "replayed ds ids f (insert k S) b1"
    by blast
  have "distinct ks" "set ks \<inter> insert k S = {}" using Cons.prems(2,3) by auto
  from Cons.IH [OF b1(2) this] b1(1) show ?case by auto
qed auto

lemma finished_replay:
  assumes b: "replayed ds ids f UNIV b" and s: "\<forall>i<length ds. settled ds ids i (f i)"
    and len: "length ids = length ds"
  shows "pl_Mints (finished b) = [] \<and> pl_Retires (finished b) = [] \<and>
    pl_Edges (finished b) = [] \<and> pl_Updates (finished b) = []"
proof -
  have ids: "pb_unitIDs b = ids"
    using b len by (intro nth_equalityI) (simp_all add: replayed_def)
  have "staged ds ids ps = []"
    if "\<forall>p\<in>set ps. mp_derivedIdx p < length ds \<and> mp_active p = f (mp_derivedIdx p)" for ps
    using that s by (induction ps) (simp_all add: Let_def settled_def)
  then have "staged ds ids (pb_matchedPairs b) = []" using b by (simp add: replayed_def)
  then have st: "staged ds (pb_unitIDs b) (pb_matchedPairs b) = []"
    unfolding ids .
  have "resolveFootnoteParents b = b" using b by (simp add: resolveFootnoteParents_def replayed_def)
  then show ?thesis
    using b by (simp add: finished_def stageUpdates_def st rescuePass_def finalizeRetires_def
        fillReport_def replayed_def Let_def)
qed

lemma inv_ids_nonempty:
  assumes "plan_inv E book ds snap UNIV b" "snapshot_ok E snap" "uuid_nonempty E" "i < length ds"
  shows "pb_unitIDs b ! i \<noteq> ''''"
proof -
  have "\<forall>u\<in>set (pl_Mints (finished b)). u_ID u \<noteq> ''''"
  proof
    fix u assume u: "u \<in> set (pl_Mints (finished b))"
    show "u_ID u \<noteq> ''''"
      by (rule finished_mint [OF assms(1) u])
        (auto simp: minted_from_def Let_def derivedUnitID_nonempty [OF assms(3)])
  qed
  moreover have "\<forall>u\<in>set (s_Active snap). u_ID u \<noteq> ''''" using assms(2) by (simp add: snapshot_ok_def)
  ultimately show ?thesis
    using inv_id_active [OF assms(1,2,4)] by (auto simp: active_after_def)
qed

lemma positions_normalize:
  "positions_increase ds \<Longrightarrow> positions_increase (normalizeDerivedParentShapes ds)"
  by (simp add: positions_increase_def nth_normalize derived_scope_def)

lemma named_normalize:
  "list_all slot_named ds \<Longrightarrow> i < length ds \<Longrightarrow> slot_named (normalizeDerivedParentShapes ds ! i)"
  by (simp add: slot_named_def nth_normalize list_all_length)

text \<open>C4. Reconciling is idempotent: once a plan is applied, planning again from the same derived
  units returns a plan that mints, retires, updates and links nothing, whatever identifiers
  UUIDv5 gives. The derived units carry a role and a language and positions that increase inside
  each scope, as the deriver numbers them.\<close>

theorem plan_idempotent:
  assumes "PlanBook E book at derived snap = Some plan" "snapshot_ok E snap" "uuid_nonempty E"
    and "list_all slot_named derived" "positions_increase derived"
  shows "\<exists>plan'. PlanBook E book at' derived (snapshotAfterPlan snap plan) = Some plan' \<and>
    pl_Mints plan' = [] \<and> pl_Retires plan' = [] \<and> pl_Edges plan' = [] \<and> pl_Updates plan' = []"
proof -
  let ?ds = "normalizeDerivedParentShapes derived" and ?snap = "snapshotAfterPlan snap plan"
  obtain b where inv: "plan_inv E book ?ds snap UNIV b" and plan: "plan = finished b"
    by (rule PlanBook_finished [OF assms(1-3)])
  have named: "\<forall>i<length ?ds. slot_named (?ds ! i)" using named_normalize [OF assms(4)] by simp
  from settled_snapshot [OF inv assms(2) named] obtain f where
    f: "mset (s_Active ?snap) = mset (map f [0..<length ?ds])"
    and s: "\<forall>i<length ?ds. settled ?ds (pb_unitIDs b) i (f i)" by (auto simp: plan)
  have ne: "\<forall>i<length ?ds. pb_unitIDs b ! i \<noteq> ''''"
    using inv_ids_nonempty [OF inv assms(2,3)] by blast
  have us: "\<forall>k. sort_key u_Position (active_of_scope (s_Active ?snap) k) = map f (derived_of_scope ?ds k)"
    using scope_actives [OF f s positions_normalize [OF assms(5)]] by blast
  let ?ks = "scope_order ?ds ?snap"
  have init: "replayed ?ds (pb_unitIDs b) f {} (set_scopes (int (length ?ks)) (init_builder book at' ?ds ?snap))"
    by (simp add: replayed_def set_scopes_def init_builder_def)
  from reconcile_scopes_replay [OF init _ _ s ne us, of ?ks E] obtain b2 where
    b2: "reconcile_scopes E (derived_of_scope ?ds) (active_of_scope (s_Active ?snap)) ?ks
       (set_scopes (int (length ?ks)) (init_builder book at' ?ds ?snap)) = Some b2"
    "replayed ?ds (pb_unitIDs b) f (set ?ks) b2"
    by (auto simp: scope_order_set)
  have "replayed ?ds (pb_unitIDs b) f UNIV b2"
    using b2(2) by (auto simp: replayed_def scope_order_set)
  moreover have "length (pb_unitIDs b) = length ?ds" using inv by (simp add: plan_inv_def inv_base_def)
  moreover have "PlanBook E book at' derived ?snap = Some (finished b2)"
    using b2(1) by (simp add: PlanBook_unfold Let_def finished_def)
  ultimately show ?thesis using finished_replay [OF _ s] by blast
qed

theorem plan_idempotent_witness:
  "\<exists>plan plan'. PlanBook sample_env 7 0 sample_book sample_snapshot = Some plan \<and>
     PlanBook sample_env 7 1 sample_book (snapshotAfterPlan sample_snapshot plan) = Some plan' \<and>
     pl_Mints plan' = [] \<and> pl_Updates plan' = []"
proof -
  obtain plan where p: "PlanBook sample_env 7 0 sample_book sample_snapshot = Some plan"
    using sample_plan by blast
  have "list_all slot_named sample_book"
    by (simp add: sample_book_def sample_derived_def slot_named_def)
  moreover have "positions_increase sample_book"
    by (auto simp: positions_increase_def sample_book_def sample_derived_def nth_Cons')
  ultimately show ?thesis using plan_idempotent [OF p sample_ok(1,2)] p by blast
qed

end
