(* ===== verification/Unit_History_Props.thy ===== *)
theory Unit_History_Props
  imports Unit_Idempotent
begin

text \<open>
  Properties across plans: applying a plan keeps the snapshot well formed, and attaching the raw
  historical units to an effective plan leaves its active decisions alone while every
  historical edge runs from a superseded historical unit to an active unit of the same slot.
\<close>

section \<open>The snapshot invariant\<close>

lemma snapshot_after_ids:
  assumes "plan_inv E book ds snap UNIV b" "snapshot_ok E snap"
  shows "mset (map u_ID (s_Active (snapshotAfterPlan snap (finished b)))) =
    mset (map u_ID (map mp_active (pb_matchedPairs b)) @ map u_ID (pl_Mints (pb_plan b)))"
  unfolding mset_map snapshot_active [OF assms]
  using finished_mint_ids [OF assms(1)]
  by (simp add: image_mset.compositionality o_def mset_map [symmetric] del: mset_map)

lemma snapshot_after_ok:
  assumes "PlanBook E book at derived snap = Some plan" "snapshot_ok E snap" "uuid_nonempty E"
  shows "snapshot_ok E (snapshotAfterPlan snap plan)"
proof -
  obtain b where inv: "plan_inv E book (normalizeDerivedParentShapes derived) snap UNIV b"
    and plan: "plan = finished b"
    by (rule PlanBook_finished [OF assms])
  let ?s = "snapshotAfterPlan snap plan"
  note ids = snapshot_after_ids [OF inv assms(2), folded plan]
  have "distinct (map u_ID (s_Active ?s))"
    using active_after_eq(2) [OF inv assms(2)] ids by (metis mset_eq_imp_distinct_iff)
  moreover have "set (map u_ID (s_Active ?s)) = active_after snap plan"
    unfolding plan active_after_eq(1) [OF inv assms(2)] using ids [unfolded plan] by (metis set_mset_mset)
  then have "u_ID ` set (s_Active ?s) = active_after snap plan" by simp
  moreover have "active_after snap plan \<subseteq> set (s_ExistingIDs ?s)"
    using assms(2) by (auto simp: active_after_def snapshotAfterPlan_def Let_def snapshot_ok_def)
  moreover have "'''' \<notin> active_after snap plan"
  proof -
    have "u_ID u \<noteq> ''''" if u: "u \<in> set (pl_Mints plan)" for u
      by (rule finished_mint [OF inv u [unfolded plan]])
        (auto simp: minted_from_def Let_def derivedUnitID_nonempty [OF assms(3)])
    then show ?thesis using assms(2) by (force simp: active_after_def snapshot_ok_def)
  qed
  ultimately show ?thesis unfolding snapshot_ok_def by (metis image_eqI subsetD)
qed

section \<open>Raw historical units\<close>

definition historical_edge ::
  "CitableUnit list \<Rightarrow> CitableUnit list \<Rightarrow> CitableUnitLineage \<Rightarrow> bool" where
  "historical_edge hs as e \<longleftrightarrow> e_Reason e = UnitLineageReasonEdit \<and>
     (\<exists>h\<in>set hs. \<exists>a\<in>set as. e_PredecessorID e = u_ID h \<and> e_SuccessorID e = u_ID a \<and>
        historicalEdgeSameSlot (Some h) (Some a))"

text \<open>The loop state: the edges added so far, the pairs seen and the historical units with an edge.\<close>

definition history_inv ::
  "CitableUnit list \<Rightarrow> CitableUnit list \<Rightarrow> CitableUnitLineage list \<Rightarrow>
   (CitableUnitLineage list \<times> string list) \<times> string list \<Rightarrow> bool" where
  "history_inv hs as edges0 st \<longleftrightarrow>
     (case st of ((edges, seen), edged) \<Rightarrow>
        \<exists>es. edges = edges0 @ es \<and> (\<forall>e\<in>set es. historical_edge hs as e \<and> e_PredecessorID e \<in> set edged) \<and>
          (\<forall>i\<in>set edged. \<exists>e\<in>set es. e_PredecessorID e = i) \<and>
          (\<forall>key\<in>set seen. \<exists>e\<in>set es. key = e_PredecessorID e @ CHR 0x00 # e_SuccessorID e))"

lemma by_id_some: "by_id us i = Some u \<Longrightarrow> u \<in> set us \<and> u_ID u = i"
  by (auto simp: by_id_def find_Some_iff) (metis nth_mem set_rev length_rev)+

lemma history_inv_add:
  assumes inv: "history_inv hs as edges0 st" and h: "h \<in> set hs" "a \<in> set as"
    and slot: "historicalEdgeSameSlot (Some h) (Some a)" and nul: "\<forall>h\<in>set hs. no_nul (u_ID h)"
  shows "history_inv hs as edges0
    (addHistoricalEdge (u_ID h) (u_ID a) (fst st), u_ID h # snd st)"
proof -
  obtain edges seen edged where st: "st = ((edges, seen), edged)" by (metis prod.exhaust)
  from inv obtain es where es: "edges = edges0 @ es"
    "\<forall>e\<in>set es. historical_edge hs as e \<and> e_PredecessorID e \<in> set edged"
    "\<forall>i\<in>set edged. \<exists>e\<in>set es. e_PredecessorID e = i"
    "\<forall>key\<in>set seen. \<exists>e\<in>set es. key = e_PredecessorID e @ CHR 0x00 # e_SuccessorID e"
    by (auto simp: history_inv_def st)
  show ?thesis
  proof (cases "u_ID h @ CHR 0x00 # u_ID a \<in> set seen")
    case True
    then obtain e where e: "e \<in> set es"
      "u_ID h @ CHR 0x00 # u_ID a = e_PredecessorID e @ CHR 0x00 # e_SuccessorID e"
      using es(4) by blast
    moreover have "no_nul (e_PredecessorID e)" "no_nul (u_ID h)"
      using es(2) e(1) h(1) nul by (auto simp: historical_edge_def)
    ultimately have "e_PredecessorID e = u_ID h" using nul_prefix by metis
    with es e(1) True show ?thesis
      by (auto simp: history_inv_def st addHistoricalEdge_def intro!: exI [of _ es])
  next
    case False
    let ?e = "\<lparr>e_PredecessorID = u_ID h, e_SuccessorID = u_ID a, e_Reason = UnitLineageReasonEdit\<rparr>"
    have "historical_edge hs as ?e" using h slot by (auto simp: historical_edge_def)
    with es False show ?thesis
      by (auto simp: history_inv_def st addHistoricalEdge_def intro!: exI [of _ "es @ [?e]"])
  qed
qed

lemma history_inv_edges:
  assumes "history_inv hs as edges0 st" "\<forall>h\<in>set hs. no_nul (u_ID h)"
  shows "history_inv hs as edges0 (historical_edges hs as raw ids st)"
  using assms(1)
proof (induction ids arbitrary: st)
  case (Cons i ids)
  show ?case
  proof (cases "by_id as i")
    case None
    with Cons show ?thesis by simp
  next
    case (Some a)
    then have a: "a \<in> set as" "u_ID a = i" using by_id_some by blast+
    let ?chosen = "chosen_edges hs a (filter (\<lambda>e. e_PredecessorID e = i) raw)"
    let ?step = "\<lambda>e (es, edged). (addHistoricalEdge (e_SuccessorID e) i es, e_SuccessorID e # edged)"
    have "history_inv hs as edges0 (fold ?step ?chosen st)"
    proof (rule fold_inv [where P = "history_inv hs as edges0"])
      fix e s assume e: "e \<in> set ?chosen" and s: "history_inv hs as edges0 s"
      from e obtain h where h: "by_id hs (e_SuccessorID e) = Some h" "historicalEdgeSameSlot (Some h) (Some a)"
        by (auto simp: chosen_edges_def Let_def split: option.splits)
      then have "h \<in> set hs" "u_ID h = e_SuccessorID e" using by_id_some by blast+
      with history_inv_add [OF s _ a(1) h(2) assms(2)] a(2) show "history_inv hs as edges0 (?step e s)"
        by (simp add: split_def)
    qed (rule Cons.prems)
    from Cons.IH [OF this] Some show ?thesis by simp
  qed
qed simp

lemma minted_no_nul:
  assumes "PlanBook E book at derived snap = Some plan" "snapshot_ok E snap" "uuid_nonempty E"
    and "\<forall>x. no_nul (env_uuid5 E x)" "u \<in> set (pl_Mints plan)"
  shows "no_nul (u_ID u)"
proof -
  obtain b where inv: "plan_inv E book (normalizeDerivedParentShapes derived) snap UNIV b"
    and plan: "plan = finished b"
    by (rule PlanBook_finished [OF assms(1-3)])
  show ?thesis
    by (rule finished_mint [OF inv assms(5) [unfolded plan]])
      (auto simp: minted_from_def Let_def derivedUnitID_def UnitID_def UnitIDV2_def assms(4))
qed

definition attached_plan ::
  "UnitReconcilePlan \<Rightarrow> CitableUnitLineage list \<Rightarrow> CitableUnit list \<Rightarrow> UnitReconcilePlan" where
  "attached_plan effective edges marked =
     (let rep = pl_Report effective;
          superseded = length (filter (\<lambda>h. u_Lifecycle h = UnitLifecycleSuperseded) marked);
          rep' = rep\<lparr>rep_Minted := rep_Minted rep + int (length marked),
            rep_Superseded := rep_Superseded rep + int superseded,
            rep_Tombstoned := rep_Tombstoned rep + int (length marked - superseded)\<rparr>
      in effective\<lparr>pl_HistoricalMints := marked, pl_Edges := edges,
           pl_Report := recountPlanEdges rep' edges\<rparr>)"

lemma attached_plan_sel:
  "pl_Mints (attached_plan p es ms) = pl_Mints p" "pl_Updates (attached_plan p es ms) = pl_Updates p"
  "pl_Retires (attached_plan p es ms) = pl_Retires p"
  "pl_ExpectedActive (attached_plan p es ms) = pl_ExpectedActive p"
  "pl_Edges (attached_plan p es ms) = es" "pl_HistoricalMints (attached_plan p es ms) = ms"
  by (simp_all add: attached_plan_def Let_def)

definition mark_edged :: "string list \<Rightarrow> CitableUnit \<Rightarrow> CitableUnit" where
  "mark_edged edged h =
     (if u_ID h \<in> set edged then h\<lparr>u_Lifecycle := UnitLifecycleSuperseded\<rparr> else h)"

lemma mark_edged_sel [simp]: "u_ID (mark_edged edged h) = u_ID h"
  by (simp add: mark_edged_def)

lemma marked_edge:
  assumes "historical_edge hs as e"
  shows "historical_edge (map (mark_edged edged) hs) as e"
proof -
  from assms obtain h a where ha: "h \<in> set hs" "a \<in> set as" "e_PredecessorID e = u_ID h"
    "e_SuccessorID e = u_ID a" "historicalEdgeSameSlot (Some h) (Some a)" "e_Reason e = UnitLineageReasonEdit"
    by (auto simp: historical_edge_def)
  have "historicalEdgeSameSlot (Some (mark_edged edged h)) (Some a)"
    using ha(5) by (simp add: historicalEdgeSameSlot_def mark_edged_def)
  then show ?thesis
    unfolding historical_edge_def
    by (intro conjI ha(6) bexI [of _ "mark_edged edged h"] bexI [of _ a]) (simp_all add: ha)
qed

lemma marked_lifecycle:
  assumes "\<forall>e\<in>set es. e_PredecessorID e \<in> set edged" "\<forall>i\<in>set edged. \<exists>e\<in>set es. e_PredecessorID e = i"
  shows "\<forall>h\<in>set (map (mark_edged edged) (map raw_unit us)). u_Lifecycle h =
    (if \<exists>e\<in>set es. e_PredecessorID e = u_ID h then UnitLifecycleSuperseded else UnitLifecycleTombstoned)"
proof
  fix h assume "h \<in> set (map (mark_edged edged) (map raw_unit us))"
  then obtain u where u: "h = mark_edged edged (raw_unit u)" by auto
  have "(\<exists>e\<in>set es. e_PredecessorID e = u_ID h) = (u_ID h \<in> set edged)" using assms by metis
  then show "u_Lifecycle h =
    (if \<exists>e\<in>set es. e_PredecessorID e = u_ID h then UnitLifecycleSuperseded else UnitLifecycleTombstoned)"
    by (simp add: u mark_edged_def raw_unit_def)
qed

lemma attach_eq:
  assumes "PlanBook E book at raw (snapshotAfterPlan snap plan) = Some rawPlan" "pl_Mints rawPlan \<noteq> []"
    and "pl_HistoricalMints plan = []"
    and "historical_edges (map raw_unit (pl_Mints rawPlan)) (s_Active (snapshotAfterPlan snap plan))
      (filter (\<lambda>e. e_SuccessorID e \<in> set (map u_ID (pl_Mints rawPlan))) (pl_Edges rawPlan))
      (nub (map e_PredecessorID
        (filter (\<lambda>e. e_SuccessorID e \<in> set (map u_ID (pl_Mints rawPlan))) (pl_Edges rawPlan))))
      ((pl_Edges plan, []), []) = ((edges, seen), edged)"
  shows "attachRawHistoricalUnits E book at raw snap plan =
    Some (attached_plan plan edges (map (mark_edged edged) (map raw_unit (pl_Mints rawPlan))))"
  unfolding attachRawHistoricalUnits_def Let_def assms(1) option.case assms(3) append_Nil
    assms(4) prod.case attached_plan_def mark_edged_def
  using assms(2) by simp

text \<open>C35. Attaching raw history never touches an active decision: mints, updates, retirements
  and the expected active count stay; the edges are only extended, each new edge runs from a
  historical unit to a unit active after the plan in the same heading, page, role and language;
  and a historical unit is superseded exactly when it has such an edge and tombstoned otherwise.\<close>

theorem raw_history_attached:
  assumes "attachRawHistoricalUnits E book at raw snap plan = Some plan'"
    and "PlanBook E book at derived snap = Some plan"
    and "snapshot_ok E snap" "uuid_nonempty E" "\<forall>x. no_nul (env_uuid5 E x)"
  shows "pl_Mints plan' = pl_Mints plan \<and> pl_Updates plan' = pl_Updates plan \<and>
    pl_Retires plan' = pl_Retires plan \<and> pl_ExpectedActive plan' = pl_ExpectedActive plan \<and>
    (\<exists>es. pl_Edges plan' = pl_Edges plan @ es \<and>
       (\<forall>e\<in>set es. historical_edge (pl_HistoricalMints plan')
          (s_Active (snapshotAfterPlan snap plan)) e) \<and>
       (\<forall>h\<in>set (pl_HistoricalMints plan'). u_Lifecycle h =
          (if \<exists>e\<in>set es. e_PredecessorID e = u_ID h
           then UnitLifecycleSuperseded else UnitLifecycleTombstoned)))"
proof -
  let ?final = "snapshotAfterPlan snap plan"
  have no_hist: "pl_HistoricalMints plan = []"
    by (rule PlanBook_finished [OF assms(2-4)]) (simp add: finished_no_history)
  from assms(1) obtain rawPlan where rp: "PlanBook E book at raw ?final = Some rawPlan"
    by (auto simp: attachRawHistoricalUnits_def Let_def split: option.splits)
  show ?thesis
  proof (cases "pl_Mints rawPlan = []")
    case True
    then show ?thesis using assms(1) rp no_hist
      by (auto simp: attachRawHistoricalUnits_def Let_def intro!: exI [of _ "[]"])
  next
    case False
    define hs where "hs = map raw_unit (pl_Mints rawPlan)"
    define rawEdges where
      "rawEdges = filter (\<lambda>e. e_SuccessorID e \<in> set (map u_ID (pl_Mints rawPlan))) (pl_Edges rawPlan)"
    obtain edges seen edged where run: "historical_edges hs (s_Active ?final) rawEdges
        (nub (map e_PredecessorID rawEdges)) ((pl_Edges plan, []), []) = ((edges, seen), edged)"
      by (metis prod.exhaust)
    have nul: "\<forall>h\<in>set hs. no_nul (u_ID h)"
      using minted_no_nul [OF rp snapshot_after_ok [OF assms(2-4)] assms(4,5)]
      by (auto simp: hs_def raw_unit_def)
    have "history_inv hs (s_Active ?final) (pl_Edges plan) ((pl_Edges plan, []), [])"
      by (simp add: history_inv_def)
    from history_inv_edges [OF this nul, of rawEdges "nub (map e_PredecessorID rawEdges)"] run
    obtain es where es: "edges = pl_Edges plan @ es"
      "\<forall>e\<in>set es. historical_edge hs (s_Active ?final) e \<and> e_PredecessorID e \<in> set edged"
      "\<forall>i\<in>set edged. \<exists>e\<in>set es. e_PredecessorID e = i"
      by (auto simp: history_inv_def)
    note att = attach_eq [OF rp False no_hist, folded hs_def rawEdges_def, OF run]
    have plan': "pl_Mints plan' = pl_Mints plan" "pl_Updates plan' = pl_Updates plan"
      "pl_Retires plan' = pl_Retires plan" "pl_ExpectedActive plan' = pl_ExpectedActive plan"
      "pl_Edges plan' = edges" "pl_HistoricalMints plan' = map (mark_edged edged) hs"
      using option.inject [THEN iffD1, OF trans [OF att [symmetric] assms(1)], symmetric]
      by (simp_all only: attached_plan_sel)
    have "\<forall>h\<in>set (map (mark_edged edged) hs). u_Lifecycle h =
        (if \<exists>e\<in>set es. e_PredecessorID e = u_ID h then UnitLifecycleSuperseded else UnitLifecycleTombstoned)"
      unfolding hs_def by (rule marked_lifecycle) (use es(2,3) in \<open>blast+\<close>)
    moreover have "\<forall>e\<in>set es. historical_edge (pl_HistoricalMints plan') (s_Active ?final) e"
      unfolding plan'(6) using es(2) marked_edge by blast
    ultimately have "\<exists>es. pl_Edges plan' = pl_Edges plan @ es \<and>
       (\<forall>e\<in>set es. historical_edge (pl_HistoricalMints plan') (s_Active ?final) e) \<and>
       (\<forall>h\<in>set (pl_HistoricalMints plan'). u_Lifecycle h =
          (if \<exists>e\<in>set es. e_PredecessorID e = u_ID h
           then UnitLifecycleSuperseded else UnitLifecycleTombstoned))"
      unfolding plan'(5,6) es(1) by blast
    with plan'(1-4) show ?thesis by (simp only: simp_thms)
  qed
qed

lemma attach_total:
  assumes "PlanBook E book at raw (snapshotAfterPlan snap plan) = Some rawPlan"
  shows "\<exists>plan'. attachRawHistoricalUnits E book at raw snap plan = Some plan'"
  unfolding attachRawHistoricalUnits_def Let_def assms option.case by (auto split: prod.splits)

lemma sample_no_nul: "no_nul (env_uuid5 sample_env x)"
  using hashKey_chars [of "CHR 0x00" x] by (auto simp: sample_env_def no_nul_def byte_def)

theorem raw_history_attached_witness:
  "\<exists>plan plan'. PlanBook sample_env 7 0 sample_book sample_snapshot = Some plan \<and>
     attachRawHistoricalUnits sample_env 7 0 [sample_derived ''paragraph'' ''r'' '''' (- 1) 0]
       sample_snapshot plan = Some plan' \<and> pl_Mints plan' = pl_Mints plan"
proof -
  obtain plan where p: "PlanBook sample_env 7 0 sample_book sample_snapshot = Some plan"
    using sample_plan by blast
  let ?raw = "[sample_derived ''paragraph'' ''r'' '''' (- 1) 0]"
  have "\<forall>d\<in>set ?raw. plain_slot d" by (simp add: sample_derived_def plain_slot_def no_bar_def)
  then have "\<exists>q. PlanBook sample_env 7 0 ?raw (snapshotAfterPlan sample_snapshot plan) = Some q"
    by (intro PlanBook_total collision_freeI) (simp_all add: normalize_slots sample_ok(4))
  then obtain plan' where a: "attachRawHistoricalUnits sample_env 7 0 ?raw sample_snapshot plan = Some plan'"
    using attach_total by blast
  show ?thesis
    using raw_history_attached [OF a p sample_ok(1,2)] sample_no_nul a p by blast
qed

end
