(* ===== verification/Auth_Store.thy ===== *)
theory Auth_Store
  imports Policy
begin

text \<open>
  The database behind the account use cases (\<open>internal/repo/persistent\<close>) and the small monad
  its operations run in, with the rate limiter of \<open>user_postgres.go\<close> and \<open>user.go\<close>.

  A table is a list of rows. Every SQL statement consumes one entry of a schedule of database
  faults; a faulty statement changes nothing and reports \<open>ErrDB\<close>, and a transaction whose body
  or commit fails leaves the tables as they were. Error wrapping with \<open>%w\<close> keeps the identity
  that \<open>errors.Is\<close> tests, so it is not visible. Times are integers (nanoseconds since the Unix
  epoch); \<open>db_clock\<close> is the clock behind SQL \<open>now()\<close>, while the application clock is an argument of
  the operations. A user row keeps the columns the operations read, an audit row its event,
  outcome and user; creation and update stamps are left out. The audit log and the statements of a
  transaction are atomic steps: requests interleave between statements, never inside one. A value
  a column type rejects is one more database fault.
\<close>

datatype auth_error =
  ErrDB | ErrUserNotFound | ErrInvalidRefreshToken | ErrRefreshSessionExpired
| ErrInvalidAuthInput | ErrInvalidCredentials | ErrAuthSessionNotFound | ErrAccountLocked
| ErrAuthRateLimited int | ErrRandom | ErrSigning | ErrEmailNotVerified | ErrEmailDeliveryFailed
| ErrMFAAlreadyEnabled | ErrMFANotEnabled | ErrMFAEnrollmentNotStarted | ErrInvalidMFACode
| ErrInvalidMFAChallenge | ErrInvalidMFAReset | ErrMFAStepUpRequired | ErrCrypto
| ErrUserAlreadyExists | ErrInvalidVerificationToken | ErrVerificationTokenNotFound
| ErrVerificationRateLimited | ErrInvalidPasswordResetToken | ErrPasswordResetTokenNotFound
| ErrPasswordResetRateLimited | ErrInvalidEmailChangeToken | ErrEmailChangeTokenNotFound
| ErrEmailChangeRateLimited | ErrLastAdmin | ErrSelfRoleChange | ErrRole role_error

record AuthSession =
  as_ID :: string
  as_FamilyID :: string
  as_UserID :: string
  as_RefreshTokenHash :: string
  as_TokenVersion :: int
  as_UserAgent :: string
  as_ClientIP :: string
  as_CreatedAt :: int
  as_LastUsedAt :: int
  as_ExpiresAt :: int
  as_RevokedAt :: "int option"
  as_ReplacedByID :: "string option"
  as_MFAVerifiedAt :: "int option"

record user_row =
  usr_ID :: string
  usr_Email :: string
  usr_Role :: string
  usr_TokenVersion :: int
  usr_DeletedAt :: "int option"
  usr_PasswordHash :: string
  usr_EmailVerified :: bool
  usr_MFAEnforcedFrom :: "int option"
  usr_Username :: string
  usr_EmailVerifiedAt :: "int option"

record AuthRateLimit =
  rl_Action :: string
  rl_KeyHash :: string
  rl_WindowStart :: int
  rl_WindowSeconds :: int
  rl_MaxAttempts :: int
  rl_ExpiresAt :: int

record limit_row =
  lr_Action :: string
  lr_KeyHash :: string
  lr_WindowStart :: int
  lr_WindowSeconds :: int
  lr_Count :: int
  lr_ExpiresAt :: int

record AuthLoginLockout =
  lk_KeyHash :: string
  lk_ConsecutiveFailures :: int
  lk_LockedUntil :: "int option"
  lk_LastFailureAt :: int

record UserMFA =
  mfa_UserID :: string
  mfa_TOTPSecretEnc :: string
  mfa_LastUsedTOTPStep :: int
  mfa_ConfirmedAt :: "int option"

record recovery_row =
  rec_UserID :: string
  rec_CodeHash :: string
  rec_UsedAt :: "int option"

record MFAChallenge =
  ch_ID :: string
  ch_UserID :: string
  ch_Purpose :: string
  ch_TokenHash :: string
  ch_OTPHash :: "string option"
  ch_OTPExpiresAt :: "int option"
  ch_ExpiresAt :: int
  ch_ConsumedAt :: "int option"
  ch_ClientIP :: string
  ch_UserAgent :: string

record audit_row =
  au_Event :: string
  au_OK :: bool
  au_UserID :: string

text \<open>
  The rows of \<open>email_verification_tokens\<close>, \<open>password_reset_tokens\<close> and \<open>email_change_tokens\<close>
  share one record: \<open>tk_OTPHash\<close> and \<open>tk_OTPExpiresAt\<close> stay empty in a reset row, \<open>tk_NewEmail\<close>
  is filled in a change row only.
\<close>

datatype token_table = VerificationTokens | ResetTokens | ChangeTokens

record auth_token =
  tk_ID :: string
  tk_UserID :: string
  tk_NewEmail :: string
  tk_TokenHash :: string
  tk_OTPHash :: string
  tk_OTPExpiresAt :: "int option"
  tk_ExpiresAt :: int
  tk_UsedAt :: "int option"
  tk_SentAt :: int
  tk_CreatedAt :: int

record profile_row =
  pr_UserID :: string
  pr_DisplayName :: "string option"
  pr_Timezone :: "string option"
  pr_CountryCode :: "string option"
  pr_PersonalizationEnabled :: bool

record OneSignalErasureCreate =
  er_ID :: string
  er_AppID :: string
  er_ExternalIDCiphertext :: string
  er_ExternalIDHash :: string
  er_NextAttemptAt :: int

text \<open>
  \<open>db_owned\<close> lists, as table name and owner, the rows of the tables of which the account
  operations only ask who owns a row.
\<close>

record auth_db =
  db_users :: "user_row list"
  db_sessions :: "AuthSession list"
  db_limits :: "limit_row list"
  db_lockouts :: "AuthLoginLockout list"
  db_audit :: "audit_row list"
  db_clock :: int
  db_faults :: "bool list"
  db_mfa :: "UserMFA list"
  db_codes :: "recovery_row list"
  db_challenges :: "MFAChallenge list"
  db_tokens :: "token_table \<Rightarrow> auth_token list"
  db_profiles :: "profile_row list"
  db_owned :: "(string \<times> string) list"
  db_erasures :: "OneSignalErasureCreate list"

section \<open>Operations\<close>

type_synonym 'a op = "auth_db \<Rightarrow> (auth_error + 'a) \<times> auth_db"

definition op_ret :: "'a \<Rightarrow> 'a op" where
  "op_ret x db = (Inr x, db)"

definition op_fail :: "auth_error \<Rightarrow> 'a op" where
  "op_fail e db = (Inl e, db)"

definition op_bind :: "'a op \<Rightarrow> ('a \<Rightarrow> 'b op) \<Rightarrow> 'b op" where
  "op_bind m f db = (case m db of (Inl e, db') \<Rightarrow> (Inl e, db') | (Inr x, db') \<Rightarrow> f x db')"

text \<open>\<open>op_try\<close> inspects the error, the code's \<open>if err != nil\<close> with a body of its own.\<close>

definition op_try :: "'a op \<Rightarrow> (auth_error \<Rightarrow> 'b op) \<Rightarrow> ('a \<Rightarrow> 'b op) \<Rightarrow> 'b op" where
  "op_try m h f db = (case m db of (Inl e, db') \<Rightarrow> h e db' | (Inr x, db') \<Rightarrow> f x db')"

definition statement :: "'a op \<Rightarrow> 'a op" where
  "statement s db =
     (case db_faults db of
        [] \<Rightarrow> s db
      | f # fs \<Rightarrow> if f then (Inl ErrDB, db\<lparr>db_faults := fs\<rparr>) else s (db\<lparr>db_faults := fs\<rparr>))"

definition transaction :: "'a op \<Rightarrow> 'a op" where
  "transaction m db =
     (case op_bind (statement (op_ret ())) (\<lambda>_. op_bind m (\<lambda>x.
             op_bind (statement (op_ret ())) (\<lambda>_. op_ret x))) db of
        (Inl e, db') \<Rightarrow> (Inl e, db\<lparr>db_faults := db_faults db'\<rparr>)
      | (Inr x, db') \<Rightarrow> (Inr x, db'))"

lemmas op_defs = op_ret_def op_fail_def op_bind_def op_try_def

text \<open>The tables, without the fault schedule: what a statement may read and write.\<close>

definition tables_eq :: "auth_db \<Rightarrow> auth_db \<Rightarrow> bool" where
  "tables_eq db db' \<longleftrightarrow> db\<lparr>db_faults := []\<rparr> = db'\<lparr>db_faults := []\<rparr>"

section \<open>Keeping a predicate\<close>

named_theorems op_keeps

definition blind :: "(auth_db \<Rightarrow> bool) \<Rightarrow> bool" where
  "blind P \<longleftrightarrow> (\<forall>db fs. P (db\<lparr>db_faults := fs\<rparr>) = P db)"

definition keeps_op :: "(auth_db \<Rightarrow> bool) \<Rightarrow> 'a op \<Rightarrow> bool" where
  "keeps_op P m \<longleftrightarrow> (\<forall>db. P db \<longrightarrow> P (snd (m db)))"

lemma blindI: "(\<And>db fs. P (db\<lparr>db_faults := fs\<rparr>) = P db) \<Longrightarrow> blind P"
  by (simp add: blind_def)

lemma keeps_ret [op_keeps]: "keeps_op P (op_ret x)" "keeps_op P (op_fail e)"
  by (simp_all add: keeps_op_def op_defs)

lemma keeps_bind [op_keeps]:
  "keeps_op P m \<Longrightarrow> (\<And>x. keeps_op P (f x)) \<Longrightarrow> keeps_op P (op_bind m f)"
  unfolding keeps_op_def op_bind_def by (auto split: sum.splits prod.splits)

lemma keeps_try [op_keeps]:
  "keeps_op P m \<Longrightarrow> (\<And>e. keeps_op P (h e)) \<Longrightarrow> (\<And>x. keeps_op P (f x)) \<Longrightarrow>
   keeps_op P (op_try m h f)"
  unfolding keeps_op_def op_try_def by (auto split: sum.splits prod.splits)

lemma keeps_if [op_keeps]: "keeps_op P m \<Longrightarrow> keeps_op P n \<Longrightarrow> keeps_op P (if c then m else n)"
  by simp

lemma keeps_case_option [op_keeps]:
  "keeps_op P m \<Longrightarrow> (\<And>x. keeps_op P (f x)) \<Longrightarrow> keeps_op P (case v of None \<Rightarrow> m | Some x \<Rightarrow> f x)"
  by (cases v) simp_all

lemma keeps_statement [op_keeps]: "blind P \<Longrightarrow> keeps_op P s \<Longrightarrow> keeps_op P (statement s)"
  unfolding keeps_op_def statement_def blind_def by (auto split: list.splits)

lemma keeps_transaction [op_keeps]: "blind P \<Longrightarrow> keeps_op P m \<Longrightarrow> keeps_op P (transaction m)"
proof -
  assume P: "blind P" and m: "keeps_op P m"
  have "keeps_op P (op_bind (statement (op_ret ())) (\<lambda>_. op_bind m (\<lambda>x.
      op_bind (statement (op_ret ())) (\<lambda>_. op_ret x))))"
    using P m by (intro op_keeps)
  then show ?thesis
    using P unfolding keeps_op_def transaction_def blind_def
    by (auto split: sum.splits prod.splits)
qed

text \<open>An operation without faults left behaves like its body.\<close>

lemma statement_no_faults: "db_faults db = [] \<Longrightarrow> statement s db = s db"
  by (simp add: statement_def)

lemma transaction_no_faults:
  assumes "db_faults db = []" "m db = (r, db')" "db_faults db' = []"
  shows "transaction m db = (case r of Inl e \<Rightarrow> (Inl e, db) | Inr x \<Rightarrow> (Inr x, db'))"
proof -
  have "db\<lparr>db_faults := []\<rparr> = db" using assms(1) by (cases db) simp
  then show ?thesis
    using assms by (cases r) (simp_all add: transaction_def op_defs statement_def)
qed

text \<open>A failed transaction leaves the tables alone.\<close>

lemma transaction_atomic: "transaction m db = (Inl e, db') \<Longrightarrow> tables_eq db' db"
  by (auto simp: transaction_def tables_eq_def split: sum.splits prod.splits)

section \<open>Use case configuration\<close>

record auth_env =
  ae_sha256hex :: "string \<Rightarrow> string"
  ae_decode64 :: "string \<Rightarrow> string option"
  ae_encode64 :: "string \<Rightarrow> string"
  ae_truncate :: "nat \<Rightarrow> string \<Rightarrow> string"
  ae_lower :: "string \<Rightarrow> string"
  ae_sign :: "string \<Rightarrow> int \<Rightarrow> string \<Rightarrow> (string \<times> int) option"
  ae_upper :: "string \<Rightarrow> string"
  ae_bcrypt :: "string \<Rightarrow> string \<Rightarrow> bool"
  ae_validEmail :: "string \<Rightarrow> bool"
  ae_seal :: "string \<Rightarrow> string option"
  ae_open :: "string \<Rightarrow> string option"
  ae_totp :: "string \<Rightarrow> int \<Rightarrow> string option"
  ae_hash :: "string \<Rightarrow> string \<Rightarrow> string option"
  ae_equalFold :: "string \<Rightarrow> string \<Rightarrow> bool"
  ae_sqlLower :: "string \<Rightarrow> string"

record RateLimitRule =
  rule_Max :: int
  rule_Window :: int

record MFAOptions =
  mo_StepUpTTL :: int
  mo_EnrollmentGrace :: int
  mo_ChallengeTTL :: int
  mo_ResetTTL :: int
  mo_TOTPIssuer :: string

record LockoutOptions =
  lo_Enabled :: bool
  lo_Threshold :: int
  lo_BaseDuration :: int
  lo_Factor :: int
  lo_MaxDuration :: int

record auth_cfg =
  cfg_rateLimiter :: bool
  cfg_sessions :: bool
  cfg_lockout :: bool
  cfg_audit :: bool
  cfg_refreshTokenTTL :: int
  cfg_RefreshToken :: RateLimitRule
  cfg_RefreshIP :: RateLimitRule
  cfg_lockoutOptions :: LockoutOptions
  cfg_LoginEmail :: RateLimitRule
  cfg_LoginIP :: RateLimitRule
  cfg_mfa :: bool
  cfg_mfaOptions :: MFAOptions
  cfg_MFAVerifyToken :: RateLimitRule
  cfg_MFAVerifyIP :: RateLimitRule
  cfg_MFAStepUpUser :: RateLimitRule
  cfg_MFAStepUpIP :: RateLimitRule
  cfg_MFAResetEmail :: RateLimitRule
  cfg_MFAResetIP :: RateLimitRule

section \<open>Rate limits\<close>

definition limit_key :: "limit_row \<Rightarrow> string \<times> string \<times> int" where
  "limit_key r = (lr_Action r, lr_KeyHash r, lr_WindowStart r)"

definition request_key :: "AuthRateLimit \<Rightarrow> string \<times> string \<times> int" where
  "request_key l = (rl_Action l, rl_KeyHash l, rl_WindowStart l)"

definition limit_count :: "auth_db \<Rightarrow> string \<times> string \<times> int \<Rightarrow> int" where
  "limit_count db key =
     (case find (\<lambda>r. limit_key r = key) (db_limits db) of None \<Rightarrow> 0 | Some r \<Rightarrow> lr_Count r)"

text \<open>
  The upsert; of \<open>AuthRateLimitResult\<close> it returns the fields the callers read, \<open>Allowed\<close> and
  \<open>RetryAfter\<close>; \<open>wall\<close> is the clock of \<open>time.Until\<close>.
\<close>

definition IncrementAuthRateLimit :: "AuthRateLimit \<Rightarrow> int \<Rightarrow> (bool \<times> int) op" where
  "IncrementAuthRateLimit l wall = statement (\<lambda>db.
     case find (\<lambda>r. limit_key r = request_key l) (db_limits db) of
       None \<Rightarrow>
         (Inr (1 \<le> rl_MaxAttempts l, max (rl_ExpiresAt l - wall) 0),
          db\<lparr>db_limits := db_limits db @
            [\<lparr>lr_Action = rl_Action l, lr_KeyHash = rl_KeyHash l,
              lr_WindowStart = rl_WindowStart l, lr_WindowSeconds = rl_WindowSeconds l, lr_Count = 1,
              lr_ExpiresAt = rl_ExpiresAt l\<rparr>]\<rparr>)
     | Some r \<Rightarrow>
         let r' = r\<lparr>lr_Count := lr_Count r + 1, lr_WindowSeconds := rl_WindowSeconds l,
               lr_ExpiresAt := max (lr_ExpiresAt r) (rl_ExpiresAt l)\<rparr>
         in (Inr (lr_Count r' \<le> rl_MaxAttempts l, max (lr_ExpiresAt r' - wall) 0),
             db\<lparr>db_limits := map (\<lambda>q. if limit_key q = request_key l then r' else q) (db_limits db)\<rparr>))"

record rateLimitCheck =
  rc_keyType :: string
  rc_value :: string
  rc_rule :: RateLimitRule

definition authRateLimitKeyHash :: "auth_env \<Rightarrow> string \<Rightarrow> string \<Rightarrow> string \<Rightarrow> string" where
  "authRateLimitKeyHash E action keyType v =
     ae_sha256hex E (action @ [CHR 0x00] @ keyType @ [CHR 0x00] @ ae_lower E (trim_space v))"

text \<open>\<open>Time.Truncate\<close> counts from Go's zero time, 62135596800 seconds before the Unix epoch.\<close>

definition go_truncate :: "int \<Rightarrow> int \<Rightarrow> int" where
  "go_truncate t w = t - (t + 62135596800 * 10 ^ 9) mod w"

fun enforce_checks :: "auth_env \<Rightarrow> int \<Rightarrow> string \<Rightarrow> rateLimitCheck list \<Rightarrow> unit op" where
  "enforce_checks E now action [] = op_ret ()"
| "enforce_checks E now action (c # cs) =
     (let v = trim_space (rc_value c); w = rule_Window (rc_rule c) in
      if v = '''' \<or> rule_Max (rc_rule c) \<le> 0 \<or> w \<le> 0 then enforce_checks E now action cs
      else
        let start = go_truncate now w in
        op_bind (IncrementAuthRateLimit
            \<lparr>rl_Action = action, rl_KeyHash = authRateLimitKeyHash E action (rc_keyType c) v,
             rl_WindowStart = start, rl_WindowSeconds = w div 10 ^ 9, rl_MaxAttempts = rule_Max (rc_rule c),
             rl_ExpiresAt = start + w\<rparr> now)
          (\<lambda>(allowed, retry).
             if \<not> allowed then op_fail (ErrAuthRateLimited retry) else enforce_checks E now action cs))"

definition enforceAuthRateLimit ::
  "auth_cfg \<Rightarrow> auth_env \<Rightarrow> int \<Rightarrow> string \<Rightarrow> rateLimitCheck list \<Rightarrow> unit op" where
  "enforceAuthRateLimit C E now action checks =
     (if \<not> cfg_rateLimiter C then op_ret () else enforce_checks E now action checks)"

section \<open>Audit log\<close>

text \<open>The audit write never reports an error.\<close>

definition auditAuth :: "auth_cfg \<Rightarrow> string \<Rightarrow> bool \<Rightarrow> string \<Rightarrow> unit op" where
  "auditAuth C event success userID =
     (if \<not> cfg_audit C then op_ret ()
      else op_try (statement (\<lambda>db. (Inr (), db\<lparr>db_audit := db_audit db @
             [\<lparr>au_Event = event, au_OK = success, au_UserID = userID\<rparr>]\<rparr>)))
           (\<lambda>_. op_ret ()) (\<lambda>_. op_ret ()))"

text \<open>A deferred audit of the outcome: the body returns the user it resolved beside its result.\<close>

definition with_audit :: "auth_cfg \<Rightarrow> string \<Rightarrow> (string \<times> (auth_error + 'a)) op \<Rightarrow> 'a op" where
  "with_audit C event body =
     op_bind body (\<lambda>(userID, r).
       op_bind (auditAuth C event (case r of Inl _ \<Rightarrow> False | Inr _ \<Rightarrow> True) userID)
         (\<lambda>_. case r of Inl e \<Rightarrow> op_fail e | Inr x \<Rightarrow> op_ret x))"

end
