(* ===== verification/Auth_Session.thy ===== *)
theory Auth_Session
  imports Auth_Store
begin

text \<open>
  Refresh-token sessions: the statements of \<open>repo/persistent/auth_session_postgres.go\<close> and the
  use cases of \<open>usecase/user/session.go\<close> on top of them. A rotation chains rows through
  \<open>ReplacedByID\<close>; the rows of one chain share a family. A use case takes its request metadata,
  the application clock and the randomness it draws as arguments; a failing random source is
  \<open>None\<close>. SHA-256, base64, token signing and the rune truncation of user agents are the
  parameters of \<open>auth_env\<close>.
\<close>

section \<open>Repository\<close>

record AuthSessionValidity =
  av_Now :: int
  av_IdleCutoff :: int

text \<open>Primary key, unique token hash and the foreign key to \<open>users\<close> of \<open>auth_sessions\<close>.\<close>

definition session_insertable :: "auth_db \<Rightarrow> AuthSession \<Rightarrow> bool" where
  "session_insertable db s \<longleftrightarrow>
     list_all (\<lambda>r. as_ID r \<noteq> as_ID s \<and> as_RefreshTokenHash r \<noteq> as_RefreshTokenHash s) (db_sessions db) \<and>
     list_ex (\<lambda>u. usr_ID u = as_UserID s) (db_users db)"

definition insert_session :: "AuthSession \<Rightarrow> unit op" where
  "insert_session s = statement (\<lambda>db.
     if session_insertable db s then (Inr (), db\<lparr>db_sessions := db_sessions db @ [s]\<rparr>)
     else (Inl ErrDB, db))"

definition CreateAuthSession :: "AuthSession \<Rightarrow> unit op" where
  "CreateAuthSession s = insert_session s"

definition GetAuthSessionByTokenHash :: "string \<Rightarrow> AuthSession op" where
  "GetAuthSessionByTokenHash h = statement (\<lambda>db.
     case find (\<lambda>r. as_RefreshTokenHash r = h) (db_sessions db) of
       None \<Rightarrow> (Inl ErrInvalidRefreshToken, db)
     | Some s \<Rightarrow> (Inr s, db))"

definition lockAuthSessionRotationState :: "string \<Rightarrow> AuthSession op" where
  "lockAuthSessionRotationState oldID = statement (\<lambda>db.
     case find (\<lambda>r. as_ID r = oldID) (db_sessions db) of
       None \<Rightarrow> (Inl ErrInvalidRefreshToken, db)
     | Some s \<Rightarrow> (Inr s, db))"

definition rotation_validate :: "AuthSession \<Rightarrow> AuthSessionValidity \<Rightarrow> auth_error option" where
  "rotation_validate s v =
     (if as_RevokedAt s \<noteq> None \<or> as_ReplacedByID s \<noteq> None then Some ErrInvalidRefreshToken
      else if \<not> av_Now v < as_ExpiresAt s \<or> \<not> av_IdleCutoff v < as_LastUsedAt s
      then Some ErrRefreshSessionExpired
      else None)"

definition retirable :: "string \<Rightarrow> AuthSession \<Rightarrow> bool" where
  "retirable oldID r \<longleftrightarrow> as_ID r = oldID \<and> as_RevokedAt r = None \<and> as_ReplacedByID r = None"

definition retireAuthSession :: "string \<Rightarrow> string \<Rightarrow> int \<Rightarrow> unit op" where
  "retireAuthSession oldID replacementID now = statement (\<lambda>db.
     let db' = db\<lparr>db_sessions := map (\<lambda>r. if retirable oldID r
           then r\<lparr>as_RevokedAt := Some now, as_ReplacedByID := Some replacementID, as_LastUsedAt := now\<rparr>
           else r) (db_sessions db)\<rparr>
     in if length (filter (retirable oldID) (db_sessions db)) \<noteq> 1
        then (Inl ErrInvalidRefreshToken, db') else (Inr (), db'))"

definition RotateAuthSession :: "string \<Rightarrow> AuthSession \<Rightarrow> AuthSessionValidity \<Rightarrow> unit op" where
  "RotateAuthSession oldID nxt v = transaction
     (op_bind (lockAuthSessionRotationState oldID) (\<lambda>state.
        case rotation_validate state v of
          Some e \<Rightarrow> op_fail e
        | None \<Rightarrow> op_bind (retireAuthSession oldID (as_ID nxt) (av_Now v)) (\<lambda>_. insert_session nxt)))"

definition revoke_where :: "(AuthSession \<Rightarrow> bool) \<Rightarrow> int op" where
  "revoke_where P = statement (\<lambda>db.
     (Inr (int (length (filter (\<lambda>r. P r \<and> as_RevokedAt r = None) (db_sessions db)))),
      db\<lparr>db_sessions := map (\<lambda>r. if P r \<and> as_RevokedAt r = None
           then r\<lparr>as_RevokedAt := Some (db_clock db)\<rparr> else r) (db_sessions db)\<rparr>))"

definition RevokeAuthSessionFamily :: "string \<Rightarrow> int op" where
  "RevokeAuthSessionFamily familyID = revoke_where (\<lambda>r. as_FamilyID r = familyID)"

definition bump_token_version :: "string \<Rightarrow> unit op" where
  "bump_token_version userID = statement (\<lambda>db.
     let hit = (\<lambda>u. usr_ID u = userID \<and> usr_DeletedAt u = None);
         db' = db\<lparr>db_users := map (\<lambda>u. if hit u
           then u\<lparr>usr_TokenVersion := usr_TokenVersion u + 1\<rparr> else u) (db_users db)\<rparr>
     in if length (filter hit (db_users db)) \<noteq> 1 then (Inl ErrUserNotFound, db') else (Inr (), db'))"

definition RevokeAllAuthSessions :: "string \<Rightarrow> int op" where
  "RevokeAllAuthSessions userID = transaction
     (op_bind (bump_token_version userID) (\<lambda>_. revoke_where (\<lambda>r. as_UserID r = userID)))"

definition session_live :: "AuthSessionValidity \<Rightarrow> AuthSession \<Rightarrow> bool" where
  "session_live v r \<longleftrightarrow>
     as_RevokedAt r = None \<and> av_Now v < as_ExpiresAt r \<and> av_IdleCutoff v < as_LastUsedAt r"

definition ListActiveAuthSessions :: "string \<Rightarrow> AuthSessionValidity \<Rightarrow> AuthSession list op" where
  "ListActiveAuthSessions userID v = statement (\<lambda>db.
     (Inr (sort_key (\<lambda>r. - as_LastUsedAt r)
        (filter (\<lambda>r. as_UserID r = userID \<and> session_live v r) (db_sessions db))), db))"

definition RevokeAuthSessionByID :: "string \<Rightarrow> string \<Rightarrow> AuthSessionValidity \<Rightarrow> unit op" where
  "RevokeAuthSessionByID userID sessionID v =
     op_bind (statement (\<lambda>db.
        case find (\<lambda>r. as_ID r = sessionID \<and> as_UserID r = userID \<and> session_live v r) (db_sessions db) of
          None \<Rightarrow> (Inl ErrAuthSessionNotFound, db)
        | Some r \<Rightarrow> (Inr (as_FamilyID r), db)))
      (\<lambda>familyID. op_bind (RevokeAuthSessionFamily familyID) (\<lambda>_. op_ret ()))"

definition user_GetByID :: "string \<Rightarrow> user_row op" where
  "user_GetByID i = statement (\<lambda>db.
     case find (\<lambda>u. usr_ID u = i \<and> usr_DeletedAt u = None) (db_users db) of
       None \<Rightarrow> (Inl ErrUserNotFound, db)
     | Some u \<Rightarrow> (Inr u, db))"

section \<open>Use cases\<close>

record session_request =
  rq_now :: int
  rq_newID :: string
  rq_random :: "string option"
  rq_UserAgent :: string
  rq_ClientIP :: string
  rq_Transport :: string

record LoginResult =
  lr_User :: user_row
  lr_SessionID :: string
  lr_AccessToken :: string
  lr_AccessExpiresAt :: int
  lr_RefreshToken :: string
  lr_RefreshExpiresAt :: int
  lr_MFARequired :: bool
  lr_MFAToken :: string
  lr_MFATokenExpiresAt :: "int option"

definition refreshTokenBytes :: nat where "refreshTokenBytes = 32"
definition maxResetTokenInputBytes :: nat where "maxResetTokenInputBytes = 512"
definition maxEmailUserAgentRunes :: nat where "maxEmailUserAgentRunes = 160"
definition unknownAuthMetadata :: string where "unknownAuthMetadata = ''unknown''"

definition hashTokenBytes :: "auth_env \<Rightarrow> string \<Rightarrow> string" where
  "hashTokenBytes E raw = ae_sha256hex E raw"

definition hashRefreshToken :: "auth_env \<Rightarrow> string \<Rightarrow> string option" where
  "hashRefreshToken E token =
     (case ae_decode64 E (trim_space token) of
        None \<Rightarrow> None
      | Some raw \<Rightarrow> if length raw \<noteq> refreshTokenBytes then None else Some (hashTokenBytes E raw))"

definition authSessionValidity :: "auth_cfg \<Rightarrow> int \<Rightarrow> AuthSessionValidity" where
  "authSessionValidity C now = \<lparr>av_Now = now, av_IdleCutoff = now - cfg_refreshTokenTTL C\<rparr>"

definition effectiveAuthSessionDeadline :: "auth_cfg \<Rightarrow> AuthSession \<Rightarrow> int" where
  "effectiveAuthSessionDeadline C s =
     (let idle = as_LastUsedAt s + cfg_refreshTokenTTL C in
      if as_ExpiresAt s < idle then as_ExpiresAt s else idle)"

definition new_session :: "auth_cfg \<Rightarrow> auth_env \<Rightarrow> session_request \<Rightarrow> user_row \<Rightarrow> string \<Rightarrow> string \<Rightarrow> AuthSession" where
  "new_session C E q user familyID raw =
     \<lparr>as_ID = rq_newID q, as_FamilyID = familyID, as_UserID = usr_ID user,
      as_RefreshTokenHash = hashTokenBytes E raw, as_TokenVersion = usr_TokenVersion user,
      as_UserAgent = ae_truncate E maxEmailUserAgentRunes (rq_UserAgent q),
      as_ClientIP = trim_space (rq_ClientIP q), as_CreatedAt = rq_now q, as_LastUsedAt = rq_now q,
      as_ExpiresAt = rq_now q + cfg_refreshTokenTTL C, as_RevokedAt = None,
      as_ReplacedByID = None, as_MFAVerifiedAt = None\<rparr>"

definition issueSessionRowAt ::
  "auth_cfg \<Rightarrow> auth_env \<Rightarrow> session_request \<Rightarrow> user_row \<Rightarrow> string \<Rightarrow> (AuthSession \<Rightarrow> unit op) \<Rightarrow>
   LoginResult op" where
  "issueSessionRowAt C E q user familyID store =
     (case rq_random q of
        None \<Rightarrow> op_fail ErrRandom
      | Some raw \<Rightarrow>
          op_bind (store (new_session C E q user familyID raw)) (\<lambda>_.
            case ae_sign E (usr_ID user) (usr_TokenVersion user) familyID of
              None \<Rightarrow> op_fail ErrSigning
            | Some (token, expires) \<Rightarrow> op_ret
                \<lparr>lr_User = user, lr_SessionID = familyID, lr_AccessToken = token,
                 lr_AccessExpiresAt = expires, lr_RefreshToken = ae_encode64 E raw,
                 lr_RefreshExpiresAt = rq_now q + cfg_refreshTokenTTL C,
                 lr_MFARequired = False, lr_MFAToken = '''', lr_MFATokenExpiresAt = None\<rparr>))"

definition issueSession :: "auth_cfg \<Rightarrow> auth_env \<Rightarrow> session_request \<Rightarrow> user_row \<Rightarrow> LoginResult op" where
  "issueSession C E q user =
     issueSessionRowAt C E q user (rq_newID q)
       (\<lambda>s. if \<not> cfg_sessions C then op_ret () else CreateAuthSession s)"

text \<open>A best-effort revocation: its error is dropped.\<close>

definition revoke_quietly :: "string \<Rightarrow> unit op" where
  "revoke_quietly familyID = op_try (RevokeAuthSessionFamily familyID) (\<lambda>_. op_ret ()) (\<lambda>_. op_ret ())"

definition revokeSessionFamilyForReuse :: "auth_cfg \<Rightarrow> AuthSession \<Rightarrow> unit op" where
  "revokeSessionFamilyForReuse C s =
     op_bind (revoke_quietly (as_FamilyID s))
       (\<lambda>_. auditAuth C ''refresh_reuse_detected'' False (as_UserID s))"

definition userForRefreshableSession :: "auth_cfg \<Rightarrow> AuthSession \<Rightarrow> int \<Rightarrow> user_row op" where
  "userForRefreshableSession C s now =
     (if as_RevokedAt s \<noteq> None \<or> as_ReplacedByID s \<noteq> None then
        op_bind (revokeSessionFamilyForReuse C s) (\<lambda>_. op_fail ErrInvalidRefreshToken)
      else if \<not> now < effectiveAuthSessionDeadline C s then op_fail ErrInvalidRefreshToken
      else op_try (user_GetByID (as_UserID s))
        (\<lambda>e. if e = ErrUserNotFound
             then op_bind (revoke_quietly (as_FamilyID s)) (\<lambda>_. op_fail ErrInvalidRefreshToken)
             else op_fail e)
        (\<lambda>user. if usr_TokenVersion user \<noteq> as_TokenVersion s
             then op_bind (revoke_quietly (as_FamilyID s)) (\<lambda>_. op_fail ErrInvalidRefreshToken)
             else op_ret user))"

definition inherit_session :: "AuthSession \<Rightarrow> AuthSession \<Rightarrow> AuthSession" where
  "inherit_session s nxt =
     nxt\<lparr>as_MFAVerifiedAt := as_MFAVerifiedAt s,
        as_UserAgent := (if as_UserAgent nxt = '''' then as_UserAgent s else as_UserAgent nxt),
        as_ClientIP := (if as_ClientIP nxt = '''' \<or> as_ClientIP nxt = unknownAuthMetadata
          then as_ClientIP s else as_ClientIP nxt)\<rparr>"

definition rotate_and_issue ::
  "auth_cfg \<Rightarrow> auth_env \<Rightarrow> session_request \<Rightarrow> AuthSession \<Rightarrow> LoginResult op" where
  "rotate_and_issue C E q s =
     op_bind (userForRefreshableSession C s (rq_now q)) (\<lambda>user.
       op_try (issueSessionRowAt C E q user (as_FamilyID s) (\<lambda>nxt.
           RotateAuthSession (as_ID s) (inherit_session s nxt) (authSessionValidity C (rq_now q))))
         (\<lambda>e. if e = ErrRefreshSessionExpired then op_fail ErrInvalidRefreshToken
              else if e = ErrInvalidRefreshToken
              then op_bind (revokeSessionFamilyForReuse C s) (\<lambda>_. op_fail ErrInvalidRefreshToken)
              else op_fail e)
         op_ret)"

definition caught :: "string \<Rightarrow> 'a op \<Rightarrow> (string \<times> (auth_error + 'a)) op" where
  "caught userID m db = (case m db of (r, db') \<Rightarrow> (Inr (userID, r), db'))"

definition RefreshSession ::
  "auth_cfg \<Rightarrow> auth_env \<Rightarrow> session_request \<Rightarrow> string \<Rightarrow> LoginResult op" where
  "RefreshSession C E q refreshToken = with_audit C ''session_refresh''
     (let token = trim_space refreshToken in
      if \<not> cfg_sessions C \<or> maxResetTokenInputBytes < length token
      then caught '''' (op_fail ErrInvalidRefreshToken)
      else op_try (enforceAuthRateLimit C E (rq_now q) ''session_refresh''
             [\<lparr>rc_keyType = ''token'', rc_value = token, rc_rule = cfg_RefreshToken C\<rparr>,
              \<lparr>rc_keyType = ''ip'', rc_value = rq_ClientIP q, rc_rule = cfg_RefreshIP C\<rparr>])
           (\<lambda>e. caught '''' (op_fail e))
           (\<lambda>_. case hashRefreshToken E token of
              None \<Rightarrow> caught '''' (op_fail ErrInvalidRefreshToken)
            | Some h \<Rightarrow> op_try (GetAuthSessionByTokenHash h)
                (\<lambda>e. caught '''' (op_fail e))
                (\<lambda>s. caught (as_UserID s) (rotate_and_issue C E q s))))"

definition Logout :: "auth_cfg \<Rightarrow> auth_env \<Rightarrow> session_request \<Rightarrow> string \<Rightarrow> unit op" where
  "Logout C E q refreshToken = with_audit C ''logout''
     (let token = trim_space refreshToken in
      if token = '''' \<or> maxResetTokenInputBytes < length token
      then caught '''' (op_fail ErrInvalidAuthInput)
      else op_try (enforceAuthRateLimit C E (rq_now q) ''logout''
             [\<lparr>rc_keyType = ''ip'', rc_value = rq_ClientIP q, rc_rule = cfg_RefreshIP C\<rparr>])
           (\<lambda>e. caught '''' (op_fail e))
           (\<lambda>_. if \<not> cfg_sessions C then caught '''' (op_ret ())
            else case hashRefreshToken E token of
              None \<Rightarrow> caught '''' (op_fail ErrInvalidAuthInput)
            | Some h \<Rightarrow> op_try (GetAuthSessionByTokenHash h)
                (\<lambda>e. caught '''' (if e = ErrInvalidRefreshToken then op_ret () else op_fail e))
                (\<lambda>s. caught (as_UserID s)
                   (op_bind (RevokeAuthSessionFamily (as_FamilyID s)) (\<lambda>_. op_ret ())))))"

definition LogoutAll :: "auth_cfg \<Rightarrow> string \<Rightarrow> unit op" where
  "LogoutAll C userID = with_audit C ''logout_all''
     (let u = trim_space userID in caught u
       (if u = '''' then op_fail ErrInvalidAuthInput
        else if \<not> cfg_sessions C then op_ret ()
        else op_try (RevokeAllAuthSessions u)
          (\<lambda>e. if e = ErrUserNotFound then op_fail ErrInvalidCredentials else op_fail e)
          (\<lambda>_. op_ret ())))"

definition ListSessions :: "auth_cfg \<Rightarrow> int \<Rightarrow> string \<Rightarrow> AuthSession list op" where
  "ListSessions C now userID =
     (let u = trim_space userID in
      if u = '''' then op_fail ErrInvalidAuthInput
      else if \<not> cfg_sessions C then op_ret []
      else op_bind (ListActiveAuthSessions u (authSessionValidity C now)) (\<lambda>ss.
        op_ret (map (\<lambda>s. s\<lparr>as_ExpiresAt := effectiveAuthSessionDeadline C s\<rparr>) ss)))"

text \<open>\<open>uuid.Parse\<close> is the parameter \<open>is_uuid\<close>.\<close>

definition RevokeSession :: "auth_cfg \<Rightarrow> (string \<Rightarrow> bool) \<Rightarrow> int \<Rightarrow> string \<Rightarrow> string \<Rightarrow> unit op" where
  "RevokeSession C is_uuid now userID sessionID = with_audit C ''session_revoke''
     (let u = trim_space userID; sid = trim_space sessionID in caught u
       (if u = '''' \<or> sid = '''' then op_fail ErrInvalidAuthInput
        else if \<not> is_uuid sid then op_fail ErrAuthSessionNotFound
        else if \<not> cfg_sessions C then op_fail ErrAuthSessionNotFound
        else RevokeAuthSessionByID u sid (authSessionValidity C now)))"

section \<open>Maintenance (auth\_maintenance\_postgres.go)\<close>

definition lockoutStaleWindow :: int where "lockoutStaleWindow = 24 * 3600 * 1000000000"

definition delete_dead_sessions :: "int \<Rightarrow> int op" where
  "delete_dead_sessions cutoff = statement (\<lambda>db.
     let dead = (\<lambda>r. (case as_RevokedAt r of Some t \<Rightarrow> t | None \<Rightarrow> as_ExpiresAt r) \<le> cutoff)
     in (Inr (int (length (filter dead (db_sessions db)))),
         db\<lparr>db_sessions := filter (\<lambda>r. \<not> dead r) (db_sessions db)\<rparr>))"

definition delete_stale_lockouts :: "int \<Rightarrow> int op" where
  "delete_stale_lockouts now = statement (\<lambda>db.
     let stale = (\<lambda>r. lk_LastFailureAt r \<le> now - lockoutStaleWindow \<and>
           (case lk_LockedUntil r of None \<Rightarrow> True | Some t \<Rightarrow> t \<le> now))
     in (Inr (int (length (filter stale (db_lockouts db)))),
         db\<lparr>db_lockouts := filter (\<lambda>r. \<not> stale r) (db_lockouts db)\<rparr>))"

definition delete_spent_limits :: "int \<Rightarrow> int op" where
  "delete_spent_limits now = statement (\<lambda>db.
     (Inr (int (length (filter (\<lambda>r. lr_ExpiresAt r \<le> now) (db_limits db)))),
      db\<lparr>db_limits := filter (\<lambda>r. \<not> lr_ExpiresAt r \<le> now) (db_limits db)\<rparr>))"

end
