(* ===== verification/Mfa_Store.thy ===== *)
theory Mfa_Store
  imports Auth_Session
begin

text \<open>
  The statements behind the second factor (\<open>repo/persistent/mfa_postgres.go\<close>): the TOTP
  enrolment with its monotonic step guard, the one-time recovery codes, the short-lived
  challenges, the step-up stamp of a session and the read behind the step-up gate.
\<close>

section \<open>Enrolment\<close>

text \<open>One row per user: the upsert replaces a pending secret and leaves a confirmed row alone.\<close>

definition UpsertPendingMFA :: "string \<Rightarrow> string \<Rightarrow> unit op" where
  "UpsertPendingMFA userID secretEnc = statement (\<lambda>db.
     if \<not> list_ex (\<lambda>u. usr_ID u = userID) (db_users db) then (Inl ErrDB, db)
     else case find (\<lambda>m. mfa_UserID m = userID) (db_mfa db) of
       None \<Rightarrow> (Inr (), db\<lparr>db_mfa := db_mfa db @
         [\<lparr>mfa_UserID = userID, mfa_TOTPSecretEnc = secretEnc, mfa_LastUsedTOTPStep = 0,
           mfa_ConfirmedAt = None\<rparr>]\<rparr>)
     | Some m \<Rightarrow>
         if mfa_ConfirmedAt m \<noteq> None then (Inl ErrMFAAlreadyEnabled, db)
         else (Inr (), db\<lparr>db_mfa := map (\<lambda>m. if mfa_UserID m = userID
             then m\<lparr>mfa_TOTPSecretEnc := secretEnc, mfa_LastUsedTOTPStep := 0\<rparr> else m) (db_mfa db)\<rparr>))"

definition GetMFA :: "string \<Rightarrow> UserMFA op" where
  "GetMFA userID = statement (\<lambda>db.
     case find (\<lambda>m. mfa_UserID m = userID) (db_mfa db) of
       None \<Rightarrow> (Inl ErrMFANotEnabled, db)
     | Some m \<Rightarrow> (Inr m, db))"

text \<open>A guarded update of the table \<open>user_mfa\<close>: it must hit exactly one row.\<close>

definition update_mfa :: "auth_error \<Rightarrow> (UserMFA \<Rightarrow> bool) \<Rightarrow> (int \<Rightarrow> UserMFA \<Rightarrow> UserMFA) \<Rightarrow> unit op" where
  "update_mfa e hit f = statement (\<lambda>db.
     let db' = db\<lparr>db_mfa := map (\<lambda>m. if hit m then f (db_clock db) m else m) (db_mfa db)\<rparr>
     in if length (filter hit (db_mfa db)) \<noteq> 1 then (Inl e, db') else (Inr (), db'))"

definition ConfirmMFA :: "string \<Rightarrow> unit op" where
  "ConfirmMFA userID = update_mfa ErrMFAEnrollmentNotStarted
     (\<lambda>m. mfa_UserID m = userID \<and> mfa_ConfirmedAt m = None)
     (\<lambda>now m. m\<lparr>mfa_ConfirmedAt := Some now\<rparr>)"

definition AdvanceMFATOTPStep :: "string \<Rightarrow> int \<Rightarrow> unit op" where
  "AdvanceMFATOTPStep userID step = update_mfa ErrInvalidMFACode
     (\<lambda>m. mfa_UserID m = userID \<and> mfa_LastUsedTOTPStep m < step)
     (\<lambda>now m. m\<lparr>mfa_LastUsedTOTPStep := step\<rparr>)"

definition DeleteMFA :: "string \<Rightarrow> unit op" where
  "DeleteMFA userID = transaction
     (op_bind (statement (\<lambda>db. (Inr (), db\<lparr>db_codes := filter (\<lambda>c. rec_UserID c \<noteq> userID) (db_codes db)\<rparr>)))
       (\<lambda>_. statement (\<lambda>db. (Inr (), db\<lparr>db_mfa := filter (\<lambda>m. mfa_UserID m \<noteq> userID) (db_mfa db)\<rparr>))))"

section \<open>Recovery codes\<close>

text \<open>\<open>code_hash\<close> is unique over the table, and the user must exist.\<close>

definition insert_code :: "string \<Rightarrow> string \<Rightarrow> unit op" where
  "insert_code userID h = statement (\<lambda>db.
     if list_ex (\<lambda>c. rec_CodeHash c = h) (db_codes db) \<or> \<not> list_ex (\<lambda>u. usr_ID u = userID) (db_users db)
     then (Inl ErrDB, db)
     else (Inr (), db\<lparr>db_codes := db_codes db @
       [\<lparr>rec_UserID = userID, rec_CodeHash = h, rec_UsedAt = None\<rparr>]\<rparr>))"

fun insert_codes :: "string \<Rightarrow> string list \<Rightarrow> unit op" where
  "insert_codes userID [] = op_ret ()"
| "insert_codes userID (h # hs) = op_bind (insert_code userID h) (\<lambda>_. insert_codes userID hs)"

definition ReplaceRecoveryCodes :: "string \<Rightarrow> string list \<Rightarrow> unit op" where
  "ReplaceRecoveryCodes userID codeHashes = transaction
     (op_bind (statement (\<lambda>db. (Inr (), db\<lparr>db_codes := filter (\<lambda>c. rec_UserID c \<noteq> userID) (db_codes db)\<rparr>)))
       (\<lambda>_. insert_codes userID codeHashes))"

definition spendable :: "string \<Rightarrow> string \<Rightarrow> recovery_row \<Rightarrow> bool" where
  "spendable userID h c \<longleftrightarrow> rec_UserID c = userID \<and> rec_CodeHash c = h \<and> rec_UsedAt c = None"

definition ConsumeRecoveryCode :: "string \<Rightarrow> string \<Rightarrow> unit op" where
  "ConsumeRecoveryCode userID h = statement (\<lambda>db.
     let db' = db\<lparr>db_codes := map (\<lambda>c. if spendable userID h c
           then c\<lparr>rec_UsedAt := Some (db_clock db)\<rparr> else c) (db_codes db)\<rparr>
     in if length (filter (spendable userID h) (db_codes db)) \<noteq> 1 then (Inl ErrInvalidMFACode, db')
        else (Inr (), db'))"

definition CountUnusedRecoveryCodes :: "string \<Rightarrow> int op" where
  "CountUnusedRecoveryCodes userID = statement (\<lambda>db.
     (Inr (int (length (filter (\<lambda>c. rec_UserID c = userID \<and> rec_UsedAt c = None) (db_codes db)))), db))"

section \<open>Challenges\<close>

definition MFAChallengePurposeLogin :: string where "MFAChallengePurposeLogin = ''login''"
definition MFAChallengePurposeReset :: string where "MFAChallengePurposeReset = ''reset''"

definition CreateMFAChallenge :: "MFAChallenge \<Rightarrow> unit op" where
  "CreateMFAChallenge c = statement (\<lambda>db.
     if list_all (\<lambda>q. ch_ID q \<noteq> ch_ID c \<and> ch_TokenHash q \<noteq> ch_TokenHash c) (db_challenges db)
        \<and> list_ex (\<lambda>u. usr_ID u = ch_UserID c) (db_users db)
     then (Inr (), db\<lparr>db_challenges := db_challenges db @ [c\<lparr>ch_ConsumedAt := None\<rparr>]\<rparr>)
     else (Inl ErrDB, db))"

definition challenge_open :: "int \<Rightarrow> MFAChallenge \<Rightarrow> bool" where
  "challenge_open now c \<longleftrightarrow> ch_ConsumedAt c = None \<and> now < ch_ExpiresAt c"

definition GetMFAChallengeByTokenHash :: "string \<Rightarrow> string \<Rightarrow> MFAChallenge op" where
  "GetMFAChallengeByTokenHash h purpose = statement (\<lambda>db.
     case find (\<lambda>c. ch_TokenHash c = h \<and> ch_Purpose c = purpose \<and> challenge_open (db_clock db) c)
            (db_challenges db) of
       None \<Rightarrow> (Inl ErrInvalidMFAChallenge, db)
     | Some c \<Rightarrow> (Inr c, db))"

definition ConsumeMFAChallenge :: "string \<Rightarrow> unit op" where
  "ConsumeMFAChallenge i = statement (\<lambda>db.
     let hit = (\<lambda>c. ch_ID c = i \<and> challenge_open (db_clock db) c);
         db' = db\<lparr>db_challenges := map (\<lambda>c. if hit c then c\<lparr>ch_ConsumedAt := Some (db_clock db)\<rparr> else c)
                   (db_challenges db)\<rparr>
     in if length (filter hit (db_challenges db)) \<noteq> 1 then (Inl ErrInvalidMFAChallenge, db') else (Inr (), db'))"

section \<open>Step-up\<close>

definition SetSessionMFAVerified :: "string \<Rightarrow> string \<Rightarrow> int \<Rightarrow> unit op" where
  "SetSessionMFAVerified userID familyID at = statement (\<lambda>db.
     let hit = (\<lambda>r. as_UserID r = userID \<and> as_FamilyID r = familyID \<and> as_RevokedAt r = None)
     in if filter hit (db_sessions db) = [] then (Inl ErrAuthSessionNotFound, db)
        else (Inr (), db\<lparr>db_sessions := map (\<lambda>r. if hit r then r\<lparr>as_MFAVerifiedAt := Some at\<rparr> else r)
               (db_sessions db)\<rparr>))"

record MFAGateData =
  gd_Confirmed :: bool
  gd_Pending :: bool
  gd_EnforcedFrom :: "int option"
  gd_MFAVerifiedAt :: "int option"

definition GetMFAGateData :: "string \<Rightarrow> string \<Rightarrow> MFAGateData op" where
  "GetMFAGateData userID familyID = statement (\<lambda>db.
     case find (\<lambda>u. usr_ID u = userID \<and> usr_DeletedAt u = None) (db_users db) of
       None \<Rightarrow> (Inl ErrUserNotFound, db)
     | Some u \<Rightarrow>
         let m = find (\<lambda>m. mfa_UserID m = userID) (db_mfa db);
             ss = sort_key (\<lambda>r. - as_CreatedAt r) (filter (\<lambda>r. as_UserID r = userID \<and>
                    as_FamilyID r = familyID \<and> as_RevokedAt r = None) (db_sessions db))
         in (Inr \<lparr>gd_Confirmed = (case m of None \<Rightarrow> False | Some m \<Rightarrow> mfa_ConfirmedAt m \<noteq> None),
                  gd_Pending = (case m of None \<Rightarrow> False | Some m \<Rightarrow> mfa_ConfirmedAt m = None),
                  gd_EnforcedFrom = usr_MFAEnforcedFrom u,
                  gd_MFAVerifiedAt = (case ss of [] \<Rightarrow> None | r # _ \<Rightarrow> as_MFAVerifiedAt r)\<rparr>, db))"

end
