(* ===== verification/Mfa_Codes.thy ===== *)
theory Mfa_Codes
  imports Auth_Store
begin

text \<open>
  The codes a user types for the second factor (\<open>usecase/user/mfa.go\<close>): one-time recovery codes
  in unpadded base32, their display form and its normalisation, and the shape of six-digit codes.
  \<open>strings.ToUpper\<close> is the parameter \<open>ae_upper\<close>.
\<close>

section \<open>Unpadded base32 (recoveryCodeEncoding)\<close>

definition mfaRecoveryCodeCount :: nat where "mfaRecoveryCodeCount = 10"
definition mfaRecoveryCodeBytes :: nat where "mfaRecoveryCodeBytes = 10"
definition mfaRecoveryCodeGroup :: nat where "mfaRecoveryCodeGroup = 4"

definition byte_bits :: "char \<Rightarrow> bool list" where
  "byte_bits c = map (\<lambda>i. odd (byte c div 2 ^ i)) [7, 6, 5, 4, 3, 2, 1, 0]"

definition bits_value :: "bool list \<Rightarrow> nat" where
  "bits_value = foldl (\<lambda>n b. 2 * n + (if b then 1 else 0)) 0"

definition base32_alphabet :: string where "base32_alphabet = ''ABCDEFGHIJKLMNOPQRSTUVWXYZ234567''"

function (sequential) base32_bits :: "bool list \<Rightarrow> string" where
  "base32_bits [] = []"
| "base32_bits bs = base32_alphabet ! bits_value (take 5 (bs @ replicate 4 False)) # base32_bits (drop 5 bs)"
  by pat_completeness auto
termination by (relation "measure length") auto

definition base32_encode :: "string \<Rightarrow> string" where
  "base32_encode s = base32_bits (concat (map byte_bits s))"

definition base32_encoded_len :: "nat \<Rightarrow> nat" where
  "base32_encoded_len n = (n * 8 + 4) div 5"

lemma length_byte_bits [simp]: "length (byte_bits c) = 8"
  by (simp add: byte_bits_def)

lemma length_concat_bits [simp]: "length (concat (map byte_bits s)) = 8 * length s"
  by (induction s) simp_all

lemma length_base32_bits: "length (base32_bits bs) = (length bs + 4) div 5"
proof (induction bs rule: base32_bits.induct)
  case (2 b bs)
  then show ?case by (cases "length bs < 5") (auto simp: Suc_diff_le)
qed simp

lemma length_base32_encode: "length (base32_encode s) = base32_encoded_len (length s)"
  by (simp add: base32_encode_def length_base32_bits base32_encoded_len_def mult.commute)

lemma bits_value_snoc: "bits_value (bs @ [b]) = 2 * bits_value bs + (if b then 1 else 0)"
  by (simp add: bits_value_def)

lemma bits_value_less: "bits_value bs < 2 ^ length bs"
  by (induction bs rule: rev_induct) (auto simp: bits_value_snoc bits_value_def)

lemma bits_value_parity: "odd (bits_value (bs @ [b])) = b" "bits_value (bs @ [b]) div 2 = bits_value bs"
  by (simp_all add: bits_value_snoc)

lemma bits_value_inject: "length bs = length cs \<Longrightarrow> bits_value bs = bits_value cs \<Longrightarrow> bs = cs"
proof (induction bs arbitrary: cs rule: rev_induct)
  case (snoc b bs)
  then have "cs \<noteq> []" by auto
  then obtain c cs' where cs: "cs = cs' @ [c]" by (metis append_butlast_last_id)
  have "b = c" using snoc.prems(2) bits_value_parity(1) cs by metis
  moreover have "bits_value bs = bits_value cs'" using snoc.prems(2) bits_value_parity(2) cs by metis
  ultimately show ?case using snoc.IH [of cs'] snoc.prems(1) cs by simp
qed simp

lemma alphabet_distinct: "distinct base32_alphabet" "length base32_alphabet = 32"
  by (simp_all add: base32_alphabet_def)

lemma symbol_inject:
  assumes "length bs = 5" "length cs = 5"
    and "base32_alphabet ! bits_value bs = base32_alphabet ! bits_value cs"
  shows "bs = cs"
proof -
  have "bits_value bs < 32" "bits_value cs < 32"
    using bits_value_less [of bs] bits_value_less [of cs] assms(1,2) by simp_all
  then have "bits_value bs = bits_value cs"
    using assms(3) alphabet_distinct by (simp add: nth_eq_iff_index_eq)
  then show ?thesis using bits_value_inject assms(1,2) by metis
qed

lemma base32_bits_step:
  "5 \<le> length bs \<Longrightarrow> base32_bits bs = base32_alphabet ! bits_value (take 5 bs) # base32_bits (drop 5 bs)"
  by (cases bs) simp_all

lemma base32_bits_inject:
  "length bs = length cs \<Longrightarrow> 5 dvd length bs \<Longrightarrow> base32_bits bs = base32_bits cs \<Longrightarrow> bs = cs"
proof (induction "length bs" arbitrary: bs cs rule: less_induct)
  case less
  show ?case
  proof (cases "bs = []")
    case False
    then have "0 < length bs" by simp
    then have five: "5 \<le> length bs" "5 \<le> length cs"
      using dvd_imp_le [OF less.prems(2)] less.prems(1) by simp_all
    note step = base32_bits_step [OF five(1)] base32_bits_step [OF five(2)]
    have "take 5 bs = take 5 cs"
      by (rule symbol_inject) (use five less.prems(3) step in simp_all)
    moreover have "drop 5 bs = drop 5 cs"
    proof (rule less.hyps)
      show "length (drop 5 bs) < length bs" using five by simp
      show "length (drop 5 bs) = length (drop 5 cs)" using less.prems(1) by simp
      show "5 dvd length (drop 5 bs)" using less.prems(2) five(1) by (simp add: dvd_diff_nat)
      show "base32_bits (drop 5 bs) = base32_bits (drop 5 cs)" using less.prems(3) step by simp
    qed
    ultimately show ?thesis by (metis append_take_drop_id)
  qed (use less.prems in simp)
qed

lemma bit_step: "2 * (n div 2 ^ Suc i) + (if odd (n div 2 ^ i) then 1 else 0) = (n div 2 ^ i :: nat)"
proof -
  have "n div 2 ^ Suc i = n div 2 ^ i div 2" by (simp add: div_mult2_eq [symmetric] mult.commute)
  moreover have "2 * (m div 2) + (if odd m then 1 else 0) = m" for m :: nat by presburger
  ultimately show ?thesis by simp
qed

lemma byte_bits_value: "bits_value (byte_bits c) = byte c"
proof -
  have "byte c div 2 ^ 8 = 0" by (simp add: byte_def)
  then show ?thesis
    using bit_step [of "byte c" 7] bit_step [of "byte c" 6] bit_step [of "byte c" 5] bit_step [of "byte c" 4]
      bit_step [of "byte c" 3] bit_step [of "byte c" 2] bit_step [of "byte c" 1] bit_step [of "byte c" 0]
    by (simp add: bits_value_def byte_bits_def eval_nat_numeral del: power_Suc)
qed

lemma concat_bits_inject:
  "concat (map byte_bits s) = concat (map byte_bits t) \<Longrightarrow> length s = length t \<Longrightarrow> s = t"
proof (induction s arbitrary: t)
  case (Cons c s)
  then obtain d t' where t: "t = d # t'" by (cases t) simp_all
  then have "byte_bits c = byte_bits d" "concat (map byte_bits s) = concat (map byte_bits t')"
    using Cons.prems by simp_all
  then show ?case using Cons byte_bits_value byte_inject t by (metis length_Cons nat.inject)
qed simp

lemma base32_encode_inject:
  "length s = mfaRecoveryCodeBytes \<Longrightarrow> length t = mfaRecoveryCodeBytes \<Longrightarrow>
     base32_encode s = base32_encode t \<Longrightarrow> s = t"
  using base32_bits_inject concat_bits_inject
  by (simp add: base32_encode_def mfaRecoveryCodeBytes_def)

section \<open>Display form and normalisation\<close>

function (sequential) code_groups :: "string \<Rightarrow> string list" where
  "code_groups [] = []"
| "code_groups s = take mfaRecoveryCodeGroup s # code_groups (drop mfaRecoveryCodeGroup s)"
  by pat_completeness auto
termination by (relation "measure length") (auto simp: mfaRecoveryCodeGroup_def)

definition formatRecoveryCode :: "string \<Rightarrow> string" where
  "formatRecoveryCode normalized = join_char CHR ''-'' (code_groups normalized)"

definition is_base32_char :: "char \<Rightarrow> bool" where
  "is_base32_char c \<longleftrightarrow> (65 \<le> byte c \<and> byte c \<le> 90) \<or> (50 \<le> byte c \<and> byte c \<le> 55)"

text \<open>A rune outside ASCII is refused like any other foreign character, so bytes suffice.\<close>

fun scan_recovery :: "string \<Rightarrow> string option" where
  "scan_recovery [] = Some []"
| "scan_recovery (c # s) =
     (if is_base32_char c then map_option ((#) c) (scan_recovery s)
      else if c = CHR ''-'' \<or> c = CHR '' '' then scan_recovery s
      else None)"

definition normalizeRecoveryCode :: "auth_env \<Rightarrow> string \<Rightarrow> string option" where
  "normalizeRecoveryCode E code =
     (case scan_recovery (ae_upper E (trim_space code)) of
        None \<Rightarrow> None
      | Some b \<Rightarrow> if length b \<noteq> base32_encoded_len mfaRecoveryCodeBytes then None else Some b)"

definition generateRecoveryCodes ::
  "auth_env \<Rightarrow> (nat \<Rightarrow> string option) \<Rightarrow> (string list \<times> string list) option" where
  "generateRecoveryCodes E draw =
     (case those (map draw [0..<mfaRecoveryCodeCount]) of
        None \<Rightarrow> None
      | Some bufs \<Rightarrow> Some (map (\<lambda>b. formatRecoveryCode (base32_encode b)) bufs,
                          map (\<lambda>b. ae_sha256hex E (base32_encode b)) bufs))"

definition otpDigits :: nat where "otpDigits = 6"

definition validateOTPInput :: "string \<Rightarrow> string option" where
  "validateOTPInput otp =
     (let t = trim_space otp in
      if length t \<noteq> otpDigits then None else if list_all is_digit t then Some t else None)"

lemma alphabet_chars: "list_all is_base32_char base32_alphabet"
  by (simp add: base32_alphabet_def is_base32_char_def byte_def)

lemma base32_bits_chars: "list_all is_base32_char (base32_bits bs)"
proof (induction bs rule: base32_bits.induct)
  case (2 b bs)
  let ?t = "take 5 ((b # bs) @ replicate 4 False)"
  have "length ?t = 5" by simp
  with bits_value_less [of ?t] have "bits_value ?t < 2 ^ 5" by (simp only:)
  then have "bits_value ?t < length base32_alphabet" by (simp add: alphabet_distinct del: append_Cons)
  then have "is_base32_char (base32_alphabet ! bits_value ?t)"
    using alphabet_chars by (simp add: list_all_length)
  then show ?case using 2 by simp
qed simp

lemma scan_join: "list_all (list_all is_base32_char) gs \<Longrightarrow>
    scan_recovery (join_char CHR ''-'' gs) = Some (concat gs)"
proof -
  have dash: "\<not> is_base32_char CHR ''-''" by (simp add: is_base32_char_def byte_def)
  have app: "list_all is_base32_char g \<Longrightarrow> scan_recovery (g @ s) = map_option ((@) g) (scan_recovery s)" for g s
    by (induction g; cases "scan_recovery s") simp_all
  have one: "list_all is_base32_char g \<Longrightarrow> scan_recovery g = Some g" for g
    using app [of g "[]"] by simp
  show "list_all (list_all is_base32_char) gs \<Longrightarrow> scan_recovery (join_char CHR ''-'' gs) = Some (concat gs)"
    by (induction "CHR ''-''" gs rule: join_char.induct) (simp_all add: one app dash)
qed

lemma code_groups_chars: "list_all P s \<Longrightarrow> list_all (list_all P) (code_groups s)"
proof (induction s rule: code_groups.induct)
  case (2 c s)
  have "list_all P (take n (c # s)) \<and> list_all P (drop n (c # s))" for n
    using 2(2) by (metis append_take_drop_id list_all_append)
  with 2 show ?case by (simp del: take.simps drop.simps)
qed simp

lemma concat_code_groups: "concat (code_groups s) = s"
  by (induction s rule: code_groups.induct) simp_all

lemma join_chars: "list_all (list_all P) gs \<Longrightarrow> P c \<Longrightarrow> list_all P (join_char c gs)"
  by (induction c gs rule: join_char.induct) simp_all

lemma join_not_Nil: "gs \<noteq> [] \<Longrightarrow> hd gs \<noteq> [] \<Longrightarrow> join_char c gs \<noteq> []"
  by (cases "(c, gs)" rule: join_char.cases) simp_all

text \<open>Characters that neither trimming nor upper-casing changes.\<close>

definition code_char :: "char \<Rightarrow> bool" where
  "code_char c \<longleftrightarrow> is_base32_char c \<or> c = CHR ''-''"

lemma code_char_plain: "code_char c \<Longrightarrow> 33 \<le> byte c \<and> byte c < 128"
  by (auto simp: code_char_def is_base32_char_def byte_def)

text \<open>
  The ten recovery codes an enrolment hands out are exactly what their owner can type: each
  displayed code normalises to the base32 body whose hash is stored, each body is sixteen
  characters of the base32 alphabet, and different random buffers give different bodies. The
  hypothesis is that upper-casing leaves upper-case ASCII letters, digits and dashes alone.
\<close>
theorem recovery_codes_round_trip:
  assumes "\<forall>s. list_all code_char s \<longrightarrow> ae_upper E s = s"
    and "generateRecoveryCodes E draw = Some (raw, hashes)"
    and "\<forall>i < mfaRecoveryCodeCount. \<exists>b. draw i = Some b \<and> length b = mfaRecoveryCodeBytes"
  shows "\<exists>bodies. map (normalizeRecoveryCode E) raw = map Some bodies \<and> hashes = map (ae_sha256hex E) bodies \<and>
    length raw = mfaRecoveryCodeCount \<and>
    list_all (\<lambda>b. length b = 16 \<and> list_all is_base32_char b) bodies \<and>
    (inj_on draw {..<mfaRecoveryCodeCount} \<longrightarrow> distinct bodies)"
proof -
  obtain bufs where bufs: "those (map draw [0..<mfaRecoveryCodeCount]) = Some bufs"
    and raw: "raw = map (\<lambda>b. formatRecoveryCode (base32_encode b)) bufs"
    and hashes: "hashes = map (\<lambda>b. ae_sha256hex E (base32_encode b)) bufs"
    using assms(2) by (auto simp: generateRecoveryCodes_def split: option.splits)
  let ?bodies = "map base32_encode bufs"
  have those_map: "those (map f xs) = Some ys \<Longrightarrow> map f xs = map Some ys" for f :: "nat \<Rightarrow> string option" and xs ys
    by (induction xs arbitrary: ys) (auto split: option.splits)
  have draws: "map draw [0..<mfaRecoveryCodeCount] = map Some bufs" by (rule those_map [OF bufs])
  then have count: "length bufs = mfaRecoveryCodeCount" by (metis length_map length_upt diff_zero)
  have at: "draw i = Some (bufs ! i)" if "i < mfaRecoveryCodeCount" for i
    using arg_cong [OF draws, of "\<lambda>xs. xs ! i"] that count by simp
  have len: "length b = mfaRecoveryCodeBytes" if "b \<in> set bufs" for b
    using that assms(3) at count by (auto simp: in_set_conv_nth)
  have one: "normalizeRecoveryCode E (formatRecoveryCode (base32_encode b)) = Some (base32_encode b)"
    if "length b = mfaRecoveryCodeBytes" for b
  proof -
    let ?c = "base32_encode b" and ?f = "formatRecoveryCode (base32_encode b)"
    have chars: "list_all (list_all is_base32_char) (code_groups ?c)"
      using code_groups_chars base32_bits_chars by (simp add: base32_encode_def)
    have f: "list_all code_char ?f"
      unfolding formatRecoveryCode_def
      by (rule join_chars) (use chars in \<open>auto simp: list_all_iff code_char_def\<close>)
    have "?c \<noteq> []" using length_base32_encode [of b] that
      by (auto simp: base32_encoded_len_def mfaRecoveryCodeBytes_def)
    then have "code_groups ?c \<noteq> [] \<and> hd (code_groups ?c) \<noteq> []"
      by (cases ?c) (simp_all add: mfaRecoveryCodeGroup_def)
    then have "?f \<noteq> []" unfolding formatRecoveryCode_def by (intro join_not_Nil) simp_all
    then have "trim_space ?f = ?f"
      using f code_char_plain by (intro trim_space_plain) (auto simp: list_all_iff)
    moreover have "scan_recovery ?f = Some ?c"
      unfolding formatRecoveryCode_def by (simp add: scan_join [OF chars] concat_code_groups)
    ultimately show ?thesis
      using assms(1) f that by (simp add: normalizeRecoveryCode_def length_base32_encode)
  qed
  have "distinct ?bodies" if "inj_on draw {..<mfaRecoveryCodeCount}"
  proof -
    have "i = j" if "i < length bufs" "j < length bufs" "bufs ! i = bufs ! j" for i j
      using that \<open>inj_on draw _\<close> at count by (metis inj_onD lessThan_iff)
    then have "distinct bufs" by (metis distinct_conv_nth)
    moreover have "inj_on base32_encode (set bufs)" using base32_encode_inject len by (auto intro: inj_onI)
    ultimately show ?thesis by (simp add: distinct_map)
  qed
  moreover have "list_all (\<lambda>b. length b = 16 \<and> list_all is_base32_char b) ?bodies"
    using len base32_bits_chars
    by (auto simp: list_all_iff length_base32_bits mfaRecoveryCodeBytes_def base32_encode_def)
  ultimately show ?thesis
    by (intro exI [of _ ?bodies] conjI) (simp_all add: raw hashes one len count)
qed

theorem recovery_codes_round_trip_witness:
  "\<exists>E raw hashes. generateRecoveryCodes E (\<lambda>i. Some (replicate 10 (digit_char i))) = Some (raw, hashes) \<and>
     distinct hashes \<and> length raw = 10"
proof -
  let ?E = "\<lparr>ae_sha256hex = id, ae_decode64 = Some, ae_encode64 = id, ae_truncate = take, ae_lower = id,
    ae_sign = (\<lambda>u v f. None), ae_upper = id, ae_bcrypt = (=), ae_validEmail = (\<lambda>_. True), ae_seal = Some,
    ae_open = Some, ae_totp = (\<lambda>s t. None), ae_hash = (\<lambda>_. Some), ae_equalFold = (=),
    ae_sqlLower = id\<rparr> :: auth_env"
  let ?draw = "\<lambda>i::nat. Some (replicate 10 (digit_char i))"
  have "those (map ?draw [0..<10]) = Some (map (\<lambda>i. replicate 10 (digit_char i)) [0..<10])"
    by (simp add: upt_rec)
  then obtain raw hashes where g: "generateRecoveryCodes ?E ?draw = Some (raw, hashes)"
    by (simp add: generateRecoveryCodes_def mfaRecoveryCodeCount_def)
  have inj: "inj_on ?draw {..<mfaRecoveryCodeCount}"
    by (rule inj_onI) (metis digit_value_digit_char lessThan_iff mfaRecoveryCodeCount_def option.inject
        replicate_eq_replicate zero_neq_numeral)
  show ?thesis
    using recovery_codes_round_trip [of ?E ?draw raw hashes, OF _ g] inj g
    by (auto simp: mfaRecoveryCodeBytes_def mfaRecoveryCodeCount_def)
qed

end
