(* ===== verification/Account_Store.thy ===== *)
theory Account_Store
  imports Mfa_Store
begin

text \<open>
  The statements and transactions of \<open>repo/persistent/user_postgres.go\<close> behind the account use
  cases: registration, roles, passwords, the three tables of one-time tokens, address changes and
  deletion, with the cleanup of \<open>auth_maintenance_postgres.go\<close>. The three token tables have the
  same statements up to their names, so each is written once over \<open>token_table\<close> and named per
  table. The collation of the unique index on \<open>lower(email)\<close> is the parameter \<open>ae_sqlLower\<close>.
\<close>

section \<open>One-time tokens\<close>

definition set_tokens :: "token_table \<Rightarrow> auth_token list \<Rightarrow> auth_db \<Rightarrow> auth_db" where
  "set_tokens T ts db = db\<lparr>db_tokens := (db_tokens db)(T := ts)\<rparr>"

lemma set_tokens_sel [simp]:
  "db_tokens (set_tokens T ts db) = (db_tokens db)(T := ts)"
  "db_users (set_tokens T ts db) = db_users db" "db_sessions (set_tokens T ts db) = db_sessions db"
  "db_limits (set_tokens T ts db) = db_limits db" "db_lockouts (set_tokens T ts db) = db_lockouts db"
  "db_audit (set_tokens T ts db) = db_audit db" "db_clock (set_tokens T ts db) = db_clock db"
  "db_faults (set_tokens T ts db) = db_faults db" "db_mfa (set_tokens T ts db) = db_mfa db"
  "db_codes (set_tokens T ts db) = db_codes db" "db_challenges (set_tokens T ts db) = db_challenges db"
  "db_profiles (set_tokens T ts db) = db_profiles db" "db_owned (set_tokens T ts db) = db_owned db"
  "db_erasures (set_tokens T ts db) = db_erasures db"
  by (simp_all add: set_tokens_def)

text \<open>Primary key, unique token hash and the foreign key to \<open>users\<close>.\<close>

definition token_insertable :: "token_table \<Rightarrow> auth_db \<Rightarrow> auth_token \<Rightarrow> bool" where
  "token_insertable T db t \<longleftrightarrow>
     list_all (\<lambda>r. tk_ID r \<noteq> tk_ID t \<and> tk_TokenHash r \<noteq> tk_TokenHash t) (db_tokens db T) \<and>
     list_ex (\<lambda>u. usr_ID u = tk_UserID t) (db_users db)"

definition insert_token :: "token_table \<Rightarrow> auth_token \<Rightarrow> unit op" where
  "insert_token T t = statement (\<lambda>db.
     if token_insertable T db t then (Inr (), set_tokens T (db_tokens db T @ [t]) db)
     else (Inl ErrDB, db))"

definition unused :: "auth_token \<Rightarrow> bool" where
  "unused t \<longleftrightarrow> tk_UsedAt t = None"

definition spend :: "(auth_token \<Rightarrow> bool) \<Rightarrow> int \<Rightarrow> auth_token \<Rightarrow> auth_token" where
  "spend hit now t = (if hit t \<and> unused t then t\<lparr>tk_UsedAt := Some now\<rparr> else t)"

definition revoke_unused :: "token_table \<Rightarrow> string \<Rightarrow> unit op" where
  "revoke_unused T userID = statement (\<lambda>db.
     (Inr (), set_tokens T (map (spend (\<lambda>t. tk_UserID t = userID) (db_clock db)) (db_tokens db T)) db))"

definition replace_token :: "token_table \<Rightarrow> auth_token \<Rightarrow> unit op" where
  "replace_token T t = transaction
     (op_bind (revoke_unused T (tk_UserID t)) (\<lambda>_. insert_token T t))"

text \<open>The update that spends one token; it must hit exactly one unused row.\<close>

definition spend_token :: "token_table \<Rightarrow> auth_error \<Rightarrow> (auth_token \<Rightarrow> bool) \<Rightarrow> unit op" where
  "spend_token T e hit = statement (\<lambda>db.
     let db' = set_tokens T (map (spend hit (db_clock db)) (db_tokens db T)) db
     in if length (filter (\<lambda>t. hit t \<and> unused t) (db_tokens db T)) \<noteq> 1 then (Inl e, db')
        else (Inr (), db'))"

definition token_by_hash :: "token_table \<Rightarrow> auth_error \<Rightarrow> string \<Rightarrow> auth_token op" where
  "token_by_hash T e h = statement (\<lambda>db.
     case find (\<lambda>t. tk_TokenHash t = h) (db_tokens db T) of
       None \<Rightarrow> (Inl e, db)
     | Some t \<Rightarrow> (Inr t, db))"

definition latest_unused :: "token_table \<Rightarrow> auth_error \<Rightarrow> string \<Rightarrow> auth_token op" where
  "latest_unused T e userID = statement (\<lambda>db.
     case sort_key (\<lambda>t. - tk_SentAt t) (filter (\<lambda>t. tk_UserID t = userID \<and> unused t) (db_tokens db T)) of
       [] \<Rightarrow> (Inl e, db)
     | t # _ \<Rightarrow> (Inr t, db))"

definition ReplaceVerificationToken :: "auth_token \<Rightarrow> unit op" where
  "ReplaceVerificationToken = replace_token VerificationTokens"

definition RevokeUnusedVerificationTokens :: "string \<Rightarrow> unit op" where
  "RevokeUnusedVerificationTokens = revoke_unused VerificationTokens"

definition GetVerificationTokenByHash :: "string \<Rightarrow> auth_token op" where
  "GetVerificationTokenByHash = token_by_hash VerificationTokens ErrVerificationTokenNotFound"

definition GetLatestUnusedVerificationToken :: "string \<Rightarrow> auth_token op" where
  "GetLatestUnusedVerificationToken = latest_unused VerificationTokens ErrVerificationTokenNotFound"

definition ReplacePasswordResetToken :: "auth_token \<Rightarrow> unit op" where
  "ReplacePasswordResetToken = replace_token ResetTokens"

definition RevokeUnusedPasswordResetTokens :: "string \<Rightarrow> unit op" where
  "RevokeUnusedPasswordResetTokens = revoke_unused ResetTokens"

definition GetPasswordResetTokenByHash :: "string \<Rightarrow> auth_token op" where
  "GetPasswordResetTokenByHash = token_by_hash ResetTokens ErrPasswordResetTokenNotFound"

definition GetLatestUnusedPasswordResetToken :: "string \<Rightarrow> auth_token op" where
  "GetLatestUnusedPasswordResetToken = latest_unused ResetTokens ErrPasswordResetTokenNotFound"

definition ReplaceEmailChangeToken :: "auth_token \<Rightarrow> unit op" where
  "ReplaceEmailChangeToken = replace_token ChangeTokens"

definition RevokeUnusedEmailChangeTokens :: "string \<Rightarrow> unit op" where
  "RevokeUnusedEmailChangeTokens = revoke_unused ChangeTokens"

definition GetEmailChangeTokenByHash :: "string \<Rightarrow> auth_token op" where
  "GetEmailChangeTokenByHash = token_by_hash ChangeTokens ErrEmailChangeTokenNotFound"

definition GetLatestUnusedEmailChangeToken :: "string \<Rightarrow> auth_token op" where
  "GetLatestUnusedEmailChangeToken = latest_unused ChangeTokens ErrEmailChangeTokenNotFound"

lemmas token_op_defs = ReplaceVerificationToken_def RevokeUnusedVerificationTokens_def
  GetVerificationTokenByHash_def GetLatestUnusedVerificationToken_def ReplacePasswordResetToken_def
  RevokeUnusedPasswordResetTokens_def GetPasswordResetTokenByHash_def GetLatestUnusedPasswordResetToken_def
  ReplaceEmailChangeToken_def RevokeUnusedEmailChangeTokens_def GetEmailChangeTokenByHash_def
  GetLatestUnusedEmailChangeToken_def

section \<open>Accounts\<close>

definition email_taken :: "auth_env \<Rightarrow> auth_db \<Rightarrow> string \<Rightarrow> string \<Rightarrow> bool" where
  "email_taken E db userID email \<longleftrightarrow>
     list_ex (\<lambda>u. usr_ID u \<noteq> userID \<and> ae_sqlLower E (usr_Email u) = ae_sqlLower E email) (db_users db)"

definition insert_user :: "auth_env \<Rightarrow> user_row \<Rightarrow> unit op" where
  "insert_user E u = statement (\<lambda>db.
     if list_ex (\<lambda>v. usr_ID v = usr_ID u) (db_users db) \<or> email_taken E db (usr_ID u) (usr_Email u)
     then (Inl ErrUserAlreadyExists, db)
     else (Inr (), db\<lparr>db_users := db_users db @ [u]\<rparr>))"

text \<open>The rows of \<open>user_profiles\<close> and \<open>user_preferences\<close>, keyed by their owner.\<close>

definition insert_profile :: "string \<Rightarrow> string \<Rightarrow> unit op" where
  "insert_profile userID displayName = statement (\<lambda>db.
     if list_ex (\<lambda>p. pr_UserID p = userID) (db_profiles db) \<or> \<not> list_ex (\<lambda>u. usr_ID u = userID) (db_users db)
     then (Inl ErrDB, db)
     else (Inr (), db\<lparr>db_profiles := db_profiles db @
       [\<lparr>pr_UserID = userID,
         pr_DisplayName = (let n = trim_space displayName in if n = '''' then None else Some n),
         pr_Timezone = None, pr_CountryCode = None, pr_PersonalizationEnabled = True\<rparr>]\<rparr>))"

definition insert_preferences :: "string \<Rightarrow> unit op" where
  "insert_preferences userID = statement (\<lambda>db.
     if (''user_preferences'', userID) \<in> set (db_owned db) \<or> \<not> list_ex (\<lambda>u. usr_ID u = userID) (db_users db)
     then (Inl ErrDB, db)
     else (Inr (), db\<lparr>db_owned := db_owned db @ [(''user_preferences'', userID)]\<rparr>))"

definition insertDefaultProfileAndPreferences :: "string \<Rightarrow> string \<Rightarrow> unit op" where
  "insertDefaultProfileAndPreferences userID displayName =
     op_bind (insert_profile userID displayName) (\<lambda>_. insert_preferences userID)"

definition Store :: "auth_env \<Rightarrow> user_row \<Rightarrow> unit op" where
  "Store E u = transaction
     (op_bind (insert_user E u) (\<lambda>_. insertDefaultProfileAndPreferences (usr_ID u) (usr_Username u)))"

definition StoreWithVerificationToken :: "auth_env \<Rightarrow> user_row \<Rightarrow> auth_token \<Rightarrow> unit op" where
  "StoreWithVerificationToken E u t = transaction
     (op_bind (insert_user E u) (\<lambda>_.
      op_bind (insertDefaultProfileAndPreferences (usr_ID u) (usr_Username u)) (\<lambda>_.
      insert_token VerificationTokens t)))"

definition live :: "string \<Rightarrow> user_row \<Rightarrow> bool" where
  "live userID u \<longleftrightarrow> usr_ID u = userID \<and> usr_DeletedAt u = None"

text \<open>\<open>UPDATE users ... RETURNING\<close> of one live account; \<open>f\<close> reads SQL \<open>now()\<close>.\<close>

definition update_live :: "string \<Rightarrow> (int \<Rightarrow> user_row \<Rightarrow> user_row) \<Rightarrow> user_row op" where
  "update_live userID f = statement (\<lambda>db.
     case find (live userID) (db_users db) of
       None \<Rightarrow> (Inl ErrUserNotFound, db)
     | Some u \<Rightarrow> (Inr (f (db_clock db) u),
         db\<lparr>db_users := map (\<lambda>v. if live userID v then f (db_clock db) v else v) (db_users db)\<rparr>))"

definition verified :: "int \<Rightarrow> user_row \<Rightarrow> user_row" where
  "verified now u = u\<lparr>usr_EmailVerified := True,
     usr_EmailVerifiedAt := (case usr_EmailVerifiedAt u of None \<Rightarrow> Some now | Some t \<Rightarrow> Some t)\<rparr>"

definition bumped :: "user_row \<Rightarrow> user_row" where
  "bumped u = u\<lparr>usr_TokenVersion := usr_TokenVersion u + 1\<rparr>"

definition revokeAuthSessionsInTx :: "string \<Rightarrow> unit op" where
  "revokeAuthSessionsInTx userID = op_bind (revoke_where (\<lambda>r. as_UserID r = userID)) (\<lambda>_. op_ret ())"

definition ChangePassword_tx :: "string \<Rightarrow> string \<Rightarrow> user_row op" where
  "ChangePassword_tx userID passwordHash = transaction
     (op_bind (update_live userID (\<lambda>_ u. bumped (u\<lparr>usr_PasswordHash := passwordHash\<rparr>))) (\<lambda>user.
      op_bind (revoke_unused ResetTokens userID) (\<lambda>_.
      op_bind (revokeAuthSessionsInTx userID) (\<lambda>_. op_ret user))))"

definition VerifyEmailWithToken :: "string \<Rightarrow> string \<Rightarrow> user_row op" where
  "VerifyEmailWithToken tokenID userID = transaction
     (op_bind (spend_token VerificationTokens ErrInvalidVerificationToken
         (\<lambda>t. tk_ID t = tokenID \<and> tk_UserID t = userID)) (\<lambda>_.
      update_live userID verified))"

definition ResetPasswordWithToken :: "string \<Rightarrow> string \<Rightarrow> string \<Rightarrow> user_row op" where
  "ResetPasswordWithToken tokenID userID passwordHash = transaction
     (op_bind (spend_token ResetTokens ErrInvalidPasswordResetToken
         (\<lambda>t. tk_ID t = tokenID \<and> tk_UserID t = userID)) (\<lambda>_.
      op_bind (update_live userID (\<lambda>now u. bumped (verified now (u\<lparr>usr_PasswordHash := passwordHash\<rparr>)))) (\<lambda>user.
      op_bind (revoke_unused ResetTokens userID) (\<lambda>_.
      op_bind (revokeAuthSessionsInTx userID) (\<lambda>_. op_ret user)))))"

record EmailChangeResult =
  ec_User :: user_row
  ec_OldEmail :: string
  ec_NewEmail :: string

definition with_email :: "string \<Rightarrow> int \<Rightarrow> user_row \<Rightarrow> user_row" where
  "with_email newEmail now u = bumped (u\<lparr>usr_Email := newEmail, usr_EmailVerified := True,
     usr_EmailVerifiedAt := Some now\<rparr>)"

definition update_email :: "auth_env \<Rightarrow> string \<Rightarrow> string \<Rightarrow> user_row op" where
  "update_email E userID newEmail = statement (\<lambda>db.
     case find (live userID) (db_users db) of
       None \<Rightarrow> (Inl ErrUserNotFound, db)
     | Some u \<Rightarrow>
         if email_taken E db userID newEmail then (Inl ErrUserAlreadyExists, db)
         else (Inr (with_email newEmail (db_clock db) u),
               db\<lparr>db_users := map (\<lambda>v. if live userID v then with_email newEmail (db_clock db) v else v) (db_users db)\<rparr>))"

definition lock_user :: "string \<Rightarrow> user_row op" where
  "lock_user userID = statement (\<lambda>db.
     case find (live userID) (db_users db) of
       None \<Rightarrow> (Inl ErrUserNotFound, db)
     | Some u \<Rightarrow> (Inr u, db))"

definition ChangeEmailWithToken :: "auth_env \<Rightarrow> string \<Rightarrow> string \<Rightarrow> string \<Rightarrow> EmailChangeResult op" where
  "ChangeEmailWithToken E tokenID userID newEmail = transaction
     (op_bind (lock_user userID) (\<lambda>old.
      op_bind (spend_token ChangeTokens ErrInvalidEmailChangeToken
         (\<lambda>t. tk_ID t = tokenID \<and> tk_UserID t = userID \<and> tk_NewEmail t = newEmail)) (\<lambda>_.
      op_bind (update_email E userID newEmail) (\<lambda>user.
      op_bind (revoke_unused ChangeTokens userID) (\<lambda>_.
      op_bind (revokeAuthSessionsInTx userID) (\<lambda>_.
      op_ret \<lparr>ec_User = user, ec_OldEmail = usr_Email old, ec_NewEmail = usr_Email user\<rparr>))))))"

section \<open>Maintenance\<close>

definition delete_old_tokens :: "token_table \<Rightarrow> int \<Rightarrow> int \<Rightarrow> int op" where
  "delete_old_tokens T now cutoff = statement (\<lambda>db.
     let old = (\<lambda>t. (tk_UsedAt t \<noteq> None \<or> tk_ExpiresAt t \<le> now) \<and> tk_CreatedAt t \<le> cutoff)
     in (Inr (int (length (filter old (db_tokens db T)))),
         set_tokens T (filter (\<lambda>t. \<not> old t) (db_tokens db T)) db))"

section \<open>Roles\<close>

record UserRoleChange =
  rc_User :: user_row
  rc_PreviousRole :: string
  rc_NewRole :: string

definition lock_by_email :: "string \<Rightarrow> user_row op" where
  "lock_by_email email = statement (\<lambda>db.
     case find (\<lambda>u. usr_Email u = email \<and> usr_DeletedAt u = None) (db_users db) of
       None \<Rightarrow> (Inl ErrUserNotFound, db)
     | Some u \<Rightarrow> (Inr u, db))"

definition is_admin :: "user_row \<Rightarrow> bool" where
  "is_admin u \<longleftrightarrow> usr_Role u = UserRoleAdmin \<and> usr_DeletedAt u = None"

definition count_admins :: "nat op" where
  "count_admins = statement (\<lambda>db. (Inr (length (filter is_admin (db_users db))), db))"

definition with_role :: "auth_env \<Rightarrow> string \<Rightarrow> int \<Rightarrow> user_row \<Rightarrow> user_row" where
  "with_role E role now u = u\<lparr>usr_Role := role, usr_MFAEnforcedFrom :=
     (if RoleRequiresMFA (ae_lower E) role
      then (case usr_MFAEnforcedFrom u of None \<Rightarrow> Some now | Some t \<Rightarrow> Some t)
      else usr_MFAEnforcedFrom u)\<rparr>"

text \<open>The row is locked from its read on, so the update by \<open>id\<close> finds it.\<close>

definition update_role :: "auth_env \<Rightarrow> string \<Rightarrow> string \<Rightarrow> user_row op" where
  "update_role E userID role = statement (\<lambda>db.
     case find (\<lambda>u. usr_ID u = userID) (db_users db) of
       None \<Rightarrow> (Inl ErrDB, db)
     | Some u \<Rightarrow> (Inr (with_role E role (db_clock db) u),
         db\<lparr>db_users := map (\<lambda>v. if usr_ID v = userID then with_role E role (db_clock db) v else v) (db_users db)\<rparr>))"

definition demotes :: "user_row \<Rightarrow> string \<Rightarrow> bool" where
  "demotes u role \<longleftrightarrow> usr_Role u = UserRoleAdmin \<and> role \<noteq> UserRoleAdmin"

definition SetRoleByEmail_tx :: "auth_env \<Rightarrow> string \<Rightarrow> string \<Rightarrow> UserRoleChange op" where
  "SetRoleByEmail_tx E email role = transaction
     (op_bind (lock_by_email email) (\<lambda>u.
      op_bind (if demotes u role
         then op_bind count_admins (\<lambda>n. if n \<le> 1 then op_fail ErrLastAdmin else op_ret ())
         else op_ret ()) (\<lambda>_.
      op_bind (update_role E (usr_ID u) role) (\<lambda>user.
      op_ret \<lparr>rc_User = user, rc_PreviousRole = usr_Role u, rc_NewRole = usr_Role user\<rparr>))))"

section \<open>Deletion\<close>

definition anonymized :: "int \<Rightarrow> user_row \<Rightarrow> user_row" where
  "anonymized now u = bumped (u\<lparr>usr_Username := ''deleted-user-'' @ take 12 (usr_ID u),
     usr_Email := ''deleted+'' @ usr_ID u @ ''@deleted.local'',
     usr_PasswordHash := ''deleted:'' @ usr_ID u,
     usr_EmailVerified := False, usr_EmailVerifiedAt := None, usr_DeletedAt := Some now\<rparr>)"

definition anonymizeDeletedUser :: "auth_env \<Rightarrow> string \<Rightarrow> unit op" where
  "anonymizeDeletedUser E userID = statement (\<lambda>db.
     if \<not> list_ex (live userID) (db_users db) then (Inl ErrUserNotFound, db)
     else if email_taken E db userID (''deleted+'' @ userID @ ''@deleted.local'') then (Inl ErrDB, db)
     else (Inr (), db\<lparr>db_users := map (\<lambda>u. if live userID u then anonymized (db_clock db) u else u) (db_users db)\<rparr>))"

fun run_all :: "unit op list \<Rightarrow> unit op" where
  "run_all [] = op_ret ()"
| "run_all (m # ms) = op_bind m (\<lambda>_. run_all ms)"

definition erase :: "(auth_db \<Rightarrow> auth_db) \<Rightarrow> unit op" where
  "erase f = statement (\<lambda>db. (Inr (), f db))"

definition delete_owned :: "string \<Rightarrow> string \<Rightarrow> unit op" where
  "delete_owned userID table = erase (\<lambda>db. db\<lparr>db_owned := filter (\<lambda>r. r \<noteq> (table, userID)) (db_owned db)\<rparr>)"

definition delete_tokens :: "string \<Rightarrow> token_table \<Rightarrow> unit op" where
  "delete_tokens userID T =
     erase (\<lambda>db. set_tokens T (filter (\<lambda>t. tk_UserID t \<noteq> userID) (db_tokens db T)) db)"

text \<open>
  The statements in the order of the code. The last one blanks columns of the audit log that the
  model does not keep.
\<close>

definition blank_profile :: "string \<Rightarrow> profile_row \<Rightarrow> profile_row" where
  "blank_profile userID p = (if pr_UserID p = userID
     then p\<lparr>pr_DisplayName := None, pr_Timezone := None, pr_CountryCode := None,
            pr_PersonalizationEnabled := False\<rparr> else p)"

definition content_tables :: "string list" where
  "content_tables = [''user_preferences'', ''tasks'', ''history'', ''reading_progress'',
     ''quran_reading_progress'', ''saved_items'', ''translation_feedbacks'']"

definition cleanupDeletedUserData :: "string \<Rightarrow> unit op" where
  "cleanupDeletedUserData u = run_all
     ([erase (\<lambda>db. db\<lparr>db_profiles := map (blank_profile u) (db_profiles db)\<rparr>)]
      @ map (delete_owned u) content_tables
      @ map (delete_tokens u) [VerificationTokens, ResetTokens, ChangeTokens]
      @ [erase (\<lambda>db. db\<lparr>db_sessions := filter (\<lambda>r. as_UserID r \<noteq> u) (db_sessions db)\<rparr>),
         delete_owned u ''auth_login_fingerprints'',
         erase (\<lambda>db. db\<lparr>db_mfa := filter (\<lambda>m. mfa_UserID m \<noteq> u) (db_mfa db)\<rparr>),
         erase (\<lambda>db. db\<lparr>db_codes := filter (\<lambda>c. rec_UserID c \<noteq> u) (db_codes db)\<rparr>),
         erase (\<lambda>db. db\<lparr>db_challenges := filter (\<lambda>c. ch_UserID c \<noteq> u) (db_challenges db)\<rparr>),
         erase (\<lambda>db. db)])"

definition insertOneSignalErasureOutbox :: "OneSignalErasureCreate \<Rightarrow> unit op" where
  "insertOneSignalErasureOutbox e = statement (\<lambda>db.
     if list_ex (\<lambda>r. er_ID r = er_ID e \<or>
          er_AppID r = er_AppID e \<and> er_ExternalIDHash r = er_ExternalIDHash e) (db_erasures db)
     then (Inl ErrDB, db)
     else (Inr (), db\<lparr>db_erasures := db_erasures db @ [e]\<rparr>))"

definition DeleteAccount_tx :: "auth_env \<Rightarrow> string \<Rightarrow> OneSignalErasureCreate option \<Rightarrow> unit op" where
  "DeleteAccount_tx E userID erasure = transaction
     (op_bind (anonymizeDeletedUser E userID) (\<lambda>_.
      op_bind (cleanupDeletedUserData userID) (\<lambda>_.
      case erasure of None \<Rightarrow> op_ret () | Some e \<Rightarrow> insertOneSignalErasureOutbox e)))"

end
