(* ===== verification/Auth_Session_Props.thy ===== *)
theory Auth_Session_Props
  imports Account_Store
begin

text \<open>
  Properties of the session use cases. The step relation \<open>session_step\<close> runs single repository
  calls in any order, with any fault schedule and clock, so its paths cover every interleaving
  of concurrent requests; the use cases are then shown to keep the same invariant.
\<close>

section \<open>The invariant of the session table\<close>

definition family_ok :: "AuthSession \<Rightarrow> AuthSession \<Rightarrow> bool" where
  "family_ok r s \<longleftrightarrow> (as_FamilyID r = as_FamilyID s \<longrightarrow> as_UserID r = as_UserID s \<and>
     (as_RevokedAt r = None \<and> as_RevokedAt s = None \<longrightarrow> as_ID r = as_ID s))"

definition session_inv :: "auth_db \<Rightarrow> bool" where
  "session_inv db \<longleftrightarrow>
     distinct (map as_ID (db_sessions db)) \<and>
     distinct (map as_RefreshTokenHash (db_sessions db)) \<and>
     (\<forall>r\<in>set (db_sessions db). as_ReplacedByID r \<noteq> None \<longrightarrow> as_RevokedAt r \<noteq> None) \<and>
     (\<forall>r\<in>set (db_sessions db). \<forall>s\<in>set (db_sessions db). family_ok r s)"

lemma session_inv_blind: "blind session_inv"
  by (rule blindI) (simp add: session_inv_def)

lemma session_inv_sessions: "db_sessions db' = db_sessions db \<Longrightarrow> session_inv db' = session_inv db"
  by (simp add: session_inv_def)

text \<open>Updates that keep the identity of every row and only ever revoke.\<close>

definition only_revokes :: "(AuthSession \<Rightarrow> AuthSession) \<Rightarrow> bool" where
  "only_revokes f \<longleftrightarrow>
     (\<forall>r. as_ID (f r) = as_ID r \<and> as_FamilyID (f r) = as_FamilyID r \<and> as_UserID (f r) = as_UserID r \<and>
        as_RefreshTokenHash (f r) = as_RefreshTokenHash r \<and> as_TokenVersion (f r) = as_TokenVersion r \<and>
        (as_RevokedAt r \<noteq> None \<longrightarrow> as_RevokedAt (f r) \<noteq> None) \<and>
        (as_ReplacedByID r \<noteq> None \<longrightarrow> as_ReplacedByID (f r) \<noteq> None) \<and>
        (as_ReplacedByID (f r) \<noteq> None \<longrightarrow> as_ReplacedByID r \<noteq> None \<or> as_RevokedAt (f r) \<noteq> None))"

lemma only_revokesD:
  assumes "only_revokes f"
  shows "as_ID (f r) = as_ID r" "as_FamilyID (f r) = as_FamilyID r" "as_UserID (f r) = as_UserID r"
    "as_RefreshTokenHash (f r) = as_RefreshTokenHash r" "as_TokenVersion (f r) = as_TokenVersion r"
    "as_RevokedAt (f r) = None \<Longrightarrow> as_RevokedAt r = None"
    "as_ReplacedByID (f r) = None \<Longrightarrow> as_ReplacedByID r = None"
    "as_ReplacedByID (f r) \<noteq> None \<Longrightarrow> as_ReplacedByID r \<noteq> None \<or> as_RevokedAt (f r) \<noteq> None"
  using assms unfolding only_revokes_def by blast+

lemma session_inv_map:
  assumes inv: "session_inv db" and f: "only_revokes f"
  shows "session_inv (db\<lparr>db_sessions := map f (db_sessions db)\<rparr>)"
proof -
  note sel = only_revokesD [OF f]
  have maps: "map as_ID (map f rs) = map as_ID rs"
    "map as_RefreshTokenHash (map f rs) = map as_RefreshTokenHash rs" for rs
    by (simp_all add: sel(1,4))
  have fam: "family_ok (f r) (f s)" if "family_ok r s" for r s
    using that sel(6) [of r] sel(6) [of s] unfolding family_ok_def sel(1-3) by blast
  have rep: "as_RevokedAt (f r) \<noteq> None"
    if "as_ReplacedByID r \<noteq> None \<longrightarrow> as_RevokedAt r \<noteq> None" "as_ReplacedByID (f r) \<noteq> None" for r
    using that sel(6) [of r] sel(8) [of r] by argo
  let ?rs = "db_sessions db"
  have "distinct (map as_ID (map f ?rs)) \<and> distinct (map as_RefreshTokenHash (map f ?rs))"
    unfolding maps using inv by (simp only: session_inv_def simp_thms)
  moreover have "\<forall>r\<in>set (map f ?rs). as_ReplacedByID r \<noteq> None \<longrightarrow> as_RevokedAt r \<noteq> None"
    using inv rep unfolding session_inv_def set_map by blast
  moreover have "\<forall>r\<in>set (map f ?rs). \<forall>s\<in>set (map f ?rs). family_ok r s"
    using inv fam unfolding session_inv_def set_map by blast
  moreover have "db_sessions (db\<lparr>db_sessions := map f ?rs\<rparr>) = map f ?rs" by simp
  ultimately show ?thesis unfolding session_inv_def by (simp only: simp_thms)
qed

lemma only_revokes_where:
  "only_revokes (\<lambda>r. if P r \<and> as_RevokedAt r = None then r\<lparr>as_RevokedAt := Some t\<rparr> else r)"
  by (simp add: only_revokes_def)

lemma only_revokes_retire:
  "only_revokes (\<lambda>r. if retirable i r
     then r\<lparr>as_RevokedAt := Some t, as_ReplacedByID := Some n, as_LastUsedAt := u\<rparr> else r)"
  by (simp add: only_revokes_def)

lemma only_revokes_stamp:
  "only_revokes (\<lambda>r. if as_UserID r = u \<and> as_FamilyID r = f \<and> as_RevokedAt r = None
     then r\<lparr>as_MFAVerifiedAt := t\<rparr> else r)"
  by (simp add: only_revokes_def)

lemma session_inv_filter:
  "session_inv db \<Longrightarrow> session_inv (db\<lparr>db_sessions := filter P (db_sessions db)\<rparr>)"
  by (auto simp: session_inv_def distinct_map intro: inj_on_subset)

lemma session_inv_insert:
  assumes inv: "session_inv db" and ins: "session_insertable db s" and s: "as_ReplacedByID s = None"
    and fam: "\<forall>r\<in>set (db_sessions db). as_FamilyID r = as_FamilyID s \<longrightarrow>
      as_UserID r = as_UserID s \<and> as_RevokedAt r \<noteq> None"
  shows "session_inv (db\<lparr>db_sessions := db_sessions db @ [s]\<rparr>)"
proof -
  have "as_ID s \<notin> as_ID ` set (db_sessions db)"
    "as_RefreshTokenHash s \<notin> as_RefreshTokenHash ` set (db_sessions db)"
    using ins by (auto simp: session_insertable_def list_all_iff)
  moreover have "\<forall>r\<in>set (db_sessions db). family_ok r s \<and> family_ok s r" "family_ok s s"
    using fam by (auto simp: family_ok_def)
  ultimately show ?thesis using inv s by (simp add: session_inv_def ball_Un)
qed

section \<open>Repository calls keep it\<close>

lemma keeps_opD: "keeps_op P m \<Longrightarrow> P db \<Longrightarrow> P (snd (m db))"
  by (simp add: keeps_op_def)

lemma keeps_read: "blind P \<Longrightarrow> (\<And>db. snd (s db) = db) \<Longrightarrow> keeps_op P (statement s)"
  by (rule keeps_statement) (simp_all add: keeps_op_def)

lemma keeps_reads:
  "blind P \<Longrightarrow> keeps_op P (GetAuthSessionByTokenHash h)"
  "blind P \<Longrightarrow> keeps_op P (lockAuthSessionRotationState i)"
  "blind P \<Longrightarrow> keeps_op P (ListActiveAuthSessions u v)"
  "blind P \<Longrightarrow> keeps_op P (user_GetByID i)"
  unfolding GetAuthSessionByTokenHash_def lockAuthSessionRotationState_def ListActiveAuthSessions_def
    user_GetByID_def
  by (rule keeps_read; simp split: option.splits)+

lemma keeps_run_all: "(\<And>m. m \<in> set ms \<Longrightarrow> keeps_op P m) \<Longrightarrow> keeps_op P (run_all ms)"
  by (induction ms) (auto intro!: op_keeps)

text \<open>The deletion of an account, from its statements.\<close>

lemma keeps_DeleteAccount:
  assumes "blind P" "keeps_op P (anonymizeDeletedUser E u)"
    and "keeps_op P (erase (\<lambda>db. db\<lparr>db_profiles := map (blank_profile u) (db_profiles db)\<rparr>))"
    and "\<And>table. keeps_op P (delete_owned u table)" "\<And>T. keeps_op P (delete_tokens u T)"
    and "keeps_op P (erase (\<lambda>db. db\<lparr>db_sessions := filter (\<lambda>r. as_UserID r \<noteq> u) (db_sessions db)\<rparr>))"
    and "keeps_op P (erase (\<lambda>db. db\<lparr>db_mfa := filter (\<lambda>m. mfa_UserID m \<noteq> u) (db_mfa db)\<rparr>))"
    and "keeps_op P (erase (\<lambda>db. db\<lparr>db_codes := filter (\<lambda>c. rec_UserID c \<noteq> u) (db_codes db)\<rparr>))"
    and "keeps_op P (erase (\<lambda>db. db\<lparr>db_challenges := filter (\<lambda>c. ch_UserID c \<noteq> u) (db_challenges db)\<rparr>))"
    and "keeps_op P (erase (\<lambda>db. db))" "\<And>e. keeps_op P (insertOneSignalErasureOutbox e)"
  shows "keeps_op P (DeleteAccount_tx E u erasure)"
proof -
  have "keeps_op P (cleanupDeletedUserData u)"
    unfolding cleanupDeletedUserData_def
    by (rule keeps_run_all) (use assms(3-10) in auto)
  then show ?thesis unfolding DeleteAccount_tx_def by (intro op_keeps assms(1,2,11))
qed

text \<open>
  A law of the session table that survives revoking, stamping and deleting rows. Every statement
  and transaction of the program that touches the table, except the two that insert a row, keeps
  such a law: the session repository, the step-up stamp of \<open>mfa_postgres.go\<close> and the account
  transactions of \<open>user_postgres.go\<close>.
\<close>

locale session_law =
  fixes P :: "auth_db \<Rightarrow> bool"
  assumes law_sessions: "db_sessions d' = db_sessions d \<Longrightarrow> P d \<Longrightarrow> P d'"
    and law_map: "only_revokes f \<Longrightarrow> P d \<Longrightarrow> P (d\<lparr>db_sessions := map f (db_sessions d)\<rparr>)"
    and law_filter: "P d \<Longrightarrow> P (d\<lparr>db_sessions := filter Q (db_sessions d)\<rparr>)"
begin

lemma law_blind: "blind P"
proof (rule blindI)
  fix d fs
  show "P (d\<lparr>db_faults := fs\<rparr>) = P d"
    using law_sessions [of "d\<lparr>db_faults := fs\<rparr>" d] law_sessions [of d "d\<lparr>db_faults := fs\<rparr>"] by auto
qed

lemma law_elsewhere: "(\<And>d. db_sessions (snd (s d)) = db_sessions d) \<Longrightarrow> keeps_op P (statement s)"
  by (rule keeps_statement [OF law_blind]) (auto simp: keeps_op_def intro: law_sessions)

lemma law_revoke_where: "keeps_op P (revoke_where R)"
  unfolding revoke_where_def
  by (rule keeps_statement [OF law_blind]) (simp add: keeps_op_def law_map [OF only_revokes_where])

lemma law_revoke_family: "keeps_op P (RevokeAuthSessionFamily f)"
  by (simp add: RevokeAuthSessionFamily_def law_revoke_where)

lemma law_bump: "keeps_op P (bump_token_version u)"
  unfolding bump_token_version_def by (rule law_elsewhere) (simp add: Let_def)

lemma law_revoke_all: "keeps_op P (RevokeAllAuthSessions u)"
  unfolding RevokeAllAuthSessions_def by (intro op_keeps law_blind law_bump law_revoke_where)

lemma law_revoke_by_id: "keeps_op P (RevokeAuthSessionByID u i v)"
  unfolding RevokeAuthSessionByID_def
  by (intro op_keeps law_revoke_family keeps_read law_blind) (auto split: option.splits)

lemma law_retire: "keeps_op P (retireAuthSession old new now)"
  unfolding retireAuthSession_def Let_def
  by (rule keeps_statement [OF law_blind]) (simp add: keeps_op_def law_map [OF only_revokes_retire])

lemma law_cleanup: "keeps_op P (delete_dead_sessions t)"
  unfolding delete_dead_sessions_def
  by (rule keeps_statement [OF law_blind]) (simp add: keeps_op_def Let_def law_filter)

lemma law_stamp: "keeps_op P (SetSessionMFAVerified u f t)"
  unfolding SetSessionMFAVerified_def Let_def
  by (rule keeps_statement [OF law_blind]) (simp add: keeps_op_def law_map [OF only_revokes_stamp])

subsection \<open>The account transactions\<close>

lemma law_account_statements:
  "keeps_op P (update_live u g)" "keeps_op P (update_email E u m)" "keeps_op P (lock_user u)"
  "keeps_op P (revoke_unused T u)" "keeps_op P (spend_token T e hit)" "keeps_op P (anonymizeDeletedUser E u)"
  "keeps_op P (delete_owned u table)" "keeps_op P (delete_tokens u T)"
  "keeps_op P (insertOneSignalErasureOutbox erasure)"
  unfolding update_live_def update_email_def lock_user_def revoke_unused_def spend_token_def
    anonymizeDeletedUser_def delete_owned_def delete_tokens_def erase_def insertOneSignalErasureOutbox_def Let_def
  by (rule law_elsewhere; simp split: option.split)+

lemma law_revoke_in_tx: "keeps_op P (revokeAuthSessionsInTx u)"
  unfolding revokeAuthSessionsInTx_def by (intro op_keeps law_revoke_where)

lemma law_reset_password: "keeps_op P (ResetPasswordWithToken i u h)"
  unfolding ResetPasswordWithToken_def
  by (intro op_keeps law_blind law_account_statements law_revoke_in_tx)

lemma law_change_password: "keeps_op P (ChangePassword_tx u h)"
  unfolding ChangePassword_tx_def
  by (intro op_keeps law_blind law_account_statements law_revoke_in_tx)

lemma law_change_email: "keeps_op P (ChangeEmailWithToken E i u m)"
  unfolding ChangeEmailWithToken_def
  by (intro op_keeps law_blind law_account_statements law_revoke_in_tx)

lemma law_delete_account: "keeps_op P (DeleteAccount_tx E u erasure)"
proof (rule keeps_DeleteAccount [OF law_blind])
  show "keeps_op P (erase (\<lambda>d. d\<lparr>db_sessions := filter (\<lambda>r. as_UserID r \<noteq> u) (db_sessions d)\<rparr>))"
    unfolding erase_def by (rule keeps_statement [OF law_blind]) (simp add: keeps_op_def law_filter)
qed (simp_all only: erase_def law_account_statements; rule law_elsewhere, simp)+

end

interpretation rows: session_law session_inv
  by unfold_locales (blast intro: session_inv_map session_inv_filter dest: session_inv_sessions)+

lemmas session_keeps [op_keeps] =
  rows.law_revoke_family rows.law_bump rows.law_revoke_all rows.law_revoke_by_id rows.law_cleanup

text \<open>What a successful rotation did, statement by statement.\<close>

lemma rotate_body:
  assumes "RotateAuthSession old nxt v db = (Inr (), db')"
  shows "\<exists>s. find (\<lambda>r. as_ID r = old) (db_sessions db) = Some s \<and> rotation_validate s v = None \<and>
    length (filter (retirable old) (db_sessions db)) = 1 \<and>
    (\<exists>mid. mid = db\<lparr>db_sessions := map (\<lambda>r. if retirable old r
         then r\<lparr>as_RevokedAt := Some (av_Now v), as_ReplacedByID := Some (as_ID nxt), as_LastUsedAt := av_Now v\<rparr>
         else r) (db_sessions db)\<rparr> \<and>
       session_insertable mid nxt \<and> tables_eq db' (mid\<lparr>db_sessions := db_sessions mid @ [nxt]\<rparr>))"
  using assms
  by (auto simp: RotateAuthSession_def transaction_def op_bind_def op_ret_def op_fail_def statement_def
      lockAuthSessionRotationState_def retireAuthSession_def insert_session_def Let_def tables_eq_def
      session_insertable_def
      split: option.splits sum.splits prod.splits list.splits if_splits)

lemma session_inv_tables: "tables_eq db db' \<Longrightarrow> session_inv db = session_inv db'"
  using session_inv_blind unfolding tables_eq_def blind_def by metis

lemma tables_eq_sel:
  assumes "tables_eq db db'"
  shows "db_sessions db = db_sessions db'" "db_users db = db_users db'"
  using assms unfolding tables_eq_def by (metis auth_db.select_convs(1,2) auth_db.surjective auth_db.update_convs(7))+

lemma find_SomeD: "find P xs = Some x \<Longrightarrow> x \<in> set xs \<and> P x"
  by (auto simp: find_Some_iff)

lemma one_filter: "length (filter P xs) = 1 \<Longrightarrow> \<exists>x\<in>set xs. P x"
  by (metis One_nat_def filter_False length_0_conv nat.distinct(1))

lemma rotate_inv:
  assumes inv: "session_inv db" and rot: "RotateAuthSession old nxt v db = (Inr (), db')"
    and own: "\<forall>r\<in>set (db_sessions db). as_ID r = old \<longrightarrow>
      as_FamilyID r = as_FamilyID nxt \<and> as_UserID r = as_UserID nxt"
    and nxt: "as_ReplacedByID nxt = None"
  shows "session_inv db'"
proof -
  let ?f = "\<lambda>r. if retirable old r
     then r\<lparr>as_RevokedAt := Some (av_Now v), as_ReplacedByID := Some (as_ID nxt), as_LastUsedAt := av_Now v\<rparr>
     else r"
  let ?mid = "db\<lparr>db_sessions := map ?f (db_sessions db)\<rparr>"
  from rotate_body [OF rot] have one: "length (filter (retirable old) (db_sessions db)) = 1"
    and ins: "session_insertable ?mid nxt"
    and eq: "tables_eq db' (?mid\<lparr>db_sessions := db_sessions ?mid @ [nxt]\<rparr>)" by blast+
  have mid: "session_inv ?mid" using inv only_revokes_retire by (rule session_inv_map)
  obtain r0 where r0: "r0 \<in> set (db_sessions db)" "retirable old r0" using one_filter [OF one] by blast
  have fam0: "as_FamilyID r0 = as_FamilyID nxt" "as_UserID r0 = as_UserID nxt"
    using own r0 by (auto simp: retirable_def)
  have this': "as_UserID (?f r) = as_UserID nxt \<and> as_RevokedAt (?f r) \<noteq> None"
    if r: "r \<in> set (db_sessions db)" "as_FamilyID r = as_FamilyID nxt" for r
  proof -
    have ok: "family_ok r r0" "as_ReplacedByID r \<noteq> None \<longrightarrow> as_RevokedAt r \<noteq> None"
      using inv r(1) r0(1) by (auto simp: session_inv_def)
    have "as_RevokedAt r \<noteq> None" if "\<not> retirable old r"
      using that ok r(2) fam0 r0(2) by (auto simp: family_ok_def retirable_def)
    with ok(1) r(2) fam0 show ?thesis by (auto simp: family_ok_def)
  qed
  have "\<forall>r\<in>set (db_sessions ?mid). as_FamilyID r = as_FamilyID nxt \<longrightarrow>
      as_UserID r = as_UserID nxt \<and> as_RevokedAt r \<noteq> None"
  proof (intro ballI impI)
    fix q assume q: "q \<in> set (db_sessions ?mid)" "as_FamilyID q = as_FamilyID nxt"
    then obtain r where r: "r \<in> set (db_sessions db)" "q = ?f r" by auto
    have "as_FamilyID (?f r) = as_FamilyID r" by simp
    with q(2) r this' show "as_UserID q = as_UserID nxt \<and> as_RevokedAt q \<noteq> None" by metis
  qed
  then have "session_inv (?mid\<lparr>db_sessions := db_sessions ?mid @ [nxt]\<rparr>)"
    using mid ins nxt by (intro session_inv_insert)
  then show ?thesis using session_inv_tables [OF eq] by simp
qed

lemma rotate_fail: "RotateAuthSession old nxt v db = (Inl e, db') \<Longrightarrow> tables_eq db' db"
  unfolding RotateAuthSession_def by (rule transaction_atomic)

lemma create_cases:
  "CreateAuthSession s db = (r, db') \<Longrightarrow>
   (tables_eq db' db \<and> r \<noteq> Inr ()) \<or>
   (r = Inr () \<and> session_insertable db s \<and> tables_eq db' (db\<lparr>db_sessions := db_sessions db @ [s]\<rparr>))"
  by (auto simp: CreateAuthSession_def insert_session_def statement_def tables_eq_def session_insertable_def
      split: list.splits if_splits)

section \<open>Interleavings\<close>

text \<open>
  One repository call of some request: those of \<open>auth_session_postgres.go\<close>, the clean-up of
  \<open>auth_maintenance_postgres.go\<close>, the step-up stamp of \<open>mfa_postgres.go\<close> and the account
  transactions of \<open>user_postgres.go\<close> that revoke or delete sessions. Rows may also go in any other
  way (\<open>erased\<close>: the operator command \<open>cmd/reset-user-mfa\<close>), and anything may change outside the
  session table. \<open>U\<close> holds token hashes the random source does not draw again. A login draws a session id that names no
  family yet; a rotation carries the family and owner of the row it replaces, which the use case
  read from that row before.
\<close>

inductive session_step :: "string set \<Rightarrow> auth_db \<Rightarrow> auth_db \<Rightarrow> bool" for U where
  create: "\<forall>r\<in>set (db_sessions db). as_FamilyID r \<noteq> as_ID s \<Longrightarrow> as_FamilyID s = as_ID s \<Longrightarrow>
     as_RefreshTokenHash s \<notin> U \<Longrightarrow> as_ReplacedByID s = None \<Longrightarrow>
     session_step U db (snd (CreateAuthSession s db))"
| rotate: "\<forall>r\<in>set (db_sessions db). as_ID r = old \<longrightarrow>
       as_FamilyID r = as_FamilyID nxt \<and> as_UserID r = as_UserID nxt \<Longrightarrow>
     as_RefreshTokenHash nxt \<notin> U \<Longrightarrow> as_ReplacedByID nxt = None \<Longrightarrow>
     session_step U db (snd (RotateAuthSession old nxt v db))"
| revoke_family: "session_step U db (snd (RevokeAuthSessionFamily f db))"
| revoke_all: "session_step U db (snd (RevokeAllAuthSessions u db))"
| revoke_by_id: "session_step U db (snd (RevokeAuthSessionByID u i v db))"
| cleanup: "session_step U db (snd (delete_dead_sessions t db))"
| stamp: "session_step U db (snd (SetSessionMFAVerified u f t db))"
| reset_password: "session_step U db (snd (ResetPasswordWithToken i u ph db))"
| change_password: "session_step U db (snd (ChangePassword_tx u ph db))"
| change_email: "session_step U db (snd (ChangeEmailWithToken E i u m db))"
| delete_account: "session_step U db (snd (DeleteAccount_tx E u erasure db))"
| erased: "db_sessions db' = filter Q (db_sessions db) \<Longrightarrow> session_step U db db'"
| elsewhere: "db_sessions db' = db_sessions db \<Longrightarrow> session_step U db db'"

inductive_cases session_stepE: "session_step U db db'"

lemma create_inv:
  assumes run: "CreateAuthSession s db = (r, d)" and inv: "session_inv db"
    and fresh: "\<forall>r\<in>set (db_sessions db). as_FamilyID r \<noteq> as_ID s" "as_FamilyID s = as_ID s"
      "as_ReplacedByID s = None"
  shows "session_inv d"
proof -
  from create_cases [OF run] consider "tables_eq d db"
    | "session_insertable db s" "tables_eq d (db\<lparr>db_sessions := db_sessions db @ [s]\<rparr>)" by blast
  then show ?thesis
  proof cases
    case 1
    then show ?thesis using inv session_inv_tables by blast
  next
    case 2
    have "session_inv (db\<lparr>db_sessions := db_sessions db @ [s]\<rparr>)"
      using inv 2(1) fresh by (intro session_inv_insert) simp_all
    then show ?thesis using session_inv_tables [OF 2(2)] by simp
  qed
qed

lemma session_inv_erased: "db_sessions db' = filter Q (db_sessions db) \<Longrightarrow> session_inv db \<Longrightarrow> session_inv db'"
  using session_inv_filter [of db Q] session_inv_sessions [of db' "db\<lparr>db_sessions := filter Q (db_sessions db)\<rparr>"]
  by simp

text \<open>Every step keeps a law that the two insertions and a deletion keep.\<close>

lemma session_step_keeps:
  assumes step: "session_step U db db'" and law: "session_law P" and P: "P db"
    and create: "\<And>db s. \<forall>r\<in>set (db_sessions db). as_FamilyID r \<noteq> as_ID s \<Longrightarrow> as_FamilyID s = as_ID s \<Longrightarrow>
       as_RefreshTokenHash s \<notin> U \<Longrightarrow> as_ReplacedByID s = None \<Longrightarrow> P db \<Longrightarrow> P (snd (CreateAuthSession s db))"
    and rotate: "\<And>db old nxt v. \<forall>r\<in>set (db_sessions db). as_ID r = old \<longrightarrow>
         as_FamilyID r = as_FamilyID nxt \<and> as_UserID r = as_UserID nxt \<Longrightarrow>
       as_RefreshTokenHash nxt \<notin> U \<Longrightarrow> as_ReplacedByID nxt = None \<Longrightarrow> P db \<Longrightarrow>
       P (snd (RotateAuthSession old nxt v db))"
  shows "P db'"
  using step P
proof cases
  case (create s)
  then show ?thesis using assms(4) P by blast
next
  case (rotate old nxt v)
  then show ?thesis using assms(5) P by blast
next
  case (erased Q)
  from session_law.law_sessions [OF law _ session_law.law_filter [OF law P, of Q], of db'] erased
  show ?thesis by simp
next
  case elsewhere
  from session_law.law_sessions [OF law elsewhere P] show ?thesis .
qed (simp_all only: keeps_opD [where P = P and db = db, OF _ P] session_law.law_revoke_family [OF law] session_law.law_revoke_all [OF law]
    session_law.law_revoke_by_id [OF law] session_law.law_cleanup [OF law] session_law.law_stamp [OF law]
    session_law.law_reset_password [OF law] session_law.law_change_password [OF law]
    session_law.law_change_email [OF law] session_law.law_delete_account [OF law])

lemma rotate_keeps:
  assumes "session_inv db" "\<forall>r\<in>set (db_sessions db). as_ID r = old \<longrightarrow>
      as_FamilyID r = as_FamilyID nxt \<and> as_UserID r = as_UserID nxt" "as_ReplacedByID nxt = None"
  shows "session_inv (snd (RotateAuthSession old nxt v db))"
proof (cases "RotateAuthSession old nxt v db")
  case (Pair r d)
  show ?thesis
  proof (cases r)
    case (Inl e)
    from session_inv_tables [OF rotate_fail [OF Pair [unfolded Inl]]] Pair assms(1) show ?thesis by simp
  next
    case (Inr x)
    with Pair have "RotateAuthSession old nxt v db = (Inr (), d)" by simp
    from rotate_inv [OF assms(1) this assms(2,3)] Pair show ?thesis by simp
  qed
qed

lemma session_step_inv: "session_step U db db' \<Longrightarrow> session_inv db \<Longrightarrow> session_inv db'"
  by (erule session_step_keeps [OF _ rows.session_law_axioms])
    (simp_all add: create_inv [OF prod.collapse [symmetric]] rotate_keeps)

lemma session_steps_inv: "(session_step U)\<^sup>*\<^sup>* db db' \<Longrightarrow> session_inv db \<Longrightarrow> session_inv db'"
  by (induction rule: rtranclp_induct) (auto intro: session_step_inv)

lemma empty_inv: "db_sessions db = [] \<Longrightarrow> session_inv db"
  by (simp add: session_inv_def)

end
