(* ===== verification/Auth_Demo.thy ===== *)
theory Auth_Demo
  imports Auth_Session
begin

text \<open>
  A concrete configuration, tables and requests on which the properties of the account use cases
  are applied, with the facts that evaluate the operations there: tokens are 32 equal characters,
  the digest prefixes a letter and base64 is the identity.
\<close>

section \<open>Tables and requests\<close>

definition demo_env :: auth_env where
  "demo_env = \<lparr>ae_sha256hex = (\<lambda>s. CHR ''h'' # s), ae_decode64 = Some, ae_encode64 = (\<lambda>s. s),
     ae_truncate = take, ae_lower = (\<lambda>s. s), ae_sign = (\<lambda>u v f. Some (u @ f, 900)),
     ae_upper = (\<lambda>s. s), ae_bcrypt = (\<lambda>h p. h = p), ae_validEmail = (\<lambda>s. s \<noteq> ''''),
     ae_seal = (\<lambda>s. Some s), ae_open = (\<lambda>s. Some s),
     ae_totp = (\<lambda>s t. Some (if t = 480 then ''123456'' else ''654321'')),
     ae_hash = (\<lambda>salt p. Some p), ae_equalFold = (=), ae_sqlLower = (\<lambda>s. s)\<rparr>"

definition demo_rule :: RateLimitRule where
  "demo_rule = \<lparr>rule_Max = 5, rule_Window = 60\<rparr>"

definition demo_cfg :: auth_cfg where
  "demo_cfg = \<lparr>cfg_rateLimiter = True, cfg_sessions = True, cfg_lockout = True, cfg_audit = True,
     cfg_refreshTokenTTL = 1000, cfg_RefreshToken = demo_rule, cfg_RefreshIP = demo_rule,
     cfg_lockoutOptions = \<lparr>lo_Enabled = True, lo_Threshold = 3, lo_BaseDuration = 10, lo_Factor = 2,
       lo_MaxDuration = 40\<rparr>,
     cfg_LoginEmail = demo_rule, cfg_LoginIP = demo_rule, cfg_mfa = True,
     cfg_mfaOptions = \<lparr>mo_StepUpTTL = 60, mo_EnrollmentGrace = 600, mo_ChallengeTTL = 30, mo_ResetTTL = 90,
       mo_TOTPIssuer = ''Surau''\<rparr>,
     cfg_MFAVerifyToken = demo_rule, cfg_MFAVerifyIP = demo_rule, cfg_MFAStepUpUser = demo_rule,
     cfg_MFAStepUpIP = demo_rule, cfg_MFAResetEmail = demo_rule, cfg_MFAResetIP = demo_rule\<rparr>"

definition demo_token :: "char \<Rightarrow> string" where
  "demo_token c = replicate refreshTokenBytes c"

definition demo_session :: "string \<Rightarrow> string \<Rightarrow> string \<Rightarrow> char \<Rightarrow> AuthSession" where
  "demo_session i f u c = \<lparr>as_ID = i, as_FamilyID = f, as_UserID = u,
     as_RefreshTokenHash = CHR ''h'' # demo_token c, as_TokenVersion = 1, as_UserAgent = ''ua'',
     as_ClientIP = ''1.1.1.1'', as_CreatedAt = 0, as_LastUsedAt = 0, as_ExpiresAt = 1000,
     as_RevokedAt = None, as_ReplacedByID = None, as_MFAVerifiedAt = Some 7\<rparr>"

definition demo_user :: "string \<Rightarrow> user_row" where
  "demo_user i = \<lparr>usr_ID = i, usr_Email = i, usr_Role = ''user'', usr_TokenVersion = 1, usr_DeletedAt = None,
     usr_PasswordHash = ''correct'', usr_EmailVerified = True, usr_MFAEnforcedFrom = None,
     usr_Username = i, usr_EmailVerifiedAt = None\<rparr>"

definition demo_db :: auth_db where
  "demo_db = \<lparr>db_users = [demo_user ''u1'', demo_user ''u2''],
     db_sessions = [demo_session ''f1'' ''f1'' ''u1'' CHR ''a'', demo_session ''f2'' ''f2'' ''u2'' CHR ''b''],
     db_limits = [], db_lockouts = [], db_audit = [], db_clock = 500, db_faults = [],
     db_mfa = [], db_codes = [], db_challenges = [], db_tokens = (\<lambda>_. []), db_profiles = [],
     db_owned = [], db_erasures = []\<rparr>"

definition demo_req :: "string \<Rightarrow> char \<Rightarrow> session_request" where
  "demo_req i c = \<lparr>rq_now = 500, rq_newID = i, rq_random = Some (demo_token c),
     rq_UserAgent = '''', rq_ClientIP = ''2.2.2.2'', rq_Transport = ''rest''\<rparr>"

section \<open>Evaluation\<close>

lemma demo_token_simps [simp]:
  "length (demo_token c) = refreshTokenBytes"
  "demo_token c = demo_token d \<longleftrightarrow> c = d"
  "demo_token c \<noteq> []" "set (demo_token c) = {c}"
  by (simp_all add: demo_token_def refreshTokenBytes_def)

lemma demo_trim:
  "33 \<le> byte c \<Longrightarrow> byte c < 128 \<Longrightarrow> trim_space (demo_token c) = demo_token c"
  "trim_space ''2.2.2.2'' = ''2.2.2.2''"
  by (rule trim_space_plain; simp add: byte_def)+

lemmas demo_tables = demo_db_def demo_session_def demo_user_def

lemma demo_hash:
  "33 \<le> byte c \<Longrightarrow> byte c < 128 \<Longrightarrow>
     hashRefreshToken demo_env (demo_token c) = Some (CHR ''h'' # demo_token c)"
  by (simp add: hashRefreshToken_def demo_trim demo_env_def hashTokenBytes_def)

named_theorems demo_eval

lemmas demo_ops [demo_eval] =
  op_ret_def op_fail_def op_bind_def op_try_def statement_def transaction_def caught_def with_audit_def
  auditAuth_def enforceAuthRateLimit_def IncrementAuthRateLimit_def limit_key_def request_key_def
  RefreshSession_def rotate_and_issue_def userForRefreshableSession_def GetAuthSessionByTokenHash_def
  user_GetByID_def issueSessionRowAt_def RotateAuthSession_def lockAuthSessionRotationState_def
  rotation_validate_def retireAuthSession_def retirable_def insert_session_def session_insertable_def
  effectiveAuthSessionDeadline_def authSessionValidity_def inherit_session_def new_session_def
  hashTokenBytes_def go_truncate_def revokeSessionFamilyForReuse_def revoke_quietly_def RevokeAuthSessionFamily_def
  revoke_where_def Logout_def LogoutAll_def RevokeAllAuthSessions_def bump_token_version_def

lemmas demo_values [demo_eval] =
  demo_tables demo_cfg_def demo_rule_def demo_req_def demo_trim demo_hash authRateLimitKeyHash_def
  maxResetTokenInputBytes_def refreshTokenBytes_def unknownAuthMetadata_def byte_def Let_def

lemma demo_env_sel [demo_eval]:
  "ae_sha256hex demo_env s = CHR ''h'' # s" "ae_decode64 demo_env s = Some s"
  "ae_encode64 demo_env s = s" "ae_truncate demo_env n s = take n s" "ae_lower demo_env s = s"
  "ae_sign demo_env u v f = Some (u @ f, 900)" "ae_upper demo_env s = s"
  "ae_bcrypt demo_env h p = (h = p)" "ae_validEmail demo_env s = (s \<noteq> '''')"
  "ae_seal demo_env s = Some s" "ae_open demo_env s = Some s"
  "ae_totp demo_env s t = Some (if t = 480 then ''123456'' else ''654321'')"
  "ae_hash demo_env salt p = Some p" "ae_equalFold demo_env a b = (a = b)" "ae_sqlLower demo_env s = s"
  by (simp_all add: demo_env_def)

end
