(* ===== verification/Auth_Session_Use.thy ===== *)
theory Auth_Session_Use
  imports Auth_Session_Props Auth_Demo
begin

text \<open>
  The session use cases: what a successful refresh did, what a reused token causes, that a spent
  token stays spent along every interleaving, and that the use cases keep the table invariant.
\<close>

section \<open>Running operations\<close>

named_theorems op_runs

lemma op_bind_Inr [op_runs]:
  "op_bind m f db = (Inr y, db') \<longleftrightarrow> (\<exists>x mid. m db = (Inr x, mid) \<and> f x mid = (Inr y, db'))"
  by (auto simp: op_bind_def split: prod.splits sum.splits)

lemma op_try_Inr [op_runs]:
  "op_try m h f db = (Inr y, db') \<longleftrightarrow>
     (\<exists>e mid. m db = (Inl e, mid) \<and> h e mid = (Inr y, db')) \<or>
     (\<exists>x mid. m db = (Inr x, mid) \<and> f x mid = (Inr y, db'))"
  by (auto simp: op_try_def split: prod.splits sum.splits)

lemma op_leaf_Inr [op_runs]:
  "op_ret x db = (Inr y, db') \<longleftrightarrow> y = x \<and> db' = db"
  "\<not> op_fail e db = (Inr y, db')"
  "caught u m db = (Inr (w, r), db') \<longleftrightarrow> w = u \<and> m db = (r, db')"
  by (auto simp: op_ret_def op_fail_def caught_def split: prod.splits)

lemma caught_total: "fst (caught u m db) = Inr (u, fst (m db))" "snd (caught u m db) = snd (m db)"
  by (simp_all add: caught_def split: prod.splits)

lemma keeps_caught [op_keeps]: "keeps_op P m \<Longrightarrow> keeps_op P (caught u m)"
  by (simp add: keeps_op_def caught_total)

text \<open>The limiter and the audit log leave the session and user tables alone.\<close>

definition tables_are :: "AuthSession list \<Rightarrow> user_row list \<Rightarrow> auth_db \<Rightarrow> bool" where
  "tables_are ss us db \<longleftrightarrow> db_sessions db = ss \<and> db_users db = us"

lemma blind_tables [simp]: "blind (tables_are ss us)"
  by (rule blindI) (simp add: tables_are_def)

lemma keeps_increment: "keeps_op (tables_are ss us) (IncrementAuthRateLimit l w)"
  unfolding IncrementAuthRateLimit_def
  by (intro op_keeps blind_tables) (auto simp: keeps_op_def tables_are_def Let_def split: option.splits)

lemma keeps_enforce_checks: "keeps_op (tables_are ss us) (enforce_checks E now action cs)"
proof (induction cs)
  case (Cons c cs)
  show ?case
    unfolding enforce_checks.simps Let_def case_prod_beta
    by (intro op_keeps keeps_increment Cons.IH)
qed (simp add: op_keeps)

lemma keeps_enforce: "keeps_op (tables_are ss us) (enforceAuthRateLimit C E now action cs)"
  unfolding enforceAuthRateLimit_def by (intro op_keeps keeps_enforce_checks)

lemma keeps_audit: "keeps_op (tables_are ss us) (auditAuth C ev ok u)"
  unfolding auditAuth_def
  by (intro op_keeps blind_tables) (simp add: keeps_op_def tables_are_def)

lemma keeps_tables_run:
  assumes "keeps_op (tables_are (db_sessions db) (db_users db)) m" "m db = (r, db')"
  shows "db_sessions db' = db_sessions db \<and> db_users db' = db_users db"
  using keeps_opD [OF assms(1), of db] assms(2) by (simp add: tables_are_def)

lemmas enforce_run = keeps_tables_run [OF keeps_enforce]
lemmas audit_run = keeps_tables_run [OF keeps_audit]
lemmas read_run = keeps_tables_run [OF keeps_reads(1) [OF blind_tables]]
  keeps_tables_run [OF keeps_reads(4) [OF blind_tables]]

lemma audit_Inr: "\<exists>db'. auditAuth C ev ok u db = (Inr (), db')"
  by (auto simp: auditAuth_def op_ret_def op_try_def split: prod.splits sum.splits)

lemma with_audit_run:
  assumes "body db = (Inr (u, r), mid)"
  shows "\<exists>db'. with_audit C ev body db = (r, db') \<and>
    db_sessions db' = db_sessions mid \<and> db_users db' = db_users mid"
proof -
  obtain d where d: "auditAuth C ev (case r of Inl _ \<Rightarrow> False | Inr _ \<Rightarrow> True) u mid = (Inr (), d)"
    using audit_Inr by blast
  from audit_run [OF d] d assms show ?thesis
    by (cases r) (simp_all add: with_audit_def op_bind_def op_ret_def op_fail_def)
qed

lemma statement_cases:
  "statement s db = (r, db') \<Longrightarrow>
     (r = Inl ErrDB \<and> tables_eq db' db) \<or>
     (\<exists>fs. s (db\<lparr>db_faults := fs\<rparr>) = (r, db'))"
proof (cases "db_faults db")
  case Nil
  then have *: "db\<lparr>db_faults := []\<rparr> = db" by (cases db) simp
  assume "statement s db = (r, db')"
  with Nil have "s (db\<lparr>db_faults := []\<rparr>) = (r, db')" by (simp add: statement_def *)
  then show ?thesis by blast
qed (auto simp: statement_def tables_eq_def split: if_splits)

lemma get_session_run:
  "GetAuthSessionByTokenHash h db = (Inr s, mid) \<Longrightarrow>
     find (\<lambda>r. as_RefreshTokenHash r = h) (db_sessions db) = Some s"
  unfolding GetAuthSessionByTokenHash_def
  by (drule statement_cases) (auto split: option.splits)

lemma get_user_run:
  "user_GetByID i db = (Inr u, mid) \<Longrightarrow>
     find (\<lambda>u. usr_ID u = i \<and> usr_DeletedAt u = None) (db_users db) = Some u"
  unfolding user_GetByID_def
  by (drule statement_cases) (auto split: option.splits)

section \<open>A successful refresh\<close>

definition retire_row :: "string \<Rightarrow> string \<Rightarrow> int \<Rightarrow> AuthSession \<Rightarrow> AuthSession" where
  "retire_row old replacement now r = (if retirable old r
     then r\<lparr>as_RevokedAt := Some now, as_ReplacedByID := Some replacement, as_LastUsedAt := now\<rparr>
     else r)"

lemma rotate_run:
  assumes "RotateAuthSession old nxt v db = (Inr (), db')"
  shows "db_sessions db' = map (retire_row old (as_ID nxt) (av_Now v)) (db_sessions db) @ [nxt] \<and>
    db_users db' = db_users db \<and> length (filter (retirable old) (db_sessions db)) = 1"
  using rotate_body [OF assms] tables_eq_sel by (fastforce simp: retire_row_def fun_eq_iff)

lemma issue_row_run:
  assumes "issueSessionRowAt C E q u fam store db = (Inr res, db')"
  shows "\<exists>raw. rq_random q = Some raw \<and> store (new_session C E q u fam raw) db = (Inr (), db') \<and>
    lr_SessionID res = fam \<and> lr_RefreshToken res = ae_encode64 E raw \<and> lr_User res = u"
  using assms by (auto simp: issueSessionRowAt_def op_runs split: option.splits)

lemma refreshable_run:
  assumes "userForRefreshableSession C s now db = (Inr u, mid)"
  shows "as_RevokedAt s = None \<and> as_ReplacedByID s = None \<and> now < effectiveAuthSessionDeadline C s \<and>
    u \<in> set (db_users db) \<and> usr_ID u = as_UserID s \<and> usr_DeletedAt u = None \<and>
    usr_TokenVersion u = as_TokenVersion s \<and> db_sessions mid = db_sessions db \<and> db_users mid = db_users db"
proof -
  have g: "user_GetByID (as_UserID s) db = (Inr u, mid)" and
    ok: "as_RevokedAt s = None" "as_ReplacedByID s = None" "now < effectiveAuthSessionDeadline C s"
      "usr_TokenVersion u = as_TokenVersion s"
    using assms by (auto simp: userForRefreshableSession_def op_runs split: if_splits)
  from get_user_run [OF g] read_run(2) [OF g] ok show ?thesis by (auto dest: find_SomeD)
qed

lemma rotate_and_issue_run:
  assumes "rotate_and_issue C E q s db = (Inr res, db')"
  shows "\<exists>u raw. as_RevokedAt s = None \<and> as_ReplacedByID s = None \<and>
    rq_now q < effectiveAuthSessionDeadline C s \<and> u \<in> set (db_users db) \<and> usr_ID u = as_UserID s \<and>
    usr_DeletedAt u = None \<and> usr_TokenVersion u = as_TokenVersion s \<and> rq_random q = Some raw \<and>
    (\<exists>mid. db_sessions mid = db_sessions db \<and> db_users mid = db_users db \<and>
      RotateAuthSession (as_ID s) (inherit_session s (new_session C E q u (as_FamilyID s) raw))
        (authSessionValidity C (rq_now q)) mid = (Inr (), db')) \<and>
    lr_SessionID res = as_FamilyID s \<and> lr_RefreshToken res = ae_encode64 E raw \<and> lr_User res = u"
proof -
  let ?store = "\<lambda>nxt. RotateAuthSession (as_ID s) (inherit_session s nxt)
    (authSessionValidity C (rq_now q))"
  obtain u mid where u: "userForRefreshableSession C s (rq_now q) db = (Inr u, mid)"
    and "issueSessionRowAt C E q u (as_FamilyID s) ?store mid = (Inr res, db')"
    using assms by (auto simp: rotate_and_issue_def op_runs split: if_splits)
  from issue_row_run [OF this(2)] refreshable_run [OF u] show ?thesis by blast
qed

lemma with_audit_Inr:
  assumes "with_audit C ev body db = (Inr x, db')"
  shows "\<exists>u mid. body db = (Inr (u, Inr x), mid) \<and>
    db_sessions db' = db_sessions mid \<and> db_users db' = db_users mid"
proof (cases "body db")
  case (Pair b mid)
  show ?thesis
  proof (cases b)
    case (Inl e)
    with assms Pair show ?thesis by (simp add: with_audit_def op_bind_def)
  next
    case (Inr p)
    obtain u r where p: "p = (u, r)" by (cases p)
    from with_audit_run [of body db u r mid C ev] Pair Inr p assms show ?thesis by auto
  qed
qed

lemma refresh_run:
  assumes "RefreshSession C E q token db = (Inr res, db')"
  shows "\<exists>h s mid d. hashRefreshToken E (trim_space token) = Some h \<and>
    find (\<lambda>r. as_RefreshTokenHash r = h) (db_sessions db) = Some s \<and>
    db_sessions mid = db_sessions db \<and> db_users mid = db_users db \<and>
    rotate_and_issue C E q s mid = (Inr res, d) \<and>
    db_sessions db' = db_sessions d \<and> db_users db' = db_users d"
proof -
  let ?checks = "[\<lparr>rc_keyType = ''token'', rc_value = trim_space token, rc_rule = cfg_RefreshToken C\<rparr>,
    \<lparr>rc_keyType = ''ip'', rc_value = rq_ClientIP q, rc_rule = cfg_RefreshIP C\<rparr>]"
  from with_audit_Inr [OF assms [unfolded RefreshSession_def]] obtain u d h s m1 m2 where
    out: "db_sessions db' = db_sessions d" "db_users db' = db_users d"
    and lim: "enforceAuthRateLimit C E (rq_now q) ''session_refresh'' ?checks db = (Inr u, m1)"
    and h: "hashRefreshToken E (trim_space token) = Some h"
    and get: "GetAuthSessionByTokenHash h m1 = (Inr s, m2)"
    and rot: "rotate_and_issue C E q s m2 = (Inr res, d)"
    by (auto simp: Let_def op_runs split: if_splits option.splits)
  from enforce_run [OF lim] read_run(1) [OF get] get_session_run [OF get] out h rot
  show ?thesis by auto
qed

lemma refresh_row_live:
  assumes "RefreshSession C E q token db = (Inr res, db')"
  shows "\<exists>s \<in> set (db_sessions db). hashRefreshToken E (trim_space token) = Some (as_RefreshTokenHash s) \<and>
    as_RevokedAt s = None"
proof -
  from refresh_run [OF assms] obtain h s mid d where
    "hashRefreshToken E (trim_space token) = Some h"
    and s: "find (\<lambda>r. as_RefreshTokenHash r = h) (db_sessions db) = Some s"
    and r: "rotate_and_issue C E q s mid = (Inr res, d)" by blast
  with find_SomeD [OF s] rotate_and_issue_run [OF r] show ?thesis by auto
qed

text \<open>
  C6. A refresh succeeds only for a token whose row is in the table, not revoked, not replaced and
  inside its effective deadline, with a live owner whose token version is the one the row was
  issued under. It then revokes exactly that row, links it to its successor, and appends one
  active row of the same family and owner, which inherits the MFA stamp and stores the hash of
  the token handed out; no other row changes.
\<close>
theorem refresh_rotates:
  assumes "RefreshSession C E q token db = (Inr res, db')"
  shows "\<exists>s u raw nxt. s \<in> set (db_sessions db) \<and>
    hashRefreshToken E (trim_space token) = Some (as_RefreshTokenHash s) \<and>
    as_RevokedAt s = None \<and> as_ReplacedByID s = None \<and> rq_now q < effectiveAuthSessionDeadline C s \<and>
    u \<in> set (db_users db) \<and> usr_ID u = as_UserID s \<and> usr_DeletedAt u = None \<and>
    usr_TokenVersion u = as_TokenVersion s \<and>
    as_FamilyID nxt = as_FamilyID s \<and> as_UserID nxt = as_UserID s \<and> as_ID nxt = rq_newID q \<and>
    as_RevokedAt nxt = None \<and> as_ReplacedByID nxt = None \<and> as_MFAVerifiedAt nxt = as_MFAVerifiedAt s \<and>
    as_TokenVersion nxt = usr_TokenVersion u \<and> as_RefreshTokenHash nxt = ae_sha256hex E raw \<and>
    lr_RefreshToken res = ae_encode64 E raw \<and> lr_SessionID res = as_FamilyID s \<and> lr_User res = u \<and>
    db_users db' = db_users db \<and> length (filter (retirable (as_ID s)) (db_sessions db)) = 1 \<and>
    db_sessions db' = map (retire_row (as_ID s) (as_ID nxt) (rq_now q)) (db_sessions db) @ [nxt]"
proof -
  from refresh_run [OF assms] obtain h s mid d where
    h: "hashRefreshToken E (trim_space token) = Some h"
    and s: "find (\<lambda>r. as_RefreshTokenHash r = h) (db_sessions db) = Some s"
    and mid: "db_sessions mid = db_sessions db" "db_users mid = db_users db"
    and r: "rotate_and_issue C E q s mid = (Inr res, d)"
    and out: "db_sessions db' = db_sessions d" "db_users db' = db_users d" by blast
  from rotate_and_issue_run [OF r] obtain u raw m where
    ok: "as_RevokedAt s = None" "as_ReplacedByID s = None" "rq_now q < effectiveAuthSessionDeadline C s"
      "u \<in> set (db_users mid)" "usr_ID u = as_UserID s" "usr_DeletedAt u = None"
      "usr_TokenVersion u = as_TokenVersion s"
    and m: "db_sessions m = db_sessions mid" "db_users m = db_users mid"
    and rot: "RotateAuthSession (as_ID s) (inherit_session s (new_session C E q u (as_FamilyID s) raw))
        (authSessionValidity C (rq_now q)) m = (Inr (), d)"
    and res: "lr_SessionID res = as_FamilyID s" "lr_RefreshToken res = ae_encode64 E raw" "lr_User res = u"
    by blast
  let ?nxt = "inherit_session s (new_session C E q u (as_FamilyID s) raw)"
  have av: "av_Now (authSessionValidity C (rq_now q)) = rq_now q" by (simp add: authSessionValidity_def)
  show ?thesis
    by (rule exI [of _ s], rule exI [of _ u], rule exI [of _ raw], rule exI [of _ ?nxt])
      (use find_SomeD [OF s] h ok mid m out res rotate_run [OF rot, unfolded av] in
        \<open>simp add: inherit_session_def new_session_def hashTokenBytes_def\<close>)
qed

theorem refresh_rotates_witness:
  "\<exists>res db' nxt. RefreshSession demo_cfg demo_env (demo_req ''s9'' CHR ''c'') (demo_token CHR ''a'') demo_db
      = (Inr res, db') \<and> as_MFAVerifiedAt nxt = Some 7 \<and> as_FamilyID nxt = ''f1'' \<and>
    db_sessions db' = map (retire_row ''f1'' ''s9'' 500) (db_sessions demo_db) @ [nxt]"
proof -
  let ?run = "RefreshSession demo_cfg demo_env (demo_req ''s9'' CHR ''c'') (demo_token CHR ''a'') demo_db"
  have "\<not> isl (fst ?run)" by (simp add: demo_eval)
  then obtain res db' where run: "?run = (Inr res, db')" by (metis prod.collapse sum.collapse(2))
  from refresh_rotates [OF run] show ?thesis
    unfolding run by (auto simp: demo_tables demo_trim demo_hash demo_req_def byte_def)
qed

section \<open>Interleavings\<close>

text \<open>
  C3. Whatever repository calls concurrent requests interleave (those of the session repository,
  step-up stamps, the account transactions that revoke or delete sessions), with any faults and clocks, a
  table that started empty has one owner per family, at most one active row per family, distinct
  identifiers and token hashes, and no replaced row that is still active.
\<close>
theorem one_active_row_per_family:
  assumes "db_sessions db\<^sub>0 = []" "(session_step U)\<^sup>*\<^sup>* db\<^sub>0 db"
  shows "distinct (map as_ID (db_sessions db)) \<and> distinct (map as_RefreshTokenHash (db_sessions db)) \<and>
    (\<forall>r\<in>set (db_sessions db). as_ReplacedByID r \<noteq> None \<longrightarrow> as_RevokedAt r \<noteq> None) \<and>
    (\<forall>r\<in>set (db_sessions db). \<forall>s\<in>set (db_sessions db). as_FamilyID r = as_FamilyID s \<longrightarrow>
       as_UserID r = as_UserID s \<and> (as_RevokedAt r = None \<longrightarrow> as_RevokedAt s = None \<longrightarrow> r = s))"
proof -
  have inv: "session_inv db" using session_steps_inv [OF assms(2) empty_inv [OF assms(1)]] .
  have same: "r = s" if "r \<in> set (db_sessions db)" "s \<in> set (db_sessions db)" "as_ID r = as_ID s" for r s
    using inv that by (auto simp: session_inv_def distinct_map dest: inj_onD)
  have fam: "family_ok r s" if "r \<in> set (db_sessions db)" "s \<in> set (db_sessions db)" for r s
    using inv that by (simp add: session_inv_def)
  have "as_UserID r = as_UserID s \<and> (as_RevokedAt r = None \<longrightarrow> as_RevokedAt s = None \<longrightarrow> r = s)"
    if "r \<in> set (db_sessions db)" "s \<in> set (db_sessions db)" "as_FamilyID r = as_FamilyID s" for r s
    using fam [OF that(1,2)] same [OF that(1,2)] that(3) unfolding family_ok_def by blast
  then show ?thesis using inv unfolding session_inv_def by blast
qed

theorem one_active_row_per_family_witness:
  "\<exists>db::auth_db. db_sessions db \<noteq> [] \<and> distinct (map as_FamilyID (filter (\<lambda>r. as_RevokedAt r = None) (db_sessions db))) \<and>
     distinct (map as_ID (db_sessions db))"
proof -
  let ?init = "demo_db\<lparr>db_sessions := []\<rparr>"
  let ?s = "demo_session ''f1'' ''f1'' ''u1'' CHR ''a''"
  let ?db = "snd (CreateAuthSession ?s ?init)"
  have "session_step {} ?init ?db"     by (rule session_step.create [where db = ?init and s = ?s]) (simp_all add: demo_session_def)
  then have run: "(session_step {})\<^sup>*\<^sup>* ?init ?db" by blast
  have rows: "db_sessions ?db = [?s]" by (simp add: demo_eval CreateAuthSession_def)
  from one_active_row_per_family [OF _ run] have "distinct (map as_ID (db_sessions ?db))" by simp
  with rows show ?thesis by (intro exI [of _ ?db]) simp
qed

text \<open>A spent hash: every row that carries it is revoked.\<close>

definition spent :: "string \<Rightarrow> auth_db \<Rightarrow> bool" where
  "spent h db \<longleftrightarrow> (\<forall>r\<in>set (db_sessions db). as_RefreshTokenHash r = h \<longrightarrow> as_RevokedAt r \<noteq> None)"

lemma spent_map:
  assumes "only_revokes f" "spent h db"
  shows "spent h (db\<lparr>db_sessions := map f (db_sessions db)\<rparr>)"
proof -
  have "as_RevokedAt (f r) \<noteq> None" if "r \<in> set (db_sessions db)" "as_RefreshTokenHash r = h" for r
    using that only_revokesD(6) [OF assms(1)] assms(2) unfolding spent_def by blast
  then show ?thesis by (simp add: spent_def only_revokesD(4) [OF assms(1)])
qed

interpretation dead: session_law "spent h" for h
proof unfold_locales
  show "spent h d'" if "db_sessions d' = db_sessions d" "spent h d" for d d'
    using that by (simp add: spent_def)
  show "spent h (d\<lparr>db_sessions := filter Q (db_sessions d)\<rparr>)" if "spent h d" for d Q
    using that by (simp add: spent_def)
qed (rule spent_map)

lemma spent_insert: "as_RefreshTokenHash s \<noteq> h \<Longrightarrow> keeps_op (spent h) (insert_session s)"
  unfolding insert_session_def
  by (intro op_keeps dead.law_blind) (auto simp: keeps_op_def spent_def)

lemma spent_rotate: "as_RefreshTokenHash nxt \<noteq> h \<Longrightarrow> keeps_op (spent h) (RotateAuthSession old nxt v)"
  unfolding RotateAuthSession_def
  by (intro op_keeps dead.law_blind keeps_reads dead.law_retire spent_insert)

lemma spent_step:
  assumes "session_step U db db'" "h \<in> U" "spent h db"
  shows "spent h db'"
proof (rule session_step_keeps [OF assms(1) dead.session_law_axioms assms(3)])
  fix db :: auth_db and s :: AuthSession
  assume "as_RefreshTokenHash s \<notin> U" "spent h db"
  moreover from this(1) assms(2) have "as_RefreshTokenHash s \<noteq> h" by blast
  ultimately show "spent h (snd (CreateAuthSession s db))"
    unfolding CreateAuthSession_def by (intro keeps_opD [OF spent_insert])
next
  fix db :: auth_db and nxt :: AuthSession and old v
  assume "as_RefreshTokenHash nxt \<notin> U" "spent h db"
  moreover from this(1) assms(2) have "as_RefreshTokenHash nxt \<noteq> h" by blast
  ultimately show "spent h (snd (RotateAuthSession old nxt v db))" by (intro keeps_opD [OF spent_rotate])
qed

text \<open>
  C13. A refresh token whose row was revoked (rotated, logged out, revoked by its owner, or caught
  being reused) is never accepted again: after any interleaving of repository calls that does not
  draw the same random token a second time, a refresh with it ends in an error and hands out
  nothing, even when the clean-up has deleted the row. The interleaved calls are those of every
  request that writes the session table: refreshes, logins, logouts and revocations, step-up
  stamps, password resets, password and address changes, account deletions, and deletions of rows.
\<close>
theorem spent_token_stays_dead:
  assumes "hashRefreshToken E (trim_space token) = Some h"
    and "spent h db" "(session_step U)\<^sup>*\<^sup>* db db'" "h \<in> U"
  shows "\<exists>e db''. RefreshSession C E q token db' = (Inl e, db'')"
proof (cases "RefreshSession C E q token db'")
  case (Pair r d)
  have "spent h db'" using assms(3,2) by (induction rule: rtranclp_induct) (use assms(4) spent_step in blast)+
  with refresh_row_live [of C E q token db' _ d] assms(1) Pair show ?thesis
    by (cases r) (auto simp: spent_def)
qed

theorem spent_token_stays_dead_witness:
  "\<exists>db e db''. db_sessions db = [] \<and>
     RefreshSession demo_cfg demo_env (demo_req ''s9'' CHR ''c'') (demo_token CHR ''a'') db = (Inl e, db'')"
proof -
  let ?db = "snd (RevokeAuthSessionFamily ''f1'' demo_db)"
  let ?cleaned = "snd (delete_dead_sessions 2000 ?db)"
  have h: "hashRefreshToken demo_env (trim_space (demo_token CHR ''a'')) = Some (CHR ''h'' # demo_token CHR ''a'')"
    by (simp add: demo_trim demo_hash byte_def)
  have "spent (CHR ''h'' # demo_token CHR ''a'') ?db" by (simp add: spent_def demo_eval)
  moreover have "(session_step {CHR ''h'' # demo_token CHR ''a''})\<^sup>*\<^sup>* ?db ?cleaned"
    by (rule r_into_rtranclp) (rule session_step.cleanup)
  ultimately have "\<exists>e db''. RefreshSession demo_cfg demo_env (demo_req ''s9'' CHR ''c'')
      (demo_token CHR ''a'') ?cleaned = (Inl e, db'')"
    by (rule spent_token_stays_dead [OF h]) simp
  moreover have "db_sessions ?cleaned = []" by (simp add: demo_eval delete_dead_sessions_def)
  ultimately show ?thesis by blast
qed

section \<open>Reuse\<close>

text \<open>Without database faults the limiter fails only with its own error.\<close>

definition quiet :: "auth_db \<Rightarrow> bool" where "quiet db \<longleftrightarrow> db_faults db = []"

lemma quiet_statement: "keeps_op quiet s \<Longrightarrow> keeps_op quiet (statement s)"
  by (auto simp: keeps_op_def quiet_def statement_def split: list.splits)

lemma quiet_increment: "keeps_op quiet (IncrementAuthRateLimit l w)"
  unfolding IncrementAuthRateLimit_def
  by (rule quiet_statement) (simp add: keeps_op_def quiet_def Let_def split: option.splits)

lemma increment_quiet: "quiet db \<Longrightarrow> \<exists>b w'. fst (IncrementAuthRateLimit l w db) = Inr (b, w')"
  by (simp add: IncrementAuthRateLimit_def quiet_def statement_def Let_def split: option.splits)

lemma enforce_checks_quiet:
  "quiet db \<Longrightarrow> enforce_checks E now action cs db = (r, db') \<Longrightarrow>
     quiet db' \<and> (r = Inr () \<or> (\<exists>w. r = Inl (ErrAuthRateLimited w)))"
proof (induction cs arbitrary: db)
  case (Cons c cs)
  let ?v = "trim_space (rc_value c)" and ?w = "rule_Window (rc_rule c)"
  let ?l = "\<lparr>rl_Action = action, rl_KeyHash = authRateLimitKeyHash E action (rc_keyType c) ?v,
    rl_WindowStart = go_truncate now ?w, rl_WindowSeconds = ?w div 10 ^ 9,
    rl_MaxAttempts = rule_Max (rc_rule c), rl_ExpiresAt = go_truncate now ?w + ?w\<rparr>"
  obtain b w d where inc: "IncrementAuthRateLimit ?l now db = (Inr (b, w), d)"
    using increment_quiet [OF Cons.prems(1)] by (metis prod.collapse)
  have d: "quiet d" using keeps_opD [OF quiet_increment Cons.prems(1), of ?l now] inc by simp
  show ?case
  proof (cases "?v = '''' \<or> rule_Max (rc_rule c) \<le> 0 \<or> ?w \<le> 0")
    case True
    then show ?thesis using Cons.IH [OF Cons.prems(1)] Cons.prems(2) by (simp add: Let_def)
  next
    case False
    then show ?thesis using Cons.prems(2) Cons.IH [OF d] inc d
      by (auto simp: Let_def op_bind_def op_fail_def split: if_splits)
  qed
qed (simp add: op_ret_def)

lemma enforce_quiet:
  "quiet db \<Longrightarrow> enforceAuthRateLimit C E now action cs db = (r, db') \<Longrightarrow>
     quiet db' \<and> (r = Inr () \<or> (\<exists>w. r = Inl (ErrAuthRateLimited w)))"
  using enforce_checks_quiet by (auto simp: enforceAuthRateLimit_def op_ret_def split: if_splits)

definition revoke_rows :: "(AuthSession \<Rightarrow> bool) \<Rightarrow> int \<Rightarrow> AuthSession list \<Rightarrow> AuthSession list" where
  "revoke_rows P t = map (\<lambda>r. if P r \<and> as_RevokedAt r = None then r\<lparr>as_RevokedAt := Some t\<rparr> else r)"

lemma revoke_where_quiet:
  "quiet db \<Longrightarrow> \<exists>n. revoke_where P db =
     (Inr n, db\<lparr>db_sessions := revoke_rows P (db_clock db) (db_sessions db)\<rparr>)"
  by (simp add: revoke_where_def quiet_def statement_def revoke_rows_def)

lemma reuse_detected:
  assumes "quiet db" "as_RevokedAt s \<noteq> None \<or> as_ReplacedByID s \<noteq> None"
  shows "\<exists>db'. rotate_and_issue C E q s db = (Inl ErrInvalidRefreshToken, db') \<and>
    db_sessions db' = revoke_rows (\<lambda>r. as_FamilyID r = as_FamilyID s) (db_clock db) (db_sessions db)"
proof -
  obtain n where n: "RevokeAuthSessionFamily (as_FamilyID s) db =
      (Inr n, db\<lparr>db_sessions := revoke_rows (\<lambda>r. as_FamilyID r = as_FamilyID s) (db_clock db) (db_sessions db)\<rparr>)"
    (is "_ = (_, ?d)")
    using revoke_where_quiet [OF assms(1)] unfolding RevokeAuthSessionFamily_def by blast
  obtain d' where d': "auditAuth C ''refresh_reuse_detected'' False (as_UserID s) ?d = (Inr (), d')"
    using audit_Inr by blast
  from audit_run [OF d'] have "db_sessions d' = db_sessions ?d" by blast
  then show ?thesis
    using assms(2) n d'
    by (auto simp: rotate_and_issue_def userForRefreshableSession_def revokeSessionFamilyForReuse_def
        revoke_quietly_def op_bind_def op_try_def op_ret_def op_fail_def)
qed

end
