(* ===== verification/Auth_Session_End.thy ===== *)
theory Auth_Session_End
  imports Auth_Session_Use
begin

text \<open>
  How sessions end: reuse of a spent token, logout everywhere, revocation of one session; what the
  session list shows; and that every use case keeps the invariant of the session table.
\<close>

section \<open>Reuse of a spent token\<close>

lemma revoke_rows_all:
  assumes "r \<in> set (revoke_rows P t rs)" "\<And>q. P (q\<lparr>as_RevokedAt := Some t\<rparr>) = P q" "P r"
  shows "as_RevokedAt r \<noteq> None"
proof -
  obtain q where "r = (if P q \<and> as_RevokedAt q = None then q\<lparr>as_RevokedAt := Some t\<rparr> else q)"
    using assms(1) unfolding revoke_rows_def set_map by blast
  with assms(2,3) show ?thesis by (cases "P q \<and> as_RevokedAt q = None") auto
qed

lemma with_audit_eq:
  assumes "body db = (Inr (u, r), mid)" "with_audit C ev body db = (r', db')"
  shows "r' = r \<and> db_sessions db' = db_sessions mid \<and> db_users db' = db_users mid"
  using with_audit_run [where body = body, OF assms(1), of C ev] assms(2) by auto

lemma refresh_found:
  assumes "quiet db" "cfg_sessions C" "length (trim_space token) \<le> maxResetTokenInputBytes"
    and "hashRefreshToken E (trim_space token) = Some h"
    and "find (\<lambda>r. as_RefreshTokenHash r = h) (db_sessions db) = Some s"
    and run: "RefreshSession C E q token db = (r, db')"
  shows "(\<exists>w. r = Inl (ErrAuthRateLimited w) \<and> db_sessions db' = db_sessions db) \<or>
    (\<exists>mid d. quiet mid \<and> db_sessions mid = db_sessions db \<and>
       rotate_and_issue C E q s mid = (r, d) \<and> db_sessions db' = db_sessions d)"
proof -
  let ?checks = "[\<lparr>rc_keyType = ''token'', rc_value = trim_space token, rc_rule = cfg_RefreshToken C\<rparr>,
    \<lparr>rc_keyType = ''ip'', rc_value = rq_ClientIP q, rc_rule = cfg_RefreshIP C\<rparr>]"
  let ?body = "op_try (enforceAuthRateLimit C E (rq_now q) ''session_refresh'' ?checks)
    (\<lambda>e. caught '''' (op_fail e))
    (\<lambda>_. op_try (GetAuthSessionByTokenHash h) (\<lambda>e. caught '''' (op_fail e))
       (\<lambda>s. caught (as_UserID s) (rotate_and_issue C E q s)))"
  have audit: "with_audit C ''session_refresh'' ?body db = (r, db')"
    using run assms(2-4) by (simp add: RefreshSession_def Let_def)
  obtain l m where lim: "enforceAuthRateLimit C E (rq_now q) ''session_refresh'' ?checks db = (l, m)"
    by (cases "enforceAuthRateLimit C E (rq_now q) ''session_refresh'' ?checks db")
  note q = enforce_quiet [OF assms(1) lim] and same = enforce_run [OF lim]
  show ?thesis
  proof (cases l)
    case (Inl e)
    then have "?body db = (Inr ('''', Inl e), m)"
      using lim by (simp add: op_try_def caught_def op_fail_def)
    from with_audit_eq [OF this audit] q same Inl show ?thesis by auto
  next
    case (Inr u)
    have get: "GetAuthSessionByTokenHash h m = (Inr s, m)"
      using q same assms(5) by (simp add: GetAuthSessionByTokenHash_def statement_def quiet_def)
    obtain r' d where rot: "rotate_and_issue C E q s m = (r', d)" by (cases "rotate_and_issue C E q s m")
    then have "?body db = (Inr (as_UserID s, r'), d)"
      using lim Inr get by (simp add: op_try_def caught_def)
    from with_audit_eq [OF this audit] q same rot show ?thesis by auto
  qed
qed

text \<open>
  C24. A refresh that presents a revoked or already rotated token, with the database up, is
  answered with \<open>ErrInvalidRefreshToken\<close> and revokes every row of the token's family and no other
  row; only the rate limiter can refuse it earlier.
\<close>
theorem reuse_revokes_family:
  assumes "db_faults db = []" "cfg_sessions C" "length (trim_space token) \<le> maxResetTokenInputBytes"
    and "hashRefreshToken E (trim_space token) = Some h"
    and "find (\<lambda>r. as_RefreshTokenHash r = h) (db_sessions db) = Some s"
    and "as_RevokedAt s \<noteq> None \<or> as_ReplacedByID s \<noteq> None"
    and "RefreshSession C E q token db = (r, db')"
  shows "(\<exists>w. r = Inl (ErrAuthRateLimited w) \<and> db_sessions db' = db_sessions db) \<or>
    (r = Inl ErrInvalidRefreshToken \<and>
     (\<exists>t. db_sessions db' = revoke_rows (\<lambda>r. as_FamilyID r = as_FamilyID s) t (db_sessions db)) \<and>
     (\<forall>r\<in>set (db_sessions db'). as_FamilyID r = as_FamilyID s \<longrightarrow> as_RevokedAt r \<noteq> None))"
proof -
  have q: "quiet db" using assms(1) by (simp add: quiet_def)
  show ?thesis
  proof (rule disjE [OF refresh_found [OF q assms(2-5,7)]])
    assume "\<exists>w. r = Inl (ErrAuthRateLimited w) \<and> db_sessions db' = db_sessions db"
    then show ?thesis by (rule disjI1)
  next
    assume "\<exists>mid d. quiet mid \<and> db_sessions mid = db_sessions db \<and>
      rotate_and_issue C E q s mid = (r, d) \<and> db_sessions db' = db_sessions d"
    then obtain mid d where found: "quiet mid" "db_sessions mid = db_sessions db"
      "rotate_and_issue C E q s mid = (r, d)" "db_sessions db' = db_sessions d" by (elim exE conjE)
    from reuse_detected [OF found(1) assms(6), of C E q] found(2-4) have r: "r = Inl ErrInvalidRefreshToken"
      and t: "db_sessions db' = revoke_rows (\<lambda>r. as_FamilyID r = as_FamilyID s) (db_clock mid) (db_sessions db)"
      by simp_all
    have "\<forall>r\<in>set (db_sessions db'). as_FamilyID r = as_FamilyID s \<longrightarrow> as_RevokedAt r \<noteq> None"
      unfolding t by (auto dest: revoke_rows_all)
    with r t show ?thesis by (intro disjI2 conjI exI)
  qed
qed

theorem reuse_revokes_family_witness:
  "\<exists>s db db'. db_sessions db = [s\<lparr>as_RevokedAt := Some 3, as_ReplacedByID := Some ''f9''\<rparr>,
       demo_session ''f9'' ''f1'' ''u1'' CHR ''d'', demo_session ''f2'' ''f2'' ''u2'' CHR ''b''] \<and>
     RefreshSession demo_cfg demo_env (demo_req ''s9'' CHR ''c'') (demo_token CHR ''a'') db
       = (Inl ErrInvalidRefreshToken, db') \<and>
     map (\<lambda>r. as_RevokedAt r = None) (db_sessions db') = [False, False, True]"
proof -
  let ?s = "demo_session ''f1'' ''f1'' ''u1'' CHR ''a''"
  let ?t = "?s\<lparr>as_RevokedAt := Some 3, as_ReplacedByID := Some ''f9''\<rparr>"
  let ?rows = "[?t, demo_session ''f9'' ''f1'' ''u1'' CHR ''d'', demo_session ''f2'' ''f2'' ''u2'' CHR ''b'']"
  let ?db = "demo_db\<lparr>db_sessions := ?rows\<rparr>"
  let ?run = "RefreshSession demo_cfg demo_env (demo_req ''s9'' CHR ''c'') (demo_token CHR ''a'') ?db"
  have r: "fst ?run = Inl ErrInvalidRefreshToken" by (simp add: demo_eval)
  have h: "hashRefreshToken demo_env (trim_space (demo_token CHR ''a'')) = Some (CHR ''h'' # demo_token CHR ''a'')"
    by (simp add: demo_trim demo_hash byte_def)
  have f: "find (\<lambda>r. as_RefreshTokenHash r = CHR ''h'' # demo_token CHR ''a'') (db_sessions ?db) = Some ?t"
    by (simp add: demo_session_def)
  have "\<exists>t. db_sessions (snd ?run) = revoke_rows (\<lambda>r. as_FamilyID r = as_FamilyID ?t) t ?rows"
    using reuse_revokes_family [OF _ _ _ h f, of demo_cfg "demo_req ''s9'' CHR ''c''" "fst ?run" "snd ?run"] r
    by (simp add: demo_tables demo_cfg_def demo_trim byte_def maxResetTokenInputBytes_def refreshTokenBytes_def)
  then obtain t where "db_sessions (snd ?run) = revoke_rows (\<lambda>r. as_FamilyID r = ''f1'') t ?rows"
    by (auto simp: demo_session_def)
  then have "map (\<lambda>r. as_RevokedAt r = None) (db_sessions (snd ?run)) = [False, False, True]"
    by (simp add: revoke_rows_def demo_session_def)
  moreover have "?run = (Inl ErrInvalidRefreshToken, snd ?run)" using r by (metis prod.collapse)
  moreover have "db_sessions ?db = ?rows" by simp
  ultimately show ?thesis
    by (intro exI [where x = ?s] exI [where x = ?db] exI [where x = "snd ?run"] conjI)
qed

section \<open>Logout everywhere\<close>

definition bump_rows :: "string \<Rightarrow> user_row list \<Rightarrow> user_row list" where
  "bump_rows u = map (\<lambda>r. if usr_ID r = u \<and> usr_DeletedAt r = None
     then r\<lparr>usr_TokenVersion := usr_TokenVersion r + 1\<rparr> else r)"

lemma transaction_Inr:
  assumes "transaction m db = (Inr x, db')"
  shows "\<exists>fs mid fs'. m (db\<lparr>db_faults := fs\<rparr>) = (Inr x, mid) \<and> db' = mid\<lparr>db_faults := fs'\<rparr>"
proof -
  have begin_run: "\<exists>fs. d' = d\<lparr>db_faults := fs\<rparr>" if "statement (op_ret ()) d = (Inr (), d')" for d d'
    using that by (auto simp: statement_def op_ret_def split: list.splits if_splits)
      (metis auth_db.surjective auth_db.update_convs(7) old.unit.exhaust)
  obtain d1 d2 where "statement (op_ret ()) db = (Inr (), d1)" "m d1 = (Inr x, d2)"
    "statement (op_ret ()) d2 = (Inr (), db')"
    using assms by (auto simp: transaction_def op_runs split: prod.splits sum.splits)
  with begin_run show ?thesis by metis
qed

lemma statement_Inr:
  "statement s db = (Inr x, db') \<Longrightarrow> \<exists>fs. s (db\<lparr>db_faults := fs\<rparr>) = (Inr x, db')"
  by (drule statement_cases) auto

lemma revoke_where_run:
  "revoke_where P db = (Inr n, db') \<Longrightarrow>
     (\<exists>t. db_sessions db' = revoke_rows P t (db_sessions db)) \<and> db_users db' = db_users db"
  unfolding revoke_where_def by (drule statement_Inr) (auto simp: revoke_rows_def)

lemma bump_run:
  "bump_token_version u db = (Inr (), db') \<Longrightarrow>
     length (filter (\<lambda>r. usr_ID r = u \<and> usr_DeletedAt r = None) (db_users db)) = 1 \<and>
     db_users db' = bump_rows u (db_users db) \<and> db_sessions db' = db_sessions db"
  unfolding bump_token_version_def by (drule statement_Inr) (auto simp: bump_rows_def Let_def split: if_splits)

lemma revoke_all_run:
  assumes "RevokeAllAuthSessions u db = (Inr n, db')"
  shows "(\<exists>t. db_sessions db' = revoke_rows (\<lambda>r. as_UserID r = u) t (db_sessions db)) \<and>
    db_users db' = bump_rows u (db_users db)"
proof -
  obtain fs mid fs' d where b: "bump_token_version u (db\<lparr>db_faults := fs\<rparr>) = (Inr (), d)"
    and r: "revoke_where (\<lambda>r. as_UserID r = u) d = (Inr n, mid)" and db': "db' = mid\<lparr>db_faults := fs'\<rparr>"
    using transaction_Inr [OF assms [unfolded RevokeAllAuthSessions_def]] by (auto simp: op_runs)
  from bump_run [OF b] revoke_where_run [OF r] db' show ?thesis by auto
qed

text \<open>
  A successful logout-all revokes every session row of the account and no other row, and
  raises the token version of its one live user row by one, so that no row of the account can be
  refreshed any more: each is revoked, and each live row it might still match was issued under
  another token version.
\<close>
theorem logout_all_ends_sessions:
  assumes "LogoutAll C userID db = (Inr (), db')" "cfg_sessions C" "trim_space userID = u"
  shows "\<exists>t. db_sessions db' = revoke_rows (\<lambda>r. as_UserID r = u) t (db_sessions db) \<and>
    db_users db' = bump_rows u (db_users db) \<and>
    (\<forall>r\<in>set (db_sessions db'). as_UserID r = u \<longrightarrow> as_RevokedAt r \<noteq> None)"
proof -
  obtain w mid where body: "caught (trim_space userID)
      (if trim_space userID = '''' then op_fail ErrInvalidAuthInput
       else if \<not> cfg_sessions C then op_ret ()
       else op_try (RevokeAllAuthSessions (trim_space userID))
         (\<lambda>e. if e = ErrUserNotFound then op_fail ErrInvalidCredentials else op_fail e)
         (\<lambda>_. op_ret ())) db = (Inr (w, Inr ()), mid)"
    and out: "db_sessions db' = db_sessions mid" "db_users db' = db_users mid"
    using with_audit_Inr [OF assms(1) [unfolded LogoutAll_def Let_def]] by (elim exE conjE)
  obtain n where "RevokeAllAuthSessions u db = (Inr n, mid)"
    using body assms(2,3) by (auto simp: op_runs split: if_splits)
  from revoke_all_run [OF this] out obtain t where
    t: "db_sessions db' = revoke_rows (\<lambda>r. as_UserID r = u) t (db_sessions db)"
    and "db_users db' = bump_rows u (db_users db)" by auto
  moreover have "\<forall>r\<in>set (db_sessions db'). as_UserID r = u \<longrightarrow> as_RevokedAt r \<noteq> None"
    unfolding t by (auto dest: revoke_rows_all)
  ultimately show ?thesis by blast
qed

theorem logout_all_ends_sessions_witness:
  "\<exists>db'. LogoutAll demo_cfg ''u1'' demo_db = (Inr (), db') \<and>
     map (\<lambda>r. as_RevokedAt r = None) (db_sessions db') = [False, True] \<and>
     map usr_TokenVersion (db_users db') = [2, 1]"
proof -
  let ?run = "LogoutAll demo_cfg ''u1'' demo_db"
  have trim: "trim_space ''u1'' = ''u1''" by (rule trim_space_plain) (simp_all add: byte_def)
  have "\<not> isl (fst ?run)" by (simp add: demo_eval trim)
  then have run: "?run = (Inr (), snd ?run)" by (metis prod.collapse sum.collapse(2) old.unit.exhaust)
  have s: "cfg_sessions demo_cfg" by (simp add: demo_cfg_def)
  obtain t where
    "db_sessions (snd ?run) = revoke_rows (\<lambda>r. as_UserID r = ''u1'') t (db_sessions demo_db)"
    "db_users (snd ?run) = bump_rows ''u1'' (db_users demo_db)"
    using logout_all_ends_sessions [OF run s trim] by (elim exE conjE)
  then have "map (\<lambda>r. as_RevokedAt r = None) (db_sessions (snd ?run)) = [False, True]"
    "map usr_TokenVersion (db_users (snd ?run)) = [2, 1]"
    by (simp_all add: revoke_rows_def bump_rows_def demo_tables)
  with run show ?thesis by (intro exI conjI)
qed

section \<open>The use cases keep the table invariant\<close>

definition owned :: "AuthSession \<Rightarrow> auth_db \<Rightarrow> bool" where
  "owned s db \<longleftrightarrow> session_inv db \<and> (\<forall>r\<in>set (db_sessions db). as_ID r = as_ID s \<longrightarrow>
     as_FamilyID r = as_FamilyID s \<and> as_UserID r = as_UserID s)"

lemma owned_sessions: "db_sessions db' = db_sessions db \<Longrightarrow> owned s db' = owned s db"
  by (simp add: owned_def session_inv_def)

lemma owned_blind: "blind (owned s)"
  by (rule blindI) (rule owned_sessions, simp)

lemma keeps_frame:
  assumes "\<And>ss us. keeps_op (tables_are ss us) m"
    and "\<And>d d'. db_sessions d = db_sessions d' \<Longrightarrow> P d = P d'"
  shows "keeps_op P m"
proof -
  have "P (snd (m db)) = P db" for db
  proof (rule assms(2))
    show "db_sessions (snd (m db)) = db_sessions db"
      using keeps_opD [OF assms(1), of "db_sessions db" "db_users db" db] by (simp add: tables_are_def)
  qed
  then show ?thesis by (simp add: keeps_op_def)
qed

lemmas owned_frame = keeps_frame [where P = "owned s" for s, OF _ owned_sessions]
lemma inv_frame: "(\<And>ss us. keeps_op (tables_are ss us) m) \<Longrightarrow> keeps_op session_inv m"
  by (rule keeps_frame, assumption) (rule session_inv_sessions)

lemma owned_map:
  assumes "owned s db" "only_revokes f"
  shows "owned s (db\<lparr>db_sessions := map f (db_sessions db)\<rparr>)"
  using assms session_inv_map [of db f] by (simp add: owned_def only_revokesD [OF assms(2)])

lemma owned_revoke: "keeps_op (owned s) (revoke_where P)"
  unfolding revoke_where_def
  by (rule keeps_statement [OF owned_blind])
    (use owned_map [OF _ only_revokes_where] in \<open>simp only: keeps_op_def snd_conv, blast\<close>)

lemma keeps_case_prod [op_keeps]:
  "(\<And>a b. keeps_op P (f a b)) \<Longrightarrow> keeps_op P (case p of (a, b) \<Rightarrow> f a b)"
  by (cases p) simp

lemma keeps_bind_dep:
  "keeps_op P m \<Longrightarrow> (\<And>x db db'. m db = (Inr x, db') \<Longrightarrow> keeps_op P (f x)) \<Longrightarrow> keeps_op P (op_bind m f)"
  unfolding keeps_op_def op_bind_def by (auto split: prod.splits sum.splits)
lemma owned_rotate:
  assumes "as_FamilyID nxt = as_FamilyID s" "as_UserID nxt = as_UserID s" "as_ReplacedByID nxt = None"
  shows "keeps_op (owned s) (RotateAuthSession (as_ID s) nxt v)"
  unfolding keeps_op_def
proof (intro allI impI)
  fix db assume own: "owned s db"
  let ?d = "snd (RotateAuthSession (as_ID s) nxt v db)"
  show "owned s ?d"
  proof (cases "fst (RotateAuthSession (as_ID s) nxt v db)")
    case (Inl e)
    then have "RotateAuthSession (as_ID s) nxt v db = (Inl e, ?d)" by (metis prod.collapse)
    from tables_eq_sel(1) [OF rotate_fail [OF this]] own owned_sessions show ?thesis by blast
  next
    case (Inr x)
    then have run: "RotateAuthSession (as_ID s) nxt v db = (Inr (), ?d)"
      by (metis prod.collapse old.unit.exhaust)
    have "session_inv ?d" using own assms by (intro rotate_inv [OF _ run]) (auto simp: owned_def)
    moreover have "db_sessions ?d = map (retire_row (as_ID s) (as_ID nxt) (av_Now v)) (db_sessions db) @ [nxt]"
      using rotate_run [OF run] by blast
    ultimately show ?thesis using own assms by (auto simp: owned_def retire_row_def)
  qed
qed

lemma inherit_new [simp]:
  "as_FamilyID (inherit_session s (new_session C E q u f raw)) = f"
  "as_UserID (inherit_session s (new_session C E q u f raw)) = usr_ID u"
  "as_ReplacedByID (inherit_session s (new_session C E q u f raw)) = None"
  by (simp_all add: inherit_session_def new_session_def)

lemma owned_reuse: "keeps_op (owned s) (revokeSessionFamilyForReuse C t)"
  "keeps_op (owned s) (revoke_quietly f)"
  unfolding revokeSessionFamilyForReuse_def revoke_quietly_def RevokeAuthSessionFamily_def
  by (intro op_keeps owned_revoke owned_frame keeps_audit; simp)+

lemma owned_user: "keeps_op (owned s) (userForRefreshableSession C t now)"
  unfolding userForRefreshableSession_def
  by (intro op_keeps owned_reuse keeps_reads owned_blind)

lemma owned_rotate_and_issue: "keeps_op (owned s) (rotate_and_issue C E q s)"
proof -
  let ?store = "\<lambda>nxt. RotateAuthSession (as_ID s) (inherit_session s nxt) (authSessionValidity C (rq_now q))"
  have issue: "keeps_op (owned s) (issueSessionRowAt C E q u (as_FamilyID s) ?store)"
    if "usr_ID u = as_UserID s" for u
    unfolding issueSessionRowAt_def
    by (intro op_keeps owned_rotate) (simp_all add: that)
  show ?thesis
    unfolding rotate_and_issue_def
    by (intro keeps_bind_dep owned_user keeps_try issue owned_reuse op_keeps)
      (simp add: refreshable_run)
qed

lemma keeps_case_sum:
  "(\<And>x. keeps_op P (f x)) \<Longrightarrow> (\<And>y. keeps_op P (g y)) \<Longrightarrow>
     keeps_op P (case v of Inl x \<Rightarrow> f x | Inr y \<Rightarrow> g y)"
  by (cases v) simp_all

lemma keeps_with_audit:
  "keeps_op session_inv body \<Longrightarrow> keeps_op session_inv (with_audit C ev body)"
  unfolding with_audit_def case_prod_beta
  by (intro keeps_bind keeps_case_sum keeps_ret inv_frame [OF keeps_audit])

lemma keeps_lookup_rotate:
  "keeps_op session_inv (op_try (GetAuthSessionByTokenHash h) (\<lambda>e. caught '''' (op_fail e))
     (\<lambda>s. caught (as_UserID s) (rotate_and_issue C E q s)))"
  unfolding keeps_op_def
proof (intro allI impI)
  fix db assume inv: "session_inv db"
  obtain r mid where get: "GetAuthSessionByTokenHash h db = (r, mid)"
    by (cases "GetAuthSessionByTokenHash h db")
  have mid: "session_inv mid" "db_sessions mid = db_sessions db"
    using read_run(1) [OF get] inv session_inv_sessions by blast+
  show "session_inv (snd (op_try (GetAuthSessionByTokenHash h) (\<lambda>e. caught '''' (op_fail e))
     (\<lambda>s. caught (as_UserID s) (rotate_and_issue C E q s)) db))"
  proof (cases r)
    case (Inl e)
    then show ?thesis using get mid by (simp add: op_try_def caught_def op_fail_def)
  next
    case (Inr s)
    then have "s \<in> set (db_sessions mid)" using get get_session_run mid(2) find_SomeD by metis
    then have "owned s mid" using mid(1) by (auto simp: owned_def session_inv_def distinct_map dest: inj_onD)
    from keeps_opD [OF owned_rotate_and_issue this] show ?thesis
      using get Inr by (simp add: op_try_def caught_total owned_def)
  qed
qed

lemma refresh_keeps: "keeps_op session_inv (RefreshSession C E q token)"
  unfolding RefreshSession_def Let_def
  by (intro keeps_with_audit op_keeps inv_frame keeps_enforce keeps_lookup_rotate)

lemma logout_keeps: "keeps_op session_inv (Logout C E q token)"
  unfolding Logout_def Let_def
  by (intro keeps_with_audit op_keeps inv_frame keeps_enforce keeps_reads session_inv_blind)

lemma logout_all_keeps: "keeps_op session_inv (LogoutAll C u)"
  unfolding LogoutAll_def Let_def by (intro keeps_with_audit op_keeps)

lemma revoke_session_keeps: "keeps_op session_inv (RevokeSession C is_uuid now u sid)"
  unfolding RevokeSession_def Let_def by (intro keeps_with_audit op_keeps)

text \<open>
  Every session use case, whatever its input, clock, random draw and database faults, keeps
  the invariant of the session table; issuing a session keeps it when the session id it draws
  names no family yet.
\<close>
theorem use_cases_keep_sessions:
  assumes "session_inv db"
  shows "session_inv (snd (RefreshSession C E q token db)) \<and> session_inv (snd (Logout C E q token db)) \<and>
    session_inv (snd (LogoutAll C u db)) \<and> session_inv (snd (RevokeSession C is_uuid now u sid db)) \<and>
    (list_all (\<lambda>r. as_FamilyID r \<noteq> rq_newID q) (db_sessions db) \<longrightarrow>
       session_inv (snd (issueSession C E q user db)))"
proof -
  have "session_inv (snd (issueSession C E q user db))"
    if fresh: "list_all (\<lambda>r. as_FamilyID r \<noteq> rq_newID q) (db_sessions db)"
  proof -
    have "session_inv (snd (CreateAuthSession (new_session C E q user (rq_newID q) raw) db))" for raw
      by (rule create_inv [where s = "new_session C E q user (rq_newID q) raw", OF prod.collapse [symmetric] assms])
        (use fresh in \<open>auto simp: new_session_def list_all_iff\<close>)
    then show ?thesis
      using assms by (auto simp: issueSession_def issueSessionRowAt_def op_fail_def op_bind_def op_ret_def
          split: option.splits prod.splits sum.splits) (metis snd_conv)+
  qed
  then show ?thesis
    using keeps_opD [OF refresh_keeps assms] keeps_opD [OF logout_keeps assms]
      keeps_opD [OF logout_all_keeps assms] keeps_opD [OF revoke_session_keeps assms] by blast
qed

theorem use_cases_keep_sessions_witness:
  "session_inv (snd (RefreshSession demo_cfg demo_env (demo_req ''s9'' CHR ''c'') (demo_token CHR ''a'') demo_db)) \<and>
   session_inv (snd (issueSession demo_cfg demo_env (demo_req ''s9'' CHR ''c'') (demo_user ''u1'') demo_db))"
proof -
  have "session_inv demo_db" by (simp add: session_inv_def demo_tables family_ok_def)
  note use_cases_keep_sessions [OF this]
  then show ?thesis by (simp add: demo_tables demo_req_def)
qed

end
