(* ===== verification/Auth_Lockout.thy ===== *)
theory Auth_Lockout
  imports Auth_Session_End
begin

text \<open>
  The two brakes on password guessing: the fixed-window rate limiter of \<open>Auth_Store\<close> (how many
  requests of one key pass a window) and the progressive lockout of \<open>usecase/user/lockout.go\<close> over
  \<open>repo/persistent/auth_lockout_postgres.go\<close>. Durations are Go's int64 nanoseconds: the product
  of the escalation loop wraps.
\<close>

section \<open>Go's int64\<close>

definition int64_max :: int where "int64_max = 2 ^ 63 - 1"

definition wrap64 :: "int \<Rightarrow> int" where
  "wrap64 x = (x + 2 ^ 63) mod 2 ^ 64 - 2 ^ 63"

lemma wrap64_id: "- (2 ^ 63) \<le> x \<Longrightarrow> x \<le> int64_max \<Longrightarrow> wrap64 x = x"
  by (simp add: wrap64_def int64_max_def)

section \<open>Repository\<close>

definition GetAuthLoginLockout :: "string \<Rightarrow> AuthLoginLockout op" where
  "GetAuthLoginLockout keyHash = statement (\<lambda>db.
     case find (\<lambda>r. lk_KeyHash r = keyHash) (db_lockouts db) of
       None \<Rightarrow> (Inr \<lparr>lk_KeyHash = '''', lk_ConsecutiveFailures = 0, lk_LockedUntil = None,
                     lk_LastFailureAt = 0\<rparr>, db)
     | Some r \<Rightarrow> (Inr r, db))"

definition IncrementAuthLoginFailure :: "string \<Rightarrow> int option \<Rightarrow> int op" where
  "IncrementAuthLoginFailure keyHash lockedUntil = statement (\<lambda>db.
     case find (\<lambda>r. lk_KeyHash r = keyHash) (db_lockouts db) of
       None \<Rightarrow> (Inr 1, db\<lparr>db_lockouts := db_lockouts db @
         [\<lparr>lk_KeyHash = keyHash, lk_ConsecutiveFailures = 1, lk_LockedUntil = lockedUntil,
           lk_LastFailureAt = db_clock db\<rparr>]\<rparr>)
     | Some r \<Rightarrow> (Inr (lk_ConsecutiveFailures r + 1),
         db\<lparr>db_lockouts := map (\<lambda>q. if lk_KeyHash q = keyHash
           then q\<lparr>lk_ConsecutiveFailures := lk_ConsecutiveFailures q + 1, lk_LockedUntil := lockedUntil,
                  lk_LastFailureAt := db_clock db\<rparr> else q) (db_lockouts db)\<rparr>))"

definition ResetAuthLoginLockout :: "string \<Rightarrow> unit op" where
  "ResetAuthLoginLockout keyHash = statement (\<lambda>db.
     (Inr (), db\<lparr>db_lockouts := filter (\<lambda>r. lk_KeyHash r \<noteq> keyHash) (db_lockouts db)\<rparr>))"

section \<open>Use case\<close>

definition lockoutEnabled :: "auth_cfg \<Rightarrow> bool" where
  "lockoutEnabled C \<longleftrightarrow> lo_Enabled (cfg_lockoutOptions C) \<and> cfg_lockout C"

definition lockoutKeyHash :: "auth_env \<Rightarrow> string \<Rightarrow> string" where
  "lockoutKeyHash E email =
     ae_sha256hex E (''login_lockout'' @ [CHR 0x00] @ ''email'' @ [CHR 0x00] @ ae_lower E (trim_space email))"

text \<open>\<open>normalizeLockoutOptions\<close> and the validation of the configuration (config.go).\<close>

definition normalizeLockoutOptions :: "LockoutOptions \<Rightarrow> LockoutOptions" where
  "normalizeLockoutOptions opts =
     (let o1 = (if lo_Threshold opts \<le> 0 then opts\<lparr>lo_Threshold := 5\<rparr> else opts);
          o2 = (if lo_BaseDuration o1 \<le> 0 then o1\<lparr>lo_BaseDuration := 60 * 10 ^ 9\<rparr> else o1);
          o3 = (if lo_Factor o2 \<le> 0 then o2\<lparr>lo_Factor := 15\<rparr> else o2)
      in if lo_MaxDuration o3 < lo_BaseDuration o3 then o3\<lparr>lo_MaxDuration := 3600 * 10 ^ 9\<rparr> else o3)"

definition validateAuthLockout :: "LockoutOptions \<Rightarrow> bool" where
  "validateAuthLockout l \<longleftrightarrow> \<not> lo_Enabled l \<or>
     (0 < lo_Threshold l \<and> 0 < lo_Factor l \<and> 0 < lo_BaseDuration l \<and> lo_BaseDuration l \<le> lo_MaxDuration l)"

text \<open>The escalation loop: \<open>n\<close> rounds are left.\<close>

fun escalate :: "LockoutOptions \<Rightarrow> nat \<Rightarrow> int \<Rightarrow> int" where
  "escalate opts 0 duration =
     (if lo_MaxDuration opts < duration then lo_MaxDuration opts else duration)"
| "escalate opts (Suc n) duration =
     (let d = wrap64 (duration * lo_Factor opts) in
      if lo_MaxDuration opts \<le> d then lo_MaxDuration opts else escalate opts n d)"

definition lockoutDuration :: "LockoutOptions \<Rightarrow> int \<Rightarrow> int" where
  "lockoutDuration opts failures =
     (if failures < lo_Threshold opts then 0
      else escalate opts (nat (failures div lo_Threshold opts - 1)) (lo_BaseDuration opts))"

definition checkLoginLockout :: "auth_cfg \<Rightarrow> auth_env \<Rightarrow> int \<Rightarrow> string \<Rightarrow> unit op" where
  "checkLoginLockout C E now email =
     (if \<not> lockoutEnabled C then op_ret ()
      else op_bind (GetAuthLoginLockout (lockoutKeyHash E email)) (\<lambda>lockout.
        case lk_LockedUntil lockout of
          Some t \<Rightarrow> if now < t then op_fail ErrAccountLocked else op_ret ()
        | None \<Rightarrow> op_ret ()))"

definition lock_deadline :: "auth_cfg \<Rightarrow> int \<Rightarrow> AuthLoginLockout \<Rightarrow> int option" where
  "lock_deadline C now lockout =
     (let duration = lockoutDuration (cfg_lockoutOptions C) (lk_ConsecutiveFailures lockout + 1)
      in if 0 < duration then Some (now + duration) else None)"

definition recordLoginFailure :: "auth_cfg \<Rightarrow> auth_env \<Rightarrow> int \<Rightarrow> string \<Rightarrow> unit op" where
  "recordLoginFailure C E now email =
     (if \<not> lockoutEnabled C then op_ret ()
      else op_try (GetAuthLoginLockout (lockoutKeyHash E email)) (\<lambda>_. op_ret ())
        (\<lambda>lockout. op_try (IncrementAuthLoginFailure (lockoutKeyHash E email) (lock_deadline C now lockout))
           (\<lambda>_. op_ret ()) (\<lambda>_. op_ret ())))"

definition resetLoginLockout :: "auth_cfg \<Rightarrow> auth_env \<Rightarrow> string \<Rightarrow> unit op" where
  "resetLoginLockout C E email =
     (if \<not> lockoutEnabled C then op_ret ()
      else op_try (ResetAuthLoginLockout (lockoutKeyHash E email)) (\<lambda>_. op_ret ()) (\<lambda>_. op_ret ()))"

section \<open>Durations\<close>

lemma escalate_eq:
  assumes "0 < d" "d \<le> lo_MaxDuration opts" "0 < lo_Factor opts"
    and "lo_Factor opts * lo_MaxDuration opts \<le> int64_max"
  shows "escalate opts n d = min (lo_MaxDuration opts) (d * lo_Factor opts ^ n)"
  using assms(1,2)
proof (induction n arbitrary: d)
  case (Suc n)
  let ?F = "lo_Factor opts" and ?M = "lo_MaxDuration opts"
  have "d * ?F \<le> ?M * ?F" using Suc.prems assms(3) by simp
  then have top: "d * ?F \<le> int64_max" using assms(4) by (simp add: mult.commute)
  have pos: "0 < d * ?F" using Suc.prems assms(3) by simp
  have w: "wrap64 (d * ?F) = d * ?F" using top pos by (intro wrap64_id) simp_all
  show ?case
  proof (cases "?M \<le> d * ?F")
    case True
    have "d * ?F * 1 \<le> d * ?F * ?F ^ n"
      using pos assms(3) by (intro mult_left_mono) simp_all
    with True show ?thesis by (simp add: w mult.assoc)
  next
    case False
    then show ?thesis using Suc.IH [OF pos] by (simp add: w Let_def mult.assoc)
  qed
qed simp

text \<open>
  C39. For every accepted configuration whose factor times cap fits int64, the lock after a number
  of consecutive failures is zero below the threshold and otherwise the base duration multiplied
  by the factor once per further threshold, capped at the maximum: it is positive from the
  threshold on and never decreases as failures accumulate.
\<close>
theorem lockout_duration_bounds:
  assumes "validateAuthLockout opts" "lo_Enabled opts"
    and "lo_Factor opts * lo_MaxDuration opts \<le> int64_max"
  shows "lockoutDuration opts n = (if n < lo_Threshold opts then 0 else
      min (lo_MaxDuration opts) (lo_BaseDuration opts * lo_Factor opts ^ nat (n div lo_Threshold opts - 1))) \<and>
    0 \<le> lockoutDuration opts n \<and> lockoutDuration opts n \<le> lo_MaxDuration opts \<and>
    (lo_Threshold opts \<le> n \<longrightarrow> 0 < lockoutDuration opts n) \<and>
    (n \<le> m \<longrightarrow> lockoutDuration opts n \<le> lockoutDuration opts m)"
proof -
  let ?T = "lo_Threshold opts" and ?F = "lo_Factor opts" and ?B = "lo_BaseDuration opts" and ?M = "lo_MaxDuration opts"
  have v: "0 < ?T" "0 < ?F" "0 < ?B" "?B \<le> ?M" using assms by (simp_all add: validateAuthLockout_def)
  have eq: "lockoutDuration opts k = (if k < ?T then 0 else min ?M (?B * ?F ^ nat (k div ?T - 1)))" for k
    using escalate_eq [OF v(3,4,2) assms(3)] by (simp add: lockoutDuration_def)
  have pos: "0 < min ?M (?B * ?F ^ k)" for k using v by simp
  have mono: "lockoutDuration opts n \<le> lockoutDuration opts m" if "n \<le> m"
  proof (cases "n < ?T")
    case True
    then show ?thesis using pos [of "nat (m div ?T - 1)"] by (simp add: eq)
  next
    case False
    have "nat (n div ?T - 1) \<le> nat (m div ?T - 1)"       using that v(1) by (intro nat_mono diff_right_mono zdiv_mono1)
    then have "?F ^ nat (n div ?T - 1) \<le> ?F ^ nat (m div ?T - 1)" using v(2) by (intro power_increasing) simp_all
    then have "?B * ?F ^ nat (n div ?T - 1) \<le> ?B * ?F ^ nat (m div ?T - 1)" using v(3) by simp
    then show ?thesis using False that by (simp add: eq min.coboundedI2 min.coboundedI1) 
  qed
  have "0 \<le> lockoutDuration opts n \<and> lockoutDuration opts n \<le> ?M \<and> (?T \<le> n \<longrightarrow> 0 < lockoutDuration opts n)"
    using pos [of "nat (n div ?T - 1)"] v by (simp add: eq)
  with mono eq show ?thesis by blast
qed

definition default_lockout :: LockoutOptions where
  "default_lockout = \<lparr>lo_Enabled = True, lo_Threshold = 5, lo_BaseDuration = 60 * 10 ^ 9, lo_Factor = 15,
     lo_MaxDuration = 3600 * 10 ^ 9\<rparr>"

theorem lockout_duration_bounds_witness:
  "lockoutDuration default_lockout 4 = 0 \<and> lockoutDuration default_lockout 5 = 60 * 10 ^ 9 \<and>
   lockoutDuration default_lockout 10 = 900 * 10 ^ 9 \<and> lockoutDuration default_lockout 15 = 3600 * 10 ^ 9"
proof -
  have ok: "validateAuthLockout default_lockout" "lo_Enabled default_lockout"
    "lo_Factor default_lockout * lo_MaxDuration default_lockout \<le> int64_max"
    by (simp_all add: validateAuthLockout_def default_lockout_def int64_max_def)
  show ?thesis
    using lockout_duration_bounds [OF ok, of 4] lockout_duration_bounds [OF ok, of 5]
      lockout_duration_bounds [OF ok, of 10] lockout_duration_bounds [OF ok, of 15]
    by (simp add: default_lockout_def)
qed

text \<open>
  Without that bound the product wraps: an accepted configuration under which the tenth failure
  locks nothing at all, although the fifth did.
\<close>

lemma lockout_duration_overflow:
  "\<exists>opts. validateAuthLockout opts \<and> lo_Enabled opts \<and>
     0 < lockoutDuration opts 5 \<and> lockoutDuration opts 10 \<le> 0"
proof (intro exI [of _ "default_lockout\<lparr>lo_Factor := 2 * 10 ^ 8\<rparr>"] conjI)
  have one: "nat (10 div 5 - 1 :: int) = Suc 0" by simp
  show "lockoutDuration (default_lockout\<lparr>lo_Factor := 2 * 10 ^ 8\<rparr>) 10 \<le> 0"
    by (simp add: lockoutDuration_def default_lockout_def one wrap64_def Let_def del: nat_numeral)
qed (simp_all add: validateAuthLockout_def default_lockout_def lockoutDuration_def)

section \<open>The lock holds\<close>

lemma find_map_key:
  assumes "\<And>q. key (g q) = key q"
  shows "find (\<lambda>r. key r = k) (map (\<lambda>q. if key q = k then g q else q) xs) =
    map_option g (find (\<lambda>r. key r = k) xs)"
  by (induction xs) (simp_all add: assms)

lemma find_append:
  "find P (xs @ ys) = (case find P xs of None \<Rightarrow> find P ys | Some x \<Rightarrow> Some x)"
  by (induction xs) auto

definition failure_count :: "string \<Rightarrow> auth_db \<Rightarrow> int" where
  "failure_count k db = (case find (\<lambda>r. lk_KeyHash r = k) (db_lockouts db) of
     None \<Rightarrow> 0 | Some r \<Rightarrow> lk_ConsecutiveFailures r)"

definition lock_of :: "string \<Rightarrow> auth_db \<Rightarrow> int option" where
  "lock_of k db = (case find (\<lambda>r. lk_KeyHash r = k) (db_lockouts db) of
     None \<Rightarrow> None | Some r \<Rightarrow> lk_LockedUntil r)"

definition after_failure :: "auth_cfg \<Rightarrow> int \<Rightarrow> int \<Rightarrow> int option" where
  "after_failure C t n = (let d = lockoutDuration (cfg_lockoutOptions C) n in if 0 < d then Some (t + d) else None)"

lemma increment_run:
  assumes "quiet db" "IncrementAuthLoginFailure k l db = (r, db')"
  shows "quiet db' \<and> r = Inr (failure_count k db + 1) \<and>
    failure_count k db' = failure_count k db + 1 \<and> lock_of k db' = l"
proof (cases "find (\<lambda>r. lk_KeyHash r = k) (db_lockouts db)")
  case None
  then show ?thesis
    using assms by (auto simp: IncrementAuthLoginFailure_def statement_def quiet_def failure_count_def
        lock_of_def find_append)
next
  case (Some row)
  then show ?thesis
    using assms
    by (auto simp: IncrementAuthLoginFailure_def statement_def quiet_def failure_count_def lock_of_def
        find_map_key [where key = lk_KeyHash])
qed

lemma get_lockout_quiet:
  "quiet db \<Longrightarrow> \<exists>l. GetAuthLoginLockout k db = (Inr l, db) \<and>
     lk_ConsecutiveFailures l = failure_count k db \<and> lk_LockedUntil l = lock_of k db"
  by (auto simp: GetAuthLoginLockout_def statement_def quiet_def failure_count_def lock_of_def split: option.splits)

lemma record_failure_run:
  assumes "quiet db" "lockoutEnabled C" "k = lockoutKeyHash E email"
  shows "\<exists>db'. recordLoginFailure C E now email db = (Inr (), db') \<and> quiet db' \<and>
    failure_count k db' = failure_count k db + 1 \<and> lock_of k db' = after_failure C now (failure_count k db + 1)"
proof -
  obtain l where l: "GetAuthLoginLockout k db = (Inr l, db)" "lk_ConsecutiveFailures l = failure_count k db"
    using get_lockout_quiet [OF assms(1)] by blast
  obtain r d where d: "IncrementAuthLoginFailure k (lock_deadline C now l) db = (r, d)"
    by (cases "IncrementAuthLoginFailure k (lock_deadline C now l) db")
  have "lock_deadline C now l = after_failure C now (failure_count k db + 1)"
    by (simp add: lock_deadline_def after_failure_def l(2))
  with increment_run [OF assms(1) d] l d assms(2,3) show ?thesis
    by (auto simp: recordLoginFailure_def op_try_def op_ret_def)
qed

text \<open>Consecutive failed logins of one key, one after the other at the given times.\<close>

fun record_failures :: "auth_cfg \<Rightarrow> auth_env \<Rightarrow> string \<Rightarrow> int list \<Rightarrow> auth_db \<Rightarrow> auth_db" where
  "record_failures C E email [] db = db"
| "record_failures C E email (t # ts) db =
     record_failures C E email ts (snd (recordLoginFailure C E t email db))"

lemma record_failures_run:
  assumes "lockoutEnabled C" "k = lockoutKeyHash E email"
  shows "quiet db \<Longrightarrow> quiet (record_failures C E email ts db) \<and>
    failure_count k (record_failures C E email ts db) = failure_count k db + int (length ts) \<and>
    (ts \<noteq> [] \<longrightarrow> lock_of k (record_failures C E email ts db) =
       after_failure C (last ts) (failure_count k db + int (length ts)))"
proof (induction ts arbitrary: db)
  case (Cons t ts)
  obtain d where "recordLoginFailure C E t email db = (Inr (), d)" "quiet d"
    "failure_count k d = failure_count k db + 1" "lock_of k d = after_failure C t (failure_count k db + 1)"
    using record_failure_run [OF Cons.prems assms, of t] by blast
  with Cons.IH [of d] show ?case by (cases ts) (simp_all add: algebra_simps)
qed simp

text \<open>
  C22. With the lockout enabled and the database up, after a run of consecutive failures of an
  account key the login check answers \<open>ErrAccountLocked\<close> exactly until the last failure plus the
  duration for that number of failures, and lets the attempt through otherwise.
\<close>
theorem lockout_enforced:
  assumes "db_faults db = []" "lockoutEnabled C"
    and "find (\<lambda>r. lk_KeyHash r = lockoutKeyHash E email) (db_lockouts db) = None" "ts \<noteq> []"
  shows "fst (checkLoginLockout C E now email (record_failures C E email ts db)) =
    (if now < last ts + lockoutDuration (cfg_lockoutOptions C) (int (length ts)) \<and>
        0 < lockoutDuration (cfg_lockoutOptions C) (int (length ts))
     then Inl ErrAccountLocked else Inr ())"
proof -
  let ?k = "lockoutKeyHash E email" and ?db = "record_failures C E email ts db"
  have q: "quiet db" using assms(1) by (simp add: quiet_def)
  have c: "failure_count ?k db = 0" using assms(3) by (simp add: failure_count_def)
  note run = record_failures_run [OF assms(2) refl q, where ts = ts and E = E and email = email]
  then obtain l where l: "GetAuthLoginLockout ?k ?db = (Inr l, ?db)" "lk_LockedUntil l = lock_of ?k ?db"
    using get_lockout_quiet by blast
  have "lock_of ?k ?db = after_failure C (last ts) (int (length ts))" using run assms(4) c by simp
  then show ?thesis
    using l assms(2) by (simp add: checkLoginLockout_def op_bind_def op_ret_def op_fail_def after_failure_def Let_def)
qed

theorem lockout_enforced_witness:
  "fst (checkLoginLockout demo_cfg demo_env 112 ''a'' (record_failures demo_cfg demo_env ''a'' [100, 101, 103] demo_db))
     = Inl ErrAccountLocked \<and>
   fst (checkLoginLockout demo_cfg demo_env 113 ''a'' (record_failures demo_cfg demo_env ''a'' [100, 101, 103] demo_db))
     = Inr ()"
proof -
  have ok: "db_faults demo_db = []" "lockoutEnabled demo_cfg"
    "find (\<lambda>r. lk_KeyHash r = lockoutKeyHash demo_env ''a'') (db_lockouts demo_db) = None"
    by (simp_all add: demo_db_def lockoutEnabled_def demo_cfg_def)
  have "lockoutDuration (cfg_lockoutOptions demo_cfg) 3 = 10"
    by (simp add: lockoutDuration_def demo_cfg_def)
  then show ?thesis
    using lockout_enforced [OF ok, where ts = "[100, 101, 103]" and now = 112]
      lockout_enforced [OF ok, where ts = "[100, 101, 103]" and now = 113]
    by simp
qed

text \<open>
  The count is read before the failure is written: of two concurrent failures, the one that read
  the lower count can write last, and then erases the lock the other one set.
\<close>

lemma stale_failure_clears_lock:
  "\<exists>db0 stale fresh db1 db2. db_faults db0 = [] \<and> lockoutEnabled demo_cfg \<and>
     fst (GetAuthLoginLockout ''k'' db0) = Inr stale \<and>
     db1 = snd (IncrementAuthLoginFailure ''k'' (lock_deadline demo_cfg 100 stale) db0) \<and>
     fst (GetAuthLoginLockout ''k'' db1) = Inr fresh \<and>
     db2 = snd (IncrementAuthLoginFailure ''k'' (lock_deadline demo_cfg 100 fresh) db1) \<and>
     lock_of ''k'' db2 = Some 110 \<and>
     lock_of ''k'' (snd (IncrementAuthLoginFailure ''k'' (lock_deadline demo_cfg 100 stale) db2)) = None"
  by (rule exI [of _ "demo_db\<lparr>db_lockouts := [\<lparr>lk_KeyHash = ''k'', lk_ConsecutiveFailures = 1,
        lk_LockedUntil = None, lk_LastFailureAt = 0\<rparr>]\<rparr>"])
    (simp add: demo_db_def demo_cfg_def lockoutEnabled_def GetAuthLoginLockout_def IncrementAuthLoginFailure_def
      statement_def lock_deadline_def lockoutDuration_def lock_of_def Let_def)

section \<open>The budget of a rate-limit window\<close>

lemma find_map_const:
  assumes "key r' = k"
  shows "find (\<lambda>r. key r = k) (map (\<lambda>q. if key q = k then r' else q) xs) =
    map_option (\<lambda>_. r') (find (\<lambda>r. key r = k) xs)"
  by (induction xs) (simp_all add: assms)

lemma find_map_other:
  assumes "\<And>q. key q = k' \<Longrightarrow> key (f q) = k'" "k \<noteq> k'"
  shows "find (\<lambda>r. key r = k) (map (\<lambda>q. if key q = k' then f q else q) xs) = find (\<lambda>r. key r = k) xs"
  by (induction xs) (use assms in auto)

lemma increment_limit_run:
  assumes "quiet db" "IncrementAuthRateLimit l w db = (r, db')"
  shows "quiet db' \<and> (\<exists>retry. r = Inr (limit_count db (request_key l) + 1 \<le> rl_MaxAttempts l, retry)) \<and>
    limit_count db' key = limit_count db key + (if key = request_key l then 1 else 0)"
proof (cases "find (\<lambda>r. limit_key r = request_key l) (db_limits db)")
  case None
  let ?row = "\<lparr>lr_Action = rl_Action l, lr_KeyHash = rl_KeyHash l, lr_WindowStart = rl_WindowStart l,
    lr_WindowSeconds = rl_WindowSeconds l, lr_Count = 1, lr_ExpiresAt = rl_ExpiresAt l\<rparr>"
  have row: "limit_key ?row = request_key l" by (simp add: limit_key_def request_key_def)
  have out: "r = Inr (1 \<le> rl_MaxAttempts l, max (rl_ExpiresAt l - w) 0)" "db' = db\<lparr>db_limits := db_limits db @ [?row]\<rparr>"
    using assms None by (simp_all add: IncrementAuthRateLimit_def statement_def quiet_def)
  show ?thesis
    using out assms(1) None row by (auto simp: quiet_def limit_count_def find_append split: option.splits)
next
  case (Some row)
  let ?row = "row\<lparr>lr_Count := lr_Count row + 1, lr_WindowSeconds := rl_WindowSeconds l, lr_ExpiresAt := max (lr_ExpiresAt row) (rl_ExpiresAt l)\<rparr>"
  have row: "limit_key row = request_key l" using Some by (simp add: find_Some_iff) metis
  then have row': "limit_key ?row = request_key l" by (simp add: limit_key_def)
  have out: "r = Inr (lr_Count row + 1 \<le> rl_MaxAttempts l, max (lr_ExpiresAt ?row - w) 0)"
    "db' = db\<lparr>db_limits := map (\<lambda>q. if limit_key q = request_key l then ?row else q) (db_limits db)\<rparr>"
    using assms Some by (simp_all add: IncrementAuthRateLimit_def statement_def quiet_def Let_def)
  show ?thesis
  proof (cases "key = request_key l")
    case True
    then show ?thesis
      using out assms(1) Some find_map_const [where key = limit_key, OF row']
      by (simp add: quiet_def limit_count_def)
  next
    case False
    then show ?thesis
      using out assms(1) Some find_map_other [where key = limit_key and k = key and f = "\<lambda>_. ?row", OF row' False]
      by (simp add: quiet_def limit_count_def)
  qed
qed

text \<open>How many of a series of limiter calls for one key were allowed.\<close>

fun allowed_calls :: "string \<times> string \<times> int \<Rightarrow> (AuthRateLimit \<times> int) list \<Rightarrow> auth_db \<Rightarrow> nat" where
  "allowed_calls key [] db = 0"
| "allowed_calls key ((l, w) # ls) db =
     (case IncrementAuthRateLimit l w db of (r, db') \<Rightarrow>
        (if request_key l = key \<and> (case r of Inr (ok, _) \<Rightarrow> ok | Inl _ \<Rightarrow> False) then 1 else 0)
        + allowed_calls key ls db')"

text \<open>
  C23. In any series of limiter calls, whatever other keys and windows are mixed in, the calls of
  one action, key and window that are allowed are exactly the first ones, as many as the rule's
  maximum leaves after the count already stored: the budget of a window is never exceeded and
  never withheld.
\<close>
theorem rate_limit_budget:
  assumes "db_faults db = []" "list_all (\<lambda>(l, w). request_key l = key \<longrightarrow> rl_MaxAttempts l = m) ls"
  shows "allowed_calls key ls db =
    min (length (filter (\<lambda>(l, w). request_key l = key) ls)) (nat (m - limit_count db key))"
proof -
  have "quiet db \<Longrightarrow> list_all (\<lambda>(l, w). request_key l = key \<longrightarrow> rl_MaxAttempts l = m) ls \<Longrightarrow>
      allowed_calls key ls db = min (length (filter (\<lambda>(l, w). request_key l = key) ls)) (nat (m - limit_count db key))"
  proof (induction ls arbitrary: db)
    case (Cons c ls)
    obtain l w where c: "c = (l, w)" by (cases c)
    obtain r d where d: "IncrementAuthRateLimit l w db = (r, d)" by (cases "IncrementAuthRateLimit l w db")
    note run = increment_limit_run [OF Cons.prems(1) d, of key]
    have IH: "allowed_calls key ls d = min (length (filter (\<lambda>(l, w). request_key l = key) ls)) (nat (m - limit_count d key))"
      using Cons.IH run Cons.prems(2) by simp
    show ?case
    proof (cases "request_key l = key")
      case True
      then have "rl_MaxAttempts l = m" using Cons.prems(2) c by simp
      with True run IH show ?thesis by (auto simp: c d min_def nat_diff_distrib)
    next
      case False
      then show ?thesis using run IH by (simp add: c d)
    qed
  qed simp
  then show ?thesis using assms by (simp add: quiet_def)
qed

definition demo_limit :: "string \<Rightarrow> AuthRateLimit" where
  "demo_limit k = \<lparr>rl_Action = ''login'', rl_KeyHash = k, rl_WindowStart = 60, rl_WindowSeconds = 60, rl_MaxAttempts = 2, rl_ExpiresAt = 120\<rparr>"

theorem rate_limit_budget_witness:
  "allowed_calls (''login'', ''a'', 60)
     [(demo_limit ''a'', 61), (demo_limit ''b'', 61), (demo_limit ''a'', 62), (demo_limit ''a'', 63)] demo_db = 2"
proof -
  have "list_all (\<lambda>(l, w). request_key l = (''login'', ''a'', 60) \<longrightarrow> rl_MaxAttempts l = 2)
      [(demo_limit ''a'', 61), (demo_limit ''b'', 61), (demo_limit ''a'', 62), (demo_limit ''a'', 63)]"
    by (simp add: demo_limit_def)
  from rate_limit_budget [OF _ this, of demo_db] show ?thesis
    by (simp add: demo_limit_def request_key_def limit_count_def demo_db_def)
qed

end
