(* ===== verification/Mfa.thy ===== *)
theory Mfa
  imports Mfa_Store Mfa_Codes Auth_Lockout Policy
begin

text \<open>
  Multi-factor authentication (\<open>usecase/user/mfa.go\<close>) and the login that leads to it
  (\<open>Login\<close> of \<open>usecase/user/user.go\<close>). The random draws of an operation, the outcome of its email
  and a generated TOTP key are fields of \<open>mfa_draws\<close>; TOTP values, sealing and bcrypt are the
  parameters \<open>ae_totp\<close>, \<open>ae_seal\<close>, \<open>ae_open\<close> and \<open>ae_bcrypt\<close>. Notification emails change no table
  and are left out.
\<close>

record mfa_draws =
  md_challengeID :: string
  md_token :: "string option"
  md_otp :: "(string \<times> string) option"
  md_codes :: "nat \<Rightarrow> string option"
  md_key :: "(string \<times> string) option"
  md_mailed :: bool

record MFAEnrollment =
  en_Secret :: string
  en_OTPAuthURL :: string

record MFAStatus =
  ms_Enabled :: bool
  ms_Pending :: bool
  ms_Required :: bool
  ms_EnforcedFrom :: "int option"
  ms_GraceEndsAt :: "int option"
  ms_StepUpVerifiedAt :: "int option"
  ms_StepUpExpiresAt :: "int option"
  ms_RecoveryCodesRemaining :: int

datatype MFAGateDecision = MFAGateAllowed | MFAGateEnrollmentRequired | MFAGateStepUpRequired

definition totpPeriodSeconds :: int where "totpPeriodSeconds = 30"
definition totpSkewSteps :: int where "totpSkewSteps = 1"
definition second :: int where "second = 10 ^ 9"

definition normalizeMFAOptions :: "MFAOptions \<Rightarrow> MFAOptions" where
  "normalizeMFAOptions opts =
     (let o1 = (if mo_StepUpTTL opts \<le> 0 then opts\<lparr>mo_StepUpTTL := 600 * second\<rparr> else opts);
          o2 = (if mo_EnrollmentGrace o1 \<le> 0 then o1\<lparr>mo_EnrollmentGrace := 168 * 3600 * second\<rparr> else o1);
          o3 = (if mo_ChallengeTTL o2 \<le> 0 then o2\<lparr>mo_ChallengeTTL := 300 * second\<rparr> else o2);
          o4 = (if mo_ResetTTL o3 \<le> 0 then o3\<lparr>mo_ResetTTL := 900 * second\<rparr> else o3)
      in if trim_space (mo_TOTPIssuer o4) = '''' then o4\<lparr>mo_TOTPIssuer := ''Surau''\<rparr> else o4)"

abbreviation audited :: "auth_cfg \<Rightarrow> string \<Rightarrow> string \<Rightarrow> 'a op \<Rightarrow> 'a op" where
  "audited C event userID m \<equiv> with_audit C event (caught userID m)"

section \<open>Factors\<close>

text \<open>The codes of the steps around now, in the order the loop tries them.\<close>

fun try_steps :: "auth_env \<Rightarrow> string \<Rightarrow> string \<Rightarrow> string \<Rightarrow> int list \<Rightarrow> unit op" where
  "try_steps E userID secret code [] = op_fail ErrInvalidMFACode"
| "try_steps E userID secret code (step # steps) =
     (case ae_totp E secret (step * totpPeriodSeconds) of
        None \<Rightarrow> op_fail ErrCrypto
      | Some expected \<Rightarrow> if expected = code then AdvanceMFATOTPStep userID step
                         else try_steps E userID secret code steps)"

definition totp_window :: "int \<Rightarrow> int list" where
  "totp_window now = (let step = now div second div totpPeriodSeconds
     in map (\<lambda>offset. step + offset) [- totpSkewSteps..totpSkewSteps])"

definition verifyTOTP :: "auth_env \<Rightarrow> int \<Rightarrow> UserMFA \<Rightarrow> string \<Rightarrow> unit op" where
  "verifyTOTP E now mfa code =
     (case ae_open E (mfa_TOTPSecretEnc mfa) of
        None \<Rightarrow> op_fail ErrCrypto
      | Some secret \<Rightarrow> try_steps E (mfa_UserID mfa) secret code (totp_window now))"

definition verifySecondFactor :: "auth_env \<Rightarrow> int \<Rightarrow> UserMFA \<Rightarrow> string \<Rightarrow> unit op" where
  "verifySecondFactor E now mfa code =
     (let trimmed = trim_space code in
      if trimmed = '''' then op_fail ErrInvalidMFACode
      else case validateOTPInput trimmed of
        Some otp \<Rightarrow> verifyTOTP E now mfa otp
      | None \<Rightarrow>
          (case normalizeRecoveryCode E trimmed of
             None \<Rightarrow> op_fail ErrInvalidMFACode
           | Some normalized \<Rightarrow> ConsumeRecoveryCode (mfa_UserID mfa) (hashTokenBytes E normalized)))"

section \<open>Enrolment\<close>

definition StartMFAEnrollment :: "auth_cfg \<Rightarrow> auth_env \<Rightarrow> mfa_draws \<Rightarrow> string \<Rightarrow> MFAEnrollment op" where
  "StartMFAEnrollment C E D userID = audited C ''mfa_enroll'' userID
     (if \<not> cfg_mfa C then op_fail ErrMFANotEnabled
      else op_bind (user_GetByID userID) (\<lambda>user.
        case md_key D of
          None \<Rightarrow> op_fail ErrCrypto
        | Some (secret, url) \<Rightarrow>
            (case ae_seal E secret of
               None \<Rightarrow> op_fail ErrCrypto
             | Some sealed \<Rightarrow> op_bind (UpsertPendingMFA userID sealed)
                 (\<lambda>_. op_ret \<lparr>en_Secret = secret, en_OTPAuthURL = url\<rparr>))))"

definition pendingMFA :: "string \<Rightarrow> UserMFA op" where
  "pendingMFA userID = op_try (GetMFA userID)
     (\<lambda>e. op_fail (if e = ErrMFANotEnabled then ErrMFAEnrollmentNotStarted else e))
     (\<lambda>mfa. if mfa_ConfirmedAt mfa \<noteq> None then op_fail ErrMFAAlreadyEnabled else op_ret mfa)"

definition stamp_quietly :: "string \<Rightarrow> string \<Rightarrow> int \<Rightarrow> unit op" where
  "stamp_quietly userID familyID now =
     (if familyID = '''' then op_ret ()
      else op_try (SetSessionMFAVerified userID familyID now) (\<lambda>_. op_ret ()) (\<lambda>_. op_ret ()))"

definition step_up_checks :: "auth_cfg \<Rightarrow> session_request \<Rightarrow> string \<Rightarrow> rateLimitCheck list" where
  "step_up_checks C q userID =
     [\<lparr>rc_keyType = ''user'', rc_value = userID, rc_rule = cfg_MFAStepUpUser C\<rparr>,
      \<lparr>rc_keyType = ''ip'', rc_value = rq_ClientIP q, rc_rule = cfg_MFAStepUpIP C\<rparr>]"

definition ConfirmMFAEnrollment ::
  "auth_cfg \<Rightarrow> auth_env \<Rightarrow> session_request \<Rightarrow> mfa_draws \<Rightarrow> string \<Rightarrow> string \<Rightarrow> string \<Rightarrow> string list op" where
  "ConfirmMFAEnrollment C E q D userID familyID code = audited C ''mfa_enroll_confirm'' userID
     (if \<not> cfg_mfa C then op_fail ErrMFANotEnabled
      else op_bind (enforceAuthRateLimit C E (rq_now q) ''mfa_enroll_confirm'' (step_up_checks C q userID)) (\<lambda>_.
        op_bind (pendingMFA userID) (\<lambda>mfa.
        op_bind (verifyTOTP E (rq_now q) mfa code) (\<lambda>_.
        op_bind (ConfirmMFA userID) (\<lambda>_.
        case generateRecoveryCodes E (md_codes D) of
          None \<Rightarrow> op_fail ErrRandom
        | Some (raw, hashes) \<Rightarrow> op_bind (ReplaceRecoveryCodes userID hashes) (\<lambda>_.
            op_bind (stamp_quietly userID familyID (rq_now q)) (\<lambda>_. op_ret raw)))))))"

section \<open>Login\<close>

definition newMFAChallengeToken :: "auth_env \<Rightarrow> mfa_draws \<Rightarrow> (string \<times> string) option" where
  "newMFAChallengeToken E D = map_option (\<lambda>buf. (ae_encode64 E buf, hashTokenBytes E buf)) (md_token D)"

definition hashMFAChallengeToken :: "auth_env \<Rightarrow> string \<Rightarrow> string" where
  "hashMFAChallengeToken E raw =
     (case ae_decode64 E (trim_space raw) of
        None \<Rightarrow> hashTokenBytes E raw
      | Some decoded \<Rightarrow> hashTokenBytes E decoded)"

definition new_challenge ::
  "auth_env \<Rightarrow> session_request \<Rightarrow> mfa_draws \<Rightarrow> string \<Rightarrow> string \<Rightarrow> string \<Rightarrow> int \<Rightarrow> (string \<times> int) option \<Rightarrow> MFAChallenge"
where
  "new_challenge E q D userID purpose tokenHash expiresAt otp =
     \<lparr>ch_ID = md_challengeID D, ch_UserID = userID, ch_Purpose = purpose, ch_TokenHash = tokenHash,
      ch_OTPHash = map_option fst otp, ch_OTPExpiresAt = map_option snd otp, ch_ExpiresAt = expiresAt,
      ch_ConsumedAt = None, ch_ClientIP = trim_space (rq_ClientIP q),
      ch_UserAgent = ae_truncate E maxEmailUserAgentRunes (rq_UserAgent q)\<rparr>"

definition mfaLoginChallengeFor ::
  "auth_cfg \<Rightarrow> auth_env \<Rightarrow> session_request \<Rightarrow> mfa_draws \<Rightarrow> user_row \<Rightarrow> LoginResult option op" where
  "mfaLoginChallengeFor C E q D user =
     (if \<not> cfg_mfa C then op_ret None
      else op_try (GetMFA (usr_ID user))
        (\<lambda>e. if e = ErrMFANotEnabled then op_ret None else op_fail e)
        (\<lambda>mfa. if mfa_ConfirmedAt mfa = None then op_ret None
          else case newMFAChallengeToken E D of
            None \<Rightarrow> op_fail ErrRandom
          | Some (rawToken, tokenHash) \<Rightarrow>
              let expiresAt = rq_now q + mo_ChallengeTTL (cfg_mfaOptions C) in
              op_bind (CreateMFAChallenge (new_challenge E q D (usr_ID user) MFAChallengePurposeLogin
                  tokenHash expiresAt None))
                (\<lambda>_. op_ret (Some \<lparr>lr_User = user, lr_SessionID = '''', lr_AccessToken = '''',
                   lr_AccessExpiresAt = 0, lr_RefreshToken = '''', lr_RefreshExpiresAt = 0,
                   lr_MFARequired = True, lr_MFAToken = rawToken, lr_MFATokenExpiresAt = Some expiresAt\<rparr>))))"

definition minPasswordBytes :: nat where "minPasswordBytes = 8"
definition maxPasswordBytes :: nat where "maxPasswordBytes = 72"

definition decoyLoginHash :: string where
  "decoyLoginHash = ''$2a$10$274brck7NUBzNFOYIlFkM.WFUpgzTxBYe0tM7Hvzqp3AVP6/I8GYC''"

definition validateEmailInput :: "auth_env \<Rightarrow> string \<Rightarrow> string option" where
  "validateEmailInput E email =
     (let e = ae_lower E (trim_space email) in if ae_validEmail E e then Some e else None)"

definition validPassword :: "string \<Rightarrow> bool" where
  "validPassword password \<longleftrightarrow> minPasswordBytes \<le> length password \<and> length password \<le> maxPasswordBytes"

definition validateLoginInput :: "auth_env \<Rightarrow> string \<Rightarrow> string \<Rightarrow> string option" where
  "validateLoginInput E email password =
     (case validateEmailInput E email of
        None \<Rightarrow> None
      | Some e \<Rightarrow> if validPassword password then Some e else None)"

definition user_GetByEmail :: "string \<Rightarrow> user_row op" where
  "user_GetByEmail email = statement (\<lambda>db.
     case find (\<lambda>u. usr_Email u = email \<and> usr_DeletedAt u = None) (db_users db) of
       None \<Rightarrow> (Inl ErrUserNotFound, db)
     | Some u \<Rightarrow> (Inr u, db))"

text \<open>\<open>Login\<close> after the password was checked: \<open>found\<close> is the account, when it was read.\<close>

definition login_checked ::
  "auth_cfg \<Rightarrow> auth_env \<Rightarrow> session_request \<Rightarrow> mfa_draws \<Rightarrow> string \<Rightarrow> string \<Rightarrow> auth_error + user_row \<Rightarrow> LoginResult op"
where
  "login_checked C E q D email password found =
     (let passwordHash = (case found of Inr user \<Rightarrow> usr_PasswordHash user | Inl _ \<Rightarrow> decoyLoginHash) in
      case (if ae_bcrypt E passwordHash password then found else Inl ErrInvalidCredentials) of
        Inl _ \<Rightarrow> op_bind (recordLoginFailure C E (rq_now q) email) (\<lambda>_. op_fail ErrInvalidCredentials)
      | Inr user \<Rightarrow>
          if \<not> usr_EmailVerified user then op_fail ErrEmailNotVerified
          else op_bind (resetLoginLockout C E email) (\<lambda>_.
            op_bind (mfaLoginChallengeFor C E q D user) (\<lambda>challenge.
              case challenge of
                Some result \<Rightarrow> op_ret result
              | None \<Rightarrow> issueSession C E q user)))"
definition Login ::
  "auth_cfg \<Rightarrow> auth_env \<Rightarrow> session_request \<Rightarrow> mfa_draws \<Rightarrow> string \<Rightarrow> string \<Rightarrow> LoginResult op" where
  "Login C E q D email password = with_audit C ''login''
     (case validateLoginInput E email password of
        None \<Rightarrow> caught '''' (op_fail ErrInvalidAuthInput)
      | Some e \<Rightarrow> op_try (op_bind (enforceAuthRateLimit C E (rq_now q) ''login''
             [\<lparr>rc_keyType = ''email'', rc_value = e, rc_rule = cfg_LoginEmail C\<rparr>,
              \<lparr>rc_keyType = ''ip'', rc_value = rq_ClientIP q, rc_rule = cfg_LoginIP C\<rparr>])
             (\<lambda>_. checkLoginLockout C E (rq_now q) e))
          (\<lambda>err. caught '''' (op_fail err))
          (\<lambda>_. op_try (user_GetByEmail e)
             (\<lambda>err. caught '''' (login_checked C E q D e password (Inl err)))
             (\<lambda>user. caught (usr_ID user) (login_checked C E q D e password (Inr user)))))"

section \<open>Completing a login with the second factor\<close>

definition authContextWithChallengeMetadata :: "session_request \<Rightarrow> MFAChallenge \<Rightarrow> session_request" where
  "authContextWithChallengeMetadata q c =
     (let q1 = (if trim_space (rq_UserAgent q) = '''' then q\<lparr>rq_UserAgent := ch_UserAgent c\<rparr> else q);
          clientIP = trim_space (rq_ClientIP q1)
      in if clientIP = '''' \<or> clientIP = unknownAuthMetadata \<or> clientIP = trim_space (rq_Transport q1)
         then q1\<lparr>rq_ClientIP := ch_ClientIP c\<rparr> else q1)"

text \<open>The error comes with the user id the audit log reports: empty until a challenge was found.\<close>

definition loadLoginChallenge ::
  "auth_env \<Rightarrow> string \<Rightarrow> (string \<times> (auth_error + MFAChallenge \<times> user_row \<times> UserMFA)) op" where
  "loadLoginChallenge E mfaToken =
     op_try (GetMFAChallengeByTokenHash (hashMFAChallengeToken E mfaToken) MFAChallengePurposeLogin)
       (\<lambda>e. op_ret ('''', Inl e))
       (\<lambda>challenge. op_try (user_GetByID (ch_UserID challenge))
         (\<lambda>_. op_ret (ch_UserID challenge, Inl ErrInvalidMFAChallenge))
         (\<lambda>user. op_try (GetMFA (usr_ID user))
           (\<lambda>_. op_ret (ch_UserID challenge, Inl ErrInvalidMFAChallenge))
           (\<lambda>mfa. op_ret (ch_UserID challenge,
              if mfa_ConfirmedAt mfa = None then Inl ErrInvalidMFAChallenge
              else Inr (challenge, user, mfa)))))"

definition token_checks :: "RateLimitRule \<Rightarrow> RateLimitRule \<Rightarrow> session_request \<Rightarrow> string \<Rightarrow> rateLimitCheck list" where
  "token_checks token_rule ip_rule q token =
     [\<lparr>rc_keyType = ''token'', rc_value = token, rc_rule = token_rule\<rparr>,
      \<lparr>rc_keyType = ''ip'', rc_value = rq_ClientIP q, rc_rule = ip_rule\<rparr>]"

definition complete_mfa_login ::
  "auth_cfg \<Rightarrow> auth_env \<Rightarrow> session_request \<Rightarrow> string \<Rightarrow> MFAChallenge \<Rightarrow> user_row \<Rightarrow> UserMFA \<Rightarrow> LoginResult op" where
  "complete_mfa_login C E q code challenge user mfa =
     op_bind (verifySecondFactor E (rq_now q) mfa code) (\<lambda>_.
       op_bind (ConsumeMFAChallenge (ch_ID challenge)) (\<lambda>_.
         let q' = authContextWithChallengeMetadata q challenge in
         issueSessionRowAt C E q' user (rq_newID q')
           (\<lambda>s. if \<not> cfg_sessions C then op_ret ()
                else CreateAuthSession (s\<lparr>as_MFAVerifiedAt := Some (rq_now q)\<rparr>))))"

definition VerifyMFALogin ::
  "auth_cfg \<Rightarrow> auth_env \<Rightarrow> session_request \<Rightarrow> string \<Rightarrow> string \<Rightarrow> LoginResult op" where
  "VerifyMFALogin C E q mfaToken code = with_audit C ''mfa_verify''
     (let token = trim_space mfaToken in
      if \<not> cfg_mfa C \<or> token = '''' \<or> maxResetTokenInputBytes < length token
      then caught '''' (op_fail ErrInvalidMFAChallenge)
      else op_try (enforceAuthRateLimit C E (rq_now q) ''mfa_verify''
             (token_checks (cfg_MFAVerifyToken C) (cfg_MFAVerifyIP C) q token))
           (\<lambda>e. caught '''' (op_fail e))
           (\<lambda>_. op_bind (loadLoginChallenge E token) (\<lambda>(uid, r). caught uid
              (case r of
                 Inl e \<Rightarrow> op_fail e
               | Inr (challenge, user, mfa) \<Rightarrow> complete_mfa_login C E q code challenge user mfa))))"

section \<open>Step-up\<close>

definition StepUpMFA :: "auth_cfg \<Rightarrow> auth_env \<Rightarrow> session_request \<Rightarrow> string \<Rightarrow> string \<Rightarrow> string \<Rightarrow> int op" where
  "StepUpMFA C E q userID familyID code = audited C ''mfa_step_up'' userID
     (if \<not> cfg_mfa C then op_fail ErrMFANotEnabled
      else op_bind (enforceAuthRateLimit C E (rq_now q) ''mfa_step_up'' (step_up_checks C q userID)) (\<lambda>_.
        op_bind (GetMFA userID) (\<lambda>mfa.
          if mfa_ConfirmedAt mfa = None then op_fail ErrMFANotEnabled
          else op_bind (verifySecondFactor E (rq_now q) mfa code) (\<lambda>_.
            op_bind (SetSessionMFAVerified userID familyID (rq_now q)) (\<lambda>_.
              op_ret (rq_now q + mo_StepUpTTL (cfg_mfaOptions C)))))))"

definition requireFreshStepUp :: "auth_cfg \<Rightarrow> int \<Rightarrow> string \<Rightarrow> string \<Rightarrow> unit op" where
  "requireFreshStepUp C now userID familyID =
     op_bind (GetMFAGateData userID familyID) (\<lambda>data.
       if \<not> gd_Confirmed data then op_fail ErrMFANotEnabled
       else case gd_MFAVerifiedAt data of
         None \<Rightarrow> op_fail ErrMFAStepUpRequired
       | Some t \<Rightarrow> if mo_StepUpTTL (cfg_mfaOptions C) < now - t then op_fail ErrMFAStepUpRequired else op_ret ())"

definition revoke_all_if_wired :: "auth_cfg \<Rightarrow> string \<Rightarrow> unit op" where
  "revoke_all_if_wired C userID =
     (if \<not> cfg_sessions C then op_ret () else op_bind (RevokeAllAuthSessions userID) (\<lambda>_. op_ret ()))"

definition DisableMFA :: "auth_cfg \<Rightarrow> auth_env \<Rightarrow> session_request \<Rightarrow> string \<Rightarrow> string \<Rightarrow> LoginResult op" where
  "DisableMFA C E q userID familyID = audited C ''mfa_disable'' userID
     (if \<not> cfg_mfa C then op_fail ErrMFANotEnabled
      else op_bind (requireFreshStepUp C (rq_now q) userID familyID) (\<lambda>_.
        op_bind (DeleteMFA userID) (\<lambda>_.
        op_bind (revoke_all_if_wired C userID) (\<lambda>_.
        op_bind (user_GetByID userID) (\<lambda>user. issueSession C E q user)))))"

definition RegenerateMFARecoveryCodes ::
  "auth_cfg \<Rightarrow> auth_env \<Rightarrow> session_request \<Rightarrow> mfa_draws \<Rightarrow> string \<Rightarrow> string \<Rightarrow> string list op" where
  "RegenerateMFARecoveryCodes C E q D userID familyID = audited C ''mfa_recovery_regenerate'' userID
     (if \<not> cfg_mfa C then op_fail ErrMFANotEnabled
      else op_bind (requireFreshStepUp C (rq_now q) userID familyID) (\<lambda>_.
        case generateRecoveryCodes E (md_codes D) of
          None \<Rightarrow> op_fail ErrRandom
        | Some (raw, hashes) \<Rightarrow> op_bind (ReplaceRecoveryCodes userID hashes) (\<lambda>_. op_ret raw)))"

definition no_mfa_status :: MFAStatus where
  "no_mfa_status = \<lparr>ms_Enabled = False, ms_Pending = False, ms_Required = False, ms_EnforcedFrom = None,
     ms_GraceEndsAt = None, ms_StepUpVerifiedAt = None, ms_StepUpExpiresAt = None, ms_RecoveryCodesRemaining = 0\<rparr>"

definition status_MFA :: "auth_cfg \<Rightarrow> auth_env \<Rightarrow> string \<Rightarrow> string \<Rightarrow> MFAStatus op" where
  "status_MFA C E userID familyID =
     (if \<not> cfg_mfa C then op_ret no_mfa_status
      else op_bind (user_GetByID userID) (\<lambda>user. op_bind (GetMFAGateData userID familyID) (\<lambda>data.
        let opts = cfg_mfaOptions C;
            s = \<lparr>ms_Enabled = gd_Confirmed data, ms_Pending = gd_Pending data,
              ms_Required = RoleRequiresMFA (ae_lower E) (usr_Role user), ms_EnforcedFrom = gd_EnforcedFrom data,
              ms_GraceEndsAt = map_option (\<lambda>t. t + mo_EnrollmentGrace opts) (gd_EnforcedFrom data),
              ms_StepUpVerifiedAt = (if gd_Confirmed data then gd_MFAVerifiedAt data else None),
              ms_StepUpExpiresAt = (if gd_Confirmed data
                then map_option (\<lambda>t. t + mo_StepUpTTL opts) (gd_MFAVerifiedAt data) else None),
              ms_RecoveryCodesRemaining = 0\<rparr>
        in if \<not> gd_Confirmed data then op_ret s
           else op_bind (CountUnusedRecoveryCodes userID) (\<lambda>n. op_ret (s\<lparr>ms_RecoveryCodesRemaining := n\<rparr>)))))"

definition gate_verdict :: "auth_cfg \<Rightarrow> auth_env \<Rightarrow> int \<Rightarrow> string \<Rightarrow> MFAGateData \<Rightarrow> MFAGateDecision" where
  "gate_verdict C E now role data =
     (if gd_Confirmed data then
        (case gd_MFAVerifiedAt data of
           Some t \<Rightarrow> if now - t \<le> mo_StepUpTTL (cfg_mfaOptions C) then MFAGateAllowed else MFAGateStepUpRequired
         | None \<Rightarrow> MFAGateStepUpRequired)
      else if \<not> RoleRequiresMFA (ae_lower E) role then MFAGateAllowed
      else case gd_EnforcedFrom data of
        None \<Rightarrow> MFAGateAllowed
      | Some t \<Rightarrow> if now - t \<le> mo_EnrollmentGrace (cfg_mfaOptions C) then MFAGateAllowed
                  else MFAGateEnrollmentRequired)"

definition MFAGate :: "auth_cfg \<Rightarrow> auth_env \<Rightarrow> int \<Rightarrow> user_row \<Rightarrow> string \<Rightarrow> MFAGateDecision op" where
  "MFAGate C E now user familyID =
     (if \<not> cfg_mfa C then op_ret MFAGateAllowed
      else op_bind (GetMFAGateData (usr_ID user) familyID) (\<lambda>data.
        let verdict = gate_verdict C E now (usr_Role user) data in
        if \<not> gd_Confirmed data \<and> RoleRequiresMFA (ae_lower E) (usr_Role user) \<and> gd_EnforcedFrom data = None
        then op_bind (auditAuth C ''mfa_step_up'' False (usr_ID user)) (\<lambda>_. op_ret verdict)
        else op_ret verdict))"

text \<open>The middleware of destructive routes: the status it answers with, or the route runs.\<close>

datatype gate_response = Next | Respond nat string

definition RequireFreshMFA ::
  "auth_cfg \<Rightarrow> auth_env \<Rightarrow> int \<Rightarrow> (auth_error + user_row option) \<Rightarrow> string option \<Rightarrow> auth_db \<Rightarrow> gate_response \<times> auth_db" where
  "RequireFreshMFA C E now authenticated sessionID db =
     (case authenticated of
        Inr (Some user) \<Rightarrow>
          (case MFAGate C E now user (case sessionID of Some v \<Rightarrow> v | None \<Rightarrow> '''') db of
             (Inl _, db') \<Rightarrow> (Respond 500 ''internal server error'', db')
           | (Inr MFAGateEnrollmentRequired, db') \<Rightarrow> (Respond 403 ''mfa enrollment required'', db')
           | (Inr MFAGateStepUpRequired, db') \<Rightarrow> (Respond 403 ''mfa step-up required'', db')
           | (Inr MFAGateAllowed, db') \<Rightarrow> (Next, db'))
      | _ \<Rightarrow> (Respond 401 ''unauthorized'', db))"

section \<open>Lost device\<close>

definition mintAndEmailResetChallenge ::
  "auth_cfg \<Rightarrow> auth_env \<Rightarrow> session_request \<Rightarrow> mfa_draws \<Rightarrow> user_row \<Rightarrow> (string \<times> int) op" where
  "mintAndEmailResetChallenge C E q D user =
     (case md_otp D of
        None \<Rightarrow> op_fail ErrRandom
      | Some (otp, otpHash) \<Rightarrow>
          (case newMFAChallengeToken E D of
             None \<Rightarrow> op_fail ErrRandom
           | Some (rawToken, tokenHash) \<Rightarrow>
               let expires = rq_now q + mo_ResetTTL (cfg_mfaOptions C) in
               op_bind (CreateMFAChallenge (new_challenge E q D (usr_ID user) MFAChallengePurposeReset
                   tokenHash expires (Some (otpHash, expires)))) (\<lambda>_.
                 if \<not> md_mailed D then op_fail ErrEmailDeliveryFailed else op_ret (rawToken, expires))))"

definition RequestMFAReset ::
  "auth_cfg \<Rightarrow> auth_env \<Rightarrow> session_request \<Rightarrow> mfa_draws \<Rightarrow> string \<Rightarrow> (string \<times> int) op" where
  "RequestMFAReset C E q D mfaToken = with_audit C ''mfa_reset_request''
     (let token = trim_space mfaToken in
      if \<not> cfg_mfa C \<or> token = '''' \<or> maxResetTokenInputBytes < length token
      then caught '''' (op_fail ErrInvalidMFAChallenge)
      else op_try (op_bind (enforceAuthRateLimit C E (rq_now q) ''mfa_reset_request''
             (token_checks (cfg_MFAResetEmail C) (cfg_MFAResetIP C) q token))
             (\<lambda>_. GetMFAChallengeByTokenHash (hashMFAChallengeToken E token) MFAChallengePurposeLogin))
           (\<lambda>e. caught '''' (op_fail e))
           (\<lambda>c. caught (ch_UserID c) (op_try (user_GetByID (ch_UserID c))
              (\<lambda>_. op_fail ErrInvalidMFAChallenge)
              (\<lambda>user. mintAndEmailResetChallenge C E q D user))))"

definition resetOTPMatches :: "auth_env \<Rightarrow> int \<Rightarrow> MFAChallenge \<Rightarrow> string \<Rightarrow> bool" where
  "resetOTPMatches E now c otpCode =
     (case (ch_OTPHash c, ch_OTPExpiresAt c) of
        (Some h, Some t) \<Rightarrow>
          if t < now then False
          else (case validateOTPInput otpCode of None \<Rightarrow> False | Some otp \<Rightarrow> ae_bcrypt E h otp)
      | _ \<Rightarrow> False)"

definition spendResetFactors :: "auth_env \<Rightarrow> MFAChallenge \<Rightarrow> string \<Rightarrow> unit op" where
  "spendResetFactors E c recoveryCode =
     (case normalizeRecoveryCode E recoveryCode of
        None \<Rightarrow> op_fail ErrInvalidMFAReset
      | Some code \<Rightarrow>
          op_try (ConsumeRecoveryCode (ch_UserID c) (hashTokenBytes E code))
            (\<lambda>e. op_fail (if e = ErrInvalidMFACode then ErrInvalidMFAReset else e))
            (\<lambda>_. op_try (ConsumeMFAChallenge (ch_ID c))
               (\<lambda>e. op_fail (if e = ErrInvalidMFAChallenge then ErrInvalidMFAReset else e))
               op_ret))"

definition finalizeMFAReset :: "auth_cfg \<Rightarrow> string \<Rightarrow> unit op" where
  "finalizeMFAReset C userID =
     op_bind (DeleteMFA userID) (\<lambda>_. op_bind (revoke_all_if_wired C userID) (\<lambda>_.
       op_try (user_GetByID userID) (\<lambda>_. op_ret ()) (\<lambda>_. op_ret ())))"

definition ConfirmMFAReset ::
  "auth_cfg \<Rightarrow> auth_env \<Rightarrow> session_request \<Rightarrow> string \<Rightarrow> string \<Rightarrow> string \<Rightarrow> unit op" where
  "ConfirmMFAReset C E q resetToken otpCode recoveryCode = with_audit C ''mfa_reset_confirm''
     (let token = trim_space resetToken in
      if \<not> cfg_mfa C \<or> token = '''' \<or> maxResetTokenInputBytes < length token
      then caught '''' (op_fail ErrInvalidMFAReset)
      else op_try (op_bind (enforceAuthRateLimit C E (rq_now q) ''mfa_reset_confirm''
             (token_checks (cfg_MFAResetEmail C) (cfg_MFAResetIP C) q token))
             (\<lambda>_. op_try (GetMFAChallengeByTokenHash (hashMFAChallengeToken E token) MFAChallengePurposeReset)
               (\<lambda>e. op_fail (if e = ErrInvalidMFAChallenge then ErrInvalidMFAReset else e)) op_ret))
           (\<lambda>e. caught '''' (op_fail e))
           (\<lambda>c. caught (ch_UserID c)
              (if \<not> resetOTPMatches E (rq_now q) c otpCode then op_fail ErrInvalidMFAReset
               else op_bind (spendResetFactors E c recoveryCode)
                 (\<lambda>_. finalizeMFAReset C (ch_UserID c)))))"

end
