(* ===== verification/Mfa_Props.thy ===== *)
theory Mfa_Props
  imports Mfa
begin

text \<open>
  What the second factor guarantees: a TOTP step, a recovery code and a challenge are each spent
  once along every interleaving of statements; a password alone opens no session for an enrolled
  account; the step-up gate lets exactly the fresh, exempt or still-in-grace requests through; a
  device reset leaves neither enrolment nor session behind.
\<close>

section \<open>Interleavings\<close>

text \<open>
  One statement or transaction on the MFA tables by any request, or any change elsewhere. \<open>K\<close>
  holds the users whose enrolment is not deleted meanwhile, \<open>H\<close> and \<open>I\<close> code hashes and challenge
  identifiers the random source does not draw again. Enrolments outside \<open>K\<close> go by \<open>DeleteMFA\<close>, with
  their account (\<open>user_postgres.go\<close>) or in any other way; recovery codes and challenges of every
  user may be deleted at any time (\<open>purge\<close>: the clean-up of \<open>auth_maintenance_postgres.go\<close>, the
  operator command \<open>cmd/reset-user-mfa\<close>).
\<close>

inductive mfa_step :: "string set \<Rightarrow> string set \<Rightarrow> string set \<Rightarrow> auth_db \<Rightarrow> auth_db \<Rightarrow> bool" for K H I where
  upsert: "mfa_step K H I db (snd (UpsertPendingMFA u s db))"
| confirm: "mfa_step K H I db (snd (ConfirmMFA u db))"
| advance: "mfa_step K H I db (snd (AdvanceMFATOTPStep u n db))"
| replace: "set hs \<inter> H = {} \<Longrightarrow> mfa_step K H I db (snd (ReplaceRecoveryCodes u hs db))"
| spend_code: "mfa_step K H I db (snd (ConsumeRecoveryCode u h db))"
| challenge: "ch_ID c \<notin> I \<Longrightarrow> mfa_step K H I db (snd (CreateMFAChallenge c db))"
| spend_challenge: "mfa_step K H I db (snd (ConsumeMFAChallenge i db))"
| disable: "u \<notin> K \<Longrightarrow> mfa_step K H I db (snd (DeleteMFA u db))"
| delete_account: "u \<notin> K \<Longrightarrow> mfa_step K H I db (snd (DeleteAccount_tx E u erasure db))"
| purge: "db_mfa db' = filter A (db_mfa db) \<Longrightarrow> \<forall>m. mfa_UserID m \<in> K \<longrightarrow> A m \<Longrightarrow>
    db_codes db' = filter B (db_codes db) \<Longrightarrow> db_challenges db' = filter C (db_challenges db) \<Longrightarrow>
    mfa_step K H I db db'"
| elsewhere: "db_mfa db' = db_mfa db \<Longrightarrow> db_codes db' = db_codes db \<Longrightarrow>
    db_challenges db' = db_challenges db \<Longrightarrow> mfa_step K H I db db'"

lemma mfa_steps_keep:
  assumes "\<And>d d'. mfa_step K H I d d' \<Longrightarrow> P d \<Longrightarrow> P d'"
  shows "(mfa_step K H I)\<^sup>*\<^sup>* db db' \<Longrightarrow> P db \<Longrightarrow> P db'"
  by (induction rule: rtranclp_induct) (use assms in blast)+

text \<open>
  A law of the MFA tables that survives deletions, of enrolments outside \<open>K\<close> and of any code or
  challenge.
\<close>

locale mfa_law =
  fixes P :: "auth_db \<Rightarrow> bool" and K :: "string set"
  assumes purge_law: "db_mfa d' = filter A (db_mfa d) \<Longrightarrow> \<forall>m. mfa_UserID m \<in> K \<longrightarrow> A m \<Longrightarrow>
    db_codes d' = filter B (db_codes d) \<Longrightarrow> db_challenges d' = filter C (db_challenges d) \<Longrightarrow> P d \<Longrightarrow> P d'"
begin

lemma same_law: "db_mfa d' = db_mfa d \<Longrightarrow> db_codes d' = db_codes d \<Longrightarrow> db_challenges d' = db_challenges d \<Longrightarrow>
    P d \<Longrightarrow> P d'"
  using purge_law [of d' "\<lambda>_. True" d "\<lambda>_. True" "\<lambda>_. True"] by simp

lemma blind_law: "blind P"
proof (rule blindI)
  fix d fs
  show "P (d\<lparr>db_faults := fs\<rparr>) = P d"
    using same_law [of "d\<lparr>db_faults := fs\<rparr>" d] same_law [of d "d\<lparr>db_faults := fs\<rparr>"] by auto
qed

lemma keeps_elsewhere:
  "(\<And>d. db_mfa (snd (s d)) = db_mfa d \<and> db_codes (snd (s d)) = db_codes d \<and>
     db_challenges (snd (s d)) = db_challenges d) \<Longrightarrow> keeps_op P (statement s)"
  by (rule keeps_statement [OF blind_law]) (auto simp: keeps_op_def intro: same_law)

lemma keeps_purged:
  assumes "\<And>d. db_mfa (f d) = filter A (db_mfa d) \<and> db_codes (f d) = filter B (db_codes d) \<and>
      db_challenges (f d) = filter C (db_challenges d)" "\<forall>m. mfa_UserID m \<in> K \<longrightarrow> A m"
  shows "keeps_op P (statement (\<lambda>d. (Inr (), f d)))"
proof (rule keeps_statement [OF blind_law])
  have "P (f d)" if "P d" for d
    by (rule purge_law [OF _ assms(2) _ _ that, of _ B C]) (simp_all add: assms(1))
  then show "keeps_op P (\<lambda>d. (Inr (), f d))" by (simp add: keeps_op_def)
qed

lemma keeps_purges:
  "keeps_op P (statement (\<lambda>db. (Inr (), db\<lparr>db_codes := filter B (db_codes db)\<rparr>)))"
  "keeps_op P (statement (\<lambda>db. (Inr (), db\<lparr>db_challenges := filter C (db_challenges db)\<rparr>)))"
  "u \<notin> K \<Longrightarrow> keeps_op P (statement (\<lambda>db. (Inr (), db\<lparr>db_mfa := filter (\<lambda>m. mfa_UserID m \<noteq> u) (db_mfa db)\<rparr>)))"
    apply (rule keeps_purged [where A = "\<lambda>_. True" and B = B and C = "\<lambda>_. True"]; simp)
   apply (rule keeps_purged [where A = "\<lambda>_. True" and B = "\<lambda>_. True" and C = C]; simp)
  apply (rule keeps_purged [where A = "\<lambda>m. mfa_UserID m \<noteq> u" and B = "\<lambda>_. True" and C = "\<lambda>_. True"]; auto)
  done

lemma keeps_DeleteMFA: "u \<notin> K \<Longrightarrow> keeps_op P (DeleteMFA u)"
  unfolding DeleteMFA_def by (intro op_keeps blind_law keeps_purges)

lemma keeps_DeleteAccount_tx: "u \<notin> K \<Longrightarrow> keeps_op P (DeleteAccount_tx E u erasure)"
proof (rule keeps_DeleteAccount [OF blind_law])
  assume u: "u \<notin> K"
  show "keeps_op P (erase (\<lambda>db. db\<lparr>db_mfa := filter (\<lambda>m. mfa_UserID m \<noteq> u) (db_mfa db)\<rparr>))"
    "keeps_op P (erase (\<lambda>db. db\<lparr>db_codes := filter (\<lambda>c. rec_UserID c \<noteq> u) (db_codes db)\<rparr>))"
    "keeps_op P (erase (\<lambda>db. db\<lparr>db_challenges := filter (\<lambda>c. ch_UserID c \<noteq> u) (db_challenges db)\<rparr>))"
    unfolding erase_def by (intro keeps_purges u)+
qed (unfold anonymizeDeletedUser_def erase_def delete_owned_def delete_tokens_def insertOneSignalErasureOutbox_def;
    rule keeps_elsewhere; simp)+

text \<open>The deletions and the changes elsewhere keep the law; what remains are the writes of the factors.\<close>

lemma step_keeps:
  assumes "mfa_step K H I db db'" "P db"
    and "\<And>u s. P (snd (UpsertPendingMFA u s db))" "\<And>u. P (snd (ConfirmMFA u db))"
    and "\<And>u n. P (snd (AdvanceMFATOTPStep u n db))"
    and "\<And>u hs. set hs \<inter> H = {} \<Longrightarrow> P (snd (ReplaceRecoveryCodes u hs db))"
    and "\<And>u h. P (snd (ConsumeRecoveryCode u h db))"
    and "\<And>c. ch_ID c \<notin> I \<Longrightarrow> P (snd (CreateMFAChallenge c db))" "\<And>i. P (snd (ConsumeMFAChallenge i db))"
  shows "P db'"
  using assms(1)
proof cases
  case (disable u)
  then show ?thesis using keeps_opD [OF keeps_DeleteMFA assms(2)] by blast
next
  case (delete_account u)
  then show ?thesis using keeps_opD [OF keeps_DeleteAccount_tx assms(2)] by blast
next
  case (purge A B C)
  from purge_law [OF this assms(2)] show ?thesis .
next
  case elsewhere
  from same_law [OF this assms(2)] show ?thesis .
qed (use assms(3-) in simp_all)

end

text \<open>Operations that leave a table alone.\<close>

definition mfa_tables_are :: "UserMFA list \<Rightarrow> recovery_row list \<Rightarrow> MFAChallenge list \<Rightarrow> auth_db \<Rightarrow> bool" where
  "mfa_tables_are ms cs qs db \<longleftrightarrow> db_mfa db = ms \<and> db_codes db = cs \<and> db_challenges db = qs"

lemma update_mfa_frame: "db_codes (snd (update_mfa e hit f db)) = db_codes db"
  "db_challenges (snd (update_mfa e hit f db)) = db_challenges db"
  by (simp_all add: update_mfa_def statement_def Let_def split: list.splits)

lemma upsert_frame: "db_codes (snd (UpsertPendingMFA u s db)) = db_codes db"
  "db_challenges (snd (UpsertPendingMFA u s db)) = db_challenges db"
  by (auto simp: UpsertPendingMFA_def statement_def split: list.splits option.splits)

lemma consume_code_frame: "db_mfa (snd (ConsumeRecoveryCode u h db)) = db_mfa db"
  "db_challenges (snd (ConsumeRecoveryCode u h db)) = db_challenges db"
  by (auto simp: ConsumeRecoveryCode_def statement_def Let_def split: list.splits)

lemma create_challenge_frame: "db_mfa (snd (CreateMFAChallenge c db)) = db_mfa db"
  "db_codes (snd (CreateMFAChallenge c db)) = db_codes db"
  by (auto simp: CreateMFAChallenge_def statement_def split: list.splits)

lemma consume_challenge_frame: "db_mfa (snd (ConsumeMFAChallenge i db)) = db_mfa db"
  "db_codes (snd (ConsumeMFAChallenge i db)) = db_codes db"
  by (auto simp: ConsumeMFAChallenge_def statement_def Let_def split: list.splits)

lemma keeps_insert_codes:
  assumes "blind P" "\<And>db h. h \<in> set hs \<Longrightarrow> P db \<Longrightarrow>
    P (db\<lparr>db_codes := db_codes db @ [\<lparr>rec_UserID = u, rec_CodeHash = h, rec_UsedAt = None\<rparr>]\<rparr>)"
  shows "keeps_op P (insert_codes u hs)"
  using assms(2)
proof (induction hs)
  case (Cons h hs)
  have "keeps_op P (insert_code u h)"
    unfolding insert_code_def
    by (rule keeps_statement [OF assms(1)]) (auto simp: keeps_op_def Cons.prems)
  moreover have "keeps_op P (insert_codes u hs)" using Cons by auto
  ultimately show ?case by (simp add: op_keeps)
qed (simp add: op_keeps)

lemma keeps_replace:
  assumes "blind P" "\<And>db. P db \<Longrightarrow> P (db\<lparr>db_codes := filter (\<lambda>c. rec_UserID c \<noteq> u) (db_codes db)\<rparr>)"
    and "\<And>db h. h \<in> set hs \<Longrightarrow> P db \<Longrightarrow>
      P (db\<lparr>db_codes := db_codes db @ [\<lparr>rec_UserID = u, rec_CodeHash = h, rec_UsedAt = None\<rparr>]\<rparr>)"
  shows "keeps_op P (ReplaceRecoveryCodes u hs)"
  unfolding ReplaceRecoveryCodes_def
  by (intro op_keeps assms(1) keeps_insert_codes assms(3)) (simp_all add: keeps_op_def assms(2))

lemma replace_frame: "db_mfa (snd (ReplaceRecoveryCodes u hs db)) = db_mfa db"
  "db_challenges (snd (ReplaceRecoveryCodes u hs db)) = db_challenges db"
proof -
  have "keeps_op (\<lambda>d. db_mfa d = db_mfa db \<and> db_challenges d = db_challenges db) (ReplaceRecoveryCodes u hs)"
    by (rule keeps_replace) (simp_all add: blind_def)
  from keeps_opD [OF this, of db]
  show "db_mfa (snd (ReplaceRecoveryCodes u hs db)) = db_mfa db"
    "db_challenges (snd (ReplaceRecoveryCodes u hs db)) = db_challenges db" by simp_all
qed

section \<open>A TOTP step is used once\<close>

definition step_used :: "string \<Rightarrow> int \<Rightarrow> auth_db \<Rightarrow> bool" where
  "step_used u n db \<longleftrightarrow> (\<exists>m\<in>set (db_mfa db). mfa_UserID m = u) \<and>
     (\<forall>m\<in>set (db_mfa db). mfa_UserID m = u \<longrightarrow> mfa_ConfirmedAt m \<noteq> None \<and> n \<le> mfa_LastUsedTOTPStep m)"

lemma step_used_map:
  assumes "step_used u n db" "\<And>m. mfa_UserID (f m) = mfa_UserID m"
    and "\<And>m. mfa_ConfirmedAt m \<noteq> None \<Longrightarrow> mfa_ConfirmedAt (f m) \<noteq> None"
    and "\<And>m. mfa_ConfirmedAt m \<noteq> None \<Longrightarrow> mfa_LastUsedTOTPStep m \<le> mfa_LastUsedTOTPStep (f m)"
  shows "step_used u n (db\<lparr>db_mfa := map f (db_mfa db)\<rparr>)"
  using assms unfolding step_used_def by (simp, metis order_trans)

lemma step_used_blind: "blind (step_used u n)"
  by (rule blindI) (simp add: step_used_def)

lemma step_used_update:
  assumes "\<And>t m. mfa_UserID (f t m) = mfa_UserID m"
    and "\<And>t m. hit m \<Longrightarrow> mfa_ConfirmedAt m \<noteq> None \<Longrightarrow> mfa_ConfirmedAt (f t m) \<noteq> None"
    and "\<And>t m. hit m \<Longrightarrow> mfa_ConfirmedAt m \<noteq> None \<Longrightarrow> mfa_LastUsedTOTPStep m \<le> mfa_LastUsedTOTPStep (f t m)"
  shows "keeps_op (step_used u n) (update_mfa e hit f)"
  unfolding update_mfa_def
proof (rule keeps_statement [OF step_used_blind])
  have "step_used u n (db\<lparr>db_mfa := map (\<lambda>m. if hit m then f (db_clock db) m else m) (db_mfa db)\<rparr>)"
    if "step_used u n db" for db
    by (rule step_used_map [OF that]) (use assms in auto)
  then show "keeps_op (step_used u n) (\<lambda>db.
     let db' = db\<lparr>db_mfa := map (\<lambda>m. if hit m then f (db_clock db) m else m) (db_mfa db)\<rparr>
     in if length (filter hit (db_mfa db)) \<noteq> 1 then (Inl e, db') else (Inr (), db'))"
    by (simp add: keeps_op_def Let_def)
qed

lemma step_used_upsert: "keeps_op (step_used u n) (UpsertPendingMFA v s)"
  unfolding UpsertPendingMFA_def
proof (rule keeps_statement [OF step_used_blind])
  have "step_used u n (db\<lparr>db_mfa := map (\<lambda>m. if mfa_UserID m = v
      then m\<lparr>mfa_TOTPSecretEnc := s, mfa_LastUsedTOTPStep := 0\<rparr> else m) (db_mfa db)\<rparr>)"
    if su: "step_used u n db" and f: "find (\<lambda>m. mfa_UserID m = v) (db_mfa db) = Some m" "mfa_ConfirmedAt m = None"
    for db m
  proof -
    have "m \<in> set (db_mfa db)" "mfa_UserID m = v" using f(1) by (auto dest: find_SomeD)
    with su f(2) have "v \<noteq> u" by (auto simp: step_used_def)
    then show ?thesis using su by (auto simp: step_used_def)
  qed
  moreover have "step_used u n (db\<lparr>db_mfa := db_mfa db @ [m]\<rparr>)"
    if "step_used u n db" "find (\<lambda>m. mfa_UserID m = v) (db_mfa db) = None" "mfa_UserID m = v" for db m
    using that by (auto simp: step_used_def find_None_iff)
  ultimately show "keeps_op (step_used u n) (\<lambda>db.
     if \<not> list_ex (\<lambda>u. usr_ID u = v) (db_users db) then (Inl ErrDB, db)
     else case find (\<lambda>m. mfa_UserID m = v) (db_mfa db) of
       None \<Rightarrow> (Inr (), db\<lparr>db_mfa := db_mfa db @
         [\<lparr>mfa_UserID = v, mfa_TOTPSecretEnc = s, mfa_LastUsedTOTPStep = 0, mfa_ConfirmedAt = None\<rparr>]\<rparr>)
     | Some m \<Rightarrow>
         if mfa_ConfirmedAt m \<noteq> None then (Inl ErrMFAAlreadyEnabled, db)
         else (Inr (), db\<lparr>db_mfa := map (\<lambda>m. if mfa_UserID m = v
             then m\<lparr>mfa_TOTPSecretEnc := s, mfa_LastUsedTOTPStep := 0\<rparr> else m) (db_mfa db)\<rparr>))"
    by (simp add: keeps_op_def split: option.split)
qed

lemma step_used_frame: "db_mfa d = db_mfa d' \<Longrightarrow> step_used u n d = step_used u n d'"
  by (simp add: step_used_def)

interpretation used: mfa_law "step_used u n" "{u}" for u n
  by unfold_locales (auto simp: step_used_def)

lemma step_used_step:
  assumes "mfa_step {u} H I db db'" "step_used u n db"
  shows "step_used u n db'"
proof (rule used.step_keeps [OF assms])
  have "keeps_op (step_used u n) (ConfirmMFA v)" "keeps_op (step_used u n) (AdvanceMFATOTPStep v k)" for v k
    unfolding ConfirmMFA_def AdvanceMFATOTPStep_def by (rule step_used_update; simp)+
  from keeps_opD [OF this(1) assms(2)] keeps_opD [OF this(2) assms(2)]
  show "step_used u n (snd (ConfirmMFA v db))" "step_used u n (snd (AdvanceMFATOTPStep v k db))" for v k .
  show "step_used u n (snd (UpsertPendingMFA v s db))" for v s
    by (rule keeps_opD [OF step_used_upsert assms(2)])
qed (use assms(2) in \<open>simp_all only: step_used_frame [OF replace_frame(1)] step_used_frame [OF consume_code_frame(1)]
    step_used_frame [OF create_challenge_frame(1)] step_used_frame [OF consume_challenge_frame(1)]\<close>)

text \<open>
  C25. Once a TOTP step was accepted for a confirmed enrolment (the table has one row per user),
  no code of that step or of an earlier one is accepted again, in whatever order the statements of
  concurrent requests run and even when a re-enrolment is attempted meanwhile, as long as this
  enrolment is not deleted. Enrolments of other users, recovery codes, challenges and other accounts may
  be deleted meanwhile.
\<close>
theorem totp_step_used_once:
  assumes "list_all (\<lambda>m. mfa_UserID m = u \<longrightarrow> mfa_ConfirmedAt m \<noteq> None) (db_mfa db)"
    and "distinct (map mfa_UserID (db_mfa db))"
    and "AdvanceMFATOTPStep u n db = (Inr (), db')" "(mfa_step {u} H I)\<^sup>*\<^sup>* db' db''" "k \<le> n"
  shows "\<exists>e d. AdvanceMFATOTPStep u k db'' = (Inl e, d)"
proof -
  let ?hit = "\<lambda>m. mfa_UserID m = u \<and> mfa_LastUsedTOTPStep m < n"
  obtain fs where fs: "(let d = db\<lparr>db_faults := fs, db_mfa := map (\<lambda>m. if ?hit m
        then m\<lparr>mfa_LastUsedTOTPStep := n\<rparr> else m) (db_mfa db)\<rparr>
      in if length (filter ?hit (db_mfa db)) \<noteq> 1 then (Inl ErrInvalidMFACode, d) else (Inr (), d)) = (Inr (), db')"
    using statement_Inr [OF assms(3) [unfolded AdvanceMFATOTPStep_def update_mfa_def]] by auto
  then have one: "length (filter ?hit (db_mfa db)) = 1"
    and rows: "db_mfa db' = map (\<lambda>m. if ?hit m then m\<lparr>mfa_LastUsedTOTPStep := n\<rparr> else m) (db_mfa db)"
    by (auto simp: Let_def split: if_splits)
  obtain m where m: "m \<in> set (db_mfa db)" "?hit m" using one_filter [OF one] by blast
  have same: "m' = m" if "m' \<in> set (db_mfa db)" "mfa_UserID m' = u" for m'
    using assms(2) that m by (auto simp: distinct_map dest: inj_onD)
  have "\<exists>x\<in>set (db_mfa db'). mfa_UserID x = u"
    unfolding rows set_map by (rule bexI [OF _ imageI [OF m(1)]]) (simp add: m(2))
  moreover have "\<forall>x\<in>set (db_mfa db'). mfa_UserID x = u \<longrightarrow> mfa_ConfirmedAt x \<noteq> None \<and> n \<le> mfa_LastUsedTOTPStep x"
    unfolding rows using same m assms(1) by (auto simp: list_all_iff)
  ultimately have "step_used u n db'" by (simp add: step_used_def)
  then have used: "step_used u n db''"
    using mfa_steps_keep [where P = "step_used u n", OF _ assms(4)] step_used_step by blast
  have "filter (\<lambda>m. mfa_UserID m = u \<and> mfa_LastUsedTOTPStep m < k) (db_mfa db'') = []"
    using used assms(5) by (auto simp: step_used_def filter_empty_conv)
  then show ?thesis
    by (auto simp: AdvanceMFATOTPStep_def update_mfa_def statement_def Let_def split: list.splits)
qed

definition demo_mfa :: UserMFA where
  "demo_mfa = \<lparr>mfa_UserID = ''u1'', mfa_TOTPSecretEnc = ''k'', mfa_LastUsedTOTPStep = 3, mfa_ConfirmedAt = Some 1\<rparr>"

theorem totp_step_used_once_witness:
  "\<exists>db e d. AdvanceMFATOTPStep ''u1'' 16 (snd (DeleteMFA ''u2'' (snd (UpsertPendingMFA ''u1'' ''s'' db)))) = (Inl e, d) \<and>
     mfa_LastUsedTOTPStep (hd (db_mfa db)) = 16"
proof -
  let ?db = "demo_db\<lparr>db_mfa := [demo_mfa]\<rparr>"
  let ?after = "snd (AdvanceMFATOTPStep ''u1'' 16 ?db)"
  have run: "AdvanceMFATOTPStep ''u1'' 16 ?db = (Inr (), ?after)"
    by (simp add: AdvanceMFATOTPStep_def update_mfa_def statement_def demo_tables demo_mfa_def)
  have "mfa_step {''u1''} {} {} ?after (snd (UpsertPendingMFA ''u1'' ''s'' ?after))" by (rule mfa_step.upsert)
  moreover have "mfa_step {''u1''} {} {} d (snd (DeleteMFA ''u2'' d))" for d by (rule mfa_step.disable) simp
  ultimately have "(mfa_step {''u1''} {} {})\<^sup>*\<^sup>* ?after (snd (DeleteMFA ''u2'' (snd (UpsertPendingMFA ''u1'' ''s'' ?after))))"
    by (meson r_into_rtranclp rtranclp.rtrancl_into_rtrancl)
  from totp_step_used_once [OF _ _ run this, of 16]
  have "\<exists>e d. AdvanceMFATOTPStep ''u1'' 16 (snd (DeleteMFA ''u2'' (snd (UpsertPendingMFA ''u1'' ''s'' ?after)))) = (Inl e, d)"
    by (simp add: demo_mfa_def)
  moreover have "mfa_LastUsedTOTPStep (hd (db_mfa ?after)) = 16"
    by (simp add: AdvanceMFATOTPStep_def update_mfa_def statement_def demo_tables demo_mfa_def)
  ultimately show ?thesis by blast
qed

section \<open>Recovery codes and challenges are spent once\<close>

definition code_spent :: "string \<Rightarrow> string \<Rightarrow> auth_db \<Rightarrow> bool" where
  "code_spent u h db \<longleftrightarrow> (\<forall>c\<in>set (db_codes db). rec_UserID c = u \<and> rec_CodeHash c = h \<longrightarrow> rec_UsedAt c \<noteq> None)"

lemma code_spent_blind: "blind (code_spent u h)"
  by (rule blindI) (simp add: code_spent_def)

lemma code_spent_frame: "db_codes d = db_codes d' \<Longrightarrow> code_spent u h d = code_spent u h d'"
  by (simp add: code_spent_def)

lemma code_spent_consume: "keeps_op (code_spent u h) (ConsumeRecoveryCode v k)"
  unfolding ConsumeRecoveryCode_def
  by (rule keeps_statement [OF code_spent_blind]) (auto simp: keeps_op_def code_spent_def Let_def)

lemma code_spent_replace: "h \<notin> set hs \<Longrightarrow> keeps_op (code_spent u h) (ReplaceRecoveryCodes v hs)"
  by (rule keeps_replace [OF code_spent_blind]) (auto simp: code_spent_def)

interpretation gone: mfa_law "code_spent u h" "{}" for u h
  by unfold_locales (auto simp: code_spent_def)

lemma code_spent_step:
  assumes "mfa_step {} H I db db'" "h \<in> H" "code_spent u h db"
  shows "code_spent u h db'"
proof (rule gone.step_keeps [OF assms(1,3)])
  show "code_spent u h (snd (ReplaceRecoveryCodes v hs db))" if "set hs \<inter> H = {}" for v hs
    by (rule keeps_opD [OF code_spent_replace assms(3)]) (use that assms(2) in blast)
  show "code_spent u h (snd (ConsumeRecoveryCode v k db))" for v k
    by (rule keeps_opD [OF code_spent_consume assms(3)])
qed (use assms(3) in \<open>simp_all only: ConfirmMFA_def AdvanceMFATOTPStep_def code_spent_frame [OF upsert_frame(1)]
    code_spent_frame [OF update_mfa_frame(1)] code_spent_frame [OF create_challenge_frame(2)]
    code_spent_frame [OF consume_challenge_frame(2)]\<close>)

lemma code_spent_after:
  assumes "ConsumeRecoveryCode u h db = (Inr (), db')"
  shows "code_spent u h db'"
proof -
  have "db_codes db' = map (\<lambda>c. if spendable u h c then c\<lparr>rec_UsedAt := Some (db_clock db)\<rparr> else c) (db_codes db)"
    using statement_Inr [OF assms [unfolded ConsumeRecoveryCode_def]]
    by (auto simp: Let_def split: if_splits cong: if_cong)
  moreover have "rec_UsedAt (if spendable u h c then c\<lparr>rec_UsedAt := Some t\<rparr> else c) \<noteq> None"
    if "rec_UserID (if spendable u h c then c\<lparr>rec_UsedAt := Some t\<rparr> else c) = u"
      "rec_CodeHash (if spendable u h c then c\<lparr>rec_UsedAt := Some t\<rparr> else c) = h" for c t
    using that by (auto simp: spendable_def split: if_splits)
  ultimately show ?thesis by (simp only: code_spent_def set_map ball_simps) blast
qed

definition challenge_spent :: "string \<Rightarrow> auth_db \<Rightarrow> bool" where
  "challenge_spent i db \<longleftrightarrow> (\<forall>c\<in>set (db_challenges db). ch_ID c = i \<longrightarrow> ch_ConsumedAt c \<noteq> None)"

lemma challenge_spent_blind: "blind (challenge_spent i)"
  by (rule blindI) (simp add: challenge_spent_def)

lemma challenge_spent_frame: "db_challenges d = db_challenges d' \<Longrightarrow> challenge_spent i d = challenge_spent i d'"
  by (simp add: challenge_spent_def)

lemma challenge_spent_consume: "keeps_op (challenge_spent i) (ConsumeMFAChallenge j)"
  unfolding ConsumeMFAChallenge_def
  by (rule keeps_statement [OF challenge_spent_blind]) (auto simp: keeps_op_def challenge_spent_def Let_def)

lemma challenge_spent_create: "ch_ID c \<noteq> i \<Longrightarrow> keeps_op (challenge_spent i) (CreateMFAChallenge c)"
  unfolding CreateMFAChallenge_def
  by (rule keeps_statement [OF challenge_spent_blind]) (auto simp: keeps_op_def challenge_spent_def)

interpretation burnt: mfa_law "challenge_spent i" "{}" for i
  by unfold_locales (auto simp: challenge_spent_def)

text \<open>A consumed challenge stays consumed, whatever interleaves.\<close>

lemma challenge_spent_step:
  assumes "mfa_step {} H I db db'" "i \<in> I" "challenge_spent i db"
  shows "challenge_spent i db'"
proof (rule burnt.step_keeps [OF assms(1,3)])
  show "challenge_spent i (snd (CreateMFAChallenge c db))" if "ch_ID c \<notin> I" for c
    by (rule keeps_opD [OF challenge_spent_create assms(3)]) (use that assms(2) in blast)
  show "challenge_spent i (snd (ConsumeMFAChallenge j db))" for j
    by (rule keeps_opD [OF challenge_spent_consume assms(3)])
qed (use assms(3) in \<open>simp_all only: ConfirmMFA_def AdvanceMFATOTPStep_def challenge_spent_frame [OF upsert_frame(2)]
    challenge_spent_frame [OF update_mfa_frame(2)] challenge_spent_frame [OF replace_frame(2)]
    challenge_spent_frame [OF consume_code_frame(2)]\<close>)

lemma challenge_spent_after:
  assumes "ConsumeMFAChallenge i db = (Inr (), db')" "distinct (map ch_ID (db_challenges db))"
  shows "challenge_spent i db' \<and> (\<exists>c\<in>set (db_challenges db). ch_ID c = i \<and> challenge_open (db_clock db) c) \<and>
    db_sessions db' = db_sessions db \<and> db_users db' = db_users db"
proof -
  let ?hit = "\<lambda>c. ch_ID c = i \<and> challenge_open (db_clock db) c"
  have one: "length (filter ?hit (db_challenges db)) = 1"
    using statement_Inr [OF assms(1) [unfolded ConsumeMFAChallenge_def]]
    by (auto simp: Let_def split: if_splits)
  obtain c where c: "c \<in> set (db_challenges db)" "?hit c" using one_filter [OF one] by blast
  have same: "q = c" if "q \<in> set (db_challenges db)" "ch_ID q = i" for q
    using assms(2) that c by (auto simp: distinct_map dest: inj_onD)
  have rows: "db_challenges db' = map (\<lambda>c. if ?hit c then c\<lparr>ch_ConsumedAt := Some (db_clock db)\<rparr> else c) (db_challenges db)"
    "db_sessions db' = db_sessions db" "db_users db' = db_users db"
    using statement_Inr [OF assms(1) [unfolded ConsumeMFAChallenge_def]]
    by (auto simp: Let_def split: if_splits cong: if_cong)
  have "challenge_spent i db'"
    unfolding challenge_spent_def rows(1) using same c by auto
  with c rows(2,3) show ?thesis by blast
qed

text \<open>
  C37. A recovery code that was accepted is never accepted again, whatever statements concurrent
  requests interleave, disabling and re-enrolling, account deletions and clean-ups included: the
  guarded update marks it, and only a new set of codes that draws the same hash could bring it back.
\<close>
theorem recovery_code_used_once:
  assumes "ConsumeRecoveryCode u h db = (Inr (), db')" "(mfa_step {} H I)\<^sup>*\<^sup>* db' db''" "h \<in> H"
  shows "\<exists>e d. ConsumeRecoveryCode u h db'' = (Inl e, d)"
proof -
  have "code_spent u h db''"
    using mfa_steps_keep [where P = "code_spent u h", OF _ assms(2)] code_spent_step assms(3)
      code_spent_after [OF assms(1)] by blast
  then have "filter (spendable u h) (db_codes db'') = []"
    by (auto simp: code_spent_def spendable_def filter_empty_conv)
  then show ?thesis
    by (auto simp: ConsumeRecoveryCode_def statement_def Let_def split: list.splits)
qed

theorem recovery_code_used_once_witness:
  "\<exists>db e d. ConsumeRecoveryCode ''u1'' ''h'' (snd (ReplaceRecoveryCodes ''u1'' [''n''] (snd (DeleteMFA ''u1'' db)))) = (Inl e, d) \<and>
     map rec_UsedAt (db_codes db) = [Some 500]"
proof -
  let ?db = "demo_db\<lparr>db_codes := [\<lparr>rec_UserID = ''u1'', rec_CodeHash = ''h'', rec_UsedAt = None\<rparr>]\<rparr>"
  let ?after = "snd (ConsumeRecoveryCode ''u1'' ''h'' ?db)"
  have run: "ConsumeRecoveryCode ''u1'' ''h'' ?db = (Inr (), ?after)"
    by (simp add: ConsumeRecoveryCode_def statement_def demo_tables spendable_def)
  have "mfa_step {} {''h''} {} ?after (snd (DeleteMFA ''u1'' ?after))" by (rule mfa_step.disable) simp
  moreover have "mfa_step {} {''h''} {} d (snd (ReplaceRecoveryCodes ''u1'' [''n''] d))" for d
    by (rule mfa_step.replace) simp
  ultimately have "(mfa_step {} {''h''} {})\<^sup>*\<^sup>* ?after (snd (ReplaceRecoveryCodes ''u1'' [''n''] (snd (DeleteMFA ''u1'' ?after))))"
    by (meson r_into_rtranclp rtranclp.rtrancl_into_rtrancl)
  from recovery_code_used_once [OF run this]
  have "\<exists>e d. ConsumeRecoveryCode ''u1'' ''h'' (snd (ReplaceRecoveryCodes ''u1'' [''n''] (snd (DeleteMFA ''u1'' ?after)))) = (Inl e, d)"
    by simp
  moreover have "map rec_UsedAt (db_codes ?after) = [Some 500]"
    by (simp add: ConsumeRecoveryCode_def statement_def demo_tables spendable_def)
  ultimately show ?thesis by (intro exI [of _ ?after]) simp
qed

section \<open>A login with the second factor\<close>

lemma keeps_mfa_reads:
  "blind P \<Longrightarrow> keeps_op P (GetMFA u)" "blind P \<Longrightarrow> keeps_op P (GetMFAChallengeByTokenHash h p)"
  "blind P \<Longrightarrow> keeps_op P (user_GetByEmail e)" "blind P \<Longrightarrow> keeps_op P (GetMFAGateData u f)"
  "blind P \<Longrightarrow> keeps_op P (CountUnusedRecoveryCodes u)" "blind P \<Longrightarrow> keeps_op P (GetAuthLoginLockout k)"
  unfolding GetMFA_def GetMFAChallengeByTokenHash_def user_GetByEmail_def GetMFAGateData_def
    CountUnusedRecoveryCodes_def GetAuthLoginLockout_def
  by (rule keeps_read; simp add: Let_def split: option.splits)+

lemma keeps_factor_tables:
  "keeps_op (tables_are ss us) (update_mfa e hit f)" "keeps_op (tables_are ss us) (ConsumeRecoveryCode u h)"
  "keeps_op (tables_are ss us) (ConsumeMFAChallenge i)"
  unfolding update_mfa_def ConsumeRecoveryCode_def ConsumeMFAChallenge_def
  by (rule keeps_statement; simp add: keeps_op_def tables_are_def Let_def)+

lemma keeps_try_steps: "keeps_op (tables_are ss us) (try_steps E u secret code steps)"
proof (induction steps)
  case (Cons s steps)
  show ?case unfolding try_steps.simps AdvanceMFATOTPStep_def
    by (intro op_keeps keeps_factor_tables Cons.IH)
qed (simp add: op_keeps)

lemma keeps_second_factor: "keeps_op (tables_are ss us) (verifySecondFactor E now mfa code)"
  unfolding verifySecondFactor_def verifyTOTP_def Let_def
  by (intro op_keeps keeps_try_steps keeps_factor_tables)

lemmas second_factor_run = keeps_tables_run [OF keeps_second_factor]

text \<open>What the challenge table held when a challenge was loaded; the operations before keep it.\<close>

lemma find_challenge_run:
  "GetMFAChallengeByTokenHash h p db = (Inr c, mid) \<Longrightarrow>
     c \<in> set (db_challenges db) \<and> ch_TokenHash c = h \<and> ch_Purpose c = p \<and> challenge_open (db_clock db) c"
  unfolding GetMFAChallengeByTokenHash_def
  by (drule statement_cases) (auto split: option.splits dest: find_SomeD)

lemma get_mfa_run: "GetMFA u db = (Inr m, mid) \<Longrightarrow> find (\<lambda>m. mfa_UserID m = u) (db_mfa db) = Some m"
  unfolding GetMFA_def by (drule statement_cases) (auto split: option.splits)

text \<open>A predicate on the MFA tables alone survives reads and the rate limiter.\<close>

lemma mfa_tables_blind: "blind (mfa_tables_are ms cs qs)"
  by (rule blindI) (simp add: mfa_tables_are_def)

lemma keeps_run: "keeps_op P m \<Longrightarrow> P db \<Longrightarrow> m db = (r, db') \<Longrightarrow> P db'"
  by (metis keeps_opD snd_conv)

lemma keeps_mfa_enforce: "keeps_op (mfa_tables_are ms cs qs) (enforceAuthRateLimit C E now action checks)"
proof -
  have inc: "keeps_op (mfa_tables_are ms cs qs) (IncrementAuthRateLimit l w)" for l w
    unfolding IncrementAuthRateLimit_def
    by (rule keeps_statement [OF mfa_tables_blind])
      (auto simp: keeps_op_def mfa_tables_are_def Let_def split: option.splits)
  have "keeps_op (mfa_tables_are ms cs qs) (enforce_checks E now action checks)"
  proof (induction checks)
    case (Cons c cs')
    show ?case unfolding enforce_checks.simps Let_def case_prod_beta by (intro op_keeps inc Cons.IH)
  qed (simp add: op_keeps)
  then show ?thesis unfolding enforceAuthRateLimit_def by (intro op_keeps)
qed

lemma enforce_clock: "enforceAuthRateLimit C E now action checks db = (r, db') \<Longrightarrow> db_clock db' = db_clock db"
proof -
  let ?P = "\<lambda>d. db_clock d = db_clock db"
  have blind: "blind ?P" by (rule blindI) simp
  have inc: "keeps_op ?P (IncrementAuthRateLimit l w)" for l w
    unfolding IncrementAuthRateLimit_def
    by (rule keeps_statement [OF blind]) (auto simp: keeps_op_def Let_def split: option.splits)
  have "keeps_op ?P (enforce_checks E now action checks)"
  proof (induction checks)
    case (Cons c cs')
    show ?case unfolding enforce_checks.simps Let_def case_prod_beta by (intro op_keeps inc Cons.IH)
  qed (simp add: op_keeps)
  then have "keeps_op ?P (enforceAuthRateLimit C E now action checks)"
    unfolding enforceAuthRateLimit_def by (intro op_keeps)
  then show "enforceAuthRateLimit C E now action checks db = (r, db') \<Longrightarrow> db_clock db' = db_clock db"
    using keeps_run [where P = ?P] by blast
qed

lemma load_challenge_run:
  assumes "loadLoginChallenge E token db = (Inr (w, Inr (c, user, mfa)), mid)"
  shows "c \<in> set (db_challenges db) \<and> ch_TokenHash c = hashMFAChallengeToken E token \<and>
    ch_Purpose c = MFAChallengePurposeLogin \<and> challenge_open (db_clock db) c \<and>
    user \<in> set (db_users db) \<and> usr_ID user = ch_UserID c \<and> usr_DeletedAt user = None \<and>
    find (\<lambda>m. mfa_UserID m = ch_UserID c) (db_mfa db) = Some mfa \<and> mfa_ConfirmedAt mfa \<noteq> None \<and>
    db_sessions mid = db_sessions db \<and> db_users mid = db_users db"
proof -
  obtain m1 m2 where c: "GetMFAChallengeByTokenHash (hashMFAChallengeToken E token) MFAChallengePurposeLogin db = (Inr c, m1)"
    and u: "user_GetByID (ch_UserID c) m1 = (Inr user, m2)" and m: "GetMFA (usr_ID user) m2 = (Inr mfa, mid)"
    and ok: "mfa_ConfirmedAt mfa \<noteq> None"
    using assms by (auto simp: loadLoginChallenge_def op_runs split: if_splits)
  have t: "db_sessions m1 = db_sessions db \<and> db_users m1 = db_users db"
    "db_sessions m2 = db_sessions m1 \<and> db_users m2 = db_users m1"
    "db_sessions mid = db_sessions m2 \<and> db_users mid = db_users m2"
    using keeps_tables_run [OF keeps_mfa_reads(2) [OF blind_tables] c] read_run(2) [OF u]
      keeps_tables_run [OF keeps_mfa_reads(1) [OF blind_tables] m] by blast+
  have "user \<in> set (db_users m1)" "usr_ID user = ch_UserID c" "usr_DeletedAt user = None"
    using get_user_run [OF u] by (auto dest: find_SomeD)
  moreover have "mfa_tables_are (db_mfa db) (db_codes db) (db_challenges db) m2"
    using keeps_run [OF keeps_reads(4) [OF mfa_tables_blind] keeps_run [OF keeps_mfa_reads(2) [OF mfa_tables_blind] _ c] u]
    by (simp add: mfa_tables_are_def)
  ultimately show ?thesis
    using find_challenge_run [OF c] get_mfa_run [OF m] ok t by (simp add: mfa_tables_are_def)
qed

definition challenges_are :: "MFAChallenge list \<Rightarrow> auth_db \<Rightarrow> bool" where
  "challenges_are qs db \<longleftrightarrow> db_challenges db = qs"

lemma challenges_blind [simp]: "blind (challenges_are qs)"
  by (rule blindI) (simp add: challenges_are_def)

lemma keeps_op_frame: "(\<And>db. f (snd (m db)) = f db) \<Longrightarrow> (\<And>db. P db \<longleftrightarrow> f db = x) \<Longrightarrow> keeps_op P m"
  by (simp add: keeps_op_def)

lemma keeps_challenges:
  "keeps_op (challenges_are qs) (update_mfa e hit f)" "keeps_op (challenges_are qs) (ConsumeRecoveryCode u h)"
  "keeps_op (challenges_are qs) (insert_session s)"
  by (rule keeps_op_frame [where f = db_challenges and x = qs];
      simp add: challenges_are_def update_mfa_frame consume_code_frame insert_session_def statement_def
        split: list.split)+

lemma keeps_challenges_enforce: "keeps_op (challenges_are qs) (enforceAuthRateLimit C E now action checks)"
  unfolding keeps_op_def
proof (intro allI impI)
  fix db assume "challenges_are qs db"
  then have "mfa_tables_are (db_mfa db) (db_codes db) qs db" by (simp add: mfa_tables_are_def challenges_are_def)
  from keeps_opD [OF keeps_mfa_enforce this]
  show "challenges_are qs (snd (enforceAuthRateLimit C E now action checks db))"
    by (simp add: mfa_tables_are_def challenges_are_def)
qed

lemma keeps_challenges_factor: "keeps_op (challenges_are qs) (verifySecondFactor E now mfa code)"
proof -
  have steps: "keeps_op (challenges_are qs) (try_steps E u secret c steps)" for u secret c steps
  proof (induction steps)
    case (Cons s steps)
    show ?case unfolding try_steps.simps AdvanceMFATOTPStep_def
      by (intro op_keeps keeps_challenges Cons.IH)
  qed (simp add: op_keeps)
  show ?thesis
    unfolding verifySecondFactor_def verifyTOTP_def Let_def by (intro op_keeps steps keeps_challenges)
qed

lemma keeps_challenges_load: "keeps_op (challenges_are qs) (loadLoginChallenge E token)"
  unfolding loadLoginChallenge_def by (intro op_keeps keeps_mfa_reads keeps_reads challenges_blind)

lemma challenge_spent_sessions:
  "issueSessionRowAt C E q user f (\<lambda>s. if \<not> cfg_sessions C then op_ret ()
     else CreateAuthSession (s\<lparr>as_MFAVerifiedAt := Some t\<rparr>)) db = (r, db') \<Longrightarrow> db_challenges db' = db_challenges db"
proof -
  let ?store = "\<lambda>s. if \<not> cfg_sessions C then op_ret () else CreateAuthSession (s\<lparr>as_MFAVerifiedAt := Some t\<rparr>)"
  assume run: "issueSessionRowAt C E q user f ?store db = (r, db')"
  have "keeps_op (challenges_are (db_challenges db)) (issueSessionRowAt C E q user f ?store)"
    unfolding issueSessionRowAt_def CreateAuthSession_def by (intro op_keeps keeps_case_prod keeps_challenges)
  from keeps_run [OF this _ run] show ?thesis by (simp add: challenges_are_def)
qed

lemma keeps_mfa_load: "keeps_op (mfa_tables_are ms cs qs) (loadLoginChallenge E token)"
  unfolding loadLoginChallenge_def by (intro op_keeps keeps_mfa_reads keeps_reads mfa_tables_blind)

lemma keeps_mfa_issue:
  "keeps_op (mfa_tables_are ms cs qs) (issueSessionRowAt C E q user f (\<lambda>s. if \<not> cfg_sessions C then op_ret ()
     else CreateAuthSession (s\<lparr>as_MFAVerifiedAt := Some t\<rparr>)))"
proof -
  have "keeps_op (mfa_tables_are ms cs qs) (insert_session s)" for s
    unfolding insert_session_def
    by (rule keeps_statement [OF mfa_tables_blind]) (simp add: keeps_op_def mfa_tables_are_def)
  then show ?thesis
    unfolding issueSessionRowAt_def CreateAuthSession_def by (intro op_keeps keeps_case_prod)
qed

lemma audit_mfa: "auditAuth C ev ok u db = (r, db') \<Longrightarrow> db_mfa db' = db_mfa db \<and> db_codes db' = db_codes db"
  by (auto simp: auditAuth_def op_ret_def op_try_def statement_def split: if_splits list.splits prod.splits sum.splits)

text \<open>
  What an accepted factor is: the TOTP value of a step around now that the enrolment had not used
  yet, and which it records as used, or a recovery code of the user that was unused and now is not.
\<close>

definition factor_accepted :: "auth_env \<Rightarrow> int \<Rightarrow> UserMFA \<Rightarrow> string \<Rightarrow> auth_db \<Rightarrow> auth_db \<Rightarrow> bool" where
  "factor_accepted E now mfa code db db' \<longleftrightarrow>
     (case validateOTPInput (trim_space code) of
        Some otp \<Rightarrow> \<exists>secret step. ae_open E (mfa_TOTPSecretEnc mfa) = Some secret \<and>
          step \<in> set (totp_window now) \<and> ae_totp E secret (step * totpPeriodSeconds) = Some otp \<and>
          (\<exists>m\<in>set (db_mfa db). mfa_UserID m = mfa_UserID mfa \<and> mfa_LastUsedTOTPStep m < step) \<and>
          db_mfa db' = map (\<lambda>m. if mfa_UserID m = mfa_UserID mfa \<and> mfa_LastUsedTOTPStep m < step
            then m\<lparr>mfa_LastUsedTOTPStep := step\<rparr> else m) (db_mfa db) \<and>
          db_codes db' = db_codes db
      | None \<Rightarrow> \<exists>body t. normalizeRecoveryCode E (trim_space code) = Some body \<and>
          (\<exists>c\<in>set (db_codes db). spendable (mfa_UserID mfa) (hashTokenBytes E body) c) \<and>
          db_codes db' = map (\<lambda>c. if spendable (mfa_UserID mfa) (hashTokenBytes E body) c
            then c\<lparr>rec_UsedAt := Some t\<rparr> else c) (db_codes db) \<and>
          db_mfa db' = db_mfa db)"

lemma try_steps_run:
  "try_steps E u secret code steps db = (Inr (), db') \<Longrightarrow>
     \<exists>step\<in>set steps. ae_totp E secret (step * totpPeriodSeconds) = Some code \<and>
       AdvanceMFATOTPStep u step db = (Inr (), db')"
  by (induction steps) (auto simp: op_fail_def split: option.splits if_splits)

lemma advance_run:
  assumes "AdvanceMFATOTPStep u n db = (Inr (), db')"
  shows "\<exists>m\<in>set (db_mfa db). mfa_UserID m = u \<and> mfa_LastUsedTOTPStep m < n"
    "db_mfa db' = map (\<lambda>m. if mfa_UserID m = u \<and> mfa_LastUsedTOTPStep m < n
       then m\<lparr>mfa_LastUsedTOTPStep := n\<rparr> else m) (db_mfa db)"
  using statement_Inr [OF assms [unfolded AdvanceMFATOTPStep_def update_mfa_def]] one_filter [of _ "db_mfa db"]
  by (auto simp: Let_def split: if_splits cong: if_cong)

lemma consume_code_run:
  assumes "ConsumeRecoveryCode u h db = (Inr (), db')"
  shows "\<exists>c\<in>set (db_codes db). spendable u h c"
    "\<exists>t. db_codes db' = map (\<lambda>c. if spendable u h c then c\<lparr>rec_UsedAt := Some t\<rparr> else c) (db_codes db)"
  using statement_Inr [OF assms [unfolded ConsumeRecoveryCode_def]] one_filter [of _ "db_codes db"]
  by (auto simp: Let_def split: if_splits cong: if_cong)

lemma factor_run:
  assumes "verifySecondFactor E now mfa code db = (Inr (), db')"
  shows "factor_accepted E now mfa code db db'"
proof (cases "validateOTPInput (trim_space code)")
  case None
  then obtain body where body: "normalizeRecoveryCode E (trim_space code) = Some body"
    and run: "ConsumeRecoveryCode (mfa_UserID mfa) (hashTokenBytes E body) db = (Inr (), db')"
    using assms by (auto simp: verifySecondFactor_def op_fail_def Let_def split: if_splits option.splits)
  have "db_mfa db' = db_mfa db" using consume_code_frame(1) run by (metis snd_conv)
  with None body consume_code_run [OF run] show ?thesis by (auto simp: factor_accepted_def)
next
  case (Some otp)
  then obtain secret where secret: "ae_open E (mfa_TOTPSecretEnc mfa) = Some secret"
    and run: "try_steps E (mfa_UserID mfa) secret otp (totp_window now) db = (Inr (), db')"
    using assms by (auto simp: verifySecondFactor_def verifyTOTP_def op_fail_def Let_def split: if_splits option.splits)
  obtain step where step: "step \<in> set (totp_window now)" "ae_totp E secret (step * totpPeriodSeconds) = Some otp"
    and adv: "AdvanceMFATOTPStep (mfa_UserID mfa) step db = (Inr (), db')"
    using try_steps_run [OF run] by blast
  have "db_codes db' = db_codes db"
    using update_mfa_frame(1) adv unfolding AdvanceMFATOTPStep_def by (metis snd_conv)
  with Some secret step advance_run [OF adv] show ?thesis by (auto simp: factor_accepted_def)
qed

lemma factor_accepted_tables:
  "db_mfa a = db_mfa a' \<Longrightarrow> db_codes a = db_codes a' \<Longrightarrow> db_mfa b = db_mfa b' \<Longrightarrow> db_codes b = db_codes b' \<Longrightarrow>
   factor_accepted E now mfa code a b = factor_accepted E now mfa code a' b'"
  by (simp only: factor_accepted_def)

lemma with_audit_Inr_run:
  assumes "with_audit C ev body db = (Inr x, db')"
  shows "\<exists>u mid. body db = (Inr (u, Inr x), mid) \<and> auditAuth C ev True u mid = (Inr (), db')"
proof (cases "body db")
  case (Pair b mid)
  with assms obtain u r where b: "b = Inr (u, r)" by (cases b) (auto simp: with_audit_def op_bind_def)
  obtain d where "auditAuth C ev (case r of Inl _ \<Rightarrow> False | Inr _ \<Rightarrow> True) u mid = (Inr (), d)"
    using audit_Inr by blast
  then show ?thesis
    using assms Pair b by (cases r) (simp_all add: with_audit_def op_bind_def op_ret_def op_fail_def)
qed

lemma audit_challenges: "auditAuth C ev ok u db = (r, db') \<Longrightarrow> db_challenges db' = db_challenges db"
  by (auto simp: auditAuth_def op_ret_def op_try_def statement_def split: if_splits list.splits prod.splits sum.splits)

text \<open>
  C26. A completed second-factor login consumed exactly one open login challenge, found by the hash
  of the presented token; its account is live, and its enrolment is the user's row of the table, is
  confirmed, and accepted the code: the TOTP value of a step around now that the enrolment had not used and
  now records, or an unused recovery code that now is used. Nothing else of the enrolments and
  codes changes. The login appends exactly one session row, for that account, born step-up fresh,
  and after it the challenge is spent.
\<close>
theorem mfa_login_completes:
  assumes "VerifyMFALogin C E q mfaToken code db = (Inr res, db')" "cfg_sessions C"
    and "distinct (map ch_ID (db_challenges db))"
  shows "\<exists>c user mfa s. c \<in> set (db_challenges db) \<and>
    ch_TokenHash c = hashMFAChallengeToken E (trim_space mfaToken) \<and> ch_Purpose c = MFAChallengePurposeLogin \<and>
    challenge_open (db_clock db) c \<and> challenge_spent (ch_ID c) db' \<and>
    user \<in> set (db_users db) \<and> usr_ID user = ch_UserID c \<and> usr_DeletedAt user = None \<and>
    find (\<lambda>m. mfa_UserID m = ch_UserID c) (db_mfa db) = Some mfa \<and> mfa_ConfirmedAt mfa \<noteq> None \<and>
    factor_accepted E (rq_now q) mfa code db db' \<and>
    db_sessions db' = db_sessions db @ [s] \<and> as_UserID s = ch_UserID c \<and>
    as_MFAVerifiedAt s = Some (rq_now q) \<and> as_RevokedAt s = None \<and> lr_SessionID res = as_FamilyID s"
proof -
  let ?store = "\<lambda>s. if \<not> cfg_sessions C then op_ret ()
    else CreateAuthSession (s\<lparr>as_MFAVerifiedAt := Some (rq_now q)\<rparr>)"
  let ?checks = "token_checks (cfg_MFAVerifyToken C) (cfg_MFAVerifyIP C) q (trim_space mfaToken)"
  obtain uid d where d: "(let token = trim_space mfaToken in
      if \<not> cfg_mfa C \<or> token = '''' \<or> maxResetTokenInputBytes < length token
      then caught '''' (op_fail ErrInvalidMFAChallenge)
      else op_try (enforceAuthRateLimit C E (rq_now q) ''mfa_verify''
             (token_checks (cfg_MFAVerifyToken C) (cfg_MFAVerifyIP C) q token))
           (\<lambda>e. caught '''' (op_fail e))
           (\<lambda>_. op_bind (loadLoginChallenge E token) (\<lambda>(uid, r). caught uid
              (case r of
                 Inl e \<Rightarrow> op_fail e
               | Inr (challenge, user, mfa) \<Rightarrow> complete_mfa_login C E q code challenge user mfa)))) db
      = (Inr (uid, Inr res), d)"
    and audit: "auditAuth C ''mfa_verify'' True uid d = (Inr (), db')"
    using with_audit_Inr_run [OF assms(1) [unfolded VerifyMFALogin_def]] by blast
  obtain u1 m1 m2 r0 where
    lim: "enforceAuthRateLimit C E (rq_now q) ''mfa_verify'' ?checks db = (Inr u1, m1)"
    and load0: "loadLoginChallenge E (trim_space mfaToken) m1 = (Inr (uid, r0), m2)"
    and compl0: "(case r0 of Inl e \<Rightarrow> op_fail e
      | Inr (c, user, mfa) \<Rightarrow> complete_mfa_login C E q code c user mfa) m2 = (Inr res, d)"
    using d by (auto simp: Let_def op_runs split: if_splits)
  obtain c user mfa where r0: "r0 = Inr (c, user, mfa)"
    using compl0 by (cases r0) (auto simp: op_runs)
  note load = load0 [unfolded r0]
  have compl: "complete_mfa_login C E q code c user mfa m2 = (Inr res, d)" using compl0 r0 by simp
  obtain m3 m4 where
    fac: "verifySecondFactor E (rq_now q) mfa code m2 = (Inr (), m3)"
    and cons: "ConsumeMFAChallenge (ch_ID c) m3 = (Inr (), m4)"
    and iss: "issueSessionRowAt C E (authContextWithChallengeMetadata q c) user
        (rq_newID (authContextWithChallengeMetadata q c)) ?store m4 = (Inr res, d)"
    using compl by (auto simp: complete_mfa_login_def op_runs Let_def)
  have ch: "db_challenges m1 = db_challenges db" "db_challenges m2 = db_challenges m1"
    "db_challenges m3 = db_challenges m2" "db_challenges d = db_challenges m4" "db_challenges db' = db_challenges d"
    using keeps_run [OF keeps_challenges_enforce _ lim] keeps_run [OF keeps_challenges_load _ load]
      keeps_run [OF keeps_challenges_factor _ fac] challenge_spent_sessions [OF iss] audit_challenges [OF audit]
    by (simp_all add: challenges_are_def)
  have tb: "db_sessions m3 = db_sessions db" "db_sessions db' = db_sessions d" "db_users m1 = db_users db"
    using enforce_run [OF lim] load_challenge_run [OF load] second_factor_run [OF fac] audit_run [OF audit] by auto
  have spent: "challenge_spent (ch_ID c) db'" "db_sessions m4 = db_sessions m3"
    using challenge_spent_after [OF cons] assms(3) ch challenge_spent_frame [of m4 db'] by auto
  have "mfa_tables_are (db_mfa db) (db_codes db) (db_challenges db) m1"
    using keeps_run [OF keeps_mfa_enforce _ lim] by (simp add: mfa_tables_are_def)
  moreover from keeps_run [OF keeps_mfa_load this load]
  have "mfa_tables_are (db_mfa db) (db_codes db) (db_challenges db) m2" .
  ultimately have before: "db_mfa m1 = db_mfa db" "db_mfa m2 = db_mfa db" "db_codes m2 = db_codes db"
    by (simp_all add: mfa_tables_are_def)
  have "db_mfa m4 = db_mfa m3" "db_codes m4 = db_codes m3"
    using consume_challenge_frame [of "ch_ID c" m3] cons by simp_all
  moreover have "mfa_tables_are (db_mfa m4) (db_codes m4) (db_challenges m4) d"
    using keeps_run [OF keeps_mfa_issue _ iss] by (simp add: mfa_tables_are_def)
  ultimately have "db_mfa db' = db_mfa m3" "db_codes db' = db_codes m3"
    using audit_mfa [OF audit] by (simp_all add: mfa_tables_are_def)
  with before factor_run [OF fac] factor_accepted_tables have factor: "factor_accepted E (rq_now q) mfa code db db'"
    by metis
  obtain raw where raw: "?store (new_session C E (authContextWithChallengeMetadata q c) user
      (rq_newID (authContextWithChallengeMetadata q c)) raw) m4 = (Inr (), d)"
    and sid: "lr_SessionID res = rq_newID (authContextWithChallengeMetadata q c)"
    using issue_row_run [OF iss] by blast
  let ?s = "new_session C E (authContextWithChallengeMetadata q c) user
      (rq_newID (authContextWithChallengeMetadata q c)) raw\<lparr>as_MFAVerifiedAt := Some (rq_now q)\<rparr>"
  have "CreateAuthSession ?s m4 = (Inr (), d)" using raw assms(2) by simp
  then have "db_sessions d = db_sessions m4 @ [?s]" using create_cases tables_eq_sel(1) by fastforce
  then have row: "db_sessions db' = db_sessions db @ [?s]" using tb spent(2) by simp
  show ?thesis
    by (rule exI [of _ c], rule exI [of _ user], rule exI [of _ mfa], rule exI [of _ ?s])
      (use load_challenge_run [OF load] ch tb spent factor row sid before enforce_clock [OF lim] in
        \<open>simp add: new_session_def challenge_open_def\<close>)
qed

section \<open>Concrete runs\<close>

definition demo_challenge :: MFAChallenge where
  "demo_challenge = \<lparr>ch_ID = ''c1'', ch_UserID = ''u1'', ch_Purpose = ''login'',
     ch_TokenHash = CHR ''h'' # demo_token CHR ''m'', ch_OTPHash = None, ch_OTPExpiresAt = None,
     ch_ExpiresAt = 600, ch_ConsumedAt = None, ch_ClientIP = ''3.3.3.3'', ch_UserAgent = ''phone''\<rparr>"

definition demo_mfa_db :: auth_db where
  "demo_mfa_db = demo_db\<lparr>db_mfa := [demo_mfa], db_challenges := [demo_challenge]\<rparr>"

definition demo_mfa_req :: session_request where
  "demo_mfa_req = (demo_req ''s9'' CHR ''c'')\<lparr>rq_now := 485 * second\<rparr>"

lemma demo_code: "trim_space ''123456'' = ''123456''" "validateOTPInput ''123456'' = Some ''123456''"
proof -
  show t: "trim_space ''123456'' = ''123456''" by (rule trim_space_plain) (simp_all add: byte_def)
  show "validateOTPInput ''123456'' = Some ''123456''"
    by (simp add: validateOTPInput_def t otpDigits_def is_digit_def byte_def)
qed

lemma demo_window: "totp_window 485000000000 = [15, 16, 17]"
  by (simp add: totp_window_def second_def totpPeriodSeconds_def totpSkewSteps_def Let_def upto.simps)

lemma demo_rest [demo_eval]: "trim_space ''rest'' = ''rest''"
  by (rule trim_space_plain) (simp_all add: byte_def)

lemmas mfa_ops [demo_eval] =
  VerifyMFALogin_def loadLoginChallenge_def complete_mfa_login_def verifySecondFactor_def verifyTOTP_def
  try_steps.simps AdvanceMFATOTPStep_def update_mfa_def GetMFA_def GetMFAChallengeByTokenHash_def
  challenge_open_def ConsumeMFAChallenge_def hashMFAChallengeToken_def token_checks_def step_up_checks_def
  authContextWithChallengeMetadata_def CreateAuthSession_def MFAChallengePurposeLogin_def
  MFAChallengePurposeReset_def

lemmas mfa_values [demo_eval] =
  demo_mfa_db_def demo_challenge_def demo_mfa_def demo_mfa_req_def demo_code demo_window second_def
  totpPeriodSeconds_def

lemma demo_trim_empty [demo_eval]: "trim_space '''' = ''''"
  by (simp add: trim_space_def trim_left.simps trim_right.simps has_prefix_def has_suffix_def space_runes_def)

theorem mfa_login_completes_witness:
  "\<exists>res db' s. VerifyMFALogin demo_cfg demo_env demo_mfa_req (demo_token CHR ''m'') ''123456'' demo_mfa_db = (Inr res, db') \<and>
     db_sessions db' = db_sessions demo_mfa_db @ [s] \<and> as_UserID s = ''u1'' \<and> challenge_spent ''c1'' db'"
proof -
  let ?run = "VerifyMFALogin demo_cfg demo_env demo_mfa_req (demo_token CHR ''m'') ''123456'' demo_mfa_db"
  have "\<not> isl (fst ?run)" by (simp add: demo_eval)
  then obtain res db' where run: "?run = (Inr res, db')" by (metis prod.collapse sum.collapse(2))
  have "cfg_sessions demo_cfg" "distinct (map ch_ID (db_challenges demo_mfa_db))"
    by (simp_all add: demo_cfg_def demo_mfa_db_def)
  from mfa_login_completes [OF run this] show ?thesis
    unfolding run by (auto simp: demo_mfa_db_def demo_challenge_def)
qed

end
