(* ===== verification/Mfa_Access.thy ===== *)
theory Mfa_Access
  imports Mfa_Props
begin

text \<open>
  Who gets through: what a password login proves and hides, what the step-up gate of destructive
  routes lets pass, and what resetting a lost device leaves behind.
\<close>

section \<open>Password login\<close>

lemma keeps_mfa_tables_lockout:
  "keeps_op (mfa_tables_are ms cs qs) (checkLoginLockout C E now email)"
  "keeps_op (mfa_tables_are ms cs qs) (resetLoginLockout C E email)"
  "keeps_op (mfa_tables_are ms cs qs) (user_GetByEmail email)"
proof -
  have reset: "keeps_op (mfa_tables_are ms cs qs) (ResetAuthLoginLockout k)" for k
    unfolding ResetAuthLoginLockout_def
    by (rule keeps_statement [OF mfa_tables_blind]) (simp add: keeps_op_def mfa_tables_are_def)
  show "keeps_op (mfa_tables_are ms cs qs) (checkLoginLockout C E now email)"
    unfolding checkLoginLockout_def by (intro op_keeps keeps_mfa_reads mfa_tables_blind)
  show "keeps_op (mfa_tables_are ms cs qs) (resetLoginLockout C E email)"
    unfolding resetLoginLockout_def by (intro op_keeps reset)
  show "keeps_op (mfa_tables_are ms cs qs) (user_GetByEmail email)"
    by (rule keeps_mfa_reads(3) [OF mfa_tables_blind])
qed

lemma keeps_tables_lockout:
  "keeps_op (tables_are ss us) (checkLoginLockout C E now email)"
  "keeps_op (tables_are ss us) (resetLoginLockout C E email)"
  "keeps_op (tables_are ss us) (user_GetByEmail email)"
proof -
  have reset: "keeps_op (tables_are ss us) (ResetAuthLoginLockout k)" for k
    unfolding ResetAuthLoginLockout_def
    by (rule keeps_statement [OF blind_tables]) (simp add: keeps_op_def tables_are_def)
  show "keeps_op (tables_are ss us) (checkLoginLockout C E now email)"
    unfolding checkLoginLockout_def by (intro op_keeps keeps_mfa_reads blind_tables)
  show "keeps_op (tables_are ss us) (resetLoginLockout C E email)"
    unfolding resetLoginLockout_def by (intro op_keeps reset)
  show "keeps_op (tables_are ss us) (user_GetByEmail email)"
    by (rule keeps_mfa_reads(3) [OF blind_tables])
qed

lemma get_email_run:
  "user_GetByEmail e db = (Inr u, mid) \<Longrightarrow>
     u \<in> set (db_users db) \<and> usr_Email u = e \<and> usr_DeletedAt u = None"
  unfolding user_GetByEmail_def by (drule statement_cases) (auto split: option.splits dest: find_SomeD)

text \<open>A successful login, statement by statement.\<close>

lemma login_run:
  assumes "Login C E q D email password db = (Inr res, db')"
  shows "\<exists>e user mid challenge m2 d. validateLoginInput E email password = Some e \<and>
    user \<in> set (db_users db) \<and> usr_Email user = e \<and> usr_DeletedAt user = None \<and>
    ae_bcrypt E (usr_PasswordHash user) password \<and> usr_EmailVerified user \<and>
    db_sessions mid = db_sessions db \<and> db_users mid = db_users db \<and>
    (mfa_tables_are (db_mfa db) (db_codes db) (db_challenges db) mid) \<and>
    mfaLoginChallengeFor C E q D user mid = (Inr challenge, m2) \<and>
    (case challenge of Some r \<Rightarrow> op_ret r | None \<Rightarrow> issueSession C E q user) m2 = (Inr res, d) \<and>
    db_sessions db' = db_sessions d"
proof -
  obtain uid d where body: "(case validateLoginInput E email password of
        None \<Rightarrow> caught '''' (op_fail ErrInvalidAuthInput)
      | Some e \<Rightarrow> op_try (op_bind (enforceAuthRateLimit C E (rq_now q) ''login''
             [\<lparr>rc_keyType = ''email'', rc_value = e, rc_rule = cfg_LoginEmail C\<rparr>,
              \<lparr>rc_keyType = ''ip'', rc_value = rq_ClientIP q, rc_rule = cfg_LoginIP C\<rparr>])
             (\<lambda>_. checkLoginLockout C E (rq_now q) e))
          (\<lambda>err. caught '''' (op_fail err))
          (\<lambda>_. op_try (user_GetByEmail e)
             (\<lambda>err. caught '''' (login_checked C E q D e password (Inl err)))
             (\<lambda>user. caught (usr_ID user) (login_checked C E q D e password (Inr user))))) db
        = (Inr (uid, Inr res), d)"
    and out: "db_sessions db' = db_sessions d"
    using with_audit_Inr [OF assms [unfolded Login_def]] by blast
  obtain e where e: "validateLoginInput E email password = Some e"
    using body by (cases "validateLoginInput E email password") (simp_all add: op_runs)
  let ?checks = "[\<lparr>rc_keyType = ''email'', rc_value = e, rc_rule = cfg_LoginEmail C\<rparr>,
    \<lparr>rc_keyType = ''ip'', rc_value = rq_ClientIP q, rc_rule = cfg_LoginIP C\<rparr>]"
  obtain u1 u2 m1 m2 where lim: "enforceAuthRateLimit C E (rq_now q) ''login'' ?checks db = (Inr u1, m1)"
    and lock: "checkLoginLockout C E (rq_now q) e m1 = (Inr u2, m2)"
    and look: "op_try (user_GetByEmail e)
             (\<lambda>err. caught '''' (login_checked C E q D e password (Inl err)))
             (\<lambda>user. caught (usr_ID user) (login_checked C E q D e password (Inr user))) m2
        = (Inr (uid, Inr res), d)"
    using body by (auto simp: e op_runs)
  have fails: "login_checked C E q D e password (Inl err) x \<noteq> (Inr res, d)" for err x
    by (auto simp: login_checked_def op_runs Let_def split: if_splits)
  obtain user m3 where get: "user_GetByEmail e m2 = (Inr user, m3)"
    and chk: "login_checked C E q D e password (Inr user) m3 = (Inr res, d)"
    using look fails by (auto simp: op_runs)
  have ok: "ae_bcrypt E (usr_PasswordHash user) password" "usr_EmailVerified user"
    using chk by (auto simp: login_checked_def op_runs split: if_splits)
  obtain u4 m4 ch m5 where reset: "resetLoginLockout C E e m3 = (Inr u4, m4)"
    and mfa: "mfaLoginChallengeFor C E q D user m4 = (Inr ch, m5)"
    and fin: "(case ch of Some r \<Rightarrow> op_ret r | None \<Rightarrow> issueSession C E q user) m5 = (Inr res, d)"
    using chk ok by (auto simp: login_checked_def op_runs)
  have t: "db_sessions m4 = db_sessions db \<and> db_users m4 = db_users db" "db_users m2 = db_users db"
    using enforce_run [OF lim] keeps_tables_run [OF keeps_tables_lockout(1) lock]
      keeps_tables_run [OF keeps_tables_lockout(3) get] keeps_tables_run [OF keeps_tables_lockout(2) reset] by auto
  have "mfa_tables_are (db_mfa db) (db_codes db) (db_challenges db) db" by (simp add: mfa_tables_are_def)
  from keeps_run [OF keeps_mfa_enforce this lim] have "mfa_tables_are (db_mfa db) (db_codes db) (db_challenges db) m1" .
  from keeps_run [OF keeps_mfa_tables_lockout(1) this lock]
  have "mfa_tables_are (db_mfa db) (db_codes db) (db_challenges db) m2" .
  from keeps_run [OF keeps_mfa_tables_lockout(3) this get]
  have "mfa_tables_are (db_mfa db) (db_codes db) (db_challenges db) m3" .
  from keeps_run [OF keeps_mfa_tables_lockout(2) this reset]
  have "mfa_tables_are (db_mfa db) (db_codes db) (db_challenges db) m4" .
  with e ok t get_email_run [OF get] mfa fin out show ?thesis
    by (intro exI [of _ e] exI [of _ user] exI [of _ m4] exI [of _ ch] exI [of _ m5] exI [of _ d]) simp
qed

text \<open>
  C12. A login that succeeds used the address and password of a live account with a verified
  address. When that account has a confirmed second factor, the answer carries no token pair and
  no session row is written: it is the challenge for the second step, valid for the configured
  time.
\<close>
theorem password_login_sound:
  assumes "Login C E q D email password db = (Inr res, db')"
  shows "\<exists>user e. user \<in> set (db_users db) \<and> validateLoginInput E email password = Some e \<and>
    usr_Email user = e \<and> usr_DeletedAt user = None \<and> usr_EmailVerified user \<and>
    ae_bcrypt E (usr_PasswordHash user) password \<and> lr_User res = user \<and>
    (cfg_mfa C \<and> (\<exists>m. find (\<lambda>m. mfa_UserID m = usr_ID user) (db_mfa db) = Some m \<and> mfa_ConfirmedAt m \<noteq> None)
     \<longrightarrow> lr_MFARequired res \<and> lr_AccessToken res = '''' \<and> lr_RefreshToken res = '''' \<and>
         lr_MFATokenExpiresAt res = Some (rq_now q + mo_ChallengeTTL (cfg_mfaOptions C)) \<and>
         db_sessions db' = db_sessions db)"
proof -
  obtain e user mid ch m2 d where e: "validateLoginInput E email password = Some e"
    and u: "user \<in> set (db_users db)" "usr_Email user = e" "usr_DeletedAt user = None"
      "ae_bcrypt E (usr_PasswordHash user) password" "usr_EmailVerified user"
    and mid: "db_sessions mid = db_sessions db" "mfa_tables_are (db_mfa db) (db_codes db) (db_challenges db) mid"
    and mfa: "mfaLoginChallengeFor C E q D user mid = (Inr ch, m2)"
    and fin: "(case ch of Some r \<Rightarrow> op_ret r | None \<Rightarrow> issueSession C E q user) m2 = (Inr res, d)"
    and out: "db_sessions db' = db_sessions d"
    using login_run [OF assms] by blast
  have user: "lr_User res = user"
  proof (cases ch)
    case None
    then have "issueSessionRowAt C E q user (rq_newID q)
        (\<lambda>s. if \<not> cfg_sessions C then op_ret () else CreateAuthSession s) m2 = (Inr res, d)"
      using fin by (simp add: issueSession_def)
    from issue_row_run [OF this] show ?thesis by blast
  next
    case (Some r)
    then show ?thesis using fin mfa
      by (auto simp: mfaLoginChallengeFor_def op_runs Let_def split: if_splits option.splits)
  qed
  have "lr_MFARequired res \<and> lr_AccessToken res = '''' \<and> lr_RefreshToken res = '''' \<and>
      lr_MFATokenExpiresAt res = Some (rq_now q + mo_ChallengeTTL (cfg_mfaOptions C)) \<and>
      db_sessions db' = db_sessions db"
    if c: "cfg_mfa C" and m: "find (\<lambda>m. mfa_UserID m = usr_ID user) (db_mfa db) = Some m" "mfa_ConfirmedAt m \<noteq> None" for m
  proof -
    have row: "m' = m" if "GetMFA (usr_ID user) mid = (Inr m', x)" for m' x
      using that m(1) mid(2) unfolding GetMFA_def mfa_tables_are_def
      by (auto dest!: statement_cases split: option.splits)
    have miss: "GetMFA (usr_ID user) mid \<noteq> (Inl ErrMFANotEnabled, x)" for x
      using m(1) mid(2) unfolding GetMFA_def mfa_tables_are_def
      by (auto dest!: statement_cases split: option.splits)
    obtain x rawToken h u where get: "GetMFA (usr_ID user) mid = (Inr m, x)"
      and create: "CreateMFAChallenge (new_challenge E q D (usr_ID user) MFAChallengePurposeLogin h
          (rq_now q + mo_ChallengeTTL (cfg_mfaOptions C)) None) x = (Inr u, m2)"
      and ch: "ch = Some \<lparr>lr_User = user, lr_SessionID = '''', lr_AccessToken = '''',
           lr_AccessExpiresAt = 0, lr_RefreshToken = '''', lr_RefreshExpiresAt = 0, lr_MFARequired = True,
           lr_MFAToken = rawToken,
           lr_MFATokenExpiresAt = Some (rq_now q + mo_ChallengeTTL (cfg_mfaOptions C))\<rparr>"
      using mfa c m(2) row miss
      by (auto simp: mfaLoginChallengeFor_def op_runs Let_def split: if_splits option.splits)
    have "keeps_op (tables_are (db_sessions x) (db_users x)) (CreateMFAChallenge q')" for q'
      unfolding CreateMFAChallenge_def
      by (rule keeps_statement [OF blind_tables]) (simp add: keeps_op_def tables_are_def)
    from keeps_tables_run [OF this create] keeps_tables_run [OF keeps_mfa_reads(1) [OF blind_tables] get]
    have "db_sessions m2 = db_sessions db" using mid(1) by simp
    with ch fin out show ?thesis by (auto simp: op_runs)
  qed
  with e u user show ?thesis by (intro exI [of _ user] exI [of _ e]) auto
qed

lemmas login_ops [demo_eval] =
  Login_def login_checked_def checkLoginLockout_def resetLoginLockout_def recordLoginFailure_def
  lockoutEnabled_def lockoutKeyHash_def GetAuthLoginLockout_def ResetAuthLoginLockout_def
  user_GetByEmail_def mfaLoginChallengeFor_def newMFAChallengeToken_def new_challenge_def
  CreateMFAChallenge_def issueSession_def validateLoginInput_def validateEmailInput_def validPassword_def
  minPasswordBytes_def maxPasswordBytes_def

definition demo_draws :: mfa_draws where
  "demo_draws = \<lparr>md_challengeID = ''c9'', md_token = Some (demo_token CHR ''t''), md_otp = Some (''111111'', ''111111''),
     md_codes = (\<lambda>i. Some (replicate 10 (digit_char i))), md_key = Some (''k'', ''url''), md_mailed = True\<rparr>"

lemma demo_login_trim [demo_eval]: "trim_space ''u1'' = ''u1''"
  by (rule trim_space_plain) (simp_all add: byte_def)

theorem password_login_sound_witness:
  "\<exists>res db'. Login demo_cfg demo_env (demo_req ''s9'' CHR ''c'') demo_draws ''u1'' ''correct12'' 
       (demo_mfa_db\<lparr>db_users := [(demo_user ''u1'')\<lparr>usr_PasswordHash := ''correct12''\<rparr>]\<rparr>) = (Inr res, db') \<and>
     lr_MFARequired res \<and> lr_AccessToken res = '''' \<and> db_sessions db' = db_sessions demo_mfa_db"
proof -
  let ?db = "demo_mfa_db\<lparr>db_users := [(demo_user ''u1'')\<lparr>usr_PasswordHash := ''correct12''\<rparr>]\<rparr>"
  let ?run = "Login demo_cfg demo_env (demo_req ''s9'' CHR ''c'') demo_draws ''u1'' ''correct12'' ?db"
  have "\<not> isl (fst ?run)" by (simp add: demo_eval demo_draws_def)
  then obtain res db' where run: "?run = (Inr res, db')" by (metis prod.collapse sum.collapse(2))
  from password_login_sound [OF this] have "lr_MFARequired res \<and> lr_AccessToken res = '''' \<and> db_sessions db' = db_sessions ?db"
    by (auto simp: demo_mfa_db_def demo_mfa_def demo_user_def demo_cfg_def)
  then show ?thesis using run by (intro exI [of _ res] exI [of _ db']) simp
qed

section \<open>A login does not tell whether the account exists\<close>

definition commutes :: "(auth_db \<Rightarrow> auth_db) \<Rightarrow> 'a op \<Rightarrow> bool" where
  "commutes f m \<longleftrightarrow> (\<forall>db. m (f db) = (fst (m db), f (snd (m db))))"

named_theorems op_commutes

lemma commutes_leaf [op_commutes]: "commutes f (op_ret x)" "commutes f (op_fail e)"
  by (simp_all add: commutes_def op_defs)

lemma commutes_bind [op_commutes]:
  "commutes f m \<Longrightarrow> (\<And>x. commutes f (g x)) \<Longrightarrow> commutes f (op_bind m g)"
  by (auto simp: commutes_def op_bind_def split: sum.splits prod.splits)

lemma commutes_try [op_commutes]:
  "commutes f m \<Longrightarrow> (\<And>e. commutes f (h e)) \<Longrightarrow> (\<And>x. commutes f (g x)) \<Longrightarrow> commutes f (op_try m h g)"
  by (auto simp: commutes_def op_try_def split: sum.splits prod.splits)

lemma commutes_if [op_commutes]: "commutes f m \<Longrightarrow> commutes f n \<Longrightarrow> commutes f (if c then m else n)"
  by simp

lemma commutes_option [op_commutes]:
  "commutes f m \<Longrightarrow> (\<And>x. commutes f (g x)) \<Longrightarrow> commutes f (case v of None \<Rightarrow> m | Some x \<Rightarrow> g x)"
  by (cases v) simp_all

definition hide :: "string \<Rightarrow> auth_db \<Rightarrow> auth_db" where
  "hide e db = db\<lparr>db_users := filter (\<lambda>u. usr_Email u \<noteq> e) (db_users db)\<rparr>"

lemma hide_sel [simp]:
  "db_sessions (hide e db) = db_sessions db" "db_limits (hide e db) = db_limits db"
  "db_lockouts (hide e db) = db_lockouts db" "db_clock (hide e db) = db_clock db"
  "db_faults (hide e db) = db_faults db" "db_audit (hide e db) = db_audit db"
  by (simp_all add: hide_def)

lemma hide_update:
  "(hide e db)\<lparr>db_faults := fs\<rparr> = hide e (db\<lparr>db_faults := fs\<rparr>)"
  "(hide e db)\<lparr>db_limits := ls\<rparr> = hide e (db\<lparr>db_limits := ls\<rparr>)"
  "(hide e db)\<lparr>db_lockouts := ks\<rparr> = hide e (db\<lparr>db_lockouts := ks\<rparr>)"
  by (simp_all add: hide_def)

lemma commutes_statement:
  "commutes (hide e) s \<Longrightarrow> commutes (hide e) (statement s)"
  by (simp add: commutes_def statement_def hide_update split: list.split)

lemma commutes_limit: "commutes (hide e) (IncrementAuthRateLimit l w)"
  unfolding IncrementAuthRateLimit_def
  by (rule commutes_statement) (simp add: commutes_def Let_def hide_update split: option.split)

lemma commutes_enforce: "commutes (hide e) (enforceAuthRateLimit C E now action cs)"
proof -
  have "commutes (hide e) (enforce_checks E now action cs)"
  proof (induction cs)
    case (Cons c cs)
    show ?case unfolding enforce_checks.simps Let_def case_prod_beta
      by (intro op_commutes commutes_limit Cons.IH)
  qed (simp add: op_commutes)
  then show ?thesis unfolding enforceAuthRateLimit_def by (intro op_commutes)
qed

lemma commutes_lockout:
  "commutes (hide e) (GetAuthLoginLockout k)" "commutes (hide e) (IncrementAuthLoginFailure k l)"
  unfolding GetAuthLoginLockout_def IncrementAuthLoginFailure_def
  by (rule commutes_statement, simp add: commutes_def hide_update split: option.split cong: if_cong)+

lemma commutes_failure: "commutes (hide e) (recordLoginFailure C E now email)"
  "commutes (hide e) (checkLoginLockout C E now email)"
  unfolding recordLoginFailure_def checkLoginLockout_def by (intro op_commutes commutes_lockout)+

lemma login_checked_wrong:
  "(case found of Inr u \<Rightarrow> \<not> ae_bcrypt E (usr_PasswordHash u) password | Inl _ \<Rightarrow> True) \<Longrightarrow>
     login_checked C E q D e password found =
       op_bind (recordLoginFailure C E (rq_now q) e) (\<lambda>_. op_fail ErrInvalidCredentials)"
  by (auto simp: login_checked_def Let_def split: sum.splits)

lemma get_email_hide:
  "\<exists>y. user_GetByEmail e (hide e db) = (Inl y, hide e (snd (user_GetByEmail e db)))"
proof -
  have "find (\<lambda>u. usr_Email u = e \<and> usr_DeletedAt u = None) (db_users (hide e d)) = None" for d
    by (simp add: hide_def find_None_iff)
  then show ?thesis
    by (simp add: user_GetByEmail_def statement_def hide_update split: list.split option.split)
qed

lemma with_audit_visible:
  assumes "body db = (Inr (u, r), mid)"
  shows "fst (with_audit C ev body db) = r \<and> db_limits (snd (with_audit C ev body db)) = db_limits mid \<and>
    db_lockouts (snd (with_audit C ev body db)) = db_lockouts mid \<and>
    db_sessions (snd (with_audit C ev body db)) = db_sessions mid"
proof -
  have "db_limits (snd (auditAuth C ev ok u mid)) = db_limits mid \<and>
      db_lockouts (snd (auditAuth C ev ok u mid)) = db_lockouts mid \<and>
      db_sessions (snd (auditAuth C ev ok u mid)) = db_sessions mid \<and> fst (auditAuth C ev ok u mid) = Inr ()" for ok
    by (auto simp: auditAuth_def op_ret_def op_try_def statement_def split: list.split)
  then show ?thesis
    using assms by (auto simp: with_audit_def op_bind_def op_ret_def op_fail_def split: sum.splits prod.splits)
      (metis fst_conv snd_conv sum.distinct(1) sum.inject(2))+
qed

text \<open>
  C36. A login with a wrong password and a login for an address that has no account are the same to
  the caller and to the next caller: the same error, the same rate-limit and lockout rows, the
  same sessions, whatever the database faults; only the audit log knows which it was.
\<close>
theorem login_no_enumeration:
  assumes "validateLoginInput E email password = Some e"
    and "\<forall>u\<in>set (db_users db). usr_Email u = e \<longrightarrow> \<not> ae_bcrypt E (usr_PasswordHash u) password"
  shows "fst (Login C E q D email password db) = fst (Login C E q D email password (hide e db)) \<and>
    db_limits (snd (Login C E q D email password db)) = db_limits (snd (Login C E q D email password (hide e db))) \<and>
    db_lockouts (snd (Login C E q D email password db)) = db_lockouts (snd (Login C E q D email password (hide e db))) \<and>
    db_sessions (snd (Login C E q D email password db)) = db_sessions (snd (Login C E q D email password (hide e db)))"
proof -
  let ?checks = "[\<lparr>rc_keyType = ''email'', rc_value = e, rc_rule = cfg_LoginEmail C\<rparr>,
    \<lparr>rc_keyType = ''ip'', rc_value = rq_ClientIP q, rc_rule = cfg_LoginIP C\<rparr>]"
  let ?pre = "op_bind (enforceAuthRateLimit C E (rq_now q) ''login'' ?checks) (\<lambda>_. checkLoginLockout C E (rq_now q) e)"
  let ?fail = "op_bind (recordLoginFailure C E (rq_now q) e) (\<lambda>_. op_fail ErrInvalidCredentials) :: LoginResult op"
  let ?body = "op_try ?pre (\<lambda>err. caught '''' (op_fail err))
    (\<lambda>_. op_try (user_GetByEmail e)
             (\<lambda>err. caught '''' (login_checked C E q D e password (Inl err)))
             (\<lambda>user. caught (usr_ID user) (login_checked C E q D e password (Inr user))))"
  have login: "Login C E q D email password = with_audit C ''login'' ?body"
    using assms(1) by (simp add: Login_def)
  have pre: "?pre (hide e db) = (fst (?pre db), hide e (snd (?pre db)))"
  proof -
    have "commutes (hide e) ?pre" by (intro op_commutes commutes_enforce commutes_failure)
    then show ?thesis by (simp add: commutes_def)
  qed
  have fail: "?fail (hide e d) = (fst (?fail d), hide e (snd (?fail d)))" for d
  proof -
    have "commutes (hide e) ?fail" by (intro op_commutes commutes_failure)
    then show ?thesis by (simp add: commutes_def)
  qed
  obtain p m where p: "?pre db = (p, m)" by (cases "?pre db")
  have "\<exists>u w r mid. ?body db = (Inr (u, r), mid) \<and> ?body (hide e db) = (Inr (w, r), hide e mid)"
  proof (cases p)
    case (Inl err)
    then show ?thesis using p pre by (simp add: op_try_def caught_def op_fail_def)
  next
    case (Inr x)
    have users: "db_users m = db_users db"
    proof -
      have "keeps_op (tables_are ss us) ?pre" for ss us
        by (intro op_keeps keeps_enforce keeps_tables_lockout)
      from keeps_tables_run [OF this p] show ?thesis by blast
    qed
    obtain g n where g: "user_GetByEmail e m = (g, n)" by (cases "user_GetByEmail e m")
    then have h: "\<exists>y. user_GetByEmail e (hide e m) = (Inl y, hide e n)" using get_email_hide [of e m] by simp
    have wrong: "case g of Inr u \<Rightarrow> \<not> ae_bcrypt E (usr_PasswordHash u) password | Inl _ \<Rightarrow> True"
      using get_email_run [of e m _ n] g assms(2) users by (cases g) auto
    have "\<exists>u. ?body db = (Inr (u, fst (?fail n)), snd (?fail n))"
      using p Inr g wrong login_checked_wrong [OF wrong, of C q D e]
      by (cases g) (simp_all add: op_try_def caught_def split: prod.split)
    moreover have "\<exists>w. ?body (hide e db) = (Inr (w, fst (?fail n)), hide e (snd (?fail n)))"
      using p pre Inr h fail [of n] login_checked_wrong [where found = "Inl y" for y]
      by (auto simp: op_try_def caught_def split: prod.split)
    ultimately show ?thesis by blast
  qed
  then obtain u w r mid where "?body db = (Inr (u, r), mid)" "?body (hide e db) = (Inr (w, r), hide e mid)" by blast
  from with_audit_visible [where body = ?body, OF this(1)] with_audit_visible [where body = ?body, OF this(2)]
  show ?thesis unfolding login by simp
qed

theorem login_no_enumeration_witness:
  "fst (Login demo_cfg demo_env (demo_req ''s9'' CHR ''c'') demo_draws ''u1'' ''wrong-password'' demo_db)
     = fst (Login demo_cfg demo_env (demo_req ''s9'' CHR ''c'') demo_draws ''u1'' ''wrong-password'' (hide ''u1'' demo_db)) \<and>
   map usr_ID (db_users (hide ''u1'' demo_db)) = [''u2'']"
proof -
  have "validateLoginInput demo_env ''u1'' ''wrong-password'' = Some ''u1''" by (simp add: demo_eval)
  from login_no_enumeration [OF this, of demo_db demo_cfg "demo_req ''s9'' CHR ''c''" demo_draws]
  show ?thesis by (simp add: demo_tables demo_env_sel hide_def)
qed

section \<open>The step-up gate\<close>

lemma gate_data_run:
  assumes "GetMFAGateData u f db = (Inr data, mid)"
  shows "(gd_Confirmed data \<longleftrightarrow> (\<exists>m. find (\<lambda>m. mfa_UserID m = u) (db_mfa db) = Some m \<and> mfa_ConfirmedAt m \<noteq> None)) \<and>
    (\<exists>row\<in>set (db_users db). usr_ID row = u \<and> usr_DeletedAt row = None \<and> gd_EnforcedFrom data = usr_MFAEnforcedFrom row) \<and>
    (\<forall>t. gd_MFAVerifiedAt data = Some t \<longrightarrow> (\<exists>s\<in>set (db_sessions db). as_UserID s = u \<and> as_FamilyID s = f \<and>
       as_RevokedAt s = None \<and> as_MFAVerifiedAt s = Some t))"
proof -
  let ?ss = "sort_key (\<lambda>r. - as_CreatedAt r) (filter (\<lambda>r. as_UserID r = u \<and> as_FamilyID r = f \<and>
    as_RevokedAt r = None) (db_sessions db))"
  obtain row where row: "find (\<lambda>x. usr_ID x = u \<and> usr_DeletedAt x = None) (db_users db) = Some row"
    and data: "gd_Confirmed data = (case find (\<lambda>m. mfa_UserID m = u) (db_mfa db) of None \<Rightarrow> False
        | Some m \<Rightarrow> mfa_ConfirmedAt m \<noteq> None)"
      "gd_EnforcedFrom data = usr_MFAEnforcedFrom row"
      "gd_MFAVerifiedAt data = (case ?ss of [] \<Rightarrow> None | r # _ \<Rightarrow> as_MFAVerifiedAt r)"
    using statement_Inr [OF assms [unfolded GetMFAGateData_def]] by (auto simp: Let_def split: option.splits)
  have "s \<in> set (db_sessions db) \<and> as_UserID s = u \<and> as_FamilyID s = f \<and> as_RevokedAt s = None"
    if "?ss = s # rest" for s rest
    using arg_cong [OF that, of set] by auto
  then have "\<exists>s\<in>set (db_sessions db). as_UserID s = u \<and> as_FamilyID s = f \<and> as_RevokedAt s = None \<and>
      as_MFAVerifiedAt s = Some t" if "gd_MFAVerifiedAt data = Some t" for t
    using that unfolding data(3) by (cases ?ss) auto
  moreover have "\<exists>r\<in>set (db_users db). usr_ID r = u \<and> usr_DeletedAt r = None \<and> gd_EnforcedFrom data = usr_MFAEnforcedFrom r"
    using find_SomeD [OF row] data(2) by blast
  moreover have "gd_Confirmed data \<longleftrightarrow>
      (\<exists>m. find (\<lambda>m. mfa_UserID m = u) (db_mfa db) = Some m \<and> mfa_ConfirmedAt m \<noteq> None)"
    unfolding data(1) by (simp split: option.split)
  ultimately show ?thesis by blast
qed

text \<open>
  C7. With the feature wired, a destructive route runs only for an enrolled account whose active
  session of that family proved a factor within the step-up window, or for an account without a
  confirmed enrolment whose role carries no mandate, whose grace period is still running, or whose
  grace anchor is missing. A database error never opens the gate.
\<close>
theorem step_up_gate_sound:
  assumes "RequireFreshMFA C E now (Inr (Some user)) sid db = (Next, db')" "cfg_mfa C"
  shows "if \<exists>m. find (\<lambda>m. mfa_UserID m = usr_ID user) (db_mfa db) = Some m \<and> mfa_ConfirmedAt m \<noteq> None
    then \<exists>s t. s \<in> set (db_sessions db) \<and> as_UserID s = usr_ID user \<and>
       as_FamilyID s = (case sid of Some f \<Rightarrow> f | None \<Rightarrow> '''') \<and> as_RevokedAt s = None \<and>
       as_MFAVerifiedAt s = Some t \<and> now - t \<le> mo_StepUpTTL (cfg_mfaOptions C)
    else \<not> RoleRequiresMFA (ae_lower E) (usr_Role user) \<or>
       (\<exists>u. u \<in> set (db_users db) \<and> usr_ID u = usr_ID user \<and> usr_DeletedAt u = None \<and>
         (usr_MFAEnforcedFrom u = None \<or>
          (\<exists>t. usr_MFAEnforcedFrom u = Some t \<and> now - t \<le> mo_EnrollmentGrace (cfg_mfaOptions C))))"
proof -
  let ?f = "case sid of Some v \<Rightarrow> v | None \<Rightarrow> ''''"
  obtain d where gate: "MFAGate C E now user ?f db = (Inr MFAGateAllowed, d)"
    using assms(1) by (auto simp: RequireFreshMFA_def split: prod.splits sum.splits MFAGateDecision.splits)
  obtain data mid where data: "GetMFAGateData (usr_ID user) ?f db = (Inr data, mid)"
    and ok: "gate_verdict C E now (usr_Role user) data = MFAGateAllowed"
    using gate assms(2) by (auto simp: MFAGate_def op_runs Let_def split: if_splits)
  note run = gate_data_run [OF data]
  show ?thesis
  proof (cases "gd_Confirmed data")
    case True
    then obtain t where "gd_MFAVerifiedAt data = Some t" "now - t \<le> mo_StepUpTTL (cfg_mfaOptions C)"
      using ok by (auto simp: gate_verdict_def split: option.splits if_splits)
    moreover obtain s where "s \<in> set (db_sessions db)" "as_UserID s = usr_ID user" "as_FamilyID s = ?f"
      "as_RevokedAt s = None" "as_MFAVerifiedAt s = Some t" using run calculation(1) by blast
    moreover have "\<exists>m. find (\<lambda>m. mfa_UserID m = usr_ID user) (db_mfa db) = Some m \<and> mfa_ConfirmedAt m \<noteq> None"
      using run True by blast
    ultimately show ?thesis by (simp only: if_P if_True) blast
  next
    case False
    obtain u where u: "u \<in> set (db_users db)" "usr_ID u = usr_ID user" "usr_DeletedAt u = None"
      "gd_EnforcedFrom data = usr_MFAEnforcedFrom u" using run by blast
    have "\<not> RoleRequiresMFA (ae_lower E) (usr_Role user) \<or> gd_EnforcedFrom data = None \<or>
        (\<exists>t. gd_EnforcedFrom data = Some t \<and> now - t \<le> mo_EnrollmentGrace (cfg_mfaOptions C))"
      using ok False by (auto simp: gate_verdict_def split: option.splits if_splits)
    moreover have "\<not> (\<exists>m. find (\<lambda>m. mfa_UserID m = usr_ID user) (db_mfa db) = Some m \<and> mfa_ConfirmedAt m \<noteq> None)"
      using run False by blast
    ultimately show ?thesis using u unfolding u(4) by (simp only: if_not_P if_False) blast
  qed
qed
theorem step_up_gate_sound_witness:
  "\<exists>db'. RequireFreshMFA demo_cfg demo_env 50 (Inr (Some (demo_user ''u1''))) (Some ''f1'') demo_mfa_db = (Next, db') \<and>
     list_ex (\<lambda>s. as_UserID s = ''u1'' \<and> as_MFAVerifiedAt s = Some 7) (db_sessions demo_mfa_db)"
proof -
  let ?run = "RequireFreshMFA demo_cfg demo_env 50 (Inr (Some (demo_user ''u1''))) (Some ''f1'') demo_mfa_db"
  have "fst ?run = Next"
    by (simp add: RequireFreshMFA_def MFAGate_def GetMFAGateData_def gate_verdict_def op_defs statement_def
        demo_mfa_db_def demo_tables demo_mfa_def demo_cfg_def Let_def)
  then have run: "?run = (Next, snd ?run)" by (metis prod.collapse)
  have wired: "cfg_mfa demo_cfg" by (simp add: demo_cfg_def)
  from step_up_gate_sound [OF run wired]
  have "\<exists>s\<in>set (db_sessions demo_mfa_db). as_UserID s = ''u1'' \<and> as_FamilyID s = ''f1''"
    by (auto simp: demo_mfa_db_def demo_mfa_def demo_user_def split: if_splits)
  then show ?thesis using run by (auto simp: demo_mfa_db_def demo_tables)
qed

section \<open>Lost device\<close>

lemma delete_mfa_run:
  assumes "DeleteMFA u db = (Inr (), db')"
  shows "db_mfa db' = filter (\<lambda>m. mfa_UserID m \<noteq> u) (db_mfa db) \<and>
    db_codes db' = filter (\<lambda>c. rec_UserID c \<noteq> u) (db_codes db) \<and>
    db_sessions db' = db_sessions db \<and> db_users db' = db_users db"
proof -
  obtain fs mid fs' d where
    c: "statement (\<lambda>db. (Inr (), db\<lparr>db_codes := filter (\<lambda>c. rec_UserID c \<noteq> u) (db_codes db)\<rparr>))
        (db\<lparr>db_faults := fs\<rparr>) = (Inr (), d)"
    and m: "statement (\<lambda>db. (Inr (), db\<lparr>db_mfa := filter (\<lambda>m. mfa_UserID m \<noteq> u) (db_mfa db)\<rparr>)) d = (Inr (), mid)"
    and db': "db' = mid\<lparr>db_faults := fs'\<rparr>"
    using transaction_Inr [OF assms [unfolded DeleteMFA_def]] by (auto simp: op_runs)
  from statement_Inr [OF c] statement_Inr [OF m] db' show ?thesis by auto
qed

lemma keeps_mfa_revoke_all: "keeps_op (mfa_tables_are ms cs qs) (RevokeAllAuthSessions u)"
proof -
  have "keeps_op (mfa_tables_are ms cs qs) (bump_token_version u)" "keeps_op (mfa_tables_are ms cs qs) (revoke_where P)" for P
    unfolding bump_token_version_def revoke_where_def
    by (rule keeps_statement [OF mfa_tables_blind]; simp add: keeps_op_def mfa_tables_are_def Let_def)+
  then show ?thesis unfolding RevokeAllAuthSessions_def by (intro op_keeps mfa_tables_blind)
qed

lemma finalize_run:
  assumes "finalizeMFAReset C u db = (Inr (), db')" "cfg_sessions C"
  shows "list_all (\<lambda>m. mfa_UserID m \<noteq> u) (db_mfa db') \<and> list_all (\<lambda>c. rec_UserID c \<noteq> u) (db_codes db') \<and>
    (\<exists>t. db_sessions db' = revoke_rows (\<lambda>r. as_UserID r = u) t (db_sessions db)) \<and>
    db_users db' = bump_rows u (db_users db)"
proof -
  obtain m1 m2 n where del: "DeleteMFA u db = (Inr (), m1)"
    and rev: "RevokeAllAuthSessions u m1 = (Inr n, m2)"
    and read: "op_try (user_GetByID u) (\<lambda>_. op_ret ()) (\<lambda>_. op_ret ()) m2 = (Inr (), db')"
    using assms by (auto simp: finalizeMFAReset_def revoke_all_if_wired_def op_runs)
  have "mfa_tables_are (db_mfa m1) (db_codes m1) (db_challenges m1) m1" by (simp add: mfa_tables_are_def)
  from keeps_run [OF keeps_mfa_revoke_all this rev]
  have m2: "mfa_tables_are (db_mfa m1) (db_codes m1) (db_challenges m1) m2" .
  have "keeps_op P (op_try (user_GetByID u) (\<lambda>_. op_ret ()) (\<lambda>_. op_ret ()))" if "blind P" for P
    using that by (intro op_keeps keeps_reads)
  note keep = this
  from keeps_run [OF keep [OF mfa_tables_blind] m2 read]
  have "mfa_tables_are (db_mfa m1) (db_codes m1) (db_challenges m1) db'" .
  moreover from keeps_tables_run [OF keep [OF blind_tables] read]
  have "db_sessions db' = db_sessions m2" "db_users db' = db_users m2" by simp_all
  ultimately show ?thesis
    using delete_mfa_run [OF del] revoke_all_run [OF rev] by (auto simp: mfa_tables_are_def list_all_iff)
qed

lemma consume_code_spends:
  assumes "ConsumeRecoveryCode u h db = (Inr (), db')"
  shows "(\<exists>c\<in>set (db_codes db). spendable u h c) \<and> db_sessions db' = db_sessions db \<and> db_users db' = db_users db"
proof -
  have "length (filter (spendable u h) (db_codes db)) = 1"
    using statement_Inr [OF assms [unfolded ConsumeRecoveryCode_def]] by (auto simp: Let_def split: if_splits)
  moreover have "db_sessions db' = db_sessions db \<and> db_users db' = db_users db"
    using keeps_tables_run [OF keeps_factor_tables(2) assms] .
  ultimately show ?thesis using one_filter by blast
qed

lemma spend_factors_run:
  assumes "spendResetFactors E c recovery db = (Inr (), db')"
  shows "\<exists>code. normalizeRecoveryCode E recovery = Some code \<and>
    (\<exists>r\<in>set (db_codes db). spendable (ch_UserID c) (hashTokenBytes E code) r) \<and>
    db_sessions db' = db_sessions db \<and> db_users db' = db_users db"
proof -
  obtain code m where n: "normalizeRecoveryCode E recovery = Some code"
    and s: "ConsumeRecoveryCode (ch_UserID c) (hashTokenBytes E code) db = (Inr (), m)"
    and k: "ConsumeMFAChallenge (ch_ID c) m = (Inr (), db')"
    using assms by (auto simp: spendResetFactors_def op_runs split: option.splits)
  from consume_code_spends [OF s] keeps_tables_run [OF keeps_factor_tables(3) k] n show ?thesis by auto
qed

text \<open>
  C27. A device reset succeeds only with all three proofs: the token of an open reset challenge, the
  emailed code before it expires, and an unspent recovery code of that account. It then leaves no
  enrolment and no recovery code of the account, every session of the account revoked, and its
  token version raised; rows of other accounts keep their sessions.
\<close>
theorem device_reset_complete:
  assumes "ConfirmMFAReset C E q resetToken otp recovery db = (Inr (), db')" "cfg_sessions C"
  shows "\<exists>c code. c \<in> set (db_challenges db) \<and>
    ch_TokenHash c = hashMFAChallengeToken E (trim_space resetToken) \<and> ch_Purpose c = MFAChallengePurposeReset \<and>
    ch_ConsumedAt c = None \<and> resetOTPMatches E (rq_now q) c otp \<and>
    normalizeRecoveryCode E recovery = Some code \<and>
    list_ex (spendable (ch_UserID c) (hashTokenBytes E code)) (db_codes db) \<and>
    list_all (\<lambda>m. mfa_UserID m \<noteq> ch_UserID c) (db_mfa db') \<and>
    list_all (\<lambda>k. rec_UserID k \<noteq> ch_UserID c) (db_codes db') \<and>
    (\<exists>t. db_sessions db' = revoke_rows (\<lambda>r. as_UserID r = ch_UserID c) t (db_sessions db)) \<and>
    db_users db' = bump_rows (ch_UserID c) (db_users db)"
proof -
  let ?token = "trim_space resetToken"
  let ?checks = "token_checks (cfg_MFAResetEmail C) (cfg_MFAResetIP C) q ?token"
  obtain uid d where body: "(let token = trim_space resetToken in
      if \<not> cfg_mfa C \<or> token = '''' \<or> maxResetTokenInputBytes < length token
      then caught '''' (op_fail ErrInvalidMFAReset)
      else op_try (op_bind (enforceAuthRateLimit C E (rq_now q) ''mfa_reset_confirm''
             (token_checks (cfg_MFAResetEmail C) (cfg_MFAResetIP C) q token))
             (\<lambda>_. op_try (GetMFAChallengeByTokenHash (hashMFAChallengeToken E token) MFAChallengePurposeReset)
               (\<lambda>e. op_fail (if e = ErrInvalidMFAChallenge then ErrInvalidMFAReset else e)) op_ret))
           (\<lambda>e. caught '''' (op_fail e))
           (\<lambda>c. caught (ch_UserID c)
              (if \<not> resetOTPMatches E (rq_now q) c otp then op_fail ErrInvalidMFAReset
               else op_bind (spendResetFactors E c recovery)
                 (\<lambda>_. finalizeMFAReset C (ch_UserID c))))) db = (Inr (uid, Inr ()), d)"
    and audit: "auditAuth C ''mfa_reset_confirm'' True uid d = (Inr (), db')"
    using with_audit_Inr_run [OF assms(1) [unfolded ConfirmMFAReset_def]] by blast
  obtain u1 m1 c m2 m3 where
    lim: "enforceAuthRateLimit C E (rq_now q) ''mfa_reset_confirm'' ?checks db = (Inr u1, m1)"
    and get: "GetMFAChallengeByTokenHash (hashMFAChallengeToken E ?token) MFAChallengePurposeReset m1 = (Inr c, m2)"
    and otp: "resetOTPMatches E (rq_now q) c otp"
    and spend: "spendResetFactors E c recovery m2 = (Inr (), m3)"
    and fin: "finalizeMFAReset C (ch_UserID c) m3 = (Inr (), d)"
    using body by (auto simp: Let_def op_runs split: if_splits)
  have tabs0: "mfa_tables_are (db_mfa db) (db_codes db) (db_challenges db) db" by (simp add: mfa_tables_are_def)
  from keeps_run [OF keeps_mfa_enforce this lim]
  have tabs1: "mfa_tables_are (db_mfa db) (db_codes db) (db_challenges db) m1" .
  from keeps_run [OF keeps_mfa_reads(2) [OF mfa_tables_blind] this get]
  have tabs2: "mfa_tables_are (db_mfa db) (db_codes db) (db_challenges db) m2" .
  have t: "db_sessions m2 = db_sessions db" "db_users m2 = db_users db"
    using enforce_run [OF lim] keeps_tables_run [OF keeps_mfa_reads(2) [OF blind_tables] get] by auto
  obtain code where code: "normalizeRecoveryCode E recovery = Some code"
      "list_ex (spendable (ch_UserID c) (hashTokenBytes E code)) (db_codes db)"
    and t3: "db_sessions m3 = db_sessions db" "db_users m3 = db_users db"
    using spend_factors_run [OF spend] tabs2 t by (auto simp: mfa_tables_are_def list_ex_iff)
  have au: "db_mfa db' = db_mfa d \<and> db_codes db' = db_codes d \<and> db_sessions db' = db_sessions d \<and> db_users db' = db_users d"
    using audit by (auto simp: auditAuth_def op_ret_def op_try_def statement_def
        split: if_splits list.splits prod.splits sum.splits)
  have ch: "c \<in> set (db_challenges db)" "ch_TokenHash c = hashMFAChallengeToken E ?token"
    "ch_Purpose c = MFAChallengePurposeReset" "ch_ConsumedAt c = None"
    using find_challenge_run [OF get] tabs1 by (simp_all add: mfa_tables_are_def challenge_open_def)
  from ch otp code finalize_run [OF fin assms(2)] au t3 show ?thesis
    by (intro exI [of _ c] exI [of _ code]) simp
qed

definition demo_reset :: MFAChallenge where
  "demo_reset = demo_challenge\<lparr>ch_Purpose := ''reset'', ch_OTPHash := Some ''123456'', ch_OTPExpiresAt := Some 900\<rparr>"

definition demo_reset_db :: auth_db where
  "demo_reset_db = demo_db\<lparr>db_mfa := [demo_mfa], db_challenges := [demo_reset],
     db_codes := [\<lparr>rec_UserID = ''u1'', rec_CodeHash = ''hABCDEFGHIJKLMNOP'', rec_UsedAt = None\<rparr>]\<rparr>"

lemma demo_recovery [demo_eval]:
  "normalizeRecoveryCode demo_env ''ABCD-EFGH-IJKL-MNOP'' = Some ''ABCDEFGHIJKLMNOP''"
proof -
  have "trim_space ''ABCD-EFGH-IJKL-MNOP'' = ''ABCD-EFGH-IJKL-MNOP''"
    by (rule trim_space_plain) (simp_all add: byte_def)
  then show ?thesis
    by (simp add: normalizeRecoveryCode_def demo_env_sel is_base32_char_def byte_def base32_encoded_len_def
        mfaRecoveryCodeBytes_def)
qed

lemmas reset_ops [demo_eval] =
  ConfirmMFAReset_def resetOTPMatches_def spendResetFactors_def ConsumeRecoveryCode_def spendable_def
  finalizeMFAReset_def DeleteMFA_def revoke_all_if_wired_def demo_reset_db_def demo_reset_def

definition demo_quiet_cfg :: auth_cfg where
  "demo_quiet_cfg = demo_cfg\<lparr>cfg_rateLimiter := False, cfg_audit := False\<rparr>"

theorem device_reset_complete_witness:
  "\<exists>db'. ConfirmMFAReset demo_quiet_cfg demo_env (demo_req ''s9'' CHR ''c'') (demo_token CHR ''m'') ''123456''
       ''ABCD-EFGH-IJKL-MNOP'' demo_reset_db = (Inr (), db') \<and>
     list_all (\<lambda>m. mfa_UserID m \<noteq> ''u1'') (db_mfa db') \<and> map usr_TokenVersion (db_users db') = [2, 1]"
proof -
  let ?run = "ConfirmMFAReset demo_quiet_cfg demo_env (demo_req ''s9'' CHR ''c'') (demo_token CHR ''m'') ''123456''
       ''ABCD-EFGH-IJKL-MNOP'' demo_reset_db"
  have ok: "\<not> isl (fst ?run)" by (simp add: demo_eval demo_quiet_cfg_def)
  obtain r db' where rd: "?run = (r, db')" by (rule prod.exhaust)
  have "r = Inr ()" using ok unfolding rd by (cases r) simp_all
  with rd have run: "?run = (Inr (), db')" by (simp only:)
  have wired: "cfg_sessions demo_quiet_cfg" by (simp add: demo_quiet_cfg_def demo_cfg_def)
  obtain c where c: "c \<in> set (db_challenges demo_reset_db)"
    and out: "list_all (\<lambda>m. mfa_UserID m \<noteq> ch_UserID c) (db_mfa db')"
      "db_users db' = bump_rows (ch_UserID c) (db_users demo_reset_db)"
    using device_reset_complete [OF run wired] by (elim exE conjE)
  have u: "ch_UserID c = ''u1''" using c by (simp add: demo_reset_db_def demo_reset_def demo_challenge_def)
  have "map usr_TokenVersion (db_users db') = [2, 1]"
    unfolding out(2) u by (simp add: demo_reset_db_def demo_tables bump_rows_def)
  with run out(1) [unfolded u] show ?thesis by (intro exI [of _ db'] conjI)
qed

end
