(* ===== verification/Account_Use.thy ===== *)
theory Account_Use
  imports Account_Store Mfa
begin

text \<open>
  The account use cases of \<open>usecase/user/user.go\<close>: registration, address verification, password
  reset and change, address change, deletion and role assignment. The random draws of a request
  and the outcome of its email are fields of \<open>account_draws\<close>; \<open>ae_hash\<close> is bcrypt at a drawn salt
  (its cost is part of the parameter), \<open>None\<close> where it reports an error. An email that is only a
  notification changes no table and is left out.
\<close>

section \<open>Configuration and draws\<close>

record account_cfg =
  ac_auth :: auth_cfg
  ac_verificationTTL :: int
  ac_verificationOTPTTL :: int
  ac_resendCooldown :: int
  ac_passwordResetTTL :: int
  ac_passwordResetCooldown :: int
  ac_emailChangeTTL :: int
  ac_emailChangeOTPTTL :: int
  ac_emailChangeCooldown :: int
  ac_providerErasure :: bool
  ac_RegisterEmail :: RateLimitRule
  ac_RegisterIP :: RateLimitRule
  ac_ForgotPasswordEmail :: RateLimitRule
  ac_ForgotPasswordIP :: RateLimitRule
  ac_VerifyEmailToken :: RateLimitRule
  ac_VerifyEmailOTPEmail :: RateLimitRule
  ac_VerifyEmailOTPIP :: RateLimitRule
  ac_ResendVerificationEmail :: RateLimitRule
  ac_ResendVerificationIP :: RateLimitRule
  ac_ResetPasswordToken :: RateLimitRule
  ac_ResetPasswordIP :: RateLimitRule
  ac_ChangePasswordUser :: RateLimitRule
  ac_ChangePasswordIP :: RateLimitRule
  ac_ChangeEmailUser :: RateLimitRule
  ac_ChangeEmailIP :: RateLimitRule
  ac_ChangeEmailToken :: RateLimitRule
  ac_DeleteAccountUser :: RateLimitRule
  ac_DeleteAccountIP :: RateLimitRule

record account_draws =
  ad_userID :: string
  ad_tokenID :: string
  ad_token :: "string option"
  ad_otp :: "int option"
  ad_otpSalt :: string
  ad_salt :: string
  ad_mailed :: bool
  ad_erasure :: "OneSignalErasureCreate option"

definition limited ::
  "account_cfg \<Rightarrow> auth_env \<Rightarrow> session_request \<Rightarrow> string \<Rightarrow> (string \<times> string \<times> RateLimitRule) \<Rightarrow> RateLimitRule \<Rightarrow> unit op"
where
  "limited C E q action key ipRule =
     enforceAuthRateLimit (ac_auth C) E (rq_now q) action
       [\<lparr>rc_keyType = fst key, rc_value = fst (snd key), rc_rule = snd (snd key)\<rparr>,
        \<lparr>rc_keyType = ''ip'', rc_value = rq_ClientIP q, rc_rule = ipRule\<rparr>]"

definition quietly :: "'a op \<Rightarrow> unit op" where
  "quietly m = op_try m (\<lambda>_. op_ret ()) (\<lambda>_. op_ret ())"

section \<open>Validation\<close>

text \<open>
  \<open>utf8.RuneCountInString\<close>: the length in bytes of the first rune; a byte that starts no valid
  encoding counts as one rune.
\<close>

definition cont_byte :: "char \<Rightarrow> bool" where
  "cont_byte c \<longleftrightarrow> 128 \<le> byte c \<and> byte c < 192"

definition second_ok :: "nat \<Rightarrow> nat \<Rightarrow> bool" where
  "second_ok a b \<longleftrightarrow>
     (if a = 224 then 160 \<le> b \<and> b < 192 else if a = 237 then 128 \<le> b \<and> b < 160
      else if a = 240 then 144 \<le> b \<and> b < 192 else if a = 244 then 128 \<le> b \<and> b < 144
      else 128 \<le> b \<and> b < 192)"

definition rune_bytes :: "string \<Rightarrow> nat" where
  "rune_bytes s =
     (case s of
        a # b # rest \<Rightarrow>
          if 194 \<le> byte a \<and> byte a \<le> 223 \<and> cont_byte b then 2
          else if 224 \<le> byte a \<and> byte a \<le> 239 \<and> second_ok (byte a) (byte b) \<and>
            rest \<noteq> [] \<and> cont_byte (rest ! 0) then 3
          else if 240 \<le> byte a \<and> byte a \<le> 244 \<and> second_ok (byte a) (byte b) \<and>
            2 \<le> length rest \<and> cont_byte (rest ! 0) \<and> cont_byte (rest ! 1) then 4
          else 1
      | _ \<Rightarrow> 1)"

lemma rune_bytes_pos: "0 < rune_bytes s"
  by (auto simp: rune_bytes_def split: list.split)

function rune_count :: "string \<Rightarrow> nat" where
  "rune_count s = (if s = [] then 0 else Suc (rune_count (drop (rune_bytes s) s)))"
  by pat_completeness auto
termination
  by (relation "measure length") (simp_all add: rune_bytes_pos)

declare rune_count.simps [simp del]

definition minUsernameRunes :: nat where "minUsernameRunes = 3"
definition maxUsernameRunes :: nat where "maxUsernameRunes = 255"

definition validateRegisterInput :: "auth_env \<Rightarrow> string \<Rightarrow> string \<Rightarrow> string \<Rightarrow> (string \<times> string) option" where
  "validateRegisterInput E username email password =
     (let name = trim_space username; n = rune_count name in
      if n < minUsernameRunes \<or> maxUsernameRunes < n then None
      else case validateEmailInput E email of
        None \<Rightarrow> None
      | Some e \<Rightarrow> if \<not> validPassword password then None else Some (name, e))"

definition validStoredOTP :: "int \<Rightarrow> auth_token \<Rightarrow> bool" where
  "validStoredOTP now t \<longleftrightarrow> trim_space (tk_OTPHash t) \<noteq> '''' \<and>
     (case tk_OTPExpiresAt t of None \<Rightarrow> False | Some x \<Rightarrow> tk_UsedAt t = None \<and> now < x \<and> now < tk_ExpiresAt t)"

section \<open>Tokens\<close>

definition verificationTokenBytes :: nat where "verificationTokenBytes = 32"
definition passwordResetTokenBytes :: nat where "passwordResetTokenBytes = 32"
definition emailChangeTokenBytes :: nat where "emailChangeTokenBytes = 32"
definition otpMaxValue :: int where "otpMaxValue = 1000000"

definition hashVerificationToken :: "auth_env \<Rightarrow> string \<Rightarrow> string option" where
  "hashVerificationToken E token =
     (case ae_decode64 E (trim_space token) of
        None \<Rightarrow> None
      | Some raw \<Rightarrow> if length raw \<noteq> verificationTokenBytes then None else Some (hashTokenBytes E raw))"

definition hashPasswordResetToken :: "auth_env \<Rightarrow> string \<Rightarrow> string option" where
  "hashPasswordResetToken E token =
     (case ae_decode64 E (trim_space token) of
        None \<Rightarrow> None
      | Some raw \<Rightarrow> if length raw \<noteq> passwordResetTokenBytes then None else Some (hashTokenBytes E raw))"

definition hashEmailChangeToken :: "auth_env \<Rightarrow> string \<Rightarrow> string option" where
  "hashEmailChangeToken E token =
     (case ae_decode64 E (trim_space token) of
        None \<Rightarrow> None
      | Some raw \<Rightarrow> if length raw \<noteq> emailChangeTokenBytes then None else Some (hashTokenBytes E raw))"

text \<open>The draw of \<open>rand.Int\<close> lies below \<open>otpMaxValue\<close>; it is printed with \<open>%0*d\<close>.\<close>

definition newOTP :: "int \<Rightarrow> string" where
  "newOTP v = (let s = show_int v in replicate (otpDigits - length s) CHR ''0'' @ s)"

definition newOTPHash :: "auth_env \<Rightarrow> account_draws \<Rightarrow> auth_error + string \<times> string" where
  "newOTPHash E D =
     (case ad_otp D of
        None \<Rightarrow> Inl ErrRandom
      | Some v \<Rightarrow> (case ae_hash E (ad_otpSalt D) (newOTP v) of
          None \<Rightarrow> Inl ErrCrypto
        | Some h \<Rightarrow> Inr (newOTP v, h)))"

definition newVerificationToken ::
  "account_cfg \<Rightarrow> auth_env \<Rightarrow> account_draws \<Rightarrow> string \<Rightarrow> int \<Rightarrow> auth_error + string \<times> string \<times> auth_token"
where
  "newVerificationToken C E D userID now =
     (case ad_token D of
        None \<Rightarrow> Inl ErrRandom
      | Some raw \<Rightarrow> (case newOTPHash E D of
          Inl e \<Rightarrow> Inl e
        | Inr (otp, otpHash) \<Rightarrow> Inr (ae_encode64 E raw, otp,
            \<lparr>tk_ID = ad_tokenID D, tk_UserID = userID, tk_NewEmail = '''',
             tk_TokenHash = hashTokenBytes E raw, tk_OTPHash = otpHash,
             tk_OTPExpiresAt = Some (now + ac_verificationOTPTTL C),
             tk_ExpiresAt = now + ac_verificationTTL C, tk_UsedAt = None, tk_SentAt = now,
             tk_CreatedAt = now\<rparr>)))"

definition newPasswordResetToken ::
  "account_cfg \<Rightarrow> auth_env \<Rightarrow> account_draws \<Rightarrow> string \<Rightarrow> int \<Rightarrow> auth_error + string \<times> auth_token"
where
  "newPasswordResetToken C E D userID now =
     (case ad_token D of
        None \<Rightarrow> Inl ErrRandom
      | Some raw \<Rightarrow> Inr (ae_encode64 E raw,
          \<lparr>tk_ID = ad_tokenID D, tk_UserID = userID, tk_NewEmail = '''',
           tk_TokenHash = hashTokenBytes E raw, tk_OTPHash = '''', tk_OTPExpiresAt = None,
           tk_ExpiresAt = now + ac_passwordResetTTL C, tk_UsedAt = None, tk_SentAt = now,
           tk_CreatedAt = now\<rparr>))"

definition newEmailChangeToken ::
  "account_cfg \<Rightarrow> auth_env \<Rightarrow> account_draws \<Rightarrow> string \<Rightarrow> string \<Rightarrow> int \<Rightarrow> auth_error + string \<times> string \<times> auth_token"
where
  "newEmailChangeToken C E D userID newEmail now =
     (case ad_token D of
        None \<Rightarrow> Inl ErrRandom
      | Some raw \<Rightarrow> (case newOTPHash E D of
          Inl e \<Rightarrow> Inl e
        | Inr (otp, otpHash) \<Rightarrow> Inr (ae_encode64 E raw, otp,
            \<lparr>tk_ID = ad_tokenID D, tk_UserID = userID, tk_NewEmail = newEmail,
             tk_TokenHash = hashTokenBytes E raw, tk_OTPHash = otpHash,
             tk_OTPExpiresAt = Some (now + ac_emailChangeOTPTTL C),
             tk_ExpiresAt = now + ac_emailChangeTTL C, tk_UsedAt = None, tk_SentAt = now,
             tk_CreatedAt = now\<rparr>)))"

section \<open>Registration and verification of the address\<close>

text \<open>Sending fails with \<open>ErrEmailDeliveryFailed\<close>, after the tokens just stored are revoked.\<close>

definition mail_or_revoke :: "account_draws \<Rightarrow> unit op \<Rightarrow> unit op" where
  "mail_or_revoke D revoke =
     (if ad_mailed D then op_ret () else op_bind (quietly revoke) (\<lambda>_. op_fail ErrEmailDeliveryFailed))"

definition new_user :: "account_draws \<Rightarrow> string \<Rightarrow> string \<Rightarrow> string \<Rightarrow> user_row" where
  "new_user D username email hash =
     \<lparr>usr_ID = ad_userID D, usr_Email = email, usr_Role = UserRoleUser, usr_TokenVersion = 0,
      usr_DeletedAt = None, usr_PasswordHash = hash, usr_EmailVerified = False,
      usr_MFAEnforcedFrom = None, usr_Username = username, usr_EmailVerifiedAt = None\<rparr>"

definition register_user ::
  "account_cfg \<Rightarrow> auth_env \<Rightarrow> session_request \<Rightarrow> account_draws \<Rightarrow> user_row \<Rightarrow> user_row op"
where
  "register_user C E q D user =
     (case newVerificationToken C E D (usr_ID user) (rq_now q) of
        Inl e \<Rightarrow> op_fail e
      | Inr (rawToken, otp, t) \<Rightarrow>
          op_bind (StoreWithVerificationToken E user t) (\<lambda>_.
          op_bind (mail_or_revoke D (RevokeUnusedVerificationTokens (usr_ID user))) (\<lambda>_. op_ret user)))"

definition Register ::
  "account_cfg \<Rightarrow> auth_env \<Rightarrow> session_request \<Rightarrow> account_draws \<Rightarrow> string \<Rightarrow> string \<Rightarrow> string \<Rightarrow> user_row op"
where
  "Register C E q D username email password = with_audit (ac_auth C) ''register''
     (case validateRegisterInput E username email password of
        None \<Rightarrow> caught '''' (op_fail ErrInvalidAuthInput)
      | Some (name, e) \<Rightarrow>
          op_try (limited C E q ''register'' (''email'', e, ac_RegisterEmail C) (ac_RegisterIP C))
            (\<lambda>err. caught '''' (op_fail err))
            (\<lambda>_. case ae_hash E (ad_salt D) password of
               None \<Rightarrow> caught '''' (op_fail ErrCrypto)
             | Some hash \<Rightarrow> caught (ad_userID D) (register_user C E q D (new_user D name e hash))))"

definition verifyEmailWithToken :: "account_cfg \<Rightarrow> auth_env \<Rightarrow> session_request \<Rightarrow> string \<Rightarrow> user_row op" where
  "verifyEmailWithToken C E q token =
     (if maxResetTokenInputBytes < length token then op_fail ErrInvalidVerificationToken
      else op_bind (limited C E q ''verify_email'' (''token'', token, ac_VerifyEmailToken C) (ac_VerifyEmailOTPIP C)) (\<lambda>_.
        case hashVerificationToken E token of
          None \<Rightarrow> op_fail ErrInvalidVerificationToken
        | Some h \<Rightarrow> op_try (GetVerificationTokenByHash h)
            (\<lambda>e. op_fail (if e = ErrVerificationTokenNotFound then ErrInvalidVerificationToken else e))
            (\<lambda>t. if tk_UsedAt t \<noteq> None \<or> \<not> rq_now q < tk_ExpiresAt t then op_fail ErrInvalidVerificationToken
                 else VerifyEmailWithToken (tk_ID t) (tk_UserID t))))"

definition verifyEmailWithOTP ::
  "account_cfg \<Rightarrow> auth_env \<Rightarrow> session_request \<Rightarrow> string \<Rightarrow> string \<Rightarrow> user_row op"
where
  "verifyEmailWithOTP C E q email otp =
     (case validateEmailInput E email of
        None \<Rightarrow> op_fail ErrInvalidAuthInput
      | Some e \<Rightarrow> (case validateOTPInput otp of
          None \<Rightarrow> op_fail ErrInvalidAuthInput
        | Some code \<Rightarrow>
            op_bind (limited C E q ''verify_email'' (''email'', e, ac_VerifyEmailOTPEmail C) (ac_VerifyEmailOTPIP C)) (\<lambda>_.
            op_try (user_GetByEmail e)
              (\<lambda>x. op_fail (if x = ErrUserNotFound then ErrInvalidVerificationToken else x))
              (\<lambda>user. op_try (GetLatestUnusedVerificationToken (usr_ID user))
                (\<lambda>x. op_fail (if x = ErrVerificationTokenNotFound then ErrInvalidVerificationToken else x))
                (\<lambda>t. if \<not> validStoredOTP (rq_now q) t \<or> \<not> ae_bcrypt E (tk_OTPHash t) code
                     then op_fail ErrInvalidVerificationToken
                     else VerifyEmailWithToken (tk_ID t) (tk_UserID t))))))"

text \<open>The audit log names the user once the address is verified.\<close>

definition VerifyEmail ::
  "account_cfg \<Rightarrow> auth_env \<Rightarrow> session_request \<Rightarrow> string \<Rightarrow> string \<Rightarrow> string \<Rightarrow> unit op"
where
  "VerifyEmail C E q rawToken rawEmail rawOTP = with_audit (ac_auth C) ''verify_email''
     (let token = trim_space rawToken; email = trim_space rawEmail; otp = trim_space rawOTP in
      if token \<noteq> '''' \<and> (email \<noteq> '''' \<or> otp \<noteq> '''') then caught '''' (op_fail ErrInvalidAuthInput)
      else if token = '''' \<and> email = '''' \<and> otp = '''' then caught '''' (op_fail ErrInvalidAuthInput)
      else op_try (if token \<noteq> '''' then verifyEmailWithToken C E q token else verifyEmailWithOTP C E q email otp)
        (\<lambda>e. caught '''' (op_fail e))
        (\<lambda>user. caught (usr_ID user) (op_ret ())))"

text \<open>The cooldown between two emails; reading no unused token is no error here.\<close>

definition cooled_down :: "int \<Rightarrow> int \<Rightarrow> auth_error \<Rightarrow> auth_error \<Rightarrow> auth_token op \<Rightarrow> unit op" where
  "cooled_down now cooldown notFound limitedBy latest = op_try latest
     (\<lambda>e. if e = notFound then op_ret () else op_fail e)
     (\<lambda>t. if now < tk_SentAt t + cooldown then op_fail limitedBy else op_ret ())"

definition resend_to :: "account_cfg \<Rightarrow> auth_env \<Rightarrow> session_request \<Rightarrow> account_draws \<Rightarrow> user_row \<Rightarrow> unit op" where
  "resend_to C E q D user =
     (if usr_EmailVerified user then op_ret ()
      else op_bind (cooled_down (rq_now q) (ac_resendCooldown C) ErrVerificationTokenNotFound
          ErrVerificationRateLimited (GetLatestUnusedVerificationToken (usr_ID user))) (\<lambda>_.
        case newVerificationToken C E D (usr_ID user) (rq_now q) of
          Inl e \<Rightarrow> op_fail e
        | Inr (rawToken, otp, t) \<Rightarrow> op_bind (ReplaceVerificationToken t)
            (\<lambda>_. mail_or_revoke D (RevokeUnusedVerificationTokens (usr_ID user)))))"

definition ResendEmailVerification ::
  "account_cfg \<Rightarrow> auth_env \<Rightarrow> session_request \<Rightarrow> account_draws \<Rightarrow> string \<Rightarrow> unit op"
where
  "ResendEmailVerification C E q D email = with_audit (ac_auth C) ''resend_verification''
     (case validateEmailInput E email of
        None \<Rightarrow> caught '''' (op_fail ErrInvalidAuthInput)
      | Some e \<Rightarrow>
          op_try (limited C E q ''resend_verification'' (''email'', e, ac_ResendVerificationEmail C) (ac_ResendVerificationIP C))
            (\<lambda>err. caught '''' (op_fail err))
            (\<lambda>_. op_try (user_GetByEmail e)
               (\<lambda>err. caught '''' (if err = ErrUserNotFound then op_ret () else op_fail err))
               (\<lambda>user. caught (usr_ID user) (resend_to C E q D user))))"

section \<open>Passwords\<close>

definition forgot_for :: "account_cfg \<Rightarrow> auth_env \<Rightarrow> session_request \<Rightarrow> account_draws \<Rightarrow> user_row \<Rightarrow> unit op" where
  "forgot_for C E q D user =
     op_bind (cooled_down (rq_now q) (ac_passwordResetCooldown C) ErrPasswordResetTokenNotFound
         ErrPasswordResetRateLimited (GetLatestUnusedPasswordResetToken (usr_ID user))) (\<lambda>_.
       case newPasswordResetToken C E D (usr_ID user) (rq_now q) of
         Inl e \<Rightarrow> op_fail e
       | Inr (rawToken, t) \<Rightarrow> op_bind (ReplacePasswordResetToken t)
           (\<lambda>_. mail_or_revoke D (RevokeUnusedPasswordResetTokens (usr_ID user))))"

definition ForgotPassword ::
  "account_cfg \<Rightarrow> auth_env \<Rightarrow> session_request \<Rightarrow> account_draws \<Rightarrow> string \<Rightarrow> unit op"
where
  "ForgotPassword C E q D email = with_audit (ac_auth C) ''forgot_password''
     (case validateEmailInput E email of
        None \<Rightarrow> caught '''' (op_fail ErrInvalidAuthInput)
      | Some e \<Rightarrow>
          op_try (limited C E q ''forgot_password'' (''email'', e, ac_ForgotPasswordEmail C) (ac_ForgotPasswordIP C))
            (\<lambda>err. caught '''' (op_fail err))
            (\<lambda>_. op_try (user_GetByEmail e)
               (\<lambda>err. caught '''' (if err = ErrUserNotFound then op_ret () else op_fail err))
               (\<lambda>user. caught (usr_ID user) (forgot_for C E q D user))))"

definition reset_with ::
  "account_cfg \<Rightarrow> auth_env \<Rightarrow> session_request \<Rightarrow> account_draws \<Rightarrow> string \<Rightarrow> string \<Rightarrow> user_row op"
where
  "reset_with C E q D token password =
     op_bind (limited C E q ''reset_password'' (''token'', token, ac_ResetPasswordToken C) (ac_ResetPasswordIP C)) (\<lambda>_.
       case hashPasswordResetToken E token of
         None \<Rightarrow> op_fail ErrInvalidPasswordResetToken
       | Some h \<Rightarrow> op_try (GetPasswordResetTokenByHash h)
           (\<lambda>e. op_fail (if e = ErrPasswordResetTokenNotFound then ErrInvalidPasswordResetToken else e))
           (\<lambda>t. if tk_UsedAt t \<noteq> None \<or> \<not> rq_now q < tk_ExpiresAt t then op_fail ErrInvalidPasswordResetToken
                else case ae_hash E (ad_salt D) password of
                  None \<Rightarrow> op_fail ErrCrypto
                | Some hash \<Rightarrow> ResetPasswordWithToken (tk_ID t) (tk_UserID t) hash))"

definition ResetPassword ::
  "account_cfg \<Rightarrow> auth_env \<Rightarrow> session_request \<Rightarrow> account_draws \<Rightarrow> string \<Rightarrow> string \<Rightarrow> unit op"
where
  "ResetPassword C E q D rawToken password = with_audit (ac_auth C) ''reset_password''
     (if \<not> validPassword password then caught '''' (op_fail ErrInvalidAuthInput)
      else let token = trim_space rawToken in
        if maxResetTokenInputBytes < length token then caught '''' (op_fail ErrInvalidPasswordResetToken)
        else op_try (reset_with C E q D token password)
          (\<lambda>e. caught '''' (op_fail e))
          (\<lambda>user. caught (usr_ID user) (op_ret ())))"

definition userWithVerifiedPassword :: "auth_env \<Rightarrow> string \<Rightarrow> string \<Rightarrow> user_row op" where
  "userWithVerifiedPassword E userID currentPassword = op_try (user_GetByID userID)
     (\<lambda>e. op_fail (if e = ErrUserNotFound then ErrInvalidCredentials else e))
     (\<lambda>user. if \<not> ae_bcrypt E (usr_PasswordHash user) currentPassword then op_fail ErrInvalidCredentials
             else op_ret user)"

definition change_password_of ::
  "account_cfg \<Rightarrow> auth_env \<Rightarrow> session_request \<Rightarrow> account_draws \<Rightarrow> string \<Rightarrow> string \<Rightarrow> LoginResult op"
where
  "change_password_of C E q D userID newPassword =
     (case ae_hash E (ad_salt D) newPassword of
        None \<Rightarrow> op_fail ErrCrypto
      | Some hash \<Rightarrow> op_try (ChangePassword_tx userID hash)
          (\<lambda>e. op_fail (if e = ErrUserNotFound then ErrInvalidCredentials else e))
          (\<lambda>user. issueSession (ac_auth C) E q user))"

definition ChangePassword ::
  "account_cfg \<Rightarrow> auth_env \<Rightarrow> session_request \<Rightarrow> account_draws \<Rightarrow> string \<Rightarrow> string \<Rightarrow> string \<Rightarrow> LoginResult op"
where
  "ChangePassword C E q D userID currentPassword newPassword = with_audit (ac_auth C) ''change_password''
     (if trim_space userID = '''' \<or> \<not> validPassword currentPassword \<or> \<not> validPassword newPassword
      then caught (trim_space userID) (op_fail ErrInvalidAuthInput)
      else op_try (op_bind (limited C E q ''change_password'' (''user'', userID, ac_ChangePasswordUser C) (ac_ChangePasswordIP C))
             (\<lambda>_. userWithVerifiedPassword E userID currentPassword))
           (\<lambda>e. caught (trim_space userID) (op_fail e))
           (\<lambda>user. caught (usr_ID user) (change_password_of C E q D (usr_ID user) newPassword)))"

section \<open>Change of the address\<close>

definition email_free :: "string \<Rightarrow> string \<Rightarrow> unit op" where
  "email_free userID newEmail = op_try (user_GetByEmail newEmail)
     (\<lambda>e. if e = ErrUserNotFound then op_ret () else op_fail e)
     (\<lambda>other. if usr_ID other \<noteq> userID then op_fail ErrUserAlreadyExists else op_ret ())"

definition request_change_for ::
  "account_cfg \<Rightarrow> auth_env \<Rightarrow> session_request \<Rightarrow> account_draws \<Rightarrow> user_row \<Rightarrow> string \<Rightarrow> string \<Rightarrow> unit op"
where
  "request_change_for C E q D user currentPassword newEmail =
     (if \<not> ae_bcrypt E (usr_PasswordHash user) currentPassword then op_fail ErrInvalidCredentials
      else if ae_equalFold E (usr_Email user) newEmail then op_fail ErrInvalidAuthInput
      else op_bind (email_free (usr_ID user) newEmail) (\<lambda>_.
        op_bind (cooled_down (rq_now q) (ac_emailChangeCooldown C) ErrEmailChangeTokenNotFound
          ErrEmailChangeRateLimited (GetLatestUnusedEmailChangeToken (usr_ID user))) (\<lambda>_.
        case newEmailChangeToken C E D (usr_ID user) newEmail (rq_now q) of
          Inl e \<Rightarrow> op_fail e
        | Inr (rawToken, otp, t) \<Rightarrow> op_bind (ReplaceEmailChangeToken t)
            (\<lambda>_. mail_or_revoke D (RevokeUnusedEmailChangeTokens (usr_ID user))))))"

definition RequestEmailChange ::
  "account_cfg \<Rightarrow> auth_env \<Rightarrow> session_request \<Rightarrow> account_draws \<Rightarrow> string \<Rightarrow> string \<Rightarrow> string \<Rightarrow> unit op"
where
  "RequestEmailChange C E q D userID currentPassword newEmail = with_audit (ac_auth C) ''change_email_request''
     (if trim_space userID = '''' \<or> \<not> validPassword currentPassword
      then caught (trim_space userID) (op_fail ErrInvalidAuthInput)
      else case validateEmailInput E newEmail of
        None \<Rightarrow> caught (trim_space userID) (op_fail ErrInvalidAuthInput)
      | Some e \<Rightarrow>
          op_try (op_bind (limited C E q ''change_email_request'' (''user'', userID, ac_ChangeEmailUser C) (ac_ChangeEmailIP C))
              (\<lambda>_. op_try (user_GetByID userID)
                 (\<lambda>err. op_fail (if err = ErrUserNotFound then ErrInvalidCredentials else err)) op_ret))
            (\<lambda>err. caught (trim_space userID) (op_fail err))
            (\<lambda>user. caught (usr_ID user) (request_change_for C E q D user currentPassword e)))"

definition verifyEmailChangeWithToken ::
  "account_cfg \<Rightarrow> auth_env \<Rightarrow> session_request \<Rightarrow> string \<Rightarrow> string \<Rightarrow> EmailChangeResult op"
where
  "verifyEmailChangeWithToken C E q userID token =
     (if maxResetTokenInputBytes < length token then op_fail ErrInvalidEmailChangeToken
      else op_bind (limited C E q ''change_email_verify'' (''token'', token, ac_ChangeEmailToken C) (ac_ChangeEmailIP C)) (\<lambda>_.
        case hashEmailChangeToken E token of
          None \<Rightarrow> op_fail ErrInvalidEmailChangeToken
        | Some h \<Rightarrow> op_try (GetEmailChangeTokenByHash h)
            (\<lambda>e. op_fail (if e = ErrEmailChangeTokenNotFound then ErrInvalidEmailChangeToken else e))
            (\<lambda>t. if tk_UserID t \<noteq> userID \<or> tk_UsedAt t \<noteq> None \<or> \<not> rq_now q < tk_ExpiresAt t
                 then op_fail ErrInvalidEmailChangeToken
                 else ChangeEmailWithToken E (tk_ID t) userID (tk_NewEmail t))))"

definition verifyEmailChangeWithOTP ::
  "account_cfg \<Rightarrow> auth_env \<Rightarrow> session_request \<Rightarrow> string \<Rightarrow> string \<Rightarrow> EmailChangeResult op"
where
  "verifyEmailChangeWithOTP C E q userID otp =
     (case validateOTPInput otp of
        None \<Rightarrow> op_fail ErrInvalidAuthInput
      | Some code \<Rightarrow>
          op_bind (limited C E q ''change_email_verify'' (''user'', userID, ac_ChangeEmailToken C) (ac_ChangeEmailIP C)) (\<lambda>_.
          op_try (GetLatestUnusedEmailChangeToken userID)
            (\<lambda>e. op_fail (if e = ErrEmailChangeTokenNotFound then ErrInvalidEmailChangeToken else e))
            (\<lambda>t. if \<not> validStoredOTP (rq_now q) t \<or> \<not> ae_bcrypt E (tk_OTPHash t) code
                 then op_fail ErrInvalidEmailChangeToken
                 else ChangeEmailWithToken E (tk_ID t) userID (tk_NewEmail t))))"

definition VerifyEmailChange ::
  "account_cfg \<Rightarrow> auth_env \<Rightarrow> session_request \<Rightarrow> string \<Rightarrow> string \<Rightarrow> string \<Rightarrow> LoginResult op"
where
  "VerifyEmailChange C E q userID rawToken rawOTP = with_audit (ac_auth C) ''change_email_verify''
     (let uid = trim_space userID; token = trim_space rawToken; otp = trim_space rawOTP in
      if uid = '''' \<or> token \<noteq> '''' \<and> otp \<noteq> '''' \<or> token = '''' \<and> otp = ''''
      then caught uid (op_fail ErrInvalidAuthInput)
      else op_try (if token \<noteq> '''' then verifyEmailChangeWithToken C E q userID token
                   else verifyEmailChangeWithOTP C E q userID otp)
        (\<lambda>e. caught uid (op_fail e))
        (\<lambda>r. caught (usr_ID (ec_User r)) (issueSession (ac_auth C) E q (ec_User r))))"

section \<open>Deletion and roles\<close>

text \<open>\<open>Prepare\<close> of the provider erasure is drawn; waking its worker changes no table.\<close>

definition delete_account_of ::
  "account_cfg \<Rightarrow> auth_env \<Rightarrow> account_draws \<Rightarrow> user_row \<Rightarrow> string \<Rightarrow> unit op"
where
  "delete_account_of C E D user currentPassword =
     (if \<not> ae_bcrypt E (usr_PasswordHash user) currentPassword then op_fail ErrInvalidCredentials
      else if ac_providerErasure C then
        (case ad_erasure D of
           None \<Rightarrow> op_fail ErrCrypto
         | Some erasure \<Rightarrow> DeleteAccount_tx E (usr_ID user) (Some erasure))
      else DeleteAccount_tx E (usr_ID user) None)"

definition DeleteAccount ::
  "account_cfg \<Rightarrow> auth_env \<Rightarrow> session_request \<Rightarrow> account_draws \<Rightarrow> string \<Rightarrow> string \<Rightarrow> unit op"
where
  "DeleteAccount C E q D userID currentPassword = with_audit (ac_auth C) ''account_delete''
     (if trim_space userID = '''' \<or> \<not> validPassword currentPassword
      then caught (trim_space userID) (op_fail ErrInvalidAuthInput)
      else op_try (op_bind (limited C E q ''account_delete'' (''user'', userID, ac_DeleteAccountUser C) (ac_DeleteAccountIP C))
             (\<lambda>_. op_try (user_GetByID userID)
                (\<lambda>e. op_fail (if e = ErrUserNotFound then ErrInvalidCredentials else e)) op_ret))
           (\<lambda>e. caught (trim_space userID) (op_fail e))
           (\<lambda>user. caught (usr_ID user) (delete_account_of C E D user currentPassword)))"

definition SetRoleByEmail ::
  "account_cfg \<Rightarrow> auth_env \<Rightarrow> string \<Rightarrow> string \<Rightarrow> string \<Rightarrow> user_row op"
where
  "SetRoleByEmail C E actorEmail email role = with_audit (ac_auth C) ''role_change''
     (let actor = ae_lower E (trim_space actorEmail); target = ae_lower E (trim_space email) in
      case NormalizeUserRole (ae_lower E) (ae_lower E (trim_space role)) of
        Inl e \<Rightarrow> caught '''' (op_fail (ErrRole e))
      | Inr r \<Rightarrow>
          if actor \<noteq> '''' \<and> actor = target then caught '''' (op_fail ErrSelfRoleChange)
          else op_try (SetRoleByEmail_tx E target r)
            (\<lambda>e. caught '''' (op_fail e))
            (\<lambda>change. caught (usr_ID (rc_User change)) (op_ret (rc_User change))))"

end
