(* ===== verification/Account_Run.thy ===== *)
theory Account_Run
  imports Account_Use Mfa_Access
begin

text \<open>
  How the account statements and transactions change the tables. \<open>core\<close> forgets what the rate
  limiter, the lockout, the audit log and the fault schedule write, so that a read, a check or an
  audit entry leaves it alone, and one equation tells what a successful transaction did to all the
  other tables.
\<close>

section \<open>What the checks leave alone\<close>

definition core :: "auth_db \<Rightarrow> auth_db" where
  "core db = db\<lparr>db_limits := [], db_lockouts := [], db_audit := [], db_faults := []\<rparr>"

lemma core_sel [simp]:
  "db_users (core db) = db_users db" "db_sessions (core db) = db_sessions db"
  "db_clock (core db) = db_clock db" "db_mfa (core db) = db_mfa db" "db_codes (core db) = db_codes db"
  "db_challenges (core db) = db_challenges db" "db_tokens (core db) = db_tokens db"
  "db_profiles (core db) = db_profiles db" "db_owned (core db) = db_owned db"
  "db_erasures (core db) = db_erasures db"
  by (simp_all add: core_def)

lemma core_eq_iff:
  "core a = core b \<longleftrightarrow> db_users a = db_users b \<and> db_sessions a = db_sessions b \<and>
     db_clock a = db_clock b \<and> db_mfa a = db_mfa b \<and> db_codes a = db_codes b \<and>
     db_challenges a = db_challenges b \<and> db_tokens a = db_tokens b \<and> db_profiles a = db_profiles b \<and>
     db_owned a = db_owned b \<and> db_erasures a = db_erasures b" (is "?l \<longleftrightarrow> ?r")
proof
  show "?l \<Longrightarrow> ?r" by (metis core_sel)
  show "?r \<Longrightarrow> ?l" by (auto simp: core_def)
qed

lemma core_faults [simp]: "core (db\<lparr>db_faults := fs\<rparr>) = core db"
  by (simp add: core_eq_iff)

definition cored :: "auth_db \<Rightarrow> auth_db \<Rightarrow> bool" where
  "cored c db \<longleftrightarrow> core db = c"

lemma cored_blind [simp]: "blind (cored c)"
  by (simp add: blind_def cored_def)

named_theorems keeps_core

lemma keeps_core_increment: "keeps_op (cored c) (IncrementAuthRateLimit l w)"
  unfolding IncrementAuthRateLimit_def
  by (intro op_keeps cored_blind) (auto simp: keeps_op_def cored_def core_def Let_def split: option.splits)

lemma keeps_core_checks: "keeps_op (cored c) (enforce_checks E now action cs)"
proof (induction cs)
  case (Cons r cs)
  show ?case
    unfolding enforce_checks.simps Let_def case_prod_beta
    by (intro op_keeps keeps_core_increment Cons.IH)
qed (simp add: op_keeps)

lemma keeps_core_limited [keeps_core]: "keeps_op (cored c) (limited C E q action key r)"
  unfolding limited_def enforceAuthRateLimit_def by (intro op_keeps keeps_core_checks)

lemma keeps_core_audit [keeps_core]: "keeps_op (cored c) (auditAuth C ev ok u)"
  unfolding auditAuth_def
  by (intro op_keeps cored_blind) (simp add: keeps_op_def cored_def core_def)

lemma keeps_core_reads [keeps_core]:
  "keeps_op (cored c) (token_by_hash T e h)" "keeps_op (cored c) (latest_unused T e u)"
  "keeps_op (cored c) (user_GetByID u)" "keeps_op (cored c) (user_GetByEmail m)"
proof -
  show "keeps_op (cored c) (token_by_hash T e h)" "keeps_op (cored c) (latest_unused T e u)"
    unfolding token_by_hash_def latest_unused_def
    by (rule keeps_read; simp split: option.splits list.splits)+
  show "keeps_op (cored c) (user_GetByID u)" by (rule keeps_reads(4)) simp
  show "keeps_op (cored c) (user_GetByEmail m)" by (rule keeps_mfa_reads(3)) simp
qed

lemma keeps_core_cooled [keeps_core]:
  "keeps_op (cored c) m \<Longrightarrow> keeps_op (cored c) (cooled_down now w e e' m)"
  unfolding cooled_down_def by (intro op_keeps)

lemma keeps_core_free [keeps_core]: "keeps_op (cored c) (email_free u m)"
  unfolding email_free_def by (intro op_keeps keeps_core)

lemma core_run:
  assumes "\<And>c. keeps_op (cored c) m" "m db = (r, db')"
  shows "core db' = core db"
  using keeps_opD [OF assms(1), of "core db" db] assms(2) by (simp add: cored_def)

lemmas limited_run = core_run [OF keeps_core_limited]
lemmas token_reads_run = core_run [OF keeps_core_reads(1)] core_run [OF keeps_core_reads(2)]
lemmas user_reads_run = core_run [OF keeps_core_reads(3)] core_run [OF keeps_core_reads(4)]

lemma audited_Inr:
  assumes "with_audit C ev body db = (Inr x, db')"
  shows "\<exists>u mid. body db = (Inr (u, Inr x), mid) \<and> core db' = core mid"
proof -
  obtain u mid where "body db = (Inr (u, Inr x), mid)" "auditAuth C ev True u mid = (Inr (), db')"
    using with_audit_Inr_run [OF assms] by blast
  with core_run [OF keeps_core_audit] show ?thesis by blast
qed

lemma failed_transaction: "transaction m db = (Inl e, db') \<Longrightarrow> core db' = core db"
  by (metis core_faults tables_eq_def transaction_atomic)

section \<open>Reads\<close>

lemma token_by_hash_run:
  "token_by_hash T e h db = (Inr t, mid) \<Longrightarrow> find (\<lambda>t. tk_TokenHash t = h) (db_tokens db T) = Some t"
  unfolding token_by_hash_def by (drule statement_Inr) (auto split: option.splits)

lemma latest_unused_run:
  assumes "latest_unused T e u db = (Inr t, mid)"
  shows "t \<in> set (db_tokens db T) \<and> tk_UserID t = u \<and> unused t"
proof -
  obtain ts where "sort_key (\<lambda>t. - tk_SentAt t) (filter (\<lambda>t. tk_UserID t = u \<and> unused t) (db_tokens db T)) = t # ts"
    using statement_Inr [OF assms [unfolded latest_unused_def]]
    by (elim exE, cases "sort_key (\<lambda>t. - tk_SentAt t) (filter (\<lambda>t. tk_UserID t = u \<and> unused t) (db_tokens db T))")
      simp_all
  then have "t \<in> set (filter (\<lambda>t. tk_UserID t = u \<and> unused t) (db_tokens db T))"
    by (metis list.set_intros(1) set_sort)
  then show ?thesis by simp
qed

section \<open>Statements\<close>

definition revoke_tokens :: "token_table \<Rightarrow> string \<Rightarrow> int \<Rightarrow> auth_db \<Rightarrow> auth_db" where
  "revoke_tokens T u now db = set_tokens T (map (spend (\<lambda>t. tk_UserID t = u) now) (db_tokens db T)) db"

lemma revoke_unused_run: "revoke_unused T u db = (Inr (), db') \<Longrightarrow> core db' = core (revoke_tokens T u (db_clock db) db)"
  unfolding revoke_unused_def by (drule statement_Inr) (auto simp: core_eq_iff revoke_tokens_def)

lemma insert_token_run:
  "insert_token T t db = (Inr (), db') \<Longrightarrow> token_insertable T db t \<and>
     core db' = core (set_tokens T (db_tokens db T @ [t]) db)"
  unfolding insert_token_def
  by (drule statement_Inr) (auto simp: core_eq_iff token_insertable_def split: if_splits)

lemma spend_token_run:
  "spend_token T e hit db = (Inr (), db') \<Longrightarrow>
     length (filter (\<lambda>t. hit t \<and> unused t) (db_tokens db T)) = 1 \<and>
     core db' = core (set_tokens T (map (spend hit (db_clock db)) (db_tokens db T)) db)"
  unfolding spend_token_def
  by (drule statement_Inr) (auto simp: core_eq_iff Let_def split: if_splits)

lemma update_live_run:
  "update_live u f db = (Inr x, db') \<Longrightarrow> \<exists>old. find (live u) (db_users db) = Some old \<and>
     x = f (db_clock db) old \<and>
     core db' = core (db\<lparr>db_users := map (\<lambda>v. if live u v then f (db_clock db) v else v) (db_users db)\<rparr>)"
  unfolding update_live_def by (drule statement_Inr) (auto simp: core_eq_iff split: option.splits)

lemma revoke_in_tx_run:
  "revokeAuthSessionsInTx u db = (Inr (), db') \<Longrightarrow>
     core db' = core (db\<lparr>db_sessions := revoke_rows (\<lambda>r. as_UserID r = u) (db_clock db) (db_sessions db)\<rparr>)"
  unfolding revokeAuthSessionsInTx_def revoke_where_def
  by (auto simp: op_runs core_eq_iff revoke_rows_def dest!: statement_Inr)

lemma spend_spend: "spend (\<lambda>t. tk_UserID t = u) now \<circ> spend (\<lambda>t. P t \<and> tk_UserID t = u) now =
    spend (\<lambda>t. tk_UserID t = u) now"
  by (auto simp: spend_def unused_def fun_eq_iff)

section \<open>Transactions\<close>

text \<open>A live row of the account as the update leaves it; the other rows stay.\<close>

definition on_live :: "string \<Rightarrow> (user_row \<Rightarrow> user_row) \<Rightarrow> user_row list \<Rightarrow> user_row list" where
  "on_live u f = map (\<lambda>v. if live u v then f v else v)"

definition sessions_ended :: "string \<Rightarrow> auth_db \<Rightarrow> auth_db" where
  "sessions_ended u db = db\<lparr>db_sessions := revoke_rows (\<lambda>r. as_UserID r = u) (db_clock db) (db_sessions db)\<rparr>"

definition users_updated :: "string \<Rightarrow> (user_row \<Rightarrow> user_row) \<Rightarrow> auth_db \<Rightarrow> auth_db" where
  "users_updated u f db = db\<lparr>db_users := on_live u f (db_users db)\<rparr>"

lemmas tx_defs = sessions_ended_def users_updated_def revoke_tokens_def on_live_def

lemma core_step:
  "core a = core b \<Longrightarrow> core (revoke_tokens T u n a) = core (revoke_tokens T u n b)"
  "core a = core b \<Longrightarrow> core (sessions_ended u a) = core (sessions_ended u b)"
  "core a = core b \<Longrightarrow> core (users_updated u f a) = core (users_updated u f b)"
  "core a = core b \<Longrightarrow> db_clock a = db_clock b"
  by (simp_all add: core_eq_iff tx_defs)

lemma change_password_tx_run:
  assumes "ChangePassword_tx u h db = (Inr user, db')"
  shows "\<exists>old. find (live u) (db_users db) = Some old \<and> user = bumped (old\<lparr>usr_PasswordHash := h\<rparr>) \<and>
    core db' = core (sessions_ended u (revoke_tokens ResetTokens u (db_clock db)
      (users_updated u (\<lambda>v. bumped (v\<lparr>usr_PasswordHash := h\<rparr>)) db)))"
proof -
  obtain fs mid fs' d1 d2 where
    up: "update_live u (\<lambda>_ v. bumped (v\<lparr>usr_PasswordHash := h\<rparr>)) (db\<lparr>db_faults := fs\<rparr>) = (Inr user, d1)"
    and rv: "revoke_unused ResetTokens u d1 = (Inr (), d2)"
    and se: "revokeAuthSessionsInTx u d2 = (Inr (), mid)" and db': "db' = mid\<lparr>db_faults := fs'\<rparr>"
    using transaction_Inr [OF assms [unfolded ChangePassword_tx_def]] by (auto simp: op_runs)
  from update_live_run [OF up] revoke_unused_run [OF rv] revoke_in_tx_run [OF se] db' show ?thesis
    by (auto simp: core_eq_iff tx_defs)
qed

lemma verify_tx_run:
  assumes "VerifyEmailWithToken i u db = (Inr user, db')"
  shows "\<exists>old. find (live u) (db_users db) = Some old \<and> user = verified (db_clock db) old \<and>
    length (filter (\<lambda>t. (tk_ID t = i \<and> tk_UserID t = u) \<and> unused t) (db_tokens db VerificationTokens)) = 1 \<and>
    core db' = core (users_updated u (verified (db_clock db))
      (set_tokens VerificationTokens (map (spend (\<lambda>t. tk_ID t = i \<and> tk_UserID t = u) (db_clock db))
        (db_tokens db VerificationTokens)) db))"
proof -
  obtain fs mid fs' d1 where
    sp: "spend_token VerificationTokens ErrInvalidVerificationToken (\<lambda>t. tk_ID t = i \<and> tk_UserID t = u)
      (db\<lparr>db_faults := fs\<rparr>) = (Inr (), d1)"
    and up: "update_live u verified d1 = (Inr user, mid)" and db': "db' = mid\<lparr>db_faults := fs'\<rparr>"
    using transaction_Inr [OF assms [unfolded VerifyEmailWithToken_def]] by (auto simp: op_runs)
  from spend_token_run [OF sp] update_live_run [OF up] db' show ?thesis
    by (auto simp: core_eq_iff tx_defs)
qed

lemma reset_tx_run:
  assumes "ResetPasswordWithToken i u h db = (Inr user, db')"
  shows "\<exists>old. find (live u) (db_users db) = Some old \<and>
    user = bumped (verified (db_clock db) (old\<lparr>usr_PasswordHash := h\<rparr>)) \<and>
    length (filter (\<lambda>t. (tk_ID t = i \<and> tk_UserID t = u) \<and> unused t) (db_tokens db ResetTokens)) = 1 \<and>
    core db' = core (sessions_ended u (revoke_tokens ResetTokens u (db_clock db)
      (users_updated u (\<lambda>v. bumped (verified (db_clock db) (v\<lparr>usr_PasswordHash := h\<rparr>))) db)))"
proof -
  obtain fs mid fs' d1 d2 d3 where
    sp: "spend_token ResetTokens ErrInvalidPasswordResetToken (\<lambda>t. tk_ID t = i \<and> tk_UserID t = u)
      (db\<lparr>db_faults := fs\<rparr>) = (Inr (), d1)"
    and up: "update_live u (\<lambda>now v. bumped (verified now (v\<lparr>usr_PasswordHash := h\<rparr>))) d1 = (Inr user, d2)"
    and rv: "revoke_unused ResetTokens u d2 = (Inr (), d3)"
    and se: "revokeAuthSessionsInTx u d3 = (Inr (), mid)" and db': "db' = mid\<lparr>db_faults := fs'\<rparr>"
    using transaction_Inr [OF assms [unfolded ResetPasswordWithToken_def]] by (auto simp: op_runs)
  from spend_token_run [OF sp] update_live_run [OF up] revoke_unused_run [OF rv] revoke_in_tx_run [OF se] db'
  show ?thesis
    by (auto simp: core_eq_iff tx_defs spend_spend [where P = "\<lambda>t. tk_ID t = i"])
qed

lemma update_email_run:
  "update_email E u m db = (Inr x, db') \<Longrightarrow> \<exists>old. find (live u) (db_users db) = Some old \<and>
     \<not> email_taken E db u m \<and> x = with_email m (db_clock db) old \<and>
     core db' = core (users_updated u (with_email m (db_clock db)) db)"
  unfolding update_email_def
  by (drule statement_Inr) (auto simp: core_eq_iff tx_defs email_taken_def split: option.splits if_splits)

lemma lock_user_run:
  "lock_user u db = (Inr x, db') \<Longrightarrow> find (live u) (db_users db) = Some x \<and> core db' = core db"
  unfolding lock_user_def by (drule statement_Inr) (auto simp: core_eq_iff split: option.splits)

lemma email_taken_core: "core a = core b \<Longrightarrow> email_taken E a = email_taken E b"
  by (auto simp: core_eq_iff email_taken_def fun_eq_iff)

lemma change_email_tx_run:
  assumes "ChangeEmailWithToken E i u m db = (Inr r, db')"
  shows "\<exists>old. find (live u) (db_users db) = Some old \<and> \<not> email_taken E db u m \<and>
    r = \<lparr>ec_User = with_email m (db_clock db) old, ec_OldEmail = usr_Email old, ec_NewEmail = m\<rparr> \<and>
    length (filter (\<lambda>t. (tk_ID t = i \<and> tk_UserID t = u \<and> tk_NewEmail t = m) \<and> unused t)
      (db_tokens db ChangeTokens)) = 1 \<and>
    core db' = core (sessions_ended u (revoke_tokens ChangeTokens u (db_clock db)
      (users_updated u (with_email m (db_clock db)) db)))"
proof -
  obtain fs mid fs' old d1 d2 x d3 d4 where
    lk: "lock_user u (db\<lparr>db_faults := fs\<rparr>) = (Inr old, d1)"
    and sp: "spend_token ChangeTokens ErrInvalidEmailChangeToken
      (\<lambda>t. tk_ID t = i \<and> tk_UserID t = u \<and> tk_NewEmail t = m) d1 = (Inr (), d2)"
    and up: "update_email E u m d2 = (Inr x, d3)"
    and rv: "revoke_unused ChangeTokens u d3 = (Inr (), d4)"
    and se: "revokeAuthSessionsInTx u d4 = (Inr (), mid)" and db': "db' = mid\<lparr>db_faults := fs'\<rparr>"
    and r: "r = \<lparr>ec_User = x, ec_OldEmail = usr_Email old, ec_NewEmail = usr_Email x\<rparr>"
    using transaction_Inr [OF assms [unfolded ChangeEmailWithToken_def]] by (auto simp: op_runs)
  have once: "map (spend (\<lambda>t. tk_UserID t = u) n) (map (spend (\<lambda>t. tk_ID t = i \<and> tk_UserID t = u \<and> tk_NewEmail t = m) n) ts)
      = map (spend (\<lambda>t. tk_UserID t = u) n) ts" for n ts
    by (auto simp: spend_def unused_def)
  have "email_taken E d2 u m = email_taken E db u m"
    using lock_user_run [OF lk] spend_token_run [OF sp] by (simp add: core_eq_iff email_taken_def)
  with lock_user_run [OF lk] spend_token_run [OF sp] update_email_run [OF up] revoke_unused_run [OF rv]
    revoke_in_tx_run [OF se] db' r once
  show ?thesis
    by (auto simp: core_eq_iff tx_defs with_email_def bumped_def)
qed

lemma replace_token_run:
  assumes "replace_token T t db = (Inr (), db')"
  shows "token_insertable T db t \<and> core db' = core (set_tokens T
    (map (spend (\<lambda>r. tk_UserID r = tk_UserID t) (db_clock db)) (db_tokens db T) @ [t]) db)"
proof -
  obtain fs mid fs' d1 where
    rv: "revoke_unused T (tk_UserID t) (db\<lparr>db_faults := fs\<rparr>) = (Inr (), d1)"
    and ins: "insert_token T t d1 = (Inr (), mid)" and db': "db' = mid\<lparr>db_faults := fs'\<rparr>"
    using transaction_Inr [OF assms [unfolded replace_token_def]] by (auto simp: op_runs)
  have "tk_ID (spend P n r) = tk_ID r" "tk_TokenHash (spend P n r) = tk_TokenHash r" for P n r
    by (simp_all add: spend_def)
  with revoke_unused_run [OF rv] insert_token_run [OF ins] db' show ?thesis
    by (auto simp: core_eq_iff tx_defs token_insertable_def list_all_iff)
qed

subsection \<open>Registration\<close>

lemma insert_user_run:
  "insert_user E u db = (Inr (), db') \<Longrightarrow>
     (\<forall>v\<in>set (db_users db). usr_ID v \<noteq> usr_ID u) \<and> \<not> email_taken E db (usr_ID u) (usr_Email u) \<and>
     core db' = core (db\<lparr>db_users := db_users db @ [u]\<rparr>)"
  unfolding insert_user_def
  by (drule statement_Inr) (auto simp: core_eq_iff list_ex_iff email_taken_def split: if_splits)

definition default_profile :: "string \<Rightarrow> string \<Rightarrow> profile_row" where
  "default_profile userID displayName = \<lparr>pr_UserID = userID,
     pr_DisplayName = (let n = trim_space displayName in if n = '''' then None else Some n),
     pr_Timezone = None, pr_CountryCode = None, pr_PersonalizationEnabled = True\<rparr>"

lemma insert_defaults_run:
  "insertDefaultProfileAndPreferences u n db = (Inr (), db') \<Longrightarrow>
     core db' = core (db\<lparr>db_profiles := db_profiles db @ [default_profile u n],
       db_owned := db_owned db @ [(''user_preferences'', u)]\<rparr>)"
  unfolding insertDefaultProfileAndPreferences_def insert_profile_def insert_preferences_def
  by (auto simp: op_runs core_eq_iff default_profile_def Let_def dest!: statement_Inr split: if_splits)

definition registered :: "user_row \<Rightarrow> auth_token \<Rightarrow> auth_db \<Rightarrow> auth_db" where
  "registered u t db = set_tokens VerificationTokens (db_tokens db VerificationTokens @ [t])
     (db\<lparr>db_users := db_users db @ [u],
       db_profiles := db_profiles db @ [default_profile (usr_ID u) (usr_Username u)],
       db_owned := db_owned db @ [(''user_preferences'', usr_ID u)]\<rparr>)"

lemma store_run:
  assumes "StoreWithVerificationToken E u t db = (Inr (), db')"
  shows "(\<forall>v\<in>set (db_users db). usr_ID v \<noteq> usr_ID u) \<and> \<not> email_taken E db (usr_ID u) (usr_Email u) \<and>
    (\<forall>r\<in>set (db_tokens db VerificationTokens). tk_ID r \<noteq> tk_ID t \<and> tk_TokenHash r \<noteq> tk_TokenHash t) \<and>
    (\<exists>v\<in>insert u (set (db_users db)). usr_ID v = tk_UserID t) \<and>
    core db' = core (registered u t db)"
proof -
  obtain fs mid fs' d1 d2 where
    us: "insert_user E u (db\<lparr>db_faults := fs\<rparr>) = (Inr (), d1)"
    and pr: "insertDefaultProfileAndPreferences (usr_ID u) (usr_Username u) d1 = (Inr (), d2)"
    and tk: "insert_token VerificationTokens t d2 = (Inr (), mid)" and db': "db' = mid\<lparr>db_faults := fs'\<rparr>"
    using transaction_Inr [OF assms [unfolded StoreWithVerificationToken_def]] by (auto simp: op_runs)
  have "email_taken E (db\<lparr>db_faults := fs\<rparr>) = email_taken E db" by (simp add: fun_eq_iff email_taken_def)
  with insert_user_run [OF us] insert_defaults_run [OF pr] insert_token_run [OF tk] db' show ?thesis
    by (auto simp: core_eq_iff registered_def token_insertable_def list_all_iff list_ex_iff)
qed

subsection \<open>Roles\<close>

lemma role_tx_run:
  assumes "SetRoleByEmail_tx E m role db = (Inr c, db')"
  shows "\<exists>u. find (\<lambda>u. usr_Email u = m \<and> usr_DeletedAt u = None) (db_users db) = Some u \<and>
    (demotes u role \<longrightarrow> 1 < length (filter is_admin (db_users db))) \<and>
    (\<exists>v. find (\<lambda>v. usr_ID v = usr_ID u) (db_users db) = Some v \<and>
       rc_User c = with_role E role (db_clock db) v) \<and> rc_PreviousRole c = usr_Role u \<and> rc_NewRole c = role \<and>
    core db' = core (db\<lparr>db_users := map (\<lambda>v. if usr_ID v = usr_ID u
      then with_role E role (db_clock db) v else v) (db_users db)\<rparr>)"
proof -
  obtain fs mid fs' u d1 d2 x where
    lk: "lock_by_email m (db\<lparr>db_faults := fs\<rparr>) = (Inr u, d1)"
    and gd: "(if demotes u role
         then op_bind count_admins (\<lambda>n. if n \<le> 1 then op_fail ErrLastAdmin else op_ret ())
         else op_ret ()) d1 = (Inr (), d2)"
    and up: "update_role E (usr_ID u) role d2 = (Inr x, mid)" and db': "db' = mid\<lparr>db_faults := fs'\<rparr>"
    and c: "c = \<lparr>rc_User = x, rc_PreviousRole = usr_Role u, rc_NewRole = usr_Role x\<rparr>"
    using transaction_Inr [OF assms [unfolded SetRoleByEmail_tx_def]] by (auto simp: op_runs)
  have 1: "find (\<lambda>u. usr_Email u = m \<and> usr_DeletedAt u = None) (db_users db) = Some u \<and> core d1 = core db"
    using statement_Inr [OF lk [unfolded lock_by_email_def]] by (auto simp: core_eq_iff split: option.splits)
  have 2: "(demotes u role \<longrightarrow> 1 < length (filter is_admin (db_users d1))) \<and> core d2 = core d1"
    using gd unfolding count_admins_def
    by (auto simp: op_runs core_eq_iff dest!: statement_Inr split: if_splits)
  have 3: "\<exists>v. find (\<lambda>v. usr_ID v = usr_ID u) (db_users d2) = Some v \<and> x = with_role E role (db_clock d2) v \<and>
      core mid = core (d2\<lparr>db_users := map (\<lambda>v. if usr_ID v = usr_ID u
        then with_role E role (db_clock d2) v else v) (db_users d2)\<rparr>)"
    using statement_Inr [OF up [unfolded update_role_def]] by (auto simp: core_eq_iff split: option.splits)
  from 1 2 3 db' c show ?thesis by (auto simp: core_eq_iff with_role_def)
qed

subsection \<open>Deletion\<close>

definition respects_core :: "(auth_db \<Rightarrow> auth_db) \<Rightarrow> bool" where
  "respects_core f \<longleftrightarrow> (\<forall>a b. core a = core b \<longrightarrow> core (f a) = core (f b))"

lemma erase_run: "erase f db = (Inr (), db') \<Longrightarrow> respects_core f \<Longrightarrow> core db' = core (f db)"
  unfolding erase_def respects_core_def by (drule statement_Inr) (metis core_faults prod.inject)

lemma fold_respects:
  "\<forall>f\<in>set fs. respects_core f \<Longrightarrow> core a = core b \<Longrightarrow> core (fold (\<lambda>f. f) fs a) = core (fold (\<lambda>f. f) fs b)"
proof (induction fs arbitrary: a b)
  case (Cons f fs)
  then have "core (f a) = core (f b)" unfolding respects_core_def by (meson list.set_intros(1))
  from Cons.IH [OF _ this] Cons.prems(1) show ?case by simp
qed simp

lemma run_erasures:
  "run_all (map erase fs) db = (Inr (), db') \<Longrightarrow> \<forall>f\<in>set fs. respects_core f \<Longrightarrow>
     core db' = core (fold (\<lambda>f. f) fs db)"
proof (induction fs arbitrary: db)
  case Nil
  then show ?case by (simp add: op_runs)
next
  case (Cons f fs)
  then obtain d where f: "erase f db = (Inr (), d)" and fs: "run_all (map erase fs) d = (Inr (), db')"
    by (auto simp: op_runs)
  have "core db' = core (fold (\<lambda>f. f) fs d)" using Cons.IH [OF fs] Cons.prems(2) by simp
  also have "\<dots> = core (fold (\<lambda>f. f) fs (f db))"
    using fold_respects [of fs d "f db"] erase_run [OF f] Cons.prems(2) by simp
  finally show ?case by simp
qed

definition without_table :: "string \<Rightarrow> string \<Rightarrow> auth_db \<Rightarrow> auth_db" where
  "without_table u table db = db\<lparr>db_owned := filter (\<lambda>r. r \<noteq> (table, u)) (db_owned db)\<rparr>"

definition without_tokens :: "string \<Rightarrow> token_table \<Rightarrow> auth_db \<Rightarrow> auth_db" where
  "without_tokens u T db = set_tokens T (filter (\<lambda>t. tk_UserID t \<noteq> u) (db_tokens db T)) db"

lemma without_sel [simp]:
  "db_owned (without_table u x db) = filter (\<lambda>r. r \<noteq> (x, u)) (db_owned db)"
  "db_tokens (without_table u x db) = db_tokens db"
  "db_owned (without_tokens u T db) = db_owned db"
  "db_tokens (without_tokens u T db) = (db_tokens db)(T := filter (\<lambda>t. tk_UserID t \<noteq> u) (db_tokens db T))"
  "db_users (without_table u x db) = db_users db" "db_users (without_tokens u T db) = db_users db"
  "db_sessions (without_table u x db) = db_sessions db" "db_sessions (without_tokens u T db) = db_sessions db"
  "db_clock (without_table u x db) = db_clock db" "db_clock (without_tokens u T db) = db_clock db"
  "db_mfa (without_table u x db) = db_mfa db" "db_mfa (without_tokens u T db) = db_mfa db"
  "db_codes (without_table u x db) = db_codes db" "db_codes (without_tokens u T db) = db_codes db"
  "db_challenges (without_table u x db) = db_challenges db" "db_challenges (without_tokens u T db) = db_challenges db"
  "db_profiles (without_table u x db) = db_profiles db" "db_profiles (without_tokens u T db) = db_profiles db"
  "db_erasures (without_table u x db) = db_erasures db" "db_erasures (without_tokens u T db) = db_erasures db"
  by (simp_all add: without_table_def without_tokens_def)

definition blank_profiles :: "string \<Rightarrow> auth_db \<Rightarrow> auth_db" where
  "blank_profiles u db = db\<lparr>db_profiles := map (blank_profile u) (db_profiles db)\<rparr>"

definition without_sessions :: "string \<Rightarrow> auth_db \<Rightarrow> auth_db" where
  "without_sessions u db = db\<lparr>db_sessions := filter (\<lambda>r. as_UserID r \<noteq> u) (db_sessions db)\<rparr>"

definition without_mfa :: "string \<Rightarrow> auth_db \<Rightarrow> auth_db" where
  "without_mfa u db = db\<lparr>db_mfa := filter (\<lambda>m. mfa_UserID m \<noteq> u) (db_mfa db)\<rparr>"

definition without_codes :: "string \<Rightarrow> auth_db \<Rightarrow> auth_db" where
  "without_codes u db = db\<lparr>db_codes := filter (\<lambda>c. rec_UserID c \<noteq> u) (db_codes db)\<rparr>"

definition without_challenges :: "string \<Rightarrow> auth_db \<Rightarrow> auth_db" where
  "without_challenges u db = db\<lparr>db_challenges := filter (\<lambda>c. ch_UserID c \<noteq> u) (db_challenges db)\<rparr>"

lemma blank_profiles_sel [simp]:
  "db_users (blank_profiles u db) = db_users db" "db_sessions (blank_profiles u db) = db_sessions db"
  "db_clock (blank_profiles u db) = db_clock db" "db_mfa (blank_profiles u db) = db_mfa db"
  "db_codes (blank_profiles u db) = db_codes db" "db_challenges (blank_profiles u db) = db_challenges db"
  "db_tokens (blank_profiles u db) = db_tokens db" "db_profiles (blank_profiles u db) = map (blank_profile u) (db_profiles db)"
  "db_owned (blank_profiles u db) = db_owned db" "db_erasures (blank_profiles u db) = db_erasures db"
  by (simp_all add: blank_profiles_def)

lemma without_sessions_sel [simp]:
  "db_users (without_sessions u db) = db_users db" "db_sessions (without_sessions u db) = filter (\<lambda>r. as_UserID r \<noteq> u) (db_sessions db)"
  "db_clock (without_sessions u db) = db_clock db" "db_mfa (without_sessions u db) = db_mfa db"
  "db_codes (without_sessions u db) = db_codes db" "db_challenges (without_sessions u db) = db_challenges db"
  "db_tokens (without_sessions u db) = db_tokens db" "db_profiles (without_sessions u db) = db_profiles db"
  "db_owned (without_sessions u db) = db_owned db" "db_erasures (without_sessions u db) = db_erasures db"
  by (simp_all add: without_sessions_def)

lemma without_mfa_sel [simp]:
  "db_users (without_mfa u db) = db_users db" "db_sessions (without_mfa u db) = db_sessions db"
  "db_clock (without_mfa u db) = db_clock db" "db_mfa (without_mfa u db) = filter (\<lambda>m. mfa_UserID m \<noteq> u) (db_mfa db)"
  "db_codes (without_mfa u db) = db_codes db" "db_challenges (without_mfa u db) = db_challenges db"
  "db_tokens (without_mfa u db) = db_tokens db" "db_profiles (without_mfa u db) = db_profiles db"
  "db_owned (without_mfa u db) = db_owned db" "db_erasures (without_mfa u db) = db_erasures db"
  by (simp_all add: without_mfa_def)

lemma without_codes_sel [simp]:
  "db_users (without_codes u db) = db_users db" "db_sessions (without_codes u db) = db_sessions db"
  "db_clock (without_codes u db) = db_clock db" "db_mfa (without_codes u db) = db_mfa db"
  "db_codes (without_codes u db) = filter (\<lambda>c. rec_UserID c \<noteq> u) (db_codes db)" "db_challenges (without_codes u db) = db_challenges db"
  "db_tokens (without_codes u db) = db_tokens db" "db_profiles (without_codes u db) = db_profiles db"
  "db_owned (without_codes u db) = db_owned db" "db_erasures (without_codes u db) = db_erasures db"
  by (simp_all add: without_codes_def)

lemma without_challenges_sel [simp]:
  "db_users (without_challenges u db) = db_users db" "db_sessions (without_challenges u db) = db_sessions db"
  "db_clock (without_challenges u db) = db_clock db" "db_mfa (without_challenges u db) = db_mfa db"
  "db_codes (without_challenges u db) = db_codes db" "db_challenges (without_challenges u db) = filter (\<lambda>c. ch_UserID c \<noteq> u) (db_challenges db)"
  "db_tokens (without_challenges u db) = db_tokens db" "db_profiles (without_challenges u db) = db_profiles db"
  "db_owned (without_challenges u db) = db_owned db" "db_erasures (without_challenges u db) = db_erasures db"
  by (simp_all add: without_challenges_def)

definition cleanup_steps :: "string \<Rightarrow> (auth_db \<Rightarrow> auth_db) list" where
  "cleanup_steps u = [blank_profiles u] @ map (without_table u) content_tables
     @ map (without_tokens u) [VerificationTokens, ResetTokens, ChangeTokens]
     @ [without_sessions u, without_table u ''auth_login_fingerprints'', without_mfa u, without_codes u,
        without_challenges u, \<lambda>db. db]"

lemma cleanup_is_erasures: "cleanupDeletedUserData u = run_all (map erase (cleanup_steps u))"
proof -
  have "delete_owned u = (\<lambda>x. erase (without_table u x))" "delete_tokens u = (\<lambda>T. erase (without_tokens u T))"
    by (rule ext, simp add: delete_owned_def delete_tokens_def without_table_def [abs_def] without_tokens_def [abs_def])+
  then show ?thesis
    by (simp add: cleanupDeletedUserData_def cleanup_steps_def comp_def blank_profiles_def [abs_def]
        without_sessions_def [abs_def] without_mfa_def [abs_def] without_codes_def [abs_def]
        without_challenges_def [abs_def])
qed

lemma cleanup_respects: "\<forall>f\<in>set (cleanup_steps u). respects_core f"
  by (simp add: cleanup_steps_def content_tables_def respects_core_def core_eq_iff)

definition erased_tables :: "string list" where
  "erased_tables = content_tables @ [''auth_login_fingerprints'']"

text \<open>What is left of the tables once the data of an account is gone.\<close>

definition scrubbed :: "string \<Rightarrow> auth_db \<Rightarrow> auth_db" where
  "scrubbed u db = db\<lparr>db_profiles := map (blank_profile u) (db_profiles db),
     db_owned := filter (\<lambda>r. \<not> (snd r = u \<and> fst r \<in> set erased_tables)) (db_owned db),
     db_tokens := (\<lambda>T. filter (\<lambda>t. tk_UserID t \<noteq> u) (db_tokens db T)),
     db_sessions := filter (\<lambda>r. as_UserID r \<noteq> u) (db_sessions db),
     db_mfa := filter (\<lambda>m. mfa_UserID m \<noteq> u) (db_mfa db),
     db_codes := filter (\<lambda>c. rec_UserID c \<noteq> u) (db_codes db),
     db_challenges := filter (\<lambda>c. ch_UserID c \<noteq> u) (db_challenges db)\<rparr>"

lemma token_table_cases: "T = VerificationTokens \<or> T = ResetTokens \<or> T = ChangeTokens"
  by (cases T) simp_all

lemma fold_tables:
  "db_owned (fold (\<lambda>f. f) (map (without_table u) xs) db) =
     filter (\<lambda>r. \<not> (snd r = u \<and> fst r \<in> set xs)) (db_owned db)"
  "db_users (fold (\<lambda>f. f) (map (without_table u) xs) db) = db_users db"
  "db_sessions (fold (\<lambda>f. f) (map (without_table u) xs) db) = db_sessions db"
  "db_clock (fold (\<lambda>f. f) (map (without_table u) xs) db) = db_clock db"
  "db_mfa (fold (\<lambda>f. f) (map (without_table u) xs) db) = db_mfa db"
  "db_codes (fold (\<lambda>f. f) (map (without_table u) xs) db) = db_codes db"
  "db_challenges (fold (\<lambda>f. f) (map (without_table u) xs) db) = db_challenges db"
  "db_tokens (fold (\<lambda>f. f) (map (without_table u) xs) db) = db_tokens db"
  "db_profiles (fold (\<lambda>f. f) (map (without_table u) xs) db) = db_profiles db"
  "db_erasures (fold (\<lambda>f. f) (map (without_table u) xs) db) = db_erasures db"
  by (induction xs arbitrary: db) (auto intro!: filter_cong)

lemma cleanup_scrubs: "core (fold (\<lambda>f. f) (cleanup_steps u) db) = core (scrubbed u db)"
proof -
  let ?d = "fold (\<lambda>f. f) (cleanup_steps u) db"
  have tokens: "db_tokens ?d = (\<lambda>T. filter (\<lambda>t. tk_UserID t \<noteq> u) (db_tokens db T))"
    using token_table_cases by (fastforce simp: cleanup_steps_def fold_tables fun_eq_iff)
  have "db_owned ?d = filter (\<lambda>r. \<not> (snd r = u \<and> fst r \<in> set erased_tables)) (db_owned db)"
    by (auto simp: cleanup_steps_def fold_tables erased_tables_def intro!: filter_cong)
  moreover have "db_users ?d = db_users db" "db_clock ?d = db_clock db" "db_erasures ?d = db_erasures db"
    "db_profiles ?d = map (blank_profile u) (db_profiles db)"
    "db_sessions ?d = filter (\<lambda>r. as_UserID r \<noteq> u) (db_sessions db)"
    "db_mfa ?d = filter (\<lambda>m. mfa_UserID m \<noteq> u) (db_mfa db)"
    "db_codes ?d = filter (\<lambda>c. rec_UserID c \<noteq> u) (db_codes db)"
    "db_challenges ?d = filter (\<lambda>c. ch_UserID c \<noteq> u) (db_challenges db)"
    by (simp_all add: cleanup_steps_def fold_tables)
  ultimately show ?thesis by (simp add: core_eq_iff scrubbed_def tokens)
qed

lemma cleanup_run: "cleanupDeletedUserData u db = (Inr (), db') \<Longrightarrow> core db' = core (scrubbed u db)"
  using run_erasures [OF _ cleanup_respects] cleanup_scrubs by (simp add: cleanup_is_erasures)

definition deleted_email :: "string \<Rightarrow> string" where
  "deleted_email u = ''deleted+'' @ u @ ''@deleted.local''"

definition queue_erasure :: "OneSignalErasureCreate option \<Rightarrow> auth_db \<Rightarrow> auth_db" where
  "queue_erasure e db = (case e of None \<Rightarrow> db | Some x \<Rightarrow> db\<lparr>db_erasures := db_erasures db @ [x]\<rparr>)"

lemma anonymize_run:
  "anonymizeDeletedUser E u db = (Inr (), db') \<Longrightarrow> (\<exists>old. find (live u) (db_users db) = Some old) \<and>
     \<not> email_taken E db u (deleted_email u) \<and>
     core db' = core (users_updated u (anonymized (db_clock db)) db)"
  unfolding anonymizeDeletedUser_def deleted_email_def
  by (drule statement_Inr)
    (auto simp: core_eq_iff tx_defs email_taken_def list_ex_iff find_None_iff not_None_eq [symmetric] split: if_splits)

lemma delete_tx_run:
  assumes "DeleteAccount_tx E u erasure db = (Inr (), db')"
  shows "(\<exists>old. find (live u) (db_users db) = Some old) \<and> \<not> email_taken E db u (deleted_email u) \<and>
    core db' = core (queue_erasure erasure (scrubbed u (users_updated u (anonymized (db_clock db)) db)))"
proof -
  obtain fs mid fs' d1 d2 where
    an: "anonymizeDeletedUser E u (db\<lparr>db_faults := fs\<rparr>) = (Inr (), d1)"
    and cl: "cleanupDeletedUserData u d1 = (Inr (), d2)"
    and qu: "(case erasure of None \<Rightarrow> op_ret () | Some e \<Rightarrow> insertOneSignalErasureOutbox e) d2 = (Inr (), mid)"
    and db': "db' = mid\<lparr>db_faults := fs'\<rparr>"
    using transaction_Inr [OF assms [unfolded DeleteAccount_tx_def]] by (auto simp: op_runs)
  have "core mid = core (queue_erasure erasure d2)"
  proof (cases erasure)
    case (Some e)
    with qu have "insertOneSignalErasureOutbox e d2 = (Inr (), mid)" by simp
    from statement_Inr [OF this [unfolded insertOneSignalErasureOutbox_def]] Some show ?thesis
      by (auto simp: queue_erasure_def core_eq_iff split: if_splits)
  qed (use qu in \<open>simp add: op_runs queue_erasure_def\<close>)
  moreover have "email_taken E (db\<lparr>db_faults := fs\<rparr>) = email_taken E db" by (simp add: fun_eq_iff email_taken_def)
  ultimately show ?thesis using anonymize_run [OF an] cleanup_run [OF cl] db'
    by (auto simp: core_eq_iff scrubbed_def tx_defs queue_erasure_def split: option.splits)
qed

end
