(* ===== verification/Account_Demo.thy ===== *)
theory Account_Demo
  imports Account_Run
begin

text \<open>
  Concrete accounts, tokens and draws on which the properties of the account use cases are
  applied, in the setting of \<open>Auth_Demo\<close>.
\<close>

definition demo_account_cfg :: account_cfg where
  "demo_account_cfg = \<lparr>ac_auth = demo_quiet_cfg, ac_verificationTTL = 1000, ac_verificationOTPTTL = 300,
     ac_resendCooldown = 60, ac_passwordResetTTL = 400, ac_passwordResetCooldown = 60,
     ac_emailChangeTTL = 1000, ac_emailChangeOTPTTL = 300, ac_emailChangeCooldown = 60,
     ac_providerErasure = True, ac_RegisterEmail = demo_rule, ac_RegisterIP = demo_rule,
     ac_ForgotPasswordEmail = demo_rule, ac_ForgotPasswordIP = demo_rule, ac_VerifyEmailToken = demo_rule,
     ac_VerifyEmailOTPEmail = demo_rule, ac_VerifyEmailOTPIP = demo_rule,
     ac_ResendVerificationEmail = demo_rule, ac_ResendVerificationIP = demo_rule,
     ac_ResetPasswordToken = demo_rule, ac_ResetPasswordIP = demo_rule, ac_ChangePasswordUser = demo_rule,
     ac_ChangePasswordIP = demo_rule, ac_ChangeEmailUser = demo_rule, ac_ChangeEmailIP = demo_rule,
     ac_ChangeEmailToken = demo_rule, ac_DeleteAccountUser = demo_rule, ac_DeleteAccountIP = demo_rule\<rparr>"

definition demo_account_draws :: account_draws where
  "demo_account_draws = \<lparr>ad_userID = ''u3'', ad_tokenID = ''t9'', ad_token = Some (demo_token CHR ''n''),
     ad_otp = Some 123456, ad_otpSalt = ''s'', ad_salt = ''s'', ad_mailed = True,
     ad_erasure = Some \<lparr>er_ID = ''e1'', er_AppID = ''app'', er_ExternalIDCiphertext = ''x'',
       er_ExternalIDHash = ''y'', er_NextAttemptAt = 500\<rparr>\<rparr>"

definition demo_auth_token :: "char \<Rightarrow> string \<Rightarrow> auth_token" where
  "demo_auth_token c newEmail = \<lparr>tk_ID = ''t1'', tk_UserID = ''u1'', tk_NewEmail = newEmail,
     tk_TokenHash = CHR ''h'' # demo_token c, tk_OTPHash = ''123456'', tk_OTPExpiresAt = Some 800,
     tk_ExpiresAt = 900, tk_UsedAt = None, tk_SentAt = 100, tk_CreatedAt = 100\<rparr>"

definition demo_account_user :: user_row where
  "demo_account_user = (demo_user ''u1'')\<lparr>usr_Email := ''a@x'', usr_PasswordHash := ''password1'',
     usr_Role := ''admin'', usr_EmailVerified := False\<rparr>"

definition demo_account_db :: auth_db where
  "demo_account_db = demo_db\<lparr>db_users := [demo_account_user, demo_user ''u2''],
     db_tokens := (\<lambda>_. [])(VerificationTokens := [demo_auth_token CHR ''v'' ''''],
       ResetTokens := [demo_auth_token CHR ''r'' ''''], ChangeTokens := [demo_auth_token CHR ''c'' ''b@x'']),
     db_owned := [(''tasks'', ''u1''), (''tasks'', ''u2'')]\<rparr>"

lemmas demo_account_values [demo_eval] =
  demo_account_cfg_def demo_account_draws_def demo_auth_token_def demo_account_user_def demo_account_db_def
  demo_quiet_cfg_def

lemmas demo_account_ops [demo_eval] =
  set_tokens_def token_insertable_def insert_token_def unused_def spend_def revoke_unused_def replace_token_def
  spend_token_def token_by_hash_def latest_unused_def email_taken_def insert_user_def insert_profile_def
  insert_preferences_def insertDefaultProfileAndPreferences_def StoreWithVerificationToken_def live_def
  update_live_def verified_def bumped_def revokeAuthSessionsInTx_def ChangePassword_tx_def
  VerifyEmailWithToken_def ResetPasswordWithToken_def with_email_def update_email_def lock_user_def
  ChangeEmailWithToken_def lock_by_email_def is_admin_def count_admins_def with_role_def update_role_def
  demotes_def SetRoleByEmail_tx_def anonymized_def anonymizeDeletedUser_def erase_def delete_owned_def
  delete_tokens_def content_tables_def cleanupDeletedUserData_def insertOneSignalErasureOutbox_def
  DeleteAccount_tx_def limited_def quietly_def validStoredOTP_def hashVerificationToken_def
  hashPasswordResetToken_def hashEmailChangeToken_def newPasswordResetToken_def mail_or_revoke_def
  verifyEmailWithToken_def VerifyEmail_def cooled_down_def forgot_for_def ForgotPassword_def reset_with_def
  ResetPassword_def userWithVerifiedPassword_def change_password_of_def ChangePassword_def email_free_def
  request_change_for_def verifyEmailChangeWithToken_def VerifyEmailChange_def delete_account_of_def
  DeleteAccount_def verificationTokenBytes_def passwordResetTokenBytes_def emailChangeTokenBytes_def
  minPasswordBytes_def maxPasswordBytes_def

lemmas demo_account_tables [demo_eval] = token_op_defs

lemma demo_account_run: "\<not> isl (fst r) \<Longrightarrow> \<exists>x db'. r = (Inr x, db')"
  by (cases r, cases "fst r") auto

lemma demo_account_run_unit: "\<not> isl (fst r) \<Longrightarrow> \<exists>db'. r = (Inr (), db')"
  by (drule demo_account_run) auto

lemma demo_account_trim [demo_eval]: "trim_space ''u1'' = ''u1''" "trim_space ''a@x'' = ''a@x''" "trim_space ''b@x'' = ''b@x''"
  by (rule trim_space_plain; simp add: byte_def)+

end
