(* ===== verification/Account_Steps.thy ===== *)
theory Account_Steps
  imports Account_Demo
begin

text \<open>
  Interleavings of the account transactions: a spent one-time token stays spent, and the account
  tables keep their invariant, whatever requests run between each other's transactions and
  whichever of them fail.
\<close>

section \<open>Steps\<close>

definition account_keys :: "auth_db \<Rightarrow> (string \<times> string) list" where
  "account_keys db = map (\<lambda>u. (usr_ID u, usr_Email u)) (db_users db)"

text \<open>
  One transaction or statement on the account tables by any request, or any change elsewhere. \<open>H\<close>
  holds, per table, token hashes the random source does not draw again.
\<close>

inductive account_step :: "(token_table \<Rightarrow> string set) \<Rightarrow> auth_env \<Rightarrow> auth_db \<Rightarrow> auth_db \<Rightarrow> bool" for H E where
  register: "tk_TokenHash t \<notin> H VerificationTokens \<Longrightarrow> tk_UserID t = usr_ID u \<Longrightarrow> usr_DeletedAt u = None \<Longrightarrow>
    account_step H E db (snd (StoreWithVerificationToken E u t db))"
| replace: "tk_TokenHash t \<notin> H T \<Longrightarrow> account_step H E db (snd (replace_token T t db))"
| revoke: "account_step H E db (snd (revoke_unused T u db))"
| verify: "account_step H E db (snd (VerifyEmailWithToken i u db))"
| reset: "account_step H E db (snd (ResetPasswordWithToken i u h db))"
| change_password: "account_step H E db (snd (ChangePassword_tx u h db))"
| change_email: "account_step H E db (snd (ChangeEmailWithToken E i u m db))"
| set_role: "account_step H E db (snd (SetRoleByEmail_tx E m role db))"
| delete: "account_step H E db (snd (DeleteAccount_tx E u erasure db))"
| cleanup: "account_step H E db (snd (delete_old_tokens T now cutoff db))"
| elsewhere: "db_tokens db' = db_tokens db \<Longrightarrow> account_keys db' = account_keys db \<Longrightarrow> account_step H E db db'"

lemma account_steps_keep:
  assumes "\<And>d d'. account_step H E d d' \<Longrightarrow> P d \<Longrightarrow> P d'"
  shows "(account_step H E)\<^sup>*\<^sup>* db db' \<Longrightarrow> P db \<Longrightarrow> P db'"
  by (induction rule: rtranclp_induct) (use assms in blast)+

text \<open>A step either failed, and left the core of the tables, or did what its run lemma says.\<close>

lemma step_outcome:
  assumes "\<And>e d. m db = (Inl e, d) \<Longrightarrow> core d = core db"
    and "\<And>d. core d = core db \<Longrightarrow> Q d" "\<And>x d. m db = (Inr x, d) \<Longrightarrow> Q d"
  shows "Q (snd (m db))"
  using assms by (cases "m db"; cases "fst (m db)") (auto simp: fst_def snd_def)

lemma failed_statement:
  "revoke_unused T u db = (Inl e, d) \<Longrightarrow> core d = core db"
  "delete_old_tokens T now cutoff db = (Inl e, d) \<Longrightarrow> core d = core db"
  unfolding revoke_unused_def delete_old_tokens_def
  by (drule statement_cases; auto simp: tables_eq_def Let_def core_eq_iff dest: arg_cong [of _ _ core])+

lemma delete_old_run:
  "delete_old_tokens T now cutoff db = (Inr n, d) \<Longrightarrow> \<exists>P. core d = core (set_tokens T (filter P (db_tokens db T)) db)"
  unfolding delete_old_tokens_def by (drule statement_Inr) (auto simp: Let_def core_eq_iff)

text \<open>
  What every successful step does to the token tables: some rows may go, some may be spent, and
  new rows carry a hash outside \<open>H\<close>.
\<close>

definition tokens_grow :: "(token_table \<Rightarrow> string set) \<Rightarrow> auth_db \<Rightarrow> auth_db \<Rightarrow> bool" where
  "tokens_grow H db db' \<longleftrightarrow> (\<forall>T. \<forall>t\<in>set (db_tokens db' T).
     tk_TokenHash t \<notin> H T \<or>
     (\<exists>s\<in>set (db_tokens db T). tk_TokenHash s = tk_TokenHash t \<and> (tk_UsedAt s \<noteq> None \<longrightarrow> tk_UsedAt t \<noteq> None)))"

lemma spend_grows: "tk_TokenHash (spend P n t) = tk_TokenHash t" "tk_UsedAt t \<noteq> None \<Longrightarrow> spend P n t = t"
  by (auto simp: spend_def unused_def)

lemma grow_core: "core d = core db \<Longrightarrow> tokens_grow H db d"
  by (auto simp: core_eq_iff tokens_grow_def)

lemma grow_tokens:
  assumes "\<And>U t. t \<in> set (db_tokens d U) \<Longrightarrow> tk_TokenHash t \<notin> H U \<or> (\<exists>s\<in>set (db_tokens db U). t = s \<or> (\<exists>P n. t = spend P n s))"
  shows "tokens_grow H db d"
  unfolding tokens_grow_def
proof (intro allI ballI)
  fix U t
  assume "t \<in> set (db_tokens d U)"
  from assms [OF this] spend_grows show "tk_TokenHash t \<notin> H U \<or> (\<exists>s\<in>set (db_tokens db U).
      tk_TokenHash s = tk_TokenHash t \<and> (tk_UsedAt s \<noteq> None \<longrightarrow> tk_UsedAt t \<noteq> None))" by metis
qed

lemma grow_update:
  assumes "db_tokens d = (db_tokens db)(T := ts)"
    and "\<And>t. t \<in> set ts \<Longrightarrow> tk_TokenHash t \<notin> H T \<or> (\<exists>s\<in>set (db_tokens db T). t = s \<or> (\<exists>P n. t = spend P n s))"
  shows "tokens_grow H db d"
  by (rule grow_tokens) (use assms in \<open>auto split: if_splits\<close>)

lemma grow_spend: "db_tokens d = (db_tokens db)(T := map (spend P n) (db_tokens db T)) \<Longrightarrow> tokens_grow H db d"
  by (erule grow_update) auto

lemma grow_filter:
  "db_tokens d = db_tokens db \<Longrightarrow> tokens_grow H db d"
  "db_tokens d = (\<lambda>T. filter (P T) (db_tokens db T)) \<Longrightarrow> tokens_grow H db d"
  by (rule grow_tokens; auto)+

lemma grow_append:
  "db_tokens d = (db_tokens db)(T := db_tokens db T @ [t]) \<Longrightarrow> tk_TokenHash t \<notin> H T \<Longrightarrow> tokens_grow H db d"
  "db_tokens d = (db_tokens db)(T := map (spend P n) (db_tokens db T) @ [t]) \<Longrightarrow> tk_TokenHash t \<notin> H T \<Longrightarrow>
     tokens_grow H db d"
  by (erule grow_update; auto)+

lemma core_tokens: "core a = core b \<Longrightarrow> db_tokens a = db_tokens b" "core a = core b \<Longrightarrow> db_users a = db_users b"
  by (simp_all add: core_eq_iff)

section \<open>What one step does\<close>

lemma tx_failed:
  "StoreWithVerificationToken E u t db = (Inl e, d) \<Longrightarrow> core d = core db"
  "replace_token T t db = (Inl e, d) \<Longrightarrow> core d = core db"
  "VerifyEmailWithToken i v db = (Inl e, d) \<Longrightarrow> core d = core db"
  "ResetPasswordWithToken i v h db = (Inl e, d) \<Longrightarrow> core d = core db"
  "ChangePassword_tx v h db = (Inl e, d) \<Longrightarrow> core d = core db"
  "ChangeEmailWithToken E i v m db = (Inl e, d) \<Longrightarrow> core d = core db"
  "SetRoleByEmail_tx E m role db = (Inl e, d) \<Longrightarrow> core d = core db"
  "DeleteAccount_tx E v erasure db = (Inl e, d) \<Longrightarrow> core d = core db"
  unfolding StoreWithVerificationToken_def replace_token_def VerifyEmailWithToken_def ResetPasswordWithToken_def
    ChangePassword_tx_def ChangeEmailWithToken_def SetRoleByEmail_tx_def DeleteAccount_tx_def
  by (erule failed_transaction)+

abbreviation owner_spent :: "string \<Rightarrow> auth_db \<Rightarrow> auth_token \<Rightarrow> auth_token" where
  "owner_spent u db \<equiv> spend (\<lambda>t. tk_UserID t = u) (db_clock db)"

lemma step_tokens:
  "StoreWithVerificationToken E u t db = (Inr (), d) \<Longrightarrow>
     db_tokens d = (db_tokens db)(VerificationTokens := db_tokens db VerificationTokens @ [t])"
  "replace_token T t db = (Inr (), d) \<Longrightarrow>
     db_tokens d = (db_tokens db)(T := map (owner_spent (tk_UserID t) db) (db_tokens db T) @ [t])"
  "revoke_unused T v db = (Inr (), d) \<Longrightarrow> db_tokens d = (db_tokens db)(T := map (owner_spent v db) (db_tokens db T))"
  "VerifyEmailWithToken i v db = (Inr y, d) \<Longrightarrow> db_tokens d = (db_tokens db)(VerificationTokens :=
     map (spend (\<lambda>t. tk_ID t = i \<and> tk_UserID t = v) (db_clock db)) (db_tokens db VerificationTokens))"
  "ResetPasswordWithToken i v h db = (Inr y, d) \<Longrightarrow>
     db_tokens d = (db_tokens db)(ResetTokens := map (owner_spent v db) (db_tokens db ResetTokens))"
  "ChangePassword_tx v h db = (Inr y, d) \<Longrightarrow>
     db_tokens d = (db_tokens db)(ResetTokens := map (owner_spent v db) (db_tokens db ResetTokens))"
  "ChangeEmailWithToken E i v m db = (Inr c, d) \<Longrightarrow>
     db_tokens d = (db_tokens db)(ChangeTokens := map (owner_spent v db) (db_tokens db ChangeTokens))"
  "SetRoleByEmail_tx E m role db = (Inr rc, d) \<Longrightarrow> db_tokens d = db_tokens db"
  "DeleteAccount_tx E v erasure db = (Inr (), d) \<Longrightarrow>
     db_tokens d = (\<lambda>T. filter (\<lambda>t. tk_UserID t \<noteq> v) (db_tokens db T))"
          apply (drule store_run, simp add: core_eq_iff registered_def)
         apply (drule replace_token_run, simp add: core_eq_iff)
        apply (drule revoke_unused_run, simp add: core_eq_iff revoke_tokens_def)
       apply (drule verify_tx_run, auto simp: core_eq_iff users_updated_def)[1]
      apply (drule reset_tx_run, auto simp: core_eq_iff tx_defs)[1]
     apply (drule change_password_tx_run, auto simp: core_eq_iff tx_defs)[1]
    apply (drule change_email_tx_run, auto simp: core_eq_iff tx_defs)[1]
   apply (drule role_tx_run, auto simp: core_eq_iff)[1]
  apply (drule delete_tx_run, auto simp: core_eq_iff scrubbed_def users_updated_def queue_erasure_def split: option.splits)[1]
  done

lemma step_grows: "account_step H E db db' \<Longrightarrow> tokens_grow H db db'"
proof (induction rule: account_step.induct)
  case (register t u db)
  show ?case
    by (rule step_outcome) (use register in \<open>auto intro: grow_core grow_append(1) dest: tx_failed step_tokens(1)\<close>)
next
  case (replace t T db)
  show ?case
    by (rule step_outcome) (use replace in \<open>auto intro: grow_core grow_append(2) dest: tx_failed step_tokens(2)\<close>)
next
  case (revoke db T u)
  show ?case by (rule step_outcome) (auto intro: grow_core grow_spend dest: failed_statement step_tokens(3))
next
  case (verify db i u)
  show ?case by (rule step_outcome) (auto intro: grow_core grow_spend dest: tx_failed step_tokens(4))
next
  case (reset db i u h)
  show ?case by (rule step_outcome) (auto intro: grow_core grow_spend dest: tx_failed step_tokens(5))
next
  case (change_password db u h)
  show ?case by (rule step_outcome) (auto intro: grow_core grow_spend dest: tx_failed step_tokens(6))
next
  case (change_email db i u m)
  show ?case by (rule step_outcome) (auto intro: grow_core grow_spend dest: tx_failed step_tokens(7))
next
  case (set_role db m role)
  show ?case by (rule step_outcome) (auto intro: grow_core grow_filter(1) dest: tx_failed step_tokens(8))
next
  case (delete db u erasure)
  show ?case by (rule step_outcome) (auto intro: grow_core grow_filter(2) dest: tx_failed step_tokens(9))
next
  case (cleanup db T now cutoff)
  show ?case
  proof (rule step_outcome)
    fix x d assume "delete_old_tokens T now cutoff db = (Inr x, d)"
    from delete_old_run [OF this] obtain P where "db_tokens d = (db_tokens db)(T := filter P (db_tokens db T))"
      by (auto simp: core_eq_iff)
    then show "tokens_grow H db d" by (rule grow_update) auto
  qed (auto intro: grow_core dest: failed_statement)
next
  case (elsewhere db' db)
  then show ?case by (intro grow_filter(1))
qed

section \<open>A spent token stays spent\<close>

definition hash_spent :: "token_table \<Rightarrow> string \<Rightarrow> auth_db \<Rightarrow> bool" where
  "hash_spent T h db \<longleftrightarrow> list_all (\<lambda>t. tk_TokenHash t = h \<longrightarrow> tk_UsedAt t \<noteq> None) (db_tokens db T)"

lemma hash_spent_step:
  assumes "account_step H E db db'" "h \<in> H T" "hash_spent T h db"
  shows "hash_spent T h db'"
  using step_grows [OF assms(1)] assms(2,3) unfolding tokens_grow_def hash_spent_def list_all_iff by blast

lemma hash_spent_steps:
  "(account_step H E)\<^sup>*\<^sup>* db db' \<Longrightarrow> h \<in> H T \<Longrightarrow> hash_spent T h db \<Longrightarrow> hash_spent T h db'"
  using account_steps_keep [where P = "hash_spent T h"] hash_spent_step by metis

end
