(* ===== verification/Account_Props.thy ===== *)
theory Account_Props
  imports Account_Steps
begin

text \<open>
  What the account use cases guarantee: what a successful reset, password change, address change,
  registration or deletion did to every table, and what it required.
\<close>

section \<open>A successful use case, step by step\<close>

lemma reset_with_run:
  assumes "reset_with C E q D token password db = (Inr user, d)"
  shows "\<exists>t hash mid. hashPasswordResetToken E token = Some (tk_TokenHash t) \<and>
    t \<in> set (db_tokens db ResetTokens) \<and> tk_UsedAt t = None \<and> rq_now q < tk_ExpiresAt t \<and>
    ae_hash E (ad_salt D) password = Some hash \<and> core mid = core db \<and>
    ResetPasswordWithToken (tk_ID t) (tk_UserID t) hash mid = (Inr user, d)"
proof -
  obtain m1 h t m2 hash where
    lim: "limited C E q ''reset_password'' (''token'', token, ac_ResetPasswordToken C) (ac_ResetPasswordIP C) db
      = (Inr (), m1)"
    and h: "hashPasswordResetToken E token = Some h"
    and get: "token_by_hash ResetTokens ErrPasswordResetTokenNotFound h m1 = (Inr t, m2)"
    and ok: "tk_UsedAt t = None" "rq_now q < tk_ExpiresAt t" "ae_hash E (ad_salt D) password = Some hash"
    and tx: "ResetPasswordWithToken (tk_ID t) (tk_UserID t) hash m2 = (Inr user, d)"
    using assms by (auto simp: reset_with_def GetPasswordResetTokenByHash_def op_runs
        split: option.splits if_splits)
  have m: "core m1 = core db" "core m2 = core db"
    using limited_run [OF lim] token_reads_run(1) [OF get] by simp_all
  then have "t \<in> set (db_tokens db ResetTokens)" "tk_TokenHash t = h"
    using find_SomeD [OF token_by_hash_run [OF get]] by (simp_all add: core_eq_iff)
  with h ok tx m show ?thesis by blast
qed

lemma reset_run:
  assumes "ResetPassword C E q D rawToken password db = (Inr (), db')"
  shows "\<exists>user d. validPassword password \<and>
    reset_with C E q D (trim_space rawToken) password db = (Inr user, d) \<and> core db' = core d"
proof -
  obtain u mid where body: "(if \<not> validPassword password then caught '''' (op_fail ErrInvalidAuthInput)
      else let token = trim_space rawToken in
        if maxResetTokenInputBytes < length token then caught '''' (op_fail ErrInvalidPasswordResetToken)
        else op_try (reset_with C E q D token password)
          (\<lambda>e. caught '''' (op_fail e))
          (\<lambda>user. caught (usr_ID user) (op_ret ()))) db = (Inr (u, Inr ()), mid)"
    and out: "core db' = core mid"
    using audited_Inr [OF assms [unfolded ResetPassword_def]] by (elim exE conjE)
  have pw: "validPassword password" using body by (simp add: op_runs split: if_splits)
  obtain user d where "reset_with C E q D (trim_space rawToken) password db = (Inr user, d)" "mid = d"
    using body pw by (auto simp: Let_def op_runs split: if_splits)
  with pw out show ?thesis by blast
qed

text \<open>The tables after a credential change: the shape the three transactions share.\<close>

lemma credential_effect:
  assumes "core d = core (sessions_ended u (revoke_tokens T u n (users_updated u f mid)))"
    and "core mid = core db" "core db' = core d"
  shows "db_users db' = on_live u f (db_users db)"
    "db_sessions db' = revoke_rows (\<lambda>r. as_UserID r = u) (db_clock db) (db_sessions db)"
    "db_tokens db' = (db_tokens db)(T := map (spend (\<lambda>r. tk_UserID r = u) n) (db_tokens db T))"
    "db_mfa db' = db_mfa db" "db_codes db' = db_codes db" "db_challenges db' = db_challenges db"
    "db_profiles db' = db_profiles db" "db_owned db' = db_owned db" "db_erasures db' = db_erasures db"
    "db_clock db' = db_clock db"
proof -
  have c: "core db' = core (sessions_ended u (revoke_tokens T u n (users_updated u f db)))"
    unfolding assms(3,1) by (intro core_step assms)
  note sel = sessions_ended_def users_updated_def revoke_tokens_def
  show "db_users db' = on_live u f (db_users db)"
    using arg_cong [OF c, of db_users] by (simp add: sel)
  show "db_sessions db' = revoke_rows (\<lambda>r. as_UserID r = u) (db_clock db) (db_sessions db)"
    using arg_cong [OF c, of db_sessions] by (simp add: sel)
  show "db_tokens db' = (db_tokens db)(T := map (spend (\<lambda>r. tk_UserID r = u) n) (db_tokens db T))"
    using arg_cong [OF c, of db_tokens] by (simp add: sel)
  show "db_mfa db' = db_mfa db" using arg_cong [OF c, of db_mfa] by (simp add: sel)
  show "db_codes db' = db_codes db" using arg_cong [OF c, of db_codes] by (simp add: sel)
  show "db_challenges db' = db_challenges db" using arg_cong [OF c, of db_challenges] by (simp add: sel)
  show "db_profiles db' = db_profiles db" using arg_cong [OF c, of db_profiles] by (simp add: sel)
  show "db_owned db' = db_owned db" using arg_cong [OF c, of db_owned] by (simp add: sel)
  show "db_erasures db' = db_erasures db" using arg_cong [OF c, of db_erasures] by (simp add: sel)
  show "db_clock db' = db_clock db" using arg_cong [OF c, of db_clock] by (simp add: sel)
qed

text \<open>A reset does not touch the login lockouts either.\<close>

definition locked_as :: "AuthLoginLockout list \<Rightarrow> auth_db \<Rightarrow> bool" where
  "locked_as ks db \<longleftrightarrow> db_lockouts db = ks"

lemma locked_elsewhere: "(\<And>d. db_lockouts (snd (s d)) = db_lockouts d) \<Longrightarrow> keeps_op (locked_as ks) (statement s)"
  by (rule keeps_statement) (simp_all add: blind_def locked_as_def keeps_op_def)

lemma locked_blind: "blind (locked_as ks)"
  by (rule blindI) (simp add: locked_as_def)

lemma locked_statements:
  "keeps_op (locked_as ks) (update_live u f)" "keeps_op (locked_as ks) (revoke_unused T u)"
  "keeps_op (locked_as ks) (spend_token T e hit)" "keeps_op (locked_as ks) (revoke_where P)"
  "keeps_op (locked_as ks) (token_by_hash T e h)" "keeps_op (locked_as ks) (IncrementAuthRateLimit l w)"
  unfolding update_live_def revoke_unused_def spend_token_def revoke_where_def token_by_hash_def
    IncrementAuthRateLimit_def Let_def
  by (rule locked_elsewhere; simp split: option.split)+

lemma locked_enforce: "keeps_op (locked_as ks) (enforceAuthRateLimit C E now action cs)"
proof -
  have "keeps_op (locked_as ks) (enforce_checks E now action cs)"
  proof (induction cs)
    case (Cons c cs)
    show ?case unfolding enforce_checks.simps Let_def case_prod_beta
      by (intro op_keeps locked_statements Cons.IH)
  qed (simp add: op_keeps)
  then show ?thesis unfolding enforceAuthRateLimit_def by (intro op_keeps)
qed

lemma locked_reset: "keeps_op (locked_as ks) (ResetPassword C E q D token password)"
proof -
  have "keeps_op (locked_as ks) (reset_with C E q D t password)" for t
    unfolding reset_with_def limited_def GetPasswordResetTokenByHash_def ResetPasswordWithToken_def
      revokeAuthSessionsInTx_def
    by (intro op_keeps locked_blind locked_enforce locked_statements)
  moreover have "keeps_op (locked_as ks) (auditAuth c ev ok u)" for c ev ok u
    unfolding auditAuth_def by (intro op_keeps locked_elsewhere) simp
  ultimately show ?thesis
    unfolding ResetPassword_def with_audit_def case_prod_beta Let_def
    by (intro op_keeps keeps_case_sum)
qed

lemma set_spend_owner: "t' \<in> set (map (spend (\<lambda>t. tk_UserID t = u) now) ts) \<Longrightarrow> tk_UserID t' = u \<Longrightarrow> tk_UsedAt t' \<noteq> None"
proof -
  assume "t' \<in> set (map (spend (\<lambda>t. tk_UserID t = u) now) ts)" and u: "tk_UserID t' = u"
  then obtain x where x: "t' = spend (\<lambda>t. tk_UserID t = u) now x" unfolding set_map by blast
  then have "tk_UserID x = u" using u by (simp add: spend_def split: if_splits)
  with x show ?thesis by (simp add: spend_def unused_def)
qed



section \<open>Verification, password change, address change\<close>

lemma verify_token_run:
  assumes "verifyEmailWithToken C E q token db = (Inr user, d)"
  shows "\<exists>t mid. hashVerificationToken E token = Some (tk_TokenHash t) \<and>
    t \<in> set (db_tokens db VerificationTokens) \<and> tk_UsedAt t = None \<and> rq_now q < tk_ExpiresAt t \<and>
    core mid = core db \<and> VerifyEmailWithToken (tk_ID t) (tk_UserID t) mid = (Inr user, d)"
proof -
  obtain m1 h t m2 where
    lim: "limited C E q ''verify_email'' (''token'', token, ac_VerifyEmailToken C) (ac_VerifyEmailOTPIP C) db = (Inr (), m1)"
    and h: "hashVerificationToken E token = Some h"
    and get: "token_by_hash VerificationTokens ErrVerificationTokenNotFound h m1 = (Inr t, m2)"
    and ok: "tk_UsedAt t = None" "rq_now q < tk_ExpiresAt t"
    and tx: "VerifyEmailWithToken (tk_ID t) (tk_UserID t) m2 = (Inr user, d)"
    using assms by (auto simp: verifyEmailWithToken_def GetVerificationTokenByHash_def op_runs
        split: option.splits if_splits)
  have m: "core m1 = core db" "core m2 = core db"
    using limited_run [OF lim] token_reads_run(1) [OF get] by simp_all
  have "t \<in> set (db_tokens db VerificationTokens)" "tk_TokenHash t = h"
    using find_SomeD [OF token_by_hash_run [OF get]] core_tokens(1) [OF m(1)] by simp_all
  with h ok tx m show ?thesis by (intro exI [of _ t] exI [of _ m2]) simp
qed

lemma change_token_run:
  assumes "verifyEmailChangeWithToken C E q u token db = (Inr r, d)"
  shows "\<exists>t mid. hashEmailChangeToken E token = Some (tk_TokenHash t) \<and>
    t \<in> set (db_tokens db ChangeTokens) \<and> tk_UserID t = u \<and> tk_UsedAt t = None \<and> rq_now q < tk_ExpiresAt t \<and>
    core mid = core db \<and> ChangeEmailWithToken E (tk_ID t) u (tk_NewEmail t) mid = (Inr r, d)"
proof -
  obtain m1 h t m2 where
    lim: "limited C E q ''change_email_verify'' (''token'', token, ac_ChangeEmailToken C) (ac_ChangeEmailIP C) db = (Inr (), m1)"
    and h: "hashEmailChangeToken E token = Some h"
    and get: "token_by_hash ChangeTokens ErrEmailChangeTokenNotFound h m1 = (Inr t, m2)"
    and ok: "tk_UserID t = u" "tk_UsedAt t = None" "rq_now q < tk_ExpiresAt t"
    and tx: "ChangeEmailWithToken E (tk_ID t) u (tk_NewEmail t) m2 = (Inr r, d)"
    using assms by (auto simp: verifyEmailChangeWithToken_def GetEmailChangeTokenByHash_def op_runs
        split: option.splits if_splits)
  have m: "core m1 = core db" "core m2 = core db"
    using limited_run [OF lim] token_reads_run(1) [OF get] by simp_all
  have "t \<in> set (db_tokens db ChangeTokens)" "tk_TokenHash t = h"
    using find_SomeD [OF token_by_hash_run [OF get]] core_tokens(1) [OF m(1)] by simp_all
  with h ok tx m show ?thesis by (intro exI [of _ t] exI [of _ m2]) simp
qed

lemma change_otp_run:
  assumes "verifyEmailChangeWithOTP C E q u otp db = (Inr r, d)"
  shows "\<exists>t code mid. validateOTPInput otp = Some code \<and> ae_bcrypt E (tk_OTPHash t) code \<and>
    validStoredOTP (rq_now q) t \<and> t \<in> set (db_tokens db ChangeTokens) \<and> tk_UserID t = u \<and>
    tk_UsedAt t = None \<and> core mid = core db \<and> ChangeEmailWithToken E (tk_ID t) u (tk_NewEmail t) mid = (Inr r, d)"
proof -
  obtain m1 code t m2 where code: "validateOTPInput otp = Some code"
    and lim: "limited C E q ''change_email_verify'' (''user'', u, ac_ChangeEmailToken C) (ac_ChangeEmailIP C) db = (Inr (), m1)"
    and get: "latest_unused ChangeTokens ErrEmailChangeTokenNotFound u m1 = (Inr t, m2)"
    and ok: "validStoredOTP (rq_now q) t" "ae_bcrypt E (tk_OTPHash t) code"
    and tx: "ChangeEmailWithToken E (tk_ID t) u (tk_NewEmail t) m2 = (Inr r, d)"
    using assms by (auto simp: verifyEmailChangeWithOTP_def GetLatestUnusedEmailChangeToken_def op_runs
        split: option.splits if_splits)
  have m: "core m1 = core db" "core m2 = core db"
    using limited_run [OF lim] token_reads_run(2) [OF get] by simp_all
  have "t \<in> set (db_tokens db ChangeTokens)" "tk_UserID t = u" "tk_UsedAt t = None"
    using latest_unused_run [OF get] core_tokens(1) [OF m(1)] by (simp_all add: unused_def)
  with code ok tx m show ?thesis by (intro exI [of _ t] exI [of _ code] exI [of _ m2]) simp
qed

definition opened :: "auth_cfg \<Rightarrow> auth_env \<Rightarrow> session_request \<Rightarrow> user_row \<Rightarrow> string \<Rightarrow> AuthSession list" where
  "opened C E q user raw = (if cfg_sessions C then [new_session C E q user (rq_newID q) raw] else [])"

lemma issue_session_run:
  assumes "issueSession C E q user db = (Inr res, d)"
  shows "\<exists>raw. rq_random q = Some raw \<and> lr_User res = user \<and> lr_SessionID res = rq_newID q \<and>
    lr_RefreshToken res = ae_encode64 E raw \<and>
    core d = core (db\<lparr>db_sessions := db_sessions db @ opened C E q user raw\<rparr>)"
proof -
  obtain raw where raw: "rq_random q = Some raw" "lr_SessionID res = rq_newID q"
      "lr_RefreshToken res = ae_encode64 E raw" "lr_User res = user"
    and st: "(if \<not> cfg_sessions C then op_ret () else CreateAuthSession (new_session C E q user (rq_newID q) raw)) db = (Inr (), d)"
    using issue_row_run [OF assms [unfolded issueSession_def]] by (elim exE conjE) simp
  have "core d = core (db\<lparr>db_sessions := db_sessions db @ opened C E q user raw\<rparr>)"
  proof (cases "cfg_sessions C")
    case True
    with st have "insert_session (new_session C E q user (rq_newID q) raw) db = (Inr (), d)"
      by (simp add: CreateAuthSession_def)
    from statement_Inr [OF this [unfolded insert_session_def]] True show ?thesis
      by (auto simp: core_eq_iff opened_def split: if_splits)
  qed (use st in \<open>simp add: op_runs opened_def\<close>)
  with raw show ?thesis by blast
qed

lemma verify_email_run:
  assumes "VerifyEmail C E q rawToken rawEmail rawOTP db = (Inr (), db')"
  shows "\<exists>user d. core db' = core d \<and>
    (if trim_space rawToken \<noteq> ''''
     then trim_space rawEmail = '''' \<and> trim_space rawOTP = '''' \<and> verifyEmailWithToken C E q (trim_space rawToken) db = (Inr user, d)
     else verifyEmailWithOTP C E q (trim_space rawEmail) (trim_space rawOTP) db = (Inr user, d))"
proof -
  obtain u mid where body: "(let token = trim_space rawToken; email = trim_space rawEmail; otp = trim_space rawOTP in
      if token \<noteq> '''' \<and> (email \<noteq> '''' \<or> otp \<noteq> '''') then caught '''' (op_fail ErrInvalidAuthInput)
      else if token = '''' \<and> email = '''' \<and> otp = '''' then caught '''' (op_fail ErrInvalidAuthInput)
      else op_try (if token \<noteq> '''' then verifyEmailWithToken C E q token else verifyEmailWithOTP C E q email otp)
        (\<lambda>e. caught '''' (op_fail e))
        (\<lambda>user. caught (usr_ID user) (op_ret ()))) db = (Inr (u, Inr ()), mid)"
    and out: "core db' = core mid"
    using audited_Inr [OF assms [unfolded VerifyEmail_def]] by (elim exE conjE)
  show ?thesis
  proof (cases "trim_space rawToken = ''''")
    case True
    then obtain user where "verifyEmailWithOTP C E q (trim_space rawEmail) (trim_space rawOTP) db = (Inr user, mid)"
      using body by (auto simp: Let_def op_runs split: if_splits)
    with True out show ?thesis by (intro exI [of _ user] exI [of _ mid]) simp
  next
    case False
    then have "trim_space rawEmail = '''' \<and> trim_space rawOTP = ''''"
      using body by (auto simp: Let_def op_runs split: if_splits)
    moreover from this False obtain user where "verifyEmailWithToken C E q (trim_space rawToken) db = (Inr user, mid)"
      using body by (auto simp: Let_def op_runs)
    ultimately show ?thesis using False out by (intro exI [of _ user] exI [of _ mid]) simp
  qed
qed

lemma verify_change_run:
  assumes "VerifyEmailChange C E q userID rawToken rawOTP db = (Inr res, db')"
  shows "\<exists>r d d2. issueSession (ac_auth C) E q (ec_User r) d = (Inr res, d2) \<and> core db' = core d2 \<and>
    (if trim_space rawToken \<noteq> ''''
     then trim_space rawOTP = '''' \<and> verifyEmailChangeWithToken C E q userID (trim_space rawToken) db = (Inr r, d)
     else verifyEmailChangeWithOTP C E q userID (trim_space rawOTP) db = (Inr r, d))"
proof -
  obtain u mid where body: "(let uid = trim_space userID; token = trim_space rawToken; otp = trim_space rawOTP in
      if uid = '''' \<or> token \<noteq> '''' \<and> otp \<noteq> '''' \<or> token = '''' \<and> otp = ''''
      then caught uid (op_fail ErrInvalidAuthInput)
      else op_try (if token \<noteq> '''' then verifyEmailChangeWithToken C E q userID token
                   else verifyEmailChangeWithOTP C E q userID otp)
        (\<lambda>e. caught uid (op_fail e))
        (\<lambda>r. caught (usr_ID (ec_User r)) (issueSession (ac_auth C) E q (ec_User r)))) db = (Inr (u, Inr res), mid)"
    and out: "core db' = core mid"
    using audited_Inr [OF assms [unfolded VerifyEmailChange_def]] by (elim exE conjE)
  show ?thesis
  proof (cases "trim_space rawToken = ''''")
    case True
    then obtain r d where "verifyEmailChangeWithOTP C E q userID (trim_space rawOTP) db = (Inr r, d)"
        "issueSession (ac_auth C) E q (ec_User r) d = (Inr res, mid)"
      using body by (auto simp: Let_def op_runs split: if_splits)
    with True out show ?thesis by (intro exI [of _ r] exI [of _ d] exI [of _ mid]) simp
  next
    case False
    then have "trim_space rawOTP = ''''" using body by (auto simp: Let_def op_runs split: if_splits)
    moreover from this False obtain r d where "verifyEmailChangeWithToken C E q userID (trim_space rawToken) db = (Inr r, d)"
        "issueSession (ac_auth C) E q (ec_User r) d = (Inr res, mid)"
      using body by (auto simp: Let_def op_runs split: if_splits)
    ultimately show ?thesis using False out by (intro exI [of _ r] exI [of _ d] exI [of _ mid]) simp
  qed
qed

lemma change_password_run:
  assumes "ChangePassword C E q D userID old new db = (Inr res, db')"
  shows "\<exists>user hash mid changed d d2. validPassword new \<and> validPassword old \<and>
    find (live userID) (db_users db) = Some user \<and> ae_bcrypt E (usr_PasswordHash user) old \<and>
    ae_hash E (ad_salt D) new = Some hash \<and> core mid = core db \<and>
    ChangePassword_tx userID hash mid = (Inr changed, d) \<and>
    issueSession (ac_auth C) E q changed d = (Inr res, d2) \<and> core db' = core d2"
proof -
  obtain u mid where body: "(if trim_space userID = '''' \<or> \<not> validPassword old \<or> \<not> validPassword new
      then caught (trim_space userID) (op_fail ErrInvalidAuthInput)
      else op_try (op_bind (limited C E q ''change_password'' (''user'', userID, ac_ChangePasswordUser C) (ac_ChangePasswordIP C))
             (\<lambda>_. userWithVerifiedPassword E userID old))
           (\<lambda>e. caught (trim_space userID) (op_fail e))
           (\<lambda>user. caught (usr_ID user) (change_password_of C E q D (usr_ID user) new))) db = (Inr (u, Inr res), mid)"
    and out: "core db' = core mid"
    using audited_Inr [OF assms [unfolded ChangePassword_def]] by (elim exE conjE)
  have pw: "validPassword old" "validPassword new" "trim_space userID \<noteq> ''''"
    using body by (simp_all add: op_runs split: if_splits)
  obtain m1 user m2 where
    lim: "limited C E q ''change_password'' (''user'', userID, ac_ChangePasswordUser C) (ac_ChangePasswordIP C) db = (Inr (), m1)"
    and us: "userWithVerifiedPassword E userID old m1 = (Inr user, m2)"
    and ch: "change_password_of C E q D (usr_ID user) new m2 = (Inr res, mid)"
    using body pw by (auto simp: op_runs)
  have get: "user_GetByID userID m1 = (Inr user, m2)" and ok: "ae_bcrypt E (usr_PasswordHash user) old"
    using us by (auto simp: userWithVerifiedPassword_def op_runs split: if_splits)
  have m: "core m1 = core db" "core m2 = core db" using limited_run [OF lim] user_reads_run(1) [OF get] by simp_all
  have user: "find (live userID) (db_users db) = Some user"
    using get_user_run [OF get] core_tokens(2) [OF m(1)] by (simp add: live_def [abs_def])
  then have "usr_ID user = userID" by (auto dest: find_SomeD simp: live_def)
  then obtain hash changed d where "ae_hash E (ad_salt D) new = Some hash"
      "ChangePassword_tx userID hash m2 = (Inr changed, d)" "issueSession (ac_auth C) E q changed d = (Inr res, mid)"
    using ch by (auto simp: change_password_of_def op_runs split: option.splits)
  with pw user ok m out show ?thesis
    by (intro exI [of _ user] exI [of _ hash] exI [of _ m2] exI [of _ changed] exI [of _ d] exI [of _ mid]) simp
qed

section \<open>One-time tokens are spent once\<close>

lemma spent_after:
  assumes "distinct (map tk_TokenHash ts)" "t \<in> set ts" "tk_TokenHash t = h" "P t"
    and "db_tokens d T = map (spend P n) ts"
  shows "hash_spent T h d"
  unfolding hash_spent_def list_all_iff
proof (intro ballI impI)
  fix r assume r: "r \<in> set (db_tokens d T)" "tk_TokenHash r = h"
  then obtain s where s: "s \<in> set ts" "r = spend P n s" using assms(5) by auto
  then have "tk_TokenHash s = tk_TokenHash t" using r(2) assms(3) spend_grows(1) by simp
  then have "s = t" using assms(1,2) s(1) by (simp add: distinct_map inj_on_def)
  then show "tk_UsedAt r \<noteq> None" using assms(4) s(2) by (simp add: spend_def unused_def)
qed

lemma hash_spentD: "hash_spent T h db \<Longrightarrow> t \<in> set (db_tokens db T) \<Longrightarrow> tk_TokenHash t = h \<Longrightarrow> tk_UsedAt t \<noteq> None"
  by (simp add: hash_spent_def list_all_iff)

lemma hash_spent_core: "core a = core b \<Longrightarrow> hash_spent T h a = hash_spent T h b"
  by (simp add: hash_spent_def core_eq_iff)

lemma token_hashes_agree:
  "hashVerificationToken E t = hashPasswordResetToken E t" "hashEmailChangeToken E t = hashPasswordResetToken E t"
  by (simp_all add: hashVerificationToken_def hashPasswordResetToken_def hashEmailChangeToken_def
      verificationTokenBytes_def passwordResetTokenBytes_def emailChangeTokenBytes_def cong: option.case_cong)

lemma reset_spends:
  assumes "ResetPassword C E q D token pw db = (Inr (), d)" "hashPasswordResetToken E (trim_space token) = Some h"
  shows "\<not> hash_spent ResetTokens h db" and
    "distinct (map tk_TokenHash (db_tokens db ResetTokens)) \<Longrightarrow> hash_spent ResetTokens h d"
proof -
  obtain user m where rw: "reset_with C E q D (trim_space token) pw db = (Inr user, m)" and out: "core d = core m"
    using reset_run [OF assms(1)] by blast
  obtain t hash mid where t: "tk_TokenHash t = h" "t \<in> set (db_tokens db ResetTokens)" "tk_UsedAt t = None"
    and mid: "core mid = core db" and tx: "ResetPasswordWithToken (tk_ID t) (tk_UserID t) hash mid = (Inr user, m)"
    using reset_with_run [OF rw] assms(2) by auto
  show "\<not> hash_spent ResetTokens h db" using t hash_spentD by blast
  assume dist: "distinct (map tk_TokenHash (db_tokens db ResetTokens))"
  have "db_tokens m ResetTokens = map (owner_spent (tk_UserID t) mid) (db_tokens db ResetTokens)"
    using step_tokens(5) [OF tx] core_tokens(1) [OF mid] by simp
  from spent_after [OF dist t(2,1) _ this] show "hash_spent ResetTokens h d" using hash_spent_core [OF out] by simp
qed

lemma verify_spends:
  assumes "verifyEmailWithToken C E q token db = (Inr user, d)" "hashVerificationToken E token = Some h"
  shows "\<not> hash_spent VerificationTokens h db" and
    "distinct (map tk_TokenHash (db_tokens db VerificationTokens)) \<Longrightarrow> hash_spent VerificationTokens h d"
proof -
  obtain t mid where t: "tk_TokenHash t = h" "t \<in> set (db_tokens db VerificationTokens)" "tk_UsedAt t = None"
    and mid: "core mid = core db" and tx: "VerifyEmailWithToken (tk_ID t) (tk_UserID t) mid = (Inr user, d)"
    using verify_token_run [OF assms(1)] assms(2) by auto
  show "\<not> hash_spent VerificationTokens h db" using t hash_spentD by blast
  assume dist: "distinct (map tk_TokenHash (db_tokens db VerificationTokens))"
  have "db_tokens d VerificationTokens =
      map (spend (\<lambda>r. tk_ID r = tk_ID t \<and> tk_UserID r = tk_UserID t) (db_clock mid)) (db_tokens db VerificationTokens)"
    using step_tokens(4) [OF tx] core_tokens(1) [OF mid] by simp
  from spent_after [OF dist t(2,1) _ this] show "hash_spent VerificationTokens h d" by simp
qed

lemma change_spends:
  assumes "verifyEmailChangeWithToken C E q u token db = (Inr r, d)" "hashEmailChangeToken E token = Some h"
  shows "\<not> hash_spent ChangeTokens h db" and
    "distinct (map tk_TokenHash (db_tokens db ChangeTokens)) \<Longrightarrow> hash_spent ChangeTokens h d"
proof -
  obtain t mid where t: "tk_TokenHash t = h" "t \<in> set (db_tokens db ChangeTokens)" "tk_UsedAt t = None" "tk_UserID t = u"
    and mid: "core mid = core db" and tx: "ChangeEmailWithToken E (tk_ID t) u (tk_NewEmail t) mid = (Inr r, d)"
    using change_token_run [OF assms(1)] assms(2) by auto
  show "\<not> hash_spent ChangeTokens h db" using t hash_spentD by blast
  assume dist: "distinct (map tk_TokenHash (db_tokens db ChangeTokens))"
  have "db_tokens d ChangeTokens = map (owner_spent u mid) (db_tokens db ChangeTokens)"
    using step_tokens(7) [OF tx] core_tokens(1) [OF mid] by simp
  from spent_after [OF dist t(2,1) _ this] show "hash_spent ChangeTokens h d" using t(4) by simp
qed

text \<open>
  C9. A one-time token works once: after a password reset, an address verification or an address
  change succeeded with it, the same token is refused by that use case for good, whatever account
  transactions run in between and whichever of them fail, as long as the random source does not
  draw the hash again.
\<close>
theorem one_time_token_spent:
  assumes "hashPasswordResetToken E (trim_space token) = Some h" "\<And>T. h \<in> H T"
    and "\<And>T. distinct (map tk_TokenHash (db_tokens db T))" "(account_step H E)\<^sup>*\<^sup>* db1 db2"
  shows "(ResetPassword C E q D token pw db = (Inr (), db1) \<longrightarrow> fst (ResetPassword C' E q' D' token pw' db2) \<noteq> Inr ()) \<and>
    (verifyEmailWithToken C E q (trim_space token) db = (Inr user, db1) \<longrightarrow>
       fst (verifyEmailWithToken C' E q' (trim_space token) db2) \<noteq> Inr user') \<and>
    (verifyEmailChangeWithToken C E q u (trim_space token) db = (Inr r, db1) \<longrightarrow>
       fst (verifyEmailChangeWithToken C' E q' u' (trim_space token) db2) \<noteq> Inr r')"
proof (intro conjI impI)
  note hashes = assms(1) assms(1) [folded token_hashes_agree(1)] assms(1) [folded token_hashes_agree(2)]
  note later = hash_spent_steps [OF assms(4,2)]
  assume "ResetPassword C E q D token pw db = (Inr (), db1)"
  from later [OF reset_spends(2) [OF this hashes(1) assms(3)]]
  show "fst (ResetPassword C' E q' D' token pw' db2) \<noteq> Inr ()"
    using reset_spends(1) [OF _ hashes(1)] by (metis prod.collapse)
next
  note later = hash_spent_steps [OF assms(4,2)]
  assume "verifyEmailWithToken C E q (trim_space token) db = (Inr user, db1)"
  from later [OF verify_spends(2) [OF this assms(1) [folded token_hashes_agree(1)] assms(3)]]
  show "fst (verifyEmailWithToken C' E q' (trim_space token) db2) \<noteq> Inr user'"
    using verify_spends(1) [OF _ assms(1) [folded token_hashes_agree(1)]] by (metis prod.collapse)
next
  note later = hash_spent_steps [OF assms(4,2)]
  assume "verifyEmailChangeWithToken C E q u (trim_space token) db = (Inr r, db1)"
  from later [OF change_spends(2) [OF this assms(1) [folded token_hashes_agree(2)] assms(3)]]
  show "fst (verifyEmailChangeWithToken C' E q' u' (trim_space token) db2) \<noteq> Inr r'"
    using change_spends(1) [OF _ assms(1) [folded token_hashes_agree(2)]] by (metis prod.collapse)
qed

theorem one_time_token_spent_witness:
  "\<exists>db1. ResetPassword demo_account_cfg demo_env (demo_req ''s9'' CHR ''c'') demo_account_draws
       (demo_token CHR ''r'') ''password2'' demo_account_db = (Inr (), db1) \<and>
     fst (ResetPassword demo_account_cfg demo_env (demo_req ''s8'' CHR ''c'') demo_account_draws
       (demo_token CHR ''r'') ''password3''
       (snd (replace_token ResetTokens (demo_auth_token CHR ''z'' '''') db1))) \<noteq> Inr ()"
proof -
  let ?h = "CHR ''h'' # demo_token CHR ''r''" and ?H = "\<lambda>_::token_table. {CHR ''h'' # demo_token CHR ''r''}"
  let ?run = "ResetPassword demo_account_cfg demo_env (demo_req ''s9'' CHR ''c'') demo_account_draws
       (demo_token CHR ''r'') ''password2''"
  have ok: "\<not> isl (fst (?run demo_account_db))" by (simp add: demo_eval)
  obtain db1 where run: "?run demo_account_db = (Inr (), db1)" using demo_account_run_unit [OF ok] by (elim exE)
  have h: "hashPasswordResetToken demo_env (trim_space (demo_token CHR ''r'')) = Some ?h" by (simp add: demo_eval)
  have dist: "distinct (map tk_TokenHash (db_tokens demo_account_db T))" for T by (cases T) (simp_all add: demo_eval)
  have fresh: "tk_TokenHash (demo_auth_token CHR ''z'' '''') \<notin> ?H ResetTokens" by (simp add: demo_eval)
  have step: "(account_step ?H demo_env)\<^sup>*\<^sup>* db1
      (snd (replace_token ResetTokens (demo_auth_token CHR ''z'' '''') db1))"
    by (rule r_into_rtranclp, rule account_step.replace [OF fresh])
  have "h' \<in> ?H T" if "h' = ?h" for h' T using that by simp
  note spent = one_time_token_spent [where H = ?H, OF h this [OF refl] dist step]
  show ?thesis by (rule exI [of _ db1], rule conjI [OF run], rule spent [THEN conjunct1, THEN mp, OF run])
qed

end
