(* ===== verification/Account_Change.thy ===== *)
theory Account_Change
  imports Account_Props
begin

text \<open>
  Password change, address change, deletion and role assignment: what a successful request required
  and what it did to every table.
\<close>

section \<open>Password and address\<close>

lemma issued_after:
  assumes "core d2 = core (d\<lparr>db_sessions := db_sessions d @ s\<rparr>)" "core db' = core d2"
  shows "db_users db' = db_users d" "db_sessions db' = db_sessions d @ s" "db_tokens db' = db_tokens d"
proof -
  note c = assms(2) [unfolded assms(1)]
  show "db_users db' = db_users d" using arg_cong [OF c, of db_users] by simp
  show "db_sessions db' = db_sessions d @ s" using arg_cong [OF c, of db_sessions] by simp
  show "db_tokens db' = db_tokens d" using arg_cong [OF c, of db_tokens] by simp
qed

text \<open>
  C32. A password change succeeds only for a live account whose stored hash matches the old
  password. It stores the hash of the new one, raises the token version, revokes every session the
  account had, spends its reset tokens and opens exactly the one session it answers with.
\<close>
theorem change_password_complete:
  assumes "ChangePassword C E q D userID oldPassword newPassword db = (Inr res, db')"
  shows "\<exists>user hash raw. validPassword newPassword \<and> find (live userID) (db_users db) = Some user \<and>
    ae_bcrypt E (usr_PasswordHash user) oldPassword \<and> ae_hash E (ad_salt D) newPassword = Some hash \<and>
    lr_User res = bumped (user\<lparr>usr_PasswordHash := hash\<rparr>) \<and> lr_RefreshToken res = ae_encode64 E raw \<and>
    db_users db' = on_live userID (\<lambda>u. bumped (u\<lparr>usr_PasswordHash := hash\<rparr>)) (db_users db) \<and>
    db_sessions db' = revoke_rows (\<lambda>r. as_UserID r = userID) (db_clock db) (db_sessions db) @
      opened (ac_auth C) E q (lr_User res) raw \<and>
    db_tokens db' = (db_tokens db)(ResetTokens :=
      map (spend (\<lambda>r. tk_UserID r = userID) (db_clock db)) (db_tokens db ResetTokens))"
proof -
  obtain user hash mid changed d d2 where pw: "validPassword newPassword"
    and user: "find (live userID) (db_users db) = Some user" "ae_bcrypt E (usr_PasswordHash user) oldPassword"
    and hash: "ae_hash E (ad_salt D) newPassword = Some hash" and mid: "core mid = core db"
    and tx: "ChangePassword_tx userID hash mid = (Inr changed, d)"
    and iss: "issueSession (ac_auth C) E q changed d = (Inr res, d2)" and out: "core db' = core d2"
    using change_password_run [OF assms] by (elim exE conjE)
  obtain old where old: "find (live userID) (db_users mid) = Some old" "changed = bumped (old\<lparr>usr_PasswordHash := hash\<rparr>)"
    and c: "core d = core (sessions_ended userID (revoke_tokens ResetTokens userID (db_clock mid)
      (users_updated userID (\<lambda>v. bumped (v\<lparr>usr_PasswordHash := hash\<rparr>)) mid)))"
    using change_password_tx_run [OF tx] by (elim exE conjE)
  obtain raw where raw: "lr_User res = changed" "lr_RefreshToken res = ae_encode64 E raw"
    and iss': "core d2 = core (d\<lparr>db_sessions := db_sessions d @ opened (ac_auth C) E q changed raw\<rparr>)"
    using issue_session_run [OF iss] by (elim exE conjE)
  note eff = credential_effect [OF c mid refl, unfolded core_step(4) [OF mid]]
  note fin = issued_after [OF iss' out]
  have "old = user" using old(1) user(1) core_tokens(2) [OF mid] by simp
  then show ?thesis using pw user hash raw old(2) fin eff
    by (intro exI [of _ user] exI [of _ hash] exI [of _ raw]) simp
qed

theorem change_password_complete_witness:
  "\<exists>res db'. ChangePassword demo_account_cfg demo_env (demo_req ''s9'' CHR ''c'') demo_account_draws
       ''u1'' ''password1'' ''password2'' demo_account_db = (Inr res, db') \<and>
     map usr_PasswordHash (db_users db') = [''password2'', ''correct''] \<and>
     map as_RevokedAt (db_sessions db') = [Some 500, None, None]"
proof -
  let ?run = "ChangePassword demo_account_cfg demo_env (demo_req ''s9'' CHR ''c'') demo_account_draws
       ''u1'' ''password1'' ''password2'' demo_account_db"
  have ok: "\<not> isl (fst ?run)" by (simp add: demo_eval)
  obtain res db' where run: "?run = (Inr res, db')" using demo_account_run [OF ok] by (elim exE)
  obtain hash raw where hash: "ae_hash demo_env (ad_salt demo_account_draws) ''password2'' = Some hash"
    and out: "db_users db' = on_live ''u1'' (\<lambda>u. bumped (u\<lparr>usr_PasswordHash := hash\<rparr>)) (db_users demo_account_db)"
      "db_sessions db' = revoke_rows (\<lambda>r. as_UserID r = ''u1'') (db_clock demo_account_db) (db_sessions demo_account_db) @
        opened (ac_auth demo_account_cfg) demo_env (demo_req ''s9'' CHR ''c'') (lr_User res) raw"
    using change_password_complete [OF run] by (elim exE conjE)
  have h: "hash = ''password2''" using hash by (simp add: demo_eval)
  have "map usr_PasswordHash (db_users db') = [''password2'', ''correct'']"
    "map as_RevokedAt (db_sessions db') = [Some 500, None, None]"
    unfolding out h by (simp_all add: demo_eval on_live_def revoke_rows_def opened_def)
  with run show ?thesis by (intro exI [of _ res] exI [of _ db'] conjI)
qed

text \<open>
  C31. An address change succeeds only with the token or the code of an unused, unexpired change
  row of the account, for an address no other account has. It sets exactly the address of that row,
  marks it verified, raises the token version, revokes every session of the account, spends its
  change tokens and opens one session; the reset tokens of the account stay as they were.
\<close>
theorem email_change_complete:
  assumes "VerifyEmailChange C E q userID rawToken rawOTP db = (Inr res, db')"
  shows "\<exists>t old raw. t \<in> set (db_tokens db ChangeTokens) \<and> tk_UserID t = userID \<and> tk_UsedAt t = None \<and>
    rq_now q < tk_ExpiresAt t \<and>
    (if trim_space rawToken \<noteq> '''' then hashEmailChangeToken E (trim_space rawToken) = Some (tk_TokenHash t)
     else \<exists>code. validateOTPInput (trim_space rawOTP) = Some code \<and> ae_bcrypt E (tk_OTPHash t) code) \<and>
    find (live userID) (db_users db) = Some old \<and> \<not> email_taken E db userID (tk_NewEmail t) \<and>
    lr_User res = with_email (tk_NewEmail t) (db_clock db) old \<and>
    db_users db' = on_live userID (with_email (tk_NewEmail t) (db_clock db)) (db_users db) \<and>
    db_sessions db' = revoke_rows (\<lambda>r. as_UserID r = userID) (db_clock db) (db_sessions db) @
      opened (ac_auth C) E q (lr_User res) raw \<and>
    db_tokens db' = (db_tokens db)(ChangeTokens :=
      map (spend (\<lambda>r. tk_UserID r = userID) (db_clock db)) (db_tokens db ChangeTokens)) \<and>
    db_tokens db' ResetTokens = db_tokens db ResetTokens"
proof -
  obtain r d d2 where iss: "issueSession (ac_auth C) E q (ec_User r) d = (Inr res, d2)" and out: "core db' = core d2"
    and path: "if trim_space rawToken \<noteq> ''''
     then trim_space rawOTP = '''' \<and> verifyEmailChangeWithToken C E q userID (trim_space rawToken) db = (Inr r, d)
     else verifyEmailChangeWithOTP C E q userID (trim_space rawOTP) db = (Inr r, d)"
    using verify_change_run [OF assms] by (elim exE conjE)
  obtain t mid where t: "t \<in> set (db_tokens db ChangeTokens)" "tk_UserID t = userID" "tk_UsedAt t = None"
      "rq_now q < tk_ExpiresAt t"
    and proof_of: "if trim_space rawToken \<noteq> '''' then hashEmailChangeToken E (trim_space rawToken) = Some (tk_TokenHash t)
       else \<exists>code. validateOTPInput (trim_space rawOTP) = Some code \<and> ae_bcrypt E (tk_OTPHash t) code"
    and mid: "core mid = core db" and tx: "ChangeEmailWithToken E (tk_ID t) userID (tk_NewEmail t) mid = (Inr r, d)"
  proof (cases "trim_space rawToken = ''''")
    case True
    with path have "verifyEmailChangeWithOTP C E q userID (trim_space rawOTP) db = (Inr r, d)" by simp
    from change_otp_run [OF this] obtain t code mid where "validateOTPInput (trim_space rawOTP) = Some code"
      "ae_bcrypt E (tk_OTPHash t) code" "validStoredOTP (rq_now q) t" "t \<in> set (db_tokens db ChangeTokens)"
      "tk_UserID t = userID" "tk_UsedAt t = None" "core mid = core db"
      "ChangeEmailWithToken E (tk_ID t) userID (tk_NewEmail t) mid = (Inr r, d)" by (elim exE conjE)
    with True that [of t mid] show thesis by (simp add: validStoredOTP_def split: option.splits)
  next
    case False
    with path have "verifyEmailChangeWithToken C E q userID (trim_space rawToken) db = (Inr r, d)" by simp
    from change_token_run [OF this] False that show thesis by (elim exE conjE) simp
  qed
  obtain old where old: "find (live userID) (db_users mid) = Some old" "\<not> email_taken E mid userID (tk_NewEmail t)"
    and r: "r = \<lparr>ec_User = with_email (tk_NewEmail t) (db_clock mid) old, ec_OldEmail = usr_Email old, ec_NewEmail = tk_NewEmail t\<rparr>"
    and c: "core d = core (sessions_ended userID (revoke_tokens ChangeTokens userID (db_clock mid)
      (users_updated userID (with_email (tk_NewEmail t) (db_clock mid)) mid)))"
    using change_email_tx_run [OF tx] by (elim exE conjE)
  obtain raw where raw: "lr_User res = ec_User r"
    and iss': "core d2 = core (d\<lparr>db_sessions := db_sessions d @ opened (ac_auth C) E q (ec_User r) raw\<rparr>)"
    using issue_session_run [OF iss] by (elim exE conjE)
  note eff = credential_effect [OF c mid refl, unfolded core_step(4) [OF mid]]
  note fin = issued_after [OF iss' out]
  have "find (live userID) (db_users db) = Some old" "\<not> email_taken E db userID (tk_NewEmail t)"
    using old core_tokens(2) [OF mid] email_taken_core [OF mid] by simp_all
  then show ?thesis using t proof_of r raw fin eff core_step(4) [OF mid]
    by (intro exI [of _ t] exI [of _ old] exI [of _ raw]) simp
qed

theorem email_change_complete_witness:
  "\<exists>res db'. VerifyEmailChange demo_account_cfg demo_env (demo_req ''s9'' CHR ''d'') ''u1''
       (demo_token CHR ''c'') '''' demo_account_db = (Inr res, db') \<and>
     map usr_Email (db_users db') = [''b@x'', ''u2''] \<and> map as_RevokedAt (db_sessions db') = [Some 500, None, None] \<and>
     map tk_UsedAt (db_tokens db' ResetTokens) = [None]"
proof -
  let ?run = "VerifyEmailChange demo_account_cfg demo_env (demo_req ''s9'' CHR ''d'') ''u1''
       (demo_token CHR ''c'') '''' demo_account_db"
  have ok: "\<not> isl (fst ?run)" by (simp add: demo_eval)
  obtain res db' where run: "?run = (Inr res, db')" using demo_account_run [OF ok] by (elim exE)
  obtain t raw where t: "t \<in> set (db_tokens demo_account_db ChangeTokens)"
    and out: "db_users db' = on_live ''u1'' (with_email (tk_NewEmail t) (db_clock demo_account_db)) (db_users demo_account_db)"
      "db_sessions db' = revoke_rows (\<lambda>r. as_UserID r = ''u1'') (db_clock demo_account_db) (db_sessions demo_account_db) @
        opened (ac_auth demo_account_cfg) demo_env (demo_req ''s9'' CHR ''d'') (lr_User res) raw"
      "db_tokens db' ResetTokens = db_tokens demo_account_db ResetTokens"
    using email_change_complete [OF run] by (elim exE conjE)
  have e: "tk_NewEmail t = ''b@x''" using t by (simp add: demo_eval)
  have "map usr_Email (db_users db') = [''b@x'', ''u2'']" "map as_RevokedAt (db_sessions db') = [Some 500, None, None]"
    "map tk_UsedAt (db_tokens db' ResetTokens) = [None]"
    unfolding out e by (simp_all add: demo_eval on_live_def revoke_rows_def opened_def)
  with run show ?thesis by (intro exI [of _ res] exI [of _ db'] conjI)
qed

section \<open>Deletion\<close>

lemma delete_account_run:
  assumes "DeleteAccount C E q D userID pw db = (Inr (), db')"
  shows "\<exists>user erasure mid d. validPassword pw \<and> find (live userID) (db_users db) = Some user \<and>
    ae_bcrypt E (usr_PasswordHash user) pw \<and> erasure = (if ac_providerErasure C then ad_erasure D else None) \<and>
    (ac_providerErasure C \<longrightarrow> erasure \<noteq> None) \<and> core mid = core db \<and>
    DeleteAccount_tx E userID erasure mid = (Inr (), d) \<and> core db' = core d"
proof -
  obtain u mid where body: "(if trim_space userID = '''' \<or> \<not> validPassword pw
      then caught (trim_space userID) (op_fail ErrInvalidAuthInput)
      else op_try (op_bind (limited C E q ''account_delete'' (''user'', userID, ac_DeleteAccountUser C) (ac_DeleteAccountIP C))
             (\<lambda>_. op_try (user_GetByID userID)
                (\<lambda>e. op_fail (if e = ErrUserNotFound then ErrInvalidCredentials else e)) op_ret))
           (\<lambda>e. caught (trim_space userID) (op_fail e))
           (\<lambda>user. caught (usr_ID user) (delete_account_of C E D user pw))) db = (Inr (u, Inr ()), mid)"
    and out: "core db' = core mid"
    using audited_Inr [OF assms [unfolded DeleteAccount_def]] by (elim exE conjE)
  have pw: "validPassword pw" "trim_space userID \<noteq> ''''" using body by (simp_all add: op_runs split: if_splits)
  obtain m1 user m2 where
    lim: "limited C E q ''account_delete'' (''user'', userID, ac_DeleteAccountUser C) (ac_DeleteAccountIP C) db = (Inr (), m1)"
    and get: "user_GetByID userID m1 = (Inr user, m2)" and del: "delete_account_of C E D user pw m2 = (Inr (), mid)"
    using body pw by (auto simp: op_runs)
  have m: "core m1 = core db" "core m2 = core db" using limited_run [OF lim] user_reads_run(1) [OF get] by simp_all
  have user: "find (live userID) (db_users db) = Some user"
    using get_user_run [OF get] core_tokens(2) [OF m(1)] by (simp add: live_def [abs_def])
  then have "usr_ID user = userID" by (auto dest: find_SomeD simp: live_def)
  with del have "ae_bcrypt E (usr_PasswordHash user) pw \<and> (ac_providerErasure C \<longrightarrow> ad_erasure D \<noteq> None) \<and>
      DeleteAccount_tx E userID (if ac_providerErasure C then ad_erasure D else None) m2 = (Inr (), mid)"
    by (auto simp: delete_account_of_def op_runs split: if_splits option.splits)
  with pw user m out show ?thesis
    by (intro exI [of _ user] exI [of _ "if ac_providerErasure C then ad_erasure D else None"] exI [of _ m2] exI [of _ mid]) simp
qed

lemma deleted_not_live: "find (live u) (on_live u (anonymized n) us) = None"
proof -
  have "\<not> live u (anonymized n v)" for v
    by (simp add: live_def anonymized_def bumped_def)
  then show ?thesis by (auto simp: find_None_iff on_live_def)
qed

text \<open>
  C29. An account is deleted only for its password, and with a provider configured only together
  with a prepared erasure request. What is left is one tombstone row without a usable address
  or password and a blanked profile, and no session, one-time token, second factor, recovery code or challenge
  of the account. Of the other tables that carry its identifier exactly these lose its rows:
  preferences, tasks, history, the two reading positions, saved items, translation feedback and
  login fingerprints. Its rows of every other such table stay (reading activity, khatam cycles,
  email subscriptions and notification deliveries among them), and every row of another account
  stays.
\<close>
theorem delete_account_complete:
  assumes "DeleteAccount C E q D userID password db = (Inr (), db')"
  shows "\<exists>user. find (live userID) (db_users db) = Some user \<and> ae_bcrypt E (usr_PasswordHash user) password \<and>
    db_users db' = on_live userID (anonymized (db_clock db)) (db_users db) \<and>
    find (live userID) (db_users db') = None \<and>
    db_sessions db' = filter (\<lambda>r. as_UserID r \<noteq> userID) (db_sessions db) \<and>
    db_tokens db' = (\<lambda>T. filter (\<lambda>t. tk_UserID t \<noteq> userID) (db_tokens db T)) \<and>
    db_mfa db' = filter (\<lambda>m. mfa_UserID m \<noteq> userID) (db_mfa db) \<and>
    db_codes db' = filter (\<lambda>c. rec_UserID c \<noteq> userID) (db_codes db) \<and>
    db_challenges db' = filter (\<lambda>c. ch_UserID c \<noteq> userID) (db_challenges db) \<and>
    db_profiles db' = map (blank_profile userID) (db_profiles db) \<and>
    db_owned db' = filter (\<lambda>r. \<not> (snd r = userID \<and> fst r \<in> {''user_preferences'', ''tasks'', ''history'',
      ''reading_progress'', ''quran_reading_progress'', ''saved_items'', ''translation_feedbacks'',
      ''auth_login_fingerprints''})) (db_owned db) \<and>
    (if ac_providerErasure C then \<exists>e. ad_erasure D = Some e \<and> db_erasures db' = db_erasures db @ [e]
     else db_erasures db' = db_erasures db)"
proof -
  obtain user erasure mid d where user: "find (live userID) (db_users db) = Some user" "ae_bcrypt E (usr_PasswordHash user) password"
    and er: "erasure = (if ac_providerErasure C then ad_erasure D else None)" "ac_providerErasure C \<longrightarrow> erasure \<noteq> None"
    and mid: "core mid = core db" and tx: "DeleteAccount_tx E userID erasure mid = (Inr (), d)" and out: "core db' = core d"
    using delete_account_run [OF assms] by (elim exE conjE)
  have "core d = core (queue_erasure erasure (scrubbed userID (users_updated userID (anonymized (db_clock mid)) mid)))"
    using delete_tx_run [OF tx] by (elim conjE)
  with out mid have c: "core db' = core (queue_erasure erasure (scrubbed userID (users_updated userID (anonymized (db_clock db)) db)))"
    by (simp add: core_eq_iff queue_erasure_def scrubbed_def users_updated_def split: option.splits)
  have q: "db_erasures db' = db_erasures db @ (case erasure of None \<Rightarrow> [] | Some e \<Rightarrow> [e])"
    using arg_cong [OF c, of db_erasures]
    by (simp add: queue_erasure_def scrubbed_def users_updated_def split: option.splits)
  have f: "db_users db' = on_live userID (anonymized (db_clock db)) (db_users db)"
    "db_sessions db' = filter (\<lambda>r. as_UserID r \<noteq> userID) (db_sessions db)"
    "db_tokens db' = (\<lambda>T. filter (\<lambda>t. tk_UserID t \<noteq> userID) (db_tokens db T))"
    "db_mfa db' = filter (\<lambda>m. mfa_UserID m \<noteq> userID) (db_mfa db)"
    "db_codes db' = filter (\<lambda>c. rec_UserID c \<noteq> userID) (db_codes db)"
    "db_challenges db' = filter (\<lambda>c. ch_UserID c \<noteq> userID) (db_challenges db)"
    "db_profiles db' = map (blank_profile userID) (db_profiles db)"
    "db_owned db' = filter (\<lambda>r. \<not> (snd r = userID \<and> fst r \<in> set erased_tables)) (db_owned db)"
    using c by (simp_all add: core_eq_iff queue_erasure_def scrubbed_def users_updated_def split: option.splits)
  have gone: "find (live userID) (db_users db') = None" unfolding f(1) by (rule deleted_not_live)
  have e: "if ac_providerErasure C then \<exists>e. ad_erasure D = Some e \<and> db_erasures db' = db_erasures db @ [e]
     else db_erasures db' = db_erasures db"
    using q er by (cases "ad_erasure D") simp_all
  have tables: "set erased_tables = {''user_preferences'', ''tasks'', ''history'', ''reading_progress'',
      ''quran_reading_progress'', ''saved_items'', ''translation_feedbacks'', ''auth_login_fingerprints''}"
    by (simp add: erased_tables_def content_tables_def)
  show ?thesis by (rule exI [of _ user]) (intro conjI user f(1-7) f(8) [unfolded tables] gone e)
qed

theorem delete_account_complete_witness:
  "\<exists>db'. DeleteAccount demo_account_cfg demo_env (demo_req ''s9'' CHR ''c'') demo_account_draws
       ''u1'' ''password1'' (demo_account_db\<lparr>db_owned := [(''tasks'', ''u1''), (''tasks'', ''u2''),
         (''reading_activity'', ''u1'')]\<rparr>) = (Inr (), db') \<and>
     map usr_Email (db_users db') = [''deleted+u1@deleted.local'', ''u2''] \<and> map as_UserID (db_sessions db') = [''u2''] \<and>
     db_owned db' = [(''tasks'', ''u2''), (''reading_activity'', ''u1'')]"
proof -
  define x where "x = demo_account_db\<lparr>db_owned := [(''tasks'', ''u1''), (''tasks'', ''u2''), (''reading_activity'', ''u1'')]\<rparr>"
  let ?run = "DeleteAccount demo_account_cfg demo_env (demo_req ''s9'' CHR ''c'') demo_account_draws ''u1'' ''password1'' x"
  have ok: "\<not> isl (fst ?run)" by (simp add: x_def demo_eval)
  obtain db' where run: "?run = (Inr (), db')" using demo_account_run_unit [OF ok] by (elim exE)
  have out: "db_users db' = on_live ''u1'' (anonymized (db_clock x)) (db_users x)"
    "db_sessions db' = filter (\<lambda>r. as_UserID r \<noteq> ''u1'') (db_sessions x)"
    "db_owned db' = filter (\<lambda>r. \<not> (snd r = ''u1'' \<and> fst r \<in> {''user_preferences'', ''tasks'', ''history'',
      ''reading_progress'', ''quran_reading_progress'', ''saved_items'', ''translation_feedbacks'',
      ''auth_login_fingerprints''})) (db_owned x)"
    using delete_account_complete [OF run] by auto
  have "map usr_Email (db_users db') = [''deleted+u1@deleted.local'', ''u2'']" "map as_UserID (db_sessions db') = [''u2'']"
     "db_owned db' = [(''tasks'', ''u2''), (''reading_activity'', ''u1'')]"
    unfolding out by (simp_all add: x_def demo_eval on_live_def)
  with run show ?thesis unfolding x_def by (intro exI [of _ db'] conjI)
qed

section \<open>Roles\<close>

lemma with_audit_core:
  assumes "body db = (Inr (u, x), mid)" "with_audit C ev body db = (r, db')"
  shows "r = x \<and> core db' = core mid"
proof -
  obtain d where d: "auditAuth C ev (case x of Inl _ \<Rightarrow> False | Inr _ \<Rightarrow> True) u mid = (Inr (), d)"
    using audit_Inr by blast
  with assms core_run [OF keeps_core_audit d] show ?thesis
    by (cases x) (simp_all add: with_audit_def op_bind_def op_ret_def op_fail_def)
qed

text \<open>A role change is refused and leaves the tables alone, or runs its transaction on another account.\<close>

lemma role_run:
  assumes "SetRoleByEmail C E actor email role db = (r, db')"
  shows "(\<exists>e. r = Inl e) \<and> core db' = core db \<or> (\<exists>r0 change d.
    NormalizeUserRole (ae_lower E) (ae_lower E (trim_space role)) = Inr r0 \<and>
    (ae_lower E (trim_space actor) = '''' \<or> ae_lower E (trim_space actor) \<noteq> ae_lower E (trim_space email)) \<and>
    SetRoleByEmail_tx E (ae_lower E (trim_space email)) r0 db = (Inr change, d) \<and>
    r = Inr (rc_User change) \<and> core db' = core d)"
proof -
  note run = assms [unfolded SetRoleByEmail_def Let_def]
  let ?actor = "ae_lower E (trim_space actor)" and ?target = "ae_lower E (trim_space email)"
  show ?thesis
  proof (cases "NormalizeUserRole (ae_lower E) (ae_lower E (trim_space role))")
    case (Inl e)
    have "r = Inl (ErrRole e) \<and> core db' = core db"
      by (rule with_audit_core [OF _ run]) (simp add: Inl caught_def op_try_def op_fail_def op_ret_def)
    then show ?thesis by simp
  next
    case (Inr r0)
    show ?thesis
    proof (cases "?actor \<noteq> '''' \<and> ?actor = ?target")
      case True
      have "r = Inl ErrSelfRoleChange \<and> core db' = core db"
        by (rule with_audit_core [where u = "''''", OF _ run]) (use True in \<open>auto simp: Inr caught_def op_try_def op_fail_def op_ret_def\<close>)
      then show ?thesis by simp
    next
      case False
      obtain x d where tx: "SetRoleByEmail_tx E ?target r0 db = (x, d)" by (cases "SetRoleByEmail_tx E ?target r0 db")
      show ?thesis
      proof (cases x)
        case e: (Inl e)
        have "r = Inl e \<and> core db' = core d" by (rule with_audit_core [OF _ run])
          (use tx e False in \<open>auto simp: Inr caught_def op_fail_def op_ret_def op_try_def\<close>)
        with tx_failed(7) tx e show ?thesis by auto
      next
        case change: (Inr change)
        have "r = Inr (rc_User change) \<and> core db' = core d" by (rule with_audit_core [OF _ run])
          (use tx change False in \<open>auto simp: Inr caught_def op_fail_def op_ret_def op_try_def\<close>)
        with tx change False Inr show ?thesis by auto
      qed
    qed
  qed
qed

text \<open>A role given to one account leaves an administrator when the guard of the transaction held.\<close>

lemma role_keeps_admin:
  assumes "distinct (map usr_ID us)" "u \<in> set us" "usr_DeletedAt u = None" "list_ex is_admin us"
    and "demotes u role \<longrightarrow> 1 < length (filter is_admin us)"
  shows "list_ex is_admin (map (\<lambda>v. if usr_ID v = usr_ID u then with_role E role n v else v) us)"
proof -
  have only: "v = u" if "v \<in> set us" "usr_ID v = usr_ID u" for v
    using that assms(1,2) by (simp add: distinct_map inj_on_def)
  obtain a where a: "a \<in> set us" "is_admin a" "a = u \<longrightarrow> role = UserRoleAdmin"
  proof (cases "demotes u role")
    case True
    have "\<exists>a\<in>set us. is_admin a \<and> a \<noteq> u"
    proof (rule ccontr)
      assume "\<not> ?thesis"
      then have "set (filter is_admin us) \<subseteq> {u}" by auto
      moreover have "distinct (filter is_admin us)" using assms(1) by (simp add: distinct_map)
      ultimately have "length (filter is_admin us) \<le> 1"
        using card_mono [of "{u}" "set (filter is_admin us)"] distinct_card by fastforce
      with assms(5) True show False by simp
    qed
    with that show thesis by blast
  next
    case False
    with assms(4) that show thesis by (auto simp: list_ex_iff demotes_def is_admin_def)
  qed
  show ?thesis
  proof (cases "a = u")
    case True
    then have "is_admin (with_role E role n u)" using a assms(3) by (simp add: is_admin_def with_role_def)
    with assms(2) show ?thesis by (auto simp: list_ex_iff)
  next
    case False
    then have "usr_ID a \<noteq> usr_ID u" using only a(1) by blast
    with a(1,2) show ?thesis by (auto simp: list_ex_iff)
  qed
qed

text \<open>
  Two demotions whose statements interleave: each locks its own row and counts two administrators
  before the other one writes, so both guards let it pass, and no administrator is left.
\<close>

lemma concurrent_demotions:
  fixes u1 u2 :: user_row
  defines "u1 \<equiv> (demo_user ''u1'')\<lparr>usr_Email := ''a'', usr_Role := UserRoleAdmin\<rparr>"
    and "u2 \<equiv> (demo_user ''u2'')\<lparr>usr_Email := ''b'', usr_Role := UserRoleAdmin\<rparr>"
  shows "\<exists>d1 d2 d3 d4 d5 d6 r1 r2. let db = demo_db\<lparr>db_users := [u1, u2]\<rparr> in
    lock_by_email ''a'' db = (Inr u1, d1) \<and> lock_by_email ''b'' d1 = (Inr u2, d2) \<and>
    demotes u1 UserRoleUser \<and> count_admins d2 = (Inr 2, d3) \<and>
    demotes u2 UserRoleUser \<and> count_admins d3 = (Inr 2, d4) \<and>
    update_role demo_env ''u1'' UserRoleUser d4 = (Inr r1, d5) \<and>
    update_role demo_env ''u2'' UserRoleUser d5 = (Inr r2, d6) \<and>
    list_ex is_admin (db_users db) \<and> \<not> list_ex is_admin (db_users d6)"
  by (simp add: u1_def u2_def demo_eval UserRoleAdmin_def UserRoleUser_def)

text \<open>
  C30. One role assignment, run without another role change or account deletion between its
  statements, does not take the last administrator away: whatever it answers, an administrator is
  left when there was one. The isolation is needed: the transaction locks only the row it demotes,
  so two concurrent demotions can leave no administrator (\<open>concurrent_demotions\<close>); and deleting
  the last administrator's account is not guarded. It is refused to an actor for their own address, and
  when it succeeds only the rows with the identifier of the addressed live account change, and
  only in role and grace anchor.
\<close>
theorem last_admin_kept:
  assumes "SetRoleByEmail C E actor email role db = (r, db')"
    and "distinct (map usr_ID (db_users db))" "list_ex is_admin (db_users db)"
  shows "list_ex is_admin (db_users db') \<and>
    (ae_lower E (trim_space actor) \<noteq> '''' \<and> ae_lower E (trim_space actor) = ae_lower E (trim_space email) \<longrightarrow> isl r) \<and>
    (isl r \<longrightarrow> db_users db' = db_users db) \<and>
    (\<forall>user. r = Inr user \<longrightarrow> (\<exists>u r0. NormalizeUserRole (ae_lower E) (ae_lower E (trim_space role)) = Inr r0 \<and>
       u \<in> set (db_users db) \<and> usr_Email u = ae_lower E (trim_space email) \<and> usr_DeletedAt u = None \<and>
       user = with_role E r0 (db_clock db) u \<and>
       db_users db' = map (\<lambda>v. if usr_ID v = usr_ID u then with_role E r0 (db_clock db) v else v) (db_users db)))"
  using role_run [OF assms(1)]
proof
  assume "(\<exists>e. r = Inl e) \<and> core db' = core db"
  then show ?thesis using assms(3) core_tokens(2) [of db' db] by auto
next
  assume "\<exists>r0 change d. NormalizeUserRole (ae_lower E) (ae_lower E (trim_space role)) = Inr r0 \<and>
    (ae_lower E (trim_space actor) = '''' \<or> ae_lower E (trim_space actor) \<noteq> ae_lower E (trim_space email)) \<and>
    SetRoleByEmail_tx E (ae_lower E (trim_space email)) r0 db = (Inr change, d) \<and>
    r = Inr (rc_User change) \<and> core db' = core d"
  then obtain r0 change d where r0: "NormalizeUserRole (ae_lower E) (ae_lower E (trim_space role)) = Inr r0"
    and other: "ae_lower E (trim_space actor) = '''' \<or> ae_lower E (trim_space actor) \<noteq> ae_lower E (trim_space email)"
    and tx: "SetRoleByEmail_tx E (ae_lower E (trim_space email)) r0 db = (Inr change, d)"
    and out: "r = Inr (rc_User change)" "core db' = core d" by (elim exE conjE)
  obtain u v where u: "find (\<lambda>u. usr_Email u = ae_lower E (trim_space email) \<and> usr_DeletedAt u = None) (db_users db) = Some u"
    and guard: "demotes u r0 \<longrightarrow> 1 < length (filter is_admin (db_users db))"
    and v: "find (\<lambda>v. usr_ID v = usr_ID u) (db_users db) = Some v" "rc_User change = with_role E r0 (db_clock db) v"
    and c: "core d = core (db\<lparr>db_users := map (\<lambda>v. if usr_ID v = usr_ID u
      then with_role E r0 (db_clock db) v else v) (db_users db)\<rparr>)"
    using role_tx_run [OF tx] by (elim exE conjE)
  have mem: "u \<in> set (db_users db)" "usr_Email u = ae_lower E (trim_space email)" "usr_DeletedAt u = None"
    using find_SomeD [OF u] by simp_all
  have "v = u" using find_SomeD [OF v(1)] mem(1) assms(2) by (simp add: distinct_map inj_on_def)
  moreover have users: "db_users db' = map (\<lambda>v. if usr_ID v = usr_ID u then with_role E r0 (db_clock db) v else v) (db_users db)"
    using core_tokens(2) [OF out(2) [unfolded c]] by simp
  moreover note role_keeps_admin [OF assms(2) mem(1,3) assms(3) guard, of E "db_clock db"]
  ultimately show ?thesis using mem v(2) r0 other out(1) by auto
qed

theorem last_admin_kept_witness:
  "fst (SetRoleByEmail demo_account_cfg demo_env ''x'' ''a@x'' ''user'' demo_account_db) = Inl ErrLastAdmin \<and>
   list_ex is_admin (db_users (snd (SetRoleByEmail demo_account_cfg demo_env ''x'' ''a@x'' ''user'' demo_account_db)))"
proof -
  let ?run = "SetRoleByEmail demo_account_cfg demo_env ''x'' ''a@x'' ''user'' demo_account_db"
  have r: "?run = (fst ?run, snd ?run)" by simp
  have d: "distinct (map usr_ID (db_users demo_account_db))" "list_ex is_admin (db_users demo_account_db)"
    by (simp_all add: demo_eval UserRoleAdmin_def)
  have t: "trim_space ''x'' = ''x''" "trim_space ''user'' = ''user''" by (rule trim_space_plain; simp add: byte_def)+
  have "NormalizeUserRole (ae_lower demo_env) ''user'' = Inr ''user''"
    using role_names_normal [of "''user''"] by (simp add: NormalizeUserRole_def IsValidUserRole_def role_defs)
  then have "fst ?run = Inl ErrLastAdmin"
    by (simp add: SetRoleByEmail_def demo_eval t UserRoleAdmin_def)
  then show ?thesis using last_admin_kept [OF r d] by (elim conjE) (rule conjI)
qed

end
