(* ===== verification/Account_Invariant.thy ===== *)
theory Account_Invariant
  imports Account_Change
begin

text \<open>
  The invariant of the account tables under any interleaving of the account transactions, and
  the one-time codes.
\<close>

section \<open>The invariant\<close>

definition one_unused :: "auth_token list \<Rightarrow> bool" where
  "one_unused ts \<longleftrightarrow> distinct (map tk_UserID (filter unused ts))"

definition token_rows_ok :: "string set \<Rightarrow> auth_token list \<Rightarrow> bool" where
  "token_rows_ok users ts \<longleftrightarrow> distinct (map tk_ID ts) \<and> distinct (map tk_TokenHash ts) \<and>
     list_all (\<lambda>t. tk_UserID t \<in> users) ts \<and> one_unused ts"

definition users_ok :: "auth_env \<Rightarrow> (string \<times> string) list \<Rightarrow> bool" where
  "users_ok E keys \<longleftrightarrow> distinct (map fst keys) \<and> distinct (map (ae_sqlLower E \<circ> snd) keys)"

definition account_ok :: "auth_env \<Rightarrow> auth_db \<Rightarrow> bool" where
  "account_ok E db \<longleftrightarrow> users_ok E (account_keys db) \<and>
     list_all (\<lambda>T. token_rows_ok (fst ` set (account_keys db)) (db_tokens db T)) [VerificationTokens, ResetTokens, ChangeTokens]"

lemma account_okI:
  assumes "users_ok E (account_keys db)" "\<And>T. token_rows_ok (fst ` set (account_keys db)) (db_tokens db T)"
  shows "account_ok E db"
  using assms by (simp add: account_ok_def)

lemma account_okD:
  assumes "account_ok E db"
  shows "users_ok E (account_keys db)" "token_rows_ok (fst ` set (account_keys db)) (db_tokens db T)"
  using assms by (cases T; simp add: account_ok_def)+

lemma account_ok_core: "core a = core b \<Longrightarrow> account_ok E a = account_ok E b"
  by (simp add: account_ok_def account_keys_def core_eq_iff)

subsection \<open>Token rows\<close>

lemma spend_sel [simp]:
  "tk_ID (spend P n t) = tk_ID t" "tk_UserID (spend P n t) = tk_UserID t" "tk_TokenHash (spend P n t) = tk_TokenHash t"
  by (simp_all add: spend_def)

lemma unused_spend: "unused (spend P n t) \<longleftrightarrow> unused t \<and> \<not> P t"
  by (cases "P t \<and> unused t") (auto simp: spend_def unused_def)

lemma distinct_narrow: "distinct (map f (filter Q ts)) \<Longrightarrow> (\<And>x. R x \<Longrightarrow> Q x) \<Longrightarrow> distinct (map f (filter R ts))"
  by (induction ts) (auto split: if_splits)

lemma one_unused_spend: "one_unused ts \<Longrightarrow> one_unused (map (spend P n) ts)"
proof -
  assume one: "one_unused ts"
  have eq: "map tk_UserID (filter unused (map (spend P n) ts)) = map tk_UserID (filter (\<lambda>t. unused t \<and> \<not> P t) ts)"
    by (induction ts) (auto simp: unused_spend)
  show ?thesis unfolding one_unused_def eq
    by (rule distinct_narrow [where Q = unused]) (use one in \<open>simp_all add: one_unused_def\<close>)
qed

lemma rows_spend: "token_rows_ok us ts \<Longrightarrow> token_rows_ok us (map (spend P n) ts)"
  by (simp add: token_rows_ok_def one_unused_spend comp_def list_all_iff)

lemma rows_filter: "token_rows_ok us ts \<Longrightarrow> token_rows_ok us (filter P ts)"
proof -
  assume ok: "token_rows_ok us ts"
  have "distinct (map tk_UserID (filter unused (filter P ts)))"
    unfolding filter_filter by (rule distinct_narrow [where Q = unused]) (use ok in \<open>simp_all add: token_rows_ok_def one_unused_def\<close>)
  with ok show ?thesis by (auto simp: token_rows_ok_def one_unused_def distinct_map_filter list_all_iff)
qed

lemma rows_append:
  assumes "token_rows_ok us ts" "tk_UserID t \<in> us"
    and "list_all (\<lambda>r. tk_ID r \<noteq> tk_ID t \<and> tk_TokenHash r \<noteq> tk_TokenHash t) ts"
    and "list_all (\<lambda>r. tk_UserID r = tk_UserID t \<longrightarrow> \<not> unused r) ts"
  shows "token_rows_ok us (ts @ [t])"
  using assms by (auto simp: token_rows_ok_def one_unused_def list_all_iff)

lemma rows_replace:
  assumes "token_rows_ok us ts" "tk_UserID t \<in> us"
    and "list_all (\<lambda>r. tk_ID r \<noteq> tk_ID t \<and> tk_TokenHash r \<noteq> tk_TokenHash t) ts"
  shows "token_rows_ok us (map (spend (\<lambda>r. tk_UserID r = tk_UserID t) n) ts @ [t])"
  by (rule rows_append [OF rows_spend [OF assms(1)] assms(2)]) (use assms(3) in \<open>auto simp: list_all_iff unused_spend\<close>)

lemma rows_mono: "token_rows_ok us ts \<Longrightarrow> us \<subseteq> vs \<Longrightarrow> token_rows_ok vs ts"
  by (auto simp: token_rows_ok_def list_all_iff)

subsection \<open>Account rows\<close>

lemma ids_on_live: "(\<And>v. usr_ID (f v) = usr_ID v) \<Longrightarrow> map usr_ID (on_live u f us) = map usr_ID us"
  by (auto simp: on_live_def)

lemma fst_keys: "fst ` set (account_keys db) = usr_ID ` set (db_users db)"
  by (auto simp: account_keys_def image_iff)

lemma keys_on_live:
  "(\<And>v. usr_ID (f v) = usr_ID v \<and> usr_Email (f v) = usr_Email v) \<Longrightarrow>
     map (\<lambda>u. (usr_ID u, usr_Email u)) (on_live u f us) = map (\<lambda>u. (usr_ID u, usr_Email u)) us"
  by (auto simp: on_live_def)

lemma users_ok_rows: "users_ok E (map (\<lambda>u. (usr_ID u, usr_Email u)) us) \<longleftrightarrow>
    distinct (map usr_ID us) \<and> distinct (map (\<lambda>u. ae_sqlLower E (usr_Email u)) us)"
  by (simp add: users_ok_def comp_def)

lemma distinct_email:
  assumes "distinct (map usr_ID us)" "distinct (map k us)"
    and "\<And>v. live u v \<Longrightarrow> k (f v) = m" "\<forall>v\<in>set us. usr_ID v \<noteq> u \<longrightarrow> k v \<noteq> m"
  shows "distinct (map k (on_live u f us))"
  using assms(1,2,4)
proof (induction us)
  case (Cons a us)
  have step: "on_live u f (a # us) = (if live u a then f a else a) # on_live u f us" by (simp add: on_live_def)
  have "k (if live u a then f a else a) \<noteq> k (if live u v then f v else v)" if v: "v \<in> set us" for v
  proof -
    have "usr_ID v \<noteq> usr_ID a" "k v \<noteq> k a" using Cons.prems(1,2) imageI [OF v, of usr_ID] imageI [OF v, of k] by auto
    then show ?thesis using Cons.prems(3) v assms(3) by (auto simp: live_def)
  qed
  then have "k (if live u a then f a else a) \<notin> set (map k (on_live u f us))"
    unfolding on_live_def set_map by blast
  with Cons show ?case unfolding step by simp
qed (simp add: on_live_def)

lemma users_ok_email:
  assumes "users_ok E (account_keys db)" "\<And>v. usr_ID (f v) = usr_ID v" "\<And>v. live u v \<Longrightarrow> usr_Email (f v) = m"
    and "\<not> email_taken E db u m" "db_users d = on_live u f (db_users db)"
  shows "users_ok E (account_keys d)"
  using assms distinct_email [of "db_users db" "\<lambda>u. ae_sqlLower E (usr_Email u)" u f "ae_sqlLower E m"] ids_on_live [of f u "db_users db"]
  by (auto simp: account_keys_def users_ok_rows email_taken_def list_ex_iff)


subsection \<open>Every step keeps it\<close>

lemma keys_core: "core a = core b \<Longrightarrow> account_keys a = account_keys b"
  by (simp add: account_keys_def core_eq_iff)

text \<open>A step that leaves identifiers and addresses alone and treats the token tables well.\<close>

lemma ok_same_keys:
  assumes "account_ok E db" "account_keys d = account_keys db"
    and "\<And>T. token_rows_ok (fst ` set (account_keys db)) (db_tokens db T) \<Longrightarrow>
      token_rows_ok (fst ` set (account_keys db)) (db_tokens d T)"
  shows "account_ok E d"
  by (rule account_okI) (use assms account_okD [OF assms(1)] in simp_all)

lemma ok_new_email:
  assumes "account_ok E db" "db_users d = on_live u f (db_users db)" "\<not> email_taken E db u m"
    and "\<And>v. usr_ID (f v) = usr_ID v" "\<And>v. live u v \<Longrightarrow> usr_Email (f v) = m"
    and "\<And>T us. token_rows_ok us (db_tokens db T) \<Longrightarrow> token_rows_ok us (db_tokens d T)"
  shows "account_ok E d"
proof (rule account_okI)
  show "users_ok E (account_keys d)"
    by (rule users_ok_email [OF account_okD(1) [OF assms(1)] assms(4,5,3,2)])
  have "fst ` set (account_keys d) = fst ` set (account_keys db)"
    using ids_on_live [of f u "db_users db"] assms(2,4) unfolding fst_keys by (metis set_map)
  then show "token_rows_ok (fst ` set (account_keys d)) (db_tokens d T)" for T
    using assms(6) account_okD(2) [OF assms(1)] by simp
qed

lemma ok_store:
  assumes "StoreWithVerificationToken E u t db = (Inr (), d)" "account_ok E db" "tk_UserID t = usr_ID u"
  shows "account_ok E d"
proof (rule account_okI)
  note st = store_run [OF assms(1)]
  note s = st [THEN conjunct1] st [THEN conjunct2, THEN conjunct1] st [THEN conjunct2, THEN conjunct2, THEN conjunct1]
  note c = st [THEN conjunct2, THEN conjunct2, THEN conjunct2, THEN conjunct2]
  have keys: "account_keys d = account_keys db @ [(usr_ID u, usr_Email u)]"
    using keys_core [OF c] by (simp add: account_keys_def registered_def)
  then show "users_ok E (account_keys d)"
    using account_okD(1) [OF assms(2)] s(1,2) by (auto simp: users_ok_def account_keys_def email_taken_def list_ex_iff)
  fix T
  have tok: "db_tokens d = (db_tokens db)(VerificationTokens := db_tokens db VerificationTokens @ [t])"
    by (rule step_tokens(1) [OF assms(1)])
  note old = rows_mono [OF account_okD(2) [OF assms(2)], of "fst ` set (account_keys d)"]
  have mono: "token_rows_ok (fst ` set (account_keys d)) (db_tokens db U)" for U by (rule old) (auto simp: keys)
  have "list_all (\<lambda>r. tk_UserID r = tk_UserID t \<longrightarrow> \<not> unused r) (db_tokens db VerificationTokens)"
    using account_okD(2) [OF assms(2), of VerificationTokens] s(1) assms(3)
    by (auto simp: token_rows_ok_def list_all_iff fst_keys)
  moreover have "tk_UserID t \<in> fst ` set (account_keys d)" by (simp add: keys assms(3))
  moreover have "list_all (\<lambda>r. tk_ID r \<noteq> tk_ID t \<and> tk_TokenHash r \<noteq> tk_TokenHash t) (db_tokens db VerificationTokens)"
    using s(3) by (simp add: list_all_iff)
  ultimately have "token_rows_ok (fst ` set (account_keys d)) (db_tokens db VerificationTokens @ [t])"
    by (intro rows_append mono)
  then show "token_rows_ok (fst ` set (account_keys d)) (db_tokens d T)" unfolding tok by (simp add: mono)
qed

lemma ok_spend:
  assumes "account_ok E db" "account_keys d = account_keys db"
    and "db_tokens d = (db_tokens db)(T := map (spend P n) (db_tokens db T))"
  shows "account_ok E d"
  by (rule ok_same_keys [OF assms(1,2)]) (metis assms(3) fun_upd_other fun_upd_same rows_spend)

lemma ok_replace:
  assumes "replace_token T t db = (Inr (), d)" "account_ok E db"
  shows "account_ok E d"
proof -
  note ins = replace_token_run [OF assms(1), THEN conjunct1] and c = replace_token_run [OF assms(1), THEN conjunct2]
  show ?thesis
  proof (rule ok_same_keys [OF assms(2)])
    show "account_keys d = account_keys db" using keys_core [OF c] by (simp add: account_keys_def)
    fix U
    assume ok: "token_rows_ok (fst ` set (account_keys db)) (db_tokens db U)"
    have "tk_UserID t \<in> fst ` set (account_keys db)" using ins unfolding token_insertable_def fst_keys list_ex_iff by (metis imageI)
    moreover have "list_all (\<lambda>r. tk_ID r \<noteq> tk_ID t \<and> tk_TokenHash r \<noteq> tk_TokenHash t) (db_tokens db T)"
      using ins by (simp add: token_insertable_def)
    ultimately show "token_rows_ok (fst ` set (account_keys db)) (db_tokens d U)"
      using ok unfolding step_tokens(2) [OF assms(1)] by (cases "U = T") (simp_all add: rows_replace)
  qed
qed

lemma keys_update:
  "VerifyEmailWithToken i u db = (Inr x, d) \<Longrightarrow> account_keys d = account_keys db"
  "ResetPasswordWithToken i u h db = (Inr x, d) \<Longrightarrow> account_keys d = account_keys db"
  "ChangePassword_tx u h db = (Inr x, d) \<Longrightarrow> account_keys d = account_keys db"
  "revoke_unused T u db = (Inr (), d) \<Longrightarrow> account_keys d = account_keys db"
  "delete_old_tokens T now cutoff db = (Inr n, d) \<Longrightarrow> account_keys d = account_keys db"
  "SetRoleByEmail_tx E m role db = (Inr c, d) \<Longrightarrow> account_keys d = account_keys db"
       apply (drule verify_tx_run, elim exE conjE, drule keys_core, simp add: account_keys_def tx_defs verified_def)
      apply (drule reset_tx_run, elim exE conjE, drule keys_core, simp add: account_keys_def tx_defs verified_def bumped_def)
     apply (drule change_password_tx_run, elim exE conjE, drule keys_core, simp add: account_keys_def tx_defs bumped_def)
    apply (drule revoke_unused_run, drule keys_core, simp add: account_keys_def tx_defs)
   apply (drule delete_old_run, elim exE, drule keys_core, simp add: account_keys_def)
  apply (drule role_tx_run, elim exE conjE, drule keys_core, simp add: account_keys_def with_role_def)
  done

lemma ok_change_email:
  assumes "ChangeEmailWithToken E i u m db = (Inr r, d)" "account_ok E db"
  shows "account_ok E d"
proof -
  obtain free: "\<not> email_taken E db u m" and c: "core d = core (sessions_ended u (revoke_tokens ChangeTokens u (db_clock db)
      (users_updated u (with_email m (db_clock db)) db)))"
    using change_email_tx_run [OF assms(1)] by (elim exE conjE)
  show ?thesis
  proof (rule ok_new_email [OF assms(2) _ free])
    show "db_users d = on_live u (with_email m (db_clock db)) (db_users db)"
      using core_tokens(2) [OF c] by (simp add: sessions_ended_def revoke_tokens_def users_updated_def)
    show "token_rows_ok us (db_tokens d T)" if "token_rows_ok us (db_tokens db T)" for T us
      using that rows_spend unfolding step_tokens(7) [OF assms(1)] by (cases "T = ChangeTokens") simp_all
  qed (simp_all add: with_email_def bumped_def)
qed

lemma ok_delete:
  assumes "DeleteAccount_tx E u erasure db = (Inr (), d)" "account_ok E db"
  shows "account_ok E d"
proof -
  obtain free: "\<not> email_taken E db u (deleted_email u)"
    and c: "core d = core (queue_erasure erasure (scrubbed u (users_updated u (anonymized (db_clock db)) db)))"
    using delete_tx_run [OF assms(1)] by (elim conjE)
  show ?thesis
  proof (rule ok_new_email [OF assms(2) _ free])
    show "db_users d = on_live u (anonymized (db_clock db)) (db_users db)"
      using core_tokens(2) [OF c] by (simp add: queue_erasure_def scrubbed_def users_updated_def split: option.splits)
    show "token_rows_ok us (db_tokens d T)" if "token_rows_ok us (db_tokens db T)" for T us
      unfolding step_tokens(9) [OF assms(1)] by (rule rows_filter [OF that])
  qed (simp_all add: anonymized_def bumped_def deleted_email_def live_def)
qed

lemma ok_outcome:
  assumes "account_ok E db" "\<And>e d. m db = (Inl e, d) \<Longrightarrow> core d = core db" "\<And>x d. m db = (Inr x, d) \<Longrightarrow> account_ok E d"
  shows "account_ok E (snd (m db))"
  by (rule step_outcome [where Q = "account_ok E"]) (use assms account_ok_core in blast)+

lemma ok_outcome_unit:
  assumes "account_ok E db" "\<And>e d. m db = (Inl e, d) \<Longrightarrow> core d = core db" "\<And>d. m db = (Inr (), d) \<Longrightarrow> account_ok E d"
  shows "account_ok E (snd (m db))"
  by (rule ok_outcome [OF assms(1,2)]) (simp_all add: assms(3))

lemma account_ok_step: "account_step H E db db' \<Longrightarrow> account_ok E db \<Longrightarrow> account_ok E db'"
proof (induction rule: account_step.induct)
  case (register t u db)
  show ?case by (rule ok_outcome_unit [OF register(4) tx_failed(1) ok_store [OF _ register(4,2)]])
next
  case (replace t T db)
  show ?case by (rule ok_outcome_unit [OF replace(2) tx_failed(2) ok_replace [OF _ replace(2)]])
next
  case (revoke db T u)
  show ?case by (rule ok_outcome_unit [OF revoke failed_statement(1) ok_spend [OF revoke keys_update(4) step_tokens(3)]])
next
  case (verify db i u)
  show ?case by (rule ok_outcome [OF verify tx_failed(3) ok_spend [OF verify keys_update(1) step_tokens(4)]])
next
  case (reset db i u h)
  show ?case by (rule ok_outcome [OF reset tx_failed(4) ok_spend [OF reset keys_update(2) step_tokens(5)]])
next
  case (change_password db u h)
  show ?case
    by (rule ok_outcome [OF change_password tx_failed(5) ok_spend [OF change_password keys_update(3) step_tokens(6)]])
next
  case (change_email db i u m)
  show ?case by (rule ok_outcome [OF change_email tx_failed(6) ok_change_email [OF _ change_email]])
next
  case (set_role db m role)
  show ?case
    by (rule ok_outcome [OF set_role tx_failed(7)], assumption,
        rule ok_same_keys [OF set_role keys_update(6)], assumption, simp only: step_tokens(8))
next
  case (delete db u erasure)
  show ?case by (rule ok_outcome_unit [OF delete tx_failed(8) ok_delete [OF _ delete]])
next
  case (cleanup db T now cutoff)
  show ?case
  proof (rule ok_outcome [OF cleanup failed_statement(2)])
    fix x d assume run: "delete_old_tokens T now cutoff db = (Inr x, d)"
    from delete_old_run [OF run] obtain P where "core d = core (set_tokens T (filter P (db_tokens db T)) db)" by (elim exE)
    from core_tokens(1) [OF this] have P: "db_tokens d = (db_tokens db)(T := filter P (db_tokens db T))" by simp
    have "token_rows_ok us (db_tokens d U)" if "token_rows_ok us (db_tokens db U)" for us U
      using that rows_filter unfolding P by (cases "U = T") simp_all
    then show "account_ok E d" by (rule ok_same_keys [OF cleanup keys_update(5) [OF run]])
  qed
next
  case (elsewhere db' db)
  show ?case by (rule ok_same_keys [OF elsewhere(3,2)]) (simp only: elsewhere(1))
qed



end
