(* ===== verification/Account_Register.thy ===== *)
theory Account_Register
  imports Account_Invariant
begin

text \<open>
  Registration and the verification of the address it starts, and the one-time codes they mail.
\<close>

section \<open>One-time codes\<close>

lemma newOTP_show:
  assumes "0 \<le> v" "v < otpMaxValue"
  shows "length (newOTP v) = otpDigits" "list_all is_digit (newOTP v)" "read_nat (newOTP v) = nat v"
proof -
  have s: "show_int v = show_nat (nat v)" using assms(1) by (simp add: show_int_def)
  have "length (show_nat (nat v)) \<le> otpDigits"
    using assms by (intro length_show_nat) (simp_all add: otpMaxValue_def otpDigits_def)
  then show "length (newOTP v) = otpDigits" by (simp add: newOTP_def s Let_def)
  have "is_digit CHR ''0''" by (simp add: is_digit_def byte_def)
  then show "list_all is_digit (newOTP v)" by (auto simp: newOTP_def s Let_def list_all_iff show_nat_digits)
  have "read_nat (replicate n CHR ''0'' @ s) = read_nat s" for n s
    by (induction n) (simp_all add: read_nat_def digit_value_def byte_def)
  then show "read_nat (newOTP v) = nat v" by (simp add: newOTP_def s Let_def)
qed


text \<open>
  Every code \<open>newOTP\<close> mails is six digits, \<open>validateOTPInput\<close> reads it back unchanged, with
  any white space the user adds around it, and different draws give different codes.
\<close>
theorem otp_round_trip:
  assumes "0 \<le> v" "v < otpMaxValue" "0 \<le> w" "w < otpMaxValue" "trim_space otp = newOTP v"
  shows "validateOTPInput otp = Some (newOTP v) \<and> length (newOTP v) = otpDigits \<and> (newOTP v = newOTP w \<longleftrightarrow> v = w)"
  using newOTP_show [OF assms(1,2)] newOTP_show(3) [OF assms(3,4)] assms
  by (auto simp: validateOTPInput_def Let_def)

theorem otp_round_trip_witness: "validateOTPInput ''000042'' = Some ''000042''"
proof -
  have "show_int 42 = ''42''"
    by (simp add: show_int_def show_nat.simps [of 42] show_nat.simps [of 4] digit_char_def)
  then have otp: "newOTP 42 = ''000042''" by (simp add: newOTP_def otpDigits_def numeral_eq_Suc)
  have "trim_space ''000042'' = newOTP 42" unfolding otp by (rule trim_space_plain; simp add: byte_def)
  then have "validateOTPInput ''000042'' = Some (newOTP 42)"
    using otp_round_trip [of 42 7 "''000042''"] by (simp add: otpMaxValue_def)
  then show ?thesis unfolding otp .
qed

section \<open>Registration\<close>

lemma register_run:
  assumes "Register C E q D username email password db = (Inr user, db')"
  shows "\<exists>name e hash raw otp t mid d. validateRegisterInput E username email password = Some (name, e) \<and>
    ae_hash E (ad_salt D) password = Some hash \<and> user = new_user D name e hash \<and>
    newVerificationToken C E D (ad_userID D) (rq_now q) = Inr (raw, otp, t) \<and> ad_mailed D \<and>
    core mid = core db \<and> StoreWithVerificationToken E user t mid = (Inr (), d) \<and> core db' = core d"
proof -
  obtain u mid where body: "(case validateRegisterInput E username email password of
        None \<Rightarrow> caught '''' (op_fail ErrInvalidAuthInput)
      | Some (name, e) \<Rightarrow>
          op_try (limited C E q ''register'' (''email'', e, ac_RegisterEmail C) (ac_RegisterIP C))
            (\<lambda>err. caught '''' (op_fail err))
            (\<lambda>_. case ae_hash E (ad_salt D) password of
               None \<Rightarrow> caught '''' (op_fail ErrCrypto)
             | Some hash \<Rightarrow> caught (ad_userID D) (register_user C E q D (new_user D name e hash)))) db
      = (Inr (u, Inr user), mid)"
    and out: "core db' = core mid"
    using audited_Inr [OF assms [unfolded Register_def]] by (elim exE conjE)
  obtain name e where v: "validateRegisterInput E username email password = Some (name, e)"
    using body by (auto simp: op_runs split: option.splits)
  obtain m1 hash where
    lim: "limited C E q ''register'' (''email'', e, ac_RegisterEmail C) (ac_RegisterIP C) db = (Inr (), m1)"
    and hash: "ae_hash E (ad_salt D) password = Some hash"
    and reg: "register_user C E q D (new_user D name e hash) m1 = (Inr user, mid)"
    using body by (auto simp: v op_runs split: option.splits)
  obtain raw otp t where tok: "newVerificationToken C E D (ad_userID D) (rq_now q) = Inr (raw, otp, t)"
    using reg by (auto simp: register_user_def new_user_def op_runs split: sum.splits)
  have "ad_mailed D \<and> user = new_user D name e hash \<and> StoreWithVerificationToken E (new_user D name e hash) t m1 = (Inr (), mid)"
    using reg by (auto simp: register_user_def new_user_def tok mail_or_revoke_def op_runs split: if_splits)
  with v hash tok out limited_run [OF lim] show ?thesis
    by (intro exI [of _ name] exI [of _ e] exI [of _ hash] exI [of _ raw] exI [of _ otp] exI [of _ t] exI [of _ m1] exI [of _ mid]) simp
qed


lemma find_last: "\<forall>x\<in>set xs. \<not> P x \<Longrightarrow> P y \<Longrightarrow> find P (xs @ [y]) = Some y"
  by (induction xs) auto

text \<open>Without faults the verification transaction spends the row and marks the account.\<close>

lemma verify_tx_forward:
  assumes "db_faults db = []" "find (live u) (db_users db) = Some v"
    and "length (filter (\<lambda>t. (tk_ID t = i \<and> tk_UserID t = u) \<and> unused t) (db_tokens db VerificationTokens)) = 1"
  shows "\<exists>d. VerifyEmailWithToken i u db = (Inr (verified (db_clock db) v), d) \<and> db_faults d = [] \<and>
    db_users d = on_live u (verified (db_clock db)) (db_users db)"
proof -
  let ?m1 = "set_tokens VerificationTokens (map (spend (\<lambda>t. tk_ID t = i \<and> tk_UserID t = u) (db_clock db))
    (db_tokens db VerificationTokens)) db"
  let ?m2 = "?m1\<lparr>db_users := on_live u (verified (db_clock db)) (db_users db)\<rparr>"
  have sp: "spend_token VerificationTokens ErrInvalidVerificationToken (\<lambda>t. tk_ID t = i \<and> tk_UserID t = u) db = (Inr (), ?m1)"
    unfolding spend_token_def statement_no_faults [OF assms(1)] by (simp only: assms(3) Let_def) simp
  have up: "update_live u verified ?m1 = (Inr (verified (db_clock db) v), ?m2)"
    by (simp add: update_live_def statement_no_faults assms(1,2) on_live_def)
  let ?m = "op_bind (spend_token VerificationTokens ErrInvalidVerificationToken (\<lambda>t. tk_ID t = i \<and> tk_UserID t = u))
      (\<lambda>_. update_live u verified)"
  have "?m db = (Inr (verified (db_clock db) v), ?m2)"
    by (simp only: op_bind_def sp prod.case sum.case up)
  from transaction_no_faults [where m = ?m and db' = ?m2, OF assms(1) this]
  have "VerifyEmailWithToken i u db = (Inr (verified (db_clock db) v), ?m2)"
    by (simp only: VerifyEmailWithToken_def sum.case) (simp add: assms(1))
  then show ?thesis by (intro exI [of _ ?m2]) (simp add: assms(1))
qed

lemma verify_forward:
  assumes "limited C E q ''verify_email'' (''token'', token, ac_VerifyEmailToken C) (ac_VerifyEmailOTPIP C) db = (Inr (), m)"
    and "db_faults m = []" "length token \<le> maxResetTokenInputBytes"
    and "trim_space token = token" "token \<noteq> ''''" "hashVerificationToken E token = Some h"
    and "find (\<lambda>t. tk_TokenHash t = h) (db_tokens db VerificationTokens) = Some t"
    and "tk_UsedAt t = None" "rq_now q < tk_ExpiresAt t" "find (live (tk_UserID t)) (db_users db) = Some v"
    and "length (filter (\<lambda>r. (tk_ID r = tk_ID t \<and> tk_UserID r = tk_UserID t) \<and> unused r) (db_tokens db VerificationTokens)) = 1"
  shows "\<exists>db'. VerifyEmail C E q token '''' '''' db = (Inr (), db') \<and>
    db_users db' = on_live (tk_UserID t) (verified (db_clock db)) (db_users db)"
proof -
  have m: "db_tokens m = db_tokens db" "db_users m = db_users db" "db_clock m = db_clock db"
    using limited_run [OF assms(1)] by (simp_all add: core_eq_iff)
  obtain d where tx: "VerifyEmailWithToken (tk_ID t) (tk_UserID t) m = (Inr (verified (db_clock m) v), d)"
    and d: "db_users d = on_live (tk_UserID t) (verified (db_clock m)) (db_users m)"
    using verify_tx_forward [of m, OF assms(2), of "tk_UserID t" v "tk_ID t"] assms(10,11) m by auto
  have get: "token_by_hash VerificationTokens ErrVerificationTokenNotFound h m = (Inr t, m)"
    by (simp add: token_by_hash_def statement_no_faults assms(2,7) m)
  have ver: "verifyEmailWithToken C E q token db = (Inr (verified (db_clock m) v), d)"
    using assms(3,8,9)
    by (simp add: verifyEmailWithToken_def op_bind_def assms(1,6) GetVerificationTokenByHash_def op_try_def get tx)
  obtain r db' where run: "VerifyEmail C E q token '''' '''' db = (r, db')"
    by (cases "VerifyEmail C E q token '''' '''' db")
  have "trim_space '''' = ''''" by (rule demo_trim_empty)
  then have "r = Inr () \<and> core db' = core d"
    by (intro with_audit_core [OF _ run [unfolded VerifyEmail_def]])
      (simp add: assms(4,5) op_try_def ver caught_def op_ret_def)
  with run d m core_tokens(2) [of db' d] show ?thesis by (intro exI [of _ db']) simp
qed

text \<open>What a registration wrote: the account, and the one row its token names.\<close>

lemma registered_rows:
  assumes "Register C E q D username email password db = (Inr user, db1)" "ad_token D = Some raw"
  shows "\<exists>name e hash t. validateRegisterInput E username email password = Some (name, e) \<and>
    ae_hash E (ad_salt D) password = Some hash \<and> user = new_user D name e hash \<and>
    tk_TokenHash t = hashTokenBytes E raw \<and> tk_UsedAt t = None \<and> tk_UserID t = ad_userID D \<and>
    tk_ExpiresAt t = rq_now q + ac_verificationTTL C \<and> db_users db1 = db_users db @ [user] \<and>
    t \<in> set (db_tokens db1 VerificationTokens) \<and>
    filter (\<lambda>r. tk_ID r = tk_ID t) (db_tokens db1 VerificationTokens) = [t] \<and>
    (\<forall>v\<in>set (db_users db). usr_ID v \<noteq> ad_userID D)"
proof -
  obtain name e hash raw' otp t mid d where v: "validateRegisterInput E username email password = Some (name, e)"
    and hash: "ae_hash E (ad_salt D) password = Some hash" and user: "user = new_user D name e hash"
    and tok: "newVerificationToken C E D (ad_userID D) (rq_now q) = Inr (raw', otp, t)"
    and mid: "core mid = core db" and tx: "StoreWithVerificationToken E user t mid = (Inr (), d)" and out: "core db1 = core d"
    using register_run [OF assms(1)] by (elim exE conjE)
  have t: "tk_TokenHash t = hashTokenBytes E raw" "tk_UsedAt t = None" "tk_UserID t = ad_userID D"
      "tk_ExpiresAt t = rq_now q + ac_verificationTTL C"
    using tok assms(2) by (auto simp: newVerificationToken_def split: sum.splits)
  note st = store_run [OF tx]
  have c: "core db1 = core (registered user t mid)" using out st by simp
  have rows: "db_users db1 = db_users db @ [user]" "db_tokens db1 VerificationTokens = db_tokens db VerificationTokens @ [t]"
    using c mid by (simp_all add: core_eq_iff registered_def)
  have "\<forall>v\<in>set (db_users db). usr_ID v \<noteq> ad_userID D" "\<forall>r\<in>set (db_tokens db VerificationTokens). tk_ID r \<noteq> tk_ID t"
    using st core_tokens [OF mid] user by (auto simp: new_user_def)
  with v hash user t rows show ?thesis
    by (intro exI [of _ name] exI [of _ e] exI [of _ hash] exI [of _ t]) (simp add: filter_empty_conv)
qed

lemma find_distinct: "distinct (map f xs) \<Longrightarrow> x \<in> set xs \<Longrightarrow> find (\<lambda>y. f y = f x) xs = Some x"
  by (induction xs) (auto simp: rev_image_eqI)

text \<open>
  C33. A registration that succeeded appended one unverified account, its address carried over from
  the input and its password hash the one of the input, and it can be completed: at any later time
  before the token expires, whatever other requests did meanwhile, the mailed token verifies
  exactly this account, provided its verification rows are still the ones the registration left,
  the account is live, token hashes are unique in the table (as its index demands), the rate limiter
  lets the call through and the database answers from there on. The token is well-formed: it decodes to the
  drawn bytes and survives trimming.
\<close>
theorem registration_verifies:
  assumes "Register C E q D username email password db = (Inr user, db1)"
    and "ad_token D = Some raw" "length raw = verificationTokenBytes"
    and "trim_space (ae_encode64 E raw) = ae_encode64 E raw" "ae_encode64 E raw \<noteq> ''''"
    and "length (ae_encode64 E raw) \<le> maxResetTokenInputBytes" "ae_decode64 E (ae_encode64 E raw) = Some raw"
    and "filter (\<lambda>r. tk_UserID r = usr_ID user) (db_tokens later VerificationTokens)
         = filter (\<lambda>r. tk_UserID r = usr_ID user) (db_tokens db1 VerificationTokens)"
    and "distinct (map tk_TokenHash (db_tokens later VerificationTokens))"
    and "list_ex (live (usr_ID user)) (db_users later)"
    and "limited C' E q' ''verify_email'' (''token'', ae_encode64 E raw, ac_VerifyEmailToken C') (ac_VerifyEmailOTPIP C') later
         = (Inr (), m)"
    and "db_faults m = []" "rq_now q' < rq_now q + ac_verificationTTL C"
  shows "\<exists>name e hash db2. validateRegisterInput E username email password = Some (name, e) \<and>
    ae_hash E (ad_salt D) password = Some hash \<and> user = new_user D name e hash \<and> \<not> usr_EmailVerified user \<and>
    db_users db1 = db_users db @ [user] \<and>
    VerifyEmail C' E q' (ae_encode64 E raw) '''' '''' later = (Inr (), db2) \<and>
    db_users db2 = on_live (usr_ID user) (verified (db_clock later)) (db_users later)"
proof -
  obtain name e hash t where v: "validateRegisterInput E username email password = Some (name, e)"
      "ae_hash E (ad_salt D) password = Some hash" and user: "user = new_user D name e hash"
    and t: "tk_TokenHash t = hashTokenBytes E raw" "tk_UsedAt t = None" "tk_UserID t = ad_userID D"
      "tk_ExpiresAt t = rq_now q + ac_verificationTTL C"
    and rows: "db_users db1 = db_users db @ [user]" "t \<in> set (db_tokens db1 VerificationTokens)"
      "filter (\<lambda>r. tk_ID r = tk_ID t) (db_tokens db1 VerificationTokens) = [t]"
    using registered_rows [OF assms(1,2)] by (elim exE conjE)
  have u: "usr_ID user = tk_UserID t" "\<not> usr_EmailVerified user" using user t(3) by (simp_all add: new_user_def)
  have "t \<in> set (filter (\<lambda>r. tk_UserID r = usr_ID user) (db_tokens later VerificationTokens))"
    unfolding assms(8) using rows(2) u by simp
  then have here: "t \<in> set (db_tokens later VerificationTokens)" by simp
  have get: "find (\<lambda>r. tk_TokenHash r = tk_TokenHash t) (db_tokens later VerificationTokens) = Some t"
    by (rule find_distinct [OF assms(9) here])
  have h: "hashVerificationToken E (ae_encode64 E raw) = Some (tk_TokenHash t)"
    using assms(3,4,7) t(1) by (simp add: hashVerificationToken_def)
  obtain own where own: "find (live (tk_UserID t)) (db_users later) = Some own"
    using assms(10) u by (cases "find (live (tk_UserID t)) (db_users later)") (auto simp: find_None_iff list_ex_iff)
  have split: "filter (\<lambda>r. (tk_ID r = tk_ID t \<and> tk_UserID r = tk_UserID t) \<and> unused r) rs
      = filter unused (filter (\<lambda>r. tk_ID r = tk_ID t) (filter (\<lambda>r. tk_UserID r = usr_ID user) rs))" for rs
    unfolding u by (simp add: conj_ac)
  have "filter (\<lambda>r. (tk_ID r = tk_ID t \<and> tk_UserID r = tk_UserID t) \<and> unused r) (db_tokens later VerificationTokens)
      = filter (\<lambda>r. tk_UserID r = tk_UserID t \<and> unused r) (filter (\<lambda>r. tk_ID r = tk_ID t) (db_tokens db1 VerificationTokens))"
    unfolding split assms(8) by (simp add: u conj_ac)
  then have one: "length (filter (\<lambda>r. (tk_ID r = tk_ID t \<and> tk_UserID r = tk_UserID t) \<and> unused r)
      (db_tokens later VerificationTokens)) = 1"
    unfolding rows(3) using t(2) by (simp add: unused_def)
  obtain db2 where "VerifyEmail C' E q' (ae_encode64 E raw) '''' '''' later = (Inr (), db2)"
    and "db_users db2 = on_live (tk_UserID t) (verified (db_clock later)) (db_users later)"
    using verify_forward [OF assms(11,12,6,4,5) h get t(2) _ own one] assms(13) t(4) by auto
  with v user u rows(1) show ?thesis
    by (intro exI [of _ name] exI [of _ e] exI [of _ hash] exI [of _ db2]) simp
qed

lemma rune_count_ali: "rune_count ''ali'' = 3"
  by (simp add: rune_count.simps [of "''ali''"] rune_count.simps [of "''li''"] rune_count.simps [of "''i''"]
      rune_count.simps [of "[]"] rune_bytes_def byte_def)

lemmas demo_register = Register_def register_user_def new_user_def validateRegisterInput_def rune_count_ali
  validateEmailInput_def newVerificationToken_def newOTPHash_def newOTP_def otpDigits_def minUsernameRunes_def maxUsernameRunes_def

lemma demo_register_trim: "trim_space ''ali'' = ''ali''" "trim_space ''n@x'' = ''n@x''"
  by (rule trim_space_plain; simp add: byte_def)+

text \<open>The witness lets another user log out everywhere in between, and the limiter count the call.\<close>

lemma first_call_allowed:
  assumes "db_faults d = []" "db_limits d = []" "rule_Max ipRule \<le> 0" "trim_space v \<noteq> ''''"
    and "1 \<le> rule_Max r" "0 < rule_Window r"
  shows "\<exists>m. limited C E q action (kind, v, r) ipRule d = (Inr (), m) \<and> db_faults m = []"
proof -
  have inc: "\<exists>w' m. IncrementAuthRateLimit l w d = (Inr (1 \<le> rl_MaxAttempts l, w'), m) \<and> db_faults m = []" for l w
    by (simp add: IncrementAuthRateLimit_def statement_no_faults assms(1,2))
  obtain w' m where "IncrementAuthRateLimit \<lparr>rl_Action = action,
      rl_KeyHash = authRateLimitKeyHash E action kind (trim_space v), rl_WindowStart = go_truncate (rq_now q) (rule_Window r),
      rl_WindowSeconds = rule_Window r div 10 ^ 9, rl_MaxAttempts = rule_Max r,
      rl_ExpiresAt = go_truncate (rq_now q) (rule_Window r) + rule_Window r\<rparr> (rq_now q) d = (Inr (True, w'), m)"
    and m: "db_faults m = []"
    using inc [of "\<lparr>rl_Action = action,
      rl_KeyHash = authRateLimitKeyHash E action kind (trim_space v), rl_WindowStart = go_truncate (rq_now q) (rule_Window r),
      rl_WindowSeconds = rule_Window r div 10 ^ 9, rl_MaxAttempts = rule_Max r,
      rl_ExpiresAt = go_truncate (rq_now q) (rule_Window r) + rule_Window r\<rparr>" "rq_now q"] assms(5) by auto
  then have "limited C E q action (kind, v, r) ipRule d = (Inr (), m) \<or> limited C E q action (kind, v, r) ipRule d = (Inr (), d)"
    using assms(3-6) by (auto simp: limited_def enforceAuthRateLimit_def op_bind_def op_ret_def Let_def)
  with m assms(1) show ?thesis by blast
qed

definition demo_limited_cfg :: account_cfg where
  "demo_limited_cfg = demo_account_cfg\<lparr>ac_auth := demo_quiet_cfg\<lparr>cfg_rateLimiter := True\<rparr>,
     ac_VerifyEmailOTPIP := \<lparr>rule_Max = 0, rule_Window = 0\<rparr>\<rparr>"

theorem registration_verifies_witness:
  "\<exists>user db1 later db2. Register demo_account_cfg demo_env (demo_req ''s9'' CHR ''c'') demo_account_draws
       ''ali'' ''n@x'' ''password3'' demo_account_db = (Inr user, db1) \<and> later = snd (RevokeAllAuthSessions ''u2'' db1) \<and>
     VerifyEmail demo_limited_cfg demo_env (demo_req ''s8'' CHR ''c'') (demo_token CHR ''n'') '''' '''' later = (Inr (), db2) \<and>
     map usr_EmailVerified (db_users db2) = [False, True, True] \<and> db_users later \<noteq> db_users db1"
proof -
  let ?run = "Register demo_account_cfg demo_env (demo_req ''s9'' CHR ''c'') demo_account_draws
       ''ali'' ''n@x'' ''password3'' demo_account_db"
  let ?later = "snd (RevokeAllAuthSessions ''u2'' (snd ?run))"
  let ?q = "demo_req ''s8'' CHR ''c''" and ?t = "ae_encode64 demo_env (demo_token CHR ''n'')"
  let ?lim = "limited demo_limited_cfg demo_env ?q ''verify_email'' (''token'', ?t, ac_VerifyEmailToken demo_limited_cfg)
      (ac_VerifyEmailOTPIP demo_limited_cfg)"
  have ok: "\<not> isl (fst ?run)" by (simp_all add: demo_register demo_register_trim demo_eval)
  obtain user db1 where run: "?run = (Inr user, db1)" using demo_account_run [OF ok] by (elim exE)
  have raw: "ad_token demo_account_draws = Some (demo_token CHR ''n'')" by (simp add: demo_eval)
  have db1: "db1 = snd ?run" "user = projr (fst ?run)" using run by simp_all
  have token: "length (demo_token CHR ''n'') = verificationTokenBytes"
    "trim_space ?t = ?t" "?t \<noteq> ''''" "length ?t \<le> maxResetTokenInputBytes"
    "ae_decode64 demo_env ?t = Some (demo_token CHR ''n'')"
    by (simp_all add: demo_eval)
  have state: "filter (\<lambda>r. tk_UserID r = usr_ID user) (db_tokens ?later VerificationTokens)
      = filter (\<lambda>r. tk_UserID r = usr_ID user) (db_tokens db1 VerificationTokens)"
    "distinct (map tk_TokenHash (db_tokens ?later VerificationTokens))"
    "list_ex (live (usr_ID user)) (db_users ?later)" "db_users ?later \<noteq> db_users db1"
    unfolding db1 by (simp_all add: demo_register demo_register_trim demo_eval RevokeAllAuthSessions_def
        bump_token_version_def revoke_where_def live_def)
  have counters: "db_faults ?later = []" "db_limits ?later = []"
    by (simp_all add: demo_register demo_register_trim demo_eval RevokeAllAuthSessions_def
        bump_token_version_def revoke_where_def)
  have rules: "rule_Max (ac_VerifyEmailOTPIP demo_limited_cfg) \<le> 0" "trim_space ?t \<noteq> ''''"
    "1 \<le> rule_Max (ac_VerifyEmailToken demo_limited_cfg)" "0 < rule_Window (ac_VerifyEmailToken demo_limited_cfg)"
    by (simp_all add: demo_limited_cfg_def demo_eval)
  obtain m where lim: "?lim ?later = (Inr (), m)" "db_faults m = []"
    using first_call_allowed [OF counters rules] by blast
  have now: "rq_now ?q < rq_now (demo_req ''s9'' CHR ''c'') + ac_verificationTTL demo_account_cfg" by (simp add: demo_eval)
  from registration_verifies [OF run raw token state(1-3) lim now] obtain db2 where
    ver: "VerifyEmail demo_limited_cfg demo_env ?q ?t '''' '''' ?later = (Inr (), db2)"
    and db2: "db_users db2 = on_live (usr_ID user) (verified (db_clock ?later)) (db_users ?later)" by (elim exE conjE)
  have t: "?t = demo_token CHR ''n''" by (simp add: demo_eval)
  have later: "?later = snd (RevokeAllAuthSessions ''u2'' db1)" by (simp only: db1(1))
  have users: "map usr_EmailVerified (db_users db2) = [False, True, True]"
    unfolding db2 db1 by (simp add: demo_register demo_register_trim demo_eval RevokeAllAuthSessions_def
        bump_token_version_def revoke_where_def live_def on_live_def verified_def)
  show ?thesis
    by (rule exI [of _ user], rule exI [of _ db1], rule exI [of _ ?later], rule exI [of _ db2])
      (intro conjI run later ver [unfolded t] users state(4))
qed

end
