(* ===== verification/Quran_Types.thy ===== *)
theory Quran_Types
  imports Unit_Types
begin

text \<open>
  The data of the Quran side of the Citable Unit registry: the source, binding and plan records of
  \<open>internal/entity/citable_unit.go\<close>, the derived units and slot keys of \<open>unitregistry/quran.go\<close>.

  A JSON column is its value (\<open>json\<close>), absent (\<open>None\<close>) for an SQL NULL; JSON numbers keep their
  text. Times are integers. \<open>html.UnescapeString\<close> and the scan for \<open>sup\<close> tags
  (\<open>quranFootnoteMarkerRE.FindAllStringSubmatch\<close>, which yields the attribute value and the body
  of each match) are parameters.
\<close>

datatype json =
    JNull
  | JBool bool
  | JNumber string
  | JString string
  | JArray "json list"
  | JObject "(string \<times> json) list"

record quran_env =
  qe_unit :: unit_env
  qe_unescape :: "string \<Rightarrow> string"
  qe_sup_tags :: "string \<Rightarrow> (string \<times> string) list"

datatype quran_error =
    ErrInvalidQuranUnitSource
  | ErrInvalidQuranFootnotes
  | ErrInvalidQuranUnitPlan
  | ErrQuranPrimaryTextDrift
  | ErrUnitReconcileConflict
  | ErrQuranSurahNotFound
  | ErrInvalidSourceRelationship
  | ErrRegistryInvariant
  | ErrStatement

section \<open>Vocabulary\<close>

definition UnitCorpusQuran :: string where "UnitCorpusQuran = ''quran''"
definition QuranUnitRolePrimaryText :: string where "QuranUnitRolePrimaryText = ''primary_text''"
definition QuranUnitRoleTranslation :: string where "QuranUnitRoleTranslation = ''translation''"
definition QuranUnitRoleFootnote :: string where "QuranUnitRoleFootnote = ''footnote''"
definition QuranUnitRoleTransliteration :: string where "QuranUnitRoleTransliteration = ''transliteration''"

lemmas quran_roles = QuranUnitRolePrimaryText_def QuranUnitRoleTranslation_def
  QuranUnitRoleFootnote_def QuranUnitRoleTransliteration_def

section \<open>Records\<close>

record QuranCitableUnitBinding =
  qb_UnitID :: string
  qb_SurahID :: int
  qb_AyahNumber :: int
  qb_Ordinal :: int
  qb_Role :: string
  qb_TranslationSourceID :: "string option"
  qb_TransliterationSourceID :: "string option"
  qb_FootnoteKey :: "string option"
  qb_SourceUpdatedAt :: int

record QuranUnitSourceTranslation =
  tr_SourceID :: string
  tr_Language :: string
  tr_Text :: string
  tr_Footnotes :: "json option"
  tr_Metadata :: "json option"
  tr_UpdatedAt :: int

record QuranUnitSourceTransliteration =
  tl_SourceID :: string
  tl_Language :: string
  tl_Text :: string
  tl_UpdatedAt :: int

record QuranUnitSourceAyah =
  qa_AyahNumber :: int
  qa_PageNumber :: "int option"
  qa_PrimaryText :: string
  qa_PrimaryUpdatedAt :: int
  qa_Translations :: "QuranUnitSourceTranslation list"
  qa_Transliterations :: "QuranUnitSourceTransliteration list"

record QuranUnitSource =
  qs_SurahID :: int
  qs_LoadedAt :: int
  qs_Ayahs :: "QuranUnitSourceAyah list"

record QuranCitableUnitRecord =
  qr_Unit :: CitableUnit
  qr_Binding :: QuranCitableUnitBinding

record QuranUnitRegistryFingerprint =
  qf_ActiveCount :: int
  qf_MaxOrdinal :: int
  qf_MaxUpdatedAt :: int

text \<open>A Go map with integer values reads as zero where it has no entry.\<close>

record QuranUnitRegistrySnapshot =
  qn_Active :: "QuranCitableUnitRecord list"
  qn_MaxOrdinalByAyah :: "int \<Rightarrow> int"
  qn_ExistingIDs :: "string list"
  qn_Fingerprint :: QuranUnitRegistryFingerprint

record QuranUnitMint =
  qm_Unit :: CitableUnit
  qm_Binding :: QuranCitableUnitBinding

record QuranUnitPlanUpdate =
  qu_ID :: string
  qu_PageID :: "int option"
  qu_Position :: int
  qu_ParentUnitID :: "string option"
  qu_SourceUpdatedAt :: int

record QuranUnitReconcileReport =
  qrep_SurahID :: int
  qrep_Ayahs :: int
  qrep_Derived :: int
  qrep_Matched :: int
  qrep_Minted :: int
  qrep_Updated :: int
  qrep_Superseded :: int
  qrep_Tombstoned :: int
  qrep_Edges :: int
  qrep_Attempts :: int

record QuranUnitReconcilePlan =
  qp_SurahID :: int
  qp_LoadedAt :: int
  qp_BasedOn :: QuranUnitRegistryFingerprint
  qp_Mints :: "QuranUnitMint list"
  qp_Updates :: "QuranUnitPlanUpdate list"
  qp_Retires :: "UnitPlanRetire list"
  qp_Edges :: "CitableUnitLineage list"
  qp_ExpectedActive :: int
  qp_Report :: QuranUnitReconcileReport

record derivedQuranUnit =
  dq_ayahNumber :: int
  dq_pageNumber :: "int option"
  dq_role :: string
  dq_kind :: string
  dq_sourceID :: string
  dq_footnoteKey :: string
  dq_parentSlot :: string
  dq_position :: int
  dq_marker :: string
  dq_text :: string
  dq_language :: string
  dq_sourceUpdatedAt :: int
  dq_contentHash :: string

record derivedQuranFootnote =
  df_key :: string
  df_marker :: string
  df_text :: string

section \<open>Slots\<close>

definition quranSlotKey :: "int \<Rightarrow> string \<Rightarrow> string \<Rightarrow> string \<Rightarrow> string" where
  "quranSlotKey ayahNumber role sourceID footnoteKey =
     show_int ayahNumber @ [CHR 0x00] @ role @ [CHR 0x00] @ sourceID @ [CHR 0x00] @ footnoteKey"

definition binding_source :: "QuranCitableUnitBinding \<Rightarrow> string" where
  "binding_source b =
     (case qb_TransliterationSourceID b of
        Some s \<Rightarrow> s
      | None \<Rightarrow> (case qb_TranslationSourceID b of Some s \<Rightarrow> s | None \<Rightarrow> ''qpc-hafs''))"

definition quranBindingSlotKey :: "QuranCitableUnitBinding \<Rightarrow> string" where
  "quranBindingSlotKey b =
     quranSlotKey (qb_AyahNumber b) (qb_Role b) (binding_source b)
       (case qb_FootnoteKey b of Some k \<Rightarrow> k | None \<Rightarrow> '''')"

definition slot_of :: "derivedQuranUnit \<Rightarrow> string" where
  "slot_of d = quranSlotKey (dq_ayahNumber d) (dq_role d) (dq_sourceID d) (dq_footnoteKey d)"

definition newDerivedQuranUnit ::
  "unit_env \<Rightarrow> int \<Rightarrow> int option \<Rightarrow> string \<Rightarrow> string \<Rightarrow> string \<Rightarrow> string \<Rightarrow> int \<Rightarrow> string \<Rightarrow>
   string \<Rightarrow> string \<Rightarrow> int \<Rightarrow> derivedQuranUnit" where
  "newDerivedQuranUnit E ayahNumber pageNumber role sourceID footnoteKey parentSlot position marker
     txt language sourceUpdatedAt =
     (let kind = (if role = QuranUnitRoleFootnote then UnitKindFootnote else role) in
      \<lparr>dq_ayahNumber = ayahNumber, dq_pageNumber = pageNumber, dq_role = role, dq_kind = kind,
       dq_sourceID = sourceID, dq_footnoteKey = footnoteKey, dq_parentSlot = parentSlot,
       dq_position = position, dq_marker = marker, dq_text = txt, dq_language = language,
       dq_sourceUpdatedAt = sourceUpdatedAt, dq_contentHash = ContentHash E kind marker txt\<rparr>)"

text \<open>\<open>btrim(s) = ''\<close> in SQL: nothing but spaces.\<close>

definition sql_blank :: "string \<Rightarrow> bool" where
  "sql_blank s \<longleftrightarrow> list_all (\<lambda>c. c = CHR '' '') s"

end
