(* ===== verification/Quran_Derive.thy ===== *)
theory Quran_Derive
  imports Quran_Types
begin

text \<open>
  Derivation of one surah (\<open>unitregistry/quran.go\<close>, \<open>deriveQuranSurah\<close> and the footnote parsers).

  \<open>sort.Slice\<close> is the insertion sort the Go library runs on up to twelve elements; on longer
  slices it uses other algorithms, which give the same order whenever the comparison is a strict
  weak order and the elements it does not order are equal or rejected later.
\<close>

section \<open>Sorting with a comparison function\<close>

fun str_less :: "string \<Rightarrow> string \<Rightarrow> bool" where
  "str_less s [] = False"
| "str_less [] (y # ys) = True"
| "str_less (x # xs) (y # ys) = (byte x < byte y \<or> (x = y \<and> str_less xs ys))"

text \<open>The element is moved left past every element it is less than.\<close>

definition insert_last :: "('a \<Rightarrow> 'a \<Rightarrow> bool) \<Rightarrow> 'a \<Rightarrow> 'a list \<Rightarrow> 'a list" where
  "insert_last lt x xs =
     (let moved = takeWhile (lt x) (rev xs)
      in take (length xs - length moved) xs @ x # rev moved)"

definition sort_slice :: "('a \<Rightarrow> 'a \<Rightarrow> bool) \<Rightarrow> 'a list \<Rightarrow> 'a list" where
  "sort_slice lt xs = fold (insert_last lt) xs []"

section \<open>JSON values\<close>

text \<open>
  Go matches an object key to a struct field by its exact name, else by its folded name; among the
  letters of the names used here only \<open>k\<close> and \<open>s\<close> fold from runes outside ASCII.
\<close>

fun fold_name :: "string \<Rightarrow> string" where
  "fold_name [] = []"
| "fold_name (c # cs) =
     (if byte c = 226 \<and> map byte (take 2 cs) = [132, 170] then CHR ''k'' # fold_name (drop 2 cs)
      else if byte c = 197 \<and> map byte (take 1 cs) = [191] then CHR ''s'' # fold_name (drop 1 cs)
      else ascii_lower c # fold_name cs)"

definition json_field :: "string list \<Rightarrow> string \<Rightarrow> string" where
  "json_field names key = (if key \<in> set names then key else fold_name key)"

text \<open>The last entry for a field wins, as later keys overwrite earlier ones.\<close>

definition json_get :: "string list \<Rightarrow> (string \<times> json) list \<Rightarrow> string \<Rightarrow> json option" where
  "json_get names kvs f = map_of (rev (map (\<lambda>(k, v). (json_field names k, v)) kvs)) f"

text \<open>Decoding into a string field: \<open>null\<close> and a missing key leave it empty.\<close>

fun json_string :: "json option \<Rightarrow> string option" where
  "json_string None = Some ''''"
| "json_string (Some JNull) = Some ''''"
| "json_string (Some (JString s)) = Some s"
| "json_string (Some v) = None"

text \<open>
  Every value stored under a string field is decoded in turn: one of the wrong type fails the
  call, and \<open>null\<close> keeps what an earlier one stored.
\<close>

definition json_string_field :: "string list \<Rightarrow> (string \<times> json) list \<Rightarrow> string \<Rightarrow> string option" where
  "json_string_field names kvs f =
     fold (\<lambda>(k, v) acc. if json_field names k \<noteq> f then acc
        else case (acc, v) of
          (None, _) \<Rightarrow> None
        | (Some s, JNull) \<Rightarrow> Some s
        | (Some s, JString t) \<Rightarrow> Some t
        | (Some s, _) \<Rightarrow> None) kvs (Some '''')"

section \<open>Footnotes\<close>

record quranFootnoteWire =
  fw_Number :: "json option"
  fw_Marker :: string
  fw_Text :: string
  fw_N :: "json option"
  fw_T :: string

definition wire_names :: "string list" where
  "wire_names = [''number'', ''marker'', ''text'', ''n'', ''t'']"

definition decode_wire :: "json \<Rightarrow> quranFootnoteWire option" where
  "decode_wire v =
     (case v of
        JNull \<Rightarrow> Some \<lparr>fw_Number = None, fw_Marker = '''', fw_Text = '''', fw_N = None, fw_T = ''''\<rparr>
      | JObject kvs \<Rightarrow>
          (case (json_string_field wire_names kvs ''marker'', json_string_field wire_names kvs ''text'',
                 json_string_field wire_names kvs ''t'') of
             (Some m, Some x, Some t) \<Rightarrow>
               Some \<lparr>fw_Number = json_get wire_names kvs ''number'', fw_Marker = m, fw_Text = x,
                 fw_N = json_get wire_names kvs ''n'', fw_T = t\<rparr>
           | _ \<Rightarrow> None)
      | _ \<Rightarrow> None)"

fun footnoteJSONKey :: "json option \<Rightarrow> quran_error + string" where
  "footnoteJSONKey (Some (JString s)) =
     (if trim_space s = '''' then Inl ErrInvalidQuranFootnotes else Inr (trim_space s))"
| "footnoteJSONKey (Some (JNumber s)) =
     (if trim_space s = '''' then Inl ErrInvalidQuranFootnotes else Inr s)"
| "footnoteJSONKey v = Inl ErrInvalidQuranFootnotes"

definition footnote_item ::
  "string list \<Rightarrow> quranFootnoteWire \<Rightarrow> quran_error + derivedQuranFootnote" where
  "footnote_item seen item =
     (let absent = fw_Number item = None;
          txt = (if absent then fw_T item else fw_Text item)
      in res_bind (footnoteJSONKey (if absent then fw_N item else fw_Number item)) (\<lambda>key.
           if trim_space txt = '''' \<or> key \<in> set seen then Inl ErrInvalidQuranFootnotes
           else Inr \<lparr>df_key = key,
             df_marker = (if trim_space (fw_Marker item) = '''' then key else trim_space (fw_Marker item)),
             df_text = trim_space txt\<rparr>))"

fun footnote_items ::
  "string list \<Rightarrow> quranFootnoteWire list \<Rightarrow> quran_error + derivedQuranFootnote list" where
  "footnote_items seen [] = Inr []"
| "footnote_items seen (item # items) =
     res_bind (footnote_item seen item) (\<lambda>f.
       res_bind (footnote_items (df_key f # seen) items) (\<lambda>fs. Inr (f # fs)))"

definition footnote_less :: "derivedQuranFootnote \<Rightarrow> derivedQuranFootnote \<Rightarrow> bool" where
  "footnote_less f g =
     (case (atoi (df_key f), atoi (df_key g)) of
        (Some i, Some j) \<Rightarrow> if i \<noteq> j then i < j else str_less (df_key f) (df_key g)
      | _ \<Rightarrow> str_less (df_key f) (df_key g))"

text \<open>\<open>strconv.ParseUint\<close> in base ten with 64 bits.\<close>

definition parse_uint64 :: "string \<Rightarrow> nat option" where
  "parse_uint64 s =
     (if s = '''' \<or> \<not> list_all is_digit s then None
      else if read_nat s < 2 ^ 64 then Some (read_nat s) else None)"

definition quranObjectFootnoteKey :: "string \<Rightarrow> quran_error + string" where
  "quranObjectFootnoteKey raw =
     (case parse_uint64 (trim_space raw) of
        None \<Rightarrow> Inl ErrInvalidQuranFootnotes
      | Some n \<Rightarrow> if n = 0 then Inl ErrInvalidQuranFootnotes else Inr (show_nat n))"

definition quranFootnoteMarkers :: "quran_env \<Rightarrow> string \<Rightarrow> string \<rightharpoonup> string" where
  "quranFootnoteMarkers Q translationText =
     fold (\<lambda>(attr, body) m.
        case quranObjectFootnoteKey attr of
          Inl _ \<Rightarrow> m
        | Inr key \<Rightarrow>
            let marker = trim_space (qe_unescape Q body) in
            if marker = '''' \<or> m key \<noteq> None then m else m(key \<mapsto> marker))
      (qe_sup_tags Q translationText) Map.empty"

definition qul_item ::
  "(string \<rightharpoonup> string) \<Rightarrow> string list \<Rightarrow> string \<Rightarrow> json \<Rightarrow> quran_error + derivedQuranFootnote" where
  "qul_item markers seen rawKey rawText =
     res_bind (quranObjectFootnoteKey rawKey) (\<lambda>key.
       if key \<in> set seen then Inl ErrInvalidQuranFootnotes
       else case json_string (Some rawText) of
         None \<Rightarrow> Inl ErrInvalidQuranFootnotes
       | Some txt \<Rightarrow>
           if trim_space txt = '''' then Inl ErrInvalidQuranFootnotes
           else Inr \<lparr>df_key = key,
             df_marker = (case markers key of Some m \<Rightarrow> m | None \<Rightarrow> key), df_text = trim_space txt\<rparr>)"

fun qul_items ::
  "(string \<rightharpoonup> string) \<Rightarrow> string list \<Rightarrow> (string \<times> json) list \<Rightarrow>
   quran_error + derivedQuranFootnote list" where
  "qul_items markers seen [] = Inr []"
| "qul_items markers seen ((k, v) # kvs) =
     res_bind (qul_item markers seen k v) (\<lambda>f.
       res_bind (qul_items markers (df_key f # seen) kvs) (\<lambda>fs. Inr (f # fs)))"

definition qul_less :: "derivedQuranFootnote \<Rightarrow> derivedQuranFootnote \<Rightarrow> bool" where
  "qul_less f g =
     (if length (df_key f) \<noteq> length (df_key g) then length (df_key f) < length (df_key g)
      else str_less (df_key f) (df_key g))"

text \<open>
  The code ranges over a Go map, whose order varies; the keys are unique, every failure is the same
  error, and the result is sorted by a total order on the keys.
\<close>

definition parseQULQuranFootnotes ::
  "quran_env \<Rightarrow> (string \<times> json) list \<Rightarrow> string \<Rightarrow> quran_error + derivedQuranFootnote list" where
  "parseQULQuranFootnotes Q kvs translationText =
     res_bind (qul_items (quranFootnoteMarkers Q translationText) []
         (map (\<lambda>k. (k, the (map_of (rev kvs) k))) (nub (map fst kvs))))
       (\<lambda>fs. Inr (sort_slice qul_less fs))"

definition parseQuranFootnotes ::
  "quran_env \<Rightarrow> json option \<Rightarrow> string \<Rightarrow> quran_error + derivedQuranFootnote list" where
  "parseQuranFootnotes Q raw translationText =
     (case raw of
        None \<Rightarrow> Inr []
      | Some JNull \<Rightarrow> Inr []
      | Some (JObject kvs) \<Rightarrow> parseQULQuranFootnotes Q kvs translationText
      | Some (JArray vs) \<Rightarrow>
          (if list_ex (\<lambda>v. decode_wire v = None) vs then Inl ErrInvalidQuranFootnotes
           else res_bind (footnote_items [] (map (the \<circ> decode_wire) vs))
                  (\<lambda>fs. Inr (sort_slice footnote_less fs)))
      | Some _ \<Rightarrow> Inl ErrInvalidQuranFootnotes)"

definition meta_names :: "string list" where
  "meta_names = [''t'', ''text'', ''translation'']"

definition quranFootnoteMarkerText :: "QuranUnitSourceTranslation \<Rightarrow> string" where
  "quranFootnoteMarkerText t =
     (let joined = (\<lambda>a b c. join_char (CHR 0x0A) [tr_Text t, a, b, c]) in
      case tr_Metadata t of
        Some JNull \<Rightarrow> joined '''' '''' ''''
      | Some (JObject kvs) \<Rightarrow>
          (case (json_string_field meta_names kvs ''t'', json_string_field meta_names kvs ''text'',
                 json_string_field meta_names kvs ''translation'') of
             (Some a, Some b, Some c) \<Rightarrow> joined a b c
           | _ \<Rightarrow> tr_Text t)
      | _ \<Rightarrow> tr_Text t)"

section \<open>One surah\<close>

fun footnote_units ::
  "unit_env \<Rightarrow> QuranUnitSourceAyah \<Rightarrow> QuranUnitSourceTranslation \<Rightarrow> string \<Rightarrow> int \<Rightarrow>
   derivedQuranFootnote list \<Rightarrow> derivedQuranUnit list" where
  "footnote_units E a t slot position [] = []"
| "footnote_units E a t slot position (f # fs) =
     newDerivedQuranUnit E (qa_AyahNumber a) (qa_PageNumber a) QuranUnitRoleFootnote (tr_SourceID t)
       (df_key f) slot position (df_marker f) (df_text f) (tr_Language t) (tr_UpdatedAt t)
     # footnote_units E a t slot (position + 1) fs"

definition translation_units ::
  "quran_env \<Rightarrow> QuranUnitSourceAyah \<Rightarrow> int \<Rightarrow> QuranUnitSourceTranslation \<Rightarrow>
   quran_error + derivedQuranUnit list" where
  "translation_units Q a position t =
     (let slot = quranSlotKey (qa_AyahNumber a) QuranUnitRoleTranslation (tr_SourceID t) '''';
          body = newDerivedQuranUnit (qe_unit Q) (qa_AyahNumber a) (qa_PageNumber a)
            QuranUnitRoleTranslation (tr_SourceID t) '''' '''' position '''' (trim_space (tr_Text t))
            (tr_Language t) (tr_UpdatedAt t)
      in res_bind (parseQuranFootnotes Q (tr_Footnotes t) (quranFootnoteMarkerText t)) (\<lambda>fs.
           Inr (body # footnote_units (qe_unit Q) a t slot (position + 1) fs)))"

fun derive_translations ::
  "quran_env \<Rightarrow> QuranUnitSourceAyah \<Rightarrow> int \<Rightarrow> string list \<Rightarrow> QuranUnitSourceTranslation list \<Rightarrow>
   quran_error + derivedQuranUnit list" where
  "derive_translations Q a position seen [] = Inr []"
| "derive_translations Q a position seen (t # ts) =
     (if trim_space (tr_SourceID t) = '''' \<or> trim_space (tr_Text t) = '''' \<or> tr_SourceID t \<in> set seen
      then Inl ErrInvalidQuranUnitSource
      else res_bind (translation_units Q a position t) (\<lambda>us.
        res_bind (derive_translations Q a (position + int (length us)) (tr_SourceID t # seen) ts)
          (\<lambda>vs. Inr (us @ vs))))"

fun derive_transliterations ::
  "unit_env \<Rightarrow> QuranUnitSourceAyah \<Rightarrow> int \<Rightarrow> string list \<Rightarrow> QuranUnitSourceTransliteration list \<Rightarrow>
   quran_error + derivedQuranUnit list" where
  "derive_transliterations E a position seen [] = Inr []"
| "derive_transliterations E a position seen (t # ts) =
     (if trim_space (tl_SourceID t) = '''' \<or> trim_space (tl_Text t) = '''' \<or> tl_SourceID t \<in> set seen
      then Inl ErrInvalidQuranUnitSource
      else res_bind (derive_transliterations E a (position + 1) (tl_SourceID t # seen) ts) (\<lambda>vs.
        Inr (newDerivedQuranUnit E (qa_AyahNumber a) (qa_PageNumber a) QuranUnitRoleTransliteration
          (tl_SourceID t) '''' '''' position '''' (trim_space (tl_Text t)) (tl_Language t)
          (tl_UpdatedAt t) # vs)))"

definition source_less :: "string \<times> string \<Rightarrow> string \<times> string \<Rightarrow> bool" where
  "source_less a b = (if fst a \<noteq> fst b then str_less (fst a) (fst b) else str_less (snd a) (snd b))"

definition derive_ayah :: "quran_env \<Rightarrow> QuranUnitSourceAyah \<Rightarrow> quran_error + derivedQuranUnit list" where
  "derive_ayah Q a =
     (let primary = trim_space (qa_PrimaryText a) in
      if primary = '''' then Inr []
      else res_bind (derive_translations Q a 1 []
          (sort_slice (\<lambda>x y. source_less (tr_Language x, tr_SourceID x) (tr_Language y, tr_SourceID y))
            (qa_Translations a))) (\<lambda>us.
        res_bind (derive_transliterations (qe_unit Q) a (1 + int (length us)) []
          (sort_slice (\<lambda>x y. source_less (tl_Language x, tl_SourceID x) (tl_Language y, tl_SourceID y))
            (qa_Transliterations a))) (\<lambda>vs.
        Inr (newDerivedQuranUnit (qe_unit Q) (qa_AyahNumber a) (qa_PageNumber a) QuranUnitRolePrimaryText
          ''qpc-hafs'' '''' '''' 0 '''' primary ''ar'' (qa_PrimaryUpdatedAt a) # us @ vs))))"

fun derive_ayahs ::
  "quran_env \<Rightarrow> int list \<Rightarrow> QuranUnitSourceAyah list \<Rightarrow> quran_error + derivedQuranUnit list" where
  "derive_ayahs Q seen [] = Inr []"
| "derive_ayahs Q seen (a # as) =
     (if qa_AyahNumber a \<in> set seen \<or> qa_AyahNumber a < 1 then Inl ErrInvalidQuranUnitSource
      else res_bind (derive_ayah Q a) (\<lambda>us.
        res_bind (derive_ayahs Q (qa_AyahNumber a # seen) as) (\<lambda>vs. Inr (us @ vs))))"

definition deriveQuranSurah :: "quran_env \<Rightarrow> QuranUnitSource \<Rightarrow> quran_error + derivedQuranUnit list" where
  "deriveQuranSurah Q source =
     derive_ayahs Q [] (sort_slice (\<lambda>x y. qa_AyahNumber x < qa_AyahNumber y) (qs_Ayahs source))"

end
