(* ===== verification/Quran_Plan.thy ===== *)
theory Quran_Plan
  imports Quran_Derive Unit_History
begin

text \<open>
  The planner of one surah (\<open>unitregistry/quran.go\<close>, \<open>planQuranSurah\<close> and \<open>mintQuranUnit\<close>).

  The occurrence probe has no bound in the code, so a plan is an option: \<open>None\<close> is a call that
  never comes back. The maps from slots are lookups in the lists they are built from, whose slots
  the code checks to be distinct. The write-only field \<open>mintIndex\<close> is left out.
\<close>

record plannedQuranUnit =
  pq_derived :: derivedQuranUnit
  pq_unitID :: string
  pq_ordinal :: int
  pq_occurrence :: int
  pq_matched :: "QuranCitableUnitRecord option"

record quran_builder =
  qy_highwater :: "int \<Rightarrow> int"
  qy_planned :: "plannedQuranUnit list"
  qy_plan :: QuranUnitReconcilePlan

definition record_slot :: "QuranCitableUnitRecord \<Rightarrow> string" where
  "record_slot r = quranBindingSlotKey (qr_Binding r)"

definition activeBySlot :: "QuranCitableUnitRecord list \<Rightarrow> string \<Rightarrow> QuranCitableUnitRecord option" where
  "activeBySlot active slot = find (\<lambda>r. record_slot r = slot) active"

section \<open>Matching and minting\<close>

definition match_item :: "derivedQuranUnit \<Rightarrow> QuranCitableUnitRecord \<Rightarrow> quran_builder \<Rightarrow> quran_builder" where
  "match_item d r b =
     (let plan = qy_plan b; rep = qp_Report plan in
      b\<lparr>qy_planned := qy_planned b @
          [\<lparr>pq_derived = d, pq_unitID = u_ID (qr_Unit r), pq_ordinal = qb_Ordinal (qr_Binding r),
            pq_occurrence = u_Occurrence (qr_Unit r), pq_matched = Some r\<rparr>],
        qy_plan := plan\<lparr>qp_Report := rep\<lparr>qrep_Matched := qrep_Matched rep + 1\<rparr>\<rparr>\<rparr>)"

definition supersede_item :: "QuranCitableUnitRecord \<Rightarrow> string \<Rightarrow> QuranUnitReconcilePlan \<Rightarrow> QuranUnitReconcilePlan" where
  "supersede_item r newID plan =
     (let rep = qp_Report plan in
      plan\<lparr>qp_Retires := qp_Retires plan @
             [\<lparr>rt_ID = u_ID (qr_Unit r), rt_Lifecycle = UnitLifecycleSuperseded\<rparr>],
           qp_Edges := qp_Edges plan @
             [\<lparr>e_PredecessorID = u_ID (qr_Unit r), e_SuccessorID = newID, e_Reason = UnitLineageReasonEdit\<rparr>],
           qp_Report := rep\<lparr>qrep_Superseded := qrep_Superseded rep + 1, qrep_Edges := qrep_Edges rep + 1\<rparr>\<rparr>)"

definition fresh_item ::
  "unit_env \<Rightarrow> int \<Rightarrow> string list \<Rightarrow> derivedQuranUnit \<Rightarrow> QuranCitableUnitRecord option \<Rightarrow>
   quran_builder \<Rightarrow> (quran_error + quran_builder) option" where
  "fresh_item E surahID existing d current b =
     (if current \<noteq> None \<and> dq_role d = QuranUnitRolePrimaryText then Some (Inl ErrQuranPrimaryTextDrift)
      else let high = (qy_highwater b)(dq_ayahNumber d := qy_highwater b (dq_ayahNumber d) + 1);
               ordinal = high (dq_ayahNumber d);
               ident = QuranUnitID E surahID (dq_ayahNumber d) (dq_role d) (dq_sourceID d)
                 (dq_footnoteKey d) (dq_contentHash d)
           in if dq_role d = QuranUnitRolePrimaryText \<and> ordinal \<noteq> 1
              then Some (Inl ErrInvalidQuranUnitPlan)
              else case probe ident existing [] 1 of
                None \<Rightarrow> None
              | Some occurrence \<Rightarrow> Some (Inr (b\<lparr>qy_highwater := high,
                  qy_planned := qy_planned b @
                    [\<lparr>pq_derived = d, pq_unitID = ident occurrence, pq_ordinal = ordinal,
                      pq_occurrence = occurrence, pq_matched = None\<rparr>],
                  qy_plan := (case current of
                      None \<Rightarrow> qy_plan b
                    | Some r \<Rightarrow> supersede_item r (ident occurrence) (qy_plan b))\<rparr>)))"

fun plan_items ::
  "unit_env \<Rightarrow> int \<Rightarrow> QuranUnitRegistrySnapshot \<Rightarrow> string list \<Rightarrow> derivedQuranUnit list \<Rightarrow>
   quran_builder \<Rightarrow> (quran_error + quran_builder) option" where
  "plan_items E surahID snap seen [] b = Some (Inr b)"
| "plan_items E surahID snap seen (d # ds) b =
     (let slot = slot_of d; current = activeBySlot (qn_Active snap) slot in
      if slot \<in> set seen then Some (Inl ErrInvalidQuranUnitPlan)
      else case (case current of
          Some r \<Rightarrow> if u_ContentHash (qr_Unit r) = dq_contentHash d then Some (Inr (match_item d r b))
                    else fresh_item E surahID (qn_ExistingIDs snap) d current b
        | None \<Rightarrow> fresh_item E surahID (qn_ExistingIDs snap) d current b) of
        None \<Rightarrow> None
      | Some (Inl e) \<Rightarrow> Some (Inl e)
      | Some (Inr b') \<Rightarrow> plan_items E surahID snap (slot # seen) ds b')"

section \<open>Parents, updates and mints\<close>

definition quran_detail :: "int \<Rightarrow> derivedQuranUnit \<Rightarrow> detail" where
  "quran_detail surahID d =
     [(''ayah_key'', DStr (show_int surahID @ '':'' @ show_int (dq_ayahNumber d))),
      (''role'', DStr (dq_role d)), (''source_id'', DStr (dq_sourceID d))] @
     (if dq_footnoteKey d \<noteq> ''''
      then [(''footnote_key'', DStr (dq_footnoteKey d)), (''footnote_link'', DStr FootnoteLinkMarker)]
      else [])"

definition mintQuranUnit ::
  "unit_env \<Rightarrow> int \<Rightarrow> plannedQuranUnit \<Rightarrow> string option \<Rightarrow> QuranUnitMint" where
  "mintQuranUnit E surahID p parentID =
     (let d = pq_derived p in
      \<lparr>qm_Unit = \<lparr>u_ID = pq_unitID p, u_Corpus = UnitCorpusQuran, u_BookID = None, u_HeadingID = None,
         u_PageID = dq_pageNumber d, u_Kind = dq_kind d, u_Ordinal = pq_ordinal p,
         u_Position = dq_position d, u_ParentUnitID = parentID,
         u_Anchor = QuranAnchorFor surahID (dq_ayahNumber d) (pq_ordinal p),
         u_Marker = (if dq_marker d = '''' then None else Some (dq_marker d)), u_Text = dq_text d,
         u_HTML = None, u_TextNormalized = env_normalize E (dq_text d),
         u_NormalizationVersion = ProfileVersion, u_ContentHash = dq_contentHash d,
         u_Occurrence = pq_occurrence p, u_Language = dq_language d, u_ContentRole = '''',
         u_ReviewStatus = '''', u_SourceDocumentHash = '''', u_SourceCharStart = None,
         u_SourceCharEnd = None, u_ProvenanceClass = ProvenanceClassSource,
         u_ProvenanceDetail = Some (quran_detail surahID d), u_GenerationRunID = None,
         u_Generation = None, u_LicenseStatus = None, u_EffectiveLicenseStatus = None,
         u_LicenseSource = None, u_Lifecycle = UnitLifecycleActive, u_RetiredAt = None,
         u_CreatedAt = 0, u_UpdatedAt = 0\<rparr>,
       qm_Binding = \<lparr>qb_UnitID = pq_unitID p, qb_SurahID = surahID, qb_AyahNumber = dq_ayahNumber d,
         qb_Ordinal = pq_ordinal p, qb_Role = dq_role d,
         qb_TranslationSourceID =
           (if dq_role d = QuranUnitRoleTranslation \<or> dq_role d = QuranUnitRoleFootnote
            then Some (dq_sourceID d) else None),
         qb_TransliterationSourceID =
           (if dq_role d = QuranUnitRoleTransliteration then Some (dq_sourceID d) else None),
         qb_FootnoteKey = (if dq_footnoteKey d = '''' then None else Some (dq_footnoteKey d)),
         qb_SourceUpdatedAt = dq_sourceUpdatedAt d\<rparr>\<rparr>)"

definition unitBySlot :: "plannedQuranUnit list \<Rightarrow> string \<rightharpoonup> string" where
  "unitBySlot ps = map_of (map (\<lambda>p. (slot_of (pq_derived p), pq_unitID p)) ps)"

definition parent_of :: "plannedQuranUnit list \<Rightarrow> plannedQuranUnit \<Rightarrow> quran_error + string option" where
  "parent_of ps p =
     (if dq_parentSlot (pq_derived p) = '''' then Inr None
      else case unitBySlot ps (dq_parentSlot (pq_derived p)) of
        None \<Rightarrow> Inl ErrInvalidQuranUnitPlan
      | Some parentID \<Rightarrow> Inr (Some parentID))"

definition quran_up_to_date :: "QuranCitableUnitRecord \<Rightarrow> derivedQuranUnit \<Rightarrow> string option \<Rightarrow> bool" where
  "quran_up_to_date r d parentID \<longleftrightarrow>
     sameOptionalInt (u_PageID (qr_Unit r)) (dq_pageNumber d) \<and>
     u_Position (qr_Unit r) = dq_position d \<and>
     sameParent (u_ParentUnitID (qr_Unit r)) parentID \<and>
     qb_SourceUpdatedAt (qr_Binding r) = dq_sourceUpdatedAt d"

definition quran_update :: "plannedQuranUnit \<Rightarrow> string option \<Rightarrow> QuranUnitPlanUpdate" where
  "quran_update p parentID =
     (let d = pq_derived p in
      \<lparr>qu_ID = pq_unitID p, qu_PageID = dq_pageNumber d, qu_Position = dq_position d,
       qu_ParentUnitID = parentID, qu_SourceUpdatedAt = dq_sourceUpdatedAt d\<rparr>)"

definition stage_item ::
  "unit_env \<Rightarrow> int \<Rightarrow> plannedQuranUnit \<Rightarrow> string option \<Rightarrow> QuranUnitReconcilePlan \<Rightarrow> QuranUnitReconcilePlan" where
  "stage_item E surahID p parentID plan =
     (let rep = qp_Report plan in
      case pq_matched p of
        Some r \<Rightarrow>
          if quran_up_to_date r (pq_derived p) parentID then plan
          else plan\<lparr>qp_Updates := qp_Updates plan @ [quran_update p parentID],
                    qp_Report := rep\<lparr>qrep_Updated := qrep_Updated rep + 1\<rparr>\<rparr>
      | None \<Rightarrow>
          plan\<lparr>qp_Mints := qp_Mints plan @ [mintQuranUnit E surahID p parentID],
               qp_Report := rep\<lparr>qrep_Minted := qrep_Minted rep + 1\<rparr>\<rparr>)"

fun stage_items ::
  "unit_env \<Rightarrow> int \<Rightarrow> plannedQuranUnit list \<Rightarrow> plannedQuranUnit list \<Rightarrow> QuranUnitReconcilePlan \<Rightarrow>
   quran_error + QuranUnitReconcilePlan" where
  "stage_items E surahID all [] plan = Inr plan"
| "stage_items E surahID all (p # ps) plan =
     res_bind (parent_of all p) (\<lambda>parentID.
       stage_items E surahID all ps (stage_item E surahID p parentID plan))"

section \<open>Retirements and the whole plan\<close>

fun retire_absent ::
  "string list \<Rightarrow> QuranCitableUnitRecord list \<Rightarrow> QuranUnitReconcilePlan \<Rightarrow> quran_error + QuranUnitReconcilePlan" where
  "retire_absent desired [] plan = Inr plan"
| "retire_absent desired (r # rs) plan =
     (if record_slot r \<in> set desired then retire_absent desired rs plan
      else if qb_Role (qr_Binding r) = QuranUnitRolePrimaryText then Inl ErrQuranPrimaryTextDrift
      else let rep = qp_Report plan in retire_absent desired rs
        (plan\<lparr>qp_Retires := qp_Retires plan @
                [\<lparr>rt_ID = u_ID (qr_Unit r), rt_Lifecycle = UnitLifecycleTombstoned\<rparr>],
              qp_Report := rep\<lparr>qrep_Tombstoned := qrep_Tombstoned rep + 1\<rparr>\<rparr>))"

definition empty_plan ::
  "QuranUnitSource \<Rightarrow> derivedQuranUnit list \<Rightarrow> QuranUnitRegistrySnapshot \<Rightarrow> QuranUnitReconcilePlan" where
  "empty_plan source derived snap =
     \<lparr>qp_SurahID = qs_SurahID source, qp_LoadedAt = qs_LoadedAt source,
      qp_BasedOn = qn_Fingerprint snap, qp_Mints = [], qp_Updates = [], qp_Retires = [], qp_Edges = [],
      qp_ExpectedActive = int (length derived),
      qp_Report = \<lparr>qrep_SurahID = qs_SurahID source, qrep_Ayahs = int (length (qs_Ayahs source)),
        qrep_Derived = int (length derived), qrep_Matched = 0, qrep_Minted = 0, qrep_Updated = 0,
        qrep_Superseded = 0, qrep_Tombstoned = 0, qrep_Edges = 0, qrep_Attempts = 0\<rparr>\<rparr>"

definition planQuranSurah ::
  "unit_env \<Rightarrow> QuranUnitSource \<Rightarrow> derivedQuranUnit list \<Rightarrow> QuranUnitRegistrySnapshot \<Rightarrow>
   (quran_error + QuranUnitReconcilePlan) option" where
  "planQuranSurah E source derived snap =
     (if \<not> distinct (map record_slot (qn_Active snap)) then Some (Inl ErrInvalidQuranUnitPlan)
      else case plan_items E (qs_SurahID source) snap [] derived
          \<lparr>qy_highwater = qn_MaxOrdinalByAyah snap, qy_planned = [],
           qy_plan = empty_plan source derived snap\<rparr> of
        None \<Rightarrow> None
      | Some (Inl e) \<Rightarrow> Some (Inl e)
      | Some (Inr b) \<Rightarrow>
          Some (res_bind (stage_items E (qs_SurahID source) (qy_planned b) (qy_planned b) (qy_plan b))
            (retire_absent (map slot_of derived) (qn_Active snap))))"

end
