(* ===== verification/Quran_Store.thy ===== *)
theory Quran_Store
  imports Quran_Plan
begin

text \<open>
  The tables behind the Quran side of the registry and the statements of
  \<open>internal/repo/persistent/quran_citable_unit_postgres.go\<close> on them, with the constraints of the
  migrations \<open>add_citable_units\<close>, \<open>add_quran_citable_units\<close> and
  \<open>enforce_citable_unit_parent_invariant\<close> that the statements can meet.

  \<open>qd_units\<close> holds the rows of the Quran corpus. A transaction that does not commit leaves the
  tables as they were. The source tables of translations and transliterations, whose identifiers
  the bindings reference, are those of the loaded rows; a broken connection is not modelled.
\<close>

section \<open>Tables\<close>

record quran_surah_row =
  su_ID :: int
  su_StaleAt :: "int option"
  su_DerivedAt :: "int option"

record quran_ayah_row =
  ay_SurahID :: int
  ay_AyahNumber :: int
  ay_PageNumber :: "int option"
  ay_Text :: "string option"
  ay_UpdatedAt :: int

record quran_translation_row =
  tw_SurahID :: int
  tw_AyahNumber :: int
  tw_Row :: QuranUnitSourceTranslation

record quran_transliteration_row =
  lw_SurahID :: int
  lw_AyahNumber :: int
  lw_Row :: QuranUnitSourceTransliteration

record binding_row =
  br_Binding :: QuranCitableUnitBinding
  br_UpdatedAt :: int

record quran_db =
  qd_clock :: int
  qd_surahs :: "quran_surah_row list"
  qd_ayahs :: "quran_ayah_row list"
  qd_translations :: "quran_translation_row list"
  qd_transliterations :: "quran_transliteration_row list"
  qd_units :: "CitableUnit list"
  qd_bindings :: "binding_row list"
  qd_lineage :: "CitableUnitLineage list"

section \<open>Reading\<close>

text \<open>
  Rows of one ayah come in table order; the query orders them by the collation of the database,
  and the derivation sorts them again.
\<close>

definition ayah_source :: "quran_db \<Rightarrow> quran_ayah_row \<Rightarrow> QuranUnitSourceAyah" where
  "ayah_source db a =
     \<lparr>qa_AyahNumber = ay_AyahNumber a, qa_PageNumber = ay_PageNumber a,
      qa_PrimaryText = (case ay_Text a of Some t \<Rightarrow> t | None \<Rightarrow> ''''), qa_PrimaryUpdatedAt = ay_UpdatedAt a,
      qa_Translations = map tw_Row (filter (\<lambda>t. tw_SurahID t = ay_SurahID a \<and> tw_AyahNumber t = ay_AyahNumber a)
        (qd_translations db)),
      qa_Transliterations = map lw_Row (filter (\<lambda>t. lw_SurahID t = ay_SurahID a \<and> lw_AyahNumber t = ay_AyahNumber a)
        (qd_transliterations db))\<rparr>"

definition LoadQuranSource :: "quran_db \<Rightarrow> int \<Rightarrow> quran_error + QuranUnitSource" where
  "LoadQuranSource db surahID =
     (let ayahs = sort_key ay_AyahNumber (filter (\<lambda>a. ay_SurahID a = surahID) (qd_ayahs db));
          numbers = map ay_AyahNumber ayahs
      in if \<not> list_ex (\<lambda>s. su_ID s = surahID) (qd_surahs db) then Inl ErrQuranSurahNotFound
         else if list_ex (\<lambda>t. tw_SurahID t = surahID \<and> tw_AyahNumber t \<notin> set numbers) (qd_translations db) \<or>
                 list_ex (\<lambda>t. lw_SurahID t = surahID \<and> lw_AyahNumber t \<notin> set numbers) (qd_transliterations db)
         then Inl ErrInvalidSourceRelationship
         else Inr \<lparr>qs_SurahID = surahID, qs_LoadedAt = qd_clock db, qs_Ayahs = map (ayah_source db) ayahs\<rparr>)"

definition unit_row :: "quran_db \<Rightarrow> string \<Rightarrow> CitableUnit option" where
  "unit_row db i = find (\<lambda>u. u_ID u = i) (qd_units db)"

definition is_active :: "quran_db \<Rightarrow> string \<Rightarrow> bool" where
  "is_active db i = (case unit_row db i of Some u \<Rightarrow> u_Lifecycle u = UnitLifecycleActive | None \<Rightarrow> False)"

definition surah_bindings :: "quran_db \<Rightarrow> int \<Rightarrow> binding_row list" where
  "surah_bindings db surahID = filter (\<lambda>r. qb_SurahID (br_Binding r) = surahID) (qd_bindings db)"

text \<open>The columns the snapshot reads; the others keep their zero value.\<close>

definition snapshot_unit :: "CitableUnit \<Rightarrow> CitableUnit" where
  "snapshot_unit u =
     \<lparr>u_ID = u_ID u, u_Corpus = UnitCorpusQuran, u_BookID = None, u_HeadingID = None, u_PageID = u_PageID u,
      u_Kind = u_Kind u, u_Ordinal = u_Ordinal u, u_Position = u_Position u,
      u_ParentUnitID = u_ParentUnitID u, u_Anchor = '''', u_Marker = u_Marker u, u_Text = '''',
      u_HTML = None, u_TextNormalized = '''', u_NormalizationVersion = 0,
      u_ContentHash = u_ContentHash u, u_Occurrence = u_Occurrence u, u_Language = '''',
      u_ContentRole = '''', u_ReviewStatus = '''', u_SourceDocumentHash = '''', u_SourceCharStart = None,
      u_SourceCharEnd = None, u_ProvenanceClass = '''', u_ProvenanceDetail = None,
      u_GenerationRunID = None, u_Generation = None, u_LicenseStatus = None,
      u_EffectiveLicenseStatus = None, u_LicenseSource = None, u_Lifecycle = u_Lifecycle u,
      u_RetiredAt = None, u_CreatedAt = 0, u_UpdatedAt = 0\<rparr>"

definition active_records :: "quran_db \<Rightarrow> int \<Rightarrow> QuranCitableUnitRecord list" where
  "active_records db surahID =
     map (\<lambda>r. \<lparr>qr_Unit = snapshot_unit (the (unit_row db (qb_UnitID (br_Binding r)))), qr_Binding = br_Binding r\<rparr>)
       (sort_key (\<lambda>r. (qb_AyahNumber (br_Binding r), qb_Ordinal (br_Binding r)))
         (filter (\<lambda>r. is_active db (qb_UnitID (br_Binding r))) (surah_bindings db surahID)))"

definition max_of :: "int list \<Rightarrow> int" where
  "max_of xs = fold max xs 0"

definition quranRegistryFingerprint :: "quran_db \<Rightarrow> int \<Rightarrow> QuranUnitRegistryFingerprint" where
  "quranRegistryFingerprint db surahID =
     (let rows = surah_bindings db surahID in
      \<lparr>qf_ActiveCount = int (length (filter (\<lambda>r. is_active db (qb_UnitID (br_Binding r))) rows)),
       qf_MaxOrdinal = max_of (map (qb_Ordinal \<circ> br_Binding) rows),
       qf_MaxUpdatedAt = max_of (map (\<lambda>r. max (br_UpdatedAt r)
         (case unit_row db (qb_UnitID (br_Binding r)) of Some u \<Rightarrow> u_UpdatedAt u | None \<Rightarrow> 0)) rows)\<rparr>)"

definition QuranSnapshot :: "quran_db \<Rightarrow> int \<Rightarrow> QuranUnitRegistrySnapshot" where
  "QuranSnapshot db surahID =
     \<lparr>qn_Active = active_records db surahID,
      qn_MaxOrdinalByAyah = (\<lambda>n. max_of (map (qb_Ordinal \<circ> br_Binding)
        (filter (\<lambda>r. qb_AyahNumber (br_Binding r) = n) (surah_bindings db surahID)))),
      qn_ExistingIDs = map (qb_UnitID \<circ> br_Binding) (surah_bindings db surahID),
      qn_Fingerprint = quranRegistryFingerprint db surahID\<rparr>"

section \<open>Statements\<close>

datatype registry_stmt =
    InsertUnit CitableUnit
  | InsertBinding QuranCitableUnitBinding
  | UpdateUnit QuranUnitPlanUpdate
  | RetireUnit UnitPlanRetire
  | InsertEdge CitableUnitLineage
  | StampSurah int int

text \<open>Only a footnote has a parent, and it has one unless its detail says it is unlinked.\<close>

definition parent_shape :: "CitableUnit \<Rightarrow> bool" where
  "parent_shape u \<longleftrightarrow> u_Lifecycle u \<noteq> UnitLifecycleActive \<or>
     (if u_Kind u = UnitKindFootnote \<or> (u_Kind u = UnitKindQuranQuote \<and> u_Marker u \<noteq> None)
      then u_ParentUnitID u \<noteq> None \<or> (case u_ProvenanceDetail u of
          Some d \<Rightarrow> map_of d ''footnote_link'' = Some (DStr FootnoteLinkUnlinked) | None \<Rightarrow> False)
      else u_ParentUnitID u = None)"

definition parent_known :: "quran_db \<Rightarrow> string option \<Rightarrow> bool" where
  "parent_known db p = (case p of None \<Rightarrow> True | Some i \<Rightarrow> unit_row db i \<noteq> None)"

definition stored_unit :: "quran_db \<Rightarrow> CitableUnit \<Rightarrow> CitableUnit" where
  "stored_unit db u = u\<lparr>u_Lifecycle := UnitLifecycleActive, u_ReviewStatus := ''pending'',
     u_CreatedAt := qd_clock db, u_UpdatedAt := qd_clock db\<rparr>"

definition role_shape :: "QuranCitableUnitBinding \<Rightarrow> bool" where
  "role_shape b \<longleftrightarrow>
     (qb_Role b = QuranUnitRolePrimaryText \<and> qb_TranslationSourceID b = None \<and>
        qb_TransliterationSourceID b = None \<and> qb_FootnoteKey b = None) \<or>
     (qb_Role b = QuranUnitRoleTranslation \<and> qb_TranslationSourceID b \<noteq> None \<and>
        qb_TransliterationSourceID b = None \<and> qb_FootnoteKey b = None) \<or>
     (qb_Role b = QuranUnitRoleFootnote \<and> qb_TranslationSourceID b \<noteq> None \<and>
        qb_TransliterationSourceID b = None \<and>
        (case qb_FootnoteKey b of Some k \<Rightarrow> \<not> sql_blank k | None \<Rightarrow> False)) \<or>
     (qb_Role b = QuranUnitRoleTransliteration \<and> qb_TranslationSourceID b = None \<and>
        qb_TransliterationSourceID b \<noteq> None \<and> qb_FootnoteKey b = None)"

definition binding_place :: "QuranCitableUnitBinding \<Rightarrow> int \<times> int \<times> int" where
  "binding_place b = (qb_SurahID b, qb_AyahNumber b, qb_Ordinal b)"

text \<open>A statement fails on a violated constraint, else it gives the rows it affected.\<close>

fun exec_stmt :: "registry_stmt \<Rightarrow> quran_db \<Rightarrow> (nat \<times> quran_db) option" where
  "exec_stmt (InsertUnit u) db =
     (let u' = stored_unit db u in
      if list_ex (\<lambda>v. u_ID v = u_ID u \<or> u_Anchor v = u_Anchor u) (qd_units db) \<or> u_Text u = '''' \<or>
         u_Ordinal u < 1 \<or> u_Position u < 0 \<or> u_Occurrence u < 1 \<or>
         \<not> parent_known db (u_ParentUnitID u) \<or> \<not> parent_shape u'
      then None else Some (1, db\<lparr>qd_units := qd_units db @ [u']\<rparr>))"
| "exec_stmt (InsertBinding b) db =
     (if list_ex (\<lambda>r. qb_UnitID (br_Binding r) = qb_UnitID b \<or> binding_place (br_Binding r) = binding_place b)
           (qd_bindings db) \<or> unit_row db (qb_UnitID b) = None \<or> qb_Ordinal b < 1 \<or> \<not> role_shape b \<or>
         \<not> list_ex (\<lambda>a. ay_SurahID a = qb_SurahID b \<and> ay_AyahNumber a = qb_AyahNumber b) (qd_ayahs db)
      then None
      else Some (1, db\<lparr>qd_bindings := qd_bindings db @ [\<lparr>br_Binding = b, br_UpdatedAt = qd_clock db\<rparr>]\<rparr>))"
| "exec_stmt (UpdateUnit up) db =
     (let changed = (\<lambda>u. u\<lparr>u_PageID := qu_PageID up, u_Position := qu_Position up,
            u_ParentUnitID := qu_ParentUnitID up, u_UpdatedAt := qd_clock db\<rparr>);
          hit = (\<lambda>u. u_ID u = qu_ID up \<and> u_Lifecycle u = UnitLifecycleActive)
      in if list_ex hit (qd_units db) \<and> (qu_Position up < 0 \<or> \<not> parent_known db (qu_ParentUnitID up) \<or>
              list_ex (\<lambda>u. hit u \<and> \<not> parent_shape (changed u)) (qd_units db)) then None
         else Some (if list_ex hit (qd_units db)
              then length (filter (\<lambda>r. qb_UnitID (br_Binding r) = qu_ID up) (qd_bindings db)) else 0,
            db\<lparr>qd_units := map (\<lambda>u. if hit u then changed u else u) (qd_units db),
               qd_bindings := map (\<lambda>r. if list_ex hit (qd_units db) \<and> qb_UnitID (br_Binding r) = qu_ID up
                 then r\<lparr>br_Binding := (br_Binding r)\<lparr>qb_SourceUpdatedAt := qu_SourceUpdatedAt up\<rparr>,
                        br_UpdatedAt := qd_clock db\<rparr> else r) (qd_bindings db)\<rparr>))"
| "exec_stmt (RetireUnit rt) db =
     (let hit = (\<lambda>u. u_ID u = rt_ID rt \<and> u_Lifecycle u = UnitLifecycleActive) in
      Some (length (filter hit (qd_units db)),
        db\<lparr>qd_units := map (\<lambda>u. if hit u then u\<lparr>u_Lifecycle := rt_Lifecycle rt,
             u_RetiredAt := Some (qd_clock db), u_UpdatedAt := qd_clock db\<rparr> else u) (qd_units db)\<rparr>))"
| "exec_stmt (InsertEdge e) db =
     (if unit_row db (e_PredecessorID e) = None \<or> unit_row db (e_SuccessorID e) = None \<or>
         e_PredecessorID e = e_SuccessorID e \<or>
         list_ex (\<lambda>f. e_PredecessorID f = e_PredecessorID e \<and> e_SuccessorID f = e_SuccessorID e) (qd_lineage db)
      then None else Some (1, db\<lparr>qd_lineage := qd_lineage db @ [e]\<rparr>))"
| "exec_stmt (StampSurah surahID loadedAt) db =
     (let hit = (\<lambda>s. su_ID s = surahID \<and> (case su_StaleAt s of None \<Rightarrow> True | Some t \<Rightarrow> t \<le> loadedAt)) in
      Some (length (filter hit (qd_surahs db)),
        db\<lparr>qd_surahs := map (\<lambda>s. if hit s then s\<lparr>su_DerivedAt := Some loadedAt, su_StaleAt := None\<rparr> else s)
          (qd_surahs db)\<rparr>))"

fun run_batch :: "registry_stmt list \<Rightarrow> quran_db \<Rightarrow> quran_error + quran_db" where
  "run_batch [] db = Inr db"
| "run_batch (st # sts) db =
     (case exec_stmt st db of
        None \<Rightarrow> Inl ErrStatement
      | Some (n, db') \<Rightarrow> if n \<noteq> 1 then Inl ErrUnitReconcileConflict else run_batch sts db')"

definition plan_stmts :: "QuranUnitReconcilePlan \<Rightarrow> registry_stmt list" where
  "plan_stmts plan =
     map (InsertUnit \<circ> qm_Unit) (filter (\<lambda>m. u_ParentUnitID (qm_Unit m) = None) (qp_Mints plan)) @
     map (InsertUnit \<circ> qm_Unit) (filter (\<lambda>m. u_ParentUnitID (qm_Unit m) \<noteq> None) (qp_Mints plan)) @
     map (InsertBinding \<circ> qm_Binding) (qp_Mints plan) @
     map UpdateUnit (qp_Updates plan) @ map RetireUnit (qp_Retires plan) @
     map InsertEdge (qp_Edges plan) @ [StampSurah (qp_SurahID plan) (qp_LoadedAt plan)]"

section \<open>Invariants checked before the commit\<close>

definition primary_count :: "quran_db \<Rightarrow> int \<Rightarrow> int \<Rightarrow> nat" where
  "primary_count db surahID n = length (filter (\<lambda>r. qb_AyahNumber (br_Binding r) = n \<and>
     qb_Role (br_Binding r) = QuranUnitRolePrimaryText \<and> is_active db (qb_UnitID (br_Binding r)))
     (surah_bindings db surahID))"

definition binding_of :: "quran_db \<Rightarrow> string \<Rightarrow> QuranCitableUnitBinding option" where
  "binding_of db i = map_option br_Binding (find (\<lambda>r. qb_UnitID (br_Binding r) = i) (qd_bindings db))"

definition footnote_parent_ok :: "quran_db \<Rightarrow> QuranCitableUnitBinding \<Rightarrow> bool" where
  "footnote_parent_ok db f =
     (case unit_row db (qb_UnitID f) of
        None \<Rightarrow> True
      | Some u \<Rightarrow> (case u_ParentUnitID u of
            None \<Rightarrow> False
          | Some i \<Rightarrow> (case binding_of db i of
                None \<Rightarrow> False
              | Some p \<Rightarrow> qb_Role p = QuranUnitRoleTranslation \<and> qb_SurahID p = qb_SurahID f \<and>
                  qb_AyahNumber p = qb_AyahNumber f \<and>
                  qb_TranslationSourceID p = qb_TranslationSourceID f \<and> is_active db i)))"

definition assertQuranRegistryInvariants :: "quran_db \<Rightarrow> QuranUnitReconcilePlan \<Rightarrow> bool" where
  "assertQuranRegistryInvariants db plan \<longleftrightarrow>
     int (length (filter (\<lambda>r. is_active db (qb_UnitID (br_Binding r))) (surah_bindings db (qp_SurahID plan))))
       = qp_ExpectedActive plan \<and>
     list_all (\<lambda>r. case unit_row db (qb_UnitID (br_Binding r)) of Some u \<Rightarrow> u_Corpus u = UnitCorpusQuran | None \<Rightarrow> True)
       (surah_bindings db (qp_SurahID plan)) \<and>
     list_all (\<lambda>a. ay_SurahID a = qp_SurahID plan \<and> (case ay_Text a of Some t \<Rightarrow> \<not> sql_blank t | None \<Rightarrow> False) \<longrightarrow>
       primary_count db (qp_SurahID plan) (ay_AyahNumber a) = 1) (qd_ayahs db) \<and>
     list_all (\<lambda>r. qb_Role (br_Binding r) = QuranUnitRoleFootnote \<and> is_active db (qb_UnitID (br_Binding r)) \<longrightarrow>
       footnote_parent_ok db (br_Binding r)) (surah_bindings db (qp_SurahID plan))"

text \<open>
  The deferred trigger: no unit that was written may be active below a parent that is not, or be
  retired above an active child.
\<close>

definition touched_ids :: "QuranUnitReconcilePlan \<Rightarrow> string list" where
  "touched_ids plan = map (u_ID \<circ> qm_Unit) (qp_Mints plan) @ map qu_ID (qp_Updates plan) @ map rt_ID (qp_Retires plan)"

definition parent_invariant :: "quran_db \<Rightarrow> string list \<Rightarrow> bool" where
  "parent_invariant db ids \<longleftrightarrow>
     list_all (\<lambda>u. u_Lifecycle u = UnitLifecycleActive \<longrightarrow> (case u_ParentUnitID u of
         None \<Rightarrow> True
       | Some p \<Rightarrow> u_ID u \<in> set ids \<or> p \<in> set ids \<longrightarrow> is_active db p)) (qd_units db)"

definition ApplyQuranReconcile :: "QuranUnitReconcilePlan \<Rightarrow> quran_db \<Rightarrow> (quran_error + unit) \<times> quran_db" where
  "ApplyQuranReconcile plan db =
     (case find (\<lambda>s. su_ID s = qp_SurahID plan) (qd_surahs db) of
        None \<Rightarrow> (Inl ErrQuranSurahNotFound, db)
      | Some s \<Rightarrow>
          if \<not> (case su_StaleAt s of None \<Rightarrow> True | Some t \<Rightarrow> t \<le> qp_LoadedAt plan)
          then (Inl ErrUnitReconcileConflict, db)
          else if quranRegistryFingerprint db (qp_SurahID plan) \<noteq> qp_BasedOn plan
          then (Inl ErrUnitReconcileConflict, db)
          else case run_batch (plan_stmts plan) db of
            Inl e \<Rightarrow> (Inl e, db)
          | Inr db' \<Rightarrow>
              if \<not> assertQuranRegistryInvariants db' plan then (Inl ErrRegistryInvariant, db)
              else if \<not> parent_invariant db' (touched_ids plan) then (Inl ErrStatement, db)
              else (Inr (), db'))"

section \<open>The reconcile loop (unitregistry/quran.go)\<close>

definition reconcileAttempts :: nat where
  "reconcileAttempts = 3"

text \<open>
  One attempt reads the source, reads the snapshot and applies the plan in three transactions;
  \<open>other k\<close> is what other writers do to the tables before the \<open>k\<close>-th of them. The outer option is
  \<open>None\<close> when the occurrence probe never ends.
\<close>

definition reconcile_attempt ::
  "quran_env \<Rightarrow> (nat \<Rightarrow> quran_db \<Rightarrow> quran_db) \<Rightarrow> nat \<Rightarrow> int \<Rightarrow> quran_db \<Rightarrow>
   ((quran_error + QuranUnitReconcileReport) \<times> quran_db) option" where
  "reconcile_attempt Q other attempt surahID db =
     (let db1 = other (3 * attempt) db in
      case LoadQuranSource db1 surahID of
        Inl e \<Rightarrow> Some (Inl e, db1)
      | Inr source \<Rightarrow>
          (case deriveQuranSurah Q source of
             Inl e \<Rightarrow> Some (Inl e, db1)
           | Inr derived \<Rightarrow>
               (let db2 = other (3 * attempt + 1) db1 in
                case planQuranSurah (qe_unit Q) source derived (QuranSnapshot db2 surahID) of
                  None \<Rightarrow> None
                | Some (Inl e) \<Rightarrow> Some (Inl e, db2)
                | Some (Inr plan) \<Rightarrow>
                    (let plan' = plan\<lparr>qp_Report := (qp_Report plan)\<lparr>qrep_Attempts := int (Suc attempt)\<rparr>\<rparr>;
                         (res, db3) = ApplyQuranReconcile plan' (other (3 * attempt + 2) db2)
                     in Some (map_sum id (\<lambda>_. qp_Report plan') res, db3)))))"

fun reconcile_loop ::
  "nat \<Rightarrow> quran_env \<Rightarrow> (nat \<Rightarrow> quran_db \<Rightarrow> quran_db) \<Rightarrow> nat \<Rightarrow> int \<Rightarrow> quran_db \<Rightarrow>
   ((quran_error + QuranUnitReconcileReport) \<times> quran_db) option" where
  "reconcile_loop 0 Q other attempt surahID db = Some (Inl ErrUnitReconcileConflict, db)"
| "reconcile_loop (Suc k) Q other attempt surahID db =
     (case reconcile_attempt Q other attempt surahID db of
        None \<Rightarrow> None
      | Some (Inl e, db') \<Rightarrow>
          if e = ErrUnitReconcileConflict then reconcile_loop k Q other (Suc attempt) surahID db'
          else Some (Inl e, db')
      | Some (Inr rep, db') \<Rightarrow> Some (Inr rep, db'))"

definition ReconcileQuranSurah ::
  "quran_env \<Rightarrow> (nat \<Rightarrow> quran_db \<Rightarrow> quran_db) \<Rightarrow> int \<Rightarrow> quran_db \<Rightarrow>
   ((quran_error + QuranUnitReconcileReport) \<times> quran_db) option" where
  "ReconcileQuranSurah Q other surahID db = reconcile_loop reconcileAttempts Q other 0 surahID db"

end
