(* ===== verification/Quran_Demo.thy ===== *)
theory Quran_Demo
  imports Quran_Plan
begin

text \<open>
  A surah of one ayah with a primary text, a translation that has a footnote, and a
  transliteration, on which the properties of the Quran registry are applied. The digest and the
  UUID are the identity.
\<close>

definition demo_unit_env :: unit_env where
  "demo_unit_env = \<lparr>env_sha256 = (\<lambda>s. s), env_uuid5 = (\<lambda>s. s), env_normalize = (\<lambda>s. s)\<rparr>"

definition demo_quran_env :: quran_env where
  "demo_quran_env = \<lparr>qe_unit = demo_unit_env, qe_unescape = (\<lambda>s. s), qe_sup_tags = (\<lambda>_. [])\<rparr>"

definition demo_translation :: "string \<Rightarrow> QuranUnitSourceTranslation" where
  "demo_translation txt = \<lparr>tr_SourceID = ''t'', tr_Language = ''en'', tr_Text = txt,
     tr_Footnotes = Some (JArray [JObject [(''number'', JString ''1''), (''text'', JString ''c'')]]),
     tr_Metadata = None, tr_UpdatedAt = 5\<rparr>"

definition demo_transliteration :: QuranUnitSourceTransliteration where
  "demo_transliteration = \<lparr>tl_SourceID = ''l'', tl_Language = ''en'', tl_Text = ''d'', tl_UpdatedAt = 5\<rparr>"

definition demo_ayah :: "string \<Rightarrow> QuranUnitSourceAyah" where
  "demo_ayah txt = \<lparr>qa_AyahNumber = 1, qa_PageNumber = Some 7, qa_PrimaryText = ''a'', qa_PrimaryUpdatedAt = 5,
     qa_Translations = [demo_translation txt], qa_Transliterations = [demo_transliteration]\<rparr>"

definition demo_source :: "string \<Rightarrow> QuranUnitSource" where
  "demo_source txt = \<lparr>qs_SurahID = 1, qs_LoadedAt = 9, qs_Ayahs = [demo_ayah txt]\<rparr>"

definition demo_units :: "string \<Rightarrow> derivedQuranUnit list" where
  "demo_units txt =
     (let E = demo_unit_env; slot = quranSlotKey 1 QuranUnitRoleTranslation ''t'' '''' in
      [newDerivedQuranUnit E 1 (Some 7) QuranUnitRolePrimaryText ''qpc-hafs'' '''' '''' 0 '''' ''a'' ''ar'' 5,
       newDerivedQuranUnit E 1 (Some 7) QuranUnitRoleTranslation ''t'' '''' '''' 1 '''' txt ''en'' 5,
       newDerivedQuranUnit E 1 (Some 7) QuranUnitRoleFootnote ''t'' ''1'' slot 2 ''1'' ''c'' ''en'' 5,
       newDerivedQuranUnit E 1 (Some 7) QuranUnitRoleTransliteration ''l'' '''' '''' 3 '''' ''d'' ''en'' 5])"

lemma trim_space_Nil: "trim_space '''' = ''''"
proof -
  have "find (\<lambda>w. has_prefix [] w) space_runes = None" "find (\<lambda>w. has_suffix [] w) space_runes = None"
    using space_runes_not_Nil by (auto simp: find_None_iff has_prefix_def has_suffix_def)
  then show ?thesis by (simp add: trim_space_def trim_left.simps [of "[]"] trim_right.simps [of "[]"])
qed

lemma demo_trim_char: "33 \<le> byte c \<Longrightarrow> byte c < 128 \<Longrightarrow> trim_space [c] = [c]"
  by (rule trim_space_plain) auto

lemma demo_footnotes:
  "parseQuranFootnotes demo_quran_env (tr_Footnotes (demo_translation txt)) t =
     Inr [\<lparr>df_key = ''1'', df_marker = ''1'', df_text = ''c''\<rparr>]"
proof -
  have trims: "trim_space ''1'' = ''1''" "trim_space ''c'' = ''c''" "trim_space '''' = ''''"
    by (simp_all add: demo_trim_char byte_def trim_space_Nil)
  have fields: "json_field wire_names ''number'' = ''number''" "json_field wire_names ''text'' = ''text''"
    by (simp_all add: json_field_def wire_names_def)
  show ?thesis
    by (simp add: parseQuranFootnotes_def demo_translation_def decode_wire_def json_string_field_def json_get_def
        fields footnote_item_def trims sort_slice_def insert_last_def)
qed

lemma demo_derives:
  assumes "33 \<le> byte c" "byte c < 128"
  shows "deriveQuranSurah demo_quran_env (demo_source [c]) = Inr (demo_units [c])"
proof -
  have trims: "trim_space ''a'' = ''a''" "trim_space ''d'' = ''d''" "trim_space ''t'' = ''t''" "trim_space ''l'' = ''l''"
    by (simp_all add: demo_trim_char byte_def)
  show ?thesis
    using demo_trim_char [OF assms] demo_footnotes
    by (simp add: deriveQuranSurah_def demo_source_def demo_ayah_def sort_slice_def insert_last_def derive_ayah_def
        trims demo_translation_def demo_transliteration_def translation_units_def demo_units_def Let_def
        demo_quran_env_def)
qed

end
