(* ===== verification/Quran_Derive_Props.thy ===== *)
theory Quran_Derive_Props
  imports Quran_Demo
begin

text \<open>
  What the derivation of a surah promises the planner: distinct slots, well-shaped units, dense
  positions inside every ayah, a parent slot for every footnote, and one primary unit for every
  ayah with a primary text.
\<close>

section \<open>Sorting keeps the elements\<close>

lemma insert_last_split:
  "xs = take (length xs - length (takeWhile P (rev xs))) xs @ rev (takeWhile P (rev xs))"
proof -
  have "xs = rev (dropWhile P (rev xs)) @ rev (takeWhile P (rev xs))"
    by (metis rev_append rev_rev_ident takeWhile_dropWhile_id)
  then show ?thesis by (metis append_eq_conv_conj append_take_drop_id length_rev diff_diff_cancel
        length_append add_diff_cancel_right')
qed

lemma mset_insert_last: "mset (insert_last lt x xs) = add_mset x (mset xs)"
proof -
  have "mset xs = mset (take (length xs - length (takeWhile (lt x) (rev xs))) xs) +
      mset (takeWhile (lt x) (rev xs))"
    by (metis insert_last_split mset_append mset_rev)
  then show ?thesis by (simp add: insert_last_def Let_def)
qed

lemma mset_sort_slice [simp]: "mset (sort_slice lt xs) = mset xs"
proof -
  have "mset (fold (insert_last lt) xs acc) = mset xs + mset acc" for acc
    by (induction xs arbitrary: acc) (simp_all add: mset_insert_last)
  then show ?thesis by (simp add: sort_slice_def)
qed

lemma set_sort_slice [simp]: "set (sort_slice lt xs) = set xs"
  by (metis mset_sort_slice set_mset_mset)

lemma distinct_map_sort_slice: "distinct (map f (sort_slice lt xs)) \<longleftrightarrow> distinct (map f xs)"
  by (metis mset_map mset_sort_slice mset_eq_imp_distinct_iff)

section \<open>Slots\<close>

definition plain_role :: "string \<Rightarrow> bool" where
  "plain_role r \<longleftrightarrow> r \<in> {QuranUnitRolePrimaryText, QuranUnitRoleTranslation, QuranUnitRoleFootnote,
     QuranUnitRoleTransliteration}"

lemma plain_role_chars: "plain_role r \<Longrightarrow> no_nul r \<and> no_bar r"
  by (auto simp: plain_role_def quran_roles no_nul_def no_bar_def)

lemma show_int_no_nul: "no_nul (show_int i)"
  using show_int_chars [of "CHR 0x00" i] by (auto simp: no_nul_def byte_def)

lemma quranSlotKey_inject:
  assumes "no_nul r" "no_nul r'" "no_nul s" "no_nul s'"
  shows "quranSlotKey a r s k = quranSlotKey a' r' s' k' \<longleftrightarrow> (a, r, s, k) = (a', r', s', k')"
proof
  assume eq: "quranSlotKey a r s k = quranSlotKey a' r' s' k'"
  have 1: "show_int a = show_int a'"
    by (rule nul_prefix [OF show_int_no_nul show_int_no_nul]) (use eq in \<open>simp add: quranSlotKey_def\<close>)
  with eq have e2: "r @ CHR 0x00 # s @ CHR 0x00 # k = r' @ CHR 0x00 # s' @ CHR 0x00 # k'"
    by (simp add: quranSlotKey_def)
  have 2: "r = r'" by (rule nul_prefix [OF assms(1,2) e2])
  with e2 have e3: "s @ CHR 0x00 # k = s' @ CHR 0x00 # k'" by simp
  have "s = s'" by (rule nul_prefix [OF assms(3,4) e3])
  with 1 2 e3 show "(a, r, s, k) = (a', r', s', k')" by (simp add: show_int_inject)
qed simp

section \<open>Footnotes\<close>

definition footnotes_ok :: "derivedQuranFootnote list \<Rightarrow> bool" where
  "footnotes_ok fs \<longleftrightarrow> distinct (map df_key fs) \<and> list_all (\<lambda>f. \<not> sql_blank (df_key f) \<and> df_text f \<noteq> '''') fs"

lemma footnotes_ok_sort: "footnotes_ok fs \<Longrightarrow> footnotes_ok (sort_slice lt fs)"
  by (simp add: footnotes_ok_def distinct_map_sort_slice list_all_iff)

text \<open>A footnote key is never a run of spaces, which the table of bindings would refuse.\<close>

lemma space_prefix: "has_prefix (CHR '' '' # cs) '' ''" "'' '' \<in> set space_runes"
  by (simp_all add: has_prefix_def space_runes_def char_of_def bit_0)

lemma trim_left_head: "trim_left s = c # cs \<Longrightarrow> c \<noteq> CHR '' ''"
proof (induction s rule: trim_left.induct)
  case (1 s)
  show ?case
  proof (cases "find (\<lambda>w. has_prefix s w) space_runes")
    case None
    then have "s = c # cs" using 1(2) by (simp add: trim_left.simps [of s])
    with None space_prefix show ?thesis by (auto simp: find_None_iff)
  next
    case (Some w)
    from 1(1) [OF Some] 1(2) Some show ?thesis by (simp add: trim_left.simps [of s])
  qed
qed

lemma trim_right_take: "\<exists>n. trim_right s = take n s"
proof (induction s rule: trim_right.induct)
  case (1 s)
  show ?case
  proof (cases "find (\<lambda>w. has_suffix s w) space_runes")
    case None
    then have "trim_right s = take (length s) s" by (simp add: trim_right.simps [of s])
    then show ?thesis ..
  next
    case (Some w)
    from 1 [OF Some] Some show ?thesis by (auto simp: trim_right.simps [of s])
  qed
qed

lemma trim_space_not_blank:
  assumes "trim_space s \<noteq> ''''"
  shows "\<not> sql_blank (trim_space s)"
proof -
  obtain n where n: "trim_space s = take n (trim_left s)" using trim_right_take by (auto simp: trim_space_def)
  with assms obtain c cs m where c: "trim_left s = c # cs" "n = Suc m" by (cases "trim_left s"; cases n) auto
  with n have "trim_space s = c # take m cs" by simp
  with trim_left_head [OF c(1)] show ?thesis by (simp add: sql_blank_def)
qed

lemma blank_trim_left: "sql_blank s \<Longrightarrow> trim_left s = ''''"
proof (induction s rule: trim_left.induct)
  case (1 s)
  show ?case
  proof (cases "find (\<lambda>w. has_prefix s w) space_runes")
    case None
    have "s = ''''"
    proof (cases s)
      case (Cons c cs)
      with 1(2) have "s = CHR '' '' # cs" by (simp add: sql_blank_def)
      with None space_prefix show ?thesis by (auto simp: find_None_iff)
    qed
    with None show ?thesis by (simp add: trim_left.simps [of "[]"])
  next
    case (Some w)
    have "sql_blank (drop (length w) s)" using 1(2) by (auto simp: sql_blank_def list_all_iff dest: in_set_dropD)
    from 1(1) [OF Some this] Some show ?thesis by (simp add: trim_left.simps [of s])
  qed
qed

lemma blank_trim: "sql_blank s \<Longrightarrow> trim_space s = ''''"
  using trim_right_take [of "''''"] by (auto simp: trim_space_def blank_trim_left)

lemma footnoteJSONKey_ok: "footnoteJSONKey v = Inr key \<Longrightarrow> \<not> sql_blank key"
proof (induction v rule: footnoteJSONKey.induct)
  case (1 s)
  then show ?case using trim_space_not_blank [of s] by (auto split: if_splits)
next
  case (2 s)
  then show ?case using blank_trim [of s] by (auto split: if_splits)
qed simp_all

lemma show_nat_not_blank: "\<not> sql_blank (show_nat n)"
proof
  assume blank: "sql_blank (show_nat n)"
  have first: "hd (show_nat n) \<in> set (show_nat n)" by (rule hd_in_set) (rule show_nat_not_Nil)
  with blank have "hd (show_nat n) = CHR '' ''" unfolding sql_blank_def list_all_iff by (rule bspec)
  with show_nat_digits [OF first] show False by (simp only:) (simp add: is_digit_def byte_def)
qed

lemma footnote_items_ok:
  "footnote_items seen items = Inr fs \<Longrightarrow> footnotes_ok fs \<and> df_key ` set fs \<inter> set seen = {}"
proof (induction items arbitrary: seen fs)
  case (Cons item items)
  then obtain f gs where "footnote_item seen item = Inr f" and fs: "fs = f # gs"
    and rest: "footnote_items (df_key f # seen) items = Inr gs"
    by (auto simp: go_simps)
  then have "df_key f \<notin> set seen" "\<not> sql_blank (df_key f)" "df_text f \<noteq> ''''"
    by (auto simp: footnote_item_def Let_def go_simps split: if_splits dest: footnoteJSONKey_ok)
  with Cons.IH [OF rest] fs show ?case by (auto simp: footnotes_ok_def)
qed (simp add: footnotes_ok_def)

lemma qul_items_ok:
  "qul_items markers seen kvs = Inr fs \<Longrightarrow> footnotes_ok fs \<and> df_key ` set fs \<inter> set seen = {}"
proof (induction kvs arbitrary: seen fs)
  case (Cons kv kvs)
  obtain k v where kv: "kv = (k, v)" by (cases kv)
  with Cons.prems obtain f gs where "qul_item markers seen k v = Inr f" and fs: "fs = f # gs"
    and rest: "qul_items markers (df_key f # seen) kvs = Inr gs"
    by (auto simp: go_simps)
  then have "df_key f \<notin> set seen" "\<not> sql_blank (df_key f)" "df_text f \<noteq> ''''"
    by (auto simp: show_nat_not_blank qul_item_def quranObjectFootnoteKey_def go_simps split: if_splits option.splits)
  with Cons.IH [OF rest] fs show ?case by (auto simp: footnotes_ok_def)
qed (simp add: footnotes_ok_def)

lemma parse_footnotes_ok: "parseQuranFootnotes Q raw t = Inr fs \<Longrightarrow> footnotes_ok fs"
  by (auto simp: parseQuranFootnotes_def parseQULQuranFootnotes_def go_simps
      split: option.splits json.splits if_splits
      intro!: footnotes_ok_sort dest: qul_items_ok footnote_items_ok)
    (simp add: footnotes_ok_def)+

section \<open>Units of one ayah\<close>

definition unit_shape :: "unit_env \<Rightarrow> derivedQuranUnit \<Rightarrow> bool" where
  "unit_shape E d \<longleftrightarrow>
     plain_role (dq_role d) \<and>
     dq_kind d = (if dq_role d = QuranUnitRoleFootnote then UnitKindFootnote else dq_role d) \<and>
     dq_contentHash d = ContentHash E (dq_kind d) (dq_marker d) (dq_text d) \<and>
     dq_text d \<noteq> '''' \<and> no_nul (dq_sourceID d) \<and> 1 \<le> dq_ayahNumber d \<and>
     (dq_role d = QuranUnitRolePrimaryText \<longrightarrow> dq_sourceID d = ''qpc-hafs'') \<and>
     (if dq_role d = QuranUnitRoleFootnote then \<not> sql_blank (dq_footnoteKey d) else dq_footnoteKey d = '''') \<and>
     dq_parentSlot d = (if dq_role d = QuranUnitRoleFootnote
       then quranSlotKey (dq_ayahNumber d) QuranUnitRoleTranslation (dq_sourceID d) '''' else '''')"

definition ident_of :: "derivedQuranUnit \<Rightarrow> int \<times> string \<times> string \<times> string" where
  "ident_of d = (dq_ayahNumber d, dq_role d, dq_sourceID d, dq_footnoteKey d)"

fun positions_from :: "int \<Rightarrow> derivedQuranUnit list \<Rightarrow> bool" where
  "positions_from i [] = True"
| "positions_from i (d # ds) = (dq_position d = i \<and> positions_from (i + 1) ds)"

lemma positions_append [simp]:
  "positions_from i (us @ vs) \<longleftrightarrow> positions_from i us \<and> positions_from (i + int (length us)) vs"
  by (induction us arbitrary: i) (auto simp: algebra_simps)

lemma positions_nth: "positions_from i us \<Longrightarrow> k < length us \<Longrightarrow> dq_position (us ! k) = i + int k"
  by (induction us arbitrary: i k) (auto simp: nth_Cons split: nat.splits)

definition group_ok :: "unit_env \<Rightarrow> int \<Rightarrow> derivedQuranUnit list \<Rightarrow> bool" where
  "group_ok E n us \<longleftrightarrow> list_all (unit_shape E) us \<and> list_all (\<lambda>d. dq_ayahNumber d = n) us \<and>
     distinct (map ident_of us) \<and>
     list_all (\<lambda>d. dq_parentSlot d = '''' \<or> dq_parentSlot d \<in> slot_of ` set us) us"

lemma group_ok_append:
  "group_ok E n us \<Longrightarrow> group_ok E n vs \<Longrightarrow> ident_of ` set us \<inter> ident_of ` set vs = {} \<Longrightarrow>
   group_ok E n (us @ vs)"
  by (auto simp: group_ok_def list_all_iff)

lemma role_distinct [simp]:
  "QuranUnitRolePrimaryText \<noteq> QuranUnitRoleTranslation" "QuranUnitRoleTranslation \<noteq> QuranUnitRolePrimaryText"
  "QuranUnitRolePrimaryText \<noteq> QuranUnitRoleFootnote" "QuranUnitRoleFootnote \<noteq> QuranUnitRolePrimaryText"
  "QuranUnitRolePrimaryText \<noteq> QuranUnitRoleTransliteration" "QuranUnitRoleTransliteration \<noteq> QuranUnitRolePrimaryText"
  "QuranUnitRoleTranslation \<noteq> QuranUnitRoleFootnote" "QuranUnitRoleFootnote \<noteq> QuranUnitRoleTranslation"
  "QuranUnitRoleTranslation \<noteq> QuranUnitRoleTransliteration" "QuranUnitRoleTransliteration \<noteq> QuranUnitRoleTranslation"
  "QuranUnitRoleFootnote \<noteq> QuranUnitRoleTransliteration" "QuranUnitRoleTransliteration \<noteq> QuranUnitRoleFootnote"
  by (simp_all add: quran_roles)

lemma plain_roles [simp]:
  "plain_role QuranUnitRolePrimaryText" "plain_role QuranUnitRoleTranslation"
  "plain_role QuranUnitRoleFootnote" "plain_role QuranUnitRoleTransliteration"
  by (simp_all add: plain_role_def)

lemma new_unit_sel [simp]:
  "dq_ayahNumber (newDerivedQuranUnit E n pg r s k p i m x l t) = n"
  "dq_pageNumber (newDerivedQuranUnit E n pg r s k p i m x l t) = pg"
  "dq_role (newDerivedQuranUnit E n pg r s k p i m x l t) = r"
  "dq_sourceID (newDerivedQuranUnit E n pg r s k p i m x l t) = s"
  "dq_footnoteKey (newDerivedQuranUnit E n pg r s k p i m x l t) = k"
  "dq_parentSlot (newDerivedQuranUnit E n pg r s k p i m x l t) = p"
  "dq_position (newDerivedQuranUnit E n pg r s k p i m x l t) = i"
  "dq_marker (newDerivedQuranUnit E n pg r s k p i m x l t) = m"
  "dq_text (newDerivedQuranUnit E n pg r s k p i m x l t) = x"
  "dq_kind (newDerivedQuranUnit E n pg r s k p i m x l t) = (if r = QuranUnitRoleFootnote then UnitKindFootnote else r)"
  "dq_contentHash (newDerivedQuranUnit E n pg r s k p i m x l t) =
     ContentHash E (if r = QuranUnitRoleFootnote then UnitKindFootnote else r) m x"
  by (simp_all add: newDerivedQuranUnit_def Let_def)

lemma footnote_units_ok:
  assumes "no_nul (tr_SourceID t)" "1 \<le> qa_AyahNumber a"
    and "slot = quranSlotKey (qa_AyahNumber a) QuranUnitRoleTranslation (tr_SourceID t) ''''"
    and "footnotes_ok fs"
  shows "list_all (unit_shape E) (footnote_units E a t slot i fs) \<and>
    map ident_of (footnote_units E a t slot i fs) =
      map (\<lambda>f. (qa_AyahNumber a, QuranUnitRoleFootnote, tr_SourceID t, df_key f)) fs \<and>
    list_all (\<lambda>d. dq_parentSlot d = slot) (footnote_units E a t slot i fs) \<and>
    positions_from i (footnote_units E a t slot i fs)"
  using assms
  by (induction fs arbitrary: i) (auto simp: unit_shape_def ident_of_def footnotes_ok_def)

lemma distinct_map_key: "distinct (map f xs) \<Longrightarrow> distinct (map (\<lambda>x. (a, b, c, f x)) xs)"
  by (induction xs) auto

lemma list_all_by_map: "map f xs = ys \<Longrightarrow> list_all P ys \<Longrightarrow> list_all (\<lambda>x. P (f x)) xs"
  by (auto simp: list_all_iff)

lemma translation_units_ok:
  assumes "translation_units Q a i t = Inr us" "no_nul (tr_SourceID t)" "1 \<le> qa_AyahNumber a"
    and "trim_space (tr_Text t) \<noteq> ''''"
  shows "group_ok (qe_unit Q) (qa_AyahNumber a) us \<and> positions_from i us \<and> us \<noteq> [] \<and>
    list_all (\<lambda>d. dq_sourceID d = tr_SourceID t \<and> dq_role d \<in> {QuranUnitRoleTranslation, QuranUnitRoleFootnote}) us"
proof -
  let ?slot = "quranSlotKey (qa_AyahNumber a) QuranUnitRoleTranslation (tr_SourceID t) ''''"
  from assms(1) obtain fs body where fs: "footnotes_ok fs"
    and body: "body = newDerivedQuranUnit (qe_unit Q) (qa_AyahNumber a) (qa_PageNumber a)
      QuranUnitRoleTranslation (tr_SourceID t) '''' '''' i '''' (trim_space (tr_Text t)) (tr_Language t) (tr_UpdatedAt t)"
    and us: "us = body # footnote_units (qe_unit Q) a t ?slot (i + 1) fs"
    by (auto simp: translation_units_def Let_def go_simps dest: parse_footnotes_ok)
  let ?fn = "footnote_units (qe_unit Q) a t ?slot (i + 1) fs"
  note fn = footnote_units_ok [OF assms(2,3) refl fs, of "qe_unit Q" "i + 1"]
  have ids: "map ident_of ?fn = map (\<lambda>f. (qa_AyahNumber a, QuranUnitRoleFootnote, tr_SourceID t, df_key f)) fs"
    using fn by blast
  have shape: "unit_shape (qe_unit Q) body" using assms(2-4) by (simp add: body unit_shape_def)
  have "list_all (\<lambda>d. (\<lambda>(n, r, s, k). n = qa_AyahNumber a \<and> r = QuranUnitRoleFootnote \<and> s = tr_SourceID t) (ident_of d)) ?fn"
    by (rule list_all_by_map [OF ids]) (simp add: list_all_iff)
  then have all: "list_all (\<lambda>d. dq_ayahNumber d = qa_AyahNumber a \<and> dq_role d = QuranUnitRoleFootnote \<and>
      dq_sourceID d = tr_SourceID t) ?fn" by (simp add: ident_of_def)
  moreover have "distinct (map ident_of ?fn)"
    using fs unfolding ids footnotes_ok_def by (intro distinct_map_key) simp
  moreover have "ident_of body \<notin> set (map ident_of ?fn)"
    using all by (auto simp: body ident_of_def list_all_iff)
  moreover have slot: "slot_of body = ?slot" and "dq_parentSlot body = ''''" and
    sel: "dq_ayahNumber body = qa_AyahNumber a" "dq_position body = i" "dq_sourceID body = tr_SourceID t"
    "dq_role body = QuranUnitRoleTranslation"
    by (simp_all add: body slot_of_def)
  moreover have shapes: "list_all (unit_shape (qe_unit Q)) ?fn" "list_all (\<lambda>d. dq_parentSlot d = ?slot) ?fn"
    and "positions_from (i + 1) ?fn" using fn by simp_all
  ultimately have "group_ok (qe_unit Q) (qa_AyahNumber a) us"
    using shape unfolding group_ok_def us list.map distinct.simps list.pred_inject
    by (simp add: list_all_iff slot)
  with all sel \<open>positions_from (i + 1) ?fn\<close> show ?thesis by (auto simp: us list_all_iff)
qed

lemma group_ok_Nil [simp]: "group_ok E n []"
  by (simp add: group_ok_def)

lemma derive_translations_ok:
  assumes "derive_translations Q a i seen ts = Inr us"
    and "list_all (\<lambda>t. no_nul (tr_SourceID t)) ts" "1 \<le> qa_AyahNumber a"
  shows "group_ok (qe_unit Q) (qa_AyahNumber a) us \<and> positions_from i us \<and>
    list_all (\<lambda>d. dq_sourceID d \<notin> set seen \<and> dq_role d \<in> {QuranUnitRoleTranslation, QuranUnitRoleFootnote}) us"
  using assms(1,2)
proof (induction ts arbitrary: i seen us)
  case (Cons t ts)
  from Cons.prems obtain vs ws where t: "trim_space (tr_Text t) \<noteq> ''''" "tr_SourceID t \<notin> set seen"
    and vs: "translation_units Q a i t = Inr vs"
    and ws: "derive_translations Q a (i + int (length vs)) (tr_SourceID t # seen) ts = Inr ws"
    and us: "us = vs @ ws" and nul: "no_nul (tr_SourceID t)" "list_all (\<lambda>t. no_nul (tr_SourceID t)) ts"
    by (auto simp: go_simps split: if_splits)
  note v = translation_units_ok [OF vs nul(1) assms(3) t(1)] and w = Cons.IH [OF ws nul(2)]
  have "ident_of ` set vs \<inter> ident_of ` set ws = {}"
    using v w by (fastforce simp: list_all_iff ident_of_def)
  with v w have "group_ok (qe_unit Q) (qa_AyahNumber a) us" unfolding us by (intro group_ok_append) auto
  with v w t show ?case by (auto simp: us list_all_iff)
qed simp

lemma derive_transliterations_ok:
  assumes "derive_transliterations E a i seen ts = Inr us"
    and "list_all (\<lambda>t. no_nul (tl_SourceID t)) ts" "1 \<le> qa_AyahNumber a"
  shows "group_ok E (qa_AyahNumber a) us \<and> positions_from i us \<and>
    list_all (\<lambda>d. dq_sourceID d \<notin> set seen \<and> dq_role d = QuranUnitRoleTransliteration) us"
  using assms(1,2)
proof (induction ts arbitrary: i seen us)
  case (Cons t ts)
  let ?u = "newDerivedQuranUnit E (qa_AyahNumber a) (qa_PageNumber a) QuranUnitRoleTransliteration
          (tl_SourceID t) '''' '''' i '''' (trim_space (tl_Text t)) (tl_Language t) (tl_UpdatedAt t)"
  from Cons.prems obtain ws where t: "trim_space (tl_Text t) \<noteq> ''''" "tl_SourceID t \<notin> set seen"
    and ws: "derive_transliterations E a (i + 1) (tl_SourceID t # seen) ts = Inr ws"
    and us: "us = [?u] @ ws" and nul: "no_nul (tl_SourceID t)" "list_all (\<lambda>t. no_nul (tl_SourceID t)) ts"
    by (auto simp: go_simps split: if_splits)
  note w = Cons.IH [OF ws nul(2)]
  have u: "group_ok E (qa_AyahNumber a) [?u]"
    using t nul assms(3) by (simp add: group_ok_def unit_shape_def)
  have "ident_of ` set [?u] \<inter> ident_of ` set ws = {}"
    using w by (fastforce simp: list_all_iff ident_of_def)
  with u w have "group_ok E (qa_AyahNumber a) us" unfolding us by (intro group_ok_append) auto
  with w t show ?case by (auto simp: us list_all_iff)
qed simp

definition primary_unit :: "unit_env \<Rightarrow> QuranUnitSourceAyah \<Rightarrow> derivedQuranUnit" where
  "primary_unit E a = newDerivedQuranUnit E (qa_AyahNumber a) (qa_PageNumber a) QuranUnitRolePrimaryText
     ''qpc-hafs'' '''' '''' 0 '''' (trim_space (qa_PrimaryText a)) ''ar'' (qa_PrimaryUpdatedAt a)"

definition ayah_plain :: "QuranUnitSourceAyah \<Rightarrow> bool" where
  "ayah_plain a \<longleftrightarrow> list_all (\<lambda>t. no_nul (tr_SourceID t)) (qa_Translations a) \<and>
     list_all (\<lambda>t. no_nul (tl_SourceID t)) (qa_Transliterations a)"

lemma derive_ayah_ok:
  assumes "derive_ayah Q a = Inr us" "ayah_plain a" "1 \<le> qa_AyahNumber a"
  shows "group_ok (qe_unit Q) (qa_AyahNumber a) us \<and> positions_from 0 us \<and>
    (if trim_space (qa_PrimaryText a) = '''' then us = []
     else \<exists>rest. us = primary_unit (qe_unit Q) a # rest \<and>
       list_all (\<lambda>d. dq_role d \<noteq> QuranUnitRolePrimaryText) rest)"
proof (cases "trim_space (qa_PrimaryText a) = ''''")
  case True
  then show ?thesis using assms(1) by (simp add: derive_ayah_def Let_def)
next
  case False
  let ?E = "qe_unit Q"
  from assms(1) False obtain vs ws where
    vs: "derive_translations Q a 1 [] (sort_slice (\<lambda>x y. source_less (tr_Language x, tr_SourceID x)
      (tr_Language y, tr_SourceID y)) (qa_Translations a)) = Inr vs"
    and ws: "derive_transliterations ?E a (1 + int (length vs)) [] (sort_slice (\<lambda>x y. source_less
      (tl_Language x, tl_SourceID x) (tl_Language y, tl_SourceID y)) (qa_Transliterations a)) = Inr ws"
    and us: "us = [primary_unit ?E a] @ vs @ ws"
    by (auto simp: derive_ayah_def Let_def go_simps primary_unit_def)
  have v: "group_ok ?E (qa_AyahNumber a) vs \<and> positions_from 1 vs \<and> list_all (\<lambda>d. dq_sourceID d \<notin> set [] \<and>
      dq_role d \<in> {QuranUnitRoleTranslation, QuranUnitRoleFootnote}) vs"
    using assms(2) by (intro derive_translations_ok [OF vs _ assms(3)]) (simp add: ayah_plain_def list_all_iff)
  have w: "group_ok ?E (qa_AyahNumber a) ws \<and> positions_from (1 + int (length vs)) ws \<and>
      list_all (\<lambda>d. dq_sourceID d \<notin> set [] \<and> dq_role d = QuranUnitRoleTransliteration) ws"
    using assms(2) by (intro derive_transliterations_ok [OF ws _ assms(3)]) (simp add: ayah_plain_def list_all_iff)
  have "ident_of ` set vs \<inter> ident_of ` set ws = {}"
    using v w by (fastforce simp: list_all_iff ident_of_def)
  then have vw: "group_ok ?E (qa_AyahNumber a) (vs @ ws)" using v w by (intro group_ok_append) auto
  have p: "group_ok ?E (qa_AyahNumber a) [primary_unit ?E a]"
    using False assms(3) by (simp add: group_ok_def unit_shape_def primary_unit_def no_nul_def)
  have roles: "list_all (\<lambda>d. dq_role d \<noteq> QuranUnitRolePrimaryText) (vs @ ws)"
    using v w by (auto simp: list_all_iff)
  then have "ident_of ` set [primary_unit ?E a] \<inter> ident_of ` set (vs @ ws) = {}"
    by (fastforce simp: list_all_iff ident_of_def primary_unit_def)
  then have "group_ok ?E (qa_AyahNumber a) us" unfolding us by (rule group_ok_append [OF p vw])
  with v w roles False show ?thesis by (simp add: us primary_unit_def)
qed

section \<open>The whole surah\<close>

definition derived_ok :: "unit_env \<Rightarrow> derivedQuranUnit list \<Rightarrow> bool" where
  "derived_ok E us \<longleftrightarrow> list_all (unit_shape E) us \<and> distinct (map ident_of us) \<and>
     (\<forall>d\<in>set us. dq_parentSlot d = '''' \<or> dq_parentSlot d \<in> slot_of ` set us) \<and>
     (\<forall>n. positions_from 0 (filter (\<lambda>d. dq_ayahNumber d = n) us)) \<and>
     (\<forall>d\<in>set us. dq_role d = QuranUnitRolePrimaryText \<longleftrightarrow> dq_position d = 0)"

definition has_primary :: "QuranUnitSourceAyah \<Rightarrow> bool" where
  "has_primary a \<longleftrightarrow> trim_space (qa_PrimaryText a) \<noteq> ''''"

lemma positions_low: "positions_from i us \<Longrightarrow> d \<in> set us \<Longrightarrow> i \<le> dq_position d"
  by (induction us arbitrary: i) (auto, force)

lemma group_primary_zero:
  assumes "positions_from 0 us"
    and "us = [] \<or> (\<exists>p rest. us = p # rest \<and> dq_role p = QuranUnitRolePrimaryText \<and>
      list_all (\<lambda>d. dq_role d \<noteq> QuranUnitRolePrimaryText) rest)"
  shows "\<forall>d\<in>set us. dq_role d = QuranUnitRolePrimaryText \<longleftrightarrow> dq_position d = 0"
  using assms positions_low by (fastforce simp: list_all_iff)

lemma derived_ok_append:
  assumes "group_ok E n us" "positions_from 0 us"
    and "\<forall>d\<in>set us. dq_role d = QuranUnitRolePrimaryText \<longleftrightarrow> dq_position d = 0"
    and "derived_ok E vs" "\<forall>d\<in>set vs. dq_ayahNumber d \<noteq> n"
  shows "derived_ok E (us @ vs)"
proof -
  have u: "\<forall>d\<in>set us. dq_ayahNumber d = n" using assms(1) by (simp add: group_ok_def list_all_iff)
  have "filter (\<lambda>d. dq_ayahNumber d = m) us = (if m = n then us else [])" for m
    using u by (auto simp: filter_id_conv filter_empty_conv)
  moreover have "filter (\<lambda>d. dq_ayahNumber d = n) vs = []" using assms(5) by (simp add: filter_empty_conv)
  ultimately have "positions_from 0 (filter (\<lambda>d. dq_ayahNumber d = m) (us @ vs))" for m
    using assms(2,4) by (cases "m = n") (simp_all add: derived_ok_def)
  moreover have "ident_of ` set us \<inter> ident_of ` set vs = {}"
    using u assms(5) by (fastforce simp: ident_of_def)
  ultimately show ?thesis using assms(1,3,4)
    by (auto simp: derived_ok_def group_ok_def list_all_iff)
qed

lemma derive_ayahs_fresh:
  "derive_ayahs Q seen as = Inr us \<Longrightarrow> a \<in> set as \<Longrightarrow> qa_AyahNumber a \<notin> set seen"
  by (induction as arbitrary: seen us) (fastforce simp: go_simps split: if_splits)+

lemma derive_ayahs_ok:
  assumes "derive_ayahs Q seen as = Inr us" "list_all ayah_plain as"
  shows "derived_ok (qe_unit Q) us \<and> (\<forall>d\<in>set us. dq_ayahNumber d \<notin> set seen) \<and>
    distinct (map qa_AyahNumber as) \<and> list_all (\<lambda>a. 1 \<le> qa_AyahNumber a) as \<and>
    dq_ayahNumber ` set us \<subseteq> qa_AyahNumber ` set (filter has_primary as) \<and>
    filter (\<lambda>d. dq_role d = QuranUnitRolePrimaryText) us = map (primary_unit (qe_unit Q)) (filter has_primary as)"
  using assms
proof (induction as arbitrary: seen us)
  case (Cons a as)
  let ?E = "qe_unit Q"
  from Cons.prems obtain vs ws where a: "qa_AyahNumber a \<notin> set seen" "1 \<le> qa_AyahNumber a"
    and vs: "derive_ayah Q a = Inr vs" and us: "us = vs @ ws"
    and ws: "derive_ayahs Q (qa_AyahNumber a # seen) as = Inr ws"
    by (auto simp: go_simps split: if_splits)
  have plain: "ayah_plain a" "list_all ayah_plain as" using Cons.prems(2) by simp_all
  note v = derive_ayah_ok [OF vs plain(1) a(2)] and w = Cons.IH [OF ws plain(2)]
  have zero: "\<forall>d\<in>set vs. dq_role d = QuranUnitRolePrimaryText \<longleftrightarrow> dq_position d = 0"
    by (rule group_primary_zero) (use v in \<open>auto simp: primary_unit_def split: if_splits\<close>)
  have ok: "derived_ok ?E us" unfolding us
    by (rule derived_ok_append [OF conjunct1 [OF v] _ zero]) (use v w in auto)
  have numbers: "\<forall>d\<in>set vs. dq_ayahNumber d = qa_AyahNumber a"
    using v by (simp add: group_ok_def list_all_iff)
  have prim: "filter (\<lambda>d. dq_role d = QuranUnitRolePrimaryText) vs =
      map (primary_unit ?E) (filter has_primary [a])"
    using v by (auto simp: has_primary_def primary_unit_def list_all_iff filter_empty_conv split: if_splits)
  have "vs = [] \<or> has_primary a" using v by (auto simp: has_primary_def split: if_splits)
  moreover have "qa_AyahNumber a \<notin> qa_AyahNumber ` set as"
  proof
    assume "qa_AyahNumber a \<in> qa_AyahNumber ` set as"
    then obtain b where "b \<in> set as" "qa_AyahNumber b = qa_AyahNumber a" by auto
    with derive_ayahs_fresh [OF ws, of b] show False by simp
  qed
  ultimately show ?case using ok numbers w a prim by (auto simp: us)
qed (simp add: derived_ok_def)

lemma unit_shape_chars: "unit_shape E d \<Longrightarrow> no_nul (dq_role d) \<and> no_nul (dq_sourceID d)"
  by (simp add: unit_shape_def plain_role_chars)

lemma slot_ident:
  "unit_shape E d \<Longrightarrow> unit_shape E' e \<Longrightarrow> slot_of d = slot_of e \<longleftrightarrow> ident_of d = ident_of e"
  using unit_shape_chars [of E d] unit_shape_chars [of E' e]
  by (simp add: slot_of_def ident_of_def quranSlotKey_inject)

lemma derived_ok_slots: "derived_ok E us \<Longrightarrow> distinct (map slot_of us)"
proof -
  assume ok: "derived_ok E us"
  then have "distinct us" "inj_on ident_of (set us)" by (simp_all add: derived_ok_def distinct_map)
  moreover have "inj_on slot_of (set us)"
  proof (rule inj_onI)
    fix d e assume "d \<in> set us" "e \<in> set us" "slot_of d = slot_of e"
    then show "d = e" using ok slot_ident [of E d E e] \<open>inj_on ident_of (set us)\<close>
      by (auto simp: derived_ok_def list_all_iff inj_on_def)
  qed
  ultimately show ?thesis by (simp add: distinct_map)
qed

lemma derive_ok:
  assumes "deriveQuranSurah Q source = Inr us" "list_all ayah_plain (qs_Ayahs source)"
  shows "derived_ok (qe_unit Q) us"
  using derive_ayahs_ok [OF assms(1) [unfolded deriveQuranSurah_def]] assms(2) by (simp add: list_all_iff)

lemma derived_parent:
  assumes "derived_ok E us" "d \<in> set us" "dq_role d = QuranUnitRoleFootnote"
  shows "\<exists>t\<in>set us. slot_of t = dq_parentSlot d \<and> dq_role t = QuranUnitRoleTranslation \<and>
    dq_ayahNumber t = dq_ayahNumber d \<and> dq_sourceID t = dq_sourceID d"
proof -
  have d: "unit_shape E d" using assms(1,2) by (simp add: derived_ok_def list_all_iff)
  then have p: "dq_parentSlot d = quranSlotKey (dq_ayahNumber d) QuranUnitRoleTranslation (dq_sourceID d) ''''"
    using assms(3) by (simp add: unit_shape_def)
  then have "dq_parentSlot d \<noteq> ''''" by (simp add: quranSlotKey_def)
  then obtain t where t: "t \<in> set us" "slot_of t = dq_parentSlot d"
    using assms(1,2) by (auto simp: derived_ok_def)
  then have "unit_shape E t" using assms(1) by (simp add: derived_ok_def list_all_iff)
  with d t p have "(dq_ayahNumber t, dq_role t, dq_sourceID t, dq_footnoteKey t) =
      (dq_ayahNumber d, QuranUnitRoleTranslation, dq_sourceID d, '''')"
    using unit_shape_chars [of E t] unit_shape_chars [of E d] plain_role_chars [of QuranUnitRoleTranslation]
    by (simp add: slot_of_def quranSlotKey_inject)
  with t show ?thesis by auto
qed

lemma positions_map: "positions_from i us \<Longrightarrow> map dq_position us = map (\<lambda>k. i + int k) [0..<length us]"
  by (rule nth_equalityI) (simp_all add: positions_nth)

lemma derived_positions:
  assumes "derived_ok E us"
  shows "map dq_position (filter (\<lambda>d. dq_ayahNumber d = n) us) = map int [0..<length (filter (\<lambda>d. dq_ayahNumber d = n) us)]"
proof -
  have "positions_from 0 (filter (\<lambda>d. dq_ayahNumber d = n) us)" using assms by (simp add: derived_ok_def)
  from positions_map [OF this] show ?thesis by simp
qed
text \<open>
  C40. A surah that derives gives well-formed units: the slots are distinct, every unit has the
  kind, the content hash and the non-empty text its role asks for, inside each ayah the display
  positions are 0, 1, 2 and so on, each footnote follows a translation of the same source and ayah,
  and the primary units are exactly those of the ayahs that have a primary text. The hypothesis
  says that source identifiers contain no NUL byte, which PostgreSQL text cannot.
\<close>
theorem quran_derivation_well_formed:
  assumes "deriveQuranSurah Q source = Inr us" "list_all ayah_plain (qs_Ayahs source)"
  shows "distinct (map slot_of us) \<and> list_all (unit_shape (qe_unit Q)) us \<and>
    (\<forall>n. map dq_position (filter (\<lambda>d. dq_ayahNumber d = n) us) =
       map int [0..<length (filter (\<lambda>d. dq_ayahNumber d = n) us)]) \<and>
    (\<forall>d\<in>set us. dq_role d = QuranUnitRoleFootnote \<longrightarrow> (\<exists>t\<in>set us. slot_of t = dq_parentSlot d \<and>
       dq_role t = QuranUnitRoleTranslation \<and> dq_ayahNumber t = dq_ayahNumber d \<and> dq_sourceID t = dq_sourceID d)) \<and>
    mset (filter (\<lambda>d. dq_role d = QuranUnitRolePrimaryText) us) =
      mset (map (primary_unit (qe_unit Q)) (filter has_primary (qs_Ayahs source)))"
proof -
  let ?sorted = "sort_slice (\<lambda>x y. qa_AyahNumber x < qa_AyahNumber y) (qs_Ayahs source)"
  have ok: "derived_ok (qe_unit Q) us" by (rule derive_ok [OF assms])
  have "filter (\<lambda>d. dq_role d = QuranUnitRolePrimaryText) us = map (primary_unit (qe_unit Q)) (filter has_primary ?sorted)"
    using derive_ayahs_ok [OF assms(1) [unfolded deriveQuranSurah_def]] assms(2) by (simp add: list_all_iff)
  moreover have "mset (map (primary_unit (qe_unit Q)) (filter has_primary ?sorted)) =
      mset (map (primary_unit (qe_unit Q)) (filter has_primary (qs_Ayahs source)))"
    by (simp add: mset_filter)
  ultimately show ?thesis
    using ok derived_ok_slots [OF ok] derived_positions [OF ok] derived_parent [OF ok]
    by (simp add: derived_ok_def)
qed

theorem quran_derivation_well_formed_witness:
  "distinct (map slot_of (demo_units ''b'')) \<and> length (demo_units ''b'') = 4 \<and>
   length (filter (\<lambda>d. dq_role d = QuranUnitRolePrimaryText) (demo_units ''b'')) = 1"
proof -
  have d: "deriveQuranSurah demo_quran_env (demo_source ''b'') = Inr (demo_units ''b'')"
    by (rule demo_derives) (simp_all add: byte_def)
  have p: "list_all ayah_plain (qs_Ayahs (demo_source ''b''))"
    by (simp add: demo_source_def demo_ayah_def demo_translation_def demo_transliteration_def ayah_plain_def no_nul_def)
  note shape = quran_derivation_well_formed [OF d p]
  have "length (demo_units ''b'') = 4" by (simp add: demo_units_def Let_def)
  moreover have "length (filter (\<lambda>d. dq_role d = QuranUnitRolePrimaryText) (demo_units ''b'')) = 1"
    by (simp add: demo_units_def Let_def newDerivedQuranUnit_def quran_roles)
  ultimately show ?thesis using shape by blast
qed

text \<open>
  The comparison by which \<open>parseQuranFootnotes\<close> sorts is not transitive: numeric keys compare as
  numbers and mixed keys as strings, so the keys 9, 10 and 1a are ordered in a circle and their
  final order depends on the order in the source.
\<close>

definition keyed :: "string \<Rightarrow> derivedQuranFootnote" where
  "keyed k = \<lparr>df_key = k, df_marker = k, df_text = ''x''\<rparr>"

lemma footnote_order_cyclic:
  "footnote_less (keyed ''9'') (keyed ''10'') \<and> footnote_less (keyed ''10'') (keyed ''1a'') \<and>
   footnote_less (keyed ''1a'') (keyed ''9'')"
  by (simp add: footnote_less_def keyed_def atoi_def parse_int_def parse_unsigned_def read_nat_def is_digit_def
      digit_value_def byte_def)

end
