(* ===== verification/Quran_Plan_Props.thy ===== *)
theory Quran_Plan_Props
  imports Quran_Derive_Props Unit_Match
begin

text \<open>
  The plan of a surah in closed form: what each pass of \<open>planQuranSurah\<close> adds, and the plan as a
  function of the planned units.
\<close>

section \<open>Planned units\<close>

abbreviation act :: "QuranUnitRegistrySnapshot \<Rightarrow> derivedQuranUnit \<Rightarrow> QuranCitableUnitRecord option" where
  "act snap d \<equiv> activeBySlot (qn_Active snap) (slot_of d)"

definition matches :: "QuranUnitRegistrySnapshot \<Rightarrow> derivedQuranUnit \<Rightarrow> bool" where
  "matches snap d \<longleftrightarrow> (case act snap d of Some r \<Rightarrow> u_ContentHash (qr_Unit r) = dq_contentHash d | None \<Rightarrow> False)"

text \<open>What the plan knows of one derived unit.\<close>

definition planned_ok :: "unit_env \<Rightarrow> int \<Rightarrow> QuranUnitRegistrySnapshot \<Rightarrow> plannedQuranUnit \<Rightarrow> bool" where
  "planned_ok E s snap p \<longleftrightarrow>
     (let d = pq_derived p in
      case pq_matched p of
        Some r \<Rightarrow> matches snap d \<and> act snap d = Some r \<and> pq_unitID p = u_ID (qr_Unit r) \<and>
          pq_ordinal p = qb_Ordinal (qr_Binding r) \<and> pq_occurrence p = u_Occurrence (qr_Unit r)
      | None \<Rightarrow> \<not> matches snap d \<and> (act snap d \<noteq> None \<longrightarrow> dq_role d \<noteq> QuranUnitRolePrimaryText) \<and>
          pq_unitID p = QuranUnitID E s (dq_ayahNumber d) (dq_role d) (dq_sourceID d) (dq_footnoteKey d)
            (dq_contentHash d) (pq_occurrence p) \<and>
          probe (QuranUnitID E s (dq_ayahNumber d) (dq_role d) (dq_sourceID d) (dq_footnoteKey d) (dq_contentHash d))
            (qn_ExistingIDs snap) [] 1 = Some (pq_occurrence p) \<and>
          pq_unitID p \<notin> set (qn_ExistingIDs snap) \<and> 1 \<le> pq_occurrence p \<and>
          (dq_role d = QuranUnitRolePrimaryText \<longrightarrow> pq_ordinal p = 1))"

text \<open>New ordinals continue the high-water mark of their ayah.\<close>

fun ordinals_from :: "(int \<Rightarrow> int) \<Rightarrow> plannedQuranUnit list \<Rightarrow> bool" where
  "ordinals_from h [] = True"
| "ordinals_from h (p # ps) =
     (if pq_matched p \<noteq> None then ordinals_from h ps
      else let n = dq_ayahNumber (pq_derived p) in
           pq_ordinal p = h n + 1 \<and> ordinals_from (h(n := h n + 1)) ps)"

definition superseded :: "QuranUnitRegistrySnapshot \<Rightarrow> plannedQuranUnit list \<Rightarrow> (QuranCitableUnitRecord \<times> plannedQuranUnit) list" where
  "superseded snap ps = concat (map (\<lambda>p. if pq_matched p \<noteq> None then []
     else case act snap (pq_derived p) of None \<Rightarrow> [] | Some r \<Rightarrow> [(r, p)]) ps)"

definition supersede_retire :: "QuranCitableUnitRecord \<times> plannedQuranUnit \<Rightarrow> UnitPlanRetire" where
  "supersede_retire x = \<lparr>rt_ID = u_ID (qr_Unit (fst x)), rt_Lifecycle = UnitLifecycleSuperseded\<rparr>"

definition supersede_edge :: "QuranCitableUnitRecord \<times> plannedQuranUnit \<Rightarrow> CitableUnitLineage" where
  "supersede_edge x = \<lparr>e_PredecessorID = u_ID (qr_Unit (fst x)), e_SuccessorID = pq_unitID (snd x),
     e_Reason = UnitLineageReasonEdit\<rparr>"

text \<open>The fields of a plan the first pass leaves alone.\<close>

definition plan_frame :: "QuranUnitReconcilePlan \<Rightarrow> int \<times> int \<times> QuranUnitRegistryFingerprint \<times> int \<times> QuranUnitMint list \<times> QuranUnitPlanUpdate list" where
  "plan_frame pl = (qp_SurahID pl, qp_LoadedAt pl, qp_BasedOn pl, qp_ExpectedActive pl, qp_Mints pl, qp_Updates pl)"

definition items_effect ::
  "unit_env \<Rightarrow> int \<Rightarrow> QuranUnitRegistrySnapshot \<Rightarrow> derivedQuranUnit list \<Rightarrow> quran_builder \<Rightarrow> quran_builder \<Rightarrow>
   plannedQuranUnit list \<Rightarrow> bool" where
  "items_effect E s snap ds b b' ps \<longleftrightarrow>
     qy_planned b' = qy_planned b @ ps \<and> map pq_derived ps = ds \<and> list_all (planned_ok E s snap) ps \<and>
     ordinals_from (qy_highwater b) ps \<and> plan_frame (qy_plan b') = plan_frame (qy_plan b) \<and>
     qp_Retires (qy_plan b') = qp_Retires (qy_plan b) @ map supersede_retire (superseded snap ps) \<and>
     qp_Edges (qy_plan b') = qp_Edges (qy_plan b) @ map supersede_edge (superseded snap ps) \<and>
     qp_Report (qy_plan b') = (let rep = qp_Report (qy_plan b) in rep
       \<lparr>qrep_Matched := qrep_Matched rep + int (length (filter (\<lambda>p. pq_matched p \<noteq> None) ps)),
        qrep_Superseded := qrep_Superseded rep + int (length (superseded snap ps)),
        qrep_Edges := qrep_Edges rep + int (length (superseded snap ps))\<rparr>)"

definition plan_item ::
  "unit_env \<Rightarrow> int \<Rightarrow> QuranUnitRegistrySnapshot \<Rightarrow> derivedQuranUnit \<Rightarrow> quran_builder \<Rightarrow> (quran_error + quran_builder) option" where
  "plan_item E s snap d b =
     (case act snap d of
        Some r \<Rightarrow> if u_ContentHash (qr_Unit r) = dq_contentHash d then Some (Inr (match_item d r b))
                  else fresh_item E s (qn_ExistingIDs snap) d (act snap d) b
      | None \<Rightarrow> fresh_item E s (qn_ExistingIDs snap) d (act snap d) b)"

lemma plan_items_Cons:
  "plan_items E s snap seen (d # ds) b =
     (if slot_of d \<in> set seen then Some (Inl ErrInvalidQuranUnitPlan)
      else case plan_item E s snap d b of
        None \<Rightarrow> None
      | Some (Inl e) \<Rightarrow> Some (Inl e)
      | Some (Inr b') \<Rightarrow> plan_items E s snap (slot_of d # seen) ds b')"
  by (simp add: plan_item_def Let_def split: option.splits)

declare plan_items.simps(2) [simp del]

lemma plan_item_effect:
  assumes "plan_item E s snap d b = Some (Inr b')"
  shows "\<exists>p. items_effect E s snap [d] b b' [p] \<and>
    (\<forall>ps. ordinals_from (qy_highwater b') ps \<longrightarrow> ordinals_from (qy_highwater b) (p # ps))"
proof (cases "matches snap d")
  case True
  then obtain r where r: "act snap d = Some r" "u_ContentHash (qr_Unit r) = dq_contentHash d"
    by (auto simp: matches_def split: option.splits)
  with assms have "b' = match_item d r b" by (simp add: plan_item_def)
  with r True show ?thesis
    by (auto simp: items_effect_def match_item_def Let_def planned_ok_def plan_frame_def superseded_def)
next
  case False
  with assms have f: "fresh_item E s (qn_ExistingIDs snap) d (act snap d) b = Some (Inr b')"
    by (auto simp: plan_item_def matches_def split: option.splits if_splits)
  let ?n = "dq_ayahNumber d"
  let ?h = "(qy_highwater b)(?n := qy_highwater b ?n + 1)"
  let ?ident = "QuranUnitID E s ?n (dq_role d) (dq_sourceID d) (dq_footnoteKey d) (dq_contentHash d)"
  from f obtain occ where occ: "probe ?ident (qn_ExistingIDs snap) [] 1 = Some occ"
    and role: "act snap d \<noteq> None \<longrightarrow> dq_role d \<noteq> QuranUnitRolePrimaryText"
      "dq_role d = QuranUnitRolePrimaryText \<longrightarrow> ?h ?n = 1"
    and b': "b' = b\<lparr>qy_highwater := ?h,
      qy_planned := qy_planned b @ [\<lparr>pq_derived = d, pq_unitID = ?ident occ, pq_ordinal = ?h ?n,
        pq_occurrence = occ, pq_matched = None\<rparr>],
      qy_plan := (case act snap d of None \<Rightarrow> qy_plan b | Some r \<Rightarrow> supersede_item r (?ident occ) (qy_plan b))\<rparr>"
    by (auto simp: fresh_item_def Let_def split: if_splits option.splits)
  from probe_result [OF occ] have "1 \<le> occ" "?ident occ \<notin> set (qn_ExistingIDs snap)" by auto
  with role False occ show ?thesis unfolding b'
    by (cases "act snap d")
      (auto simp: items_effect_def planned_ok_def Let_def plan_frame_def superseded_def supersede_item_def
        supersede_retire_def supersede_edge_def)
qed

lemma items_effect_Cons:
  assumes "items_effect E s snap [d] b b1 [p]" "items_effect E s snap ds b1 b2 ps"
    and "ordinals_from (qy_highwater b) (p # ps)"
  shows "items_effect E s snap (d # ds) b b2 (p # ps)"
  using assms by (auto simp: items_effect_def superseded_def Let_def)

lemma plan_items_effect:
  assumes "plan_items E s snap seen ds b = Some (Inr b')"
  shows "\<exists>ps. items_effect E s snap ds b b' ps"
  using assms
proof (induction ds arbitrary: seen b)
  case Nil
  then show ?case by (auto simp: items_effect_def superseded_def)
next
  case (Cons d ds)
  then obtain b1 where b1: "plan_item E s snap d b = Some (Inr b1)"
    and rest: "plan_items E s snap (slot_of d # seen) ds b1 = Some (Inr b')"
    by (auto simp: plan_items_Cons split: if_splits option.splits sum.splits)
  from Cons.IH [OF rest] obtain ps where ps: "items_effect E s snap ds b1 b' ps" by blast
  from plan_item_effect [OF b1] ps obtain p where "items_effect E s snap [d] b b1 [p]"
    "ordinals_from (qy_highwater b) (p # ps)" by (metis items_effect_def)
  with items_effect_Cons ps show ?case by blast
qed

section \<open>The plan in closed form\<close>

definition parent_id :: "plannedQuranUnit list \<Rightarrow> plannedQuranUnit \<Rightarrow> string option" where
  "parent_id ps p =
     (if dq_parentSlot (pq_derived p) = '''' then None else unitBySlot ps (dq_parentSlot (pq_derived p)))"

definition fresh_units :: "plannedQuranUnit list \<Rightarrow> plannedQuranUnit list" where
  "fresh_units ps = filter (\<lambda>p. pq_matched p = None) ps"

definition moved_units :: "plannedQuranUnit list \<Rightarrow> plannedQuranUnit list \<Rightarrow> plannedQuranUnit list" where
  "moved_units all ps = filter (\<lambda>p. case pq_matched p of None \<Rightarrow> False
     | Some r \<Rightarrow> \<not> quran_up_to_date r (pq_derived p) (parent_id all p)) ps"

lemma parent_of_Inr: "parent_of ps p = Inr x \<Longrightarrow> x = parent_id ps p"
  by (auto simp: parent_of_def parent_id_def split: if_splits option.splits)

lemma stage_items_effect:
  assumes "stage_items E s all ps plan = Inr plan'"
  shows "plan' = plan
    \<lparr>qp_Mints := qp_Mints plan @ map (\<lambda>p. mintQuranUnit E s p (parent_id all p)) (fresh_units ps),
     qp_Updates := qp_Updates plan @ map (\<lambda>p. quran_update p (parent_id all p)) (moved_units all ps),
     qp_Report := (qp_Report plan)
       \<lparr>qrep_Minted := qrep_Minted (qp_Report plan) + int (length (fresh_units ps)),
        qrep_Updated := qrep_Updated (qp_Report plan) + int (length (moved_units all ps))\<rparr>\<rparr>"
  using assms
proof (induction ps arbitrary: plan)
  case (Cons p ps)
  from Cons.prems obtain x where "parent_of all p = Inr x"
    and rest: "stage_items E s all ps (stage_item E s p x plan) = Inr plan'" by (auto simp: go_simps)
  then have "x = parent_id all p" by (simp add: parent_of_Inr)
  with Cons.IH [OF rest] show ?case
    by (auto simp: stage_item_def Let_def fresh_units_def moved_units_def split: option.splits)
qed (simp add: fresh_units_def moved_units_def)

definition tombstone :: "QuranCitableUnitRecord \<Rightarrow> UnitPlanRetire" where
  "tombstone r = \<lparr>rt_ID = u_ID (qr_Unit r), rt_Lifecycle = UnitLifecycleTombstoned\<rparr>"

definition absent :: "string list \<Rightarrow> QuranCitableUnitRecord list \<Rightarrow> QuranCitableUnitRecord list" where
  "absent desired rs = filter (\<lambda>r. record_slot r \<notin> set desired) rs"

lemma retire_absent_effect:
  assumes "retire_absent desired rs plan = Inr plan'"
  shows "plan' = plan\<lparr>qp_Retires := qp_Retires plan @ map tombstone (absent desired rs),
      qp_Report := (qp_Report plan)\<lparr>qrep_Tombstoned := qrep_Tombstoned (qp_Report plan) + int (length (absent desired rs))\<rparr>\<rparr>
    \<and> list_all (\<lambda>r. qb_Role (qr_Binding r) \<noteq> QuranUnitRolePrimaryText) (absent desired rs)"
  using assms
proof (induction rs arbitrary: plan)
  case (Cons r rs)
  show ?case
  proof (cases "record_slot r \<in> set desired")
    case True
    with Cons show ?thesis by (simp add: absent_def)
  next
    case False
    with Cons.prems have role: "qb_Role (qr_Binding r) \<noteq> QuranUnitRolePrimaryText"
      and "retire_absent desired rs (plan\<lparr>qp_Retires := qp_Retires plan @ [tombstone r],
        qp_Report := (qp_Report plan)\<lparr>qrep_Tombstoned := qrep_Tombstoned (qp_Report plan) + 1\<rparr>\<rparr>) = Inr plan'"
      by (auto simp: tombstone_def Let_def split: if_splits)
    from Cons.IH [OF this(2)] role False show ?thesis by (simp add: absent_def)
  qed
qed (simp add: absent_def)

text \<open>Everything a plan says, as a function of the planned units \<open>ps\<close>.\<close>

definition plan_form ::
  "unit_env \<Rightarrow> QuranUnitSource \<Rightarrow> derivedQuranUnit list \<Rightarrow> QuranUnitRegistrySnapshot \<Rightarrow> plannedQuranUnit list \<Rightarrow>
   QuranUnitReconcilePlan \<Rightarrow> bool" where
  "plan_form E source derived snap ps plan \<longleftrightarrow>
     map pq_derived ps = derived \<and> list_all (planned_ok E (qs_SurahID source) snap) ps \<and>
     ordinals_from (qn_MaxOrdinalByAyah snap) ps \<and>
     distinct (map record_slot (qn_Active snap)) \<and>
     list_all (\<lambda>r. qb_Role (qr_Binding r) \<noteq> QuranUnitRolePrimaryText) (absent (map slot_of derived) (qn_Active snap)) \<and>
     plan = \<lparr>qp_SurahID = qs_SurahID source, qp_LoadedAt = qs_LoadedAt source, qp_BasedOn = qn_Fingerprint snap,
       qp_Mints = map (\<lambda>p. mintQuranUnit E (qs_SurahID source) p (parent_id ps p)) (fresh_units ps),
       qp_Updates = map (\<lambda>p. quran_update p (parent_id ps p)) (moved_units ps ps),
       qp_Retires = map supersede_retire (superseded snap ps) @
         map tombstone (absent (map slot_of derived) (qn_Active snap)),
       qp_Edges = map supersede_edge (superseded snap ps), qp_ExpectedActive = int (length derived),
       qp_Report = \<lparr>qrep_SurahID = qs_SurahID source, qrep_Ayahs = int (length (qs_Ayahs source)),
         qrep_Derived = int (length derived),
         qrep_Matched = int (length (filter (\<lambda>p. pq_matched p \<noteq> None) ps)),
         qrep_Minted = int (length (fresh_units ps)), qrep_Updated = int (length (moved_units ps ps)),
         qrep_Superseded = int (length (superseded snap ps)),
         qrep_Tombstoned = int (length (absent (map slot_of derived) (qn_Active snap))),
         qrep_Edges = int (length (superseded snap ps)), qrep_Attempts = 0\<rparr>\<rparr>"

lemma planQuranSurah_form:
  assumes "planQuranSurah E source derived snap = Some (Inr plan)"
  shows "\<exists>ps. plan_form E source derived snap ps plan"
proof -
  let ?b = "\<lparr>qy_highwater = qn_MaxOrdinalByAyah snap, qy_planned = [], qy_plan = empty_plan source derived snap\<rparr>"
  from assms obtain b plan1 where dist: "distinct (map record_slot (qn_Active snap))"
    and items: "plan_items E (qs_SurahID source) snap [] derived ?b = Some (Inr b)"
    and stage: "stage_items E (qs_SurahID source) (qy_planned b) (qy_planned b) (qy_plan b) = Inr plan1"
    and ret: "retire_absent (map slot_of derived) (qn_Active snap) plan1 = Inr plan"
    by (auto simp: planQuranSurah_def go_simps split: if_splits option.splits sum.splits)
  from plan_items_effect [OF items] obtain ps where ps: "items_effect E (qs_SurahID source) snap derived ?b b ps"
    by blast
  then have all: "qy_planned b = ps" by (simp add: items_effect_def)
  note st = stage_items_effect [OF stage [unfolded all]] and rt = retire_absent_effect [OF ret]
  have "plan_form E source derived snap ps plan"
    using ps dist rt unfolding st plan_form_def items_effect_def
    by (simp add: empty_plan_def plan_frame_def Let_def)
  then show ?thesis by blast
qed

section \<open>The planner returns, and when it refuses\<close>

fun primary_first :: "derivedQuranUnit list \<Rightarrow> bool" where
  "primary_first [] = True"
| "primary_first (d # ds) =
     (list_all (\<lambda>e. dq_role e = QuranUnitRolePrimaryText \<longrightarrow> dq_ayahNumber e \<noteq> dq_ayahNumber d) ds \<and>
      primary_first ds)"

lemma positions_primary_first:
  assumes "\<forall>n. \<exists>i\<ge>0. positions_from i (filter (\<lambda>d. dq_ayahNumber d = n) us)"
    and "\<forall>d\<in>set us. dq_role d = QuranUnitRolePrimaryText \<longrightarrow> dq_position d = 0"
  shows "primary_first us"
  using assms
proof (induction us)
  case (Cons d ds)
  have "\<exists>i\<ge>0. positions_from i (filter (\<lambda>e. dq_ayahNumber e = n) ds)" for n
  proof -
    from Cons.prems(1) obtain i where "0 \<le> i" "positions_from i (filter (\<lambda>e. dq_ayahNumber e = n) (d # ds))" by blast
    then show ?thesis by (cases "dq_ayahNumber d = n") (auto intro: exI [of _ "i + 1"] exI [of _ i])
  qed
  moreover have "dq_ayahNumber e \<noteq> dq_ayahNumber d" if e: "e \<in> set ds" "dq_role e = QuranUnitRolePrimaryText" for e
  proof
    assume same: "dq_ayahNumber e = dq_ayahNumber d"
    from Cons.prems(1) obtain i where "0 \<le> i"
      "positions_from i (filter (\<lambda>x. dq_ayahNumber x = dq_ayahNumber d) (d # ds))" by blast
    then have "positions_from (i + 1) (filter (\<lambda>x. dq_ayahNumber x = dq_ayahNumber d) ds)" by simp
    from positions_low [OF this, of e] e same \<open>0 \<le> i\<close> have "0 < dq_position e" by simp
    with Cons.prems(2) e show False by simp
  qed
  ultimately show ?case using Cons by (simp add: list_all_iff)
qed simp

lemma derived_primary_first: "derived_ok E us \<Longrightarrow> primary_first us"
  by (rule positions_primary_first) (auto simp: derived_ok_def)

definition drifted :: "QuranUnitRegistrySnapshot \<Rightarrow> derivedQuranUnit \<Rightarrow> bool" where
  "drifted snap d \<longleftrightarrow> dq_role d = QuranUnitRolePrimaryText \<and> act snap d \<noteq> None \<and> \<not> matches snap d"

definition probe_ok :: "unit_env \<Rightarrow> int \<Rightarrow> QuranUnitRegistrySnapshot \<Rightarrow> derivedQuranUnit \<Rightarrow> bool" where
  "probe_ok E s snap d \<longleftrightarrow> (\<exists>n. probe (QuranUnitID E s (dq_ayahNumber d) (dq_role d) (dq_sourceID d)
     (dq_footnoteKey d) (dq_contentHash d)) (qn_ExistingIDs snap) [] 1 = Some n)"

definition primary_room :: "QuranUnitRegistrySnapshot \<Rightarrow> (int \<Rightarrow> int) \<Rightarrow> derivedQuranUnit \<Rightarrow> bool" where
  "primary_room snap h d \<longleftrightarrow>
     (dq_role d = QuranUnitRolePrimaryText \<longrightarrow> act snap d = None \<longrightarrow> h (dq_ayahNumber d) = 0)"

lemma plan_item_cases:
  assumes "probe_ok E s snap d" "primary_room snap (qy_highwater b) d"
  shows "if drifted snap d then plan_item E s snap d b = Some (Inl ErrQuranPrimaryTextDrift)
    else \<exists>b'. plan_item E s snap d b = Some (Inr b') \<and>
      (\<forall>n. n \<noteq> dq_ayahNumber d \<longrightarrow> qy_highwater b' n = qy_highwater b n)"
  using assms
  by (auto simp: plan_item_def drifted_def matches_def fresh_item_def probe_ok_def primary_room_def Let_def
      match_item_def split: option.splits)

lemma plan_items_total:
  assumes "distinct (map slot_of ds)" "slot_of ` set ds \<inter> set seen = {}" "primary_first ds"
    and "list_all (probe_ok E s snap) ds" "list_all (primary_room snap (qy_highwater b)) ds"
  shows "if list_ex (drifted snap) ds then plan_items E s snap seen ds b = Some (Inl ErrQuranPrimaryTextDrift)
    else \<exists>b'. plan_items E s snap seen ds b = Some (Inr b')"
  using assms
proof (induction ds arbitrary: seen b)
  case (Cons d ds)
  have d: "probe_ok E s snap d" "primary_room snap (qy_highwater b) d" using Cons.prems by simp_all
  show ?case
  proof (cases "drifted snap d")
    case True
    with plan_item_cases [OF d] Cons.prems(2) show ?thesis by (simp add: plan_items_Cons)
  next
    case False
    with plan_item_cases [OF d] obtain b' where b': "plan_item E s snap d b = Some (Inr b')"
      and h: "\<forall>n. n \<noteq> dq_ayahNumber d \<longrightarrow> qy_highwater b' n = qy_highwater b n" by auto
    have "list_all (primary_room snap (qy_highwater b')) ds"
      using Cons.prems(3,5) h by (auto simp: list_all_iff primary_room_def)
    then have "if list_ex (drifted snap) ds then plan_items E s snap (slot_of d # seen) ds b' = Some (Inl ErrQuranPrimaryTextDrift)
      else \<exists>b''. plan_items E s snap (slot_of d # seen) ds b' = Some (Inr b'')"
      using Cons.prems by (intro Cons.IH) auto
    with False b' Cons.prems(2) show ?thesis by (simp add: plan_items_Cons)
  qed
qed simp

lemma stage_items_total:
  assumes "\<forall>p\<in>set ps. dq_parentSlot (pq_derived p) = '''' \<or> dq_parentSlot (pq_derived p) \<in> slot_of ` pq_derived ` set all"
  shows "\<exists>plan'. stage_items E s all ps plan = Inr plan'"
  using assms
proof (induction ps arbitrary: plan)
  case (Cons p ps)
  have "\<exists>x. parent_of all p = Inr x"
  proof (cases "dq_parentSlot (pq_derived p) = ''''")
    case False
    with Cons.prems have "dq_parentSlot (pq_derived p) \<in> fst ` set (map (\<lambda>p. (slot_of (pq_derived p), pq_unitID p)) all)"
      by (auto simp: image_image)
    then have "unitBySlot all (dq_parentSlot (pq_derived p)) \<noteq> None"
      unfolding unitBySlot_def by (simp add: map_of_eq_None_iff)
    then show ?thesis by (auto simp: parent_of_def)
  qed (simp add: parent_of_def)
  then obtain x where "parent_of all p = Inr x" ..
  with Cons show ?case by simp
qed simp

lemma retire_absent_total:
  "if list_ex (\<lambda>r. qb_Role (qr_Binding r) = QuranUnitRolePrimaryText) (absent desired rs)
   then retire_absent desired rs plan = Inl ErrQuranPrimaryTextDrift
   else \<exists>plan'. retire_absent desired rs plan = Inr plan'"
  by (induction rs arbitrary: plan) (auto simp: absent_def Let_def)

definition primary_drift :: "QuranUnitRegistrySnapshot \<Rightarrow> derivedQuranUnit list \<Rightarrow> bool" where
  "primary_drift snap derived \<longleftrightarrow> list_ex (drifted snap) derived \<or>
     list_ex (\<lambda>r. qb_Role (qr_Binding r) = QuranUnitRolePrimaryText) (absent (map slot_of derived) (qn_Active snap))"

lemma planQuranSurah_total:
  assumes "derived_ok E derived" "distinct (map record_slot (qn_Active snap))"
    and "list_all (probe_ok E (qs_SurahID source) snap) derived"
    and "list_all (primary_room snap (qn_MaxOrdinalByAyah snap)) derived"
  shows "if primary_drift snap derived
    then planQuranSurah E source derived snap = Some (Inl ErrQuranPrimaryTextDrift)
    else \<exists>plan. planQuranSurah E source derived snap = Some (Inr plan)"
proof -
  let ?b = "\<lparr>qy_highwater = qn_MaxOrdinalByAyah snap, qy_planned = [], qy_plan = empty_plan source derived snap\<rparr>"
  have items: "if list_ex (drifted snap) derived
      then plan_items E (qs_SurahID source) snap [] derived ?b = Some (Inl ErrQuranPrimaryTextDrift)
      else \<exists>b'. plan_items E (qs_SurahID source) snap [] derived ?b = Some (Inr b')"
    using assms derived_ok_slots [OF assms(1)] derived_primary_first [OF assms(1)]
    by (intro plan_items_total) simp_all
  show ?thesis
  proof (cases "list_ex (drifted snap) derived")
    case True
    with items assms(2) show ?thesis by (simp add: planQuranSurah_def primary_drift_def)
  next
    case False
    with items obtain b where b: "plan_items E (qs_SurahID source) snap [] derived ?b = Some (Inr b)" by auto
    from plan_items_effect [OF b] have ds: "map pq_derived (qy_planned b) = derived" by (auto simp: items_effect_def)
    then have sl: "slot_of ` pq_derived ` set (qy_planned b) = slot_of ` set derived"
      by (metis image_set)
    have "\<forall>p\<in>set (qy_planned b). dq_parentSlot (pq_derived p) = '''' \<or>
        dq_parentSlot (pq_derived p) \<in> slot_of ` pq_derived ` set (qy_planned b)"
      using assms(1) unfolding sl derived_ok_def ds [symmetric] by simp
    from stage_items_total [OF this, of E "qs_SurahID source" "qy_plan b"] obtain plan1 where
      "stage_items E (qs_SurahID source) (qy_planned b) (qy_planned b) (qy_plan b) = Inr plan1" by blast
    with b assms(2) False retire_absent_total [of "map slot_of derived" "qn_Active snap" plan1]
    show ?thesis by (simp add: planQuranSurah_def primary_drift_def split: if_splits)
  qed
qed

end
