(* ===== verification/Quran_Apply.thy ===== *)
theory Quran_Apply
  imports Quran_Store Quran_Plan_Props
begin

text \<open>
  The batch of \<open>ApplyQuranReconcile\<close> in closed form: under the conditions the planner establishes,
  every statement affects one row, and the tables after the batch are given as maps over the old
  rows followed by the new ones.
\<close>

section \<open>Batches\<close>

lemma run_batch_append: "run_batch (as @ bs) db = res_bind (run_batch as db) (run_batch bs)"
  by (induction as arbitrary: db) (auto split: option.splits)

definition find_unit :: "CitableUnit list \<Rightarrow> string \<Rightarrow> CitableUnit option" where
  "find_unit us i = find (\<lambda>u. u_ID u = i) us"

lemma unit_row_find: "unit_row db i = find_unit (qd_units db) i"
  by (simp add: unit_row_def find_unit_def)

lemma find_unit_append:
  "find_unit (us @ vs) i = (case find_unit us i of Some u \<Rightarrow> Some u | None \<Rightarrow> find_unit vs i)"
  by (induction us) (auto simp: find_unit_def)

lemma find_unit_map:
  assumes "\<And>u. u_ID (f u) = u_ID u"
  shows "find_unit (map f us) i = map_option f (find_unit us i)"
  using assms by (induction us) (auto simp: find_unit_def)

lemma find_unit_None: "find_unit us i = None \<longleftrightarrow> i \<notin> u_ID ` set us"
  by (auto simp: find_unit_def find_None_iff)

lemma find_unit_Some: "find_unit us i = Some u \<Longrightarrow> u \<in> set us \<and> u_ID u = i"
  by (auto simp: find_unit_def find_Some_iff)

lemma find_unit_in: "distinct (map u_ID us) \<Longrightarrow> u \<in> set us \<Longrightarrow> find_unit us (u_ID u) = Some u"
  by (induction us) (auto simp: find_unit_def)

definition insertable :: "CitableUnit \<Rightarrow> bool" where
  "insertable u \<longleftrightarrow> u_Text u \<noteq> '''' \<and> 1 \<le> u_Ordinal u \<and> 0 \<le> u_Position u \<and> 1 \<le> u_Occurrence u \<and>
     parent_shape (u\<lparr>u_Lifecycle := UnitLifecycleActive\<rparr>)"

lemma stored_shape: "parent_shape (stored_unit db u) \<longleftrightarrow> parent_shape (u\<lparr>u_Lifecycle := UnitLifecycleActive\<rparr>)"
  by (simp add: stored_unit_def parent_shape_def split del: if_split cong: if_cong)

lemma stored_sel [simp]: "u_ID (stored_unit db u) = u_ID u" "u_Anchor (stored_unit db u) = u_Anchor u"
  by (simp_all add: stored_unit_def)

lemma run_inserts:
  assumes "distinct (map u_ID (qd_units db) @ map u_ID us)" "distinct (map u_Anchor (qd_units db) @ map u_Anchor us)"
    and "list_all insertable us" "\<forall>u\<in>set us. parent_known db (u_ParentUnitID u)"
  shows "run_batch (map InsertUnit us) db = Inr (db\<lparr>qd_units := qd_units db @ map (stored_unit db) us\<rparr>)"
  using assms
proof (induction us arbitrary: db)
  case (Cons u us)
  let ?db = "db\<lparr>qd_units := qd_units db @ [stored_unit db u]\<rparr>"
  have ex: "exec_stmt (InsertUnit u) db = Some (1, ?db)"
    using Cons.prems by (auto simp: Let_def stored_shape insertable_def list_ex_iff image_iff)
  have st: "stored_unit ?db = stored_unit db" by (rule ext) (simp add: stored_unit_def)
  have "run_batch (map InsertUnit us) ?db = Inr (?db\<lparr>qd_units := qd_units ?db @ map (stored_unit ?db) us\<rparr>)"
  proof (rule Cons.IH)
    show "\<forall>v\<in>set us. parent_known ?db (u_ParentUnitID v)"
      using Cons.prems(4) by (auto simp: parent_known_def unit_row_find find_unit_append split: option.splits)
  qed (use Cons.prems in auto)
  with ex st show ?case by simp
qed simp

definition bindable :: "quran_db \<Rightarrow> QuranCitableUnitBinding \<Rightarrow> bool" where
  "bindable db b \<longleftrightarrow> unit_row db (qb_UnitID b) \<noteq> None \<and> 1 \<le> qb_Ordinal b \<and> role_shape b \<and>
     list_ex (\<lambda>a. ay_SurahID a = qb_SurahID b \<and> ay_AyahNumber a = qb_AyahNumber b) (qd_ayahs db)"

definition bound_row :: "quran_db \<Rightarrow> QuranCitableUnitBinding \<Rightarrow> binding_row" where
  "bound_row db b = \<lparr>br_Binding = b, br_UpdatedAt = qd_clock db\<rparr>"

lemma run_bindings:
  assumes "distinct (map (qb_UnitID \<circ> br_Binding) (qd_bindings db) @ map qb_UnitID bs)"
    and "distinct (map (binding_place \<circ> br_Binding) (qd_bindings db) @ map binding_place bs)"
    and "list_all (bindable db) bs"
  shows "run_batch (map InsertBinding bs) db = Inr (db\<lparr>qd_bindings := qd_bindings db @ map (bound_row db) bs\<rparr>)"
  using assms
proof (induction bs arbitrary: db)
  case (Cons b bs)
  let ?db = "db\<lparr>qd_bindings := qd_bindings db @ [bound_row db b]\<rparr>"
  have ex: "exec_stmt (InsertBinding b) db = Some (1, ?db)"
    using Cons.prems by (auto simp: bindable_def bound_row_def list_ex_iff image_iff)
  have same: "bound_row ?db = bound_row db" "bindable ?db = bindable db"
    by (rule ext, simp add: bound_row_def bindable_def unit_row_def)+
  have "run_batch (map InsertBinding bs) ?db = Inr (?db\<lparr>qd_bindings := qd_bindings ?db @ map (bound_row ?db) bs\<rparr>)"
    by (rule Cons.IH) (use Cons.prems same in \<open>auto simp: bound_row_def\<close>)
  with ex same show ?case by simp
qed simp

section \<open>Updates and retirements\<close>

definition updated_unit :: "int \<Rightarrow> QuranUnitPlanUpdate list \<Rightarrow> CitableUnit \<Rightarrow> CitableUnit" where
  "updated_unit now ups u =
     (case find (\<lambda>up. qu_ID up = u_ID u) ups of
        None \<Rightarrow> u
      | Some up \<Rightarrow> u\<lparr>u_PageID := qu_PageID up, u_Position := qu_Position up,
          u_ParentUnitID := qu_ParentUnitID up, u_UpdatedAt := now\<rparr>)"

definition updated_row :: "int \<Rightarrow> QuranUnitPlanUpdate list \<Rightarrow> binding_row \<Rightarrow> binding_row" where
  "updated_row now ups r =
     (case find (\<lambda>up. qu_ID up = qb_UnitID (br_Binding r)) ups of
        None \<Rightarrow> r
      | Some up \<Rightarrow> r\<lparr>br_Binding := (br_Binding r)\<lparr>qb_SourceUpdatedAt := qu_SourceUpdatedAt up\<rparr>, br_UpdatedAt := now\<rparr>)"

definition updatable :: "quran_db \<Rightarrow> QuranUnitPlanUpdate \<Rightarrow> bool" where
  "updatable db up \<longleftrightarrow> 0 \<le> qu_Position up \<and> parent_known db (qu_ParentUnitID up) \<and>
     (\<exists>u. unit_row db (qu_ID up) = Some u \<and> u_Lifecycle u = UnitLifecycleActive \<and>
        parent_shape (u\<lparr>u_ParentUnitID := qu_ParentUnitID up\<rparr>)) \<and>
     (\<exists>r\<in>set (qd_bindings db). qb_UnitID (br_Binding r) = qu_ID up)"

lemma updated_unit_sel [simp]:
  "u_ID (updated_unit now ups u) = u_ID u" "u_Lifecycle (updated_unit now ups u) = u_Lifecycle u"
  "u_Kind (updated_unit now ups u) = u_Kind u" "u_Marker (updated_unit now ups u) = u_Marker u"
  "u_ProvenanceDetail (updated_unit now ups u) = u_ProvenanceDetail u"
  "u_Anchor (updated_unit now ups u) = u_Anchor u" "u_ContentHash (updated_unit now ups u) = u_ContentHash u"
  "u_Occurrence (updated_unit now ups u) = u_Occurrence u" "u_Corpus (updated_unit now ups u) = u_Corpus u"
  "u_Text (updated_unit now ups u) = u_Text u" "u_Ordinal (updated_unit now ups u) = u_Ordinal u"
  by (simp_all add: updated_unit_def split: option.splits)

lemma updated_row_sel [simp]:
  "qb_UnitID (br_Binding (updated_row now ups r)) = qb_UnitID (br_Binding r)"
  "qb_SurahID (br_Binding (updated_row now ups r)) = qb_SurahID (br_Binding r)"
  "qb_AyahNumber (br_Binding (updated_row now ups r)) = qb_AyahNumber (br_Binding r)"
  "qb_Ordinal (br_Binding (updated_row now ups r)) = qb_Ordinal (br_Binding r)"
  "qb_Role (br_Binding (updated_row now ups r)) = qb_Role (br_Binding r)"
  "qb_TranslationSourceID (br_Binding (updated_row now ups r)) = qb_TranslationSourceID (br_Binding r)"
  "qb_TransliterationSourceID (br_Binding (updated_row now ups r)) = qb_TransliterationSourceID (br_Binding r)"
  "qb_FootnoteKey (br_Binding (updated_row now ups r)) = qb_FootnoteKey (br_Binding r)"
  by (simp_all add: updated_row_def split: option.splits)

lemma one_by_key:
  assumes "distinct (map f xs)" "x \<in> set xs"
  shows "length (filter (\<lambda>y. f y = f x) xs) = 1"
  using assms by (induction xs) (auto simp: filter_empty_conv image_iff)

lemma exec_update:
  assumes "updatable db up" "distinct (map u_ID (qd_units db))"
    and "distinct (map (qb_UnitID \<circ> br_Binding) (qd_bindings db))"
  shows "exec_stmt (UpdateUnit up) db = Some (1, db\<lparr>
    qd_units := map (updated_unit (qd_clock db) [up]) (qd_units db),
    qd_bindings := map (updated_row (qd_clock db) [up]) (qd_bindings db)\<rparr>)"
proof -
  let ?hit = "\<lambda>u. u_ID u = qu_ID up \<and> u_Lifecycle u = UnitLifecycleActive"
  from assms(1) obtain u r where u: "unit_row db (qu_ID up) = Some u" "u_Lifecycle u = UnitLifecycleActive"
      "parent_shape (u\<lparr>u_ParentUnitID := qu_ParentUnitID up\<rparr>)"
    and r: "r \<in> set (qd_bindings db)" "qb_UnitID (br_Binding r) = qu_ID up"
    and ok: "0 \<le> qu_Position up" "parent_known db (qu_ParentUnitID up)"
    by (auto simp: updatable_def)
  have uin: "u \<in> set (qd_units db)" "u_ID u = qu_ID up" using find_unit_Some u(1) unit_row_find by metis+
  have only: "v = u" if "v \<in> set (qd_units db)" "u_ID v = qu_ID up" for v
    using find_unit_in [OF assms(2) that(1)] that(2) u(1) by (simp add: unit_row_find)
  have hit: "list_ex ?hit (qd_units db)" using uin u(2) by (auto simp: list_ex_iff)
  have shape: "\<not> list_ex (\<lambda>v. ?hit v \<and> \<not> parent_shape (v\<lparr>u_PageID := qu_PageID up, u_Position := qu_Position up,
      u_ParentUnitID := qu_ParentUnitID up, u_UpdatedAt := qd_clock db\<rparr>)) (qd_units db)"
    using only u(3) by (auto simp: list_ex_iff parent_shape_def)
  have one: "length (filter (\<lambda>r. qb_UnitID (br_Binding r) = qu_ID up) (qd_bindings db)) = 1"
    using one_by_key [OF assms(3) r(1)] r(2) by simp
  have units: "map (\<lambda>v. if ?hit v then v\<lparr>u_PageID := qu_PageID up, u_Position := qu_Position up,
      u_ParentUnitID := qu_ParentUnitID up, u_UpdatedAt := qd_clock db\<rparr> else v) (qd_units db) =
      map (updated_unit (qd_clock db) [up]) (qd_units db)"
    using only u(2) by (auto simp: updated_unit_def)
  show ?thesis using hit shape one ok units by (simp add: Let_def updated_row_def eq_commute cong: if_cong)
qed

lemma updated_unit_Cons:
  "qu_ID up \<notin> qu_ID ` set ups \<Longrightarrow> updated_unit now ups (updated_unit now [up] u) = updated_unit now (up # ups) u"
proof (cases "qu_ID up = u_ID u")
  case True
  assume "qu_ID up \<notin> qu_ID ` set ups"
  with True have "find (\<lambda>v. qu_ID v = u_ID u) ups = None" by (auto simp: find_None_iff image_iff)
  with True show ?thesis by (simp add: updated_unit_def)
qed (simp add: updated_unit_def)

lemma updated_row_Cons:
  "qu_ID up \<notin> qu_ID ` set ups \<Longrightarrow> updated_row now ups (updated_row now [up] r) = updated_row now (up # ups) r"
proof (cases "qu_ID up = qb_UnitID (br_Binding r)")
  case True
  assume "qu_ID up \<notin> qu_ID ` set ups"
  with True have "find (\<lambda>v. qu_ID v = qb_UnitID (br_Binding r)) ups = None" by (auto simp: find_None_iff image_iff)
  with True show ?thesis by (simp add: updated_row_def)
qed (simp add: updated_row_def)

lemma updated_Nil [simp]: "updated_unit now [] = (\<lambda>u. u)" "updated_row now [] = (\<lambda>r. r)"
  by (simp_all add: updated_unit_def updated_row_def fun_eq_iff)

lemma run_updates:
  assumes "list_all (updatable db) ups" "distinct (map qu_ID ups)" "distinct (map u_ID (qd_units db))"
    and "distinct (map (qb_UnitID \<circ> br_Binding) (qd_bindings db))"
  shows "run_batch (map UpdateUnit ups) db = Inr (db\<lparr>
    qd_units := map (updated_unit (qd_clock db) ups) (qd_units db),
    qd_bindings := map (updated_row (qd_clock db) ups) (qd_bindings db)\<rparr>)"
  using assms
proof (induction ups arbitrary: db)
  case (Cons up ups)
  let ?db = "db\<lparr>qd_units := map (updated_unit (qd_clock db) [up]) (qd_units db),
    qd_bindings := map (updated_row (qd_clock db) [up]) (qd_bindings db)\<rparr>"
  have ex: "exec_stmt (UpdateUnit up) db = Some (1, ?db)"
    by (rule exec_update) (use Cons.prems in \<open>simp_all add: comp_def\<close>)
  have rows: "unit_row ?db i = map_option (updated_unit (qd_clock db) [up]) (unit_row db i)" for i
    by (simp add: unit_row_find find_unit_map)
  have other: "updated_unit (qd_clock db) [up] u = u" if "u_ID u \<noteq> qu_ID up" for u
    using that by (simp add: updated_unit_def)
  have upd: "updatable ?db v" if v: "v \<in> set ups" for v
  proof -
    have ne: "qu_ID v \<noteq> qu_ID up" using Cons.prems(2) v by (auto simp: image_iff)
    from Cons.prems(1) v have ok: "updatable db v" by (simp add: list_all_iff)
    then obtain u where u: "unit_row db (qu_ID v) = Some u" "u_Lifecycle u = UnitLifecycleActive"
      "parent_shape (u\<lparr>u_ParentUnitID := qu_ParentUnitID v\<rparr>)" by (auto simp: updatable_def)
    then have "u_ID u = qu_ID v" using find_unit_Some unit_row_find by metis
    with u ne other have "unit_row ?db (qu_ID v) = Some u" by (simp add: rows)
    moreover have "parent_known ?db (qu_ParentUnitID v)"
      using ok by (auto simp: updatable_def parent_known_def rows split: option.splits)
    moreover have "\<exists>r\<in>set (qd_bindings ?db). qb_UnitID (br_Binding r) = qu_ID v"
      using ok by (auto simp: updatable_def)
    ultimately show ?thesis using ok u by (auto simp: updatable_def)
  qed
  have "run_batch (map UpdateUnit ups) ?db = Inr (?db\<lparr>
      qd_units := map (updated_unit (qd_clock ?db) ups) (qd_units ?db),
      qd_bindings := map (updated_row (qd_clock ?db) ups) (qd_bindings ?db)\<rparr>)"
    by (rule Cons.IH) (use Cons.prems upd in \<open>simp_all add: list_all_iff comp_def\<close>)
  with ex Cons.prems(2) show ?case
    by (simp add: updated_unit_Cons updated_row_Cons cong: map_cong)
qed simp

definition retired_unit :: "int \<Rightarrow> UnitPlanRetire list \<Rightarrow> CitableUnit \<Rightarrow> CitableUnit" where
  "retired_unit now rts u =
     (case find (\<lambda>rt. rt_ID rt = u_ID u) rts of
        None \<Rightarrow> u
      | Some rt \<Rightarrow> u\<lparr>u_Lifecycle := rt_Lifecycle rt, u_RetiredAt := Some now, u_UpdatedAt := now\<rparr>)"

lemma retired_sel [simp]:
  "u_ID (retired_unit now rts u) = u_ID u" "u_Anchor (retired_unit now rts u) = u_Anchor u"
  "u_Kind (retired_unit now rts u) = u_Kind u" "u_Corpus (retired_unit now rts u) = u_Corpus u"
  "u_ContentHash (retired_unit now rts u) = u_ContentHash u" "u_Occurrence (retired_unit now rts u) = u_Occurrence u"
  "u_ParentUnitID (retired_unit now rts u) = u_ParentUnitID u" "u_PageID (retired_unit now rts u) = u_PageID u"
  "u_Position (retired_unit now rts u) = u_Position u" "u_Text (retired_unit now rts u) = u_Text u"
  "u_ProvenanceDetail (retired_unit now rts u) = u_ProvenanceDetail u" "u_Marker (retired_unit now rts u) = u_Marker u"
  "u_Ordinal (retired_unit now rts u) = u_Ordinal u"
  by (simp_all add: retired_unit_def split: option.splits)

lemma retired_Nil [simp]: "retired_unit now [] = (\<lambda>u. u)"
  by (simp add: retired_unit_def fun_eq_iff)

lemma retired_Cons:
  "rt_ID rt \<notin> rt_ID ` set rts \<Longrightarrow> retired_unit now rts (retired_unit now [rt] u) = retired_unit now (rt # rts) u"
proof (cases "rt_ID rt = u_ID u")
  case True
  assume "rt_ID rt \<notin> rt_ID ` set rts"
  with True have "find (\<lambda>v. rt_ID v = u_ID u) rts = None" by (auto simp: find_None_iff image_iff)
  with True show ?thesis by (simp add: retired_unit_def)
qed (simp add: retired_unit_def)

lemma run_retires:
  assumes "\<forall>rt\<in>set rts. is_active db (rt_ID rt)" "distinct (map rt_ID rts)" "distinct (map u_ID (qd_units db))"
  shows "run_batch (map RetireUnit rts) db = Inr (db\<lparr>qd_units := map (retired_unit (qd_clock db) rts) (qd_units db)\<rparr>)"
  using assms
proof (induction rts arbitrary: db)
  case (Cons rt rts)
  let ?db = "db\<lparr>qd_units := map (retired_unit (qd_clock db) [rt]) (qd_units db)\<rparr>"
  let ?hit = "\<lambda>u. u_ID u = rt_ID rt \<and> u_Lifecycle u = UnitLifecycleActive"
  from Cons.prems(1) obtain u where u: "unit_row db (rt_ID rt) = Some u" "u_Lifecycle u = UnitLifecycleActive"
    by (auto simp: is_active_def split: option.splits)
  then have uin: "u \<in> set (qd_units db)" "u_ID u = rt_ID rt" using find_unit_Some unit_row_find by metis+
  have only: "v = u" if "v \<in> set (qd_units db)" "u_ID v = rt_ID rt" for v
    using find_unit_in [OF Cons.prems(3) that(1)] that(2) u(1) by (simp add: unit_row_find)
  have "filter ?hit (qd_units db) = filter (\<lambda>v. u_ID v = u_ID u) (qd_units db)"
  proof (rule filter_cong [OF refl])
    fix v assume "v \<in> set (qd_units db)"
    then show "?hit v = (u_ID v = u_ID u)" using only [of v] uin(2) u(2) by auto
  qed
  then have one: "length (filter ?hit (qd_units db)) = 1" using one_by_key [OF Cons.prems(3) uin(1)] by simp
  have units: "map (\<lambda>v. if ?hit v then v\<lparr>u_Lifecycle := rt_Lifecycle rt, u_RetiredAt := Some (qd_clock db),
      u_UpdatedAt := qd_clock db\<rparr> else v) (qd_units db) = map (retired_unit (qd_clock db) [rt]) (qd_units db)"
  proof (rule map_cong [OF refl])
    fix v assume "v \<in> set (qd_units db)"
    then show "(if ?hit v then v\<lparr>u_Lifecycle := rt_Lifecycle rt, u_RetiredAt := Some (qd_clock db),
        u_UpdatedAt := qd_clock db\<rparr> else v) = retired_unit (qd_clock db) [rt] v"
      using only [of v] u(2) by (cases "u_ID v = rt_ID rt") (auto simp: retired_unit_def)
  qed
  have ex: "exec_stmt (RetireUnit rt) db = Some (1, ?db)" using one units by (simp add: Let_def)
  have act: "is_active ?db (rt_ID v)" if v: "v \<in> set rts" for v
  proof -
    have ne: "rt_ID v \<noteq> rt_ID rt" using Cons.prems(2) v by (auto simp: image_iff)
    have "unit_row ?db (rt_ID v) = map_option (retired_unit (qd_clock db) [rt]) (unit_row db (rt_ID v))"
      by (simp add: unit_row_find find_unit_map)
    moreover have "is_active db (rt_ID v)" using Cons.prems(1) v by simp
    then obtain w where w: "unit_row db (rt_ID v) = Some w" "u_Lifecycle w = UnitLifecycleActive"
      by (auto simp: is_active_def split: option.splits)
    moreover have "u_ID w = rt_ID v" using find_unit_Some w(1) unit_row_find by metis
    ultimately show ?thesis using ne by (simp add: is_active_def retired_unit_def)
  qed
  have "run_batch (map RetireUnit rts) ?db =
      Inr (?db\<lparr>qd_units := map (retired_unit (qd_clock ?db) rts) (qd_units ?db)\<rparr>)"
    by (rule Cons.IH) (use Cons.prems act in \<open>simp_all add: o_def\<close>)
  with ex Cons.prems(2) show ?case by (simp add: retired_Cons cong: map_cong)
qed simp

lemma run_edges:
  assumes "\<forall>e\<in>set es. unit_row db (e_PredecessorID e) \<noteq> None \<and> unit_row db (e_SuccessorID e) \<noteq> None \<and>
      e_PredecessorID e \<noteq> e_SuccessorID e"
    and "distinct (map e_PredecessorID es)" "e_PredecessorID ` set es \<inter> e_PredecessorID ` set (qd_lineage db) = {}"
  shows "run_batch (map InsertEdge es) db = Inr (db\<lparr>qd_lineage := qd_lineage db @ es\<rparr>)"
  using assms
proof (induction es arbitrary: db)
  case (Cons e es)
  let ?db = "db\<lparr>qd_lineage := qd_lineage db @ [e]\<rparr>"
  have "\<not> list_ex (\<lambda>f. e_PredecessorID f = e_PredecessorID e \<and> e_SuccessorID f = e_SuccessorID e) (qd_lineage db)"
  proof
    assume "list_ex (\<lambda>f. e_PredecessorID f = e_PredecessorID e \<and> e_SuccessorID f = e_SuccessorID e) (qd_lineage db)"
    then obtain f where "f \<in> set (qd_lineage db)" "e_PredecessorID f = e_PredecessorID e"
      by (auto simp: list_ex_iff)
    then have "e_PredecessorID e \<in> e_PredecessorID ` set (qd_lineage db)" by (metis imageI)
    with Cons.prems(3) show False by simp
  qed
  then have ex: "exec_stmt (InsertEdge e) db = Some (1, ?db)"
    using Cons.prems(1) by simp
  have "run_batch (map InsertEdge es) ?db = Inr (?db\<lparr>qd_lineage := qd_lineage ?db @ es\<rparr>)"
  proof (rule Cons.IH)
    show "e_PredecessorID ` set es \<inter> e_PredecessorID ` set (qd_lineage ?db) = {}"
      using Cons.prems(2,3) by auto
  qed (use Cons.prems(1,2) in \<open>simp_all add: unit_row_def\<close>)
  with ex show ?case by simp
qed simp

end
