(* ===== verification/Quran_Registry.thy ===== *)
theory Quran_Registry
  imports Quran_Apply
begin

text \<open>
  The invariant of the Quran tables, what a snapshot of tables in the invariant looks like, and the
  planner's preconditions that follow from it.
\<close>

section \<open>The invariant\<close>

definition binding_key :: "QuranCitableUnitBinding \<Rightarrow> string" where
  "binding_key b = (case qb_FootnoteKey b of Some k \<Rightarrow> k | None \<Rightarrow> '''')"

definition quran_name :: "int \<Rightarrow> int \<Rightarrow> string \<Rightarrow> string \<Rightarrow> string \<Rightarrow> string \<Rightarrow> int \<Rightarrow> string" where
  "quran_name s n r src k h occ = join_char (CHR ''|'')
     [''quran'', show_int s, show_int n, r, src, k, hashKey h, show_int occ]"

definition role_kind :: "string \<Rightarrow> string" where
  "role_kind r = (if r = QuranUnitRoleFootnote then UnitKindFootnote else r)"

definition binding_name :: "QuranCitableUnitBinding \<Rightarrow> CitableUnit \<Rightarrow> string" where
  "binding_name b u = quran_name (qb_SurahID b) (qb_AyahNumber b) (qb_Role b) (binding_source b) (binding_key b)
     (u_ContentHash u) (u_Occurrence u)"

definition unit_fits :: "unit_env \<Rightarrow> quran_db \<Rightarrow> QuranCitableUnitBinding \<Rightarrow> CitableUnit \<Rightarrow> bool" where
  "unit_fits E db b u \<longleftrightarrow> u_Corpus u = UnitCorpusQuran \<and> u_ID u = env_uuid5 E (binding_name b u) \<and>
     u_Anchor u = QuranAnchorFor (qb_SurahID b) (qb_AyahNumber b) (qb_Ordinal b) \<and>
     u_Kind u = role_kind (qb_Role b) \<and>
     (qb_Role b \<noteq> QuranUnitRoleFootnote \<longrightarrow> u_ParentUnitID u = None) \<and>
     (qb_Role b = QuranUnitRoleFootnote \<longrightarrow> u_Lifecycle u = UnitLifecycleActive \<longrightarrow> footnote_parent_ok db b)"

definition binding_plain :: "QuranCitableUnitBinding \<Rightarrow> bool" where
  "binding_plain b \<longleftrightarrow> role_shape b \<and> 1 \<le> qb_Ordinal b \<and> no_nul (binding_source b) \<and>
     no_bar (binding_source b) \<and> no_bar (binding_key b)"

definition row_ok :: "unit_env \<Rightarrow> quran_db \<Rightarrow> QuranCitableUnitBinding \<Rightarrow> bool" where
  "row_ok E db b \<longleftrightarrow> binding_plain b \<and> (\<exists>u. unit_row db (qb_UnitID b) = Some u \<and> unit_fits E db b u)"

definition row_active :: "quran_db \<Rightarrow> binding_row \<Rightarrow> bool" where
  "row_active db r \<longleftrightarrow> is_active db (qb_UnitID (br_Binding r))"

definition row_slot :: "binding_row \<Rightarrow> int \<times> string" where
  "row_slot r = (qb_SurahID (br_Binding r), quranBindingSlotKey (br_Binding r))"

definition primary_row :: "quran_db \<Rightarrow> int \<Rightarrow> int \<Rightarrow> binding_row \<Rightarrow> bool" where
  "primary_row db s n p \<longleftrightarrow> qb_SurahID (br_Binding p) = s \<and> qb_AyahNumber (br_Binding p) = n \<and>
     qb_Role (br_Binding p) = QuranUnitRolePrimaryText \<and> qb_Ordinal (br_Binding p) = 1 \<and> row_active db p"

definition registry_ok :: "unit_env \<Rightarrow> quran_db \<Rightarrow> bool" where
  "registry_ok E db \<longleftrightarrow>
     distinct (map u_ID (qd_units db)) \<and> distinct (map u_Anchor (qd_units db)) \<and>
     u_ID ` set (qd_units db) = (qb_UnitID \<circ> br_Binding) ` set (qd_bindings db) \<and>
     distinct (map (qb_UnitID \<circ> br_Binding) (qd_bindings db)) \<and>
     distinct (map (binding_place \<circ> br_Binding) (qd_bindings db)) \<and>
     (\<forall>r\<in>set (qd_bindings db). row_ok E db (br_Binding r)) \<and>
     (\<forall>r\<in>set (qd_bindings db). \<forall>q\<in>set (qd_bindings db).
        row_active db r \<longrightarrow> row_active db q \<longrightarrow> row_slot r = row_slot q \<longrightarrow> r = q) \<and>
     (\<forall>r\<in>set (qd_bindings db). \<exists>p\<in>set (qd_bindings db).
        primary_row db (qb_SurahID (br_Binding r)) (qb_AyahNumber (br_Binding r)) p) \<and>
     (\<forall>e\<in>set (qd_lineage db). e_PredecessorID e \<in> u_ID ` set (qd_units db) \<and> \<not> is_active db (e_PredecessorID e))"

lemma registry_okD:
  assumes "registry_ok E db"
  shows "distinct (map u_ID (qd_units db))" "distinct (map u_Anchor (qd_units db))"
    "u_ID ` set (qd_units db) = (qb_UnitID \<circ> br_Binding) ` set (qd_bindings db)"
    "distinct (map (qb_UnitID \<circ> br_Binding) (qd_bindings db))"
    "distinct (map (binding_place \<circ> br_Binding) (qd_bindings db))"
    "\<And>r. r \<in> set (qd_bindings db) \<Longrightarrow> row_ok E db (br_Binding r)"
    "\<And>r q. r \<in> set (qd_bindings db) \<Longrightarrow> q \<in> set (qd_bindings db) \<Longrightarrow> row_active db r \<Longrightarrow> row_active db q \<Longrightarrow>
       row_slot r = row_slot q \<Longrightarrow> r = q"
    "\<And>r. r \<in> set (qd_bindings db) \<Longrightarrow> \<exists>p\<in>set (qd_bindings db).
        primary_row db (qb_SurahID (br_Binding r)) (qb_AyahNumber (br_Binding r)) p"
    "\<And>e. e \<in> set (qd_lineage db) \<Longrightarrow> e_PredecessorID e \<in> u_ID ` set (qd_units db) \<and> \<not> is_active db (e_PredecessorID e)"
  using assms unfolding registry_ok_def by blast+

section \<open>Names and anchors\<close>

lemma quran_name_inject:
  assumes "no_bar r" "no_bar r'" "no_bar src" "no_bar src'" "no_bar k" "no_bar k'"
  shows "quran_name s n r src k h occ = quran_name s' n' r' src' k' h' occ' \<longleftrightarrow>
    (s, n, r, src, k, h, occ) = (s', n', r', src', k', h', occ')"
proof
  let ?ps = "[''quran'', show_int s, show_int n, r, src, k, hashKey h, show_int occ]"
  let ?qs = "[''quran'', show_int s', show_int n', r', src', k', hashKey h', show_int occ']"
  assume "quran_name s n r src k h occ = quran_name s' n' r' src' k' h' occ'"
  then have "split_char (CHR ''|'') (join_char (CHR ''|'') ?ps) = split_char (CHR ''|'') (join_char (CHR ''|'') ?qs)"
    by (simp only: quran_name_def)
  moreover have "\<forall>p\<in>set ?ps. CHR ''|'' \<notin> set p" "\<forall>p\<in>set ?qs. CHR ''|'' \<notin> set p"
    using assms by (simp_all add: no_bar_def)
  ultimately have "?ps = ?qs"
    using split_join_char [of ?ps "CHR ''|''"] split_join_char [of ?qs "CHR ''|''"] by simp
  then show "(s, n, r, src, k, h, occ) = (s', n', r', src', k', h', occ')"
    by (simp add: show_int_inject hashKey_inject)
qed simp

lemma QuranUnitID_name: "QuranUnitID E s n r src k h occ = env_uuid5 E (quran_name s n r src k h occ)"
  by (simp add: QuranUnitID_def quran_name_def)

lemma show_int_no_mark: "CHR ''/'' \<notin> set (show_int i)" "CHR '':'' \<notin> set (show_int i)"
  by (auto simp: show_int_def is_digit_def byte_def split: if_splits dest!: show_nat_digits)

lemma QuranAnchorFor_inject:
  "QuranAnchorFor s n i = QuranAnchorFor s' n' i' \<longleftrightarrow> (s, n, i) = (s', n', i')"
proof
  assume eq: "QuranAnchorFor s n i = QuranAnchorFor s' n' i'"
  have split: "split_char (CHR ''/'') (QuranAnchorFor a b c) =
      [''quran'', show_int a @ CHR '':'' # show_int b, ''u'', show_int c]" for a b c
  proof -
    have "QuranAnchorFor a b c =
        join_char (CHR ''/'') [''quran'', show_int a @ CHR '':'' # show_int b, ''u'', show_int c]"
      by (simp add: QuranAnchorFor_def)
    then show ?thesis by (simp only:) (rule split_join_char, simp_all add: show_int_no_mark)
  qed
  from eq have "show_int s @ CHR '':'' # show_int n = show_int s' @ CHR '':'' # show_int n'"
    and i: "show_int i = show_int i'" using split by (metis list.inject)+
  then have "split_char (CHR '':'') (show_int s @ CHR '':'' # show_int n) =
      split_char (CHR '':'') (show_int s' @ CHR '':'' # show_int n')" by simp
  then have "show_int s = show_int s'" "show_int n = show_int n'"
    by (simp_all add: split_char_append split_char_none show_int_no_mark)
  with i show "(s, n, i) = (s', n', i')" by (simp add: show_int_inject)
qed simp

section \<open>Rows and slots\<close>

lemma role_shape_plain: "role_shape b \<Longrightarrow> plain_role (qb_Role b)"
  by (auto simp: role_shape_def plain_role_def)

lemma role_shape_key: "role_shape b \<Longrightarrow> binding_key b \<noteq> '''' \<longleftrightarrow> qb_Role b = QuranUnitRoleFootnote"
  by (auto simp: role_shape_def binding_key_def sql_blank_def split: option.splits)

lemma role_shape_source:
  "role_shape b \<Longrightarrow> binding_source b = (if qb_Role b = QuranUnitRolePrimaryText then ''qpc-hafs''
     else if qb_Role b = QuranUnitRoleTransliteration then the (qb_TransliterationSourceID b)
     else the (qb_TranslationSourceID b))"
  by (auto simp: role_shape_def binding_source_def split: option.splits)

lemma slot_key: "quranBindingSlotKey b = quranSlotKey (qb_AyahNumber b) (qb_Role b) (binding_source b) (binding_key b)"
  by (simp add: quranBindingSlotKey_def binding_key_def)

definition binding_ident :: "QuranCitableUnitBinding \<Rightarrow> int \<times> string \<times> string \<times> string" where
  "binding_ident b = (qb_AyahNumber b, qb_Role b, binding_source b, binding_key b)"

lemma slot_binding:
  assumes "binding_plain b" "unit_shape E d"
  shows "quranBindingSlotKey b = slot_of d \<longleftrightarrow> binding_ident b = ident_of d"
  using assms plain_role_chars [OF role_shape_plain [of b]] unit_shape_chars [of E d]
  by (simp add: slot_key slot_of_def binding_ident_def ident_of_def binding_plain_def quranSlotKey_inject)

lemma slot_bindings:
  assumes "binding_plain b" "binding_plain c"
  shows "quranBindingSlotKey b = quranBindingSlotKey c \<longleftrightarrow> binding_ident b = binding_ident c"
  using assms plain_role_chars [OF role_shape_plain [of b]] plain_role_chars [OF role_shape_plain [of c]]
  by (simp add: slot_key binding_ident_def binding_plain_def quranSlotKey_inject)

section \<open>Snapshots\<close>

definition record_of :: "quran_db \<Rightarrow> binding_row \<Rightarrow> QuranCitableUnitRecord" where
  "record_of db r = \<lparr>qr_Unit = snapshot_unit (the (unit_row db (qb_UnitID (br_Binding r)))), qr_Binding = br_Binding r\<rparr>"

definition surah_active :: "quran_db \<Rightarrow> int \<Rightarrow> binding_row list" where
  "surah_active db s = filter (row_active db) (surah_bindings db s)"

lemma active_records_mset: "mset (active_records db s) = mset (map (record_of db) (surah_active db s))"
  by (simp add: active_records_def surah_active_def record_of_def [abs_def] row_active_def [abs_def])

lemma surah_active_set:
  "set (surah_active db s) = {r \<in> set (qd_bindings db). qb_SurahID (br_Binding r) = s \<and> row_active db r}"
  by (auto simp: surah_active_def surah_bindings_def)

lemma active_records_set: "set (active_records db s) = record_of db ` set (surah_active db s)"
  by (metis active_records_mset list.set_map set_mset_mset)

lemma record_of_sel [simp]:
  "qr_Binding (record_of db r) = br_Binding r" "record_slot (record_of db r) = quranBindingSlotKey (br_Binding r)"
  "qr_Unit (record_of db r) = snapshot_unit (the (unit_row db (qb_UnitID (br_Binding r))))"
  by (simp_all add: record_of_def record_slot_def)

lemma snapshot_unit_sel [simp]:
  "u_ID (snapshot_unit u) = u_ID u" "u_ContentHash (snapshot_unit u) = u_ContentHash u"
  "u_Occurrence (snapshot_unit u) = u_Occurrence u" "u_PageID (snapshot_unit u) = u_PageID u"
  "u_Position (snapshot_unit u) = u_Position u" "u_ParentUnitID (snapshot_unit u) = u_ParentUnitID u"
  by (simp_all add: snapshot_unit_def)

lemma unit_row_id: "unit_row db i = Some u \<Longrightarrow> u \<in> set (qd_units db) \<and> u_ID u = i"
  using find_unit_Some by (simp add: unit_row_find)

lemma row_unit:
  assumes "registry_ok E db" "r \<in> set (qd_bindings db)"
  obtains u where "unit_row db (qb_UnitID (br_Binding r)) = Some u" "u \<in> set (qd_units db)"
    "u_ID u = qb_UnitID (br_Binding r)" "unit_fits E db (br_Binding r) u" "binding_plain (br_Binding r)"
  using registry_okD(6) [OF assms] unit_row_id by (metis row_ok_def)

lemma row_plain: "registry_ok E db \<Longrightarrow> r \<in> set (qd_bindings db) \<Longrightarrow> binding_plain (br_Binding r)"
  using registry_okD(6) by (simp add: row_ok_def)

lemma record_of_id:
  "registry_ok E db \<Longrightarrow> r \<in> set (qd_bindings db) \<Longrightarrow> u_ID (qr_Unit (record_of db r)) = qb_UnitID (br_Binding r)"
  by (erule (1) row_unit) simp

lemma distinct_rows: "registry_ok E db \<Longrightarrow> distinct (qd_bindings db)"
  using registry_okD(4) distinct_map by blast

lemma rows_by_id:
  assumes "registry_ok E db" "r \<in> set (qd_bindings db)" "q \<in> set (qd_bindings db)"
    and "qb_UnitID (br_Binding r) = qb_UnitID (br_Binding q)"
  shows "r = q"
  using registry_okD(4) [OF assms(1)] assms(2-4) by (auto simp: distinct_map inj_on_def)

lemma active_slots_distinct:
  assumes "registry_ok E db"
  shows "distinct (map record_slot (active_records db s))"
proof -
  have "distinct (map (quranBindingSlotKey \<circ> br_Binding) (surah_active db s))"
    unfolding distinct_map
  proof (intro conjI inj_onI)
    show "distinct (surah_active db s)"
      using distinct_rows [OF assms] by (simp add: surah_active_def surah_bindings_def)
    fix r q assume "r \<in> set (surah_active db s)" "q \<in> set (surah_active db s)"
      "(quranBindingSlotKey \<circ> br_Binding) r = (quranBindingSlotKey \<circ> br_Binding) q"
    then show "r = q" using registry_okD(7) [OF assms, of r q] by (simp add: surah_active_set row_slot_def)
  qed
  moreover have "mset (map record_slot (active_records db s)) =
      mset (map (quranBindingSlotKey \<circ> br_Binding) (surah_active db s))"
    by (simp add: active_records_mset)
      (simp add: multiset.map_comp comp_def)
  ultimately show ?thesis by (metis mset_eq_imp_distinct_iff)
qed

lemma snapshot_act:
  assumes "registry_ok E db"
  shows "act (QuranSnapshot db s) d = Some r \<longleftrightarrow>
    (\<exists>q\<in>set (surah_active db s). r = record_of db q \<and> quranBindingSlotKey (br_Binding q) = slot_of d)"
proof
  assume "act (QuranSnapshot db s) d = Some r"
  then have "r \<in> set (active_records db s)" "record_slot r = slot_of d"
    by (auto simp: QuranSnapshot_def activeBySlot_def find_Some_iff)
  then show "\<exists>q\<in>set (surah_active db s). r = record_of db q \<and> quranBindingSlotKey (br_Binding q) = slot_of d"
    by (auto simp: active_records_set)
next
  assume "\<exists>q\<in>set (surah_active db s). r = record_of db q \<and> quranBindingSlotKey (br_Binding q) = slot_of d"
  then have r: "r \<in> set (active_records db s)" "record_slot r = slot_of d" by (auto simp: active_records_set)
  then obtain x where x: "activeBySlot (active_records db s) (slot_of d) = Some x"
    by (cases "activeBySlot (active_records db s) (slot_of d)") (auto simp: activeBySlot_def find_None_iff)
  then have "x \<in> set (active_records db s)" "record_slot x = slot_of d"
    by (auto simp: activeBySlot_def find_Some_iff)
  with active_slots_distinct [OF assms, of s] r have "x = r" by (auto simp: distinct_map inj_on_def)
  with x show "act (QuranSnapshot db s) d = Some r" by (simp add: QuranSnapshot_def)
qed

lemma fold_max_ge: "x \<in> set xs \<Longrightarrow> x \<le> fold max xs (a::int)" and fold_max_start: "a \<le> fold max xs a"
proof -
  show start: "a \<le> fold max xs a" for a :: int and xs
    by (induction xs arbitrary: a) (simp, metis fold_simps(2) max.coboundedI2 order.trans max.cobounded2)
  show "x \<in> set xs \<Longrightarrow> x \<le> fold max xs a"
  proof (induction xs arbitrary: a)
    case (Cons y ys)
    then show ?case using start [of "max y a" ys] by auto
  qed simp
qed

lemma max_of_ge: "x \<in> set xs \<Longrightarrow> x \<le> max_of xs" and max_of_nonneg: "0 \<le> max_of xs"
  by (simp_all add: max_of_def fold_max_ge fold_max_start)

lemma snapshot_ordinal:
  "r \<in> set (qd_bindings db) \<Longrightarrow> qb_SurahID (br_Binding r) = s \<Longrightarrow>
   qb_Ordinal (br_Binding r) \<le> qn_MaxOrdinalByAyah (QuranSnapshot db s) (qb_AyahNumber (br_Binding r))"
  by (auto simp: QuranSnapshot_def surah_bindings_def intro!: max_of_ge)

section \<open>The planner's preconditions\<close>

lemma primary_row_slot:
  assumes "registry_ok E db" "p \<in> set (qd_bindings db)" "primary_row db s n p"
  shows "binding_ident (br_Binding p) = (n, QuranUnitRolePrimaryText, ''qpc-hafs'', '''')"
proof -
  have shape: "role_shape (br_Binding p)" using row_plain [OF assms(1,2)] by (simp add: binding_plain_def)
  with assms(3) role_shape_key [OF shape] role_shape_source [OF shape] show ?thesis
    by (simp add: binding_ident_def primary_row_def)
qed

lemma registry_primary_room:
  assumes "registry_ok E db" "unit_shape E d"
  shows "primary_room (QuranSnapshot db s) (qn_MaxOrdinalByAyah (QuranSnapshot db s)) d"
  unfolding primary_room_def
proof (intro impI)
  assume role: "dq_role d = QuranUnitRolePrimaryText" and none: "act (QuranSnapshot db s) d = None"
  have "r \<notin> set (surah_bindings db s)" if n: "qb_AyahNumber (br_Binding r) = dq_ayahNumber d" for r
  proof
    assume "r \<in> set (surah_bindings db s)"
    then have r: "r \<in> set (qd_bindings db)" and s: "qb_SurahID (br_Binding r) = s" by (simp_all add: surah_bindings_def)
    obtain p where p: "p \<in> set (qd_bindings db)" "primary_row db s (dq_ayahNumber d) p"
      using registry_okD(8) [OF assms(1) r, unfolded n s] by (elim bexE)
    have "ident_of d = (dq_ayahNumber d, QuranUnitRolePrimaryText, ''qpc-hafs'', '''')"
      using assms(2) role unfolding ident_of_def unit_shape_def by simp
    then have "quranBindingSlotKey (br_Binding p) = slot_of d"
      using primary_row_slot [OF assms(1) p] slot_binding [OF row_plain [OF assms(1) p(1)] assms(2)] by simp
    moreover have "p \<in> set (surah_active db s)" using p by (simp add: surah_active_set primary_row_def)
    ultimately have "act (QuranSnapshot db s) d = Some (record_of db p)"
      by (intro iffD2 [OF snapshot_act [OF assms(1)]] bexI [of _ p] conjI refl)
    with none show False by simp
  qed
  then have "filter (\<lambda>r. qb_AyahNumber (br_Binding r) = dq_ayahNumber d) (surah_bindings db s) = []"
    by (auto simp: filter_empty_conv)
  then show "qn_MaxOrdinalByAyah (QuranSnapshot db s) (dq_ayahNumber d) = 0"
    by (simp add: QuranSnapshot_def max_of_def)
qed

end
