(* ===== verification/Quran_Settle.thy ===== *)
theory Quran_Settle
  imports Quran_Registry
begin

text \<open>
  What a plan made from a snapshot of tables in the invariant does to them: which identifiers it
  mints and retires, and why no statement of its batch can fail.
\<close>

section \<open>The setting\<close>

definition bar_free :: "derivedQuranUnit \<Rightarrow> bool" where
  "bar_free d \<longleftrightarrow> no_bar (dq_sourceID d) \<and> no_bar (dq_footnoteKey d)"

definition derived_name :: "int \<Rightarrow> derivedQuranUnit \<Rightarrow> int \<Rightarrow> string" where
  "derived_name s d n =
     quran_name s (dq_ayahNumber d) (dq_role d) (dq_sourceID d) (dq_footnoteKey d) (dq_contentHash d) n"

text \<open>The natural keys in reach: those of the rows, and those the probe can try.\<close>

definition reach_names :: "quran_db \<Rightarrow> int \<Rightarrow> derivedQuranUnit list \<Rightarrow> string set" where
  "reach_names db s derived =
     {binding_name (br_Binding r) u | r u. r \<in> set (qd_bindings db) \<and> unit_row db (qb_UnitID (br_Binding r)) = Some u} \<union>
     {derived_name s d n | d n. d \<in> set derived \<and> 1 \<le> n \<and> n \<le> int (length (surah_bindings db s)) + 1}"

definition run_ok :: "unit_env \<Rightarrow> quran_db \<Rightarrow> int \<Rightarrow> derivedQuranUnit list \<Rightarrow> bool" where
  "run_ok E db s derived \<longleftrightarrow> registry_ok E db \<and> derived_ok E derived \<and> list_all bar_free derived \<and>
     inj_on (env_uuid5 E) (reach_names db s derived) \<and>
     (\<forall>d\<in>set derived. list_ex (\<lambda>a. ay_SurahID a = s \<and> ay_AyahNumber a = dq_ayahNumber d) (qd_ayahs db))"

lemma run_okD:
  assumes "run_ok E db s derived"
  shows "registry_ok E db" "derived_ok E derived" "\<And>d. d \<in> set derived \<Longrightarrow> bar_free d"
    "inj_on (env_uuid5 E) (reach_names db s derived)" "\<And>d. d \<in> set derived \<Longrightarrow> unit_shape E d"
    "\<And>d. d \<in> set derived \<Longrightarrow> list_ex (\<lambda>a. ay_SurahID a = s \<and> ay_AyahNumber a = dq_ayahNumber d) (qd_ayahs db)"
  using assms by (auto simp: run_ok_def list_all_iff derived_ok_def)

text \<open>A plan in the setting, with its planned units.\<close>

definition planned_run ::
  "unit_env \<Rightarrow> quran_db \<Rightarrow> QuranUnitSource \<Rightarrow> derivedQuranUnit list \<Rightarrow> plannedQuranUnit list \<Rightarrow>
   QuranUnitReconcilePlan \<Rightarrow> bool" where
  "planned_run E db source derived ps plan \<longleftrightarrow> run_ok E db (qs_SurahID source) derived \<and>
     plan_form E source derived (QuranSnapshot db (qs_SurahID source)) ps plan"

section \<open>The probe\<close>

lemma probe_least:
  assumes "probe ident ex pl n = Some m" "n \<le> k" "k < m"
  shows "ident k \<in> set ex \<union> set pl"
proof -
  have "\<forall>k. n \<le> k \<longrightarrow> k < m \<longrightarrow> ident k \<in> set ex \<union> set pl"
  proof (rule probe.raw_induct [of "\<lambda>i e p n m. \<forall>k. n \<le> k \<longrightarrow> k < m \<longrightarrow> i k \<in> set e \<union> set p", OF _ assms(1)])
    fix pr i e p and n y :: int
    assume IH: "\<And>i e p n y. pr i e p n = Some y \<Longrightarrow> \<forall>k. n \<le> k \<longrightarrow> k < y \<longrightarrow> i k \<in> set e \<union> set p"
      and step: "(if i n \<notin> set e \<and> i n \<notin> set p then Some n else pr i e p (n + 1)) = Some y"
    show "\<forall>k. n \<le> k \<longrightarrow> k < y \<longrightarrow> i k \<in> set e \<union> set p"
    proof (cases "i n \<notin> set e \<and> i n \<notin> set p")
      case True
      with step show ?thesis by simp
    next
      case False
      with step have "pr i e p (n + 1) = Some y" by simp
      from IH [OF this] have above: "i k \<in> set e \<union> set p" if "n + 1 \<le> k" "k < y" for k using that by blast
      show ?thesis
      proof (intro allI impI)
        fix k assume "n \<le> k" "k < y"
        then show "i k \<in> set e \<union> set p" using above [of k] False by (cases "k = n") auto
      qed
    qed
  qed
  with assms(2,3) show ?thesis by blast
qed

lemma probe_bound:
  assumes "probe ident ex [] 1 = Some m" "inj_on ident {1..int (length ex) + 1}"
  shows "m \<le> int (length ex) + 1"
proof (rule ccontr)
  assume "\<not> ?thesis"
  then have "ident ` {1..int (length ex) + 1} \<subseteq> set ex" using probe_least [OF assms(1)] by fastforce
  then have "card (ident ` {1..int (length ex) + 1}) \<le> length ex"
    by (meson card_length card_mono finite_set le_trans)
  then show False by (simp add: card_image [OF assms(2)])
qed

lemma derived_names_inj:
  assumes "run_ok E db s derived" "d \<in> set derived"
  shows "inj_on (\<lambda>n. env_uuid5 E (derived_name s d n)) {1..int (length (surah_bindings db s)) + 1}"
proof (rule inj_onI)
  fix m n assume mn: "m \<in> {1..int (length (surah_bindings db s)) + 1}" "n \<in> {1..int (length (surah_bindings db s)) + 1}"
    "env_uuid5 E (derived_name s d m) = env_uuid5 E (derived_name s d n)"
  then have "derived_name s d m \<in> reach_names db s derived" "derived_name s d n \<in> reach_names db s derived"
    using assms(2) by (auto simp: reach_names_def)
  with run_okD(4) [OF assms(1)] mn(3) have "derived_name s d m = derived_name s d n" by (auto dest: inj_onD)
  then show "m = n"
    using run_okD(3) [OF assms] plain_role_chars run_okD(5) [OF assms]
    by (simp add: derived_name_def quran_name_inject bar_free_def unit_shape_def)
qed

lemma snapshot_ids: "qn_ExistingIDs (QuranSnapshot db s) = map (qb_UnitID \<circ> br_Binding) (surah_bindings db s)"
  by (simp add: QuranSnapshot_def)

lemma ident_name: "QuranUnitID E s (dq_ayahNumber d) (dq_role d) (dq_sourceID d) (dq_footnoteKey d) (dq_contentHash d)
    = (\<lambda>n. env_uuid5 E (derived_name s d n))"
  by (rule ext) (simp add: QuranUnitID_name derived_name_def)

lemma registry_probe_ok:
  assumes "run_ok E db s derived" "d \<in> set derived"
  shows "probe_ok E s (QuranSnapshot db s) d"
  unfolding probe_ok_def ident_name
  by (rule probe_total) (use derived_names_inj [OF assms] in \<open>simp add: snapshot_ids add.commute\<close>)

text \<open>The planner on tables in the invariant: it refuses exactly a drift of the primary text.\<close>

lemma registry_plan_total:
  assumes "run_ok E db (qs_SurahID source) derived"
  shows "if primary_drift (QuranSnapshot db (qs_SurahID source)) derived
    then planQuranSurah E source derived (QuranSnapshot db (qs_SurahID source)) = Some (Inl ErrQuranPrimaryTextDrift)
    else \<exists>plan. planQuranSurah E source derived (QuranSnapshot db (qs_SurahID source)) = Some (Inr plan)"
proof (rule planQuranSurah_total)
  note ok = run_okD [OF assms]
  show "derived_ok E derived" by (rule ok(2))
  show "distinct (map record_slot (qn_Active (QuranSnapshot db (qs_SurahID source))))"
    using active_slots_distinct [OF ok(1)] by (simp add: QuranSnapshot_def)
  show "list_all (probe_ok E (qs_SurahID source) (QuranSnapshot db (qs_SurahID source))) derived"
    using registry_probe_ok [OF assms] by (simp add: list_all_iff)
  show "list_all (primary_room (QuranSnapshot db (qs_SurahID source))
      (qn_MaxOrdinalByAyah (QuranSnapshot db (qs_SurahID source)))) derived"
    using registry_primary_room [OF ok(1) ok(5)] by (simp add: list_all_iff)
qed

section \<open>The planned units\<close>

lemma planned_runD:
  assumes "planned_run E db source derived ps plan" "s = qs_SurahID source"
  shows "run_ok E db s derived" "map pq_derived ps = derived" "list_all (planned_ok E s (QuranSnapshot db s)) ps"
    "ordinals_from (qn_MaxOrdinalByAyah (QuranSnapshot db s)) ps"
  using assms by (simp_all add: planned_run_def plan_form_def)

lemma planned_in:
  assumes "planned_run E db source derived ps plan" "p \<in> set ps"
  shows "pq_derived p \<in> set derived" "planned_ok E (qs_SurahID source) (QuranSnapshot db (qs_SurahID source)) p"
    "unit_shape E (pq_derived p)" "bar_free (pq_derived p)"
proof -
  note pr = planned_runD [OF assms(1) refl]
  show d: "pq_derived p \<in> set derived" using pr(2) assms(2) by (metis image_eqI list.set_map)
  show "planned_ok E (qs_SurahID source) (QuranSnapshot db (qs_SurahID source)) p"
    using pr(3) assms(2) by (simp add: list_all_iff)
  show "unit_shape E (pq_derived p)" "bar_free (pq_derived p)"
    using run_okD(3,5) [OF pr(1)] d by blast+
qed

lemma planned_distinct:
  assumes "planned_run E db source derived ps plan"
  shows "distinct (map (ident_of \<circ> pq_derived) ps)" "distinct (map (slot_of \<circ> pq_derived) ps)"
proof -
  note pr = planned_runD [OF assms refl]
  have "distinct (map ident_of derived)" "distinct (map slot_of derived)"
    using run_okD(2) [OF pr(1)] derived_ok_slots by (auto simp: derived_ok_def)
  then show "distinct (map (ident_of \<circ> pq_derived) ps)" "distinct (map (slot_of \<circ> pq_derived) ps)"
    using pr(2) by (metis map_map)+
qed

lemma planned_unique:
  assumes "planned_run E db source derived ps plan" "p \<in> set ps" "q \<in> set ps"
  shows "slot_of (pq_derived p) = slot_of (pq_derived q) \<Longrightarrow> p = q"
    "ident_of (pq_derived p) = ident_of (pq_derived q) \<Longrightarrow> p = q"
  using planned_distinct [OF assms(1)] assms(2,3) by (auto simp: distinct_map inj_on_def)

text \<open>A matched unit keeps the row of its slot.\<close>

lemma matched_row:
  assumes "planned_run E db source derived ps plan" "p \<in> set ps" "pq_matched p = Some r"
  shows "\<exists>q u. q \<in> set (surah_active db (qs_SurahID source)) \<and> r = record_of db q \<and>
    binding_ident (br_Binding q) = ident_of (pq_derived p) \<and> pq_unitID p = qb_UnitID (br_Binding q) \<and>
    unit_row db (pq_unitID p) = Some u \<and> unit_fits E db (br_Binding q) u \<and> u_Lifecycle u = UnitLifecycleActive \<and>
    u_ContentHash u = dq_contentHash (pq_derived p) \<and> pq_ordinal p = qb_Ordinal (br_Binding q)"
proof -
  let ?s = "qs_SurahID source" and ?d = "pq_derived p"
  note reg = run_okD(1) [OF planned_runD(1) [OF assms(1) refl]] and p = planned_in [OF assms(1,2)]
  from p(2) assms(3) have m: "matches (QuranSnapshot db ?s) ?d" and a: "act (QuranSnapshot db ?s) ?d = Some r"
    and i: "pq_unitID p = u_ID (qr_Unit r)" "pq_ordinal p = qb_Ordinal (qr_Binding r)"
    by (simp_all add: planned_ok_def Let_def)
  from a snapshot_act [OF reg, of ?s ?d r] obtain q where q: "q \<in> set (surah_active db ?s)" "r = record_of db q"
    "quranBindingSlotKey (br_Binding q) = slot_of ?d" by blast
  then have qin: "q \<in> set (qd_bindings db)" and act: "is_active db (qb_UnitID (br_Binding q))"
    by (simp_all add: surah_active_set row_active_def)
  from row_unit [OF reg qin] obtain u where u: "unit_row db (qb_UnitID (br_Binding q)) = Some u"
    "u_ID u = qb_UnitID (br_Binding q)" "unit_fits E db (br_Binding q) u" "binding_plain (br_Binding q)" by blast
  have "binding_ident (br_Binding q) = ident_of ?d" using slot_binding [OF u(4) p(3)] q(3) by simp
  moreover have "u_Lifecycle u = UnitLifecycleActive" using act u(1) by (simp add: is_active_def)
  moreover have "u_ContentHash u = dq_contentHash ?d" using m a q(2) u(1) by (simp add: matches_def)
  ultimately show ?thesis using q i u by auto
qed

lemma fresh_name:
  assumes "planned_run E db source derived ps plan" "p \<in> set ps" "pq_matched p = None"
  shows "pq_unitID p = env_uuid5 E (derived_name (qs_SurahID source) (pq_derived p) (pq_occurrence p))"
    "1 \<le> pq_occurrence p"
    "derived_name (qs_SurahID source) (pq_derived p) (pq_occurrence p) \<in> reach_names db (qs_SurahID source) derived"
proof -
  let ?s = "qs_SurahID source" and ?d = "pq_derived p"
  note run = planned_runD(1) [OF assms(1) refl] and p = planned_in [OF assms(1,2)]
  from p(2) assms(3) have *: "pq_unitID p = QuranUnitID E ?s (dq_ayahNumber ?d) (dq_role ?d) (dq_sourceID ?d)
      (dq_footnoteKey ?d) (dq_contentHash ?d) (pq_occurrence p)"
    and pr: "probe (\<lambda>n. env_uuid5 E (derived_name ?s ?d n)) (qn_ExistingIDs (QuranSnapshot db ?s)) [] 1 = Some (pq_occurrence p)"
    and one: "1 \<le> pq_occurrence p"
    by (simp_all add: planned_ok_def Let_def ident_name)
  from * show "pq_unitID p = env_uuid5 E (derived_name ?s ?d (pq_occurrence p))" by (simp add: ident_name)
  show "1 \<le> pq_occurrence p" by (rule one)
  have "pq_occurrence p \<le> int (length (surah_bindings db ?s)) + 1"
    using probe_bound [OF pr] derived_names_inj [OF run p(1)] by (simp add: snapshot_ids)
  with p(1) one show "derived_name ?s ?d (pq_occurrence p) \<in> reach_names db ?s derived"
    by (auto simp: reach_names_def)
qed

lemma fresh_id_new:
  assumes "planned_run E db source derived ps plan" "p \<in> set ps" "pq_matched p = None" "r \<in> set (qd_bindings db)"
  shows "pq_unitID p \<noteq> qb_UnitID (br_Binding r)"
proof
  let ?s = "qs_SurahID source" and ?d = "pq_derived p"
  assume same: "pq_unitID p = qb_UnitID (br_Binding r)"
  note run = planned_runD(1) [OF assms(1) refl] and p = planned_in [OF assms(1,2)]
  note reg = run_okD(1) [OF run] and f = fresh_name [OF assms(1-3)]
  from row_unit [OF reg assms(4)] obtain u where u: "unit_row db (qb_UnitID (br_Binding r)) = Some u"
    "u_ID u = qb_UnitID (br_Binding r)" "unit_fits E db (br_Binding r) u" "binding_plain (br_Binding r)" by blast
  have "env_uuid5 E (binding_name (br_Binding r) u) = env_uuid5 E (derived_name ?s ?d (pq_occurrence p))"
    using u(2,3) same f(1) by (simp add: unit_fits_def)
  moreover have "binding_name (br_Binding r) u \<in> reach_names db ?s derived"
    using assms(4) u(1) by (auto simp: reach_names_def)
  ultimately have "binding_name (br_Binding r) u = derived_name ?s ?d (pq_occurrence p)"
    using run_okD(4) [OF run] f(3) by (auto dest: inj_onD)
  then have "qb_SurahID (br_Binding r) = ?s"
    using u(4) p(3,4) plain_role_chars role_shape_plain
    by (simp add: binding_name_def derived_name_def quran_name_inject binding_plain_def unit_shape_def bar_free_def)
  then have "qb_UnitID (br_Binding r) \<in> set (qn_ExistingIDs (QuranSnapshot db ?s))"
    using assms(4) by (auto simp: snapshot_ids surah_bindings_def)
  with p(2) assms(3) same show False by (simp add: planned_ok_def Let_def)
qed

lemma fresh_ids_distinct:
  assumes "planned_run E db source derived ps plan" "p \<in> set ps" "q \<in> set ps"
    and "pq_matched p = None" "pq_matched q = None" "pq_unitID p = pq_unitID q"
  shows "p = q"
proof -
  let ?s = "qs_SurahID source"
  note run = planned_runD(1) [OF assms(1) refl]
  note p = planned_in [OF assms(1,2)] fresh_name [OF assms(1,2,4)]
  note q = planned_in [OF assms(1,3)] fresh_name [OF assms(1,3,5)]
  have "derived_name ?s (pq_derived p) (pq_occurrence p) = derived_name ?s (pq_derived q) (pq_occurrence q)"
    using run_okD(4) [OF run] p(5,7) q(5,7) assms(6) by (auto dest: inj_onD)
  then have "ident_of (pq_derived p) = ident_of (pq_derived q)"
    using p(3,4) q(3,4) plain_role_chars
    by (simp add: derived_name_def quran_name_inject unit_shape_def bar_free_def ident_of_def)
  then show "p = q" by (rule planned_unique(2) [OF assms(1-3)])
qed

lemma planned_id_cases:
  assumes "planned_run E db source derived ps plan" "p \<in> set ps"
  shows "(pq_matched p = None \<and> pq_unitID p \<notin> (qb_UnitID \<circ> br_Binding) ` set (qd_bindings db)) \<or>
    (pq_matched p \<noteq> None \<and> (\<exists>q\<in>set (surah_active db (qs_SurahID source)).
       pq_unitID p = qb_UnitID (br_Binding q) \<and> binding_ident (br_Binding q) = ident_of (pq_derived p)))"
proof (cases "pq_matched p")
  case None
  then show ?thesis using fresh_id_new [OF assms None] by auto
next
  case (Some r)
  from matched_row [OF assms Some] show ?thesis using Some by auto
qed

lemma planned_ids_distinct:
  assumes "planned_run E db source derived ps plan"
  shows "distinct (map pq_unitID ps)" "\<And>p q. p \<in> set ps \<Longrightarrow> q \<in> set ps \<Longrightarrow> pq_unitID p = pq_unitID q \<Longrightarrow> p = q"
proof -
  note reg = run_okD(1) [OF planned_runD(1) [OF assms refl]]
  show eq: "p = q" if p: "p \<in> set ps" and q: "q \<in> set ps" and i: "pq_unitID p = pq_unitID q" for p q
  proof (cases "pq_matched p = None")
    case True
    then have "pq_matched q = None"
      using planned_id_cases [OF assms p] planned_id_cases [OF assms q] i by (auto simp: surah_active_set)
    with True fresh_ids_distinct [OF assms p q] i show ?thesis by blast
  next
    case False
    with planned_id_cases [OF assms p] obtain a where a: "a \<in> set (qd_bindings db)" "pq_unitID p = qb_UnitID (br_Binding a)"
      "binding_ident (br_Binding a) = ident_of (pq_derived p)" by (auto simp: surah_active_set)
    have "pq_matched q \<noteq> None" using fresh_id_new [OF assms q _ a(1)] a(2) i by auto
    with planned_id_cases [OF assms q] obtain b where b: "b \<in> set (qd_bindings db)" "pq_unitID q = qb_UnitID (br_Binding b)"
      "binding_ident (br_Binding b) = ident_of (pq_derived q)" by (auto simp: surah_active_set)
    have "a = b" by (rule rows_by_id [OF reg a(1) b(1)]) (use a b i in simp)
    with a b planned_unique(2) [OF assms p q] show ?thesis by simp
  qed
  have "distinct ps" using planned_distinct(1) [OF assms] by (simp add: distinct_map)
  then show "distinct (map pq_unitID ps)" using eq by (auto simp: distinct_map inj_on_def)
qed

section \<open>Parents\<close>

lemma unitBySlot_in:
  assumes "planned_run E db source derived ps plan" "t \<in> set ps"
  shows "unitBySlot ps (slot_of (pq_derived t)) = Some (pq_unitID t)"
  unfolding unitBySlot_def
  by (rule map_of_is_SomeI) (use planned_distinct(2) [OF assms(1)] assms(2) in \<open>auto simp: comp_def\<close>)

lemma planned_parent:
  assumes "planned_run E db source derived ps plan" "p \<in> set ps"
  shows "if dq_role (pq_derived p) = QuranUnitRoleFootnote
    then \<exists>t\<in>set ps. parent_id ps p = Some (pq_unitID t) \<and> dq_role (pq_derived t) = QuranUnitRoleTranslation \<and>
      dq_ayahNumber (pq_derived t) = dq_ayahNumber (pq_derived p) \<and> dq_sourceID (pq_derived t) = dq_sourceID (pq_derived p) \<and>
      slot_of (pq_derived t) = dq_parentSlot (pq_derived p)
    else parent_id ps p = None"
proof (cases "dq_role (pq_derived p) = QuranUnitRoleFootnote")
  case True
  note pr = planned_runD [OF assms(1) refl] and p = planned_in [OF assms]
  from derived_parent [OF run_okD(2) [OF pr(1)] p(1) True] obtain d where d: "d \<in> set derived"
    "slot_of d = dq_parentSlot (pq_derived p)" "dq_role d = QuranUnitRoleTranslation"
    "dq_ayahNumber d = dq_ayahNumber (pq_derived p)" "dq_sourceID d = dq_sourceID (pq_derived p)" by blast
  then obtain t where t: "t \<in> set ps" "pq_derived t = d" using pr(2) by (metis image_iff list.set_map)
  have "dq_parentSlot (pq_derived p) \<noteq> ''''" using p(3) True by (simp add: unit_shape_def quranSlotKey_def)
  with unitBySlot_in [OF assms(1) t(1)] t d True show ?thesis by (auto simp: parent_id_def)
next
  case False
  then show ?thesis using planned_in(3) [OF assms] by (simp add: unit_shape_def parent_id_def)
qed

lemma derived_position_nonneg:
  assumes "derived_ok E us" "d \<in> set us"
  shows "0 \<le> dq_position d"
proof -
  have "positions_from 0 (filter (\<lambda>e. dq_ayahNumber e = dq_ayahNumber d) us)" using assms(1) by (simp add: derived_ok_def)
  from positions_low [OF this, of d] assms(2) show ?thesis by simp
qed

section \<open>Ordinals\<close>

lemma ordinals_above:
  "ordinals_from h ps \<Longrightarrow> p \<in> set (fresh_units ps) \<Longrightarrow> h (dq_ayahNumber (pq_derived p)) < pq_ordinal p"
proof (induction ps arbitrary: h)
  case (Cons q ps)
  show ?case
  proof (cases "pq_matched q = None")
    case True
    let ?n = "dq_ayahNumber (pq_derived q)"
    from Cons.prems True have q: "pq_ordinal q = h ?n + 1" "ordinals_from (h(?n := h ?n + 1)) ps" by (simp_all add: Let_def)
    show ?thesis
    proof (cases "p = q")
      case False
      with Cons.prems(2) True have "p \<in> set (fresh_units ps)" by (auto simp: fresh_units_def)
      from Cons.IH [OF q(2) this] show ?thesis by (auto split: if_splits)
    qed (simp add: q)
  next
    case False
    with Cons show ?thesis by (auto simp: fresh_units_def)
  qed
qed (simp add: fresh_units_def)

definition place_of :: "plannedQuranUnit \<Rightarrow> int \<times> int" where
  "place_of p = (dq_ayahNumber (pq_derived p), pq_ordinal p)"

lemma ordinals_distinct: "ordinals_from h ps \<Longrightarrow> distinct (map place_of (fresh_units ps))"
proof (induction ps arbitrary: h)
  case (Cons q ps)
  show ?case
  proof (cases "pq_matched q = None")
    case True
    let ?n = "dq_ayahNumber (pq_derived q)"
    from Cons.prems True have q: "pq_ordinal q = h ?n + 1" "ordinals_from (h(?n := h ?n + 1)) ps" by (simp_all add: Let_def)
    have "place_of q \<notin> place_of ` set (fresh_units ps)"
      using ordinals_above [OF q(2)] q(1) by (fastforce simp: place_of_def)
    with True Cons.IH [OF q(2)] show ?thesis by (simp add: fresh_units_def)
  next
    case False
    with Cons show ?thesis by (auto simp: fresh_units_def)
  qed
qed (simp add: fresh_units_def)

lemma fresh_ordinal:
  assumes "planned_run E db source derived ps plan" "p \<in> set (fresh_units ps)"
  shows "1 \<le> pq_ordinal p"
    "\<And>r. r \<in> set (qd_bindings db) \<Longrightarrow> (qs_SurahID source, dq_ayahNumber (pq_derived p), pq_ordinal p) \<noteq> binding_place (br_Binding r)"
proof -
  let ?s = "qs_SurahID source"
  note above = ordinals_above [OF planned_runD(4) [OF assms(1) refl] assms(2)]
  have "0 \<le> qn_MaxOrdinalByAyah (QuranSnapshot db ?s) (dq_ayahNumber (pq_derived p))"
    by (simp add: QuranSnapshot_def max_of_nonneg)
  with above show "1 \<le> pq_ordinal p" by simp
  show "(?s, dq_ayahNumber (pq_derived p), pq_ordinal p) \<noteq> binding_place (br_Binding r)" if "r \<in> set (qd_bindings db)" for r
    using snapshot_ordinal [OF that, of ?s] above by (auto simp: binding_place_def)
qed

end
