(* ===== verification/Quran_Retire.thy ===== *)
theory Quran_Retire
  imports Quran_Settle
begin

text \<open>
  The rows a plan retires: exactly the active rows of the surah that no derived unit kept, each
  once, superseded when its slot is derived again and tombstoned otherwise.
\<close>

lemma distinct_concat_units:
  assumes "distinct ps" "\<And>p. p \<in> set ps \<Longrightarrow> distinct (map k (f p))"
    and "\<And>p q x y. p \<in> set ps \<Longrightarrow> q \<in> set ps \<Longrightarrow> x \<in> set (f p) \<Longrightarrow> y \<in> set (f q) \<Longrightarrow> k x = k y \<Longrightarrow> p = q"
  shows "distinct (map k (concat (map f ps)))"
  using assms
proof (induction ps)
  case (Cons p ps)
  have "distinct (map k (concat (map f ps)))" by (rule Cons.IH) (use Cons.prems in auto)
  moreover have "k x \<noteq> k y" if "x \<in> set (f p)" "q \<in> set ps" "y \<in> set (f q)" for x y q
    using Cons.prems(1) Cons.prems(3) [of p q x y] that by auto
  ultimately show ?case using Cons.prems(2) [of p] by auto
qed simp

lemma superseded_set:
  "(r, p) \<in> set (superseded snap ps) \<longleftrightarrow> p \<in> set ps \<and> pq_matched p = None \<and> act snap (pq_derived p) = Some r"
  by (auto simp: superseded_def split: if_splits option.splits)

lemma superseded_row:
  assumes "planned_run E db source derived ps plan" "(r, p) \<in> set (superseded (QuranSnapshot db (qs_SurahID source)) ps)"
  shows "\<exists>q\<in>set (surah_active db (qs_SurahID source)). u_ID (qr_Unit r) = qb_UnitID (br_Binding q) \<and>
    quranBindingSlotKey (br_Binding q) = slot_of (pq_derived p)"
proof -
  note reg = run_okD(1) [OF planned_runD(1) [OF assms(1) refl]]
  from assms(2) have "act (QuranSnapshot db (qs_SurahID source)) (pq_derived p) = Some r" by (simp add: superseded_set)
  then obtain q where q: "q \<in> set (surah_active db (qs_SurahID source))" "r = record_of db q"
    "quranBindingSlotKey (br_Binding q) = slot_of (pq_derived p)" using snapshot_act [OF reg] by blast
  then have "u_ID (qr_Unit r) = qb_UnitID (br_Binding q)"
    using record_of_id [OF reg, of q] by (simp add: surah_active_set)
  with q show ?thesis by blast
qed

text \<open>The fate of an active row of the surah.\<close>

lemma active_fate:
  assumes "planned_run E db source derived ps plan" "q \<in> set (surah_active db (qs_SurahID source))"
  shows "(\<exists>p\<in>set ps. pq_matched p = Some (record_of db q) \<and> pq_unitID p = qb_UnitID (br_Binding q)) \<or>
    (\<exists>p. (record_of db q, p) \<in> set (superseded (QuranSnapshot db (qs_SurahID source)) ps)) \<or>
    record_of db q \<in> set (absent (map slot_of derived) (active_records db (qs_SurahID source)))"
proof (cases "quranBindingSlotKey (br_Binding q) \<in> slot_of ` set derived")
  case False
  then have "record_of db q \<in> set (absent (map slot_of derived) (active_records db (qs_SurahID source)))"
    using assms(2) by (simp add: absent_def active_records_set)
  then show ?thesis by blast
next
  case True
  let ?snap = "QuranSnapshot db (qs_SurahID source)"
  note pr = planned_runD [OF assms(1) refl]
  note reg = run_okD(1) [OF pr(1)]
  from True obtain p where p: "p \<in> set ps" "quranBindingSlotKey (br_Binding q) = slot_of (pq_derived p)"
    using pr(2) by auto
  have act: "act ?snap (pq_derived p) = Some (record_of db q)"
    using snapshot_act [OF reg] p(2) assms(2) by blast
  show ?thesis
  proof (cases "pq_matched p")
    case None
    then have "(record_of db q, p) \<in> set (superseded ?snap ps)" using act p(1) by (simp add: superseded_set)
    then show ?thesis by blast
  next
    case (Some r)
    then have "r = record_of db q" "pq_unitID p = u_ID (qr_Unit r)"
      using planned_in(2) [OF assms(1) p(1)] act by (simp_all add: planned_ok_def Let_def)
    moreover have "u_ID (qr_Unit (record_of db q)) = qb_UnitID (br_Binding q)"
      using record_of_id [OF reg, of q] assms(2) by (simp add: surah_active_set)
    ultimately show ?thesis using Some p(1) by auto
  qed
qed

definition retire_ids :: "QuranUnitReconcilePlan \<Rightarrow> string set" where
  "retire_ids plan = rt_ID ` set (qp_Retires plan)"

lemma plan_retires:
  assumes "planned_run E db source derived ps plan"
  shows "qp_Retires plan = map supersede_retire (superseded (QuranSnapshot db (qs_SurahID source)) ps) @
    map tombstone (absent (map slot_of derived) (active_records db (qs_SurahID source)))"
  using assms by (simp add: planned_run_def plan_form_def QuranSnapshot_def)

lemma absent_row:
  assumes "planned_run E db source derived ps plan"
    "r \<in> set (absent (map slot_of derived) (active_records db (qs_SurahID source)))"
  shows "\<exists>q\<in>set (surah_active db (qs_SurahID source)). u_ID (qr_Unit r) = qb_UnitID (br_Binding q) \<and>
    quranBindingSlotKey (br_Binding q) \<notin> slot_of ` set derived"
proof -
  note reg = run_okD(1) [OF planned_runD(1) [OF assms(1) refl]]
  from assms(2) obtain q where q: "q \<in> set (surah_active db (qs_SurahID source))" "r = record_of db q"
    "quranBindingSlotKey (br_Binding q) \<notin> slot_of ` set derived"
    by (auto simp: absent_def active_records_set)
  have "u_ID (qr_Unit r) = qb_UnitID (br_Binding q)"
    using record_of_id [OF reg, of q] q(1) unfolding q(2) by (simp add: surah_active_set)
  with q show ?thesis by blast
qed

lemma active_by_id:
  assumes "registry_ok E db" "q \<in> set (surah_active db s)" "q' \<in> set (surah_active db s)"
    "qb_UnitID (br_Binding q) = qb_UnitID (br_Binding q')"
  shows "q = q'"
  using rows_by_id [OF assms(1)] assms(2-4) by (simp add: surah_active_set)

lemma kept_row:
  assumes "planned_run E db source derived ps plan" "p \<in> set ps" "q \<in> set (surah_active db (qs_SurahID source))"
    "pq_unitID p = qb_UnitID (br_Binding q)"
  shows "pq_matched p \<noteq> None \<and> binding_ident (br_Binding q) = ident_of (pq_derived p)"
proof (cases "pq_matched p")
  case None
  then show ?thesis using fresh_id_new [OF assms(1,2) None, of q] assms(3,4) by (simp add: surah_active_set)
next
  case (Some r)
  note reg = run_okD(1) [OF planned_runD(1) [OF assms(1) refl]]
  from matched_row [OF assms(1,2) Some] obtain q' where
    q': "q' \<in> set (surah_active db (qs_SurahID source))" "binding_ident (br_Binding q') = ident_of (pq_derived p)"
    "pq_unitID p = qb_UnitID (br_Binding q')" by (elim exE conjE)
  have "q' = q" by (rule active_by_id [OF reg q'(1) assms(3)]) (use q'(3) assms(4) in simp)
  with q' Some show ?thesis by simp
qed

lemma kept_slot:
  assumes "planned_run E db source derived ps plan" "p \<in> set ps" "q \<in> set (surah_active db (qs_SurahID source))"
    "pq_unitID p = qb_UnitID (br_Binding q)"
  shows "quranBindingSlotKey (br_Binding q) = slot_of (pq_derived p)"
proof -
  note reg = run_okD(1) [OF planned_runD(1) [OF assms(1) refl]]
  have "q \<in> set (qd_bindings db)" using assms(3) by (simp add: surah_active_set)
  from slot_binding [OF row_plain [OF reg this] planned_in(3) [OF assms(1,2)]] kept_row [OF assms]
  show ?thesis by simp
qed

text \<open>A row the plan retires is active and no planned unit carries its identifier.\<close>

lemma retired_row:
  assumes "planned_run E db source derived ps plan" "i \<in> retire_ids plan"
  shows "\<exists>q\<in>set (surah_active db (qs_SurahID source)). i = qb_UnitID (br_Binding q) \<and>
    (\<forall>p\<in>set ps. pq_unitID p \<noteq> i)"
proof -
  let ?s = "qs_SurahID source"
  from assms(2) consider
      r p where "(r, p) \<in> set (superseded (QuranSnapshot db ?s) ps)" "i = u_ID (qr_Unit r)"
    | r where "r \<in> set (absent (map slot_of derived) (active_records db ?s))" "i = u_ID (qr_Unit r)"
    by (auto simp: retire_ids_def plan_retires [OF assms(1)] supersede_retire_def tombstone_def)
  then show ?thesis
  proof cases
    case 1
    from superseded_row [OF assms(1) 1(1)] obtain q where q: "q \<in> set (surah_active db ?s)"
      "u_ID (qr_Unit r) = qb_UnitID (br_Binding q)" "quranBindingSlotKey (br_Binding q) = slot_of (pq_derived p)"
      by (elim bexE conjE)
    have p: "p \<in> set ps" "pq_matched p = None" using 1(1) by (simp_all add: superseded_set)
    have "pq_unitID p' \<noteq> i" if p': "p' \<in> set ps" for p'
    proof
      assume "pq_unitID p' = i"
      then have i: "pq_unitID p' = qb_UnitID (br_Binding q)" using 1(2) q(2) by simp
      have "slot_of (pq_derived p') = slot_of (pq_derived p)" using kept_slot [OF assms(1) p' q(1) i] q(3) by simp
      from planned_unique(1) [OF assms(1) p' p(1) this] kept_row [OF assms(1) p' q(1) i] p(2) show False by simp
    qed
    then show ?thesis using q(1,2) 1(2) by (intro bexI [of _ q]) simp_all
  next
    case 2
    from absent_row [OF assms(1) 2(1)] obtain q where q: "q \<in> set (surah_active db ?s)"
      "u_ID (qr_Unit r) = qb_UnitID (br_Binding q)" "quranBindingSlotKey (br_Binding q) \<notin> slot_of ` set derived"
      by (elim bexE conjE)
    have "pq_unitID p \<noteq> i" if "p \<in> set ps" for p
    proof
      assume "pq_unitID p = i"
      then have "pq_unitID p = qb_UnitID (br_Binding q)" using 2(2) q(2) by simp
      from kept_slot [OF assms(1) that q(1) this] q(3) planned_in(1) [OF assms(1) that] show False by simp
    qed
    then show ?thesis using q(1,2) 2(2) by (intro bexI [of _ q]) simp_all
  qed
qed

lemma retire_ids_iff:
  assumes "planned_run E db source derived ps plan" "q \<in> set (surah_active db (qs_SurahID source))"
  shows "qb_UnitID (br_Binding q) \<in> retire_ids plan \<longleftrightarrow> (\<forall>p\<in>set ps. pq_unitID p \<noteq> qb_UnitID (br_Binding q))"
proof
  assume "qb_UnitID (br_Binding q) \<in> retire_ids plan"
  from retired_row [OF assms(1) this] show "\<forall>p\<in>set ps. pq_unitID p \<noteq> qb_UnitID (br_Binding q)" by blast
next
  note reg = run_okD(1) [OF planned_runD(1) [OF assms(1) refl]]
  assume "\<forall>p\<in>set ps. pq_unitID p \<noteq> qb_UnitID (br_Binding q)"
  with active_fate [OF assms] have "(\<exists>p. (record_of db q, p) \<in> set (superseded (QuranSnapshot db (qs_SurahID source)) ps)) \<or>
    record_of db q \<in> set (absent (map slot_of derived) (active_records db (qs_SurahID source)))" by auto
  moreover have "u_ID (qr_Unit (record_of db q)) = qb_UnitID (br_Binding q)"
    using record_of_id [OF reg, of q] assms(2) by (simp add: surah_active_set)
  ultimately show "qb_UnitID (br_Binding q) \<in> retire_ids plan"
    by (force simp: retire_ids_def plan_retires [OF assms(1)] image_iff supersede_retire_def tombstone_def)
qed

section \<open>Identifiers of the retirements and of the edges\<close>

lemma superseded_ids_distinct:
  assumes "planned_run E db source derived ps plan"
  shows "distinct (map (\<lambda>x. u_ID (qr_Unit (fst x))) (superseded (QuranSnapshot db (qs_SurahID source)) ps))"
  unfolding superseded_def
proof (rule distinct_concat_units)
  let ?s = "qs_SurahID source"
  let ?f = "\<lambda>p. if pq_matched p \<noteq> None then [] else case act (QuranSnapshot db ?s) (pq_derived p) of
    None \<Rightarrow> [] | Some r \<Rightarrow> [(r, p)]"
  note reg = run_okD(1) [OF planned_runD(1) [OF assms refl]]
  show "distinct ps" using planned_distinct(1) [OF assms] by (simp add: distinct_map)
  show "distinct (map (\<lambda>x. u_ID (qr_Unit (fst x))) (?f p))" if "p \<in> set ps" for p
    by (simp split: option.split)
  fix p q x y
  assume p: "p \<in> set ps" and q: "q \<in> set ps" and x: "x \<in> set (?f p)" and y: "y \<in> set (?f q)"
    and same: "u_ID (qr_Unit (fst x)) = u_ID (qr_Unit (fst y))"
  have x': "snd x = p" "(fst x, p) \<in> set (superseded (QuranSnapshot db ?s) ps)"
    using x p by (auto simp: superseded_set split: if_splits option.splits)
  have y': "snd y = q" "(fst y, q) \<in> set (superseded (QuranSnapshot db ?s) ps)"
    using y q by (auto simp: superseded_set split: if_splits option.splits)
  from superseded_row [OF assms x'(2)] obtain a where a: "a \<in> set (surah_active db ?s)"
    "u_ID (qr_Unit (fst x)) = qb_UnitID (br_Binding a)" "quranBindingSlotKey (br_Binding a) = slot_of (pq_derived p)"
    by (elim bexE conjE)
  from superseded_row [OF assms y'(2)] obtain b where b: "b \<in> set (surah_active db ?s)"
    "u_ID (qr_Unit (fst y)) = qb_UnitID (br_Binding b)" "quranBindingSlotKey (br_Binding b) = slot_of (pq_derived q)"
    by (elim bexE conjE)
  have "a = b" by (rule active_by_id [OF reg a(1) b(1)]) (use a(2) b(2) same in simp)
  then show "p = q" using planned_unique(1) [OF assms p q] a(3) b(3) by simp
qed

lemma active_ids_distinct:
  assumes "registry_ok E db"
  shows "distinct (map (\<lambda>r. u_ID (qr_Unit r)) (active_records db s))"
proof -
  have "distinct (map (qb_UnitID \<circ> br_Binding) (surah_active db s))"
    using registry_okD(4) [OF assms] by (simp add: surah_active_def surah_bindings_def distinct_map_filter)
  moreover have "map (\<lambda>r. u_ID (qr_Unit r)) (map (record_of db) (surah_active db s)) =
      map (qb_UnitID \<circ> br_Binding) (surah_active db s)"
    using record_of_id [OF assms] by (simp add: surah_active_set)
  moreover have "mset (map (\<lambda>r. u_ID (qr_Unit r)) (active_records db s)) =
      mset (map (\<lambda>r. u_ID (qr_Unit r)) (map (record_of db) (surah_active db s)))"
    by (simp only: mset_map active_records_mset)
  ultimately show ?thesis by (metis mset_eq_imp_distinct_iff)
qed

lemma retires_distinct:
  assumes "planned_run E db source derived ps plan"
  shows "distinct (map rt_ID (qp_Retires plan))"
proof -
  let ?s = "qs_SurahID source"
  let ?sup = "superseded (QuranSnapshot db ?s) ps" and ?abs = "absent (map slot_of derived) (active_records db ?s)"
  note reg = run_okD(1) [OF planned_runD(1) [OF assms refl]]
  have ids: "map rt_ID (qp_Retires plan) = map (\<lambda>x. u_ID (qr_Unit (fst x))) ?sup @ map (\<lambda>r. u_ID (qr_Unit r)) ?abs"
    by (simp add: plan_retires [OF assms] supersede_retire_def tombstone_def)
  have "distinct (map (\<lambda>r. u_ID (qr_Unit r)) ?abs)"
    using active_ids_distinct [OF reg] by (simp add: absent_def distinct_map_filter)
  moreover have "u_ID (qr_Unit (fst x)) \<noteq> u_ID (qr_Unit r)" if x: "x \<in> set ?sup" and r: "r \<in> set ?abs" for x r
  proof
    assume same: "u_ID (qr_Unit (fst x)) = u_ID (qr_Unit r)"
    from x have x': "(fst x, snd x) \<in> set ?sup" by simp
    from superseded_row [OF assms x'] obtain a where a: "a \<in> set (surah_active db ?s)"
      "u_ID (qr_Unit (fst x)) = qb_UnitID (br_Binding a)" "quranBindingSlotKey (br_Binding a) = slot_of (pq_derived (snd x))"
      by (elim bexE conjE)
    from absent_row [OF assms r] obtain b where b: "b \<in> set (surah_active db ?s)"
      "u_ID (qr_Unit r) = qb_UnitID (br_Binding b)" "quranBindingSlotKey (br_Binding b) \<notin> slot_of ` set derived"
      by (elim bexE conjE)
    have "a = b" by (rule active_by_id [OF reg a(1) b(1)]) (use a(2) b(2) same in simp)
    moreover have "pq_derived (snd x) \<in> set derived"
      using x' planned_in(1) [OF assms, of "snd x"] superseded_set [of "fst x" "snd x"] by simp
    ultimately show False using a(3) b(3) by simp
  qed
  ultimately show ?thesis unfolding ids using superseded_ids_distinct [OF assms] by auto
qed

lemma retire_active:
  assumes "planned_run E db source derived ps plan" "rt \<in> set (qp_Retires plan)"
  shows "is_active db (rt_ID rt)" "rt_Lifecycle rt \<noteq> UnitLifecycleActive"
proof -
  from assms(2) have "rt_ID rt \<in> retire_ids plan" by (simp add: retire_ids_def)
  from retired_row [OF assms(1) this] show "is_active db (rt_ID rt)" by (auto simp: surah_active_set row_active_def)
  from assms(2) show "rt_Lifecycle rt \<noteq> UnitLifecycleActive"
    by (auto simp: plan_retires [OF assms(1)] supersede_retire_def tombstone_def UnitLifecycleActive_def
        UnitLifecycleSuperseded_def UnitLifecycleTombstoned_def)
qed

lemma plan_edges:
  assumes "planned_run E db source derived ps plan"
  shows "qp_Edges plan = map supersede_edge (superseded (QuranSnapshot db (qs_SurahID source)) ps)"
  using assms by (simp add: planned_run_def plan_form_def)

lemma edges_distinct:
  assumes "planned_run E db source derived ps plan"
  shows "distinct (map e_PredecessorID (qp_Edges plan))"
  using superseded_ids_distinct [OF assms] by (simp add: plan_edges [OF assms] supersede_edge_def comp_def)

lemma edge_ends:
  assumes "planned_run E db source derived ps plan" "e \<in> set (qp_Edges plan)"
  shows "e_PredecessorID e \<in> retire_ids plan"
    "\<exists>p\<in>set ps. e_SuccessorID e = pq_unitID p \<and> pq_matched p = None"
proof -
  from assms(2) obtain x where x: "x \<in> set (superseded (QuranSnapshot db (qs_SurahID source)) ps)" "e = supersede_edge x"
    by (auto simp: plan_edges [OF assms(1)])
  then show "e_PredecessorID e \<in> retire_ids plan"
    by (force simp: retire_ids_def plan_retires [OF assms(1)] supersede_edge_def supersede_retire_def image_iff)
  from x have "snd x \<in> set ps" "pq_matched (snd x) = None"
    using superseded_set [of "fst x" "snd x"] by simp_all
  with x(2) show "\<exists>p\<in>set ps. e_SuccessorID e = pq_unitID p \<and> pq_matched p = None"
    by (auto simp: supersede_edge_def)
qed

end
