(* ===== verification/Quran_After.thy ===== *)
theory Quran_After
  imports Quran_Retire
begin

text \<open>
  The batch of a plan made from a snapshot of tables in the invariant: no statement fails, and the
  tables after it in closed form.
\<close>

section \<open>The minted units\<close>

definition mint_order :: "QuranUnitMint list \<Rightarrow> QuranUnitMint list" where
  "mint_order ms = filter (\<lambda>m. u_ParentUnitID (qm_Unit m) = None) ms @ filter (\<lambda>m. u_ParentUnitID (qm_Unit m) \<noteq> None) ms"

lemma mset_mint_order: "mset (mint_order ms) = mset ms"
proof -
  have "filter_mset (\<lambda>m. u_ParentUnitID (qm_Unit m) = None) (mset ms) +
      filter_mset (\<lambda>m. \<not> u_ParentUnitID (qm_Unit m) = None) (mset ms) = mset ms"
    by (rule multiset_partition [symmetric])
  then show ?thesis by (simp add: mint_order_def)
qed

lemma set_mint_order [simp]: "set (mint_order ms) = set ms"
  by (metis mset_mint_order set_mset_mset)

lemma distinct_mint_order: "distinct (map f (mint_order ms)) \<longleftrightarrow> distinct (map f ms)"
  by (metis mset_map mset_mint_order mset_eq_imp_distinct_iff)

lemma plan_mints:
  assumes "planned_run E db source derived ps plan"
  shows "qp_Mints plan = map (\<lambda>p. mintQuranUnit E (qs_SurahID source) p (parent_id ps p)) (fresh_units ps)"
    "qp_Updates plan = map (\<lambda>p. quran_update p (parent_id ps p)) (moved_units ps ps)"
  using assms by (simp_all add: planned_run_def plan_form_def)

lemma fresh_set: "p \<in> set (fresh_units ps) \<longleftrightarrow> p \<in> set ps \<and> pq_matched p = None"
  by (auto simp: fresh_units_def)

lemma mint_sel [simp]:
  "u_ID (qm_Unit (mintQuranUnit E s p i)) = pq_unitID p" "u_ParentUnitID (qm_Unit (mintQuranUnit E s p i)) = i"
  "u_Anchor (qm_Unit (mintQuranUnit E s p i)) = QuranAnchorFor s (dq_ayahNumber (pq_derived p)) (pq_ordinal p)"
  "u_Kind (qm_Unit (mintQuranUnit E s p i)) = dq_kind (pq_derived p)"
  "u_Text (qm_Unit (mintQuranUnit E s p i)) = dq_text (pq_derived p)"
  "u_ContentHash (qm_Unit (mintQuranUnit E s p i)) = dq_contentHash (pq_derived p)"
  "u_Occurrence (qm_Unit (mintQuranUnit E s p i)) = pq_occurrence p"
  "u_Ordinal (qm_Unit (mintQuranUnit E s p i)) = pq_ordinal p"
  "u_Position (qm_Unit (mintQuranUnit E s p i)) = dq_position (pq_derived p)"
  "u_PageID (qm_Unit (mintQuranUnit E s p i)) = dq_pageNumber (pq_derived p)"
  "u_Corpus (qm_Unit (mintQuranUnit E s p i)) = UnitCorpusQuran"
  "qb_UnitID (qm_Binding (mintQuranUnit E s p i)) = pq_unitID p"
  "qb_SurahID (qm_Binding (mintQuranUnit E s p i)) = s"
  "qb_AyahNumber (qm_Binding (mintQuranUnit E s p i)) = dq_ayahNumber (pq_derived p)"
  "qb_Ordinal (qm_Binding (mintQuranUnit E s p i)) = pq_ordinal p"
  "qb_Role (qm_Binding (mintQuranUnit E s p i)) = dq_role (pq_derived p)"
  "qb_SourceUpdatedAt (qm_Binding (mintQuranUnit E s p i)) = dq_sourceUpdatedAt (pq_derived p)"
  by (simp_all add: mintQuranUnit_def Let_def)

lemma kind_shape:
  assumes "unit_shape E d"
  shows "dq_kind d = role_kind (dq_role d)" "dq_kind d \<noteq> UnitKindQuranQuote"
    "dq_kind d = UnitKindFootnote \<longleftrightarrow> dq_role d = QuranUnitRoleFootnote"
  using assms by (auto simp: unit_shape_def plain_role_def role_kind_def quran_roles UnitKindFootnote_def UnitKindQuranQuote_def)

lemma parent_role:
  assumes "planned_run E db source derived ps plan" "p \<in> set ps"
  shows "parent_id ps p \<noteq> None \<longleftrightarrow> dq_role (pq_derived p) = QuranUnitRoleFootnote"
  using planned_parent [OF assms] by (auto split: if_splits)

lemma planned_shape:
  assumes "planned_run E db source derived ps plan" "p \<in> set ps" "u_Kind u = dq_kind (pq_derived p)"
  shows "parent_shape (u\<lparr>u_ParentUnitID := parent_id ps p\<rparr>)"
  using kind_shape [OF planned_in(3) [OF assms(1,2)]] parent_role [OF assms(1,2)] assms(3)
  by (auto simp: parent_shape_def)

lemma mint_insertable:
  assumes "planned_run E db source derived ps plan" "p \<in> set (fresh_units ps)"
  shows "insertable (qm_Unit (mintQuranUnit E (qs_SurahID source) p (parent_id ps p)))"
proof -
  let ?u = "qm_Unit (mintQuranUnit E (qs_SurahID source) p (parent_id ps p))"
  have p: "p \<in> set ps" "pq_matched p = None" using assms(2) by (simp_all add: fresh_set)
  have "parent_shape ((?u\<lparr>u_Lifecycle := UnitLifecycleActive\<rparr>)\<lparr>u_ParentUnitID := parent_id ps p\<rparr>)"
    by (rule planned_shape [OF assms(1) p(1)]) simp
  moreover have "(?u\<lparr>u_Lifecycle := UnitLifecycleActive\<rparr>)\<lparr>u_ParentUnitID := parent_id ps p\<rparr> = ?u\<lparr>u_Lifecycle := UnitLifecycleActive\<rparr>"
    by (simp add: mintQuranUnit_def Let_def)
  moreover have "dq_text (pq_derived p) \<noteq> ''''" using planned_in(3) [OF assms(1) p(1)] by (simp add: unit_shape_def)
  moreover have "0 \<le> dq_position (pq_derived p)"
    using derived_position_nonneg run_okD(2) planned_runD(1) [OF assms(1) refl] planned_in(1) [OF assms(1) p(1)] by blast
  ultimately show ?thesis
    using fresh_ordinal(1) [OF assms] fresh_name(2) [OF assms(1) p] by (simp add: insertable_def)
qed

section \<open>Identifiers, anchors and places after the inserts\<close>

lemma minted_ids:
  assumes "planned_run E db source derived ps plan"
  shows "distinct (map u_ID (qd_units db) @ map (u_ID \<circ> qm_Unit) (qp_Mints plan))"
    "distinct (map (qb_UnitID \<circ> br_Binding) (qd_bindings db) @ map (qb_UnitID \<circ> qm_Binding) (qp_Mints plan))"
proof -
  note reg = run_okD(1) [OF planned_runD(1) [OF assms refl]]
  have ids: "map (u_ID \<circ> qm_Unit) (qp_Mints plan) = map pq_unitID (fresh_units ps)"
    "map (qb_UnitID \<circ> qm_Binding) (qp_Mints plan) = map pq_unitID (fresh_units ps)"
    by (simp_all add: plan_mints [OF assms])
  have "distinct (map pq_unitID (fresh_units ps))"
    using planned_ids_distinct(1) [OF assms] by (simp add: fresh_units_def distinct_map_filter)
  moreover have "(qb_UnitID \<circ> br_Binding) ` set (qd_bindings db) \<inter> pq_unitID ` set (fresh_units ps) = {}"
    using fresh_id_new [OF assms] by (force simp: fresh_set)
  ultimately show "distinct (map (qb_UnitID \<circ> br_Binding) (qd_bindings db) @ map (qb_UnitID \<circ> qm_Binding) (qp_Mints plan))"
    "distinct (map u_ID (qd_units db) @ map (u_ID \<circ> qm_Unit) (qp_Mints plan))"
    unfolding ids distinct_append set_map using registry_okD(1,3,4) [OF reg] by simp_all
qed

lemma unit_anchor:
  assumes "registry_ok E db" "u \<in> set (qd_units db)"
  shows "\<exists>r\<in>set (qd_bindings db). u_ID u = qb_UnitID (br_Binding r) \<and>
    u_Anchor u = QuranAnchorFor (qb_SurahID (br_Binding r)) (qb_AyahNumber (br_Binding r)) (qb_Ordinal (br_Binding r))"
proof -
  from registry_okD(3) [OF assms(1)] assms(2) obtain r where r: "r \<in> set (qd_bindings db)" "u_ID u = qb_UnitID (br_Binding r)"
    by (metis (no_types, lifting) comp_apply image_iff)
  obtain v where v: "unit_row db (qb_UnitID (br_Binding r)) = Some v" "unit_fits E db (br_Binding r) v"
    using row_unit [OF assms(1) r(1)] .
  have "v = u" using find_unit_in [OF registry_okD(1) [OF assms(1)] assms(2)] v(1) r(2) by (simp add: unit_row_find)
  with v(2) r show ?thesis by (intro bexI [of _ r]) (simp_all add: unit_fits_def)
qed

lemma minted_places:
  assumes "planned_run E db source derived ps plan"
  shows "distinct (map u_Anchor (qd_units db) @ map (u_Anchor \<circ> qm_Unit) (qp_Mints plan))"
    "distinct (map (binding_place \<circ> br_Binding) (qd_bindings db) @ map (binding_place \<circ> qm_Binding) (qp_Mints plan))"
proof -
  let ?s = "qs_SurahID source"
  note pr = planned_runD [OF assms refl]
  note reg = run_okD(1) [OF pr(1)]
  have dist: "distinct (map place_of (fresh_units ps))" by (rule ordinals_distinct [OF pr(4)])
  then have inj: "inj_on place_of (set (fresh_units ps))" "distinct (fresh_units ps)" by (simp_all add: distinct_map)
  note new = fresh_ordinal(2) [OF assms]
  let ?anchor = "\<lambda>p. QuranAnchorFor ?s (dq_ayahNumber (pq_derived p)) (pq_ordinal p)"
  let ?place = "\<lambda>p. (?s, dq_ayahNumber (pq_derived p), pq_ordinal p)"
  have maps: "map (u_Anchor \<circ> qm_Unit) (qp_Mints plan) = map ?anchor (fresh_units ps)"
    "map (binding_place \<circ> qm_Binding) (qp_Mints plan) = map ?place (fresh_units ps)"
    by (simp_all add: plan_mints [OF assms] binding_place_def)
  have "distinct (map ?anchor (fresh_units ps))" "distinct (map ?place (fresh_units ps))"
    using inj by (auto simp: distinct_map inj_on_def place_of_def QuranAnchorFor_inject)
  moreover have "?anchor p \<noteq> u_Anchor u" if p: "p \<in> set (fresh_units ps)" and u: "u \<in> set (qd_units db)" for p u
  proof -
    from unit_anchor [OF reg u] obtain r where r: "r \<in> set (qd_bindings db)"
      "u_Anchor u = QuranAnchorFor (qb_SurahID (br_Binding r)) (qb_AyahNumber (br_Binding r)) (qb_Ordinal (br_Binding r))"
      by (elim bexE conjE)
    from new [OF p r(1)] show ?thesis unfolding r(2) QuranAnchorFor_inject by (simp add: binding_place_def)
  qed
  moreover have "?place p \<noteq> binding_place (br_Binding r)" if "p \<in> set (fresh_units ps)" "r \<in> set (qd_bindings db)" for p r
    using new [OF that] .
  ultimately show "distinct (map u_Anchor (qd_units db) @ map (u_Anchor \<circ> qm_Unit) (qp_Mints plan))"
    "distinct (map (binding_place \<circ> br_Binding) (qd_bindings db) @ map (binding_place \<circ> qm_Binding) (qp_Mints plan))"
    unfolding maps using registry_okD(2,5) [OF reg] by (auto simp del: comp_apply) fastforce+
qed

section \<open>Inserts\<close>

definition after_mints :: "quran_db \<Rightarrow> QuranUnitReconcilePlan \<Rightarrow> quran_db" where
  "after_mints db plan = db\<lparr>
     qd_units := qd_units db @ map (stored_unit db) (map qm_Unit (mint_order (qp_Mints plan))),
     qd_bindings := qd_bindings db @ map (bound_row db) (map qm_Binding (qp_Mints plan))\<rparr>"

lemma unit_row_old:
  "unit_row db i = Some u \<Longrightarrow> unit_row (after_mints db plan) i = Some u"
  by (simp add: after_mints_def unit_row_find find_unit_append)

lemma after_mints_ids:
  assumes "planned_run E db source derived ps plan"
  shows "distinct (map u_ID (qd_units (after_mints db plan)))"
    "distinct (map (qb_UnitID \<circ> br_Binding) (qd_bindings (after_mints db plan)))"
proof -
  have "distinct (map u_ID (qd_units db) @ map (u_ID \<circ> qm_Unit) (mint_order (qp_Mints plan)))"
    using minted_ids(1) [OF assms] distinct_mint_order [of "u_ID \<circ> qm_Unit" "qp_Mints plan"]
    unfolding distinct_append set_map set_mint_order by blast
  then show "distinct (map u_ID (qd_units (after_mints db plan)))"
    by (simp add: after_mints_def comp_def)
  show "distinct (map (qb_UnitID \<circ> br_Binding) (qd_bindings (after_mints db plan)))"
    using minted_ids(2) [OF assms] by (simp add: after_mints_def bound_row_def comp_def)
qed

lemma fresh_row:
  assumes "planned_run E db source derived ps plan" "p \<in> set ps" "pq_matched p = None"
  shows "unit_row (after_mints db plan) (pq_unitID p) =
      Some (stored_unit db (qm_Unit (mintQuranUnit E (qs_SurahID source) p (parent_id ps p))))"
    "bound_row db (qm_Binding (mintQuranUnit E (qs_SurahID source) p (parent_id ps p))) \<in> set (qd_bindings (after_mints db plan))"
proof -
  let ?m = "mintQuranUnit E (qs_SurahID source) p (parent_id ps p)"
  have m: "?m \<in> set (qp_Mints plan)" using assms(2,3) by (auto simp: plan_mints [OF assms(1)] fresh_set)
  then have "stored_unit db (qm_Unit ?m) \<in> set (qd_units (after_mints db plan))" by (auto simp: after_mints_def)
  from find_unit_in [OF after_mints_ids(1) [OF assms(1)] this]
  show "unit_row (after_mints db plan) (pq_unitID p) = Some (stored_unit db (qm_Unit ?m))"
    by (simp add: unit_row_find)
  show "bound_row db (qm_Binding ?m) \<in> set (qd_bindings (after_mints db plan))"
    using m by (auto simp: after_mints_def)
qed

lemma planned_known:
  assumes "planned_run E db source derived ps plan" "p \<in> set ps"
  shows "unit_row (after_mints db plan) (pq_unitID p) \<noteq> None"
proof (cases "pq_matched p")
  case None
  then show ?thesis using fresh_row(1) [OF assms] by simp
next
  case (Some r)
  from matched_row [OF assms Some] obtain u where "unit_row db (pq_unitID p) = Some u" by (elim exE conjE)
  from unit_row_old [OF this] show ?thesis by simp
qed

lemma parents_known:
  assumes "planned_run E db source derived ps plan" "p \<in> set ps"
  shows "parent_known (after_mints db plan) (parent_id ps p)"
proof (cases "parent_id ps p")
  case (Some i)
  with planned_parent [OF assms] obtain t where "t \<in> set ps" "i = pq_unitID t" by (auto split: if_splits)
  with planned_known [OF assms(1), of t] Some show ?thesis by (simp add: parent_known_def)
qed (simp add: parent_known_def)

text \<open>A parent is a translation, so it is stored before the units below it.\<close>

lemma parent_inserted:
  assumes "planned_run E db source derived ps plan" "p \<in> set ps"
    and "units = qd_units db @ map (stored_unit db) (map qm_Unit (filter (\<lambda>m. u_ParentUnitID (qm_Unit m) = None) (qp_Mints plan)))"
  shows "parent_known (db\<lparr>qd_units := units\<rparr>) (parent_id ps p)"
proof (cases "parent_id ps p")
  case (Some i)
  with planned_parent [OF assms(1,2)] obtain t where t: "t \<in> set ps" "i = pq_unitID t"
    "dq_role (pq_derived t) = QuranUnitRoleTranslation" by (auto split: if_splits)
  have "i \<in> u_ID ` set units"
  proof (cases "pq_matched t")
    case None
    let ?m = "mintQuranUnit E (qs_SurahID source) t (parent_id ps t)"
    have "parent_id ps t = None" using planned_parent [OF assms(1) t(1)] t(3) by simp
    moreover have "?m \<in> set (qp_Mints plan)" using None t(1) by (auto simp: plan_mints [OF assms(1)] fresh_set)
    ultimately have "stored_unit db (qm_Unit ?m) \<in> set units" unfolding assms(3) by auto
    from imageI [OF this, of u_ID] show ?thesis using t(2) by simp
  next
    case (Some r)
    from matched_row [OF assms(1) t(1) Some] obtain u where "unit_row db (pq_unitID t) = Some u" by (elim exE conjE)
    from unit_row_id [OF this] t(2) show ?thesis unfolding assms(3) by (auto intro!: rev_image_eqI [of u])
  qed
  with Some show ?thesis by (simp add: parent_known_def unit_row_find find_unit_None)
qed (simp add: parent_known_def)

lemma run_mint_inserts:
  assumes "planned_run E db source derived ps plan"
  shows "run_batch (map InsertUnit (map qm_Unit (mint_order (qp_Mints plan)))) db =
    Inr (db\<lparr>qd_units := qd_units db @ map (stored_unit db) (map qm_Unit (mint_order (qp_Mints plan)))\<rparr>)"
proof -
  let ?s = "qs_SurahID source"
  let ?as = "map qm_Unit (filter (\<lambda>m. u_ParentUnitID (qm_Unit m) = None) (qp_Mints plan))"
  let ?bs = "map qm_Unit (filter (\<lambda>m. u_ParentUnitID (qm_Unit m) \<noteq> None) (qp_Mints plan))"
  let ?db = "db\<lparr>qd_units := qd_units db @ map (stored_unit db) ?as\<rparr>"
  have order: "map qm_Unit (mint_order (qp_Mints plan)) = ?as @ ?bs" by (simp add: mint_order_def)
  have mint: "\<exists>p\<in>set (fresh_units ps). u = qm_Unit (mintQuranUnit E ?s p (parent_id ps p))" if "u \<in> set (?as @ ?bs)" for u
    using that by (auto simp: plan_mints [OF assms])
  have ok: "list_all insertable ?as" "list_all insertable ?bs"
    using mint mint_insertable [OF assms] unfolding list_all_iff set_append by blast+
  have ids: "distinct (map u_ID (qd_units db) @ map u_ID (?as @ ?bs))"
    using minted_ids(1) [OF assms] distinct_mint_order [of "u_ID \<circ> qm_Unit" "qp_Mints plan"]
    unfolding order [symmetric] map_map distinct_append set_map set_mint_order by blast
  have anchors: "distinct (map u_Anchor (qd_units db) @ map u_Anchor (?as @ ?bs))"
    using minted_places(1) [OF assms] distinct_mint_order [of "u_Anchor \<circ> qm_Unit" "qp_Mints plan"]
    unfolding order [symmetric] map_map distinct_append set_map set_mint_order by blast
  have first: "run_batch (map InsertUnit ?as) db = Inr ?db"
  proof (rule run_inserts)
    show "\<forall>u\<in>set ?as. parent_known db (u_ParentUnitID u)" by (simp add: parent_known_def)
  qed (use ids anchors ok in auto)
  have st: "stored_unit ?db = stored_unit db" by (rule ext) (simp add: stored_unit_def)
  have "run_batch (map InsertUnit ?bs) ?db = Inr (?db\<lparr>qd_units := qd_units ?db @ map (stored_unit ?db) ?bs\<rparr>)"
  proof (rule run_inserts)
    show "\<forall>u\<in>set ?bs. parent_known ?db (u_ParentUnitID u)"
    proof
      fix u assume "u \<in> set ?bs"
      with mint [of u] obtain p where p: "p \<in> set ps" "u = qm_Unit (mintQuranUnit E ?s p (parent_id ps p))"
        by (auto simp: fresh_set)
      with parent_inserted [OF assms p(1) refl] show "parent_known ?db (u_ParentUnitID u)" by simp
    qed
  qed (use ids anchors ok in \<open>auto simp: comp_def\<close>)
  with first st show ?thesis unfolding order by (simp add: run_batch_append)
qed

section \<open>Bindings\<close>

lemma sql_blank_Nil [simp]: "sql_blank ''''"
  by (simp add: sql_blank_def)

lemma mint_binding:
  assumes "unit_shape E (pq_derived p)"
  shows "role_shape (qm_Binding (mintQuranUnit E s p i))"
    "binding_ident (qm_Binding (mintQuranUnit E s p i)) = ident_of (pq_derived p)"
  using assms
  by (auto simp: role_shape_def binding_ident_def ident_of_def binding_source_def binding_key_def mintQuranUnit_def
      Let_def unit_shape_def plain_role_def)

lemma fresh_binding_plain:
  assumes "planned_run E db source derived ps plan" "p \<in> set (fresh_units ps)"
  shows "binding_plain (qm_Binding (mintQuranUnit E (qs_SurahID source) p i))"
proof -
  let ?b = "qm_Binding (mintQuranUnit E (qs_SurahID source) p i)"
  have p: "p \<in> set ps" using assms(2) by (simp add: fresh_set)
  note in' = planned_in [OF assms(1) p]
  have "binding_source ?b = dq_sourceID (pq_derived p)" "binding_key ?b = dq_footnoteKey (pq_derived p)"
    using mint_binding(2) [OF in'(3), of "qs_SurahID source" i] by (simp_all add: binding_ident_def ident_of_def)
  with in'(3,4) mint_binding(1) [OF in'(3)] fresh_ordinal(1) [OF assms] show ?thesis
    by (simp add: binding_plain_def unit_shape_def bar_free_def)
qed

lemma run_mint_bindings:
  assumes "planned_run E db source derived ps plan"
    and "db1 = db\<lparr>qd_units := qd_units (after_mints db plan)\<rparr>"
  shows "run_batch (map InsertBinding (map qm_Binding (qp_Mints plan))) db1 = Inr (after_mints db plan)"
proof -
  let ?s = "qs_SurahID source"
  note pr = planned_runD [OF assms(1) refl]
  have "bindable db1 (qm_Binding (mintQuranUnit E ?s p (parent_id ps p)))" if p: "p \<in> set (fresh_units ps)" for p
  proof -
    have pin: "p \<in> set ps" using p by (simp add: fresh_set)
    have "unit_row db1 (pq_unitID p) \<noteq> None"
      using planned_known [OF assms(1) pin] by (simp add: assms(2) unit_row_find)
    moreover have "list_ex (\<lambda>a. ay_SurahID a = ?s \<and> ay_AyahNumber a = dq_ayahNumber (pq_derived p)) (qd_ayahs db1)"
      using run_okD(6) [OF pr(1) planned_in(1) [OF assms(1) pin]] by (simp add: assms(2))
    ultimately show ?thesis using fresh_binding_plain [OF assms(1) p]
      by (simp add: bindable_def binding_plain_def)
  qed
  then have "list_all (bindable db1) (map qm_Binding (qp_Mints plan))"
    by (auto simp: list_all_iff plan_mints [OF assms(1)])
  then have "run_batch (map InsertBinding (map qm_Binding (qp_Mints plan))) db1 =
      Inr (db1\<lparr>qd_bindings := qd_bindings db1 @ map (bound_row db1) (map qm_Binding (qp_Mints plan))\<rparr>)"
    by (intro run_bindings)
      (use minted_ids(2) [OF assms(1)] minted_places(2) [OF assms(1)] in \<open>simp_all add: assms(2) comp_def\<close>)
  moreover have "bound_row db1 = bound_row db" by (rule ext) (simp add: assms(2) bound_row_def)
  ultimately show ?thesis by (simp add: assms(2) after_mints_def)
qed

section \<open>Updates, retirements and edges\<close>

definition after_updates :: "quran_db \<Rightarrow> QuranUnitReconcilePlan \<Rightarrow> quran_db" where
  "after_updates db plan = (let db1 = after_mints db plan in db1\<lparr>
     qd_units := map (updated_unit (qd_clock db) (qp_Updates plan)) (qd_units db1),
     qd_bindings := map (updated_row (qd_clock db) (qp_Updates plan)) (qd_bindings db1)\<rparr>)"

lemma clock_after_mints [simp]: "qd_clock (after_mints db plan) = qd_clock db"
  "qd_lineage (after_mints db plan) = qd_lineage db" "qd_surahs (after_mints db plan) = qd_surahs db"
  "qd_ayahs (after_mints db plan) = qd_ayahs db"
  by (simp_all add: after_mints_def)

lemma moved_set: "p \<in> set (moved_units all ps) \<longleftrightarrow> p \<in> set ps \<and>
    (\<exists>r. pq_matched p = Some r \<and> \<not> quran_up_to_date r (pq_derived p) (parent_id all p))"
  by (auto simp: moved_units_def split: option.splits)

lemma update_ids:
  assumes "planned_run E db source derived ps plan"
  shows "distinct (map qu_ID (qp_Updates plan))"
  using planned_ids_distinct(1) [OF assms]
  by (simp add: plan_mints [OF assms] quran_update_def Let_def comp_def moved_units_def distinct_map_filter)

lemma moved_updatable:
  assumes "planned_run E db source derived ps plan" "p \<in> set (moved_units ps ps)"
  shows "updatable (after_mints db plan) (quran_update p (parent_id ps p))"
proof -
  from assms(2) obtain r where p: "p \<in> set ps" "pq_matched p = Some r" by (auto simp: moved_set)
  note pr = planned_runD [OF assms(1) refl]
  from matched_row [OF assms(1) p] obtain q u where q: "q \<in> set (surah_active db (qs_SurahID source))"
    "binding_ident (br_Binding q) = ident_of (pq_derived p)" "pq_unitID p = qb_UnitID (br_Binding q)"
    and u: "unit_row db (pq_unitID p) = Some u" "unit_fits E db (br_Binding q) u" "u_Lifecycle u = UnitLifecycleActive"
    by (elim exE conjE)
  have "u_Kind u = dq_kind (pq_derived p)"
    using u(2) q(2) kind_shape(1) [OF planned_in(3) [OF assms(1) p(1)]]
    by (simp add: unit_fits_def binding_ident_def ident_of_def)
  from planned_shape [OF assms(1) p(1) this] have "parent_shape (u\<lparr>u_ParentUnitID := parent_id ps p\<rparr>)" .
  moreover have "q \<in> set (qd_bindings (after_mints db plan))" using q(1) by (simp add: surah_active_set after_mints_def)
  moreover have "0 \<le> dq_position (pq_derived p)"
    using derived_position_nonneg [OF run_okD(2) [OF pr(1)] planned_in(1) [OF assms(1) p(1)]] .
  ultimately show ?thesis
    using parents_known [OF assms(1) p(1)] unit_row_old [OF u(1)] u(3) q(3)
    by (auto simp: updatable_def quran_update_def Let_def)
qed

lemma run_plan_updates:
  assumes "planned_run E db source derived ps plan"
  shows "run_batch (map UpdateUnit (qp_Updates plan)) (after_mints db plan) = Inr (after_updates db plan)"
proof -
  have "list_all (updatable (after_mints db plan)) (qp_Updates plan)"
    using moved_updatable [OF assms] by (auto simp: plan_mints [OF assms] list_all_iff)
  from run_updates [OF this update_ids [OF assms] after_mints_ids [OF assms]]
  show ?thesis by (simp add: after_updates_def Let_def)
qed

lemma unit_row_updates:
  "unit_row (after_updates db plan) i =
     map_option (updated_unit (qd_clock db) (qp_Updates plan)) (unit_row (after_mints db plan) i)"
  by (simp add: after_updates_def Let_def unit_row_find find_unit_map)

lemma is_active_updates: "is_active (after_updates db plan) i = is_active (after_mints db plan) i"
  by (simp add: is_active_def unit_row_updates split: option.split)

definition after_retires :: "quran_db \<Rightarrow> QuranUnitReconcilePlan \<Rightarrow> quran_db" where
  "after_retires db plan = (let db2 = after_updates db plan in db2\<lparr>
     qd_units := map (retired_unit (qd_clock db) (qp_Retires plan)) (qd_units db2)\<rparr>)"

lemma unit_row_retires:
  "unit_row (after_retires db plan) i =
     map_option (retired_unit (qd_clock db) (qp_Retires plan)) (unit_row (after_updates db plan) i)"
  by (simp add: after_retires_def Let_def unit_row_find find_unit_map)

lemma clock_after_updates [simp]: "qd_clock (after_updates db plan) = qd_clock db"
  "qd_lineage (after_updates db plan) = qd_lineage db" "qd_surahs (after_updates db plan) = qd_surahs db"
  "qd_ayahs (after_updates db plan) = qd_ayahs db"
  by (simp_all add: after_updates_def Let_def)

lemma run_plan_retires:
  assumes "planned_run E db source derived ps plan"
  shows "run_batch (map RetireUnit (qp_Retires plan)) (after_updates db plan) = Inr (after_retires db plan)"
proof -
  have "is_active (after_updates db plan) (rt_ID rt)" if "rt \<in> set (qp_Retires plan)" for rt
  proof -
    have "is_active db (rt_ID rt)" using retire_active(1) [OF assms that] .
    then show ?thesis unfolding is_active_updates
      by (auto simp: is_active_def split: option.splits dest: unit_row_old [of _ _ _ plan])
  qed
  moreover have "distinct (map u_ID (qd_units (after_updates db plan)))"
    using after_mints_ids(1) [OF assms] by (simp add: after_updates_def Let_def comp_def)
  ultimately have "run_batch (map RetireUnit (qp_Retires plan)) (after_updates db plan) = Inr ((after_updates db plan)\<lparr>
      qd_units := map (retired_unit (qd_clock (after_updates db plan)) (qp_Retires plan)) (qd_units (after_updates db plan))\<rparr>)"
    by (intro run_retires) (simp_all add: retires_distinct [OF assms])
  then show ?thesis by (simp add: after_retires_def Let_def)
qed

text \<open>The row of the surah is stamped and its stale mark cleared.\<close>

definition stamped :: "int \<Rightarrow> int \<Rightarrow> quran_surah_row \<Rightarrow> quran_surah_row" where
  "stamped s t r = (if su_ID r = s \<and> (case su_StaleAt r of None \<Rightarrow> True | Some u \<Rightarrow> u \<le> t)
     then r\<lparr>su_DerivedAt := Some t, su_StaleAt := None\<rparr> else r)"

definition after_batch :: "quran_db \<Rightarrow> QuranUnitReconcilePlan \<Rightarrow> quran_db" where
  "after_batch db plan = (after_retires db plan)\<lparr>qd_lineage := qd_lineage db @ qp_Edges plan,
     qd_surahs := map (stamped (qp_SurahID plan) (qp_LoadedAt plan)) (qd_surahs db)\<rparr>"

text \<open>The row of the surah exists once and was not marked stale after the source was read.\<close>

definition surah_ready :: "quran_db \<Rightarrow> int \<Rightarrow> int \<Rightarrow> bool" where
  "surah_ready db s t \<longleftrightarrow> distinct (map su_ID (qd_surahs db)) \<and>
     (\<exists>r\<in>set (qd_surahs db). su_ID r = s \<and> (case su_StaleAt r of None \<Rightarrow> True | Some u \<Rightarrow> u \<le> t))"

lemma clock_after_retires [simp]: "qd_clock (after_retires db plan) = qd_clock db"
  "qd_lineage (after_retires db plan) = qd_lineage db" "qd_surahs (after_retires db plan) = qd_surahs db"
  "qd_ayahs (after_retires db plan) = qd_ayahs db"
  by (simp_all add: after_retires_def Let_def)

lemma run_plan_edges:
  assumes "planned_run E db source derived ps plan"
  shows "run_batch (map InsertEdge (qp_Edges plan)) (after_retires db plan) =
    Inr ((after_retires db plan)\<lparr>qd_lineage := qd_lineage db @ qp_Edges plan\<rparr>)"
proof -
  note reg = run_okD(1) [OF planned_runD(1) [OF assms refl]]
  have rows: "unit_row (after_retires db plan) i \<noteq> None \<longleftrightarrow> unit_row (after_mints db plan) i \<noteq> None" for i
    by (simp add: unit_row_retires unit_row_updates)
  have pred: "is_active db (e_PredecessorID e)" if "e \<in> set (qp_Edges plan)" for e
    using edge_ends(1) [OF assms that] retire_active(1) [OF assms] by (auto simp: retire_ids_def)
  have "unit_row (after_retires db plan) (e_PredecessorID e) \<noteq> None \<and>
      unit_row (after_retires db plan) (e_SuccessorID e) \<noteq> None \<and> e_PredecessorID e \<noteq> e_SuccessorID e"
    if e: "e \<in> set (qp_Edges plan)" for e
  proof (intro conjI)
    obtain u where "unit_row db (e_PredecessorID e) = Some u" using pred [OF e] by (auto simp: is_active_def split: option.splits)
    from unit_row_old [OF this] show "unit_row (after_retires db plan) (e_PredecessorID e) \<noteq> None" unfolding rows by simp
    obtain p where p: "p \<in> set ps" "e_SuccessorID e = pq_unitID p" using edge_ends(2) [OF assms e] by blast
    with planned_known [OF assms p(1)] show "unit_row (after_retires db plan) (e_SuccessorID e) \<noteq> None" unfolding rows by simp
    from retired_row [OF assms edge_ends(1) [OF assms e]] p show "e_PredecessorID e \<noteq> e_SuccessorID e" by auto
  qed
  moreover have "e_PredecessorID ` set (qp_Edges plan) \<inter> e_PredecessorID ` set (qd_lineage db) = {}"
    unfolding disjoint_iff image_iff using pred registry_okD(9) [OF reg] by (metis (no_types))
  ultimately show ?thesis
    using run_edges [of "qp_Edges plan" "after_retires db plan"] edges_distinct [OF assms] by simp
qed

lemma run_stamp:
  assumes "surah_ready db s t"
  shows "run_batch [StampSurah s t] db = Inr (db\<lparr>qd_surahs := map (stamped s t) (qd_surahs db)\<rparr>)"
proof -
  let ?hit = "\<lambda>r. su_ID r = s \<and> (case su_StaleAt r of None \<Rightarrow> True | Some u \<Rightarrow> u \<le> t)"
  from assms obtain r where dist: "distinct (map su_ID (qd_surahs db))" and r: "r \<in> set (qd_surahs db)" "?hit r"
    by (auto simp: surah_ready_def)
  have "filter ?hit (qd_surahs db) = filter (\<lambda>x. su_ID x = su_ID r) (qd_surahs db)"
  proof (rule filter_cong [OF refl])
    fix x assume "x \<in> set (qd_surahs db)"
    then have "su_ID x = su_ID r \<Longrightarrow> x = r" using dist r(1) by (auto simp: distinct_map inj_on_def)
    then show "?hit x = (su_ID x = su_ID r)" using r(2) by auto
  qed
  then have "length (filter ?hit (qd_surahs db)) = 1" using one_by_key [OF dist r(1)] by simp
  then show ?thesis by (simp add: Let_def stamped_def [abs_def])
qed

lemma plan_keys:
  assumes "planned_run E db source derived ps plan"
  shows "qp_SurahID plan = qs_SurahID source" "qp_LoadedAt plan = qs_LoadedAt source"
    "qp_ExpectedActive plan = int (length derived)"
    "qp_BasedOn plan = quranRegistryFingerprint db (qs_SurahID source)"
  using assms by (simp_all add: planned_run_def plan_form_def QuranSnapshot_def)

text \<open>No statement of the batch fails.\<close>

theorem plan_batch_runs:
  assumes "planned_run E db source derived ps plan" "surah_ready db (qp_SurahID plan) (qp_LoadedAt plan)"
  shows "run_batch (plan_stmts plan) db = Inr (after_batch db plan)"
proof -
  let ?db1 = "db\<lparr>qd_units := qd_units (after_mints db plan)\<rparr>"
  let ?db4 = "(after_retires db plan)\<lparr>qd_lineage := qd_lineage db @ qp_Edges plan\<rparr>"
  have stmts: "plan_stmts plan = map InsertUnit (map qm_Unit (mint_order (qp_Mints plan))) @
      map InsertBinding (map qm_Binding (qp_Mints plan)) @ map UpdateUnit (qp_Updates plan) @
      map RetireUnit (qp_Retires plan) @ map InsertEdge (qp_Edges plan) @ [StampSurah (qp_SurahID plan) (qp_LoadedAt plan)]"
    by (simp add: plan_stmts_def mint_order_def)
  have "run_batch (map InsertUnit (map qm_Unit (mint_order (qp_Mints plan)))) db = Inr ?db1"
    using run_mint_inserts [OF assms(1)] by (simp add: after_mints_def)
  moreover have "run_batch [StampSurah (qp_SurahID plan) (qp_LoadedAt plan)] ?db4 = Inr (after_batch db plan)"
    using run_stamp [of ?db4 "qp_SurahID plan" "qp_LoadedAt plan"] assms(2) by (simp add: surah_ready_def after_batch_def)
  ultimately show ?thesis
    unfolding stmts run_batch_append
    using run_mint_bindings [OF assms(1) refl] run_plan_updates [OF assms(1)] run_plan_retires [OF assms(1)]
      run_plan_edges [OF assms(1)] by simp
qed

end
