(* ===== verification/Quran_Final.thy ===== *)
theory Quran_Final
  imports Quran_After
begin

text \<open>
  The tables after the batch of a plan: every planned unit is active with the fields of its derived
  unit, nothing else of the surah is active, and the rows of other surahs are untouched.
\<close>

section \<open>Units after the batch\<close>

definition final_unit :: "quran_db \<Rightarrow> QuranUnitReconcilePlan \<Rightarrow> CitableUnit \<Rightarrow> CitableUnit" where
  "final_unit db plan u = retired_unit (qd_clock db) (qp_Retires plan) (updated_unit (qd_clock db) (qp_Updates plan) u)"

lemma final_unit_sel [simp]:
  "u_ID (final_unit db plan u) = u_ID u" "u_Anchor (final_unit db plan u) = u_Anchor u"
  "u_Kind (final_unit db plan u) = u_Kind u" "u_Corpus (final_unit db plan u) = u_Corpus u"
  "u_ContentHash (final_unit db plan u) = u_ContentHash u" "u_Occurrence (final_unit db plan u) = u_Occurrence u"
  "u_Text (final_unit db plan u) = u_Text u"
  by (simp_all add: final_unit_def)

lemma final_units:
  "qd_units (after_batch db plan) = map (final_unit db plan) (qd_units (after_mints db plan))"
  "qd_bindings (after_batch db plan) = map (updated_row (qd_clock db) (qp_Updates plan)) (qd_bindings (after_mints db plan))"
  by (simp_all add: after_batch_def after_retires_def after_updates_def Let_def final_unit_def)

lemma final_row: "unit_row (after_batch db plan) i = map_option (final_unit db plan) (unit_row (after_mints db plan) i)"
  by (simp add: unit_row_find final_units find_unit_map)

lemma retired_none: "u_ID u \<notin> retire_ids plan \<Longrightarrow> retired_unit now (qp_Retires plan) u = u"
proof -
  assume "u_ID u \<notin> retire_ids plan"
  then have "find (\<lambda>rt. rt_ID rt = u_ID u) (qp_Retires plan) = None" by (auto simp: find_None_iff retire_ids_def image_iff)
  then show ?thesis by (simp add: retired_unit_def)
qed

lemma retired_inactive:
  assumes "planned_run E db source derived ps plan" "u_ID u \<in> retire_ids plan"
  shows "u_Lifecycle (retired_unit now (qp_Retires plan) u) \<noteq> UnitLifecycleActive"
proof -
  from assms(2) have "find (\<lambda>rt. rt_ID rt = u_ID u) (qp_Retires plan) \<noteq> None"
    by (auto simp: find_None_iff retire_ids_def)
  then obtain rt where rt: "find (\<lambda>rt. rt_ID rt = u_ID u) (qp_Retires plan) = Some rt" by blast
  then have "rt \<in> set (qp_Retires plan)" by (auto simp: find_Some_iff)
  from retire_active(2) [OF assms(1) this] rt show ?thesis by (simp add: retired_unit_def)
qed

lemma final_active:
  assumes "planned_run E db source derived ps plan"
  shows "is_active (after_batch db plan) i \<longleftrightarrow> is_active (after_mints db plan) i \<and> i \<notin> retire_ids plan"
proof (cases "unit_row (after_mints db plan) i")
  case None
  then show ?thesis by (simp add: is_active_def final_row)
next
  case (Some u)
  then have i: "u_ID u = i" using unit_row_id by blast
  show ?thesis
  proof (cases "i \<in> retire_ids plan")
    case True
    with retired_inactive [OF assms, of "updated_unit (qd_clock db) (qp_Updates plan) u"] i Some
    show ?thesis by (simp add: is_active_def final_row final_unit_def)
  next
    case False
    with retired_none [of "updated_unit (qd_clock db) (qp_Updates plan) u" plan "qd_clock db"] i Some
    show ?thesis by (simp add: is_active_def final_row final_unit_def)
  qed
qed

lemma mints_row_cases:
  assumes "planned_run E db source derived ps plan" "unit_row (after_mints db plan) i = Some u"
  shows "unit_row db i = Some u \<or> (\<exists>p\<in>set (fresh_units ps). i = pq_unitID p \<and>
    u = stored_unit db (qm_Unit (mintQuranUnit E (qs_SurahID source) p (parent_id ps p))))"
proof (cases "unit_row db i")
  case None
  with assms(2) have "find_unit (map (stored_unit db) (map qm_Unit (mint_order (qp_Mints plan)))) i = Some u"
    by (simp add: after_mints_def unit_row_find find_unit_append)
  from find_unit_Some [OF this] show ?thesis by (auto simp: plan_mints [OF assms(1)])
next
  case (Some v)
  with unit_row_old [OF this, of plan] assms(2) show ?thesis by simp
qed

lemma mints_active:
  assumes "planned_run E db source derived ps plan"
  shows "is_active (after_mints db plan) i \<longleftrightarrow> is_active db i \<or> (\<exists>p\<in>set (fresh_units ps). i = pq_unitID p)"
proof
  assume "is_active (after_mints db plan) i"
  then obtain u where u: "unit_row (after_mints db plan) i = Some u" "u_Lifecycle u = UnitLifecycleActive"
    by (auto simp: is_active_def split: option.splits)
  from mints_row_cases [OF assms u(1)] u(2) show "is_active db i \<or> (\<exists>p\<in>set (fresh_units ps). i = pq_unitID p)"
    by (auto simp: is_active_def)
next
  assume "is_active db i \<or> (\<exists>p\<in>set (fresh_units ps). i = pq_unitID p)"
  then show "is_active (after_mints db plan) i"
  proof
    assume "is_active db i"
    then show ?thesis by (auto simp: is_active_def split: option.splits dest: unit_row_old [of _ _ _ plan])
  next
    assume "\<exists>p\<in>set (fresh_units ps). i = pq_unitID p"
    then obtain p where "p \<in> set ps" "pq_matched p = None" "i = pq_unitID p" by (auto simp: fresh_set)
    with fresh_row(1) [OF assms this(1,2)] show ?thesis by (simp add: is_active_def stored_unit_def)
  qed
qed

section \<open>Planned units after the batch\<close>

lemma planned_not_retired:
  assumes "planned_run E db source derived ps plan" "p \<in> set ps"
  shows "pq_unitID p \<notin> retire_ids plan"
  using retired_row [OF assms(1), of "pq_unitID p"] assms(2) by blast

lemma planned_active:
  assumes "planned_run E db source derived ps plan" "p \<in> set ps"
  shows "is_active (after_batch db plan) (pq_unitID p)"
proof -
  have "is_active (after_mints db plan) (pq_unitID p)"
  proof (cases "pq_matched p")
    case None
    then show ?thesis using assms(2) by (auto simp: mints_active [OF assms(1)] fresh_set)
  next
    case (Some r)
    from matched_row [OF assms Some] have "is_active db (pq_unitID p)" by (auto simp: is_active_def)
    then show ?thesis by (simp add: mints_active [OF assms(1)])
  qed
  with planned_not_retired [OF assms] show ?thesis by (simp add: final_active [OF assms(1)])
qed

lemma find_update:
  assumes "planned_run E db source derived ps plan" "p \<in> set ps"
  shows "find (\<lambda>up. qu_ID up = pq_unitID p) (qp_Updates plan) =
    (if p \<in> set (moved_units ps ps) then Some (quran_update p (parent_id ps p)) else None)"
proof (cases "p \<in> set (moved_units ps ps)")
  case True
  then have in': "quran_update p (parent_id ps p) \<in> set (qp_Updates plan)" by (simp add: plan_mints [OF assms(1)])
  have "find (\<lambda>up. qu_ID up = qu_ID x) xs = Some x" if "distinct (map qu_ID xs)" "x \<in> set xs" for x xs
    using that by (induction xs) auto
  from this [OF update_ids [OF assms(1)] in'] True show ?thesis by (simp add: quran_update_def Let_def)
next
  case False
  have "qu_ID up \<noteq> pq_unitID p" if "up \<in> set (qp_Updates plan)" for up
  proof
    assume same: "qu_ID up = pq_unitID p"
    from that obtain q where q: "q \<in> set (moved_units ps ps)" "up = quran_update q (parent_id ps q)"
      by (auto simp: plan_mints [OF assms(1)])
    then have "q = p" using planned_ids_distinct(2) [OF assms(1) _ assms(2), of q] same
      by (simp add: quran_update_def Let_def moved_set)
    with q False show False by simp
  qed
  with False show ?thesis by (auto simp: find_None_iff)
qed

text \<open>The unit of a planned unit, as it stands after the batch.\<close>

definition unit_settled :: "plannedQuranUnit list \<Rightarrow> plannedQuranUnit \<Rightarrow> CitableUnit \<Rightarrow> bool" where
  "unit_settled ps p u \<longleftrightarrow> (let d = pq_derived p in
     u_ContentHash u = dq_contentHash d \<and> u_PageID u = dq_pageNumber d \<and> u_Position u = dq_position d \<and>
     u_ParentUnitID u = parent_id ps p \<and> u_Kind u = dq_kind d)"

lemma settled_fresh:
  assumes "planned_run E db source derived ps plan" "p \<in> set ps" "pq_matched p = None"
  shows "\<exists>u. unit_row (after_batch db plan) (pq_unitID p) = Some u \<and> unit_settled ps p u"
proof -
  let ?u = "stored_unit db (qm_Unit (mintQuranUnit E (qs_SurahID source) p (parent_id ps p)))"
  have "p \<notin> set (moved_units ps ps)" using assms(3) by (simp add: moved_set)
  then have "updated_unit (qd_clock db) (qp_Updates plan) ?u = ?u"
    using find_update [OF assms(1,2)] by (simp add: updated_unit_def)
  then have "final_unit db plan ?u = ?u"
    using planned_not_retired [OF assms(1,2)] by (simp add: final_unit_def retired_none)
  with fresh_row(1) [OF assms] show ?thesis
    by (simp add: final_row unit_settled_def Let_def) (simp add: stored_unit_def)
qed

lemma settled_matched:
  assumes "planned_run E db source derived ps plan" "p \<in> set ps" "pq_matched p = Some r"
  shows "\<exists>u. unit_row (after_batch db plan) (pq_unitID p) = Some u \<and> unit_settled ps p u"
proof -
  from matched_row [OF assms] obtain q u where q: "r = record_of db q"
    "binding_ident (br_Binding q) = ident_of (pq_derived p)" "pq_unitID p = qb_UnitID (br_Binding q)"
    and u: "unit_row db (pq_unitID p) = Some u" "unit_fits E db (br_Binding q) u" "u_ContentHash u = dq_contentHash (pq_derived p)"
    by (elim exE conjE)
  have id: "u_ID u = pq_unitID p" using unit_row_id [OF u(1)] by simp
  have kind: "u_Kind u = dq_kind (pq_derived p)"
    using u(2) q(2) kind_shape(1) [OF planned_in(3) [OF assms(1,2)]]
    by (simp add: unit_fits_def binding_ident_def ident_of_def)
  have "unit_settled ps p (updated_unit (qd_clock db) (qp_Updates plan) u)"
  proof (cases "p \<in> set (moved_units ps ps)")
    case True
    with find_update [OF assms(1,2)] id u(3) kind show ?thesis
      by (simp add: updated_unit_def unit_settled_def quran_update_def Let_def)
  next
    case False
    then have "quran_up_to_date r (pq_derived p) (parent_id ps p)" using assms(2,3) by (simp add: moved_set)
    with find_update [OF assms(1,2)] False id u q(1,3) kind show ?thesis
      by (simp add: updated_unit_def unit_settled_def quran_up_to_date_def Let_def sameOptionalInt_def sameParent_def
          split: option.splits)
  qed
  then have "unit_settled ps p (final_unit db plan u)"
    using planned_not_retired [OF assms(1,2)] id by (simp add: final_unit_def retired_none)
  with unit_row_old [OF u(1)] show ?thesis by (simp add: final_row)
qed

lemma planned_settled:
  assumes "planned_run E db source derived ps plan" "p \<in> set ps"
  obtains u where "unit_row (after_batch db plan) (pq_unitID p) = Some u" "unit_settled ps p u"
proof (cases "pq_matched p")
  case None
  with settled_fresh [OF assms] that show ?thesis by blast
next
  case (Some r)
  with settled_matched [OF assms Some] that show ?thesis by blast
qed

section \<open>Bindings after the batch\<close>

lemma updated_row_cases:
  "\<exists>x. br_Binding (updated_row now ups r) = (br_Binding r)\<lparr>qb_SourceUpdatedAt := x\<rparr>"
  by (cases "br_Binding r") (auto simp: updated_row_def split: option.split)

lemma source_time_irrelevant [simp]:
  "binding_source (b\<lparr>qb_SourceUpdatedAt := x\<rparr>) = binding_source b"
  "binding_key (b\<lparr>qb_SourceUpdatedAt := x\<rparr>) = binding_key b"
  "binding_ident (b\<lparr>qb_SourceUpdatedAt := x\<rparr>) = binding_ident b"
  "binding_place (b\<lparr>qb_SourceUpdatedAt := x\<rparr>) = binding_place b"
  "role_shape (b\<lparr>qb_SourceUpdatedAt := x\<rparr>) = role_shape b"
  "binding_plain (b\<lparr>qb_SourceUpdatedAt := x\<rparr>) = binding_plain b"
  "binding_name (b\<lparr>qb_SourceUpdatedAt := x\<rparr>) u = binding_name b u"
  by (simp_all add: binding_source_def binding_key_def binding_ident_def binding_place_def role_shape_def
      binding_plain_def binding_name_def cong: option.case_cong)

lemma updated_row_same [simp]:
  "binding_ident (br_Binding (updated_row now ups r)) = binding_ident (br_Binding r)"
  "binding_place (br_Binding (updated_row now ups r)) = binding_place (br_Binding r)"
  "binding_plain (br_Binding (updated_row now ups r)) = binding_plain (br_Binding r)"
  "binding_name (br_Binding (updated_row now ups r)) u = binding_name (br_Binding r) u"
  using updated_row_cases [of now ups r] by auto

abbreviation final_binding :: "quran_db \<Rightarrow> QuranUnitReconcilePlan \<Rightarrow> binding_row \<Rightarrow> binding_row" where
  "final_binding db plan r \<equiv> updated_row (qd_clock db) (qp_Updates plan) r"

lemma final_binding_cases:
  assumes "planned_run E db source derived ps plan" "r' \<in> set (qd_bindings (after_batch db plan))"
  obtains (old) r where "r \<in> set (qd_bindings db)" "r' = final_binding db plan r"
  | (new) p where "p \<in> set (fresh_units ps)"
      "r' = final_binding db plan (bound_row db (qm_Binding (mintQuranUnit E (qs_SurahID source) p (parent_id ps p))))"
proof -
  from assms(2) obtain r where r: "r \<in> set (qd_bindings (after_mints db plan))" "r' = final_binding db plan r"
    by (auto simp: final_units)
  show thesis
  proof (cases "r \<in> set (qd_bindings db)")
    case True
    with r(2) show thesis by (rule_tac old)
  next
    case False
    with r(1) obtain p where "p \<in> set (fresh_units ps)"
      "r = bound_row db (qm_Binding (mintQuranUnit E (qs_SurahID source) p (parent_id ps p)))"
      by (auto simp: after_mints_def plan_mints [OF assms(1)])
    with r(2) show thesis by (intro new) simp_all
  qed
qed

lemma final_ids:
  assumes "planned_run E db source derived ps plan"
  shows "distinct (map u_ID (qd_units (after_batch db plan)))"
    "distinct (map (qb_UnitID \<circ> br_Binding) (qd_bindings (after_batch db plan)))"
  using after_mints_ids [OF assms] by (simp_all add: final_units comp_def)

lemma final_row_by_id:
  assumes "planned_run E db source derived ps plan"
    and "r \<in> set (qd_bindings (after_batch db plan))" "q \<in> set (qd_bindings (after_batch db plan))"
    and "qb_UnitID (br_Binding r) = qb_UnitID (br_Binding q)"
  shows "r = q"
  using final_ids(2) [OF assms(1)] assms(2-4) by (auto simp: distinct_map inj_on_def)

definition binding_settled :: "int \<Rightarrow> plannedQuranUnit \<Rightarrow> binding_row \<Rightarrow> bool" where
  "binding_settled s p r \<longleftrightarrow> (let b = br_Binding r in
     qb_UnitID b = pq_unitID p \<and> qb_SurahID b = s \<and> binding_ident b = ident_of (pq_derived p) \<and>
     qb_Ordinal b = pq_ordinal p \<and> qb_SourceUpdatedAt b = dq_sourceUpdatedAt (pq_derived p) \<and> binding_plain b)"

lemma planned_binding:
  assumes "planned_run E db source derived ps plan" "p \<in> set ps"
  obtains r where "r \<in> set (qd_bindings (after_batch db plan))" "binding_settled (qs_SurahID source) p r"
proof (cases "pq_matched p")
  case None
  let ?r = "bound_row db (qm_Binding (mintQuranUnit E (qs_SurahID source) p (parent_id ps p)))"
  have fresh: "p \<in> set (fresh_units ps)" using None assms(2) by (simp add: fresh_set)
  have "p \<notin> set (moved_units ps ps)" using None by (simp add: moved_set)
  with find_update [OF assms] have same: "final_binding db plan ?r = ?r" by (simp add: updated_row_def bound_row_def)
  have "?r \<in> set (qd_bindings (after_batch db plan))"
    unfolding final_units using fresh_row(2) [OF assms None] same by (metis image_eqI list.set_map)
  moreover have "binding_settled (qs_SurahID source) p ?r"
    using fresh_binding_plain [OF assms(1) fresh] mint_binding(2) [OF planned_in(3) [OF assms]]
    by (simp add: binding_settled_def Let_def bound_row_def)
  ultimately show thesis by (rule that)
next
  case (Some r)
  from matched_row [OF assms Some] obtain q where q: "q \<in> set (surah_active db (qs_SurahID source))" "r = record_of db q"
    "binding_ident (br_Binding q) = ident_of (pq_derived p)" "pq_unitID p = qb_UnitID (br_Binding q)"
    "pq_ordinal p = qb_Ordinal (br_Binding q)" by (elim exE conjE)
  have qin: "q \<in> set (qd_bindings db)" "qb_SurahID (br_Binding q) = qs_SurahID source"
    using q(1) by (simp_all add: surah_active_set)
  have plain: "binding_plain (br_Binding q)" by (rule row_plain [OF run_okD(1) [OF planned_runD(1) [OF assms(1) refl]] qin(1)])
  have "qb_SourceUpdatedAt (br_Binding (final_binding db plan q)) = dq_sourceUpdatedAt (pq_derived p)"
  proof (cases "p \<in> set (moved_units ps ps)")
    case True
    with find_update [OF assms] q(4) show ?thesis by (simp add: updated_row_def quran_update_def Let_def)
  next
    case False
    then have "quran_up_to_date r (pq_derived p) (parent_id ps p)" using assms(2) Some by (simp add: moved_set)
    with find_update [OF assms] False q(2,4) show ?thesis by (simp add: updated_row_def quran_up_to_date_def)
  qed
  with q(3-5) qin plain have "binding_settled (qs_SurahID source) p (final_binding db plan q)"
    by (simp add: binding_settled_def Let_def)
  moreover have "final_binding db plan q \<in> set (qd_bindings (after_batch db plan))"
    using qin(1) by (simp add: final_units after_mints_def)
  ultimately show thesis by (intro that)
qed

text \<open>The active rows of the surah are those of the planned units.\<close>

lemma settled_row:
  assumes "planned_run E db source derived ps plan" "r \<in> set (qd_bindings (after_batch db plan))"
    and "p \<in> set ps" "qb_UnitID (br_Binding r) = pq_unitID p"
  shows "binding_settled (qs_SurahID source) p r"
proof -
  obtain q where q: "q \<in> set (qd_bindings (after_batch db plan))" "binding_settled (qs_SurahID source) p q"
    using planned_binding [OF assms(1,3)] .
  have "r = q" by (rule final_row_by_id [OF assms(1,2) q(1)]) (use q(2) assms(4) in \<open>simp add: binding_settled_def Let_def\<close>)
  with q(2) show ?thesis by simp
qed

lemma final_surah_active:
  assumes "planned_run E db source derived ps plan" "r \<in> set (qd_bindings (after_batch db plan))"
  shows "qb_SurahID (br_Binding r) = qs_SurahID source \<and> row_active (after_batch db plan) r \<longleftrightarrow>
    (\<exists>p\<in>set ps. qb_UnitID (br_Binding r) = pq_unitID p)"
proof
  assume "\<exists>p\<in>set ps. qb_UnitID (br_Binding r) = pq_unitID p"
  then obtain p where p: "p \<in> set ps" "qb_UnitID (br_Binding r) = pq_unitID p" ..
  from settled_row [OF assms p] planned_active [OF assms(1) p(1)] p(2)
  show "qb_SurahID (br_Binding r) = qs_SurahID source \<and> row_active (after_batch db plan) r"
    by (simp add: binding_settled_def Let_def row_active_def)
next
  assume r: "qb_SurahID (br_Binding r) = qs_SurahID source \<and> row_active (after_batch db plan) r"
  show "\<exists>p\<in>set ps. qb_UnitID (br_Binding r) = pq_unitID p"
    using assms
  proof (cases rule: final_binding_cases)
    case (new p)
    then show ?thesis by (auto simp: bound_row_def fresh_set)
  next
    case (old q)
    have act: "is_active (after_mints db plan) (qb_UnitID (br_Binding q))" "qb_UnitID (br_Binding q) \<notin> retire_ids plan"
      using r old(2) by (simp_all add: row_active_def final_active [OF assms(1)])
    then consider p where "p \<in> set (fresh_units ps)" "qb_UnitID (br_Binding q) = pq_unitID p"
      | "is_active db (qb_UnitID (br_Binding q))" by (auto simp: mints_active [OF assms(1)])
    then show ?thesis
    proof cases
      case 1
      then show ?thesis using old(2) by (auto simp: fresh_set)
    next
      case 2
      then have "q \<in> set (surah_active db (qs_SurahID source))" using old r by (simp add: surah_active_set row_active_def)
      from retire_ids_iff [OF assms(1) this] act(2) obtain p where "p \<in> set ps" "pq_unitID p = qb_UnitID (br_Binding q)"
        by blast
      then show ?thesis using old(2) by (intro bexI [of _ p]) simp_all
    qed
  qed
qed

section \<open>Other surahs\<close>

lemma other_ids:
  assumes "planned_run E db source derived ps plan" "r \<in> set (qd_bindings db)"
    and "qb_SurahID (br_Binding r) \<noteq> qs_SurahID source"
  shows "qb_UnitID (br_Binding r) \<notin> pq_unitID ` set ps" "qb_UnitID (br_Binding r) \<notin> retire_ids plan"
proof -
  note reg = run_okD(1) [OF planned_runD(1) [OF assms(1) refl]]
  have no: "q \<notin> set (surah_active db (qs_SurahID source))" if "qb_UnitID (br_Binding q) = qb_UnitID (br_Binding r)" for q
    using rows_by_id [OF reg _ assms(2) that] assms(3) by (auto simp: surah_active_set)
  show "qb_UnitID (br_Binding r) \<notin> pq_unitID ` set ps"
  proof
    assume "qb_UnitID (br_Binding r) \<in> pq_unitID ` set ps"
    then obtain p where p: "p \<in> set ps" "pq_unitID p = qb_UnitID (br_Binding r)" by auto
    then have "pq_matched p \<noteq> None" using fresh_id_new [OF assms(1) p(1) _ assms(2)] by blast
    with planned_id_cases [OF assms(1) p(1)] obtain q where "q \<in> set (surah_active db (qs_SurahID source))"
      "pq_unitID p = qb_UnitID (br_Binding q)" by blast
    with no [of q] p(2) show False by simp
  qed
  show "qb_UnitID (br_Binding r) \<notin> retire_ids plan"
  proof
    assume "qb_UnitID (br_Binding r) \<in> retire_ids plan"
    from retired_row [OF assms(1) this] no show False by auto
  qed
qed

lemma other_rows:
  assumes "planned_run E db source derived ps plan" "r \<in> set (qd_bindings db)"
    and "qb_SurahID (br_Binding r) \<noteq> qs_SurahID source"
  shows "final_binding db plan r = r"
    "unit_row (after_batch db plan) (qb_UnitID (br_Binding r)) = unit_row db (qb_UnitID (br_Binding r))"
proof -
  note reg = run_okD(1) [OF planned_runD(1) [OF assms(1) refl]] and ids = other_ids [OF assms]
  have "pq_unitID p \<noteq> qb_UnitID (br_Binding r)" if "p \<in> set ps" for p using ids(1) that by (metis imageI)
  then have "find (\<lambda>up. qu_ID up = qb_UnitID (br_Binding r)) (qp_Updates plan) = None"
    by (auto simp: find_None_iff plan_mints [OF assms(1)] quran_update_def Let_def moved_set)
  then show "final_binding db plan r = r"
    "unit_row (after_batch db plan) (qb_UnitID (br_Binding r)) = unit_row db (qb_UnitID (br_Binding r))"
  proof -
    assume none: "find (\<lambda>up. qu_ID up = qb_UnitID (br_Binding r)) (qp_Updates plan) = None"
    then show "final_binding db plan r = r" by (simp add: updated_row_def)
    obtain u where u: "unit_row db (qb_UnitID (br_Binding r)) = Some u" "u_ID u = qb_UnitID (br_Binding r)"
      using row_unit [OF reg assms(2)] .
    have "final_unit db plan u = u" using none ids(2) u(2) by (simp add: final_unit_def updated_unit_def retired_none)
    with u unit_row_old [OF u(1), of plan]
    show "unit_row (after_batch db plan) (qb_UnitID (br_Binding r)) = unit_row db (qb_UnitID (br_Binding r))"
      by (simp add: final_row)
  qed
qed

end
