(* ===== verification/Quran_Invariant.thy ===== *)
theory Quran_Invariant
  imports Quran_Final
begin

text \<open>
  The batch of a plan keeps the invariant of the tables, and what the transaction checks before
  its commit holds of them.
\<close>

section \<open>Parents after the batch\<close>

lemma binding_of_row:
  assumes "distinct (map (qb_UnitID \<circ> br_Binding) (qd_bindings db))" "r \<in> set (qd_bindings db)"
  shows "binding_of db (qb_UnitID (br_Binding r)) = Some (br_Binding r)"
proof -
  have "find (\<lambda>x. qb_UnitID (br_Binding x) = qb_UnitID (br_Binding r)) xs = Some r"
    if "distinct (map (qb_UnitID \<circ> br_Binding) xs)" "r \<in> set xs" for xs
    using that by (induction xs) auto
  with assms show ?thesis by (simp add: binding_of_def)
qed

lemma binding_of_Some:
  assumes "binding_of db i = Some b"
  obtains r where "r \<in> set (qd_bindings db)" "b = br_Binding r" "i = qb_UnitID (br_Binding r)"
proof -
  from assms obtain r where r: "find (\<lambda>r. qb_UnitID (br_Binding r) = i) (qd_bindings db) = Some r" "b = br_Binding r"
    by (auto simp: binding_of_def)
  then have "r \<in> set (qd_bindings db)" "qb_UnitID (br_Binding r) = i" by (auto simp: find_Some_iff)
  with r(2) show thesis by (intro that [OF _ r(2)]) (simp_all only:)
qed

lemma translation_source:
  "role_shape b \<Longrightarrow> qb_Role b \<in> {QuranUnitRoleTranslation, QuranUnitRoleFootnote} \<Longrightarrow>
   qb_TranslationSourceID b = Some (binding_source b)"
  by (auto simp: role_shape_def binding_source_def)

lemma final_binding_old:
  "r \<in> set (qd_bindings db) \<Longrightarrow> final_binding db plan r \<in> set (qd_bindings (after_batch db plan))"
  by (simp add: final_units after_mints_def)

lemma settled_footnote:
  assumes "planned_run E db source derived ps plan" "p \<in> set ps" "dq_role (pq_derived p) = QuranUnitRoleFootnote"
    and "r \<in> set (qd_bindings (after_batch db plan))" "binding_settled (qs_SurahID source) p r"
  shows "footnote_parent_ok (after_batch db plan) (br_Binding r)"
proof -
  let ?db = "after_batch db plan" and ?s = "qs_SurahID source"
  from planned_parent [OF assms(1,2)] assms(3) obtain t where t: "t \<in> set ps" "parent_id ps p = Some (pq_unitID t)"
    "dq_role (pq_derived t) = QuranUnitRoleTranslation" "dq_ayahNumber (pq_derived t) = dq_ayahNumber (pq_derived p)"
    "dq_sourceID (pq_derived t) = dq_sourceID (pq_derived p)" by auto
  obtain u where u: "unit_row ?db (pq_unitID p) = Some u" "unit_settled ps p u" using planned_settled [OF assms(1,2)] .
  obtain rt where rt: "rt \<in> set (qd_bindings ?db)" "binding_settled ?s t rt" using planned_binding [OF assms(1) t(1)] .
  have "binding_of ?db (pq_unitID t) = Some (br_Binding rt)"
    using binding_of_row [OF final_ids(2) [OF assms(1)] rt(1)] rt(2) by (simp add: binding_settled_def Let_def)
  moreover have "qb_TranslationSourceID (br_Binding rt) = Some (dq_sourceID (pq_derived t))"
    "qb_TranslationSourceID (br_Binding r) = Some (dq_sourceID (pq_derived p))"
    using translation_source [of "br_Binding rt"] translation_source [of "br_Binding r"] rt(2) assms(3,5) t(3)
    by (simp_all add: binding_settled_def Let_def binding_plain_def binding_ident_def ident_of_def)
  ultimately show ?thesis
    using u t rt(2) assms(3,5) planned_active [OF assms(1) t(1)]
    by (simp add: footnote_parent_ok_def binding_settled_def unit_settled_def Let_def binding_ident_def ident_of_def)
qed

lemma other_footnote:
  assumes "planned_run E db source derived ps plan" "r \<in> set (qd_bindings db)"
    and "qb_SurahID (br_Binding r) \<noteq> qs_SurahID source" "footnote_parent_ok db (br_Binding r)"
  shows "footnote_parent_ok (after_batch db plan) (br_Binding r)"
proof (cases "unit_row db (qb_UnitID (br_Binding r))")
  case None
  then show ?thesis using other_rows(2) [OF assms(1-3)] by (simp add: footnote_parent_ok_def)
next
  case (Some u)
  with assms(4) obtain i b where i: "u_ParentUnitID u = Some i" "binding_of db i = Some b" "qb_Role b = QuranUnitRoleTranslation"
    "qb_SurahID b = qb_SurahID (br_Binding r)" "qb_AyahNumber b = qb_AyahNumber (br_Binding r)"
    "qb_TranslationSourceID b = qb_TranslationSourceID (br_Binding r)" "is_active db i"
    by (auto simp: footnote_parent_ok_def split: option.splits)
  obtain q where q: "q \<in> set (qd_bindings db)" "b = br_Binding q" "i = qb_UnitID (br_Binding q)"
    using binding_of_Some [OF i(2)] .
  have other: "qb_SurahID (br_Binding q) \<noteq> qs_SurahID source" using i(4) q(2) assms(3) by simp
  note same = other_rows [OF assms(1) q(1) other]
  have "q \<in> set (qd_bindings (after_batch db plan))"
    using final_binding_old [OF q(1), of plan] same(1) by simp
  then have "binding_of (after_batch db plan) i = Some b"
    using binding_of_row [OF final_ids(2) [OF assms(1)]] q by simp
  moreover have "is_active (after_batch db plan) i" using i(7) same(2) q(3) by (simp add: is_active_def)
  ultimately show ?thesis using i Some other_rows(2) [OF assms(1-3)] by (simp add: footnote_parent_ok_def)
qed

section \<open>Rows after the batch\<close>

lemma planned_by_row:
  assumes "planned_run E db source derived ps plan" "p \<in> set ps" "r \<in> set (qd_bindings db)"
    and "pq_unitID p = qb_UnitID (br_Binding r)"
  shows "binding_ident (br_Binding r) = ident_of (pq_derived p)" "qb_SurahID (br_Binding r) = qs_SurahID source"
    "pq_matched p \<noteq> None"
proof -
  note reg = run_okD(1) [OF planned_runD(1) [OF assms(1) refl]]
  show "pq_matched p \<noteq> None" using fresh_id_new [OF assms(1,2) _ assms(3)] assms(4) by blast
  with planned_id_cases [OF assms(1,2)] obtain q where q: "q \<in> set (surah_active db (qs_SurahID source))"
    "pq_unitID p = qb_UnitID (br_Binding q)" "binding_ident (br_Binding q) = ident_of (pq_derived p)" by blast
  have "q = r" by (rule rows_by_id [OF reg _ assms(3)]) (use q assms(4) in \<open>simp_all add: surah_active_set\<close>)
  with q show "binding_ident (br_Binding r) = ident_of (pq_derived p)" "qb_SurahID (br_Binding r) = qs_SurahID source"
    by (simp_all add: surah_active_set)
qed

lemma final_parent_none:
  assumes "planned_run E db source derived ps plan" "r \<in> set (qd_bindings db)"
    and "unit_row db (qb_UnitID (br_Binding r)) = Some u" "u_ParentUnitID u = None"
    and "qb_Role (br_Binding r) \<noteq> QuranUnitRoleFootnote"
  shows "u_ParentUnitID (final_unit db plan u) = None"
proof (cases "find (\<lambda>up. qu_ID up = u_ID u) (qp_Updates plan)")
  case None
  then show ?thesis using assms(4) by (simp add: final_unit_def updated_unit_def)
next
  case (Some up)
  then have up: "up \<in> set (qp_Updates plan)" "qu_ID up = u_ID u" by (auto simp: find_Some_iff)
  from up(1) obtain p where p: "p \<in> set ps" "up = quran_update p (parent_id ps p)"
    by (auto simp: plan_mints [OF assms(1)] moved_set)
  have "pq_unitID p = qb_UnitID (br_Binding r)"
    using up(2) p(2) unit_row_id [OF assms(3)] by (simp add: quran_update_def Let_def)
  from planned_by_row(1) [OF assms(1) p(1) assms(2) this] have "dq_role (pq_derived p) \<noteq> QuranUnitRoleFootnote"
    using assms(5) by (simp add: binding_ident_def ident_of_def)
  with parent_role [OF assms(1) p(1)] have "parent_id ps p = None" by simp
  with Some p(2) show ?thesis by (simp add: final_unit_def updated_unit_def quran_update_def Let_def)
qed

lemma final_footnote:
  assumes "planned_run E db source derived ps plan" "r \<in> set (qd_bindings (after_batch db plan))"
    and "qb_SurahID (br_Binding r) = qs_SurahID source" "row_active (after_batch db plan) r"
    and "qb_Role (br_Binding r) = QuranUnitRoleFootnote"
  shows "footnote_parent_ok (after_batch db plan) (br_Binding r)"
proof -
  from final_surah_active [OF assms(1,2)] assms(3,4) obtain p where p: "p \<in> set ps" "qb_UnitID (br_Binding r) = pq_unitID p"
    by blast
  note st = settled_row [OF assms(1,2) p]
  have "dq_role (pq_derived p) = QuranUnitRoleFootnote"
    using st assms(5) by (simp add: binding_settled_def Let_def binding_ident_def ident_of_def)
  from settled_footnote [OF assms(1) p(1) this assms(2) st] show ?thesis .
qed

text \<open>The identity half of \<open>unit_fits\<close>, which the batch never touches.\<close>

definition unit_named :: "unit_env \<Rightarrow> QuranCitableUnitBinding \<Rightarrow> CitableUnit \<Rightarrow> bool" where
  "unit_named E b u \<longleftrightarrow> u_Corpus u = UnitCorpusQuran \<and> u_ID u = env_uuid5 E (binding_name b u) \<and>
     u_Anchor u = QuranAnchorFor (qb_SurahID b) (qb_AyahNumber b) (qb_Ordinal b) \<and>
     u_Kind u = role_kind (qb_Role b) \<and> (qb_Role b \<noteq> QuranUnitRoleFootnote \<longrightarrow> u_ParentUnitID u = None)"

lemma unit_fits_named:
  "unit_fits E db b u \<longleftrightarrow> unit_named E b u \<and>
     (qb_Role b = QuranUnitRoleFootnote \<longrightarrow> u_Lifecycle u = UnitLifecycleActive \<longrightarrow> footnote_parent_ok db b)"
  by (auto simp: unit_fits_def unit_named_def)

lemma final_named:
  assumes "planned_run E db source derived ps plan" "r \<in> set (qd_bindings (after_batch db plan))"
  obtains u where "unit_row (after_batch db plan) (qb_UnitID (br_Binding r)) = Some u"
    "unit_named E (br_Binding r) u" "binding_plain (br_Binding r)"
  using assms
proof (cases rule: final_binding_cases)
  case (old q)
  note reg = run_okD(1) [OF planned_runD(1) [OF assms(1) refl]]
  obtain u where u: "unit_row db (qb_UnitID (br_Binding q)) = Some u" "unit_fits E db (br_Binding q) u"
    "binding_plain (br_Binding q)" using row_unit [OF reg old(1)] .
  have named: "unit_named E (br_Binding q) u" using u(2) by (simp add: unit_fits_named)
  have "qb_Role (br_Binding q) \<noteq> QuranUnitRoleFootnote \<longrightarrow> u_ParentUnitID (final_unit db plan u) = None"
    using final_parent_none [OF assms(1) old(1) u(1)] named by (simp add: unit_named_def)
  with named have "unit_named E (br_Binding r) (final_unit db plan u)"
    by (simp add: unit_named_def old(2)) (simp add: binding_name_def)
  moreover have "unit_row (after_batch db plan) (qb_UnitID (br_Binding r)) = Some (final_unit db plan u)"
    using unit_row_old [OF u(1), of plan] by (simp add: final_row old(2))
  ultimately show thesis using u(3) old(2) by (intro that) simp_all
next
  case (new p)
  let ?m = "mintQuranUnit E (qs_SurahID source) p (parent_id ps p)"
  let ?u = "stored_unit db (qm_Unit ?m)"
  have p: "p \<in> set ps" "pq_matched p = None" using new(1) by (simp_all add: fresh_set)
  note shape = planned_in(3) [OF assms(1) p(1)]
  have id: "qb_UnitID (br_Binding r) = pq_unitID p" by (simp add: new(2) bound_row_def)
  note st = settled_row [OF assms p(1) id]
  obtain u where u: "unit_row (after_batch db plan) (pq_unitID p) = Some u" "unit_settled ps p u"
    using planned_settled [OF assms(1) p(1)] .
  have fin: "u = final_unit db plan ?u" using u(1) fresh_row(1) [OF assms(1) p] by (simp add: final_row)
  have sel: "u_Corpus u = UnitCorpusQuran" "u_Occurrence u = pq_occurrence p"
    "u_Anchor u = QuranAnchorFor (qs_SurahID source) (dq_ayahNumber (pq_derived p)) (pq_ordinal p)"
    "u_ID u = pq_unitID p"
    by (simp_all add: fin) (simp_all add: stored_unit_def)
  have "binding_name (br_Binding r) u = derived_name (qs_SurahID source) (pq_derived p) (pq_occurrence p)"
    using st u(2) sel(2) by (simp add: binding_name_def derived_name_def binding_settled_def Let_def unit_settled_def
        binding_ident_def ident_of_def)
  moreover have "dq_role (pq_derived p) \<noteq> QuranUnitRoleFootnote \<longrightarrow> parent_id ps p = None"
    using parent_role [OF assms(1) p(1)] by blast
  ultimately have "unit_named E (br_Binding r) u"
    using fresh_name(1) [OF assms(1) p] st u(2) sel kind_shape(1) [OF shape]
    by (simp add: unit_named_def binding_settled_def unit_settled_def Let_def binding_ident_def ident_of_def)
  with u(1) st id show thesis by (intro that) (simp_all add: binding_settled_def Let_def)
qed

lemma final_row_ok:
  assumes "planned_run E db source derived ps plan" "r \<in> set (qd_bindings (after_batch db plan))"
  shows "row_ok E (after_batch db plan) (br_Binding r)"
proof -
  let ?db = "after_batch db plan"
  note reg = run_okD(1) [OF planned_runD(1) [OF assms(1) refl]]
  obtain u where u: "unit_row ?db (qb_UnitID (br_Binding r)) = Some u" "unit_named E (br_Binding r) u"
    "binding_plain (br_Binding r)" using final_named [OF assms] .
  have "footnote_parent_ok ?db (br_Binding r)"
    if role: "qb_Role (br_Binding r) = QuranUnitRoleFootnote" and act: "u_Lifecycle u = UnitLifecycleActive"
  proof (cases "qb_SurahID (br_Binding r) = qs_SurahID source")
    case True
    have "row_active ?db r" using u(1) act by (simp add: row_active_def is_active_def)
    from final_footnote [OF assms True this role] show ?thesis .
  next
    case other: False
    from assms show ?thesis
    proof (cases rule: final_binding_cases)
      case (new p)
      with other show ?thesis by (simp add: bound_row_def)
    next
      case (old q)
      then have q: "qb_SurahID (br_Binding q) \<noteq> qs_SurahID source" using other by simp
      note same = other_rows [OF assms(1) old(1) q]
      have rq: "r = q" using old(2) same(1) by simp
      obtain v where v: "unit_row db (qb_UnitID (br_Binding q)) = Some v" "unit_fits E db (br_Binding q) v"
        using row_unit [OF reg old(1)] .
      then have "v = u" using same(2) u(1) rq by simp
      with v(2) role act rq have "footnote_parent_ok db (br_Binding q)" by (simp add: unit_fits_def)
      from other_footnote [OF assms(1) old(1) q this] rq show ?thesis by simp
    qed
  qed
  with u show ?thesis by (auto simp: row_ok_def unit_fits_named)
qed

lemma final_slots:
  assumes "planned_run E db source derived ps plan"
    and "r \<in> set (qd_bindings (after_batch db plan))" "q \<in> set (qd_bindings (after_batch db plan))"
    and "row_active (after_batch db plan) r" "row_active (after_batch db plan) q" "row_slot r = row_slot q"
  shows "r = q"
proof (cases "qb_SurahID (br_Binding r) = qs_SurahID source")
  case True
  then have "qb_SurahID (br_Binding q) = qs_SurahID source" using assms(6) by (simp add: row_slot_def)
  with True assms final_surah_active [OF assms(1)] obtain p p' where
    p: "p \<in> set ps" "qb_UnitID (br_Binding r) = pq_unitID p" "p' \<in> set ps" "qb_UnitID (br_Binding q) = pq_unitID p'" by metis
  note st = settled_row [OF assms(1,2) p(1,2)] settled_row [OF assms(1,3) p(3,4)]
  have "binding_ident (br_Binding r) = binding_ident (br_Binding q)"
    using slot_bindings [of "br_Binding r" "br_Binding q"] st assms(6) by (simp add: row_slot_def binding_settled_def Let_def)
  then have "p = p'" using st planned_unique(2) [OF assms(1) p(1,3)] by (simp add: binding_settled_def Let_def)
  with p show ?thesis by (intro final_row_by_id [OF assms(1-3)]) simp
next
  case False
  note reg = run_okD(1) [OF planned_runD(1) [OF assms(1) refl]]
  have old: "x \<in> set (qd_bindings db) \<and> row_active db x"
    if "x \<in> set (qd_bindings (after_batch db plan))" "qb_SurahID (br_Binding x) \<noteq> qs_SurahID source"
      "row_active (after_batch db plan) x" for x
    using assms(1) that(1)
  proof (cases rule: final_binding_cases)
    case (new p)
    with that(2) show ?thesis by (simp add: bound_row_def)
  next
    case (old y)
    then have "qb_SurahID (br_Binding y) \<noteq> qs_SurahID source" using that(2) by simp
    from other_rows [OF assms(1) old(1) this] old that(3) show ?thesis by (simp add: row_active_def is_active_def)
  qed
  have "qb_SurahID (br_Binding q) \<noteq> qs_SurahID source" using False assms(6) by (simp add: row_slot_def)
  with old [OF assms(2) False assms(4)] old [OF assms(3) _ assms(5)] registry_okD(7) [OF reg, of r q] assms(6)
  show ?thesis by simp
qed

section \<open>Primary units\<close>

text \<open>The planner never gives up an active primary unit.\<close>

lemma primary_kept:
  assumes "planned_run E db source derived ps plan" "q \<in> set (surah_active db (qs_SurahID source))"
    and "qb_Role (br_Binding q) = QuranUnitRolePrimaryText"
  shows "\<exists>p\<in>set ps. pq_unitID p = qb_UnitID (br_Binding q)"
proof -
  let ?snap = "QuranSnapshot db (qs_SurahID source)"
  note pr = planned_runD [OF assms(1) refl]
  note reg = run_okD(1) [OF pr(1)]
  have "(record_of db q, p) \<notin> set (superseded ?snap ps)" for p
  proof
    assume sup: "(record_of db q, p) \<in> set (superseded ?snap ps)"
    then have p: "p \<in> set ps" "pq_matched p = None" "act ?snap (pq_derived p) = Some (record_of db q)"
      by (simp_all add: superseded_set)
    then have "dq_role (pq_derived p) \<noteq> QuranUnitRolePrimaryText"
      using planned_in(2) [OF assms(1) p(1)] by (simp add: planned_ok_def Let_def)
    moreover obtain q' where q': "q' \<in> set (surah_active db (qs_SurahID source))" "record_of db q = record_of db q'"
      "quranBindingSlotKey (br_Binding q') = slot_of (pq_derived p)" using p(3) snapshot_act [OF reg] by blast
    have "binding_ident (br_Binding q) = ident_of (pq_derived p)"
    proof -
      have same: "br_Binding q' = br_Binding q" using q'(2) record_of_sel(1) by metis
      have "q \<in> set (qd_bindings db)" using assms(2) by (simp add: surah_active_set)
      from slot_binding [OF row_plain [OF reg this] planned_in(3) [OF assms(1) p(1)]] q'(3) same show ?thesis by simp
    qed
    ultimately show False using assms(3) by (simp add: binding_ident_def ident_of_def)
  qed
  moreover have "record_of db q \<notin> set (absent (map slot_of derived) (active_records db (qs_SurahID source)))"
    using assms(1,3) by (auto simp: planned_run_def plan_form_def list_all_iff QuranSnapshot_def)
  ultimately show ?thesis using active_fate [OF assms(1,2)] by blast
qed

lemma primary_planned:
  assumes "planned_run E db source derived ps plan" "p \<in> set ps"
  shows "\<exists>t\<in>set ps. dq_ayahNumber (pq_derived t) = dq_ayahNumber (pq_derived p) \<and>
    dq_role (pq_derived t) = QuranUnitRolePrimaryText"
proof -
  note pr = planned_runD [OF assms(1) refl]
  let ?n = "dq_ayahNumber (pq_derived p)"
  let ?group = "filter (\<lambda>d. dq_ayahNumber d = ?n) derived"
  note ok = run_okD(2) [OF pr(1)]
  have "positions_from 0 ?group" using ok by (simp add: derived_ok_def)
  moreover have "pq_derived p \<in> set ?group" using planned_in(1) [OF assms] by simp
  ultimately obtain d ds where d: "?group = d # ds" "dq_position d = 0" by (cases ?group) auto
  then have "d \<in> set ?group" by simp
  then have "d \<in> set derived" "dq_ayahNumber d = ?n" by simp_all
  with ok d(2) have "dq_role d = QuranUnitRolePrimaryText" by (simp add: derived_ok_def)
  moreover obtain t where "t \<in> set ps" "pq_derived t = d" using \<open>d \<in> set derived\<close> pr(2) by (metis image_iff list.set_map)
  ultimately show ?thesis using \<open>dq_ayahNumber d = ?n\<close> by blast
qed

lemma primary_ident:
  "unit_shape E d \<Longrightarrow> dq_role d = QuranUnitRolePrimaryText \<Longrightarrow>
   ident_of d = (dq_ayahNumber d, QuranUnitRolePrimaryText, ''qpc-hafs'', '''')"
  by (simp add: unit_shape_def ident_of_def)

text \<open>The primary unit of an ayah has the first ordinal.\<close>

lemma primary_ordinal:
  assumes "planned_run E db source derived ps plan" "p \<in> set ps" "dq_role (pq_derived p) = QuranUnitRolePrimaryText"
  shows "pq_ordinal p = 1"
proof (cases "pq_matched p")
  case None
  then show ?thesis using planned_in(2) [OF assms(1,2)] assms(3) by (simp add: planned_ok_def Let_def)
next
  case (Some r)
  note reg = run_okD(1) [OF planned_runD(1) [OF assms(1) refl]]
  from matched_row [OF assms(1,2) Some] obtain q where q: "q \<in> set (surah_active db (qs_SurahID source))"
    "binding_ident (br_Binding q) = ident_of (pq_derived p)" "pq_ordinal p = qb_Ordinal (br_Binding q)" by (elim exE conjE)
  have qin: "q \<in> set (qd_bindings db)" "row_active db q" using q(1) by (simp_all add: surah_active_set)
  obtain t where t: "t \<in> set (qd_bindings db)"
    "primary_row db (qb_SurahID (br_Binding q)) (qb_AyahNumber (br_Binding q)) t"
    using registry_okD(8) [OF reg qin(1)] by (elim bexE)
  have "binding_ident (br_Binding t) = binding_ident (br_Binding q)"
    using primary_row_slot [OF reg t] q(2) primary_ident [OF planned_in(3) [OF assms(1,2)] assms(3)]
    by (simp add: binding_ident_def)
  then have "row_slot t = row_slot q"
    using slot_bindings [OF row_plain [OF reg t(1)] row_plain [OF reg qin(1)]] t(2) by (simp add: row_slot_def primary_row_def)
  moreover have "row_active db t" using t(2) by (simp add: primary_row_def)
  ultimately have "t = q" using registry_okD(7) [OF reg t(1) qin(1) _ qin(2)] by simp
  with t(2) q(3) show ?thesis by (simp add: primary_row_def)
qed

lemma final_primary_planned:
  assumes "planned_run E db source derived ps plan" "p \<in> set ps" "dq_role (pq_derived p) = QuranUnitRolePrimaryText"
  shows "\<exists>r\<in>set (qd_bindings (after_batch db plan)).
    primary_row (after_batch db plan) (qs_SurahID source) (dq_ayahNumber (pq_derived p)) r"
proof -
  obtain r where r: "r \<in> set (qd_bindings (after_batch db plan))" "binding_settled (qs_SurahID source) p r"
    using planned_binding [OF assms(1,2)] .
  have "row_active (after_batch db plan) r"
    using planned_active [OF assms(1,2)] r(2) by (simp add: row_active_def binding_settled_def Let_def)
  with r primary_ordinal [OF assms] assms(3) show ?thesis
    by (intro bexI [of _ r]) (simp_all add: primary_row_def binding_settled_def Let_def binding_ident_def ident_of_def)
qed

lemma final_primary:
  assumes "planned_run E db source derived ps plan" "r \<in> set (qd_bindings (after_batch db plan))"
  shows "\<exists>q\<in>set (qd_bindings (after_batch db plan)).
    primary_row (after_batch db plan) (qb_SurahID (br_Binding r)) (qb_AyahNumber (br_Binding r)) q"
  using assms
proof (cases rule: final_binding_cases)
  case (new p)
  then have p: "p \<in> set ps" by (simp add: fresh_set)
  from primary_planned [OF assms(1) p] obtain t where t: "t \<in> set ps" "dq_role (pq_derived t) = QuranUnitRolePrimaryText"
    "dq_ayahNumber (pq_derived t) = dq_ayahNumber (pq_derived p)" by (elim bexE conjE)
  from final_primary_planned [OF assms(1) t(1,2)] t(3) new(2) show ?thesis by (simp add: bound_row_def)
next
  case (old x)
  note reg = run_okD(1) [OF planned_runD(1) [OF assms(1) refl]]
  obtain q where q: "q \<in> set (qd_bindings db)"
    "primary_row db (qb_SurahID (br_Binding x)) (qb_AyahNumber (br_Binding x)) q"
    using registry_okD(8) [OF reg old(1)] by (elim bexE)
  have "row_active (after_batch db plan) q"
  proof (cases "qb_SurahID (br_Binding q) = qs_SurahID source")
    case True
    have "q \<in> set (surah_active db (qs_SurahID source))" using q True by (simp add: surah_active_set primary_row_def)
    then obtain p where "p \<in> set ps" "pq_unitID p = qb_UnitID (br_Binding q)"
      using primary_kept [OF assms(1)] q(2) by (auto simp: primary_row_def)
    with planned_active [OF assms(1), of p] show ?thesis by (simp add: row_active_def)
  next
    case False
    from other_rows(2) [OF assms(1) q(1) False] q(2) show ?thesis
      by (simp add: row_active_def is_active_def primary_row_def)
  qed
  then have "primary_row (after_batch db plan) (qb_SurahID (br_Binding r)) (qb_AyahNumber (br_Binding r)) (final_binding db plan q)"
    using q(2) old(2) by (simp add: primary_row_def row_active_def)
  with final_binding_old [OF q(1)] show ?thesis by blast
qed

lemma final_id_sets:
  assumes "planned_run E db source derived ps plan"
  shows "u_ID ` set (qd_units (after_batch db plan)) = (qb_UnitID \<circ> br_Binding) ` set (qd_bindings (after_batch db plan))"
proof -
  note reg = run_okD(1) [OF planned_runD(1) [OF assms refl]]
  have units: "u_ID ` set (qd_units (after_batch db plan)) = u_ID ` set (qd_units db) \<union> pq_unitID ` set (fresh_units ps)"
    by (simp add: final_units after_mints_def plan_mints [OF assms] image_Un image_image)
  have rows: "(qb_UnitID \<circ> br_Binding) ` set (qd_bindings (after_batch db plan)) =
      (qb_UnitID \<circ> br_Binding) ` set (qd_bindings db) \<union> pq_unitID ` set (fresh_units ps)"
    by (simp add: final_units after_mints_def plan_mints [OF assms] image_Un image_image bound_row_def)
  from registry_okD(3) [OF reg] show ?thesis unfolding units rows by simp
qed

lemma final_places:
  assumes "planned_run E db source derived ps plan"
  shows "distinct (map u_Anchor (qd_units (after_batch db plan)))"
    "distinct (map (binding_place \<circ> br_Binding) (qd_bindings (after_batch db plan)))"
proof -
  have "distinct (map u_Anchor (qd_units db) @ map (u_Anchor \<circ> qm_Unit) (mint_order (qp_Mints plan)))"
    using minted_places(1) [OF assms] distinct_mint_order [of "u_Anchor \<circ> qm_Unit" "qp_Mints plan"]
    unfolding distinct_append set_map set_mint_order by blast
  then show "distinct (map u_Anchor (qd_units (after_batch db plan)))"
    by (simp add: final_units after_mints_def comp_def)
  show "distinct (map (binding_place \<circ> br_Binding) (qd_bindings (after_batch db plan)))"
    using minted_places(2) [OF assms] by (simp add: final_units after_mints_def bound_row_def comp_def)
qed

lemma final_lineage:
  assumes "planned_run E db source derived ps plan" "e \<in> set (qd_lineage (after_batch db plan))"
  shows "e_PredecessorID e \<in> u_ID ` set (qd_units (after_batch db plan)) \<and>
    \<not> is_active (after_batch db plan) (e_PredecessorID e)"
proof -
  note reg = run_okD(1) [OF planned_runD(1) [OF assms(1) refl]]
  have kept: "i \<in> u_ID ` set (qd_units (after_batch db plan))" if "i \<in> u_ID ` set (qd_units db)" for i
    using that by (auto simp: final_units after_mints_def image_image image_Un)
  from assms(2) consider "e \<in> set (qd_lineage db)" | "e \<in> set (qp_Edges plan)" by (auto simp: after_batch_def)
  then show ?thesis
  proof cases
    case 1
    note old = registry_okD(9) [OF reg 1]
    have "e_PredecessorID e \<noteq> pq_unitID p" if "p \<in> set (fresh_units ps)" for p
      using old fresh_id_new [OF assms(1), of p] that registry_okD(3) [OF reg] by (fastforce simp: fresh_set)
    then show ?thesis using old kept by (auto simp: final_active [OF assms(1)] mints_active [OF assms(1)])
  next
    case 2
    note ret = edge_ends(1) [OF assms(1) 2]
    have "is_active db (e_PredecessorID e)" using retire_active(1) [OF assms(1)] ret by (auto simp: retire_ids_def)
    then obtain u where "unit_row db (e_PredecessorID e) = Some u" by (auto simp: is_active_def split: option.splits)
    from unit_row_id [OF this] have "e_PredecessorID e \<in> u_ID ` set (qd_units db)" by (metis imageI)
    with kept ret show ?thesis by (simp add: final_active [OF assms(1)])
  qed
qed

text \<open>The invariant survives the batch.\<close>

theorem batch_registry_ok:
  assumes "planned_run E db source derived ps plan"
  shows "registry_ok E (after_batch db plan)"
  unfolding registry_ok_def
  using final_ids [OF assms] final_places [OF assms] final_id_sets [OF assms] final_row_ok [OF assms]
    final_slots [OF assms] final_primary [OF assms] final_lineage [OF assms]
  by (intro conjI ballI impI) simp_all

section \<open>The checks before the commit\<close>

definition primaries_derived :: "quran_db \<Rightarrow> int \<Rightarrow> derivedQuranUnit list \<Rightarrow> bool" where
  "primaries_derived db s derived \<longleftrightarrow>
     (\<forall>a\<in>set (qd_ayahs db). ay_SurahID a = s \<longrightarrow> (case ay_Text a of Some t \<Rightarrow> \<not> sql_blank t | None \<Rightarrow> False) \<longrightarrow>
       (\<exists>d\<in>set derived. dq_role d = QuranUnitRolePrimaryText \<and> dq_ayahNumber d = ay_AyahNumber a))"

lemma final_active_ids:
  assumes "planned_run E db source derived ps plan"
  shows "(qb_UnitID \<circ> br_Binding) ` set (surah_active (after_batch db plan) (qs_SurahID source)) = pq_unitID ` set ps"
proof (intro equalityI subsetI)
  fix i assume "i \<in> (qb_UnitID \<circ> br_Binding) ` set (surah_active (after_batch db plan) (qs_SurahID source))"
  then obtain r where r: "r \<in> set (qd_bindings (after_batch db plan))" "i = qb_UnitID (br_Binding r)"
    "qb_SurahID (br_Binding r) = qs_SurahID source \<and> row_active (after_batch db plan) r"
    by (auto simp: surah_active_set)
  from r(3) [unfolded final_surah_active [OF assms r(1)]] r(2) show "i \<in> pq_unitID ` set ps" by auto
next
  fix i assume "i \<in> pq_unitID ` set ps"
  then obtain p where p: "p \<in> set ps" "i = pq_unitID p" by auto
  obtain r where r: "r \<in> set (qd_bindings (after_batch db plan))" "binding_settled (qs_SurahID source) p r"
    using planned_binding [OF assms p(1)] .
  then have "r \<in> set (surah_active (after_batch db plan) (qs_SurahID source))"
    using planned_active [OF assms p(1)] by (simp add: surah_active_set binding_settled_def Let_def row_active_def)
  moreover have "i = (qb_UnitID \<circ> br_Binding) r" using r(2) p(2) by (simp add: binding_settled_def Let_def)
  ultimately show "i \<in> (qb_UnitID \<circ> br_Binding) ` set (surah_active (after_batch db plan) (qs_SurahID source))" by blast
qed

lemma final_surah_distinct:
  assumes "planned_run E db source derived ps plan"
  shows "distinct (map (qb_UnitID \<circ> br_Binding) (surah_active (after_batch db plan) s))"
  using final_ids(2) [OF assms] by (simp add: surah_active_def surah_bindings_def distinct_map_filter)

lemma final_count:
  assumes "planned_run E db source derived ps plan"
  shows "length (surah_active (after_batch db plan) (qs_SurahID source)) = length derived"
proof -
  have "length (surah_active (after_batch db plan) (qs_SurahID source)) =
      card ((qb_UnitID \<circ> br_Binding) ` set (surah_active (after_batch db plan) (qs_SurahID source)))"
    using distinct_card [OF final_surah_distinct [OF assms, of "qs_SurahID source"]] by simp
  also have "\<dots> = card (set (map pq_unitID ps))" unfolding final_active_ids [OF assms] by simp
  also have "\<dots> = length ps" using distinct_card [OF planned_ids_distinct(1) [OF assms]] by simp
  also have "\<dots> = length derived" using planned_runD(2) [OF assms refl] by (metis length_map)
  finally show ?thesis .
qed

lemma one_filter_unique:
  assumes "distinct xs" "x \<in> set xs" "P x" "\<And>y. y \<in> set xs \<Longrightarrow> P y \<Longrightarrow> y = x"
  shows "length (filter P xs) = 1"
proof -
  have "set (filter P xs) = {x}" unfolding set_filter using assms(2-4) by blast
  moreover have "distinct (filter P xs)" using assms(1) by simp
  ultimately show ?thesis using distinct_card by fastforce
qed

lemma final_primary_count:
  assumes "planned_run E db source derived ps plan" "d \<in> set derived" "dq_role d = QuranUnitRolePrimaryText"
  shows "primary_count (after_batch db plan) (qs_SurahID source) (dq_ayahNumber d) = 1"
proof -
  let ?db = "after_batch db plan" and ?s = "qs_SurahID source"
  let ?P = "\<lambda>r. qb_AyahNumber (br_Binding r) = dq_ayahNumber d \<and> qb_Role (br_Binding r) = QuranUnitRolePrimaryText"
  obtain p where p: "p \<in> set ps" "pq_derived p = d"
    using assms(2) planned_runD(2) [OF assms(1) refl] by (metis image_iff list.set_map)
  obtain r where r: "r \<in> set (qd_bindings ?db)" "binding_settled ?s p r" using planned_binding [OF assms(1) p(1)] .
  have rin: "r \<in> set (surah_active ?db ?s)"
    using r planned_active [OF assms(1) p(1)] by (simp add: surah_active_set binding_settled_def Let_def row_active_def)
  have "length (filter ?P (surah_active ?db ?s)) = 1"
  proof (rule one_filter_unique [OF _ rin])
    show "distinct (surah_active ?db ?s)" using final_surah_distinct [OF assms(1), of ?s] by (simp add: distinct_map)
    show "?P r" using r(2) p(2) assms(3) by (simp add: binding_settled_def Let_def binding_ident_def ident_of_def)
    fix q assume q: "q \<in> set (surah_active ?db ?s)" and P: "?P q"
    then have qin: "q \<in> set (qd_bindings ?db)" by (simp add: surah_active_set)
    obtain t where t: "t \<in> set ps" "qb_UnitID (br_Binding q) = pq_unitID t"
      using final_surah_active [OF assms(1) qin] q by (auto simp: surah_active_set)
    have "ident_of (pq_derived t) = binding_ident (br_Binding q)"
      using settled_row [OF assms(1) qin t] by (simp add: binding_settled_def Let_def)
    then have "dq_role (pq_derived t) = QuranUnitRolePrimaryText" "dq_ayahNumber (pq_derived t) = dq_ayahNumber d"
      using P by (simp_all add: ident_of_def binding_ident_def)
    then have "ident_of (pq_derived t) = ident_of (pq_derived p)"
      using primary_ident [OF planned_in(3) [OF assms(1) t(1)]] primary_ident [OF planned_in(3) [OF assms(1) p(1)]] p(2) assms(3)
      by simp
    from planned_unique(2) [OF assms(1) t(1) p(1) this] t(2) r(2) have "qb_UnitID (br_Binding q) = qb_UnitID (br_Binding r)"
      by (simp add: binding_settled_def Let_def)
    from final_row_by_id [OF assms(1) qin r(1) this] show "q = r" .
  qed
  moreover have "filter (\<lambda>r. ?P r \<and> is_active ?db (qb_UnitID (br_Binding r))) (surah_bindings ?db ?s) =
      filter ?P (surah_active ?db ?s)"
    by (simp add: surah_active_def row_active_def conj_commute cong: filter_cong)
  ultimately show ?thesis by (simp add: primary_count_def conj_assoc)
qed

lemma batch_asserts:
  assumes "planned_run E db source derived ps plan" "primaries_derived db (qs_SurahID source) derived"
  shows "assertQuranRegistryInvariants (after_batch db plan) plan"
  unfolding assertQuranRegistryInvariants_def plan_keys [OF assms(1)]
proof (intro conjI)
  let ?db = "after_batch db plan" and ?s = "qs_SurahID source"
  show "int (length (filter (\<lambda>r. is_active ?db (qb_UnitID (br_Binding r))) (surah_bindings ?db ?s))) = int (length derived)"
    using final_count [OF assms(1)] by (simp add: surah_active_def row_active_def [abs_def])
  show "list_all (\<lambda>r. case unit_row ?db (qb_UnitID (br_Binding r)) of Some u \<Rightarrow> u_Corpus u = UnitCorpusQuran | None \<Rightarrow> True)
      (surah_bindings ?db ?s)"
    unfolding list_all_iff
  proof
    fix r assume "r \<in> set (surah_bindings ?db ?s)"
    then have "row_ok E ?db (br_Binding r)" using final_row_ok [OF assms(1)] by (simp add: surah_bindings_def)
    then show "case unit_row ?db (qb_UnitID (br_Binding r)) of Some u \<Rightarrow> u_Corpus u = UnitCorpusQuran | None \<Rightarrow> True"
      by (auto simp: row_ok_def unit_fits_def)
  qed
  have ayahs: "qd_ayahs ?db = qd_ayahs db" by (simp add: after_batch_def)
  show "list_all (\<lambda>a. ay_SurahID a = ?s \<and> (case ay_Text a of Some t \<Rightarrow> \<not> sql_blank t | None \<Rightarrow> False) \<longrightarrow>
      primary_count ?db ?s (ay_AyahNumber a) = 1) (qd_ayahs ?db)"
    unfolding list_all_iff ayahs
  proof (intro ballI impI)
    fix a assume "a \<in> set (qd_ayahs db)"
      and "ay_SurahID a = ?s \<and> (case ay_Text a of Some t \<Rightarrow> \<not> sql_blank t | None \<Rightarrow> False)"
    with assms(2) obtain d where "d \<in> set derived" "dq_role d = QuranUnitRolePrimaryText" "dq_ayahNumber d = ay_AyahNumber a"
      unfolding primaries_derived_def by (metis (no_types, lifting))
    with final_primary_count [OF assms(1), of d] show "primary_count ?db ?s (ay_AyahNumber a) = 1" by simp
  qed
  show "list_all (\<lambda>r. qb_Role (br_Binding r) = QuranUnitRoleFootnote \<and> is_active ?db (qb_UnitID (br_Binding r)) \<longrightarrow>
      footnote_parent_ok ?db (br_Binding r)) (surah_bindings ?db ?s)"
    unfolding list_all_iff using final_footnote [OF assms(1)] by (simp add: surah_bindings_def row_active_def)
qed

text \<open>In the invariant the parent of an active unit is active.\<close>

lemma registry_parents:
  assumes "registry_ok E db"
  shows "parent_invariant db ids"
  unfolding parent_invariant_def list_all_iff
proof (intro ballI impI)
  fix u assume u: "u \<in> set (qd_units db)" "u_Lifecycle u = UnitLifecycleActive"
  obtain r where r: "r \<in> set (qd_bindings db)" "u_ID u = qb_UnitID (br_Binding r)"
    using registry_okD(3) [OF assms] u(1) by (metis (no_types, lifting) comp_apply image_iff)
  obtain v where v: "unit_row db (qb_UnitID (br_Binding r)) = Some v" "unit_fits E db (br_Binding r) v"
    using row_unit [OF assms r(1)] .
  have "v = u" using find_unit_in [OF registry_okD(1) [OF assms] u(1)] v(1) r(2) by (simp add: unit_row_find)
  with u v show "case u_ParentUnitID u of None \<Rightarrow> True | Some p \<Rightarrow> u_ID u \<in> set ids \<or> p \<in> set ids \<longrightarrow> is_active db p"
    by (cases "qb_Role (br_Binding r) = QuranUnitRoleFootnote")
      (auto simp: unit_fits_def footnote_parent_ok_def split: option.splits)
qed

end
