(* ===== verification/Quran_Reconcile.thy ===== *)
theory Quran_Reconcile
  imports Quran_Invariant
begin

text \<open>
  The reconcile loop against its contract: after a success the active slots of the surah are those
  of its derivation, the registry keeps its invariant under interference, and without interference
  the first attempt decides.
\<close>

section \<open>The abstract registry\<close>

text \<open>
  What a reader sees of a surah: for every slot the content hash, the page, the position, the slot
  of the parent and the time of the source row.
\<close>

type_synonym slot_view = "string \<times> int option \<times> int \<times> string \<times> int"

definition parent_slot_of :: "quran_db \<Rightarrow> string option \<Rightarrow> string" where
  "parent_slot_of db p = (case p of None \<Rightarrow> '''' | Some i \<Rightarrow>
     (case binding_of db i of Some b \<Rightarrow> quranBindingSlotKey b | None \<Rightarrow> ''''))"

definition row_view :: "quran_db \<Rightarrow> binding_row \<Rightarrow> slot_view" where
  "row_view db r = (case unit_row db (qb_UnitID (br_Binding r)) of
     Some u \<Rightarrow> (u_ContentHash u, u_PageID u, u_Position u, parent_slot_of db (u_ParentUnitID u),
       qb_SourceUpdatedAt (br_Binding r))
   | None \<Rightarrow> ('''', None, 0, '''', 0))"

definition registry_view :: "quran_db \<Rightarrow> int \<Rightarrow> string \<rightharpoonup> slot_view" where
  "registry_view db s = map_of (map (\<lambda>r. (quranBindingSlotKey (br_Binding r), row_view db r)) (surah_active db s))"

definition derived_slot :: "derivedQuranUnit \<Rightarrow> slot_view" where
  "derived_slot d = (dq_contentHash d, dq_pageNumber d, dq_position d, dq_parentSlot d, dq_sourceUpdatedAt d)"

definition derived_view :: "derivedQuranUnit list \<Rightarrow> string \<rightharpoonup> slot_view" where
  "derived_view derived = map_of (map (\<lambda>d. (slot_of d, derived_slot d)) derived)"

lemma parent_none_slot:
  assumes "planned_run E db source derived ps plan" "p \<in> set ps"
  shows "dq_role (pq_derived p) \<noteq> QuranUnitRoleFootnote \<Longrightarrow> dq_parentSlot (pq_derived p) = ''''"
  using planned_in(3) [OF assms] by (simp add: unit_shape_def)

lemma settled_slot:
  assumes "planned_run E db source derived ps plan" "p \<in> set ps" "binding_settled (qs_SurahID source) p r"
  shows "quranBindingSlotKey (br_Binding r) = slot_of (pq_derived p)"
  using slot_binding [of "br_Binding r" E "pq_derived p"] planned_in(3) [OF assms(1,2)] assms(3)
  by (simp add: binding_settled_def Let_def)

lemma settled_view:
  assumes "planned_run E db source derived ps plan" "p \<in> set ps"
    and "r \<in> set (qd_bindings (after_batch db plan))" "binding_settled (qs_SurahID source) p r"
  shows "row_view (after_batch db plan) r = derived_slot (pq_derived p)"
proof -
  let ?db = "after_batch db plan"
  obtain u where u: "unit_row ?db (pq_unitID p) = Some u" "unit_settled ps p u" using planned_settled [OF assms(1,2)] .
  have "parent_slot_of ?db (parent_id ps p) = dq_parentSlot (pq_derived p)"
  proof (cases "parent_id ps p")
    case None
    then have "dq_role (pq_derived p) \<noteq> QuranUnitRoleFootnote" using parent_role [OF assms(1,2)] by blast
    with None parent_none_slot [OF assms(1,2)] show ?thesis by (simp add: parent_slot_of_def)
  next
    case (Some i)
    with planned_parent [OF assms(1,2)] obtain t where t: "t \<in> set ps" "i = pq_unitID t"
      "slot_of (pq_derived t) = dq_parentSlot (pq_derived p)" by (auto split: if_splits)
    obtain rt where rt: "rt \<in> set (qd_bindings ?db)" "binding_settled (qs_SurahID source) t rt"
      using planned_binding [OF assms(1) t(1)] .
    then have "binding_of ?db i = Some (br_Binding rt)"
      using binding_of_row [OF final_ids(2) [OF assms(1)] rt(1)] t(2) by (simp add: binding_settled_def Let_def)
    with settled_slot [OF assms(1) t(1) rt(2)] t(3) Some show ?thesis by (simp add: parent_slot_of_def)
  qed
  with u assms(4) show ?thesis
    by (simp add: row_view_def derived_slot_def binding_settled_def unit_settled_def Let_def)
qed

lemma view_keys_distinct:
  assumes "registry_ok E db"
  shows "distinct (map fst (map (\<lambda>r. (quranBindingSlotKey (br_Binding r), v r)) (surah_active db s)))"
proof -
  have "inj_on (\<lambda>r. quranBindingSlotKey (br_Binding r)) (set (surah_active db s))"
    using registry_okD(7) [OF assms] by (auto simp: inj_on_def surah_active_set row_slot_def)
  moreover have "distinct (surah_active db s)"
    using distinct_rows [OF assms] by (simp add: surah_active_def surah_bindings_def)
  ultimately show ?thesis by (simp add: comp_def distinct_map)
qed

theorem batch_refines:
  assumes "planned_run E db source derived ps plan"
  shows "registry_view (after_batch db plan) (qs_SurahID source) = derived_view derived"
proof -
  let ?db = "after_batch db plan" and ?s = "qs_SurahID source"
  let ?rows = "map (\<lambda>r. (quranBindingSlotKey (br_Binding r), row_view ?db r)) (surah_active ?db ?s)"
  let ?slots = "map (\<lambda>d. (slot_of d, derived_slot d)) derived"
  note pr = planned_runD [OF assms refl]
  have "set ?rows = set ?slots"
  proof (intro equalityI subsetI)
    fix x assume "x \<in> set ?rows"
    then obtain r where r: "r \<in> set (surah_active ?db ?s)" "x = (quranBindingSlotKey (br_Binding r), row_view ?db r)" by auto
    then have rin: "r \<in> set (qd_bindings ?db)" by (simp add: surah_active_set)
    from final_surah_active [OF assms rin] r(1) obtain p where p: "p \<in> set ps" "qb_UnitID (br_Binding r) = pq_unitID p"
      by (auto simp: surah_active_set)
    note st = settled_row [OF assms rin p]
    from r(2) settled_slot [OF assms p(1) st] settled_view [OF assms p(1) rin st] planned_in(1) [OF assms p(1)]
    show "x \<in> set ?slots" by auto
  next
    fix x assume "x \<in> set ?slots"
    then obtain p where p: "p \<in> set ps" "x = (slot_of (pq_derived p), derived_slot (pq_derived p))"
      using pr(2) by auto
    obtain r where r: "r \<in> set (qd_bindings ?db)" "binding_settled ?s p r" using planned_binding [OF assms p(1)] .
    then have "r \<in> set (surah_active ?db ?s)"
      using planned_active [OF assms p(1)] by (simp add: surah_active_set binding_settled_def Let_def row_active_def)
    with p(2) settled_slot [OF assms p(1) r(2)] settled_view [OF assms p(1) r] show "x \<in> set ?rows"
      by (auto intro!: rev_image_eqI [of r])
  qed
  moreover have "distinct (map fst ?slots)"
    using derived_ok_slots [OF run_okD(2) [OF pr(1)]] by (simp add: comp_def)
  ultimately show ?thesis unfolding registry_view_def derived_view_def
    using map_of_inject_set view_keys_distinct [OF batch_registry_ok [OF assms]] by blast
qed

section \<open>One application\<close>

definition stale_after :: "quran_surah_row \<Rightarrow> int \<Rightarrow> bool" where
  "stale_after r t \<longleftrightarrow> (case su_StaleAt r of None \<Rightarrow> False | Some u \<Rightarrow> t < u)"

lemma not_stale_after: "\<not> stale_after r t \<longleftrightarrow> (case su_StaleAt r of None \<Rightarrow> True | Some u \<Rightarrow> u \<le> t)"
  by (auto simp: stale_after_def split: option.splits)

lemma apply_report: "ApplyQuranReconcile (plan\<lparr>qp_Report := x\<rparr>) db = ApplyQuranReconcile plan db"
proof -
  have "plan_stmts (plan\<lparr>qp_Report := x\<rparr>) = plan_stmts plan" "touched_ids (plan\<lparr>qp_Report := x\<rparr>) = touched_ids plan"
    "assertQuranRegistryInvariants d (plan\<lparr>qp_Report := x\<rparr>) = assertQuranRegistryInvariants d plan" for d
    by (simp_all add: plan_stmts_def touched_ids_def assertQuranRegistryInvariants_def)
  moreover have "qp_SurahID (plan\<lparr>qp_Report := x\<rparr>) = qp_SurahID plan" "qp_LoadedAt (plan\<lparr>qp_Report := x\<rparr>) = qp_LoadedAt plan"
    "qp_BasedOn (plan\<lparr>qp_Report := x\<rparr>) = qp_BasedOn plan" by simp_all
  ultimately show ?thesis by (simp only: ApplyQuranReconcile_def)
qed

lemma apply_planned:
  assumes "planned_run E db source derived ps plan" "primaries_derived db (qs_SurahID source) derived"
    and "distinct (map su_ID (qd_surahs db))"
    and "find (\<lambda>r. su_ID r = qs_SurahID source) (qd_surahs db) = Some r"
    and "\<not> stale_after r (qs_LoadedAt source)"
  shows "ApplyQuranReconcile plan db = (Inr (), after_batch db plan)"
proof -
  have "surah_ready db (qp_SurahID plan) (qp_LoadedAt plan)"
    using assms(3-5) by (auto simp: surah_ready_def plan_keys [OF assms(1)] not_stale_after find_Some_iff
        intro!: bexI [of _ r])
  from plan_batch_runs [OF assms(1) this]
  show ?thesis
    using assms(4,5) batch_asserts [OF assms(1,2)] registry_parents [OF batch_registry_ok [OF assms(1)]]
    by (simp add: ApplyQuranReconcile_def plan_keys [OF assms(1)] not_stale_after cong: option.case_cong)
qed

section \<open>Clean tables\<close>

text \<open>
  What the loop needs of the tables: the invariant, keys of the surahs, no text that SQL sees and
  Go trims away, and for the units that derive, identifiers without NUL or bar and a UUIDv5 that
  separates the natural keys in reach.
\<close>

definition surah_clean :: "quran_env \<Rightarrow> int \<Rightarrow> quran_db \<Rightarrow> bool" where
  "surah_clean Q s db \<longleftrightarrow> registry_ok (qe_unit Q) db \<and> distinct (map su_ID (qd_surahs db)) \<and>
     list_all (\<lambda>a. case ay_Text a of None \<Rightarrow> True | Some t \<Rightarrow> sql_blank t \<or> trim_space t \<noteq> '''') (qd_ayahs db) \<and>
     (case LoadQuranSource db s of Inl e \<Rightarrow> True | Inr source \<Rightarrow>
        list_all ayah_plain (qs_Ayahs source) \<and>
        (case deriveQuranSurah Q source of Inl e \<Rightarrow> True | Inr derived \<Rightarrow>
           list_all bar_free derived \<and> inj_on (env_uuid5 (qe_unit Q)) (reach_names db s derived)))"

lemma load_sel:
  assumes "LoadQuranSource db s = Inr source"
  shows "qs_SurahID source = s" "qs_LoadedAt source = qd_clock db"
    "set (qs_Ayahs source) = ayah_source db ` {a \<in> set (qd_ayahs db). ay_SurahID a = s}"
    "\<exists>r\<in>set (qd_surahs db). su_ID r = s"
  using assms by (auto simp: LoadQuranSource_def Let_def list_ex_iff split: if_splits)

lemma clean_run:
  assumes "surah_clean Q s db" "LoadQuranSource db s = Inr source" "deriveQuranSurah Q source = Inr derived"
  shows "run_ok (qe_unit Q) db s derived" "primaries_derived db s derived"
proof -
  note load = load_sel [OF assms(2)]
  have reg: "registry_ok (qe_unit Q) db" and plain: "list_all ayah_plain (qs_Ayahs source)"
    and bars: "list_all bar_free derived" and inj: "inj_on (env_uuid5 (qe_unit Q)) (reach_names db s derived)"
    and visible: "list_all (\<lambda>a. case ay_Text a of None \<Rightarrow> True | Some t \<Rightarrow> sql_blank t \<or> trim_space t \<noteq> '''') (qd_ayahs db)"
    using assms by (simp_all add: surah_clean_def)
  let ?sorted = "sort_slice (\<lambda>x y. qa_AyahNumber x < qa_AyahNumber y) (qs_Ayahs source)"
  have all: "list_all ayah_plain ?sorted" using plain by (simp add: list_all_iff)
  note der = derive_ayahs_ok [OF assms(3) [unfolded deriveQuranSurah_def] all]
  have "\<exists>a\<in>set (qd_ayahs db). ay_SurahID a = s \<and> ay_AyahNumber a = dq_ayahNumber d" if d: "d \<in> set derived" for d
  proof -
    from der d have "dq_ayahNumber d \<in> qa_AyahNumber ` set (filter has_primary ?sorted)" by blast
    then have "dq_ayahNumber d \<in> qa_AyahNumber ` set (qs_Ayahs source)" by auto
    then show ?thesis unfolding load(3) by (auto simp: ayah_source_def)
  qed
  with reg derive_ok [OF assms(3) plain] bars inj show "run_ok (qe_unit Q) db s derived"
    by (simp add: run_ok_def list_ex_iff)
  show "primaries_derived db s derived"
    unfolding primaries_derived_def
  proof (intro ballI impI)
    fix a assume a: "a \<in> set (qd_ayahs db)" "ay_SurahID a = s"
      and t: "case ay_Text a of Some t \<Rightarrow> \<not> sql_blank t | None \<Rightarrow> False"
    then have "has_primary (ayah_source db a)" using visible
      by (auto simp: has_primary_def ayah_source_def list_all_iff split: option.splits)
    moreover have "ayah_source db a \<in> set ?sorted" using a load(3) by simp
    ultimately have "primary_unit (qe_unit Q) (ayah_source db a) \<in> set (map (primary_unit (qe_unit Q)) (filter has_primary ?sorted))"
      by simp
    then have "primary_unit (qe_unit Q) (ayah_source db a) \<in> set (filter (\<lambda>d. dq_role d = QuranUnitRolePrimaryText) derived)"
      using der by simp
    then show "\<exists>d\<in>set derived. dq_role d = QuranUnitRolePrimaryText \<and> dq_ayahNumber d = ay_AyahNumber a"
      by (intro bexI [of _ "primary_unit (qe_unit Q) (ayah_source db a)"]) (auto simp: primary_unit_def ayah_source_def)
  qed
qed

section \<open>Interference\<close>

text \<open>
  What the two guards of the transaction are there for: between the reading of the source (\<open>db1\<close>),
  the reading of the snapshot (\<open>db2\<close>) and the transaction (\<open>db3\<close>) other writers leave the source
  and the snapshot of the surah alone, or mark the surah stale, or change its fingerprint.
\<close>

definition noticed :: "int \<Rightarrow> quran_db \<Rightarrow> quran_db \<Rightarrow> quran_db \<Rightarrow> bool" where
  "noticed s db1 db2 db3 \<longleftrightarrow>
     (map_sum id qs_Ayahs (LoadQuranSource db3 s) = map_sum id qs_Ayahs (LoadQuranSource db1 s) \<and>
        QuranSnapshot db3 s = QuranSnapshot db2 s) \<or>
     list_ex (\<lambda>r. su_ID r = s \<and> stale_after r (qd_clock db1)) (qd_surahs db3) \<or>
     quranRegistryFingerprint db3 s \<noteq> quranRegistryFingerprint db2 s"

definition fair_writers :: "quran_env \<Rightarrow> int \<Rightarrow> (nat \<Rightarrow> quran_db \<Rightarrow> quran_db) \<Rightarrow> bool" where
  "fair_writers Q s other \<longleftrightarrow>
     (\<forall>k db. surah_clean Q s db \<longrightarrow> surah_clean Q s (other k db)) \<and>
     (\<forall>k db. noticed s (other (3 * k) db) (other (3 * k + 1) (other (3 * k) db))
        (other (3 * k + 2) (other (3 * k + 1) (other (3 * k) db))))"

lemma fair_clean: "fair_writers Q s other \<Longrightarrow> surah_clean Q s db \<Longrightarrow> surah_clean Q s (other k db)"
  by (simp add: fair_writers_def)

text \<open>The registry shows what the source of the surah derives to.\<close>

definition in_sync :: "quran_env \<Rightarrow> quran_db \<Rightarrow> int \<Rightarrow> bool" where
  "in_sync Q db s \<longleftrightarrow> (case LoadQuranSource db s of Inl e \<Rightarrow> False | Inr source \<Rightarrow>
     (case deriveQuranSurah Q source of Inl e \<Rightarrow> False | Inr derived \<Rightarrow>
        registry_view db s = derived_view derived))"

lemma derive_ayahs_only: "qs_Ayahs a = qs_Ayahs b \<Longrightarrow> deriveQuranSurah Q a = deriveQuranSurah Q b"
  by (simp add: deriveQuranSurah_def)

lemma same_source:
  assumes "map_sum id qs_Ayahs (LoadQuranSource db' s) = map_sum id qs_Ayahs (LoadQuranSource db s)"
    and "LoadQuranSource db s = Inr source"
  shows "\<exists>source'. LoadQuranSource db' s = Inr source' \<and> qs_Ayahs source' = qs_Ayahs source"
  using assms by (cases "LoadQuranSource db' s") auto

lemma batch_source:
  "map_sum id qs_Ayahs (LoadQuranSource (after_batch db plan) s) = map_sum id qs_Ayahs (LoadQuranSource db s)"
proof -
  have "qd_ayahs (after_batch db plan) = qd_ayahs db" "qd_translations (after_batch db plan) = qd_translations db"
    "qd_transliterations (after_batch db plan) = qd_transliterations db"
    by (simp_all add: after_batch_def after_retires_def after_updates_def after_mints_def Let_def)
  moreover have "list_ex (\<lambda>x. su_ID x = s) (qd_surahs (after_batch db plan)) = list_ex (\<lambda>x. su_ID x = s) (qd_surahs db)"
  proof -
    have "map su_ID (qd_surahs (after_batch db plan)) = map su_ID (qd_surahs db)"
      by (simp add: after_batch_def stamped_def)
    then have "(s \<in> set (map su_ID (qd_surahs (after_batch db plan)))) = (s \<in> set (map su_ID (qd_surahs db)))"
      by (rule arg_cong)
    then show ?thesis by (simp add: list_ex_iff image_iff) metis
  qed
  ultimately show ?thesis by (simp add: LoadQuranSource_def Let_def ayah_source_def cong: option.case_cong)
qed

text \<open>A plan made from tables that read alike is a plan made from these tables.\<close>

lemma clean_planned:
  assumes "surah_clean Q s db" "LoadQuranSource db s = Inr source'" "qs_Ayahs source' = qs_Ayahs source"
    and "deriveQuranSurah Q source = Inr derived" "qs_SurahID source = s"
    and "planQuranSurah (qe_unit Q) source derived (QuranSnapshot db s) = Some (Inr plan)"
  shows "\<exists>ps. planned_run (qe_unit Q) db source derived ps plan" "primaries_derived db (qs_SurahID source) derived"
proof -
  have der: "deriveQuranSurah Q source' = Inr derived" using derive_ayahs_only [OF assms(3), of Q] assms(4) by simp
  note run = clean_run [OF assms(1,2) der]
  from planQuranSurah_form [OF assms(6)] run(1) assms(5) show "\<exists>ps. planned_run (qe_unit Q) db source derived ps plan"
    by (auto simp: planned_run_def)
  show "primaries_derived db (qs_SurahID source) derived" using run(2) assms(5) by simp
qed

lemma attempt_cases:
  assumes "reconcile_attempt Q other k s db = Some (res, db')"
  obtains (failed) e where "res = Inl e" "db' = other (3 * k) db \<or> db' = other (3 * k + 1) (other (3 * k) db)"
  | (planned) source derived plan res' where "LoadQuranSource (other (3 * k) db) s = Inr source"
      "deriveQuranSurah Q source = Inr derived"
      "planQuranSurah (qe_unit Q) source derived (QuranSnapshot (other (3 * k + 1) (other (3 * k) db)) s) = Some (Inr plan)"
      "ApplyQuranReconcile plan (other (3 * k + 2) (other (3 * k + 1) (other (3 * k) db))) = (res', db')"
      "res = map_sum id (\<lambda>_. (qp_Report plan)\<lparr>qrep_Attempts := int (Suc k)\<rparr>) res'"
proof -
  let ?db1 = "other (3 * k) db" and ?db2 = "other (3 * k + 1) (other (3 * k) db)"
  consider e where "LoadQuranSource ?db1 s = Inl e"
    | source e where "LoadQuranSource ?db1 s = Inr source" "deriveQuranSurah Q source = Inl e"
    | source derived where "LoadQuranSource ?db1 s = Inr source" "deriveQuranSurah Q source = Inr derived"
    by (metis sum.exhaust)
  then show thesis
  proof cases
    case 1
    with assms show thesis by (intro failed [of e]) (auto simp: reconcile_attempt_def)
  next
    case 2
    with assms show thesis by (intro failed [of e]) (auto simp: reconcile_attempt_def)
  next
    case 3
    note load = this
    show thesis
    proof (cases "planQuranSurah (qe_unit Q) source derived (QuranSnapshot ?db2 s)")
      case None
      with assms load show thesis by (simp add: reconcile_attempt_def Let_def)
    next
      case (Some pr)
      show thesis
      proof (cases pr)
        case (Inl e)
        with assms load Some show thesis by (intro failed [of e]) (auto simp: reconcile_attempt_def Let_def)
      next
        case (Inr plan)
        obtain res' db3 where ap: "ApplyQuranReconcile plan (other (3 * k + 2) ?db2) = (res', db3)" by fastforce
        then have "res = map_sum id (\<lambda>_. (qp_Report plan)\<lparr>qrep_Attempts := int (Suc k)\<rparr>) res'" "db' = db3"
          using assms load Some Inr by (simp_all add: reconcile_attempt_def Let_def apply_report)
        with load Some Inr ap show thesis by (intro planned) simp_all
      qed
    qed
  qed
qed

lemma apply_error: "ApplyQuranReconcile plan db = (Inl e, db') \<Longrightarrow> db' = db"
  by (auto simp: ApplyQuranReconcile_def split: option.splits if_splits sum.splits)

lemma apply_success:
  assumes "ApplyQuranReconcile plan db = (Inr (), db')"
  obtains r where "find (\<lambda>r. su_ID r = qp_SurahID plan) (qd_surahs db) = Some r" "\<not> stale_after r (qp_LoadedAt plan)"
    "quranRegistryFingerprint db (qp_SurahID plan) = qp_BasedOn plan"
  using assms by (auto simp: ApplyQuranReconcile_def not_stale_after split: option.splits if_splits)

text \<open>One attempt: a failure leaves clean tables, a success synchronised ones in the invariant.\<close>

lemma attempt_sound:
  assumes "surah_clean Q s db" "fair_writers Q s other" "reconcile_attempt Q other k s db = Some (res, db')"
  shows "case res of Inl e \<Rightarrow> surah_clean Q s db' | Inr rep \<Rightarrow> registry_ok (qe_unit Q) db' \<and> in_sync Q db' s"
  using assms(3)
proof (cases rule: attempt_cases)
  case failed
  then show ?thesis using fair_clean [OF assms(2)] assms(1) by auto
next
  case (planned source derived plan res')
  let ?db1 = "other (3 * k) db" and ?db2 = "other (3 * k + 1) (other (3 * k) db)"
  let ?db3 = "other (3 * k + 2) ?db2"
  have clean: "surah_clean Q s ?db3" using fair_clean [OF assms(2)] assms(1) by blast
  show ?thesis
  proof (cases res')
    case (Inl e)
    with apply_error planned(4) have "db' = ?db3" by blast
    with clean planned(5) Inl show ?thesis by simp
  next
    case (Inr x)
    note load = load_sel [OF planned(1)]
    have keys: "qp_SurahID plan = s" "qp_LoadedAt plan = qd_clock ?db1" "qp_BasedOn plan = quranRegistryFingerprint ?db2 s"
      using planQuranSurah_form [OF planned(3)] load(1,2) by (auto simp: plan_form_def QuranSnapshot_def)
    have "ApplyQuranReconcile plan ?db3 = (Inr (), db')" using planned(4) Inr by simp
    then obtain r where r: "find (\<lambda>r. su_ID r = s) (qd_surahs ?db3) = Some r" "\<not> stale_after r (qd_clock ?db1)"
      "quranRegistryFingerprint ?db3 s = quranRegistryFingerprint ?db2 s" using apply_success keys by metis
    have dist: "distinct (map su_ID (qd_surahs ?db3))" using clean by (simp add: surah_clean_def)
    have rin: "r \<in> set (qd_surahs ?db3)" "su_ID r = s" using r(1) by (auto simp: find_Some_iff)
    have "\<not> list_ex (\<lambda>r. su_ID r = s \<and> stale_after r (qd_clock ?db1)) (qd_surahs ?db3)"
      using r(2) dist rin by (auto simp: list_ex_iff distinct_map inj_on_def)
    moreover have "noticed s ?db1 ?db2 ?db3" using assms(2) unfolding fair_writers_def by blast
    ultimately have same: "map_sum id qs_Ayahs (LoadQuranSource ?db3 s) = map_sum id qs_Ayahs (LoadQuranSource ?db1 s)"
      "QuranSnapshot ?db3 s = QuranSnapshot ?db2 s" using r(3) by (auto simp: noticed_def)
    from same_source [OF same(1) planned(1)] obtain source3 where s3: "LoadQuranSource ?db3 s = Inr source3"
      "qs_Ayahs source3 = qs_Ayahs source" by blast
    note plan = planned(3) [folded same(2)]
    from clean_planned [OF clean s3 planned(2) load(1) plan] obtain ps where
      run: "planned_run (qe_unit Q) ?db3 source derived ps plan" "primaries_derived ?db3 (qs_SurahID source) derived" by blast
    have "ApplyQuranReconcile plan ?db3 = (Inr (), after_batch ?db3 plan)"
      by (rule apply_planned [OF run dist]) (use r(1,2) load(1,2) in simp_all)
    then have db': "db' = after_batch ?db3 plan" using planned(4) by simp
    from same_source [OF batch_source s3(1), of plan] obtain source4 where
      s4: "LoadQuranSource db' s = Inr source4" "qs_Ayahs source4 = qs_Ayahs source" using s3(2) db' by auto
    have "deriveQuranSurah Q source4 = Inr derived" using derive_ayahs_only [OF s4(2)] planned(2) by simp
    with s4(1) batch_refines [OF run(1)] load(1) have "in_sync Q db' s" by (simp add: in_sync_def db')
    with batch_registry_ok [OF run(1)] Inr planned(5) show ?thesis by (simp add: db')
  qed
qed

lemma loop_sound:
  assumes "surah_clean Q s db" "fair_writers Q s other" "reconcile_loop n Q other k s db = Some (res, db')"
  shows "case res of Inl e \<Rightarrow> surah_clean Q s db' | Inr rep \<Rightarrow> registry_ok (qe_unit Q) db' \<and> in_sync Q db' s"
  using assms(1,3)
proof (induction n arbitrary: k db)
  case (Suc n)
  from Suc.prems(2) obtain r d where a: "reconcile_attempt Q other k s db = Some (r, d)"
    by (cases "reconcile_attempt Q other k s db") auto
  note sound = attempt_sound [OF Suc.prems(1) assms(2) a]
  show ?case
  proof (cases r)
    case (Inl e)
    with sound have "surah_clean Q s d" by simp
    with Suc.IH [OF this] Suc.prems(2) a Inl show ?thesis by (auto split: if_splits)
  next
    case (Inr rep)
    with Suc.prems(2) a sound show ?thesis by auto
  qed
qed auto

end
