(* ===== verification/Quran_Contract.thy ===== *)
theory Quran_Contract
  imports Quran_Reconcile
begin

text \<open>
  The properties of the reconcile loop of a surah, with the tables on which they are applied: a
  surah that was never derived, and the same surah derived once and edited since.
\<close>

section \<open>A call without interference\<close>

abbreviation alone :: "nat \<Rightarrow> quran_db \<Rightarrow> quran_db" where
  "alone \<equiv> \<lambda>k db. db"

lemma reconcile_alone:
  assumes "surah_clean Q s db" "LoadQuranSource db s = Inr source" "deriveQuranSurah Q source = Inr derived"
    and "find (\<lambda>r. su_ID r = s) (qd_surahs db) = Some r" "\<not> stale_after r (qd_clock db)"
  shows "primary_drift (QuranSnapshot db s) derived \<Longrightarrow>
      ReconcileQuranSurah Q alone s db = Some (Inl ErrQuranPrimaryTextDrift, db)"
    "\<not> primary_drift (QuranSnapshot db s) derived \<Longrightarrow> \<exists>plan ps. planned_run (qe_unit Q) db source derived ps plan \<and>
      ReconcileQuranSurah Q alone s db =
        Some (Inr ((qp_Report plan)\<lparr>qrep_Attempts := 1\<rparr>), after_batch db plan)"
proof -
  note load = load_sel [OF assms(2)] and run = clean_run [OF assms(1-3)]
  note total = registry_plan_total [OF run(1) [folded load(1)], unfolded load(1)]
  show "primary_drift (QuranSnapshot db s) derived \<Longrightarrow>
      ReconcileQuranSurah Q alone s db = Some (Inl ErrQuranPrimaryTextDrift, db)"
    using total assms(2,3)
    by (simp add: ReconcileQuranSurah_def reconcileAttempts_def numeral_eq_Suc reconcile_attempt_def)
  assume "\<not> primary_drift (QuranSnapshot db s) derived"
  with total obtain plan where plan: "planQuranSurah (qe_unit Q) source derived (QuranSnapshot db s) = Some (Inr plan)" by auto
  from clean_planned [OF assms(1,2) refl assms(3) load(1) plan] obtain ps where
    p: "planned_run (qe_unit Q) db source derived ps plan" "primaries_derived db (qs_SurahID source) derived" by blast
  have "distinct (map su_ID (qd_surahs db))" using assms(1) by (simp add: surah_clean_def)
  from apply_planned [OF p this, of r] assms(4,5) load(1,2)
  have "ApplyQuranReconcile plan db = (Inr (), after_batch db plan)" by simp
  with plan assms(2,3) have "ReconcileQuranSurah Q alone s db =
      Some (Inr ((qp_Report plan)\<lparr>qrep_Attempts := 1\<rparr>), after_batch db plan)"
    by (simp add: ReconcileQuranSurah_def reconcileAttempts_def numeral_eq_Suc reconcile_attempt_def Let_def apply_report)
  with p(1) show "\<exists>plan ps. planned_run (qe_unit Q) db source derived ps plan \<and>
      ReconcileQuranSurah Q alone s db =
        Some (Inr ((qp_Report plan)\<lparr>qrep_Attempts := 1\<rparr>), after_batch db plan)" by blast
qed

lemma alone_attempt: "reconcile_attempt Q alone k s db = Some (Inl e, db') \<Longrightarrow> db' = db"
proof (erule attempt_cases)
  fix source derived plan res'
  assume "ApplyQuranReconcile plan db = (res', db')" "Inl e = map_sum id (\<lambda>_. (qp_Report plan)\<lparr>qrep_Attempts := int (Suc k)\<rparr>) res'"
  then show "db' = db" using apply_error [of plan db] by (cases res') auto
qed simp

lemma loop_alone:
  "reconcile_loop n Q alone k s db = Some (Inr rep, db') \<Longrightarrow> \<exists>k. reconcile_attempt Q alone k s db = Some (Inr rep, db')"
proof (induction n arbitrary: k)
  case (Suc n)
  obtain r d where a: "reconcile_attempt Q alone k s db = Some (r, d)"
    using Suc.prems by (cases "reconcile_attempt Q alone k s db") auto
  show ?case
  proof (cases r)
    case (Inl e)
    with a have "d = db" using alone_attempt by blast
    with Suc.prems a Inl have "reconcile_loop n Q alone (Suc k) s db = Some (Inr rep, db')" by (auto split: if_splits)
    from Suc.IH [OF this] show ?thesis .
  next
    case (Inr x)
    with Suc.prems a show ?thesis by (intro exI [of _ k]) simp
  qed
qed simp

lemma reconcile_alone_success:
  assumes "surah_clean Q s db" "ReconcileQuranSurah Q alone s db = Some (Inr rep, db')"
  obtains source derived ps plan k where "LoadQuranSource db s = Inr source" "deriveQuranSurah Q source = Inr derived"
    "planned_run (qe_unit Q) db source derived ps plan" "db' = after_batch db plan" "qs_SurahID source = s"
    "rep = (qp_Report plan)\<lparr>qrep_Attempts := k\<rparr>"
proof -
  obtain k where "reconcile_attempt Q alone k s db = Some (Inr rep, db')"
    using loop_alone assms(2) unfolding ReconcileQuranSurah_def by blast
  then show thesis
  proof (cases rule: attempt_cases)
    case (planned source derived plan res')
    note load = load_sel [OF planned(1)]
    from clean_planned [OF assms(1) planned(1) refl planned(2) load(1) planned(3)] obtain ps where
      p: "planned_run (qe_unit Q) db source derived ps plan" "primaries_derived db (qs_SurahID source) derived" by blast
    have res: "res' = Inr ()" using planned(5) by (cases res') auto
    note ok = planned(4) [unfolded res]
    obtain r where r: "find (\<lambda>r. su_ID r = s) (qd_surahs db) = Some r" "\<not> stale_after r (qd_clock db)"
      using apply_success [OF ok] plan_keys [OF p(1)] load(1,2) by metis
    have "distinct (map su_ID (qd_surahs db))" using assms(1) by (simp add: surah_clean_def)
    from apply_planned [OF p this, of r] r load(1,2) have "ApplyQuranReconcile plan db = (Inr (), after_batch db plan)" by simp
    with ok have "db' = after_batch db plan" by simp
    moreover have "rep = (qp_Report plan)\<lparr>qrep_Attempts := int (Suc k)\<rparr>" using planned(5) res by simp
    ultimately show thesis using that [OF planned(1,2) p(1) _ load(1)] by blast
  qed simp
qed

section \<open>A synchronised surah\<close>

lemma synced_row:
  assumes "run_ok E db s derived" "registry_view db s = derived_view derived" "d \<in> set derived"
  obtains r where "r \<in> set (surah_active db s)" "quranBindingSlotKey (br_Binding r) = slot_of d"
    "row_view db r = derived_slot d"
proof -
  have "distinct (map slot_of derived)" by (rule derived_ok_slots [OF run_okD(2) [OF assms(1)]])
  then have "derived_view derived (slot_of d) = Some (derived_slot d)"
    unfolding derived_view_def using assms(3) by (intro map_of_is_SomeI) (simp_all add: comp_def)
  then have "map_of (map (\<lambda>r. (quranBindingSlotKey (br_Binding r), row_view db r)) (surah_active db s)) (slot_of d) =
      Some (derived_slot d)" using assms(2) by (simp add: registry_view_def)
  from map_of_SomeD [OF this] show thesis by (auto intro: that)
qed

lemma synced_slots:
  assumes "registry_view db s = derived_view derived" "r \<in> set (surah_active db s)"
  shows "quranBindingSlotKey (br_Binding r) \<in> slot_of ` set derived"
proof -
  have "dom (registry_view db s) = (\<lambda>r. quranBindingSlotKey (br_Binding r)) ` set (surah_active db s)"
    by (simp add: registry_view_def dom_map_of_conv_image_fst image_image)
  moreover have "dom (derived_view derived) = slot_of ` set derived"
    by (simp add: derived_view_def dom_map_of_conv_image_fst image_image)
  ultimately show ?thesis using assms by auto
qed

lemma synced_match:
  assumes "run_ok E db s derived" "registry_view db s = derived_view derived" "d \<in> set derived"
  obtains r u where "r \<in> set (surah_active db s)" "act (QuranSnapshot db s) d = Some (record_of db r)"
    "unit_row db (qb_UnitID (br_Binding r)) = Some u" "unit_fits E db (br_Binding r) u" "matches (QuranSnapshot db s) d"
    "u_PageID u = dq_pageNumber d" "u_Position u = dq_position d" "qb_SourceUpdatedAt (br_Binding r) = dq_sourceUpdatedAt d"
    "parent_slot_of db (u_ParentUnitID u) = dq_parentSlot d" "binding_ident (br_Binding r) = ident_of d"
proof -
  note reg = run_okD(1) [OF assms(1)]
  obtain r where r: "r \<in> set (surah_active db s)" "quranBindingSlotKey (br_Binding r) = slot_of d"
    "row_view db r = derived_slot d" using synced_row [OF assms] .
  have rin: "r \<in> set (qd_bindings db)" using r(1) by (simp add: surah_active_set)
  obtain u where u: "unit_row db (qb_UnitID (br_Binding r)) = Some u" "unit_fits E db (br_Binding r) u"
    "binding_plain (br_Binding r)" using row_unit [OF reg rin] .
  have act: "act (QuranSnapshot db s) d = Some (record_of db r)" using snapshot_act [OF reg] r(1,2) by blast
  have view: "u_ContentHash u = dq_contentHash d" "u_PageID u = dq_pageNumber d" "u_Position u = dq_position d"
    "parent_slot_of db (u_ParentUnitID u) = dq_parentSlot d" "qb_SourceUpdatedAt (br_Binding r) = dq_sourceUpdatedAt d"
    using r(3) u(1) by (simp_all add: row_view_def derived_slot_def)
  have "matches (QuranSnapshot db s) d" using act u(1) view(1) by (simp add: matches_def)
  moreover have "binding_ident (br_Binding r) = ident_of d" using slot_binding [OF u(3) run_okD(5) [OF assms(1,3)]] r(2) by simp
  ultimately show thesis using that [OF r(1) act u(1,2)] view(2-5) by blast
qed

lemma synced_no_drift:
  assumes "run_ok E db s derived" "registry_view db s = derived_view derived"
  shows "\<not> primary_drift (QuranSnapshot db s) derived"
proof -
  have "\<not> drifted (QuranSnapshot db s) d" if "d \<in> set derived" for d
    by (rule synced_match [OF assms that]) (simp add: drifted_def)
  moreover have "absent (map slot_of derived) (active_records db s) = []"
    using synced_slots [OF assms(2)] by (auto simp: absent_def filter_empty_conv active_records_set)
  ultimately show ?thesis by (simp add: primary_drift_def list_ex_iff QuranSnapshot_def)
qed

lemma synced_parent:
  assumes "planned_run E db source derived ps plan" "registry_view db (qs_SurahID source) = derived_view derived" "p \<in> set ps"
    and "unit_row db (pq_unitID p) = Some u" "binding_ident b = ident_of (pq_derived p)" "unit_fits E db b u"
    and "qb_UnitID b = pq_unitID p" "qb_SurahID b = qs_SurahID source" "u_Lifecycle u = UnitLifecycleActive" "binding_plain b"
  shows "u_ParentUnitID u = parent_id ps p"
proof (cases "dq_role (pq_derived p) = QuranUnitRoleFootnote")
  case False
  then show ?thesis using parent_role [OF assms(1,3)] assms(5,6) by (simp add: unit_fits_def binding_ident_def ident_of_def)
next
  case True
  let ?s = "qs_SurahID source"
  note pr = planned_runD [OF assms(1) refl]
  note reg = run_okD(1) [OF pr(1)]
  have role: "qb_Role b = QuranUnitRoleFootnote" using True assms(5) by (simp add: binding_ident_def ident_of_def)
  with assms(6,9) have "footnote_parent_ok db b" by (simp add: unit_fits_def)
  with assms(4,7) obtain i c where i: "u_ParentUnitID u = Some i" "binding_of db i = Some c" "qb_Role c = QuranUnitRoleTranslation"
    "qb_SurahID c = ?s" "qb_AyahNumber c = qb_AyahNumber b" "qb_TranslationSourceID c = qb_TranslationSourceID b" "is_active db i"
    using assms(8) by (auto simp: footnote_parent_ok_def split: option.splits)
  obtain q where q: "q \<in> set (qd_bindings db)" "c = br_Binding q" "i = qb_UnitID (br_Binding q)" using binding_of_Some [OF i(2)] .
  have qa: "q \<in> set (surah_active db ?s)" using q i(4,7) by (simp add: surah_active_set row_active_def)
  note plain = row_plain [OF reg q(1)]
  from planned_parent [OF assms(1,3)] True obtain t where t: "t \<in> set ps" "parent_id ps p = Some (pq_unitID t)"
    "dq_role (pq_derived t) = QuranUnitRoleTranslation" "dq_ayahNumber (pq_derived t) = dq_ayahNumber (pq_derived p)"
    "dq_sourceID (pq_derived t) = dq_sourceID (pq_derived p)" by auto
  obtain r v where r: "r \<in> set (surah_active db ?s)" "act (QuranSnapshot db ?s) (pq_derived t) = Some (record_of db r)"
    "binding_ident (br_Binding r) = ident_of (pq_derived t)" "matches (QuranSnapshot db ?s) (pq_derived t)"
    using synced_match [OF pr(1) assms(2) planned_in(1) [OF assms(1) t(1)]] .
  have tid: "pq_unitID t = qb_UnitID (br_Binding r)"
    using planned_in(2) [OF assms(1) t(1)] r(2,4) record_of_id [OF reg, of r] r(1)
    by (cases "pq_matched t") (auto simp: planned_ok_def Let_def surah_active_set)
  have src: "binding_source (br_Binding q) = binding_source b"
    using translation_source [of b] translation_source [of c] role i(3,6) q(2) plain assms(10) by (simp add: binding_plain_def)
  have keys: "binding_key (br_Binding q) = ''''" "dq_footnoteKey (pq_derived t) = ''''"
    using role_shape_key [of "br_Binding q"] plain i(3) q(2) planned_in(3) [OF assms(1) t(1)] t(3)
    by (auto simp: binding_plain_def unit_shape_def)
  have "binding_ident (br_Binding q) = binding_ident (br_Binding r)"
    using r(3) t(3-5) keys src assms(5) i(3,5) q(2) by (simp add: binding_ident_def ident_of_def)
  then have "row_slot q = row_slot r"
    using slot_bindings [OF plain row_plain [OF reg, of r]] r(1) qa by (simp add: row_slot_def surah_active_set)
  then have "q = r" using registry_okD(7) [OF reg q(1), of r] r(1) qa by (simp add: surah_active_set)
  with i(1) q(3) t(2) tid show ?thesis by simp
qed

lemma synced_plan:
  assumes "planned_run E db source derived ps plan" "registry_view db (qs_SurahID source) = derived_view derived"
  shows "qp_Mints plan = []" "qp_Updates plan = []" "qp_Retires plan = []" "qp_Edges plan = []"
proof -
  let ?s = "qs_SurahID source" and ?snap = "QuranSnapshot db (qs_SurahID source)"
  note pr = planned_runD [OF assms(1) refl]
  note reg = run_okD(1) [OF pr(1)]
  have matched: "pq_matched p \<noteq> None" if p: "p \<in> set ps" for p
  proof
    assume "pq_matched p = None"
    then have "\<not> matches ?snap (pq_derived p)" using planned_in(2) [OF assms(1) p] by (simp add: planned_ok_def Let_def)
    then show False by (rule notE) (rule synced_match [OF pr(1) assms(2) planned_in(1) [OF assms(1) p]])
  qed
  then have fresh: "fresh_units ps = []" by (auto simp: fresh_units_def filter_empty_conv)
  then show "qp_Mints plan = []" by (simp add: plan_mints [OF assms(1)])
  have sup: "superseded ?snap ps = []" using matched by (auto simp: superseded_def)
  have "absent (map slot_of derived) (active_records db ?s) = []"
    using synced_slots [OF assms(2)] by (auto simp: absent_def filter_empty_conv active_records_set)
  with sup show "qp_Retires plan = []" "qp_Edges plan = []" by (simp_all add: plan_retires [OF assms(1)] plan_edges [OF assms(1)])
  have "quran_up_to_date x (pq_derived p) (parent_id ps p)" if p: "p \<in> set ps" "pq_matched p = Some x" for p x
  proof -
    from synced_match [OF pr(1) assms(2) planned_in(1) [OF assms(1) p(1)]] obtain r u where
      r: "r \<in> set (surah_active db ?s)" "act ?snap (pq_derived p) = Some (record_of db r)"
      and u: "unit_row db (qb_UnitID (br_Binding r)) = Some u" "unit_fits E db (br_Binding r) u"
      and view: "u_PageID u = dq_pageNumber (pq_derived p)" "u_Position u = dq_position (pq_derived p)"
        "qb_SourceUpdatedAt (br_Binding r) = dq_sourceUpdatedAt (pq_derived p)"
        "binding_ident (br_Binding r) = ident_of (pq_derived p)" by metis
    have x: "x = record_of db r" "pq_unitID p = u_ID (qr_Unit x)"
      using planned_in(2) [OF assms(1) p(1)] p(2) r(2) by (auto simp: planned_ok_def Let_def)
    have rin: "r \<in> set (qd_bindings db)" "qb_SurahID (br_Binding r) = ?s" "row_active db r"
      using r(1) by (simp_all add: surah_active_set)
    have id: "pq_unitID p = qb_UnitID (br_Binding r)" using x record_of_id [OF reg rin(1)] by simp
    have "u_ParentUnitID u = parent_id ps p"
      by (rule synced_parent [OF assms p(1), of u "br_Binding r"])
        (use u view(4) id rin row_plain [OF reg rin(1)] in \<open>simp_all add: row_active_def is_active_def\<close>)
    with u(1) view x(1) show ?thesis
      by (simp add: quran_up_to_date_def sameOptionalInt_def sameParent_def split: option.split)
  qed
  then have "moved_units ps ps = []" by (auto simp: moved_units_def filter_empty_conv split: option.splits)
  then show "qp_Updates plan = []" by (simp add: plan_mints [OF assms(1)])
qed

lemma after_empty:
  assumes "qp_Mints plan = []" "qp_Updates plan = []" "qp_Retires plan = []" "qp_Edges plan = []"
  shows "after_batch db plan = db\<lparr>qd_surahs := map (stamped (qp_SurahID plan) (qp_LoadedAt plan)) (qd_surahs db)\<rparr>"
  using assms by (simp add: after_batch_def after_retires_def after_updates_def after_mints_def Let_def mint_order_def)

section \<open>What a plan reports and keeps\<close>

lemma clean_surah_row:
  assumes "surah_clean Q s db" "list_ex (\<lambda>r. su_ID r = s \<and> \<not> stale_after r (qd_clock db)) (qd_surahs db)"
  obtains r where "find (\<lambda>r. su_ID r = s) (qd_surahs db) = Some r" "\<not> stale_after r (qd_clock db)"
proof -
  from assms(2) obtain x where x: "x \<in> set (qd_surahs db)" "su_ID x = s" "\<not> stale_after x (qd_clock db)"
    by (auto simp: list_ex_iff)
  then obtain r where r: "find (\<lambda>r. su_ID r = s) (qd_surahs db) = Some r"
    by (cases "find (\<lambda>r. su_ID r = s) (qd_surahs db)") (auto simp: find_None_iff)
  then have "r \<in> set (qd_surahs db)" "su_ID r = s" by (auto simp: find_Some_iff)
  with x assms(1) have "r = x" by (auto simp: surah_clean_def distinct_map inj_on_def)
  with r x(3) show thesis by (intro that) simp_all
qed

lemma plan_counts:
  assumes "planned_run E db source derived ps plan"
  shows "qrep_Matched (qp_Report plan) + qrep_Minted (qp_Report plan) = int (length derived)"
proof -
  have "length (filter (\<lambda>p. pq_matched p \<noteq> None) ps) + length (fresh_units ps) = length ps"
    using sum_length_filter_compl [of "\<lambda>p. pq_matched p \<noteq> None" ps] by (simp add: fresh_units_def)
  moreover have "length ps = length derived" using planned_runD(2) [OF assms refl] by (metis length_map)
  ultimately show ?thesis using assms by (simp add: planned_run_def plan_form_def)
qed

lemma plan_quiet_report:
  assumes "planned_run E db source derived ps plan" "qp_Mints plan = []" "qp_Updates plan = []" "qp_Retires plan = []"
  shows "qrep_Minted (qp_Report plan) = 0" "qrep_Updated (qp_Report plan) = 0" "qrep_Superseded (qp_Report plan) = 0"
    "qrep_Tombstoned (qp_Report plan) = 0"
  using assms by (simp_all add: planned_run_def plan_form_def)

lemma resync_runs:
  assumes "surah_clean Q s db" "in_sync Q db s"
    and "list_ex (\<lambda>r. su_ID r = s \<and> \<not> stale_after r (qd_clock db)) (qd_surahs db)"
  obtains rep db' where "ReconcileQuranSurah Q alone s db = Some (Inr rep, db')"
proof -
  from assms(2) obtain source derived where load: "LoadQuranSource db s = Inr source"
    and der: "deriveQuranSurah Q source = Inr derived" and view: "registry_view db s = derived_view derived"
    by (auto simp: in_sync_def split: sum.splits)
  obtain r where r: "find (\<lambda>r. su_ID r = s) (qd_surahs db) = Some r" "\<not> stale_after r (qd_clock db)"
    using clean_surah_row [OF assms(1,3)] .
  from reconcile_alone(2) [OF assms(1) load der r synced_no_drift [OF clean_run(1) [OF assms(1) load der] view]] that
  show thesis by blast
qed

lemma kept_rows:
  assumes "planned_run E db source derived ps plan"
  shows "\<forall>r\<in>set (qd_bindings db). \<exists>r'\<in>set (qd_bindings (after_batch db plan)).
      qb_UnitID (br_Binding r') = qb_UnitID (br_Binding r) \<and> binding_place (br_Binding r') = binding_place (br_Binding r) \<and>
      binding_ident (br_Binding r') = binding_ident (br_Binding r) \<and>
      (qb_SurahID (br_Binding r) \<noteq> qs_SurahID source \<longrightarrow> r' = r \<and>
        unit_row (after_batch db plan) (qb_UnitID (br_Binding r)) = unit_row db (qb_UnitID (br_Binding r))) \<and>
      (qb_Role (br_Binding r) = QuranUnitRolePrimaryText \<longrightarrow> row_active db r \<longrightarrow> row_active (after_batch db plan) r')"
proof
  fix r assume r: "r \<in> set (qd_bindings db)"
  have "row_active (after_batch db plan) (final_binding db plan r)"
    if role: "qb_Role (br_Binding r) = QuranUnitRolePrimaryText" and act: "row_active db r"
  proof (cases "qb_SurahID (br_Binding r) = qs_SurahID source")
    case True
    with r act have "r \<in> set (surah_active db (qs_SurahID source))" by (simp add: surah_active_set)
    from primary_kept [OF assms this role] obtain p where "p \<in> set ps" "pq_unitID p = qb_UnitID (br_Binding r)" ..
    with planned_active [OF assms this(1)] show ?thesis by (simp add: row_active_def)
  next
    case False
    from other_rows(2) [OF assms r False] act show ?thesis by (simp add: row_active_def is_active_def)
  qed
  with other_rows [OF assms r] final_binding_old [OF r, of plan]
  show "\<exists>r'\<in>set (qd_bindings (after_batch db plan)).
      qb_UnitID (br_Binding r') = qb_UnitID (br_Binding r) \<and> binding_place (br_Binding r') = binding_place (br_Binding r) \<and>
      binding_ident (br_Binding r') = binding_ident (br_Binding r) \<and>
      (qb_SurahID (br_Binding r) \<noteq> qs_SurahID source \<longrightarrow> r' = r \<and>
        unit_row (after_batch db plan) (qb_UnitID (br_Binding r)) = unit_row db (qb_UnitID (br_Binding r))) \<and>
      (qb_Role (br_Binding r) = QuranUnitRolePrimaryText \<longrightarrow> row_active db r \<longrightarrow> row_active (after_batch db plan) r')"
    by (intro bexI [of _ "final_binding db plan r"]) simp_all
qed

lemma retire_kind:
  assumes "planned_run E db source derived ps plan" "rt \<in> set (qp_Retires plan)"
  shows "rt_Lifecycle rt = (if rt_ID rt \<in> e_PredecessorID ` set (qp_Edges plan)
    then UnitLifecycleSuperseded else UnitLifecycleTombstoned)"
proof -
  let ?sup = "superseded (QuranSnapshot db (qs_SurahID source)) ps"
  let ?abs = "absent (map slot_of derived) (active_records db (qs_SurahID source))"
  have preds: "e_PredecessorID ` set (qp_Edges plan) = rt_ID ` supersede_retire ` set ?sup"
    by (simp add: plan_edges [OF assms(1)] image_image supersede_edge_def supersede_retire_def)
  have disj: "rt_ID ` supersede_retire ` set ?sup \<inter> rt_ID ` tombstone ` set ?abs = {}"
    using retires_distinct [OF assms(1)] unfolding plan_retires [OF assms(1)] map_append distinct_append set_map
    by (simp only:)
  from assms(2) consider "rt \<in> supersede_retire ` set ?sup" | "rt \<in> tombstone ` set ?abs"
    by (auto simp: plan_retires [OF assms(1)])
  then show ?thesis
  proof cases
    case 1
    then have "rt_ID rt \<in> rt_ID ` supersede_retire ` set ?sup" by (rule imageI)
    with 1 show ?thesis unfolding preds by (auto simp: supersede_retire_def)
  next
    case 2
    then have "rt_ID rt \<notin> rt_ID ` supersede_retire ` set ?sup" using disj by blast
    with 2 show ?thesis unfolding preds by (auto simp: tombstone_def)
  qed
qed

lemma retired_fate:
  assumes "planned_run E db source derived ps plan"
  shows "\<forall>u\<in>set (qd_units (after_batch db plan)). is_active db (u_ID u) \<longrightarrow> u_Lifecycle u \<noteq> UnitLifecycleActive \<longrightarrow>
      u_Lifecycle u = (if list_ex (\<lambda>e. e_PredecessorID e = u_ID u) (qd_lineage (after_batch db plan))
        then UnitLifecycleSuperseded else UnitLifecycleTombstoned)"
proof (intro ballI impI)
  fix u assume u: "u \<in> set (qd_units (after_batch db plan))" "is_active db (u_ID u)" "u_Lifecycle u \<noteq> UnitLifecycleActive"
  note reg = run_okD(1) [OF planned_runD(1) [OF assms refl]]
  obtain v where v: "u = final_unit db plan v" using u(1) by (auto simp: final_units)
  have row: "unit_row (after_batch db plan) (u_ID u) = Some u"
    using find_unit_in [OF final_ids(1) [OF assms] u(1)] by (simp add: unit_row_find)
  then have "\<not> is_active (after_batch db plan) (u_ID u)" using u(3) by (simp add: is_active_def)
  then have "u_ID u \<in> retire_ids plan" using u(2) by (simp add: final_active [OF assms] mints_active [OF assms])
  then have "find (\<lambda>rt. rt_ID rt = u_ID v) (qp_Retires plan) \<noteq> None" using v by (auto simp: find_None_iff retire_ids_def)
  then obtain rt where f: "find (\<lambda>rt. rt_ID rt = u_ID v) (qp_Retires plan) = Some rt" by blast
  then have rt: "rt \<in> set (qp_Retires plan)" "rt_ID rt = u_ID u" using v by (auto simp: find_Some_iff)
  have "u_Lifecycle u = rt_Lifecycle rt" using f v by (simp add: final_unit_def retired_unit_def)
  moreover have "list_ex (\<lambda>e. e_PredecessorID e = u_ID u) (qd_lineage (after_batch db plan)) \<longleftrightarrow>
      u_ID u \<in> e_PredecessorID ` set (qp_Edges plan)"
    using registry_okD(9) [OF reg] u(2) by (force simp: after_batch_def list_ex_iff image_iff)
  ultimately show "u_Lifecycle u = (if list_ex (\<lambda>e. e_PredecessorID e = u_ID u) (qd_lineage (after_batch db plan))
      then UnitLifecycleSuperseded else UnitLifecycleTombstoned)"
    using retire_kind [OF assms rt(1)] rt(2) by simp
qed

end
