(* ===== verification/Quran_Props.thy ===== *)
theory Quran_Props
  imports Quran_Contract
begin

text \<open>
  The properties of \<open>ReconcileQuranSurah\<close>, and the tables on which they are applied: a surah that
  was never derived, and the same surah derived once.
\<close>

section \<open>Concrete tables\<close>

definition demo_quran_db :: quran_db where
  "demo_quran_db = \<lparr>qd_clock = 9, qd_surahs = [\<lparr>su_ID = 1, su_StaleAt = Some 8, su_DerivedAt = None\<rparr>],
     qd_ayahs = [\<lparr>ay_SurahID = 1, ay_AyahNumber = 1, ay_PageNumber = Some 7, ay_Text = Some ''a'', ay_UpdatedAt = 5\<rparr>],
     qd_translations = [\<lparr>tw_SurahID = 1, tw_AyahNumber = 1, tw_Row = demo_translation ''b''\<rparr>],
     qd_transliterations = [\<lparr>lw_SurahID = 1, lw_AyahNumber = 1, lw_Row = demo_transliteration\<rparr>],
     qd_units = [], qd_bindings = [], qd_lineage = []\<rparr>"

lemma demo_load: "LoadQuranSource demo_quran_db 1 = Inr (demo_source ''b'')"
  by (simp add: LoadQuranSource_def demo_quran_db_def ayah_source_def demo_source_def demo_ayah_def)

lemma demo_derived: "deriveQuranSurah demo_quran_env (demo_source ''b'') = Inr (demo_units ''b'')"
  by (rule demo_derives) (simp_all add: byte_def)

lemma demo_plain: "list_all ayah_plain (qs_Ayahs (demo_source ''b''))"
  by (simp add: demo_source_def demo_ayah_def demo_translation_def demo_transliteration_def ayah_plain_def no_nul_def)

lemma demo_count: "length (demo_units txt) = 4"
  by (simp add: demo_units_def Let_def)

lemma demo_bars: "list_all bar_free (demo_units ''b'')"
  by (simp add: demo_units_def Let_def newDerivedQuranUnit_def bar_free_def no_bar_def)

lemma demo_inj: "inj_on (env_uuid5 (qe_unit demo_quran_env)) A"
  by (simp add: demo_quran_env_def demo_unit_env_def)

lemma demo_texts:
  "list_all (\<lambda>a. case ay_Text a of None \<Rightarrow> True | Some t \<Rightarrow> sql_blank t \<or> trim_space t \<noteq> '''') (qd_ayahs demo_quran_db)"
  by (simp add: demo_quran_db_def demo_trim_char byte_def)

lemma demo_clean: "surah_clean demo_quran_env 1 demo_quran_db"
  unfolding surah_clean_def demo_load sum.case demo_derived
  using demo_plain demo_bars demo_inj demo_texts
  by (simp add: registry_ok_def demo_quran_db_def)

lemma demo_no_drift: "\<not> primary_drift (QuranSnapshot demo_quran_db 1) (demo_units ''b'')"
proof -
  have "mset (active_records demo_quran_db 1) = {#}"
    unfolding active_records_mset by (simp add: surah_active_def surah_bindings_def demo_quran_db_def)
  then have "qn_Active (QuranSnapshot demo_quran_db 1) = []" by (simp add: QuranSnapshot_def)
  then show ?thesis by (simp add: primary_drift_def drifted_def activeBySlot_def absent_def list_ex_iff)
qed

lemma demo_fair: "fair_writers demo_quran_env 1 alone"
  by (simp add: fair_writers_def noticed_def)

lemma demo_row: "find (\<lambda>r. su_ID r = 1) (qd_surahs demo_quran_db) = Some \<lparr>su_ID = 1, su_StaleAt = Some 8, su_DerivedAt = None\<rparr>"
  "\<not> stale_after \<lparr>su_ID = 1, su_StaleAt = Some 8, su_DerivedAt = None\<rparr> (qd_clock demo_quran_db)"
  by (simp_all add: demo_quran_db_def stale_after_def)

text \<open>The tables after the first run.\<close>

lemma demo_run:
  obtains plan ps where "planned_run (qe_unit demo_quran_env) demo_quran_db (demo_source ''b'') (demo_units ''b'') ps plan"
    "ReconcileQuranSurah demo_quran_env alone 1 demo_quran_db =
       Some (Inr ((qp_Report plan)\<lparr>qrep_Attempts := 1\<rparr>), after_batch demo_quran_db plan)"
  using reconcile_alone(2) [OF demo_clean demo_load demo_derived demo_row demo_no_drift] by blast

lemma batch_clean:
  assumes "surah_clean Q s db" "LoadQuranSource db s = Inr source" "deriveQuranSurah Q source = Inr derived"
    and "planned_run (qe_unit Q) db source derived ps plan" "\<And>A. inj_on (env_uuid5 (qe_unit Q)) A"
  shows "surah_clean Q s (after_batch db plan)" "in_sync Q (after_batch db plan) s"
proof -
  note load = load_sel [OF assms(2)]
  from same_source [OF batch_source assms(2), of plan] obtain source' where
    s: "LoadQuranSource (after_batch db plan) s = Inr source'" "qs_Ayahs source' = qs_Ayahs source" by blast
  have d: "deriveQuranSurah Q source' = Inr derived" using derive_ayahs_only [OF s(2)] assms(3) by simp
  have "map su_ID (qd_surahs (after_batch db plan)) = map su_ID (qd_surahs db)" by (simp add: after_batch_def stamped_def)
  moreover have "qd_ayahs (after_batch db plan) = qd_ayahs db" by (simp add: after_batch_def)
  ultimately show "surah_clean Q s (after_batch db plan)"
    using assms(1-3,5) batch_registry_ok [OF assms(4)] s d by (simp add: surah_clean_def)
  show "in_sync Q (after_batch db plan) s"
    using batch_refines [OF assms(4)] load(1) s(1) d by (simp add: in_sync_def)
qed

lemma demo_second:
  obtains db where "surah_clean demo_quran_env 1 db" "in_sync demo_quran_env db 1"
    "list_ex (\<lambda>r. su_ID r = 1 \<and> \<not> stale_after r (qd_clock db)) (qd_surahs db)" "length (qd_bindings db) = 4"
proof -
  obtain plan ps where run: "planned_run (qe_unit demo_quran_env) demo_quran_db (demo_source ''b'') (demo_units ''b'') ps plan"
    using demo_run .
  note after = batch_clean [OF demo_clean demo_load demo_derived run demo_inj]
  have "list_ex (\<lambda>r. su_ID r = 1 \<and> \<not> stale_after r (qd_clock (after_batch demo_quran_db plan)))
      (qd_surahs (after_batch demo_quran_db plan))"
    using plan_keys [OF run] by (simp add: after_batch_def demo_quran_db_def stamped_def demo_source_def stale_after_def)
  moreover have "pq_matched p = None" if "p \<in> set ps" for p
  proof (rule ccontr)
    assume "pq_matched p \<noteq> None"
    with planned_id_cases [OF run that] show False by (auto simp: surah_active_set demo_quran_db_def)
  qed
  then have "fresh_units ps = ps" by (simp add: fresh_units_def)
  moreover have "length ps = 4"
    using planned_runD(2) [OF run refl] demo_count by (metis length_map)
  ultimately show thesis using that [OF after] by (simp add: final_units after_mints_def plan_mints [OF run] demo_quran_db_def)
qed

section \<open>Properties\<close>

text \<open>
  C5. Without interference a surah with clean tables (\<open>surah_clean\<close>) that loads and derives, and
  whose row is not marked stale after the clock of the load, is settled by the first attempt:
  \<open>ReconcileQuranSurah\<close> answers ErrQuranPrimaryTextDrift
  and writes nothing exactly when the primary text of an ayah changed or vanished, and otherwise
  succeeds. In particular the unbounded occurrence probe ends, no statement of the batch fails and
  neither the invariant checks nor the deferred trigger refuse the commit. Clean tables are: the
  registry invariant holds, each surah has one row, no ayah text is blank for Go's \<open>TrimSpace\<close>
  only (a line feed, say, which SQL's \<open>btrim\<close> keeps), the identifiers of the units that derive
  hold no NUL and no bar, and UUIDv5 separates the natural keys in reach. The condition on texts is
  needed: \<open>newline_text_never_settles\<close> below is a surah that without it fails at every attempt.
\<close>
theorem quran_reconcile_returns:
  assumes "surah_clean Q s db" "LoadQuranSource db s = Inr source" "deriveQuranSurah Q source = Inr derived"
    and "list_ex (\<lambda>r. su_ID r = s \<and> \<not> stale_after r (qd_clock db)) (qd_surahs db)"
  shows "if primary_drift (QuranSnapshot db s) derived
    then ReconcileQuranSurah Q (\<lambda>k db. db) s db = Some (Inl ErrQuranPrimaryTextDrift, db)
    else \<exists>rep db'. ReconcileQuranSurah Q (\<lambda>k db. db) s db = Some (Inr rep, db') \<and> qrep_Attempts rep = 1 \<and>
      qrep_Matched rep + qrep_Minted rep = int (length derived) \<and> length (surah_active db' s) = length derived"
proof (cases "primary_drift (QuranSnapshot db s) derived")
  case True
  obtain r where r: "find (\<lambda>r. su_ID r = s) (qd_surahs db) = Some r" "\<not> stale_after r (qd_clock db)"
    using clean_surah_row [OF assms(1,4)] .
  from reconcile_alone(1) [OF assms(1-3) r True] True show ?thesis by simp
next
  case False
  obtain r where r: "find (\<lambda>r. su_ID r = s) (qd_surahs db) = Some r" "\<not> stale_after r (qd_clock db)"
    using clean_surah_row [OF assms(1,4)] .
  from reconcile_alone(2) [OF assms(1-3) r False] obtain plan ps where
    run: "planned_run (qe_unit Q) db source derived ps plan"
    and res: "ReconcileQuranSurah Q (\<lambda>k db. db) s db =
      Some (Inr ((qp_Report plan)\<lparr>qrep_Attempts := 1\<rparr>), after_batch db plan)" by blast
  from plan_counts [OF run] final_count [OF run] load_sel(1) [OF assms(2)] res False show ?thesis by simp
qed

theorem quran_reconcile_returns_witness:
  "\<exists>rep db'. ReconcileQuranSurah demo_quran_env (\<lambda>k db. db) 1 demo_quran_db = Some (Inr rep, db') \<and>
     qrep_Attempts rep = 1 \<and> length (surah_active db' 1) = 4"
proof -
  have "list_ex (\<lambda>r. su_ID r = 1 \<and> \<not> stale_after r (qd_clock demo_quran_db)) (qd_surahs demo_quran_db)"
    by (simp add: demo_quran_db_def stale_after_def)
  from quran_reconcile_returns [OF demo_clean demo_load demo_derived this] demo_no_drift demo_count [of "''b''"]
  show ?thesis by auto
qed

text \<open>
  C2. After a success from clean tables (\<open>surah_clean\<close>, as in C5) the registry shows the source: whatever other writers do between the three
  transactions of the loop, as long as what they change in the surah is noticed by the stale mark
  or by the fingerprint, the active slots of the surah are exactly those its current source derives
  to, each with the content hash, page, position, parent slot and source time of its derived unit.
\<close>
theorem quran_reconcile_refines:
  assumes "surah_clean Q s db" "fair_writers Q s other" "ReconcileQuranSurah Q other s db = Some (Inr rep, db')"
  shows "\<exists>source derived. LoadQuranSource db' s = Inr source \<and> deriveQuranSurah Q source = Inr derived \<and>
    registry_view db' s = derived_view derived"
  using loop_sound [OF assms(1,2) assms(3) [unfolded ReconcileQuranSurah_def]]
  by (auto simp: in_sync_def split: sum.splits)

theorem quran_reconcile_refines_witness:
  "\<exists>rep db'. ReconcileQuranSurah demo_quran_env (\<lambda>k db. db) 1 demo_quran_db = Some (Inr rep, db') \<and>
     (\<exists>source derived. LoadQuranSource db' 1 = Inr source \<and> deriveQuranSurah demo_quran_env source = Inr derived \<and>
        registry_view db' 1 = derived_view derived)"
proof -
  obtain plan ps where run: "ReconcileQuranSurah demo_quran_env alone 1 demo_quran_db =
      Some (Inr ((qp_Report plan)\<lparr>qrep_Attempts := 1\<rparr>), after_batch demo_quran_db plan)" using demo_run .
  from quran_reconcile_refines [OF demo_clean demo_fair run] run show ?thesis by blast
qed

text \<open>
  C11. Any run of the loop from clean tables under such writers, failed or not, leaves tables in which identifiers,
  anchors and places are unique, every binding has the unit its natural key names, an active slot
  has one active row, an active footnote an active translation of its source and ayah above it, and
  every ayah with rows an active primary unit of ordinal 1.
\<close>
theorem quran_registry_invariant:
  assumes "surah_clean Q s db" "fair_writers Q s other" "ReconcileQuranSurah Q other s db = Some (res, db')"
  shows "registry_ok (qe_unit Q) db'"
  using loop_sound [OF assms(1,2) assms(3) [unfolded ReconcileQuranSurah_def]]
  by (cases res) (simp_all add: surah_clean_def)

theorem quran_registry_invariant_witness:
  "\<exists>res db'. ReconcileQuranSurah demo_quran_env (\<lambda>k db. db) 1 demo_quran_db = Some (res, db') \<and>
     registry_ok demo_unit_env db'"
proof -
  obtain plan ps where run: "ReconcileQuranSurah demo_quran_env alone 1 demo_quran_db =
      Some (Inr ((qp_Report plan)\<lparr>qrep_Attempts := 1\<rparr>), after_batch demo_quran_db plan)" using demo_run .
  from quran_registry_invariant [OF demo_clean demo_fair run] run show ?thesis by (auto simp: demo_quran_env_def)
qed

text \<open>
  C14. A successful run from clean tables deletes nothing: every binding keeps its unit, its place and its slot, the
  rows and units of other surahs stay as they were, an active primary unit stays active, and a unit
  that is no longer active is superseded when an edge of the lineage leaves it and tombstoned when
  none does.
\<close>
theorem quran_rows_kept:
  assumes "surah_clean Q s db" "ReconcileQuranSurah Q (\<lambda>k db. db) s db = Some (Inr rep, db')"
  shows "(\<forall>r\<in>set (qd_bindings db). \<exists>r'\<in>set (qd_bindings db').
      qb_UnitID (br_Binding r') = qb_UnitID (br_Binding r) \<and> binding_place (br_Binding r') = binding_place (br_Binding r) \<and>
      binding_ident (br_Binding r') = binding_ident (br_Binding r) \<and>
      (qb_SurahID (br_Binding r) \<noteq> s \<longrightarrow> r' = r \<and>
        unit_row db' (qb_UnitID (br_Binding r)) = unit_row db (qb_UnitID (br_Binding r))) \<and>
      (qb_Role (br_Binding r) = QuranUnitRolePrimaryText \<longrightarrow> row_active db r \<longrightarrow> row_active db' r')) \<and>
    (\<forall>u\<in>set (qd_units db'). is_active db (u_ID u) \<longrightarrow> u_Lifecycle u \<noteq> UnitLifecycleActive \<longrightarrow>
      u_Lifecycle u = (if list_ex (\<lambda>e. e_PredecessorID e = u_ID u) (qd_lineage db')
        then UnitLifecycleSuperseded else UnitLifecycleTombstoned))"
proof -
  obtain source derived ps plan k where run: "planned_run (qe_unit Q) db source derived ps plan"
    and db': "db' = after_batch db plan" "qs_SurahID source = s"
    using reconcile_alone_success [OF assms] .
  note rows = kept_rows [OF run, unfolded db'(2)] and fates = retired_fate [OF run]
  show ?thesis unfolding db'(1) using rows fates by blast
qed

text \<open>
  C15. A surah with clean tables (\<open>surah_clean\<close>: registry invariant, one row per surah, no text
  that only Go trims to nothing, plain identifiers, UUIDv5 injective in reach) whose registry shows
  its source and whose row is not marked stale after the clock of the load is left alone: the next
  run succeeds, mints, moves and retires nothing, and only stamps the row of the surah. A surah that
  shows its source but holds a text only Go trims is not: \<open>newline_text_never_settles\<close>.
\<close>
theorem quran_resync_quiet:
  assumes "surah_clean Q s db" "in_sync Q db s"
    and "list_ex (\<lambda>r. su_ID r = s \<and> \<not> stale_after r (qd_clock db)) (qd_surahs db)"
  shows "\<exists>rep. ReconcileQuranSurah Q (\<lambda>k db. db) s db =
      Some (Inr rep, db\<lparr>qd_surahs := map (stamped s (qd_clock db)) (qd_surahs db)\<rparr>) \<and>
    qrep_Minted rep = 0 \<and> qrep_Updated rep = 0 \<and> qrep_Superseded rep = 0 \<and> qrep_Tombstoned rep = 0"
proof -
  from assms(2) obtain source derived where load: "LoadQuranSource db s = Inr source"
    and der: "deriveQuranSurah Q source = Inr derived" and view: "registry_view db s = derived_view derived"
    by (auto simp: in_sync_def split: sum.splits)
  obtain r where r: "find (\<lambda>r. su_ID r = s) (qd_surahs db) = Some r" "\<not> stale_after r (qd_clock db)"
    using clean_surah_row [OF assms(1,3)] .
  note sel = load_sel [OF load]
  from reconcile_alone(2) [OF assms(1) load der r synced_no_drift [OF clean_run(1) [OF assms(1) load der] view]]
  obtain plan ps where run: "planned_run (qe_unit Q) db source derived ps plan"
    and res: "ReconcileQuranSurah Q (\<lambda>k db. db) s db =
      Some (Inr ((qp_Report plan)\<lparr>qrep_Attempts := 1\<rparr>), after_batch db plan)" by blast
  note empty = synced_plan [OF run view [folded sel(1)]]
  from res after_empty [OF empty] plan_keys [OF run] sel(1,2) plan_quiet_report [OF run empty(1-3)] show ?thesis by simp
qed

theorem quran_resync_quiet_witness:
  "\<exists>db rep db'. length (qd_bindings db) = 4 \<and> ReconcileQuranSurah demo_quran_env (\<lambda>k db. db) 1 db = Some (Inr rep, db') \<and>
     qrep_Minted rep = 0 \<and> qd_units db' = qd_units db"
proof -
  obtain db where db: "surah_clean demo_quran_env 1 db" "in_sync demo_quran_env db 1"
    "list_ex (\<lambda>r. su_ID r = 1 \<and> \<not> stale_after r (qd_clock db)) (qd_surahs db)" "length (qd_bindings db) = 4"
    using demo_second .
  from quran_resync_quiet [OF db(1-3)] db(4) show ?thesis by auto
qed

theorem quran_rows_kept_witness:
  "\<exists>db rep db'. length (qd_bindings db) = 4 \<and> ReconcileQuranSurah demo_quran_env (\<lambda>k db. db) 1 db = Some (Inr rep, db') \<and>
     list_all (\<lambda>r. qb_UnitID (br_Binding r) \<in> (qb_UnitID \<circ> br_Binding) ` set (qd_bindings db')) (qd_bindings db)"
proof -
  obtain db where db: "surah_clean demo_quran_env 1 db" "in_sync demo_quran_env db 1"
    "list_ex (\<lambda>r. su_ID r = 1 \<and> \<not> stale_after r (qd_clock db)) (qd_surahs db)" "length (qd_bindings db) = 4"
    using demo_second .
  obtain rep db' where run: "ReconcileQuranSurah demo_quran_env (\<lambda>k db. db) 1 db = Some (Inr rep, db')"
    using resync_runs [OF db(1-3)] .
  have "qb_UnitID (br_Binding r) \<in> (qb_UnitID \<circ> br_Binding) ` set (qd_bindings db')" if "r \<in> set (qd_bindings db)" for r
  proof -
    from quran_rows_kept [OF db(1) run] that obtain r' where "r' \<in> set (qd_bindings db')"
      "qb_UnitID (br_Binding r') = qb_UnitID (br_Binding r)" by blast
    then show ?thesis by (intro image_eqI [of _ _ r']) simp_all
  qed
  then have "list_all (\<lambda>r. qb_UnitID (br_Binding r) \<in> (qb_UnitID \<circ> br_Binding) ` set (qd_bindings db')) (qd_bindings db)"
    by (simp only: list_all_iff) blast
  with run db(4) show ?thesis by blast
qed

section \<open>A text only Go trims\<close>

text \<open>
  PostgreSQL's \<open>btrim\<close> removes spaces, Go's \<open>TrimSpace\<close> every white space: an ayah whose primary
  text is a line break derives no unit, yet the check before the commit asks for one, so the surah
  can never be reconciled.
\<close>

definition newline_db :: quran_db where
  "newline_db = demo_quran_db\<lparr>qd_ayahs := [\<lparr>ay_SurahID = 1, ay_AyahNumber = 1, ay_PageNumber = Some 7,
     ay_Text = Some [CHR 0x0A], ay_UpdatedAt = 5\<rparr>]\<rparr>"

lemma newline_trimmed: "trim_space [CHR 0x0A] = ''''"
proof -
  let ?nl = "CHR 0x0A"
  have "?nl = char_of (10::nat)" by code_simp
  then have "[?nl] \<in> set space_runes"
    unfolding space_runes_def set_map by (intro image_eqI [of _ _ "[10]"]) simp_all
  moreover have "has_prefix [?nl] [?nl]" by (simp add: has_prefix_def)
  ultimately obtain w where w: "find (\<lambda>w. has_prefix [?nl] w) space_runes = Some w"
    by (cases "find (\<lambda>w. has_prefix [?nl] w) space_runes") (auto simp: find_None_iff)
  then have "w \<in> set space_runes" by (auto simp: find_Some_iff)
  then have "w \<noteq> []" by (rule space_runes_not_Nil)
  then have none: "drop (length w) [?nl] = []" by (simp add: Suc_le_eq)
  have "trim_left [?nl] = trim_left []" by (subst trim_left.simps) (simp only: w none option.case)
  also have "\<dots> = ''''" by (rule blank_trim_left) (simp add: sql_blank_def)
  finally have "trim_left [?nl] = ''''" .
  then show ?thesis using trim_right_take [of "''''"] by (auto simp: trim_space_def)
qed

lemma newline_text_never_settles:
  "ReconcileQuranSurah demo_quran_env (\<lambda>k db. db) 1 newline_db = Some (Inl ErrRegistryInvariant, newline_db)"
proof -
  have load: "\<exists>a. LoadQuranSource newline_db 1 = Inr \<lparr>qs_SurahID = 1, qs_LoadedAt = 9, qs_Ayahs = [a]\<rparr> \<and>
      qa_PrimaryText a = [CHR 0x0A] \<and> qa_AyahNumber a = 1"
    by (simp add: LoadQuranSource_def newline_db_def demo_quran_db_def ayah_source_def)
  then obtain a where a: "LoadQuranSource newline_db 1 = Inr \<lparr>qs_SurahID = 1, qs_LoadedAt = 9, qs_Ayahs = [a]\<rparr>"
    "qa_PrimaryText a = [CHR 0x0A]" "qa_AyahNumber a = 1" by blast
  let ?src = "\<lparr>qs_SurahID = 1, qs_LoadedAt = 9, qs_Ayahs = [a]\<rparr>"
  have d: "deriveQuranSurah demo_quran_env ?src = Inr []"
    using a by (simp add: deriveQuranSurah_def sort_slice_def insert_last_def derive_ayah_def newline_trimmed)
  have "mset (active_records newline_db 1) = {#}"
    unfolding active_records_mset by (simp add: surah_active_def surah_bindings_def newline_db_def demo_quran_db_def)
  then have s: "qn_Active (QuranSnapshot newline_db 1) = []" by (simp add: QuranSnapshot_def)
  have p: "planQuranSurah (qe_unit demo_quran_env) ?src [] (QuranSnapshot newline_db 1) =
      Some (Inr (empty_plan ?src [] (QuranSnapshot newline_db 1)))"
    by (simp add: planQuranSurah_def s)
  have "ApplyQuranReconcile (empty_plan ?src [] (QuranSnapshot newline_db 1)) newline_db = (Inl ErrRegistryInvariant, newline_db)"
    by (simp add: ApplyQuranReconcile_def empty_plan_def QuranSnapshot_def plan_stmts_def newline_db_def demo_quran_db_def
        assertQuranRegistryInvariants_def surah_bindings_def primary_count_def sql_blank_def quranRegistryFingerprint_def
        stamped_def)
  with a(1) d p show ?thesis
    by (simp add: ReconcileQuranSurah_def reconcileAttempts_def numeral_eq_Suc reconcile_attempt_def Let_def apply_report)
qed

end
