(* ===== verification/Anchor_Store.thy ===== *)
theory Anchor_Store
  imports Quran_Types "HOL-Library.AList" "HOL-Library.Char_ord" "HOL-Library.List_Lexorder"
    "HOL-Library.Product_Lexorder"
begin

text \<open>
  What the anchor resolver reads: the tables behind \<open>repo/persistent/anchor_postgres.go\<close> with the two
  views of the migrations it joins, and the records of \<open>entity/anchor.go\<close>. Tables hold the columns
  the queries use, rows have the primary keys of the migrations, and one read sees one state.
\<close>

section \<open>Tables\<close>

record book_row =
  bk_ID :: int
  bk_Deleted :: bool
  bk_License :: string
  bk_DerivedAt :: "int option"
  bk_UpdatedAt :: int

record publication_row =
  pb_BookID :: int
  pb_Status :: string
  pb_GrandfatheredAt :: "int option"
  pb_UpdatedAt :: int

record heading_row =
  hd_BookID :: int
  hd_HeadingID :: int
  hd_PageID :: int
  hd_Ordinal :: int
  hd_Deleted :: bool
  hd_UpdatedAt :: int

record page_row =
  pg_BookID :: int
  pg_PageID :: int
  pg_Deleted :: bool
  pg_UpdatedAt :: int

record surah_row =
  sr_ID :: int
  sr_StaleAt :: "int option"
  sr_UpdatedAt :: int

record ayah_row =
  yr_SurahID :: int
  yr_AyahNumber :: int
  yr_Text :: "string option"
  yr_Juz :: "int option"
  yr_Hizb :: "int option"
  yr_Page :: "int option"
  yr_UpdatedAt :: int

text \<open>A row of \<open>quran_ayah_translations\<close> or \<open>quran_ayah_transliterations\<close>.\<close>

record ayah_text_row =
  xr_SourceID :: string
  xr_SurahID :: int
  xr_AyahNumber :: int
  xr_Text :: string
  xr_UpdatedAt :: int

record script_source =
  sc_License :: string
  sc_GrandfatheredAt :: "int option"
  sc_Checksum :: "string option"
  sc_GrandfatheredChecksum :: "string option"

text \<open>\<open>an_collate\<close> is the sort key of the collation of the database, \<open>an_script\<close> the source \<open>qpc-hafs\<close>.\<close>

record anchor_store =
  an_units :: "CitableUnit list"
  an_lineage :: "CitableUnitLineage list"
  an_books :: "book_row list"
  an_publications :: "publication_row list"
  an_headings :: "heading_row list"
  an_pages :: "page_row list"
  an_surahs :: "surah_row list"
  an_ayahs :: "ayah_row list"
  an_translations :: "ayah_text_row list"
  an_transliterations :: "ayah_text_row list"
  an_bindings :: "QuranCitableUnitBinding list"
  an_translation_licenses :: "(string \<times> string) list"
  an_transliteration_licenses :: "(string \<times> string) list"
  an_script :: "script_source option"
  an_collate :: "string \<Rightarrow> string"

datatype anchor_lookup_error =
    ErrInvalidAnchor string
  | ErrAnchorNotFound
  | ErrAnchorOutsideWork
  | ErrAnchorLineageCycle
  | ErrUnsafeAnchorLineage
  | ErrAnchorLineageSafetyBudget
  | ErrInvalidResolutionRecord string
  | ErrAnchorRead

section \<open>Lookups by key\<close>

definition unit_by_id :: "anchor_store \<Rightarrow> string \<Rightarrow> CitableUnit option" where
  "unit_by_id db i = find (\<lambda>u. u_ID u = i) (an_units db)"

definition heading_of :: "anchor_store \<Rightarrow> int option \<Rightarrow> int option \<Rightarrow> heading_row option" where
  "heading_of db book heading =
     (case (book, heading) of
        (Some b, Some h) \<Rightarrow> find (\<lambda>r. hd_BookID r = b \<and> hd_HeadingID r = h) (an_headings db)
      | _ \<Rightarrow> None)"

definition page_of :: "anchor_store \<Rightarrow> int \<Rightarrow> int \<Rightarrow> page_row option" where
  "page_of db b p = find (\<lambda>r. pg_BookID r = b \<and> pg_PageID r = p) (an_pages db)"

definition surah_of :: "anchor_store \<Rightarrow> int \<Rightarrow> surah_row option" where
  "surah_of db s = find (\<lambda>r. sr_ID r = s) (an_surahs db)"

definition ayah_of :: "anchor_store \<Rightarrow> int \<Rightarrow> int \<Rightarrow> ayah_row option" where
  "ayah_of db s n = find (\<lambda>r. yr_SurahID r = s \<and> yr_AyahNumber r = n) (an_ayahs db)"

definition ayah_text :: "ayah_text_row list \<Rightarrow> string option \<Rightarrow> int \<Rightarrow> int \<Rightarrow> ayah_text_row option" where
  "ayah_text rows source s n =
     (case source of None \<Rightarrow> None
      | Some i \<Rightarrow> find (\<lambda>r. xr_SourceID r = i \<and> xr_SurahID r = s \<and> xr_AyahNumber r = n) rows)"

definition binding_of :: "anchor_store \<Rightarrow> string \<Rightarrow> QuranCitableUnitBinding option" where
  "binding_of db i = find (\<lambda>b. qb_UnitID b = i) (an_bindings db)"

text \<open>The generated column \<open>ayah_key\<close>, fixed by a check of its table.\<close>

definition row_key :: "ayah_row \<Rightarrow> string" where
  "row_key a = show_int (yr_SurahID a) @ '':'' @ show_int (yr_AyahNumber a)"

section \<open>Views\<close>

definition LicensePermitted :: string where "LicensePermitted = ''permitted''"
definition LicenseRestricted :: string where "LicenseRestricted = ''restricted''"

text \<open>\<open>public_book_publications\<close>.\<close>

definition publication_open :: "book_row \<Rightarrow> publication_row \<Rightarrow> bool" where
  "publication_open b p \<longleftrightarrow> pb_Status p = ''published'' \<and> \<not> bk_Deleted b \<and>
     (bk_License b = LicensePermitted \<or> pb_GrandfatheredAt p \<noteq> None \<and> bk_License b \<noteq> LicenseRestricted)"

definition public_book :: "anchor_store \<Rightarrow> int \<Rightarrow> (book_row \<times> publication_row) option" where
  "public_book db i =
     (case find (\<lambda>b. bk_ID b = i) (an_books db) of None \<Rightarrow> None
      | Some b \<Rightarrow> (case find (\<lambda>p. pb_BookID p = i) (an_publications db) of None \<Rightarrow> None
        | Some p \<Rightarrow> if publication_open b p then Some (b, p) else None))"

definition book_public :: "anchor_store \<Rightarrow> int \<Rightarrow> bool" where
  "book_public db b \<longleftrightarrow> public_book db b \<noteq> None"

definition license_open :: "CitableUnit \<Rightarrow> bool" where
  "license_open u \<longleftrightarrow> (case u_LicenseStatus u of None \<Rightarrow> True | Some s \<Rightarrow> s = LicensePermitted)"

text \<open>\<open>citable_units_with_effective_license\<close>, by the branches of its union.\<close>

definition coalesce :: "'a option \<Rightarrow> 'a option \<Rightarrow> 'a option" where
  "coalesce x y = (case x of None \<Rightarrow> y | Some _ \<Rightarrow> x)"

definition script_license :: "script_source \<Rightarrow> string" where
  "script_license s =
     (if sc_License s = LicensePermitted then LicensePermitted
      else if sc_GrandfatheredAt s \<noteq> None \<and> sc_License s \<noteq> LicenseRestricted \<and>
        sc_Checksum s = sc_GrandfatheredChecksum s then LicensePermitted
      else sc_License s)"

definition effective_license :: "anchor_store \<Rightarrow> CitableUnit \<Rightarrow> string option" where
  "effective_license db u =
     (if u_Corpus u = UnitCorpusQuran
      then (case binding_of db (u_ID u) of None \<Rightarrow> None
        | Some b \<Rightarrow> coalesce (Option.bind (qb_TranslationSourceID b) (map_of (an_translation_licenses db)))
            (coalesce (Option.bind (qb_TransliterationSourceID b) (map_of (an_transliteration_licenses db)))
              (if qb_Role b = QuranUnitRolePrimaryText then map_option script_license (an_script db) else None)))
      else coalesce (u_LicenseStatus u)
        (if u_Corpus u = UnitCorpusKitab
         then Option.bind (u_BookID u) (\<lambda>i. map_option bk_License (find (\<lambda>b. bk_ID b = i) (an_books db)))
         else None))"

section \<open>Three-valued conditions\<close>

type_synonym sql_bool = "bool option"

definition sql_and :: "sql_bool \<Rightarrow> sql_bool \<Rightarrow> sql_bool" where
  "sql_and x y = (if x = Some False \<or> y = Some False then Some False
     else if x = Some True \<and> y = Some True then Some True else None)"

definition sql_eq :: "'a option \<Rightarrow> 'a option \<Rightarrow> sql_bool" where
  "sql_eq x y = (case (x, y) of (Some a, Some b) \<Rightarrow> Some (a = b) | _ \<Rightarrow> None)"

lemma sql_and_true [simp]: "sql_and x y = Some True \<longleftrightarrow> x = Some True \<and> y = Some True"
  by (auto simp: sql_and_def)

lemma sql_eq_true [simp]: "sql_eq x y = Some True \<longleftrightarrow> (\<exists>a. x = Some a \<and> y = Some a)"
  by (auto simp: sql_eq_def split: option.splits)

text \<open>The case over the role: is the text of the unit still that of its source row?\<close>

definition role_current :: "anchor_store \<Rightarrow> CitableUnit \<Rightarrow> QuranCitableUnitBinding \<Rightarrow> ayah_row \<Rightarrow> sql_bool" where
  "role_current db u b a =
     (let t = ayah_text (an_translations db) (qb_TranslationSourceID b) (qb_SurahID b) (qb_AyahNumber b);
          x = ayah_text (an_transliterations db) (qb_TransliterationSourceID b) (qb_SurahID b) (qb_AyahNumber b);
          stamp = Some (qb_SourceUpdatedAt b); txt = Some (u_Text u)
      in if qb_Role b = QuranUnitRolePrimaryText
         then sql_and (sql_eq stamp (Some (yr_UpdatedAt a))) (sql_eq txt (yr_Text a))
         else if qb_Role b = QuranUnitRoleTranslation
         then sql_and (sql_eq stamp (map_option xr_UpdatedAt t)) (sql_eq txt (map_option xr_Text t))
         else if qb_Role b = QuranUnitRoleFootnote then sql_eq stamp (map_option xr_UpdatedAt t)
         else if qb_Role b = QuranUnitRoleTransliteration
         then sql_and (sql_eq stamp (map_option xr_UpdatedAt x)) (sql_eq txt (map_option xr_Text x))
         else Some False)"

section \<open>Records of \<open>entity/anchor.go\<close>\<close>

record AnchorRedirect =
  rd_From :: string
  rd_To :: string
  rd_Reason :: string
  rd_Depth :: int

record AnchorRecord =
  ar_TargetType :: string
  ar_Corpus :: string
  ar_CanonicalAnchor :: "string option"
  ar_UnitID :: "string option"
  ar_PrimaryUnitID :: "string option"
  ar_PrimaryUnitAnchor :: "string option"
  ar_BookID :: "int option"
  ar_HeadingID :: "int option"
  ar_PageID :: "int option"
  ar_SurahID :: "int option"
  ar_AyahKey :: "string option"
  ar_Lifecycle :: string
  ar_UpdatedAt :: int

record AnchorLookupResult =
  lk_CanonicalAnchor :: "string option"
  lk_Status :: string
  lk_ActiveRecords :: "AnchorRecord list"
  lk_RedirectChain :: "AnchorRedirect list"
  lk_CycleDetected :: bool

record AnchorResolveInput =
  in_Anchor :: string
  in_BookID :: "int option"
  in_PageID :: "int option"
  in_SurahID :: "int option"
  in_FromAyahNumber :: "int option"
  in_ToAyahNumber :: "int option"
  in_JuzNumber :: "int option"
  in_HizbNumber :: "int option"
  in_PageNumber :: "int option"

record AnchorRequested =
  rq_Form :: string
  rq_Anchor :: string
  rq_BookID :: "int option"
  rq_PageID :: "int option"
  rq_SurahID :: "int option"
  rq_FromAyahNumber :: "int option"
  rq_ToAyahNumber :: "int option"
  rq_JuzNumber :: "int option"
  rq_HizbNumber :: "int option"
  rq_PageNumber :: "int option"

record AnchorTarget =
  tg_TargetType :: string
  tg_Corpus :: string
  tg_CanonicalAnchor :: "string option"
  tg_UnitID :: "string option"
  tg_PrimaryUnitID :: "string option"
  tg_PrimaryUnitAnchor :: "string option"
  tg_BookID :: "int option"
  tg_HeadingID :: "int option"
  tg_PageID :: "int option"
  tg_SurahID :: "int option"
  tg_AyahKey :: "string option"
  tg_NavigationURL :: string
  tg_UpdatedAt :: int

record AnchorBoundary =
  bd_Role :: string
  bd_CanonicalAnchor :: "string option"
  bd_Status :: string
  bd_ActiveTargets :: "AnchorTarget list"
  bd_RedirectChain :: "AnchorRedirect list"

record AnchorResolution =
  rs_Requested :: AnchorRequested
  rs_CanonicalAnchor :: "string option"
  rs_Boundaries :: "AnchorBoundary list"

definition AnchorFormCanonical :: string where "AnchorFormCanonical = ''canonical''"
definition AnchorFormLegacyAyahKey :: string where "AnchorFormLegacyAyahKey = ''legacy_ayah_key''"
definition AnchorFormLegacyTOC :: string where "AnchorFormLegacyTOC = ''legacy_toc''"
definition AnchorFormLegacyPage :: string where "AnchorFormLegacyPage = ''legacy_page''"
definition AnchorFormLegacyQuranSurah :: string where "AnchorFormLegacyQuranSurah = ''legacy_quran_surah''"
definition AnchorFormLegacyQuranRange :: string where "AnchorFormLegacyQuranRange = ''legacy_quran_range''"
definition AnchorFormLegacyQuranJuz :: string where "AnchorFormLegacyQuranJuz = ''legacy_quran_juz''"
definition AnchorFormLegacyQuranHizb :: string where "AnchorFormLegacyQuranHizb = ''legacy_quran_hizb''"
definition AnchorFormLegacyQuranPage :: string where "AnchorFormLegacyQuranPage = ''legacy_quran_page''"

definition AnchorBoundaryPoint :: string where "AnchorBoundaryPoint = ''point''"
definition AnchorBoundaryStart :: string where "AnchorBoundaryStart = ''start''"
definition AnchorBoundaryEnd :: string where "AnchorBoundaryEnd = ''end''"

definition AnchorTargetCitableUnit :: string where "AnchorTargetCitableUnit = ''citable_unit''"
definition AnchorTargetQuranSurah :: string where "AnchorTargetQuranSurah = ''quran_surah''"
definition AnchorTargetQuranAyah :: string where "AnchorTargetQuranAyah = ''quran_ayah''"
definition AnchorTargetBook :: string where "AnchorTargetBook = ''book''"
definition AnchorTargetBookHeading :: string where "AnchorTargetBookHeading = ''book_heading''"
definition AnchorTargetBookPage :: string where "AnchorTargetBookPage = ''book_page''"

lemmas anchor_targets = AnchorTargetCitableUnit_def AnchorTargetQuranSurah_def AnchorTargetQuranAyah_def
  AnchorTargetBook_def AnchorTargetBookHeading_def AnchorTargetBookPage_def

definition AnchorRedirectLegacyAlias :: string where "AnchorRedirectLegacyAlias = ''legacy_alias''"
definition AnchorRedirectLegacyPage :: string where "AnchorRedirectLegacyPage = ''legacy_page''"

end
