(* ===== verification/Lineage_Walk.thy ===== *)
theory Lineage_Walk
  imports Anchor_Store
begin

text \<open>
  The lineage walk of \<open>repo/persistent/anchor_postgres.go\<close>: the closure of the lineage table from
  some units, with its safety budget, the depth of every redirect, the detection of cycles and the
  active units it ends in. A Go map is the list of its entries; where the code ranges over one the
  results do not depend on the order, which the lemmas of \<open>Lineage_Props\<close> show.
\<close>

section \<open>Units and results\<close>

record lineageUnit =
  lu_ID :: string
  lu_Anchor :: string
  lu_Corpus :: string
  lu_BookID :: int
  lu_HasBook :: bool
  lu_HeadingID :: "int option"
  lu_HeadingOrdinal :: int
  lu_PageID :: "int option"
  lu_Lifecycle :: string
  lu_Position :: int
  lu_UpdatedAt :: int
  lu_PublicEligible :: bool

record lineageWalkResult =
  lw_ActiveUnits :: "lineageUnit list"
  lw_Redirects :: "AnchorRedirect list"
  lw_CycleDetected :: bool

record lineagePolicy =
  lp_RequirePublic :: bool
  lp_BookID :: int

record lineageGraphEdge =
  ge_PredecessorID :: string
  ge_SuccessorID :: string
  ge_Redirect :: AnchorRedirect

record loadedLineageEdge =
  le_PredecessorID :: string
  le_PredecessorAnchor :: string
  le_Reason :: string
  le_Successor :: lineageUnit
  le_PublicVisible :: bool

definition maxAnchorLineageNodes :: nat where "maxAnchorLineageNodes = 4096"
definition maxAnchorLineageEdges :: nat where "maxAnchorLineageEdges = 16384"

definition publicLineagePolicy :: "int \<Rightarrow> lineagePolicy" where
  "publicLineagePolicy bookID = \<lparr>lp_RequirePublic = True, lp_BookID = bookID\<rparr>"

definition registryLineagePolicy :: lineagePolicy where
  "registryLineagePolicy = \<lparr>lp_RequirePublic = False, lp_BookID = 0\<rparr>"

section \<open>The closure query\<close>

text \<open>
  \<open>WITH RECURSIVE ... UNION\<close>: the rows found last are joined once more until nothing new appears.
\<close>

definition fresh_successors :: "CitableUnitLineage list \<Rightarrow> string list \<Rightarrow> string list \<Rightarrow> string list" where
  "fresh_successors es seen work =
     remdups (filter (\<lambda>s. s \<notin> set seen) (map e_SuccessorID (filter (\<lambda>e. e_PredecessorID e \<in> set work) es)))"

function reachable_ids :: "CitableUnitLineage list \<Rightarrow> string list \<Rightarrow> string list \<Rightarrow> string list" where
  "reachable_ids es seen work =
     (let new = fresh_successors es seen work in if new = [] then seen else reachable_ids es (seen @ new) new)"
  by pat_completeness auto
termination
proof (relation "measure (\<lambda>(es, seen, work). card (e_SuccessorID ` set es - set seen))")
  fix es seen work new
  assume new: "new = fresh_successors es seen work" "new \<noteq> []"
  then obtain x where "x \<in> set new" using list.set_sel(1) by blast
  then have "x \<in> e_SuccessorID ` set es - set seen" "x \<in> set new" using new(1) by (auto simp: fresh_successors_def)
  then have "e_SuccessorID ` set es - set (seen @ new) \<subset> e_SuccessorID ` set es - set seen" by auto
  then show "((es, seen @ new, new), es, seen, work) \<in> measure (\<lambda>(es, seen, work). card (e_SuccessorID ` set es - set seen))"
    by (simp add: psubset_card_mono)
qed simp

declare reachable_ids.simps [simp del]

definition heading_ordinal :: "anchor_store \<Rightarrow> CitableUnit \<Rightarrow> int" where
  "heading_ordinal db u =
     (case heading_of db (u_BookID u) (u_HeadingID u) of None \<Rightarrow> -1 | Some h \<Rightarrow> hd_Ordinal h)"

text \<open>The columns of one unit as a scan of the closure query fills them.\<close>

definition scanned_unit :: "anchor_store \<Rightarrow> CitableUnit \<Rightarrow> lineageUnit" where
  "scanned_unit db u =
     \<lparr>lu_ID = u_ID u, lu_Anchor = u_Anchor u, lu_Corpus = u_Corpus u,
      lu_BookID = (case u_BookID u of None \<Rightarrow> 0 | Some b \<Rightarrow> b), lu_HasBook = (u_BookID u \<noteq> None),
      lu_HeadingID = u_HeadingID u, lu_HeadingOrdinal = heading_ordinal db u, lu_PageID = u_PageID u,
      lu_Lifecycle = u_Lifecycle u, lu_Position = u_Position u, lu_UpdatedAt = u_UpdatedAt u,
      lu_PublicEligible = license_open u\<rparr>"

text \<open>
  The query orders its rows; that order matters only between rows of one pair of units, and the
  primary key of the lineage table allows one row per pair.
\<close>

definition loaded_edge :: "anchor_store \<Rightarrow> CitableUnitLineage \<Rightarrow> loadedLineageEdge list" where
  "loaded_edge db e =
     (case (unit_by_id db (e_PredecessorID e), unit_by_id db (e_SuccessorID e)) of
        (Some p, Some s) \<Rightarrow>
          [\<lparr>le_PredecessorID = u_ID p, le_PredecessorAnchor = u_Anchor p, le_Reason = e_Reason e,
            le_Successor = scanned_unit db s,
            le_PublicVisible = (case u_BookID s of None \<Rightarrow> False | Some b \<Rightarrow> book_public db b)\<rparr>]
      | _ \<Rightarrow> [])"

definition loadLineageClosure :: "anchor_store \<Rightarrow> string list \<Rightarrow> loadedLineageEdge list" where
  "loadLineageClosure db rootIDs =
     (let reach = reachable_ids (an_lineage db) rootIDs rootIDs
      in concat (map (loaded_edge db) (filter (\<lambda>e. e_PredecessorID e \<in> set reach) (an_lineage db))))"

section \<open>The graph\<close>

type_synonym unit_map = "(string \<times> lineageUnit) list"
type_synonym edge_map = "((string \<times> string) \<times> lineageGraphEdge) list"

definition enforceLineageBudget :: "nat \<Rightarrow> nat \<Rightarrow> anchor_lookup_error + unit" where
  "enforceLineageBudget nodes edges =
     (if maxAnchorLineageNodes < nodes \<or> maxAnchorLineageEdges < edges then Inl ErrAnchorLineageSafetyBudget
      else Inr ())"

definition validateLineageSuccessor :: "loadedLineageEdge \<Rightarrow> lineagePolicy \<Rightarrow> anchor_lookup_error + unit" where
  "validateLineageSuccessor edge policy =
     (if \<not> lp_RequirePublic policy then Inr ()
      else if lu_Corpus (le_Successor edge) \<noteq> UnitCorpusKitab \<or> \<not> lu_HasBook (le_Successor edge) \<or>
        lu_BookID (le_Successor edge) \<noteq> lp_BookID policy \<or> \<not> le_PublicVisible edge
      then Inl ErrAnchorOutsideWork else Inr ())"

definition graph_edge :: "loadedLineageEdge \<Rightarrow> lineageGraphEdge" where
  "graph_edge e = \<lparr>ge_PredecessorID = le_PredecessorID e, ge_SuccessorID = lu_ID (le_Successor e),
     ge_Redirect = \<lparr>rd_From = le_PredecessorAnchor e, rd_To = lu_Anchor (le_Successor e),
       rd_Reason = le_Reason e, rd_Depth = 0\<rparr>\<rparr>"

fun add_loaded ::
  "lineagePolicy \<Rightarrow> loadedLineageEdge list \<Rightarrow> unit_map \<Rightarrow> edge_map \<Rightarrow> (string \<Rightarrow> nat) \<Rightarrow>
    anchor_lookup_error + unit_map \<times> edge_map \<times> (string \<Rightarrow> nat)"
where
  "add_loaded policy [] units edges outgoing = Inr (units, edges, outgoing)"
| "add_loaded policy (e # es) units edges outgoing =
     (case validateLineageSuccessor e policy of
        Inl err \<Rightarrow> Inl err
      | Inr _ \<Rightarrow>
          let key = (le_PredecessorID e, lu_ID (le_Successor e));
              known = key \<in> fst ` set edges;
              edges' = (if known then edges else edges @ [(key, graph_edge e)]);
              outgoing' = (if known then outgoing
                else outgoing(le_PredecessorID e := outgoing (le_PredecessorID e) + 1));
              units' = AList.update (lu_ID (le_Successor e)) (le_Successor e) units
          in (case enforceLineageBudget (length units') (length edges') of
                Inl err \<Rightarrow> Inl err
              | Inr _ \<Rightarrow> add_loaded policy es units' edges' outgoing'))"

fun root_units :: "lineageUnit list \<Rightarrow> unit_map \<Rightarrow> unit_map" where
  "root_units [] units = units"
| "root_units (r # rs) units =
     root_units rs (if lu_ID r \<in> fst ` set units then units else units @ [(lu_ID r, r)])"

section \<open>Depths\<close>

definition successors :: "(string \<times> string) list \<Rightarrow> string \<Rightarrow> string list" where
  "successors es p = map snd (filter (\<lambda>e. fst e = p) es)"

fun discover :: "nat \<Rightarrow> string list \<Rightarrow> (string \<times> nat) list \<Rightarrow> string list \<Rightarrow> (string \<times> nat) list \<times> string list" where
  "discover d [] depths queue = (depths, queue)"
| "discover d (s # ss) depths queue =
     (if s \<in> fst ` set depths then discover d ss depths queue
      else discover d ss (depths @ [(s, d)]) (queue @ [s]))"

lemma discover_ext:
  "\<exists>new. discover d ss depths queue = (depths @ map (\<lambda>s. (s, d)) new, queue @ new) \<and>
     set new = set ss - fst ` set depths \<and> distinct new"
proof (induction d ss depths queue rule: discover.induct)
  case (2 d s ss depths queue)
  show ?case
  proof (cases "s \<in> fst ` set depths")
    case True
    with 2(1) show ?thesis by auto
  next
    case False
    with 2(2) obtain new where new: "discover d ss (depths @ [(s, d)]) (queue @ [s]) =
        ((depths @ [(s, d)]) @ map (\<lambda>s. (s, d)) new, (queue @ [s]) @ new)"
      "set new = set ss - fst ` set (depths @ [(s, d)])" "distinct new" by auto
    with False show ?thesis by (intro exI [of _ "s # new"]) auto
  qed
qed auto

definition depth_at :: "(string \<times> nat) list \<Rightarrow> string \<Rightarrow> nat" where
  "depth_at depths s = (case map_of depths s of None \<Rightarrow> 0 | Some d \<Rightarrow> d)"

function bfs :: "(string \<times> string) list \<Rightarrow> (string \<times> nat) list \<Rightarrow> string list \<Rightarrow> (string \<times> nat) list" where
  "bfs es depths [] = depths"
| "bfs es depths (p # queue) =
     (let r = discover (depth_at depths p + 1) (successors es p) depths queue in bfs es (fst r) (snd r))"
  by pat_completeness auto
termination
proof (relation "measure (\<lambda>(es, ds, q). 2 * card (snd ` set es - fst ` set ds) + length q)")
  fix es ds p queue r
  assume r: "r = discover (depth_at ds p + 1) (successors es p) ds queue"
  obtain new where new: "discover (depth_at ds p + 1) (successors es p) ds queue =
      (ds @ map (\<lambda>s. (s, depth_at ds p + 1)) new, queue @ new)"
    "set new = set (successors es p) - fst ` set ds" "distinct new"
    using discover_ext by blast
  have sub: "set new \<subseteq> snd ` set es - fst ` set ds" unfolding new(2) by (auto simp: successors_def)
  have "snd ` set es - fst ` set (ds @ map (\<lambda>s. (s, depth_at ds p + 1)) new) = (snd ` set es - fst ` set ds) - set new"
    by (auto simp: image_Un image_image)
  then have "card (snd ` set es - fst ` set (ds @ map (\<lambda>s. (s, depth_at ds p + 1)) new)) + length new =
      card (snd ` set es - fst ` set ds)"
    using sub distinct_card [OF new(3)] card_mono [OF _ sub] by (simp add: card_Diff_subset)
  then show "((es, fst r, snd r), es, ds, p # queue) \<in>
      measure (\<lambda>(es, ds, q). 2 * card (snd ` set es - fst ` set ds) + length q)"
    unfolding r new(1) by simp
qed simp

declare bfs.simps(2) [simp del]

definition shortestLineageDepths :: "string list \<Rightarrow> edge_map \<Rightarrow> anchor_lookup_error + (string \<times> nat) list" where
  "shortestLineageDepths rootIDs edges =
     (let roots = remdups rootIDs; depths = bfs (map fst edges) (map (\<lambda>r. (r, 0)) roots) roots
      in if list_all (\<lambda>e. fst (fst e) \<in> fst ` set depths) edges then Inr depths else Inl ErrUnsafeAnchorLineage)"

section \<open>Cycles\<close>

fun release :: "string list \<Rightarrow> (string \<Rightarrow> int) \<Rightarrow> string list \<Rightarrow> (string \<Rightarrow> int) \<times> string list" where
  "release [] indegree queue = (indegree, queue)"
| "release (s # ss) indegree queue =
     (let indegree' = indegree(s := indegree s - 1)
      in release ss indegree' (if indegree' s = 0 then queue @ [s] else queue))"

lemma release_measure:
  "finite A \<Longrightarrow> set ss \<subseteq> A \<Longrightarrow> card {s \<in> A. 0 < fst (release ss f q) s} + length (snd (release ss f q)) \<le>
     card {s \<in> A. 0 < f s} + length q"
proof (induction ss f q rule: release.induct)
  case (2 s ss f q)
  let ?f = "f(s := f s - 1)"
  have "card {x \<in> A. 0 < ?f x} + length (if ?f s = 0 then q @ [s] else q) \<le> card {x \<in> A. 0 < f x} + length q"
  proof (cases "?f s = 0")
    case True
    then have e: "{x \<in> A. 0 < ?f x} = {x \<in> A. 0 < f x} - {s}" and s: "s \<in> {x \<in> A. 0 < f x}"
      using 2(3) by auto
    have "card {x \<in> A. 0 < f x} > 0" using s 2(2) by (intro card_gt_0_iff [THEN iffD2]) auto
    with True e s 2(2) show ?thesis by (simp add: card_Diff_singleton)
  next
    case False
    have "{x \<in> A. 0 < ?f x} \<subseteq> {x \<in> A. 0 < f x}" by auto
    with False 2(2) show ?thesis by (simp add: card_mono)
  qed
  note step = this
  have "set ss \<subseteq> A" using 2(3) by simp
  from order_trans [OF 2(1) [OF refl 2(2) this] step] show ?case unfolding release.simps Let_def .
qed simp

function kahn :: "(string \<times> string) list \<Rightarrow> (string \<Rightarrow> int) \<Rightarrow> string list \<Rightarrow> nat \<Rightarrow> nat" where
  "kahn es indegree [] visited = visited"
| "kahn es indegree (x # queue) visited =
     (let r = release (successors es x) indegree queue in kahn es (fst r) (snd r) (visited + 1))"
  by pat_completeness auto
termination
proof (relation "measure (\<lambda>(es, f, q, v). card {s \<in> snd ` set es. 0 < f s} + length q)")
  fix es f x q v r
  assume r: "r = release (successors es x) f q"
  have "set (successors es x) \<subseteq> snd ` set es" by (auto simp: successors_def)
  from release_measure [OF _ this, of f q]
  show "((es, fst r, snd r, v + 1), es, f, x # q, v) \<in>
      measure (\<lambda>(es, f, q, v). card {s \<in> snd ` set es. 0 < f s} + length q)"
    unfolding r by simp
qed simp

declare kahn.simps(2) [simp del]

definition lineageHasCycle :: "unit_map \<Rightarrow> edge_map \<Rightarrow> bool" where
  "lineageHasCycle units edges =
     (let es = map fst edges;
          ids = remdups (map fst units @ map snd es);
          indegree = (\<lambda>s. int (length (filter (\<lambda>e. snd e = s) es)));
          queue = filter (\<lambda>i. indegree i = 0) ids
      in kahn es indegree queue 0 \<noteq> length units)"

section \<open>The walk\<close>

definition sortedLineageUnits :: "lineageUnit list \<Rightarrow> lineageUnit list" where
  "sortedLineageUnits = sort_key (\<lambda>u. (lu_HeadingOrdinal u, lu_Position u, lu_Anchor u))"

definition sorted_redirects :: "AnchorRedirect list \<Rightarrow> AnchorRedirect list" where
  "sorted_redirects = sort_key (\<lambda>r. (rd_Depth r, rd_From r, rd_To r, rd_Reason r))"

definition unit_public :: "unit_map \<Rightarrow> string \<Rightarrow> bool" where
  "unit_public units i = (case map_of units i of None \<Rightarrow> False | Some u \<Rightarrow> lu_PublicEligible u)"

definition finishLineageWalk ::
  "unit_map \<Rightarrow> edge_map \<Rightarrow> (string \<Rightarrow> nat) \<Rightarrow> lineagePolicy \<Rightarrow> anchor_lookup_error + lineageWalkResult"
where
  "finishLineageWalk units edges outgoing policy =
     (let cyc = lineageHasCycle units edges;
          redirects = map (ge_Redirect \<circ> snd) (filter (\<lambda>e. \<not> (lp_RequirePublic policy \<and>
            (\<not> unit_public units (ge_PredecessorID (snd e)) \<or> \<not> unit_public units (ge_SuccessorID (snd e))))) edges)
      in if list_ex (\<lambda>(i, u). \<not> cyc \<and>
             (lu_Lifecycle u = UnitLifecycleSuperseded \<and> outgoing i = 0 \<or>
              lu_Lifecycle u = UnitLifecycleActive \<and> 0 < outgoing i)) units
         then Inl ErrUnsafeAnchorLineage
         else Inr \<lparr>lw_ActiveUnits = sortedLineageUnits (map snd (filter (\<lambda>(i, u).
                lu_Lifecycle u = UnitLifecycleActive \<and> \<not> (lp_RequirePublic policy \<and> \<not> lu_PublicEligible u)) units)),
              lw_Redirects = sorted_redirects redirects, lw_CycleDetected = cyc\<rparr>)"

definition with_depth :: "(string \<times> nat) list \<Rightarrow> lineageGraphEdge \<Rightarrow> lineageGraphEdge" where
  "with_depth depths e = e\<lparr>ge_Redirect := (ge_Redirect e)\<lparr>rd_Depth := int (depth_at depths (ge_PredecessorID e)) + 1\<rparr>\<rparr>"

definition walkLineageUnits :: "anchor_store \<Rightarrow> lineageUnit list \<Rightarrow> lineagePolicy \<Rightarrow> anchor_lookup_error + lineageWalkResult" where
  "walkLineageUnits db roots policy =
     (let units = root_units roots []; rootIDs = map fst units in
      case enforceLineageBudget (length units) 0 of
        Inl err \<Rightarrow> Inl err
      | Inr _ \<Rightarrow> (case add_loaded policy (loadLineageClosure db rootIDs) units [] (\<lambda>_. 0) of
          Inl err \<Rightarrow> Inl err
        | Inr (units', edges, outgoing) \<Rightarrow> (case shortestLineageDepths rootIDs edges of
            Inl err \<Rightarrow> Inl err
          | Inr depths \<Rightarrow>
              finishLineageWalk units' (map (\<lambda>(k, e). (k, with_depth depths e)) edges) outgoing policy)))"

definition lineageUnitFromEntity :: "CitableUnit \<Rightarrow> lineageUnit" where
  "lineageUnitFromEntity u =
     \<lparr>lu_ID = u_ID u, lu_Anchor = u_Anchor u, lu_Corpus = u_Corpus u,
      lu_BookID = (case u_BookID u of None \<Rightarrow> 0 | Some b \<Rightarrow> b), lu_HasBook = (u_Corpus u = UnitCorpusKitab),
      lu_HeadingID = u_HeadingID u, lu_HeadingOrdinal = 0, lu_PageID = u_PageID u,
      lu_Lifecycle = u_Lifecycle u, lu_Position = u_Position u, lu_UpdatedAt = u_UpdatedAt u,
      lu_PublicEligible = False\<rparr>"

definition walkUnitLineage :: "anchor_store \<Rightarrow> CitableUnit \<Rightarrow> anchor_lookup_error + lineageWalkResult" where
  "walkUnitLineage db root = walkLineageUnits db [lineageUnitFromEntity root] registryLineagePolicy"

end
