(* ===== verification/Anchor_Resolve.thy ===== *)
theory Anchor_Resolve
  imports Lineage_Walk
begin

text \<open>
  The resolvers of \<open>AnchorRepo\<close> in \<open>repo/persistent/anchor_postgres.go\<close>, one per kind of point. Each
  reads one snapshot; a broken connection is not modelled, so \<open>ErrAnchorRead\<close> stands for a row whose
  columns cannot be scanned.
\<close>

section \<open>Records\<close>

definition compactUnitRecord :: "string \<Rightarrow> string \<Rightarrow> int \<Rightarrow> int option \<Rightarrow> int option \<Rightarrow> int \<Rightarrow> AnchorRecord" where
  "compactUnitRecord unitID canonicalAnchor bookID headingID pageID updatedAt =
     \<lparr>ar_TargetType = AnchorTargetCitableUnit, ar_Corpus = UnitCorpusKitab, ar_CanonicalAnchor = Some canonicalAnchor,
      ar_UnitID = Some unitID, ar_PrimaryUnitID = None, ar_PrimaryUnitAnchor = None, ar_BookID = Some bookID,
      ar_HeadingID = headingID, ar_PageID = pageID, ar_SurahID = None, ar_AyahKey = None,
      ar_Lifecycle = UnitLifecycleActive, ar_UpdatedAt = updatedAt\<rparr>"

definition lineageUnitRecord :: "lineageUnit \<Rightarrow> AnchorRecord" where
  "lineageUnitRecord u =
     compactUnitRecord (lu_ID u) (lu_Anchor u) (lu_BookID u) (lu_HeadingID u) (lu_PageID u) (lu_UpdatedAt u)"

definition quranUnitAnchorRecord :: "string \<Rightarrow> string \<Rightarrow> int \<Rightarrow> int \<Rightarrow> int option \<Rightarrow> int \<Rightarrow> AnchorRecord" where
  "quranUnitAnchorRecord unitID canonicalAnchor surahID ayahNumber pageID updatedAt =
     \<lparr>ar_TargetType = AnchorTargetCitableUnit, ar_Corpus = UnitCorpusQuran, ar_CanonicalAnchor = Some canonicalAnchor,
      ar_UnitID = Some unitID, ar_PrimaryUnitID = None, ar_PrimaryUnitAnchor = None, ar_BookID = None,
      ar_HeadingID = None, ar_PageID = pageID, ar_SurahID = Some surahID,
      ar_AyahKey = Some (show_int surahID @ '':'' @ show_int ayahNumber),
      ar_Lifecycle = UnitLifecycleActive, ar_UpdatedAt = updatedAt\<rparr>"

definition active_lookup :: "string \<Rightarrow> AnchorRecord \<Rightarrow> AnchorLookupResult" where
  "active_lookup canonical record =
     \<lparr>lk_CanonicalAnchor = Some canonical, lk_Status = UnitLifecycleActive, lk_ActiveRecords = [record],
      lk_RedirectChain = [], lk_CycleDetected = False\<rparr>"

text \<open>The record of a source row: no unit, no primary unit.\<close>

definition source_record :: "string \<Rightarrow> string \<Rightarrow> string option \<Rightarrow> int \<Rightarrow> AnchorRecord" where
  "source_record target corpus canonical updatedAt =
     \<lparr>ar_TargetType = target, ar_Corpus = corpus, ar_CanonicalAnchor = canonical, ar_UnitID = None,
      ar_PrimaryUnitID = None, ar_PrimaryUnitAnchor = None, ar_BookID = None, ar_HeadingID = None,
      ar_PageID = None, ar_SurahID = None, ar_AyahKey = None, ar_Lifecycle = UnitLifecycleActive,
      ar_UpdatedAt = updatedAt\<rparr>"

section \<open>Quran\<close>

definition ResolveQuranSurah :: "anchor_store \<Rightarrow> int \<Rightarrow> anchor_lookup_error + AnchorLookupResult" where
  "ResolveQuranSurah db surahID =
     (case surah_of db surahID of
        None \<Rightarrow> Inl ErrAnchorNotFound
      | Some s \<Rightarrow>
          let canonical = ''quran/'' @ show_int surahID in
          Inr (active_lookup canonical
            ((source_record AnchorTargetQuranSurah UnitCorpusQuran (Some canonical) (sr_UpdatedAt s))
              \<lparr>ar_SurahID := Some surahID\<rparr>)))"

text \<open>The unit the query joins to a binding of the primary text, if the reader may show it.\<close>

definition primary_unit :: "anchor_store \<Rightarrow> ayah_row \<Rightarrow> QuranCitableUnitBinding \<Rightarrow> CitableUnit option" where
  "primary_unit db a b =
     (case unit_by_id db (qb_UnitID b) of None \<Rightarrow> None
      | Some u \<Rightarrow>
          if u_Lifecycle u = UnitLifecycleActive \<and>
             (case surah_of db (yr_SurahID a) of None \<Rightarrow> True | Some s \<Rightarrow> sr_StaleAt s = None) \<and>
             Some (u_Text u) = yr_Text a \<and> qb_SourceUpdatedAt b = yr_UpdatedAt a \<and>
             effective_license db u = Some LicensePermitted
          then Some u else None)"

text \<open>One row is read: that of the first binding of the primary text, or of none.\<close>

definition ResolveQuran :: "anchor_store \<Rightarrow> string \<Rightarrow> anchor_lookup_error + AnchorLookupResult" where
  "ResolveQuran db ayahKey =
     (case find (\<lambda>a. row_key a = ayahKey) (an_ayahs db) of
        None \<Rightarrow> Inl ErrAnchorNotFound
      | Some a \<Rightarrow>
          let binding = find (\<lambda>b. qb_SurahID b = yr_SurahID a \<and> qb_AyahNumber b = yr_AyahNumber a \<and>
                qb_Role b = QuranUnitRolePrimaryText) (an_bindings db);
              primary = Option.bind binding (primary_unit db a);
              canonical = ''quran/'' @ row_key a
          in Inr (active_lookup canonical
            ((source_record AnchorTargetQuranAyah UnitCorpusQuran (Some canonical) (yr_UpdatedAt a))
              \<lparr>ar_AyahKey := Some (row_key a), ar_SurahID := Some (yr_SurahID a),
               ar_PrimaryUnitID := map_option u_ID primary, ar_PrimaryUnitAnchor := map_option u_Anchor primary\<rparr>)))"

definition locator_keys :: "anchor_store \<Rightarrow> (ayah_row \<Rightarrow> int option) \<Rightarrow> int \<Rightarrow> (string \<times> string) option" where
  "locator_keys db column number =
     (case sort_key (\<lambda>a. (yr_SurahID a, yr_AyahNumber a)) (filter (\<lambda>a. column a = Some number) (an_ayahs db)) of
        [] \<Rightarrow> None
      | rows \<Rightarrow> Some (row_key (hd rows), row_key (last rows)))"

definition locator_column :: "string \<Rightarrow> int \<Rightarrow> anchor_lookup_error + (ayah_row \<Rightarrow> int option)" where
  "locator_column kind number =
     (if kind = ''juz'' then (if number < 1 \<or> 30 < number then Inl ErrAnchorNotFound else Inr yr_Juz)
      else if kind = ''hizb'' then (if number < 1 \<or> 60 < number then Inl ErrAnchorNotFound else Inr yr_Hizb)
      else if kind = ''page'' then (if number < 1 then Inl ErrAnchorNotFound else Inr yr_Page)
      else Inl (ErrInvalidAnchor ''''))"

definition ResolveQuranLocator ::
  "anchor_store \<Rightarrow> string \<Rightarrow> int \<Rightarrow> anchor_lookup_error + AnchorLookupResult \<times> AnchorLookupResult"
where
  "ResolveQuranLocator db kind number =
     (case locator_column kind number of
        Inl err \<Rightarrow> Inl err
      | Inr column \<Rightarrow> (case locator_keys db column number of
          None \<Rightarrow> Inl ErrAnchorNotFound
        | Some (startKey, endKey) \<Rightarrow> (case ResolveQuran db startKey of
            Inl err \<Rightarrow> Inl err
          | Inr start \<Rightarrow> (case ResolveQuran db endKey of
              Inl err \<Rightarrow> Inl err
            | Inr end \<Rightarrow> Inr (start, end)))))"

section \<open>Kitab\<close>

definition ResolveWork :: "anchor_store \<Rightarrow> int \<Rightarrow> anchor_lookup_error + AnchorLookupResult" where
  "ResolveWork db bookID =
     (case public_book db bookID of
        None \<Rightarrow> Inl ErrAnchorNotFound
      | Some (b, p) \<Rightarrow>
          let canonical = ''kitab/'' @ show_int bookID in
          Inr (active_lookup canonical
            ((source_record AnchorTargetBook UnitCorpusKitab (Some canonical) (max (bk_UpdatedAt b) (pb_UpdatedAt p)))
              \<lparr>ar_BookID := Some bookID\<rparr>)))"

text \<open>The units a reader may show at a place of a book.\<close>

definition book_units :: "anchor_store \<Rightarrow> int \<Rightarrow> CitableUnit list" where
  "book_units db bookID = filter (\<lambda>u. u_Corpus u = UnitCorpusKitab \<and> u_BookID u = Some bookID \<and>
     u_ContentRole u = UnitContentRoleBookPage) (an_units db)"

definition readable_units :: "anchor_store \<Rightarrow> int \<Rightarrow> CitableUnit list" where
  "readable_units db bookID = filter (\<lambda>u. u_Lifecycle u = UnitLifecycleActive \<and> license_open u) (book_units db bookID)"

definition unit_record :: "int \<Rightarrow> CitableUnit \<Rightarrow> AnchorRecord" where
  "unit_record bookID u = compactUnitRecord (u_ID u) (u_Anchor u) bookID (u_HeadingID u) (u_PageID u) (u_UpdatedAt u)"

text \<open>A unit row of a public book; the scan fills in corpus and book.\<close>

definition scanLineageUnit :: "anchor_store \<Rightarrow> CitableUnit \<Rightarrow> lineageUnit" where
  "scanLineageUnit db u = (scanned_unit db u)\<lparr>lu_Corpus := UnitCorpusKitab, lu_HasBook := True\<rparr>"

definition resolveHistoricalUnitRoots ::
  "anchor_store \<Rightarrow> int \<Rightarrow> CitableUnit list \<Rightarrow> anchor_lookup_error + lineageWalkResult"
where
  "resolveHistoricalUnitRoots db bookID rows =
     walkLineageUnits db (map (scanLineageUnit db) (if book_public db bookID then rows else []))
       (publicLineagePolicy bookID)"

definition resolveHistoricalHeadingUnits :: "anchor_store \<Rightarrow> int \<Rightarrow> int \<Rightarrow> anchor_lookup_error + lineageWalkResult" where
  "resolveHistoricalHeadingUnits db bookID headingID =
     resolveHistoricalUnitRoots db bookID (sort_key (\<lambda>u. (u_Position u, an_collate db (u_Anchor u)))
       (filter (\<lambda>u. u_HeadingID u = Some headingID) (book_units db bookID)))"

definition resolveHistoricalPageUnits :: "anchor_store \<Rightarrow> int \<Rightarrow> int \<Rightarrow> anchor_lookup_error + lineageWalkResult" where
  "resolveHistoricalPageUnits db bookID pageID =
     resolveHistoricalUnitRoots db bookID
       (sort_key (\<lambda>u. (heading_ordinal db u, u_Position u, an_collate db (u_Anchor u)))
         (filter (\<lambda>u. u_PageID u = Some pageID) (book_units db bookID)))"

definition tombstone_lookup ::
  "string option \<Rightarrow> anchor_lookup_error + lineageWalkResult \<Rightarrow> anchor_lookup_error + AnchorLookupResult"
where
  "tombstone_lookup canonical walk =
     (case walk of
        Inl err \<Rightarrow> Inl err
      | Inr w \<Rightarrow> Inr \<lparr>lk_CanonicalAnchor = canonical, lk_Status = UnitLifecycleTombstoned,
          lk_ActiveRecords = map lineageUnitRecord (lw_ActiveUnits w), lk_RedirectChain = lw_Redirects w,
          lk_CycleDetected = lw_CycleDetected w\<rparr>)"

definition ResolveHeading :: "anchor_store \<Rightarrow> int \<Rightarrow> int \<Rightarrow> anchor_lookup_error + AnchorLookupResult" where
  "ResolveHeading db bookID headingID =
     (let canonical = ''kitab/'' @ show_int bookID @ ''/h/'' @ show_int headingID in
      case (public_book db bookID, heading_of db (Some bookID) (Some headingID)) of
        (Some (b, p), Some h) \<Rightarrow>
          if hd_Deleted h then tombstone_lookup (Some canonical) (resolveHistoricalHeadingUnits db bookID headingID)
          else
            let units = map (unit_record bookID) (sort_key (\<lambda>u. (u_Position u, an_collate db (u_Anchor u)))
                  (filter (\<lambda>u. u_HeadingID u = Some headingID) (readable_units db bookID)))
            in Inr \<lparr>lk_CanonicalAnchor = Some canonical, lk_Status = UnitLifecycleActive,
              lk_ActiveRecords = (if units = [] \<and> bk_DerivedAt b = None
                then [(source_record AnchorTargetBookHeading UnitCorpusKitab (Some canonical)
                    (max (max (bk_UpdatedAt b) (pb_UpdatedAt p)) (hd_UpdatedAt h)))
                  \<lparr>ar_BookID := Some bookID, ar_HeadingID := Some headingID, ar_PageID := Some (hd_PageID h)\<rparr>]
                else units),
              lk_RedirectChain = [], lk_CycleDetected = False\<rparr>
      | _ \<Rightarrow> Inl ErrAnchorNotFound)"

text \<open>\<open>ORDER BY h.ordinal NULLS FIRST\<close>.\<close>

definition nulls_first :: "int option \<Rightarrow> int \<times> int" where
  "nulls_first x = (case x of None \<Rightarrow> (0, 0) | Some n \<Rightarrow> (1, n))"

definition ResolvePage :: "anchor_store \<Rightarrow> int \<Rightarrow> int \<Rightarrow> anchor_lookup_error + AnchorLookupResult" where
  "ResolvePage db bookID pageID =
     (case (public_book db bookID, page_of db bookID pageID) of
        (Some (b, p), Some pg) \<Rightarrow>
          if pg_Deleted pg then tombstone_lookup None (resolveHistoricalPageUnits db bookID pageID)
          else
            let units = map (unit_record bookID)
                  (sort_key (\<lambda>u. (nulls_first (map_option hd_Ordinal (heading_of db (u_BookID u) (u_HeadingID u))),
                      u_Position u, an_collate db (u_Anchor u)))
                    (filter (\<lambda>u. u_PageID u = Some pageID) (readable_units db bookID)))
            in Inr \<lparr>lk_CanonicalAnchor = None, lk_Status = UnitLifecycleActive,
              lk_ActiveRecords = (if units = [] \<and> bk_DerivedAt b = None
                then [(source_record AnchorTargetBookPage UnitCorpusKitab None
                    (max (max (bk_UpdatedAt b) (pb_UpdatedAt p)) (pg_UpdatedAt pg)))
                  \<lparr>ar_BookID := Some bookID, ar_PageID := Some pageID\<rparr>]
                else units),
              lk_RedirectChain = [], lk_CycleDetected = False\<rparr>
      | _ \<Rightarrow> Inl ErrAnchorNotFound)"

section \<open>Citable units\<close>

text \<open>A unit of the Quran corpus with the rows the queries join to it.\<close>

definition quran_unit_rows ::
  "anchor_store \<Rightarrow> CitableUnit \<Rightarrow> (QuranCitableUnitBinding \<times> ayah_row \<times> surah_row) option"
where
  "quran_unit_rows db u =
     (case binding_of db (u_ID u) of None \<Rightarrow> None
      | Some b \<Rightarrow> (case (ayah_of db (qb_SurahID b) (qb_AyahNumber b), surah_of db (qb_SurahID b)) of
          (Some a, Some s) \<Rightarrow> Some (b, a, s)
        | _ \<Rightarrow> None))"

definition quran_root :: "anchor_store \<Rightarrow> string \<Rightarrow> (CitableUnit \<times> QuranCitableUnitBinding \<times> ayah_row \<times> surah_row) option" where
  "quran_root db canonicalAnchor =
     (case find (\<lambda>u. u_Corpus u = UnitCorpusQuran \<and> u_Anchor u = canonicalAnchor) (an_units db) of
        None \<Rightarrow> None
      | Some u \<Rightarrow> map_option (\<lambda>r. (u, r)) (quran_unit_rows db u))"

definition quran_root_unit :: "CitableUnit \<Rightarrow> bool \<Rightarrow> lineageUnit" where
  "quran_root_unit u publicEligible =
     \<lparr>lu_ID = u_ID u, lu_Anchor = u_Anchor u, lu_Corpus = UnitCorpusQuran, lu_BookID = 0, lu_HasBook = False,
      lu_HeadingID = None, lu_HeadingOrdinal = -1, lu_PageID = u_PageID u, lu_Lifecycle = u_Lifecycle u,
      lu_Position = u_Position u, lu_UpdatedAt = u_UpdatedAt u, lu_PublicEligible = publicEligible\<rparr>"

text \<open>The hydration of one endpoint of the walk.\<close>

definition quran_active_record :: "anchor_store \<Rightarrow> int \<Rightarrow> int \<Rightarrow> string \<Rightarrow> AnchorRecord option" where
  "quran_active_record db surahID ayahNumber i =
     (case unit_by_id db i of None \<Rightarrow> None
      | Some u \<Rightarrow> (case quran_unit_rows db u of None \<Rightarrow> None
        | Some (b, a, s) \<Rightarrow>
            if sr_StaleAt s = None \<and> effective_license db u = Some LicensePermitted \<and>
               u_Lifecycle u = UnitLifecycleActive \<and> qb_SurahID b = surahID \<and> qb_AyahNumber b = ayahNumber \<and>
               role_current db u b a = Some True
            then Some (quranUnitAnchorRecord (u_ID u) (u_Anchor u) (qb_SurahID b) (qb_AyahNumber b) (u_PageID u) (u_UpdatedAt u))
            else None))"

text \<open>A condition that is null cannot be scanned into a boolean.\<close>

definition resolveCanonicalQuranUnit :: "anchor_store \<Rightarrow> string \<Rightarrow> anchor_lookup_error + AnchorLookupResult" where
  "resolveCanonicalQuranUnit db canonicalAnchor =
     (case quran_root db canonicalAnchor of
        None \<Rightarrow> Inl ErrAnchorNotFound
      | Some (u, b, a, s) \<Rightarrow>
          (case (sql_eq (effective_license db u) (Some LicensePermitted),
                 sql_and (Some (sr_StaleAt s = None)) (role_current db u b a)) of
             (Some publicEligible, Some currentSource) \<Rightarrow>
               if \<not> publicEligible \<or> u_Lifecycle u = UnitLifecycleActive \<and> \<not> currentSource
               then Inl ErrAnchorNotFound
               else (case walkLineageUnits db [quran_root_unit u publicEligible] registryLineagePolicy of
                   Inl err \<Rightarrow> Inl err
                 | Inr w \<Rightarrow>
                     let records = List.map_filter (\<lambda>v. quran_active_record db (qb_SurahID b) (qb_AyahNumber b) (lu_ID v))
                           (lw_ActiveUnits w)
                     in if lw_ActiveUnits w \<noteq> [] \<and> u_Lifecycle u = UnitLifecycleActive \<and> records = []
                        then Inl ErrAnchorNotFound
                        else Inr \<lparr>lk_CanonicalAnchor = Some (u_Anchor u), lk_Status = u_Lifecycle u,
                          lk_ActiveRecords = records, lk_RedirectChain = lw_Redirects w,
                          lk_CycleDetected = lw_CycleDetected w\<rparr>)
           | _ \<Rightarrow> Inl ErrAnchorRead))"

definition kitab_root :: "anchor_store \<Rightarrow> string \<Rightarrow> CitableUnit option" where
  "kitab_root db canonicalAnchor =
     (case find (\<lambda>u. u_Corpus u = UnitCorpusKitab \<and> u_Anchor u = canonicalAnchor) (an_units db) of
        None \<Rightarrow> None
      | Some u \<Rightarrow> (case u_BookID u of None \<Rightarrow> None | Some b \<Rightarrow> if book_public db b then Some u else None))"

definition ResolveCanonicalUnit :: "anchor_store \<Rightarrow> string \<Rightarrow> anchor_lookup_error + AnchorLookupResult" where
  "ResolveCanonicalUnit db canonicalAnchor =
     (if has_prefix canonicalAnchor ''quran/'' then resolveCanonicalQuranUnit db canonicalAnchor
      else case kitab_root db canonicalAnchor of
        None \<Rightarrow> Inl ErrAnchorNotFound
      | Some u \<Rightarrow>
          let root = scanLineageUnit db u in
          if lu_Lifecycle root = UnitLifecycleActive \<and> \<not> lu_PublicEligible root then Inl ErrAnchorNotFound
          else (case walkLineageUnits db [root] (publicLineagePolicy (lu_BookID root)) of
              Inl err \<Rightarrow> Inl err
            | Inr w \<Rightarrow> Inr \<lparr>lk_CanonicalAnchor = Some (lu_Anchor root), lk_Status = lu_Lifecycle root,
                lk_ActiveRecords = map lineageUnitRecord (lw_ActiveUnits w), lk_RedirectChain = lw_Redirects w,
                lk_CycleDetected = lw_CycleDetected w\<rparr>))"

end
