(* ===== verification/Anchor_Resolver.thy ===== *)
theory Anchor_Resolver
  imports Anchor_Resolve Anchor
begin

text \<open>
  The use case \<open>usecase/anchorresolver/anchorresolver.go\<close> over any repository: \<open>anchor_repo\<close> is the
  interface \<open>repo.AnchorRepo\<close>, with the optional \<open>QuranLocatorAnchorRepo\<close>, and \<open>postgres_repo\<close> the
  repository of \<open>Anchor_Resolve\<close>. Messages of errors are kept, causes they wrap are not.
\<close>

section \<open>The repository\<close>

record anchor_repo =
  rp_ResolveQuranSurah :: "int \<Rightarrow> anchor_lookup_error + AnchorLookupResult"
  rp_ResolveQuran :: "string \<Rightarrow> anchor_lookup_error + AnchorLookupResult"
  rp_ResolveWork :: "int \<Rightarrow> anchor_lookup_error + AnchorLookupResult"
  rp_ResolveHeading :: "int \<Rightarrow> int \<Rightarrow> anchor_lookup_error + AnchorLookupResult"
  rp_ResolvePage :: "int \<Rightarrow> int \<Rightarrow> anchor_lookup_error + AnchorLookupResult"
  rp_ResolveCanonicalUnit :: "string \<Rightarrow> anchor_lookup_error + AnchorLookupResult"
  rp_ResolveQuranLocator ::
    "(string \<Rightarrow> int \<Rightarrow> anchor_lookup_error + AnchorLookupResult \<times> AnchorLookupResult) option"

definition postgres_repo :: "anchor_store \<Rightarrow> anchor_repo" where
  "postgres_repo db =
     \<lparr>rp_ResolveQuranSurah = ResolveQuranSurah db, rp_ResolveQuran = ResolveQuran db, rp_ResolveWork = ResolveWork db,
      rp_ResolveHeading = ResolveHeading db, rp_ResolvePage = ResolvePage db,
      rp_ResolveCanonicalUnit = ResolveCanonicalUnit db, rp_ResolveQuranLocator = Some (ResolveQuranLocator db)\<rparr>"

section \<open>Targets\<close>

definition navigationURLForRecord :: "AnchorRecord \<Rightarrow> anchor_lookup_error + string" where
  "navigationURLForRecord r =
     (if ar_TargetType r = AnchorTargetQuranSurah
      then (case ar_SurahID r of None \<Rightarrow> Inl (ErrInvalidResolutionRecord ''Quran surah target is missing surah_id'')
        | Some s \<Rightarrow> Inr (''/v1/quran/surahs/'' @ show_int s))
      else if ar_TargetType r = AnchorTargetQuranAyah
      then (case ar_AyahKey r of None \<Rightarrow> Inl (ErrInvalidResolutionRecord ''Quran target is missing ayah_key'')
        | Some k \<Rightarrow> Inr (''/v1/quran/ayahs/'' @ k))
      else if ar_TargetType r = AnchorTargetBook
      then (case ar_BookID r of None \<Rightarrow> Inl (ErrInvalidResolutionRecord ''book target is missing book_id'')
        | Some b \<Rightarrow> Inr (''/v1/books/'' @ show_int b))
      else if ar_TargetType r = AnchorTargetBookHeading
      then (case (ar_BookID r, ar_HeadingID r) of
          (Some b, Some h) \<Rightarrow> Inr (''/v1/books/'' @ show_int b @ ''/toc/'' @ show_int h @ ''/read'')
        | _ \<Rightarrow> Inl (ErrInvalidResolutionRecord ''heading target is missing scope''))
      else if ar_TargetType r = AnchorTargetBookPage
      then (case (ar_BookID r, ar_PageID r) of
          (Some b, Some p) \<Rightarrow> Inr (''/v1/books/'' @ show_int b @ ''/pages/'' @ show_int p)
        | _ \<Rightarrow> Inl (ErrInvalidResolutionRecord ''page target is missing scope''))
      else if ar_TargetType r = AnchorTargetCitableUnit
      then if ar_Corpus r = UnitCorpusQuran
        then (case ar_AyahKey r of None \<Rightarrow> Inl (ErrInvalidResolutionRecord ''Quran unit target is missing ayah_key'')
          | Some k \<Rightarrow> Inr (''/v1/quran/ayahs/'' @ k))
        else (case ar_BookID r of None \<Rightarrow> Inl (ErrInvalidResolutionRecord ''kitab unit target is missing book_id'')
          | Some b \<Rightarrow> (case (ar_HeadingID r, ar_PageID r) of
              (Some h, p) \<Rightarrow> if 0 < h then Inr (''/v1/books/'' @ show_int b @ ''/toc/'' @ show_int h @ ''/read'')
                else (case p of None \<Rightarrow> Inr (''/v1/books/'' @ show_int b)
                  | Some n \<Rightarrow> Inr (''/v1/books/'' @ show_int b @ ''/pages/'' @ show_int n))
            | (None, Some n) \<Rightarrow> Inr (''/v1/books/'' @ show_int b @ ''/pages/'' @ show_int n)
            | (None, None) \<Rightarrow> Inr (''/v1/books/'' @ show_int b)))
      else Inl (ErrInvalidResolutionRecord (''unsupported target type '' @ ar_TargetType r)))"

definition targetFromRecord :: "AnchorRecord \<Rightarrow> anchor_lookup_error + AnchorTarget" where
  "targetFromRecord r =
     res_bind (navigationURLForRecord r) (\<lambda>navigationURL. Inr
       \<lparr>tg_TargetType = ar_TargetType r, tg_Corpus = ar_Corpus r, tg_CanonicalAnchor = ar_CanonicalAnchor r,
        tg_UnitID = ar_UnitID r, tg_PrimaryUnitID = ar_PrimaryUnitID r, tg_PrimaryUnitAnchor = ar_PrimaryUnitAnchor r,
        tg_BookID = ar_BookID r, tg_HeadingID = ar_HeadingID r, tg_PageID = ar_PageID r, tg_SurahID = ar_SurahID r,
        tg_AyahKey = ar_AyahKey r, tg_NavigationURL = navigationURL, tg_UpdatedAt = ar_UpdatedAt r\<rparr>)"

fun targets_of :: "AnchorRecord list \<Rightarrow> anchor_lookup_error + AnchorTarget list" where
  "targets_of [] = Inr []"
| "targets_of (r # rs) =
     res_bind (targetFromRecord r) (\<lambda>t. res_bind (targets_of rs) (\<lambda>ts. Inr (t # ts)))"

definition boundaryFromLookup :: "string \<Rightarrow> AnchorLookupResult \<Rightarrow> anchor_lookup_error + AnchorBoundary" where
  "boundaryFromLookup role lookup =
     (if lk_CycleDetected lookup then Inl ErrAnchorLineageCycle
      else res_bind (targets_of (lk_ActiveRecords lookup)) (\<lambda>targets. Inr
        \<lparr>bd_Role = role, bd_CanonicalAnchor = lk_CanonicalAnchor lookup, bd_Status = lk_Status lookup,
         bd_ActiveTargets = targets, bd_RedirectChain = lk_RedirectChain lookup\<rparr>))"

definition prependRedirects :: "AnchorRedirect list \<Rightarrow> AnchorLookupResult \<Rightarrow> AnchorLookupResult" where
  "prependRedirects prefixes lookup =
     (if prefixes = [] then lookup
      else lookup\<lparr>lk_RedirectChain :=
        prefixes @ map (\<lambda>r. r\<lparr>rd_Depth := rd_Depth r + 1\<rparr>) (lk_RedirectChain lookup)\<rparr>)"

definition prependRedirect :: "AnchorRedirect \<Rightarrow> AnchorLookupResult \<Rightarrow> AnchorLookupResult" where
  "prependRedirect redirect = prependRedirects [redirect]"

definition alias_redirect :: "string \<Rightarrow> string \<Rightarrow> AnchorRedirect" where
  "alias_redirect from canonical =
     \<lparr>rd_From = from, rd_To = canonical, rd_Reason = AnchorRedirectLegacyAlias, rd_Depth = 1\<rparr>"

section \<open>Canonical anchors\<close>

definition resolvePoint :: "anchor_repo \<Rightarrow> Point \<Rightarrow> anchor_lookup_error + AnchorLookupResult" where
  "resolvePoint R p =
     (case pt_kind p of
        QuranSurah \<Rightarrow> rp_ResolveQuranSurah R (pt_surah p)
      | QuranAyah \<Rightarrow> rp_ResolveQuran R (legacy_ayah_key p)
      | QuranUnit \<Rightarrow> rp_ResolveCanonicalUnit R (point_string p)
      | KitabWork \<Rightarrow> rp_ResolveWork R (pt_bookID p)
      | KitabHeading \<Rightarrow> rp_ResolveHeading R (pt_bookID p) (pt_headingID p)
      | KitabUnit \<Rightarrow> rp_ResolveCanonicalUnit R (point_string p)
      | NoKind \<Rightarrow> Inl (ErrInvalidAnchor ''unsupported canonical point''))"

definition requested :: "string \<Rightarrow> string \<Rightarrow> AnchorRequested" where
  "requested form anchor =
     \<lparr>rq_Form = form, rq_Anchor = anchor, rq_BookID = None, rq_PageID = None, rq_SurahID = None,
      rq_FromAyahNumber = None, rq_ToAyahNumber = None, rq_JuzNumber = None, rq_HizbNumber = None,
      rq_PageNumber = None\<rparr>"

text \<open>
  Two goroutines look the boundaries up. The group reports the failure that comes first and
  cancels the other lookup; \<open>endFirst\<close> says which one that is when both fail.
\<close>

definition both_lookups ::
  "bool \<Rightarrow> anchor_lookup_error + 'a \<Rightarrow> anchor_lookup_error + 'a \<Rightarrow> anchor_lookup_error + 'a \<times> 'a"
where
  "both_lookups endFirst s e =
     (case (s, e) of
        (Inr x, Inr y) \<Rightarrow> Inr (x, y)
      | (Inl err, Inr _) \<Rightarrow> Inl err
      | (Inr _, Inl err) \<Rightarrow> Inl err
      | (Inl serr, Inl eerr) \<Rightarrow> Inl (if endFirst then eerr else serr))"

definition resolveCanonical :: "anchor_repo \<Rightarrow> bool \<Rightarrow> string \<Rightarrow> Value \<Rightarrow> anchor_lookup_error + AnchorResolution" where
  "resolveCanonical R endFirst raw value =
     (let result = (\<lambda>boundaries. \<lparr>rs_Requested = requested AnchorFormCanonical raw,
            rs_CanonicalAnchor = Some (value_string value), rs_Boundaries = boundaries\<rparr>)
      in case val_end value of
        None \<Rightarrow>
          res_bind (resolvePoint R (val_start value)) (\<lambda>lookup.
          res_bind (boundaryFromLookup AnchorBoundaryPoint lookup) (\<lambda>boundary. Inr (result [boundary])))
      | Some e \<Rightarrow>
          res_bind (both_lookups endFirst (resolvePoint R (val_start value)) (resolvePoint R e)) (\<lambda>(startLookup, endLookup).
          res_bind (boundaryFromLookup AnchorBoundaryStart startLookup) (\<lambda>startBoundary.
          res_bind (boundaryFromLookup AnchorBoundaryEnd endLookup) (\<lambda>endBoundary.
          Inr (result [startBoundary, endBoundary])))))"

section \<open>Legacy forms\<close>

definition resolveLegacyAyah :: "anchor_repo \<Rightarrow> string \<Rightarrow> Point \<Rightarrow> anchor_lookup_error + AnchorResolution" where
  "resolveLegacyAyah R raw point =
     res_bind (rp_ResolveQuran R (legacy_ayah_key point)) (\<lambda>lookup.
       let canonical = point_string point in
       res_bind (boundaryFromLookup AnchorBoundaryPoint (prependRedirect (alias_redirect raw canonical) lookup)) (\<lambda>boundary.
       Inr \<lparr>rs_Requested = requested AnchorFormLegacyAyahKey raw, rs_CanonicalAnchor = Some canonical,
         rs_Boundaries = [boundary]\<rparr>))"

definition resolveLegacyTOC :: "anchor_repo \<Rightarrow> string \<Rightarrow> int \<Rightarrow> int \<Rightarrow> anchor_lookup_error + AnchorResolution" where
  "resolveLegacyTOC R raw bookID headingID =
     (case NewKitabHeading bookID headingID of
        Inl _ \<Rightarrow> Inl (ErrInvalidAnchor ''invalid legacy toc scope'')
      | Inr point \<Rightarrow>
          res_bind (rp_ResolveHeading R bookID headingID) (\<lambda>lookup.
          let canonical = point_string point in
          res_bind (boundaryFromLookup AnchorBoundaryPoint (prependRedirect (alias_redirect raw canonical) lookup)) (\<lambda>boundary.
          Inr \<lparr>rs_Requested = (requested AnchorFormLegacyTOC raw)\<lparr>rq_BookID := Some bookID\<rparr>,
            rs_CanonicalAnchor = Some canonical, rs_Boundaries = [boundary]\<rparr>)))"

definition page_redirects :: "string \<Rightarrow> AnchorRecord list \<Rightarrow> AnchorRedirect list" where
  "page_redirects from records =
     map (\<lambda>canonical. \<lparr>rd_From = from, rd_To = canonical, rd_Reason = AnchorRedirectLegacyPage, rd_Depth = 1\<rparr>)
       (List.map_filter ar_CanonicalAnchor records)"

definition resolveLegacyPage :: "anchor_repo \<Rightarrow> int option \<Rightarrow> int option \<Rightarrow> anchor_lookup_error + AnchorResolution" where
  "resolveLegacyPage R book page =
     (case (book, page) of
        (Some bookID, Some pageID) \<Rightarrow>
          if bookID \<le> 0 \<or> pageID \<le> 0 \<or> maxPostgresInteger < bookID \<or> maxPostgresInteger < pageID
          then Inl (ErrInvalidAnchor ''legacy page scope exceeds a PostgreSQL integer'')
          else
            res_bind (rp_ResolvePage R bookID pageID) (\<lambda>lookup.
            let from = ''page:'' @ show_int bookID @ '':'' @ show_int pageID in
            res_bind (boundaryFromLookup AnchorBoundaryPoint
              (prependRedirects (page_redirects from (lk_ActiveRecords lookup)) lookup)) (\<lambda>boundary.
            Inr \<lparr>rs_Requested = (requested AnchorFormLegacyPage '''')\<lparr>rq_BookID := Some bookID, rq_PageID := Some pageID\<rparr>,
              rs_CanonicalAnchor = None, rs_Boundaries = [boundary]\<rparr>))
      | _ \<Rightarrow> Inl (ErrInvalidAnchor ''legacy page requires book_id and page_id''))"

definition alias_lookup :: "string \<Rightarrow> AnchorLookupResult \<Rightarrow> AnchorLookupResult" where
  "alias_lookup from lookup =
     (case lk_CanonicalAnchor lookup of None \<Rightarrow> lookup
      | Some canonical \<Rightarrow> prependRedirect (alias_redirect from canonical) lookup)"

definition aggregate_request :: "string \<Rightarrow> string \<Rightarrow> int \<Rightarrow> AnchorRequested" where
  "aggregate_request form kind number =
     (let r = requested form '''' in
      if kind = ''juz'' then r\<lparr>rq_JuzNumber := Some number\<rparr>
      else if kind = ''hizb'' then r\<lparr>rq_HizbNumber := Some number\<rparr>
      else if kind = ''page'' then r\<lparr>rq_PageNumber := Some number\<rparr> else r)"

definition resolveLegacyQuranAggregate ::
  "anchor_repo \<Rightarrow> string \<Rightarrow> int \<Rightarrow> string \<Rightarrow> anchor_lookup_error + AnchorResolution"
where
  "resolveLegacyQuranAggregate R kind number form =
     (case rp_ResolveQuranLocator R of
        None \<Rightarrow> Inl (ErrInvalidAnchor ''invalid Quran aggregate locator'')
      | Some locate \<Rightarrow>
          if number < 1 \<or> maxPostgresInteger < number then Inl (ErrInvalidAnchor ''invalid Quran aggregate locator'')
          else
            res_bind (locate kind number) (\<lambda>(start, end).
            let alias = kind @ '':'' @ show_int number in
            res_bind (boundaryFromLookup AnchorBoundaryStart (alias_lookup alias start)) (\<lambda>startBoundary.
            res_bind (boundaryFromLookup AnchorBoundaryEnd (alias_lookup alias end)) (\<lambda>endBoundary.
            Inr \<lparr>rs_Requested = aggregate_request form kind number, rs_CanonicalAnchor = None,
              rs_Boundaries = [startBoundary, endBoundary]\<rparr>))))"

section \<open>Dispatch\<close>

definition hasQuranLocator :: "AnchorResolveInput \<Rightarrow> bool" where
  "hasQuranLocator i \<longleftrightarrow> in_SurahID i \<noteq> None \<or> in_FromAyahNumber i \<noteq> None \<or> in_ToAyahNumber i \<noteq> None \<or>
     in_JuzNumber i \<noteq> None \<or> in_HizbNumber i \<noteq> None \<or> in_PageNumber i \<noteq> None"

definition resolve_surah :: "anchor_repo \<Rightarrow> int \<Rightarrow> anchor_lookup_error + AnchorResolution" where
  "resolve_surah R surahID =
     res_bind (rp_ResolveQuranSurah R surahID) (\<lambda>lookup.
     let canonical = ''quran/'' @ show_int surahID in
     res_bind (boundaryFromLookup AnchorBoundaryPoint
       (prependRedirect (alias_redirect (''surah_id:'' @ show_int surahID) canonical) lookup)) (\<lambda>boundary.
     Inr \<lparr>rs_Requested = (requested AnchorFormLegacyQuranSurah '''')\<lparr>rq_SurahID := Some surahID\<rparr>,
       rs_CanonicalAnchor = Some canonical, rs_Boundaries = [boundary]\<rparr>))"

definition resolve_ayah_range ::
  "anchor_repo \<Rightarrow> bool \<Rightarrow> int \<Rightarrow> int \<Rightarrow> int \<Rightarrow> anchor_lookup_error + AnchorResolution"
where
  "resolve_ayah_range R endFirst surahID from to =
     (case NewQuranAyah surahID from of
        Inl _ \<Rightarrow> Inl (ErrInvalidAnchor ''invalid Quran range start'')
      | Inr start \<Rightarrow> (case NewQuranAyah surahID to of
          Inl _ \<Rightarrow> Inl (ErrInvalidAnchor ''invalid Quran range end'')
        | Inr end \<Rightarrow> (case NewRange start end of
            Inl _ \<Rightarrow> Inl (ErrInvalidAnchor ''invalid Quran range'')
          | Inr value \<Rightarrow>
              res_bind (resolveCanonical R endFirst (value_string value) value) (\<lambda>result.
              Inr (result\<lparr>rs_Requested := (requested AnchorFormLegacyQuranRange '''')
                \<lparr>rq_SurahID := Some surahID, rq_FromAyahNumber := Some from, rq_ToAyahNumber := Some to\<rparr>\<rparr>)))))"

definition resolveQuranLocatorInput ::
  "anchor_repo \<Rightarrow> bool \<Rightarrow> AnchorResolveInput \<Rightarrow> anchor_lookup_error + AnchorResolution"
where
  "resolveQuranLocatorInput R endFirst i =
     (if in_Anchor i \<noteq> '''' \<or> in_BookID i \<noteq> None \<or> in_PageID i \<noteq> None
      then Inl (ErrInvalidAnchor ''Quran locator cannot be mixed with anchor/book/page_id'')
      else
        let aggregates = length (filter (\<lambda>x. x \<noteq> None) [in_JuzNumber i, in_HizbNumber i, in_PageNumber i]) in
        if 0 < aggregates
        then if aggregates \<noteq> 1 \<or> in_SurahID i \<noteq> None \<or> in_FromAyahNumber i \<noteq> None \<or> in_ToAyahNumber i \<noteq> None
          then Inl (ErrInvalidAnchor ''Quran aggregate locators cannot be mixed'')
          else (case (in_JuzNumber i, in_HizbNumber i, in_PageNumber i) of
              (Some n, _, _) \<Rightarrow> resolveLegacyQuranAggregate R ''juz'' n AnchorFormLegacyQuranJuz
            | (None, Some n, _) \<Rightarrow> resolveLegacyQuranAggregate R ''hizb'' n AnchorFormLegacyQuranHizb
            | (None, None, Some n) \<Rightarrow> resolveLegacyQuranAggregate R ''page'' n AnchorFormLegacyQuranPage
            | (None, None, None) \<Rightarrow> Inl (ErrInvalidAnchor ''''))
        else case in_SurahID i of
            None \<Rightarrow> Inl (ErrInvalidAnchor ''Quran ayah range requires surah_id'')
          | Some surahID \<Rightarrow>
              if surahID < 1 \<or> maxPostgresInteger < surahID then Inl (ErrInvalidAnchor ''invalid Quran surah_id'')
              else (case (in_FromAyahNumber i, in_ToAyahNumber i) of
                  (None, None) \<Rightarrow> resolve_surah R surahID
                | (Some from, Some to) \<Rightarrow> resolve_ayah_range R endFirst surahID from to
                | _ \<Rightarrow> Inl (ErrInvalidAnchor ''Quran range requires both from/to ayah numbers'')))"

definition ResolveInput ::
  "anchor_repo \<Rightarrow> bool \<Rightarrow> AnchorResolveInput \<Rightarrow> anchor_lookup_error + AnchorResolution"
where
  "ResolveInput R endFirst i =
     (if hasQuranLocator i then resolveQuranLocatorInput R endFirst i
      else if in_Anchor i = '''' then resolveLegacyPage R (in_BookID i) (in_PageID i)
      else if in_PageID i \<noteq> None then Inl (ErrInvalidAnchor ''page_id cannot accompany anchor'')
      else (case Parse (in_Anchor i) of
          Inr value \<Rightarrow>
            if in_BookID i \<noteq> None then Inl (ErrInvalidAnchor ''book_id is encoded in canonical anchors'')
            else resolveCanonical R endFirst (in_Anchor i) value
        | Inl _ \<Rightarrow> (case ParseLegacyAyahKey (in_Anchor i) of
            Inr ayah \<Rightarrow>
              if in_BookID i \<noteq> None then Inl (ErrInvalidAnchor ''book_id cannot scope ayah_key'')
              else resolveLegacyAyah R (in_Anchor i) ayah
          | Inl _ \<Rightarrow> (case ParseLegacyTOC (in_Anchor i) of
              Inr headingID \<Rightarrow> (case in_BookID i of
                  None \<Rightarrow> Inl (ErrInvalidAnchor ''legacy toc anchor requires book_id'')
                | Some bookID \<Rightarrow> resolveLegacyTOC R (in_Anchor i) bookID headingID)
            | Inl _ \<Rightarrow> Inl (ErrInvalidAnchor ''unsupported anchor form'')))))"

definition Resolve ::
  "anchor_repo \<Rightarrow> bool \<Rightarrow> string \<Rightarrow> int option \<Rightarrow> int option \<Rightarrow> anchor_lookup_error + AnchorResolution"
where
  "Resolve R endFirst rawAnchor bookID pageID =
     ResolveInput R endFirst \<lparr>in_Anchor = rawAnchor, in_BookID = bookID, in_PageID = pageID, in_SurahID = None,
       in_FromAyahNumber = None, in_ToAyahNumber = None, in_JuzNumber = None, in_HizbNumber = None, in_PageNumber = None\<rparr>"

end
