(* ===== verification/Anchor_Provider.thy ===== *)
theory Anchor_Provider
  imports Anchor_Resolver
begin

text \<open>
  The contract between the resolver and its repository: records have the fields their kind of target
  needs, errors are not of the kinds the use case reserves, the canonical anchor of an answer is the
  point that was asked for. \<open>postgres_repo\<close> keeps it.
\<close>

section \<open>The contract\<close>

definition store_error :: "anchor_lookup_error \<Rightarrow> bool" where
  "store_error e \<longleftrightarrow> (\<forall>m. e \<noteq> ErrInvalidAnchor m \<and> e \<noteq> ErrInvalidResolutionRecord m)"

definition navigable :: "AnchorRecord \<Rightarrow> bool" where
  "navigable r \<longleftrightarrow> (\<exists>url. navigationURLForRecord r = Inr url)"

definition lookup_ok :: "anchor_lookup_error + AnchorLookupResult \<Rightarrow> bool" where
  "lookup_ok res = (case res of Inl e \<Rightarrow> store_error e | Inr l \<Rightarrow> list_all navigable (lk_ActiveRecords l))"

definition names_anchor :: "anchor_lookup_error + AnchorLookupResult \<Rightarrow> string \<Rightarrow> bool" where
  "names_anchor res anchor = (case res of Inl e \<Rightarrow> True | Inr l \<Rightarrow> lk_CanonicalAnchor l = Some anchor)"

definition answer_ok :: "anchor_lookup_error + 'a \<Rightarrow> bool" where
  "answer_ok res = (case res of Inl e \<Rightarrow> store_error e | Inr r \<Rightarrow> True)"

lemma answer_ok_simps [simp]:
  "answer_ok (Inr x)" "answer_ok (Inl e) = store_error e" "store_error ErrAnchorLineageCycle"
  by (simp_all add: answer_ok_def store_error_def)

lemma answer_ok_bind: "answer_ok m \<Longrightarrow> (\<And>x. m = Inr x \<Longrightarrow> answer_ok (f x)) \<Longrightarrow> answer_ok (res_bind m f)"
  by (cases m) auto

locale anchor_provider =
  fixes R :: anchor_repo
  assumes surah_ok: "lookup_ok (rp_ResolveQuranSurah R s)"
    and quran_ok: "lookup_ok (rp_ResolveQuran R k)"
    and work_ok: "lookup_ok (rp_ResolveWork R b)"
    and heading_ok: "lookup_ok (rp_ResolveHeading R b h)"
    and page_ok: "lookup_ok (rp_ResolvePage R b n)"
    and unit_ok: "lookup_ok (rp_ResolveCanonicalUnit R a)"
    and locator_ok: "rp_ResolveQuranLocator R = Some locate \<Longrightarrow> kind \<in> {''juz'', ''hizb'', ''page''} \<Longrightarrow>
      (case locate kind n of Inl e \<Rightarrow> store_error e | Inr (x, y) \<Rightarrow> lookup_ok (Inr x) \<and> lookup_ok (Inr y))"
    and point_named: "point_built p \<Longrightarrow> names_anchor (resolvePoint R p) (point_string p)"
begin

lemma point_ok: "point_built p \<Longrightarrow> lookup_ok (resolvePoint R p)"
  by (induction p rule: point_built.induct)
    (auto simp: resolvePoint_def new_point_defs surah_ok quran_ok work_ok heading_ok unit_ok split: if_splits)

end

section \<open>The use case on a provider\<close>

lemma targets_navigable: "list_all navigable rs \<Longrightarrow> \<exists>ts. targets_of rs = Inr ts"
  by (induction rs) (auto simp: navigable_def targetFromRecord_def)

lemma boundary_answer:
  assumes "lookup_ok (Inr l)"
  shows "answer_ok (boundaryFromLookup role l)"
proof -
  have "\<exists>ts. targets_of (lk_ActiveRecords l) = Inr ts" using assms by (intro targets_navigable) (simp add: lookup_ok_def)
  then show ?thesis by (auto simp: boundaryFromLookup_def)
qed

lemma lookup_ok_prepend [simp]: "lookup_ok (Inr (prependRedirects rs l)) = lookup_ok (Inr l)"
  by (simp add: lookup_ok_def prependRedirects_def)

lemma lookup_answer: "lookup_ok res \<Longrightarrow> answer_ok res"
  by (cases res) (simp_all add: lookup_ok_def)

lemma both_answer: "answer_ok s \<Longrightarrow> answer_ok e \<Longrightarrow> answer_ok (both_lookups f s e)"
  by (cases s; cases e) (simp_all add: both_lookups_def)

lemma both_Inr: "both_lookups f s e = Inr (x, y) \<longleftrightarrow> s = Inr x \<and> e = Inr y"
  by (auto simp: both_lookups_def split: sum.splits)

lemma value_built_points:
  "value_built v \<Longrightarrow> point_built (val_start v) \<and> (\<forall>e. val_end v = Some e \<longrightarrow> point_built e)"
  by (induction rule: value_built.induct) (auto simp: FromPoint_def NewRange_def Let_def go_simps split: if_splits)

context anchor_provider begin

lemma canonical_answer:
  assumes "value_built v"
  shows "answer_ok (resolveCanonical R f raw v)"
proof (cases "val_end v")
  case None
  have "lookup_ok (resolvePoint R (val_start v))" using point_ok value_built_points [OF assms] by blast
  then show ?thesis unfolding resolveCanonical_def Let_def None option.case
    by (intro answer_ok_bind lookup_answer boundary_answer) simp_all
next
  case (Some e)
  have ok: "lookup_ok (resolvePoint R (val_start v))" "lookup_ok (resolvePoint R e)"
    using point_ok value_built_points [OF assms] Some by blast+
  show ?thesis unfolding resolveCanonical_def Let_def Some option.case case_prod_beta
    by (intro answer_ok_bind both_answer lookup_answer ok boundary_answer)
      (use ok in \<open>auto simp: both_Inr\<close>)
qed

lemma alias_answer: "lookup_ok (Inr l) \<Longrightarrow> answer_ok (boundaryFromLookup role (alias_lookup from l))"
  by (rule boundary_answer) (simp add: alias_lookup_def prependRedirect_def split: option.split)

lemma legacy_answers:
  "answer_ok (resolveLegacyAyah R raw p)"
  "positiveInteger b \<Longrightarrow> positiveInteger h \<Longrightarrow> answer_ok (resolveLegacyTOC R raw b h)"
  "positiveInteger b \<Longrightarrow> positiveInteger n \<Longrightarrow> answer_ok (resolveLegacyPage R (Some b) (Some n))"
  "answer_ok (resolve_surah R s)"
proof -
  show "answer_ok (resolveLegacyAyah R raw p)" unfolding resolveLegacyAyah_def Let_def
    by (intro answer_ok_bind lookup_answer boundary_answer quran_ok)
      (simp add: prependRedirect_def, metis quran_ok, simp)
  show "answer_ok (resolveLegacyTOC R raw b h)" if "positiveInteger b" "positiveInteger h"
    using that unfolding resolveLegacyTOC_def Let_def NewKitabHeading_def
    by (auto intro!: answer_ok_bind lookup_answer boundary_answer heading_ok simp: prependRedirect_def)
      (metis heading_ok)
  show "answer_ok (resolveLegacyPage R (Some b) (Some n))" if "positiveInteger b" "positiveInteger n"
    using that unfolding resolveLegacyPage_def Let_def positiveInteger_def
    by (auto intro!: answer_ok_bind lookup_answer boundary_answer page_ok) (metis page_ok)
  show "answer_ok (resolve_surah R s)" unfolding resolve_surah_def Let_def
    by (intro answer_ok_bind lookup_answer boundary_answer surah_ok)
      (simp add: prependRedirect_def, metis surah_ok, simp)
qed

end

section \<open>Inputs\<close>

definition blank_input :: AnchorResolveInput where
  "blank_input = \<lparr>in_Anchor = '''', in_BookID = None, in_PageID = None, in_SurahID = None, in_FromAyahNumber = None,
     in_ToAyahNumber = None, in_JuzNumber = None, in_HizbNumber = None, in_PageNumber = None\<rparr>"

text \<open>The inputs that name something: one locator family, its parts in range and nothing else.\<close>

inductive well_formed_input :: "AnchorResolveInput \<Rightarrow> bool" where
  canonical: "value_built v \<Longrightarrow> well_formed_input (blank_input\<lparr>in_Anchor := value_string v\<rparr>)"
| ayah_key: "ayah_built p \<Longrightarrow> well_formed_input (blank_input\<lparr>in_Anchor := legacy_ayah_key p\<rparr>)"
| toc: "positiveInteger h \<Longrightarrow> positiveInteger b \<Longrightarrow>
    well_formed_input (blank_input\<lparr>in_Anchor := ''toc-'' @ show_int h, in_BookID := Some b\<rparr>)"
| page: "positiveInteger b \<Longrightarrow> positiveInteger n \<Longrightarrow>
    well_formed_input (blank_input\<lparr>in_BookID := Some b, in_PageID := Some n\<rparr>)"
| surah: "positiveInteger s \<Longrightarrow> well_formed_input (blank_input\<lparr>in_SurahID := Some s\<rparr>)"
| ayahs: "positiveInteger s \<Longrightarrow> positiveInteger m \<Longrightarrow> positiveInteger n \<Longrightarrow> m \<le> n \<Longrightarrow>
    well_formed_input (blank_input\<lparr>in_SurahID := Some s, in_FromAyahNumber := Some m, in_ToAyahNumber := Some n\<rparr>)"
| juz: "positiveInteger n \<Longrightarrow> well_formed_input (blank_input\<lparr>in_JuzNumber := Some n\<rparr>)"
| hizb: "positiveInteger n \<Longrightarrow> well_formed_input (blank_input\<lparr>in_HizbNumber := Some n\<rparr>)"
| quran_page: "positiveInteger n \<Longrightarrow> well_formed_input (blank_input\<lparr>in_PageNumber := Some n\<rparr>)"

lemma point_string_head:
  "point_built p \<Longrightarrow> \<exists>u. point_string p = ''quran/'' @ u \<or> point_string p = ''kitab/'' @ u"
  by (induction rule: point_built.induct) (auto simp: new_point_defs point_string_def split: if_splits)

lemma anchor_forms_apart:
  assumes "value_built v"
  shows "value_string v \<noteq> ''''" "value_string v \<noteq> ''toc-'' @ u"
  using value_string_head [OF assms] point_string_head by fastforce+

lemma toc_not_canonical: "\<exists>e. Parse (''toc-'' @ u) = Inl e"
  using anchor_forms_apart(2) Parse_iff by (metis sum.exhaust)

lemma toc_not_ayah: "positiveInteger h \<Longrightarrow> \<exists>e. ParseLegacyAyahKey (''toc-'' @ show_int h) = Inl e"
proof (cases "ParseLegacyAyahKey (''toc-'' @ show_int h)")
  case (Inr p)
  assume h: "positiveInteger h"
  from Inr have "''toc-'' @ show_int h = legacy_ayah_key p" by (simp add: ParseLegacyAyahKey_iff)
  then have "CHR '':'' \<in> set (''toc-'' @ show_int h)" unfolding legacy_ayah_key_def by simp
  with h show ?thesis by simp
qed simp

lemma new_ayah_range:
  assumes "positiveInteger s" "positiveInteger m" "positiveInteger n"
  shows "\<exists>a b. NewQuranAyah s m = Inr a \<and> NewQuranAyah s n = Inr b \<and>
    (if m \<le> n then \<exists>v. NewRange a b = Inr v \<and> value_built v else \<exists>e. NewRange a b = Inl e)"
proof -
  let ?a = "zero_point\<lparr>pt_corpus := CorpusQuran, pt_kind := QuranAyah, pt_surah := s, pt_ayah := m\<rparr>"
  let ?b = "zero_point\<lparr>pt_corpus := CorpusQuran, pt_kind := QuranAyah, pt_surah := s, pt_ayah := n\<rparr>"
  let ?v = "\<lparr>val_start = ?a, val_end = Some ?b\<rparr>"
  have new: "NewQuranAyah s m = Inr ?a" "NewQuranAyah s n = Inr ?b" using assms by (simp_all add: NewQuranAyah_def)
  then have built: "point_built ?a" "point_built ?b" by (auto intro: point_built.ayah)
  have len: "\<not> MaxLength < length (value_string ?v)"
    using number_length(2) [of s] number_length(2) [of m] number_length(2) [of n] assms
    by (simp add: value_string_def point_string_def MaxLength_def zero_point_def)
  have scope: "validateRangeScope ?a ?b = (if n < m then Inl (ErrInvalid ''Quran range end must not precede its start'') else Inr ())"
    by (simp add: validateRangeScope_def validateQuranRangeScope_def zero_point_def)
  have range: "NewRange ?a ?b = (if n < m then Inl (ErrInvalid ''Quran range end must not precede its start'') else Inr ?v)"
    unfolding NewRange_def scope using built [THEN point_built_valid] len by (simp add: Let_def)
  show ?thesis
  proof (cases "m \<le> n")
    case True
    then have "NewRange ?a ?b = Inr ?v" using range by simp
    with new True value_built.range [OF built this] show ?thesis by auto
  next
    case False
    with new range show ?thesis by auto
  qed
qed

section \<open>What is refused\<close>

locale full_anchor_provider = anchor_provider +
  assumes has_locator: "rp_ResolveQuranLocator R \<noteq> None"
begin

lemma aggregate_answer:
  assumes "kind \<in> {''juz'', ''hizb'', ''page''}" "positiveInteger n"
  shows "answer_ok (resolveLegacyQuranAggregate R kind n form)"
proof -
  obtain locate where l: "rp_ResolveQuranLocator R = Some locate" using has_locator by blast
  note ok = locator_ok [OF l assms(1), of n]
  have "\<not> (n < 1 \<or> maxPostgresInteger < n)" using assms(2) by (simp add: positiveInteger_def)
  then show ?thesis unfolding resolveLegacyQuranAggregate_def l option.case Let_def case_prod_beta
    using ok by (cases "locate kind n") (auto intro!: answer_ok_bind alias_answer)
qed

lemma ayah_range_answer:
  assumes "positiveInteger s" "positiveInteger m" "positiveInteger n" "m \<le> n"
  shows "answer_ok (resolve_ayah_range R f s m n)"
proof -
  obtain a b v where "NewQuranAyah s m = Inr a" "NewQuranAyah s n = Inr b" "NewRange a b = Inr v" "value_built v"
    using new_ayah_range [OF assms(1-3)] assms(4) by auto
  then show ?thesis unfolding resolve_ayah_range_def by (simp add: answer_ok_bind canonical_answer)
qed

lemma well_formed_answer: "well_formed_input i \<Longrightarrow> answer_ok (ResolveInput R f i)"
proof (induction rule: well_formed_input.induct)
  case (canonical v)
  then have "Parse (value_string v) = Inr v" by (simp add: Parse_iff)
  with canonical show ?case
    by (simp add: ResolveInput_def hasQuranLocator_def blank_input_def anchor_forms_apart(1) canonical_answer)
next
  case (ayah_key p)
  then have "ParseLegacyAyahKey (legacy_ayah_key p) = Inr p" by (simp add: ParseLegacyAyahKey_iff)
  moreover have "legacy_ayah_key p \<noteq> ''''" by (simp add: legacy_ayah_key_def)
  moreover have "value_built v" if "Parse (legacy_ayah_key p) = Inr v" for v using that Parse_iff by blast
  ultimately show ?case
    by (simp add: ResolveInput_def hasQuranLocator_def blank_input_def legacy_answers(1) canonical_answer split: sum.split)
next
  case (toc h b)
  then have "ParseLegacyTOC (''toc-'' @ show_int h) = Inr h" by (simp add: ParseLegacyTOC_iff)
  moreover obtain e where "Parse (''toc-'' @ show_int h) = Inl e" using toc_not_canonical by blast
  moreover obtain e' where "ParseLegacyAyahKey (''toc-'' @ show_int h) = Inl e'" using toc_not_ayah [OF toc(1)] by blast
  ultimately show ?case using toc
    by (simp add: ResolveInput_def hasQuranLocator_def blank_input_def legacy_answers(2))
next
  case (page b n)
  then show ?case by (simp add: ResolveInput_def hasQuranLocator_def blank_input_def legacy_answers(3))
next
  case (surah s)
  then show ?case
    by (simp add: ResolveInput_def hasQuranLocator_def blank_input_def resolveQuranLocatorInput_def positiveInteger_def
        legacy_answers(4))
next
  case (ayahs s m n)
  from ayahs(1) have "\<not> (s < 1 \<or> maxPostgresInteger < s)" by (simp add: positiveInteger_def)
  with ayah_range_answer [OF ayahs] show ?case
    by (simp add: ResolveInput_def hasQuranLocator_def blank_input_def resolveQuranLocatorInput_def)
qed (simp_all add: ResolveInput_def hasQuranLocator_def blank_input_def resolveQuranLocatorInput_def aggregate_answer)

end

lemma named_input:
  "i = \<lparr>in_Anchor = in_Anchor i, in_BookID = in_BookID i, in_PageID = in_PageID i, in_SurahID = in_SurahID i,
     in_FromAyahNumber = in_FromAyahNumber i, in_ToAyahNumber = in_ToAyahNumber i, in_JuzNumber = in_JuzNumber i,
     in_HizbNumber = in_HizbNumber i, in_PageNumber = in_PageNumber i\<rparr>"
  by simp

text \<open>Each refusal of the dispatch, over any repository.\<close>

definition refused :: "anchor_lookup_error + 'a \<Rightarrow> bool" where
  "refused res \<longleftrightarrow> (\<exists>m. res = Inl (ErrInvalidAnchor m))"

lemma refused_Inl [simp]: "refused (Inl (ErrInvalidAnchor m))"
  by (simp add: refused_def)

lemma anchor_refused:
  assumes "\<not> hasQuranLocator i" "\<not> well_formed_input i"
  shows "refused (ResolveInput R f i)"
proof -
  note none = assms(1) [unfolded hasQuranLocator_def]
  have i: "i = blank_input\<lparr>in_Anchor := in_Anchor i, in_BookID := in_BookID i, in_PageID := in_PageID i\<rparr>"
    using none by (subst named_input) (simp add: blank_input_def)
  consider "in_Anchor i = ''''" | "in_Anchor i \<noteq> ''''" "in_PageID i \<noteq> None" | "in_Anchor i \<noteq> ''''" "in_PageID i = None"
    by blast
  then show ?thesis
  proof cases
    case 1
    have "\<not> (positiveInteger b \<and> positiveInteger n)" if "in_BookID i = Some b" "in_PageID i = Some n" for b n
      using well_formed_input.page [of b n] assms(2) i that 1 by (auto simp: blank_input_def)
    then show ?thesis using assms(1) 1
      by (auto simp: ResolveInput_def resolveLegacyPage_def positiveInteger_def not_less split: option.splits)
  next
    case 2
    then show ?thesis using assms(1) by (simp add: ResolveInput_def)
  next
    case 3
    show ?thesis
    proof (cases "Parse (in_Anchor i)")
      case (Inr v)
      then have v: "value_built v" "in_Anchor i = value_string v" by (simp_all add: Parse_iff)
      have "in_BookID i \<noteq> None"
      proof
        assume "in_BookID i = None"
        then have "i = blank_input\<lparr>in_Anchor := value_string v\<rparr>" using i v(2) 3(2) by (simp add: blank_input_def)
        then show False using well_formed_input.canonical [OF v(1)] assms(2) by metis
      qed
      with 3 Inr assms(1) show ?thesis by (simp add: ResolveInput_def)
    next
      case (Inl e)
      show ?thesis
      proof (cases "ParseLegacyAyahKey (in_Anchor i)")
        case (Inr p)
        then have p: "ayah_built p" "in_Anchor i = legacy_ayah_key p" by (simp_all add: ParseLegacyAyahKey_iff)
        have "in_BookID i \<noteq> None"
        proof
          assume "in_BookID i = None"
          then have "i = blank_input\<lparr>in_Anchor := legacy_ayah_key p\<rparr>" using i p(2) 3(2) by (simp add: blank_input_def)
          then show False using well_formed_input.ayah_key [OF p(1)] assms(2) by metis
        qed
        with 3 Inl Inr assms(1) show ?thesis by (simp add: ResolveInput_def)
      next
        case (Inl e')
        show ?thesis
        proof (cases "ParseLegacyTOC (in_Anchor i)")
          case (Inr h)
          then have h: "positiveInteger h" "in_Anchor i = ''toc-'' @ show_int h" by (simp_all add: ParseLegacyTOC_iff)
          then have "\<not> positiveInteger b" if "in_BookID i = Some b" for b
            using well_formed_input.toc [OF h(1), of b] assms(2) i 3 that by (auto simp: blank_input_def)
          with 3 Inl \<open>Parse (in_Anchor i) = Inl e\<close> Inr assms(1) h(1) show ?thesis
            by (auto simp: ResolveInput_def resolveLegacyTOC_def NewKitabHeading_def split: option.splits)
        qed (use 3 Inl \<open>Parse (in_Anchor i) = Inl e\<close> assms(1) in \<open>simp add: ResolveInput_def\<close>)
      qed
    qed
  qed
qed

lemma aggregate_refused: "\<not> positiveInteger n \<Longrightarrow> refused (resolveLegacyQuranAggregate R kind n form)"
  by (cases "rp_ResolveQuranLocator R") (auto simp: resolveLegacyQuranAggregate_def positiveInteger_def)

lemma ayah_range_refused:
  assumes "\<not> (positiveInteger s \<and> positiveInteger m \<and> positiveInteger n \<and> m \<le> n)" "positiveInteger s"
  shows "refused (resolve_ayah_range R f s m n)"
proof (cases "positiveInteger m \<and> positiveInteger n")
  case True
  with assms new_ayah_range [of s m n] show ?thesis by (auto simp: resolve_ayah_range_def)
next
  case False
  then show ?thesis by (auto simp: resolve_ayah_range_def NewQuranAyah_def)
qed

lemma aggregates_refused:
  assumes pure: "in_Anchor i = ''''" "in_BookID i = None" "in_PageID i = None" "in_SurahID i = None"
      "in_FromAyahNumber i = None" "in_ToAyahNumber i = None"
    and one: "length (filter (\<lambda>x. x \<noteq> None) [in_JuzNumber i, in_HizbNumber i, in_PageNumber i]) = 1"
    and ill: "\<not> well_formed_input i"
  shows "refused (resolveQuranLocatorInput R f i)"
proof -
  from one consider n where "in_JuzNumber i = Some n" "in_HizbNumber i = None" "in_PageNumber i = None"
    | n where "in_JuzNumber i = None" "in_HizbNumber i = Some n" "in_PageNumber i = None"
    | n where "in_JuzNumber i = None" "in_HizbNumber i = None" "in_PageNumber i = Some n"
    by (cases "in_JuzNumber i"; cases "in_HizbNumber i"; cases "in_PageNumber i") auto
  then show ?thesis
  proof cases
    case (1 n)
    then have "i = blank_input\<lparr>in_JuzNumber := Some n\<rparr>" using pure by (subst named_input) (simp add: blank_input_def)
    then have "\<not> positiveInteger n" using ill well_formed_input.juz [of n] by metis
    with pure 1 aggregate_refused [of n] show ?thesis by (simp add: resolveQuranLocatorInput_def)
  next
    case (2 n)
    then have "i = blank_input\<lparr>in_HizbNumber := Some n\<rparr>" using pure by (subst named_input) (simp add: blank_input_def)
    then have "\<not> positiveInteger n" using ill well_formed_input.hizb [of n] by metis
    with pure 2 aggregate_refused [of n] show ?thesis by (simp add: resolveQuranLocatorInput_def)
  next
    case (3 n)
    then have "i = blank_input\<lparr>in_PageNumber := Some n\<rparr>" using pure by (subst named_input) (simp add: blank_input_def)
    then have "\<not> positiveInteger n" using ill well_formed_input.quran_page [of n] by metis
    with pure 3 aggregate_refused [of n] show ?thesis by (simp add: resolveQuranLocatorInput_def)
  qed
qed

lemma surah_refused:
  assumes pure: "in_Anchor i = ''''" "in_BookID i = None" "in_PageID i = None" "in_JuzNumber i = None"
      "in_HizbNumber i = None" "in_PageNumber i = None"
    and ill: "\<not> well_formed_input i"
  shows "refused (resolveQuranLocatorInput R f i)"
proof (cases "in_SurahID i")
  case None
  with pure show ?thesis by (simp add: resolveQuranLocatorInput_def)
next
  case (Some s)
  show ?thesis
  proof (cases "positiveInteger s")
    case False
    with Some pure show ?thesis by (auto simp: resolveQuranLocatorInput_def positiveInteger_def)
  next
    case True
    then have s: "\<not> (s < 1 \<or> maxPostgresInteger < s)" by (simp add: positiveInteger_def)
    consider "in_FromAyahNumber i = None" "in_ToAyahNumber i = None"
      | m n where "in_FromAyahNumber i = Some m" "in_ToAyahNumber i = Some n"
      | "(in_FromAyahNumber i = None) \<noteq> (in_ToAyahNumber i = None)"
      by (cases "in_FromAyahNumber i"; cases "in_ToAyahNumber i") auto
    then show ?thesis
    proof cases
      case 1
      then have "i = blank_input\<lparr>in_SurahID := Some s\<rparr>" using pure Some by (subst named_input) (simp add: blank_input_def)
      with ill well_formed_input.surah [OF True] show ?thesis by metis
    next
      case (2 m n)
      then have "i = blank_input\<lparr>in_SurahID := Some s, in_FromAyahNumber := Some m, in_ToAyahNumber := Some n\<rparr>"
        using pure Some by (subst named_input) (simp add: blank_input_def)
      then have "\<not> (positiveInteger s \<and> positiveInteger m \<and> positiveInteger n \<and> m \<le> n)"
        using ill well_formed_input.ayahs [of s m n] by metis
      from ayah_range_refused [OF this True] 2 Some pure s show ?thesis by (simp add: resolveQuranLocatorInput_def)
    next
      case 3
      with Some pure s show ?thesis by (auto simp: resolveQuranLocatorInput_def split: option.splits)
    qed
  qed
qed

lemma ill_formed_refused:
  assumes "\<not> well_formed_input i"
  shows "refused (ResolveInput R f i)"
proof (cases "hasQuranLocator i")
  case False
  from anchor_refused [OF this assms] show ?thesis .
next
  case True
  let ?n = "length (filter (\<lambda>x. x \<noteq> None) [in_JuzNumber i, in_HizbNumber i, in_PageNumber i])"
  have "refused (resolveQuranLocatorInput R f i)"
  proof (cases "in_Anchor i \<noteq> '''' \<or> in_BookID i \<noteq> None \<or> in_PageID i \<noteq> None")
    case True
    then show ?thesis by (simp add: resolveQuranLocatorInput_def)
  next
    case pure: False
    consider "?n = 0" | "?n = 1" "in_SurahID i = None \<and> in_FromAyahNumber i = None \<and> in_ToAyahNumber i = None"
      | "0 < ?n" "?n \<noteq> 1 \<or> in_SurahID i \<noteq> None \<or> in_FromAyahNumber i \<noteq> None \<or> in_ToAyahNumber i \<noteq> None" by linarith
    then show ?thesis
    proof cases
      case 1
      then have "in_JuzNumber i = None" "in_HizbNumber i = None" "in_PageNumber i = None"
        by (simp_all split: if_splits)
      with pure surah_refused [OF _ _ _ _ _ _ assms] show ?thesis by simp
    next
      case 2
      with pure aggregates_refused [OF _ _ _ _ _ _ _ assms] show ?thesis by simp
    next
      case 3
      with pure show ?thesis unfolding resolveQuranLocatorInput_def Let_def by (simp only: if_False if_True refused_Inl)
    qed
  qed
  with True show ?thesis by (simp add: ResolveInput_def)
qed

context full_anchor_provider begin

lemma refused_iff: "refused (ResolveInput R f i) \<longleftrightarrow> \<not> well_formed_input i"
  using ill_formed_refused [of i R f] well_formed_answer [of i f]
  by (cases "well_formed_input i") (auto simp: refused_def answer_ok_def store_error_def)

lemma records_valid: "ResolveInput R f i \<noteq> Inl (ErrInvalidResolutionRecord m)"
  using ill_formed_refused [of i R f] well_formed_answer [of i f]
  by (cases "well_formed_input i") (auto simp: refused_def answer_ok_def store_error_def)

end

end
