(* ===== verification/Lineage_Graph.thy ===== *)
theory Lineage_Graph
  imports Lineage_Walk
begin

text \<open>
  The graph algorithms of the lineage walk against the graph itself: the recursive query computes
  the reflexive transitive closure, the queue of \<open>shortestLineageDepths\<close> distances, and the queue of
  \<open>lineageHasCycle\<close> decides acyclicity.
\<close>

section \<open>The closure query\<close>

definition lineage_graph :: "CitableUnitLineage list \<Rightarrow> (string \<times> string) set" where
  "lineage_graph es = (\<lambda>e. (e_PredecessorID e, e_SuccessorID e)) ` set es"

lemma closed_rtrancl: "G `` S \<subseteq> S \<Longrightarrow> G\<^sup>* `` S = S"
  by (auto elim!: rtrancl_induct)

lemma reachable_ids_closure:
  assumes "set work \<subseteq> set seen" "lineage_graph es `` (set seen - set work) \<subseteq> set seen"
  shows "set (reachable_ids es seen work) = (lineage_graph es)\<^sup>* `` set seen"
  using assms
proof (induction es seen work rule: reachable_ids.induct)
  case (1 es seen work)
  let ?G = "lineage_graph es" and ?new = "fresh_successors es seen work"
  have new: "set ?new = ?G `` set work - set seen" by (auto simp: fresh_successors_def lineage_graph_def image_iff)
  show ?case
  proof (cases "?new = []")
    case True
    then have "?G `` set work \<subseteq> set seen" using new by auto
    then have "?G `` set seen \<subseteq> set seen" using 1(3) by blast
    with True show ?thesis by (subst reachable_ids.simps) (simp add: closed_rtrancl)
  next
    case False
    have old: "?G `` set seen \<subseteq> set seen \<union> set ?new" unfolding new using 1(3) by auto
    have grown: "?G `` (set (seen @ ?new) - set ?new) \<subseteq> set (seen @ ?new)" using old by auto
    have "set (reachable_ids es seen work) = set (reachable_ids es (seen @ ?new) ?new)"
      using False by (subst reachable_ids.simps) (simp add: Let_def)
    also have "\<dots> = ?G\<^sup>* `` set (seen @ ?new)" using 1(1) [OF refl False _ grown] by simp
    also have "\<dots> = ?G\<^sup>* `` set seen"
      using new 1(2) by (auto intro: converse_rtrancl_into_rtrancl)
    finally show ?thesis .
  qed
qed

lemma reachable_ids_from: "set (reachable_ids es roots roots) = (lineage_graph es)\<^sup>* `` set roots"
  by (rule reachable_ids_closure) auto

section \<open>Distances\<close>

definition at_distance :: "(string \<times> string) set \<Rightarrow> string set \<Rightarrow> nat \<Rightarrow> string \<Rightarrow> bool" where
  "at_distance G R n s \<longleftrightarrow> (\<exists>r\<in>R. (r, s) \<in> G ^^ n) \<and> (\<forall>m<n. \<forall>r\<in>R. (r, s) \<notin> G ^^ m)"

lemma at_distance_unique: "at_distance G R n s \<Longrightarrow> at_distance G R m s \<Longrightarrow> n = m"
  unfolding at_distance_def by (meson linorder_neqE_nat)

lemma at_distance_ex: "s \<in> G\<^sup>* `` R \<Longrightarrow> \<exists>n. at_distance G R n s"
proof -
  assume "s \<in> G\<^sup>* `` R"
  then obtain r n where "r \<in> R" "(r, s) \<in> G ^^ n" by (auto simp: rtrancl_is_UN_relpow)
  then have "\<exists>n. \<exists>r\<in>R. (r, s) \<in> G ^^ n" by blast
  then have "at_distance G R (LEAST n. \<exists>r\<in>R. (r, s) \<in> G ^^ n) s"
    unfolding at_distance_def using LeastI_ex [where P = "\<lambda>n. \<exists>r\<in>R. (r, s) \<in> G ^^ n"]
      not_less_Least [where P = "\<lambda>n. \<exists>r\<in>R. (r, s) \<in> G ^^ n"] by blast
  then show ?thesis by blast
qed

lemma at_distance_zero: "at_distance G R 0 s \<longleftrightarrow> s \<in> R"
  by (auto simp: at_distance_def)

lemma at_distance_pred:
  assumes "at_distance G R (Suc n) s"
  shows "\<exists>p. at_distance G R n p \<and> (p, s) \<in> G"
proof -
  obtain r p where p: "r \<in> R" "(r, p) \<in> G ^^ n" "(p, s) \<in> G" using assms by (auto simp: at_distance_def)
  have "(r', p) \<notin> G ^^ m" if "m < n" "r' \<in> R" for m r'
  proof
    assume "(r', p) \<in> G ^^ m"
    from relpow_Suc_I [OF this p(3)] assms that show False
      unfolding at_distance_def by (metis Suc_less_eq)
  qed
  with p show ?thesis by (auto simp: at_distance_def)
qed

lemma at_distance_step: "at_distance G R n p \<Longrightarrow> (p, s) \<in> G \<Longrightarrow> at_distance G R m s \<Longrightarrow> m \<le> Suc n"
  unfolding at_distance_def by (meson not_less_eq_eq not_less relpow_Suc_I)

text \<open>The queue is the tail of the discovered nodes; their depths are the distances, in order.\<close>

definition bfs_ok :: "(string \<times> string) set \<Rightarrow> string set \<Rightarrow> (string \<times> nat) list \<Rightarrow> string list \<Rightarrow> bool" where
  "bfs_ok G R ds q \<longleftrightarrow> distinct (map fst ds) \<and> sorted (map snd ds) \<and> R \<subseteq> fst ` set ds \<and>
     (\<forall>(s, n)\<in>set ds. at_distance G R n s) \<and>
     (\<exists>pre. map fst ds = pre @ q \<and> G `` set pre \<subseteq> fst ` set ds \<and>
        (\<forall>n. q \<noteq> [] \<longrightarrow> (hd q, n) \<in> set ds \<longrightarrow> (\<forall>(s, m)\<in>set ds. m \<le> Suc n)))"

lemma depth_at_mem: "distinct (map fst ds) \<Longrightarrow> (s, n) \<in> set ds \<Longrightarrow> depth_at ds s = n"
  by (simp add: depth_at_def)

lemma later_deeper:
  assumes "map fst ds = pre @ x # post" "distinct (map fst ds)" "sorted (map snd ds)" "(x, a) \<in> set ds"
    and "(y, b) \<in> set ds" "y \<notin> set pre"
  shows "a \<le> b"
proof -
  obtain ds1 e ds2 where ds: "ds = ds1 @ e # ds2" "map fst ds1 = pre" "fst e = x"
    using assms(1) by (auto simp: map_eq_append_conv map_eq_Cons_conv)
  have "e = (x, a)" using assms(2,4) ds by (metis eq_key_imp_eq_value in_set_conv_decomp prod.collapse)
  moreover have "(y, b) \<notin> set ds1" using ds(2) assms(6) by force
  ultimately show ?thesis using assms(3,5) ds(1) by (auto simp: sorted_append)
qed

lemma bfs_step:
  assumes ok: "bfs_ok (set es) R ds (p # q)"
    and step: "discover (depth_at ds p + 1) (successors es p) ds q = (ds', q')"
  shows "bfs_ok (set es) R ds' q'"
proof -
  let ?G = "set es" and ?d = "depth_at ds p"
  obtain pre where pre: "map fst ds = pre @ p # q" "?G `` set pre \<subseteq> fst ` set ds"
    and bound: "\<And>n s m. (p, n) \<in> set ds \<Longrightarrow> (s, m) \<in> set ds \<Longrightarrow> m \<le> Suc n"
    using ok unfolding bfs_ok_def by fastforce
  have dist: "distinct (map fst ds)" and sorted: "sorted (map snd ds)" and roots: "R \<subseteq> fst ` set ds"
    and sound: "\<And>s n. (s, n) \<in> set ds \<Longrightarrow> at_distance ?G R n s"
    using ok unfolding bfs_ok_def by auto
  have "p \<in> fst ` set ds" using pre(1) by (metis in_set_conv_decomp set_map)
  then have p: "(p, ?d) \<in> set ds" using depth_at_mem [OF dist] by auto
  obtain new where new: "ds' = ds @ map (\<lambda>s. (s, ?d + 1)) new" "q' = q @ new"
    "set new = set (successors es p) - fst ` set ds" "distinct new"
    using discover_ext [of "?d + 1" "successors es p" ds q] step by auto
  have succ: "s \<in> set (successors es p) \<longleftrightarrow> (p, s) \<in> ?G" for s by (force simp: successors_def)
  have known: "y \<in> fst ` set ds" if "at_distance ?G R m y" "m \<le> ?d" for y m
    using that
  proof (induction m arbitrary: y)
    case 0
    with roots show ?case by (auto simp: at_distance_zero)
  next
    case (Suc m)
    obtain x where x: "at_distance ?G R m x" "(x, y) \<in> ?G" using at_distance_pred [OF Suc.prems(1)] by blast
    then have "x \<in> fst ` set ds" using Suc by simp
    then have mem: "(x, m) \<in> set ds" using sound x(1) at_distance_unique by fastforce
    have "x \<in> set pre" using later_deeper [OF pre(1) dist sorted p mem] Suc.prems(2) by (metis Suc_n_not_le_n le_trans)
    with x(2) pre(2) show ?case by auto
  qed
  have fresh: "at_distance ?G R (?d + 1) s" if "s \<in> set new" for s
  proof -
    have s: "(p, s) \<in> ?G" "s \<notin> fst ` set ds" using that new(3) succ by auto
    have "at_distance ?G R ?d p" by (rule sound [OF p])
    then obtain r where "r \<in> R" "(r, p) \<in> ?G ^^ ?d" by (auto simp: at_distance_def)
    then have "s \<in> ?G\<^sup>* `` R" using s(1) by (auto intro: rtrancl_into_rtrancl relpow_imp_rtrancl)
    then obtain m where m: "at_distance ?G R m s" using at_distance_ex by blast
    have "m \<le> Suc ?d" by (rule at_distance_step [OF sound [OF p] s(1) m])
    moreover have "\<not> m \<le> ?d" using known [OF m] s(2) by blast
    ultimately show ?thesis using m by (simp add: le_Suc_eq)
  qed
  show ?thesis
    unfolding bfs_ok_def
  proof (intro conjI)
    show "distinct (map fst ds')" using dist new(3,4) unfolding new(1) by (auto simp: comp_def)
    have "\<forall>m\<in>snd ` set ds. m \<le> Suc ?d" using bound [OF p] by auto
    moreover have "sorted (map (\<lambda>x. Suc ?d) new)" by (induction new) auto
    ultimately show "sorted (map snd ds')" using sorted unfolding new(1) by (auto simp: sorted_append comp_def)
    show "R \<subseteq> fst ` set ds'" using roots unfolding new(1) by auto
    show "\<forall>(s, n)\<in>set ds'. at_distance ?G R n s" using sound fresh unfolding new(1) by auto
    show "\<exists>pre. map fst ds' = pre @ q' \<and> ?G `` set pre \<subseteq> fst ` set ds' \<and>
        (\<forall>n. q' \<noteq> [] \<longrightarrow> (hd q', n) \<in> set ds' \<longrightarrow> (\<forall>(s, m)\<in>set ds'. m \<le> Suc n))"
    proof (intro exI [of _ "pre @ [p]"] conjI)
      show "map fst ds' = (pre @ [p]) @ q'" unfolding new(1,2) using pre(1) by (simp add: comp_def)
      show "?G `` set (pre @ [p]) \<subseteq> fst ` set ds'"
        using pre(2) new(3) succ unfolding new(1) by (auto simp: image_Un image_image)
      show "\<forall>n. q' \<noteq> [] \<longrightarrow> (hd q', n) \<in> set ds' \<longrightarrow> (\<forall>(s, m)\<in>set ds'. m \<le> Suc n)"
      proof (intro allI impI)
        fix n
        assume q': "q' \<noteq> []" "(hd q', n) \<in> set ds'"
        have n: "?d \<le> n"
        proof (cases "(hd q', n) \<in> set ds")
          case True
          have "hd q' \<notin> set pre"
          proof
            assume h: "hd q' \<in> set pre"
            have "hd q' \<in> set q \<union> set new" using q'(1) new(2) by (metis hd_in_set set_append)
            moreover have "distinct (pre @ p # q)" using dist pre(1) by simp
            ultimately have "hd q' \<in> set new" using h by auto
            with new(3) True show False by force
          qed
          with later_deeper [OF pre(1) dist sorted p True] show ?thesis .
        next
          case False
          with q'(2) show ?thesis unfolding new(1) by auto
        qed
        show "\<forall>(s, m)\<in>set ds'. m \<le> Suc n" using bound [OF p] n unfolding new(1) by fastforce
      qed
    qed
  qed
qed

lemma bfs_distances:
  assumes "bfs_ok (set es) R ds q"
  shows "distinct (map fst (bfs es ds q)) \<and> (\<forall>s n. (s, n) \<in> set (bfs es ds q) \<longleftrightarrow> at_distance (set es) R n s)"
  using assms
proof (induction es ds q rule: bfs.induct)
  case (1 es ds)
  have "G\<^sup>* `` R \<subseteq> fst ` set ds" if G: "G = set es" for G
  proof -
    obtain pre where "map fst ds = pre @ []" "G `` set pre \<subseteq> fst ` set ds"
      using 1 unfolding bfs_ok_def G by blast
    then have "G `` (fst ` set ds) \<subseteq> fst ` set ds" by (metis append_Nil2 set_map)
    from closed_rtrancl [OF this] have "G\<^sup>* `` (fst ` set ds) = fst ` set ds" .
    moreover have "R \<subseteq> fst ` set ds" using 1 by (simp add: bfs_ok_def)
    ultimately show ?thesis by (metis Image_mono subset_refl)
  qed
  then have all: "s \<in> fst ` set ds" if "at_distance (set es) R n s" for s n
    using that unfolding at_distance_def by (meson ImageI relpow_imp_rtrancl subsetD)
  have sound: "\<And>s n. (s, n) \<in> set ds \<Longrightarrow> at_distance (set es) R n s" using 1 by (auto simp: bfs_ok_def)
  show ?case
  proof (simp, intro conjI allI iffI)
    show "distinct (map fst ds)" using 1 by (simp add: bfs_ok_def)
    fix s n
    show "(s, n) \<in> set ds \<Longrightarrow> at_distance (set es) R n s" by (rule sound)
    assume n: "at_distance (set es) R n s"
    from all [OF this] obtain m where "(s, m) \<in> set ds" by auto
    with sound at_distance_unique [OF n] show "(s, n) \<in> set ds" by blast
  qed
next
  case (2 es ds p q)
  show ?case unfolding bfs.simps(2) Let_def
    by (rule 2(1) [OF refl bfs_step [OF 2(2)]]) simp
qed

lemma bfs_from_roots:
  assumes "distinct roots"
  shows "distinct (map fst (bfs es (map (\<lambda>r. (r, 0)) roots) roots)) \<and>
    (\<forall>s n. (s, n) \<in> set (bfs es (map (\<lambda>r. (r, 0)) roots) roots) \<longleftrightarrow> at_distance (set es) (set roots) n s)"
proof (rule bfs_distances)
  have "sorted (map (\<lambda>r. 0 :: nat) roots)" by (induction roots) auto
  then show "bfs_ok (set es) (set roots) (map (\<lambda>r. (r, 0)) roots) roots"
    using assms unfolding bfs_ok_def by (auto simp: comp_def at_distance_zero image_image)
qed

section \<open>Cycles\<close>

definition open_degree :: "(string \<times> string) list \<Rightarrow> string set \<Rightarrow> string \<Rightarrow> int" where
  "open_degree es V s = int (length (filter (\<lambda>e. snd e = s \<and> fst e \<notin> V) es))"

lemma open_degree_pos: "open_degree es V s = 0 \<longleftrightarrow> (\<forall>p. (p, s) \<in> set es \<longrightarrow> p \<in> V)"
  by (auto simp: open_degree_def filter_empty_conv)

lemma open_degree_insert:
  assumes "distinct es" "x \<notin> V"
  shows "open_degree es (insert x V) s = open_degree es V s - (if (x, s) \<in> set es then 1 else 0)"
  using assms(1)
proof (induction es)
  case (Cons e es)
  then show ?case using assms(2) by (cases e) (auto simp: open_degree_def)
qed (simp add: open_degree_def)

lemma release_distinct:
  "distinct ss \<Longrightarrow> release ss f q = (\<lambda>s. if s \<in> set ss then f s - 1 else f s, q @ filter (\<lambda>s. f s = 1) ss)"
proof (induction ss arbitrary: f q)
  case (Cons s ss)
  let ?f = "f(s := f s - 1)"
  have "release (s # ss) f q = release ss ?f (if f s = 1 then q @ [s] else q)" by (simp add: Let_def)
  also have "\<dots> = (\<lambda>x. if x \<in> set ss then ?f x - 1 else ?f x, (if f s = 1 then q @ [s] else q) @ filter (\<lambda>x. ?f x = 1) ss)"
    using Cons by simp
  also have "filter (\<lambda>x. ?f x = 1) ss = filter (\<lambda>x. f x = 1) ss" using Cons.prems by (auto intro: filter_cong)
  finally show ?case using Cons.prems by (auto simp: fun_eq_iff)
qed auto

text \<open>Visited nodes are closed under predecessors and acyclic; the queue holds what became free.\<close>

definition kahn_ok :: "(string \<times> string) list \<Rightarrow> string set \<Rightarrow> (string \<Rightarrow> int) \<Rightarrow> string list \<Rightarrow> string set \<Rightarrow> bool" where
  "kahn_ok es N f q V \<longleftrightarrow> distinct q \<and> V \<inter> set q = {} \<and> V \<subseteq> N \<and> set q \<subseteq> N \<and> f = open_degree es V \<and>
     (\<forall>s\<in>N. f s = 0 \<longleftrightarrow> s \<in> V \<union> set q) \<and> (\<forall>(p, s)\<in>set es. s \<in> V \<longrightarrow> p \<in> V) \<and>
     acyclic {e \<in> set es. snd e \<in> V}"

lemma acyclic_sink:
  assumes "acyclic R" "\<forall>e\<in>S. snd e = x" "x \<notin> Domain (R \<union> S)"
  shows "acyclic (R \<union> S)"
proof -
  have "(a, b) \<in> R\<^sup>+ \<or> b = x" if "(a, b) \<in> (R \<union> S)\<^sup>+" for a b
    using that
  proof (induction rule: trancl_induct)
    case (step b c)
    then show ?case using assms(2,3) by (metis DomainI Un_iff snd_conv trancl.trancl_into_trancl)
  qed (use assms(2) in auto)
  moreover have "(x, x) \<notin> (R \<union> S)\<^sup>+" using assms(3) by (meson DomainI tranclD)
  ultimately show ?thesis using assms(1) unfolding acyclic_def by metis
qed

lemma kahn_step:
  assumes ok: "kahn_ok es N f (x # q) V" and dist: "distinct es" and N: "snd ` set es \<subseteq> N"
    and r: "release (successors es x) f q = (f', q')"
  shows "kahn_ok es N f' q' (insert x V) \<and> x \<notin> V"
proof -
  have x: "x \<notin> V" "x \<in> N" "x \<notin> set q" "distinct q" "V \<inter> set q = {}" "V \<subseteq> N" "set q \<subseteq> N" and f: "f = open_degree es V"
    and zero: "\<And>s. s \<in> N \<Longrightarrow> f s = 0 \<longleftrightarrow> s \<in> V \<or> s = x \<or> s \<in> set q"
    and closed: "\<And>p s. (p, s) \<in> set es \<Longrightarrow> s \<in> V \<Longrightarrow> p \<in> V" and acy: "acyclic {e \<in> set es. snd e \<in> V}"
    using ok unfolding kahn_ok_def by auto
  have ds: "distinct (successors es x)" using dist by (auto simp: successors_def distinct_map inj_on_def)
  have mem: "s \<in> set (successors es x) \<longleftrightarrow> (x, s) \<in> set es" for s by (force simp: successors_def)
  have f': "f' = open_degree es (insert x V)"
  proof
    fix s
    have "f' s = (if s \<in> set (successors es x) then f s - 1 else f s)" using r unfolding release_distinct [OF ds] by auto
    then show "f' s = open_degree es (insert x V) s" by (simp add: mem f open_degree_insert [OF dist x(1)])
  qed
  have q': "q' = q @ filter (\<lambda>s. f s = 1) (successors es x)" using r unfolding release_distinct [OF ds] by simp
  have free: "p \<in> V" if "(p, x) \<in> set es" for p
    using zero [OF x(2)] that by (simp add: f open_degree_pos)
  have pos: "f s \<noteq> 0" if "(x, s) \<in> set es" for s using that x(1) by (auto simp: f open_degree_pos)
  show ?thesis
    unfolding kahn_ok_def
  proof (intro conjI)
    have "s \<notin> set q" if "s \<in> set (successors es x)" for s
      using that pos zero N x(7) by (metis mem subsetD)
    then show "distinct q'" using x(4) ds unfolding q' by auto
    have "s \<notin> V \<and> s \<noteq> x" if "(x, s) \<in> set es" for s
      using pos [OF that] zero N that by force
    then show "insert x V \<inter> set q' = {}" using x(3,5) unfolding q' by (auto simp: mem)
    show "insert x V \<subseteq> N" using x by auto
    show "set q' \<subseteq> N" using x(7) N unfolding q' by (force simp: mem)
    show "f' = open_degree es (insert x V)" by (rule f')
    show "\<forall>s\<in>N. f' s = 0 \<longleftrightarrow> s \<in> insert x V \<union> set q'"
    proof
      fix s assume s: "s \<in> N"
      show "f' s = 0 \<longleftrightarrow> s \<in> insert x V \<union> set q'"
      proof (cases "(x, s) \<in> set es")
        case True
        then have "f' s = f s - 1" by (simp add: f' f open_degree_insert [OF dist x(1)])
        with True pos [OF True] zero [OF s] show ?thesis unfolding q' by (auto simp: mem)
      next
        case False
        then have "f' s = f s" by (simp add: f' f open_degree_insert [OF dist x(1)])
        with False zero [OF s] show ?thesis unfolding q' by (auto simp: mem)
      qed
    qed
    show "\<forall>(p, s)\<in>set es. s \<in> insert x V \<longrightarrow> p \<in> insert x V" using closed free by auto
    have "{e \<in> set es. snd e \<in> insert x V} = {e \<in> set es. snd e \<in> V} \<union> {e \<in> set es. snd e = x}" by auto
    moreover have "acyclic ({e \<in> set es. snd e \<in> V} \<union> {e \<in> set es. snd e = x})"
      by (rule acyclic_sink [where x = x]) (use acy closed free x(1) in auto)
    ultimately show "acyclic {e \<in> set es. snd e \<in> insert x V}" by simp
    show "x \<notin> V" by (rule x(1))
  qed
qed

lemma kahn_visits:
  assumes "distinct es" "snd ` set es \<subseteq> N" "finite N"
  shows "kahn_ok es N f q V \<Longrightarrow> \<exists>V' g. kahn_ok es N g [] V' \<and> kahn es f q (card V) = card V'"
proof -
  have "kahn_ok es N f q V \<Longrightarrow> v = card V \<Longrightarrow> \<exists>V' g. kahn_ok es N g [] V' \<and> kahn es f q v = card V'" for v
    using assms(1,2)
  proof (induction es f q v arbitrary: V rule: kahn.induct)
    case (2 es f x q v)
    obtain f' q' where r: "release (successors es x) f q = (f', q')" by (cases "release (successors es x) f q")
    from kahn_step [OF 2(2,4,5) r] have ok: "kahn_ok es N f' q' (insert x V)" and "x \<notin> V" by simp_all
    moreover have "finite V" using 2(2) assms(3) finite_subset by (auto simp: kahn_ok_def)
    ultimately have card: "v + 1 = card (insert x V)" using 2(3) by simp
    have "\<exists>V' g. kahn_ok es N g [] V' \<and> kahn es f' q' (v + 1) = card V'"
      using 2(1) [OF r [symmetric], of "insert x V"] ok card 2(4,5) by simp
    then show ?case by (simp add: kahn.simps(2) r)
  qed auto
  then show "kahn_ok es N f q V \<Longrightarrow> ?thesis" by blast
qed

lemma visited_all_iff_acyclic:
  assumes "kahn_ok es N g [] V" "finite N" "fst ` set es \<subseteq> N" "snd ` set es \<subseteq> N"
  shows "V = N \<longleftrightarrow> acyclic (set es)"
proof
  assume "V = N"
  then have "{e \<in> set es. snd e \<in> V} = set es" using assms(4) by auto
  with assms(1) show "acyclic (set es)" by (simp add: kahn_ok_def)
next
  assume "acyclic (set es)"
  then have wf: "wf (set es)" by (simp add: finite_acyclic_wf)
  show "V = N"
  proof (rule ccontr)
    assume "V \<noteq> N"
    with assms(1) have "\<exists>z. z \<in> N - V" by (auto simp: kahn_ok_def)
    then obtain s where s: "s \<in> N - V" "\<And>p. (p, s) \<in> set es \<Longrightarrow> p \<notin> N - V" using wf by (metis wfE_min)
    then have "open_degree es V s = 0" using assms(3) by (force simp: open_degree_pos)
    with s(1) assms(1) show False by (auto simp: kahn_ok_def)
  qed
qed

lemma kahn_decides:
  assumes "distinct es" "distinct ids" "fst ` set es \<subseteq> set ids" "snd ` set es \<subseteq> set ids"
  shows "kahn es (open_degree es {}) (filter (\<lambda>i. open_degree es {} i = 0) ids) 0 = length ids \<longleftrightarrow> acyclic (set es)"
proof -
  have "acyclic {e \<in> set es. snd e \<in> {}}" by (simp add: acyclic_def)
  then have "kahn_ok es (set ids) (open_degree es {}) (filter (\<lambda>i. open_degree es {} i = 0) ids) {}"
    using assms(2) by (auto simp: kahn_ok_def)
  from kahn_visits [OF assms(1,4) finite_set this] obtain V g where V: "kahn_ok es (set ids) g [] V"
    "kahn es (open_degree es {}) (filter (\<lambda>i. open_degree es {} i = 0) ids) 0 = card V" by auto
  have "V \<subseteq> set ids" using V(1) by (simp add: kahn_ok_def)
  then have "card V = length ids \<longleftrightarrow> V = set ids"
    using distinct_card [OF assms(2)] by (metis card_subset_eq finite_set)
  with V visited_all_iff_acyclic [OF V(1) finite_set assms(3,4)] show ?thesis by simp
qed

lemma has_cycle_iff:
  assumes "distinct (map fst units)" "distinct (map fst edges)"
    and "\<forall>e\<in>set (map fst edges). fst e \<in> fst ` set units \<and> snd e \<in> fst ` set units"
  shows "lineageHasCycle units edges \<longleftrightarrow> \<not> acyclic (set (map fst edges))"
proof -
  let ?es = "map fst edges" and ?ids = "remdups (map fst units @ map snd (map fst edges))"
  have ids: "set ?ids = fst ` set units" using assms(3) by auto
  then have len: "length ?ids = length units"
    using distinct_card [of ?ids] distinct_card [OF assms(1)] by simp
  have "kahn ?es (open_degree ?es {}) (filter (\<lambda>i. open_degree ?es {} i = 0) ?ids) 0 = length ?ids \<longleftrightarrow> acyclic (set ?es)"
  proof (rule kahn_decides [OF assms(2)])
    show "fst ` set ?es \<subseteq> set ?ids" "snd ` set ?es \<subseteq> set ?ids"
      unfolding ids using assms(3) by blast+
  qed simp
  moreover have deg: "int (length (filter (\<lambda>e. snd e = s) ?es)) = open_degree ?es {} s" for s
    by (simp add: open_degree_def)
  ultimately show ?thesis unfolding lineageHasCycle_def Let_def deg len by blast
qed

end
