(* ===== verification/Anchor_Demo.thy ===== *)
theory Anchor_Demo
  imports Lineage_Walk
begin

text \<open>
  A published book with two units, of which the first was replaced by the second; on this store the
  properties of the lineage walk and of the anchor resolver are applied.
\<close>

definition demo_row :: "string \<Rightarrow> string \<Rightarrow> int \<Rightarrow> string \<Rightarrow> CitableUnit" where
  "demo_row i a n lifecycle =
     \<lparr>u_ID = i, u_Corpus = UnitCorpusKitab, u_BookID = Some 7, u_HeadingID = Some 3, u_PageID = Some 2,
      u_Kind = ''paragraph'', u_Ordinal = n, u_Position = 0, u_ParentUnitID = None, u_Anchor = a,
      u_Marker = None, u_Text = i, u_HTML = None, u_TextNormalized = i, u_NormalizationVersion = 1,
      u_ContentHash = i, u_Occurrence = 1, u_Language = ''ar'', u_ContentRole = UnitContentRoleBookPage,
      u_ReviewStatus = [], u_SourceDocumentHash = [], u_SourceCharStart = None, u_SourceCharEnd = None,
      u_ProvenanceClass = ''source'', u_ProvenanceDetail = None, u_GenerationRunID = None, u_Generation = None,
      u_LicenseStatus = None, u_EffectiveLicenseStatus = None, u_LicenseSource = None, u_Lifecycle = lifecycle,
      u_RetiredAt = None, u_CreatedAt = 0, u_UpdatedAt = 4\<rparr>"

definition demo_anchors :: anchor_store where
  "demo_anchors =
     \<lparr>an_units = [demo_row ''a'' ''kitab/7/h/3/u/1'' 1 UnitLifecycleSuperseded,
        demo_row ''b'' ''kitab/7/h/3/u/2'' 2 UnitLifecycleActive],
      an_lineage = [\<lparr>e_PredecessorID = ''a'', e_SuccessorID = ''b'', e_Reason = UnitLineageReasonEdit\<rparr>],
      an_books = [\<lparr>bk_ID = 7, bk_Deleted = False, bk_License = LicensePermitted, bk_DerivedAt = Some 1, bk_UpdatedAt = 5\<rparr>],
      an_publications = [\<lparr>pb_BookID = 7, pb_Status = ''published'', pb_GrandfatheredAt = None, pb_UpdatedAt = 6\<rparr>],
      an_headings = [\<lparr>hd_BookID = 7, hd_HeadingID = 3, hd_PageID = 2, hd_Ordinal = 0, hd_Deleted = False, hd_UpdatedAt = 4\<rparr>],
      an_pages = [\<lparr>pg_BookID = 7, pg_PageID = 2, pg_Deleted = False, pg_UpdatedAt = 4\<rparr>],
      an_surahs = [\<lparr>sr_ID = 1, sr_StaleAt = None, sr_UpdatedAt = 3\<rparr>],
      an_ayahs = [\<lparr>yr_SurahID = 1, yr_AyahNumber = 1, yr_Text = Some ''t'', yr_Juz = Some 1, yr_Hizb = Some 1,
        yr_Page = Some 1, yr_UpdatedAt = 3\<rparr>],
      an_translations = [], an_transliterations = [], an_bindings = [], an_translation_licenses = [],
      an_transliteration_licenses = [], an_script = None, an_collate = (\<lambda>s. s)\<rparr>"

definition demo_old :: lineageUnit where
  "demo_old = (scanned_unit demo_anchors (demo_row ''a'' ''kitab/7/h/3/u/1'' 1 UnitLifecycleSuperseded))"

definition demo_new :: lineageUnit where
  "demo_new = (scanned_unit demo_anchors (demo_row ''b'' ''kitab/7/h/3/u/2'' 2 UnitLifecycleActive))"

definition demo_redirect :: AnchorRedirect where
  "demo_redirect = \<lparr>rd_From = ''kitab/7/h/3/u/1'', rd_To = ''kitab/7/h/3/u/2'', rd_Reason = UnitLineageReasonEdit, rd_Depth = 1\<rparr>"

lemma demo_reachable: "reachable_ids (an_lineage demo_anchors) [''a''] [''a''] = [''a'', ''b'']"
  by (simp add: demo_anchors_def reachable_ids.simps fresh_successors_def)

lemma demo_closure: "loadLineageClosure demo_anchors [''a''] =
    [\<lparr>le_PredecessorID = ''a'', le_PredecessorAnchor = ''kitab/7/h/3/u/1'', le_Reason = UnitLineageReasonEdit,
      le_Successor = demo_new, le_PublicVisible = True\<rparr>]"
  unfolding loadLineageClosure_def demo_reachable Let_def
  by (simp add: loaded_edge_def unit_by_id_def demo_anchors_def demo_row_def demo_new_def
      book_public_def public_book_def publication_open_def scanned_unit_def heading_ordinal_def heading_of_def)

lemma demo_fields: "lu_ID demo_old = ''a''" "lu_ID demo_new = ''b''" "lu_Anchor demo_new = ''kitab/7/h/3/u/2''"
  "lu_Anchor demo_old = ''kitab/7/h/3/u/1''"
  "lu_Lifecycle demo_old = UnitLifecycleSuperseded" "lu_Lifecycle demo_new = UnitLifecycleActive"
  "lu_PublicEligible demo_old" "lu_PublicEligible demo_new" "lu_BookID demo_new = 7" "lu_HasBook demo_new"
  "lu_Corpus demo_new = UnitCorpusKitab" "lu_BookID demo_old = 7"
  by (simp_all add: demo_old_def demo_new_def scanned_unit_def demo_row_def license_open_def)

lemma demo_walk: "walkLineageUnits demo_anchors [demo_old] (publicLineagePolicy 7) =
    Inr \<lparr>lw_ActiveUnits = [demo_new], lw_Redirects = [demo_redirect], lw_CycleDetected = False\<rparr>"
  by (simp add: walkLineageUnits_def demo_fields demo_closure enforceLineageBudget_def maxAnchorLineageNodes_def
      maxAnchorLineageEdges_def validateLineageSuccessor_def publicLineagePolicy_def Let_def graph_edge_def
      shortestLineageDepths_def bfs.simps successors_def depth_at_def finishLineageWalk_def lineageHasCycle_def
      kahn.simps lifecycle_defs unit_public_def with_depth_def sortedLineageUnits_def sorted_redirects_def demo_redirect_def)

end
