(* ===== verification/Lineage_Props.thy ===== *)
theory Lineage_Props
  imports Lineage_Graph Anchor_Demo
begin

text \<open>
  What the lineage walk returns, in terms of the lineage table: exactly the reachable edges with
  their distances, exactly the reachable active units, a cycle exactly when there is one.
\<close>

section \<open>Loading the graph\<close>

definition edge_key :: "loadedLineageEdge \<Rightarrow> string \<times> string" where
  "edge_key e = (le_PredecessorID e, lu_ID (le_Successor e))"

definition out_degrees :: "edge_map \<Rightarrow> (string \<Rightarrow> nat) \<Rightarrow> bool" where
  "out_degrees edges out \<longleftrightarrow> (\<forall>p. out p = length (filter (\<lambda>k. fst k = p) (map fst edges)))"

lemma out_degrees_pos: "out_degrees edges out \<Longrightarrow> 0 < out p \<longleftrightarrow> p \<in> fst ` fst ` set edges"
  by (auto simp: out_degrees_def filter_empty_conv image_iff)

definition loaded_graph :: "loadedLineageEdge list \<Rightarrow> unit_map \<Rightarrow> edge_map \<Rightarrow> unit_map \<Rightarrow> edge_map \<Rightarrow> bool" where
  "loaded_graph es units edges units' edges' \<longleftrightarrow>
     distinct (map fst units') \<and> distinct (map fst edges') \<and>
     fst ` set edges' = fst ` set edges \<union> edge_key ` set es \<and>
     (\<forall>x\<in>set edges'. x \<in> set edges \<or> (\<exists>e\<in>set es. x = (edge_key e, graph_edge e))) \<and>
     fst ` set units' = fst ` set units \<union> (lu_ID \<circ> le_Successor) ` set es \<and>
     (\<forall>x\<in>set units'. x \<in> set units \<or> (\<exists>e\<in>set es. x = (lu_ID (le_Successor e), le_Successor e)))"

lemma set_update: "distinct (map fst al) \<Longrightarrow> x \<in> set (AList.update k v al) \<Longrightarrow> x = (k, v) \<or> x \<in> set al"
  by (induction al) (auto split: if_splits)

lemma add_loaded_graph:
  assumes "add_loaded policy es units edges out = Inr (units', edges', out')"
    and "distinct (map fst units)" "distinct (map fst edges)" "out_degrees edges out"
  shows "loaded_graph es units edges units' edges' \<and> out_degrees edges' out' \<and>
    (\<forall>e\<in>set es. validateLineageSuccessor e policy = Inr ())"
  using assms
proof (induction policy es units edges out rule: add_loaded.induct)
  case (1 policy units edges out)
  then show ?case by (simp add: loaded_graph_def)
next
  case (2 policy e es units edges out)
  define edges1 where "edges1 = (if edge_key e \<in> fst ` set edges then edges else edges @ [(edge_key e, graph_edge e)])"
  define out1 where "out1 = (if edge_key e \<in> fst ` set edges then out
    else out(le_PredecessorID e := out (le_PredecessorID e) + 1))"
  define units1 where "units1 = AList.update (lu_ID (le_Successor e)) (le_Successor e) units"
  have v: "validateLineageSuccessor e policy = Inr ()" using 2(2) by (cases "validateLineageSuccessor e policy") auto
  have step: "add_loaded policy (e # es) units edges out =
      (case enforceLineageBudget (length units1) (length edges1) of
         Inl err \<Rightarrow> Inl err | Inr _ \<Rightarrow> add_loaded policy es units1 edges1 out1)"
    unfolding units1_def edges1_def out1_def edge_key_def by (simp add: v Let_def)
  have bud: "enforceLineageBudget (length units1) (length edges1) = Inr ()"
    using 2(2) unfolding step by (cases "enforceLineageBudget (length units1) (length edges1)") auto
  have run: "add_loaded policy es units1 edges1 out1 = Inr (units', edges', out')" using 2(2) unfolding step bud by simp
  have u1: "distinct (map fst units1)" "fst ` set units1 = insert (lu_ID (le_Successor e)) (fst ` set units)"
    using 2(3) by (simp_all add: units1_def distinct_update dom_update)
  have e1: "distinct (map fst edges1)" "fst ` set edges1 = insert (edge_key e) (fst ` set edges)"
    using 2(4) by (cases "edge_key e \<in> fst ` set edges"; simp add: edges1_def insert_absorb)+
  have o1: "out_degrees edges1 out1"
    using 2(5) by (auto simp: out_degrees_def edges1_def out1_def edge_key_def)
  have IH: "loaded_graph es units1 edges1 units' edges' \<and> out_degrees edges' out' \<and>
      (\<forall>e\<in>set es. validateLineageSuccessor e policy = Inr ())"
    by (rule 2(1) [OF v refl refl _ _ _ _ run u1(1) e1(1) o1])
      (use bud in \<open>simp_all add: edges1_def out1_def units1_def edge_key_def split: if_splits\<close>)
  have eu: "x = (lu_ID (le_Successor e), le_Successor e) \<or> x \<in> set units" if "x \<in> set units1" for x
    using set_update [OF 2(3)] that by (simp add: units1_def)
  have ee: "x = (edge_key e, graph_edge e) \<or> x \<in> set edges" if "x \<in> set edges1" for x
    using that by (auto simp: edges1_def split: if_splits)
  have "\<forall>x\<in>set edges'. x \<in> set edges \<or> (\<exists>e\<in>set (e # es). x = (edge_key e, graph_edge e))"
    using IH ee unfolding loaded_graph_def by (metis list.set_intros)
  moreover have "\<forall>x\<in>set units'. x \<in> set units \<or> (\<exists>e\<in>set (e # es). x = (lu_ID (le_Successor e), le_Successor e))"
    using IH eu unfolding loaded_graph_def by (metis list.set_intros)
  ultimately show ?case using IH v u1(2) e1(2) unfolding loaded_graph_def by (simp add: comp_def)
qed

section \<open>The tables\<close>

definition lineage_store_ok :: "anchor_store \<Rightarrow> bool" where
  "lineage_store_ok db \<longleftrightarrow> distinct (map u_ID (an_units db)) \<and>
     distinct (map (\<lambda>e. (e_PredecessorID e, e_SuccessorID e)) (an_lineage db)) \<and>
     list_all (\<lambda>e. e_PredecessorID e \<in> u_ID ` set (an_units db) \<and> e_SuccessorID e \<in> u_ID ` set (an_units db)) (an_lineage db)"

abbreviation store_graph :: "anchor_store \<Rightarrow> (string \<times> string) set" where
  "store_graph db \<equiv> lineage_graph (an_lineage db)"

definition reached :: "anchor_store \<Rightarrow> string set \<Rightarrow> string set" where
  "reached db R = (store_graph db)\<^sup>* `` R"

definition reached_graph :: "anchor_store \<Rightarrow> string set \<Rightarrow> (string \<times> string) set" where
  "reached_graph db R = {e \<in> store_graph db. fst e \<in> reached db R}"

lemma unit_by_id_row:
  assumes "lineage_store_ok db" "u \<in> set (an_units db)"
  shows "unit_by_id db (u_ID u) = Some u"
proof -
  have "find (\<lambda>v. u_ID v = u_ID u) us = Some u" if "distinct (map u_ID us)" "u \<in> set us" for us
    using that by (induction us) (auto simp: image_iff)
  with assms show ?thesis by (simp add: unit_by_id_def lineage_store_ok_def)
qed

lemma loaded_edge_rows:
  assumes "lineage_store_ok db" "e \<in> set (an_lineage db)"
  shows "\<exists>p s. p \<in> set (an_units db) \<and> s \<in> set (an_units db) \<and> e_PredecessorID e = u_ID p \<and>
    e_SuccessorID e = u_ID s \<and> loaded_edge db e = [\<lparr>le_PredecessorID = u_ID p, le_PredecessorAnchor = u_Anchor p,
      le_Reason = e_Reason e, le_Successor = scanned_unit db s,
      le_PublicVisible = (case u_BookID s of None \<Rightarrow> False | Some b \<Rightarrow> book_public db b)\<rparr>]"
proof -
  obtain p s where "p \<in> set (an_units db)" "s \<in> set (an_units db)" "e_PredecessorID e = u_ID p" "e_SuccessorID e = u_ID s"
    using assms by (auto simp: lineage_store_ok_def list_all_iff)
  then show ?thesis using unit_by_id_row [OF assms(1)] by (intro exI [of _ p] exI [of _ s]) (simp add: loaded_edge_def)
qed

lemma loaded_closure:
  "x \<in> set (loadLineageClosure db roots) \<longleftrightarrow>
     (\<exists>e\<in>set (an_lineage db). e_PredecessorID e \<in> reached db (set roots) \<and> x \<in> set (loaded_edge db e))"
  by (auto simp: loadLineageClosure_def reachable_ids_from reached_def)

text \<open>A loaded row, read back from the tables.\<close>

definition loads :: "anchor_store \<Rightarrow> CitableUnitLineage \<Rightarrow> CitableUnit \<Rightarrow> CitableUnit \<Rightarrow> loadedLineageEdge \<Rightarrow> bool" where
  "loads db e p s x \<longleftrightarrow> e \<in> set (an_lineage db) \<and> p \<in> set (an_units db) \<and> s \<in> set (an_units db) \<and>
     e_PredecessorID e = u_ID p \<and> e_SuccessorID e = u_ID s \<and>
     x = \<lparr>le_PredecessorID = u_ID p, le_PredecessorAnchor = u_Anchor p, le_Reason = e_Reason e,
       le_Successor = scanned_unit db s,
       le_PublicVisible = (case u_BookID s of None \<Rightarrow> False | Some b \<Rightarrow> book_public db b)\<rparr>"

lemma closure_loads:
  assumes "lineage_store_ok db"
  shows "x \<in> set (loadLineageClosure db roots) \<longleftrightarrow> (\<exists>e p s. loads db e p s x \<and> u_ID p \<in> reached db (set roots))"
proof
  assume "x \<in> set (loadLineageClosure db roots)"
  then obtain e where e: "e \<in> set (an_lineage db)" "e_PredecessorID e \<in> reached db (set roots)" "x \<in> set (loaded_edge db e)"
    unfolding loaded_closure by blast
  with loaded_edge_rows [OF assms e(1)] show "\<exists>e p s. loads db e p s x \<and> u_ID p \<in> reached db (set roots)"
    unfolding loads_def by fastforce
next
  assume "\<exists>e p s. loads db e p s x \<and> u_ID p \<in> reached db (set roots)"
  then obtain e p s where l: "loads db e p s x" "u_ID p \<in> reached db (set roots)" by blast
  then have "loaded_edge db e = [x]"
    using unit_by_id_row [OF assms] unfolding loads_def by (auto simp: loaded_edge_def)
  moreover have "e \<in> set (an_lineage db)" "e_PredecessorID e = u_ID p" using l(1) by (simp_all add: loads_def)
  ultimately show "x \<in> set (loadLineageClosure db roots)" unfolding loaded_closure using l(2) by (intro bexI [of _ e]) simp_all
qed

lemma reached_step: "x \<in> reached db R \<Longrightarrow> (x, y) \<in> store_graph db \<Longrightarrow> y \<in> reached db R"
  unfolding reached_def by (auto intro: rtrancl_into_rtrancl)

lemma reached_unfold: "reached db R = R \<union> snd ` reached_graph db R"
proof -
  have "y \<in> R \<union> snd ` reached_graph db R" if "r \<in> R" "(r, y) \<in> (store_graph db)\<^sup>*" for r y
    using that(2)
  proof (cases rule: rtranclE)
    case base
    with that(1) show ?thesis by simp
  next
    case (step x)
    with that(1) have "(x, y) \<in> reached_graph db R" by (auto simp: reached_graph_def reached_def)
    then show ?thesis by force
  qed
  then have "reached db R \<subseteq> R \<union> snd ` reached_graph db R" unfolding reached_def by blast
  moreover have "snd ` reached_graph db R \<subseteq> reached db R" using reached_step by (auto simp: reached_graph_def)
  moreover have "R \<subseteq> reached db R" by (auto simp: reached_def)
  ultimately show ?thesis by blast
qed

lemma closure_keys:
  assumes "lineage_store_ok db"
  shows "edge_key ` set (loadLineageClosure db roots) = reached_graph db (set roots)"
proof (intro set_eqI iffI)
  fix k assume "k \<in> edge_key ` set (loadLineageClosure db roots)"
  then obtain x e p s where "k = edge_key x" "loads db e p s x" "u_ID p \<in> reached db (set roots)"
    using closure_loads [OF assms] by auto
  then have "e \<in> set (an_lineage db)" "k = (e_PredecessorID e, e_SuccessorID e)" "fst k \<in> reached db (set roots)"
    by (simp_all add: loads_def edge_key_def scanned_unit_def)
  then show "k \<in> reached_graph db (set roots)" by (auto simp: reached_graph_def lineage_graph_def)
next
  fix k assume "k \<in> reached_graph db (set roots)"
  then obtain e where e: "e \<in> set (an_lineage db)" "k = (e_PredecessorID e, e_SuccessorID e)" "e_PredecessorID e \<in> reached db (set roots)"
    by (auto simp: reached_graph_def lineage_graph_def)
  obtain p s x where l: "loads db e p s x" using loaded_edge_rows [OF assms e(1)] e(1) unfolding loads_def by blast
  then have "k = edge_key x" "u_ID p \<in> reached db (set roots)"
    using e by (auto simp: loads_def edge_key_def scanned_unit_def)
  with l closure_loads [OF assms] show "k \<in> edge_key ` set (loadLineageClosure db roots)" by blast
qed

section \<open>Distances do not leave the closure\<close>

lemma reached_relpow:
  assumes "r \<in> R"
  shows "(r, s) \<in> reached_graph db R ^^ n \<longleftrightarrow> (r, s) \<in> store_graph db ^^ n"
proof (induction n arbitrary: s)
  case (Suc n)
  have "x \<in> reached db R" if "(r, x) \<in> store_graph db ^^ n" for x
    using that assms by (auto simp: reached_def dest: relpow_imp_rtrancl)
  with Suc show ?case by (auto simp: reached_graph_def)
qed simp

lemma reached_distance: "at_distance (reached_graph db R) R n s \<longleftrightarrow> at_distance (store_graph db) R n s"
  by (simp add: at_distance_def reached_relpow)

section \<open>The walk\<close>

lemma root_units_props:
  "distinct (map fst units) \<Longrightarrow> distinct (map fst (root_units rs units)) \<and>
     fst ` set (root_units rs units) = fst ` set units \<union> lu_ID ` set rs \<and>
     (\<forall>x\<in>set (root_units rs units). x \<in> set units \<or> (\<exists>r\<in>set rs. x = (lu_ID r, r)))"
proof (induction rs units rule: root_units.induct)
  case (2 r rs units)
  let ?u = "if lu_ID r \<in> fst ` set units then units else units @ [(lu_ID r, r)]"
  have "distinct (map fst ?u)" "fst ` set ?u = insert (lu_ID r) (fst ` set units)" using 2(2) by (auto simp: insert_absorb)
  with 2(1) show ?case by (auto split: if_splits)
qed auto

text \<open>A root is a row of the unit table, read in the snapshot of the walk.\<close>

definition root_ok :: "anchor_store \<Rightarrow> lineagePolicy \<Rightarrow> lineageUnit \<Rightarrow> bool" where
  "root_ok db policy r \<longleftrightarrow> (\<exists>u\<in>set (an_units db). lu_ID r = u_ID u \<and> lu_Lifecycle r = u_Lifecycle u \<and>
     (lp_RequirePublic policy \<longrightarrow> lu_PublicEligible r = license_open u))"

definition shown :: "lineagePolicy \<Rightarrow> CitableUnit \<Rightarrow> bool" where
  "shown policy u \<longleftrightarrow> (lp_RequirePublic policy \<longrightarrow> license_open u)"

text \<open>The maps the walk has built when it starts to finish.\<close>

definition walk_maps ::
  "anchor_store \<Rightarrow> lineageUnit list \<Rightarrow> lineagePolicy \<Rightarrow> unit_map \<Rightarrow> edge_map \<Rightarrow> (string \<Rightarrow> nat) \<Rightarrow> bool"
where
  "walk_maps db roots policy units edges out \<longleftrightarrow>
     (let R = lu_ID ` set roots in
      distinct (map fst units) \<and> distinct (map fst edges) \<and> out_degrees edges out \<and>
      fst ` set edges = reached_graph db R \<and> fst ` set units = reached db R \<and>
      (\<forall>(i, v)\<in>set units. \<exists>u\<in>set (an_units db). i = u_ID u \<and> lu_ID v = i \<and> lu_Lifecycle v = u_Lifecycle u \<and>
         (lp_RequirePublic policy \<longrightarrow> lu_PublicEligible v = license_open u)) \<and>
      (\<forall>(k, g)\<in>set edges. \<exists>e p s x. loads db e p s x \<and> u_ID p \<in> reached db R \<and> k = edge_key x \<and> g = graph_edge x))"

lemma walk_loaded:
  assumes ok: "lineage_store_ok db" "list_all (root_ok db policy) roots"
    and run: "add_loaded policy (loadLineageClosure db (map fst (root_units roots []))) (root_units roots []) [] (\<lambda>_. 0) =
      Inr (units, edges, out)"
  shows "walk_maps db roots policy units edges out"
proof -
  let ?es = "loadLineageClosure db (map fst (root_units roots []))" and ?R = "lu_ID ` set roots"
  have r: "distinct (map fst (root_units roots []))" "fst ` set (root_units roots []) = ?R"
    "\<forall>x\<in>set (root_units roots []). \<exists>r\<in>set roots. x = (lu_ID r, r)"
    using root_units_props [of "[]" roots] by auto
  then have ids: "set (map fst (root_units roots [])) = ?R" by simp
  have "loaded_graph ?es (root_units roots []) [] units edges \<and> out_degrees edges out \<and>
      (\<forall>e\<in>set ?es. validateLineageSuccessor e policy = Inr ())"
    by (rule add_loaded_graph [OF run r(1)]) (simp_all add: out_degrees_def)
  then have g: "distinct (map fst units)" "distinct (map fst edges)" "out_degrees edges out"
      "fst ` set edges = edge_key ` set ?es" "fst ` set units = ?R \<union> (lu_ID \<circ> le_Successor) ` set ?es"
      "\<forall>x\<in>set edges. \<exists>e\<in>set ?es. x = (edge_key e, graph_edge e)"
      "\<forall>x\<in>set units. (\<exists>r\<in>set roots. x = (lu_ID r, r)) \<or> (\<exists>e\<in>set ?es. x = (lu_ID (le_Successor e), le_Successor e))"
    using r by (auto simp: loaded_graph_def)
  have es: "fst ` set edges = reached_graph db ?R" using g(4) closure_keys [OF ok(1)] ids by metis
  have "(lu_ID \<circ> le_Successor) ` set ?es = snd ` edge_key ` set ?es" by (auto simp: edge_key_def image_image)
  then have us: "fst ` set units = reached db ?R" using g(4,5) es reached_unfold [of db ?R] by simp
  have row: "\<exists>u\<in>set (an_units db). fst x = u_ID u \<and> lu_ID (snd x) = fst x \<and> lu_Lifecycle (snd x) = u_Lifecycle u \<and>
      (lp_RequirePublic policy \<longrightarrow> lu_PublicEligible (snd x) = license_open u)" if x: "x \<in> set units" for x
  proof -
    from g(7) x consider r where "r \<in> set roots" "x = (lu_ID r, r)"
      | e where "e \<in> set ?es" "x = (lu_ID (le_Successor e), le_Successor e)" by blast
    then show ?thesis
    proof cases
      case 1
      with ok(2) show ?thesis by (force simp: list_all_iff root_ok_def)
    next
      case 2
      then obtain l p s where "loads db l p s e" using closure_loads [OF ok(1)] by blast
      with 2 show ?thesis by (auto simp: loads_def scanned_unit_def intro!: bexI [of _ s])
    qed
  qed
  have edge: "\<exists>e p s y. loads db e p s y \<and> u_ID p \<in> reached db ?R \<and> fst x = edge_key y \<and> snd x = graph_edge y"
    if "x \<in> set edges" for x
    using g(6) that closure_loads [OF ok(1)] ids by fastforce
  show ?thesis unfolding walk_maps_def Let_def using g(1-3) es us row edge by auto
qed

lemma walk_run:
  assumes "walkLineageUnits db roots policy = Inr w" "lineage_store_ok db" "list_all (root_ok db policy) roots"
  shows "\<exists>units edges out depths. walk_maps db roots policy units edges out \<and> distinct (map fst depths) \<and>
    (\<forall>s n. (s, n) \<in> set depths \<longleftrightarrow> at_distance (store_graph db) (lu_ID ` set roots) n s) \<and>
    finishLineageWalk units (map (\<lambda>(k, e). (k, with_depth depths e)) edges) out policy = Inr w"
proof -
  let ?u = "root_units roots []"
  obtain units edges out depths where
    run: "add_loaded policy (loadLineageClosure db (map fst ?u)) ?u [] (\<lambda>_. 0) = Inr (units, edges, out)"
    and dep: "shortestLineageDepths (map fst ?u) edges = Inr depths"
    and fin: "finishLineageWalk units (map (\<lambda>(k, e). (k, with_depth depths e)) edges) out policy = Inr w"
    using assms(1) by (auto simp: walkLineageUnits_def Let_def split: sum.splits)
  note maps = walk_loaded [OF assms(2,3) run]
  have roots: "set (remdups (map fst ?u)) = lu_ID ` set roots" using root_units_props [of "[]" roots] by simp
  have "depths = bfs (map fst edges) (map (\<lambda>r. (r, 0)) (remdups (map fst ?u))) (remdups (map fst ?u))"
    using dep by (simp add: shortestLineageDepths_def Let_def split: if_splits)
  moreover have "set (map fst edges) = reached_graph db (lu_ID ` set roots)" using maps by (simp add: walk_maps_def Let_def)
  ultimately show ?thesis
    using maps fin bfs_from_roots [of "remdups (map fst ?u)" "map fst edges"] unfolding roots
    by (intro exI [of _ units] exI [of _ edges] exI [of _ out] exI [of _ depths]) (simp add: reached_distance)
qed

lemma with_depth_keys: "map fst (map (\<lambda>(k, e). (k, with_depth depths e)) edges) = map fst edges"
  by (induction edges) auto

lemma finish_cycle:
  assumes "walk_maps db roots policy units edges out"
  shows "lineageHasCycle units (map (\<lambda>(k, e). (k, with_depth depths e)) edges) \<longleftrightarrow>
    \<not> acyclic (reached_graph db (lu_ID ` set roots))"
proof -
  let ?R = "lu_ID ` set roots" and ?edges = "map (\<lambda>(k, e). (k, with_depth depths e)) edges"
  have keys: "set (map fst ?edges) = reached_graph db ?R"
    unfolding with_depth_keys using assms by (simp add: walk_maps_def Let_def)
  have "lineageHasCycle units ?edges \<longleftrightarrow> \<not> acyclic (set (map fst ?edges))"
  proof (rule has_cycle_iff)
    show "distinct (map fst units)" "distinct (map fst ?edges)"
      unfolding with_depth_keys using assms by (simp_all add: walk_maps_def Let_def)
    have "fst ` set units = reached db ?R" using assms by (simp add: walk_maps_def Let_def)
    then show "\<forall>e\<in>set (map fst ?edges). fst e \<in> fst ` set units \<and> snd e \<in> fst ` set units"
      unfolding keys using reached_step by (auto simp: reached_graph_def)
  qed
  then show ?thesis unfolding keys .
qed

lemma unit_row_unique: "lineage_store_ok db \<Longrightarrow> p \<in> set (an_units db) \<Longrightarrow> q \<in> set (an_units db) \<Longrightarrow> u_ID p = u_ID q \<Longrightarrow> p = q"
  by (auto simp: lineage_store_ok_def distinct_map inj_on_def)

lemma edge_row_unique:
  "lineage_store_ok db \<Longrightarrow> d \<in> set (an_lineage db) \<Longrightarrow> e \<in> set (an_lineage db) \<Longrightarrow> e_PredecessorID d = e_PredecessorID e \<Longrightarrow>
     e_SuccessorID d = e_SuccessorID e \<Longrightarrow> d = e"
  by (auto simp: lineage_store_ok_def distinct_map inj_on_def)

lemma unit_public_row:
  assumes "walk_maps db roots policy units edges out" "lineage_store_ok db" "lp_RequirePublic policy"
    and "u \<in> set (an_units db)" "u_ID u \<in> reached db (lu_ID ` set roots)"
  shows "unit_public units (u_ID u) = license_open u"
proof -
  have "distinct (map fst units)" "u_ID u \<in> fst ` set units" using assms(1,5) by (simp_all add: walk_maps_def Let_def)
  then obtain v where v: "map_of units (u_ID u) = Some v" "(u_ID u, v) \<in> set units" by (auto simp: image_iff)
  then obtain u' where "u' \<in> set (an_units db)" "u_ID u = u_ID u'" "lu_PublicEligible v = license_open u'"
    using assms(1,3) by (fastforce simp: walk_maps_def Let_def)
  with v(1) unit_row_unique [OF assms(2,4)] show ?thesis by (simp add: unit_public_def)
qed

lemma finish_Inr:
  assumes "finishLineageWalk units edges out policy = Inr w"
  shows "lw_Redirects w = sorted_redirects (map (ge_Redirect \<circ> snd) (filter (\<lambda>e. \<not> (lp_RequirePublic policy \<and>
      (\<not> unit_public units (ge_PredecessorID (snd e)) \<or> \<not> unit_public units (ge_SuccessorID (snd e))))) edges))"
    and "lw_ActiveUnits w = sortedLineageUnits (map snd (filter (\<lambda>(i, u).
      lu_Lifecycle u = UnitLifecycleActive \<and> \<not> (lp_RequirePublic policy \<and> \<not> lu_PublicEligible u)) units))"
    and "lw_CycleDetected w = lineageHasCycle units edges"
    and "\<not> lineageHasCycle units edges \<Longrightarrow> (i, u) \<in> set units \<Longrightarrow>
      \<not> (lu_Lifecycle u = UnitLifecycleSuperseded \<and> out i = 0) \<and> \<not> (lu_Lifecycle u = UnitLifecycleActive \<and> 0 < out i)"
  using assms by (auto simp: finishLineageWalk_def Let_def list_ex_iff split: if_splits)

lemma with_depth_ids [simp]:
  "ge_PredecessorID (with_depth d e) = ge_PredecessorID e" "ge_SuccessorID (with_depth d e) = ge_SuccessorID e"
  by (simp_all add: with_depth_def)

definition redirect_row :: "anchor_store \<Rightarrow> string set \<Rightarrow> lineagePolicy \<Rightarrow> AnchorRedirect \<Rightarrow> bool" where
  "redirect_row db R policy r \<longleftrightarrow> (\<exists>e p s n. e \<in> set (an_lineage db) \<and> p \<in> set (an_units db) \<and> s \<in> set (an_units db) \<and>
     e_PredecessorID e = u_ID p \<and> e_SuccessorID e = u_ID s \<and> at_distance (store_graph db) R n (u_ID p) \<and>
     shown policy p \<and> shown policy s \<and>
     r = \<lparr>rd_From = u_Anchor p, rd_To = u_Anchor s, rd_Reason = e_Reason e, rd_Depth = int n + 1\<rparr>)"

lemma finish_redirects:
  assumes maps: "walk_maps db roots policy units edges out" and ok: "lineage_store_ok db"
    and depths: "distinct (map fst depths)" "\<forall>s n. (s, n) \<in> set depths \<longleftrightarrow> at_distance (store_graph db) (lu_ID ` set roots) n s"
    and fin: "finishLineageWalk units (map (\<lambda>(k, e). (k, with_depth depths e)) edges) out policy = Inr w"
  shows "r \<in> set (lw_Redirects w) \<longleftrightarrow> redirect_row db (lu_ID ` set roots) policy r"
proof -
  let ?R = "lu_ID ` set roots"
  let ?keep = "\<lambda>g. \<not> (lp_RequirePublic policy \<and> (\<not> unit_public units (ge_PredecessorID g) \<or> \<not> unit_public units (ge_SuccessorID g)))"
  let ?edges = "map (\<lambda>(k, e). (k, with_depth depths e)) edges"
  have "lw_Redirects w = sorted_redirects (map (ge_Redirect \<circ> snd) (filter (\<lambda>e. ?keep (snd e)) ?edges))"
    by (rule finish_Inr(1) [OF fin])
  then have "set (lw_Redirects w) = (ge_Redirect \<circ> snd) ` {x \<in> set ?edges. ?keep (snd x)}"
    by (simp only: sorted_redirects_def set_sort set_map set_filter)
  also have "\<dots> = (\<lambda>x. ge_Redirect (with_depth depths (snd x))) ` {x \<in> set edges. ?keep (snd x)}"
  proof -
    let ?F = "\<lambda>(k, e). (k, with_depth depths e)"
    have "{x \<in> ?F ` set edges. ?keep (snd x)} = ?F ` {x \<in> set edges. ?keep (snd x)}" by (auto simp: case_prod_beta)
    then show ?thesis by (simp only: set_map image_image) (simp add: case_prod_beta)
  qed
  finally have rd: "set (lw_Redirects w) = (\<lambda>x. ge_Redirect (with_depth depths (snd x))) ` {x \<in> set edges. ?keep (snd x)}" .
  have at: "depth_at depths i = n" if "at_distance (store_graph db) ?R n i" for i n
    using that depths by (simp add: depth_at_mem)
  have dist: "i \<in> reached db ?R \<Longrightarrow> \<exists>n. at_distance (store_graph db) ?R n i" for i
    using at_distance_ex unfolding reached_def by blast
  have keep: "?keep (graph_edge x) \<longleftrightarrow> shown policy p \<and> shown policy s"
    if "loads db e p s x" "u_ID p \<in> reached db ?R" for e p s x
  proof (cases "lp_RequirePublic policy")
    case True
    have "(u_ID p, u_ID s) \<in> store_graph db" using that(1) by (force simp: loads_def lineage_graph_def)
    then have "u_ID s \<in> reached db ?R" using that(2) reached_step by blast
    then show ?thesis using that unit_public_row [OF maps ok True] True
      by (simp add: loads_def graph_edge_def scanned_unit_def shown_def)
  qed (simp add: shown_def)
  have out: "ge_Redirect (with_depth depths (graph_edge x)) =
      \<lparr>rd_From = u_Anchor p, rd_To = u_Anchor s, rd_Reason = e_Reason e, rd_Depth = int n + 1\<rparr>"
    if "loads db e p s x" "at_distance (store_graph db) ?R n (u_ID p)" for e p s x n
    using that(1) at [OF that(2)] by (simp add: loads_def graph_edge_def with_depth_def scanned_unit_def)
  show ?thesis
  proof
    assume "r \<in> set (lw_Redirects w)"
    then obtain x where x: "x \<in> set edges" "?keep (snd x)" "r = ge_Redirect (with_depth depths (snd x))" unfolding rd by auto
    then obtain e p s y where y: "loads db e p s y" "u_ID p \<in> reached db ?R" "snd x = graph_edge y"
      using maps by (fastforce simp: walk_maps_def Let_def)
    obtain n where n: "at_distance (store_graph db) ?R n (u_ID p)" using dist [OF y(2)] by blast
    show "redirect_row db ?R policy r" unfolding redirect_row_def
      using y(1) n keep [OF y(1,2)] out [OF y(1) n] x(2,3) y(3)
      by (intro exI [of _ e] exI [of _ p] exI [of _ s] exI [of _ n]) (simp add: loads_def)
  next
    assume "redirect_row db ?R policy r"
    then obtain e p s n where e: "e \<in> set (an_lineage db)" "p \<in> set (an_units db)" "s \<in> set (an_units db)"
        "e_PredecessorID e = u_ID p" "e_SuccessorID e = u_ID s" and n: "at_distance (store_graph db) ?R n (u_ID p)"
      and sh: "shown policy p" "shown policy s"
      and r: "r = \<lparr>rd_From = u_Anchor p, rd_To = u_Anchor s, rd_Reason = e_Reason e, rd_Depth = int n + 1\<rparr>"
      unfolding redirect_row_def by blast
    have reach: "u_ID p \<in> reached db ?R"
      using n unfolding at_distance_def reached_def by (auto dest: relpow_imp_rtrancl)
    have "(u_ID p, u_ID s) \<in> reached_graph db ?R"
      using e reach by (force simp: reached_graph_def lineage_graph_def)
    then have "(u_ID p, u_ID s) \<in> fst ` set edges" using maps by (simp add: walk_maps_def Let_def)
    then obtain g where g: "((u_ID p, u_ID s), g) \<in> set edges" by auto
    then obtain e' p' s' y where y: "loads db e' p' s' y" "(u_ID p, u_ID s) = edge_key y" "g = graph_edge y"
      using maps by (fastforce simp: walk_maps_def Let_def)
    then have "p' = p" "s' = s" "e' = e"
      using e unit_row_unique [OF ok] edge_row_unique [OF ok] by (auto simp: loads_def edge_key_def scanned_unit_def)
    then have l: "loads db e p s y" using y(1) by simp
    have "?keep g" using keep [OF l reach] sh y(3) by simp
    have "r = ge_Redirect (with_depth depths (snd ((u_ID p, u_ID s), g)))" using out [OF l n] y(3) r by simp
    moreover have "((u_ID p, u_ID s), g) \<in> {x \<in> set edges. ?keep (snd x)}" using g \<open>?keep g\<close> by simp
    ultimately show "r \<in> set (lw_Redirects w)" unfolding rd by (rule image_eqI)
  qed
qed


lemma finish_active:
  assumes maps: "walk_maps db roots policy units edges out" and ok: "lineage_store_ok db"
    and fin: "finishLineageWalk units edges' out policy = Inr w"
  shows "lu_ID ` set (lw_ActiveUnits w) = u_ID ` {u \<in> set (an_units db). u_ID u \<in> reached db (lu_ID ` set roots) \<and>
      u_Lifecycle u = UnitLifecycleActive \<and> shown policy u}"
    and "distinct (map lu_ID (lw_ActiveUnits w))"
proof -
  let ?R = "lu_ID ` set roots"
  let ?P = "\<lambda>(i, u). lu_Lifecycle u = UnitLifecycleActive \<and> \<not> (lp_RequirePublic policy \<and> \<not> lu_PublicEligible u)"
  have row: "\<exists>u\<in>set (an_units db). i = u_ID u \<and> lu_ID v = i \<and> lu_Lifecycle v = u_Lifecycle u \<and>
      (lp_RequirePublic policy \<longrightarrow> lu_PublicEligible v = license_open u)" if "(i, v) \<in> set units" for i v
    using maps that by (fastforce simp: walk_maps_def Let_def)
  have dist: "distinct (map fst units)" and keys: "fst ` set units = reached db ?R"
    using maps by (simp_all add: walk_maps_def Let_def)
  have act: "set (lw_ActiveUnits w) = snd ` {x \<in> set units. ?P x}"
    by (simp add: finish_Inr(2) [OF fin] sortedLineageUnits_def)
  show "lu_ID ` set (lw_ActiveUnits w) = u_ID ` {u \<in> set (an_units db). u_ID u \<in> reached db ?R \<and>
      u_Lifecycle u = UnitLifecycleActive \<and> shown policy u}" (is "?l = ?r")
  proof (intro set_eqI iffI)
    fix i assume "i \<in> ?l"
    then obtain k v where v: "(k, v) \<in> set units" "?P (k, v)" "i = lu_ID v" unfolding act by auto
    then obtain u where "u \<in> set (an_units db)" "k = u_ID u" "lu_ID v = k" "lu_Lifecycle v = u_Lifecycle u"
        "lp_RequirePublic policy \<longrightarrow> lu_PublicEligible v = license_open u" using row by blast
    moreover have "k \<in> reached db ?R" using keys v(1) by force
    ultimately show "i \<in> ?r" using v by (auto simp: shown_def)
  next
    fix i assume "i \<in> ?r"
    then obtain u where u: "u \<in> set (an_units db)" "i = u_ID u" "i \<in> reached db ?R" "u_Lifecycle u = UnitLifecycleActive" "shown policy u"
      by blast
    then have "i \<in> fst ` set units" unfolding keys by simp
    then obtain v where v: "(i, v) \<in> set units" by auto
    obtain u' where u': "u' \<in> set (an_units db)" "i = u_ID u'" "lu_ID v = i" "lu_Lifecycle v = u_Lifecycle u'"
        "lp_RequirePublic policy \<longrightarrow> lu_PublicEligible v = license_open u'" using row [OF v] by (elim bexE conjE)
    have "u' = u" by (rule unit_row_unique [OF ok u'(1) u(1) trans [OF u'(2) [symmetric] u(2)]])
    then have "?P (i, v)" using u(4,5) u'(4,5) by (simp add: shown_def)
    then have "v \<in> snd ` {x \<in> set units. ?P x}" using v by (intro image_eqI [of _ _ "(i, v)"]) simp_all
    with u'(3) show "i \<in> ?l" unfolding act by blast
  qed
  have "lu_ID (snd x) = fst x" if "x \<in> set units" for x using row [of "fst x" "snd x"] that by auto
  then have "map lu_ID (map snd (filter ?P units)) = map fst (filter ?P units)" by simp
  then have "distinct (map lu_ID (map snd (filter ?P units)))" by (simp only: distinct_map_filter [OF dist])
  then show "distinct (map lu_ID (lw_ActiveUnits w))"
    unfolding finish_Inr(2) [OF fin] sortedLineageUnits_def by (simp only: distinct_map distinct_sort set_sort)
qed

section \<open>What a walk returns\<close>

text \<open>
  C19. The lineage walk is exact. On a table with distinct identifiers, distinct pairs and no
  dangling edge (\<open>lineage_store_ok\<close>), a walk from roots read from it (\<open>root_ok\<close>) that succeeds
  reports a cycle exactly when the reachable part of the lineage has one, redirects that are exactly
  the reachable edges each with the distance of its predecessor from the roots plus one, and exactly
  the reachable active units, each once; public walks drop what has a closed license. Redirects and
  units come in the order the code documents, and without a cycle every reachable superseded unit
  has a successor and no active unit has one.
\<close>
theorem lineage_walk_exact:
  assumes "lineage_store_ok db" "list_all (root_ok db policy) roots" "walkLineageUnits db roots policy = Inr w"
  shows "(lw_CycleDetected w \<longleftrightarrow> \<not> acyclic (reached_graph db (lu_ID ` set roots))) \<and>
    (\<forall>r. r \<in> set (lw_Redirects w) \<longleftrightarrow> redirect_row db (lu_ID ` set roots) policy r) \<and>
    lu_ID ` set (lw_ActiveUnits w) = u_ID ` {u \<in> set (an_units db). u_ID u \<in> reached db (lu_ID ` set roots) \<and>
      u_Lifecycle u = UnitLifecycleActive \<and> shown policy u} \<and>
    distinct (map lu_ID (lw_ActiveUnits w)) \<and>
    sorted (map (\<lambda>r. (rd_Depth r, rd_From r, rd_To r, rd_Reason r)) (lw_Redirects w)) \<and>
    sorted (map (\<lambda>u. (lu_HeadingOrdinal u, lu_Position u, lu_Anchor u)) (lw_ActiveUnits w)) \<and>
    (\<not> lw_CycleDetected w \<longrightarrow> (\<forall>u\<in>set (an_units db). u_ID u \<in> reached db (lu_ID ` set roots) \<longrightarrow>
       (u_Lifecycle u = UnitLifecycleSuperseded \<longrightarrow> u_ID u \<in> Domain (store_graph db)) \<and>
       (u_Lifecycle u = UnitLifecycleActive \<longrightarrow> u_ID u \<notin> Domain (store_graph db))))"
proof -
  let ?R = "lu_ID ` set roots"
  obtain units edges out depths where maps: "walk_maps db roots policy units edges out"
    and depths: "distinct (map fst depths)" "\<forall>s n. (s, n) \<in> set depths \<longleftrightarrow> at_distance (store_graph db) ?R n s"
    and fin: "finishLineageWalk units (map (\<lambda>(k, e). (k, with_depth depths e)) edges) out policy = Inr w"
    using walk_run [OF assms(3,1,2)] by blast
  have cyc: "lw_CycleDetected w \<longleftrightarrow> \<not> acyclic (reached_graph db ?R)"
    unfolding finish_Inr(3) [OF fin] by (rule finish_cycle [OF maps])
  have red: "r \<in> set (lw_Redirects w) \<longleftrightarrow> redirect_row db ?R policy r" for r
    by (rule finish_redirects [OF maps assms(1) depths fin])
  have ends: "(u_Lifecycle u = UnitLifecycleSuperseded \<longrightarrow> u_ID u \<in> Domain (store_graph db)) \<and>
      (u_Lifecycle u = UnitLifecycleActive \<longrightarrow> u_ID u \<notin> Domain (store_graph db))"
    if nc: "\<not> lw_CycleDetected w" and mem: "u \<in> set (an_units db)" and rch: "u_ID u \<in> reached db ?R" for u
  proof -
    have "fst ` set units = reached db ?R" using maps by (simp add: walk_maps_def Let_def)
    then obtain v where v: "(u_ID u, v) \<in> set units" using rch by (metis (no_types, lifting) image_iff prod.collapse)
    then obtain u' where u': "u' \<in> set (an_units db)" "u_ID u = u_ID u'" "lu_Lifecycle v = u_Lifecycle u'"
      using maps by (fastforce simp: walk_maps_def Let_def)
    have "u' = u" by (rule unit_row_unique [OF assms(1) u'(1) mem u'(2) [symmetric]])
    moreover have "0 < out (u_ID u) \<longleftrightarrow> u_ID u \<in> Domain (store_graph db)"
      using maps rch out_degrees_pos [of edges out "u_ID u"]
      by (auto simp: walk_maps_def Let_def reached_graph_def image_iff Domain_iff)
    moreover have "\<not> lineageHasCycle units (map (\<lambda>(k, e). (k, with_depth depths e)) edges)"
      using nc finish_Inr(3) [OF fin] by simp
    ultimately show ?thesis using finish_Inr(4) [OF fin _ v] u'(3) by auto
  qed
  have "sorted (map (\<lambda>r. (rd_Depth r, rd_From r, rd_To r, rd_Reason r)) (lw_Redirects w))"
    "sorted (map (\<lambda>u. (lu_HeadingOrdinal u, lu_Position u, lu_Anchor u)) (lw_ActiveUnits w))"
    unfolding finish_Inr(1,2) [OF fin] sorted_redirects_def sortedLineageUnits_def by simp_all
  with cyc red ends finish_active [OF maps assms(1) fin] show ?thesis by blast
qed

section \<open>A walk\<close>

lemma demo_store_ok: "lineage_store_ok demo_anchors"
  by (simp add: lineage_store_ok_def demo_anchors_def demo_row_def)

lemma demo_unit: "demo_row ''a'' ''kitab/7/h/3/u/1'' 1 UnitLifecycleSuperseded \<in> set (an_units demo_anchors)"
  "demo_row ''b'' ''kitab/7/h/3/u/2'' 2 UnitLifecycleActive \<in> set (an_units demo_anchors)"
  by (simp_all add: demo_anchors_def)

theorem lineage_walk_exact_witness:
  "\<exists>w. walkLineageUnits demo_anchors [demo_old] (publicLineagePolicy 7) = Inr w \<and>
     lu_ID ` set (lw_ActiveUnits w) = u_ID ` {u \<in> set (an_units demo_anchors). u_ID u \<in> reached demo_anchors {''a''} \<and>
       u_Lifecycle u = UnitLifecycleActive \<and> shown (publicLineagePolicy 7) u}"
proof -
  have root: "list_all (root_ok demo_anchors (publicLineagePolicy 7)) [demo_old]"
    using demo_unit(1) by (auto simp: root_ok_def demo_old_def scanned_unit_def)
  have id: "lu_ID ` set [demo_old] = {''a''}" by (simp add: demo_fields)
  from lineage_walk_exact [OF demo_store_ok root demo_walk, unfolded id] demo_walk show ?thesis by blast
qed

end
