(* ===== verification/Lineage_Total.thy ===== *)
theory Lineage_Total
  imports Lineage_Props
begin

text \<open>
  When the lineage walk succeeds, and where the units it returns come from.
\<close>

section \<open>Success\<close>

lemma add_loaded_total:
  assumes "\<forall>e\<in>set es. validateLineageSuccessor e policy = Inr ()"
    and "distinct (map fst units)" "distinct (map fst edges)"
    and "card (fst ` set units \<union> (lu_ID \<circ> le_Successor) ` set es) \<le> maxAnchorLineageNodes"
    and "card (fst ` set edges \<union> edge_key ` set es) \<le> maxAnchorLineageEdges"
  shows "\<exists>r. add_loaded policy es units edges out = Inr r"
  using assms
proof (induction es arbitrary: units edges out)
  case (Cons e es)
  define edges1 where "edges1 = (if edge_key e \<in> fst ` set edges then edges else edges @ [(edge_key e, graph_edge e)])"
  define out1 where "out1 = (if edge_key e \<in> fst ` set edges then out
    else out(le_PredecessorID e := out (le_PredecessorID e) + 1))"
  define units1 where "units1 = AList.update (lu_ID (le_Successor e)) (le_Successor e) units"
  have v: "validateLineageSuccessor e policy = Inr ()" using Cons(2) by simp
  have step: "add_loaded policy (e # es) units edges out =
      (case enforceLineageBudget (length units1) (length edges1) of
         Inl err \<Rightarrow> Inl err | Inr _ \<Rightarrow> add_loaded policy es units1 edges1 out1)"
    unfolding units1_def edges1_def out1_def edge_key_def by (simp add: v Let_def)
  have u1: "distinct (map fst units1)" "fst ` set units1 = insert (lu_ID (le_Successor e)) (fst ` set units)"
    using Cons(3) by (simp_all add: units1_def distinct_update dom_update)
  have e1: "distinct (map fst edges1)" "fst ` set edges1 = insert (edge_key e) (fst ` set edges)"
    using Cons(4) by (cases "edge_key e \<in> fst ` set edges"; simp add: edges1_def insert_absorb)+
  have nodes: "fst ` set units1 \<union> (lu_ID \<circ> le_Successor) ` set es = fst ` set units \<union> (lu_ID \<circ> le_Successor) ` set (e # es)"
    unfolding u1(2) by simp
  have keys: "fst ` set edges1 \<union> edge_key ` set es = fst ` set edges \<union> edge_key ` set (e # es)"
    unfolding e1(2) by simp
  have lu: "length units1 = card (fst ` set units1)" using distinct_card [OF u1(1)] by simp
  have "length units1 \<le> maxAnchorLineageNodes" unfolding lu
    by (rule order_trans [OF card_mono Cons(5)]) (simp, unfold nodes [symmetric], simp)
  moreover have le: "length edges1 = card (fst ` set edges1)" using distinct_card [OF e1(1)] by simp
  moreover have "length edges1 \<le> maxAnchorLineageEdges" unfolding le
    by (rule order_trans [OF card_mono Cons(6)]) (simp, unfold keys [symmetric], simp)
  ultimately have "enforceLineageBudget (length units1) (length edges1) = Inr ()" by (simp add: enforceLineageBudget_def)
  moreover have "\<exists>r. add_loaded policy es units1 edges1 out1 = Inr r"
    by (rule Cons(1) [OF _ u1(1) e1(1)]) (use Cons(2) in simp, use Cons(5,6) in \<open>simp_all only: nodes keys\<close>)
  ultimately show ?case unfolding step by simp
qed simp

definition lineage_ends_ok :: "anchor_store \<Rightarrow> string set \<Rightarrow> bool" where
  "lineage_ends_ok db R \<longleftrightarrow> (\<forall>u\<in>set (an_units db). u_ID u \<in> reached db R \<longrightarrow>
     (u_Lifecycle u = UnitLifecycleSuperseded \<longrightarrow> u_ID u \<in> Domain (store_graph db)) \<and>
     (u_Lifecycle u = UnitLifecycleActive \<longrightarrow> u_ID u \<notin> Domain (store_graph db)))"

definition within_budget :: "anchor_store \<Rightarrow> string set \<Rightarrow> bool" where
  "within_budget db R \<longleftrightarrow> card (reached db R) \<le> maxAnchorLineageNodes \<and> card (reached_graph db R) \<le> maxAnchorLineageEdges"

lemma finite_reached: "finite R \<Longrightarrow> finite (reached db R)"
proof -
  have "reached_graph db R \<subseteq> store_graph db" by (auto simp: reached_graph_def)
  moreover have "finite (store_graph db)" by (simp add: lineage_graph_def)
  ultimately have "finite (reached_graph db R)" by (rule finite_subset)
  then show "finite R \<Longrightarrow> finite (reached db R)" by (subst reached_unfold) simp
qed

lemma walk_total:
  assumes ok: "lineage_store_ok db" "list_all (root_ok db policy) roots"
    and budget: "within_budget db (lu_ID ` set roots)"
    and ends: "acyclic (reached_graph db (lu_ID ` set roots)) \<longrightarrow> lineage_ends_ok db (lu_ID ` set roots)"
    and valid: "\<forall>e p s x. loads db e p s x \<longrightarrow> u_ID p \<in> reached db (lu_ID ` set roots) \<longrightarrow>
      validateLineageSuccessor x policy = Inr ()"
  shows "\<exists>w. walkLineageUnits db roots policy = Inr w"
proof -
  let ?R = "lu_ID ` set roots" and ?u = "root_units roots []"
  let ?es = "loadLineageClosure db (map fst ?u)"
  have r: "distinct (map fst ?u)" "fst ` set ?u = ?R" using root_units_props [of "[]" roots] by auto
  have ids: "set (map fst ?u) = ?R" using r(2) by simp
  have nodes: "fst ` set ?u \<union> (lu_ID \<circ> le_Successor) ` set ?es = reached db ?R"
  proof -
    have "(lu_ID \<circ> le_Successor) ` set ?es = snd ` edge_key ` set ?es" by (auto simp: edge_key_def image_image)
    then show ?thesis using r(2) closure_keys [OF ok(1), of "map fst ?u"] ids reached_unfold [of db ?R] by simp
  qed
  have keys: "edge_key ` set ?es = reached_graph db ?R" using closure_keys [OF ok(1), of "map fst ?u"] ids by simp
  have "length ?u = card ?R" using distinct_card [OF r(1)] r(2) by simp
  also have "\<dots> \<le> card (reached db ?R)"
    by (rule card_mono) (simp add: finite_reached, auto simp: reached_def)
  finally have b0: "enforceLineageBudget (length ?u) 0 = Inr ()"
    using budget by (simp add: enforceLineageBudget_def within_budget_def)
  have "\<forall>x\<in>set ?es. validateLineageSuccessor x policy = Inr ()"
    using valid closure_loads [OF ok(1), of _ "map fst ?u"] unfolding ids by blast
  then obtain units edges out where run: "add_loaded policy ?es ?u [] (\<lambda>_. 0) = Inr (units, edges, out)"
    using add_loaded_total [of ?es policy ?u "[]" "\<lambda>_. 0"] r(1) nodes keys budget
    by (auto simp: within_budget_def)
  note maps = walk_loaded [OF ok run]
  let ?rem = "remdups (map fst ?u)"
  let ?d = "bfs (map fst edges) (map (\<lambda>r. (r, 0)) ?rem) ?rem"
  have es: "set (map fst edges) = reached_graph db ?R" using maps by (simp add: walk_maps_def Let_def)
  have "set ?rem = ?R" using ids by simp
  then have d: "(s, n) \<in> set ?d \<longleftrightarrow> at_distance (reached_graph db ?R) ?R n s" for s n
    using bfs_from_roots [of ?rem "map fst edges"] es by simp
  have "fst k \<in> fst ` set ?d" if "k \<in> reached_graph db ?R" for k
  proof -
    have "fst k \<in> reached db ?R" using that by (simp add: reached_graph_def)
    then obtain n where "at_distance (store_graph db) ?R n (fst k)" using at_distance_ex unfolding reached_def by blast
    then have "(fst k, n) \<in> set ?d" unfolding d reached_distance .
    then show ?thesis by force
  qed
  note known = this
  have dep: "shortestLineageDepths (map fst ?u) edges = Inr ?d"
  proof -
    have "list_all (\<lambda>e. fst (fst e) \<in> fst ` set ?d) edges"
      unfolding list_all_iff using known es by (metis image_eqI list.set_map)
    then show ?thesis by (simp only: shortestLineageDepths_def Let_def if_True)
  qed
  let ?e = "map (\<lambda>(k, e). (k, with_depth ?d e)) edges"
  have fin: "\<exists>w. finishLineageWalk units ?e out policy = Inr w"
  proof -
    have "\<not> (lu_Lifecycle v = UnitLifecycleSuperseded \<and> out i = 0 \<or> lu_Lifecycle v = UnitLifecycleActive \<and> 0 < out i)"
      if x: "(i, v) \<in> set units" and nc: "\<not> lineageHasCycle units ?e" for i v
    proof -
      have "lineage_ends_ok db ?R" using ends finish_cycle [OF maps] nc by blast
      moreover obtain u where u: "u \<in> set (an_units db)" "i = u_ID u" "lu_Lifecycle v = u_Lifecycle u"
        using maps x by (fastforce simp: walk_maps_def Let_def)
      moreover have "fst ` set units = reached db ?R" using maps by (simp add: walk_maps_def Let_def)
      moreover have "i \<in> fst ` set units" using x by force
      moreover have "0 < out i \<longleftrightarrow> i \<in> fst ` reached_graph db ?R"
        using maps out_degrees_pos [of edges out i] by (simp add: walk_maps_def Let_def)
      ultimately show ?thesis
        by (auto simp: lineage_ends_ok_def reached_graph_def image_iff Domain_iff)
    qed
    then have "\<not> list_ex (\<lambda>(i, u). \<not> lineageHasCycle units ?e \<and>
        (lu_Lifecycle u = UnitLifecycleSuperseded \<and> out i = 0 \<or> lu_Lifecycle u = UnitLifecycleActive \<and> 0 < out i)) units"
      unfolding list_ex_iff by blast
    then show ?thesis unfolding finishLineageWalk_def Let_def by simp
  qed
  then show ?thesis using b0 run dep by (auto simp: walkLineageUnits_def Let_def)
qed

section \<open>Where active units come from\<close>

lemma walk_active_source:
  assumes "walkLineageUnits db roots policy = Inr w" "v \<in> set (lw_ActiveUnits w)"
  shows "lu_Lifecycle v = UnitLifecycleActive" "lp_RequirePublic policy \<Longrightarrow> lu_PublicEligible v"
    and "v \<in> set roots \<or> (\<exists>x rootIDs. x \<in> set (loadLineageClosure db rootIDs) \<and> v = le_Successor x \<and>
      validateLineageSuccessor x policy = Inr ())"
proof -
  let ?u = "root_units roots []"
  let ?es = "loadLineageClosure db (map fst ?u)"
  obtain units edges out depths where run: "add_loaded policy ?es ?u [] (\<lambda>_. 0) = Inr (units, edges, out)"
    and fin: "finishLineageWalk units (map (\<lambda>(k, e). (k, with_depth depths e)) edges) out policy = Inr w"
    using assms(1) by (auto simp: walkLineageUnits_def Let_def split: sum.splits)
  have r: "distinct (map fst ?u)" "\<forall>x\<in>set ?u. \<exists>r\<in>set roots. x = (lu_ID r, r)"
    using root_units_props [of "[]" roots] by auto
  have g: "loaded_graph ?es ?u [] units edges" "\<forall>e\<in>set ?es. validateLineageSuccessor e policy = Inr ()"
    using add_loaded_graph [OF run r(1)] by (simp_all add: out_degrees_def)
  obtain i where i: "(i, v) \<in> set units" "lu_Lifecycle v = UnitLifecycleActive"
      "\<not> (lp_RequirePublic policy \<and> \<not> lu_PublicEligible v)"
    using assms(2) unfolding finish_Inr(2) [OF fin] sortedLineageUnits_def by auto
  show "lu_Lifecycle v = UnitLifecycleActive" "lp_RequirePublic policy \<Longrightarrow> lu_PublicEligible v" using i(2,3) by blast+
  have "(i, v) \<in> set ?u \<or> (\<exists>e\<in>set ?es. (i, v) = (lu_ID (le_Successor e), le_Successor e))"
    using g(1) i(1) unfolding loaded_graph_def by blast
  then show "v \<in> set roots \<or> (\<exists>x rootIDs. x \<in> set (loadLineageClosure db rootIDs) \<and> v = le_Successor x \<and>
      validateLineageSuccessor x policy = Inr ())"
  proof
    assume "(i, v) \<in> set ?u"
    with r(2) show ?thesis by force
  next
    assume "\<exists>e\<in>set ?es. (i, v) = (lu_ID (le_Successor e), le_Successor e)"
    with g(2) show ?thesis by blast
  qed
qed

lemma walk_exact:
  assumes ok: "lineage_store_ok db" "list_all (root_ok db policy) roots" and run: "walkLineageUnits db roots policy = Inr w"
  shows "lw_CycleDetected w \<longleftrightarrow> \<not> acyclic (reached_graph db (lu_ID ` set roots))"
    and "lu_ID ` set (lw_ActiveUnits w) = u_ID ` {u \<in> set (an_units db). u_ID u \<in> reached db (lu_ID ` set roots) \<and>
      u_Lifecycle u = UnitLifecycleActive \<and> shown policy u}"
proof -
  obtain units edges out depths where maps: "walk_maps db roots policy units edges out"
    and fin: "finishLineageWalk units (map (\<lambda>(k, e). (k, with_depth depths e)) edges) out policy = Inr w"
    using walk_run [OF run ok] by blast
  show "lw_CycleDetected w \<longleftrightarrow> \<not> acyclic (reached_graph db (lu_ID ` set roots))"
    unfolding finish_Inr(3) [OF fin] by (rule finish_cycle [OF maps])
  show "lu_ID ` set (lw_ActiveUnits w) = u_ID ` {u \<in> set (an_units db). u_ID u \<in> reached db (lu_ID ` set roots) \<and>
      u_Lifecycle u = UnitLifecycleActive \<and> shown policy u}"
    by (rule finish_active(1) [OF maps ok(1) fin])
qed

end
