(* ===== verification/Anchor_Public.thy ===== *)
theory Anchor_Public
  imports Anchor_Provider Lineage_Total
begin

text \<open>
  What the resolver may show. A predicate on records that every lookup of a repository keeps holds of
  every target of every answer; the records of the tables name public books, active units and open
  licenses only.
\<close>

section \<open>Records of a repository\<close>

definition all_records :: "(AnchorRecord \<Rightarrow> bool) \<Rightarrow> anchor_lookup_error + AnchorLookupResult \<Rightarrow> bool" where
  "all_records P res = (case res of Inl e \<Rightarrow> True | Inr l \<Rightarrow> list_all P (lk_ActiveRecords l))"

definition shows_only :: "(AnchorRecord \<Rightarrow> bool) \<Rightarrow> anchor_lookup_error + AnchorResolution \<Rightarrow> bool" where
  "shows_only P res = (case res of Inl e \<Rightarrow> True
     | Inr r \<Rightarrow> list_all (\<lambda>b. list_all (\<lambda>t. \<exists>c. P c \<and> targetFromRecord c = Inr t) (bd_ActiveTargets b)) (rs_Boundaries r))"

definition boundary_shows :: "(AnchorRecord \<Rightarrow> bool) \<Rightarrow> AnchorBoundary \<Rightarrow> bool" where
  "boundary_shows P b \<longleftrightarrow> list_all (\<lambda>t. \<exists>c. P c \<and> targetFromRecord c = Inr t) (bd_ActiveTargets b)"

lemma targets_from: "targets_of rs = Inr ts \<Longrightarrow> list_all P rs \<Longrightarrow> list_all (\<lambda>t. \<exists>c. P c \<and> targetFromRecord c = Inr t) ts"
  by (induction rs arbitrary: ts) (auto simp: res_bind_eq_Inr)

lemma boundary_from:
  "boundaryFromLookup role l = Inr b \<Longrightarrow> list_all P (lk_ActiveRecords l) \<Longrightarrow> boundary_shows P b"
  by (auto simp: boundaryFromLookup_def boundary_shows_def res_bind_eq_Inr targets_from split: if_splits)

lemma records_prepend [simp]: "lk_ActiveRecords (prependRedirects rs l) = lk_ActiveRecords l"
  by (simp add: prependRedirects_def)

lemma records_alias [simp]:
  "lk_ActiveRecords (prependRedirect r l) = lk_ActiveRecords l" "lk_ActiveRecords (alias_lookup from l) = lk_ActiveRecords l"
  by (simp_all add: prependRedirect_def alias_lookup_def split: option.split)

locale record_invariant =
  fixes R :: anchor_repo and P :: "AnchorRecord \<Rightarrow> bool"
  assumes surah: "all_records P (rp_ResolveQuranSurah R s)"
    and quran: "all_records P (rp_ResolveQuran R k)"
    and work: "all_records P (rp_ResolveWork R b)"
    and heading: "all_records P (rp_ResolveHeading R b h)"
    and page: "all_records P (rp_ResolvePage R b n)"
    and unit: "all_records P (rp_ResolveCanonicalUnit R a)"
    and locator: "rp_ResolveQuranLocator R = Some locate \<Longrightarrow> locate kind n = Inr (x, y) \<Longrightarrow>
      all_records P (Inr x) \<and> all_records P (Inr y)"
begin

lemma point_records: "resolvePoint R p = Inr l \<Longrightarrow> list_all P (lk_ActiveRecords l)"
  using surah [of "pt_surah p"] quran [of "legacy_ayah_key p"] work [of "pt_bookID p"]
    heading [of "pt_bookID p" "pt_headingID p"] unit [of "point_string p"]
  by (cases "pt_kind p") (auto simp: resolvePoint_def all_records_def)

lemma canonical_shows:
  assumes "resolveCanonical R f raw v = Inr r"
  shows "list_all (boundary_shows P) (rs_Boundaries r)"
proof (cases "val_end v")
  case None
  then show ?thesis using assms
    by (auto simp: resolveCanonical_def Let_def res_bind_eq_Inr dest!: point_records dest: boundary_from)
next
  case (Some e)
  then show ?thesis using assms
    by (auto simp: resolveCanonical_def Let_def res_bind_eq_Inr both_Inr dest!: point_records dest: boundary_from)
qed

lemma legacy_shows:
  "resolveLegacyAyah R raw p = Inr r \<Longrightarrow> list_all (boundary_shows P) (rs_Boundaries r)"
  "resolveLegacyTOC R raw b h = Inr r \<Longrightarrow> list_all (boundary_shows P) (rs_Boundaries r)"
  "resolveLegacyPage R bo po = Inr r \<Longrightarrow> list_all (boundary_shows P) (rs_Boundaries r)"
  "resolve_surah R s = Inr r \<Longrightarrow> list_all (boundary_shows P) (rs_Boundaries r)"
  "resolveLegacyQuranAggregate R kind n form = Inr r \<Longrightarrow> list_all (boundary_shows P) (rs_Boundaries r)"
proof -
  show "list_all (boundary_shows P) (rs_Boundaries r)" if "resolveLegacyAyah R raw p = Inr r"
    using that quran [of "legacy_ayah_key p"]
    by (auto simp: resolveLegacyAyah_def Let_def res_bind_eq_Inr all_records_def intro!: boundary_from)
  show "list_all (boundary_shows P) (rs_Boundaries r)" if "resolveLegacyTOC R raw b h = Inr r"
    using that heading [of b h]
    by (auto simp: resolveLegacyTOC_def Let_def res_bind_eq_Inr all_records_def intro!: boundary_from split: sum.splits)
  show "list_all (boundary_shows P) (rs_Boundaries r)" if "resolveLegacyPage R bo po = Inr r"
  proof -
    from that obtain b n l bd rs where "rp_ResolvePage R b n = Inr l"
        "boundaryFromLookup AnchorBoundaryPoint (prependRedirects rs l) = Inr bd" "rs_Boundaries r = [bd]"
      by (auto simp: resolveLegacyPage_def Let_def res_bind_eq_Inr split: option.splits if_splits)
    with page [of b n] show ?thesis by (simp add: all_records_def boundary_from)
  qed
  show "list_all (boundary_shows P) (rs_Boundaries r)" if "resolve_surah R s = Inr r"
    using that surah [of s]
    by (auto simp: resolve_surah_def Let_def res_bind_eq_Inr all_records_def intro!: boundary_from)
  show "list_all (boundary_shows P) (rs_Boundaries r)" if "resolveLegacyQuranAggregate R kind n form = Inr r"
  proof -
    from that obtain locate x y sb eb frm where "rp_ResolveQuranLocator R = Some locate" "locate kind n = Inr (x, y)"
        "boundaryFromLookup AnchorBoundaryStart (alias_lookup frm x) = Inr sb"
        "boundaryFromLookup AnchorBoundaryEnd (alias_lookup frm y) = Inr eb" "rs_Boundaries r = [sb, eb]"
      by (auto simp: resolveLegacyQuranAggregate_def Let_def res_bind_eq_Inr split: option.splits if_splits)
    with locator [of locate kind n x y] show ?thesis by (simp add: all_records_def boundary_from)
  qed
qed

lemma range_shows: "resolve_ayah_range R f s m n = Inr r \<Longrightarrow> list_all (boundary_shows P) (rs_Boundaries r)"
  by (auto simp: resolve_ayah_range_def res_bind_eq_Inr dest: canonical_shows split: sum.splits)

lemma locator_shows: "resolveQuranLocatorInput R f i = Inr r \<Longrightarrow> list_all (boundary_shows P) (rs_Boundaries r)"
  by (auto simp: resolveQuranLocatorInput_def Let_def dest: legacy_shows range_shows split: if_splits option.splits)

lemma input_shows: "ResolveInput R f i = Inr r \<Longrightarrow> list_all (boundary_shows P) (rs_Boundaries r)"
  by (auto simp: ResolveInput_def dest: locator_shows legacy_shows canonical_shows split: if_splits option.splits sum.splits)

end

section \<open>Public records\<close>

text \<open>Tables whose rows have their keys; every ayah has its surah.\<close>

definition anchor_store_ok :: "anchor_store \<Rightarrow> bool" where
  "anchor_store_ok db \<longleftrightarrow> lineage_store_ok db \<and> distinct (map qb_UnitID (an_bindings db)) \<and>
     distinct (map (\<lambda>a. (yr_SurahID a, yr_AyahNumber a)) (an_ayahs db)) \<and>
     list_all (\<lambda>a. surah_of db (yr_SurahID a) \<noteq> None) (an_ayahs db)"

definition kitab_unit_public :: "anchor_store \<Rightarrow> int \<Rightarrow> string \<Rightarrow> string option \<Rightarrow> bool" where
  "kitab_unit_public db b i anchor \<longleftrightarrow> (\<exists>u\<in>set (an_units db). u_ID u = i \<and> anchor = Some (u_Anchor u) \<and>
     u_Corpus u = UnitCorpusKitab \<and> u_BookID u = Some b \<and> u_Lifecycle u = UnitLifecycleActive \<and> license_open u)"

definition quran_unit_public :: "anchor_store \<Rightarrow> string \<Rightarrow> string \<Rightarrow> bool" where
  "quran_unit_public db key i \<longleftrightarrow> (\<exists>u\<in>set (an_units db). u_ID u = i \<and> u_Lifecycle u = UnitLifecycleActive \<and>
     effective_license db u = Some LicensePermitted \<and>
     (\<exists>b a s. quran_unit_rows db u = Some (b, a, s) \<and> row_key a = key \<and> sr_StaleAt s = None \<and>
       role_current db u b a = Some True))"

text \<open>
  A book is public and its unit active with an open license; a unit of the Quran is active,
  permitted, and still says what its source says.
\<close>

definition record_public :: "anchor_store \<Rightarrow> AnchorRecord \<Rightarrow> bool" where
  "record_public db r \<longleftrightarrow>
     (if ar_Corpus r = UnitCorpusKitab
      then \<exists>b. ar_BookID r = Some b \<and> book_public db b \<and>
        (\<forall>i. ar_UnitID r = Some i \<longrightarrow> kitab_unit_public db b i (ar_CanonicalAnchor r))
      else ar_Corpus r = UnitCorpusQuran \<and>
        (\<forall>i. ar_UnitID r = Some i \<or> ar_PrimaryUnitID r = Some i \<longrightarrow>
          (\<exists>key. ar_AyahKey r = Some key \<and> quran_unit_public db key i)))"

lemma corpora_apart [simp]: "UnitCorpusQuran \<noteq> UnitCorpusKitab" "UnitCorpusKitab \<noteq> UnitCorpusQuran"
  by (simp_all add: UnitCorpusQuran_def UnitCorpusKitab_def)

lemma book_records_public:
  "u \<in> set (readable_units db b) \<Longrightarrow> book_public db b \<Longrightarrow> record_public db (unit_record b u)"
  by (auto simp: readable_units_def book_units_def record_public_def unit_record_def compactUnitRecord_def kitab_unit_public_def)

lemma walk_records_public:
  assumes walk: "walkLineageUnits db roots (publicLineagePolicy b) = Inr w" and v: "v \<in> set (lw_ActiveUnits w)"
    and roots: "\<forall>r\<in>set roots. \<exists>u\<in>set (an_units db). r = scanLineageUnit db u \<and> u_Corpus u = UnitCorpusKitab \<and> u_BookID u = Some b"
    and pub: "roots \<noteq> [] \<Longrightarrow> book_public db b"
  shows "record_public db (lineageUnitRecord v)"
proof -
  have act: "lu_Lifecycle v = UnitLifecycleActive" "lu_PublicEligible v"
    using walk_active_source(1,2) [OF walk v] by (simp_all add: publicLineagePolicy_def)
  consider "v \<in> set roots"
    | x rootIDs where "x \<in> set (loadLineageClosure db rootIDs)" "v = le_Successor x" "validateLineageSuccessor x (publicLineagePolicy b) = Inr ()"
    using walk_active_source(3) [OF walk v] by blast
  then show ?thesis
  proof cases
    case 1
    then obtain u where "u \<in> set (an_units db)" "v = scanLineageUnit db u" "u_Corpus u = UnitCorpusKitab" "u_BookID u = Some b"
      using roots by blast
    moreover have "book_public db b" by (rule pub) (use 1 in auto)
    ultimately show ?thesis using act
      by (auto simp: record_public_def lineageUnitRecord_def compactUnitRecord_def scanLineageUnit_def scanned_unit_def
          kitab_unit_public_def)
  next
    case (2 x ids)
    then obtain e where "x \<in> set (loaded_edge db e)" unfolding loaded_closure by blast
    then obtain s where s: "unit_by_id db (e_SuccessorID e) = Some s" "le_Successor x = scanned_unit db s"
        "le_PublicVisible x = (case u_BookID s of None \<Rightarrow> False | Some b \<Rightarrow> book_public db b)"
      by (cases "unit_by_id db (e_SuccessorID e)"; cases "unit_by_id db (e_PredecessorID e)") (auto simp: loaded_edge_def)
    have "s \<in> set (an_units db)" using s(1) by (auto simp: unit_by_id_def find_Some_iff)
    moreover have "u_Corpus s = UnitCorpusKitab" "u_BookID s = Some b" "book_public db b"
      using 2(3) s(2,3) by (auto simp: validateLineageSuccessor_def publicLineagePolicy_def scanned_unit_def split: if_splits option.splits)
    ultimately show ?thesis using act 2(2) s(2)
      by (auto simp: record_public_def lineageUnitRecord_def compactUnitRecord_def scanned_unit_def kitab_unit_public_def)
  qed
qed

lemma historical_records_public:
  assumes "resolveHistoricalUnitRoots db b rows = Inr w" "set rows \<subseteq> set (book_units db b)" "v \<in> set (lw_ActiveUnits w)"
  shows "record_public db (lineageUnitRecord v)"
  using assms(1) unfolding resolveHistoricalUnitRoots_def
  by (rule walk_records_public [OF _ assms(3)]) (use assms(2) in \<open>auto simp: book_units_def split: if_splits\<close>)

lemma find_in: "find P xs = Some x \<Longrightarrow> x \<in> set xs \<and> P x"
  by (auto simp: find_Some_iff)

lemma find_key:
  assumes "distinct (map k xs)" "x \<in> set xs"
  shows "find (\<lambda>y. k y = k x) xs = Some x"
  using assms by (induction xs) (auto simp: image_iff)

lemma ayah_of_row: "ayah_of db s n = Some a \<Longrightarrow> a \<in> set (an_ayahs db) \<and> yr_SurahID a = s \<and> yr_AyahNumber a = n"
  by (auto simp: ayah_of_def dest: find_in)

lemma unit_by_id_in: "unit_by_id db i = Some u \<Longrightarrow> u \<in> set (an_units db) \<and> u_ID u = i"
  by (auto simp: unit_by_id_def dest: find_in)

lemma quran_active_public: "quran_active_record db s n i = Some r \<Longrightarrow> record_public db r"
proof -
  assume "quran_active_record db s n i = Some r"
  then obtain u b a su where u: "unit_by_id db i = Some u" "quran_unit_rows db u = Some (b, a, su)" "sr_StaleAt su = None"
      "effective_license db u = Some LicensePermitted" "u_Lifecycle u = UnitLifecycleActive" "role_current db u b a = Some True"
    and r: "r = quranUnitAnchorRecord (u_ID u) (u_Anchor u) (qb_SurahID b) (qb_AyahNumber b) (u_PageID u) (u_UpdatedAt u)"
    by (auto simp: quran_active_record_def split: option.splits if_splits)
  have "ayah_of db (qb_SurahID b) (qb_AyahNumber b) = Some a"
    using u(2) by (auto simp: quran_unit_rows_def split: option.splits)
  then have "row_key a = show_int (qb_SurahID b) @ '':'' @ show_int (qb_AyahNumber b)"
    using ayah_of_row [of db] by (auto simp: row_key_def)
  then have "quran_unit_public db (show_int (qb_SurahID b) @ '':'' @ show_int (qb_AyahNumber b)) (u_ID u)"
    unfolding quran_unit_public_def using u unit_by_id_in [OF u(1)] by blast
  then show ?thesis by (simp add: record_public_def r quranUnitAnchorRecord_def)
qed

lemma primary_public:
  assumes ok: "anchor_store_ok db" and a: "a \<in> set (an_ayahs db)"
    and b: "find (\<lambda>b. qb_SurahID b = yr_SurahID a \<and> qb_AyahNumber b = yr_AyahNumber a \<and> qb_Role b = QuranUnitRolePrimaryText)
      (an_bindings db) = Some b" and u: "primary_unit db a b = Some u"
  shows "quran_unit_public db (row_key a) (u_ID u)"
proof -
  have bb: "b \<in> set (an_bindings db)" "qb_SurahID b = yr_SurahID a" "qb_AyahNumber b = yr_AyahNumber a"
      "qb_Role b = QuranUnitRolePrimaryText" using find_in [OF b] by simp_all
  have uu: "unit_by_id db (qb_UnitID b) = Some u" "u_Lifecycle u = UnitLifecycleActive"
      "case surah_of db (yr_SurahID a) of None \<Rightarrow> True | Some s \<Rightarrow> sr_StaleAt s = None"
      "Some (u_Text u) = yr_Text a" "qb_SourceUpdatedAt b = yr_UpdatedAt a" "effective_license db u = Some LicensePermitted"
    using u by (auto simp: primary_unit_def split: option.splits if_splits)
  have id: "u \<in> set (an_units db)" "u_ID u = qb_UnitID b" using unit_by_id_in [OF uu(1)] by simp_all
  have "binding_of db (qb_UnitID b) = Some b"
    using find_key [of qb_UnitID "an_bindings db" b] ok bb(1) by (simp add: binding_of_def anchor_store_ok_def)
  moreover have "ayah_of db (yr_SurahID a) (yr_AyahNumber a) = Some a"
    using find_key [of "\<lambda>a. (yr_SurahID a, yr_AyahNumber a)" "an_ayahs db" a] ok a by (simp add: ayah_of_def anchor_store_ok_def)
  moreover obtain s where s: "surah_of db (yr_SurahID a) = Some s" using ok a by (auto simp: anchor_store_ok_def list_all_iff)
  ultimately have "quran_unit_rows db u = Some (b, a, s)" using bb id by (simp add: quran_unit_rows_def)
  moreover have "role_current db u b a = Some True" using bb(4) uu(5) uu(4) [symmetric] by (simp add: role_current_def Let_def)
  moreover have "sr_StaleAt s = None" using uu(3) s by simp
  ultimately show ?thesis unfolding quran_unit_public_def using id(1) uu(2,6) by blast
qed

lemma source_records_public:
  "book_public db b \<Longrightarrow> record_public db ((source_record t UnitCorpusKitab c x)\<lparr>ar_BookID := Some b\<rparr>)"
  "book_public db b \<Longrightarrow> record_public db ((source_record t UnitCorpusKitab c x)
     \<lparr>ar_BookID := Some b, ar_HeadingID := h, ar_PageID := p\<rparr>)"
  "book_public db b \<Longrightarrow> record_public db ((source_record t UnitCorpusKitab c x)\<lparr>ar_BookID := Some b, ar_PageID := p\<rparr>)"
  "record_public db ((source_record t UnitCorpusQuran c x)\<lparr>ar_SurahID := s\<rparr>)"
  by (simp_all add: record_public_def source_record_def)

lemma all_records_simps [simp]:
  "all_records P (Inl e)" "all_records P (Inr l) = list_all P (lk_ActiveRecords l)"
  "lk_ActiveRecords (active_lookup c r) = [r]"
  by (simp_all add: all_records_def active_lookup_def)

lemma book_public_Some: "public_book db b = Some x \<Longrightarrow> book_public db b"
  by (simp add: book_public_def)

lemma tombstone_public:
  "\<forall>w. res = Inr w \<longrightarrow> (\<forall>v\<in>set (lw_ActiveUnits w). P (lineageUnitRecord v)) \<Longrightarrow> all_records P (tombstone_lookup c res)"
  by (cases res) (auto simp: tombstone_lookup_def list_all_iff)

lemma heading_public: "all_records (record_public db) (ResolveHeading db b h)"
proof -
  have hist: "all_records (record_public db) (tombstone_lookup c (resolveHistoricalHeadingUnits db b h))" for c
    unfolding resolveHistoricalHeadingUnits_def
    by (intro tombstone_public allI impI ballI) (erule historical_records_public, auto)
  show ?thesis
    by (auto simp: ResolveHeading_def Let_def hist list_all_iff source_records_public book_public_Some
        intro!: book_records_public split: option.split)
qed

lemma page_public: "all_records (record_public db) (ResolvePage db b n)"
proof -
  have hist: "all_records (record_public db) (tombstone_lookup c (resolveHistoricalPageUnits db b n))" for c
    unfolding resolveHistoricalPageUnits_def
    by (intro tombstone_public allI impI ballI) (erule historical_records_public, auto)
  show ?thesis
    by (auto simp: ResolvePage_def Let_def hist list_all_iff source_records_public book_public_Some
        intro!: book_records_public split: option.split)
qed

lemma unit_public_records: "all_records (record_public db) (ResolveCanonicalUnit db a)"
proof (cases "has_prefix a ''quran/''")
  case True
  then show ?thesis unfolding ResolveCanonicalUnit_def resolveCanonicalQuranUnit_def Let_def
    by (auto simp: list_all_iff List.map_filter_def quran_active_public split: option.split sum.split)
next
  case False
  show ?thesis
  proof (cases "kitab_root db a")
    case None
    with False show ?thesis by (simp add: ResolveCanonicalUnit_def)
  next
    case (Some u)
    then obtain b where u: "u \<in> set (an_units db)" "u_Corpus u = UnitCorpusKitab" "u_BookID u = Some b" "book_public db b"
      by (auto simp: kitab_root_def dest!: find_in split: option.splits if_splits)
    have b: "lu_BookID (scanLineageUnit db u) = b" using u(3) by (simp add: scanLineageUnit_def scanned_unit_def)
    have "record_public db (lineageUnitRecord v)"
      if "walkLineageUnits db [scanLineageUnit db u] (publicLineagePolicy b) = Inr w" "v \<in> set (lw_ActiveUnits w)" for w v
      using that by (rule walk_records_public) (use u in auto)
    with False Some show ?thesis
      by (auto simp: ResolveCanonicalUnit_def Let_def b list_all_iff split: sum.split)
  qed
qed

lemma quran_lookup_public: "anchor_store_ok db \<Longrightarrow> all_records (record_public db) (ResolveQuran db k)"
  by (auto simp: ResolveQuran_def Let_def record_public_def source_record_def bind_eq_Some_conv
      dest!: find_in [of _ "an_ayahs db"] intro: primary_public split: option.split)

lemma locator_lookup_public:
  "anchor_store_ok db \<Longrightarrow> ResolveQuranLocator db kind n = Inr (x, y) \<Longrightarrow>
     all_records (record_public db) (Inr x) \<and> all_records (record_public db) (Inr y)"
  using quran_lookup_public [of db]
  by (auto simp: ResolveQuranLocator_def all_records_def split: sum.splits option.splits prod.splits) (metis sum.simps(6))+

lemma postgres_public: "anchor_store_ok db \<Longrightarrow> record_invariant (postgres_repo db) (record_public db)"
proof unfold_locales
  assume ok: "anchor_store_ok db"
  show "all_records (record_public db) (rp_ResolveQuranSurah (postgres_repo db) s)" for s
    by (simp add: postgres_repo_def ResolveQuranSurah_def Let_def source_records_public split: option.split)
  show "all_records (record_public db) (rp_ResolveWork (postgres_repo db) b)" for b
    by (auto simp: postgres_repo_def ResolveWork_def Let_def source_records_public book_public_Some split: option.split)
  show "all_records (record_public db) (rp_ResolveQuran (postgres_repo db) k)" for k
    using quran_lookup_public [OF ok] by (simp add: postgres_repo_def)
  show "all_records (record_public db) (rp_ResolveHeading (postgres_repo db) b h)" for b h
    using heading_public by (simp add: postgres_repo_def)
  show "all_records (record_public db) (rp_ResolvePage (postgres_repo db) b n)" for b n
    using page_public by (simp add: postgres_repo_def)
  show "all_records (record_public db) (rp_ResolveCanonicalUnit (postgres_repo db) a)" for a
    using unit_public_records by (simp add: postgres_repo_def)
  show "all_records (record_public db) (Inr x) \<and> all_records (record_public db) (Inr y)"
    if "rp_ResolveQuranLocator (postgres_repo db) = Some locate" "locate kind n = Inr (x, y)" for locate kind n x y
    using that locator_lookup_public [OF ok] by (simp add: postgres_repo_def)
qed

interpretation public_pg: record_invariant "postgres_repo db" "\<lambda>c. anchor_store_ok db \<longrightarrow> record_public db c" for db
proof (cases "anchor_store_ok db")
  case True
  then show "record_invariant (postgres_repo db) (\<lambda>c. anchor_store_ok db \<longrightarrow> record_public db c)"
    using postgres_public [OF True] by simp
next
  case False
  then show "record_invariant (postgres_repo db) (\<lambda>c. anchor_store_ok db \<longrightarrow> record_public db c)"
    by unfold_locales (simp_all add: all_records_def list_all_iff split: sum.split)
qed

end
