(* ===== verification/Anchor_Props.thy ===== *)
theory Anchor_Props
  imports Anchor_Public
begin

text \<open>
  The properties of the anchor resolver on the tables of \<open>Anchor_Store\<close>.
\<close>

section \<open>The repository keeps its contract\<close>

lemma walk_error: "walkLineageUnits db roots policy = Inl e \<Longrightarrow> store_error e"
proof -
  have add: "add_loaded pol es us ed out = Inl e \<Longrightarrow> store_error e" for pol es us ed out
    by (induction pol es us ed out rule: add_loaded.induct)
      (auto simp: validateLineageSuccessor_def enforceLineageBudget_def store_error_def Let_def split: sum.splits if_splits)
  assume "walkLineageUnits db roots policy = Inl e"
  then show ?thesis
    by (auto simp: walkLineageUnits_def Let_def enforceLineageBudget_def shortestLineageDepths_def finishLineageWalk_def
        store_error_def split: sum.splits if_splits dest!: add)
qed

lemma compact_navigable [simp]: "navigable (compactUnitRecord i a b h p t)"
  by (auto simp: navigable_def navigationURLForRecord_def compactUnitRecord_def anchor_targets UnitCorpusQuran_def
      UnitCorpusKitab_def split: option.splits)

lemma lineage_navigable [simp]: "navigable (lineageUnitRecord u)"
  by (simp add: lineageUnitRecord_def)

lemma tombstone_ok: "lookup_ok (tombstone_lookup c (walkLineageUnits db roots policy))"
  by (cases "walkLineageUnits db roots policy")
    (auto simp: lookup_ok_def tombstone_lookup_def list_all_iff dest: walk_error)

lemma active_records_navigable: "quran_active_record db s n i = Some r \<Longrightarrow> navigable r"
  by (auto simp: quran_active_record_def quranUnitAnchorRecord_def navigable_def navigationURLForRecord_def anchor_targets
      split: option.splits if_splits)

lemma not_found_ok [simp]: "lookup_ok (Inl ErrAnchorNotFound)"
  by (simp add: lookup_ok_def store_error_def)

lemma source_navigable [simp]:
  "navigable ((source_record AnchorTargetQuranSurah c a t)\<lparr>ar_SurahID := Some s\<rparr>)"
  "navigable ((source_record AnchorTargetQuranAyah c a t)\<lparr>ar_AyahKey := Some k, ar_SurahID := Some s,
     ar_PrimaryUnitID := x, ar_PrimaryUnitAnchor := y\<rparr>)"
  "navigable ((source_record AnchorTargetBook c a t)\<lparr>ar_BookID := Some b\<rparr>)"
  "navigable ((source_record AnchorTargetBookHeading c a t)\<lparr>ar_BookID := Some b, ar_HeadingID := Some h, ar_PageID := q\<rparr>)"
  "navigable ((source_record AnchorTargetBookPage c a t)\<lparr>ar_BookID := Some b, ar_PageID := Some n\<rparr>)"
  by (simp_all add: navigable_def navigationURLForRecord_def source_record_def anchor_targets)

lemma active_lookup_ok [simp]: "lookup_ok (Inr (active_lookup c r)) = navigable r"
  by (simp add: lookup_ok_def active_lookup_def)

lemma unit_navigable [simp]: "navigable (unit_record b u)"
  by (simp add: unit_record_def)

lemma point_lookups_ok: "lookup_ok (ResolveQuranSurah db s)" "lookup_ok (ResolveQuran db k)" "lookup_ok (ResolveWork db b)"
  by (auto simp: ResolveQuranSurah_def ResolveQuran_def ResolveWork_def Let_def split: option.split)

lemma place_lookups_ok: "lookup_ok (ResolveHeading db b h)" "lookup_ok (ResolvePage db b n)"
  by (auto simp: ResolveHeading_def ResolvePage_def Let_def resolveHistoricalHeadingUnits_def resolveHistoricalPageUnits_def
      resolveHistoricalUnitRoots_def tombstone_ok unit_record_def split: option.split)
    (auto simp: lookup_ok_def list_all_iff)

lemma walk_records_ok:
  assumes "lookup_ok (Inr l)"
  shows "lookup_ok (case walkLineageUnits db roots policy of Inl err \<Rightarrow> Inl err | Inr w \<Rightarrow> Inr l)"
  using assms by (auto simp: lookup_ok_def dest: walk_error split: sum.split)

lemma unit_lookup_ok: "lookup_ok (ResolveCanonicalUnit db a)"
proof -
  have "lookup_ok (resolveCanonicalQuranUnit db a)"
    unfolding resolveCanonicalQuranUnit_def Let_def
    by (auto simp: lookup_ok_def store_error_def list_all_iff List.map_filter_def active_records_navigable
        dest: walk_error split: option.splits sum.splits)
  moreover have "lookup_ok (case kitab_root db a of None \<Rightarrow> Inl ErrAnchorNotFound
      | Some u \<Rightarrow> let root = scanLineageUnit db u in
          if lu_Lifecycle root = UnitLifecycleActive \<and> \<not> lu_PublicEligible root then Inl ErrAnchorNotFound
          else (case walkLineageUnits db [root] (publicLineagePolicy (lu_BookID root)) of
              Inl err \<Rightarrow> Inl err
            | Inr w \<Rightarrow> Inr \<lparr>lk_CanonicalAnchor = Some (lu_Anchor root), lk_Status = lu_Lifecycle root,
                lk_ActiveRecords = map lineageUnitRecord (lw_ActiveUnits w), lk_RedirectChain = lw_Redirects w,
                lk_CycleDetected = lw_CycleDetected w\<rparr>))"
    by (auto simp: Let_def lookup_ok_def store_error_def list_all_iff dest: walk_error split: option.splits sum.splits)
  ultimately show ?thesis unfolding ResolveCanonicalUnit_def by simp
qed

lemma locator_lookup_ok:
  "kind \<in> {''juz'', ''hizb'', ''page''} \<Longrightarrow>
     (case ResolveQuranLocator db kind n of Inl e \<Rightarrow> store_error e | Inr (x, y) \<Rightarrow> lookup_ok (Inr x) \<and> lookup_ok (Inr y))"
  using point_lookups_ok(2) [of db]
  by (fastforce simp: ResolveQuranLocator_def locator_column_def store_error_def lookup_ok_def split: sum.splits option.splits if_splits)

lemma canonical_unit_named: "ResolveCanonicalUnit db a = Inr l \<Longrightarrow> lk_CanonicalAnchor l = Some a"
  by (auto simp: ResolveCanonicalUnit_def resolveCanonicalQuranUnit_def quran_root_def kitab_root_def
      Let_def scanLineageUnit_def scanned_unit_def find_Some_iff split: option.splits sum.splits if_splits)

lemma heading_named:
  "ResolveHeading db b h = Inr l \<Longrightarrow> lk_CanonicalAnchor l = Some (''kitab/'' @ show_int b @ ''/h/'' @ show_int h)"
  by (auto simp: ResolveHeading_def tombstone_lookup_def Let_def split: option.splits sum.splits if_splits)

lemma source_lookups_named:
  "ResolveQuranSurah db s = Inr l \<Longrightarrow> lk_CanonicalAnchor l = Some (''quran/'' @ show_int s)"
  "ResolveQuran db k = Inr l \<Longrightarrow> lk_CanonicalAnchor l = Some (''quran/'' @ k)"
  "ResolveWork db b = Inr l \<Longrightarrow> lk_CanonicalAnchor l = Some (''kitab/'' @ show_int b)"
  by (auto simp: ResolveQuranSurah_def ResolveQuran_def ResolveWork_def active_lookup_def Let_def find_Some_iff
      split: option.splits)

lemma point_anchor_named:
  assumes "point_built p"
  shows "names_anchor (resolvePoint (postgres_repo db) p) (point_string p)"
proof -
  have "lk_CanonicalAnchor l = Some (point_string p)" if "resolvePoint (postgres_repo db) p = Inr l" for l
    using that unfolding resolvePoint_def postgres_repo_def
    by (cases "pt_kind p")
      (auto dest: canonical_unit_named heading_named source_lookups_named simp: point_string_def legacy_ayah_key_def)
  then show ?thesis by (simp add: names_anchor_def split: sum.split)
qed

interpretation pg: full_anchor_provider "postgres_repo db" for db
proof unfold_locales
  fix locate kind n
  assume "rp_ResolveQuranLocator (postgres_repo db) = Some locate" "kind \<in> {''juz'', ''hizb'', ''page''}"
  then show "case locate kind n of Inl e \<Rightarrow> store_error e | Inr (x, y) \<Rightarrow> lookup_ok (Inr x) \<and> lookup_ok (Inr y)"
    using locator_lookup_ok by (auto simp: postgres_repo_def)
qed (simp_all add: postgres_repo_def point_lookups_ok place_lookups_ok unit_lookup_ok,
    use point_anchor_named in \<open>simp add: postgres_repo_def\<close>)

section \<open>What is refused\<close>


section \<open>Legacy forms\<close>

definition with_alias :: "AnchorRequested \<Rightarrow> AnchorRedirect \<Rightarrow> AnchorResolution \<Rightarrow> AnchorResolution" where
  "with_alias req alias r = r\<lparr>rs_Requested := req, rs_Boundaries := map (\<lambda>b. b\<lparr>bd_RedirectChain :=
     alias # map (\<lambda>d. d\<lparr>rd_Depth := rd_Depth d + 1\<rparr>) (bd_RedirectChain b)\<rparr>) (rs_Boundaries r)\<rparr>"

lemma boundary_alias:
  "boundaryFromLookup role (prependRedirect a l) = map_sum id (\<lambda>b. b\<lparr>bd_RedirectChain :=
     a # map (\<lambda>d. d\<lparr>rd_Depth := rd_Depth d + 1\<rparr>) (bd_RedirectChain b)\<rparr>) (boundaryFromLookup role l)"
  by (cases "targets_of (lk_ActiveRecords l)") (simp_all add: boundaryFromLookup_def prependRedirect_def prependRedirects_def)

lemma Resolve_point:
  assumes "point_built p"
  shows "Resolve R f (point_string p) None None = resolveCanonical R f (point_string p) \<lparr>val_start = p, val_end = None\<rparr>"
proof -
  have "Parse (point_string p) = Inr \<lparr>val_start = p, val_end = None\<rparr>"
    using assms by (simp add: Parse_point FromPoint_def point_built_valid)
  moreover have "point_string p \<noteq> ''''" using point_string_head [OF assms] by auto
  ultimately show ?thesis by (simp add: Resolve_def ResolveInput_def hasQuranLocator_def)
qed

lemma canonical_point:
  "resolveCanonical R f raw \<lparr>val_start = p, val_end = None\<rparr> =
     res_bind (resolvePoint R p) (\<lambda>l. res_bind (boundaryFromLookup AnchorBoundaryPoint l) (\<lambda>b.
       Inr \<lparr>rs_Requested = requested AnchorFormCanonical raw, rs_CanonicalAnchor = Some (point_string p), rs_Boundaries = [b]\<rparr>))"
  by (simp add: resolveCanonical_def value_string_def)

lemma alias_bind:
  "res_bind (boundaryFromLookup role (prependRedirect a l)) k = res_bind (boundaryFromLookup role l) (\<lambda>b. k (b\<lparr>bd_RedirectChain :=
     a # map (\<lambda>d. d\<lparr>rd_Depth := rd_Depth d + 1\<rparr>) (bd_RedirectChain b)\<rparr>))"
  unfolding boundary_alias by (cases "boundaryFromLookup role l") simp_all

lemma map_bind: "map_sum id g (res_bind m f) = res_bind m (\<lambda>x. map_sum id g (f x))"
  by (cases m) simp_all

lemma ayah_key_alias:
  assumes "ayah_built p"
  shows "Resolve R f (legacy_ayah_key p) None None = map_sum id
    (with_alias (requested AnchorFormLegacyAyahKey (legacy_ayah_key p)) (alias_redirect (legacy_ayah_key p) (point_string p)))
    (Resolve R f (point_string p) None None)"
proof -
  have p: "point_built p" "pt_kind p = QuranAyah" using assms by (simp_all add: ayah_built_def)
  have "\<exists>e. Parse (legacy_ayah_key p) = Inl e"
  proof (cases "Parse (legacy_ayah_key p)")
    case (Inr v)
    then obtain q u where "point_built q" "legacy_ayah_key p = point_string q @ u" using value_string_head Parse_iff by metis
    then obtain w where "legacy_ayah_key p = ''quran/'' @ w \<or> legacy_ayah_key p = ''kitab/'' @ w" using point_string_head by fastforce
    then have "CHR ''/'' \<in> set (legacy_ayah_key p)" by auto
    moreover have "positiveInteger (pt_surah p)" "positiveInteger (pt_ayah p)"
      using assms by (auto simp: ayah_built_iff NewQuranAyah_def split: if_splits)
    ultimately show ?thesis by (simp add: legacy_ayah_key_def)
  qed simp
  moreover have "ParseLegacyAyahKey (legacy_ayah_key p) = Inr p" using assms by (simp add: ParseLegacyAyahKey_iff)
  moreover have "legacy_ayah_key p \<noteq> ''''" by (simp add: legacy_ayah_key_def)
  ultimately have "Resolve R f (legacy_ayah_key p) None None = resolveLegacyAyah R (legacy_ayah_key p) p"
    by (auto simp: Resolve_def ResolveInput_def hasQuranLocator_def)
  then show ?thesis unfolding Resolve_point [OF p(1)] canonical_point resolveLegacyAyah_def Let_def map_bind
    by (simp add: alias_bind resolvePoint_def p(2) with_alias_def)
qed

lemma toc_alias:
  assumes "NewKitabHeading b h = Inr p"
  shows "Resolve R f (''toc-'' @ show_int h) (Some b) None = map_sum id
    (with_alias ((requested AnchorFormLegacyTOC (''toc-'' @ show_int h))\<lparr>rq_BookID := Some b\<rparr>)
      (alias_redirect (''toc-'' @ show_int h) (point_string p)))
    (Resolve R f (point_string p) None None)"
proof -
  have p: "point_built p" "pt_kind p = KitabHeading" "pt_bookID p = b" "pt_headingID p = h" "positiveInteger h"
    using assms by (auto simp: NewKitabHeading_def split: if_splits intro: point_built.heading)
  obtain e where "Parse (''toc-'' @ show_int h) = Inl e" using toc_not_canonical by blast
  moreover obtain e' where "ParseLegacyAyahKey (''toc-'' @ show_int h) = Inl e'" using toc_not_ayah [OF p(5)] by blast
  moreover have "ParseLegacyTOC (''toc-'' @ show_int h) = Inr h" using p(5) by (simp add: ParseLegacyTOC_iff)
  ultimately have "Resolve R f (''toc-'' @ show_int h) (Some b) None = resolveLegacyTOC R (''toc-'' @ show_int h) b h"
    by (simp add: Resolve_def ResolveInput_def hasQuranLocator_def)
  then show ?thesis unfolding Resolve_point [OF p(1)] canonical_point resolveLegacyTOC_def Let_def map_bind assms sum.case
    by (simp add: alias_bind resolvePoint_def p with_alias_def)
qed

lemma surah_alias:
  assumes "NewQuranSurah s = Inr p"
  shows "ResolveInput R f (blank_input\<lparr>in_SurahID := Some s\<rparr>) = map_sum id
    (with_alias ((requested AnchorFormLegacyQuranSurah '''')\<lparr>rq_SurahID := Some s\<rparr>)
      (alias_redirect (''surah_id:'' @ show_int s) (point_string p)))
    (Resolve R f (point_string p) None None)"
proof -
  have p: "point_built p" "pt_kind p = QuranSurah" "pt_surah p = s" "positiveInteger s"
    using assms by (auto simp: NewQuranSurah_def split: if_splits intro: point_built.surah)
  have "ResolveInput R f (blank_input\<lparr>in_SurahID := Some s\<rparr>) = resolve_surah R s"
    using p(4) by (simp add: ResolveInput_def hasQuranLocator_def blank_input_def resolveQuranLocatorInput_def positiveInteger_def)
  moreover have "point_string p = ''quran/'' @ show_int s" using p by (simp add: point_string_def)
  ultimately show ?thesis unfolding Resolve_point [OF p(1)] canonical_point resolve_surah_def Let_def map_bind
    by (simp add: alias_bind resolvePoint_def p with_alias_def)
qed

text \<open>
  A grandfathered locator answers like the canonical Anchor it stands for, over any repository:
  an ayah key like its ayah, a heading alias with its book like the heading, a surah number like the
  surah. The answer differs only in the echoed request and in one redirect from the alias to the
  canonical Anchor that is put before the chain of every boundary.
\<close>
theorem legacy_forms_agree:
  assumes "NewQuranAyah s n = Inr p" "NewKitabHeading b h = Inr q" "NewQuranSurah s = Inr t"
  shows "Resolve R f (legacy_ayah_key p) None None = map_sum id
      (with_alias (requested AnchorFormLegacyAyahKey (legacy_ayah_key p)) (alias_redirect (legacy_ayah_key p) (point_string p)))
      (Resolve R f (point_string p) None None) \<and>
    Resolve R f (''toc-'' @ show_int h) (Some b) None = map_sum id
      (with_alias ((requested AnchorFormLegacyTOC (''toc-'' @ show_int h))\<lparr>rq_BookID := Some b\<rparr>)
        (alias_redirect (''toc-'' @ show_int h) (point_string q)))
      (Resolve R f (point_string q) None None) \<and>
    ResolveInput R f (blank_input\<lparr>in_SurahID := Some s\<rparr>) = map_sum id
      (with_alias ((requested AnchorFormLegacyQuranSurah '''')\<lparr>rq_SurahID := Some s\<rparr>)
        (alias_redirect (''surah_id:'' @ show_int s) (point_string t)))
      (Resolve R f (point_string t) None None)"
  using ayah_key_alias [of p R f] toc_alias [OF assms(2), of R f] surah_alias [OF assms(3), of R f] assms(1)
  by (auto simp: ayah_built_iff)

section \<open>Retired units of the Quran\<close>

text \<open>
  A comparison with the column of a missing row is null, which the scan into a boolean refuses. A
  unit whose translation row is gone (a foreign key keeps only its source) is answered with a failed
  read, also when it is retired and its Anchor ought to resolve.
\<close>

lemma missing_source_unreadable:
  assumes "quran_root db a = Some (u, b, y, s)" "has_prefix a ''quran/''" "sr_StaleAt s = None"
    and "qb_Role b \<in> {QuranUnitRoleTranslation, QuranUnitRoleFootnote}"
    and "ayah_text (an_translations db) (qb_TranslationSourceID b) (qb_SurahID b) (qb_AyahNumber b) = None"
  shows "ResolveCanonicalUnit db a = Inl ErrAnchorRead"
proof -
  have "role_current db u b y = None" using assms(4,5)
    by (auto simp: role_current_def Let_def sql_eq_def sql_and_def quran_roles)
  with assms(1,2,3) show ?thesis
    by (auto simp: ResolveCanonicalUnit_def resolveCanonicalQuranUnit_def sql_and_def split: option.split)
qed

section \<open>What is shown\<close>

definition target_public :: "anchor_store \<Rightarrow> AnchorTarget \<Rightarrow> bool" where
  "target_public db t \<longleftrightarrow>
     (if tg_Corpus t = UnitCorpusKitab
      then \<exists>b. tg_BookID t = Some b \<and> book_public db b \<and>
        (\<forall>i. tg_UnitID t = Some i \<longrightarrow> kitab_unit_public db b i (tg_CanonicalAnchor t))
      else tg_Corpus t = UnitCorpusQuran \<and>
        (\<forall>i. tg_UnitID t = Some i \<or> tg_PrimaryUnitID t = Some i \<longrightarrow>
          (\<exists>key. tg_AyahKey t = Some key \<and> quran_unit_public db key i)))"

lemma target_of_record: "targetFromRecord c = Inr t \<Longrightarrow> record_public db c \<Longrightarrow> target_public db t"
  by (auto simp: targetFromRecord_def res_bind_eq_Inr target_public_def record_public_def split: if_splits)

text \<open>
  C18. No locator of any family is a way around publication, on tables whose rows have their keys and
  whose ayahs have their surah (\<open>anchor_store_ok\<close>). Every target of every answer that names a
  book names a public one, and a unit in it is an active unit of that book with an open license,
  under its own Anchor. A unit of the Quran that is a target, or the primary unit of one, is active,
  permitted by its source, belongs to the ayah of the target, and still has the text its source row
  has now (a footnote: the stamp of its translation), in a surah that is not stale.
\<close>
theorem resolved_targets_public:
  assumes "anchor_store_ok db" "ResolveInput (postgres_repo db) f i = Inr r"
    and "b \<in> set (rs_Boundaries r)" "t \<in> set (bd_ActiveTargets b)"
  shows "target_public db t"
proof -
  have "boundary_shows (record_public db) b"
    using public_pg.input_shows [OF assms(2)] assms(1,3) by (simp add: list_all_iff)
  with assms(4) obtain c where "record_public db c" "targetFromRecord c = Inr t"
    by (auto simp: boundary_shows_def list_all_iff)
  then show ?thesis by (rule target_of_record [rotated])
qed

section \<open>Anchors never break\<close>

text \<open>
  The registry as the planners leave it: no cycle, a superseded unit has successors and an active
  one has none, and successors stay in the book.
\<close>

definition registry_sound :: "anchor_store \<Rightarrow> bool" where
  "registry_sound db \<longleftrightarrow> lineage_store_ok db \<and> distinct (map u_Anchor (an_units db)) \<and> acyclic (store_graph db) \<and>
     list_all (\<lambda>u. (u_Lifecycle u = UnitLifecycleSuperseded \<longrightarrow> u_ID u \<in> Domain (store_graph db)) \<and>
       (u_Lifecycle u = UnitLifecycleActive \<longrightarrow> u_ID u \<notin> Domain (store_graph db))) (an_units db) \<and>
     list_all (\<lambda>p. list_all (\<lambda>s. (u_ID p, u_ID s) \<in> store_graph db \<longrightarrow>
       u_Corpus s = u_Corpus p \<and> u_BookID s = u_BookID p) (an_units db)) (an_units db)"

lemma reached_in_book:
  assumes sound: "registry_sound db" and u: "u \<in> set (an_units db)" and s: "s \<in> set (an_units db)" "u_ID s \<in> reached db {u_ID u}"
  shows "u_Corpus s = u_Corpus u \<and> u_BookID s = u_BookID u"
proof -
  have ok: "lineage_store_ok db" using sound by (simp add: registry_sound_def)
  have "\<forall>s\<in>set (an_units db). u_ID s = y \<longrightarrow> u_Corpus s = u_Corpus u \<and> u_BookID s = u_BookID u"
    if "(u_ID u, y) \<in> (store_graph db)\<^sup>*" for y using that
  proof induction
    case base
    then show ?case using unit_row_unique [OF ok _ u] by blast
  next
    case (step x y)
    obtain p where p: "p \<in> set (an_units db)" "u_ID p = x"
      using step(2) ok by (auto simp: lineage_graph_def lineage_store_ok_def list_all_iff)
    with step(3) have "u_Corpus p = u_Corpus u \<and> u_BookID p = u_BookID u" by blast
    with step(2) p sound show ?case by (auto simp: registry_sound_def list_all_iff)
  qed
  with s show ?thesis by (auto simp: reached_def)
qed

text \<open>The lineage ends: from every unit some unit that is not superseded is reached.\<close>

lemma reached_end:
  assumes sound: "registry_sound db" and u: "u \<in> set (an_units db)"
  shows "\<exists>v\<in>set (an_units db). u_ID v \<in> reached db {u_ID u} \<and> u_Lifecycle v \<noteq> UnitLifecycleSuperseded"
proof -
  have ok: "lineage_store_ok db" and ac: "acyclic (store_graph db)" using sound by (simp_all add: registry_sound_def)
  have "finite (store_graph db)" by (simp add: lineage_graph_def)
  then have "wf ((store_graph db)\<inverse>)" using ac by (rule finite_acyclic_wf_converse)
  moreover have "u_ID u \<in> reached db {u_ID u}" by (auto simp: reached_def)
  ultimately obtain z where z: "z \<in> reached db {u_ID u}" "\<And>y. (y, z) \<in> (store_graph db)\<inverse> \<Longrightarrow> y \<notin> reached db {u_ID u}"
    using wfE_min [of "(store_graph db)\<inverse>" "u_ID u" "reached db {u_ID u}"] by blast
  have "z \<notin> Domain (store_graph db)" using z reached_step by fastforce
  moreover have "z \<in> u_ID ` set (an_units db)"
  proof -
    have "snd ` store_graph db \<subseteq> u_ID ` set (an_units db)"
      using ok by (auto simp: lineage_graph_def lineage_store_ok_def list_all_iff)
    then show ?thesis using z(1) u unfolding reached_unfold [of db "{u_ID u}"] by (auto simp: reached_graph_def)
  qed
  ultimately show ?thesis using sound z(1) by (auto simp: registry_sound_def list_all_iff)
qed

lemma targets_unit_ids: "targets_of rs = Inr ts \<Longrightarrow> map tg_UnitID ts = map ar_UnitID rs"
  by (induction rs arbitrary: ts) (auto simp: res_bind_eq_Inr targetFromRecord_def)

lemma kitab_root_row:
  assumes "registry_sound db" "u \<in> set (an_units db)" "u_Corpus u = UnitCorpusKitab" "u_BookID u = Some b" "book_public db b"
  shows "kitab_root db (u_Anchor u) = Some u"
proof -
  have "find (\<lambda>v. u_Corpus v = UnitCorpusKitab \<and> u_Anchor v = u_Anchor u) us = Some u"
    if "distinct (map u_Anchor us)" "u \<in> set us" for us
    using that assms(3) by (induction us) (auto simp: image_iff)
  with assms show ?thesis by (simp add: kitab_root_def registry_sound_def)
qed

lemma unit_walk_total:
  assumes sound: "registry_sound db" and u: "u \<in> set (an_units db)" "u_Corpus u = UnitCorpusKitab" "u_BookID u = Some b"
      "book_public db b" and budget: "within_budget db {u_ID u}"
  shows "\<exists>w. walkLineageUnits db [scanLineageUnit db u] (publicLineagePolicy b) = Inr w"
    and "list_all (root_ok db (publicLineagePolicy b)) [scanLineageUnit db u]"
proof -
  have ok: "lineage_store_ok db" using sound by (simp add: registry_sound_def)
  have id: "lu_ID ` set [scanLineageUnit db u] = {u_ID u}" by (simp add: scanLineageUnit_def scanned_unit_def)
  show roots: "list_all (root_ok db (publicLineagePolicy b)) [scanLineageUnit db u]"
    using u(1) by (auto simp: root_ok_def scanLineageUnit_def scanned_unit_def)
  show "\<exists>w. walkLineageUnits db [scanLineageUnit db u] (publicLineagePolicy b) = Inr w"
  proof (rule walk_total [OF ok roots])
    show "within_budget db (lu_ID ` set [scanLineageUnit db u])" unfolding id by (rule budget)
    show "acyclic (reached_graph db (lu_ID ` set [scanLineageUnit db u])) \<longrightarrow>
        lineage_ends_ok db (lu_ID ` set [scanLineageUnit db u])"
      using sound by (auto simp: lineage_ends_ok_def registry_sound_def list_all_iff)
    have "validateLineageSuccessor x (publicLineagePolicy b) = Inr ()"
      if l: "loads db e p s x" "u_ID p \<in> reached db {u_ID u}" for e p s x
    proof -
      have "(u_ID p, u_ID s) \<in> store_graph db" using l(1) by (force simp: loads_def lineage_graph_def)
      then have "u_ID s \<in> reached db {u_ID u}" using l(2) reached_step by blast
      then have "u_Corpus s = UnitCorpusKitab" "u_BookID s = Some b"
        using reached_in_book [OF sound u(1)] l(1) u(2,3) by (auto simp: loads_def)
      then show ?thesis using l(1) u(4)
        by (simp add: validateLineageSuccessor_def publicLineagePolicy_def loads_def scanned_unit_def)
    qed
    then show "\<forall>e p s x. loads db e p s x \<longrightarrow> u_ID p \<in> reached db (lu_ID ` set [scanLineageUnit db u]) \<longrightarrow>
        validateLineageSuccessor x (publicLineagePolicy b) = Inr ()" unfolding id by blast
  qed
qed

text \<open>
  C17. Anchors never break. In a sound registry (\<open>registry_sound\<close>) the canonical Anchor of any unit of
  a public book, unless it is active with a closed license, resolves in one snapshot of the tables
  when its lineage is within the safety budget: the answer has the lifecycle of the unit as its
  status and exactly the active units with an open license that the lineage leads to as its targets,
  and the lineage always leads to a unit that is not superseded.
\<close>
theorem anchors_never_break:
  assumes "registry_sound db" "u \<in> set (an_units db)" "u_Corpus u = UnitCorpusKitab" "u_BookID u = Some b" "book_public db b"
    and "within_budget db {u_ID u}" "u_Lifecycle u = UnitLifecycleActive \<longrightarrow> license_open u"
    and "point_built p" "pt_kind p = KitabUnit" "u_Anchor u = point_string p"
  shows "\<exists>r bd. Resolve (postgres_repo db) f (u_Anchor u) None None = Inr r \<and> rs_Boundaries r = [bd] \<and>
    bd_Status bd = u_Lifecycle u \<and> bd_CanonicalAnchor bd = Some (u_Anchor u) \<and>
    tg_UnitID ` set (bd_ActiveTargets bd) = Some ` u_ID ` {v \<in> set (an_units db). u_ID v \<in> reached db {u_ID u} \<and>
      u_Lifecycle v = UnitLifecycleActive \<and> license_open v} \<and>
    (\<exists>v\<in>set (an_units db). u_ID v \<in> reached db {u_ID u} \<and> u_Lifecycle v \<noteq> UnitLifecycleSuperseded)"
proof -
  let ?root = "scanLineageUnit db u" and ?pol = "publicLineagePolicy b"
  have ok: "lineage_store_ok db" using assms(1) by (simp add: registry_sound_def)
  obtain w where w: "walkLineageUnits db [?root] ?pol = Inr w" using unit_walk_total(1) [OF assms(1-6)] by blast
  note ex = walk_exact [OF ok unit_walk_total(2) [OF assms(1-6)] w]
  have id: "lu_ID ` set [?root] = {u_ID u}" by (simp add: scanLineageUnit_def scanned_unit_def)
  have "acyclic (reached_graph db {u_ID u})"
    using assms(1) by (auto simp: registry_sound_def reached_graph_def intro: acyclic_subset)
  then have nc: "\<not> lw_CycleDetected w" using ex(1) id by simp
  have act: "lu_ID ` set (lw_ActiveUnits w) = u_ID ` {v \<in> set (an_units db). u_ID v \<in> reached db {u_ID u} \<and>
      u_Lifecycle v = UnitLifecycleActive \<and> license_open v}"
    using ex(2) id by (simp add: shown_def publicLineagePolicy_def)
  have f: "lu_Lifecycle ?root = u_Lifecycle u" "lu_PublicEligible ?root = license_open u" "lu_BookID ?root = b"
      "lu_Anchor ?root = u_Anchor u" using assms(4) by (simp_all add: scanLineageUnit_def scanned_unit_def)
  have np: "\<not> has_prefix (point_string p) ''quran/''"
    using assms(9) by (simp add: point_string_def has_prefix_def)
  have look: "resolvePoint (postgres_repo db) p = Inr \<lparr>lk_CanonicalAnchor = Some (u_Anchor u), lk_Status = u_Lifecycle u,
      lk_ActiveRecords = map lineageUnitRecord (lw_ActiveUnits w), lk_RedirectChain = lw_Redirects w,
      lk_CycleDetected = lw_CycleDetected w\<rparr>"
    using kitab_root_row [OF assms(1-5)] assms(7,9,10) np w
    by (simp add: resolvePoint_def postgres_repo_def ResolveCanonicalUnit_def Let_def f)
  obtain ts where ts: "targets_of (map lineageUnitRecord (lw_ActiveUnits w)) = Inr ts"
    using targets_navigable [of "map lineageUnitRecord (lw_ActiveUnits w)"] by (auto simp: list_all_iff)
  have "tg_UnitID ` set ts = set (map tg_UnitID ts)" by simp
  also have "\<dots> = Some ` lu_ID ` set (lw_ActiveUnits w)"
    unfolding targets_unit_ids [OF ts] by (auto simp: lineageUnitRecord_def compactUnitRecord_def image_iff)
  finally have ids: "tg_UnitID ` set ts = Some ` u_ID ` {v \<in> set (an_units db). u_ID v \<in> reached db {u_ID u} \<and>
      u_Lifecycle v = UnitLifecycleActive \<and> license_open v}" unfolding act .
  have "Resolve (postgres_repo db) f (u_Anchor u) None None = Inr \<lparr>rs_Requested = requested AnchorFormCanonical (u_Anchor u),
      rs_CanonicalAnchor = Some (point_string p), rs_Boundaries = [\<lparr>bd_Role = AnchorBoundaryPoint,
        bd_CanonicalAnchor = Some (u_Anchor u), bd_Status = u_Lifecycle u, bd_ActiveTargets = ts, bd_RedirectChain = lw_Redirects w\<rparr>]\<rparr>"
    unfolding assms(10) Resolve_point [OF assms(8)] canonical_point look
    using nc ts assms(10) by (simp add: boundaryFromLookup_def)
  with ids reached_end [OF assms(1,2)] show ?thesis by simp
qed

lemma demo_anchors_ok: "anchor_store_ok demo_anchors"
  using demo_store_ok by (simp add: anchor_store_ok_def demo_anchors_def surah_of_def)

lemma demo_graph: "store_graph demo_anchors = {(''a'', ''b'')}"
  by (simp add: lineage_graph_def demo_anchors_def)

lemma demo_reached: "reached demo_anchors {''a''} = {''a'', ''b''}"
proof -
  have "{(''a'', ''b'')}\<^sup>* = Id \<union> {(''a'', ''b'')}" by (auto elim: rtranclE intro: rtrancl_into_rtrancl dest: converse_rtranclE)
  then show ?thesis by (auto simp: reached_def demo_graph)
qed

lemma lifecycles_apart: "UnitLifecycleSuperseded \<noteq> UnitLifecycleActive"
  by (simp add: lifecycle_defs)

lemma demo_sound: "registry_sound demo_anchors"
proof -
  have "acyclic (store_graph demo_anchors)" by (simp add: demo_graph acyclic_insert) (simp add: acyclic_def)
  moreover have "distinct (map u_Anchor (an_units demo_anchors))" by (simp add: demo_anchors_def demo_row_def)
  ultimately show ?thesis unfolding registry_sound_def demo_graph
    using demo_store_ok lifecycles_apart lifecycles_apart [symmetric] by (simp add: demo_anchors_def demo_row_def)
qed

lemma demo_budget: "within_budget demo_anchors {''a''}"
proof -
  have "reached_graph demo_anchors {''a''} = {(''a'', ''b'')}" by (auto simp: reached_graph_def demo_graph demo_reached)
  then show ?thesis by (simp add: within_budget_def demo_reached maxAnchorLineageNodes_def maxAnchorLineageEdges_def)
qed

lemma demo_book: "book_public demo_anchors 7"
  by (simp add: book_public_def public_book_def publication_open_def demo_anchors_def)

definition demo_point :: Point where
  "demo_point = zero_point\<lparr>pt_corpus := CorpusKitab, pt_kind := KitabUnit, pt_bookID := 7, pt_headingID := 3, pt_ordinal := 1\<rparr>"

lemma demo_point: "point_built demo_point" "pt_kind demo_point = KitabUnit" "point_string demo_point = ''kitab/7/h/3/u/1''"
proof -
  have "NewKitabUnit 7 3 1 = Inr demo_point"
    by (simp add: NewKitabUnit_def demo_point_def positiveInteger_def nonNegativeInteger_def maxPostgresInteger_def)
  then show "point_built demo_point" by (rule point_built.kitab_unit)
  show "pt_kind demo_point = KitabUnit" by (simp add: demo_point_def)
  show "point_string demo_point = ''kitab/7/h/3/u/1''"
    by (simp add: point_string_def demo_point_def show_int_def show_nat.simps digit_char_def)
qed

section \<open>Witnesses\<close>

theorem legacy_forms_agree_witness:
  "Resolve (postgres_repo demo_anchors) False ''toc-3'' (Some 7) None = map_sum id
     (with_alias ((requested AnchorFormLegacyTOC ''toc-3'')\<lparr>rq_BookID := Some 7\<rparr>) (alias_redirect ''toc-3'' ''kitab/7/h/3''))
     (Resolve (postgres_repo demo_anchors) False ''kitab/7/h/3'' None None)"
proof -
  let ?p = "zero_point\<lparr>pt_corpus := CorpusQuran, pt_kind := QuranAyah, pt_surah := 1, pt_ayah := 1\<rparr>"
  let ?q = "zero_point\<lparr>pt_corpus := CorpusKitab, pt_kind := KitabHeading, pt_bookID := 7, pt_headingID := 3\<rparr>"
  let ?t = "zero_point\<lparr>pt_corpus := CorpusQuran, pt_kind := QuranSurah, pt_surah := 1\<rparr>"
  have "NewQuranAyah 1 1 = Inr ?p" "NewKitabHeading 7 3 = Inr ?q" "NewQuranSurah 1 = Inr ?t"
    by (simp_all add: NewQuranAyah_def NewKitabHeading_def NewQuranSurah_def positiveInteger_def maxPostgresInteger_def)
  from legacy_forms_agree [OF this, of "postgres_repo demo_anchors" False, THEN conjunct2, THEN conjunct1]
  show ?thesis by (simp add: point_string_def show_int_def show_nat.simps digit_char_def)
qed

theorem resolved_targets_public_witness:
  "\<exists>r b t. Resolve (postgres_repo demo_anchors) False ''kitab/7/h/3/u/1'' None None = Inr r \<and> b \<in> set (rs_Boundaries r) \<and>
     t \<in> set (bd_ActiveTargets b) \<and> tg_UnitID t = Some ''b'' \<and> target_public demo_anchors t"
proof -
  let ?u = "demo_row ''a'' ''kitab/7/h/3/u/1'' 1 UnitLifecycleSuperseded"
  have root: "kitab_root demo_anchors ''kitab/7/h/3/u/1'' = Some ?u"
    using demo_book by (simp add: kitab_root_def) (simp add: demo_anchors_def demo_row_def)
  have scan: "scanLineageUnit demo_anchors ?u = demo_old"
    by (simp add: scanLineageUnit_def demo_old_def scanned_unit_def demo_row_def)
  have "resolvePoint (postgres_repo demo_anchors) demo_point = Inr \<lparr>lk_CanonicalAnchor = Some ''kitab/7/h/3/u/1'',
      lk_Status = UnitLifecycleSuperseded, lk_ActiveRecords = [lineageUnitRecord demo_new],
      lk_RedirectChain = [demo_redirect], lk_CycleDetected = False\<rparr>"
    by (simp add: resolvePoint_def demo_point postgres_repo_def ResolveCanonicalUnit_def has_prefix_def root scan Let_def demo_fields
        demo_walk lifecycles_apart)
  moreover obtain t where t: "targetFromRecord (lineageUnitRecord demo_new) = Inr t" "tg_UnitID t = Some ''b''"
    using lineage_navigable [of demo_new]
    by (auto simp: navigable_def targetFromRecord_def lineageUnitRecord_def compactUnitRecord_def demo_fields)
  ultimately obtain r b where r: "Resolve (postgres_repo demo_anchors) False ''kitab/7/h/3/u/1'' None None = Inr r"
      "b \<in> set (rs_Boundaries r)" "t \<in> set (bd_ActiveTargets b)"
    using Resolve_point [OF demo_point(1), of "postgres_repo demo_anchors" False]
    by (simp add: demo_point(3) canonical_point boundaryFromLookup_def)
  have "target_public demo_anchors t"
    by (rule resolved_targets_public [OF demo_anchors_ok r(1) [unfolded Resolve_def] r(2,3)])
  with r t(2) show ?thesis by blast
qed

theorem anchors_never_break_witness:
  "\<exists>r bd. Resolve (postgres_repo demo_anchors) False ''kitab/7/h/3/u/1'' None None = Inr r \<and> rs_Boundaries r = [bd] \<and>
     bd_Status bd = UnitLifecycleSuperseded"
proof -
  let ?u = "demo_row ''a'' ''kitab/7/h/3/u/1'' 1 UnitLifecycleSuperseded"
  have f: "u_ID ?u = ''a''" "u_Corpus ?u = UnitCorpusKitab" "u_BookID ?u = Some 7" "u_Anchor ?u = ''kitab/7/h/3/u/1''"
      "u_Lifecycle ?u = UnitLifecycleSuperseded" by (simp_all add: demo_row_def)
  have "within_budget demo_anchors {u_ID ?u}" "u_Lifecycle ?u = UnitLifecycleActive \<longrightarrow> license_open ?u"
      "u_Anchor ?u = point_string demo_point"
    using lifecycles_apart by (simp_all add: f demo_budget demo_point(3))
  from anchors_never_break [OF demo_sound demo_unit(1) f(2,3) demo_book this(1,2) demo_point(1,2) this(3), of False]
  show ?thesis unfolding f by blast
qed

end
