(* ===== verification/Spec2Isabelle.thy ===== *)
theory Spec2Isabelle
  imports Anchor Policy Content_Lang Unit_Plan_Props Unit_Idempotent Unit_History_Props Mfa_Access Account_Register Quran_Props
    Anchor_Props
begin

text \<open>
  A verification development for the Surau backend, a Go service that serves books and the Quran
  with citations that never break. All paths below are under \<open>src/\<close>.

  \<^bold>\<open>What is modelled.\<close> Five groups of theories, in the order the code builds on them.

  \<^item> Vocabulary. \<open>Prelude\<close> (results with an error branch, decimal text, the collections
    \<open>go_simps\<close> and \<open>codec_intros\<close>), \<open>Go_Strings\<close> (the part of \<open>strings\<close> and \<open>strconv\<close> the sources
    call, on bytes), \<open>Codec\<close> (locales for formats that are read back), \<open>Anchor\<close>
    (\<open>internal/anchor\<close>: points, ranges, the parsers), \<open>Policy\<close> (\<open>internal/policy\<close> and the roles of
    \<open>internal/entity/user.go\<close>), \<open>Content_Lang\<close> (\<open>internal/contentlang\<close>, \<open>internal/readerlang\<close>,
    \<open>internal/quranutil/ayah_key.go\<close>).
  \<^item> The Citable Unit registry of books. \<open>Unit_Types\<close> (\<open>internal/entity/citable_unit.go\<close>,
    \<open>internal/usecase/unitregistry/identity.go\<close>), \<open>Unit_LIS\<close> and \<open>Unit_Plan\<close>
    (\<open>unitregistry/plan.go\<close>: \<open>PlanBook\<close> with its builder threaded through the phases),
    \<open>Unit_History\<close> (\<open>unitregistry/historical.go\<close>). \<open>Unit_Match\<close>, \<open>Unit_Lineage\<close>,
    \<open>Unit_Plan_Inv\<close> and \<open>Unit_Plan_Final\<close> prove the invariant of the scope loop and the shape of a
    finished plan; \<open>Unit_Plan_Props\<close>, \<open>Unit_Idempotent\<close> and \<open>Unit_History_Props\<close> hold the
    properties.
  \<^item> The Citable Unit registry of the Quran. \<open>Quran_Types\<close>, \<open>Quran_Derive\<close> and \<open>Quran_Plan\<close>
    (\<open>unitregistry/quran.go\<close>: derivation of a surah with its footnote parsers, the planner),
    \<open>Quran_Store\<close> (\<open>internal/repo/persistent/quran_citable_unit_postgres.go\<close>: the tables, every
    statement of the batch with the constraints it can violate, the checks before the commit, the
    deferred trigger, and the reconcile loop). \<open>Quran_Derive_Props\<close> and \<open>Quran_Plan_Props\<close> put
    derivation and plan in closed form, \<open>Quran_Apply\<close> the batch; \<open>Quran_Registry\<close> states the
    invariant of the tables; \<open>Quran_Settle\<close>, \<open>Quran_Retire\<close>, \<open>Quran_After\<close>, \<open>Quran_Final\<close> and
    \<open>Quran_Invariant\<close> follow a plan through its batch; \<open>Quran_Reconcile\<close> and \<open>Quran_Contract\<close>
    relate the loop to its contract (\<open>registry_view\<close> of the tables equals \<open>derived_view\<close> of the
    source); \<open>Quran_Props\<close> holds the properties.
  \<^item> Anchor resolution. \<open>Anchor_Store\<close> (the tables the resolver reads, the two views of the
    migrations with their null conditions, the records of \<open>internal/entity/anchor.go\<close>),
    \<open>Lineage_Walk\<close> and \<open>Anchor_Resolve\<close> (\<open>internal/repo/persistent/anchor_postgres.go\<close>: the closure
    query, depths, cycle detection and budget of the lineage walk; one resolver per kind of point),
    \<open>Anchor_Resolver\<close> (\<open>internal/usecase/anchorresolver/anchorresolver.go\<close> over any repository).
    \<open>Lineage_Graph\<close> relates the queues to distance and acyclicity, \<open>Lineage_Props\<close> and
    \<open>Lineage_Total\<close> say what a walk returns and when it succeeds, \<open>Anchor_Provider\<close> states the
    contract of a repository as a locale and \<open>Anchor_Public\<close> what its records may name; the
    PostgreSQL repository interprets both. \<open>Anchor_Props\<close> holds the properties, \<open>Anchor_Demo\<close> the
    store they are applied to.
  \<^item> Accounts. \<open>Auth_Store\<close> (tables, the operation monad, the rate limiter of
    \<open>internal/repo/persistent/user_postgres.go\<close> and \<open>internal/usecase/user/user.go\<close>),
    \<open>Auth_Session\<close> (\<open>auth_session_postgres.go\<close>, \<open>usecase/user/session.go\<close>), \<open>Auth_Lockout\<close>
    (\<open>usecase/user/lockout.go\<close>, \<open>auth_lockout_postgres.go\<close>, the lockout bounds of
    \<open>config/config.go\<close>), \<open>Mfa_Store\<close>, \<open>Mfa_Codes\<close> and \<open>Mfa\<close> (\<open>mfa_postgres.go\<close>,
    \<open>usecase/user/mfa.go\<close>, \<open>Login\<close> of \<open>user.go\<close>, the step-up middleware). \<open>Auth_Session_Props\<close>,
    \<open>Auth_Session_Use\<close>, \<open>Auth_Session_End\<close>, \<open>Mfa_Props\<close> and \<open>Mfa_Access\<close> hold invariants and
    properties. \<open>Account_Store\<close> (the account statements and transactions of \<open>user_postgres.go\<close>:
    users, roles, the three tables of one-time tokens, deletion) and \<open>Account_Use\<close> (the use cases of
    \<open>user.go\<close>: registration, verification, password reset and change, address change, deletion,
    role assignment). \<open>Account_Run\<close> says what each successful transaction did to the tables in one
    equation, \<open>Account_Steps\<close> interleaves the transactions, \<open>Account_Props\<close>, \<open>Account_Change\<close>,
    \<open>Account_Invariant\<close> and \<open>Account_Register\<close> hold the properties. \<open>Auth_Demo\<close>, \<open>Account_Demo\<close> and
    \<open>Quran_Demo\<close> are the concrete inputs the properties are applied to.

  \<^bold>\<open>How code becomes definitions.\<close> A struct is a record whose fields carry a short prefix, an
  enumeration kept as strings in the code stays a string. A Go error is a value of an error
  datatype on the left of a sum; \<open>errors.Is\<close> is equality. A table is a list of rows and an SQL
  statement a function on the tables. In the account theories every statement consumes one entry
  of a schedule of database faults, so each error path of a use case is an input; a transaction
  that fails leaves the tables as they were. In the Quran theories a statement fails on a violated
  constraint and the caller sees the number of rows it affected, as the code checks it.
  Interleavings are explicit. For sessions and factors they are paths of the calls that write
  those tables (\<open>session_step\<close>, \<open>mfa_step\<close>): the calls of their own repositories, the step-up
  stamps, the account transactions that revoke, reset or delete, and the removal of rows by
  maintenance; an invariant of such a path is an interpretation of the locale \<open>session_law\<close> or
  \<open>mfa_law\<close>. For accounts they are sequences of whole transactions, each of which may fail. For
  the Quran loop they are arbitrary changes between its three transactions, assumed only to be
  noticed by the stale mark or the fingerprint when they touch the surah. Two transactions that
  lock different rows are not interleaved inside: \<open>last_admin_kept\<close> is about one run in isolation,
  and \<open>concurrent_demotions\<close> shows what a count that is not locked allows. The resolver reads one
  snapshot. A Go map is a function or a lookup in the list it
  was built from, and where the code ranges over a map the model says why the order cannot matter.

  \<^bold>\<open>Integers, loops and bounds.\<close> Lockout durations are kept in wrapping 64-bit nanoseconds, because
  the escalation can overflow; parsed numbers carry the range check of \<open>strconv\<close>; elsewhere values
  are small and modelled as unbounded integers. The occurrence probe has no bound in the code: it
  is a partial function into options, the planners return options, and that they return is proved
  (\<open>plan_returns\<close>, \<open>quran_reconcile_returns\<close>), never assumed. The three attempts of the reconcile
  loop are the constant of the code; one is enough when nobody interferes.

  \<^bold>\<open>Parameters and hypotheses.\<close> SHA-256, UUIDv5, search normalisation, \<open>html.UnescapeString\<close>, the
  scan for \<open>sup\<close> tags, bcrypt, the collation of the unique index on addresses, case folding, sealing, TOTP values, token signing and the Unicode case tables are
  arguments of the definitions. Where a property needs one of them it says so: UUIDv5 must
  separate the natural keys within reach of the plan, and nothing is assumed of it beyond them.
  The properties of the Quran reconcile start from clean tables, \<open>surah_clean\<close>: the registry
  invariant, one row per surah, identifiers without a separator, and no ayah text that only Go
  trims away, a condition the code does not enforce (\<open>newline_text_never_settles\<close>). That an Anchor
  resolves is proved for a registry as the planners leave it, \<open>registry_sound\<close>.

  \<^bold>\<open>What the lemmas show.\<close> For the planners: they return, account for every derived and every
  registered unit, mint only fresh identifiers and anchors, retire with a lineage that matches the
  lifecycle, keep parents active, and do nothing when run again. For the Quran registry also that
  a successful run leaves the tables refining the derivation, that a run of any outcome keeps
  their invariant, and that the only planned refusal is a drift of the primary text. For accounts:
  one active row per token family, dead tokens stay dead, reuse kills the family, lockout and rate
  limit bounds, one-time use of TOTP steps, recovery codes and challenges, the step-up gate, and
  that a login tells nothing about which addresses exist; for the use cases on an account, what
  a success required and what it did to every table, that a one-time token works once whatever
  interleaves, that an account has at most one unused token per table, that role changes leave an
  administrator, and that a registration can be completed. For anchors: every unit of a public
  book resolves, to the active units its lineage leads to; no locator shows what is not public; the
  lineage walk returns the reachable edges, distances and units exactly; only malformed locators
  are refused as such, and legacy forms answer like the canonical ones. For formats: parsers accept
  exactly what the constructors print.

  \<^bold>\<open>What the model showed.\<close> \<open>lockout_duration_overflow\<close> and \<open>stale_failure_clears_lock\<close>
  (\<open>Auth_Lockout\<close>): the escalated duration can wrap to a lock that is already over, and a lock can
  be erased by a slower concurrent failure. \<open>footnote_order_cyclic\<close> (\<open>Quran_Derive_Props\<close>): the
  footnote comparison is not transitive. \<open>newline_text_never_settles\<close> (\<open>Quran_Props\<close>): a primary
  text that only Go trims away makes every reconcile of its surah fail. The account proofs showed that
  only role changes guard the last administrator and deletion does not, that the count behind the guard
  is not locked (\<open>concurrent_demotions\<close>), that a deleted account keeps rows in four tables
  (\<open>delete_account_complete\<close> lists the tables that are erased), that an address change leaves reset tokens mailed to the old address usable
  (\<open>email_change_complete\<close>), that the cooldown answers tell which addresses exist, and that a
  registered tombstone address blocks a deletion. \<open>missing_source_unreadable\<close> (\<open>Anchor_Props\<close>): a
  retired unit of the Quran whose translation row is gone cannot be read, so its Anchor breaks.

  \<^bold>\<open>Not modelled.\<close> HTTP controllers, routing and JSON binding; the read models assembled by large
  SQL queries (reader, Quran reading, editorial views, search); email, notification and push
  delivery; retrieval, inference and scoring; importers and backfills; configuration, servers and
  logging; generated documentation; the collaboration server, which is TypeScript. These are input
  and output, or calls of services whose code is not here. Of what has logic of its own the
  following is left for later: the derivation of book pages (\<open>deriver.go\<close>, with the HTML
  structure it reads), the book side of the reconcile loop, the editorial production workflow,
  khatam and personal synchronisation, cross references, and of the accounts the profile, the preferences, onboarding,
  the admin listings and the emails that only notify.
\<close>

end
